(* ===== verification/Prelude.thy ===== *)
theory Prelude
  imports Main "HOL-Library.Word" "HOL-Library.List_Lexorder" "HOL-Library.Multiset"
begin

text \<open>
  Shared vocabulary of the splora development: the machine integers of the Rust code, byte
  strings, the outcome of a fallible Rust call (an \<open>Ok\<close>, an \<open>Err\<close> or a panic), the
  iterator adaptors the code uses (\<open>unique_by\<close>, \<open>skip_while\<close>, \<open>position\<close>, \<open>chunks\<close>),
  and the generic machine whose invariants the stateful components instantiate.
\<close>

section \<open>Rust values\<close>

type_synonym byte = "8 word"
type_synonym bytes = "byte list"
type_synonym u16 = "16 word"
type_synonym u32 = "32 word"
type_synonym u64 = "64 word"

text \<open>
  A \<open>Result<T, E>\<close>-returning call ends in one of three ways: it returns a value, it returns an
  error, or it panics (\<open>unwrap\<close>, \<open>expect\<close>, \<open>assert\<close>, an index out of range).
\<close>

datatype ('e, 'a) outcome = Ok 'a | Err 'e | Panic string

fun bind_out :: "('e, 'a) outcome \<Rightarrow> ('a \<Rightarrow> ('e, 'b) outcome) \<Rightarrow> ('e, 'b) outcome" where
  "bind_out (Ok x) f = f x"
| "bind_out (Err e) f = Err e"
| "bind_out (Panic m) f = Panic m"

fun map_out :: "('a \<Rightarrow> 'b) \<Rightarrow> ('e, 'a) outcome \<Rightarrow> ('e, 'b) outcome" where
  "map_out f (Ok x) = Ok (f x)"
| "map_out f (Err e) = Err e"
| "map_out f (Panic m) = Panic m"

text \<open>\<open>iter.map(f).collect::<Result<Vec<_>>>()\<close>: the first failure wins.\<close>

fun collect_out :: "('a \<Rightarrow> ('e, 'b) outcome) \<Rightarrow> 'a list \<Rightarrow> ('e, 'b list) outcome" where
  "collect_out f [] = Ok []"
| "collect_out f (x # xs) =
     bind_out (f x) (\<lambda>y. bind_out (collect_out f xs) (\<lambda>ys. Ok (y # ys)))"

text \<open>\<open>opt.expect(msg)\<close> and \<open>opt.unwrap()\<close>.\<close>

definition expect :: "string \<Rightarrow> 'a option \<Rightarrow> ('e, 'a) outcome" where
  "expect m x = (case x of Some v \<Rightarrow> Ok v | None \<Rightarrow> Panic m)"

text \<open>\<open>opt.chain_err(...)\<close>, \<open>opt.ok_or(e)\<close>.\<close>

definition ok_or :: "'e \<Rightarrow> 'a option \<Rightarrow> ('e, 'a) outcome" where
  "ok_or e x = (case x of Some v \<Rightarrow> Ok v | None \<Rightarrow> Err e)"

definition is_ok :: "('e, 'a) outcome \<Rightarrow> bool" where
  "is_ok r = (case r of Ok _ \<Rightarrow> True | _ \<Rightarrow> False)"

definition panics :: "('e, 'a) outcome \<Rightarrow> bool" where
  "panics r = (case r of Panic _ \<Rightarrow> True | _ \<Rightarrow> False)"

text \<open>\<open>?\<close> on an \<open>Option\<close> inside a function that may also panic, and \<open>r.ok()\<close>.\<close>

definition bind_opt :: "('e, 'a option) outcome \<Rightarrow> ('a \<Rightarrow> ('e, 'b option) outcome) \<Rightarrow> ('e, 'b option) outcome" where
  "bind_opt m f = bind_out m (\<lambda>x. case x of None \<Rightarrow> Ok None | Some v \<Rightarrow> f v)"

definition ok_opt :: "('e, 'a) outcome \<Rightarrow> ('e, 'a option) outcome" where
  "ok_opt r = (case r of Ok x \<Rightarrow> Ok (Some x) | Err _ \<Rightarrow> Ok None | Panic m \<Rightarrow> Panic m)"

text \<open>\<open>iter.filter_map(f)\<close> where \<open>f\<close> may panic.\<close>

fun filter_map_out :: "('a \<Rightarrow> ('e, 'b option) outcome) \<Rightarrow> 'a list \<Rightarrow> ('e, 'b list) outcome" where
  "filter_map_out f [] = Ok []"
| "filter_map_out f (x # xs) =
     bind_out (f x) (\<lambda>y. bind_out (filter_map_out f xs) (\<lambda>ys.
       Ok (case y of None \<Rightarrow> ys | Some v \<Rightarrow> v # ys)))"

section \<open>Slices and iterators\<close>

text \<open>\<open>v.get(i)\<close>.\<close>

definition nth_opt :: "'a list \<Rightarrow> nat \<Rightarrow> 'a option" where
  "nth_opt xs i = (if i < length xs then Some (xs ! i) else None)"

text \<open>\<open>v.first()\<close> and \<open>v.last()\<close>.\<close>

definition first_opt :: "'a list \<Rightarrow> 'a option" where
  "first_opt xs = (case xs of [] \<Rightarrow> None | x # _ \<Rightarrow> Some x)"

definition last_opt :: "'a list \<Rightarrow> 'a option" where
  "last_opt xs = (if xs = [] then None else Some (last xs))"

text \<open>\<open>key.starts_with(prefix)\<close>.\<close>

definition starts_with :: "'a list \<Rightarrow> 'a list \<Rightarrow> bool" where
  "starts_with xs p \<longleftrightarrow> take (length p) xs = p"

text \<open>\<open>iter.position(p)\<close>.\<close>

fun position :: "('a \<Rightarrow> bool) \<Rightarrow> 'a list \<Rightarrow> nat option" where
  "position p [] = None"
| "position p (x # xs) = (if p x then Some 0 else map_option Suc (position p xs))"

text \<open>\<open>itertools::unique_by\<close>: keep the first element of every key.\<close>

fun unique_aux :: "('a \<Rightarrow> 'k) \<Rightarrow> 'k list \<Rightarrow> 'a list \<Rightarrow> 'a list" where
  "unique_aux f seen [] = []"
| "unique_aux f seen (x # xs) =
     (if f x \<in> set seen then unique_aux f seen xs
      else x # unique_aux f (f x # seen) xs)"

definition unique_by :: "('a \<Rightarrow> 'k) \<Rightarrow> 'a list \<Rightarrow> 'a list" where
  "unique_by f xs = unique_aux f [] xs"

text \<open>\<open>slice.chunks(n)\<close>; a chunk size of zero panics in Rust and is not used.\<close>

function chunks :: "nat \<Rightarrow> 'a list \<Rightarrow> 'a list list" where
  "chunks n xs =
     (if n = 0 \<or> xs = [] then [] else take n xs # chunks n (drop n xs))"
  by pat_completeness auto
termination
  by (relation "measure (\<lambda>(n, xs). length xs)") auto

declare chunks.simps [simp del]

text \<open>
  Paging as \<open>history\<close>, \<open>_history\<close> and \<open>history_group\<close> write it:
  \<open>skip_while\<close> up to the last seen key, then \<open>skip\<close> that element itself.
\<close>

definition skip_seen :: "('a \<Rightarrow> 'k) \<Rightarrow> 'k option \<Rightarrow> 'a list \<Rightarrow> 'a list" where
  "skip_seen f last_seen xs =
     (case last_seen of
        None \<Rightarrow> xs
      | Some k \<Rightarrow> drop 1 (dropWhile (\<lambda>x. k \<noteq> f x) xs))"

section \<open>Lemma collections\<close>

named_theorems rust_simps \<open>unfoldings of the Rust combinators\<close>
named_theorems wf_intros \<open>introduction rules for component invariants\<close>

section \<open>Outcomes\<close>

lemma bind_out_Ok_iff [simp]:
  "bind_out m f = Ok y \<longleftrightarrow> (\<exists>x. m = Ok x \<and> f x = Ok y)"
  by (cases m) auto

lemma map_out_Ok_iff [simp]: "map_out f m = Ok y \<longleftrightarrow> (\<exists>x. m = Ok x \<and> y = f x)"
  by (cases m) auto

lemma map_out_bind: "map_out f m = bind_out m (\<lambda>x. Ok (f x))"
  by (cases m) auto

lemma bind_out_assoc [simp]:
  "bind_out (bind_out m f) g = bind_out m (\<lambda>x. bind_out (f x) g)"
  by (cases m) auto

lemma expect_simps [simp, rust_simps]:
  "expect m (Some v) = Ok v" "expect m None = Panic m"
  by (simp_all add: expect_def)

lemma expect_Ok_iff [simp]: "expect m x = Ok v \<longleftrightarrow> x = Some v"
  by (auto simp: expect_def split: option.splits)

lemma expect_not_Err [simp]: "expect m x \<noteq> Err e"
  by (auto simp: expect_def split: option.splits)

lemma ok_or_simps [simp, rust_simps]:
  "ok_or e (Some v) = Ok v" "ok_or e None = Err e"
  by (simp_all add: ok_or_def)

lemma ok_or_Ok_iff [simp]: "ok_or e x = Ok v \<longleftrightarrow> x = Some v"
  by (auto simp: ok_or_def split: option.splits)

lemma ok_or_not_Panic [simp]: "ok_or e x \<noteq> Panic m"
  by (auto simp: ok_or_def split: option.splits)

lemma is_ok_simps [simp, rust_simps]:
  "is_ok (Ok x)" "\<not> is_ok (Err e)" "\<not> is_ok (Panic m)"
  by (simp_all add: is_ok_def)

lemma is_ok_iff: "is_ok r \<longleftrightarrow> (\<exists>x. r = Ok x)"
  by (cases r) auto

lemma panics_simps [simp, rust_simps]:
  "\<not> panics (Ok x)" "\<not> panics (Err e)" "panics (Panic m)"
  by (simp_all add: panics_def)

lemma collect_out_Ok_iff:
  "collect_out f xs = Ok ys \<longleftrightarrow> list_all2 (\<lambda>x y. f x = Ok y) xs ys"
  by (induction xs arbitrary: ys) (auto simp: list_all2_Cons1)

lemma collect_out_total:
  "(\<And>x. x \<in> set xs \<Longrightarrow> f x = Ok (g x)) \<Longrightarrow> collect_out f xs = Ok (map g xs)"
  by (induction xs) auto

lemma collect_out_ex: "\<forall>x\<in>set xs. \<exists>r. f x = Ok r \<Longrightarrow> \<exists>rs. collect_out f xs = Ok rs"
  by (induction xs) auto

lemma map_out_expect_ex: "x \<noteq> None \<Longrightarrow> \<exists>r. map_out g (expect m x) = Ok r"
  by (cases x) auto

text \<open>Collecting a partial lookup succeeds exactly when every lookup does.\<close>

lemma collect_out_lookup:
  assumes "\<And>x. f x = (case g x of Some y \<Rightarrow> Ok (h x y) | None \<Rightarrow> Err (e x))"
  shows "collect_out f xs = Ok ys \<longleftrightarrow>
    (\<forall>x\<in>set xs. g x \<noteq> None) \<and> ys = map (\<lambda>x. h x (the (g x))) xs"
  by (induction xs arbitrary: ys) (auto simp: assms split: option.splits)

lemma bind_opt_simps [simp, rust_simps]:
  "bind_opt (Ok None) f = Ok None" "bind_opt (Ok (Some v)) f = f v"
  "bind_opt (Err e) f = Err e" "bind_opt (Panic m) f = Panic m"
  by (simp_all add: bind_opt_def)

lemma ok_opt_simps [simp, rust_simps]:
  "ok_opt (Ok x) = Ok (Some x)" "ok_opt (Err e) = Ok None" "ok_opt (Panic m) = Panic m"
  by (simp_all add: ok_opt_def)

lemma filter_map_out_total:
  "(\<And>x. x \<in> set xs \<Longrightarrow> f x = Ok (g x)) \<Longrightarrow> filter_map_out f xs = Ok (List.map_filter g xs)"
  by (induction xs) (auto simp: map_filter_simps split: option.splits)

section \<open>Slices and iterators\<close>

lemma nth_opt_Some_iff [simp]: "nth_opt xs i = Some x \<longleftrightarrow> i < length xs \<and> xs ! i = x"
  by (auto simp: nth_opt_def)

lemma nth_opt_None_iff [simp]: "nth_opt xs i = None \<longleftrightarrow> length xs \<le> i"
  by (auto simp: nth_opt_def)

lemma ball_enumerate: "(\<forall>(i, x)\<in>set (enumerate n xs). P x) \<longleftrightarrow> (\<forall>x\<in>set xs. P x)"
proof -
  have "set xs = snd ` set (enumerate n xs)" by (metis list.set_map map_snd_enumerate)
  then show ?thesis by (auto simp: case_prod_beta)
qed

lemma first_opt_simps [simp, rust_simps]:
  "first_opt [] = None" "first_opt (x # xs) = Some x"
  by (simp_all add: first_opt_def)

lemma last_opt_simps [simp, rust_simps]:
  "last_opt [] = None" "last_opt (xs @ [x]) = Some x"
  by (simp_all add: last_opt_def)

lemma last_opt_Some_iff: "last_opt xs = Some x \<longleftrightarrow> xs \<noteq> [] \<and> last xs = x"
  by (auto simp: last_opt_def)

lemma starts_with_append [simp]: "starts_with (p @ xs) p"
  by (simp add: starts_with_def)

lemma starts_with_iff: "starts_with xs p \<longleftrightarrow> (\<exists>ys. xs = p @ ys)"
  unfolding starts_with_def by (metis append_eq_conv_conj append_take_drop_id)

lemma starts_with_length: "starts_with xs p \<Longrightarrow> length p \<le> length xs"
  by (auto simp: starts_with_iff)

lemma position_Some_iff:
  "position p xs = Some i \<longleftrightarrow> i < length xs \<and> p (xs ! i) \<and> (\<forall>j<i. \<not> p (xs ! j))"
proof (induction xs arbitrary: i)
  case Nil
  then show ?case by simp
next
  case (Cons x xs)
  show ?case
  proof (cases "p x")
    case True
    then show ?thesis by (cases i) auto
  next
    case False
    then show ?thesis using Cons.IH by (cases i) (auto simp: less_Suc_eq_0_disj)
  qed
qed

lemma position_None_iff: "position p xs = None \<longleftrightarrow> (\<forall>x\<in>set xs. \<not> p x)"
  by (induction xs) auto

lemma set_unique_aux:
  "f ` set (unique_aux f seen xs) = f ` set xs - set seen"
  by (induction f seen xs rule: unique_aux.induct) auto

lemma distinct_unique_aux: "distinct (map f (unique_aux f seen xs))"
proof (induction f seen xs rule: unique_aux.induct)
  case (2 f seen x xs)
  then show ?case by (simp add: set_unique_aux)
qed simp

lemma subset_unique_aux: "set (unique_aux f seen xs) \<subseteq> set xs"
  by (induction f seen xs rule: unique_aux.induct) auto

lemma unique_by_keys: "f ` set (unique_by f xs) = f ` set xs"
  by (simp add: unique_by_def set_unique_aux)

lemma unique_by_distinct: "distinct (map f (unique_by f xs))"
  by (simp add: unique_by_def distinct_unique_aux)

lemma unique_by_subset: "set (unique_by f xs) \<subseteq> set xs"
  by (simp add: unique_by_def subset_unique_aux)

lemma unique_by_id_set [simp]: "set (unique_by (\<lambda>x. x) xs) = set xs"
  using unique_by_keys [of "\<lambda>x. x" xs] by simp

lemma unique_by_id_distinct [simp]: "distinct (unique_by (\<lambda>x. x) xs)"
  using unique_by_distinct [of "\<lambda>x. x" xs] by simp

lemma skip_seen_subset: "set (skip_seen f k xs) \<subseteq> set xs"
  by (auto simp: skip_seen_def split: option.splits dest!: in_set_dropD set_dropWhileD)

text \<open>Paging from a key that occurs once returns exactly the elements behind it.\<close>

lemma skip_seen_after:
  assumes "f y \<notin> f ` set xs"
  shows "skip_seen f (Some (f y)) (xs @ y # ys) = ys"
proof -
  have "dropWhile (\<lambda>x. f y \<noteq> f x) (xs @ y # ys) = y # ys"
    using assms by (subst dropWhile_append2) (auto simp: image_iff)
  then show ?thesis by (simp add: skip_seen_def)
qed

lemma chunks_Nil [simp]: "chunks n [] = []"
  by (simp add: chunks.simps)

lemma chunks_short: "xs \<noteq> [] \<Longrightarrow> length xs \<le> n \<Longrightarrow> chunks n xs = [xs]"
  by (cases xs) (auto simp: chunks.simps [of n])

lemma concat_chunks: "0 < n \<Longrightarrow> concat (chunks n xs) = xs"
proof (induction n xs rule: chunks.induct)
  case (1 n xs)
  then show ?case by (cases "xs = []") (auto simp: chunks.simps [of n xs])
qed

lemma chunks_lengths: "c \<in> set (chunks n xs) \<Longrightarrow> c \<noteq> [] \<and> length c \<le> n"
proof (induction n xs rule: chunks.induct)
  case (1 n xs)
  then show ?case by (auto simp: chunks.simps [of n xs] split: if_splits)
qed

section \<open>Machines and their invariants\<close>

text \<open>
  A component that is driven by a sequence of operations is a start state and a step relation;
  its reachable states are the least set closed under the steps.
\<close>

inductive reach :: "'s \<Rightarrow> ('s \<Rightarrow> 's \<Rightarrow> bool) \<Rightarrow> 's \<Rightarrow> bool" for s0 :: 's and step where
  reach_init: "reach s0 step s0"
| reach_step: "reach s0 step s \<Longrightarrow> step s t \<Longrightarrow> reach s0 step t"

locale invariant_machine =
  fixes init :: 's
    and step :: "'s \<Rightarrow> 's \<Rightarrow> bool"
    and inv :: "'s \<Rightarrow> bool"
  assumes inv_init: "inv init"
    and inv_step: "inv s \<Longrightarrow> step s t \<Longrightarrow> inv t"
begin

lemma reach_inv: "reach init step s \<Longrightarrow> inv s"
  by (induction rule: reach.induct) (auto intro: inv_init inv_step)

lemma reach_step_inv: "reach init step s \<Longrightarrow> step s t \<Longrightarrow> inv s \<and> inv t"
  by (blast intro: reach_inv inv_step)

end

end
