(* ===== verification/Codec.thy ===== *)
theory Codec
  imports Prelude
begin

text \<open>
  The on-disk codec of \<^verbatim>\<open>src/util/bincode_util.rs\<close>: fixed-width integers in the byte order of
  the configuration (big-endian for history rows, little-endian for everything else), fixed-size
  arrays as their bytes, structs as the concatenation of their fields, enum variants behind a
  32-bit tag, trailing bytes allowed when decoding. The locale \<open>codec\<close> is the contract a row
  format relies on; every integer width and every row key of the schema interprets it.
\<close>

section \<open>Fixed-width integers\<close>

datatype endian = Big | Little

text \<open>\<open>be_bytes n x\<close> are the \<open>n\<close> low bytes of \<open>x\<close>, most significant first.\<close>

fun be_bytes :: "nat \<Rightarrow> nat \<Rightarrow> bytes" where
  "be_bytes 0 x = []"
| "be_bytes (Suc n) x = be_bytes n (x div 256) @ [word_of_nat x]"

fun le_bytes :: "nat \<Rightarrow> nat \<Rightarrow> bytes" where
  "le_bytes 0 x = []"
| "le_bytes (Suc n) x = word_of_nat x # le_bytes n (x div 256)"

definition be_val :: "bytes \<Rightarrow> nat" where
  "be_val bs = foldl (\<lambda>a b. a * 256 + unat b) 0 bs"

fun le_val :: "bytes \<Rightarrow> nat" where
  "le_val [] = 0"
| "le_val (b # bs) = unat b + 256 * le_val bs"

definition ser_uint :: "endian \<Rightarrow> nat \<Rightarrow> nat \<Rightarrow> bytes" where
  "ser_uint e n x = (case e of Big \<Rightarrow> be_bytes n x | Little \<Rightarrow> le_bytes n x)"

definition de_uint :: "endian \<Rightarrow> nat \<Rightarrow> bytes \<Rightarrow> (nat \<times> bytes) option" where
  "de_uint e n bs =
     (if length bs < n then None
      else Some (case e of Big \<Rightarrow> be_val (take n bs) | Little \<Rightarrow> le_val (take n bs), drop n bs))"

definition ser_u8 :: "byte \<Rightarrow> bytes" where
  "ser_u8 x = [x]"

definition de_u8 :: "bytes \<Rightarrow> (byte \<times> bytes) option" where
  "de_u8 bs = (case bs of [] \<Rightarrow> None | b # r \<Rightarrow> Some (b, r))"

definition ser_u16 :: "endian \<Rightarrow> u16 \<Rightarrow> bytes" where
  "ser_u16 e x = ser_uint e 2 (unat x)"

definition ser_u32 :: "endian \<Rightarrow> u32 \<Rightarrow> bytes" where
  "ser_u32 e x = ser_uint e 4 (unat x)"

definition ser_u64 :: "endian \<Rightarrow> u64 \<Rightarrow> bytes" where
  "ser_u64 e x = ser_uint e 8 (unat x)"

definition de_word :: "endian \<Rightarrow> nat \<Rightarrow> bytes \<Rightarrow> ('w::len word \<times> bytes) option" where
  "de_word e n bs = map_option (\<lambda>(v, r). (word_of_nat v, r)) (de_uint e n bs)"

definition de_u16 :: "endian \<Rightarrow> bytes \<Rightarrow> (u16 \<times> bytes) option" where
  "de_u16 e bs = de_word e 2 bs"

definition de_u32 :: "endian \<Rightarrow> bytes \<Rightarrow> (u32 \<times> bytes) option" where
  "de_u32 e bs = de_word e 4 bs"

definition de_u64 :: "endian \<Rightarrow> bytes \<Rightarrow> (u64 \<times> bytes) option" where
  "de_u64 e bs = de_word e 8 bs"

text \<open>
  A fixed-size array field (\<open>FullHash = [u8; 32]\<close>) is its elements, with no length prefix.
\<close>

definition de_array :: "nat \<Rightarrow> bytes \<Rightarrow> (bytes \<times> bytes) option" where
  "de_array n bs = (if length bs < n then None else Some (take n bs, drop n bs))"

section \<open>The contract of a row format\<close>

locale codec =
  fixes enc :: "'a \<Rightarrow> bytes"
    and dec :: "bytes \<Rightarrow> ('a \<times> bytes) option"
    and ok :: "'a \<Rightarrow> bool"
  assumes dec_enc: "ok x \<Longrightarrow> dec (enc x @ r) = Some (x, r)"
begin

lemma decode_full: "ok x \<Longrightarrow> dec (enc x) = Some (x, [])"
  using dec_enc [of x "[]"] by simp

lemma prefix_free:
  assumes "ok x" and "ok y" and "enc x @ r = enc y @ s"
  shows "x = y \<and> r = s"
proof -
  have "Some (x, r) = dec (enc y @ s)" using dec_enc [OF assms(1), of r] assms(3) by metis
  also have "\<dots> = Some (y, s)" by (rule dec_enc [OF assms(2)])
  finally show ?thesis by simp
qed

lemma enc_inject: "ok x \<Longrightarrow> ok y \<Longrightarrow> enc x = enc y \<longleftrightarrow> x = y"
  using prefix_free [of x y "[]" "[]"] by auto

end

text \<open>A codec whose encodings all have one width.\<close>

locale fixed_codec = codec enc dec ok for enc :: "'a \<Rightarrow> bytes" and dec ok +
  fixes width :: nat
  assumes length_enc: "ok x \<Longrightarrow> length (enc x) = width"
begin

lemma starts_with_enc_iff:
  assumes "ok x" and "ok y"
  shows "starts_with (enc x @ r) (enc y) \<longleftrightarrow> x = y"
  using prefix_free [OF assms, of r] by (auto simp: starts_with_iff)

end

section \<open>Integer codecs are inverse and order preserving\<close>

lemma length_be_bytes [simp]: "length (be_bytes n x) = n"
  by (induction n arbitrary: x) auto

lemma le_bytes_4:
  "le_bytes 4 x = [word_of_nat x, word_of_nat (x div 256), word_of_nat (x div 256 div 256),
     word_of_nat (x div 256 div 256 div 256)]"
proof -
  have "(4::nat) = Suc (Suc (Suc (Suc 0)))" by simp
  then show ?thesis by (simp only: le_bytes.simps)
qed

lemma length_le_bytes [simp]: "length (le_bytes n x) = n"
  by (induction n arbitrary: x) auto

lemma length_ser_uint [simp]: "length (ser_uint e n x) = n"
  by (cases e) (auto simp: ser_uint_def)

lemma be_val_snoc [simp]: "be_val (bs @ [b]) = be_val bs * 256 + unat b"
  by (simp add: be_val_def)

lemma unat_byte_of_nat [simp]: "unat (word_of_nat x :: byte) = x mod 256"
  by (simp add: unat_of_nat)

lemma mod_div_256: "(x div 256) mod 256 ^ n * 256 + x mod 256 = x mod 256 ^ Suc n" for x :: nat
proof -
  have "x mod (256 * 256 ^ n) = 256 * (x div 256 mod 256 ^ n) + x mod 256"
    by (rule mod_mult2_eq)
  then show ?thesis by (simp add: mult.commute)
qed

lemma be_val_be_bytes: "be_val (be_bytes n x) = x mod 256 ^ n"
proof (induction n arbitrary: x)
  case 0
  then show ?case by (simp add: be_val_def)
next
  case (Suc n)
  then show ?case using mod_div_256 [of x n] by simp
qed

lemma le_val_le_bytes: "le_val (le_bytes n x) = x mod 256 ^ n"
proof (induction n arbitrary: x)
  case 0
  then show ?case by simp
next
  case (Suc n)
  then show ?case using mod_div_256 [of x n] by (simp add: add.commute mult.commute)
qed

lemma de_ser_uint: "x < 256 ^ n \<Longrightarrow> de_uint e n (ser_uint e n x @ r) = Some (x, r)"
  by (cases e) (simp_all add: de_uint_def ser_uint_def be_val_be_bytes le_val_le_bytes)

lemma de_word_ser_uint:
  assumes "256 ^ n = (2 :: nat) ^ LENGTH('w)"
  shows "de_word e n (ser_uint e n (unat x) @ r) = Some (x :: 'w::len word, r)"
proof -
  have "unat x < 256 ^ n" using assms unsigned_less [of x, where ?'a = nat] by simp
  then show ?thesis by (simp add: de_word_def de_ser_uint)
qed

lemma de_ser_u8 [simp]: "de_u8 (ser_u8 x @ r) = Some (x, r)"
  by (simp add: de_u8_def ser_u8_def)

lemma de_ser_u16 [simp]: "de_u16 e (ser_u16 e x @ r) = Some (x, r)"
  by (simp add: de_u16_def ser_u16_def de_word_ser_uint)

lemma de_ser_u32 [simp]: "de_u32 e (ser_u32 e x @ r) = Some (x, r)"
  by (simp add: de_u32_def ser_u32_def de_word_ser_uint)

lemma de_ser_u64 [simp]: "de_u64 e (ser_u64 e x @ r) = Some (x, r)"
  by (simp add: de_u64_def ser_u64_def de_word_ser_uint)

lemma de_array_append [simp]: "length h = n \<Longrightarrow> de_array n (h @ r) = Some (h, r)"
  by (simp add: de_array_def)

lemma length_ser_words [simp]:
  "length (ser_u8 a) = 1" "length (ser_u16 e b) = 2"
  "length (ser_u32 e c) = 4" "length (ser_u64 e d) = 8"
  by (simp_all add: ser_u8_def ser_u16_def ser_u32_def ser_u64_def)

interpretation u8_codec: fixed_codec ser_u8 de_u8 "\<lambda>_. True" 1
  by unfold_locales simp_all

interpretation u16_codec: fixed_codec "ser_u16 e" "de_u16 e" "\<lambda>_. True" 2 for e
  by unfold_locales simp_all

interpretation u32_codec: fixed_codec "ser_u32 e" "de_u32 e" "\<lambda>_. True" 4 for e
  by unfold_locales simp_all

interpretation u64_codec: fixed_codec "ser_u64 e" "de_u64 e" "\<lambda>_. True" 8 for e
  by unfold_locales simp_all

interpretation array_codec: fixed_codec "\<lambda>h. h" "de_array n" "\<lambda>h. length h = n" n for n
  by unfold_locales simp_all

subsection \<open>Byte-string order\<close>

lemma append_less_append:
  fixes a b c d :: "'a::linorder list"
  assumes "length a = length b"
  shows "a @ c < b @ d \<longleftrightarrow> a < b \<or> (a = b \<and> c < d)"
  using assms by (induction a b rule: list_induct2) auto

lemma append_le_append:
  fixes a b c d :: "'a::linorder list"
  assumes "length a = length b"
  shows "a @ c \<le> b @ d \<longleftrightarrow> a < b \<or> (a = b \<and> c \<le> d)"
  using assms by (induction a b rule: list_induct2) auto

lemma be_bytes_inject:
  "x < 256 ^ n \<Longrightarrow> y < 256 ^ n \<Longrightarrow> be_bytes n x = be_bytes n y \<longleftrightarrow> x = y"
  by (metis be_val_be_bytes mod_less)

lemma byte_of_nat_less: "(word_of_nat x :: byte) < word_of_nat y \<longleftrightarrow> x mod 256 < y mod 256"
  by (simp add: word_less_nat_alt)

lemma div_mod_less: "x < y \<longleftrightarrow> x div k < y div k \<or> (x div k = y div k \<and> x mod k < y mod k)"
  for x y k :: nat
proof (cases "x div k = y div k")
  case True
  then show ?thesis
    by (metis div_mult_mod_eq less_irrefl nat_add_left_cancel_less)
next
  case False
  then show ?thesis
    by (metis div_le_mono le_antisym linorder_not_le nat_less_le)
qed

text \<open>Big-endian encodings sort like the numbers: why history rows are big-endian.\<close>

lemma be_bytes_less:
  "x < 256 ^ n \<Longrightarrow> y < 256 ^ n \<Longrightarrow> be_bytes n x < be_bytes n y \<longleftrightarrow> x < y"
proof (induction n arbitrary: x y)
  case 0
  then show ?case by simp
next
  case (Suc n)
  have x: "x div 256 < 256 ^ n" and y: "y div 256 < 256 ^ n"
    using Suc.prems by (auto simp: less_mult_imp_div_less mult.commute)
  have "be_bytes (Suc n) x < be_bytes (Suc n) y \<longleftrightarrow>
      x div 256 < y div 256 \<or> (x div 256 = y div 256 \<and> x mod 256 < y mod 256)"
    by (simp only: be_bytes.simps append_less_append length_be_bytes Suc.IH [OF x y]
        be_bytes_inject [OF x y] Cons_less_Cons byte_of_nat_less) simp
  also have "\<dots> \<longleftrightarrow> x < y"
    by (rule div_mod_less [symmetric])
  finally show ?case .
qed

lemma ser_u32_big_less [simp]: "ser_u32 Big x < ser_u32 Big y \<longleftrightarrow> x < y"
  using be_bytes_less [of "unat x" 4 "unat y"] unsigned_less [of x, where ?'a = nat] unsigned_less [of y, where ?'a = nat]
  by (simp add: ser_u32_def ser_uint_def word_less_nat_alt)

lemma ser_u16_big_less [simp]: "ser_u16 Big x < ser_u16 Big y \<longleftrightarrow> x < y"
  using be_bytes_less [of "unat x" 2 "unat y"] unsigned_less [of x, where ?'a = nat] unsigned_less [of y, where ?'a = nat]
  by (simp add: ser_u16_def ser_uint_def word_less_nat_alt)

lemma ser_u8_less [simp]: "ser_u8 x < ser_u8 y \<longleftrightarrow> x < y"
  by (simp add: ser_u8_def)

lemma ser_u32_inject [simp]: "ser_u32 e x = ser_u32 e y \<longleftrightarrow> x = y"
  by (simp add: u32_codec.enc_inject)

lemma ser_u16_inject [simp]: "ser_u16 e x = ser_u16 e y \<longleftrightarrow> x = y"
  by (simp add: u16_codec.enc_inject)

lemma ser_u8_inject [simp]: "ser_u8 x = ser_u8 y \<longleftrightarrow> x = y"
  by (simp add: u8_codec.enc_inject)

end
