(* ===== verification/Chain_Types.thy ===== *)
theory Chain_Types
  imports Codec
begin

text \<open>
  The data of the chain as the default (Bitcoin) build sees it, and the small predicates of
  \<^verbatim>\<open>src/chain.rs\<close>, \<^verbatim>\<open>src/util/transaction.rs\<close> and \<^verbatim>\<open>src/util/script.rs\<close>. Transactions, headers
  and scripts come from the \<open>bitcoin\<close> crate; what the code calls of that crate (hashing, consensus
  encoding, script classification, the script instruction iterator) is the record
  \<open>bitcoin_lib\<close>, an argument of every definition that uses it.
\<close>

section \<open>Bitcoin data\<close>

text \<open>Hashes (\<open>Txid\<close>, \<open>BlockHash\<close>, \<open>FullHash\<close>) are their 32 bytes.\<close>

type_synonym hash = bytes

abbreviation hash_ok :: "hash \<Rightarrow> bool" where
  "hash_ok h \<equiv> length h = 32"

record out_point =
  op_txid :: hash
  op_vout :: u32

record tx_out =
  txo_value :: u64
  txo_script_pubkey :: bytes

record tx_in =
  txi_previous_output :: out_point
  txi_script_sig :: bytes
  txi_sequence :: u32
  txi_witness :: "bytes list"

record transaction =
  tx_version :: u32
  tx_lock_time :: u32
  tx_input :: "tx_in list"
  tx_output :: "tx_out list"

record block_header =
  hdr_version :: u32
  hdr_prev_blockhash :: hash
  hdr_merkle_root :: hash
  hdr_time :: u32
  hdr_bits :: u32
  hdr_nonce :: u32

record block =
  blk_header :: block_header
  blk_txdata :: "transaction list"

datatype network = Bitcoin | Testnet | Testnet4 | Regtest | Signet

text \<open>What a script iterator yields; an \<open>InstErr\<close> stands for an \<open>Err\<close> item.\<close>

datatype instruction = PushBytes bytes | Op byte | InstErr

text \<open>The opcode classes \<open>is_provably_unspendable_\<close> tells apart.\<close>

datatype op_class = ReturnOp | IllegalOp | OtherClass

record bitcoin_lib =
  lib_compute_txid :: "transaction \<Rightarrow> hash"
  lib_block_hash :: "block_header \<Rightarrow> hash"
  lib_op_is_null :: "out_point \<Rightarrow> bool"
  lib_tx_is_coinbase :: "transaction \<Rightarrow> bool"
  lib_tx_weight :: "transaction \<Rightarrow> u64"
  lib_block_weight :: "block \<Rightarrow> u64"
  lib_block_total_size :: "block \<Rightarrow> nat"
  lib_sha256 :: "bytes \<Rightarrow> hash"
  lib_sha256d :: "bytes \<Rightarrow> hash"
  lib_classify :: "byte \<Rightarrow> op_class"
  lib_instructions :: "bytes \<Rightarrow> instruction list"
  lib_is_p2sh :: "bytes \<Rightarrow> bool"
  lib_is_p2wsh :: "bytes \<Rightarrow> bool"
  lib_is_p2wpkh :: "bytes \<Rightarrow> bool"
  lib_is_p2tr :: "bytes \<Rightarrow> bool"
  lib_is_witness_program :: "bytes \<Rightarrow> bool"
  lib_address :: "network \<Rightarrow> bytes \<Rightarrow> bytes option"
  lib_serialize_tx :: "transaction \<Rightarrow> bytes"
  lib_deserialize_tx :: "bytes \<Rightarrow> transaction option"
  lib_serialize_txout :: "tx_out \<Rightarrow> bytes"
  lib_deserialize_txout :: "bytes \<Rightarrow> tx_out option"
  lib_serialize_header :: "block_header \<Rightarrow> bytes"
  lib_deserialize_header :: "bytes \<Rightarrow> block_header option"
  lib_deserialize_block :: "bytes \<Rightarrow> block option"
  lib_ser_hash :: "hash \<Rightarrow> bytes"
  lib_de_hash :: "bytes \<Rightarrow> (hash \<times> bytes) option"

text \<open>\<open>BlockHash::from_byte_array([0u8; 32])\<close>.\<close>

definition null_hash :: hash where
  "null_hash = replicate 32 0"

section \<open>Errors\<close>

text \<open>The \<open>ErrorKind\<close> of \<^verbatim>\<open>src/errors.rs\<close>; \<open>Msg\<close> is the kind error_chain makes of a string.\<close>

datatype error_kind =
    Msg string
  | Connection string
  | Interrupt int
  | TooManyUtxos nat
  | TooManyTxs nat
  | DaemonBusy string
  | DaemonUnavailable string

section \<open>Transactions\<close>

definition get_txid :: "bitcoin_lib \<Rightarrow> transaction \<Rightarrow> hash" where
  "get_txid lib tx = lib_compute_txid lib tx"

definition get_block_size :: "bitcoin_lib \<Rightarrow> block \<Rightarrow> nat" where
  "get_block_size lib b = lib_block_total_size lib b"

fun is_regtest :: "network \<Rightarrow> bool" where
  "is_regtest Regtest = True"
| "is_regtest _ = False"

definition network_names :: "string list" where
  "network_names = [''mainnet'', ''testnet'', ''testnet4'', ''regtest'', ''signet'']"

definition network_from :: "string \<Rightarrow> (error_kind, network) outcome" where
  "network_from name =
     (if name = ''mainnet'' then Ok Bitcoin
      else if name = ''testnet'' then Ok Testnet
      else if name = ''testnet4'' then Ok Testnet4
      else if name = ''regtest'' then Ok Regtest
      else if name = ''signet'' then Ok Signet
      else Panic ''unsupported Bitcoin network'')"

text \<open>\<open>full_hash\<close> takes the first 32 bytes of a slice and panics on a shorter one.\<close>

definition full_hash :: "bytes \<Rightarrow> (error_kind, hash) outcome" where
  "full_hash h = (if 32 \<le> length h then Ok (take 32 h) else Panic ''array_ref'')"

definition is_coinbase :: "bitcoin_lib \<Rightarrow> tx_in \<Rightarrow> bool" where
  "is_coinbase lib txin = lib_op_is_null lib (txi_previous_output txin)"

definition has_prevout :: "bitcoin_lib \<Rightarrow> tx_in \<Rightarrow> bool" where
  "has_prevout lib txin = (\<not> lib_op_is_null lib (txi_previous_output txin))"

definition is_provably_unspendable :: "bitcoin_lib \<Rightarrow> bytes \<Rightarrow> bool" where
  "is_provably_unspendable lib script =
     (case first_opt script of
        Some b \<Rightarrow> let cl = lib_classify lib b in cl = ReturnOp \<or> cl = IllegalOp
      | None \<Rightarrow> False)"

definition is_spendable :: "bitcoin_lib \<Rightarrow> tx_out \<Rightarrow> bool" where
  "is_spendable lib txout = (\<not> is_provably_unspendable lib (txo_script_pubkey txout))"

text \<open>
  The previous outputs of the inputs that have one, keyed by input index. A \<open>HashMap<u32, _>\<close>
  whose keys are the input indices, as the list of its entries in input order.
\<close>

definition extract_tx_prevouts ::
  "bitcoin_lib \<Rightarrow> transaction \<Rightarrow> (out_point \<rightharpoonup> tx_out) \<Rightarrow> (error_kind, (u32 \<times> tx_out) list) outcome"
where
  "extract_tx_prevouts lib tx txos =
     collect_out
       (\<lambda>(index, txi).
          case txos (txi_previous_output txi) of
            Some txo \<Rightarrow> Ok (word_of_nat index, txo)
          | None \<Rightarrow> Err (Msg ''missing outpoint''))
       (filter (\<lambda>(_, txi). has_prevout lib txi) (enumerate 0 (tx_input tx)))"

section \<open>Scripts\<close>

definition compute_script_hash :: "bitcoin_lib \<Rightarrow> bytes \<Rightarrow> hash" where
  "compute_script_hash lib script = lib_sha256 lib script"

record inner_scripts =
  is_redeem_script :: "bytes option"
  is_witness_script :: "bytes option"

text \<open>\<open>if let Some(Ok(PushBytes(data))) = script.instructions().last()\<close>.\<close>

definition last_pushdata :: "bitcoin_lib \<Rightarrow> bytes \<Rightarrow> bytes option" where
  "last_pushdata lib script =
     (case last_opt (lib_instructions lib script) of
        Some (PushBytes data) \<Rightarrow> Some data
      | _ \<Rightarrow> None)"

text \<open>The tapscript position of a witness stack: second from the end, or third behind an annex.\<close>

definition tapscript_of :: "bytes list \<Rightarrow> bytes option" where
  "tapscript_of witness =
     (let w_len = length witness in
      case last_opt witness of
        None \<Rightarrow> None
      | Some last_elem \<Rightarrow>
          (let pos = (if 2 \<le> w_len \<and> first_opt last_elem = Some 0x50 then 3 else 2) in
           if pos \<le> w_len then nth_opt witness (w_len - pos) else None))"

definition get_innerscripts :: "bitcoin_lib \<Rightarrow> tx_in \<Rightarrow> tx_out \<Rightarrow> inner_scripts" where
  "get_innerscripts lib txin prevout =
     (let spk = txo_script_pubkey prevout;
          redeem = (if lib_is_p2sh lib spk then last_pushdata lib (txi_script_sig txin) else None);
          witness =
            (if lib_is_p2wsh lib spk \<or> lib_is_p2tr lib spk
                \<or> (case redeem of Some s \<Rightarrow> lib_is_p2wsh lib s | None \<Rightarrow> False)
             then (if lib_is_p2tr lib spk then tapscript_of (txi_witness txin)
                   else last_opt (txi_witness txin))
             else None)
      in \<lparr>is_redeem_script = redeem, is_witness_script = witness\<rparr>)"

section \<open>Lemmas\<close>

lemma null_hash_ok [simp]: "hash_ok null_hash"
  by (simp add: null_hash_def)

lemma full_hash_id [simp]: "hash_ok h \<Longrightarrow> full_hash h = Ok h"
  by (simp add: full_hash_def)

lemma coinbase_iff_no_prevout: "is_coinbase lib txin \<longleftrightarrow> \<not> has_prevout lib txin"
  by (simp add: is_coinbase_def has_prevout_def)

lemma network_names_accepted: "n \<in> set network_names \<longleftrightarrow> is_ok (network_from n)"
  by (simp add: network_names_def network_from_def)

text \<open>\<open>extract_tx_prevouts\<close> fails exactly when a spent outpoint is missing.\<close>

lemma extract_tx_prevouts_Ok_iff:
  "extract_tx_prevouts lib tx txos = Ok ps \<longleftrightarrow>
     (\<forall>txi\<in>set (tx_input tx). has_prevout lib txi \<longrightarrow> txos (txi_previous_output txi) \<noteq> None)
     \<and> ps = map (\<lambda>(i, txi). (word_of_nat i, the (txos (txi_previous_output txi))))
              (filter (\<lambda>(_, txi). has_prevout lib txi) (enumerate 0 (tx_input tx)))"
proof -
  let ?xs = "filter (\<lambda>(_, txi). has_prevout lib txi) (enumerate 0 (tx_input tx))"
  have "(\<forall>(i, txi)\<in>set ?xs. txos (txi_previous_output txi) \<noteq> None) \<longleftrightarrow>
    (\<forall>txi\<in>set (tx_input tx). has_prevout lib txi \<longrightarrow> txos (txi_previous_output txi) \<noteq> None)"
    using ball_enumerate [of 0 "tx_input tx"
        "\<lambda>txi. has_prevout lib txi \<longrightarrow> txos (txi_previous_output txi) \<noteq> None"]
    by force
  moreover have "extract_tx_prevouts lib tx txos = Ok ps \<longleftrightarrow>
      (\<forall>x\<in>set ?xs. txos (txi_previous_output (snd x)) \<noteq> None) \<and>
      ps = map (\<lambda>x. (word_of_nat (fst x), the (txos (txi_previous_output (snd x))))) ?xs"
    unfolding extract_tx_prevouts_def
    by (rule collect_out_lookup [where e = "\<lambda>_. Msg ''missing outpoint''"])
      (simp add: case_prod_beta)
  ultimately show ?thesis by (simp add: case_prod_unfold)
qed

section \<open>A concrete library for examples\<close>

text \<open>
  An instance of \<open>bitcoin_lib\<close> small enough to compute with, used where a statement about any
  library is applied to data: a header hashes to its nonce, a transaction to its lock time.
\<close>

definition demo_hash :: "byte \<Rightarrow> hash" where
  "demo_hash n = n # replicate 31 1"

definition demo_txid :: "byte \<Rightarrow> hash" where
  "demo_txid n = n # replicate 31 2"

definition demo_lib :: bitcoin_lib where
  "demo_lib =
     \<lparr>lib_compute_txid = (\<lambda>tx. demo_txid (ucast (tx_lock_time tx))),
      lib_block_hash = (\<lambda>h. demo_hash (ucast (hdr_nonce h))),
      lib_op_is_null = (\<lambda>pt. op_txid pt = null_hash \<and> op_vout pt = - 1),
      lib_tx_is_coinbase = (\<lambda>tx. case tx_input tx of [i] \<Rightarrow> op_txid (txi_previous_output i) = null_hash | _ \<Rightarrow> False),
      lib_tx_weight = (\<lambda>tx. 400),
      lib_block_weight = (\<lambda>b. 4000),
      lib_block_total_size = (\<lambda>b. 1000),
      lib_sha256 = (\<lambda>bs. take 32 (bs @ replicate 32 3)),
      lib_sha256d = (\<lambda>bs. take 32 (rev bs @ replicate 32 4)),
      lib_classify = (\<lambda>b. if b = 0x6a then ReturnOp else OtherClass),
      lib_instructions = map Op,
      lib_is_p2sh = (\<lambda>_. False), lib_is_p2wsh = (\<lambda>_. False), lib_is_p2wpkh = (\<lambda>_. False),
      lib_is_p2tr = (\<lambda>_. False), lib_is_witness_program = (\<lambda>_. False),
      lib_address = (\<lambda>_ s. if s = [] then None else Some s),
      lib_serialize_tx = (\<lambda>tx. [ucast (tx_lock_time tx)]),
      lib_deserialize_tx = (\<lambda>_. None),
      lib_serialize_txout = (\<lambda>txo. ser_u64 Little (txo_value txo) @ txo_script_pubkey txo),
      lib_deserialize_txout =
        (\<lambda>bs. map_option (\<lambda>(v, r). \<lparr>txo_value = v, txo_script_pubkey = r\<rparr>) (de_u64 Little bs)),
      lib_serialize_header = (\<lambda>h. [ucast (hdr_nonce h)]),
      lib_deserialize_header = (\<lambda>_. None),
      lib_deserialize_block =
        (\<lambda>bs. case bs of [] \<Rightarrow> None
               | b # _ \<Rightarrow> Some \<lparr>blk_header = \<lparr>hdr_version = 1, hdr_prev_blockhash = null_hash,
                   hdr_merkle_root = null_hash, hdr_time = 0, hdr_bits = 0, hdr_nonce = ucast b\<rparr>,
                   blk_txdata = []\<rparr>),
      lib_ser_hash = (\<lambda>h. h),
      lib_de_hash = de_array 32\<rparr>"

definition demo_header :: "u32 \<Rightarrow> hash \<Rightarrow> block_header" where
  "demo_header n prev =
     \<lparr>hdr_version = 1, hdr_prev_blockhash = prev, hdr_merkle_root = null_hash, hdr_time = 100 * n,
      hdr_bits = 0, hdr_nonce = n\<rparr>"

lemma demo_hash_simps [simp]:
  "demo_hash a = demo_hash b \<longleftrightarrow> a = b" "demo_hash a \<noteq> null_hash" "null_hash \<noteq> demo_hash a"
  "demo_txid a = demo_txid b \<longleftrightarrow> a = b" "demo_txid a \<noteq> null_hash" "null_hash \<noteq> demo_txid a"
  "length (demo_hash a) = 32" "length (demo_txid a) = 32"
  by (auto simp: demo_hash_def demo_txid_def null_hash_def numeral_eq_Suc)

lemma demo_lib_sel [simp]:
  "lib_block_hash demo_lib h = demo_hash (ucast (hdr_nonce h))"
  "lib_compute_txid demo_lib tx = demo_txid (ucast (tx_lock_time tx))"
  "lib_op_is_null demo_lib pt \<longleftrightarrow> op_txid pt = null_hash \<and> op_vout pt = - 1"
  by (simp_all add: demo_lib_def)

lemma demo_header_sel [simp]:
  "hdr_nonce (demo_header n p) = n" "hdr_prev_blockhash (demo_header n p) = p"
  "hdr_time (demo_header n p) = 100 * n"
  by (simp_all add: demo_header_def)

end
