(* ===== verification/Merkle.thy ===== *)
theory Merkle
  imports Chain_Types
begin

text \<open>
  The Merkle tree code of \<^verbatim>\<open>src/util/electrum_merkle.rs\<close> that serves the Electrum proofs:
  \<open>merklize\<close> and the loop \<open>create_merkle_branch_and_root\<close>, which computes the root and the branch of
  one leaf in a single pass. The reference definitions are the root of the tree on its own
  (\<open>merkle_root\<close>) and the computation a light client does with a branch (\<open>fold_branch\<close>).
\<close>

section \<open>The code\<close>

definition merklize :: "bitcoin_lib \<Rightarrow> hash \<Rightarrow> hash \<Rightarrow> hash" where
  "merklize lib left right = lib_sha256d lib (left @ right)"

text \<open>One pass of the loop: the padded level, and the level above it.\<close>

definition pad_level :: "hash list \<Rightarrow> hash list" where
  "pad_level hashes = (if odd (length hashes) then hashes @ [last hashes] else hashes)"

definition next_level :: "bitcoin_lib \<Rightarrow> hash list \<Rightarrow> hash list" where
  "next_level lib hashes = map (\<lambda>pair. merklize lib (pair ! 0) (pair ! 1)) (chunks 2 (pad_level hashes))"

text \<open>A level of the tree: pairs are hashed, an odd last element is paired with itself.\<close>

fun tree_level :: "bitcoin_lib \<Rightarrow> hash list \<Rightarrow> hash list" where
  "tree_level lib (a # b # rest) = merklize lib a b # tree_level lib rest"
| "tree_level lib [a] = [merklize lib a a]"
| "tree_level lib [] = []"

lemma length_tree_level: "length (tree_level lib xs) = (length xs + 1) div 2"
  by (induction lib xs rule: tree_level.induct) auto

lemma chunks_2_Cons2 [simp]: "chunks 2 (a # b # xs) = [a, b] # chunks 2 xs"
  by (subst chunks.simps) simp

lemma pad_level_Cons2: "pad_level (a # b # xs) = (a # b # (if xs = [] then [] else pad_level xs))"
  by (auto simp: pad_level_def)

lemma next_level_eq_tree_level: "next_level lib xs = tree_level lib xs"
proof (induction lib xs rule: tree_level.induct)
  case (1 lib a b rest)
  then show ?case by (cases "rest = []") (auto simp: next_level_def pad_level_Cons2)
qed (auto simp: next_level_def pad_level_def)

lemma length_next_level: "length (next_level lib hashes) = (length hashes + 1) div 2"
  by (simp add: next_level_eq_tree_level length_tree_level)

function merkle_loop ::
  "bitcoin_lib \<Rightarrow> hash list \<Rightarrow> nat \<Rightarrow> hash list \<Rightarrow> (error_kind, hash list \<times> hash) outcome"
where
  "merkle_loop lib hashes index merkle =
     (if 1 < length hashes then
        (let sibling = (if even index then index + 1 else index - 1) in
         case nth_opt (pad_level hashes) sibling of
           None \<Rightarrow> Panic ''index out of bounds''
         | Some h \<Rightarrow> merkle_loop lib (next_level lib hashes) (sibling div 2) (merkle @ [h]))
      else case hashes of
             [] \<Rightarrow> Panic ''index out of bounds''
           | h # _ \<Rightarrow> Ok (merkle, h))"
  by pat_completeness auto
termination
  by (relation "measure (\<lambda>(_, hashes, _, _). length hashes)") (auto simp: length_next_level)

declare merkle_loop.simps [simp del]

definition create_merkle_branch_and_root ::
  "bitcoin_lib \<Rightarrow> hash list \<Rightarrow> nat \<Rightarrow> (error_kind, hash list \<times> hash) outcome"
where
  "create_merkle_branch_and_root lib hashes index = merkle_loop lib hashes index []"

section \<open>The reference\<close>

function merkle_root :: "bitcoin_lib \<Rightarrow> hash list \<Rightarrow> hash option" where
  "merkle_root lib [] = None"
| "merkle_root lib [h] = Some h"
| "merkle_root lib (a # b # rest) = merkle_root lib (tree_level lib (a # b # rest))"
  by pat_completeness auto
termination
  by (relation "measure (\<lambda>(_, hashes). length hashes)") (auto simp: length_tree_level)

text \<open>What a client computes from a leaf, its position and the branch.\<close>

fun fold_branch :: "bitcoin_lib \<Rightarrow> hash \<Rightarrow> nat \<Rightarrow> hash list \<Rightarrow> hash" where
  "fold_branch lib leaf pos [] = leaf"
| "fold_branch lib leaf pos (b # branch) =
     fold_branch lib (if even pos then merklize lib leaf b else merklize lib b leaf) (pos div 2) branch"

section \<open>Lemmas\<close>

lemma tree_level_nth:
  "i < length xs \<Longrightarrow> tree_level lib xs ! (i div 2) =
     merklize lib (pad_level xs ! (2 * (i div 2))) (pad_level xs ! (2 * (i div 2) + 1))"
proof (induction lib xs arbitrary: i rule: tree_level.induct)
  case (1 lib a b rest)
  show ?case
  proof (cases "i < 2")
    case True
    then have "i div 2 = 0" by simp
    then show ?thesis by (simp add: pad_level_Cons2)
  next
    case False
    then obtain j where j: "i = Suc (Suc j)" "j < length rest"
      using 1 by (metis Suc_lessD add_2_eq_Suc le_Suc_ex length_Cons not_less not_less_eq)
    then have "rest \<noteq> []" by auto
    then show ?thesis using 1 j by (simp add: pad_level_Cons2)
  qed
next
  case (2 lib a)
  then show ?case by (simp add: pad_level_def)
qed simp

lemma pad_level_nth: "i < length xs \<Longrightarrow> pad_level xs ! i = xs ! i"
  by (simp add: pad_level_def nth_append)

text \<open>One pass: the sibling exists, and hashing the leaf with it gives its parent.\<close>

lemma merkle_pass:
  assumes "i < length xs"
  defines "sibling \<equiv> (if even i then i + 1 else i - 1)"
  shows "sibling < length (pad_level xs)"
    and "sibling div 2 = i div 2"
    and "(if even i then merklize lib (xs ! i) (pad_level xs ! sibling)
          else merklize lib (pad_level xs ! sibling) (xs ! i)) = tree_level lib xs ! (i div 2)"
proof -
  show "sibling < length (pad_level xs)"
    using assms by (auto simp: pad_level_def elim!: oddE evenE)
  show "sibling div 2 = i div 2" by (auto simp: sibling_def elim!: oddE evenE)
  show "(if even i then merklize lib (xs ! i) (pad_level xs ! sibling)
          else merklize lib (pad_level xs ! sibling) (xs ! i)) = tree_level lib xs ! (i div 2)"
    using tree_level_nth [OF assms(1), of lib] pad_level_nth [OF assms(1)]
    by (auto simp: sibling_def elim!: oddE evenE)
qed

lemma merkle_root_step: "1 < length xs \<Longrightarrow> merkle_root lib xs = merkle_root lib (tree_level lib xs)"
  by (cases "(lib, xs)" rule: merkle_root.cases) auto

lemma merkle_root_Some: "xs \<noteq> [] \<Longrightarrow> merkle_root lib xs \<noteq> None"
proof (induction lib xs rule: merkle_root.induct)
  case (3 lib a b rest)
  then show ?case by simp
qed auto

text \<open>The number of levels above \<open>n\<close> leaves.\<close>

fun tree_depth :: "nat \<Rightarrow> nat" where
  "tree_depth n = (if n \<le> 1 then 0 else Suc (tree_depth ((n + 1) div 2)))"

declare tree_depth.simps [simp del]

lemma tree_depth_log: "n \<le> 2 ^ tree_depth n \<and> (1 < n \<longrightarrow> 2 ^ (tree_depth n - 1) < n)"
proof (induction n rule: tree_depth.induct)
  case (1 n)
  show ?case
  proof (cases "n \<le> 1")
    case True
    then show ?thesis by (simp add: tree_depth.simps [of n])
  next
    case False
    let ?m = "(n + 1) div 2"
    have d: "tree_depth n = Suc (tree_depth ?m)" using False by (subst tree_depth.simps) simp
    have IH: "?m \<le> 2 ^ tree_depth ?m" "1 < ?m \<longrightarrow> 2 ^ (tree_depth ?m - 1) < ?m" using 1 False by auto
    have "n \<le> 2 * ?m" by presburger
    then have up: "n \<le> 2 ^ tree_depth n" using IH(1) d by simp
    have "2 ^ (tree_depth n - 1) < n"
    proof (cases "?m \<le> 1")
      case True
      then have "tree_depth ?m = 0" by (subst tree_depth.simps) simp
      then show ?thesis using False d by simp
    next
      case F: False
      then obtain k where k: "tree_depth ?m = Suc k" by (subst (asm) tree_depth.simps) auto
      then have "Suc (2 ^ k) \<le> ?m" using IH(2) F by simp
      moreover have "2 * ?m \<le> n + 1" by presburger
      ultimately show ?thesis using d k by simp
    qed
    then show ?thesis using up by simp
  qed
qed

lemma merkle_loop_correct:
  assumes "index < length hashes"
  shows "\<exists>branch root.
     merkle_loop lib hashes index acc = Ok (acc @ branch, root)
     \<and> merkle_root lib hashes = Some root
     \<and> fold_branch lib (hashes ! index) index branch = root
     \<and> length branch = tree_depth (length hashes)"
  using assms
proof (induction lib hashes index acc rule: merkle_loop.induct)
  case (1 lib hashes index acc)
  show ?case
  proof (cases "1 < length hashes")
    case False
    then obtain h where "hashes = [h]" using 1 by (cases hashes) auto
    then show ?thesis using 1 by (auto simp: merkle_loop.simps tree_depth.simps)
  next
    case True
    let ?s = "if even index then index + 1 else index - 1"
    let ?h = "pad_level hashes ! ?s"
    note pass = merkle_pass [OF 1(2)]
    have "index div 2 < length (next_level lib hashes)" using 1(2) by (simp add: length_next_level)
    then obtain branch root where b: "merkle_loop lib (next_level lib hashes) (?s div 2) (acc @ [?h])
          = Ok ((acc @ [?h]) @ branch, root)"
        "merkle_root lib (next_level lib hashes) = Some root"
        "fold_branch lib (next_level lib hashes ! (index div 2)) (index div 2) branch = root"
        "length branch = tree_depth (length (next_level lib hashes))"
      using 1(1) [OF True refl, of ?h] pass by (auto simp: nth_opt_def)
    have "merkle_loop lib hashes index acc = Ok (acc @ ?h # branch, root)"
      using b(1) True pass(1) by (subst merkle_loop.simps) (simp add: Let_def nth_opt_def)
    moreover have "merkle_root lib hashes = Some root"
      using b(2) merkle_root_step [OF True] by (simp add: next_level_eq_tree_level)
    moreover have "fold_branch lib (hashes ! index) index (?h # branch) = root"
      using b(3) pass(3) by (simp add: next_level_eq_tree_level)
    moreover have "length (?h # branch) = tree_depth (length hashes)"
      using b(4) True by (subst tree_depth.simps) (simp add: length_next_level)
    ultimately show ?thesis by blast
  qed
qed

section \<open>Properties\<close>

text \<open>C3: for every leaf position inside the list, \<open>create_merkle_branch_and_root\<close> ends without an
  index panic; the root it returns is the Merkle root of the list, the branch folds the leaf at that
  position to the root, and the branch has one element per level of the tree (the logarithm of the
  number of leaves, rounded up).\<close>

theorem merkle_branch_correct:
  assumes "index < length hashes"
  shows "\<exists>branch root.
     create_merkle_branch_and_root lib hashes index = Ok (branch, root)
     \<and> merkle_root lib hashes = Some root
     \<and> fold_branch lib (hashes ! index) index branch = root
     \<and> length hashes \<le> 2 ^ length branch
     \<and> (length hashes = 1 \<or> 2 ^ (length branch - 1) < length hashes)"
proof -
  obtain branch root where b: "merkle_loop lib hashes index [] = Ok (branch, root)"
      "merkle_root lib hashes = Some root" "fold_branch lib (hashes ! index) index branch = root"
      "length branch = tree_depth (length hashes)"
    using merkle_loop_correct [OF assms, of lib "[]"] by auto
  then show ?thesis using tree_depth_log [of "length hashes"] assms
    unfolding create_merkle_branch_and_root_def by (metis One_nat_def Suc_lessI gr_implies_not0 neq0_conv)
qed

theorem merkle_branch_correct_witness:
  "\<exists>branch root. create_merkle_branch_and_root demo_lib [demo_txid 1, demo_txid 2, demo_txid 3] 2 = Ok (branch, root)
     \<and> fold_branch demo_lib (demo_txid 3) 2 branch = root \<and> 3 \<le> (2::nat) ^ length branch"
  using merkle_branch_correct [of 2 "[demo_txid 1, demo_txid 2, demo_txid 3]" demo_lib] by auto

end
