(* ===== verification/Sigops.thy ===== *)
theory Sigops
  imports Chain_Types
begin

text \<open>
  Signature-operation counting, the module \<open>sigops\<close> of \<^verbatim>\<open>src/util/transaction.rs\<close>. Script
  parsing and classification are those of the \<open>bitcoin\<close> crate (fields of \<open>bitcoin_lib\<close>). Counts are
  natural numbers: a transaction is at most a few megabytes, so the \<open>usize\<close> sums stay far below the
  word size. The reference is Bitcoin Core's \<open>GetSigOpCount\<close>, which the code cites.
\<close>

section \<open>The code\<close>

datatype script_error = EarlyEndOfScript

abbreviation OP_CHECKSIG :: byte where "OP_CHECKSIG \<equiv> 0xac"
abbreviation OP_CHECKSIGVERIFY :: byte where "OP_CHECKSIGVERIFY \<equiv> 0xad"
abbreviation OP_CHECKMULTISIG :: byte where "OP_CHECKMULTISIG \<equiv> 0xae"
abbreviation OP_CHECKMULTISIGVERIFY :: byte where "OP_CHECKMULTISIGVERIFY \<equiv> 0xaf"

definition decode_pushnum :: "byte \<Rightarrow> byte option" where
  "decode_pushnum op = (if 81 \<le> op \<and> op \<le> 96 then Some (op - 80) else None)"

text \<open>The loop body of \<open>count_sigops\<close>, on the pair \<open>(n, pushnum_cache)\<close>.\<close>

fun count_step :: "bool \<Rightarrow> nat \<times> byte option \<Rightarrow> instruction \<Rightarrow> nat \<times> byte option" where
  "count_step accurate (n, pushnum_cache) (Op opcode) =
     (if opcode = OP_CHECKSIG \<or> opcode = OP_CHECKSIGVERIFY then (n + 1, pushnum_cache)
      else if opcode = OP_CHECKMULTISIG \<or> opcode = OP_CHECKMULTISIGVERIFY then
        (case (accurate, pushnum_cache) of
           (True, Some pushnum) \<Rightarrow> (n + unat pushnum, pushnum_cache)
         | _ \<Rightarrow> (n + 20, pushnum_cache))
      else (n, decode_pushnum opcode))"
| "count_step accurate (n, pushnum_cache) (PushBytes _) = (n, None)"
| "count_step accurate (n, pushnum_cache) InstErr = (n, None)"

definition count_sigops :: "bitcoin_lib \<Rightarrow> bytes \<Rightarrow> bool \<Rightarrow> nat" where
  "count_sigops lib script accurate =
     fst (foldl (count_step accurate) (0, None) (lib_instructions lib script))"

definition get_legacy_sigop_count :: "bitcoin_lib \<Rightarrow> transaction \<Rightarrow> nat" where
  "get_legacy_sigop_count lib tx =
     (let n = foldl (\<lambda>n input. n + count_sigops lib (txi_script_sig input) False) 0 (tx_input tx)
      in foldl (\<lambda>n output. n + count_sigops lib (txo_script_pubkey output) False) n (tx_output tx))"

definition get_p2sh_sigop_count :: "bitcoin_lib \<Rightarrow> transaction \<Rightarrow> tx_out list \<Rightarrow> nat" where
  "get_p2sh_sigop_count lib tx previous_outputs =
     (if lib_tx_is_coinbase lib tx then 0
      else foldl
             (\<lambda>n (input, prevout).
                if lib_is_p2sh lib (txo_script_pubkey prevout) then
                  (case last_opt (lib_instructions lib (txi_script_sig input)) of
                     Some (PushBytes redeem) \<Rightarrow> n + count_sigops lib redeem True
                   | _ \<Rightarrow> n)
                else n)
             0 (zip (tx_input tx) previous_outputs))"

fun is_push_only_insts :: "instruction list \<Rightarrow> bool" where
  "is_push_only_insts [] = True"
| "is_push_only_insts (InstErr # _) = False"
| "is_push_only_insts (Op _ # _) = False"
| "is_push_only_insts (PushBytes _ # insts) = is_push_only_insts insts"

definition is_push_only :: "bitcoin_lib \<Rightarrow> bytes \<Rightarrow> bool" where
  "is_push_only lib script = is_push_only_insts (lib_instructions lib script)"

text \<open>\<open>witness_version\<close> is the raw first opcode of the program.\<close>

definition sig_ops :: "bitcoin_lib \<Rightarrow> bytes list \<Rightarrow> byte \<Rightarrow> bytes \<Rightarrow> nat" where
  "sig_ops lib witness witness_version witness_program =
     (if witness_version = 0 \<and> length witness_program = 20 then 1
      else if witness_version = 0 \<and> length witness_program = 32 then
        (case last_opt witness of Some s \<Rightarrow> count_sigops lib s True | None \<Rightarrow> 0)
      else 0)"

text \<open>
  \<open>count_with_prevout\<close>: the witness program is the output script itself or the last push of a
  push-only P2SH input. \<open>bytes[0]\<close> and \<open>bytes[2..]\<close> panic on a script of fewer than two bytes.
\<close>

definition count_with_prevout ::
  "bitcoin_lib \<Rightarrow> bytes \<Rightarrow> bytes \<Rightarrow> bytes list \<Rightarrow> (script_error, nat) outcome"
where
  "count_with_prevout lib script_pubkey script_sig witness =
     bind_out
       (if lib_is_witness_program lib script_pubkey then Ok (Some script_pubkey)
        else if lib_is_p2sh lib script_pubkey \<and> is_push_only lib script_sig \<and> script_sig \<noteq> []
        then map_out Some (expect ''unwrap'' (last_pushdata lib script_sig))
        else Ok None)
       (\<lambda>found.
          case found of
            None \<Rightarrow> Ok 0
          | Some script \<Rightarrow>
              if lib_is_p2wsh lib script then
                (if length script < 2 then Panic ''slice index''
                 else Ok (sig_ops lib witness (script ! 0) (drop 2 script)))
              else if lib_is_p2wpkh lib script then Ok 1
              else Ok 0)"

fun witness_loop ::
  "bitcoin_lib \<Rightarrow> (tx_in \<times> tx_out) list \<Rightarrow> nat \<Rightarrow> (script_error, nat) outcome"
where
  "witness_loop lib [] n = Ok n"
| "witness_loop lib ((input, prevout) # rest) n =
     bind_out (count_with_prevout lib (txo_script_pubkey prevout) (txi_script_sig input) (txi_witness input))
       (\<lambda>k. witness_loop lib rest (n + k))"

definition get_witness_sigop_count ::
  "bitcoin_lib \<Rightarrow> transaction \<Rightarrow> tx_out list \<Rightarrow> (script_error, nat) outcome"
where
  "get_witness_sigop_count lib tx previous_outputs =
     witness_loop lib (zip (tx_input tx) previous_outputs) 0"

definition get_sigop_cost ::
  "bitcoin_lib \<Rightarrow> transaction \<Rightarrow> tx_out list \<Rightarrow> bool \<Rightarrow> bool \<Rightarrow> (script_error, nat) outcome"
where
  "get_sigop_cost lib tx previous_outputs verify_p2sh verify_witness =
     (let legacy = get_legacy_sigop_count lib tx * 4 in
      if lib_tx_is_coinbase lib tx then Ok legacy
      else if length (tx_input tx) \<noteq> length previous_outputs then Err EarlyEndOfScript
      else if verify_witness \<and> \<not> verify_p2sh then Err EarlyEndOfScript
      else
        (let cost = (if verify_p2sh then legacy + get_p2sh_sigop_count lib tx previous_outputs * 4 else legacy) in
         if verify_witness
         then map_out (\<lambda>w. cost + w) (get_witness_sigop_count lib tx previous_outputs)
         else Ok cost))"

definition transaction_sigop_count ::
  "bitcoin_lib \<Rightarrow> transaction \<Rightarrow> (u32 \<rightharpoonup> tx_out) \<Rightarrow> (script_error, nat) outcome"
where
  "transaction_sigop_count lib tx prevout_map =
     bind_out
       (if lib_tx_is_coinbase lib tx then Ok []
        else collect_out (\<lambda>idx. ok_or EarlyEndOfScript (prevout_map (word_of_nat idx)))
               [0..<length (tx_input tx)])
       (\<lambda>prevouts. get_sigop_cost lib tx prevouts True True)"

section \<open>The reference\<close>

text \<open>
  Bitcoin Core's counter keeps the opcode just before the current one, whatever it was; a multisig
  opcode counts the number that opcode pushes, or 20.
\<close>

fun core_sigops :: "bool \<Rightarrow> byte option \<Rightarrow> instruction list \<Rightarrow> nat" where
  "core_sigops accurate last_op [] = 0"
| "core_sigops accurate last_op (Op opcode # insts) =
     (if opcode = OP_CHECKSIG \<or> opcode = OP_CHECKSIGVERIFY then 1
      else if opcode = OP_CHECKMULTISIG \<or> opcode = OP_CHECKMULTISIGVERIFY then
        (if accurate then (case last_op of Some k \<Rightarrow> unat k | None \<Rightarrow> 20) else 20)
      else 0)
     + core_sigops accurate (decode_pushnum opcode) insts"
| "core_sigops accurate last_op (PushBytes _ # insts) = core_sigops accurate None insts"
| "core_sigops accurate last_op (InstErr # insts) = core_sigops accurate None insts"

definition is_sig_op :: "instruction \<Rightarrow> bool" where
  "is_sig_op i = (i \<in> {Op OP_CHECKSIG, Op OP_CHECKSIGVERIFY, Op OP_CHECKMULTISIG, Op OP_CHECKMULTISIGVERIFY})"

definition is_multisig_op :: "instruction \<Rightarrow> bool" where
  "is_multisig_op i = (i \<in> {Op OP_CHECKMULTISIG, Op OP_CHECKMULTISIGVERIFY})"

text \<open>No multisig opcode directly behind another signature opcode.\<close>

fun sig_ops_apart :: "instruction list \<Rightarrow> bool" where
  "sig_ops_apart (i # j # insts) = (\<not> (is_sig_op i \<and> is_multisig_op j) \<and> sig_ops_apart (j # insts))"
| "sig_ops_apart insts = True"

section \<open>Lemmas\<close>

text \<open>The loop with its accumulator pulled out.\<close>

fun count_from :: "bool \<Rightarrow> byte option \<Rightarrow> instruction list \<Rightarrow> nat" where
  "count_from accurate cache [] = 0"
| "count_from accurate cache (i # insts) =
     fst (count_step accurate (0, cache) i) + count_from accurate (snd (count_step accurate (0, cache) i)) insts"

lemma count_step_acc:
  "count_step accurate (n, cache) i =
     (n + fst (count_step accurate (0, cache) i), snd (count_step accurate (0, cache) i))"
  by (cases i) (auto split: option.splits bool.splits)

lemma foldl_count_from:
  "fst (foldl (count_step accurate) (n, cache) insts) = n + count_from accurate cache insts"
proof (induction insts arbitrary: n cache)
  case (Cons i insts)
  then show ?case
    by (simp add: count_step_acc [of accurate n cache i] del: count_step.simps)
qed simp

lemma count_sigops_from: "count_sigops lib script accurate = count_from accurate None (lib_instructions lib script)"
  by (simp add: count_sigops_def foldl_count_from)

lemma inaccurate_core: "count_from False cache insts = core_sigops False last_op insts"
proof (induction insts arbitrary: cache last_op)
  case (Cons i insts)
  then show ?case by (cases i) (auto split: option.splits)
qed simp

text \<open>
  The code's cache is Core's last opcode, except directly behind a signature opcode, where the code
  still holds an older number.
\<close>

lemma pushnum_of_sig_op:
  "is_sig_op (Op opcode) \<Longrightarrow> decode_pushnum opcode = None"
  by (auto simp: is_sig_op_def decode_pushnum_def)

lemma count_step_cache:
  "\<not> is_sig_op i \<Longrightarrow> snd (count_step accurate (n, cache) i) =
     (case i of Op opcode \<Rightarrow> decode_pushnum opcode | _ \<Rightarrow> None)"
  by (cases i) (auto simp: is_sig_op_def)

lemma pushnum_bound: "decode_pushnum opcode = Some k \<Longrightarrow> unat k \<le> 16"
proof -
  assume "decode_pushnum opcode = Some k"
  then have "81 \<le> opcode" "opcode \<le> 96" "k = opcode - 80" by (auto simp: decode_pushnum_def split: if_splits)
  then have "k \<le> 16" by unat_arith
  then show ?thesis by (simp add: word_le_nat_alt)
qed

lemma accurate_le_core:
  assumes "last_op = cache \<or> last_op = None" and "\<And>k. cache = Some k \<Longrightarrow> unat k \<le> 20"
  shows "count_from True cache insts \<le> core_sigops True last_op insts"
  using assms
proof (induction insts arbitrary: cache last_op)
  case (Cons i insts)
  show ?case
  proof (cases i)
    case (Op opcode)
    show ?thesis
    proof (cases "is_sig_op i")
      case True
      then have "count_from True cache insts \<le> core_sigops True (decode_pushnum opcode) insts"
        using Cons Op pushnum_of_sig_op by metis
      then show ?thesis using True Op Cons.prems
        by (auto simp: is_sig_op_def split: option.splits)
    next
      case False
      then have "count_from True (decode_pushnum opcode) insts \<le> core_sigops True (decode_pushnum opcode) insts"
        using Cons.IH [of "decode_pushnum opcode" "decode_pushnum opcode"] pushnum_bound by fastforce
      then show ?thesis using False Op by (simp add: is_sig_op_def)
    qed
  qed (use Cons in auto)
qed simp

lemma accurate_eq_core:
  assumes "sig_ops_apart insts"
    and "cache = last_op \<or> last_op = None \<and> (\<forall>i rest. insts = i # rest \<longrightarrow> \<not> is_multisig_op i)"
  shows "count_from True cache insts = core_sigops True last_op insts"
  using assms
proof (induction insts arbitrary: cache last_op)
  case (Cons i insts)
  have apart: "sig_ops_apart insts" using Cons.prems(1) by (cases insts) auto
  show ?case
  proof (cases i)
    case (Op opcode)
    show ?thesis
    proof (cases "is_sig_op i")
      case True
      then have "\<forall>j rest. insts = j # rest \<longrightarrow> \<not> is_multisig_op j" using Cons.prems(1) by (cases insts) auto
      then have "count_from True cache insts = core_sigops True (decode_pushnum opcode) insts"
        using Cons.IH [OF apart, of cache "decode_pushnum opcode"] pushnum_of_sig_op True Op by metis
      then show ?thesis using True Op Cons.prems(2)
        by (auto simp: is_sig_op_def is_multisig_op_def split: option.splits)
    next
      case False
      then have "count_from True (decode_pushnum opcode) insts = core_sigops True (decode_pushnum opcode) insts"
        using Cons.IH [OF apart] by blast
      then show ?thesis using False Op by (simp add: is_sig_op_def)
    qed
  qed (use Cons apart in auto)
qed simp

lemma is_push_only_insts_iff: "is_push_only_insts insts \<longleftrightarrow> (\<forall>i\<in>set insts. \<exists>b. i = PushBytes b)"
  by (induction insts rule: is_push_only_insts.induct) auto

text \<open>The witness part in the shape BIP 141 gives it.\<close>

definition witness_program_of :: "bitcoin_lib \<Rightarrow> bytes \<Rightarrow> bytes \<Rightarrow> bytes option" where
  "witness_program_of lib script_pubkey script_sig =
     (if lib_is_witness_program lib script_pubkey then Some script_pubkey
      else if lib_is_p2sh lib script_pubkey \<and> is_push_only lib script_sig then last_pushdata lib script_sig
      else None)"

definition witness_cost :: "bitcoin_lib \<Rightarrow> tx_in \<times> tx_out \<Rightarrow> nat" where
  "witness_cost lib p =
     (case witness_program_of lib (txo_script_pubkey (snd p)) (txi_script_sig (fst p)) of
        None \<Rightarrow> 0
      | Some script \<Rightarrow>
          if lib_is_p2wsh lib script
          then (case last_opt (txi_witness (fst p)) of Some s \<Rightarrow> count_sigops lib s True | None \<Rightarrow> 0)
          else if lib_is_p2wpkh lib script then 1 else 0)"

definition p2sh_cost :: "bitcoin_lib \<Rightarrow> tx_in \<times> tx_out \<Rightarrow> nat" where
  "p2sh_cost lib p =
     (if lib_is_p2sh lib (txo_script_pubkey (snd p))
      then (case last_pushdata lib (txi_script_sig (fst p)) of Some s \<Rightarrow> count_sigops lib s True | None \<Rightarrow> 0)
      else 0)"

text \<open>What the code relies on in the crate: the empty script is the only one without instructions,
  and a P2WSH script is \<open>OP_0\<close> and a 32-byte push.\<close>

definition script_laws :: "bitcoin_lib \<Rightarrow> bool" where
  "script_laws lib \<longleftrightarrow>
     (\<forall>s. lib_instructions lib s = [] \<longleftrightarrow> s = [])
     \<and> (\<forall>s. lib_is_p2wsh lib s \<longrightarrow> length s = 34 \<and> s ! 0 = 0)"

lemma count_with_prevout_total:
  assumes "script_laws lib"
  shows "count_with_prevout lib (txo_script_pubkey prevout) (txi_script_sig input) (txi_witness input)
    = Ok (witness_cost lib (input, prevout))"
proof -
  have p2wsh: "length s = 34 \<and> s ! 0 = 0" if "lib_is_p2wsh lib s" for s
    using assms that by (simp add: script_laws_def)
  have push: "\<exists>b. last_pushdata lib s = Some b" if "is_push_only lib s" "s \<noteq> []" for s
  proof -
    have "lib_instructions lib s \<noteq> []" using assms that(2) by (simp add: script_laws_def)
    moreover from this that(1) obtain b where "last (lib_instructions lib s) = PushBytes b"
      unfolding is_push_only_def is_push_only_insts_iff using last_in_set by blast
    ultimately show ?thesis by (simp add: last_pushdata_def last_opt_def)
  qed
  have "lib_instructions lib [] = []" using assms unfolding script_laws_def by blast
  then have empty: "last_pushdata lib [] = None" by (simp add: last_pushdata_def)
  let ?spk = "txo_script_pubkey prevout" and ?sig = "txi_script_sig input"
  have prog: "(if lib_is_witness_program lib ?spk then Ok (Some ?spk)
      else if lib_is_p2sh lib ?spk \<and> is_push_only lib ?sig \<and> ?sig \<noteq> []
      then map_out Some (expect ''unwrap'' (last_pushdata lib ?sig)) else Ok None)
      = (Ok (witness_program_of lib ?spk ?sig) :: (script_error, bytes option) outcome)"
    using push [of ?sig] empty by (auto simp: witness_program_of_def)
  show ?thesis
    unfolding count_with_prevout_def prog witness_cost_def fst_conv snd_conv bind_out.simps
    by (cases "witness_program_of lib ?spk ?sig") (auto simp: sig_ops_def dest: p2wsh)
qed

lemma witness_loop_total:
  "script_laws lib \<Longrightarrow> witness_loop lib ps n = Ok (n + sum_list (map (witness_cost lib) ps))"
  by (induction ps arbitrary: n) (auto simp: count_with_prevout_total)

lemma foldl_sum: "foldl (\<lambda>n x. n + f x) (n::nat) xs = n + sum_list (map f xs)"
  by (induction xs arbitrary: n) auto

lemma get_p2sh_sigop_count_sum:
  "\<not> lib_tx_is_coinbase lib tx \<Longrightarrow>
     get_p2sh_sigop_count lib tx prevouts = sum_list (map (p2sh_cost lib) (zip (tx_input tx) prevouts))"
proof -
  have "(\<lambda>n (input, prevout).
      if lib_is_p2sh lib (txo_script_pubkey prevout) then
        (case last_opt (lib_instructions lib (txi_script_sig input)) of
           Some (PushBytes redeem) \<Rightarrow> n + count_sigops lib redeem True | _ \<Rightarrow> n)
      else n) = (\<lambda>n p. n + p2sh_cost lib p)"
    by (intro ext) (auto simp: p2sh_cost_def last_pushdata_def split: option.splits instruction.splits)
  then show "\<not> lib_tx_is_coinbase lib tx \<Longrightarrow> ?thesis"
    by (simp add: get_p2sh_sigop_count_def foldl_sum)
qed

lemma get_legacy_sigop_count_sum:
  "get_legacy_sigop_count lib tx =
     sum_list (map (\<lambda>i. core_sigops False None (lib_instructions lib (txi_script_sig i))) (tx_input tx))
     + sum_list (map (\<lambda>t. core_sigops False None (lib_instructions lib (txo_script_pubkey t))) (tx_output tx))"
  by (simp add: get_legacy_sigop_count_def foldl_sum count_sigops_from inaccurate_core [of _ _ None])

section \<open>Properties\<close>

text \<open>C4: \<open>count_sigops\<close> against Bitcoin Core's counter. Without \<open>accurate\<close> the two agree on every
  script. With it the code never counts more than Core, and it counts the same on every script in
  which no multisig opcode stands directly behind another signature opcode.\<close>

theorem count_sigops_core:
  shows "count_sigops lib script False = core_sigops False None (lib_instructions lib script)
    \<and> count_sigops lib script True \<le> core_sigops True None (lib_instructions lib script)
    \<and> (sig_ops_apart (lib_instructions lib script) \<longrightarrow>
         count_sigops lib script True = core_sigops True None (lib_instructions lib script))"
  unfolding count_sigops_from
  using inaccurate_core accurate_le_core [of None None] accurate_eq_core [of _ None None] by auto

theorem count_sigops_core_witness:
  "count_sigops demo_lib [0x52, 0xae, 0xac] True = 3"
  using count_sigops_core [of demo_lib "[0x52, 0xae, 0xac]"]
  by (simp add: demo_lib_def is_sig_op_def is_multisig_op_def decode_pushnum_def)

text \<open>The restriction is needed: the code does not forget the pushed number at a signature opcode,
  so \<open>OP_2 OP_CHECKSIG OP_CHECKMULTISIG\<close> costs 3 here and 21 in Bitcoin Core.\<close>

theorem pushnum_cache_survives_checksig:
  "\<exists>lib script. count_sigops lib script True = 3 \<and> core_sigops True None (lib_instructions lib script) = 21"
  by (rule exI [of _ demo_lib], rule exI [of _ "[0x52, 0xac, 0xae]"])
    (simp add: demo_lib_def count_sigops_def decode_pushnum_def)

text \<open>\<open>transaction_sigop_count\<close> never panics; it is an error exactly when a transaction that is not
  a coinbase has an input without a previous output, and otherwise it is the BIP 141 cost: four
  times the legacy and P2SH counts plus the witness count over all inputs.\<close>

theorem transaction_sigop_count_cost:
  assumes "script_laws lib"
  shows "transaction_sigop_count lib tx prevout_map =
    (let legacy = 4 * get_legacy_sigop_count lib tx in
     if lib_tx_is_coinbase lib tx then Ok legacy
     else if \<exists>i<length (tx_input tx). prevout_map (word_of_nat i) = None then Err EarlyEndOfScript
     else (let ps = zip (tx_input tx) (map (\<lambda>i. the (prevout_map (word_of_nat i))) [0..<length (tx_input tx)])
           in Ok (legacy + 4 * sum_list (map (p2sh_cost lib) ps) + sum_list (map (witness_cost lib) ps))))"
proof (cases "lib_tx_is_coinbase lib tx")
  case True
  then show ?thesis by (simp add: transaction_sigop_count_def get_sigop_cost_def)
next
  case False
  let ?f = "\<lambda>idx. ok_or EarlyEndOfScript (prevout_map (word_of_nat idx))"
  let ?n = "length (tx_input tx)"
  show ?thesis
  proof (cases "\<exists>i<?n. prevout_map (word_of_nat i) = None")
    case True
    have "collect_out ?f is = Err EarlyEndOfScript" if "\<exists>i\<in>set is. prevout_map (word_of_nat i) = None" for "is"
      using that
    proof (induction "is")
      case (Cons j js)
      then show ?case by (cases "prevout_map (word_of_nat j)") auto
    qed simp
    moreover have "\<exists>i\<in>set [0..<?n]. prevout_map (word_of_nat i) = None" using True by auto
    ultimately have "collect_out ?f [0..<?n] = Err EarlyEndOfScript" by blast
    then show ?thesis using False True by (simp add: transaction_sigop_count_def)
  next
    case all: False
    have "collect_out ?f [0..<?n] = Ok (map (\<lambda>i. the (prevout_map (word_of_nat i))) [0..<?n])"
      by (rule collect_out_total) (use all in auto)
    then show ?thesis using False all
      by (simp add: transaction_sigop_count_def get_sigop_cost_def get_p2sh_sigop_count_sum
          get_witness_sigop_count_def witness_loop_total [OF assms] Let_def)
  qed
qed

theorem transaction_sigop_count_cost_witness:
  "transaction_sigop_count demo_lib
     \<lparr>tx_version = 1, tx_lock_time = 7, tx_input = [], tx_output = [\<lparr>txo_value = 5, txo_script_pubkey = [0xac]\<rparr>]\<rparr>
     Map.empty = Ok 4"
proof -
  have "script_laws demo_lib" by (simp add: script_laws_def demo_lib_def)
  from transaction_sigop_count_cost [OF this] show ?thesis
    by (simp add: demo_lib_def get_legacy_sigop_count_def count_sigops_def)
qed

end
