(* ===== verification/Header_List.thy ===== *)
theory Header_List
  imports Chain_Types
begin

text \<open>
  The in-memory best chain of \<^verbatim>\<open>src/util/block.rs\<close>: \<open>HeaderList\<close> and its operations
  (\<open>new\<close>, \<open>order\<close>, \<open>apply\<close>, the lookups, the median time past) and the block metadata types.
  The invariant \<open>wf_headers\<close> says that the vector is a chain from the null hash, that every entry
  sits at its height, and that the \<open>heights\<close> map and the tip agree with the vector; the map may
  also hold stale heights of rolled-back blocks, which the lookups must not return.
\<close>

section \<open>Data\<close>

record block_id =
  bid_height :: nat
  bid_hash :: hash
  bid_time :: u32

record header_entry =
  he_height :: nat
  he_hash :: hash
  he_header :: block_header

record header_list =
  hl_headers :: "header_entry list"
  hl_heights :: "hash \<rightharpoonup> nat"
  hl_tip :: hash

record block_status =
  bs_in_best_chain :: bool
  bs_height :: "nat option"
  bs_next_best :: "hash option"

record block_meta =
  bm_tx_count :: u32
  bm_size :: u32
  bm_weight :: u32

record block_header_meta =
  bhm_header_entry :: header_entry
  bhm_meta :: block_meta
  bhm_mtp :: u32

text \<open>A fetched block with its place in the chain (\<^verbatim>\<open>src/new_index/fetch.rs\<close>).\<close>

record block_entry =
  be_block :: block
  be_entry :: header_entry
  be_size :: u32

section \<open>Operations\<close>

definition MTP_SPAN :: nat where
  "MTP_SPAN = 11"

definition blockid_of :: "header_entry \<Rightarrow> block_id" where
  "blockid_of e = \<lparr>bid_height = he_height e, bid_hash = he_hash e, bid_time = hdr_time (he_header e)\<rparr>"

definition hl_empty :: header_list where
  "hl_empty = \<lparr>hl_headers = [], hl_heights = Map.empty, hl_tip = null_hash\<rparr>"

definition header_by_blockhash :: "header_list \<Rightarrow> hash \<Rightarrow> header_entry option" where
  "header_by_blockhash hl blockhash =
     (case hl_heights hl blockhash of
        None \<Rightarrow> None
      | Some height \<Rightarrow>
          (case nth_opt (hl_headers hl) height of
             None \<Rightarrow> None
           | Some header \<Rightarrow> if blockhash = he_hash header then Some header else None))"

text \<open>\<open>headers.get(height)\<close> with the assertion that the entry is at its height.\<close>

definition header_by_height :: "header_list \<Rightarrow> nat \<Rightarrow> (error_kind, header_entry option) outcome" where
  "header_by_height hl height =
     (case nth_opt (hl_headers hl) height of
        None \<Rightarrow> Ok None
      | Some entry \<Rightarrow>
          if he_height entry = height then Ok (Some entry) else Panic ''assert_eq height'')"

text \<open>Consecutive headers point to each other: the loop of assertions in \<open>order\<close>.\<close>

definition hashed_linked :: "(hash \<times> block_header) list \<Rightarrow> bool" where
  "hashed_linked hs \<longleftrightarrow>
     (\<forall>i\<in>set [1..<length hs]. hdr_prev_blockhash (snd (hs ! i)) = fst (hs ! (i - 1)))"

definition hl_order ::
  "bitcoin_lib \<Rightarrow> header_list \<Rightarrow> block_header list \<Rightarrow> (error_kind, header_entry list) outcome"
where
  "hl_order lib hl new_headers =
     (let hashed = map (\<lambda>h. (lib_block_hash lib h, h)) new_headers in
      if \<not> hashed_linked hashed then Panic ''assert_eq prev_blockhash''
      else case hashed of
             [] \<Rightarrow> Ok []
           | (_, h0) # _ \<Rightarrow>
               bind_out
                 (if hdr_prev_blockhash h0 = null_hash then Ok 0
                  else map_out (\<lambda>e. he_height e + 1)
                         (expect ''not part of the blockchain''
                            (header_by_blockhash hl (hdr_prev_blockhash h0))))
                 (\<lambda>new_height.
                    Ok (map (\<lambda>(height, bh, h). \<lparr>he_height = height, he_hash = bh, he_header = h\<rparr>)
                          (enumerate new_height hashed))))"

text \<open>The assertions \<open>apply\<close> makes about consecutive new entries.\<close>

definition entries_linked :: "header_entry list \<Rightarrow> bool" where
  "entries_linked es \<longleftrightarrow>
     (\<forall>i\<in>set [1..<length es].
        he_height (es ! (i - 1)) + 1 = he_height (es ! i)
        \<and> he_hash (es ! (i - 1)) = hdr_prev_blockhash (he_header (es ! i)))"

text \<open>The push loop of \<open>apply\<close>.\<close>

fun push_headers :: "header_list \<Rightarrow> header_entry list \<Rightarrow> (error_kind, header_list) outcome" where
  "push_headers hl [] = Ok hl"
| "push_headers hl (e # es) =
     (if he_height e \<noteq> length (hl_headers hl) then Panic ''assert_eq height''
      else push_headers
             \<lparr>hl_headers = hl_headers hl @ [e],
              hl_heights = (hl_heights hl)(he_hash e \<mapsto> he_height e),
              hl_tip = he_hash e\<rparr> es)"

definition hl_apply ::
  "header_list \<Rightarrow> header_entry list
    \<Rightarrow> (error_kind, header_list \<times> header_entry list \<times> hash option) outcome"
where
  "hl_apply hl new_headers =
     (if \<not> entries_linked new_headers then Panic ''assert_eq new_headers''
      else case new_headers of
             [] \<Rightarrow> Ok (hl, [], None)
           | entry # _ \<Rightarrow>
               (let height = he_height entry in
                bind_out
                  (if 0 < height then map_out he_hash (expect ''index'' (nth_opt (hl_headers hl) (height - 1)))
                   else Ok null_hash)
                  (\<lambda>expected_prev_blockhash.
                     if hdr_prev_blockhash (he_header entry) \<noteq> expected_prev_blockhash
                     then Panic ''assert_eq prev_blockhash''
                     else
                       (let removed = drop height (hl_headers hl);
                            kept = hl\<lparr>hl_headers := take height (hl_headers hl)\<rparr>;
                            reorged_tip = (if removed \<noteq> [] then map_option he_hash (last_opt (hl_headers kept))
                                           else None)
                        in bind_out (push_headers kept new_headers)
                             (\<lambda>hl'. Ok (hl', rev removed, reorged_tip))))))"

text \<open>
  \<open>HeaderList::new\<close> walks back from the tip, removing each header it uses from the map, so the
  walk stops after at most as many steps as the map has entries. The \<open>HashMap\<close> is the list of its
  entries.
\<close>

definition map_remove :: "'k \<Rightarrow> ('k \<times> 'v) list \<Rightarrow> ('k \<times> 'v) list" where
  "map_remove k m = filter (\<lambda>e. fst e \<noteq> k) m"

function chain_back ::
  "(hash \<times> block_header) list \<Rightarrow> hash \<Rightarrow> block_header list \<Rightarrow> (error_kind, block_header list) outcome"
where
  "chain_back headers_map blockhash headers_chain =
     (if blockhash = null_hash then Ok headers_chain
      else case map_of headers_map blockhash of
             None \<Rightarrow> Panic ''missing expected blockhash in headers map''
           | Some header \<Rightarrow>
               chain_back (map_remove blockhash headers_map) (hdr_prev_blockhash header)
                 (headers_chain @ [header]))"
  by pat_completeness auto
termination
proof (relation "measure (\<lambda>(m, _, _). length m)", goal_cases)
  case (2 m h chain header)
  then have "(h, header) \<in> set m" by (auto dest: map_of_SomeD)
  then show ?case by (auto simp: map_remove_def intro: length_filter_less)
qed simp

declare chain_back.simps [simp del]

definition hl_new ::
  "bitcoin_lib \<Rightarrow> (hash \<times> block_header) list \<Rightarrow> hash \<Rightarrow> (error_kind, header_list) outcome"
where
  "hl_new lib headers_map tip_hash =
     bind_out (chain_back headers_map tip_hash [])
       (\<lambda>headers_chain.
          bind_out (hl_order lib hl_empty (rev headers_chain))
            (\<lambda>entries. map_out fst (hl_apply hl_empty entries)))"

definition hl_equals :: "header_list \<Rightarrow> header_list \<Rightarrow> bool" where
  "hl_equals a b \<longleftrightarrow> last_opt (hl_headers a) = last_opt (hl_headers b)"

definition last_hash :: "header_entry list \<Rightarrow> hash" where
  "last_hash es = (case last_opt es of Some e \<Rightarrow> he_hash e | None \<Rightarrow> null_hash)"

definition tip_of :: "header_list \<Rightarrow> (error_kind, hash) outcome" where
  "tip_of hl = (if hl_tip hl = last_hash (hl_headers hl) then Ok (hl_tip hl) else Panic ''assert_eq tip'')"

definition hl_len :: "header_list \<Rightarrow> nat" where
  "hl_len hl = length (hl_headers hl)"

definition hl_is_empty :: "header_list \<Rightarrow> bool" where
  "hl_is_empty hl \<longleftrightarrow> hl_headers hl = []"

text \<open>
  The median time past. On an empty list and a positive height, \<open>len() - 1\<close> underflows: with
  overflow checks that is a panic, and without them the wrapped bound sends the code into the
  window, whose \<open>unwrap\<close> panics.
\<close>

definition get_mtp :: "header_list \<Rightarrow> nat \<Rightarrow> (error_kind, u32) outcome" where
  "get_mtp hl height =
     (if height = 0 then
        map_out (\<lambda>e. hdr_time (he_header e)) (expect ''unwrap'' (first_opt (hl_headers hl)))
      else if hl_len hl = 0 then Panic ''unwrap''
      else if hl_len hl - 1 < height then Ok 0
      else (let timestamps = sort (map (\<lambda>p. hdr_time (he_header (hl_headers hl ! p)))
                                     [height - (MTP_SPAN - 1)..<Suc height])
            in Ok (timestamps ! (length timestamps div 2))))"

definition bs_confirmed :: "nat \<Rightarrow> hash option \<Rightarrow> block_status" where
  "bs_confirmed height next_best =
     \<lparr>bs_in_best_chain = True, bs_height = Some height, bs_next_best = next_best\<rparr>"

definition bs_orphaned :: block_status where
  "bs_orphaned = \<lparr>bs_in_best_chain = False, bs_height = None, bs_next_best = None\<rparr>"

definition block_meta_of :: "bitcoin_lib \<Rightarrow> block_entry \<Rightarrow> block_meta" where
  "block_meta_of lib b =
     \<lparr>bm_tx_count = word_of_nat (length (blk_txdata (be_block b))),
      bm_size = be_size b,
      bm_weight = ucast (lib_block_weight lib (be_block b))\<rparr>"

section \<open>The invariant\<close>

text \<open>A list of entries that is a chain from the null hash.\<close>

definition wf_entries :: "bitcoin_lib \<Rightarrow> header_entry list \<Rightarrow> bool" where
  "wf_entries lib es \<longleftrightarrow>
     (\<forall>i<length es.
        he_height (es ! i) = i
        \<and> he_hash (es ! i) = lib_block_hash lib (he_header (es ! i))
        \<and> hdr_prev_blockhash (he_header (es ! i)) = (if i = 0 then null_hash else he_hash (es ! (i - 1))))"

definition wf_headers :: "bitcoin_lib \<Rightarrow> header_list \<Rightarrow> bool" where
  "wf_headers lib hl \<longleftrightarrow>
     wf_entries lib (hl_headers hl)
     \<and> (\<forall>i<length (hl_headers hl). hl_heights hl (he_hash (hl_headers hl ! i)) = Some i)
     \<and> hl_tip hl = last_hash (hl_headers hl)"

text \<open>
  Block hashes are treated as collision free on the headers at hand, none of them being the null
  hash: what the code assumes of double SHA-256.
\<close>

definition collision_free :: "bitcoin_lib \<Rightarrow> block_header set \<Rightarrow> bool" where
  "collision_free lib hs \<longleftrightarrow>
     inj_on (lib_block_hash lib) hs \<and> null_hash \<notin> lib_block_hash lib ` hs"

text \<open>The entries of a whole chain of headers, genesis first.\<close>

definition entries_of :: "bitcoin_lib \<Rightarrow> block_header list \<Rightarrow> header_entry list" where
  "entries_of lib hs =
     map (\<lambda>(i, h). \<lparr>he_height = i, he_hash = lib_block_hash lib h, he_header = h\<rparr>) (enumerate 0 hs)"

text \<open>A list of headers that is a chain from the null hash.\<close>

definition header_chain :: "bitcoin_lib \<Rightarrow> block_header list \<Rightarrow> bool" where
  "header_chain lib hs \<longleftrightarrow>
     (\<forall>i<length hs. hdr_prev_blockhash (hs ! i) = (if i = 0 then null_hash else lib_block_hash lib (hs ! (i - 1))))"

section \<open>Chains of entries\<close>

lemma collision_free_subset:
  "collision_free lib U \<Longrightarrow> V \<subseteq> U \<Longrightarrow> collision_free lib V"
  unfolding collision_free_def by (auto intro: inj_on_subset)

lemma wf_entries_Nil [simp]: "wf_entries lib []"
  by (simp add: wf_entries_def)

lemma wf_entriesD:
  assumes "wf_entries lib es" "i < length es"
  shows "he_height (es ! i) = i"
    and "he_hash (es ! i) = lib_block_hash lib (he_header (es ! i))"
    and "hdr_prev_blockhash (he_header (es ! i)) = (if i = 0 then null_hash else he_hash (es ! (i - 1)))"
  using assms by (auto simp: wf_entries_def)

lemma wf_entries_take: "wf_entries lib es \<Longrightarrow> wf_entries lib (take n es)"
  by (auto simp: wf_entries_def)

lemma same_hash_same_header:
  assumes "wf_entries lib es" "collision_free lib (he_header ` set es)"
    and "i < length es" "j < length es" "he_hash (es ! i) = he_hash (es ! j)"
  shows "he_header (es ! i) = he_header (es ! j)"
proof (rule inj_onD [of "lib_block_hash lib" "he_header ` set es"])
  show "inj_on (lib_block_hash lib) (he_header ` set es)" using assms(2) by (simp add: collision_free_def)
  show "lib_block_hash lib (he_header (es ! i)) = lib_block_hash lib (he_header (es ! j))"
    using assms wf_entriesD(2) [OF assms(1)] by metis
qed (use assms in auto)

text \<open>Two positions of a chain with the same hash have predecessors with the same hash.\<close>

lemma chain_hash_back:
  assumes "wf_entries lib es" "collision_free lib (he_header ` set es)"
    and "i < j" "j < length es" "he_hash (es ! i) = he_hash (es ! j)"
  shows False
  using assms
proof (induction i arbitrary: j)
  case (0 j)
  then have "he_header (es ! 0) = he_header (es ! j)"
    by (intro same_hash_same_header [of lib]) auto
  then have "null_hash = he_hash (es ! (j - 1))"
    using wf_entriesD(3) [OF 0(1), of 0] wf_entriesD(3) [OF 0(1) 0(4)] 0 by (cases es) auto
  moreover have "he_hash (es ! (j - 1)) \<in> lib_block_hash lib ` he_header ` set es"
    using wf_entriesD(2) [OF 0(1), of "j - 1"] 0 by auto
  ultimately show False using 0(2) by (simp add: collision_free_def)
next
  case (Suc i j)
  then have "he_header (es ! Suc i) = he_header (es ! j)"
    by (intro same_hash_same_header [of lib]) auto
  then have "he_hash (es ! i) = he_hash (es ! (j - 1))"
    using wf_entriesD(3) [OF Suc(2), of "Suc i"] wf_entriesD(3) [OF Suc(2) Suc(5)] Suc by auto
  moreover have "i < j - 1" "j - 1 < length es" using Suc.prems by linarith+
  ultimately show False using Suc.IH Suc.prems(1,2) by blast
qed

lemma chain_distinct:
  assumes "wf_entries lib es" "collision_free lib (he_header ` set es)"
  shows "distinct (map he_hash es)"
  unfolding distinct_conv_nth using chain_hash_back [OF assms]
  by (metis length_map linorder_neqE_nat nth_map)

lemma wf_entries_append:
  assumes "wf_entries lib xs"
    and "\<And>i. i < length ys \<Longrightarrow> he_height (ys ! i) = length xs + i"
    and "\<And>e. e \<in> set ys \<Longrightarrow> he_hash e = lib_block_hash lib (he_header e)"
    and "entries_linked ys"
    and "ys \<noteq> [] \<Longrightarrow> hdr_prev_blockhash (he_header (ys ! 0)) = last_hash xs"
  shows "wf_entries lib (xs @ ys)"
  unfolding wf_entries_def
proof (intro allI impI)
  fix i assume i: "i < length (xs @ ys)"
  show "he_height ((xs @ ys) ! i) = i
      \<and> he_hash ((xs @ ys) ! i) = lib_block_hash lib (he_header ((xs @ ys) ! i))
      \<and> hdr_prev_blockhash (he_header ((xs @ ys) ! i)) =
         (if i = 0 then null_hash else he_hash ((xs @ ys) ! (i - 1)))"
  proof (cases "i < length xs")
    case True
    then show ?thesis using wf_entriesD [OF assms(1) True] by (auto simp: nth_append)
  next
    case False
    then obtain k where k: "i = length xs + k" "k < length ys"
      using i by (metis add_diff_inverse_nat length_append nat_add_left_cancel_less)
    have prev: "hdr_prev_blockhash (he_header (ys ! k)) =
        (if i = 0 then null_hash else he_hash ((xs @ ys) ! (i - 1)))"
    proof (cases k)
      case 0
      then show ?thesis using assms(5) k
        by (cases "xs = []") (auto simp: last_hash_def last_opt_def nth_append last_conv_nth)
    next
      case (Suc m)
      then have "he_hash (ys ! m) = hdr_prev_blockhash (he_header (ys ! k))"
        using assms(4) k by (auto simp: entries_linked_def dest!: bspec [of _ _ k])
      then show ?thesis using k Suc by (simp add: nth_append)
    qed
    show ?thesis using k assms(2,3) prev by (auto simp: nth_append)
  qed
qed

section \<open>The effect of apply\<close>

definition heights_after :: "(hash \<rightharpoonup> nat) \<Rightarrow> header_entry list \<Rightarrow> (hash \<rightharpoonup> nat)" where
  "heights_after m es = foldl (\<lambda>m e. m(he_hash e \<mapsto> he_height e)) m es"

lemma heights_after_simps [simp]:
  "heights_after m [] = m"
  "heights_after m (e # es) = heights_after (m(he_hash e \<mapsto> he_height e)) es"
  by (simp_all add: heights_after_def)

lemma heights_after_other: "h \<notin> he_hash ` set es \<Longrightarrow> heights_after m es h = m h"
  by (induction es arbitrary: m) auto

lemma heights_after_nth:
  assumes "distinct (map he_hash es)" "i < length es"
  shows "heights_after m es (he_hash (es ! i)) = Some (he_height (es ! i))"
  using assms
proof (induction es arbitrary: m i)
  case (Cons e es)
  then show ?case by (cases i) (auto simp: heights_after_other)
qed simp

lemma push_headers_Ok_iff:
  "push_headers hl es = Ok hl' \<longleftrightarrow>
     (\<forall>i<length es. he_height (es ! i) = length (hl_headers hl) + i)
     \<and> hl_headers hl' = hl_headers hl @ es
     \<and> hl_heights hl' = heights_after (hl_heights hl) es
     \<and> hl_tip hl' = (if es = [] then hl_tip hl else he_hash (last es))"
proof (induction hl es rule: push_headers.induct)
  case (1 hl)
  show ?case by (auto intro: header_list.equality)
next
  case (2 hl e es)
  show ?case
  proof (cases "he_height e = length (hl_headers hl)")
    case True
    then show ?thesis using 2 by (simp add: All_less_Suc2 fun_upd_def)
  next
    case False
    then show ?thesis by (auto simp: All_less_Suc2)
  qed
qed

lemma entries_linked_heights:
  assumes "entries_linked es" "i < length es"
  shows "he_height (es ! i) = he_height (es ! 0) + i"
  using assms(2)
proof (induction i)
  case (Suc i)
  then show ?case using assms(1) by (auto simp: entries_linked_def dest!: bspec [of _ _ "Suc i"])
qed simp

text \<open>The block the first new entry has to point to.\<close>

lemma expected_prev:
  assumes "height \<le> length es"
  shows "(if 0 < height then map_out he_hash (expect m (nth_opt es (height - 1))) else Ok null_hash)
     = Ok (last_hash (take height es))"
  using assms
  by (cases height) (auto simp: last_hash_def last_opt_def nth_opt_def take_Suc_conv_app_nth)

text \<open>
  Exactly when \<open>apply\<close> goes through, and what it leaves: the entries below the first new height
  followed by the new ones; the rolled-back entries, old tip first; and the post-rollback tip.
\<close>

lemma hl_apply_Ok_iff:
  assumes "new \<noteq> []"
  defines "k \<equiv> he_height (new ! 0)"
  shows "hl_apply hl new = Ok (hl', removed, reorged_tip) \<longleftrightarrow>
     entries_linked new \<and> k \<le> length (hl_headers hl)
     \<and> hdr_prev_blockhash (he_header (new ! 0)) = last_hash (take k (hl_headers hl))
     \<and> hl_headers hl' = take k (hl_headers hl) @ new
     \<and> hl_heights hl' = heights_after (hl_heights hl) new
     \<and> hl_tip hl' = he_hash (last new)
     \<and> removed = rev (drop k (hl_headers hl))
     \<and> reorged_tip = (if removed = [] \<or> k = 0 then None
                      else Some (he_hash (hl_headers hl ! (k - 1))))"
    (is "?l \<longleftrightarrow> ?r")
proof -
  obtain e es where new: "new = e # es" using assms by (cases new) auto
  have k: "k = he_height e" by (simp add: k_def new)
  show ?thesis
  proof (cases "entries_linked new \<and> k \<le> length (hl_headers hl)")
    case True
    then have h: "\<forall>i<length new. he_height (new ! i) = k + i"
      using entries_linked_heights [of new] by (auto simp: k_def)
    have tip: "map_option he_hash (last_opt (take k (hl_headers hl))) =
        (if k = 0 then None else Some (he_hash (hl_headers hl ! (k - 1))))"
      if "drop k (hl_headers hl) \<noteq> []"
      using that by (cases k) (auto simp: last_opt_def take_Suc_conv_app_nth)
    show ?thesis
      using True h tip expected_prev [of k "hl_headers hl" "''index''"] new k
      by (auto simp: hl_apply_def Let_def push_headers_Ok_iff min_absorb2 split: if_splits)
  next
    case False
    have "\<not> ?l"
    proof
      assume l: ?l
      then have el: "entries_linked new" by (auto simp: hl_apply_def split: if_splits)
      with False have "length (hl_headers hl) < k" by simp
      then show False using l el new k
        by (auto simp: hl_apply_def Let_def nth_opt_def split: if_splits)
    qed
    then show ?thesis using False by blast
  qed
qed

lemma hl_apply_Nil [simp]: "hl_apply hl [] = Ok (hl, [], None)"
  by (simp add: hl_apply_def entries_linked_def)

lemma hl_headers_empty [simp]: "hl_headers hl_empty = []"
  by (simp add: hl_empty_def)

lemma wf_headers_empty [simp]: "wf_headers lib hl_empty"
  by (simp add: wf_headers_def hl_empty_def last_hash_def)

lemma hl_apply_wf:
  assumes wf: "wf_headers lib hl"
    and hashed: "\<And>e. e \<in> set new \<Longrightarrow> he_hash e = lib_block_hash lib (he_header e)"
    and cf: "collision_free lib (he_header ` (set (hl_headers hl) \<union> set new))"
    and ok: "hl_apply hl new = Ok (hl', removed, reorged_tip)"
  shows "wf_headers lib hl'"
proof (cases "new = []")
  case True
  then show ?thesis using ok wf by simp
next
  case False
  define k where "k = he_height (new ! 0)"
  note a = hl_apply_Ok_iff [OF False, THEN iffD1, OF ok, folded k_def]
  let ?es = "take k (hl_headers hl) @ new"
  have heights: "he_height (new ! i) = k + i" if "i < length new" for i
    using entries_linked_heights [of new i] a that by (simp add: k_def)
  have wfe: "wf_entries lib ?es"
  proof (rule wf_entries_append)
    show "wf_entries lib (take k (hl_headers hl))"
      using wf by (auto simp: wf_headers_def intro: wf_entries_take)
  qed (use a hashed heights in auto)
  have cf': "collision_free lib (he_header ` set ?es)"
    by (rule collision_free_subset [OF cf]) (auto dest: in_set_takeD)
  note dis = chain_distinct [OF wfe cf']
  have "heights_after (hl_heights hl) new (he_hash (?es ! i)) = Some i" if "i < length ?es" for i
  proof (cases "i < k")
    case True
    then have i: "?es ! i = hl_headers hl ! i" "i < length (hl_headers hl)" using a by (auto simp: nth_append)
    have "he_hash (hl_headers hl ! i) \<notin> he_hash ` set new"
    proof -
      have "hl_headers hl ! i \<in> set (take k (hl_headers hl))" using True i by (auto simp: in_set_conv_nth)
      then show ?thesis using dis by auto
    qed
    then show ?thesis using i wf by (simp add: heights_after_other wf_headers_def)
  next
    case F: False
    then have "?es ! i = new ! (i - k)" "i - k < length new" using a that by (auto simp: nth_append)
    moreover have "he_height (?es ! i) = i" using wfe that by (rule wf_entriesD)
    ultimately show ?thesis using heights_after_nth [of new "i - k"] dis by auto
  qed
  then show ?thesis using a wfe False by (simp add: wf_headers_def last_hash_def last_opt_def)
qed

section \<open>The lookups\<close>

lemma header_by_blockhash_Some:
  assumes "wf_headers lib hl"
  shows "header_by_blockhash hl h = Some e \<longleftrightarrow> e \<in> set (hl_headers hl) \<and> he_hash e = h"
proof
  assume "header_by_blockhash hl h = Some e"
  then show "e \<in> set (hl_headers hl) \<and> he_hash e = h"
    by (auto simp: header_by_blockhash_def split: option.splits if_splits)
next
  assume e: "e \<in> set (hl_headers hl) \<and> he_hash e = h"
  then obtain i where i: "i < length (hl_headers hl)" "hl_headers hl ! i = e" by (auto simp: in_set_conv_nth)
  then have "hl_heights hl h = Some i" using assms e by (auto simp: wf_headers_def)
  then show "header_by_blockhash hl h = Some e" using i e
    by (simp add: header_by_blockhash_def nth_opt_def)
qed

lemma header_by_height_total:
  assumes "wf_headers lib hl"
  shows "header_by_height hl n = Ok (nth_opt (hl_headers hl) n)"
  using assms by (auto simp: header_by_height_def wf_headers_def nth_opt_def dest: wf_entriesD(1))

lemma tip_of_total: "wf_headers lib hl \<Longrightarrow> tip_of hl = Ok (last_hash (hl_headers hl))"
  by (simp add: tip_of_def wf_headers_def)

section \<open>From headers to entries\<close>

lemma length_entries_of [simp]: "length (entries_of lib hs) = length hs"
  by (simp add: entries_of_def)

lemma entries_of_nth [simp]:
  "i < length hs \<Longrightarrow>
     entries_of lib hs ! i = \<lparr>he_height = i, he_hash = lib_block_hash lib (hs ! i), he_header = hs ! i\<rparr>"
  by (simp add: entries_of_def nth_enumerate_eq)

lemma map_header_entries_of [simp]: "map he_header (entries_of lib hs) = hs"
  by (rule nth_equalityI) auto

lemma set_header_entries_of [simp]: "he_header ` set (entries_of lib hs) = set hs"
  by (metis list.set_map map_header_entries_of)

lemma wf_entries_iff:
  "wf_entries lib es \<longleftrightarrow>
     header_chain lib (map he_header es) \<and> es = entries_of lib (map he_header es)"
proof
  assume wf: "wf_entries lib es"
  then have "es = entries_of lib (map he_header es)"
    by (intro nth_equalityI) (auto simp: wf_entries_def)
  moreover have "header_chain lib (map he_header es)"
    using wf by (auto simp: header_chain_def wf_entries_def)
  ultimately show "header_chain lib (map he_header es) \<and> es = entries_of lib (map he_header es)" by simp
next
  assume r: "header_chain lib (map he_header es) \<and> es = entries_of lib (map he_header es)"
  define hs where "hs = map he_header es"
  have es: "es = entries_of lib hs" using r hs_def by simp
  show "wf_entries lib es"
    using r unfolding hs_def [symmetric] es wf_entries_def header_chain_def by auto
qed

lemma wf_entries_of: "header_chain lib hs \<Longrightarrow> wf_entries lib (entries_of lib hs)"
  by (simp add: wf_entries_iff)

lemma header_chain_hashes_distinct:
  assumes "header_chain lib hs" "collision_free lib (set hs)"
  shows "distinct (map (lib_block_hash lib) hs)"
proof -
  have "map he_hash (entries_of lib hs) = map (lib_block_hash lib) hs" by (rule nth_equalityI) auto
  then show ?thesis using chain_distinct [OF wf_entries_of [OF assms(1)]] assms(2) by simp
qed

text \<open>
  Headers that continue the chain at height \<open>k\<close>: \<open>order\<close> numbers them from \<open>k\<close> on.
\<close>

lemma hl_order_Ok:
  assumes wf: "wf_headers lib hl" and cf: "collision_free lib (set (map he_header (hl_headers hl)))"
    and k: "k \<le> length (hl_headers hl)" and hs: "hs \<noteq> []"
    and chain: "header_chain lib (take k (map he_header (hl_headers hl)) @ hs)"
  shows "hl_order lib hl hs = Ok (drop k (entries_of lib (take k (map he_header (hl_headers hl)) @ hs)))"
proof -
  let ?old = "take k (map he_header (hl_headers hl))"
  define hashed where "hashed = map (\<lambda>h. (lib_block_hash lib h, h)) hs"
  obtain h0 t where hs0: "hs = h0 # t" using hs by (cases hs) auto
  have prev: "hdr_prev_blockhash (hs ! i) = (if k + i = 0 then null_hash else lib_block_hash lib ((?old @ hs) ! (k + i - 1)))"
    if "i < length hs" for i
    using chain k that by (auto simp: header_chain_def nth_append dest!: spec [of _ "k + i"])
  have linked: "hashed_linked hashed"
    unfolding hashed_linked_def hashed_def using prev k by (auto simp: nth_append)
  have prev0: "(if hdr_prev_blockhash h0 = null_hash then Ok 0 :: (error_kind, nat) outcome
      else map_out (\<lambda>e. he_height e + 1) (expect m (header_by_blockhash hl (hdr_prev_blockhash h0)))) = Ok k" for m
  proof (cases k)
    case 0
    then show ?thesis using prev [of 0] hs0 by simp
  next
    case (Suc j)
    then have j: "j < length (hl_headers hl)" using k by simp
    have wfe: "wf_entries lib (hl_headers hl)" using wf by (simp add: wf_headers_def)
    have p: "hdr_prev_blockhash h0 = he_hash (hl_headers hl ! j)"
      using prev [of 0] hs0 Suc k wf_entriesD(2) [OF wfe j] by (simp add: nth_append)
    then have "hdr_prev_blockhash h0 \<noteq> null_hash"
      using wf_entriesD(2) [OF wfe j] cf j by (force simp: collision_free_def)
    moreover have "header_by_blockhash hl (hdr_prev_blockhash h0) = Some (hl_headers hl ! j)"
      using header_by_blockhash_Some [OF wf] p j by simp
    ultimately show ?thesis using wf_entriesD(1) [OF wfe j] Suc by simp
  qed
  have "map (\<lambda>(height, bh, h). \<lparr>he_height = height, he_hash = bh, he_header = h\<rparr>) (enumerate k hashed)
      = drop k (entries_of lib (?old @ hs))"
    using k by (intro nth_equalityI) (auto simp: hashed_def nth_enumerate_eq nth_append)
  then show ?thesis using linked prev0 hs0 unfolding hl_order_def hashed_def by (simp add: Let_def)
qed

lemma entries_linked_drop:
  assumes "wf_entries lib es" shows "entries_linked (drop k es)"
  unfolding entries_linked_def
proof (intro ballI)
  fix i assume i: "i \<in> set [1..<length (drop k es)]"
  then show "he_height (drop k es ! (i - 1)) + 1 = he_height (drop k es ! i)
      \<and> he_hash (drop k es ! (i - 1)) = hdr_prev_blockhash (he_header (drop k es ! i))"
    using wf_entriesD(1) [OF assms, of "k + i"] wf_entriesD(1) [OF assms, of "k + i - 1"]
      wf_entriesD(3) [OF assms, of "k + i"] by auto
qed

text \<open>
  The synchronisation step \<open>apply(order(hs))\<close> on headers that branch off at height \<open>k\<close>.
\<close>

lemma order_apply:
  assumes wf: "wf_headers lib hl"
    and cf: "collision_free lib (set (map he_header (hl_headers hl)) \<union> set hs)"
    and k: "k \<le> length (hl_headers hl)" and hs: "hs \<noteq> []"
    and chain: "header_chain lib (take k (map he_header (hl_headers hl)) @ hs)"
  shows "\<exists>hl' reorged_tip.
     bind_out (hl_order lib hl hs) (hl_apply hl) = Ok (hl', rev (drop k (hl_headers hl)), reorged_tip)
     \<and> hl_headers hl' = entries_of lib (take k (map he_header (hl_headers hl)) @ hs)
     \<and> wf_headers lib hl'"
proof -
  let ?old = "take k (map he_header (hl_headers hl))"
  let ?all = "entries_of lib (?old @ hs)"
  let ?new = "drop k ?all"
  have cf1: "collision_free lib (set (map he_header (hl_headers hl)))"
    by (rule collision_free_subset [OF cf]) simp
  have wfe: "wf_entries lib ?all" using chain by (rule wf_entries_of)
  have wfold: "wf_entries lib (hl_headers hl)" using wf by (simp add: wf_headers_def)
  have len: "length ?all = k + length hs" using k by simp
  then have new: "?new \<noteq> []" "?new ! 0 = ?all ! k" using hs by auto
  have hk: "he_height (?new ! 0) = k" using new hs k by simp
  have take: "take k ?all = take k (hl_headers hl)"
    using k wf_entriesD [OF wfold]
    by (intro nth_equalityI) (auto simp: nth_append intro!: header_entry.equality)
  then have cat: "take k (hl_headers hl) @ ?new = ?all" by (metis append_take_drop_id)
  have prev: "hdr_prev_blockhash (he_header (?new ! 0)) = last_hash (take k (hl_headers hl))"
    using wf_entriesD(3) [OF wfe, of k] new take k hs
    by (cases k) (auto simp: last_hash_def last_opt_def take_Suc_conv_app_nth nth_append
        wf_entriesD(2) [OF wfold])
  have hashed: "he_hash e = lib_block_hash lib (he_header e)" if "e \<in> set ?new" for e
    using that wf_entriesD(2) [OF wfe] by (metis in_set_conv_nth in_set_dropD)
  define hl' where "hl' = \<lparr>hl_headers = ?all, hl_heights = heights_after (hl_heights hl) ?new, hl_tip = he_hash (last ?new)\<rparr>"
  let ?tip = "if drop k (hl_headers hl) = [] \<or> k = 0 then None else Some (he_hash (hl_headers hl ! (k - 1)))"
  have app: "hl_apply hl ?new = Ok (hl', rev (drop k (hl_headers hl)), ?tip)"
    unfolding hl_apply_Ok_iff [OF new(1)] hk
    using entries_linked_drop [OF wfe] k prev cat by (simp add: hl'_def)
  have "he_header ` set ?new \<subseteq> set (map he_header (hl_headers hl)) \<union> set hs"
    using image_mono [OF set_drop_subset [of k ?all], of he_header] set_take_subset [of k "map he_header (hl_headers hl)"]
    by auto
  then have "collision_free lib (he_header ` (set (hl_headers hl) \<union> set ?new))"
    by (intro collision_free_subset [OF cf]) (simp add: image_Un)
  then have "wf_headers lib hl'" using hl_apply_wf [OF wf hashed _ app] by blast
  then show ?thesis using hl_order_Ok [OF wf cf1 k hs chain] app by (auto simp: hl'_def)
qed

section \<open>Rebuilding the list from the stored headers\<close>

lemma map_of_map_remove: "map_of (map_remove k m) x = (if x = k then None else map_of m x)"
  by (induction m) (auto simp: map_remove_def)

lemma header_chain_snoc:
  "header_chain lib (hs @ [h]) \<longleftrightarrow>
     header_chain lib hs
     \<and> hdr_prev_blockhash h = (if hs = [] then null_hash else lib_block_hash lib (last hs))"
  unfolding header_chain_def
  by (auto simp: All_less_Suc nth_append last_conv_nth)

lemma chain_back_chain:
  assumes "header_chain lib hs" "distinct (map (lib_block_hash lib) hs)"
    and "null_hash \<notin> lib_block_hash lib ` set hs"
    and "\<And>h. h \<in> set hs \<Longrightarrow> map_of m (lib_block_hash lib h) = Some h"
  shows "chain_back m (if hs = [] then null_hash else lib_block_hash lib (last hs)) acc = Ok (acc @ rev hs)"
  using assms
proof (induction hs arbitrary: m acc rule: rev_induct)
  case Nil
  then show ?case by (simp add: chain_back.simps)
next
  case (snoc h hs)
  have chain: "header_chain lib hs"
    and prev: "hdr_prev_blockhash h = (if hs = [] then null_hash else lib_block_hash lib (last hs))"
    using snoc.prems(1) by (auto simp: header_chain_snoc)
  have "chain_back (map_remove (lib_block_hash lib h) m) (hdr_prev_blockhash h) (acc @ [h])
      = Ok ((acc @ [h]) @ rev hs)"
    unfolding prev using snoc.prems chain
    by (intro snoc.IH) (auto simp: map_of_map_remove image_iff)
  moreover have "lib_block_hash lib h \<noteq> null_hash" using snoc.prems(3) by auto
  ultimately show ?case using snoc.prems(4) [of h]
    by (simp add: chain_back.simps [of m "lib_block_hash lib h"])
qed

lemma hl_new_chain:
  assumes chain: "header_chain lib hs" and cf: "collision_free lib (set hs)" and ne: "hs \<noteq> []"
    and stored: "\<And>h. h \<in> set hs \<Longrightarrow> map_of m (lib_block_hash lib h) = Some h"
  shows "\<exists>hl. hl_new lib m (lib_block_hash lib (last hs)) = Ok hl
    \<and> hl_headers hl = entries_of lib hs \<and> wf_headers lib hl"
proof -
  have "chain_back m (lib_block_hash lib (last hs)) [] = Ok (rev hs)"
    using chain_back_chain [OF chain header_chain_hashes_distinct [OF chain cf], of m "[]"] cf stored ne
    by (simp add: collision_free_def)
  moreover obtain hl' tip where "bind_out (hl_order lib hl_empty hs) (hl_apply hl_empty) = Ok (hl', [], tip)"
      "hl_headers hl' = entries_of lib hs" "wf_headers lib hl'"
    using order_apply [of lib hl_empty hs 0] chain cf ne by auto
  ultimately show ?thesis by (auto simp: hl_new_def)
qed

section \<open>The median time past\<close>

lemma count_below_sorted:
  fixes xs :: "'a::linorder list"
  assumes "sorted xs" "i < length xs"
  shows "length (filter (\<lambda>x. x < xs ! i) xs) \<le> i"
proof -
  have "filter (\<lambda>x. x < xs ! i) (drop i xs) = []"
    using assms by (auto simp: filter_empty_conv in_set_conv_nth not_less sorted_nth_mono)
  then have "filter (\<lambda>x. x < xs ! i) xs = filter (\<lambda>x. x < xs ! i) (take i xs)"
    by (metis append_Nil2 append_take_drop_id filter_append)
  then show ?thesis by (metis assms(2) length_filter_le length_take less_imp_le min_absorb2)
qed

lemma count_above_sorted:
  fixes xs :: "'a::linorder list"
  assumes "sorted xs" "i < length xs"
  shows "length (filter (\<lambda>x. xs ! i < x) xs) < length xs - i"
proof -
  have "filter (\<lambda>x. xs ! i < x) (take (Suc i) xs) = []"
    using assms by (auto simp: filter_empty_conv in_set_conv_nth not_less intro!: sorted_nth_mono)
  then have "filter (\<lambda>x. xs ! i < x) xs = filter (\<lambda>x. xs ! i < x) (drop (Suc i) xs)"
    by (metis append_Nil append_take_drop_id filter_append)
  then have "length (filter (\<lambda>x. xs ! i < x) xs) \<le> length xs - Suc i"
    by (metis length_drop length_filter_le)
  then show ?thesis using assms(2) by linarith
qed

lemma length_filter_sort: "length (filter P (sort xs)) = length (filter P xs)"
  by (metis mset_filter mset_sort size_mset)

text \<open>The timestamps of the window: the block itself and up to ten before it.\<close>

definition mtp_window :: "header_list \<Rightarrow> nat \<Rightarrow> u32 list" where
  "mtp_window hl height =
     drop (Suc height - MTP_SPAN) (take (Suc height) (map (\<lambda>e. hdr_time (he_header e)) (hl_headers hl)))"

lemma mtp_window_map:
  "height < length (hl_headers hl) \<Longrightarrow>
   map (\<lambda>p. hdr_time (he_header (hl_headers hl ! p))) [height - (MTP_SPAN - 1)..<Suc height]
     = mtp_window hl height"
  by (intro nth_equalityI) (auto simp: mtp_window_def MTP_SPAN_def simp del: upt_Suc)

lemma get_mtp_window:
  assumes "0 < height" "height < length (hl_headers hl)"
  shows "get_mtp hl height = Ok (sort (mtp_window hl height) ! (length (mtp_window hl height) div 2))"
  using assms mtp_window_map [of height hl] by (auto simp: get_mtp_def hl_len_def Let_def)

lemma length_mtp_window:
  "height < length (hl_headers hl) \<Longrightarrow> length (mtp_window hl height) = min MTP_SPAN (Suc height)"
  by (auto simp: mtp_window_def MTP_SPAN_def)

section \<open>Synchronisation as a machine\<close>

text \<open>
  One update of the header list: any headers the daemon sends, ordered and applied, as
  \<open>Indexer::update\<close> does. \<open>U\<close> is the set of headers that exist.
\<close>

definition sync_step :: "bitcoin_lib \<Rightarrow> block_header set \<Rightarrow> header_list \<Rightarrow> header_list \<Rightarrow> bool" where
  "sync_step lib U hl hl' \<longleftrightarrow>
     (\<exists>hs removed reorged_tip. set hs \<subseteq> U
        \<and> bind_out (hl_order lib hl hs) (hl_apply hl) = Ok (hl', removed, reorged_tip))"

definition sync_inv :: "bitcoin_lib \<Rightarrow> block_header set \<Rightarrow> header_list \<Rightarrow> bool" where
  "sync_inv lib U hl \<longleftrightarrow>
     collision_free lib U \<longrightarrow> wf_headers lib hl \<and> he_header ` set (hl_headers hl) \<subseteq> U"

lemma hl_order_entries:
  assumes "hl_order lib hl hs = Ok es"
  shows "he_header ` set es = set hs"
    and "e \<in> set es \<Longrightarrow> he_hash e = lib_block_hash lib (he_header e)"
proof -
  obtain k where es: "es = map (\<lambda>(height, bh, h). \<lparr>he_height = height, he_hash = bh, he_header = h\<rparr>)
      (enumerate k (map (\<lambda>h. (lib_block_hash lib h, h)) hs))"
    using assms by (cases hs) (auto simp: hl_order_def Let_def split: if_splits)
  have "map he_header es = hs" by (rule nth_equalityI) (auto simp: es nth_enumerate_eq)
  then show "he_header ` set es = set hs" by (metis list.set_map)
  show "e \<in> set es \<Longrightarrow> he_hash e = lib_block_hash lib (he_header e)"
    by (auto simp: es in_set_conv_nth nth_enumerate_eq)
qed

lemma sync_step_inv:
  assumes "sync_inv lib U s" "sync_step lib U s t"
  shows "sync_inv lib U t"
  unfolding sync_inv_def
proof
  assume cf: "collision_free lib U"
  obtain hs es removed tip where hs: "set hs \<subseteq> U" "hl_order lib s hs = Ok es"
      and app: "hl_apply s es = Ok (t, removed, tip)"
    using assms(2) by (auto simp: sync_step_def)
  have s: "wf_headers lib s" "he_header ` set (hl_headers s) \<subseteq> U"
    using assms(1) cf by (auto simp: sync_inv_def)
  note es = hl_order_entries [OF hs(2)]
  have "collision_free lib (he_header ` (set (hl_headers s) \<union> set es))"
    using s(2) hs(1) es(1) by (intro collision_free_subset [OF cf]) (simp add: image_Un)
  then have "wf_headers lib t" using hl_apply_wf [OF s(1) es(2) _ app] by blast
  moreover have "he_header ` set (hl_headers t) \<subseteq> U"
  proof (cases "es = []")
    case True
    then show ?thesis using app s by simp
  next
    case False
    then have "set (hl_headers t) \<subseteq> set (hl_headers s) \<union> set es"
      using hl_apply_Ok_iff [OF False, THEN iffD1, OF app] by (auto dest: in_set_takeD)
    then show ?thesis using s(2) hs(1) es(1) by blast
  qed
  ultimately show "wf_headers lib t \<and> he_header ` set (hl_headers t) \<subseteq> U" by simp
qed

interpretation sync: invariant_machine hl_empty "sync_step lib U" "sync_inv lib U" for lib U
proof
  show "sync_inv lib U hl_empty" by (simp add: sync_inv_def)
qed (rule sync_step_inv)

section \<open>A small chain\<close>

text \<open>A genesis header and two competing children of it.\<close>

abbreviation demo_genesis :: block_header where
  "demo_genesis \<equiv> demo_header 1 null_hash"

abbreviation demo_child :: "u32 \<Rightarrow> block_header" where
  "demo_child n \<equiv> demo_header n (demo_hash 1)"

definition demo_sync :: "block_header list \<Rightarrow> header_list \<Rightarrow> header_list" where
  "demo_sync hs hl =
     (case bind_out (hl_order demo_lib hl hs) (hl_apply hl) of Ok (hl', _, _) \<Rightarrow> hl' | _ \<Rightarrow> hl)"

definition demo_hl :: header_list where
  "demo_hl = demo_sync [demo_child 3] (demo_sync [demo_genesis, demo_child 2] hl_empty)"

lemmas demo_defs =
  hl_empty_def hl_order_def hl_apply_def hashed_linked_def
  entries_linked_def header_by_blockhash_def last_hash_def nth_opt_def last_opt_def

lemma demo_sync_genesis:
  "bind_out (hl_order demo_lib hl_empty [demo_genesis, demo_child 2]) (hl_apply hl_empty)
   = Ok (\<lparr>hl_headers = entries_of demo_lib [demo_genesis, demo_child 2],
          hl_heights = [demo_hash 1 \<mapsto> 0, demo_hash 2 \<mapsto> 1], hl_tip = demo_hash 2\<rparr>, [], None)"
  by (simp add: demo_defs entries_of_def Let_def)

lemma demo_hl_eq:
  "demo_hl = \<lparr>hl_headers = entries_of demo_lib [demo_genesis, demo_child 3],
     hl_heights = [demo_hash 1 \<mapsto> 0, demo_hash 2 \<mapsto> 1, demo_hash 3 \<mapsto> 1], hl_tip = demo_hash 3\<rparr>"
  unfolding demo_hl_def demo_sync_def demo_sync_genesis
  by (simp add: demo_defs entries_of_def Let_def)

lemma demo_reach:
  assumes "U = {demo_genesis, demo_child 2, demo_child 3}"
  shows "reach hl_empty (sync_step demo_lib U) demo_hl"
proof (rule reach_step [OF reach_step [OF reach_init]])
  let ?hl = "demo_sync [demo_genesis, demo_child 2] hl_empty"
  show "sync_step demo_lib U hl_empty ?hl"
    unfolding sync_step_def demo_sync_def demo_sync_genesis using demo_sync_genesis assms
    by (intro exI [of _ "[demo_genesis, demo_child 2]"]) auto
  show "sync_step demo_lib U ?hl demo_hl"
    unfolding sync_step_def demo_hl_eq using assms
    by (intro exI [of _ "[demo_child 3]"]) (simp add: demo_sync_def demo_sync_genesis, simp add: demo_defs entries_of_def Let_def)
qed

lemma demo_collision_free: "collision_free demo_lib {demo_genesis, demo_child 2, demo_child 3}"
  by (auto simp: collision_free_def)

lemma demo_chain: "header_chain demo_lib [demo_genesis, demo_child n]"
  by (simp add: header_chain_def less_Suc_eq_0_disj)

section \<open>Properties\<close>

text \<open>C2: what \<open>HeaderList::apply\<close> does to any header list. It goes through exactly when the new
  entries are linked, start at or below the current length and point to the block below them; then
  the list is the old one cut at the first new height followed by the new entries, the height map
  has the new entries on top of the old map, the tip is the last new hash, the rolled-back entries
  are returned old tip first, and the second result is the hash of the block the rollback stopped
  at, if anything was rolled back and anything is left.\<close>

theorem apply_effect:
  assumes "new \<noteq> []" and "he_height (new ! 0) = k"
  shows "hl_apply hl new = Ok (hl', removed, reorged_tip) \<longleftrightarrow>
     entries_linked new \<and> k \<le> length (hl_headers hl)
     \<and> hdr_prev_blockhash (he_header (new ! 0)) = last_hash (take k (hl_headers hl))
     \<and> hl_headers hl' = take k (hl_headers hl) @ new
     \<and> hl_heights hl' = heights_after (hl_heights hl) new
     \<and> hl_tip hl' = he_hash (last new)
     \<and> removed = rev (drop k (hl_headers hl))
     \<and> reorged_tip = (if removed = [] \<or> k = 0 then None
                      else Some (he_hash (hl_headers hl ! (k - 1))))"
  unfolding assms(2) [symmetric] by (rule hl_apply_Ok_iff [OF assms(1)])

theorem apply_effect_witness:
  "hl_apply hl_empty (entries_of demo_lib [demo_genesis])
     = Ok (\<lparr>hl_headers = entries_of demo_lib [demo_genesis], hl_heights = [demo_hash 1 \<mapsto> 0],
            hl_tip = demo_hash 1\<rparr>, [], None)"
  by (subst apply_effect [where k = 0])
    (simp_all add: entries_of_def entries_linked_def hl_empty_def last_hash_def)

text \<open>C1: whatever header batches the daemon delivers, every header list the indexer can reach is a
  chain from the null hash with consistent heights; looking a hash up returns precisely the
  best-chain block with that hash (never a block of an abandoned fork, whose stale height is still in
  the map), looking a height up never trips the assertion, and neither does asking for the tip.\<close>

theorem reachable_lookups:
  assumes "collision_free lib U" "reach hl_empty (sync_step lib U) hl"
  shows "wf_headers lib hl
    \<and> (header_by_blockhash hl h = Some e \<longleftrightarrow> e \<in> set (hl_headers hl) \<and> he_hash e = h)
    \<and> header_by_height hl n = Ok (nth_opt (hl_headers hl) n)
    \<and> tip_of hl = Ok (last_hash (hl_headers hl))"
proof -
  have wf: "wf_headers lib hl" using sync.reach_inv [OF assms(2)] assms(1) by (simp add: sync_inv_def)
  then show ?thesis
    using header_by_blockhash_Some [OF wf] header_by_height_total [OF wf] tip_of_total [OF wf] by simp
qed

theorem reachable_lookups_witness:
  "header_by_blockhash demo_hl (demo_hash 2) = None \<and> hl_heights demo_hl (demo_hash 2) = Some 1"
proof -
  have "header_by_blockhash demo_hl (demo_hash 2) \<noteq> Some e" for e
    using reachable_lookups [OF demo_collision_free demo_reach [OF refl], of "demo_hash 2" e 0]
    by (auto simp: demo_hl_eq entries_of_def)
  then show ?thesis by (auto simp: demo_hl_eq)
qed

text \<open>Headers that continue the chain of a well-formed list at height \<open>k\<close> (the daemon's answer
  to a reorganisation of any depth) are ordered and applied without a panic, the result is the list
  of exactly that chain, and the blocks above \<open>k\<close> are handed back for un-indexing, tip first.\<close>

theorem sync_to_new_chain:
  assumes "wf_headers lib hl"
    and "collision_free lib (set (map he_header (hl_headers hl)) \<union> set hs)"
    and "k \<le> length (hl_headers hl)" and "hs \<noteq> []"
    and "header_chain lib (take k (map he_header (hl_headers hl)) @ hs)"
  shows "\<exists>hl' reorged_tip.
     bind_out (hl_order lib hl hs) (hl_apply hl) = Ok (hl', rev (drop k (hl_headers hl)), reorged_tip)
     \<and> hl_headers hl' = entries_of lib (take k (map he_header (hl_headers hl)) @ hs)
     \<and> wf_headers lib hl'"
  using assms by (rule order_apply)

theorem sync_to_new_chain_witness:
  "\<exists>hl' tip. bind_out (hl_order demo_lib hl_empty [demo_genesis, demo_child 2]) (hl_apply hl_empty)
     = Ok (hl', [], tip) \<and> hl_headers hl' = entries_of demo_lib [demo_genesis, demo_child 2]"
proof -
  have "collision_free demo_lib (set (map he_header (hl_headers hl_empty)) \<union> set [demo_genesis, demo_child 2])"
    by (rule collision_free_subset [OF demo_collision_free]) simp
  from sync_to_new_chain [OF wf_headers_empty this, of 0] demo_chain [of 2] show ?thesis by auto
qed

text \<open>At start-up \<open>HeaderList::new\<close> rebuilds the chain from the unordered map of stored headers
  (best chain and abandoned forks alike): if the chain that ends in the stored tip is there, the walk
  back ends, nothing panics, and the list holds exactly that chain.\<close>

theorem new_rebuilds_chain:
  assumes "header_chain lib hs" and "collision_free lib (set hs)" and "hs \<noteq> []"
    and "\<And>h. h \<in> set hs \<Longrightarrow> map_of m (lib_block_hash lib h) = Some h"
  shows "\<exists>hl. hl_new lib m (lib_block_hash lib (last hs)) = Ok hl
    \<and> hl_headers hl = entries_of lib hs \<and> wf_headers lib hl"
  using assms by (rule hl_new_chain)

theorem new_rebuilds_chain_witness:
  "\<exists>hl. hl_new demo_lib [(demo_hash 2, demo_child 2), (demo_hash 3, demo_child 3), (demo_hash 1, demo_genesis)]
      (demo_hash 3) = Ok hl \<and> hl_headers hl = entries_of demo_lib [demo_genesis, demo_child 3]"
proof -
  have "collision_free demo_lib (set [demo_genesis, demo_child 3])"
    by (rule collision_free_subset [OF demo_collision_free]) simp
  then have "\<exists>hl. hl_new demo_lib [(demo_hash 2, demo_child 2), (demo_hash 3, demo_child 3), (demo_hash 1, demo_genesis)]
      (lib_block_hash demo_lib (last [demo_genesis, demo_child 3])) = Ok hl
      \<and> hl_headers hl = entries_of demo_lib [demo_genesis, demo_child 3] \<and> wf_headers demo_lib hl"
    by (rule new_rebuilds_chain [OF demo_chain]) auto
  then show ?thesis by auto
qed

text \<open>Above genesis \<open>get_mtp\<close> is a median of the last eleven timestamps (fewer near genesis):
  it is one of them, at most half of them are below it and fewer than half are above it.\<close>

theorem mtp_is_median:
  assumes "0 < height" "height < length (hl_headers hl)"
  shows "length (mtp_window hl height) = min 11 (Suc height)
    \<and> (\<exists>t. get_mtp hl height = Ok t \<and> t \<in> set (mtp_window hl height)
        \<and> 2 * length (filter (\<lambda>x. x < t) (mtp_window hl height)) \<le> length (mtp_window hl height)
        \<and> 2 * length (filter (\<lambda>x. t < x) (mtp_window hl height)) < length (mtp_window hl height))"
proof -
  let ?w = "mtp_window hl height"
  define t where "t = sort ?w ! (length ?w div 2)"
  have len: "length ?w = min 11 (Suc height)"
    using length_mtp_window [OF assms(2)] by (simp add: MTP_SPAN_def)
  then have i: "length ?w div 2 < length (sort ?w)" by simp
  have mtp: "get_mtp hl height = Ok t" using get_mtp_window [OF assms] by (simp add: t_def)
  have "t \<in> set ?w" using i unfolding t_def by (metis nth_mem set_sort)
  moreover have "length (filter (\<lambda>x. x < t) ?w) \<le> length ?w div 2"
    using count_below_sorted [OF sorted_sort i] by (simp only: t_def length_filter_sort)
  moreover have "length (filter (\<lambda>x. t < x) ?w) < length ?w - length ?w div 2"
    using count_above_sorted [OF sorted_sort i] by (simp only: t_def length_filter_sort length_sort)
  ultimately show ?thesis using mtp len by (intro conjI exI [of _ t]) linarith+
qed

theorem mtp_is_median_witness:
  "\<exists>t. get_mtp demo_hl 1 = Ok t \<and> t \<in> {100, 300}"
  using mtp_is_median [of 1 demo_hl]
  by (auto simp: demo_hl_eq mtp_window_def entries_of_def MTP_SPAN_def)

end
