(* ===== verification/Daemon.thy ===== *)
theory Daemon
  imports Header_List
begin

text \<open>
  The header synchronisation of \<^verbatim>\<open>src/daemon.rs\<close>. The bitcoind node is the record \<open>bitcoind\<close>: what
  each RPC answers (after JSON decoding), as an error or a value. \<open>get_all_headers\<close> and
  \<open>get_new_headers\<close> are the code; the walk back of the latter is a \<open>partial_function\<close>, whose \<open>None\<close> is
  a walk that never ends.
\<close>

section \<open>The node\<close>

record bitcoind =
  bd_getbestblockhash :: "(error_kind, hash) outcome"
  bd_header_height :: "hash \<Rightarrow> (error_kind, nat) outcome"
  bd_getblockheader :: "hash \<Rightarrow> (error_kind, block_header) outcome"
  bd_getblockheaders :: "nat list \<Rightarrow> (error_kind, block_header list) outcome"
  bd_getblocks :: "hash list \<Rightarrow> (error_kind, block list) outcome"

section \<open>The code\<close>

text \<open>The download loop over chunks of heights.\<close>

fun download_headers ::
  "bitcoind \<Rightarrow> nat list list \<Rightarrow> block_header list \<Rightarrow> (error_kind, block_header list) outcome"
where
  "download_headers bd [] result = Ok result"
| "download_headers bd (heights # rest) result =
     bind_out (bd_getblockheaders bd heights) (\<lambda>headers.
       if length headers \<noteq> length heights then Panic ''assert headers.len''
       else download_headers bd rest (result @ headers))"

text \<open>The loop of assertions: every header points to the one before it.\<close>

fun check_links :: "bitcoin_lib \<Rightarrow> hash \<Rightarrow> block_header list \<Rightarrow> (error_kind, hash) outcome" where
  "check_links lib blockhash [] = Ok blockhash"
| "check_links lib blockhash (header # headers) =
     (if hdr_prev_blockhash header \<noteq> blockhash then Panic ''assert_eq prev_blockhash''
      else check_links lib (lib_block_hash lib header) headers)"

definition get_all_headers :: "bitcoin_lib \<Rightarrow> bitcoind \<Rightarrow> hash \<Rightarrow> (error_kind, block_header list) outcome" where
  "get_all_headers lib bd tip =
     bind_out (bd_header_height bd tip) (\<lambda>tip_height.
     bind_out (download_headers bd (chunks 100000 [0..<Suc tip_height]) []) (\<lambda>result.
     bind_out (check_links lib null_hash result) (\<lambda>blockhash.
       if blockhash \<noteq> tip then Panic ''assert_eq tip'' else Ok result)))"

text \<open>The walk back to the first known block.\<close>

partial_function (option) walk_back ::
  "bitcoind \<Rightarrow> header_list \<Rightarrow> hash \<Rightarrow> block_header list \<Rightarrow> (error_kind, block_header list) outcome option"
where
  "walk_back bd indexed_headers blockhash new_headers =
     (if blockhash = null_hash \<or> header_by_blockhash indexed_headers blockhash \<noteq> None
      then Some (Ok new_headers)
      else case bd_getblockheader bd blockhash of
             Ok header \<Rightarrow> walk_back bd indexed_headers (hdr_prev_blockhash header) (new_headers @ [header])
           | Err e \<Rightarrow> Some (Err (Msg ''failed to get header''))
           | Panic m \<Rightarrow> Some (Panic m))"

definition daemon_get_new_headers ::
  "bitcoin_lib \<Rightarrow> bitcoind \<Rightarrow> header_list \<Rightarrow> hash \<Rightarrow> (error_kind, block_header list) outcome option"
where
  "daemon_get_new_headers lib bd indexed_headers bestblockhash =
     (if hl_is_empty indexed_headers then Some (get_all_headers lib bd bestblockhash)
      else map_option (map_out rev) (walk_back bd indexed_headers bestblockhash []))"

section \<open>A node that serves a chain\<close>

text \<open>What the code relies on: the node answers for the blocks of its best chain \<open>chain\<close>.\<close>

definition serves_chain :: "bitcoin_lib \<Rightarrow> bitcoind \<Rightarrow> block_header list \<Rightarrow> bool" where
  "serves_chain lib bd chain \<longleftrightarrow>
     chain \<noteq> [] \<and> header_chain lib chain
     \<and> bd_getbestblockhash bd = Ok (lib_block_hash lib (last chain))
     \<and> bd_header_height bd (lib_block_hash lib (last chain)) = Ok (length chain - 1)
     \<and> (\<forall>h\<in>set chain. bd_getblockheader bd (lib_block_hash lib h) = Ok h)
     \<and> (\<forall>ns. (\<forall>n\<in>set ns. n < length chain) \<longrightarrow> bd_getblockheaders bd ns = Ok (map ((!) chain) ns))"

lemma download_headers_chain:
  assumes "\<And>ns. (\<forall>n\<in>set ns. n < length chain) \<Longrightarrow> bd_getblockheaders bd ns = Ok (map ((!) chain) ns)"
    and "\<forall>n\<in>set (concat nss). n < length chain"
  shows "download_headers bd nss acc = Ok (acc @ map ((!) chain) (concat nss))"
  using assms(2)
proof (induction nss arbitrary: acc)
  case (Cons ns nss)
  then show ?case using assms(1) [of ns] by simp
qed simp

lemma check_links_chain:
  assumes "\<And>i. i < length hs \<Longrightarrow> hdr_prev_blockhash (hs ! i) = (if i = 0 then b else lib_block_hash lib (hs ! (i - 1)))"
  shows "check_links lib b hs = Ok (if hs = [] then b else lib_block_hash lib (last hs))"
  using assms
proof (induction hs arbitrary: b)
  case (Cons h hs)
  have "hdr_prev_blockhash h = b" using Cons.prems [of 0] by simp
  moreover have "check_links lib (lib_block_hash lib h) hs
      = Ok (if hs = [] then lib_block_hash lib h else lib_block_hash lib (last hs))"
  proof (rule Cons.IH)
    fix i assume "i < length hs"
    then show "hdr_prev_blockhash (hs ! i) = (if i = 0 then lib_block_hash lib h else lib_block_hash lib (hs ! (i - 1)))"
      using Cons.prems [of "Suc i"] by (cases i) auto
  qed
  ultimately show ?case by simp
qed simp

lemma get_all_headers_chain:
  assumes "serves_chain lib bd chain"
  shows "get_all_headers lib bd (lib_block_hash lib (last chain)) = Ok chain"
proof -
  have ne: "chain \<noteq> []" using assms by (simp add: serves_chain_def)
  have "download_headers bd (chunks 100000 [0..<length chain]) [] = Ok chain"
    using download_headers_chain [of chain bd "chunks 100000 [0..<length chain]" "[]"] assms
    by (simp add: serves_chain_def concat_chunks map_nth)
  moreover have "check_links lib null_hash chain = Ok (lib_block_hash lib (last chain))"
    using check_links_chain [of chain null_hash lib] assms ne
    by (simp add: serves_chain_def header_chain_def)
  moreover have "Suc (length chain - 1) = length chain" using ne by simp
  ultimately show ?thesis using assms
    by (simp add: get_all_headers_def serves_chain_def del: upt_Suc)
qed

section \<open>Two chains with a common block\<close>

text \<open>If two chains share a hash they agree up to it, and it is at the same height in both.\<close>

lemma common_block:
  assumes "header_chain lib as" "header_chain lib bs" "collision_free lib (set as \<union> set bs)"
    and "i < length as" "j < length bs" "lib_block_hash lib (as ! i) = lib_block_hash lib (bs ! j)"
  shows "i = j \<and> take (Suc i) as = take (Suc j) bs"
  using assms(4-6)
proof (induction i arbitrary: j)
  case 0
  have eq: "as ! 0 = bs ! j"
    using assms(3) 0 by (auto simp: collision_free_def inj_on_def)
  have "j = 0"
  proof (rule ccontr)
    assume "j \<noteq> 0"
    then have "null_hash = lib_block_hash lib (bs ! (j - 1))"
      using assms(1,2) 0 eq unfolding header_chain_def by metis
    moreover have "bs ! (j - 1) \<in> set bs" using 0 by simp
    ultimately show False using assms(3) by (force simp: collision_free_def)
  qed
  then show ?case using eq 0 by (simp add: take_Suc_conv_app_nth)
next
  case (Suc i)
  have eq: "as ! Suc i = bs ! j"
    using assms(3) Suc.prems by (auto simp: collision_free_def inj_on_def)
  have pa: "hdr_prev_blockhash (as ! Suc i) = lib_block_hash lib (as ! i)"
    using assms(1) Suc.prems(1) by (auto simp: header_chain_def dest!: spec [of _ "Suc i"])
  have "j \<noteq> 0"
  proof
    assume "j = 0"
    then have "hdr_prev_blockhash (bs ! j) = null_hash" using assms(2) Suc.prems(2) by (simp add: header_chain_def)
    then have "lib_block_hash lib (as ! i) = null_hash" using pa eq by simp
    moreover have "as ! i \<in> set as" using Suc.prems(1) by simp
    ultimately show False using assms(3) by (force simp: collision_free_def)
  qed
  then obtain k where j: "j = Suc k" by (cases j) auto
  then have "lib_block_hash lib (as ! i) = lib_block_hash lib (bs ! k)"
    using assms(2) Suc.prems pa eq by (auto simp: header_chain_def dest!: spec [of _ "Suc k"])
  moreover have "i < length as" "k < length bs" using Suc.prems j by simp_all
  ultimately have "i = k" "take (Suc i) as = take (Suc k) bs" using Suc.IH [of k] by blast+
  then have "Suc i = j" "take (Suc i) as @ [as ! Suc i] = take j bs @ [bs ! j]" using eq j by blast+
  then show ?case
    using take_Suc_conv_app_nth [OF Suc.prems(1)] take_Suc_conv_app_nth [OF Suc.prems(2)] by metis
qed

section \<open>The walk back\<close>

lemma last_known:
  "\<exists>j\<le>n. (j = 0 \<or> P (j - 1)) \<and> (\<forall>i. j \<le> i \<longrightarrow> i < n \<longrightarrow> \<not> P i)" for n :: nat
proof (induction n)
  case (Suc n)
  show ?case
  proof (cases "P n")
    case True
    then show ?thesis by (intro exI [of _ "Suc n"]) auto
  next
    case False
    then show ?thesis using Suc less_Suc_eq le_SucI by metis
  qed
qed simp

lemma walk_back_chain:
  assumes serve: "serves_chain lib bd chain" and cf: "collision_free lib (set chain)"
    and known: "j = 0 \<or> header_by_blockhash hl (lib_block_hash lib (chain ! (j - 1))) \<noteq> None"
    and new: "\<And>i. j \<le> i \<Longrightarrow> i < length chain \<Longrightarrow> header_by_blockhash hl (lib_block_hash lib (chain ! i)) = None"
    and "j \<le> m" "m \<le> length chain"
  shows "walk_back bd hl (if m = 0 then null_hash else lib_block_hash lib (chain ! (m - 1))) acc
    = Some (Ok (acc @ rev (drop j (take m chain))))"
  using assms(5,6)
proof (induction m arbitrary: acc)
  case 0
  then show ?case by (simp add: walk_back.simps)
next
  case (Suc m)
  show ?case
  proof (cases "j = Suc m")
    case True
    then show ?thesis using known by (simp add: walk_back.simps)
  next
    case False
    then have m: "j \<le> m" "m < length chain" using Suc.prems by auto
    let ?h = "chain ! m"
    have "lib_block_hash lib ?h \<in> lib_block_hash lib ` set chain" using m by simp
    then have "lib_block_hash lib ?h \<noteq> null_hash" using cf unfolding collision_free_def by metis
    moreover have "bd_getblockheader bd (lib_block_hash lib ?h) = Ok ?h"
      using serve m by (simp add: serves_chain_def)
    moreover have "hdr_prev_blockhash ?h = (if m = 0 then null_hash else lib_block_hash lib (chain ! (m - 1)))"
      using serve m by (simp add: serves_chain_def header_chain_def)
    ultimately have "walk_back bd hl (lib_block_hash lib ?h) acc
        = walk_back bd hl (if m = 0 then null_hash else lib_block_hash lib (chain ! (m - 1))) (acc @ [?h])"
      using new [OF m] by (subst walk_back.simps) simp
    also have "\<dots> = Some (Ok ((acc @ [?h]) @ rev (drop j (take m chain))))"
      using Suc.IH m by simp
    also have "(acc @ [?h]) @ rev (drop j (take m chain)) = acc @ rev (drop j (take (Suc m) chain))"
      using m by (simp add: take_Suc_conv_app_nth)
    finally show ?thesis by simp
  qed
qed

text \<open>
  The fork point: the height up to which the indexed list and the node's chain agree, and from which on
  every block of the node is new.
\<close>

lemma fork_point:
  assumes serve: "serves_chain lib bd chain" and wf: "wf_headers lib hl"
    and cf: "collision_free lib (set (map he_header (hl_headers hl)) \<union> set chain)"
    and ne: "hl_headers hl \<noteq> []"
  shows "\<exists>k\<le>length chain. k \<le> length (hl_headers hl)
    \<and> take k (map he_header (hl_headers hl)) = take k chain
    \<and> daemon_get_new_headers lib bd hl (lib_block_hash lib (last chain)) = Some (Ok (drop k chain))"
proof -
  let ?known = "\<lambda>i. header_by_blockhash hl (lib_block_hash lib (chain ! i)) \<noteq> None"
  let ?old = "map he_header (hl_headers hl)"
  obtain j where j: "j \<le> length chain" "j = 0 \<or> ?known (j - 1)"
      "\<And>i. j \<le> i \<Longrightarrow> i < length chain \<Longrightarrow> \<not> ?known i"
    using last_known [of "length chain" ?known] by blast
  have cne: "chain \<noteq> []" and hc: "header_chain lib chain" using serve by (auto simp: serves_chain_def)
  have cf1: "collision_free lib (set chain)" by (rule collision_free_subset [OF cf]) simp
  have walk: "walk_back bd hl (lib_block_hash lib (last chain)) [] = Some (Ok (rev (drop j chain)))"
    using walk_back_chain [OF serve cf1 j(2), of "length chain" "[]"] j cne by (auto simp: last_conv_nth)
  have "j \<le> length (hl_headers hl) \<and> take j ?old = take j chain"
  proof (cases j)
    case (Suc i)
    then obtain e where e: "e \<in> set (hl_headers hl)" "he_hash e = lib_block_hash lib (chain ! i)"
      using j(2) header_by_blockhash_Some [OF wf] by auto
    then obtain l where l: "l < length (hl_headers hl)" "hl_headers hl ! l = e" by (metis in_set_conv_nth)
    have wfe: "wf_entries lib (hl_headers hl)" using wf by (simp add: wf_headers_def)
    then have hcold: "header_chain lib ?old" by (simp add: wf_entries_iff)
    have "lib_block_hash lib (?old ! l) = lib_block_hash lib (chain ! i)"
      using wf_entriesD(2) [OF wfe l(1)] l e(2) by simp
    then have "l = i \<and> take (Suc l) ?old = take (Suc i) chain"
      using common_block [OF hcold hc cf] l(1) j(1) Suc by simp
    then show ?thesis using Suc l by auto
  qed simp
  moreover have "daemon_get_new_headers lib bd hl (lib_block_hash lib (last chain)) = Some (Ok (drop j chain))"
    using walk ne by (simp add: daemon_get_new_headers_def hl_is_empty_def)
  ultimately show ?thesis using j(1) by blast
qed

section \<open>Synchronisation\<close>

text \<open>
  The header part of \<open>Indexer::update\<close>: ask for the tip, fetch the new headers, order and apply them, and assert that
  the tip of the list is now the one the node reported.
\<close>

definition sync_headers ::
  "bitcoin_lib \<Rightarrow> bitcoind \<Rightarrow> header_list
    \<Rightarrow> (error_kind, header_list \<times> header_entry list \<times> hash option) outcome option"
where
  "sync_headers lib bd hl =
     (case bd_getbestblockhash bd of
        Ok tip \<Rightarrow>
          map_option
            (\<lambda>new. bind_out (bind_out new (hl_order lib hl)) (\<lambda>new_headers.
                   bind_out (hl_apply hl new_headers) (\<lambda>(headers, reorged, rollback_tip).
                   bind_out (tip_of headers) (\<lambda>headers_tip.
                     if tip \<noteq> headers_tip then Panic ''assert_eq tip'' else Ok (headers, reorged, rollback_tip)))))
            (daemon_get_new_headers lib bd hl tip)
      | Err e \<Rightarrow> Some (Err e)
      | Panic m \<Rightarrow> Some (Panic m))"

text \<open>The chain of the node ends before the tip of the list, on the same branch.\<close>

definition node_behind :: "block_header list \<Rightarrow> header_list \<Rightarrow> bool" where
  "node_behind chain hl \<longleftrightarrow> (\<exists>k<length (hl_headers hl). chain = take k (map he_header (hl_headers hl)))"

lemma last_hash_last: "es \<noteq> [] \<Longrightarrow> last_hash es = he_hash (last es)"
  by (simp add: last_hash_def last_opt_def)

lemma entries_last_hash: "hs \<noteq> [] \<Longrightarrow> last_hash (entries_of lib hs) = lib_block_hash lib (last hs)"
  by (subst last_hash_last) (auto simp: entries_of_def last_map last_conv_nth nth_enumerate_eq enumerate_eq_zip)

lemma sync_headers_chain:
  assumes serve: "serves_chain lib bd chain" and wf: "wf_headers lib hl"
    and cf: "collision_free lib (set (map he_header (hl_headers hl)) \<union> set chain)"
    and notanc: "\<not> node_behind chain hl"
  shows "\<exists>hl' k tip. sync_headers lib bd hl = Some (Ok (hl', rev (drop k (hl_headers hl)), tip))
    \<and> take k (map he_header (hl_headers hl)) = take k chain
    \<and> hl_headers hl' = entries_of lib chain \<and> wf_headers lib hl'"
proof -
  let ?old = "map he_header (hl_headers hl)"
  have best: "bd_getbestblockhash bd = Ok (lib_block_hash lib (last chain))" and cne: "chain \<noteq> []"
    and hc: "header_chain lib chain" using serve by (auto simp: serves_chain_def)
  have tip: "tip_of hl' = Ok (lib_block_hash lib (last chain))"
    if "hl_headers hl' = entries_of lib chain" "wf_headers lib hl'" for hl'
    using that entries_last_hash [OF cne] by (simp add: wf_headers_def tip_of_def)
  obtain k where k: "k \<le> length chain" "k \<le> length (hl_headers hl)" "take k ?old = take k chain"
      "daemon_get_new_headers lib bd hl (lib_block_hash lib (last chain)) = Some (Ok (drop k chain))"
  proof (cases "hl_headers hl = []")
    case True
    then show ?thesis using that [of 0] get_all_headers_chain [OF serve]
      by (simp add: daemon_get_new_headers_def hl_is_empty_def)
  next
    case False
    then show ?thesis using fork_point [OF serve wf cf] that by blast
  qed
  show ?thesis
  proof (cases "k = length chain")
    case True
    then have "chain = take k ?old" using k(3) by simp
    then have len: "k = length (hl_headers hl)" using notanc k(2) unfolding node_behind_def by (metis le_neq_implies_less)
    then have "?old = chain" using k(3) True by simp
    moreover have "hl_headers hl = entries_of lib ?old" using wf by (simp add: wf_headers_def wf_entries_iff)
    ultimately have hl: "hl_headers hl = entries_of lib chain" by simp
    have "hl_order lib hl [] = Ok []" by (simp add: hl_order_def hashed_linked_def)
    then show ?thesis using True len best k wf hl tip [OF hl wf]
      by (intro exI [of _ hl] exI [of _ k]) (simp add: sync_headers_def)
  next
    case False
    then have ne: "drop k chain \<noteq> []" using k(1) by simp
    have cat: "take k ?old @ drop k chain = chain" using k(3) by simp
    have cf2: "collision_free lib (set ?old \<union> set (drop k chain))"
      by (rule collision_free_subset [OF cf]) (auto dest: in_set_dropD)
    obtain hl' rb where a: "bind_out (hl_order lib hl (drop k chain)) (hl_apply hl) = Ok (hl', rev (drop k (hl_headers hl)), rb)"
        "hl_headers hl' = entries_of lib chain" "wf_headers lib hl'"
      using order_apply [OF wf cf2 k(2) ne] cat hc by auto
    then obtain new where "hl_order lib hl (drop k chain) = Ok new" "hl_apply hl new = Ok (hl', rev (drop k (hl_headers hl)), rb)"
      by auto
    then show ?thesis using best k(3,4) a(2,3) tip [OF a(2,3)]
      by (intro exI [of _ hl'] exI [of _ k]) (simp add: sync_headers_def)
  qed
qed

text \<open>A node that went back: no header is new, so the list keeps its tip and the assertion fails.\<close>

lemma sync_headers_behind:
  assumes serve: "serves_chain lib bd chain" and wf: "wf_headers lib hl"
    and cf: "collision_free lib (set (map he_header (hl_headers hl)) \<union> set chain)"
    and behind: "node_behind chain hl"
  shows "sync_headers lib bd hl = Some (Panic ''assert_eq tip'')"
proof -
  let ?old = "map he_header (hl_headers hl)" and ?tip = "lib_block_hash lib (last chain)"
  obtain k where k: "k < length (hl_headers hl)" "chain = take k ?old" using behind by (auto simp: node_behind_def)
  have best: "bd_getbestblockhash bd = Ok ?tip" and cne: "chain \<noteq> []" using serve by (auto simp: serves_chain_def)
  have len: "length chain = k" using k by simp
  have wfe: "wf_entries lib (hl_headers hl)" using wf by (simp add: wf_headers_def)
  have old: "he_hash (hl_headers hl ! i) = lib_block_hash lib (?old ! i)" if "i < length (hl_headers hl)" for i
    using wf_entriesD(2) [OF wfe that] that by simp
  have hc: "header_chain lib ?old" using wfe by (simp add: wf_entries_iff)
  have dis: "lib_block_hash lib (?old ! i) \<noteq> lib_block_hash lib (?old ! j)" if "i < j" "j < length ?old" for i j
    using common_block [OF hc hc _ _ that(2), of i] that cf by (auto dest: collision_free_subset)
  have last: "last chain = ?old ! (k - 1)" using k cne len by (simp add: last_conv_nth)
  have k0: "k \<noteq> 0" using cne len by auto
  have "header_by_blockhash hl ?tip \<noteq> None"
  proof -
    have "k - 1 < length (hl_headers hl)" using k(1) by simp
    then have "hl_headers hl ! (k - 1) \<in> set (hl_headers hl)" "he_hash (hl_headers hl ! (k - 1)) = ?tip"
      using old last by simp_all
    then show ?thesis using header_by_blockhash_Some [OF wf] by fastforce
  qed
  then have new: "daemon_get_new_headers lib bd hl ?tip = Some (Ok [])"
    using k(1) by (auto simp: daemon_get_new_headers_def hl_is_empty_def walk_back.simps)
  have ne: "hl_headers hl \<noteq> []" using k(1) by auto
  have "tip_of hl = Ok (he_hash (last (hl_headers hl)))" using wf last_hash_last [OF ne] by (simp add: wf_headers_def tip_of_def)
  moreover have "he_hash (last (hl_headers hl)) \<noteq> ?tip"
  proof -
    have "k - 1 < length ?old - 1" using k(1) k0 by simp
    from dis [OF this] show ?thesis using old [of "length ?old - 1"] k(1) last ne by (simp add: last_conv_nth eq_commute)
  qed
  moreover have "hl_order lib hl [] = Ok []" by (simp add: hl_order_def hashed_linked_def)
  ultimately show ?thesis using best new by (simp add: sync_headers_def)
qed

text \<open>A node whose chain is a given list of headers.\<close>

definition demo_node :: "block_header list \<Rightarrow> bitcoind" where
  "demo_node chain =
     \<lparr>bd_getbestblockhash = Ok (lib_block_hash demo_lib (last chain)),
      bd_header_height = (\<lambda>_. Ok (length chain - 1)),
      bd_getblockheader = (\<lambda>h. ok_or (Msg ''Block not found'') (map_of (map (\<lambda>x. (lib_block_hash demo_lib x, x)) chain) h)),
      bd_getblockheaders = (\<lambda>ns. Ok (map ((!) chain) ns)),
      bd_getblocks = (\<lambda>hs. Ok [])\<rparr>"

lemma demo_node_serves:
  "serves_chain demo_lib (demo_node [demo_genesis, demo_child 2]) [demo_genesis, demo_child 2]"
  "serves_chain demo_lib (demo_node [demo_genesis]) [demo_genesis]"
  using demo_chain [of 2] by (simp_all add: serves_chain_def demo_node_def header_chain_def)

end
