(* ===== verification/Fetch.thy ===== *)
theory Fetch
  imports Daemon
begin

text \<open>
  The block fetchers of \<^verbatim>\<open>src/new_index/fetch.rs\<close>: blocks from the node in chunks of one hundred, or
  from the node's own \<^verbatim>\<open>blk*.dat\<close> files (de-obfuscation, the parser of the file format, and the
  selection of the wanted blocks). A fetcher is the list of batches it delivers; the threads and
  channels between the stages keep the order of the batches and are not modelled.
\<close>

section \<open>The code\<close>

unbundle bit_operations_syntax

datatype fetch_from = Bitcoind | BlkFiles

text \<open>The body of the chunk loop, the same in \<open>bitcoind_fetcher\<close> and \<open>bitcoind_sequential_fetcher\<close>.\<close>

definition fetch_chunk :: "bitcoin_lib \<Rightarrow> bitcoind \<Rightarrow> header_entry list \<Rightarrow> (error_kind, block_entry list) outcome" where
  "fetch_chunk lib bd entries =
     (case bd_getblocks bd (map he_hash entries) of
        Err e \<Rightarrow> Panic ''failed to get blocks from bitcoind''
      | Panic m \<Rightarrow> Panic m
      | Ok blocks \<Rightarrow>
          if length blocks \<noteq> length entries then Panic ''assert_eq blocks.len''
          else Ok (map (\<lambda>(b, entry). \<lparr>be_block = b, be_entry = entry, be_size = word_of_nat (get_block_size lib b)\<rparr>)
                     (zip blocks entries)))"

definition bitcoind_fetcher ::
  "bitcoin_lib \<Rightarrow> bitcoind \<Rightarrow> header_entry list \<Rightarrow> (error_kind, block_entry list list) outcome"
where
  "bitcoind_fetcher lib bd new_headers = collect_out (fetch_chunk lib bd) (chunks 100 new_headers)"

text \<open>De-obfuscation with the contents of \<^verbatim>\<open>xor.dat\<close>, repeated over the file.\<close>

definition xor_blob :: "bytes \<Rightarrow> bytes \<Rightarrow> bytes" where
  "xor_blob xor_key blob =
     (if xor_key = [] then blob
      else map (\<lambda>(i, b). b XOR xor_key ! (i mod length xor_key)) (enumerate 0 blob))"

function parse_slices ::
  "u32 \<Rightarrow> bytes \<Rightarrow> nat \<Rightarrow> (bytes \<times> u32) list \<Rightarrow> (error_kind, (bytes \<times> u32) list) outcome"
where
  "parse_slices magic blob pos slices =
     (if length blob \<le> pos then Ok slices
      else case de_u32 Little (drop pos blob) of
             None \<Rightarrow> Ok slices
           | Some (v, _) \<Rightarrow>
               if magic \<noteq> v then parse_slices magic blob (pos + 1) slices
               else
                 (case de_u32 Little (drop (pos + 4) blob) of
                    None \<Rightarrow> Err (Msg ''no block size'')
                  | Some (block_size, _) \<Rightarrow>
                      (let start = pos + 8; end = start + unat block_size in
                       case de_u32 Little (drop start blob) of
                         None \<Rightarrow> Ok slices
                       | Some (v', _) \<Rightarrow>
                           if magic = v' then parse_slices magic blob start slices
                           else if length blob < end then Panic ''slice index''
                           else parse_slices magic blob end
                                  (slices @ [(take (unat block_size) (drop start blob), block_size)]))))"
  by pat_completeness auto
termination
  by (relation "measure (\<lambda>(_, blob, pos, _). length blob - pos)") auto

declare parse_slices.simps [simp del]

definition parse_blocks :: "bitcoin_lib \<Rightarrow> bytes \<Rightarrow> u32 \<Rightarrow> (error_kind, (block \<times> u32) list) outcome" where
  "parse_blocks lib blob magic =
     bind_out (parse_slices magic blob 0 [])
       (collect_out (\<lambda>(slice, sz).
          map_out (\<lambda>b. (b, sz)) (expect ''failed to parse Block'' (lib_deserialize_block lib slice))))"

text \<open>The selection: every wanted block is taken out of the entry map the first time it is seen.\<close>

fun select_blocks ::
  "bitcoin_lib \<Rightarrow> (hash \<rightharpoonup> header_entry) \<Rightarrow> (block \<times> u32) list \<Rightarrow> block_entry list \<times> (hash \<rightharpoonup> header_entry)"
where
  "select_blocks lib entry_map [] = ([], entry_map)"
| "select_blocks lib entry_map ((b, sz) # rest) =
     (let blockhash = lib_block_hash lib (blk_header b) in
      case entry_map blockhash of
        None \<Rightarrow> select_blocks lib entry_map rest
      | Some entry \<Rightarrow>
          (let (es, m) = select_blocks lib (entry_map(blockhash := None)) rest
           in (\<lparr>be_block = b, be_entry = entry, be_size = sz\<rparr> # es, m)))"

fun select_batches ::
  "bitcoin_lib \<Rightarrow> (hash \<rightharpoonup> header_entry) \<Rightarrow> (block \<times> u32) list list \<Rightarrow> block_entry list list \<times> (hash \<rightharpoonup> header_entry)"
where
  "select_batches lib entry_map [] = ([], entry_map)"
| "select_batches lib entry_map (batch # rest) =
     (let (es, m) = select_blocks lib entry_map batch;
          (bs, m') = select_batches lib m rest
      in (es # bs, m'))"

text \<open>\<open>blobs\<close> are the contents of the files, \<open>xor_key\<close> those of \<^verbatim>\<open>xor.dat\<close> if it exists.\<close>

definition blkfiles_fetcher ::
  "bitcoin_lib \<Rightarrow> u32 \<Rightarrow> bytes option \<Rightarrow> bytes list \<Rightarrow> header_entry list \<Rightarrow> (error_kind, block_entry list list) outcome"
where
  "blkfiles_fetcher lib magic xor_key blobs new_headers =
     bind_out
       (collect_out
          (\<lambda>blob. case parse_blocks lib (case xor_key of None \<Rightarrow> blob | Some k \<Rightarrow> xor_blob k blob) magic of
                    Err e \<Rightarrow> Panic ''failed to parse blk*.dat file'' | r \<Rightarrow> r) blobs)
       (\<lambda>files.
          let (batches, entry_map) =
                select_batches lib (map_of (rev (map (\<lambda>h. (he_hash h, h)) new_headers))) files
          in if entry_map \<noteq> Map.empty then Panic ''failed to index blocks from blk*.dat files''
             else Ok batches)"

definition start_fetcher ::
  "bitcoin_lib \<Rightarrow> bitcoind \<Rightarrow> u32 \<times> bytes option \<times> bytes list \<Rightarrow> fetch_from \<Rightarrow> header_entry list
    \<Rightarrow> (error_kind, block_entry list list) outcome"
where
  "start_fetcher lib bd files from new_headers =
     (case from of
        Bitcoind \<Rightarrow> bitcoind_fetcher lib bd new_headers
      | BlkFiles \<Rightarrow> blkfiles_fetcher lib (fst files) (fst (snd files)) (snd (snd files)) new_headers)"

section \<open>Lemmas\<close>

lemma xor_blob_twice: "xor_blob k (xor_blob k blob) = blob"
proof (cases "k = []")
  case False
  show ?thesis
    by (rule nth_equalityI) (auto simp: xor_blob_def False nth_enumerate_eq xor.assoc)
qed (simp add: xor_blob_def)

text \<open>One record of a block file.\<close>

definition block_record :: "u32 \<Rightarrow> bytes \<Rightarrow> bytes" where
  "block_record magic body = ser_u32 Little magic @ ser_u32 Little (word_of_nat (length body)) @ body"

definition body_ok :: "u32 \<Rightarrow> bytes \<Rightarrow> bool" where
  "body_ok magic body \<longleftrightarrow>
     4 \<le> length body \<and> length body < 2 ^ 32 \<and> take 4 body \<noteq> ser_u32 Little magic"

lemma length_block_record [simp]: "length (block_record magic body) = 8 + length body"
  by (simp add: block_record_def)

lemma le_bytes_le_val:
  "le_bytes (length bs) (le_val bs) = bs"
proof (induction bs)
  case (Cons b bs)
  have b: "unat b < 256" using unsigned_less [of b, where ?'a = nat] by simp
  have "(unat b + 256 * le_val bs) div 256 = le_val bs" using b by simp
  moreover have "(word_of_nat (unat b + 256 * le_val bs) :: byte) = b"
    unfolding word_unat_eq_iff unat_byte_of_nat using b by simp
  ultimately show ?case using Cons by simp
qed simp

lemma le_val_bound: "le_val bs < 256 ^ length bs"
proof (induction bs)
  case (Cons b bs)
  have "unat b < 256" using unsigned_less [of b, where ?'a = nat] by simp
  then show ?case using Cons by simp
qed simp

lemma de_u32_body:
  assumes "body_ok magic body"
  shows "\<exists>v r. de_u32 Little (body @ rest) = Some (v, r) \<and> v \<noteq> magic"
proof -
  have len: "4 \<le> length body" "take 4 body \<noteq> ser_u32 Little magic" using assms by (auto simp: body_ok_def)
  define bs where "bs = take 4 body"
  have bs: "length bs = 4" "take 4 (body @ rest) = bs" using len by (simp_all add: bs_def)
  have lt: "le_val bs < 2 ^ 32" using le_val_bound [of bs] bs(1) by simp
  let ?v = "word_of_nat (le_val bs) :: u32"
  have d: "de_u32 Little (body @ rest) = Some (?v, drop 4 (body @ rest))"
    using len bs(2) by (simp add: de_u32_def de_word_def de_uint_def)
  have "?v \<noteq> magic"
  proof
    assume "?v = magic"
    then have "unat magic = le_val bs" using lt by (auto simp: unat_of_nat)
    then have "ser_u32 Little magic = bs"
      using le_bytes_le_val [of bs] bs(1) by (simp add: ser_u32_def ser_uint_def)
    then show False using len by (simp add: bs_def)
  qed
  then show ?thesis using d by blast
qed

lemma parse_slices_record:
  assumes "body_ok magic body" "drop pos blob = block_record magic body @ rest"
  shows "parse_slices magic blob pos slices
    = parse_slices magic blob (pos + 8 + length body) (slices @ [(body, word_of_nat (length body))])"
proof -
  let ?n = "word_of_nat (length body) :: u32"
  have n: "unat ?n = length body" using assms(1) by (simp add: body_ok_def unat_of_nat)
  have len: "length blob - pos = 8 + length body + length rest"
    using arg_cong [OF assms(2), of length] by simp
  have pos: "pos < length blob" using len by simp
  have bnd: "\<not> length blob < pos + 8 + length body" using len by simp
  have d0: "de_u32 Little (drop pos blob) = Some (magic, ser_u32 Little ?n @ body @ rest)"
    unfolding assms(2) block_record_def by simp
  have drop4: "drop (pos + 4) blob = ser_u32 Little ?n @ body @ rest"
    using arg_cong [OF assms(2), of "drop 4"] by (simp add: block_record_def add.commute)
  then have d4: "de_u32 Little (drop (pos + 4) blob) = Some (?n, body @ rest)" by simp
  have drop8: "drop (pos + 8) blob = body @ rest"
    using arg_cong [OF drop4, of "drop 4"] by (simp add: add.commute)
  obtain v r where d8: "de_u32 Little (drop (pos + 8) blob) = Some (v, r)" "v \<noteq> magic"
    using de_u32_body [OF assms(1)] drop8 by metis
  show ?thesis
    by (subst parse_slices.simps)
      (use pos bnd d0 d4 d8 n drop8 in \<open>simp add: Let_def add.assoc\<close>)
qed

lemma de_u32_zeros: "4 \<le> n \<Longrightarrow> de_u32 Little (replicate n 0) = Some (0, replicate (n - 4) 0)"
proof -
  assume n: "4 \<le> n"
  have "replicate 4 (0::byte) = [0, 0, 0, 0]" by (simp add: eval_nat_numeral)
  then have z: "ser_u32 Little 0 = replicate 4 (0::byte)" by (simp add: ser_u32_def ser_uint_def le_bytes_4)
  have "replicate n (0::byte) = ser_u32 Little 0 @ replicate (n - 4) 0"
    unfolding z using n by (simp add: replicate_add [symmetric])
  then show "de_u32 Little (replicate n 0) = Some (0, replicate (n - 4) 0)" by simp
qed

lemma parse_slices_zeros:
  "drop pos blob = replicate n 0 \<Longrightarrow> magic \<noteq> 0 \<Longrightarrow> parse_slices magic blob pos slices = Ok slices"
proof (induction n arbitrary: pos)
  case 0
  then show ?case by (simp add: parse_slices.simps)
next
  case (Suc n)
  have pos: "pos < length blob" using arg_cong [OF Suc.prems(1), of length] by simp
  show ?case
  proof (cases "4 \<le> Suc n")
    case True
    then have "de_u32 Little (drop pos blob) = Some (0, replicate (Suc n - 4) 0)"
      using de_u32_zeros Suc.prems(1) by metis
    moreover have "drop (pos + 1) blob = replicate n 0"
      using arg_cong [OF Suc.prems(1), of "drop 1"] by (simp add: add.commute)
    ultimately show ?thesis using Suc pos by (subst parse_slices.simps) simp
  next
    case False
    then have "de_u32 Little (drop pos blob) = None"
      using Suc.prems(1) by (simp add: de_u32_def de_word_def de_uint_def)
    then show ?thesis using pos by (subst parse_slices.simps) simp
  qed
qed

lemma parse_slices_file:
  assumes "\<And>body. body \<in> set bodies \<Longrightarrow> body_ok magic body" and "magic \<noteq> 0"
    and "drop pos blob = concat (map (block_record magic) bodies) @ replicate n 0"
  shows "parse_slices magic blob pos slices
    = Ok (slices @ map (\<lambda>body. (body, word_of_nat (length body))) bodies)"
  using assms(1,3)
proof (induction bodies arbitrary: pos slices)
  case Nil
  then show ?case using parse_slices_zeros assms(2) by simp
next
  case (Cons body bodies)
  have rest: "drop (pos + 8 + length body) blob = concat (map (block_record magic) bodies) @ replicate n 0"
    using arg_cong [OF Cons.prems(2), of "drop (8 + length body)"] by (simp add: add_ac)
  have "parse_slices magic blob pos slices
      = parse_slices magic blob (pos + 8 + length body) (slices @ [(body, word_of_nat (length body))])"
    using Cons.prems by (intro parse_slices_record) auto
  then show ?case using Cons.IH [OF _ rest] Cons.prems(1) by simp
qed

lemma fetch_chunk_entries:
  "fetch_chunk lib bd es = Ok bs \<Longrightarrow> map be_entry bs = es"
  by (auto simp: fetch_chunk_def case_prod_unfold comp_def split: outcome.splits if_splits)

section \<open>Properties\<close>

text \<open>The parser of the block files. A file of records (magic, size, body) with padding zeros behind
  them is parsed into exactly its blocks with their sizes, without error or panic, also when the file
  is obfuscated with a key.\<close>

theorem blk_file_parsed:
  assumes "\<And>body. body \<in> set bodies \<Longrightarrow> body_ok magic body" and "magic \<noteq> 0"
    and "\<And>body. body \<in> set bodies \<Longrightarrow> lib_deserialize_block lib body = Some (blk body)"
  shows "parse_blocks lib (xor_blob key (xor_blob key
           (concat (map (block_record magic) bodies) @ replicate n 0))) magic
    = Ok (map (\<lambda>body. (blk body, word_of_nat (length body))) bodies)"
proof -
  have "parse_slices magic (concat (map (block_record magic) bodies) @ replicate n 0) 0 []
      = Ok (map (\<lambda>body. (body, word_of_nat (length body))) bodies)"
    using parse_slices_file [OF assms(1,2), of bodies 0] by simp
  moreover have "collect_out (\<lambda>(slice, sz). map_out (\<lambda>b. (b, sz)) (expect m (lib_deserialize_block lib slice)))
      (map (\<lambda>body. (body, word_of_nat (length body))) bodies)
      = Ok (map (\<lambda>body. (blk body, word_of_nat (length body))) bodies)" for m
    using assms(3) by (induction bodies) simp_all
  ultimately show ?thesis by (simp add: parse_blocks_def xor_blob_twice)
qed

theorem blk_file_parsed_witness:
  "\<exists>b. parse_blocks demo_lib (xor_blob [5, 6] (xor_blob [5, 6]
     (block_record 0xd9b4bef9 [7, 0, 0, 0] @ [0, 0, 0, 0, 0]))) 0xd9b4bef9 = Ok [(b, 4)]"
proof -
  let ?b = "the (lib_deserialize_block demo_lib [7, 0, 0, 0])"
  have ok: "body_ok 0xd9b4bef9 [7, 0, 0, 0]"
    by (simp add: body_ok_def ser_u32_def ser_uint_def le_bytes_4)
  have "parse_blocks demo_lib (xor_blob [5, 6] (xor_blob [5, 6]
      (concat (map (block_record 0xd9b4bef9) [[7, 0, 0, 0]]) @ replicate 5 0))) 0xd9b4bef9
      = Ok (map (\<lambda>body. (?b, word_of_nat (length body))) [[7, 0, 0, 0] :: bytes])"
    by (rule blk_file_parsed) (use ok in \<open>auto simp: demo_lib_def\<close>)
  moreover have "replicate 5 (0::byte) = [0, 0, 0, 0, 0]" by (simp add: eval_nat_numeral)
  ultimately show ?thesis by auto
qed

text \<open>Fetching from the node delivers every requested block exactly once, in order, in batches of
  at most one hundred, each with the header entry it was requested for.\<close>

theorem bitcoind_fetcher_complete:
  assumes "bitcoind_fetcher lib bd headers = Ok batches"
  shows "map be_entry (concat batches) = headers \<and> (\<forall>batch\<in>set batches. batch \<noteq> [] \<and> length batch \<le> 100)"
proof -
  have all: "list_all2 (\<lambda>es bs. fetch_chunk lib bd es = Ok bs) (chunks 100 headers) batches"
    using assms by (simp add: bitcoind_fetcher_def collect_out_Ok_iff)
  then have eq: "map (map be_entry) batches = chunks 100 headers"
    by (induction rule: list_all2_induct) (auto simp: fetch_chunk_entries)
  then have "map be_entry (concat batches) = headers" by (simp add: map_concat concat_chunks)
  moreover have "batch \<noteq> [] \<and> length batch \<le> 100" if "batch \<in> set batches" for batch
  proof -
    have "map be_entry batch \<in> set (chunks 100 headers)" using that eq by (metis image_eqI list.set_map)
    from chunks_lengths [OF this] show ?thesis by simp
  qed
  ultimately show ?thesis by blast
qed

theorem bitcoind_fetcher_complete_witness:
  "\<exists>batches. bitcoind_fetcher demo_lib
       ((demo_node [demo_genesis])\<lparr>bd_getblocks := (\<lambda>hs. Ok (map (\<lambda>_. \<lparr>blk_header = demo_genesis, blk_txdata = []\<rparr>) hs))\<rparr>)
       (entries_of demo_lib [demo_genesis]) = Ok batches
     \<and> map be_entry (concat batches) = entries_of demo_lib [demo_genesis]"
proof -
  let ?bd = "(demo_node [demo_genesis])\<lparr>bd_getblocks := (\<lambda>hs. Ok (map (\<lambda>_. \<lparr>blk_header = demo_genesis, blk_txdata = []\<rparr>) hs))\<rparr>"
  obtain batches where b: "bitcoind_fetcher demo_lib ?bd (entries_of demo_lib [demo_genesis]) = Ok batches"
    by (simp add: bitcoind_fetcher_def chunks_short fetch_chunk_def entries_of_def)
  from bitcoind_fetcher_complete [OF b] b show ?thesis by blast
qed

end
