(* ===== verification/Rows.thy ===== *)
theory Rows
  imports Header_List
begin

text \<open>
  The rows of the on-disk schema (\<^verbatim>\<open>src/new_index/schema.rs\<close>): every key structure with its code
  letter, its encoder and decoder, and the prefixes the scans use. History keys are big-endian so that
  the byte order of the database is the order of (height, position); all others are little-endian.
  Hashes inside keys are plain 32-byte arrays; hashes inside values go through the serde
  implementation of the \<open>bitcoin\<close> crate (\<open>lib_ser_hash\<close>, \<open>lib_de_hash\<close>).
\<close>

section \<open>Rows and sequences\<close>

record db_row =
  row_key :: bytes
  row_value :: bytes

text \<open>Sequences and maps are a 64-bit length and their elements.\<close>

definition ser_seq :: "('a \<Rightarrow> bytes) \<Rightarrow> 'a list \<Rightarrow> bytes" where
  "ser_seq enc xs = ser_u64 Little (word_of_nat (length xs)) @ concat (map enc xs)"

fun de_items :: "(bytes \<Rightarrow> ('a \<times> bytes) option) \<Rightarrow> nat \<Rightarrow> bytes \<Rightarrow> ('a list \<times> bytes) option" where
  "de_items dec 0 bs = Some ([], bs)"
| "de_items dec (Suc n) bs =
     Option.bind (dec bs) (\<lambda>(x, r). map_option (\<lambda>(xs, r'). (x # xs, r')) (de_items dec n r))"

definition de_seq :: "(bytes \<Rightarrow> ('a \<times> bytes) option) \<Rightarrow> bytes \<Rightarrow> ('a list \<times> bytes) option" where
  "de_seq dec bs = Option.bind (de_u64 Little bs) (\<lambda>(n, r). de_items dec (unat n) r)"

definition hash_serde :: "bitcoin_lib \<Rightarrow> bool" where
  "hash_serde lib \<longleftrightarrow>
     (\<forall>h r. hash_ok h \<longrightarrow> lib_de_hash lib (lib_ser_hash lib h @ r) = Some (h, r))"

section \<open>Address search rows\<close>

definition addr_search_row :: "bitcoin_lib \<Rightarrow> network \<Rightarrow> bytes \<Rightarrow> db_row option" where
  "addr_search_row lib network spk =
     map_option (\<lambda>address. \<lparr>row_key = 0x61 # address, row_value = []\<rparr>) (lib_address lib network spk)"

definition addr_search_filter :: "bytes \<Rightarrow> bytes" where
  "addr_search_filter prefix = 0x61 # prefix"

section \<open>Transaction rows\<close>

record tx_row_key =
  trk_code :: byte
  trk_txid :: hash

definition ser_tx_row_key :: "tx_row_key \<Rightarrow> bytes" where
  "ser_tx_row_key k = ser_u8 (trk_code k) @ trk_txid k"

definition tx_row_new :: "bitcoin_lib \<Rightarrow> transaction \<Rightarrow> tx_row_key \<times> bytes" where
  "tx_row_new lib txn = (\<lparr>trk_code = 0x54, trk_txid = get_txid lib txn\<rparr>, lib_serialize_tx lib txn)"

definition tx_row_key_of :: "bytes \<Rightarrow> bytes" where
  "tx_row_key_of prefix = 0x54 # prefix"

definition tx_row_into_row :: "tx_row_key \<times> bytes \<Rightarrow> db_row" where
  "tx_row_into_row r = \<lparr>row_key = ser_tx_row_key (fst r), row_value = snd r\<rparr>"

record tx_conf_key =
  tck_code :: byte
  tck_txid :: hash
  tck_blockhash :: hash

definition ser_tx_conf_key :: "tx_conf_key \<Rightarrow> bytes" where
  "ser_tx_conf_key k = ser_u8 (tck_code k) @ tck_txid k @ tck_blockhash k"

definition de_tx_conf_key :: "bytes \<Rightarrow> (tx_conf_key \<times> bytes) option" where
  "de_tx_conf_key bs =
     Option.bind (de_u8 bs) (\<lambda>(code, r).
     Option.bind (de_array 32 r) (\<lambda>(txid, r).
     Option.bind (de_array 32 r) (\<lambda>(blockhash, r).
       Some (\<lparr>tck_code = code, tck_txid = txid, tck_blockhash = blockhash\<rparr>, r))))"

definition tx_conf_new :: "bitcoin_lib \<Rightarrow> transaction \<Rightarrow> hash \<Rightarrow> tx_conf_key" where
  "tx_conf_new lib txn blockhash =
     \<lparr>tck_code = 0x43, tck_txid = get_txid lib txn, tck_blockhash = blockhash\<rparr>"

definition tx_conf_filter :: "bytes \<Rightarrow> bytes" where
  "tx_conf_filter prefix = 0x43 # prefix"

definition tx_conf_into_row :: "tx_conf_key \<Rightarrow> db_row" where
  "tx_conf_into_row k = \<lparr>row_key = ser_tx_conf_key k, row_value = []\<rparr>"

definition tx_conf_from_row :: "db_row \<Rightarrow> (error_kind, tx_conf_key) outcome" where
  "tx_conf_from_row row =
     expect ''failed to parse TxConfKey'' (map_option fst (de_tx_conf_key (row_key row)))"

record tx_out_key =
  tok_code :: byte
  tok_txid :: hash
  tok_vout :: u32

definition ser_tx_out_key :: "tx_out_key \<Rightarrow> bytes" where
  "ser_tx_out_key k = ser_u8 (tok_code k) @ tok_txid k @ ser_u32 Little (tok_vout k)"

definition tx_out_new :: "bitcoin_lib \<Rightarrow> hash \<Rightarrow> nat \<Rightarrow> tx_out \<Rightarrow> tx_out_key \<times> bytes" where
  "tx_out_new lib txid vout txout =
     (\<lparr>tok_code = 0x4f, tok_txid = txid, tok_vout = word_of_nat vout\<rparr>, lib_serialize_txout lib txout)"

definition tx_out_row_key :: "out_point \<Rightarrow> bytes" where
  "tx_out_row_key outpoint =
     ser_tx_out_key \<lparr>tok_code = 0x4f, tok_txid = op_txid outpoint, tok_vout = op_vout outpoint\<rparr>"

definition tx_out_into_row :: "tx_out_key \<times> bytes \<Rightarrow> db_row" where
  "tx_out_into_row r = \<lparr>row_key = ser_tx_out_key (fst r), row_value = snd r\<rparr>"

section \<open>Block rows\<close>

record block_key =
  bk_code :: byte
  bk_hash :: hash

definition ser_block_key :: "block_key \<Rightarrow> bytes" where
  "ser_block_key k = ser_u8 (bk_code k) @ bk_hash k"

definition de_block_key :: "bytes \<Rightarrow> (block_key \<times> bytes) option" where
  "de_block_key bs =
     Option.bind (de_u8 bs) (\<lambda>(code, r).
     Option.bind (de_array 32 r) (\<lambda>(h, r). Some (\<lparr>bk_code = code, bk_hash = h\<rparr>, r)))"

definition block_new_header :: "bitcoin_lib \<Rightarrow> block_entry \<Rightarrow> block_key \<times> bytes" where
  "block_new_header lib b =
     (\<lparr>bk_code = 0x42, bk_hash = he_hash (be_entry b)\<rparr>, lib_serialize_header lib (blk_header (be_block b)))"

definition ser_txids :: "bitcoin_lib \<Rightarrow> hash list \<Rightarrow> bytes" where
  "ser_txids lib txids = ser_seq (lib_ser_hash lib) txids"

definition de_txids :: "bitcoin_lib \<Rightarrow> bytes \<Rightarrow> hash list option" where
  "de_txids lib bs = map_option fst (de_seq (lib_de_hash lib) bs)"

definition ser_block_meta :: "block_meta \<Rightarrow> bytes" where
  "ser_block_meta m =
     ser_u32 Little (bm_tx_count m) @ ser_u32 Little (bm_size m) @ ser_u32 Little (bm_weight m)"

definition de_block_meta :: "bytes \<Rightarrow> block_meta option" where
  "de_block_meta bs =
     Option.bind (de_u32 Little bs) (\<lambda>(c, r).
     Option.bind (de_u32 Little r) (\<lambda>(s, r).
     Option.bind (de_u32 Little r) (\<lambda>(w, r).
       Some \<lparr>bm_tx_count = c, bm_size = s, bm_weight = w\<rparr>)))"

definition block_new_txids :: "bitcoin_lib \<Rightarrow> hash \<Rightarrow> hash list \<Rightarrow> block_key \<times> bytes" where
  "block_new_txids lib h txids = (\<lparr>bk_code = 0x58, bk_hash = h\<rparr>, ser_txids lib txids)"

definition block_new_meta :: "hash \<Rightarrow> block_meta \<Rightarrow> block_key \<times> bytes" where
  "block_new_meta h meta = (\<lparr>bk_code = 0x4d, bk_hash = h\<rparr>, ser_block_meta meta)"

definition block_new_done :: "hash \<Rightarrow> block_key \<times> bytes" where
  "block_new_done h = (\<lparr>bk_code = 0x44, bk_hash = h\<rparr>, [])"

definition header_filter :: bytes where
  "header_filter = [0x42]"

definition txids_key :: "hash \<Rightarrow> bytes" where
  "txids_key h = 0x58 # h"

definition meta_key :: "hash \<Rightarrow> bytes" where
  "meta_key h = 0x4d # h"

definition done_filter :: bytes where
  "done_filter = [0x44]"

definition block_into_row :: "block_key \<times> bytes \<Rightarrow> db_row" where
  "block_into_row r = \<lparr>row_key = ser_block_key (fst r), row_value = snd r\<rparr>"

definition block_from_row :: "db_row \<Rightarrow> (error_kind, block_key \<times> bytes) outcome" where
  "block_from_row row =
     map_out (\<lambda>k. (k, row_value row)) (expect ''unwrap'' (map_option fst (de_block_key (row_key row))))"

section \<open>History rows\<close>

record funding_info =
  fu_txid :: hash
  fu_vout :: u32
  fu_value :: u64

record spending_info =
  sp_txid :: hash
  sp_vin :: u32
  sp_prev_txid :: hash
  sp_prev_vout :: u32
  sp_value :: u64

text \<open>The order of the constructors is the order of the enum, which the encoding keeps.\<close>

datatype tx_history_info = Spending spending_info | Funding funding_info

fun hi_txid :: "tx_history_info \<Rightarrow> hash" where
  "hi_txid (Funding info) = fu_txid info"
| "hi_txid (Spending info) = sp_txid info"

fun hi_vin_or_vout :: "tx_history_info \<Rightarrow> u32" where
  "hi_vin_or_vout (Funding info) = fu_vout info"
| "hi_vin_or_vout (Spending info) = sp_vin info"

fun hi_has_vin :: "tx_history_info \<Rightarrow> bool" where
  "hi_has_vin (Funding _) = False"
| "hi_has_vin (Spending _) = True"

fun hi_funded_outpoint :: "tx_history_info \<Rightarrow> out_point" where
  "hi_funded_outpoint (Funding info) = \<lparr>op_txid = fu_txid info, op_vout = fu_vout info\<rparr>"
| "hi_funded_outpoint (Spending info) = \<lparr>op_txid = sp_prev_txid info, op_vout = sp_prev_vout info\<rparr>"

fun ser_history_info :: "tx_history_info \<Rightarrow> bytes" where
  "ser_history_info (Spending i) =
     ser_u32 Big 0 @ sp_txid i @ ser_u32 Big (sp_vin i) @ sp_prev_txid i @ ser_u32 Big (sp_prev_vout i)
       @ ser_u64 Big (sp_value i)"
| "ser_history_info (Funding i) =
     ser_u32 Big 1 @ fu_txid i @ ser_u32 Big (fu_vout i) @ ser_u64 Big (fu_value i)"

definition de_history_info :: "bytes \<Rightarrow> (tx_history_info \<times> bytes) option" where
  "de_history_info bs =
     Option.bind (de_u32 Big bs) (\<lambda>(tag, r).
       if tag = 0 then
         Option.bind (de_array 32 r) (\<lambda>(txid, r).
         Option.bind (de_u32 Big r) (\<lambda>(vin, r).
         Option.bind (de_array 32 r) (\<lambda>(prev_txid, r).
         Option.bind (de_u32 Big r) (\<lambda>(prev_vout, r).
         Option.bind (de_u64 Big r) (\<lambda>(v, r).
           Some (Spending \<lparr>sp_txid = txid, sp_vin = vin, sp_prev_txid = prev_txid,
                           sp_prev_vout = prev_vout, sp_value = v\<rparr>, r))))))
       else if tag = 1 then
         Option.bind (de_array 32 r) (\<lambda>(txid, r).
         Option.bind (de_u32 Big r) (\<lambda>(vout, r).
         Option.bind (de_u64 Big r) (\<lambda>(v, r).
           Some (Funding \<lparr>fu_txid = txid, fu_vout = vout, fu_value = v\<rparr>, r))))
       else None)"

record tx_history_key =
  thk_code :: byte
  thk_hash :: hash
  thk_confirmed_height :: u32
  thk_tx_position :: u16
  thk_txinfo :: tx_history_info

definition ser_history_key :: "tx_history_key \<Rightarrow> bytes" where
  "ser_history_key k =
     ser_u8 (thk_code k) @ thk_hash k @ ser_u32 Big (thk_confirmed_height k)
       @ ser_u16 Big (thk_tx_position k) @ ser_history_info (thk_txinfo k)"

definition de_history_key :: "bytes \<Rightarrow> (tx_history_key \<times> bytes) option" where
  "de_history_key bs =
     Option.bind (de_u8 bs) (\<lambda>(code, r).
     Option.bind (de_array 32 r) (\<lambda>(h, r).
     Option.bind (de_u32 Big r) (\<lambda>(height, r).
     Option.bind (de_u16 Big r) (\<lambda>(pos, r).
     Option.bind (de_history_info r) (\<lambda>(info, r).
       Some (\<lparr>thk_code = code, thk_hash = h, thk_confirmed_height = height,
              thk_tx_position = pos, thk_txinfo = info\<rparr>, r))))))"

definition history_new :: "bitcoin_lib \<Rightarrow> bytes \<Rightarrow> u32 \<Rightarrow> u16 \<Rightarrow> tx_history_info \<Rightarrow> tx_history_key" where
  "history_new lib script confirmed_height tx_position txinfo =
     \<lparr>thk_code = 0x48, thk_hash = compute_script_hash lib script,
      thk_confirmed_height = confirmed_height, thk_tx_position = tx_position, thk_txinfo = txinfo\<rparr>"

definition history_filter :: "byte \<Rightarrow> bytes \<Rightarrow> bytes" where
  "history_filter code hash_prefix = code # hash_prefix"

definition prefix_end :: "byte \<Rightarrow> bytes \<Rightarrow> (error_kind, bytes) outcome" where
  "prefix_end code h = map_out (\<lambda>h. ser_u8 code @ h @ ser_u32 Big (- 1)) (full_hash h)"

definition prefix_height :: "byte \<Rightarrow> bytes \<Rightarrow> u32 \<Rightarrow> (error_kind, bytes) outcome" where
  "prefix_height code h height = map_out (\<lambda>h. ser_u8 code @ h @ ser_u32 Big height) (full_hash h)"

definition prefix_height_end :: "byte \<Rightarrow> bytes \<Rightarrow> u32 \<Rightarrow> (error_kind, bytes) outcome" where
  "prefix_height_end code h height =
     map_out (\<lambda>h. ser_u8 code @ h @ ser_u32 Big height @ ser_u16 Big (- 1)) (full_hash h)"

definition history_into_row :: "tx_history_key \<Rightarrow> db_row" where
  "history_into_row k = \<lparr>row_key = ser_history_key k, row_value = []\<rparr>"

definition history_from_row :: "db_row \<Rightarrow> (error_kind, tx_history_key) outcome" where
  "history_from_row row =
     expect ''failed to deserialize TxHistoryKey'' (map_option fst (de_history_key (row_key row)))"

definition history_txid :: "tx_history_key \<Rightarrow> hash" where
  "history_txid k = hi_txid (thk_txinfo k)"

definition history_funded_outpoint :: "tx_history_key \<Rightarrow> out_point" where
  "history_funded_outpoint k = hi_funded_outpoint (thk_txinfo k)"

section \<open>Spending edges\<close>

record tx_edge_key =
  tek_code :: byte
  tek_funding_txid :: hash
  tek_funding_vout :: u32
  tek_spending_txid :: hash
  tek_spending_vin :: u32

definition ser_tx_edge_key :: "tx_edge_key \<Rightarrow> bytes" where
  "ser_tx_edge_key k =
     ser_u8 (tek_code k) @ tek_funding_txid k @ ser_u32 Little (tek_funding_vout k)
       @ tek_spending_txid k @ ser_u32 Little (tek_spending_vin k)"

definition de_tx_edge_key :: "bytes \<Rightarrow> (tx_edge_key \<times> bytes) option" where
  "de_tx_edge_key bs =
     Option.bind (de_u8 bs) (\<lambda>(code, r).
     Option.bind (de_array 32 r) (\<lambda>(ft, r).
     Option.bind (de_u32 Little r) (\<lambda>(fv, r).
     Option.bind (de_array 32 r) (\<lambda>(st, r).
     Option.bind (de_u32 Little r) (\<lambda>(sv, r).
       Some (\<lparr>tek_code = code, tek_funding_txid = ft, tek_funding_vout = fv,
              tek_spending_txid = st, tek_spending_vin = sv\<rparr>, r))))))"

definition edge_new :: "hash \<Rightarrow> u32 \<Rightarrow> hash \<Rightarrow> u32 \<Rightarrow> tx_edge_key" where
  "edge_new funding_txid funding_vout spending_txid spending_vin =
     \<lparr>tek_code = 0x53, tek_funding_txid = funding_txid, tek_funding_vout = funding_vout,
      tek_spending_txid = spending_txid, tek_spending_vin = spending_vin\<rparr>"

definition edge_filter :: "out_point \<Rightarrow> bytes" where
  "edge_filter outpoint = ser_u8 0x53 @ op_txid outpoint @ ser_u32 Little (op_vout outpoint)"

definition edge_into_row :: "tx_edge_key \<Rightarrow> db_row" where
  "edge_into_row k = \<lparr>row_key = ser_tx_edge_key k, row_value = []\<rparr>"

definition edge_from_row :: "db_row \<Rightarrow> (error_kind, tx_edge_key) outcome" where
  "edge_from_row row =
     expect ''failed to deserialize TxEdgeKey'' (map_option fst (de_tx_edge_key (row_key row)))"

section \<open>Cache rows\<close>

record script_stats =
  st_tx_count :: u64
  st_funded_txo_count :: u64
  st_spent_txo_count :: u64
  st_funded_txo_sum :: u64
  st_spent_txo_sum :: u64

record script_cache_key =
  sck_code :: byte
  sck_scripthash :: hash

definition ser_script_cache_key :: "script_cache_key \<Rightarrow> bytes" where
  "ser_script_cache_key k = ser_u8 (sck_code k) @ sck_scripthash k"

definition ser_stats :: "script_stats \<Rightarrow> bytes" where
  "ser_stats s =
     ser_u64 Little (st_tx_count s) @ ser_u64 Little (st_funded_txo_count s)
       @ ser_u64 Little (st_spent_txo_count s) @ ser_u64 Little (st_funded_txo_sum s)
       @ ser_u64 Little (st_spent_txo_sum s)"

definition de_stats :: "bytes \<Rightarrow> (script_stats \<times> bytes) option" where
  "de_stats bs =
     Option.bind (de_u64 Little bs) (\<lambda>(a, r).
     Option.bind (de_u64 Little r) (\<lambda>(b, r).
     Option.bind (de_u64 Little r) (\<lambda>(c, r).
     Option.bind (de_u64 Little r) (\<lambda>(d, r).
     Option.bind (de_u64 Little r) (\<lambda>(e, r).
       Some (\<lparr>st_tx_count = a, st_funded_txo_count = b, st_spent_txo_count = c,
              st_funded_txo_sum = d, st_spent_txo_sum = e\<rparr>, r))))))"

definition stats_cache_new ::
  "bitcoin_lib \<Rightarrow> bytes \<Rightarrow> script_stats \<Rightarrow> hash \<Rightarrow> (error_kind, script_cache_key \<times> bytes) outcome"
where
  "stats_cache_new lib scripthash stats blockhash =
     map_out (\<lambda>h. (\<lparr>sck_code = 0x41, sck_scripthash = h\<rparr>, ser_stats stats @ lib_ser_hash lib blockhash))
       (full_hash scripthash)"

definition de_stats_cache :: "bitcoin_lib \<Rightarrow> bytes \<Rightarrow> (script_stats \<times> hash) option" where
  "de_stats_cache lib bs =
     Option.bind (de_stats bs) (\<lambda>(stats, r). map_option (\<lambda>(h, _). (stats, h)) (lib_de_hash lib r))"

definition stats_cache_key :: "bytes \<Rightarrow> bytes" where
  "stats_cache_key scripthash = 0x41 # scripthash"

text \<open>A cached utxo: \<open>((txid, vout), (block_height, value))\<close>; maps are the lists of their entries.\<close>

type_synonym utxo_map = "(out_point \<times> block_id \<times> u64) list"
type_synonym cached_utxo_map = "((hash \<times> u32) \<times> u32 \<times> u64) list"

definition make_utxo_cache :: "utxo_map \<Rightarrow> cached_utxo_map" where
  "make_utxo_cache utxos =
     map (\<lambda>(outpoint, blockid, v).
            ((op_txid outpoint, op_vout outpoint), word_of_nat (bid_height blockid), v)) utxos"

definition ser_utxo :: "bitcoin_lib \<Rightarrow> (hash \<times> u32) \<times> u32 \<times> u64 \<Rightarrow> bytes" where
  "ser_utxo lib u = (case u of ((txid, vout), height, v) \<Rightarrow>
     lib_ser_hash lib txid @ ser_u32 Little vout @ ser_u32 Little height @ ser_u64 Little v)"

definition de_utxo :: "bitcoin_lib \<Rightarrow> bytes \<Rightarrow> (((hash \<times> u32) \<times> u32 \<times> u64) \<times> bytes) option" where
  "de_utxo lib bs =
     Option.bind (lib_de_hash lib bs) (\<lambda>(txid, r).
     Option.bind (de_u32 Little r) (\<lambda>(vout, r).
     Option.bind (de_u32 Little r) (\<lambda>(height, r).
     Option.bind (de_u64 Little r) (\<lambda>(v, r). Some (((txid, vout), height, v), r)))))"

definition utxo_cache_new ::
  "bitcoin_lib \<Rightarrow> bytes \<Rightarrow> utxo_map \<Rightarrow> hash \<Rightarrow> (error_kind, script_cache_key \<times> bytes) outcome"
where
  "utxo_cache_new lib scripthash utxos blockhash =
     map_out (\<lambda>h. (\<lparr>sck_code = 0x55, sck_scripthash = h\<rparr>,
                    ser_seq (ser_utxo lib) (make_utxo_cache utxos) @ lib_ser_hash lib blockhash))
       (full_hash scripthash)"

definition de_utxo_cache :: "bitcoin_lib \<Rightarrow> bytes \<Rightarrow> (cached_utxo_map \<times> hash) option" where
  "de_utxo_cache lib bs =
     Option.bind (de_seq (de_utxo lib) bs) (\<lambda>(us, r). map_option (\<lambda>(h, _). (us, h)) (lib_de_hash lib r))"

definition utxo_cache_key :: "bytes \<Rightarrow> bytes" where
  "utxo_cache_key scripthash = 0x55 # scripthash"

definition script_cache_into_row :: "script_cache_key \<times> bytes \<Rightarrow> db_row" where
  "script_cache_into_row r = \<lparr>row_key = ser_script_cache_key (fst r), row_value = snd r\<rparr>"

text \<open>
  Reading a cached map back: each height is resolved to a block id of the best chain; \<open>blockids\<close> is
  \<open>chain.blockid_by_height\<close>.
\<close>

definition from_utxo_cache ::
  "cached_utxo_map \<Rightarrow> (nat \<Rightarrow> block_id option) \<Rightarrow> (error_kind, utxo_map) outcome"
where
  "from_utxo_cache utxos_cache blockids =
     collect_out
       (\<lambda>((txid, vout), height, v).
          map_out (\<lambda>blockid. (\<lparr>op_txid = txid, op_vout = vout\<rparr>, blockid, v))
            (expect ''missing blockheader for valid utxo cache entry'' (blockids (unat height))))
       utxos_cache"

section \<open>Every key is a codec\<close>

abbreviation conf_ok :: "tx_conf_key \<Rightarrow> bool" where
  "conf_ok k \<equiv> hash_ok (tck_txid k) \<and> hash_ok (tck_blockhash k)"

abbreviation edge_ok :: "tx_edge_key \<Rightarrow> bool" where
  "edge_ok k \<equiv> hash_ok (tek_funding_txid k) \<and> hash_ok (tek_spending_txid k)"

fun info_ok :: "tx_history_info \<Rightarrow> bool" where
  "info_ok (Spending i) = (hash_ok (sp_txid i) \<and> hash_ok (sp_prev_txid i))"
| "info_ok (Funding i) = hash_ok (fu_txid i)"

abbreviation history_ok :: "tx_history_key \<Rightarrow> bool" where
  "history_ok k \<equiv> hash_ok (thk_hash k) \<and> info_ok (thk_txinfo k)"

interpretation tx_conf_codec: fixed_codec ser_tx_conf_key de_tx_conf_key conf_ok 65
  by unfold_locales (auto simp: ser_tx_conf_key_def de_tx_conf_key_def)

interpretation block_codec: fixed_codec ser_block_key de_block_key "\<lambda>k. hash_ok (bk_hash k)" 33
  by unfold_locales (auto simp: ser_block_key_def de_block_key_def)

interpretation edge_codec: fixed_codec ser_tx_edge_key de_tx_edge_key edge_ok 73
  by unfold_locales (auto simp: ser_tx_edge_key_def de_tx_edge_key_def)

interpretation history_info_codec: codec ser_history_info de_history_info info_ok
proof
  fix x r assume "info_ok x"
  then show "de_history_info (ser_history_info x @ r) = Some (x, r)"
    by (cases x) (auto simp: de_history_info_def)
qed

interpretation history_codec: codec ser_history_key de_history_key history_ok
  by unfold_locales
    (auto simp: ser_history_key_def de_history_key_def history_info_codec.dec_enc)

interpretation stats_codec: fixed_codec ser_stats de_stats "\<lambda>_. True" 40
  by unfold_locales (auto simp: ser_stats_def de_stats_def)

context codec begin

lemma de_items_enc:
  "list_all ok xs \<Longrightarrow> de_items dec (length xs) (concat (map enc xs) @ r) = Some (xs, r)"
  by (induction xs) (auto simp: dec_enc)

lemma de_seq_enc:
  assumes "list_all ok xs" "length xs < 2 ^ 64"
  shows "de_seq dec (ser_seq enc xs @ r) = Some (xs, r)"
proof -
  have "unat (word_of_nat (length xs) :: u64) = length xs" using assms(2) by (simp add: unat_of_nat)
  then show ?thesis using de_items_enc [OF assms(1)] by (simp add: de_seq_def ser_seq_def)
qed

end

abbreviation utxo_ok :: "(hash \<times> u32) \<times> u32 \<times> u64 \<Rightarrow> bool" where
  "utxo_ok u \<equiv> hash_ok (fst (fst u))"

lemma hash_serde_codec: "hash_serde lib \<Longrightarrow> codec (lib_ser_hash lib) (lib_de_hash lib) hash_ok"
  by unfold_locales (simp add: hash_serde_def)

lemma utxo_codec: "hash_serde lib \<Longrightarrow> codec (ser_utxo lib) (de_utxo lib) utxo_ok"
  by unfold_locales (auto simp: hash_serde_def ser_utxo_def de_utxo_def)

lemma demo_hash_serde: "hash_serde demo_lib"
  by (simp add: hash_serde_def demo_lib_def)

section \<open>Scans and order\<close>

lemma length_ser_history_prefix:
  "length (ser_u8 c @ h @ ser_u32 Big n @ ser_u16 Big p) = length h + 7"
  by simp

lemma history_key_less:
  assumes "length (thk_hash a) = length (thk_hash b)"
  shows "ser_history_key a < ser_history_key b \<longleftrightarrow>
     thk_code a < thk_code b \<or> thk_code a = thk_code b \<and>
      (thk_hash a < thk_hash b \<or> thk_hash a = thk_hash b \<and>
        (thk_confirmed_height a < thk_confirmed_height b \<or> thk_confirmed_height a = thk_confirmed_height b \<and>
          (thk_tx_position a < thk_tx_position b \<or> thk_tx_position a = thk_tx_position b \<and>
            ser_history_info (thk_txinfo a) < ser_history_info (thk_txinfo b))))"
  unfolding ser_history_key_def
  by (simp only: append_less_append assms length_ser_words ser_u8_less ser_u8_inject
      ser_u32_big_less ser_u32_inject ser_u16_big_less ser_u16_inject)

lemma spending_before_funding: "ser_history_info (Spending s) < ser_history_info (Funding f)"
  by (simp only: ser_history_info.simps append_less_append length_ser_words ser_u32_big_less) simp

lemma history_starts_with:
  assumes "length (thk_hash k) = length h"
  shows "starts_with (ser_history_key k) (history_filter code h) \<longleftrightarrow> thk_code k = code \<and> thk_hash k = h"
  using assms by (auto simp: starts_with_def ser_history_key_def history_filter_def ser_u8_def)

lemma edge_starts_with:
  assumes "length (tek_funding_txid k) = length (op_txid pt)"
  shows "starts_with (ser_tx_edge_key k) (edge_filter pt) \<longleftrightarrow>
     tek_code k = 0x53 \<and> tek_funding_txid k = op_txid pt \<and> tek_funding_vout k = op_vout pt"
proof
  assume "starts_with (ser_tx_edge_key k) (edge_filter pt)"
  then obtain r where r: "ser_u8 (tek_code k) @ (tek_funding_txid k @ ser_u32 Little (tek_funding_vout k)
      @ tek_spending_txid k @ ser_u32 Little (tek_spending_vin k))
      = ser_u8 0x53 @ (op_txid pt @ ser_u32 Little (op_vout pt) @ r)"
    by (auto simp: starts_with_iff ser_tx_edge_key_def edge_filter_def)
  then show "tek_code k = 0x53 \<and> tek_funding_txid k = op_txid pt \<and> tek_funding_vout k = op_vout pt"
    using assms by (simp add: append_eq_append_conv)
qed (auto simp: ser_tx_edge_key_def edge_filter_def starts_with_iff)

lemma tx_conf_starts_with:
  "hash_ok (tck_txid k) \<Longrightarrow> hash_ok txid \<Longrightarrow>
     starts_with (ser_tx_conf_key k) (tx_conf_filter txid) \<longleftrightarrow> tck_code k = 0x43 \<and> tck_txid k = txid"
  by (auto simp: starts_with_def ser_tx_conf_key_def tx_conf_filter_def ser_u8_def)

lemma history_le_prefix_height_end:
  assumes "hash_ok (thk_hash k)" and "thk_code k = c" and "thk_hash k = h"
    and "prefix_height_end c h height = Ok bound"
  shows "ser_history_key k \<le> bound \<longleftrightarrow>
     thk_confirmed_height k < height \<or> thk_confirmed_height k = height \<and> thk_tx_position k < - 1"
proof -
  have b: "bound = ser_u8 c @ h @ ser_u32 Big height @ ser_u16 Big (- 1)"
    using assms by (auto simp: prefix_height_end_def)
  have "0 < length (ser_history_info i)" for i by (cases i) simp_all
  then have ne: "ser_history_info i \<noteq> []" for i by simp
  show ?thesis
    unfolding b ser_history_key_def
    using assms ne [of "thk_txinfo k"] append_le_append [of "ser_u16 Big (thk_tx_position k)" "ser_u16 Big (- 1)" _ "[]"]
    by (simp add: append_le_append)
qed

lemma history_ge_prefix_height:
  assumes "hash_ok (thk_hash k)" and "thk_code k = c" and "thk_hash k = h"
    and "prefix_height c h height = Ok bound"
  shows "bound \<le> ser_history_key k \<longleftrightarrow> height \<le> thk_confirmed_height k"
proof -
  have b: "bound = ser_u8 c @ h @ ser_u32 Big height"
    using assms by (auto simp: prefix_height_def)
  show ?thesis
    unfolding b ser_history_key_def
    using assms append_le_append [of "ser_u32 Big height" "ser_u32 Big (thk_confirmed_height k)" "[]"]
    by (auto simp: append_le_append)
qed

section \<open>Cache rows\<close>

lemma utxo_cache_restored:
  assumes "hash_serde lib" "hash_ok blockhash" "hash_ok scripthash" "length utxos < 2 ^ 64"
    and utxos: "\<And>pt b v. (pt, b, v) \<in> set utxos \<Longrightarrow>
           hash_ok (op_txid pt) \<and> bid_height b < 2 ^ 32 \<and> blockids (bid_height b) = Some b"
  shows "\<exists>cached. bind_out (utxo_cache_new lib scripthash utxos blockhash)
             (\<lambda>r. expect m (de_utxo_cache lib (snd r))) = Ok (cached, blockhash)
           \<and> from_utxo_cache cached blockids = Ok utxos"
proof -
  have hash: "lib_de_hash lib (lib_ser_hash lib blockhash) = Some (blockhash, [])"
    using codec.decode_full [OF hash_serde_codec [OF assms(1)] assms(2)] .
  let ?cached = "make_utxo_cache utxos"
  have "list_all utxo_ok ?cached"
    using utxos by (auto simp: list_all_iff make_utxo_cache_def)
  then have "de_seq (de_utxo lib) (ser_seq (ser_utxo lib) ?cached @ lib_ser_hash lib blockhash)
      = Some (?cached, lib_ser_hash lib blockhash)"
    by (rule codec.de_seq_enc [OF utxo_codec [OF assms(1)]]) (use assms(4) in \<open>simp add: make_utxo_cache_def\<close>)
  then have dec: "bind_out (utxo_cache_new lib scripthash utxos blockhash)
      (\<lambda>r. expect m (de_utxo_cache lib (snd r))) = Ok (?cached, blockhash)"
    using hash assms(3) by (simp add: utxo_cache_new_def de_utxo_cache_def)
  have "from_utxo_cache ?cached blockids = Ok utxos"
    using utxos unfolding from_utxo_cache_def make_utxo_cache_def collect_out_Ok_iff list_all2_map1
    by (intro list_all2_all_nthI) (auto simp: unat_of_nat dest!: nth_mem split: prod.splits)
  then show ?thesis using dec by blast
qed

lemma stats_cache_restored:
  assumes "hash_serde lib" "hash_ok blockhash" "hash_ok scripthash"
  shows "bind_out (stats_cache_new lib scripthash stats blockhash)
           (\<lambda>r. expect m (de_stats_cache lib (snd r))) = Ok (stats, blockhash)"
  using codec.decode_full [OF hash_serde_codec [OF assms(1)] assms(2)] assms(3)
  by (simp add: stats_cache_new_def de_stats_cache_def stats_codec.dec_enc)

section \<open>Properties\<close>

text \<open>C5: every row the indexer writes is read back as it was: transaction confirmations, blocks,
  history entries and spending edges survive \<open>into_row\<close> and \<open>from_row\<close>, and none of the parsers
  panics on such a row.\<close>

theorem rows_roundtrip:
  assumes "conf_ok c" "hash_ok (bk_hash b)" "history_ok h" "edge_ok e"
  shows "tx_conf_from_row (tx_conf_into_row c) = Ok c
    \<and> block_from_row (block_into_row (b, v)) = Ok (b, v)
    \<and> history_from_row (history_into_row h) = Ok h
    \<and> edge_from_row (edge_into_row e) = Ok e"
  using assms
  by (simp add: tx_conf_from_row_def tx_conf_into_row_def tx_conf_codec.decode_full
      block_from_row_def block_into_row_def block_codec.decode_full
      history_from_row_def history_into_row_def history_codec.decode_full
      edge_from_row_def edge_into_row_def edge_codec.decode_full)

theorem rows_roundtrip_witness:
  "history_from_row (history_into_row
      (history_new demo_lib [0x51] 7 2 (Funding \<lparr>fu_txid = demo_txid 1, fu_vout = 0, fu_value = 5\<rparr>)))
   = Ok (history_new demo_lib [0x51] 7 2 (Funding \<lparr>fu_txid = demo_txid 1, fu_vout = 0, fu_value = 5\<rparr>))"
  using rows_roundtrip [of "\<lparr>tck_code = 0x43, tck_txid = demo_txid 1, tck_blockhash = demo_hash 1\<rparr>"
      "\<lparr>bk_code = 0x42, bk_hash = demo_hash 1\<rparr>"
      "history_new demo_lib [0x51] 7 2 (Funding \<lparr>fu_txid = demo_txid 1, fu_vout = 0, fu_value = 5\<rparr>)"
      "edge_new (demo_txid 1) 0 (demo_txid 2) 0" "[]"]
  by (simp add: history_new_def edge_new_def compute_script_hash_def demo_lib_def)

text \<open>C6: the database order of the history rows of one script is the order in the chain: by height,
  then by position in the block, and within one transaction the rows that spend come before those that
  fund.\<close>

theorem history_row_order:
  assumes "thk_code a = thk_code b" "thk_hash a = thk_hash b"
  shows "((thk_confirmed_height a, thk_tx_position a) \<noteq> (thk_confirmed_height b, thk_tx_position b) \<longrightarrow>
      (row_key (history_into_row a) < row_key (history_into_row b) \<longleftrightarrow>
         thk_confirmed_height a < thk_confirmed_height b
         \<or> thk_confirmed_height a = thk_confirmed_height b \<and> thk_tx_position a < thk_tx_position b))
    \<and> ((thk_confirmed_height a, thk_tx_position a) = (thk_confirmed_height b, thk_tx_position b) \<longrightarrow>
         hi_has_vin (thk_txinfo a) \<longrightarrow> \<not> hi_has_vin (thk_txinfo b) \<longrightarrow>
         row_key (history_into_row a) < row_key (history_into_row b))"
  using assms history_key_less [of a b] spending_before_funding
  by (cases "thk_txinfo a"; cases "thk_txinfo b") (auto simp: history_into_row_def)

theorem history_row_order_witness:
  "row_key (history_into_row (history_new demo_lib [0x51] 255 2 (Funding \<lparr>fu_txid = demo_txid 1, fu_vout = 0, fu_value = 5\<rparr>)))
   < row_key (history_into_row (history_new demo_lib [0x51] 256 1 (Funding \<lparr>fu_txid = demo_txid 2, fu_vout = 0, fu_value = 5\<rparr>)))"
  using history_row_order [of "history_new demo_lib [0x51] 255 2 (Funding \<lparr>fu_txid = demo_txid 1, fu_vout = 0, fu_value = 5\<rparr>)"
      "history_new demo_lib [0x51] 256 1 (Funding \<lparr>fu_txid = demo_txid 2, fu_vout = 0, fu_value = 5\<rparr>)"]
  by (simp add: history_new_def)

text \<open>The prefixes select exactly the rows they mean: a history filter the rows of one script, an
  edge filter the spends of one outpoint, a confirmation filter the blocks of one transaction; the key
  an outpoint is looked up under is the key its output was stored under; a forward scan from
  \<open>prefix_height\<close> starts at that height, and a reverse scan from \<open>prefix_height_end\<close> covers everything
  up to that height except a transaction at position 65535 of the last block.\<close>

theorem scan_prefixes_exact:
  assumes "history_ok k" "hash_ok h" "edge_ok e" "hash_ok (op_txid pt)" "conf_ok c" "hash_ok txid"
  shows "(starts_with (row_key (history_into_row k)) (history_filter code h)
            \<longleftrightarrow> thk_code k = code \<and> thk_hash k = h)
    \<and> (starts_with (row_key (edge_into_row e)) (edge_filter pt)
            \<longleftrightarrow> tek_code e = 0x53 \<and> tek_funding_txid e = op_txid pt \<and> tek_funding_vout e = op_vout pt)
    \<and> (starts_with (row_key (tx_conf_into_row c)) (tx_conf_filter txid)
            \<longleftrightarrow> tck_code c = 0x43 \<and> tck_txid c = txid)
    \<and> row_key (tx_out_into_row (tx_out_new lib txid n txo))
        = tx_out_row_key \<lparr>op_txid = txid, op_vout = word_of_nat n\<rparr>
    \<and> (\<exists>lo hi. prefix_height (thk_code k) (thk_hash k) height = Ok lo
        \<and> prefix_height_end (thk_code k) (thk_hash k) height = Ok hi
        \<and> (lo \<le> row_key (history_into_row k) \<longleftrightarrow> height \<le> thk_confirmed_height k)
        \<and> (row_key (history_into_row k) \<le> hi \<longleftrightarrow>
             thk_confirmed_height k < height
             \<or> thk_confirmed_height k = height \<and> thk_tx_position k < - 1))"
proof -
  have lo: "prefix_height (thk_code k) (thk_hash k) height
      = Ok (ser_u8 (thk_code k) @ thk_hash k @ ser_u32 Big height)"
    and hi: "prefix_height_end (thk_code k) (thk_hash k) height
      = Ok (ser_u8 (thk_code k) @ thk_hash k @ ser_u32 Big height @ ser_u16 Big (- 1))"
    using assms by (simp_all add: prefix_height_def prefix_height_end_def)
  then show ?thesis
    using assms history_starts_with [of k h code] edge_starts_with [of e pt] tx_conf_starts_with [of c txid]
      history_ge_prefix_height [OF _ refl refl lo] history_le_prefix_height_end [OF _ refl refl hi]
    by (simp add: history_into_row_def edge_into_row_def tx_conf_into_row_def tx_out_into_row_def
        tx_out_new_def tx_out_row_key_def)
qed

theorem scan_prefixes_exact_witness:
  "\<not> starts_with (row_key (edge_into_row (edge_new (demo_txid 1) 1 (demo_txid 2) 0)))
       (edge_filter \<lparr>op_txid = demo_txid 1, op_vout = 0\<rparr>)"
  using scan_prefixes_exact [of "history_new demo_lib [0x51] 7 2 (Funding \<lparr>fu_txid = demo_txid 1, fu_vout = 0, fu_value = 5\<rparr>)"
      "demo_hash 1" "edge_new (demo_txid 1) 1 (demo_txid 2) 0" "\<lparr>op_txid = demo_txid 1, op_vout = 0\<rparr>"
      "\<lparr>tck_code = 0x43, tck_txid = demo_txid 1, tck_blockhash = demo_hash 1\<rparr>" "demo_txid 1"]
  by (auto simp: edge_new_def history_new_def compute_script_hash_def demo_lib_def)

text \<open>A utxo cache row restores the utxo set it was made of together with the block it is valid
  at, as long as the blocks of the utxos are still in the best chain at their heights; a stats cache
  row restores the statistics.\<close>

theorem cache_rows_roundtrip:
  assumes "hash_serde lib" "hash_ok blockhash" "hash_ok scripthash" "length utxos < 2 ^ 64"
    and "\<And>pt b v. (pt, b, v) \<in> set utxos \<Longrightarrow>
           hash_ok (op_txid pt) \<and> bid_height b < 2 ^ 32 \<and> blockids (bid_height b) = Some b"
  shows "(\<exists>cached. bind_out (utxo_cache_new lib scripthash utxos blockhash)
             (\<lambda>r. expect m (de_utxo_cache lib (snd r))) = Ok (cached, blockhash)
           \<and> from_utxo_cache cached blockids = Ok utxos)
    \<and> bind_out (stats_cache_new lib scripthash stats blockhash)
           (\<lambda>r. expect m (de_stats_cache lib (snd r))) = Ok (stats, blockhash)"
  using utxo_cache_restored [OF assms(1-4)] stats_cache_restored [OF assms(1-3)] assms(5) by blast

theorem cache_rows_roundtrip_witness:
  "bind_out (stats_cache_new demo_lib (demo_hash 9)
       \<lparr>st_tx_count = 1, st_funded_txo_count = 1, st_spent_txo_count = 0, st_funded_txo_sum = 5, st_spent_txo_sum = 0\<rparr>
       (demo_hash 1))
     (\<lambda>r. expect [] (de_stats_cache demo_lib (snd r)))
   = Ok (\<lparr>st_tx_count = 1, st_funded_txo_count = 1, st_spent_txo_count = 0, st_funded_txo_sum = 5, st_spent_txo_sum = 0\<rparr>,
         demo_hash 1)"
  using cache_rows_roundtrip [OF demo_hash_serde, of "demo_hash 1" "demo_hash 9" "[]" "\<lambda>_. None"] by simp

end
