(* ===== verification/DB.thy ===== *)
theory DB
  imports Rows
begin

text \<open>
  The database layer \<^verbatim>\<open>src/new_index/db.rs\<close>. RocksDB is the record \<open>rocks\<close>, an argument of every
  operation: point reads and writes, an atomic batch, and the items its iterators deliver from a key on,
  forwards or backwards. The locale \<open>rocksdb\<close> states what the code relies on (an ordered map), and the
  locale \<open>kv_store\<close> is the contract the index uses of \<open>DB\<close>. A forward iterator can deliver an I/O error
  in place of an item (\<open>None\<close>); the other RocksDB errors end the process in an \<open>unwrap\<close> and are not
  modelled.
\<close>

section \<open>RocksDB\<close>

record 'd rocks =
  rk_get :: "'d \<Rightarrow> bytes \<Rightarrow> bytes option"
  rk_put :: "bytes \<Rightarrow> bytes \<Rightarrow> 'd \<Rightarrow> 'd"
  rk_delete :: "bytes \<Rightarrow> 'd \<Rightarrow> 'd"
  rk_write :: "(bytes \<times> bytes) list \<Rightarrow> 'd \<Rightarrow> 'd"
  rk_iter_from :: "'d \<Rightarrow> bytes \<Rightarrow> (bytes \<times> bytes) option list"
  rk_seek_for_prev :: "'d \<Rightarrow> bytes \<Rightarrow> (bytes \<times> bytes) list"

section \<open>Iterators\<close>

record scan_iterator =
  si_prefix :: bytes
  si_iter :: "(bytes \<times> bytes) option list"
  si_done :: bool

definition row_of :: "bytes \<times> bytes \<Rightarrow> db_row" where
  "row_of kv = \<lparr>row_key = fst kv, row_value = snd kv\<rparr>"

definition scan_next :: "scan_iterator \<Rightarrow> db_row option \<times> scan_iterator" where
  "scan_next it =
     (if si_done it then (None, it)
      else case si_iter it of
             [] \<Rightarrow> (None, it)
           | item # rest \<Rightarrow>
               (let it' = it\<lparr>si_iter := rest\<rparr> in
                case item of
                  None \<Rightarrow> (None, it')
                | Some kv \<Rightarrow>
                    if \<not> starts_with (fst kv) (si_prefix it) then (None, it'\<lparr>si_done := True\<rparr>)
                    else (Some (row_of kv), it')))"

record reverse_scan_iterator =
  rsi_prefix :: bytes
  rsi_iter :: "(bytes \<times> bytes) list"
  rsi_done :: bool

definition reverse_next :: "reverse_scan_iterator \<Rightarrow> db_row option \<times> reverse_scan_iterator" where
  "reverse_next it =
     (case rsi_iter it of
        [] \<Rightarrow> (None, it)
      | kv # rest \<Rightarrow>
          if rsi_done it then (None, it)
          else if \<not> starts_with (fst kv) (rsi_prefix it) then (None, it\<lparr>rsi_done := True\<rparr>)
          else (Some (row_of kv), it\<lparr>rsi_iter := rest\<rparr>))"

text \<open>Draining an iterator, as a \<open>for\<close> loop or \<open>collect\<close> does: until the first \<open>None\<close>.\<close>

function scan_collect :: "scan_iterator \<Rightarrow> db_row list" where
  "scan_collect it =
     (case scan_next it of (None, _) \<Rightarrow> [] | (Some row, it') \<Rightarrow> row # scan_collect it')"
  by pat_completeness auto
termination
  by (relation "measure (\<lambda>it. length (si_iter it))")
    (auto simp: scan_next_def Let_def split: if_splits list.splits option.splits)

declare scan_collect.simps [simp del]

function reverse_collect :: "reverse_scan_iterator \<Rightarrow> db_row list" where
  "reverse_collect it =
     (case reverse_next it of (None, _) \<Rightarrow> [] | (Some row, it') \<Rightarrow> row # reverse_collect it')"
  by pat_completeness auto
termination
  by (relation "measure (\<lambda>it. length (rsi_iter it))")
    (auto simp: reverse_next_def split: if_splits list.splits)

declare reverse_collect.simps [simp del]

record group_iterator =
  gi_iters :: "reverse_scan_iterator list"
  gi_next_rows :: "db_row option list"
  gi_value_offset :: nat
  gi_done :: bool

definition group_new :: "reverse_scan_iterator list \<Rightarrow> nat \<Rightarrow> group_iterator" where
  "group_new iters value_offset =
     (let nexts = map reverse_next iters;
          next_rows = map fst nexts
      in \<lparr>gi_iters = map snd nexts, gi_next_rows = next_rows, gi_value_offset = value_offset,
          gi_done = list_all (\<lambda>row. row = None) next_rows\<rparr>)"

datatype ordering = Less | Equal | Greater

definition cmp_bytes :: "bytes \<Rightarrow> bytes \<Rightarrow> ordering" where
  "cmp_bytes a b = (if a < b then Less else if a = b then Equal else Greater)"

text \<open>The closure of \<open>max_by\<close>; slicing a key shorter than the offset panics.\<close>

fun group_cmp ::
  "nat \<Rightarrow> nat \<times> db_row option \<Rightarrow> nat \<times> db_row option \<Rightarrow> (error_kind, ordering) outcome"
where
  "group_cmp off (ai, None) (bi, None) = Ok (if ai < bi then Less else if ai = bi then Equal else Greater)"
| "group_cmp off (ai, Some _) (bi, None) = Ok Greater"
| "group_cmp off (ai, None) (bi, Some _) = Ok Less"
| "group_cmp off (ai, Some a) (bi, Some b) =
     (if length (row_key a) < off \<or> length (row_key b) < off then Panic ''slice index''
      else Ok (cmp_bytes (drop off (row_key a)) (drop off (row_key b))))"

text \<open>\<open>Iterator::max_by\<close>: the later element wins a tie.\<close>

fun max_by_from :: "('a \<Rightarrow> 'a \<Rightarrow> ('e, ordering) outcome) \<Rightarrow> 'a \<Rightarrow> 'a list \<Rightarrow> ('e, 'a) outcome" where
  "max_by_from cmp x [] = Ok x"
| "max_by_from cmp x (y # ys) =
     bind_out (cmp x y) (\<lambda>ordr. max_by_from cmp (if ordr = Greater then x else y) ys)"

definition best_index :: "nat \<Rightarrow> db_row option list \<Rightarrow> (error_kind, nat) outcome" where
  "best_index off next_rows =
     (case enumerate 0 next_rows of
        [] \<Rightarrow> Ok 0
      | p # ps \<Rightarrow> map_out fst (max_by_from (group_cmp off) p ps))"

definition group_next :: "group_iterator \<Rightarrow> (error_kind, db_row option \<times> group_iterator) outcome" where
  "group_next g =
     (if gi_done g then Ok (None, g)
      else bind_out (best_index (gi_value_offset g) (gi_next_rows g)) (\<lambda>i.
             if length (gi_next_rows g) \<le> i then Panic ''index out of bounds''
             else
               (let best = gi_next_rows g ! i;
                    taken = (gi_next_rows g)[i := None]
                in case nth_opt (gi_iters g) i of
                     None \<Rightarrow> Ok (None, g\<lparr>gi_next_rows := taken\<rparr>)
                   | Some it \<Rightarrow>
                       (let (row, it') = reverse_next it;
                            next_rows = taken[i := row]
                        in Ok (best,
                             g\<lparr>gi_iters := (gi_iters g)[i := it'], gi_next_rows := next_rows,
                               gi_done := list_all (\<lambda>row. row = None) next_rows\<rparr>)))))"

section \<open>DB\<close>

datatype db_flush = Disable | Enable

definition DB_VERSION :: u32 where
  "DB_VERSION = 2"

definition iter_scan :: "'d rocks \<Rightarrow> 'd \<Rightarrow> bytes \<Rightarrow> scan_iterator" where
  "iter_scan rk db prefix =
     \<lparr>si_prefix = prefix, si_iter = rk_iter_from rk db prefix, si_done = False\<rparr>"

definition iter_scan_from :: "'d rocks \<Rightarrow> 'd \<Rightarrow> bytes \<Rightarrow> bytes \<Rightarrow> scan_iterator" where
  "iter_scan_from rk db prefix start_at =
     \<lparr>si_prefix = prefix, si_iter = rk_iter_from rk db start_at, si_done = False\<rparr>"

definition iter_scan_reverse :: "'d rocks \<Rightarrow> 'd \<Rightarrow> bytes \<Rightarrow> bytes \<Rightarrow> reverse_scan_iterator" where
  "iter_scan_reverse rk db prefix prefix_max =
     \<lparr>rsi_prefix = prefix, rsi_iter = rk_seek_for_prev rk db prefix_max, rsi_done = False\<rparr>"

definition iter_scan_group_reverse :: "'d rocks \<Rightarrow> 'd \<Rightarrow> (bytes \<times> bytes) list \<Rightarrow> nat \<Rightarrow> group_iterator" where
  "iter_scan_group_reverse rk db prefixes value_offset =
     group_new (map (\<lambda>(prefix, prefix_max). iter_scan_reverse rk db prefix prefix_max) prefixes) value_offset"

definition db_write :: "'d rocks \<Rightarrow> db_row list \<Rightarrow> db_flush \<Rightarrow> 'd \<Rightarrow> 'd" where
  "db_write rk rows flush db =
     rk_write rk (map (\<lambda>row. (row_key row, row_value row)) (sort_key row_key rows)) db"

fun db_delete :: "'d rocks \<Rightarrow> bytes list \<Rightarrow> 'd \<Rightarrow> 'd" where
  "db_delete rk [] db = db"
| "db_delete rk (key # keys) db = db_delete rk keys (rk_delete rk key db)"

definition db_put :: "'d rocks \<Rightarrow> bytes \<Rightarrow> bytes \<Rightarrow> 'd \<Rightarrow> 'd" where
  "db_put rk key v db = rk_put rk key v db"

definition db_put_sync :: "'d rocks \<Rightarrow> bytes \<Rightarrow> bytes \<Rightarrow> 'd \<Rightarrow> 'd" where
  "db_put_sync rk key v db = rk_put rk key v db"

definition db_get :: "'d rocks \<Rightarrow> 'd \<Rightarrow> bytes \<Rightarrow> bytes option" where
  "db_get rk db key = rk_get rk db key"

definition verify_compatibility :: "'d rocks \<Rightarrow> bool \<Rightarrow> 'd \<Rightarrow> (error_kind, 'd) outcome" where
  "verify_compatibility rk light_mode db =
     (let compatibility_bytes = ser_u32 Little DB_VERSION @ (if light_mode then [1] else []) in
      case db_get rk db [0x56] of
        None \<Rightarrow> Ok (db_put rk [0x56] compatibility_bytes db)
      | Some x \<Rightarrow> if x \<noteq> compatibility_bytes then Panic ''Incompatible database found. Please reindex.''
                  else Ok db)"

section \<open>The contracts\<close>

text \<open>The entries of a map with a key in \<open>S\<close>, in key order.\<close>

definition items :: "(bytes \<rightharpoonup> bytes) \<Rightarrow> bytes set \<Rightarrow> (bytes \<times> bytes) list" where
  "items m S = map (\<lambda>k. (k, the (m k))) (sorted_list_of_set (dom m \<inter> S))"

text \<open>What the code relies on in RocksDB: an ordered map whose iterators see every entry.\<close>

locale rocksdb =
  fixes rk :: "'d rocks"
    and kv :: "'d \<Rightarrow> (bytes \<rightharpoonup> bytes)"
  assumes finite_kv: "finite (dom (kv d))"
    and get_kv: "rk_get rk d k = kv d k"
    and put_kv: "kv (rk_put rk k v d) = (kv d)(k \<mapsto> v)"
    and delete_kv: "kv (rk_delete rk k d) = (kv d)(k := None)"
    and write_kv: "kv (rk_write rk ps d) = kv d ++ map_of (rev ps)"
    and iter_kv: "rk_iter_from rk d k = map Some (items (kv d) {x. k \<le> x})"
    and seek_kv: "rk_seek_for_prev rk d k = rev (items (kv d) {x. x \<le> k})"

text \<open>Rows that agree on the value wherever they share a key: the order of the batch is immaterial.\<close>

definition consistent_rows :: "db_row list \<Rightarrow> bool" where
  "consistent_rows rows \<longleftrightarrow>
     (\<forall>r\<in>set rows. \<forall>s\<in>set rows. row_key r = row_key s \<longrightarrow> row_value r = row_value s)"

definition rows_map :: "db_row list \<Rightarrow> (bytes \<rightharpoonup> bytes)" where
  "rows_map rows = map_of (map (\<lambda>r. (row_key r, row_value r)) rows)"

text \<open>What the index relies on in \<open>DB\<close>.\<close>

locale kv_store =
  fixes kv :: "'d \<Rightarrow> (bytes \<rightharpoonup> bytes)"
    and get :: "'d \<Rightarrow> bytes \<Rightarrow> bytes option"
    and wr :: "db_row list \<Rightarrow> db_flush \<Rightarrow> 'd \<Rightarrow> 'd"
    and del :: "bytes list \<Rightarrow> 'd \<Rightarrow> 'd"
    and scan :: "'d \<Rightarrow> bytes \<Rightarrow> db_row list"
    and scan_from :: "'d \<Rightarrow> bytes \<Rightarrow> bytes \<Rightarrow> db_row list"
    and scan_rev :: "'d \<Rightarrow> bytes \<Rightarrow> bytes \<Rightarrow> db_row list"
  assumes kv_finite: "finite (dom (kv d))"
    and kv_get: "get d k = kv d k"
    and kv_wr: "consistent_rows rows \<Longrightarrow> kv (wr rows fl d) = kv d ++ rows_map rows"
    and kv_del: "kv (del ks d) = kv d |` (- set ks)"
    and kv_scan: "scan d p = map row_of (items (kv d) {k. starts_with k p})"
    and kv_scan_from:
      "starts_with s p \<Longrightarrow> scan_from d p s = map row_of (items (kv d) {k. starts_with k p \<and> s \<le> k})"
    and kv_scan_rev:
      "starts_with s p \<Longrightarrow> scan_rev d p s = map row_of (rev (items (kv d) {k. starts_with k p \<and> k \<le> s}))"
begin

lemma get_del: "get (del ks d) k = (if k \<in> set ks then None else get d k)"
  by (simp add: kv_get kv_del restrict_map_def)

end

section \<open>Lemmas\<close>

lemma set_items:
  "finite (dom m) \<Longrightarrow> (k, v) \<in> set (items m S) \<longleftrightarrow> m k = Some v \<and> k \<in> S"
  by (auto simp: items_def)

lemma fst_items: "finite (dom m) \<Longrightarrow> x \<in> set (items m S) \<Longrightarrow> fst x \<in> S"
  by (auto simp: items_def)

lemma filter_sorted_list_of_set:
  fixes A :: "'a::linorder set"
  assumes "finite A"
  shows "filter P (sorted_list_of_set A) = sorted_list_of_set {x \<in> A. P x}"
  by (rule sorted_distinct_set_unique) (use assms in \<open>auto simp: sorted_wrt_filter\<close>)

lemma filter_items:
  "finite (dom m) \<Longrightarrow> filter (\<lambda>kv. P (fst kv)) (items m S) = items m {k \<in> S. P k}"
  by (simp add: items_def filter_map comp_def filter_sorted_list_of_set Int_def conj_assoc)

text \<open>The keys with a prefix are an interval of the key order.\<close>

lemma starts_with_convex:
  fixes x :: "'a::linorder list"
  assumes "starts_with s p" "starts_with t p" "s \<le> x" "x \<le> t"
  shows "starts_with x p"
proof -
  from assms obtain s' t' where st: "s = p @ s'" "t = p @ t'" by (auto simp: starts_with_iff)
  with assms(3,4) have "p @ s' \<le> x" "x \<le> p @ t'" by auto
  then have "\<exists>y. x = p @ y"
  proof (induction p arbitrary: x)
    case (Cons a p)
    then obtain b x' where x: "x = b # x'" by (cases x) auto
    then have "a = b" using Cons.prems by auto
    then show ?case using Cons x by auto
  qed simp
  then show ?thesis by (auto simp: starts_with_iff)
qed

lemma takeWhile_filter:
  assumes "\<And>i j. i < j \<Longrightarrow> j < length xs \<Longrightarrow> P (xs ! j) \<Longrightarrow> P (xs ! i)"
  shows "takeWhile P xs = filter P xs"
  using assms
proof (induction xs)
  case (Cons x xs)
  have IH: "takeWhile P xs = filter P xs"
    using Cons.prems by (intro Cons.IH) (metis Suc_less_eq length_Cons nth_Cons_Suc)
  show ?case
  proof (cases "P x")
    case True
    then show ?thesis using IH by simp
  next
    case False
    have "\<not> P y" if y: "y \<in> set xs" for y
    proof -
      from y obtain j where "j < length xs" "xs ! j = y" by (auto simp: in_set_conv_nth)
      then show ?thesis using False Cons.prems [of 0 "Suc j"] by auto
    qed
    then show ?thesis using False by (simp add: filter_empty_conv)
  qed
qed simp

lemma sorted_items: "sorted_wrt (\<lambda>a b. fst a < fst b) (items m S)"
  unfolding items_def sorted_wrt_map
  using strict_sorted_list_of_set [of "dom m \<inter> S"] by simp

lemma takeWhile_items:
  assumes fin: "finite (dom m)" and s: "starts_with s p"
  shows "takeWhile (\<lambda>kv. starts_with (fst kv) p) (items m {x. s \<le> x})
    = items m {k. starts_with k p \<and> s \<le> k}"
proof -
  let ?xs = "items m {x. s \<le> x}"
  have "starts_with (fst (?xs ! i)) p" if "i < j" "j < length ?xs" "starts_with (fst (?xs ! j)) p" for i j
  proof (rule starts_with_convex [OF s that(3)])
    have "?xs ! i \<in> set ?xs" using that by simp
    then show "s \<le> fst (?xs ! i)" using fst_items [OF fin] by blast
    show "fst (?xs ! i) \<le> fst (?xs ! j)"
      using sorted_wrt_nth_less [OF sorted_items that(1,2)] by simp
  qed
  then have "takeWhile (\<lambda>kv. starts_with (fst kv) p) ?xs = filter (\<lambda>kv. starts_with (fst kv) p) ?xs"
    by (rule takeWhile_filter)
  then show ?thesis
    using filter_items [OF fin, of "\<lambda>k. starts_with k p" "{x. s \<le> x}"] by (simp add: conj_commute)
qed

lemma takeWhile_rev_items:
  assumes fin: "finite (dom m)" and s: "starts_with s p"
  shows "takeWhile (\<lambda>kv. starts_with (fst kv) p) (rev (items m {x. x \<le> s}))
    = rev (items m {k. starts_with k p \<and> k \<le> s})"
proof -
  let ?xs = "items m {x. x \<le> s}"
  have desc: "sorted_wrt (\<lambda>a b. fst b < fst a) (rev ?xs)"
    using sorted_items [of m "{x. x \<le> s}"] by (simp add: sorted_wrt_rev)
  have "starts_with (fst (rev ?xs ! i)) p"
    if "i < j" "j < length (rev ?xs)" "starts_with (fst (rev ?xs ! j)) p" for i j
  proof (rule starts_with_convex [OF that(3) s])
    have "rev ?xs ! i \<in> set (rev ?xs)" using that(1,2) by (intro nth_mem) linarith
    then have "rev ?xs ! i \<in> set ?xs" by simp
    then show "fst (rev ?xs ! i) \<le> s" using fst_items [OF fin] by blast
    show "fst (rev ?xs ! j) \<le> fst (rev ?xs ! i)"
      using sorted_wrt_nth_less [OF desc that(1,2)] by simp
  qed
  then have "takeWhile (\<lambda>kv. starts_with (fst kv) p) (rev ?xs) = filter (\<lambda>kv. starts_with (fst kv) p) (rev ?xs)"
    by (rule takeWhile_filter)
  then show ?thesis
    using filter_items [OF fin, of "\<lambda>k. starts_with k p" "{x. x \<le> s}"]
    by (simp add: rev_filter [symmetric] conj_commute)
qed

text \<open>Draining an iterator takes the items with the prefix, up to an error or the end.\<close>

lemma scan_collect_items:
  "scan_collect \<lparr>si_prefix = p, si_iter = map Some kvs, si_done = False\<rparr>
    = map row_of (takeWhile (\<lambda>kv. starts_with (fst kv) p) kvs)"
  by (induction kvs) (subst scan_collect.simps, simp add: scan_next_def)+

lemma reverse_collect_items:
  "reverse_collect it =
     (if rsi_done it then [] else map row_of (takeWhile (\<lambda>kv. starts_with (fst kv) (rsi_prefix it)) (rsi_iter it)))"
proof (induction it rule: reverse_collect.induct)
  case (1 it)
  show ?case
    by (subst reverse_collect.simps)
      (use 1 in \<open>auto simp: reverse_next_def split: list.splits\<close>)
qed

lemma rows_map_Some:
  assumes "consistent_rows rows"
  shows "rows_map rows k = Some v \<longleftrightarrow> (\<exists>r\<in>set rows. row_key r = k \<and> row_value r = v)"
proof
  assume "rows_map rows k = Some v"
  then show "\<exists>r\<in>set rows. row_key r = k \<and> row_value r = v"
    unfolding rows_map_def by (auto dest!: map_of_SomeD)
next
  assume "\<exists>r\<in>set rows. row_key r = k \<and> row_value r = v"
  then obtain r where r: "r \<in> set rows" "row_key r = k" "row_value r = v" by blast
  then have "k \<in> dom (rows_map rows)" unfolding rows_map_def dom_map_of_conv_image_fst by force
  then obtain v' where v': "rows_map rows k = Some v'" by auto
  then obtain s where "s \<in> set rows" "row_key s = k" "row_value s = v'"
    unfolding rows_map_def by (auto dest!: map_of_SomeD)
  then show "rows_map rows k = Some v" using assms r v' unfolding consistent_rows_def by metis
qed

lemma rows_map_perm:
  assumes "consistent_rows rows" "set rows' = set rows"
  shows "rows_map rows' = rows_map rows"
proof -
  have c: "consistent_rows rows'" using assms(1) unfolding consistent_rows_def assms(2) .
  have eq: "rows_map rows' k = Some v \<longleftrightarrow> rows_map rows k = Some v" for k v
    unfolding rows_map_Some [OF assms(1)] rows_map_Some [OF c] assms(2) ..
  show ?thesis
  proof (rule ext)
    fix k show "rows_map rows' k = rows_map rows k"
    proof (cases "rows_map rows k")
      case None
      then have "\<forall>v. rows_map rows' k \<noteq> Some v" unfolding eq by simp
      then show ?thesis using None by (cases "rows_map rows' k") auto
    next
      case (Some v)
      then show ?thesis using eq [of k v] by (simp only: simp_thms)
    qed
  qed
qed

context rocksdb begin

lemma db_write_kv:
  assumes "consistent_rows rows"
  shows "kv (db_write rk rows fl d) = kv d ++ rows_map rows"
proof -
  have "map_of (rev (map (\<lambda>row. (row_key row, row_value row)) (sort_key row_key rows)))
      = rows_map (rev (sort_key row_key rows))"
    by (simp add: rows_map_def rev_map)
  also have "\<dots> = rows_map rows" by (rule rows_map_perm [OF assms]) simp
  finally show ?thesis by (simp add: db_write_def write_kv)
qed

lemma db_delete_kv: "kv (db_delete rk ks d) = kv d |` (- set ks)"
  by (induction ks arbitrary: d) (auto simp: delete_kv restrict_map_def fun_eq_iff)

end

sublocale rocksdb \<subseteq> kv_store kv "db_get rk" "db_write rk" "db_delete rk"
  "\<lambda>d p. scan_collect (iter_scan rk d p)"
  "\<lambda>d p s. scan_collect (iter_scan_from rk d p s)"
  "\<lambda>d p s. reverse_collect (iter_scan_reverse rk d p s)"
proof
  show "finite (dom (kv d))" for d by (rule finite_kv)
  show "db_get rk d k = kv d k" for d k by (simp add: db_get_def get_kv)
  show "consistent_rows rows \<Longrightarrow> kv (db_write rk rows fl d) = kv d ++ rows_map rows" for rows fl d
    by (rule db_write_kv)
  show "kv (db_delete rk ks d) = kv d |` (- set ks)" for ks d by (rule db_delete_kv)
  show "scan_collect (iter_scan rk d p) = map row_of (items (kv d) {k. starts_with k p})" for d p
  proof -
    have "{k. starts_with k p \<and> p \<le> k} = {k. starts_with k p}" 
      using append_le_append [of p p "[]"] by (auto simp: starts_with_iff)
    moreover have "starts_with p p" by (simp add: starts_with_def)
    ultimately show ?thesis
      using takeWhile_items [OF finite_kv [of d], of p p]
      by (simp add: iter_scan_def iter_kv scan_collect_items)
  qed
  show "starts_with s p \<Longrightarrow> scan_collect (iter_scan_from rk d p s)
      = map row_of (items (kv d) {k. starts_with k p \<and> s \<le> k})" for s p d
    using takeWhile_items [OF finite_kv [of d], of s p]
    by (simp add: iter_scan_from_def iter_kv scan_collect_items)
  show "starts_with s p \<Longrightarrow> reverse_collect (iter_scan_reverse rk d p s)
      = map row_of (rev (items (kv d) {k. starts_with k p \<and> k \<le> s}))" for s p d
    using takeWhile_rev_items [OF finite_kv [of d], of s p]
    by (simp add: iter_scan_reverse_def seek_kv reverse_collect_items)
qed

context rocksdb begin

lemmas db_rows = kv_scan kv_scan_from kv_scan_rev kv_get kv_wr get_del

end

section \<open>The merge of several reverse scans\<close>

lemma reverse_next_collect:
  assumes "reverse_next it = (row, it')"
  shows "reverse_collect it = (case row of None \<Rightarrow> [] | Some r \<Rightarrow> r # reverse_collect it')"
    and "row = None \<Longrightarrow> reverse_collect it' = []"
    and "length (rsi_iter it') = (case row of None \<Rightarrow> length (rsi_iter it) | Some _ \<Rightarrow> length (rsi_iter it) - 1)"
    and "row \<noteq> None \<Longrightarrow> rsi_iter it \<noteq> []"
  using assms reverse_collect.simps [of it]
  by (auto simp: reverse_next_def reverse_collect_items [of it'] split: list.splits if_splits)

definition group_size :: "group_iterator \<Rightarrow> nat" where
  "group_size g =
     sum_list (map (\<lambda>it. length (rsi_iter it)) (gi_iters g)) + length (filter (\<lambda>r. r \<noteq> None) (gi_next_rows g))"

lemma sum_list_update_nat:
  "i < length xs \<Longrightarrow> sum_list (xs[i := v]) + xs ! i = sum_list xs + (v::nat)"
  by (induction xs arbitrary: i) (auto simp: nth_Cons split: nat.splits)

lemma length_filter_update:
  "i < length xs \<Longrightarrow>
    length (filter P (xs[i := v])) + (if P (xs ! i) then 1 else 0) = length (filter P xs) + (if P v then 1 else 0)"
proof (induction xs arbitrary: i)
  case (Cons x xs)
  show ?case
  proof (cases i)
    case (Suc j)
    then show ?thesis using Cons.IH [of j] Cons.prems by (simp split: if_splits)
  qed simp
qed simp

lemma group_next_Some:
  assumes "group_next g = Ok (Some r, g')"
  obtains i it row it' where
    "best_index (gi_value_offset g) (gi_next_rows g) = Ok i" "i < length (gi_next_rows g)"
    "gi_next_rows g ! i = Some r" "i < length (gi_iters g)" "gi_iters g ! i = it"
    "reverse_next it = (row, it')"
    "g' = g\<lparr>gi_iters := (gi_iters g)[i := it'], gi_next_rows := (gi_next_rows g)[i := row],
            gi_done := list_all (\<lambda>row. row = None) ((gi_next_rows g)[i := row])\<rparr>"
  using assms
  by (auto simp: group_next_def Let_def split: if_splits option.splits prod.splits)

lemma group_size_next: "group_next g = Ok (Some r, g') \<Longrightarrow> group_size g' < group_size g"
proof (elim group_next_Some)
  fix i it row it'
  assume i: "i < length (gi_next_rows g)" "gi_next_rows g ! i = Some r" "i < length (gi_iters g)"
    and it: "gi_iters g ! i = it" "reverse_next it = (row, it')"
    and g': "g' = g\<lparr>gi_iters := (gi_iters g)[i := it'], gi_next_rows := (gi_next_rows g)[i := row],
            gi_done := list_all (\<lambda>row. row = None) ((gi_next_rows g)[i := row])\<rparr>"
  let ?lens = "map (\<lambda>it. length (rsi_iter it)) (gi_iters g)"
  have "sum_list (?lens[i := length (rsi_iter it')]) + length (rsi_iter it) = sum_list ?lens + length (rsi_iter it')"
    using sum_list_update_nat [of i ?lens] i it by simp
  moreover have "length (filter (\<lambda>r. r \<noteq> None) ((gi_next_rows g)[i := row])) + 1
      = length (filter (\<lambda>r. r \<noteq> None) (gi_next_rows g)) + (if row \<noteq> None then 1 else 0)"
    using length_filter_update [OF i(1), of "\<lambda>r. r \<noteq> None" row] i(2) by simp
  moreover have "length (rsi_iter it') + (if row \<noteq> None then 1 else 0) = length (rsi_iter it)"
    using reverse_next_collect(3,4) [OF it(2)] by (cases row) auto
  ultimately show ?thesis unfolding g' group_size_def by (simp add: map_update)
qed

function group_collect :: "group_iterator \<Rightarrow> (error_kind, db_row list) outcome" where
  "group_collect g =
     (case group_next g of
        Ok (Some r, g') \<Rightarrow> map_out (\<lambda>rows. r # rows) (group_collect g')
      | Ok (None, _) \<Rightarrow> Ok []
      | Err e \<Rightarrow> Err e
      | Panic m \<Rightarrow> Panic m)"
  by pat_completeness auto
termination
  by (relation "measure group_size") (auto simp: group_size_next)

declare group_collect.simps [simp del]

abbreviation suffix :: "nat \<Rightarrow> db_row \<Rightarrow> bytes" where
  "suffix off r \<equiv> drop off (row_key r)"

text \<open>What is still to come, per scan.\<close>

definition pending :: "group_iterator \<Rightarrow> db_row list list" where
  "pending g = map2 (\<lambda>row it. (case row of None \<Rightarrow> [] | Some r \<Rightarrow> [r]) @ reverse_collect it)
     (gi_next_rows g) (gi_iters g)"

definition group_wf :: "group_iterator \<Rightarrow> bool" where
  "group_wf g \<longleftrightarrow>
     length (gi_next_rows g) = length (gi_iters g)
     \<and> (\<forall>i<length (gi_iters g). gi_next_rows g ! i = None \<longrightarrow> reverse_collect (gi_iters g ! i) = [])
     \<and> (gi_done g \<longleftrightarrow> list_all (\<lambda>row. row = None) (gi_next_rows g))"

lemma max_by_group_cmp:
  assumes "\<forall>x\<in>set (p # ps). \<forall>r. snd x = Some r \<longrightarrow> off \<le> length (row_key r)"
  shows "\<exists>q. max_by_from (group_cmp off) p ps = Ok q \<and> q \<in> set (p # ps)
    \<and> (\<forall>x r. x \<in> set (p # ps) \<longrightarrow> snd x = Some r \<longrightarrow> (\<exists>s. snd q = Some s \<and> suffix off r \<le> suffix off s))"
  using assms
proof (induction ps arbitrary: p)
  case Nil
  then show ?case by auto
next
  case (Cons y ys)
  obtain ordr where c: "group_cmp off p y = Ok ordr"
    using Cons.prems by (cases "(off, p, y)" rule: group_cmp.cases) auto
  let ?b = "if ordr = Greater then p else y"
  have b: "?b \<in> set (p # y # ys)" by auto
  have better: "\<exists>s. snd ?b = Some s \<and> suffix off r \<le> suffix off s" if "x \<in> {p, y}" "snd x = Some r" for x r
    using that c by (cases "(off, p, y)" rule: group_cmp.cases)
      (auto simp: cmp_bytes_def split: if_splits)
  have sub: "set (?b # ys) \<subseteq> set (p # y # ys)" by auto
  then have "\<forall>x\<in>set (?b # ys). \<forall>r. snd x = Some r \<longrightarrow> off \<le> length (row_key r)"
    using Cons.prems by blast
  note IH = Cons.IH [OF this]
  obtain q where q: "max_by_from (group_cmp off) ?b ys = Ok q" "q \<in> set (?b # ys)"
      "\<forall>x r. x \<in> set (?b # ys) \<longrightarrow> snd x = Some r \<longrightarrow> (\<exists>s. snd q = Some s \<and> suffix off r \<le> suffix off s)"
    using IH by blast
  have "\<exists>s. snd q = Some s \<and> suffix off r \<le> suffix off s" if x: "x \<in> set (p # y # ys)" "snd x = Some r" for x r
  proof (cases "x \<in> set ys")
    case True
    then have "x \<in> set (?b # ys)" by simp
    then show ?thesis using q(3) x(2) by blast
  next
    case False
    then obtain s where s: "snd ?b = Some s" "suffix off r \<le> suffix off s" using better [of x r] x by auto
    have "?b \<in> set (?b # ys)" by (rule list.set_intros)
    then have "\<exists>t. snd q = Some t \<and> suffix off s \<le> suffix off t" using q(3) s(1) by blast
    then show ?thesis using s(2) by (auto intro: order_trans)
  qed
  moreover have "max_by_from (group_cmp off) p (y # ys) = Ok q" using c q(1) by simp
  moreover have "q \<in> set (p # y # ys)" using q(2) sub by blast
  ultimately show ?case by blast
qed

lemma best_index_max:
  assumes "\<exists>r\<in>set rows. r \<noteq> None"
    and "\<And>r. Some r \<in> set rows \<Longrightarrow> off \<le> length (row_key r)"
  shows "\<exists>i r. best_index off rows = Ok i \<and> i < length rows \<and> rows ! i = Some r
    \<and> (\<forall>s. Some s \<in> set rows \<longrightarrow> suffix off s \<le> suffix off r)"
proof -
  have "enumerate 0 rows \<noteq> []" using assms(1) by (cases rows) auto
  then obtain p ps where e: "enumerate 0 rows = p # ps" by (cases "enumerate 0 rows") auto
  have mem: "x \<in> set (p # ps) \<longleftrightarrow> fst x < length rows \<and> rows ! fst x = snd x" for x
    unfolding e [symmetric] by (cases x) (auto simp: in_set_enumerate_eq)
  have "\<forall>x\<in>set (p # ps). \<forall>r. snd x = Some r \<longrightarrow> off \<le> length (row_key r)"
  proof (intro ballI allI impI)
    fix x r assume "x \<in> set (p # ps)" "snd x = Some r"
    then show "off \<le> length (row_key r)"
      using mem [of x] assms(2) [of r] nth_mem [of "fst x" rows] by simp
  qed
  note m = max_by_group_cmp [OF this]
  obtain q where q: "max_by_from (group_cmp off) p ps = Ok q" "q \<in> set (p # ps)"
      "\<forall>x r. x \<in> set (p # ps) \<longrightarrow> snd x = Some r \<longrightarrow> (\<exists>s. snd q = Some s \<and> suffix off r \<le> suffix off s)"
    using m by blast
  have best: "\<exists>t. snd q = Some t \<and> suffix off s \<le> suffix off t" if s: "Some s \<in> set rows" for s
  proof -
    obtain j where "j < length rows" "rows ! j = Some s" using s by (metis in_set_conv_nth)
    then have "(j, Some s) \<in> set (p # ps)" using mem by simp
    moreover have "snd (j, Some s) = Some s" by simp
    ultimately show ?thesis using q(3) by blast
  qed
  obtain s0 where "Some s0 \<in> set rows" using assms(1) by auto
  then obtain r where r: "snd q = Some r" using best by blast
  have "best_index off rows = Ok (fst q)" using q(1) by (simp add: best_index_def e)
  moreover have "fst q < length rows \<and> rows ! fst q = Some r" using q(2) mem r by simp
  ultimately show ?thesis using best r by auto
qed

lemma mset_concat_update:
  "i < length xss \<Longrightarrow> xss ! i = r # t \<Longrightarrow>
    mset (concat xss) = add_mset r (mset (concat (xss[i := t])))"
proof (induction xss arbitrary: i)
  case (Cons xs xss)
  then show ?case by (cases i) auto
qed simp

lemma group_new_wf: "group_wf (group_new iters off)"
proof -
  have "reverse_collect (snd (reverse_next it)) = []" if "fst (reverse_next it) = None" for it
    using reverse_next_collect(2) [OF prod.collapse [symmetric]] that by blast
  then show ?thesis by (simp add: group_wf_def group_new_def Let_def)
qed

lemma pending_new: "pending (group_new iters off) = map reverse_collect iters"
proof (rule nth_equalityI)
  fix i assume "i < length (pending (group_new iters off))"
  then have i: "i < length iters" by (simp add: pending_def group_new_def Let_def)
  obtain row it' where n: "reverse_next (iters ! i) = (row, it')" by fastforce
  show "pending (group_new iters off) ! i = map reverse_collect iters ! i"
    using i n reverse_next_collect(1,2) [OF n]
    by (cases row) (auto simp: pending_def group_new_def Let_def)
qed (simp add: pending_def group_new_def Let_def)

lemma group_next_pending:
  assumes wf: "group_wf g" and n: "group_next g = Ok (Some r, g')"
    and i: "best_index (gi_value_offset g) (gi_next_rows g) = Ok i"
  shows "group_wf g' \<and> i < length (pending g) \<and> pending g ! i = r # pending g' ! i
    \<and> pending g' = (pending g)[i := pending g' ! i] \<and> gi_value_offset g' = gi_value_offset g"
  using n
proof (elim group_next_Some)
  fix j it row it'
  assume j: "best_index (gi_value_offset g) (gi_next_rows g) = Ok j" "j < length (gi_next_rows g)"
      "gi_next_rows g ! j = Some r" "j < length (gi_iters g)" "gi_iters g ! j = it"
    and it: "reverse_next it = (row, it')"
    and g': "g' = g\<lparr>gi_iters := (gi_iters g)[j := it'], gi_next_rows := (gi_next_rows g)[j := row],
            gi_done := list_all (\<lambda>row. row = None) ((gi_next_rows g)[j := row])\<rparr>"
  have "j = i" using i j(1) by simp
  note rn = reverse_next_collect [OF it]
  have len: "length (pending g) = length (gi_iters g)" "length (pending g') = length (gi_iters g)"
    using wf g' by (simp_all add: pending_def group_wf_def)
  have "pending g ! i = r # pending g' ! i"
    using j \<open>j = i\<close> rn(1,2) by (cases row) (simp_all add: pending_def g')
  moreover have "pending g' = (pending g)[i := pending g' ! i]"
  proof (rule nth_equalityI)
    fix k assume "k < length (pending g')"
    then show "pending g' ! k = (pending g)[i := pending g' ! i] ! k"
      using len wf \<open>j = i\<close> by (cases "k = i") (auto simp: pending_def g' group_wf_def)
  qed (use len in simp)
  moreover have "group_wf g'"
    unfolding group_wf_def g' using wf rn(2) j(2) by (simp add: group_wf_def nth_list_update)
  ultimately show ?thesis using len j \<open>j = i\<close> by (simp add: g')
qed

text \<open>
  The merge of scans that each run downwards by suffix runs downwards by suffix itself, and delivers
  exactly the rows of the scans.
\<close>

definition group_ready :: "group_iterator \<Rightarrow> bool" where
  "group_ready g \<longleftrightarrow> group_wf g
     \<and> (\<forall>rows\<in>set (pending g).
          sorted_wrt (\<lambda>a b. suffix (gi_value_offset g) b \<le> suffix (gi_value_offset g) a) rows
          \<and> (\<forall>r\<in>set rows. gi_value_offset g \<le> length (row_key r)))"

lemma next_rows_pending:
  assumes "group_wf g" "Some s \<in> set (gi_next_rows g)"
  shows "\<exists>rest. s # rest \<in> set (pending g)"
proof -
  obtain j where j: "j < length (gi_next_rows g)" "gi_next_rows g ! j = Some s"
    using assms(2) by (metis in_set_conv_nth)
  then have "pending g ! j = s # reverse_collect (gi_iters g ! j)" "j < length (pending g)"
    using assms(1) by (simp_all add: pending_def group_wf_def)
  then show ?thesis by (metis nth_mem)
qed

lemma pending_head:
  assumes "group_wf g" "rows \<in> set (pending g)" "rows \<noteq> []"
  shows "Some (hd rows) \<in> set (gi_next_rows g)"
proof -
  obtain j where j: "j < length (pending g)" "rows = pending g ! j" using assms(2) by (metis in_set_conv_nth)
  then have l: "j < length (gi_iters g)" "length (gi_next_rows g) = length (gi_iters g)"
    using assms(1) by (simp_all add: pending_def group_wf_def)
  then have r: "rows = (case gi_next_rows g ! j of None \<Rightarrow> [] | Some r \<Rightarrow> [r]) @ reverse_collect (gi_iters g ! j)"
    using j(2) by (simp add: pending_def)
  then obtain s where "gi_next_rows g ! j = Some s"
    using assms(1,3) l by (cases "gi_next_rows g ! j") (auto simp: group_wf_def)
  then show ?thesis using r l by (metis append_Cons list.sel(1) nth_mem option.simps(5))
qed

lemma group_next_ready:
  assumes ready: "group_ready g" and nd: "\<not> gi_done g"
  shows "\<exists>r g'. group_next g = Ok (Some r, g') \<and> group_ready g'
    \<and> gi_value_offset g' = gi_value_offset g
    \<and> mset (concat (pending g)) = add_mset r (mset (concat (pending g')))
    \<and> (\<forall>s\<in>set (concat (pending g)). suffix (gi_value_offset g) s \<le> suffix (gi_value_offset g) r)"
proof -
  let ?off = "gi_value_offset g"
  have wf: "group_wf g" using ready by (simp add: group_ready_def)
  have ex: "\<exists>r\<in>set (gi_next_rows g). r \<noteq> None" using nd wf by (auto simp: group_wf_def list_all_iff)
  have long: "?off \<le> length (row_key r)" if "Some r \<in> set (gi_next_rows g)" for r
    using next_rows_pending [OF wf that] ready by (auto simp: group_ready_def)
  obtain i r where i: "best_index ?off (gi_next_rows g) = Ok i" "i < length (gi_next_rows g)"
      "gi_next_rows g ! i = Some r" "\<And>s. Some s \<in> set (gi_next_rows g) \<Longrightarrow> suffix ?off s \<le> suffix ?off r"
    using best_index_max [OF ex long] by auto
  have li: "i < length (gi_iters g)" using i(2) wf by (simp add: group_wf_def)
  then obtain g' where g': "group_next g = Ok (Some r, g')"
    using i nd by (cases "reverse_next (gi_iters g ! i)") (simp add: group_next_def nth_opt_def Let_def)
  note p = group_next_pending [OF wf g' i(1)]
  have ms: "mset (concat (pending g)) = add_mset r (mset (concat (pending g')))"
    using mset_concat_update [of i "pending g" r "pending g' ! i"] p by metis
  have sub: "rows \<in> set (pending g')
      \<Longrightarrow> rows \<in> set (pending g) \<or> (\<exists>x. x # rows \<in> set (pending g))" for rows
    using p by (metis in_set_conv_nth length_list_update nth_list_update)
  have "group_ready g'"
    unfolding group_ready_def
  proof (intro conjI ballI)
    show "group_wf g'" using p by simp
    fix rows assume "rows \<in> set (pending g')"
    from sub [OF this] ready p
    show "sorted_wrt (\<lambda>a b. suffix (gi_value_offset g') b \<le> suffix (gi_value_offset g') a) rows"
      and "\<And>r. r \<in> set rows \<Longrightarrow> gi_value_offset g' \<le> length (row_key r)"
      by (fastforce simp: group_ready_def)+
  qed
  moreover have "suffix ?off s \<le> suffix ?off r" if "s \<in> set (concat (pending g))" for s
  proof -
    from that obtain rows where rows: "rows \<in> set (pending g)" "s \<in> set rows" by auto
    then obtain x xs where x: "rows = x # xs" by (metis list.set_cases)
    then have "suffix ?off s \<le> suffix ?off (hd rows)"
      using rows ready by (auto simp: group_ready_def)
    also have "\<dots> \<le> suffix ?off r" using i(4) pending_head [OF wf rows(1)] rows(2) by force
    finally show ?thesis .
  qed
  ultimately show ?thesis using g' p ms by blast
qed

lemma group_collect_merge:
  "group_ready g \<Longrightarrow> \<exists>rows. group_collect g = Ok rows \<and> mset rows = mset (concat (pending g))
     \<and> sorted_wrt (\<lambda>a b. suffix (gi_value_offset g) b \<le> suffix (gi_value_offset g) a) rows"
proof (induction g rule: group_collect.induct)
  case (1 g)
  show ?case
  proof (cases "gi_done g")
    case True
    have "concat (pending g) = []"
    proof (rule ccontr)
      assume "concat (pending g) \<noteq> []"
      then obtain rows where "rows \<in> set (pending g)" "rows \<noteq> []" by auto
      then show False
        using pending_head [of g rows] 1 True by (auto simp: group_ready_def group_wf_def list_all_iff)
    qed
    then show ?thesis using True by (simp add: group_collect.simps [of g] group_next_def)
  next
    case False
    obtain r g' where n: "group_next g = Ok (Some r, g')" "group_ready g'"
        "gi_value_offset g' = gi_value_offset g"
        "mset (concat (pending g)) = add_mset r (mset (concat (pending g')))"
        "\<forall>s\<in>set (concat (pending g)). suffix (gi_value_offset g) s \<le> suffix (gi_value_offset g) r"
      using group_next_ready [OF 1(2) False] by blast
    obtain rows where rows: "group_collect g' = Ok rows" "mset rows = mset (concat (pending g'))"
        "sorted_wrt (\<lambda>a b. suffix (gi_value_offset g) b \<le> suffix (gi_value_offset g) a) rows"
      using 1(1) [OF n(1) refl refl n(2)] n(3) by auto
    have "set rows \<subseteq> set (concat (pending g))"
      using rows(2) n(4) by (metis mset_subset_eq_add_right add_mset_add_single set_mset_mono set_mset_mset mset_subset_eq_add_left)
    then show ?thesis using n(1,4,5) rows by (auto simp: group_collect.simps [of g])
  qed
qed

section \<open>A reference store\<close>

text \<open>An ordered map as an association list, for examples: it satisfies the contract.\<close>

definition ref_keys :: "(bytes \<times> bytes) list \<Rightarrow> bytes list" where
  "ref_keys d = sort (remdups (map fst d))"

definition ref_rocks :: "(bytes \<times> bytes) list rocks" where
  "ref_rocks =
     \<lparr>rk_get = map_of,
      rk_put = (\<lambda>k v d. (k, v) # d),
      rk_delete = (\<lambda>k d. filter (\<lambda>e. fst e \<noteq> k) d),
      rk_write = (\<lambda>ps d. rev ps @ d),
      rk_iter_from = (\<lambda>d k. map (\<lambda>x. Some (x, the (map_of d x))) (filter (\<lambda>x. k \<le> x) (ref_keys d))),
      rk_seek_for_prev = (\<lambda>d k. rev (map (\<lambda>x. (x, the (map_of d x))) (filter (\<lambda>x. x \<le> k) (ref_keys d))))\<rparr>"

lemma ref_keys_sorted: "ref_keys d = sorted_list_of_set (dom (map_of d))"
  by (simp add: ref_keys_def dom_map_of_conv_image_fst sorted_list_of_set_sort_remdups [symmetric])

lemma ref_items:
  "map (\<lambda>x. (x, the (map_of d x))) (filter P (ref_keys d)) = items (map_of d) {x. P x}"
  by (simp add: ref_keys_sorted items_def filter_sorted_list_of_set finite_dom_map_of Int_def)

interpretation ref_db: rocksdb ref_rocks map_of
proof
  fix d :: "(bytes \<times> bytes) list" and k v :: bytes and ps :: "(bytes \<times> bytes) list"
  show "finite (dom (map_of d))" by (rule finite_dom_map_of)
  show "rk_get ref_rocks d k = map_of d k" by (simp add: ref_rocks_def)
  show "map_of (rk_put ref_rocks k v d) = (map_of d)(k \<mapsto> v)" by (simp add: ref_rocks_def)
  show "map_of (rk_delete ref_rocks k d) = (map_of d)(k := None)"
    by (simp add: ref_rocks_def) (induction d, auto)
  show "map_of (rk_write ref_rocks ps d) = map_of d ++ map_of (rev ps)" by (simp add: ref_rocks_def)
  show "rk_iter_from ref_rocks d k = map Some (items (map_of d) {x. k \<le> x})"
    using ref_items [of d "\<lambda>x. k \<le> x"] by (simp add: ref_rocks_def comp_def flip: ref_items)
  show "rk_seek_for_prev ref_rocks d k = rev (items (map_of d) {x. x \<le> k})"
    using ref_items [of d "\<lambda>x. x \<le> k"] by (simp add: ref_rocks_def)
qed

section \<open>Properties\<close>

text \<open>C7: over any store that is an ordered map, the scans of \<open>DB\<close> return exactly the rows they are
  asked for: a prefix scan all rows with the prefix in key order, a scan from a start key those not
  below it, a reverse scan those not above its bound, highest first. A batch write is visible to
  reads whatever order its rows come in, and a deleted key is gone.\<close>

theorem db_scans_and_writes:
  assumes "rocksdb rk kv"
  shows "scan_collect (iter_scan rk d p) = map row_of (items (kv d) {k. starts_with k p})
    \<and> (starts_with s p \<longrightarrow>
         scan_collect (iter_scan_from rk d p s) = map row_of (items (kv d) {k. starts_with k p \<and> s \<le> k})
         \<and> reverse_collect (iter_scan_reverse rk d p s)
             = map row_of (rev (items (kv d) {k. starts_with k p \<and> k \<le> s})))
    \<and> (consistent_rows rows \<longrightarrow> db_get rk (db_write rk rows fl d) k = (kv d ++ rows_map rows) k)
    \<and> db_get rk (db_delete rk ks d) k = (if k \<in> set ks then None else kv d k)"
  using rocksdb.db_rows [OF assms] by simp

theorem db_scans_and_writes_witness:
  "db_get ref_rocks (db_write ref_rocks [\<lparr>row_key = [2], row_value = [9]\<rparr>, \<lparr>row_key = [1], row_value = [8]\<rparr>] Disable []) [1] = Some [8]"
  using db_scans_and_writes [OF ref_db.rocksdb_axioms, of "[]" "[]" "[]"
      "[\<lparr>row_key = [2], row_value = [9]\<rparr>, \<lparr>row_key = [1], row_value = [8]\<rparr>]" Disable "[1]" "[]"]
  by (simp add: consistent_rows_def rows_map_def)

text \<open>C8: the merge behind multi-address history. If every scan is ordered downwards by the part of the
  key behind the offset (height, position, ...), \<open>iter_scan_group_reverse\<close> never panics, ends, and
  delivers exactly the rows of all its scans, ordered downwards in the same way.\<close>

theorem group_scan_merges:
  assumes "\<And>prefix bound r. (prefix, bound) \<in> set prefixes \<Longrightarrow>
      r \<in> set (reverse_collect (iter_scan_reverse rk db prefix bound)) \<Longrightarrow> off \<le> length (row_key r)"
    and "\<And>prefix bound. (prefix, bound) \<in> set prefixes \<Longrightarrow>
      sorted_wrt (\<lambda>a b. suffix off b \<le> suffix off a) (reverse_collect (iter_scan_reverse rk db prefix bound))"
  shows "\<exists>rows. group_collect (iter_scan_group_reverse rk db prefixes off) = Ok rows
    \<and> mset rows = mset (concat (map (\<lambda>(prefix, bound). reverse_collect (iter_scan_reverse rk db prefix bound)) prefixes))
    \<and> sorted_wrt (\<lambda>a b. suffix off b \<le> suffix off a) rows"
proof -
  let ?g = "iter_scan_group_reverse rk db prefixes off"
  have off: "gi_value_offset ?g = off" by (simp add: iter_scan_group_reverse_def group_new_def Let_def)
  have p: "pending ?g = map (\<lambda>(prefix, bound). reverse_collect (iter_scan_reverse rk db prefix bound)) prefixes"
    by (simp add: iter_scan_group_reverse_def pending_new comp_def case_prod_unfold)
  have "group_ready ?g"
    unfolding group_ready_def off p using group_new_wf assms
    by (auto simp: iter_scan_group_reverse_def)
  from group_collect_merge [OF this] show ?thesis unfolding off p .
qed

lemma demo_group_rows:
  "reverse_collect (iter_scan_reverse ref_rocks [([1, 5], []), ([2, 6], []), ([1, 7], [])] [1] [1, 255])
      = [row_of ([1, 7], []), row_of ([1, 5], [])]"
  "reverse_collect (iter_scan_reverse ref_rocks [([1, 5], []), ([2, 6], []), ([1, 7], [])] [2] [2, 255])
      = [row_of ([2, 6], [])]"
  by (simp_all add: reverse_collect_items iter_scan_reverse_def ref_rocks_def ref_keys_def starts_with_def)

theorem group_scan_merges_witness:
  "\<exists>rows. group_collect (iter_scan_group_reverse ref_rocks
       [([1, 5], []), ([2, 6], []), ([1, 7], [])] [([1], [1, 255]), ([2], [2, 255])] 1) = Ok rows
     \<and> mset rows = {#row_of ([1, 7], []), row_of ([1, 5], []), row_of ([2, 6], [])#}"
proof -
  let ?db = "[([1, 5], []), ([2, 6], []), ([1, 7], [])] :: (bytes \<times> bytes) list" and ?ps = "[([1], [1, 255]), ([2], [2, 255])] :: (bytes \<times> bytes) list"
  have cases: "p = [1] \<and> b = [1, 255] \<or> p = [2] \<and> b = [2, 255]" if "(p, b) \<in> set ?ps" for p b
    using that by auto
  have "\<exists>rows. group_collect (iter_scan_group_reverse ref_rocks ?db ?ps 1) = Ok rows
     \<and> mset rows = mset (concat (map (\<lambda>(p, b). reverse_collect (iter_scan_reverse ref_rocks ?db p b)) ?ps))
     \<and> sorted_wrt (\<lambda>a b. suffix 1 b \<le> suffix 1 a) rows"
  proof (rule group_scan_merges)
    fix p b r assume pb: "(p, b) \<in> set ?ps" "r \<in> set (reverse_collect (iter_scan_reverse ref_rocks ?db p b))"
    from cases [OF pb(1)] pb(2) show "1 \<le> length (row_key r)"
      by (elim disjE conjE) (simp_all only: demo_group_rows, auto simp: row_of_def)
  next
    fix p b assume "(p, b) \<in> set ?ps"
    from cases [OF this] show "sorted_wrt (\<lambda>a b. suffix 1 b \<le> suffix 1 a) (reverse_collect (iter_scan_reverse ref_rocks ?db p b))"
      by (elim disjE conjE) (simp_all only: demo_group_rows, auto simp: row_of_def)
  qed
  then show ?thesis by (auto simp only: demo_group_rows list.map prod.case concat.simps append.simps mset.simps)
qed

text \<open>Opening a store. A fresh store is stamped with the schema version, a store with the same stamp
  is accepted unchanged, and any other stamp (another version, or light mode switched) is refused.\<close>

theorem verify_compatibility_cases:
  assumes "rocksdb rk kv"
  shows "(kv d [0x56] = None \<longrightarrow>
           (\<exists>d'. verify_compatibility rk light d = Ok d'
              \<and> kv d' = (kv d)([0x56] \<mapsto> ser_u32 Little 2 @ (if light then [1] else []))
              \<and> verify_compatibility rk light d' = Ok d'
              \<and> panics (verify_compatibility rk (\<not> light) d')))
    \<and> (kv d [0x56] = Some x \<longrightarrow>
         verify_compatibility rk light d =
           (if x = ser_u32 Little 2 @ (if light then [1] else []) then Ok d
            else Panic ''Incompatible database found. Please reindex.''))"
  using rocksdb.get_kv [OF assms] rocksdb.put_kv [OF assms]
  by (simp add: verify_compatibility_def db_get_def db_put_def DB_VERSION_def)

theorem verify_compatibility_cases_witness:
  "\<exists>d'. verify_compatibility ref_rocks True [] = Ok d' \<and> panics (verify_compatibility ref_rocks False d')"
  using verify_compatibility_cases [OF ref_db.rocksdb_axioms, of "[]" True] by auto

end
