(* ===== verification/Indexer.thy ===== *)
theory Indexer
  imports Fetch DB
begin

text \<open>
  The store and the indexer of \<^verbatim>\<open>src/new_index/schema.rs\<close>: opening a store, the rows a block adds to
  \<open>txstore\<close> and \<open>history\<close>, adding and removing blocks, reorganisations and the whole of
  \<open>Indexer::update\<close>. The three databases are states of RocksDB; the two sets of block hashes and the
  header list are the in-memory part. Metrics and logging are left out; a call that returns an error
  here ends the update (the caller retries or shuts down), so its state is not part of the result.
\<close>

section \<open>State\<close>

record 'd store =
  so_txstore_db :: 'd
  so_history_db :: 'd
  so_cache_db :: 'd
  so_added_blockhashes :: "hash set"
  so_indexed_blockhashes :: "hash set"
  so_indexed_headers :: header_list

record indexer_config =
  ic_light_mode :: bool
  ic_address_search :: bool
  ic_index_unspendables :: bool
  ic_network :: network

record 'd indexer =
  ix_store :: "'d store"
  ix_flush :: db_flush
  ix_from :: fetch_from
  ix_iconfig :: indexer_config

text \<open>The channel of \<open>DeleteBlocksWithHistory\<close> is the list of hashes the operation sends.\<close>

datatype operation = AddBlocks | DeleteBlocks | DeleteBlocksWithHistory

section \<open>Opening\<close>

text \<open>\<open>deserialize::<BlockHash>\<close>: exactly the 32 bytes of the hash.\<close>

definition de_hash :: "bytes \<Rightarrow> hash option" where
  "de_hash bs = (if length bs = 32 then Some bs else None)"

definition load_blockhashes :: "'d rocks \<Rightarrow> 'd \<Rightarrow> bytes \<Rightarrow> (error_kind, hash set) outcome" where
  "load_blockhashes rk db prefix =
     map_out set
       (collect_out
          (\<lambda>row. bind_out (block_from_row row)
                   (\<lambda>(k, _). expect ''failed to parse BlockHash'' (de_hash (bk_hash k))))
          (scan_collect (iter_scan rk db prefix)))"

definition load_blockheaders ::
  "'d rocks \<Rightarrow> bitcoin_lib \<Rightarrow> 'd \<Rightarrow> (error_kind, (hash \<times> block_header) list) outcome"
where
  "load_blockheaders rk lib db =
     collect_out
       (\<lambda>row. bind_out (block_from_row row) (\<lambda>(k, v).
                bind_out (expect ''failed to parse BlockHash'' (de_hash (bk_hash k))) (\<lambda>h.
                  map_out (\<lambda>hdr. (h, hdr))
                    (expect ''failed to parse BlockHeader'' (lib_deserialize_header lib v)))))
       (scan_collect (iter_scan rk db header_filter))"

definition store_open ::
  "'d rocks \<Rightarrow> bitcoin_lib \<Rightarrow> bool \<Rightarrow> 'd \<Rightarrow> 'd \<Rightarrow> 'd \<Rightarrow> (error_kind, 'd store) outcome"
where
  "store_open rk lib light_mode txstore history cache =
     bind_out (verify_compatibility rk light_mode txstore) (\<lambda>txstore_db.
     bind_out (load_blockhashes rk txstore_db done_filter) (\<lambda>added_blockhashes.
     bind_out (verify_compatibility rk light_mode history) (\<lambda>history_db.
     bind_out (load_blockhashes rk history_db done_filter) (\<lambda>indexed_blockhashes.
     bind_out (verify_compatibility rk light_mode cache) (\<lambda>cache_db.
     bind_out
       (case db_get rk txstore_db [0x74] of
          Some tip \<Rightarrow>
            bind_out (expect ''invalid chain tip in `t`'' (de_hash tip)) (\<lambda>tip_hash.
            bind_out (load_blockheaders rk lib txstore_db) (\<lambda>headers_map.
              hl_new lib headers_map tip_hash))
        | None \<Rightarrow> Ok hl_empty)
       (\<lambda>headers.
          Ok \<lparr>so_txstore_db = txstore_db, so_history_db = history_db, so_cache_db = cache_db,
              so_added_blockhashes = added_blockhashes, so_indexed_blockhashes = indexed_blockhashes,
              so_indexed_headers = headers\<rparr>))))))"

definition done_initial_sync :: "'d rocks \<Rightarrow> 'd store \<Rightarrow> bool" where
  "done_initial_sync rk s \<longleftrightarrow> db_get rk (so_txstore_db s) [0x74] \<noteq> None"

section \<open>The rows of a block\<close>

definition add_transaction :: "bitcoin_lib \<Rightarrow> indexer_config \<Rightarrow> transaction \<Rightarrow> hash \<Rightarrow> db_row list" where
  "add_transaction lib ic tx blockhash =
     [tx_conf_into_row (tx_conf_new lib tx blockhash)]
     @ (if \<not> ic_light_mode ic then [tx_row_into_row (tx_row_new lib tx)] else [])
     @ map (\<lambda>(txo_index, txo). tx_out_into_row (tx_out_new lib (get_txid lib tx) txo_index txo))
         (filter (\<lambda>(_, txo). is_spendable lib txo) (enumerate 0 (tx_output tx)))"

definition add_block :: "bitcoin_lib \<Rightarrow> indexer_config \<Rightarrow> block_entry \<Rightarrow> db_row list" where
  "add_block lib ic b =
     (let blockhash = he_hash (be_entry b);
          txids = map (get_txid lib) (blk_txdata (be_block b))
      in concat (map (\<lambda>tx. add_transaction lib ic tx blockhash) (blk_txdata (be_block b)))
         @ (if \<not> ic_light_mode ic then
              [block_into_row (block_new_txids lib blockhash txids),
               block_into_row (block_new_meta blockhash (block_meta_of lib b))]
            else [])
         @ [block_into_row (block_new_header lib b), block_into_row (block_new_done blockhash)])"

definition add_blocks :: "bitcoin_lib \<Rightarrow> indexer_config \<Rightarrow> block_entry list \<Rightarrow> db_row list" where
  "add_blocks lib ic block_entries = concat (map (add_block lib ic) block_entries)"

text \<open>A \<open>BTreeSet\<close> of outpoints as the list of its members (in input order, possibly repeated).\<close>

definition get_previous_txos :: "bitcoin_lib \<Rightarrow> block_entry list \<Rightarrow> out_point list" where
  "get_previous_txos lib block_entries =
     concat (map (\<lambda>tx. map txi_previous_output (filter (has_prevout lib) (tx_input tx)))
       (concat (map (\<lambda>b. blk_txdata (be_block b)) block_entries)))"

definition lookup_txo :: "'d rocks \<Rightarrow> bitcoin_lib \<Rightarrow> 'd \<Rightarrow> out_point \<Rightarrow> (error_kind, tx_out option) outcome" where
  "lookup_txo rk lib txstore_db outpoint =
     (case db_get rk txstore_db (tx_out_row_key outpoint) of
        None \<Rightarrow> Ok None
      | Some v \<Rightarrow> map_out Some (expect ''failed to parse TxOut'' (lib_deserialize_txout lib v)))"

text \<open>\<open>lookup_txos\<close> and \<open>lookup_txos_sequential\<close> differ only in the thread pool.\<close>

definition lookup_txos ::
  "'d rocks \<Rightarrow> bitcoin_lib \<Rightarrow> 'd \<Rightarrow> out_point list \<Rightarrow> bool \<Rightarrow> (error_kind, out_point \<rightharpoonup> tx_out) outcome"
where
  "lookup_txos rk lib txstore_db outpoints allow_missing =
     map_out (\<lambda>found. map_of (concat found))
       (collect_out
          (\<lambda>outpoint. bind_out (lookup_txo rk lib txstore_db outpoint) (\<lambda>txo.
             case txo of
               Some t \<Rightarrow> Ok [(outpoint, t)]
             | None \<Rightarrow> if allow_missing then Ok [] else Panic ''missing txo''))
          outpoints)"

text \<open>
  The rows of one transaction in the history database and the script hashes it touches, in the order
  the code pushes them: outputs first, then inputs.
\<close>

definition funding_key :: "bitcoin_lib \<Rightarrow> transaction \<Rightarrow> u32 \<Rightarrow> u16 \<Rightarrow> nat \<Rightarrow> tx_out \<Rightarrow> tx_history_key" where
  "funding_key lib tx confirmed_height tx_position txo_index txo =
     history_new lib (txo_script_pubkey txo) confirmed_height tx_position
       (Funding \<lparr>fu_txid = get_txid lib tx, fu_vout = word_of_nat txo_index, fu_value = txo_value txo\<rparr>)"

definition spending_key :: "bitcoin_lib \<Rightarrow> transaction \<Rightarrow> u32 \<Rightarrow> u16 \<Rightarrow> nat \<Rightarrow> tx_in \<Rightarrow> tx_out \<Rightarrow> tx_history_key" where
  "spending_key lib tx confirmed_height tx_position txi_index txi prev_txo =
     history_new lib (txo_script_pubkey prev_txo) confirmed_height tx_position
       (Spending \<lparr>sp_txid = get_txid lib tx, sp_vin = word_of_nat txi_index,
                  sp_prev_txid = op_txid (txi_previous_output txi),
                  sp_prev_vout = op_vout (txi_previous_output txi), sp_value = txo_value prev_txo\<rparr>)"

definition spend_edge :: "bitcoin_lib \<Rightarrow> transaction \<Rightarrow> nat \<Rightarrow> tx_in \<Rightarrow> tx_edge_key" where
  "spend_edge lib tx txi_index txi =
     edge_new (op_txid (txi_previous_output txi)) (op_vout (txi_previous_output txi)) (get_txid lib tx)
       (word_of_nat txi_index)"

definition funding_rows ::
  "bitcoin_lib \<Rightarrow> indexer_config \<Rightarrow> transaction \<Rightarrow> u32 \<Rightarrow> u16 \<Rightarrow> (db_row list \<times> hash) list"
where
  "funding_rows lib ic tx confirmed_height tx_position =
     map (\<lambda>(txo_index, txo).
            (let history = funding_key lib tx confirmed_height tx_position txo_index txo
             in (history_into_row history
                 # (if ic_address_search ic
                    then (case addr_search_row lib (ic_network ic) (txo_script_pubkey txo) of
                            Some row \<Rightarrow> [row] | None \<Rightarrow> [])
                    else []),
                 thk_hash history)))
       (filter (\<lambda>(_, txo). is_spendable lib txo \<or> ic_index_unspendables ic) (enumerate 0 (tx_output tx)))"

definition spending_rows ::
  "bitcoin_lib \<Rightarrow> transaction \<Rightarrow> u32 \<Rightarrow> u16 \<Rightarrow> (out_point \<rightharpoonup> tx_out)
    \<Rightarrow> (error_kind, (db_row list \<times> hash) list) outcome"
where
  "spending_rows lib tx confirmed_height tx_position previous_txos_map =
     collect_out
       (\<lambda>(txi_index, txi).
          map_out
            (\<lambda>prev_txo.
               (let history = spending_key lib tx confirmed_height tx_position txi_index txi prev_txo
                in ([history_into_row history, edge_into_row (spend_edge lib tx txi_index txi)],
                    thk_hash history)))
            (expect ''missing previous txo'' (previous_txos_map (txi_previous_output txi))))
       (filter (\<lambda>(_, txi). has_prevout lib txi) (enumerate 0 (tx_input tx)))"

definition index_transaction ::
  "bitcoin_lib \<Rightarrow> indexer_config \<Rightarrow> transaction \<Rightarrow> u32 \<Rightarrow> u16 \<Rightarrow> (out_point \<rightharpoonup> tx_out) \<Rightarrow> operation
    \<Rightarrow> (error_kind, db_row list \<times> hash list) outcome"
where
  "index_transaction lib ic tx confirmed_height tx_position previous_txos_map op =
     map_out
       (\<lambda>spends.
          let all = funding_rows lib ic tx confirmed_height tx_position @ spends
          in (concat (map fst all), if op = DeleteBlocksWithHistory then map snd all else []))
       (spending_rows lib tx confirmed_height tx_position previous_txos_map)"

definition index_block ::
  "bitcoin_lib \<Rightarrow> indexer_config \<Rightarrow> (out_point \<rightharpoonup> tx_out) \<Rightarrow> operation \<Rightarrow> block_entry
    \<Rightarrow> (error_kind, db_row list \<times> hash list) outcome"
where
  "index_block lib ic previous_txos_map op b =
     map_out
       (\<lambda>rs. (concat (map fst rs) @ [block_into_row (block_new_done (he_hash (be_entry b)))], concat (map snd rs)))
       (collect_out
          (\<lambda>(idx, tx). index_transaction lib ic tx (word_of_nat (he_height (be_entry b))) (word_of_nat idx)
                         previous_txos_map op)
          (enumerate 0 (blk_txdata (be_block b))))"

definition index_blocks ::
  "bitcoin_lib \<Rightarrow> indexer_config \<Rightarrow> block_entry list \<Rightarrow> (out_point \<rightharpoonup> tx_out) \<Rightarrow> operation
    \<Rightarrow> (error_kind, db_row list \<times> hash list) outcome"
where
  "index_blocks lib ic block_entries previous_txos_map op =
     map_out (\<lambda>rs. (concat (map fst rs), concat (map snd rs)))
       (collect_out (index_block lib ic previous_txos_map op) block_entries)"

section \<open>The indexer\<close>

definition headers_to_add :: "'d store \<Rightarrow> header_entry list \<Rightarrow> header_entry list" where
  "headers_to_add s new_headers = filter (\<lambda>e. he_hash e \<notin> so_added_blockhashes s) new_headers"

definition headers_to_index :: "'d store \<Rightarrow> header_entry list \<Rightarrow> header_entry list" where
  "headers_to_index s new_headers = filter (\<lambda>e. he_hash e \<notin> so_indexed_blockhashes s) new_headers"

definition start_auto_compactions :: "'d rocks \<Rightarrow> 'd \<Rightarrow> (error_kind, 'd) outcome" where
  "start_auto_compactions rk db =
     (if db_get rk db [0x46] = None then
        (let db' = db_put_sync rk [0x46] [] db in
         if db_get rk db' [0x46] = None then Panic ''assert'' else Ok db')
      else Ok db)"

definition indexer_add ::
  "'d rocks \<Rightarrow> bitcoin_lib \<Rightarrow> indexer_config \<Rightarrow> db_flush \<Rightarrow> operation \<Rightarrow> block_entry list \<Rightarrow> 'd store \<Rightarrow> 'd store"
where
  "indexer_add rk lib ic fl op blocks s =
     (let rows = add_blocks lib ic blocks;
          hashes = map (\<lambda>b. he_hash (be_entry b)) blocks
      in if op = AddBlocks then
           s\<lparr>so_txstore_db := db_write rk rows fl (so_txstore_db s),
             so_added_blockhashes := so_added_blockhashes s \<union> set hashes\<rparr>
         else
           s\<lparr>so_txstore_db := db_delete rk (map row_key rows) (so_txstore_db s),
             so_added_blockhashes := so_added_blockhashes s - set hashes\<rparr>)"

definition indexer_index ::
  "'d rocks \<Rightarrow> bitcoin_lib \<Rightarrow> indexer_config \<Rightarrow> db_flush \<Rightarrow> operation \<Rightarrow> block_entry list \<Rightarrow> 'd store
    \<Rightarrow> (error_kind, 'd store \<times> hash list) outcome"
where
  "indexer_index rk lib ic fl op blocks s =
     bind_out (lookup_txos rk lib (so_txstore_db s) (get_previous_txos lib blocks) False) (\<lambda>previous_txos_map.
       if op = AddBlocks \<and> (\<exists>b\<in>set blocks. he_hash (be_entry b) \<notin> so_added_blockhashes s)
       then Panic ''cannot index block (missing from store)''
       else
         bind_out (index_blocks lib ic blocks previous_txos_map op) (\<lambda>(rows, sent).
           Ok (if op = AddBlocks then s\<lparr>so_history_db := db_write rk rows fl (so_history_db s)\<rparr>
               else s\<lparr>so_history_db := db_delete rk (map row_key rows) (so_history_db s)\<rparr>,
               sent)))"

text \<open>Running an operation over the batches of a fetcher.\<close>

fun index_batches ::
  "'d rocks \<Rightarrow> bitcoin_lib \<Rightarrow> indexer_config \<Rightarrow> db_flush \<Rightarrow> operation \<Rightarrow> block_entry list list \<Rightarrow> 'd store
    \<Rightarrow> (error_kind, 'd store \<times> hash list) outcome"
where
  "index_batches rk lib ic fl op [] s = Ok (s, [])"
| "index_batches rk lib ic fl op (blocks # rest) s =
     bind_out (indexer_index rk lib ic fl op blocks s) (\<lambda>(s', sent).
     bind_out (index_batches rk lib ic fl op rest s') (\<lambda>(s'', sent').
       Ok (s'', sent @ sent')))"

definition add_batches ::
  "'d rocks \<Rightarrow> bitcoin_lib \<Rightarrow> indexer_config \<Rightarrow> db_flush \<Rightarrow> operation \<Rightarrow> block_entry list list \<Rightarrow> 'd store \<Rightarrow> 'd store"
where
  "add_batches rk lib ic fl op batches s = foldl (\<lambda>s blocks. indexer_add rk lib ic fl op blocks s) s batches"

definition clear_caches :: "'d rocks \<Rightarrow> hash list \<Rightarrow> 'd \<Rightarrow> 'd" where
  "clear_caches rk scripts db =
     foldl (\<lambda>db script. db_delete rk [stats_cache_key script, utxo_cache_key script] db) db scripts"

definition reorg ::
  "'d rocks \<Rightarrow> bitcoin_lib \<Rightarrow> bitcoind \<Rightarrow> indexer_config \<Rightarrow> db_flush \<Rightarrow> header_entry list \<Rightarrow> 'd store
    \<Rightarrow> (error_kind, 'd store) outcome"
where
  "reorg rk lib bd ic fl reorged s =
     bind_out (bitcoind_fetcher lib bd reorged) (\<lambda>batches.
     bind_out (index_batches rk lib ic fl DeleteBlocksWithHistory batches s) (\<lambda>(s1, scripts).
     bind_out (bitcoind_fetcher lib bd reorged) (\<lambda>batches'.
       let s2 = add_batches rk lib ic fl DeleteBlocks batches' s1
       in Ok (s2\<lparr>so_cache_db := clear_caches rk scripts (so_cache_db s2)\<rparr>))))"

definition set_tip :: "'d rocks \<Rightarrow> hash option \<Rightarrow> 'd store \<Rightarrow> 'd store" where
  "set_tip rk tip s =
     (case tip of
        Some h \<Rightarrow> s\<lparr>so_txstore_db := db_put_sync rk [0x74] h (so_txstore_db s)\<rparr>
      | None \<Rightarrow> s\<lparr>so_txstore_db := db_delete rk [[0x74]] (so_txstore_db s)\<rparr>)"

text \<open>The first half of \<open>update\<close>: headers, rollback of the tip, removal of the reorganised blocks.\<close>

definition update_headers ::
  "'d rocks \<Rightarrow> bitcoin_lib \<Rightarrow> bitcoind \<Rightarrow> 'd indexer \<Rightarrow> hash \<Rightarrow> header_entry list \<Rightarrow> (error_kind, 'd store) outcome"
where
  "update_headers rk lib bd ix tip new_headers =
     bind_out (hl_apply (so_indexed_headers (ix_store ix)) new_headers) (\<lambda>(headers, reorged, rollback_tip).
     bind_out (tip_of headers) (\<lambda>headers_tip.
       if tip \<noteq> headers_tip then Panic ''assert_eq tip''
       else
         (let s = (ix_store ix)\<lparr>so_indexed_headers := headers\<rparr> in
          if reorged \<noteq> []
          then reorg rk lib bd (ix_iconfig ix) (ix_flush ix) reorged (set_tip rk rollback_tip s)
          else Ok s)))"

text \<open>The second half: add and index what is missing, then publish the new tip.\<close>

definition update_blocks ::
  "'d rocks \<Rightarrow> bitcoin_lib \<Rightarrow> bitcoind \<Rightarrow> u32 \<times> bytes option \<times> bytes list \<Rightarrow> 'd indexer \<Rightarrow> hash
    \<Rightarrow> header_entry list \<Rightarrow> 'd store \<Rightarrow> (error_kind, 'd indexer) outcome"
where
  "update_blocks rk lib bd files ix tip new_headers s =
     bind_out (start_fetcher lib bd files (ix_from ix) (headers_to_add s new_headers)) (\<lambda>batches.
     let s1 = add_batches rk lib (ix_iconfig ix) (ix_flush ix) AddBlocks batches s in
     bind_out (start_auto_compactions rk (so_txstore_db s1)) (\<lambda>txstore.
     let s2 = s1\<lparr>so_txstore_db := txstore\<rparr> in
     bind_out (start_fetcher lib bd files (ix_from ix) (headers_to_index s2 new_headers)) (\<lambda>batches'.
     bind_out (index_batches rk lib (ix_iconfig ix) (ix_flush ix) AddBlocks batches' s2) (\<lambda>(s3, _).
     bind_out (start_auto_compactions rk (so_history_db s3)) (\<lambda>history.
     bind_out (start_auto_compactions rk (so_cache_db s3)) (\<lambda>cache.
     let s4 = s3\<lparr>so_history_db := history, so_cache_db := cache\<rparr> in
       Ok (ix\<lparr>ix_store := set_tip rk (Some tip) s4, ix_flush := Enable, ix_from := Bitcoind\<rparr>)))))))"

definition update_with ::
  "'d rocks \<Rightarrow> bitcoin_lib \<Rightarrow> bitcoind \<Rightarrow> u32 \<times> bytes option \<times> bytes list \<Rightarrow> 'd indexer \<Rightarrow> hash
    \<Rightarrow> header_entry list \<Rightarrow> (error_kind, 'd indexer \<times> hash) outcome"
where
  "update_with rk lib bd files ix tip new_headers =
     bind_out (update_headers rk lib bd ix tip new_headers) (\<lambda>s.
       map_out (\<lambda>ix'. (ix', tip)) (update_blocks rk lib bd files ix tip new_headers s))"

definition update ::
  "'d rocks \<Rightarrow> bitcoin_lib \<Rightarrow> bitcoind \<Rightarrow> u32 \<times> bytes option \<times> bytes list \<Rightarrow> 'd indexer
    \<Rightarrow> (error_kind, 'd indexer \<times> hash) outcome option"
where
  "update rk lib bd files ix =
     (case bd_getbestblockhash bd of
        Ok tip \<Rightarrow>
          map_option
            (\<lambda>new. bind_out (bind_out new (hl_order lib (so_indexed_headers (ix_store ix))))
                     (update_with rk lib bd files ix tip))
            (daemon_get_new_headers lib bd (so_indexed_headers (ix_store ix)) tip)
      | Err e \<Rightarrow> Some (Err e)
      | Panic m \<Rightarrow> Some (Panic m))"

section \<open>What the fetchers deliver\<close>

definition entry_keyed :: "(hash \<rightharpoonup> header_entry) \<Rightarrow> bool" where
  "entry_keyed m \<longleftrightarrow> (\<forall>h e. m h = Some e \<longrightarrow> he_hash e = h)"

lemma select_blocks_spec:
  assumes "entry_keyed m" "select_blocks lib m bs = (es, m')"
  shows "(\<forall>h e. m' h = Some e \<longrightarrow> m h = Some e)
    \<and> (\<forall>x\<in>set es. m (he_hash (be_entry x)) = Some (be_entry x))
    \<and> dom m \<subseteq> dom m' \<union> (\<lambda>x. he_hash (be_entry x)) ` set es"
  using assms
proof (induction bs arbitrary: m es)
  case (Cons b bs)
  obtain blk sz where b: "b = (blk, sz)" by (cases b)
  let ?h = "lib_block_hash lib (blk_header blk)"
  show ?case
  proof (cases "m ?h")
    case None
    then have "select_blocks lib m bs = (es, m')" using Cons.prems(2) b by simp
    then show ?thesis by (rule Cons.IH [OF Cons.prems(1)])
  next
    case (Some e)
    obtain es' where es': "select_blocks lib (m(?h := None)) bs = (es', m')"
        "es = \<lparr>be_block = blk, be_entry = e, be_size = sz\<rparr> # es'"
      using Cons.prems(2) b Some by (auto simp: Let_def split: prod.splits)
    have he: "he_hash e = ?h" using Cons.prems(1) Some by (simp add: entry_keyed_def)
    have "entry_keyed (m(?h := None))" using Cons.prems(1) by (simp add: entry_keyed_def)
    note ih = Cons.IH [OF this es'(1)]
    have a: "\<forall>h e. m' h = Some e \<longrightarrow> m h = Some e"
      using ih by (metis fun_upd_apply option.distinct(1))
    have b1: "m (he_hash (be_entry x)) = Some (be_entry x)" if "x \<in> set es" for x
      using that es'(2) he Some ih by (auto simp: fun_upd_def split: if_splits)
    have c: "dom m \<subseteq> dom m' \<union> (\<lambda>x. he_hash (be_entry x)) ` set es"
    proof
      fix h assume "h \<in> dom m"
      then have "h = ?h \<or> h \<in> dom (m(?h := None))" by auto
      then have "h = ?h \<or> h \<in> dom m' \<union> (\<lambda>x. he_hash (be_entry x)) ` set es'" using ih by blast
      then show "h \<in> dom m' \<union> (\<lambda>x. he_hash (be_entry x)) ` set es" using es'(2) he by auto
    qed
    show ?thesis using a b1 c by blast
  qed
qed auto

lemma select_batches_spec:
  assumes "entry_keyed m" "select_batches lib m bss = (ess, m')"
  shows "(\<forall>h e. m' h = Some e \<longrightarrow> m h = Some e)
    \<and> (\<forall>x\<in>set (concat ess). m (he_hash (be_entry x)) = Some (be_entry x))
    \<and> dom m \<subseteq> dom m' \<union> (\<lambda>x. he_hash (be_entry x)) ` set (concat ess)"
  using assms
proof (induction bss arbitrary: m ess)
  case (Cons bs bss)
  obtain es m1 ess' where s: "select_blocks lib m bs = (es, m1)" "select_batches lib m1 bss = (ess', m')"
      "ess = es # ess'"
    using Cons.prems(2) by (auto split: prod.splits)
  note s1 = select_blocks_spec [OF Cons.prems(1) s(1)]
  have "entry_keyed m1" using s1 Cons.prems(1) unfolding entry_keyed_def by blast
  note s2 = Cons.IH [OF this s(2)]
  show ?case unfolding s(3) using s1 s2 by (auto 4 3)
qed auto

lemma start_fetcher_entries:
  assumes "start_fetcher lib bd files from headers = Ok batches"
  shows "(\<lambda>x. he_hash (be_entry x)) ` set (concat batches) = he_hash ` set headers"
proof (cases "from")
  case Bitcoind
  then have all: "list_all2 (\<lambda>es bs. fetch_chunk lib bd es = Ok bs) (chunks 100 headers) batches"
    using assms by (simp add: start_fetcher_def bitcoind_fetcher_def collect_out_Ok_iff)
  then have "map (map be_entry) batches = chunks 100 headers"
    by (induction rule: list_all2_induct) (auto simp: fetch_chunk_entries)
  then have "map be_entry (concat batches) = headers" by (simp add: map_concat concat_chunks)
  then have "be_entry ` set (concat batches) = set headers" by (metis list.set_map)
  then show ?thesis by (metis image_image)
next
  case BlkFiles
  let ?m = "map_of (rev (map (\<lambda>h. (he_hash h, h)) headers))"
  obtain fs where "(case select_batches lib ?m fs of (batches, entry_map) \<Rightarrow>
      if entry_map \<noteq> Map.empty then Panic ''failed to index blocks from blk*.dat files'' else Ok batches)
      = (Ok batches :: (error_kind, block_entry list list) outcome)"
    using assms BlkFiles by (auto simp: start_fetcher_def blkfiles_fetcher_def Let_def)
  then have fs: "select_batches lib ?m fs = (batches, Map.empty)"
    by (cases "select_batches lib ?m fs") (auto split: if_splits)
  have m: "he_hash e = h \<and> e \<in> set headers" if "?m h = Some e" for h e
    using that by (auto dest!: map_of_SomeD)
  then have "entry_keyed ?m" unfolding entry_keyed_def by blast
  note sel = select_batches_spec [OF this fs]
  have dom: "dom ?m = he_hash ` set headers" by (simp add: dom_map_of_conv_image_fst image_image)
  have "(\<lambda>x. he_hash (be_entry x)) ` set (concat batches) \<subseteq> he_hash ` set headers"
    using sel m by (metis (no_types, lifting) image_subset_iff image_eqI)
  moreover have "he_hash ` set headers \<subseteq> (\<lambda>x. he_hash (be_entry x)) ` set (concat batches)"
    using sel unfolding dom by simp
  ultimately show ?thesis by simp
qed

section \<open>What the operations change\<close>

lemma add_batches_effect:
  "so_added_blockhashes (add_batches rk lib ic fl op batches s)
     = (let hs = (\<lambda>x. he_hash (be_entry x)) ` set (concat batches)
        in if op = AddBlocks then so_added_blockhashes s \<union> hs else so_added_blockhashes s - hs)"
  "so_indexed_headers (add_batches rk lib ic fl op batches s) = so_indexed_headers s"
  "so_indexed_blockhashes (add_batches rk lib ic fl op batches s) = so_indexed_blockhashes s"
  "so_history_db (add_batches rk lib ic fl op batches s) = so_history_db s"
proof (induction batches arbitrary: s)
  case (Cons b bs)
  case 1 show ?case using Cons by (auto simp: add_batches_def indexer_add_def Let_def)
  case 2 show ?case using Cons by (simp add: add_batches_def indexer_add_def Let_def)
  case 3 show ?case using Cons by (simp add: add_batches_def indexer_add_def Let_def)
  case 4 show ?case using Cons by (simp add: add_batches_def indexer_add_def Let_def)
qed (auto simp: add_batches_def)

lemma indexer_index_effect:
  assumes "indexer_index rk lib ic fl op blocks s = Ok (s', sent)"
  shows "s' = s\<lparr>so_history_db := so_history_db s'\<rparr>"
  using assms by (auto simp: indexer_index_def split: if_splits)

lemma index_batches_effect:
  "index_batches rk lib ic fl op batches s = Ok (s', sent) \<Longrightarrow> s' = s\<lparr>so_history_db := so_history_db s'\<rparr>"
proof (induction batches arbitrary: s sent)
  case (Cons b bs)
  then obtain s1 sent1 sent2 where st: "indexer_index rk lib ic fl op b s = Ok (s1, sent1)"
      "index_batches rk lib ic fl op bs s1 = Ok (s', sent2)"
    by auto
  show ?case using indexer_index_effect [OF st(1)] Cons.IH [OF st(2)]
    by (metis (no_types, lifting) store.surjective store.update_convs(2))
qed simp

lemma set_tip_effect [simp]:
  "so_indexed_headers (set_tip rk t s) = so_indexed_headers s"
  "so_added_blockhashes (set_tip rk t s) = so_added_blockhashes s"
  "so_indexed_blockhashes (set_tip rk t s) = so_indexed_blockhashes s"
  "so_history_db (set_tip rk t s) = so_history_db s"
  by (simp_all add: set_tip_def split: option.splits)

lemma reorg_effect:
  assumes "reorg rk lib bd ic fl reorged s = Ok s'"
  shows "so_indexed_headers s' = so_indexed_headers s"
    and "so_indexed_blockhashes s' = so_indexed_blockhashes s"
    and "so_added_blockhashes s' = so_added_blockhashes s - he_hash ` set reorged"
proof -
  obtain batches s1 scripts where r: "bitcoind_fetcher lib bd reorged = Ok batches"
      "index_batches rk lib ic fl DeleteBlocksWithHistory batches s = Ok (s1, scripts)"
      "s' = (add_batches rk lib ic fl DeleteBlocks batches s1)
         \<lparr>so_cache_db := clear_caches rk scripts (so_cache_db (add_batches rk lib ic fl DeleteBlocks batches s1))\<rparr>"
    using assms by (auto simp: reorg_def Let_def)
  have s1: "so_indexed_headers s1 = so_indexed_headers s" "so_added_blockhashes s1 = so_added_blockhashes s"
      "so_indexed_blockhashes s1 = so_indexed_blockhashes s"
    using index_batches_effect [OF r(2)] by (metis store.select_convs store.update_convs(2) store.surjective)+
  have "start_fetcher lib bd files Bitcoind reorged = Ok batches" for files
    using r(1) by (simp add: start_fetcher_def)
  note h = start_fetcher_entries [OF this]
  show "so_indexed_headers s' = so_indexed_headers s" and "so_indexed_blockhashes s' = so_indexed_blockhashes s"
    using r(3) s1 by (simp_all add: add_batches_effect)
  show "so_added_blockhashes s' = so_added_blockhashes s - he_hash ` set reorged"
    using r(3) s1 h by (simp add: add_batches_effect Let_def)
qed

text \<open>Every block of the header list is in the set of added blocks kept in memory.\<close>

definition headers_added :: "'d store \<Rightarrow> bool" where
  "headers_added s \<longleftrightarrow> he_hash ` set (hl_headers (so_indexed_headers s)) \<subseteq> so_added_blockhashes s"

lemma update_headers_effect:
  assumes inv: "headers_added (ix_store ix)"
    and dis: "distinct (map he_hash (hl_headers (so_indexed_headers (ix_store ix))))"
    and up: "update_headers rk lib bd ix tip new = Ok s"
  shows "he_hash ` set (hl_headers (so_indexed_headers s)) - he_hash ` set new \<subseteq> so_added_blockhashes s
    \<and> last_hash (hl_headers (so_indexed_headers s)) = tip"
proof -
  let ?hl = "so_indexed_headers (ix_store ix)"
  obtain hl' reorged rb where app: "hl_apply ?hl new = Ok (hl', reorged, rb)" and tip: "tip_of hl' = Ok tip"
    and st: "(if reorged \<noteq> [] then reorg rk lib bd (ix_iconfig ix) (ix_flush ix) reorged
                 (set_tip rk rb ((ix_store ix)\<lparr>so_indexed_headers := hl'\<rparr>))
               else Ok ((ix_store ix)\<lparr>so_indexed_headers := hl'\<rparr>)) = Ok s"
    using up by (auto simp: update_headers_def Let_def split: if_splits)
  have s: "so_indexed_headers s = hl'"
      "so_added_blockhashes s = so_added_blockhashes (ix_store ix) - he_hash ` set reorged"
    using st reorg_effect by (fastforce split: if_splits)+
  have "last_hash (hl_headers hl') = tip" using tip by (auto simp: tip_of_def split: if_splits)
  moreover have "he_hash ` set (hl_headers hl') - he_hash ` set new \<subseteq> so_added_blockhashes s"
  proof (cases "new = []")
    case True
    then show ?thesis using app inv s by (auto simp: headers_added_def)
  next
    case False
    let ?k = "he_height (new ! 0)"
    note a = hl_apply_Ok_iff [OF False, THEN iffD1, OF app]
    have "set (map he_hash (take ?k (hl_headers ?hl))) \<inter> set (map he_hash (drop ?k (hl_headers ?hl))) = {}"
      using dis by (metis append_take_drop_id distinct_append map_append)
    moreover have "he_hash ` set (take ?k (hl_headers ?hl)) \<subseteq> so_added_blockhashes (ix_store ix)"
      using inv by (auto simp: headers_added_def dest: in_set_takeD)
    ultimately show ?thesis using a s(2) by auto
  qed
  ultimately show ?thesis using s(1) by simp
qed

lemma update_blocks_effect:
  assumes "update_blocks rk lib bd files ix tip new s = Ok ix'"
  shows "so_indexed_headers (ix_store ix') = so_indexed_headers s
    \<and> so_added_blockhashes (ix_store ix') = so_added_blockhashes s \<union> he_hash ` set new
    \<and> (\<exists>db. so_txstore_db (ix_store ix') = db_put_sync rk [0x74] tip db)"
proof -
  obtain batches txs batches' s3 sent his ca where u:
      "start_fetcher lib bd files (ix_from ix) (headers_to_add s new) = Ok batches"
      "index_batches rk lib (ix_iconfig ix) (ix_flush ix) AddBlocks batches'
         ((add_batches rk lib (ix_iconfig ix) (ix_flush ix) AddBlocks batches s)\<lparr>so_txstore_db := txs\<rparr>) = Ok (s3, sent)"
      "ix' = ix\<lparr>ix_store := set_tip rk (Some tip) (s3\<lparr>so_history_db := his, so_cache_db := ca\<rparr>),
               ix_flush := Enable, ix_from := Bitcoind\<rparr>"
    using assms by (auto simp: update_blocks_def Let_def)
  let ?s1 = "add_batches rk lib (ix_iconfig ix) (ix_flush ix) AddBlocks batches s"
  have s3: "so_indexed_headers s3 = so_indexed_headers ?s1" "so_added_blockhashes s3 = so_added_blockhashes ?s1"
    using index_batches_effect [OF u(2)]
    by (metis store.select_convs store.update_convs(1,2) store.surjective)+
  have "so_added_blockhashes ?s1 = so_added_blockhashes s \<union> he_hash ` set new"
    using start_fetcher_entries [OF u(1)] by (auto simp: add_batches_effect Let_def headers_to_add_def)
  then show ?thesis using u(3) s3 by (auto simp: add_batches_effect set_tip_def)
qed

section \<open>The rows of a block are consistent\<close>

lemma consistent_rowsI:
  assumes "\<And>r. r \<in> set rows \<Longrightarrow> row_value r = f (row_key r)"
  shows "consistent_rows rows"
  unfolding consistent_rows_def
proof (intro ballI impI)
  fix r s assume "r \<in> set rows" "s \<in> set rows" "row_key r = row_key s"
  then show "row_value r = row_value s" using assms [of r] assms [of s] by metis
qed

lemmas row_key_defs =
  tx_conf_into_row_def tx_conf_new_def ser_tx_conf_key_def tx_row_into_row_def tx_row_new_def ser_tx_row_key_def
  tx_out_into_row_def tx_out_new_def ser_tx_out_key_def block_into_row_def block_new_txids_def
  block_new_meta_def block_new_header_def block_new_done_def ser_block_key_def ser_u8_def

abbreviation block_txs :: "block_entry list \<Rightarrow> transaction set" where
  "block_txs blocks \<equiv> \<Union>b\<in>set blocks. set (blk_txdata (be_block b))"

text \<open>
  Ids without collisions: transaction ids and block hashes of the given blocks determine what they
  identify, and have 32 bytes.
\<close>

definition ids_unique :: "bitcoin_lib \<Rightarrow> block_entry list \<Rightarrow> bool" where
  "ids_unique lib blocks \<longleftrightarrow>
     inj_on (get_txid lib) (block_txs blocks)
     \<and> inj_on (\<lambda>b. he_hash (be_entry b)) (set blocks)
     \<and> (\<forall>tx\<in>block_txs blocks. hash_ok (get_txid lib tx) \<and> length (tx_output tx) < 2 ^ 32)
     \<and> (\<forall>b\<in>set blocks. hash_ok (he_hash (be_entry b)))"

definition row_content :: "bitcoin_lib \<Rightarrow> block_entry list \<Rightarrow> bytes \<Rightarrow> bytes" where
  "row_content lib blocks key =
     (let tx = (\<lambda>t. the_inv_into (block_txs blocks) (get_txid lib) t);
          b = (\<lambda>h. the_inv_into (set blocks) (\<lambda>b. he_hash (be_entry b)) h)
      in if hd key = 0x54 then lib_serialize_tx lib (tx (tl key))
         else if hd key = 0x4f then
           lib_serialize_txout lib (tx_output (tx (take 32 (tl key))) ! unat (fst (the (de_u32 Little (drop 33 key)))))
         else if hd key = 0x58 then ser_txids lib (map (get_txid lib) (blk_txdata (be_block (b (tl key)))))
         else if hd key = 0x4d then ser_block_meta (block_meta_of lib (b (tl key)))
         else if hd key = 0x42 then lib_serialize_header lib (blk_header (be_block (b (tl key))))
         else [])"

lemma add_transaction_content:
  assumes ids: "ids_unique lib blocks" and tx: "tx \<in> block_txs blocks"
    and r: "r \<in> set (add_transaction lib ic tx h)"
  shows "row_value r = row_content lib blocks (row_key r)"
proof -
  have inv: "the_inv_into (block_txs blocks) (get_txid lib) (get_txid lib tx) = tx"
    using ids tx unfolding ids_unique_def by (meson the_inv_into_f_f)
  have len: "length (get_txid lib tx) = 32" "length (tx_output tx) < 2 ^ 32"
    using ids tx by (auto simp: ids_unique_def)
  have "unat (fst (the (de_u32 Little (ser_u32 Little (word_of_nat i))))) = i" if "i < length (tx_output tx)" for i
    using that len(2) de_ser_u32 [of Little "word_of_nat i" "[]"] by (simp add: unat_of_nat)
  then show ?thesis using r len(1)
    by (auto simp: add_transaction_def row_content_def row_key_defs inv in_set_enumerate_eq split: if_splits)
qed

lemma add_blocks_consistent:
  assumes ids: "ids_unique lib blocks"
  shows "consistent_rows (add_blocks lib ic blocks)"
proof (rule consistent_rowsI)
  fix r assume "r \<in> set (add_blocks lib ic blocks)"
  then obtain b where b: "b \<in> set blocks" "r \<in> set (add_block lib ic b)" by (auto simp: add_blocks_def)
  have inv: "the_inv_into (set blocks) (\<lambda>b. he_hash (be_entry b)) (he_hash (be_entry b)) = b"
    using ids b(1) the_inv_into_f_f [of "\<lambda>b. he_hash (be_entry b)" "set blocks" b] by (simp add: ids_unique_def)
  show "row_value r = row_content lib blocks (row_key r)"
  proof (cases "\<exists>tx\<in>set (blk_txdata (be_block b)). r \<in> set (add_transaction lib ic tx (he_hash (be_entry b)))")
    case True
    then show ?thesis using add_transaction_content [OF ids] b(1) by blast
  next
    case False
    then show ?thesis using b(2) inv
      by (auto simp: add_block_def Let_def row_content_def row_key_defs split: if_splits)
  qed
qed

section \<open>Outputs and their lookup\<close>

lemma output_row_added:
  assumes "tx \<in> block_txs blocks" "i < length (tx_output tx)" "is_spendable lib (tx_output tx ! i)"
  shows "\<lparr>row_key = tx_out_row_key \<lparr>op_txid = get_txid lib tx, op_vout = word_of_nat i\<rparr>,
          row_value = lib_serialize_txout lib (tx_output tx ! i)\<rparr> \<in> set (add_blocks lib ic blocks)"
proof -
  obtain b where b: "b \<in> set blocks" "tx \<in> set (blk_txdata (be_block b))" using assms(1) by auto
  have "tx_out_into_row (tx_out_new lib (get_txid lib tx) i (tx_output tx ! i))
      \<in> set (add_transaction lib ic tx (he_hash (be_entry b)))"
    using assms(2,3) by (force simp: add_transaction_def in_set_enumerate_eq)
  then have "tx_out_into_row (tx_out_new lib (get_txid lib tx) i (tx_output tx ! i)) \<in> set (add_blocks lib ic blocks)"
    using b by (auto simp: add_blocks_def add_block_def Let_def)
  then show ?thesis by (simp add: tx_out_into_row_def tx_out_new_def tx_out_row_key_def)
qed

lemma indexer_add_kv:
  assumes "rocksdb rk kv" "ids_unique lib blocks"
  shows "kv (so_txstore_db (indexer_add rk lib ic fl AddBlocks blocks s))
    = kv (so_txstore_db s) ++ rows_map (add_blocks lib ic blocks)"
  using rocksdb.db_write_kv [OF assms(1) add_blocks_consistent [OF assms(2)]]
  by (simp add: indexer_add_def Let_def)

lemma added_output_lookup:
  assumes db: "rocksdb rk kv" and ids: "ids_unique lib blocks"
    and o: "tx \<in> block_txs blocks" "i < length (tx_output tx)" "is_spendable lib (tx_output tx ! i)"
    and rt: "lib_deserialize_txout lib (lib_serialize_txout lib (tx_output tx ! i)) = Some (tx_output tx ! i)"
  shows "lookup_txo rk lib (so_txstore_db (indexer_add rk lib ic fl AddBlocks blocks s))
     \<lparr>op_txid = get_txid lib tx, op_vout = word_of_nat i\<rparr> = Ok (Some (tx_output tx ! i))"
proof -
  have "rows_map (add_blocks lib ic blocks) (tx_out_row_key \<lparr>op_txid = get_txid lib tx, op_vout = word_of_nat i\<rparr>)
      = Some (lib_serialize_txout lib (tx_output tx ! i))"
    using rows_map_Some [OF add_blocks_consistent [OF ids]] output_row_added [OF o, of ic]
    by (metis db_row.select_convs(1,2))
  then show ?thesis
    using indexer_add_kv [OF db ids] rt rocksdb.get_kv [OF db] by (simp add: lookup_txo_def db_get_def)
qed

definition found :: "'d rocks \<Rightarrow> bitcoin_lib \<Rightarrow> 'd \<Rightarrow> out_point \<Rightarrow> bool" where
  "found rk lib db pt \<longleftrightarrow> (\<exists>txo. lookup_txo rk lib db pt = Ok (Some txo))"

lemma lookup_txos_found:
  assumes "\<forall>pt\<in>set pts. found rk lib db pt"
  shows "\<exists>m. lookup_txos rk lib db pts allow = Ok m
    \<and> (\<forall>pt\<in>set pts. \<exists>txo. m pt = Some txo \<and> lookup_txo rk lib db pt = Ok (Some txo))"
proof -
  obtain t where t: "\<forall>pt\<in>set pts. lookup_txo rk lib db pt = Ok (Some (t pt))"
    using assms unfolding found_def by metis
  have "collect_out (\<lambda>outpoint. bind_out (lookup_txo rk lib db outpoint) (\<lambda>txo.
             case txo of Some t \<Rightarrow> Ok [(outpoint, t)] | None \<Rightarrow> if allow then Ok [] else Panic ''missing txo'')) pts
      = Ok (map (\<lambda>pt. [(pt, t pt)]) pts)"
    using t by (intro collect_out_total) simp
  then have l: "lookup_txos rk lib db pts allow = Ok (map_of (map (\<lambda>pt. (pt, t pt)) pts))"
    by (simp add: lookup_txos_def)
  have "map_of (map (\<lambda>pt. (pt, t pt)) pts) pt = Some (t pt)" if "pt \<in> set pts" for pt
    using that by (simp add: map_of_map_restrict restrict_map_def)
  then show ?thesis using l t by blast
qed

lemma index_blocks_total:
  assumes "\<forall>pt\<in>set (get_previous_txos lib blocks). m pt \<noteq> None"
  shows "\<exists>r. index_blocks lib ic blocks m op = Ok r"
proof -
  have tx: "\<exists>r. index_transaction lib ic tx h p m op = Ok r"
    if "b \<in> set blocks" "tx \<in> set (blk_txdata (be_block b))" for b tx h p
  proof -
    have known: "m (txi_previous_output txi) \<noteq> None" if "txi \<in> set (tx_input tx)" "has_prevout lib txi" for txi
      using assms that \<open>b \<in> set blocks\<close> \<open>tx \<in> set (blk_txdata (be_block b))\<close>
      by (auto simp: get_previous_txos_def)
    have "\<exists>r. spending_rows lib tx h p m = Ok r"
      unfolding spending_rows_def
    proof (intro collect_out_ex ballI)
      fix x assume "x \<in> set (filter (\<lambda>(_, txi). has_prevout lib txi) (enumerate 0 (tx_input tx)))"
      then obtain i txi where x: "x = (i, txi)" "txi \<in> set (tx_input tx)" "has_prevout lib txi"
        by (auto simp: in_set_enumerate_eq)
      show "\<exists>r. (case x of (txi_index, txi) \<Rightarrow> map_out
            (\<lambda>prev_txo. let history = spending_key lib tx h p txi_index txi prev_txo
               in ([history_into_row history, edge_into_row (spend_edge lib tx txi_index txi)], thk_hash history))
            (expect ''missing previous txo'' (m (txi_previous_output txi)))) = Ok r"
        unfolding x(1) prod.case by (rule map_out_expect_ex) (rule known [OF x(2,3)])
    qed
    then show ?thesis by (auto simp: index_transaction_def)
  qed
  have "\<exists>r. index_block lib ic m op b = Ok r" if "b \<in> set blocks" for b
  proof -
    have "\<exists>r. collect_out (\<lambda>(idx, tx). index_transaction lib ic tx (word_of_nat (he_height (be_entry b))) (word_of_nat idx) m op)
        (enumerate 0 (blk_txdata (be_block b))) = Ok r"
      by (rule collect_out_ex) (use tx that in \<open>auto simp: in_set_enumerate_eq\<close>)
    then show ?thesis by (auto simp: index_block_def)
  qed
  then show ?thesis unfolding index_blocks_def using collect_out_ex [of blocks "index_block lib ic m op"] by auto
qed

lemma indexer_index_total:
  assumes "\<forall>pt\<in>set (get_previous_txos lib blocks). found rk lib (so_txstore_db s) pt"
    and "\<forall>b\<in>set blocks. he_hash (be_entry b) \<in> so_added_blockhashes s"
  shows "\<exists>s' sent. indexer_index rk lib ic fl op blocks s = Ok (s', sent)"
proof -
  obtain m where m: "lookup_txos rk lib (so_txstore_db s) (get_previous_txos lib blocks) False = Ok m"
      "\<forall>pt\<in>set (get_previous_txos lib blocks). m pt \<noteq> None"
    using lookup_txos_found [OF assms(1), of False] by (metis option.distinct(1))
  obtain r where "index_blocks lib ic blocks m op = Ok r" using index_blocks_total [OF m(2)] by blast
  then show ?thesis using m(1) assms(2) by (cases r) (auto simp: indexer_index_def)
qed

section \<open>The history a block records\<close>

text \<open>The history entries of a transaction, as a set: one per indexed output, one per spent output.\<close>

definition tx_history ::
  "bitcoin_lib \<Rightarrow> indexer_config \<Rightarrow> (out_point \<rightharpoonup> tx_out) \<Rightarrow> transaction \<Rightarrow> u32 \<Rightarrow> u16 \<Rightarrow> tx_history_key set"
where
  "tx_history lib ic m tx h p =
     {funding_key lib tx h p i (tx_output tx ! i) | i. i < length (tx_output tx)
        \<and> (is_spendable lib (tx_output tx ! i) \<or> ic_index_unspendables ic)}
     \<union> {spending_key lib tx h p i (tx_input tx ! i) txo | i txo. i < length (tx_input tx)
        \<and> has_prevout lib (tx_input tx ! i) \<and> m (txi_previous_output (tx_input tx ! i)) = Some txo}"

definition tx_addr_rows :: "bitcoin_lib \<Rightarrow> indexer_config \<Rightarrow> transaction \<Rightarrow> db_row set" where
  "tx_addr_rows lib ic tx =
     {row. ic_address_search ic \<and> (\<exists>txo\<in>set (tx_output tx).
        (is_spendable lib txo \<or> ic_index_unspendables ic)
        \<and> addr_search_row lib (ic_network ic) (txo_script_pubkey txo) = Some row)}"

definition tx_edges :: "bitcoin_lib \<Rightarrow> transaction \<Rightarrow> tx_edge_key set" where
  "tx_edges lib tx = {spend_edge lib tx i (tx_input tx ! i) | i. i < length (tx_input tx)
     \<and> has_prevout lib (tx_input tx ! i)}"

lemma UN_insert_split: "(\<Union>x\<in>A. insert (f x) (g x)) = f ` A \<union> (\<Union>x\<in>A. g x)"
  by auto

lemma funding_rows_set:
  "set (concat (map fst (funding_rows lib ic tx h p)))
     = history_into_row ` {funding_key lib tx h p i (tx_output tx ! i) | i. i < length (tx_output tx)
          \<and> (is_spendable lib (tx_output tx ! i) \<or> ic_index_unspendables ic)}
       \<union> tx_addr_rows lib ic tx"
proof -
  define I where "I = set (filter (\<lambda>(_, txo). is_spendable lib txo \<or> ic_index_unspendables ic) (enumerate 0 (tx_output tx)))"
  have mem: "x \<in> I \<longleftrightarrow> fst x < length (tx_output tx) \<and> tx_output tx ! fst x = snd x
      \<and> (is_spendable lib (snd x) \<or> ic_index_unspendables ic)" for x
    by (cases x) (auto simp: I_def in_set_enumerate_eq)
  let ?a = "\<lambda>txo. if ic_address_search ic
     then (case addr_search_row lib (ic_network ic) (txo_script_pubkey txo) of Some row \<Rightarrow> [row] | None \<Rightarrow> []) else []"
  have gen: "set (concat (map fst (map g xs))) = (\<Union>x\<in>set xs. set (fst (g x)))"
    for g :: "nat \<times> tx_out \<Rightarrow> db_row list \<times> hash" and xs by simp
  have "set (concat (map fst (funding_rows lib ic tx h p)))
      = (\<Union>x\<in>I. insert (history_into_row (funding_key lib tx h p (fst x) (snd x))) (set (?a (snd x))))"
    unfolding funding_rows_def gen I_def [symmetric]
  proof (intro SUP_cong refl)
    fix x :: "nat \<times> tx_out"
    show "set (fst (case x of (txo_index, txo) \<Rightarrow>
        let history = funding_key lib tx h p txo_index txo
        in (history_into_row history # ?a txo, thk_hash history)))
      = insert (history_into_row (funding_key lib tx h p (fst x) (snd x))) (set (?a (snd x)))"
      by (simp only: case_prod_beta Let_def fst_conv list.set(2))
  qed
  also have "\<dots> = (\<lambda>x. history_into_row (funding_key lib tx h p (fst x) (snd x))) ` I \<union> (\<Union>x\<in>I. set (?a (snd x)))"
    by (rule UN_insert_split)
  also have "(\<Union>x\<in>I. set (?a (snd x))) = tx_addr_rows lib ic tx"
  proof (intro set_eqI iffI)
    fix row assume "row \<in> (\<Union>x\<in>I. set (?a (snd x)))"
    then obtain x where "x \<in> I" and row: "row \<in> set (?a (snd x))" by (rule UN_E)
    then have "snd x \<in> set (tx_output tx)" using mem nth_mem by metis
    moreover have "is_spendable lib (snd x) \<or> ic_index_unspendables ic" using \<open>x \<in> I\<close> mem by simp
    moreover have "ic_address_search ic" "addr_search_row lib (ic_network ic) (txo_script_pubkey (snd x)) = Some row"
      using row by (cases "ic_address_search ic"; cases "addr_search_row lib (ic_network ic) (txo_script_pubkey (snd x))"; simp)+
    ultimately show "row \<in> tx_addr_rows lib ic tx" unfolding tx_addr_rows_def mem_Collect_eq by blast
  next
    fix row assume "row \<in> tx_addr_rows lib ic tx"
    then obtain i where "i < length (tx_output tx)" "ic_address_search ic"
        "is_spendable lib (tx_output tx ! i) \<or> ic_index_unspendables ic"
        "addr_search_row lib (ic_network ic) (txo_script_pubkey (tx_output tx ! i)) = Some row"
      unfolding tx_addr_rows_def by (auto simp: in_set_conv_nth)
    then show "row \<in> (\<Union>x\<in>I. set (?a (snd x)))"
      by (intro UN_I [of "(i, tx_output tx ! i)"]) (auto simp: mem)
  qed
  also have "(\<lambda>x. history_into_row (funding_key lib tx h p (fst x) (snd x))) ` I
      = history_into_row ` {funding_key lib tx h p i (tx_output tx ! i) | i. i < length (tx_output tx)
          \<and> (is_spendable lib (tx_output tx ! i) \<or> ic_index_unspendables ic)}"
  proof -
    have "I = (\<lambda>i. (i, tx_output tx ! i)) ` {i. i < length (tx_output tx)
          \<and> (is_spendable lib (tx_output tx ! i) \<or> ic_index_unspendables ic)}"
      using mem by (intro set_eqI iffI) (auto simp: image_iff)
    then show ?thesis by (simp only: image_image fst_conv snd_conv setcompr_eq_image)
  qed
  finally show ?thesis .
qed

lemma spending_rows_set:
  assumes "spending_rows lib tx h p m = Ok rs"
  shows "set (concat (map fst rs))
     = history_into_row ` {spending_key lib tx h p i (tx_input tx ! i) txo | i txo. i < length (tx_input tx)
        \<and> has_prevout lib (tx_input tx ! i) \<and> m (txi_previous_output (tx_input tx ! i)) = Some txo}
       \<union> edge_into_row ` tx_edges lib tx"
proof -
  let ?xs = "filter (\<lambda>(_, txi). has_prevout lib txi) (enumerate 0 (tx_input tx))"
  let ?f = "\<lambda>i txi prev_txo. [history_into_row (spending_key lib tx h p i txi prev_txo), edge_into_row (spend_edge lib tx i txi)]"
  have xs: "set ?xs = {(i, tx_input tx ! i) | i. i < length (tx_input tx) \<and> has_prevout lib (tx_input tx ! i)}"
    by (auto simp: in_set_enumerate_eq)
  have all: "list_all2 (\<lambda>(i, txi) r. \<exists>txo. m (txi_previous_output txi) = Some txo \<and> fst r = ?f i txi txo) ?xs rs"
    using assms unfolding spending_rows_def collect_out_Ok_iff
    by (rule list_all2_mono) (auto simp: Let_def)
  then have known: "\<forall>(i, txi)\<in>set ?xs. \<exists>txo. m (txi_previous_output txi) = Some txo"
    by (induction rule: list_all2_induct) auto
  have "set (map fst rs) = {?f i txi txo | i txi txo. (i, txi) \<in> set ?xs \<and> m (txi_previous_output txi) = Some txo}"
    using all
  proof (induction rule: list_all2_induct)
    case (Cons x xs r rs)
    then show ?case by (cases x) auto
  qed simp
  then have s: "set (concat (map fst rs)) = \<Union> (set ` {?f i txi txo | i txi txo. (i, txi) \<in> set ?xs \<and> m (txi_previous_output txi) = Some txo})"
    by simp
  show ?thesis unfolding s xs tx_edges_def using known unfolding xs by fastforce
qed

text \<open>The keys indexing writes for blocks, given the outputs their inputs spend.\<close>

definition tx_index_rows ::
  "bitcoin_lib \<Rightarrow> indexer_config \<Rightarrow> (out_point \<rightharpoonup> tx_out) \<Rightarrow> transaction \<Rightarrow> u32 \<Rightarrow> u16 \<Rightarrow> db_row set"
where
  "tx_index_rows lib ic m tx h p =
     history_into_row ` tx_history lib ic m tx h p \<union> tx_addr_rows lib ic tx \<union> edge_into_row ` tx_edges lib tx"

definition block_index_rows :: "bitcoin_lib \<Rightarrow> indexer_config \<Rightarrow> (out_point \<rightharpoonup> tx_out) \<Rightarrow> block_entry \<Rightarrow> db_row set" where
  "block_index_rows lib ic m b =
     insert (block_into_row (block_new_done (he_hash (be_entry b))))
       (\<Union>i<length (blk_txdata (be_block b)).
          tx_index_rows lib ic m (blk_txdata (be_block b) ! i) (word_of_nat (he_height (be_entry b))) (word_of_nat i))"

definition index_keys :: "bitcoin_lib \<Rightarrow> indexer_config \<Rightarrow> (out_point \<rightharpoonup> tx_out) \<Rightarrow> block_entry list \<Rightarrow> bytes set" where
  "index_keys lib ic m blocks = row_key ` (\<Union>b\<in>set blocks. block_index_rows lib ic m b)"

lemma index_transaction_rows:
  assumes "index_transaction lib ic tx h p m op = Ok (rows, sent)"
  shows "set rows = tx_index_rows lib ic m tx h p"
proof -
  obtain rs where rs: "spending_rows lib tx h p m = Ok rs" "rows = concat (map fst (funding_rows lib ic tx h p @ rs))"
    using assms by (auto simp: index_transaction_def Let_def)
  show ?thesis unfolding rs(2) map_append concat_append set_append funding_rows_set spending_rows_set [OF rs(1)]
      tx_index_rows_def tx_history_def image_Un by (simp only: Un_ac)
qed

lemma collect_out_rows:
  assumes "collect_out f xs = Ok rs" "\<forall>x\<in>set xs. \<forall>r. f x = Ok r \<longrightarrow> set (fst r) = g x"
  shows "set (concat (map fst rs)) = (\<Union>x\<in>set xs. g x)"
proof -
  have "list_all2 (\<lambda>x r. f x = Ok r) xs rs" using assms(1) by (simp add: collect_out_Ok_iff)
  then show ?thesis using assms(2) by (induction rule: list_all2_induct) auto
qed

lemma index_blocks_rows:
  assumes "index_blocks lib ic blocks m op = Ok (rows, sent)"
  shows "set rows = (\<Union>b\<in>set blocks. block_index_rows lib ic m b)"
proof -
  have blk: "set (fst r) = block_index_rows lib ic m b" if r: "index_block lib ic m op b = Ok r" for b r
  proof -
    let ?f = "\<lambda>(idx, tx). index_transaction lib ic tx (word_of_nat (he_height (be_entry b))) (word_of_nat idx) m op"
    obtain rs where rs: "collect_out ?f (enumerate 0 (blk_txdata (be_block b))) = Ok rs"
        "fst r = concat (map fst rs) @ [block_into_row (block_new_done (he_hash (be_entry b)))]"
      using r by (auto simp: index_block_def)
    have "set (concat (map fst rs)) = (\<Union>x\<in>set (enumerate 0 (blk_txdata (be_block b))).
        tx_index_rows lib ic m (snd x) (word_of_nat (he_height (be_entry b))) (word_of_nat (fst x)))"
      by (rule collect_out_rows [OF rs(1)]) (auto dest: index_transaction_rows)
    also have "set (enumerate 0 (blk_txdata (be_block b)))
        = (\<lambda>i. (i, blk_txdata (be_block b) ! i)) ` {..<length (blk_txdata (be_block b))}"
      by (auto simp: in_set_enumerate_eq)
    finally show ?thesis unfolding rs(2) block_index_rows_def by simp
  qed
  obtain rs where "collect_out (index_block lib ic m op) blocks = Ok rs" "rows = concat (map fst rs)"
    using assms by (auto simp: index_blocks_def)
  then show ?thesis using collect_out_rows [of "index_block lib ic m op" blocks rs "block_index_rows lib ic m"] blk by simp
qed

lemma index_rows_empty_value:
  assumes "r \<in> block_index_rows lib ic m b"
  shows "row_value r = []"
  using assms
  by (auto simp: block_index_rows_def tx_index_rows_def tx_addr_rows_def history_into_row_def edge_into_row_def
      block_into_row_def block_new_done_def addr_search_row_def split: if_splits option.splits)

lemma lookup_txos_Ok:
  assumes "lookup_txos rk lib db pts False = Ok m" "pt \<in> set pts"
  shows "\<exists>t. lookup_txo rk lib db pt = Ok (Some t) \<and> m pt = Some t"
proof -
  let ?f = "\<lambda>outpoint. bind_out (lookup_txo rk lib db outpoint) (\<lambda>txo.
       case txo of Some t \<Rightarrow> Ok [(outpoint, t)] | None \<Rightarrow> if False then Ok [] else Panic ''missing txo'')"
  obtain found where f: "collect_out ?f pts = Ok found" "m = map_of (concat found)"
    using assms(1) by (auto simp: lookup_txos_def)
  then have all: "list_all2 (\<lambda>pt ts. \<exists>t. lookup_txo rk lib db pt = Ok (Some t) \<and> ts = [(pt, t)]) pts found"
    unfolding collect_out_Ok_iff by (elim list_all2_mono) (auto split: option.splits)
  then have "\<forall>x\<in>set (concat found). lookup_txo rk lib db (fst x) = Ok (Some (snd x))"
    by (induction rule: list_all2_induct) auto
  moreover have dom: "fst ` set (concat found) = set pts"
    using all by (induction rule: list_all2_induct) (auto simp: image_Un)
  moreover obtain t where "m pt = Some t"
    using f(2) dom assms(2) by (metis domD dom_map_of_conv_image_fst)
  ultimately show ?thesis using f(2) by (metis fst_conv map_of_SomeD snd_conv)
qed

text \<open>What one call of \<open>Indexer::index\<close> does to the history database, in terms of the outputs in \<open>txstore\<close>.\<close>

definition spent_outputs :: "'d rocks \<Rightarrow> bitcoin_lib \<Rightarrow> 'd \<Rightarrow> out_point \<rightharpoonup> tx_out" where
  "spent_outputs rk lib db pt = (case lookup_txo rk lib db pt of Ok t \<Rightarrow> t | _ \<Rightarrow> None)"

lemma tx_history_cong:
  assumes "\<forall>pt\<in>set (get_previous_txos lib blocks). m pt = m' pt"
    and "b \<in> set blocks" "tx \<in> set (blk_txdata (be_block b))"
  shows "tx_history lib ic m tx h p = tx_history lib ic m' tx h p"
proof -
  have "m (txi_previous_output (tx_input tx ! i)) = m' (txi_previous_output (tx_input tx ! i))"
    if "i < length (tx_input tx)" "has_prevout lib (tx_input tx ! i)" for i
    using assms that by (auto simp: get_previous_txos_def)
  then show ?thesis unfolding tx_history_def by (intro arg_cong2 [where f = "(\<union>)"] refl) metis
qed

lemma index_keys_cong:
  assumes "\<forall>pt\<in>set (get_previous_txos lib blocks). m pt = m' pt"
  shows "index_keys lib ic m blocks = index_keys lib ic m' blocks"
proof -
  have "block_index_rows lib ic m b = block_index_rows lib ic m' b" if "b \<in> set blocks" for b
    using that tx_history_cong [OF assms that] unfolding block_index_rows_def tx_index_rows_def
    by (intro arg_cong2 [where f = insert] refl SUP_cong arg_cong2 [where f = "(\<union>)"]) simp
  then show ?thesis unfolding index_keys_def by simp
qed

lemma indexer_index_history:
  assumes rk: "rocksdb rk kv" and ix: "indexer_index rk lib ic fl op blocks s = Ok (s', sent)"
  shows "kv (so_history_db s') k =
    (if k \<in> index_keys lib ic (spent_outputs rk lib (so_txstore_db s)) blocks
     then (if op = AddBlocks then Some [] else None) else kv (so_history_db s) k)"
proof -
  let ?m' = "spent_outputs rk lib (so_txstore_db s)"
  obtain m rows where m: "lookup_txos rk lib (so_txstore_db s) (get_previous_txos lib blocks) False = Ok m"
    and rows: "index_blocks lib ic blocks m op = Ok (rows, sent)"
    and "s' = (if op = AddBlocks then s\<lparr>so_history_db := db_write rk rows fl (so_history_db s)\<rparr>
               else s\<lparr>so_history_db := db_delete rk (map row_key rows) (so_history_db s)\<rparr>)"
    using ix unfolding indexer_index_def by (fastforce split: if_split_asm)
  then have s': "so_history_db s' = (if op = AddBlocks then db_write rk rows fl (so_history_db s)
              else db_delete rk (map row_key rows) (so_history_db s))"
    by simp
  have "m pt = ?m' pt" if "pt \<in> set (get_previous_txos lib blocks)" for pt
    using lookup_txos_Ok [OF m that] by (auto simp: spent_outputs_def)
  then have "index_keys lib ic m blocks = index_keys lib ic ?m' blocks" by (intro index_keys_cong) blast
  moreover have "row_key ` set rows = index_keys lib ic m blocks"
    unfolding index_keys_def index_blocks_rows [OF rows] ..
  ultimately have keys: "row_key ` set rows = index_keys lib ic ?m' blocks" by simp
  have val: "row_value r = []" if "r \<in> set rows" for r
    using that index_rows_empty_value unfolding index_blocks_rows [OF rows] by (elim UN_E) blast
  have cons: "consistent_rows rows" by (rule consistent_rowsI [where f = "\<lambda>_. []"]) (rule val)
  have "rows_map rows k = (if k \<in> row_key ` set rows then Some [] else None)"
  proof (cases "k \<in> row_key ` set rows")
    case True
    then show ?thesis using rows_map_Some [OF cons, of k "[]"] val by auto
  next
    case False
    then show ?thesis using rows_map_Some [OF cons, of k] by (cases "rows_map rows k") auto
  qed
  then show ?thesis
    using s' rocksdb.db_write_kv [OF rk cons] rocksdb.db_delete_kv [OF rk] keys
    by (simp add: map_add_def restrict_map_def)
qed

section \<open>What a reorganisation removes\<close>

text \<open>The script hashes the given blocks touch.\<close>

definition touched_scripts :: "bitcoin_lib \<Rightarrow> indexer_config \<Rightarrow> (out_point \<rightharpoonup> tx_out) \<Rightarrow> block_entry list \<Rightarrow> hash set" where
  "touched_scripts lib ic m blocks =
     (\<Union>b\<in>set blocks. \<Union>tx\<in>set (blk_txdata (be_block b)). thk_hash ` tx_history lib ic m tx 0 0)"

lemma thk_hash_keys [simp]:
  "thk_hash (funding_key lib tx h p i txo) = compute_script_hash lib (txo_script_pubkey txo)"
  "thk_hash (spending_key lib tx h p i txi txo) = compute_script_hash lib (txo_script_pubkey txo)"
  by (simp_all add: funding_key_def spending_key_def history_new_def)

lemma in_enumerate: "(i, x) \<in> set (enumerate 0 xs) \<longleftrightarrow> i < length xs \<and> x = xs ! i"
  by (auto simp: in_set_enumerate_eq)

lemma funding_scripts:
  "snd ` set (funding_rows lib ic tx h p) = thk_hash ` {funding_key lib tx h' p' i (tx_output tx ! i) | i.
      i < length (tx_output tx) \<and> (is_spendable lib (tx_output tx ! i) \<or> ic_index_unspendables ic)}"
  (is "?l = thk_hash ` ?r")
proof -
  let ?I = "{i. i < length (tx_output tx) \<and> (is_spendable lib (tx_output tx ! i) \<or> ic_index_unspendables ic)}"
  have I: "set (filter (\<lambda>(_, txo). is_spendable lib txo \<or> ic_index_unspendables ic) (enumerate 0 (tx_output tx)))
      = (\<lambda>i. (i, tx_output tx ! i)) ` ?I"
    by (auto simp: in_set_enumerate_eq)
  have "?l = (\<lambda>i. compute_script_hash lib (txo_script_pubkey (tx_output tx ! i))) ` ?I"
    unfolding funding_rows_def set_map I by (simp add: image_image Let_def)
  then show ?thesis by (simp add: setcompr_eq_image image_image)
qed

lemma spending_scripts:
  assumes "spending_rows lib tx h p m = Ok rs"
  shows "snd ` set rs = thk_hash ` {spending_key lib tx h' p' i (tx_input tx ! i) txo | i txo. i < length (tx_input tx)
        \<and> has_prevout lib (tx_input tx ! i) \<and> m (txi_previous_output (tx_input tx ! i)) = Some txo}"
proof -
  let ?xs = "filter (\<lambda>(_, txi). has_prevout lib txi) (enumerate 0 (tx_input tx))"
  have all: "list_all2 (\<lambda>x r. \<exists>txo. m (txi_previous_output (snd x)) = Some txo
      \<and> snd r = compute_script_hash lib (txo_script_pubkey txo)) ?xs rs"
    using assms unfolding spending_rows_def collect_out_Ok_iff
    by (rule list_all2_mono) (auto simp: Let_def)
  then have "snd ` set rs = {compute_script_hash lib (txo_script_pubkey txo) | x txo.
      x \<in> set ?xs \<and> m (txi_previous_output (snd x)) = Some txo}"
  proof (induction rule: list_all2_induct)
    case (Cons x xs r rs)
    then show ?case by (cases x) auto
  qed simp
  also have "\<dots> = thk_hash ` {spending_key lib tx h' p' i (tx_input tx ! i) txo | i txo. i < length (tx_input tx)
        \<and> has_prevout lib (tx_input tx ! i) \<and> m (txi_previous_output (tx_input tx ! i)) = Some txo}"
  proof (intro set_eqI iffI, goal_cases)
    case (1 sh)
    then obtain i txo where i: "sh = thk_hash (spending_key lib tx h' p' i (tx_input tx ! i) txo)"
        "i < length (tx_input tx)" "has_prevout lib (tx_input tx ! i)" "m (txi_previous_output (tx_input tx ! i)) = Some txo"
      by (auto simp: in_enumerate)
    show ?case unfolding i(1) by (rule imageI) (use i(2-4) in blast)
  next
    case (2 sh)
    then show ?case by (auto simp: in_enumerate) blast
  qed
  finally show ?thesis .
qed

lemma index_blocks_sent:
  assumes "index_blocks lib ic blocks m DeleteBlocksWithHistory = Ok (rows, sent)"
  shows "set sent = touched_scripts lib ic m blocks"
proof -
  have sw: "set (concat (map snd rs)) = (\<Union>x\<in>set xs. g x)"
    if "collect_out f xs = Ok rs" "\<forall>x\<in>set xs. \<forall>r. f x = Ok r \<longrightarrow> set (snd r) = g x"
    for f :: "'x \<Rightarrow> (error_kind, db_row list \<times> hash list) outcome" and xs rs and g
  proof -
    have "list_all2 (\<lambda>x r. f x = Ok r) xs rs" using that(1) by (simp add: collect_out_Ok_iff)
    then show ?thesis using that(2) by (induction rule: list_all2_induct) auto
  qed
  have tx: "set (snd r) = thk_hash ` tx_history lib ic m tx 0 0"
    if r: "index_transaction lib ic tx h p m DeleteBlocksWithHistory = Ok r" for tx h p r
  proof -
    obtain rs where rs: "spending_rows lib tx h p m = Ok rs" "snd r = map snd (funding_rows lib ic tx h p @ rs)"
      using r by (auto simp: index_transaction_def Let_def)
    show ?thesis unfolding rs(2) tx_history_def image_Un map_append set_append set_map
        funding_scripts [of lib ic tx h p 0 0] spending_scripts [OF rs(1), of 0 0] ..
  qed
  have blk: "set (snd r) = (\<Union>tx\<in>set (blk_txdata (be_block b)). thk_hash ` tx_history lib ic m tx 0 0)"
    if r: "index_block lib ic m DeleteBlocksWithHistory b = Ok r" for b r
  proof -
    let ?f = "\<lambda>(idx, tx). index_transaction lib ic tx (word_of_nat (he_height (be_entry b))) (word_of_nat idx) m DeleteBlocksWithHistory"
    obtain rs where rs: "collect_out ?f (enumerate 0 (blk_txdata (be_block b))) = Ok rs" "snd r = concat (map snd rs)"
      using r by (auto simp: index_block_def)
    have "set (concat (map snd rs)) = (\<Union>x\<in>set (enumerate 0 (blk_txdata (be_block b))).
        thk_hash ` tx_history lib ic m (snd x) 0 0)"
      by (rule sw [OF rs(1)]) (auto dest: tx)
    also have "\<dots> = (\<Union>tx\<in>snd ` set (enumerate 0 (blk_txdata (be_block b))). thk_hash ` tx_history lib ic m tx 0 0)"
      by simp
    also have "snd ` set (enumerate 0 (blk_txdata (be_block b))) = set (blk_txdata (be_block b))"
      by (metis map_snd_enumerate list.set_map)
    finally show ?thesis using rs(2) by simp
  qed
  obtain rs where "collect_out (index_block lib ic m DeleteBlocksWithHistory) blocks = Ok rs" "sent = concat (map snd rs)"
    using assms by (auto simp: index_blocks_def)
  then show ?thesis
    using sw [of "index_block lib ic m DeleteBlocksWithHistory" blocks rs
        "\<lambda>b. \<Union>tx\<in>set (blk_txdata (be_block b)). thk_hash ` tx_history lib ic m tx 0 0"] blk
    by (simp add: touched_scripts_def)
qed

lemma indexer_index_sent:
  assumes "indexer_index rk lib ic fl DeleteBlocksWithHistory blocks s = Ok (s', sent)"
  shows "set sent = touched_scripts lib ic (spent_outputs rk lib (so_txstore_db s)) blocks"
proof -
  let ?m' = "spent_outputs rk lib (so_txstore_db s)"
  obtain m rows where m: "lookup_txos rk lib (so_txstore_db s) (get_previous_txos lib blocks) False = Ok m"
    and rows: "index_blocks lib ic blocks m DeleteBlocksWithHistory = Ok (rows, sent)"
    using assms by (auto simp: indexer_index_def)
  have "\<forall>pt\<in>set (get_previous_txos lib blocks). m pt = ?m' pt"
    using lookup_txos_Ok [OF m] by (fastforce simp: spent_outputs_def)
  then show ?thesis unfolding index_blocks_sent [OF rows] touched_scripts_def
    by (intro SUP_cong refl) (use tx_history_cong in metis)
qed

lemma index_batches_history:
  assumes rk: "rocksdb rk kv"
  shows "index_batches rk lib ic fl DeleteBlocksWithHistory batches s = Ok (s', sent) \<Longrightarrow>
     kv (so_history_db s') k =
       (if k \<in> index_keys lib ic (spent_outputs rk lib (so_txstore_db s)) (concat batches) then None
        else kv (so_history_db s) k)
     \<and> set sent = touched_scripts lib ic (spent_outputs rk lib (so_txstore_db s)) (concat batches)"
proof (induction batches arbitrary: s sent)
  case Nil
  then show ?case by (simp add: index_keys_def touched_scripts_def)
next
  case (Cons b bs)
  then obtain s1 sent1 sent2 where st: "indexer_index rk lib ic fl DeleteBlocksWithHistory b s = Ok (s1, sent1)"
      "index_batches rk lib ic fl DeleteBlocksWithHistory bs s1 = Ok (s', sent2)" "sent = sent1 @ sent2"
    by auto
  have tx: "so_txstore_db s1 = so_txstore_db s"
    using indexer_index_effect [OF st(1)] by (metis store.select_convs(1) store.update_convs(2) store.surjective)
  have "set sent1 = touched_scripts lib ic (spent_outputs rk lib (so_txstore_db s)) b"
    by (rule indexer_index_sent [OF st(1)])
  then show ?case using Cons.IH [OF st(2)] indexer_index_history [OF rk st(1), of k] st(3)
    unfolding tx by (simp add: index_keys_def touched_scripts_def image_Un)
qed

lemma add_batches_delete:
  assumes rk: "rocksdb rk kv"
  shows "kv (so_txstore_db (add_batches rk lib ic fl DeleteBlocks batches s)) k =
     (if k \<in> row_key ` set (add_blocks lib ic (concat batches)) then None else kv (so_txstore_db s) k)
    \<and> so_cache_db (add_batches rk lib ic fl DeleteBlocks batches s) = so_cache_db s"
proof (induction batches arbitrary: s)
  case Nil
  then show ?case by (simp add: add_batches_def add_blocks_def)
next
  case (Cons b bs)
  let ?s = "indexer_add rk lib ic fl DeleteBlocks b s"
  have "kv (so_txstore_db ?s) k = (if k \<in> row_key ` set (add_blocks lib ic b) then None else kv (so_txstore_db s) k)"
    by (simp add: indexer_add_def Let_def rocksdb.db_delete_kv [OF rk] restrict_map_def)
  moreover have "so_cache_db ?s = so_cache_db s" by (simp add: indexer_add_def Let_def)
  moreover have "add_batches rk lib ic fl DeleteBlocks (b # bs) s = add_batches rk lib ic fl DeleteBlocks bs ?s"
    by (simp add: add_batches_def)
  ultimately show ?case using Cons.IH [of ?s] by (simp add: add_blocks_def image_Un)
qed

lemma clear_caches_kv:
  assumes "rocksdb rk kv"
  shows "kv (clear_caches rk scripts db) k =
    (if k \<in> stats_cache_key ` set scripts \<union> utxo_cache_key ` set scripts then None else kv db k)"
proof (induction scripts arbitrary: db)
  case (Cons sh scripts)
  let ?db = "db_delete rk [stats_cache_key sh, utxo_cache_key sh] db"
  have "kv ?db = kv db |` (- {stats_cache_key sh, utxo_cache_key sh})"
    unfolding rocksdb.db_delete_kv [OF assms] by simp
  then have "kv ?db k = (if k \<in> {stats_cache_key sh, utxo_cache_key sh} then None else kv db k)"
    by (simp add: restrict_map_def)
  then show ?case using Cons.IH [of ?db] unfolding clear_caches_def foldl_Cons by auto
qed (simp add: clear_caches_def)

lemma reorg_exact:
  assumes "rocksdb rk kv" and "reorg rk lib bd ic fl reorged s = Ok s'"
  shows "\<exists>batches. bitcoind_fetcher lib bd reorged = Ok batches
    \<and> (\<forall>k. kv (so_history_db s') k =
         (if k \<in> index_keys lib ic (spent_outputs rk lib (so_txstore_db s)) (concat batches) then None
          else kv (so_history_db s) k))
    \<and> (\<forall>k. kv (so_txstore_db s') k =
         (if k \<in> row_key ` set (add_blocks lib ic (concat batches)) then None else kv (so_txstore_db s) k))
    \<and> (\<forall>k. kv (so_cache_db s') k =
         (let scripts = touched_scripts lib ic (spent_outputs rk lib (so_txstore_db s)) (concat batches)
          in if k \<in> stats_cache_key ` scripts \<union> utxo_cache_key ` scripts then None else kv (so_cache_db s) k))
    \<and> so_added_blockhashes s' = so_added_blockhashes s - he_hash ` set reorged"
proof -
  obtain batches s1 scripts where r: "bitcoind_fetcher lib bd reorged = Ok batches"
      "index_batches rk lib ic fl DeleteBlocksWithHistory batches s = Ok (s1, scripts)"
      "s' = (add_batches rk lib ic fl DeleteBlocks batches s1)
         \<lparr>so_cache_db := clear_caches rk scripts (so_cache_db (add_batches rk lib ic fl DeleteBlocks batches s1))\<rparr>"
    using assms(2) by (auto simp: reorg_def Let_def)
  have "s1 = s\<lparr>so_history_db := so_history_db s1\<rparr>" by (rule index_batches_effect [OF r(2)])
  then have s1: "so_txstore_db s1 = so_txstore_db s" "so_cache_db s1 = so_cache_db s"
    by (metis store.select_convs(1,3) store.update_convs(2) store.surjective)+
  note h = index_batches_history [OF assms(1) r(2)] and d = add_batches_delete [OF assms(1)]
  show ?thesis
    using r(1) h reorg_effect(3) [OF assms(2)] r(3) s1 d
    by (intro exI [of _ batches]) (simp add: add_batches_effect(4) clear_caches_kv [OF assms(1)] Let_def)
qed


lemma index_empty_batches:
  assumes rk: "rocksdb rk kv"
  shows "index_batches rk lib ic fl op batches s = Ok (s', sent) \<Longrightarrow> \<forall>b\<in>set batches. b = []
    \<Longrightarrow> kv (so_history_db s') k = kv (so_history_db s) k"
proof (induction batches arbitrary: s sent)
  case (Cons b bs)
  then obtain s1 sent1 sent2 where st: "indexer_index rk lib ic fl op [] s = Ok (s1, sent1)"
      "index_batches rk lib ic fl op bs s1 = Ok (s', sent2)" by auto
  have "kv (so_history_db s1) k = kv (so_history_db s) k"
    using indexer_index_history [OF rk st(1), of k] by (simp add: index_keys_def)
  then show ?case using Cons.IH [OF st(2)] Cons.prems(2) by simp
qed simp

lemma addr_key_indexed:
  assumes "tx \<in> block_txs blocks" "row \<in> tx_addr_rows lib ic tx"
  shows "row_key row \<in> index_keys lib ic m blocks"
proof -
  obtain b i where "b \<in> set blocks" "i < length (blk_txdata (be_block b))" "tx = blk_txdata (be_block b) ! i"
    using assms(1) by (auto simp: in_set_conv_nth)
  then have "row \<in> block_index_rows lib ic m b"
    using assms(2) unfolding block_index_rows_def tx_index_rows_def by blast
  then show ?thesis unfolding index_keys_def using \<open>b \<in> set blocks\<close> by blast
qed

end
