(* ===== verification/Store_Complete.thy ===== *)
theory Store_Complete
  imports Indexer
begin

text \<open>
  What it means that a block is in \<open>txstore\<close>: every row \<^verbatim>\<open>add_blocks\<close> makes of it is there with its value. The lemmas
  follow these rows through the operations of \<open>Indexer\<close>: fetching, adding, deleting abandoned blocks, and the rows
  that are no part of a block.
\<close>

section \<open>Stored blocks\<close>

definition rows_stored :: "(bytes \<rightharpoonup> bytes) \<Rightarrow> bitcoin_lib \<Rightarrow> indexer_config \<Rightarrow> block_entry \<Rightarrow> bool" where
  "rows_stored m lib ic b \<longleftrightarrow> (\<forall>r\<in>set (add_block lib ic b). m (row_key r) = Some (row_value r))"

text \<open>
  The store is complete: the blocks marked as added are those of the header list, and of each of them, \<open>block_of\<close> its
  hash, all rows are stored. The size in the metadata is what the fetcher measured.
\<close>

definition store_complete ::
  "('d \<Rightarrow> bytes \<rightharpoonup> bytes) \<Rightarrow> bitcoin_lib \<Rightarrow> indexer_config \<Rightarrow> (hash \<Rightarrow> block) \<Rightarrow> 'd store \<Rightarrow> bool"
where
  "store_complete kv lib ic block_of s \<longleftrightarrow>
     so_added_blockhashes s = he_hash ` set (hl_headers (so_indexed_headers s))
     \<and> (\<forall>e\<in>set (hl_headers (so_indexed_headers s)).
          \<exists>size. rows_stored (kv (so_txstore_db s)) lib ic \<lparr>be_block = block_of (he_hash e), be_entry = e, be_size = size\<rparr>)"

text \<open>
  The blocks at hand: each hash has 32 bytes and each transaction id identifies its transaction, among the blocks
  with the given hashes.
\<close>

definition ids_ok :: "bitcoin_lib \<Rightarrow> (hash \<Rightarrow> block) \<Rightarrow> hash set \<Rightarrow> bool" where
  "ids_ok lib block_of hs \<longleftrightarrow>
     (\<forall>h\<in>hs. hash_ok h)
     \<and> inj_on (get_txid lib) (\<Union>h\<in>hs. set (blk_txdata (block_of h)))
     \<and> (\<forall>h\<in>hs. \<forall>tx\<in>set (blk_txdata (block_of h)). hash_ok (get_txid lib tx) \<and> length (tx_output tx) < 2 ^ 32)"

lemma ids_ok_subset: "ids_ok lib block_of hs \<Longrightarrow> hs' \<subseteq> hs \<Longrightarrow> ids_ok lib block_of hs'"
  unfolding ids_ok_def by (meson UN_mono inj_on_subset subsetD subset_refl)

text \<open>No transaction is in two blocks of a chain (BIP 30).\<close>

definition txs_disjoint :: "bitcoin_lib \<Rightarrow> (hash \<Rightarrow> block) \<Rightarrow> hash set \<Rightarrow> bool" where
  "txs_disjoint lib block_of hs \<longleftrightarrow>
     (\<forall>g\<in>hs. \<forall>h\<in>hs. g \<noteq> h \<longrightarrow>
        get_txid lib ` set (blk_txdata (block_of g)) \<inter> get_txid lib ` set (blk_txdata (block_of h)) = {})"

text \<open>The node and its files deliver the block of each hash.\<close>

definition delivers_blocks ::
  "bitcoin_lib \<Rightarrow> bitcoind \<Rightarrow> u32 \<times> bytes option \<times> bytes list \<Rightarrow> (hash \<Rightarrow> block) \<Rightarrow> bool"
where
  "delivers_blocks lib bd files block_of \<longleftrightarrow>
     (\<forall>hs bs. bd_getblocks bd hs = Ok bs \<longrightarrow> bs = map block_of hs)
     \<and> (\<forall>blob\<in>set (snd (snd files)). \<forall>bs.
          parse_blocks lib (case fst (snd files) of None \<Rightarrow> blob | Some k \<Rightarrow> xor_blob k blob) (fst files) = Ok bs \<longrightarrow>
          (\<forall>(b, sz)\<in>set bs. b = block_of (lib_block_hash lib (blk_header b))))"

section \<open>Fetched blocks\<close>

definition fetched_ok :: "(hash \<Rightarrow> block) \<Rightarrow> header_entry list \<Rightarrow> block_entry list \<Rightarrow> bool" where
  "fetched_ok block_of headers bs \<longleftrightarrow>
     (\<forall>x\<in>set bs. be_entry x \<in> set headers \<and> be_block x = block_of (he_hash (be_entry x)))
     \<and> inj_on (\<lambda>x. he_hash (be_entry x)) (set bs)"

lemma fetch_chunk_blocks:
  assumes "fetch_chunk lib bd es = Ok bs" "\<forall>hs bs. bd_getblocks bd hs = Ok bs \<longrightarrow> bs = map block_of hs" "x \<in> set bs"
  shows "be_block x = block_of (he_hash (be_entry x))"
proof -
  obtain blocks where b: "bd_getblocks bd (map he_hash es) = Ok blocks"
      "bs = map (\<lambda>(b, entry). \<lparr>be_block = b, be_entry = entry, be_size = word_of_nat (get_block_size lib b)\<rparr>) (zip blocks es)"
    using assms(1) by (auto simp: fetch_chunk_def split: outcome.splits if_splits)
  have "blocks = map (\<lambda>e. block_of (he_hash e)) es" using assms(2) [rule_format, OF b(1)] by simp
  then show ?thesis using b(2) assms(3) by (auto simp: set_zip)
qed

lemma bitcoind_fetched:
  assumes "bitcoind_fetcher lib bd headers = Ok batches" "delivers_blocks lib bd files block_of"
    and "distinct (map he_hash headers)"
  shows "map be_entry (concat batches) = headers" and "fetched_ok block_of headers (concat batches)"
proof -
  have all: "list_all2 (\<lambda>es bs. fetch_chunk lib bd es = Ok bs) (chunks 100 headers) batches"
    using assms(1) by (simp add: bitcoind_fetcher_def collect_out_Ok_iff)
  then have "map (map be_entry) batches = chunks 100 headers"
    by (induction rule: list_all2_induct) (auto simp: fetch_chunk_entries)
  then show e: "map be_entry (concat batches) = headers" by (simp add: map_concat concat_chunks)
  have "\<forall>x\<in>set (concat batches). be_block x = block_of (he_hash (be_entry x))"
    using all assms(2) by (induction rule: list_all2_induct) (auto simp: delivers_blocks_def fetch_chunk_blocks)
  moreover have "distinct (map (\<lambda>x. he_hash (be_entry x)) (concat batches))"
    using assms(3) e by (metis (no_types, lifting) list.map_comp comp_def map_eq_conv)
  ultimately show "fetched_ok block_of headers (concat batches)"
    using e unfolding fetched_ok_def by (metis (no_types, lifting) distinct_map image_eqI list.set_map)
qed

lemma select_blocks_inj:
  assumes "entry_keyed m" "select_blocks lib m bs = (es, m')"
  shows "inj_on (\<lambda>x. he_hash (be_entry x)) (set es) \<and> (\<forall>x\<in>set es. m' (he_hash (be_entry x)) = None)
    \<and> (\<forall>x\<in>set es. he_hash (be_entry x) = lib_block_hash lib (blk_header (be_block x)) \<and> be_block x \<in> fst ` set bs)"
  using assms
proof (induction bs arbitrary: m es)
  case (Cons b bs)
  obtain blk sz where b: "b = (blk, sz)" by (cases b)
  let ?h = "lib_block_hash lib (blk_header blk)"
  show ?case
  proof (cases "m ?h")
    case None
    then have "select_blocks lib m bs = (es, m')" using Cons.prems(2) b by simp
    from Cons.IH [OF Cons.prems(1) this] show ?thesis by auto
  next
    case (Some e)
    obtain es' where es': "select_blocks lib (m(?h := None)) bs = (es', m')"
        "es = \<lparr>be_block = blk, be_entry = e, be_size = sz\<rparr> # es'"
      using Cons.prems(2) b Some by (auto simp: Let_def split: prod.splits)
    have he: "he_hash e = ?h" using Cons.prems(1) Some by (simp add: entry_keyed_def)
    have keyed: "entry_keyed (m(?h := None))" using Cons.prems(1) by (simp add: entry_keyed_def)
    note ih = Cons.IH [OF keyed es'(1)] and spec = select_blocks_spec [OF keyed es'(1)]
    have fresh: "he_hash (be_entry x) \<noteq> he_hash e" if "x \<in> set es'" for x
      using spec that unfolding he by (metis fun_upd_same option.distinct(1))
    have "inj_on (\<lambda>x. he_hash (be_entry x)) (set es)"
      unfolding es'(2) list.set(2) inj_on_insert using ih fresh by fastforce
    moreover have "m' ?h = None" using spec by (metis fun_upd_same not_None_eq)
    then have "\<forall>x\<in>set es. m' (he_hash (be_entry x)) = None" using ih he es'(2) by (metis block_entry.select_convs(2) set_ConsD)
    moreover have "he_hash (be_entry x) = lib_block_hash lib (blk_header (be_block x)) \<and> be_block x \<in> fst ` set (b # bs)"
      if "x \<in> set es" for x using that ih he es'(2) b by auto
    ultimately show ?thesis by blast
  qed
qed simp

lemma select_batches_inj:
  assumes "entry_keyed m" "select_batches lib m bss = (ess, m')"
  shows "inj_on (\<lambda>x. he_hash (be_entry x)) (set (concat ess))
    \<and> (\<forall>x\<in>set (concat ess). he_hash (be_entry x) = lib_block_hash lib (blk_header (be_block x)) \<and> be_block x \<in> fst ` set (concat bss))"
  using assms
proof (induction bss arbitrary: m ess)
  case (Cons bs bss)
  obtain es m1 ess' where s: "select_blocks lib m bs = (es, m1)" "select_batches lib m1 bss = (ess', m')" "ess = es # ess'"
    using Cons.prems(2) by (auto split: prod.splits)
  note s1 = select_blocks_inj [OF Cons.prems(1) s(1)]
  have k1: "entry_keyed m1" using select_blocks_spec [OF Cons.prems(1) s(1)] Cons.prems(1) unfolding entry_keyed_def by blast
  note ih = Cons.IH [OF k1 s(2)] and later = select_batches_spec [OF k1 s(2)]
  have "he_hash (be_entry x) \<noteq> he_hash (be_entry y)" if "x \<in> set es" "y \<in> set (concat ess')" for x y
    using s1 later that by (metis option.distinct(1))
  then have "inj_on (\<lambda>x. he_hash (be_entry x)) (set es \<union> set (concat ess'))"
    using s1 ih by (subst inj_on_Un) blast
  moreover have "be_block x \<in> fst ` set (concat (bs # bss))" "he_hash (be_entry x) = lib_block_hash lib (blk_header (be_block x))"
    if "x \<in> set es \<union> set (concat ess')" for x
    using s1 ih that unfolding concat.simps set_append image_Un by blast+
  ultimately show ?case unfolding s(3) concat.simps set_append by blast
qed simp

lemma fetcher_fetched:
  assumes f: "start_fetcher lib bd files from headers = Ok batches" and d: "delivers_blocks lib bd files block_of"
    and dis: "distinct (map he_hash headers)"
  shows "fetched_ok block_of headers (concat batches)"
proof (cases "from")
  case Bitcoind
  then show ?thesis using bitcoind_fetched(2) [OF _ d dis] f by (simp add: start_fetcher_def)
next
  case BlkFiles
  let ?m = "map_of (rev (map (\<lambda>h. (he_hash h, h)) headers))"
  let ?f = "\<lambda>blob. case parse_blocks lib (case fst (snd files) of None \<Rightarrow> blob | Some k \<Rightarrow> xor_blob k blob) (fst files) of
       Err e \<Rightarrow> Panic ''failed to parse blk*.dat file'' | r \<Rightarrow> r"
  obtain fs where fs0: "collect_out ?f (snd (snd files)) = Ok fs"
    and "(case select_batches lib ?m fs of (batches, entry_map) \<Rightarrow>
      if entry_map \<noteq> Map.empty then Panic ''failed to index blocks from blk*.dat files'' else Ok batches)
      = (Ok batches :: (error_kind, block_entry list list) outcome)"
    using f BlkFiles by (auto simp: start_fetcher_def blkfiles_fetcher_def Let_def)
  then have fs: "select_batches lib ?m fs = (batches, Map.empty)"
    by (cases "select_batches lib ?m fs") (auto split: if_splits)
  have m: "he_hash e = h \<and> e \<in> set headers" if "?m h = Some e" for h e using that by (auto dest!: map_of_SomeD)
  then have keyed: "entry_keyed ?m" unfolding entry_keyed_def by blast
  note inj = select_batches_inj [OF keyed fs] and spec = select_batches_spec [OF keyed fs]
  have "list_all2 (\<lambda>blob bs. ?f blob = Ok bs) (snd (snd files)) fs" using fs0 by (simp add: collect_out_Ok_iff)
  then have from_file: "\<exists>blob\<in>set (snd (snd files)). ?f blob = Ok bs" if "bs \<in> set fs" for bs
    using that by (auto simp: list_all2_conv_all_nth in_set_conv_nth) (metis nth_mem)
  have genuine: "fst x = block_of (lib_block_hash lib (blk_header (fst x)))" if "x \<in> set (concat fs)" for x
  proof -
    obtain bs where "bs \<in> set fs" "x \<in> set bs" using \<open>x \<in> set (concat fs)\<close> by auto
    with from_file obtain blob where bs: "x \<in> set bs" "blob \<in> set (snd (snd files))" "?f blob = Ok bs" by blast
    then have "parse_blocks lib (case fst (snd files) of None \<Rightarrow> blob | Some k \<Rightarrow> xor_blob k blob) (fst files) = Ok bs"
      by (simp split: outcome.splits)
    then have "\<forall>(b, sz)\<in>set bs. b = block_of (lib_block_hash lib (blk_header b))" using d bs(2) unfolding delivers_blocks_def by blast
    then show ?thesis using bs(1) by (auto simp: case_prod_beta)
  qed
  have "be_block x = block_of (he_hash (be_entry x))" if "x \<in> set (concat batches)" for x
  proof -
    have h: "he_hash (be_entry x) = lib_block_hash lib (blk_header (be_block x))" "be_block x \<in> fst ` set (concat fs)"
      using inj that by blast+
    then obtain y where "y \<in> set (concat fs)" "be_block x = fst y" by blast
    then show ?thesis using genuine h(1) by metis
  qed
  moreover have "be_entry x \<in> set headers" if "x \<in> set (concat batches)" for x using spec m that by blast
  ultimately show ?thesis using inj unfolding fetched_ok_def by blast
qed

section \<open>Rows that are written and deleted\<close>

lemma ids_unique_subset:
  assumes "ids_unique lib xs" "set ys \<subseteq> set xs"
  shows "ids_unique lib ys"
proof -
  have "block_txs ys \<subseteq> block_txs xs" using assms(2) by blast
  then show ?thesis using assms unfolding ids_unique_def by (meson inj_on_subset subsetD)
qed

lemma rows_stored_add:
  assumes rk: "rocksdb rk kv" and ids: "ids_unique lib (old @ blocks)"
    and stored: "\<forall>x\<in>set old. rows_stored (kv (so_txstore_db s)) lib ic x" and x: "x \<in> set (old @ blocks)"
  shows "rows_stored (kv (so_txstore_db (indexer_add rk lib ic fl AddBlocks blocks s))) lib ic x"
  unfolding rows_stored_def
proof
  fix r assume r: "r \<in> set (add_block lib ic x)"
  have sub: "ids_unique lib blocks" by (rule ids_unique_subset [OF ids]) simp
  have all: "consistent_rows (add_blocks lib ic (old @ blocks))" by (rule add_blocks_consistent [OF ids])
  have mem: "r \<in> set (add_blocks lib ic (old @ blocks))" using r x by (auto simp: add_blocks_def)
  note new = rows_map_Some [OF add_blocks_consistent [OF sub, of ic]]
  note kv = indexer_add_kv [OF rk sub, of ic fl s]
  show "kv (so_txstore_db (indexer_add rk lib ic fl AddBlocks blocks s)) (row_key r) = Some (row_value r)"
  proof (cases "rows_map (add_blocks lib ic blocks) (row_key r)")
    case None
    then have "r \<notin> set (add_blocks lib ic blocks)" using new [of "row_key r"] by fastforce
    then have "x \<in> set old" using r x by (auto simp: add_blocks_def)
    then show ?thesis using stored r None unfolding kv rows_stored_def by (simp add: map_add_def)
  next
    case (Some v)
    then obtain r' where r': "r' \<in> set (add_blocks lib ic blocks)" "row_key r' = row_key r" "row_value r' = v" using new by blast
    have "r' \<in> set (add_blocks lib ic (old @ blocks))" using r'(1) by (simp add: add_blocks_def)
    then have "row_value r' = row_value r" using all mem r'(2) unfolding consistent_rows_def by blast
    then show ?thesis using Some r'(3) unfolding kv by (simp add: map_add_def)
  qed
qed

lemma rows_stored_add_batches:
  assumes "rocksdb rk kv" "ids_unique lib (old @ concat batches)"
    and "\<forall>x\<in>set old. rows_stored (kv (so_txstore_db s)) lib ic x" "x \<in> set (old @ concat batches)"
  shows "rows_stored (kv (so_txstore_db (add_batches rk lib ic fl AddBlocks batches s))) lib ic x"
  using assms
proof (induction batches arbitrary: old s)
  case (Cons b bs)
  let ?s = "indexer_add rk lib ic fl AddBlocks b s"
  have ids: "ids_unique lib (old @ b)" by (rule ids_unique_subset [OF Cons.prems(2)]) auto
  have "\<forall>y\<in>set (old @ b). rows_stored (kv (so_txstore_db ?s)) lib ic y"
    using rows_stored_add [OF Cons.prems(1) ids Cons.prems(3)] by blast
  then have "rows_stored (kv (so_txstore_db (add_batches rk lib ic fl AddBlocks bs ?s))) lib ic x"
    using Cons.IH [OF Cons.prems(1), of "old @ b" ?s] Cons.prems(2,4) by simp
  then show ?case by (simp add: add_batches_def)
qed (simp add: add_batches_def)

lemmas block_row_defs = add_block_def add_transaction_def row_key_defs Let_def

text \<open>Rows of other kinds never have the key of a row of a block.\<close>

lemma block_row_code: "r \<in> set (add_block lib ic x) \<Longrightarrow> hd (row_key r) \<in> {0x43, 0x54, 0x4f, 0x58, 0x4d, 0x42, 0x44}"
  by (auto simp: block_row_defs split: if_splits)

lemma rows_stored_cong:
  assumes "\<And>k. k \<noteq> [0x74] \<Longrightarrow> k \<noteq> [0x46] \<Longrightarrow> m' k = m k" "rows_stored m lib ic x"
  shows "rows_stored m' lib ic x"
  unfolding rows_stored_def
proof
  fix r assume r: "r \<in> set (add_block lib ic x)"
  have "row_key r \<noteq> [0x74]" "row_key r \<noteq> [0x46]" using block_row_code [OF r] by auto
  then show "m' (row_key r) = Some (row_value r)" using assms r unfolding rows_stored_def by simp
qed

text \<open>Blocks without a common hash or transaction have no common row.\<close>

lemma block_keys_disjoint:
  assumes hash: "he_hash (be_entry x) \<noteq> he_hash (be_entry y)" "hash_ok (he_hash (be_entry x))" "hash_ok (he_hash (be_entry y))"
    and tx: "get_txid lib ` set (blk_txdata (be_block x)) \<inter> get_txid lib ` set (blk_txdata (be_block y)) = {}"
    and len: "\<forall>tx\<in>set (blk_txdata (be_block x)) \<union> set (blk_txdata (be_block y)). hash_ok (get_txid lib tx)"
    and rows: "r \<in> set (add_block lib ic x)" "r' \<in> set (add_block lib ic y)"
  shows "row_key r \<noteq> row_key r'"
proof
  assume eq: "row_key r = row_key r'"
  have txs: "get_txid lib t \<noteq> get_txid lib t'" if "t \<in> set (blk_txdata (be_block x))" "t' \<in> set (blk_txdata (be_block y))" for t t'
    using tx that by blast
  have lens: "length (get_txid lib t) = 32" if "t \<in> set (blk_txdata (be_block x)) \<union> set (blk_txdata (be_block y))" for t
    using len that by blast
  show False using rows eq hash(1) txs lens by (auto simp: block_row_defs split: if_splits)
qed

section \<open>An update\<close>

abbreviation indexed_entries :: "'d store \<Rightarrow> header_entry list" where
  "indexed_entries s \<equiv> hl_headers (so_indexed_headers s)"

definition entry_stored ::
  "('d \<Rightarrow> bytes \<rightharpoonup> bytes) \<Rightarrow> bitcoin_lib \<Rightarrow> indexer_config \<Rightarrow> (hash \<Rightarrow> block) \<Rightarrow> 'd store \<Rightarrow> header_entry \<Rightarrow> bool"
where
  "entry_stored kv lib ic block_of s e \<longleftrightarrow>
     (\<exists>size. rows_stored (kv (so_txstore_db s)) lib ic \<lparr>be_block = block_of (he_hash e), be_entry = e, be_size = size\<rparr>)"

lemma store_complete_iff:
  "store_complete kv lib ic block_of s \<longleftrightarrow>
     so_added_blockhashes s = he_hash ` set (indexed_entries s) \<and> (\<forall>e\<in>set (indexed_entries s). entry_stored kv lib ic block_of s e)"
  by (simp add: store_complete_def entry_stored_def)

text \<open>Deleting abandoned blocks leaves the rows of the others.\<close>

lemma reorg_keeps_stored:
  assumes rk: "rocksdb rk kv" and re: "reorg rk lib bd ic fl reorged s = Ok s'" and d: "delivers_blocks lib bd files block_of"
    and ids: "ids_ok lib block_of hs" and tx: "txs_disjoint lib block_of hs"
    and e: "he_hash e \<in> hs" "he_hash ` set reorged \<subseteq> hs" "he_hash e \<notin> he_hash ` set reorged" "distinct (map he_hash reorged)"
    and st: "entry_stored kv lib ic block_of s e"
  shows "entry_stored kv lib ic block_of s' e"
proof -
  obtain batches where b: "bitcoind_fetcher lib bd reorged = Ok batches"
    and kv: "\<And>k. kv (so_txstore_db s') k = (if k \<in> row_key ` set (add_blocks lib ic (concat batches)) then None else kv (so_txstore_db s) k)"
    using reorg_exact [OF rk re] by blast
  note f = bitcoind_fetched [OF b d e(4)]
  obtain size where rows: "rows_stored (kv (so_txstore_db s)) lib ic \<lparr>be_block = block_of (he_hash e), be_entry = e, be_size = size\<rparr>"
    using st by (auto simp: entry_stored_def)
  have "row_key r \<notin> row_key ` set (add_blocks lib ic (concat batches))"
    if r: "r \<in> set (add_block lib ic \<lparr>be_block = block_of (he_hash e), be_entry = e, be_size = size\<rparr>)" for r
  proof
    assume "row_key r \<in> row_key ` set (add_blocks lib ic (concat batches))"
    then obtain y r' where y: "y \<in> set (concat batches)" "r' \<in> set (add_block lib ic y)" "row_key r = row_key r'"
      by (auto simp: add_blocks_def)
    have y': "be_entry y \<in> set reorged" "be_block y = block_of (he_hash (be_entry y))"
      using f(2) y(1) unfolding fetched_ok_def by blast+
    have g: "he_hash (be_entry y) \<in> hs" "he_hash e \<noteq> he_hash (be_entry y)" using y'(1) e(2,3) by auto
    have "row_key r \<noteq> row_key r'"
    proof (rule block_keys_disjoint [OF _ _ _ _ _ r y(2)])
      show "get_txid lib ` set (blk_txdata (be_block \<lparr>be_block = block_of (he_hash e), be_entry = e, be_size = size\<rparr>))
          \<inter> get_txid lib ` set (blk_txdata (be_block y)) = {}"
        using tx e(1) g y'(2) unfolding txs_disjoint_def by simp
    qed (use ids e(1) g y'(2) in \<open>auto simp: ids_ok_def\<close>)
    then show False using y(3) by simp
  qed
  then have "rows_stored (kv (so_txstore_db s')) lib ic \<lparr>be_block = block_of (he_hash e), be_entry = e, be_size = size\<rparr>"
    using rows unfolding rows_stored_def kv by simp
  then show ?thesis by (auto simp: entry_stored_def)
qed

lemma entry_stored_cong:
  assumes "\<And>k. k \<noteq> [0x74] \<Longrightarrow> k \<noteq> [0x46] \<Longrightarrow> kv (so_txstore_db s') k = kv (so_txstore_db s) k" "entry_stored kv lib ic block_of s e"
  shows "entry_stored kv lib ic block_of s' e"
  using assms(2) rows_stored_cong [where m = "kv (so_txstore_db s)" and m' = "kv (so_txstore_db s')", OF assms(1)]
  unfolding entry_stored_def by blast

lemma set_tip_kv: "rocksdb rk kv \<Longrightarrow> k \<noteq> [0x74] \<Longrightarrow> kv (so_txstore_db (set_tip rk t s)) k = kv (so_txstore_db s) k"
  using rocksdb.db_delete_kv [of rk kv "[[0x74]]"]
  by (cases t) (simp_all add: set_tip_def db_put_sync_def rocksdb.put_kv restrict_map_def)

lemma update_headers_stored:
  assumes rk: "rocksdb rk kv" and up: "update_headers rk lib bd ix tip new = Ok s" and d: "delivers_blocks lib bd files block_of"
    and comp: "store_complete kv lib (ix_iconfig ix) block_of (ix_store ix)"
    and dis: "distinct (map he_hash (indexed_entries (ix_store ix)))"
    and ids: "ids_ok lib block_of (he_hash ` set (indexed_entries (ix_store ix)))"
    and tx: "txs_disjoint lib block_of (he_hash ` set (indexed_entries (ix_store ix)))"
  obtains keep where "indexed_entries s = keep @ new" "so_added_blockhashes s = he_hash ` set keep"
    "\<forall>e\<in>set keep. entry_stored kv lib (ix_iconfig ix) block_of s e"
proof -
  let ?hl = "so_indexed_headers (ix_store ix)" and ?old = "indexed_entries (ix_store ix)"
  obtain hl' reorged rb where app: "hl_apply ?hl new = Ok (hl', reorged, rb)"
    and st: "(if reorged \<noteq> [] then reorg rk lib bd (ix_iconfig ix) (ix_flush ix) reorged
                 (set_tip rk rb ((ix_store ix)\<lparr>so_indexed_headers := hl'\<rparr>))
               else Ok ((ix_store ix)\<lparr>so_indexed_headers := hl'\<rparr>)) = Ok s"
    using up by (auto simp: update_headers_def Let_def split: if_splits)
  obtain k where k: "hl_headers hl' = take k ?old @ new" "reorged = rev (drop k ?old)"
  proof (cases "new = []")
    case True
    then show ?thesis using app that [of "length ?old"] by simp
  next
    case False
    then show ?thesis using hl_apply_Ok_iff [OF False, THEN iffD1, OF app] that by blast
  qed
  have parts: "distinct (map he_hash (take k ?old) @ map he_hash (drop k ?old))"
    using dis by (metis append_take_drop_id map_append)
  have sep: "he_hash ` set (take k ?old) \<inter> he_hash ` set reorged = {}" "distinct (map he_hash reorged)"
    using parts unfolding k(2) distinct_append by (simp_all flip: rev_map)
  have old: "he_hash ` set ?old = he_hash ` set (take k ?old) \<union> he_hash ` set reorged"
    unfolding k(2) by (metis append_take_drop_id image_Un set_append set_rev)
  have s: "so_indexed_headers s = hl'" "so_added_blockhashes s = so_added_blockhashes (ix_store ix) - he_hash ` set reorged"
    using st reorg_effect by (fastforce split: if_splits)+
  have added: "so_added_blockhashes (ix_store ix) = he_hash ` set ?old"
    and stored: "\<And>e. e \<in> set ?old \<Longrightarrow> entry_stored kv lib (ix_iconfig ix) block_of (ix_store ix) e"
    using comp by (simp_all add: store_complete_iff)
  have "entry_stored kv lib (ix_iconfig ix) block_of s e" if e: "e \<in> set (take k ?old)" for e
  proof -
    have eold: "e \<in> set ?old" using e by (rule in_set_takeD)
    let ?s1 = "(ix_store ix)\<lparr>so_indexed_headers := hl'\<rparr>"
    show ?thesis
    proof (cases "reorged = []")
      case True
      then have "so_txstore_db s = so_txstore_db (ix_store ix)" using st by auto
      then show ?thesis using stored [OF eold] by (simp add: entry_stored_def)
    next
      case False
      then have re: "reorg rk lib bd (ix_iconfig ix) (ix_flush ix) reorged (set_tip rk rb ?s1) = Ok s" using st by simp
      have "entry_stored kv lib (ix_iconfig ix) block_of (set_tip rk rb ?s1) e"
        by (rule entry_stored_cong [OF _ stored [OF eold]]) (simp add: set_tip_kv [OF rk])
      from reorg_keeps_stored [OF rk re d ids tx _ _ _ sep(2) this] show ?thesis using e eold sep(1) old by auto
    qed
  qed
  moreover have "so_added_blockhashes s = he_hash ` set (take k ?old)" using sep(1) unfolding s(2) added old by auto
  ultimately show ?thesis using that [of "take k ?old"] s(1) k(1) by simp
qed

lemma kept_and_fetched_unique:
  assumes f: "fetched_ok block_of new bs" and dis: "distinct (map he_hash (keep @ new))"
    and ids: "ids_ok lib block_of (he_hash ` set (keep @ new))"
  shows "ids_unique lib (map (\<lambda>e. \<lparr>be_block = block_of (he_hash e), be_entry = e, be_size = sz e\<rparr>) keep @ bs)"
proof -
  let ?x = "\<lambda>e. \<lparr>be_block = block_of (he_hash e), be_entry = e, be_size = sz e\<rparr>"
  have blk: "be_block x = block_of (he_hash (be_entry x)) \<and> he_hash (be_entry x) \<in> he_hash ` set (keep @ new)"
    if "x \<in> set (map ?x keep @ bs)" for x
    using that f unfolding fetched_ok_def by auto
  have sub: "block_txs (map ?x keep @ bs) \<subseteq> (\<Union>h\<in>he_hash ` set (keep @ new). set (blk_txdata (block_of h)))"
  proof
    fix t assume "t \<in> block_txs (map ?x keep @ bs)"
    then obtain x where "x \<in> set (map ?x keep @ bs)" "t \<in> set (blk_txdata (be_block x))" by blast
    then show "t \<in> (\<Union>h\<in>he_hash ` set (keep @ new). set (blk_txdata (block_of h)))" using blk [of x] by (metis UN_I)
  qed
  have "inj_on (\<lambda>x. he_hash (be_entry x)) (set (map ?x keep) \<union> set bs)"
  proof (subst inj_on_Un, intro conjI)
    show "inj_on (\<lambda>x. he_hash (be_entry x)) (set (map ?x keep))" using dis by (auto simp: inj_on_def distinct_map)
    show "inj_on (\<lambda>x. he_hash (be_entry x)) (set bs)" using f by (simp add: fetched_ok_def)
    have "he_hash (be_entry x) \<noteq> he_hash (be_entry y)" if "x \<in> set (map ?x keep)" "y \<in> set bs" for x y
      using that f dis unfolding fetched_ok_def by auto
    then show "(\<lambda>x. he_hash (be_entry x)) ` (set (map ?x keep) - set bs)
        \<inter> (\<lambda>x. he_hash (be_entry x)) ` (set bs - set (map ?x keep)) = {}" by blast
  qed
  moreover have "inj_on (get_txid lib) (block_txs (map ?x keep @ bs))"
    using ids sub unfolding ids_ok_def by (meson inj_on_subset)
  moreover have "\<forall>tx\<in>block_txs (map ?x keep @ bs). hash_ok (get_txid lib tx) \<and> length (tx_output tx) < 2 ^ 32"
    using ids sub unfolding ids_ok_def by blast
  moreover have "\<forall>x\<in>set (map ?x keep @ bs). hash_ok (he_hash (be_entry x))"
    using ids blk unfolding ids_ok_def by blast
  ultimately show ?thesis unfolding ids_unique_def by simp
qed

lemma update_blocks_stored:
  assumes rk: "rocksdb rk kv" and up: "update_blocks rk lib bd files ix tip new s = Ok ix'" and d: "delivers_blocks lib bd files block_of"
    and keep: "indexed_entries s = keep @ new" "so_added_blockhashes s = he_hash ` set keep"
      "\<forall>e\<in>set keep. entry_stored kv lib (ix_iconfig ix) block_of s e"
    and dis: "distinct (map he_hash (keep @ new))" and ids: "ids_ok lib block_of (he_hash ` set (keep @ new))"
  shows "store_complete kv lib (ix_iconfig ix) block_of (ix_store ix')" and "ix_iconfig ix' = ix_iconfig ix"
proof -
  let ?ic = "ix_iconfig ix"
  obtain batches txs batches' s3 sent his ca where u:
      "start_fetcher lib bd files (ix_from ix) (headers_to_add s new) = Ok batches"
      "start_auto_compactions rk (so_txstore_db (add_batches rk lib ?ic (ix_flush ix) AddBlocks batches s)) = Ok txs"
      "index_batches rk lib ?ic (ix_flush ix) AddBlocks batches'
         ((add_batches rk lib ?ic (ix_flush ix) AddBlocks batches s)\<lparr>so_txstore_db := txs\<rparr>) = Ok (s3, sent)"
      "ix' = ix\<lparr>ix_store := set_tip rk (Some tip) (s3\<lparr>so_history_db := his, so_cache_db := ca\<rparr>),
               ix_flush := Enable, ix_from := Bitcoind\<rparr>"
    using up by (auto simp: update_blocks_def Let_def)
  let ?s1 = "add_batches rk lib ?ic (ix_flush ix) AddBlocks batches s"
  show "ix_iconfig ix' = ix_iconfig ix" using u(4) by simp
  have add: "headers_to_add s new = new" using dis keep(2) by (auto simp: headers_to_add_def filter_id_conv)
  have dnew: "distinct (map he_hash new)" using dis by simp
  note f = fetcher_fetched [OF u(1) d, unfolded add, OF dnew] and fe = start_fetcher_entries [OF u(1), unfolded add]
  obtain sz where sz: "\<forall>e\<in>set keep. rows_stored (kv (so_txstore_db s)) lib ?ic \<lparr>be_block = block_of (he_hash e), be_entry = e, be_size = sz e\<rparr>"
    using keep(3) unfolding entry_stored_def by metis
  let ?x = "\<lambda>e. \<lparr>be_block = block_of (he_hash e), be_entry = e, be_size = sz e\<rparr>"
  note uniq = kept_and_fetched_unique [OF f dis ids, of sz]
  have all: "rows_stored (kv (so_txstore_db ?s1)) lib ?ic x" if "x \<in> set (map ?x keep @ concat batches)" for x
    by (rule rows_stored_add_batches [OF rk uniq _ that]) (use sz in auto)
  have s3: "so_indexed_headers s3 = so_indexed_headers s" "so_txstore_db s3 = txs"
    using index_batches_effect [OF u(3)] by (metis add_batches_effect(2) store.select_convs store.update_convs(1,2) store.surjective)+
  have kv: "kv (so_txstore_db (ix_store ix')) k = kv (so_txstore_db ?s1) k" if "k \<noteq> [0x74]" "k \<noteq> [0x46]" for k
  proof -
    have "kv txs k = kv (so_txstore_db ?s1) k"
      using u(2) that(2) rocksdb.put_kv [OF rk] by (auto simp: start_auto_compactions_def Let_def db_put_sync_def split: if_splits)
    then show ?thesis using u(4) s3(2) set_tip_kv [OF rk that(1)] by simp
  qed
  have "entry_stored kv lib ?ic block_of (ix_store ix') e" if e: "e \<in> set (keep @ new)" for e
  proof -
    have "entry_stored kv lib ?ic block_of ?s1 e"
    proof (cases "e \<in> set keep")
      case True
      then show ?thesis using all [of "?x e"] unfolding entry_stored_def by auto
    next
      case False
      then have "he_hash e \<in> (\<lambda>x. he_hash (be_entry x)) ` set (concat batches)" using e fe by simp
      then obtain x where x: "x \<in> set (concat batches)" "he_hash (be_entry x) = he_hash e" by (metis imageE)
      have "be_entry x \<in> set new" and b: "be_block x = block_of (he_hash (be_entry x))"
        using f x(1) unfolding fetched_ok_def by blast+
      moreover have "e \<in> set new" using False e by simp
      ultimately have "be_entry x = e" using dnew x(2) unfolding distinct_map inj_on_def by blast
      then have "x = \<lparr>be_block = block_of (he_hash e), be_entry = e, be_size = be_size x\<rparr>" using b by simp
      moreover have "rows_stored (kv (so_txstore_db ?s1)) lib ?ic x" by (rule all) (use x(1) in simp)
      ultimately show ?thesis unfolding entry_stored_def by metis
    qed
    with kv show ?thesis by (rule entry_stored_cong)
  qed
  moreover have "indexed_entries (ix_store ix') = keep @ new" "so_added_blockhashes (ix_store ix') = he_hash ` set (keep @ new)"
    using update_blocks_effect [OF up] keep(1,2) by (simp_all add: image_Un)
  ultimately show "store_complete kv lib ?ic block_of (ix_store ix')" by (simp add: store_complete_iff)
qed

end
