(* ===== verification/Index_Updates.thy ===== *)
theory Index_Updates
  imports Store_Complete
begin

text \<open>
  What \<^verbatim>\<open>Indexer::update\<close> and its parts guarantee: the headers follow the node, the store stays complete, the history index is exact, a
  reorganisation removes exactly the rows of the abandoned blocks, and the two ways in which a block
  or an address can be missing from the history afterwards. The examples run on a node with one block.
\<close>

section \<open>A node with one block\<close>

definition demo_coinbase :: transaction where
  "demo_coinbase =
     \<lparr>tx_version = 1, tx_lock_time = 7,
      tx_input = [\<lparr>txi_previous_output = \<lparr>op_txid = null_hash, op_vout = - 1\<rparr>, txi_script_sig = [],
                   txi_sequence = 0, txi_witness = []\<rparr>],
      tx_output = [\<lparr>txo_value = 50, txo_script_pubkey = [0x51]\<rparr>]\<rparr>"

definition demo_block :: block where
  "demo_block = \<lparr>blk_header = demo_genesis, blk_txdata = [demo_coinbase]\<rparr>"

definition demo_entry :: header_entry where
  "demo_entry = \<lparr>he_height = 0, he_hash = demo_hash 1, he_header = demo_genesis\<rparr>"

definition demo_block_entry :: block_entry where
  "demo_block_entry = \<lparr>be_block = demo_block, be_entry = demo_entry, be_size = 1000\<rparr>"

definition demo_block_node :: bitcoind where
  "demo_block_node = (demo_node [demo_genesis])\<lparr>bd_getblocks := (\<lambda>hs. Ok (map (\<lambda>_. demo_block) hs))\<rparr>"

definition demo_config :: indexer_config where
  "demo_config = \<lparr>ic_light_mode = False, ic_address_search = True, ic_index_unspendables = False, ic_network = Bitcoin\<rparr>"

definition demo_store :: "(bytes \<times> bytes) list store" where
  "demo_store = \<lparr>so_txstore_db = [], so_history_db = [], so_cache_db = [], so_added_blockhashes = {},
     so_indexed_blockhashes = {}, so_indexed_headers = hl_empty\<rparr>"

definition demo_indexer :: "(bytes \<times> bytes) list indexer" where
  "demo_indexer = \<lparr>ix_store = demo_store, ix_flush = Disable, ix_from = Bitcoind, ix_iconfig = demo_config\<rparr>"

lemma demo_fetch: "bitcoind_fetcher demo_lib demo_block_node [demo_entry] = Ok [[demo_block_entry]]"
  by (simp add: bitcoind_fetcher_def chunks_short fetch_chunk_def demo_block_node_def demo_block_entry_def
      get_block_size_def demo_lib_def)

lemma demo_block_hash [simp]: "he_hash (be_entry demo_block_entry) = demo_hash 1" "he_hash demo_entry = demo_hash 1"
  by (simp_all add: demo_block_entry_def demo_entry_def)

lemma demo_previous [simp]: "get_previous_txos demo_lib [demo_block_entry] = []"
  by (simp add: get_previous_txos_def demo_block_entry_def demo_block_def demo_coinbase_def has_prevout_def)

lemma start_auto_compactions_total:
  assumes "rocksdb rk kv"
  shows "\<exists>db'. start_auto_compactions rk db = Ok db' \<and> (\<forall>k. k \<noteq> [0x46] \<longrightarrow> kv db' k = kv db k)"
  using rocksdb.get_kv [OF assms] rocksdb.put_kv [OF assms]
  by (auto simp: start_auto_compactions_def Let_def db_get_def db_put_sync_def)

section \<open>Properties\<close>

text \<open>The header part of an update is \<open>sync_headers\<close>.\<close>

lemma bind_out_Panic_iff: "bind_out m f = Panic p \<longleftrightarrow> m = Panic p \<or> (\<exists>x. m = Ok x \<and> f x = Panic p)"
  by (cases m) auto

lemma update_sync:
  assumes "sync_headers lib bd (so_indexed_headers (ix_store ix)) = Some r"
  shows "\<And>m. r = Panic m \<Longrightarrow> update rk lib bd files ix = Some (Panic m)"
    and "\<And>hl' reorged rb. r = Ok (hl', reorged, rb) \<Longrightarrow> \<exists>u. update rk lib bd files ix = Some u
      \<and> (\<forall>ix' tip. u = Ok (ix', tip) \<longrightarrow> so_indexed_headers (ix_store ix') = hl')"
proof -
  let ?hl = "so_indexed_headers (ix_store ix)"
  show "update rk lib bd files ix = Some (Panic m)" if rp: "r = Panic m" for m
  proof (cases "bd_getbestblockhash bd")
    case (Ok tip)
    then obtain z where z: "daemon_get_new_headers lib bd ?hl tip = Some z"
        "bind_out z (\<lambda>x. bind_out (hl_order lib ?hl x) (\<lambda>new. bind_out (hl_apply ?hl new) (\<lambda>(headers, reorged, rb).
           bind_out (tip_of headers) (\<lambda>t. if tip \<noteq> t then Panic ''assert_eq tip'' else Ok (headers, reorged, rb))))) = Panic m"
      using assms rp by (auto simp: sync_headers_def)
    have "update_headers rk lib bd ix tip new = Panic m"
      if "bind_out (hl_apply ?hl new) (\<lambda>(headers, reorged, rb).
         bind_out (tip_of headers) (\<lambda>t. if tip \<noteq> t then Panic ''assert_eq tip'' else Ok (headers, reorged, rb))) = Panic m" for new
      using that unfolding update_headers_def bind_out_Panic_iff by (elim disjE exE) (auto simp: bind_out_Panic_iff split: if_splits)
    then have "bind_out (bind_out z (hl_order lib ?hl)) (update_with rk lib bd files ix tip) = Panic m"
      using z(2) unfolding bind_out_Panic_iff [of z] bind_out_Panic_iff [of "hl_order lib ?hl _"]
      by (auto simp: update_with_def)
    then show ?thesis using Ok z(1) by (simp add: update_def)
  qed (use assms rp in \<open>simp_all add: sync_headers_def update_def\<close>)
  show "\<exists>u. update rk lib bd files ix = Some u \<and> (\<forall>ix' tip. u = Ok (ix', tip) \<longrightarrow> so_indexed_headers (ix_store ix') = hl')"
    if r: "r = Ok (hl', reorged, rb)" for hl' reorged rb
  proof -
    obtain tip hs new where s: "bd_getbestblockhash bd = Ok tip" "daemon_get_new_headers lib bd ?hl tip = Some (Ok hs)"
        "hl_order lib ?hl hs = Ok new" "hl_apply ?hl new = Ok (hl', reorged, rb)" "tip_of hl' = Ok tip"
      using assms r by (auto simp: sync_headers_def split: outcome.splits if_splits)
    have hl: "so_indexed_headers s = hl'" if "update_headers rk lib bd ix tip new = Ok s" for s
      using that s(4,5) reorg_effect(1) by (fastforce simp: update_headers_def Let_def split: if_splits)
    have "update rk lib bd files ix = Some (update_with rk lib bd files ix tip new)" using s by (simp add: update_def)
    moreover have "so_indexed_headers (ix_store ix') = hl'" if "update_with rk lib bd files ix tip new = Ok (ix', t)" for ix' t
      using that hl update_blocks_effect by (fastforce simp: update_with_def)
    ultimately show ?thesis by blast
  qed
qed

text \<open>C9: header synchronisation. Against a node that serves a chain, from any well-formed header list (empty, behind
  or on a fork of any depth), the walk back ends, nothing panics, the blocks above the fork are returned newest
  first, and the list afterwards is exactly the chain of the node, also after the whole of \<open>update\<close> when that returns. The
  exception is a node whose chain is a proper prefix of the list, as after \<^verbatim>\<open>invalidateblock\<close> on its tip: no header is new, the
  list keeps its tip, and \<open>update\<close> panics on the assertion that the two tips agree.\<close>

theorem header_sync_converges:
  assumes serve: "serves_chain lib bd chain" and wf: "wf_headers lib (so_indexed_headers (ix_store ix))"
    and cf: "collision_free lib (set (map he_header (hl_headers (so_indexed_headers (ix_store ix)))) \<union> set chain)"
  shows "if node_behind chain (so_indexed_headers (ix_store ix))
    then sync_headers lib bd (so_indexed_headers (ix_store ix)) = Some (Panic ''assert_eq tip'')
      \<and> update rk lib bd files ix = Some (Panic ''assert_eq tip'')
    else (\<exists>hl' k rb.
        sync_headers lib bd (so_indexed_headers (ix_store ix))
          = Some (Ok (hl', rev (drop k (hl_headers (so_indexed_headers (ix_store ix)))), rb))
        \<and> take k (map he_header (hl_headers (so_indexed_headers (ix_store ix)))) = take k chain
        \<and> hl_headers hl' = entries_of lib chain \<and> wf_headers lib hl')
      \<and> (\<exists>u. update rk lib bd files ix = Some u
           \<and> (\<forall>ix' tip. u = Ok (ix', tip) \<longrightarrow> hl_headers (so_indexed_headers (ix_store ix')) = entries_of lib chain))"
proof (cases "node_behind chain (so_indexed_headers (ix_store ix))")
  case True
  note s = sync_headers_behind [OF serve wf cf True]
  show ?thesis using True s update_sync(1) [OF s refl] by simp
next
  case False
  obtain hl' k rb where s: "sync_headers lib bd (so_indexed_headers (ix_store ix))
        = Some (Ok (hl', rev (drop k (hl_headers (so_indexed_headers (ix_store ix)))), rb))"
      "take k (map he_header (hl_headers (so_indexed_headers (ix_store ix)))) = take k chain"
      "hl_headers hl' = entries_of lib chain" "wf_headers lib hl'"
    using sync_headers_chain [OF serve wf cf False] by blast
  then show ?thesis using False update_sync(2) [OF s(1) refl, of rk files] by simp blast
qed

definition demo_forked :: "(bytes \<times> bytes) list indexer" where
  "demo_forked = demo_indexer\<lparr>ix_store := demo_store\<lparr>so_indexed_headers := demo_hl\<rparr>\<rparr>"

text \<open>A list of two blocks, against a node on a fork of its second block and against one that lost it.\<close>

theorem header_sync_converges_witness:
  "(\<exists>hl' reorged rb. sync_headers demo_lib (demo_node [demo_genesis, demo_child 2]) demo_hl = Some (Ok (hl', reorged, rb))
      \<and> hl_headers hl' = entries_of demo_lib [demo_genesis, demo_child 2])
   \<and> update ref_rocks demo_lib (demo_node [demo_genesis]) (0, None, []) demo_forked = Some (Panic ''assert_eq tip'')"
proof -
  have hl: "so_indexed_headers (ix_store demo_forked) = demo_hl" by (simp add: demo_forked_def)
  have old: "map he_header (hl_headers demo_hl) = [demo_genesis, demo_child 3]" by (simp add: demo_hl_eq)
  have wf: "wf_headers demo_lib demo_hl"
    using sync.reach_inv [OF demo_reach [OF refl]] demo_collision_free by (simp add: sync_inv_def)
  have cf: "collision_free demo_lib (set (map he_header (hl_headers demo_hl)) \<union> set hs)" if "set hs \<subseteq> {demo_genesis, demo_child 2}" for hs
    unfolding old by (rule collision_free_subset [OF demo_collision_free]) (use that in auto)
  have len: "length (hl_headers demo_hl) = 2" by (simp add: demo_hl_eq)
  have away: "\<not> node_behind [demo_genesis, demo_child 2] demo_hl"
    unfolding node_behind_def old len by (auto dest!: arg_cong [of _ _ length])
  have behind: "node_behind [demo_genesis] demo_hl" unfolding node_behind_def old len by (intro exI [of _ 1]) simp
  have "\<exists>hl' reorged rb. sync_headers demo_lib (demo_node [demo_genesis, demo_child 2]) demo_hl = Some (Ok (hl', reorged, rb))
      \<and> hl_headers hl' = entries_of demo_lib [demo_genesis, demo_child 2]"
    using header_sync_converges [of demo_lib _ "[demo_genesis, demo_child 2]" demo_forked ref_rocks "(0, None, [])", unfolded hl,
        OF demo_node_serves(1) wf cf] away by auto
  moreover have "update ref_rocks demo_lib (demo_node [demo_genesis]) (0, None, []) demo_forked = Some (Panic ''assert_eq tip'')"
    using header_sync_converges [of demo_lib _ "[demo_genesis]" demo_forked ref_rocks "(0, None, [])", unfolded hl,
        OF demo_node_serves(2) wf cf] behind by auto
  ultimately show ?thesis by blast
qed


lemma demo_entries: "entries_of demo_lib [demo_genesis] = [demo_entry]"
  by (simp add: entries_of_def demo_entry_def)

lemma demo_update_headers:
  "update_headers ref_rocks demo_lib demo_block_node demo_indexer (demo_hash 1) [demo_entry]
   = Ok (demo_store\<lparr>so_indexed_headers := \<lparr>hl_headers = [demo_entry], hl_heights = [demo_hash 1 \<mapsto> 0], hl_tip = demo_hash 1\<rparr>\<rparr>)"
  by (simp add: update_headers_def demo_indexer_def demo_store_def demo_entry_def demo_defs tip_of_def Let_def)

lemma demo_update_blocks:
  "\<exists>ix'. update_blocks ref_rocks demo_lib demo_block_node files demo_indexer (demo_hash 1) [demo_entry] s = Ok ix'"
proof -
  let ?s1 = "add_batches ref_rocks demo_lib demo_config Disable AddBlocks (if demo_hash 1 \<in> so_added_blockhashes s then [] else [[demo_block_entry]]) s"
  have f: "start_fetcher demo_lib demo_block_node files Bitcoind (headers_to_add s [demo_entry])
      = Ok (if demo_hash 1 \<in> so_added_blockhashes s then [] else [[demo_block_entry]])"
    using demo_fetch by (simp add: start_fetcher_def headers_to_add_def bitcoind_fetcher_def demo_entry_def)
  obtain tdb where t: "start_auto_compactions ref_rocks (so_txstore_db ?s1) = Ok tdb"
    using start_auto_compactions_total [OF ref_db.rocksdb_axioms] by blast
  let ?s2 = "?s1\<lparr>so_txstore_db := tdb\<rparr>"
  have f2: "start_fetcher demo_lib demo_block_node files Bitcoind (headers_to_index ?s2 [demo_entry])
      = Ok (if demo_hash 1 \<in> so_indexed_blockhashes s then [] else [[demo_block_entry]])"
    using demo_fetch by (simp add: start_fetcher_def headers_to_index_def bitcoind_fetcher_def add_batches_effect)
  have added: "demo_hash 1 \<in> so_added_blockhashes ?s2"
    by (simp add: add_batches_effect Let_def demo_block_entry_def demo_entry_def)
  have "\<exists>s3 sent. indexer_index ref_rocks demo_lib demo_config Disable AddBlocks [demo_block_entry] ?s2 = Ok (s3, sent)"
    by (rule indexer_index_total) (use added in simp_all)
  then obtain s3 sent where i: "index_batches ref_rocks demo_lib demo_config Disable AddBlocks
      (if demo_hash 1 \<in> so_indexed_blockhashes s then [] else [[demo_block_entry]]) ?s2 = Ok (s3, sent)"
    by (cases "demo_hash 1 \<in> so_indexed_blockhashes s") auto
  obtain hdb where h: "start_auto_compactions ref_rocks (so_history_db s3) = Ok hdb"
    using start_auto_compactions_total [OF ref_db.rocksdb_axioms] by blast
  obtain cdb where c: "start_auto_compactions ref_rocks (so_cache_db s3) = Ok cdb"
    using start_auto_compactions_total [OF ref_db.rocksdb_axioms] by blast
  show ?thesis using f t f2 i h c by (simp add: update_blocks_def demo_indexer_def Let_def)
qed

lemma demo_update:
  "\<exists>ix'. update ref_rocks demo_lib demo_block_node files demo_indexer = Some (Ok (ix', demo_hash 1))
     \<and> indexed_entries (ix_store ix') = [demo_entry] \<and> ix_iconfig ix' = demo_config"
proof -
  have hc: "header_chain demo_lib [demo_genesis]" by (simp add: header_chain_def)
  have serve: "serves_chain demo_lib demo_block_node [demo_genesis]"
    using hc by (simp add: serves_chain_def demo_block_node_def demo_node_def)
  have new: "daemon_get_new_headers demo_lib demo_block_node hl_empty (demo_hash 1) = Some (Ok [demo_genesis])"
    using get_all_headers_chain [OF serve] by (simp add: daemon_get_new_headers_def hl_is_empty_def hl_empty_def)
  have ord: "hl_order demo_lib hl_empty [demo_genesis] = Ok [demo_entry]"
    by (simp add: demo_defs demo_entry_def Let_def)
  have best: "bd_getbestblockhash demo_block_node = Ok (demo_hash 1)" by (simp add: demo_block_node_def demo_node_def)
  have hl: "so_indexed_headers (ix_store demo_indexer) = hl_empty" by (simp add: demo_indexer_def demo_store_def)
  obtain ix' where b: "update_blocks ref_rocks demo_lib demo_block_node files demo_indexer (demo_hash 1) [demo_entry]
      (demo_store\<lparr>so_indexed_headers := \<lparr>hl_headers = [demo_entry], hl_heights = [demo_hash 1 \<mapsto> 0], hl_tip = demo_hash 1\<rparr>\<rparr>) = Ok ix'"
    using demo_update_blocks by blast
  then have "indexed_entries (ix_store ix') = [demo_entry]" "ix_iconfig ix' = demo_config"
    using update_blocks_effect [OF b] by (auto simp: update_blocks_def Let_def demo_indexer_def)
  then show ?thesis using b
    by (simp add: update_def update_with_def best hl new ord demo_update_headers)
qed

lemma demo_ids_facts:
  "collision_free demo_lib (he_header ` ({} \<union> set [demo_entry]))" "ids_ok demo_lib (\<lambda>_. demo_block) (he_hash ` ({} \<union> set [demo_entry]))"
  by (simp_all add: collision_free_def ids_ok_def demo_block_def demo_coinbase_def demo_entry_def get_txid_def demo_lib_def)

lemma demo_delivers: "delivers_blocks demo_lib demo_block_node (0, None, []) (\<lambda>_. demo_block)"
  by (simp add: delivers_blocks_def demo_block_node_def)


text \<open>After a batch of blocks is added, every spendable output of every transaction in it is found
  by its outpoint, with the value and script it had.\<close>

theorem added_outputs_found:
  assumes "rocksdb rk kv" "ids_unique lib blocks"
    and "tx \<in> block_txs blocks" "i < length (tx_output tx)" "is_spendable lib (tx_output tx ! i)"
    and "lib_deserialize_txout lib (lib_serialize_txout lib (tx_output tx ! i)) = Some (tx_output tx ! i)"
  shows "lookup_txo rk lib (so_txstore_db (indexer_add rk lib ic fl AddBlocks blocks s))
     \<lparr>op_txid = get_txid lib tx, op_vout = word_of_nat i\<rparr> = Ok (Some (tx_output tx ! i))"
  using assms by (rule added_output_lookup)

lemma demo_ids: "ids_unique demo_lib [demo_block_entry]"
  by (simp add: ids_unique_def demo_block_entry_def demo_block_def demo_entry_def demo_coinbase_def get_txid_def)

theorem added_outputs_found_witness:
  "lookup_txo ref_rocks demo_lib (so_txstore_db (indexer_add ref_rocks demo_lib demo_config Disable AddBlocks [demo_block_entry] demo_store))
     \<lparr>op_txid = get_txid demo_lib demo_coinbase, op_vout = 0\<rparr> = Ok (Some \<lparr>txo_value = 50, txo_script_pubkey = [0x51]\<rparr>)"
  using added_outputs_found [OF ref_db.rocksdb_axioms demo_ids, of demo_coinbase 0 demo_config Disable demo_store]
  by (simp add: demo_block_entry_def demo_block_def demo_coinbase_def is_spendable_def is_provably_unspendable_def demo_lib_def)

text \<open>C11: indexing. Once its blocks are added and every output they spend is stored, \<open>Indexer::index\<close> never
  panics, and it changes exactly the history rows of those blocks (one per indexed output, one per input
  with its spend edge, the address-search rows and the done mark): \<open>AddBlocks\<close> puts each of them,
  the delete operations remove each of them, and everything else in the store stays as it was.\<close>

theorem index_history_exact:
  assumes "rocksdb rk kv"
    and "\<forall>pt\<in>set (get_previous_txos lib blocks). found rk lib (so_txstore_db s) pt"
    and "\<forall>b\<in>set blocks. he_hash (be_entry b) \<in> so_added_blockhashes s"
  shows "\<exists>s' sent. indexer_index rk lib ic fl op blocks s = Ok (s', sent)
    \<and> (\<forall>k. kv (so_history_db s') k =
         (if k \<in> index_keys lib ic (spent_outputs rk lib (so_txstore_db s)) blocks
          then (if op = AddBlocks then Some [] else None) else kv (so_history_db s) k))
    \<and> s' = s\<lparr>so_history_db := so_history_db s'\<rparr>"
proof -
  obtain s' sent where i: "indexer_index rk lib ic fl op blocks s = Ok (s', sent)"
    using indexer_index_total [OF assms(2,3)] by blast
  then show ?thesis using indexer_index_history [OF assms(1) i] indexer_index_effect [OF i] by blast
qed

definition demo_added_store :: "(bytes \<times> bytes) list store" where
  "demo_added_store = indexer_add ref_rocks demo_lib demo_config Disable AddBlocks [demo_block_entry] demo_store"

lemma demo_added [simp]: "demo_hash 1 \<in> so_added_blockhashes demo_added_store"
  by (simp add: demo_added_store_def indexer_add_def Let_def)

lemma done_key_indexed:
  "b \<in> set blocks \<Longrightarrow> row_key (block_into_row (block_new_done (he_hash (be_entry b)))) \<in> index_keys lib ic m blocks"
  unfolding index_keys_def block_index_rows_def by blast

theorem index_history_exact_witness:
  "\<exists>s' sent. indexer_index ref_rocks demo_lib demo_config Disable AddBlocks [demo_block_entry] demo_added_store = Ok (s', sent)
     \<and> map_of (so_history_db s') (row_key (block_into_row (block_new_done (demo_hash 1)))) = Some []"
proof -
  have "\<exists>s' sent. indexer_index ref_rocks demo_lib demo_config Disable AddBlocks [demo_block_entry] demo_added_store = Ok (s', sent)
    \<and> (\<forall>k. map_of (so_history_db s') k =
         (if k \<in> index_keys demo_lib demo_config (spent_outputs ref_rocks demo_lib (so_txstore_db demo_added_store)) [demo_block_entry]
          then (if AddBlocks = AddBlocks then Some [] else None) else map_of (so_history_db demo_added_store) k))
    \<and> s' = demo_added_store\<lparr>so_history_db := so_history_db s'\<rparr>"
    by (rule index_history_exact [OF ref_db.rocksdb_axioms]) simp_all
  then show ?thesis using done_key_indexed [of demo_block_entry "[demo_block_entry]"] by fastforce
qed

text \<open>C12: a reorganisation that returns has removed exactly the rows of the abandoned blocks: their rows
  in \<open>txstore\<close> and in the history database are gone, every cached balance of a script they touch is
  dropped, their hashes are no longer marked as added, and every other row is kept.\<close>

theorem reorg_removes_exactly:
  assumes "rocksdb rk kv" and "reorg rk lib bd ic fl reorged s = Ok s'"
  shows "\<exists>batches. bitcoind_fetcher lib bd reorged = Ok batches
    \<and> (\<forall>k. kv (so_history_db s') k =
         (if k \<in> index_keys lib ic (spent_outputs rk lib (so_txstore_db s)) (concat batches) then None
          else kv (so_history_db s) k))
    \<and> (\<forall>k. kv (so_txstore_db s') k =
         (if k \<in> row_key ` set (add_blocks lib ic (concat batches)) then None else kv (so_txstore_db s) k))
    \<and> (\<forall>k. kv (so_cache_db s') k =
         (let scripts = touched_scripts lib ic (spent_outputs rk lib (so_txstore_db s)) (concat batches)
          in if k \<in> stats_cache_key ` scripts \<union> utxo_cache_key ` scripts then None else kv (so_cache_db s) k))
    \<and> so_added_blockhashes s' = so_added_blockhashes s - he_hash ` set reorged"
  using assms by (rule reorg_exact)

lemma demo_reorg: "\<exists>s'. reorg ref_rocks demo_lib demo_block_node demo_config Disable [demo_entry] s = Ok s'"
proof -
  obtain m where "lookup_txos ref_rocks demo_lib (so_txstore_db s) (get_previous_txos demo_lib [demo_block_entry]) False = Ok m"
    by (simp add: lookup_txos_def)
  moreover obtain r where "index_blocks demo_lib demo_config [demo_block_entry] m DeleteBlocksWithHistory = Ok r"
    using index_blocks_total [of demo_lib "[demo_block_entry]" m demo_config DeleteBlocksWithHistory] by auto
  ultimately show ?thesis by (cases r) (simp add: reorg_def demo_fetch Let_def indexer_index_def)
qed

theorem reorg_removes_exactly_witness:
  "\<exists>s'. reorg ref_rocks demo_lib demo_block_node demo_config Disable [demo_entry] demo_added_store = Ok s'
     \<and> map_of (so_history_db s') (row_key (block_into_row (block_new_done (demo_hash 1)))) = None
     \<and> demo_hash 1 \<notin> so_added_blockhashes s'"
proof -
  obtain s' where s': "reorg ref_rocks demo_lib demo_block_node demo_config Disable [demo_entry] demo_added_store = Ok s'"
    using demo_reorg by blast
  from reorg_removes_exactly [OF ref_db.rocksdb_axioms s'] s' done_key_indexed [of demo_block_entry "[demo_block_entry]"]
  show ?thesis by (auto simp: demo_fetch)
qed

section \<open>Two defects of reorganisations\<close>

lemma reorg_history:
  assumes "rocksdb rk kv" "reorg rk lib bd ic fl reorged s = Ok s'" "bitcoind_fetcher lib bd reorged = Ok batches"
  shows "kv (so_history_db s') k =
    (if k \<in> index_keys lib ic (spent_outputs rk lib (so_txstore_db s)) (concat batches) then None else kv (so_history_db s) k)"
  using reorg_exact [OF assms(1,2)] assms(3) by auto

lemma update_blocks_nothing_to_index:
  assumes rk: "rocksdb rk kv" and up: "update_blocks rk lib bd files ix tip new s = Ok ix'"
    and none: "\<forall>e\<in>set new. he_hash e \<in> so_indexed_blockhashes s"
    and k: "k \<noteq> [0x46]"
  shows "kv (so_history_db (ix_store ix')) k = kv (so_history_db s) k"
proof -
  obtain batches txs batches' s3 sent his ca where u:
      "start_fetcher lib bd files (ix_from ix)
         (headers_to_index ((add_batches rk lib (ix_iconfig ix) (ix_flush ix) AddBlocks batches s)\<lparr>so_txstore_db := txs\<rparr>) new) = Ok batches'"
      "index_batches rk lib (ix_iconfig ix) (ix_flush ix) AddBlocks batches'
         ((add_batches rk lib (ix_iconfig ix) (ix_flush ix) AddBlocks batches s)\<lparr>so_txstore_db := txs\<rparr>) = Ok (s3, sent)"
      "start_auto_compactions rk (so_history_db s3) = Ok his"
      "ix' = ix\<lparr>ix_store := set_tip rk (Some tip) (s3\<lparr>so_history_db := his, so_cache_db := ca\<rparr>),
               ix_flush := Enable, ix_from := Bitcoind\<rparr>"
    using up by (auto simp: update_blocks_def Let_def)
  let ?s2 = "(add_batches rk lib (ix_iconfig ix) (ix_flush ix) AddBlocks batches s)\<lparr>so_txstore_db := txs\<rparr>"
  have "headers_to_index ?s2 new = []" using none by (simp add: headers_to_index_def add_batches_effect)
  then have "set (concat batches') = {}" using start_fetcher_entries [OF u(1)] by simp
  then have empty: "\<forall>b\<in>set batches'. b = []" by auto
  have "kv (so_history_db s3) k = kv (so_history_db ?s2) k"
    using index_empty_batches [OF rk u(2) empty] .
  moreover have "kv his k = kv (so_history_db s3) k"
    using start_auto_compactions_total [OF rk, of "so_history_db s3"] u(3) k by auto
  ultimately show ?thesis using u(4) by (simp add: add_batches_effect)
qed

lemma index_keys_code: "k \<in> index_keys lib ic m blocks \<Longrightarrow> k \<noteq> [0x46]"
  by (auto simp: index_keys_def block_index_rows_def tx_index_rows_def tx_history_def tx_addr_rows_def tx_edges_def
      history_into_row_def ser_history_key_def funding_key_def spending_key_def history_new_def ser_u8_def
      edge_into_row_def spend_edge_def edge_new_def ser_tx_edge_key_def addr_search_row_def
      block_into_row_def block_new_done_def ser_block_key_def)

text \<open>C13: the set of indexed blocks is read once, when the store is opened, and neither \<open>index\<close> nor
  \<open>reorg\<close> updates it. So when a block that was indexed before the start is reorganised away and then
  becomes part of the best chain again, its transactions are added again but its history is not: none
  of its history rows is in the database afterwards.\<close>

theorem reorged_block_not_reindexed:
  assumes "rocksdb rk kv" and "he_hash e \<in> so_indexed_blockhashes s"
    and "reorg rk lib bd ic fl [e] s = Ok s1" and "bitcoind_fetcher lib bd [e] = Ok batches"
    and "update_blocks rk lib bd files ix tip [e] s1 = Ok ix'"
    and "k \<in> index_keys lib ic (spent_outputs rk lib (so_txstore_db s)) (concat batches)"
  shows "kv (so_history_db (ix_store ix')) k = None \<and> he_hash e \<in> so_added_blockhashes (ix_store ix')"
proof -
  have gone: "kv (so_history_db s1) k = None"
    using reorg_history [OF assms(1,3,4), of k] assms(6) by simp
  have idx: "so_indexed_blockhashes s1 = so_indexed_blockhashes s" by (rule reorg_effect(2) [OF assms(3)])
  have "kv (so_history_db (ix_store ix')) k = kv (so_history_db s1) k"
    by (rule update_blocks_nothing_to_index [OF assms(1,5)]) (use idx assms(2) index_keys_code [OF assms(6)] in simp_all)
  then show ?thesis using gone update_blocks_effect [OF assms(5)] by simp
qed

theorem reorged_block_not_reindexed_witness:
  "\<exists>s1 ix'. reorg ref_rocks demo_lib demo_block_node demo_config Disable [demo_entry] (demo_added_store\<lparr>so_indexed_blockhashes := {demo_hash 1}\<rparr>) = Ok s1
     \<and> update_blocks ref_rocks demo_lib demo_block_node (0, None, []) demo_indexer (demo_hash 1) [demo_entry] s1 = Ok ix'
     \<and> map_of (so_history_db (ix_store ix')) (row_key (block_into_row (block_new_done (demo_hash 1)))) = None"
proof -
  let ?s = "demo_added_store\<lparr>so_indexed_blockhashes := {demo_hash 1}\<rparr>"
  obtain s1 where s1: "reorg ref_rocks demo_lib demo_block_node demo_config Disable [demo_entry] ?s = Ok s1"
    using demo_reorg by blast
  obtain ix' where ix': "update_blocks ref_rocks demo_lib demo_block_node (0, None, []) demo_indexer (demo_hash 1) [demo_entry] s1 = Ok ix'"
    using demo_update_blocks by blast
  have "row_key (block_into_row (block_new_done (demo_hash 1)))
      \<in> index_keys demo_lib demo_config (spent_outputs ref_rocks demo_lib (so_txstore_db ?s)) (concat [[demo_block_entry]])"
    using done_key_indexed [of demo_block_entry "[demo_block_entry]"] by simp
  from reorged_block_not_reindexed [OF ref_db.rocksdb_axioms _ s1 demo_fetch ix' this] s1 ix'
  show ?thesis by auto
qed

text \<open>\<open>index\<close> also removes the address-search row of every output script of an abandoned block. An
  address that has other, confirmed history keeps that history but can no longer be found by the
  prefix search.\<close>

theorem reorg_loses_address:
  assumes "rocksdb rk kv" and "reorg rk lib bd ic fl reorged s = Ok s'" and "bitcoind_fetcher lib bd reorged = Ok batches"
    and "tx \<in> block_txs (concat batches)" and "row \<in> tx_addr_rows lib ic tx"
    and "kv (so_history_db s) k = Some v" and "k \<notin> index_keys lib ic (spent_outputs rk lib (so_txstore_db s)) (concat batches)"
  shows "kv (so_history_db s') (row_key row) = None \<and> kv (so_history_db s') k = Some v"
proof -
  have "row_key row \<in> index_keys lib ic (spent_outputs rk lib (so_txstore_db s)) (concat batches)"
    using addr_key_indexed [OF assms(4,5)] .
  then show ?thesis using reorg_history [OF assms(1-3)] assms(6,7) by simp
qed


definition demo_other_key :: bytes where
  "demo_other_key = ser_history_key (history_new demo_lib [0x51] 5 0
     (Funding \<lparr>fu_txid = demo_txid 9, fu_vout = 0, fu_value = 20\<rparr>))"

lemma demo_other_key_kept: "demo_other_key \<notin> index_keys demo_lib demo_config m [demo_block_entry]"
proof -
  have "ser_u32 Big 5 \<noteq> ser_u32 Big 0" using de_ser_u32 [of Big 5 "[]"] de_ser_u32 [of Big 0 "[]"] by force
  then have "ser_u32 Big 5 @ x \<noteq> ser_u32 Big 0 @ y" for x y by simp
  then show ?thesis
    by (auto simp: index_keys_def block_index_rows_def tx_index_rows_def tx_history_def tx_addr_rows_def tx_edges_def
      demo_block_entry_def demo_block_def demo_entry_def demo_coinbase_def has_prevout_def demo_other_key_def
      history_into_row_def ser_history_key_def funding_key_def history_new_def ser_u8_def addr_search_row_def
      block_into_row_def block_new_done_def ser_block_key_def)
qed

theorem reorg_loses_address_witness:
  "\<exists>s'. reorg ref_rocks demo_lib demo_block_node demo_config Disable [demo_entry]
        (demo_added_store\<lparr>so_history_db := [(demo_other_key, []), ([0x61, 0x51], [])]\<rparr>) = Ok s'
     \<and> map_of (so_history_db s') [0x61, 0x51] = None \<and> map_of (so_history_db s') demo_other_key = Some []"
proof -
  let ?s = "demo_added_store\<lparr>so_history_db := [(demo_other_key, []), ([0x61, 0x51], [])]\<rparr>"
  obtain s' where s': "reorg ref_rocks demo_lib demo_block_node demo_config Disable [demo_entry] ?s = Ok s'"
    using demo_reorg by blast
  have tx: "demo_coinbase \<in> block_txs (concat [[demo_block_entry]])" by (simp add: demo_block_entry_def demo_block_def)
  have row: "\<lparr>row_key = [0x61, 0x51], row_value = []\<rparr> \<in> tx_addr_rows demo_lib demo_config demo_coinbase"
    by (simp add: tx_addr_rows_def demo_config_def demo_coinbase_def is_spendable_def is_provably_unspendable_def
        addr_search_row_def demo_lib_def)
  from reorg_loses_address [OF ref_db.rocksdb_axioms s' demo_fetch tx row, of demo_other_key "[]"] s' demo_other_key_kept
  show ?thesis by simp
qed

end
