(* ===== verification/Chain_Query.thy ===== *)
theory Chain_Query
  imports Index_Updates Merkle "HOL-Library.Product_Lexorder"
begin

text \<open>
  The read side of the index, \<open>ChainQuery\<close> of \<^verbatim>\<open>src/new_index/schema.rs\<close>, and the Merkle queries of
  \<^verbatim>\<open>src/util/electrum_merkle.rs\<close> that read through it: which block confirms a transaction, blocks and
  their transactions, the spend of an output, the history of a script and its pages, and the collated
  summaries. A query is a function of the store. In light mode blocks and transactions come from the
  node: the record \<open>light_rpc\<close> holds its (decoded) answers. An iterator is the list of its items; a
  row that does not parse is a panic, which the model raises for the whole scan at once.
\<close>

section \<open>State\<close>

record light_rpc =
  lr_block_txids :: "hash \<Rightarrow> (error_kind, hash list) outcome"
  lr_block_meta :: "hash \<Rightarrow> (error_kind, block_meta) outcome"
  lr_block_bytes :: "hash \<Rightarrow> (error_kind, bytes) outcome"
  lr_raw_tx :: "hash \<Rightarrow> hash \<Rightarrow> (error_kind, bytes) outcome"

record 'd chain_query =
  cq_store :: "'d store"
  cq_light_mode :: bool
  cq_rpc :: light_rpc

abbreviation cq_headers :: "'d chain_query \<Rightarrow> header_list" where
  "cq_headers cq \<equiv> so_indexed_headers (cq_store cq)"

record spending_input =
  si_txid :: hash
  si_vin :: u32
  si_confirmed :: "block_id option"

record tx_history_summary =
  ths_txid :: hash
  ths_height :: nat
  ths_value :: int
  ths_time :: u32
  ths_tx_position :: u16

section \<open>Headers\<close>

definition header_by_hash :: "'d chain_query \<Rightarrow> hash \<Rightarrow> header_entry option" where
  "header_by_hash cq h = header_by_blockhash (cq_headers cq) h"

definition height_by_hash :: "'d chain_query \<Rightarrow> hash \<Rightarrow> nat option" where
  "height_by_hash cq h = map_option he_height (header_by_blockhash (cq_headers cq) h)"

definition cq_header_by_height :: "'d chain_query \<Rightarrow> nat \<Rightarrow> (error_kind, header_entry option) outcome" where
  "cq_header_by_height cq height = header_by_height (cq_headers cq) height"

definition hash_by_height :: "'d chain_query \<Rightarrow> nat \<Rightarrow> (error_kind, hash option) outcome" where
  "hash_by_height cq height = map_out (map_option he_hash) (header_by_height (cq_headers cq) height)"

definition blockid_by_height :: "'d chain_query \<Rightarrow> nat \<Rightarrow> (error_kind, block_id option) outcome" where
  "blockid_by_height cq height = map_out (map_option blockid_of) (header_by_height (cq_headers cq) height)"

definition blockid_by_hash :: "'d chain_query \<Rightarrow> hash \<Rightarrow> block_id option" where
  "blockid_by_hash cq h = map_option blockid_of (header_by_blockhash (cq_headers cq) h)"

text \<open>\<open>len() - 1\<close> on \<open>usize\<close>, which wraps on an empty list.\<close>

definition best_height :: "'d chain_query \<Rightarrow> nat" where
  "best_height cq = (if hl_len (cq_headers cq) = 0 then 2 ^ 64 - 1 else hl_len (cq_headers cq) - 1)"

definition best_hash :: "'d chain_query \<Rightarrow> (error_kind, hash) outcome" where
  "best_hash cq = tip_of (cq_headers cq)"

definition best_header :: "'d chain_query \<Rightarrow> (error_kind, header_entry) outcome" where
  "best_header cq =
     bind_out (tip_of (cq_headers cq)) (\<lambda>tip.
       expect ''missing chain tip'' (header_by_blockhash (cq_headers cq) tip))"

definition cq_get_mtp :: "'d chain_query \<Rightarrow> nat \<Rightarrow> (error_kind, u32) outcome" where
  "cq_get_mtp cq height = get_mtp (cq_headers cq) height"

definition get_block_header :: "'d chain_query \<Rightarrow> hash \<Rightarrow> block_header option" where
  "get_block_header cq h = map_option he_header (header_by_hash cq h)"

definition get_block_status :: "'d chain_query \<Rightarrow> hash \<Rightarrow> (error_kind, block_status) outcome" where
  "get_block_status cq h =
     (case header_by_blockhash (cq_headers cq) h of
        None \<Rightarrow> Ok bs_orphaned
      | Some header \<Rightarrow>
          map_out (\<lambda>nxt. bs_confirmed (he_height header) (map_option he_hash nxt))
            (header_by_height (cq_headers cq) (he_height header + 1)))"

section \<open>Confirmations and transactions\<close>

definition tx_confirming_block :: "'d rocks \<Rightarrow> 'd chain_query \<Rightarrow> hash \<Rightarrow> (error_kind, block_id option) outcome" where
  "tx_confirming_block rk cq txid =
     map_out
       (\<lambda>confs. map_option blockid_of
          (first_opt (List.map_filter (\<lambda>conf. header_by_blockhash (cq_headers cq) (tck_blockhash conf)) confs)))
       (collect_out tx_conf_from_row
          (scan_collect (iter_scan rk (so_txstore_db (cq_store cq)) (tx_conf_filter txid))))"

definition lookup_raw_txn ::
  "'d rocks \<Rightarrow> 'd chain_query \<Rightarrow> hash \<Rightarrow> hash option \<Rightarrow> (error_kind, bytes option) outcome"
where
  "lookup_raw_txn rk cq txid blockhash =
     (if cq_light_mode cq then
        bind_opt
          (case blockhash of
             Some b \<Rightarrow> Ok (Some b)
           | None \<Rightarrow> map_out (map_option bid_hash) (tx_confirming_block rk cq txid))
          (\<lambda>b. ok_opt (lr_raw_tx (cq_rpc cq) txid b))
      else Ok (db_get rk (so_txstore_db (cq_store cq)) (tx_row_key_of txid)))"

definition lookup_txn ::
  "'d rocks \<Rightarrow> bitcoin_lib \<Rightarrow> 'd chain_query \<Rightarrow> hash \<Rightarrow> hash option \<Rightarrow> (error_kind, transaction option) outcome"
where
  "lookup_txn rk lib cq txid blockhash =
     bind_opt (lookup_raw_txn rk cq txid blockhash) (\<lambda>rawtx.
     bind_out (expect ''failed to parse Transaction'' (lib_deserialize_tx lib rawtx)) (\<lambda>txn.
       if txid = get_txid lib txn then Ok (Some txn) else Panic ''assert_eq txid''))"

definition lookup_txns ::
  "'d rocks \<Rightarrow> bitcoin_lib \<Rightarrow> 'd chain_query \<Rightarrow> (hash \<times> block_id \<times> u16) list \<Rightarrow> nat
    \<Rightarrow> (error_kind, transaction \<times> block_id \<times> u16) outcome list"
where
  "lookup_txns rk lib cq txids n =
     map (\<lambda>(txid, blockid, tx_position).
            map_out (\<lambda>tx. (tx, blockid, tx_position))
              (bind_out (lookup_txn rk lib cq txid (Some (bid_hash blockid)))
                (ok_or (Msg ''missing tx''))))
       (take n txids)"

definition cq_lookup_txo :: "'d rocks \<Rightarrow> bitcoin_lib \<Rightarrow> 'd chain_query \<Rightarrow> out_point \<Rightarrow> (error_kind, tx_out option) outcome" where
  "cq_lookup_txo rk lib cq outpoint = lookup_txo rk lib (so_txstore_db (cq_store cq)) outpoint"

definition cq_lookup_txos ::
  "'d rocks \<Rightarrow> bitcoin_lib \<Rightarrow> 'd chain_query \<Rightarrow> out_point list \<Rightarrow> (error_kind, out_point \<rightharpoonup> tx_out) outcome"
where
  "cq_lookup_txos rk lib cq outpoints = lookup_txos rk lib (so_txstore_db (cq_store cq)) outpoints False"

definition lookup_avail_txos ::
  "'d rocks \<Rightarrow> bitcoin_lib \<Rightarrow> 'd chain_query \<Rightarrow> out_point list \<Rightarrow> (error_kind, out_point \<rightharpoonup> tx_out) outcome"
where
  "lookup_avail_txos rk lib cq outpoints = lookup_txos rk lib (so_txstore_db (cq_store cq)) outpoints True"

text \<open>\<open>find_map\<close> over the edges of an outpoint: the first spend whose transaction is confirmed.\<close>

definition lookup_spend ::
  "'d rocks \<Rightarrow> 'd chain_query \<Rightarrow> out_point \<Rightarrow> (error_kind, spending_input option) outcome"
where
  "lookup_spend rk cq outpoint =
     bind_out (collect_out edge_from_row
         (scan_collect (iter_scan rk (so_history_db (cq_store cq)) (edge_filter outpoint)))) (\<lambda>edges.
       map_out first_opt
         (filter_map_out
            (\<lambda>edge. map_out (map_option (\<lambda>b. \<lparr>si_txid = tek_spending_txid edge, si_vin = tek_spending_vin edge,
                                               si_confirmed = Some b\<rparr>))
                      (tx_confirming_block rk cq (tek_spending_txid edge)))
            edges))"

section \<open>Blocks\<close>

definition get_block_txids :: "'d rocks \<Rightarrow> bitcoin_lib \<Rightarrow> 'd chain_query \<Rightarrow> hash \<Rightarrow> (error_kind, hash list option) outcome" where
  "get_block_txids rk lib cq h =
     (if cq_light_mode cq then ok_opt (lr_block_txids (cq_rpc cq) h)
      else bind_out (full_hash h) (\<lambda>fh.
        case db_get rk (so_txstore_db (cq_store cq)) (txids_key fh) of
          None \<Rightarrow> Ok None
        | Some v \<Rightarrow> map_out Some (expect ''failed to parse block txids'' (de_txids lib v))))"

text \<open>The loop of \<open>get_block_txs\<close>: \<open>None\<close> as soon as one transaction is missing.\<close>

fun lookup_all_txns ::
  "'d rocks \<Rightarrow> bitcoin_lib \<Rightarrow> 'd chain_query \<Rightarrow> hash \<Rightarrow> hash list \<Rightarrow> (error_kind, transaction list option) outcome"
where
  "lookup_all_txns rk lib cq h [] = Ok (Some [])"
| "lookup_all_txns rk lib cq h (txid # txids) =
     bind_opt (lookup_txn rk lib cq txid (Some h)) (\<lambda>tx.
     bind_opt (lookup_all_txns rk lib cq h txids) (\<lambda>txs. Ok (Some (tx # txs))))"

definition get_block_txs :: "'d rocks \<Rightarrow> bitcoin_lib \<Rightarrow> 'd chain_query \<Rightarrow> hash \<Rightarrow> (error_kind, transaction list option) outcome" where
  "get_block_txs rk lib cq h = bind_opt (get_block_txids rk lib cq h) (lookup_all_txns rk lib cq h)"

definition get_block_meta :: "'d rocks \<Rightarrow> 'd chain_query \<Rightarrow> hash \<Rightarrow> (error_kind, block_meta option) outcome" where
  "get_block_meta rk cq h =
     (if cq_light_mode cq then ok_opt (lr_block_meta (cq_rpc cq) h)
      else bind_out (full_hash h) (\<lambda>fh.
        case db_get rk (so_txstore_db (cq_store cq)) (meta_key fh) of
          None \<Rightarrow> Ok None
        | Some v \<Rightarrow> map_out Some (expect ''failed to parse BlockMeta'' (de_block_meta v))))"

text \<open>The raw transactions of a block, one after the other; \<open>varint\<close> is the encoding of \<open>VarInt\<close>.\<close>

fun append_raw_txns :: "'d rocks \<Rightarrow> 'd chain_query \<Rightarrow> hash list \<Rightarrow> bytes \<Rightarrow> (error_kind, bytes option) outcome" where
  "append_raw_txns rk cq [] raw = Ok (Some raw)"
| "append_raw_txns rk cq (txid # txids) raw =
     bind_opt (lookup_raw_txn rk cq txid None) (\<lambda>tx. append_raw_txns rk cq txids (raw @ tx))"

definition get_block_raw ::
  "'d rocks \<Rightarrow> bitcoin_lib \<Rightarrow> (u64 \<Rightarrow> bytes) \<Rightarrow> 'd chain_query \<Rightarrow> hash \<Rightarrow> (error_kind, bytes option) outcome"
where
  "get_block_raw rk lib varint cq h =
     (if cq_light_mode cq then ok_opt (lr_block_bytes (cq_rpc cq) h)
      else bind_opt (Ok (header_by_hash cq h)) (\<lambda>entry.
           bind_opt (get_block_meta rk cq h) (\<lambda>meta.
           bind_opt (get_block_txids rk lib cq h) (\<lambda>txids.
             append_raw_txns rk cq txids
               (lib_serialize_header lib (he_header entry) @ varint (word_of_nat (length txids)))))))"

definition get_block_with_meta :: "'d rocks \<Rightarrow> 'd chain_query \<Rightarrow> hash \<Rightarrow> (error_kind, block_header_meta option) outcome" where
  "get_block_with_meta rk cq h =
     bind_opt (Ok (header_by_hash cq h)) (\<lambda>entry.
     bind_opt (get_block_meta rk cq h) (\<lambda>meta.
     bind_out (cq_get_mtp cq (he_height entry)) (\<lambda>mtp.
       Ok (Some \<lparr>bhm_header_entry = entry, bhm_meta = meta, bhm_mtp = mtp\<rparr>))))"

text \<open>\<open>merkleblock\<close> is \<open>MerkleBlock::from_header_txids_with_predicate\<close>.\<close>

definition get_merkleblock_proof ::
  "'d rocks \<Rightarrow> bitcoin_lib \<Rightarrow> (block_header \<Rightarrow> hash list \<Rightarrow> (hash \<Rightarrow> bool) \<Rightarrow> 'p) \<Rightarrow> 'd chain_query \<Rightarrow> hash
    \<Rightarrow> (error_kind, 'p option) outcome"
where
  "get_merkleblock_proof rk lib merkleblock cq txid =
     bind_opt (tx_confirming_block rk cq txid) (\<lambda>blockid.
     bind_opt (Ok (header_by_hash cq (bid_hash blockid))) (\<lambda>headerentry.
     bind_opt (get_block_txids rk lib cq (bid_hash blockid)) (\<lambda>block_txids.
       Ok (Some (merkleblock (he_header headerentry) block_txids (\<lambda>t. t = txid))))))"

section \<open>Merkle queries\<close>

definition get_tx_merkle_proof ::
  "'d rocks \<Rightarrow> bitcoin_lib \<Rightarrow> 'd chain_query \<Rightarrow> hash \<Rightarrow> hash \<Rightarrow> (error_kind, hash list \<times> nat) outcome"
where
  "get_tx_merkle_proof rk lib cq tx_hash block_hash =
     bind_out (bind_out (get_block_txids rk lib cq block_hash) (ok_or (Msg ''missing block txids''))) (\<lambda>txids.
     bind_out (ok_or (Msg ''missing txid'') (position (\<lambda>txid. txid = tx_hash) txids)) (\<lambda>pos.
     map_out (\<lambda>(branch, _). (branch, pos)) (create_merkle_branch_and_root lib txids pos)))"

definition get_header_merkle_proof ::
  "bitcoin_lib \<Rightarrow> 'd chain_query \<Rightarrow> nat \<Rightarrow> nat \<Rightarrow> (error_kind, hash list \<times> hash) outcome"
where
  "get_header_merkle_proof lib cq height cp_height =
     (if cp_height < height then Err (Msg ''cp_height below height'')
      else if best_height cq < cp_height then Err (Msg ''cp_height above best block height'')
      else bind_out (collect_out (\<lambda>h. bind_out (hash_by_height cq h) (ok_or (Msg ''missing block headers'')))
                       [0..<Suc cp_height]) (\<lambda>header_hashes.
             create_merkle_branch_and_root lib header_hashes height))"

definition get_id_from_pos ::
  "'d rocks \<Rightarrow> bitcoin_lib \<Rightarrow> 'd chain_query \<Rightarrow> nat \<Rightarrow> nat \<Rightarrow> bool \<Rightarrow> (error_kind, hash \<times> hash list) outcome"
where
  "get_id_from_pos rk lib cq height tx_pos want_merkle =
     bind_out (bind_out (hash_by_height cq height) (ok_or (Msg ''missing block''))) (\<lambda>header_hash.
     bind_out (bind_out (get_block_txids rk lib cq header_hash) (ok_or (Msg ''missing block txids''))) (\<lambda>txids.
     bind_out (ok_or (Msg ''No tx in position'') (nth_opt txids tx_pos)) (\<lambda>txid.
     bind_out (if want_merkle then map_out fst (create_merkle_branch_and_root lib txids tx_pos) else Ok []) (\<lambda>branch.
       Ok (txid, branch)))))"

section \<open>History\<close>

definition history_iter_scan ::
  "'d rocks \<Rightarrow> 'd chain_query \<Rightarrow> byte \<Rightarrow> bytes \<Rightarrow> nat \<Rightarrow> (error_kind, scan_iterator) outcome"
where
  "history_iter_scan rk cq code h start_height =
     map_out (iter_scan_from rk (so_history_db (cq_store cq)) (history_filter code h))
       (prefix_height code h (word_of_nat start_height))"

definition scan_bound :: "byte \<Rightarrow> bytes \<Rightarrow> u32 option \<Rightarrow> (error_kind, bytes) outcome" where
  "scan_bound code h start_height =
     bind_out (prefix_end code h) (\<lambda>default.
       case start_height of None \<Rightarrow> Ok default | Some height \<Rightarrow> prefix_height_end code h height)"

definition history_iter_scan_reverse ::
  "'d rocks \<Rightarrow> 'd chain_query \<Rightarrow> byte \<Rightarrow> bytes \<Rightarrow> u32 option \<Rightarrow> (error_kind, reverse_scan_iterator) outcome"
where
  "history_iter_scan_reverse rk cq code h start_height =
     map_out (iter_scan_reverse rk (so_history_db (cq_store cq)) (history_filter code h))
       (scan_bound code h start_height)"

definition history_iter_scan_group_reverse ::
  "'d rocks \<Rightarrow> 'd chain_query \<Rightarrow> byte \<Rightarrow> hash list \<Rightarrow> u32 option \<Rightarrow> (error_kind, group_iterator) outcome"
where
  "history_iter_scan_group_reverse rk cq code hashes start_height =
     map_out (\<lambda>prefixes. iter_scan_group_reverse rk (so_history_db (cq_store cq)) prefixes 33)
       (collect_out (\<lambda>h. map_out (\<lambda>b. (history_filter code h, b)) (scan_bound code h start_height)) hashes)"

text \<open>The rows of a reverse scan, of one script or of a group.\<close>

definition rows_reverse ::
  "'d rocks \<Rightarrow> 'd chain_query \<Rightarrow> byte \<Rightarrow> bytes \<Rightarrow> u32 option \<Rightarrow> (error_kind, tx_history_key list) outcome"
where
  "rows_reverse rk cq code h start_height =
     bind_out (history_iter_scan_reverse rk cq code h start_height) (\<lambda>it.
       collect_out history_from_row (reverse_collect it))"

definition rows_group_reverse ::
  "'d rocks \<Rightarrow> 'd chain_query \<Rightarrow> byte \<Rightarrow> hash list \<Rightarrow> u32 option \<Rightarrow> (error_kind, tx_history_key list) outcome"
where
  "rows_group_reverse rk cq code hashes start_height =
     bind_out (history_iter_scan_group_reverse rk cq code hashes start_height) (\<lambda>it.
     bind_out (group_collect it) (collect_out history_from_row))"

text \<open>The adaptor chain of \<open>_history\<close> and \<open>_history_group\<close>: unique transactions, behind the last seen
  one, that are confirmed in the best chain.\<close>

definition history_page ::
  "'d rocks \<Rightarrow> 'd chain_query \<Rightarrow> hash option \<Rightarrow> tx_history_key list \<Rightarrow> (error_kind, (hash \<times> block_id \<times> u16) list) outcome"
where
  "history_page rk cq last_seen_txid rows =
     filter_map_out
       (\<lambda>row. map_out (map_option (\<lambda>b. (history_txid row, b, thk_tx_position row)))
                (tx_confirming_block rk cq (history_txid row)))
       (skip_seen history_txid last_seen_txid (unique_by history_txid rows))"

text \<open>\<open>par_bridge\<close> may deliver the items of a page in any order; the list is in scan order.\<close>

definition history ::
  "'d rocks \<Rightarrow> bitcoin_lib \<Rightarrow> 'd chain_query \<Rightarrow> bytes \<Rightarrow> hash option \<Rightarrow> u32 option \<Rightarrow> nat
    \<Rightarrow> (error_kind, (error_kind, transaction \<times> block_id \<times> u16) outcome list) outcome"
where
  "history rk lib cq scripthash last_seen_txid start_height limit =
     bind_out (rows_reverse rk cq 0x48 scripthash start_height) (\<lambda>rows.
     map_out (\<lambda>page. lookup_txns rk lib cq page limit) (history_page rk cq last_seen_txid rows))"

definition history_group ::
  "'d rocks \<Rightarrow> bitcoin_lib \<Rightarrow> 'd chain_query \<Rightarrow> hash list \<Rightarrow> hash option \<Rightarrow> u32 option \<Rightarrow> nat
    \<Rightarrow> (error_kind, (error_kind, transaction \<times> block_id \<times> u16) outcome list) outcome"
where
  "history_group rk lib cq scripthashes last_seen_txid start_height limit =
     bind_out (rows_group_reverse rk cq 0x48 scripthashes start_height) (\<lambda>rows.
     map_out (\<lambda>page. lookup_txns rk lib cq page limit) (history_page rk cq last_seen_txid rows))"

definition history_txids_iter :: "'d rocks \<Rightarrow> 'd chain_query \<Rightarrow> bytes \<Rightarrow> (error_kind, hash list) outcome" where
  "history_txids_iter rk cq scripthash =
     map_out (\<lambda>rows. unique_by (\<lambda>t. t) (map history_txid rows)) (rows_reverse rk cq 0x48 scripthash None)"

definition history_txids_iter_group ::
  "'d rocks \<Rightarrow> 'd chain_query \<Rightarrow> hash list \<Rightarrow> u32 option \<Rightarrow> (error_kind, hash list) outcome"
where
  "history_txids_iter_group rk cq scripthashes start_height =
     map_out (\<lambda>rows. unique_by (\<lambda>t. t) (map history_txid rows))
       (rows_group_reverse rk cq 0x48 scripthashes start_height)"

text \<open>The rows of a forward scan.\<close>

definition rows_forward ::
  "'d rocks \<Rightarrow> 'd chain_query \<Rightarrow> byte \<Rightarrow> bytes \<Rightarrow> nat \<Rightarrow> (error_kind, tx_history_key list) outcome"
where
  "rows_forward rk cq code h start_height =
     bind_out (history_iter_scan rk cq code h start_height) (\<lambda>it.
       collect_out history_from_row (scan_collect it))"

definition history_txids ::
  "'d rocks \<Rightarrow> 'd chain_query \<Rightarrow> bytes \<Rightarrow> nat \<Rightarrow> (error_kind, (hash \<times> block_id) list) outcome"
where
  "history_txids rk cq scripthash limit =
     bind_out (rows_forward rk cq 0x48 scripthash 0) (\<lambda>rows.
     map_out (take limit)
       (filter_map_out (\<lambda>txid. map_out (map_option (\<lambda>b. (txid, b))) (tx_confirming_block rk cq txid))
          (unique_by (\<lambda>t. t) (map history_txid rows))))"

text \<open>\<open>utf8\<close> is \<open>std::str::from_utf8\<close> on the bytes of an address.\<close>

definition address_search ::
  "'d rocks \<Rightarrow> (bytes \<Rightarrow> string option) \<Rightarrow> 'd chain_query \<Rightarrow> bytes \<Rightarrow> nat \<Rightarrow> (error_kind, string list) outcome"
where
  "address_search rk utf8 cq prefix limit =
     collect_out (\<lambda>row. expect ''unwrap'' (utf8 (drop 1 (row_key row))))
       (take limit (scan_collect (iter_scan rk (so_history_db (cq_store cq)) (addr_search_filter prefix))))"

section \<open>Summaries\<close>

text \<open>\<open>i64\<close> arithmetic: \<open>try_into().unwrap_or(0)\<close> on a \<open>u64\<close>, and the saturating operations.\<close>

definition to_i64 :: "u64 \<Rightarrow> int" where
  "to_i64 v = (if uint v < 2 ^ 63 then uint v else 0)"

definition sat_i64 :: "int \<Rightarrow> int" where
  "sat_i64 x = max (- (2 ^ 63)) (min (2 ^ 63 - 1) x)"

type_synonym summary_row = "hash \<times> tx_history_info \<times> nat \<times> u32 \<times> u16"

text \<open>The \<open>HashMap\<close> of summaries, as the list of its entries in the order of insertion.\<close>

fun collate_entry :: "(hash \<times> tx_history_summary) list \<Rightarrow> summary_row \<Rightarrow> (hash \<times> tx_history_summary) list" where
  "collate_entry m (txid, info, height, time, tx_position) =
     (let apply = (\<lambda>v. case info of
                     Funding i \<Rightarrow> sat_i64 (v + to_i64 (fu_value i))
                   | Spending i \<Rightarrow> sat_i64 (v - to_i64 (sp_value i)));
          fresh = (case info of
                     Funding i \<Rightarrow> to_i64 (fu_value i)
                   | Spending i \<Rightarrow> sat_i64 (0 - to_i64 (sp_value i)))
      in if txid \<in> fst ` set m
         then map (\<lambda>(t, tx). (t, if t = txid then tx\<lparr>ths_value := apply (ths_value tx)\<rparr> else tx)) m
         else m @ [(txid, \<lparr>ths_txid = txid, ths_height = height, ths_value = fresh, ths_time = time,
                           ths_tx_position = tx_position\<rparr>)])"

fun collate_loop ::
  "nat \<Rightarrow> (hash \<times> tx_history_summary) list \<Rightarrow> summary_row list \<Rightarrow> (hash \<times> tx_history_summary) list"
where
  "collate_loop limit m [] = m"
| "collate_loop limit m (row # rows) =
     (if fst row \<notin> fst ` set m \<and> limit \<le> length m then m
      else collate_loop limit (collate_entry m row) rows)"

text \<open>The comparison of \<open>sort_by\<close>: height and position downwards, then value upwards.\<close>

definition sort_summaries :: "tx_history_summary list \<Rightarrow> tx_history_summary list" where
  "sort_summaries = sort_key (\<lambda>t. (- int (ths_height t), - uint (ths_tx_position t), ths_value t))"

text \<open>The pages of \<open>collate_summaries\<close> skip every row of the last seen transaction.\<close>

definition skip_seen_all :: "('a \<Rightarrow> 'k) \<Rightarrow> 'k option \<Rightarrow> 'a list \<Rightarrow> 'a list" where
  "skip_seen_all f last_seen xs =
     dropWhile (\<lambda>x. last_seen = Some (f x)) (dropWhile (\<lambda>x. last_seen \<noteq> None \<and> last_seen \<noteq> Some (f x)) xs)"

definition collate_rows ::
  "'d rocks \<Rightarrow> 'd chain_query \<Rightarrow> tx_history_key list \<Rightarrow> hash option \<Rightarrow> (error_kind, summary_row list) outcome"
where
  "collate_rows rk cq iter last_seen_txid =
     filter_map_out
       (\<lambda>(txid, info, tx_position).
          map_out (map_option (\<lambda>b. (txid, info, bid_height b, bid_time b, tx_position)))
            (tx_confirming_block rk cq txid))
       (skip_seen_all fst last_seen_txid
          (unique_by (\<lambda>(txid, info, _). (txid, hi_vin_or_vout info, hi_has_vin info))
             (map (\<lambda>row. (history_txid row, thk_txinfo row, thk_tx_position row)) iter)))"

definition collate_summaries ::
  "'d rocks \<Rightarrow> 'd chain_query \<Rightarrow> tx_history_key list \<Rightarrow> hash option \<Rightarrow> nat \<Rightarrow> (error_kind, tx_history_summary list) outcome"
where
  "collate_summaries rk cq iter last_seen_txid limit =
     map_out (\<lambda>rows. sort_summaries (map snd (collate_loop limit [] rows)))
       (collate_rows rk cq iter last_seen_txid)"

definition summary ::
  "'d rocks \<Rightarrow> 'd chain_query \<Rightarrow> bytes \<Rightarrow> hash option \<Rightarrow> u32 option \<Rightarrow> nat \<Rightarrow> (error_kind, tx_history_summary list) outcome"
where
  "summary rk cq scripthash last_seen_txid start_height limit =
     bind_out (rows_reverse rk cq 0x48 scripthash start_height) (\<lambda>rows.
       collate_summaries rk cq rows last_seen_txid limit)"

definition summary_group ::
  "'d rocks \<Rightarrow> 'd chain_query \<Rightarrow> hash list \<Rightarrow> hash option \<Rightarrow> u32 option \<Rightarrow> nat \<Rightarrow> (error_kind, tx_history_summary list) outcome"
where
  "summary_group rk cq scripthashes last_seen_txid start_height limit =
     bind_out (rows_group_reverse rk cq 0x48 scripthashes start_height) (\<lambda>rows.
       collate_summaries rk cq rows last_seen_txid limit)"

section \<open>Parsing the rows of a scan\<close>

lemma fst_set_items: "finite (dom m) \<Longrightarrow> set (map fst (items m S)) = dom m \<inter> S"
  by (simp add: items_def comp_def)

context codec begin

lemma parse_items:
  assumes "\<forall>x\<in>set xs. \<exists>c. ok c \<and> enc c = fst x"
    and "\<forall>c v. ok c \<longrightarrow> parse \<lparr>row_key = enc c, row_value = v\<rparr> = Ok c"
  shows "\<exists>cs. collect_out parse (map row_of xs) = Ok cs \<and> map enc cs = map fst xs \<and> list_all ok cs"
  using assms(1)
proof (induction xs)
  case (Cons x xs)
  then obtain c cs where "ok c" "enc c = fst x" "collect_out parse (map row_of xs) = Ok cs"
      "map enc cs = map fst xs" "list_all ok cs" by auto
  moreover have "parse (row_of x) = Ok c"
    using assms(2) \<open>ok c\<close> \<open>enc c = fst x\<close> by (cases x) (auto simp: row_of_def)
  ultimately show ?case by (intro exI [of _ "c # cs"]) simp
qed simp

text \<open>A scan over rows that encode entries delivers exactly the entries whose keys are in its range.\<close>

lemma parse_scan:
  assumes fin: "finite (dom m)" and rows: "\<forall>k\<in>dom m \<inter> S. \<exists>c. ok c \<and> enc c = k"
    and parse: "\<forall>c v. ok c \<longrightarrow> parse \<lparr>row_key = enc c, row_value = v\<rparr> = Ok c"
  shows "\<exists>cs. collect_out parse (map row_of (items m S)) = Ok cs \<and> map enc cs = map fst (items m S)
    \<and> (\<forall>c. c \<in> set cs \<longleftrightarrow> ok c \<and> enc c \<in> dom m \<inter> S)"
proof -
  have "\<forall>x\<in>set (items m S). \<exists>c. ok c \<and> enc c = fst x"
    using rows fst_set_items [OF fin, of S] by (metis image_eqI list.set_map)
  then obtain cs where cs: "collect_out parse (map row_of (items m S)) = Ok cs"
      "map enc cs = map fst (items m S)" "list_all ok cs"
    using parse_items parse by blast
  have keys: "enc ` set cs = dom m \<inter> S" using fst_set_items [OF fin, of S] cs(2) by (metis list.set_map)
  have "c \<in> set cs" if c: "ok c" "enc c \<in> dom m \<inter> S" for c
  proof -
    obtain c' where "c' \<in> set cs" "enc c' = enc c" using c(2) keys by (metis imageE)
    then show ?thesis using c(1) cs(3) enc_inject by (metis list_all_iff)
  qed
  moreover have "ok c \<and> enc c \<in> dom m \<inter> S" if "c \<in> set cs" for c
    using that cs(3) keys by (auto simp: list_all_iff)
  ultimately show ?thesis using cs(1,2) by blast
qed

end

text \<open>
  What the indexer keeps in the databases: under a confirmation, edge or history prefix there are only
  keys that encode such an entry.
\<close>

definition conf_rows_ok :: "(bytes \<rightharpoonup> bytes) \<Rightarrow> hash \<Rightarrow> bool" where
  "conf_rows_ok m txid \<longleftrightarrow>
     (\<forall>k\<in>dom m. starts_with k (tx_conf_filter txid) \<longrightarrow> (\<exists>c. conf_ok c \<and> ser_tx_conf_key c = k))"

definition edge_rows_ok :: "(bytes \<rightharpoonup> bytes) \<Rightarrow> out_point \<Rightarrow> bool" where
  "edge_rows_ok m pt \<longleftrightarrow>
     (\<forall>k\<in>dom m. starts_with k (edge_filter pt) \<longrightarrow> (\<exists>e. edge_ok e \<and> ser_tx_edge_key e = k))"

definition history_rows_ok :: "(bytes \<rightharpoonup> bytes) \<Rightarrow> hash \<Rightarrow> bool" where
  "history_rows_ok m sh \<longleftrightarrow>
     (\<forall>k\<in>dom m. starts_with k (history_filter 0x48 sh) \<longrightarrow> (\<exists>h. history_ok h \<and> ser_history_key h = k))"

text \<open>The blocks of the best chain that confirm a transaction.\<close>

definition confirmed_in :: "(bytes \<rightharpoonup> bytes) \<Rightarrow> header_list \<Rightarrow> hash \<Rightarrow> header_entry \<Rightarrow> bool" where
  "confirmed_in m hl txid e \<longleftrightarrow>
     e \<in> set (hl_headers hl)
     \<and> m (ser_tx_conf_key \<lparr>tck_code = 0x43, tck_txid = txid, tck_blockhash = he_hash e\<rparr>) \<noteq> None"

lemma tx_conf_parse: "conf_ok c \<Longrightarrow> tx_conf_from_row \<lparr>row_key = ser_tx_conf_key c, row_value = v\<rparr> = Ok c"
  by (simp add: tx_conf_from_row_def tx_conf_codec.decode_full)

lemma edge_parse: "edge_ok e \<Longrightarrow> edge_from_row \<lparr>row_key = ser_tx_edge_key e, row_value = v\<rparr> = Ok e"
  by (simp add: edge_from_row_def edge_codec.decode_full)

lemma history_parse: "history_ok h \<Longrightarrow> history_from_row \<lparr>row_key = ser_history_key h, row_value = v\<rparr> = Ok h"
  by (simp add: history_from_row_def history_codec.decode_full)

lemma first_opt_map_filter:
  "first_opt (List.map_filter f xs) = None \<longleftrightarrow> (\<forall>x\<in>set xs. f x = None)"
  "first_opt (List.map_filter f xs) = Some y \<Longrightarrow> \<exists>x\<in>set xs. f x = Some y"
  by (induction xs) (auto simp: map_filter_simps split: option.splits)

lemma tx_confirming_block_spec:
  assumes rk: "rocksdb rk kv" and wf: "wf_headers lib (cq_headers cq)" and txid: "hash_ok txid"
    and rows: "conf_rows_ok (kv (so_txstore_db (cq_store cq))) txid"
    and hashes: "\<forall>e\<in>set (hl_headers (cq_headers cq)). hash_ok (he_hash e)"
  shows "\<exists>r. tx_confirming_block rk cq txid = Ok r
    \<and> (r = None \<longleftrightarrow> (\<forall>e. \<not> confirmed_in (kv (so_txstore_db (cq_store cq))) (cq_headers cq) txid e))
    \<and> (\<forall>b. r = Some b \<longrightarrow> (\<exists>e. confirmed_in (kv (so_txstore_db (cq_store cq))) (cq_headers cq) txid e \<and> b = blockid_of e))"
proof -
  let ?m = "kv (so_txstore_db (cq_store cq))" and ?S = "{k. starts_with k (tx_conf_filter txid)}"
  let ?hl = "cq_headers cq"
  have fin: "finite (dom ?m)" by (rule rocksdb.finite_kv [OF rk])
  obtain cs where cs: "collect_out tx_conf_from_row (map row_of (items ?m ?S)) = Ok cs"
      "\<forall>c. c \<in> set cs \<longleftrightarrow> conf_ok c \<and> ser_tx_conf_key c \<in> dom ?m \<inter> ?S"
    using tx_conf_codec.parse_scan [OF fin, of ?S tx_conf_from_row] rows tx_conf_parse
    by (auto simp: conf_rows_ok_def)
  have inv: "c \<in> set cs \<longleftrightarrow> conf_ok c \<and> tck_code c = 0x43 \<and> tck_txid c = txid \<and> ?m (ser_tx_conf_key c) \<noteq> None" for c
    using cs(2) tx_conf_starts_with [of c, OF _ txid] by auto
  let ?f = "\<lambda>conf. header_by_blockhash ?hl (tck_blockhash conf)"
  have conf: "confirmed_in ?m ?hl txid e \<longleftrightarrow> (\<exists>c\<in>set cs. ?f c = Some e)" for e
  proof
    assume e: "confirmed_in ?m ?hl txid e"
    let ?c = "\<lparr>tck_code = 0x43, tck_txid = txid, tck_blockhash = he_hash e\<rparr>"
    have "?c \<in> set cs" using e inv [of ?c] hashes txid by (auto simp: confirmed_in_def)
    moreover have "?f ?c = Some e" using e header_by_blockhash_Some [OF wf] by (auto simp: confirmed_in_def)
    ultimately show "\<exists>c\<in>set cs. ?f c = Some e" by blast
  next
    assume "\<exists>c\<in>set cs. ?f c = Some e"
    then obtain c where c: "c \<in> set cs" "?f c = Some e" by blast
    then have "e \<in> set (hl_headers ?hl)" "he_hash e = tck_blockhash c" using header_by_blockhash_Some [OF wf] by auto
    moreover have eq: "\<lparr>tck_code = 0x43, tck_txid = txid, tck_blockhash = tck_blockhash c\<rparr> = c"
      using c(1) inv [of c] by (intro tx_conf_key.equality) simp_all
    ultimately show "confirmed_in ?m ?hl txid e" using c(1) inv [of c] by (simp add: confirmed_in_def eq)
  qed
  have "tx_confirming_block rk cq txid = Ok (map_option blockid_of (first_opt (List.map_filter ?f cs)))"
    using cs(1) rocksdb.db_rows(1) [OF rk] by (simp add: tx_confirming_block_def)
  then show ?thesis using conf first_opt_map_filter [of ?f cs] by auto
qed

lemma filter_map_out_ok:
  assumes "\<forall>x\<in>set xs. \<exists>r. f x = Ok r"
  shows "filter_map_out f xs = Ok (List.map_filter (\<lambda>x. case f x of Ok r \<Rightarrow> r | _ \<Rightarrow> None) xs)"
  using assms by (intro filter_map_out_total) force

text \<open>The confirmation lookup as a function, where it does not panic.\<close>

definition confirming :: "'d rocks \<Rightarrow> 'd chain_query \<Rightarrow> hash \<Rightarrow> block_id option" where
  "confirming rk cq txid = (case tx_confirming_block rk cq txid of Ok r \<Rightarrow> r | _ \<Rightarrow> None)"

lemma lookup_spend_spec:
  assumes rk: "rocksdb rk kv" and pt: "hash_ok (op_txid pt)"
    and rows: "edge_rows_ok (kv (so_history_db (cq_store cq))) pt"
    and confs: "\<forall>txid. hash_ok txid \<longrightarrow> tx_confirming_block rk cq txid = Ok (confirming rk cq txid)"
  shows "\<exists>r. lookup_spend rk cq pt = Ok r
    \<and> (r = None \<longleftrightarrow> (\<forall>txid vin. hash_ok txid \<longrightarrow>
          kv (so_history_db (cq_store cq)) (ser_tx_edge_key (edge_new (op_txid pt) (op_vout pt) txid vin)) \<noteq> None
            \<longrightarrow> confirming rk cq txid = None))
    \<and> (\<forall>s. r = Some s \<longrightarrow> hash_ok (si_txid s) \<and>
          kv (so_history_db (cq_store cq)) (ser_tx_edge_key (edge_new (op_txid pt) (op_vout pt) (si_txid s) (si_vin s))) \<noteq> None
          \<and> (\<exists>b. confirming rk cq (si_txid s) = Some b \<and> si_confirmed s = Some b))"
proof -
  let ?m = "kv (so_history_db (cq_store cq))" and ?S = "{k. starts_with k (edge_filter pt)}"
  let ?g = "\<lambda>edge. map_option (\<lambda>b. \<lparr>si_txid = tek_spending_txid edge, si_vin = tek_spending_vin edge, si_confirmed = Some b\<rparr>)
      (confirming rk cq (tek_spending_txid edge))"
  have fin: "finite (dom ?m)" by (rule rocksdb.finite_kv [OF rk])
  obtain es where es: "collect_out edge_from_row (map row_of (items ?m ?S)) = Ok es"
      "\<forall>e. e \<in> set es \<longleftrightarrow> edge_ok e \<and> ser_tx_edge_key e \<in> dom ?m \<inter> ?S"
    using edge_codec.parse_scan [OF fin, of ?S edge_from_row] rows edge_parse by (auto simp: edge_rows_ok_def)
  have inv: "e \<in> set es \<longleftrightarrow> (\<exists>txid vin. hash_ok txid \<and> e = edge_new (op_txid pt) (op_vout pt) txid vin \<and> ?m (ser_tx_edge_key e) \<noteq> None)" for e
    using es(2) edge_starts_with [of e pt] pt by (cases e) (auto simp: edge_new_def)
  have "filter_map_out (\<lambda>edge. map_out (map_option (\<lambda>b. \<lparr>si_txid = tek_spending_txid edge, si_vin = tek_spending_vin edge,
        si_confirmed = Some b\<rparr>)) (tx_confirming_block rk cq (tek_spending_txid edge))) es
      = Ok (List.map_filter ?g es)"
    using confs es(2) by (intro filter_map_out_total) simp
  then have r: "lookup_spend rk cq pt = Ok (first_opt (List.map_filter ?g es))"
    using es(1) rocksdb.db_rows(1) [OF rk] by (simp add: lookup_spend_def)
  have none: "first_opt (List.map_filter ?g es) = None \<longleftrightarrow> (\<forall>txid vin. hash_ok txid \<longrightarrow>
      ?m (ser_tx_edge_key (edge_new (op_txid pt) (op_vout pt) txid vin)) \<noteq> None \<longrightarrow> confirming rk cq txid = None)"
  proof -
    have "first_opt (List.map_filter ?g es) = None \<longleftrightarrow> (\<forall>e\<in>set es. confirming rk cq (tek_spending_txid e) = None)"
      unfolding first_opt_map_filter by simp
    also have "\<dots> \<longleftrightarrow> (\<forall>txid vin. hash_ok txid \<longrightarrow>
      ?m (ser_tx_edge_key (edge_new (op_txid pt) (op_vout pt) txid vin)) \<noteq> None \<longrightarrow> confirming rk cq txid = None)"
    proof (intro iffI allI impI ballI)
      fix txid vin assume none: "\<forall>e\<in>set es. confirming rk cq (tek_spending_txid e) = None" and "hash_ok txid"
        and "?m (ser_tx_edge_key (edge_new (op_txid pt) (op_vout pt) txid vin)) \<noteq> None"
      then have "edge_new (op_txid pt) (op_vout pt) txid vin \<in> set es" using inv by blast
      with none show "confirming rk cq txid = None" by (force simp: edge_new_def)
    next
      fix e assume "\<forall>txid vin. hash_ok txid \<longrightarrow>
          ?m (ser_tx_edge_key (edge_new (op_txid pt) (op_vout pt) txid vin)) \<noteq> None \<longrightarrow> confirming rk cq txid = None"
        and "e \<in> set es"
      then show "confirming rk cq (tek_spending_txid e) = None" using inv [of e] by (auto simp: edge_new_def)
    qed
    finally show ?thesis .
  qed
  have some: "hash_ok (si_txid s) \<and> ?m (ser_tx_edge_key (edge_new (op_txid pt) (op_vout pt) (si_txid s) (si_vin s))) \<noteq> None
      \<and> (\<exists>b. confirming rk cq (si_txid s) = Some b \<and> si_confirmed s = Some b)"
    if s: "first_opt (List.map_filter ?g es) = Some s" for s
  proof -
    obtain e where "e \<in> set es" "?g e = Some s" using first_opt_map_filter(2) [OF s] by blast
    then show ?thesis using inv [of e] by (auto simp: edge_new_def)
  qed
  show ?thesis unfolding r
    by (rule exI [of _ "first_opt (List.map_filter ?g es)"], intro conjI)
      (rule refl, rule none, intro allI impI, rule some)
qed

lemma map_filter_append: "List.map_filter f (xs @ ys) = List.map_filter f xs @ List.map_filter f ys"
  by (induction xs) (auto simp: map_filter_simps split: option.splits)

lemma map_filter_nth:
  "i < length (List.map_filter f xs) \<Longrightarrow>
     \<exists>as x bs. xs = as @ x # bs \<and> f x = Some (List.map_filter f xs ! i) \<and> length (List.map_filter f as) = i"
proof (induction xs arbitrary: i)
  case (Cons a xs)
  show ?case
  proof (cases "f a")
    case None
    then have "i < length (List.map_filter f xs)" using Cons.prems by (simp add: map_filter_simps)
    then obtain as x bs where "xs = as @ x # bs" "f x = Some (List.map_filter f xs ! i)" "length (List.map_filter f as) = i"
      using Cons.IH by blast
    then show ?thesis using None by (intro exI [of _ "a # as"]) (auto simp: map_filter_simps)
  next
    case (Some v)
    show ?thesis
    proof (cases i)
      case 0
      then show ?thesis using Some by (intro exI [of _ "[]"]) (auto simp: map_filter_simps)
    next
      case (Suc j)
      then have "j < length (List.map_filter f xs)" using Cons.prems Some by (simp add: map_filter_simps)
      then obtain as x bs where "xs = as @ x # bs" "f x = Some (List.map_filter f xs ! j)" "length (List.map_filter f as) = j"
        using Cons.IH by blast
      then show ?thesis using Some Suc by (intro exI [of _ "a # as"]) (auto simp: map_filter_simps)
    qed
  qed
qed (simp add: map_filter_simps)

section \<open>Pages of a history\<close>

lemma history_page_rest:
  assumes conf: "\<forall>row\<in>set rows. tx_confirming_block rk cq (history_txid row) = Ok (confirming rk cq (history_txid row))"
    and all: "history_page rk cq None rows = Ok page" and i: "i < length page"
  shows "history_page rk cq (Some (fst (page ! i))) rows = Ok (drop (Suc i) page)"
proof -
  let ?u = "unique_by history_txid rows"
  let ?g = "\<lambda>row. map_option (\<lambda>b. (history_txid row, b, thk_tx_position row)) (confirming rk cq (history_txid row))"
  have run: "filter_map_out (\<lambda>row. map_out (map_option (\<lambda>b. (history_txid row, b, thk_tx_position row)))
        (tx_confirming_block rk cq (history_txid row))) xs = Ok (List.map_filter ?g xs)" if "set xs \<subseteq> set rows" for xs
    using that conf by (intro filter_map_out_total) auto
  have page: "page = List.map_filter ?g ?u"
    using all run [of ?u, OF unique_by_subset] by (simp add: history_page_def skip_seen_def)
  have "i < length (List.map_filter ?g ?u)" using i page by simp
  from map_filter_nth [OF this]
  obtain xs y ys where y: "?u = xs @ y # ys" "?g y = Some (page ! i)" "length (List.map_filter ?g xs) = i"
    unfolding page [symmetric] by blast
  have dis: "distinct (map history_txid ?u)" by (rule unique_by_distinct)
  then have "history_txid y \<notin> history_txid ` set xs" using y(1) by auto
  moreover have key: "fst (page ! i) = history_txid y" using y(2) by (metis (no_types, lifting) fst_conv map_option_eq_Some)
  ultimately have skip: "skip_seen history_txid (Some (fst (page ! i))) ?u = ys"
    using skip_seen_after [of history_txid y xs ys] y(1) by simp
  have sub: "set ys \<subseteq> set rows" using y(1) unique_by_subset [of history_txid rows] by (metis Un_iff insert_iff list.simps(15) set_append subset_iff)
  have "List.map_filter ?g (y # ys) = (page ! i) # List.map_filter ?g ys" using y(2) by (auto simp: map_filter_simps)
  then have "page = List.map_filter ?g xs @ (page ! i) # List.map_filter ?g ys"
    using page y(1) by (metis map_filter_append)
  then have "drop (Suc i) page = drop (Suc i) (List.map_filter ?g xs @ (page ! i) # List.map_filter ?g ys)"
    by (rule arg_cong)
  also have "\<dots> = List.map_filter ?g ys" using y(3) by simp
  finally have "drop (Suc i) page = List.map_filter ?g ys" .
  then show ?thesis using run [OF sub] skip by (simp add: history_page_def)
qed

lemma distinct_filtered_keys:
  assumes "distinct (map f xs)" "\<forall>x y. g x = Some y \<longrightarrow> h y = f x"
  shows "distinct (map h (List.map_filter g xs))"
proof -
  have sub: "h ` set (List.map_filter g ys) \<subseteq> f ` set ys" for ys
    using assms(2) by (induction ys) (force simp: map_filter_simps split: option.splits)+
  show ?thesis using assms(1)
  proof (induction xs)
    case (Cons x xs)
    then show ?case using sub [of xs] assms(2) by (auto simp: map_filter_simps split: option.splits)
  qed (simp add: map_filter_simps)
qed

lemma history_page_distinct:
  assumes "\<forall>row\<in>set rows. tx_confirming_block rk cq (history_txid row) = Ok (confirming rk cq (history_txid row))"
    and "history_page rk cq None rows = Ok page"
  shows "distinct (map fst page)"
proof -
  let ?g = "\<lambda>row. map_option (\<lambda>b. (history_txid row, b, thk_tx_position row)) (confirming rk cq (history_txid row))"
  have "history_page rk cq None rows = Ok (List.map_filter ?g (unique_by history_txid rows))"
    unfolding history_page_def skip_seen_def option.case
    by (rule filter_map_out_total) (use assms(1) unique_by_subset [of history_txid rows] in auto)
  then have "page = List.map_filter ?g (unique_by history_txid rows)" using assms(2) by simp
  then show ?thesis using distinct_filtered_keys [OF unique_by_distinct [of history_txid rows], of ?g fst] by auto
qed

section \<open>Reading a block back\<close>

lemma added_row:
  assumes "rocksdb rk kv" "ids_unique lib blocks" "r \<in> set (add_blocks lib ic blocks)"
  shows "db_get rk (so_txstore_db (indexer_add rk lib ic fl AddBlocks blocks s)) (row_key r) = Some (row_value r)"
proof -
  have c: "consistent_rows (add_blocks lib ic blocks)" by (rule add_blocks_consistent [OF assms(2)])
  then have "rows_map (add_blocks lib ic blocks) (row_key r) = Some (row_value r)"
    using rows_map_Some [OF c] assms(3) by blast
  then show ?thesis
    using rocksdb.db_rows(4) [OF assms(1)] rocksdb.db_write_kv [OF assms(1) c]
    by (simp add: indexer_add_def Let_def)
qed

lemma lookup_all_txns_found:
  assumes "\<forall>tx\<in>set txs. lookup_txn rk lib cq (get_txid lib tx) (Some h) = Ok (Some tx)"
  shows "lookup_all_txns rk lib cq h (map (get_txid lib) txs) = Ok (Some txs)"
  using assms by (induction txs) simp_all

lemma append_raw_txns_found:
  assumes "\<forall>tx\<in>set txs. lookup_raw_txn rk cq (get_txid lib tx) None = Ok (Some (f tx))"
  shows "append_raw_txns rk cq (map (get_txid lib) txs) raw = Ok (Some (raw @ concat (map f txs)))"
  using assms by (induction txs arbitrary: raw) simp_all

lemma block_rows_added:
  assumes "b \<in> set blocks" "\<not> ic_light_mode ic"
  shows "block_into_row (block_new_txids lib (he_hash (be_entry b)) (map (get_txid lib) (blk_txdata (be_block b)))) \<in> set (add_blocks lib ic blocks)"
    and "block_into_row (block_new_meta (he_hash (be_entry b)) (block_meta_of lib b)) \<in> set (add_blocks lib ic blocks)"
    and "tx \<in> set (blk_txdata (be_block b)) \<Longrightarrow> tx_row_into_row (tx_row_new lib tx) \<in> set (add_blocks lib ic blocks)"
proof -
  have sub: "set (add_block lib ic b) \<subseteq> set (add_blocks lib ic blocks)" using assms(1) by (auto simp: add_blocks_def)
  show "block_into_row (block_new_txids lib (he_hash (be_entry b)) (map (get_txid lib) (blk_txdata (be_block b)))) \<in> set (add_blocks lib ic blocks)"
    and "block_into_row (block_new_meta (he_hash (be_entry b)) (block_meta_of lib b)) \<in> set (add_blocks lib ic blocks)"
    using assms(2) by (auto intro!: subsetD [OF sub] simp: add_block_def Let_def)
  assume "tx \<in> set (blk_txdata (be_block b))"
  then show "tx_row_into_row (tx_row_new lib tx) \<in> set (add_blocks lib ic blocks)"
    using assms(2) by (intro subsetD [OF sub]) (auto simp: add_block_def add_transaction_def Let_def)
qed

lemma read_back:
  assumes rk: "rocksdb rk kv" and serde: "hash_serde lib" and ids: "ids_unique lib blocks" and b: "b \<in> set blocks"
    and nl: "\<not> ic_light_mode ic" "\<not> cq_light_mode cq"
    and st: "so_txstore_db (cq_store cq) = so_txstore_db (indexer_add rk lib ic fl AddBlocks blocks s)"
    and n: "length (blk_txdata (be_block b)) < 2 ^ 64"
  shows "get_block_txids rk lib cq (he_hash (be_entry b)) = Ok (Some (map (get_txid lib) (blk_txdata (be_block b))))"
    and "get_block_meta rk cq (he_hash (be_entry b)) = Ok (Some (block_meta_of lib b))"
    and "tx \<in> set (blk_txdata (be_block b)) \<Longrightarrow>
      lookup_raw_txn rk cq (get_txid lib tx) h = Ok (Some (lib_serialize_tx lib tx))"
proof -
  note row = added_row [OF rk ids, where fl = fl and s = s]
  note rows = row [OF block_rows_added(1) [OF b nl(1)]] row [OF block_rows_added(2) [OF b nl(1)]]
    row [OF block_rows_added(3) [OF b nl(1)]]
  have hash: "hash_ok (he_hash (be_entry b))" using ids b by (simp add: ids_unique_def)
  have "list_all hash_ok (map (get_txid lib) (blk_txdata (be_block b)))"
    using ids b by (auto simp: ids_unique_def list_all_iff)
  then have "de_seq (lib_de_hash lib) (ser_seq (lib_ser_hash lib) (map (get_txid lib) (blk_txdata (be_block b))) @ [])
      = Some (map (get_txid lib) (blk_txdata (be_block b)), [])"
    by (rule codec.de_seq_enc [OF hash_serde_codec [OF serde]]) (use n in simp)
  then have "de_txids lib (ser_txids lib (map (get_txid lib) (blk_txdata (be_block b))))
      = Some (map (get_txid lib) (blk_txdata (be_block b)))"
    by (simp add: de_txids_def ser_txids_def)
  then show "get_block_txids rk lib cq (he_hash (be_entry b)) = Ok (Some (map (get_txid lib) (blk_txdata (be_block b))))"
    using rows(1) nl(2) hash
    by (simp add: st get_block_txids_def txids_key_def block_into_row_def block_new_txids_def ser_block_key_def ser_u8_def)
  have "de_u32 Little (ser_u32 Little w) = Some (w, [])" for w using de_ser_u32 [of Little w "[]"] by simp
  then show "get_block_meta rk cq (he_hash (be_entry b)) = Ok (Some (block_meta_of lib b))"
    using rows(2) nl(2) hash
    by (simp add: st get_block_meta_def meta_key_def block_into_row_def block_new_meta_def ser_block_key_def ser_u8_def
        de_block_meta_def ser_block_meta_def)
  assume "tx \<in> set (blk_txdata (be_block b))"
  from rows(3) [OF this] show "lookup_raw_txn rk cq (get_txid lib tx) h = Ok (Some (lib_serialize_tx lib tx))"
    using nl(2) by (simp add: st lookup_raw_txn_def tx_row_key_of_def tx_row_into_row_def tx_row_new_def ser_tx_row_key_def ser_u8_def)
qed

section \<open>Collating a history\<close>

text \<open>The net effect of the rows of one transaction, and a bound that keeps it inside \<open>i64\<close>.\<close>

fun row_effect :: "tx_history_info \<Rightarrow> int" where
  "row_effect (Funding i) = uint (fu_value i)"
| "row_effect (Spending i) = - uint (sp_value i)"

definition net_value :: "summary_row list \<Rightarrow> int" where
  "net_value rows = sum_list (map (\<lambda>row. row_effect (fst (snd row))) rows)"

definition moved_value :: "summary_row list \<Rightarrow> int" where
  "moved_value rows = sum_list (map (\<lambda>row. \<bar>row_effect (fst (snd row))\<bar>) rows)"

text \<open>The rows of one transaction: they agree on everything but the entry itself.\<close>

definition tx_group :: "summary_row list \<Rightarrow> bool" where
  "tx_group rows \<longleftrightarrow> rows \<noteq> [] \<and> moved_value rows < 2 ^ 63
     \<and> (\<forall>row\<in>set rows. fst row = fst (hd rows) \<and> snd (snd row) = snd (snd (hd rows)))"

definition group_summary :: "summary_row list \<Rightarrow> tx_history_summary" where
  "group_summary rows = (case hd rows of (txid, _, height, time, pos) \<Rightarrow>
     \<lparr>ths_txid = txid, ths_height = height, ths_value = net_value rows, ths_time = time, ths_tx_position = pos\<rparr>)"

lemma sat_i64_id: "\<bar>x\<bar> < 2 ^ 63 \<Longrightarrow> sat_i64 x = x"
  by (simp add: sat_i64_def)

lemma moved_nonneg: "0 \<le> moved_value rows"
  unfolding moved_value_def by (rule sum_list_nonneg) auto

lemma row_value_bound:
  assumes "\<bar>row_effect info\<bar> < 2 ^ 63"
  shows "(case info of Funding i \<Rightarrow> v + to_i64 (fu_value i) | Spending i \<Rightarrow> v - to_i64 (sp_value i)) = v + row_effect info"
  using assms by (cases info) (auto simp: to_i64_def)

text \<open>Folding the remaining rows of a transaction into its entry.\<close>

lemma collate_rest:
  assumes "\<forall>row\<in>set rows. fst row = txid" and "\<bar>v\<bar> + moved_value rows < 2 ^ 63"
    and "txid \<notin> fst ` set m"
  shows "collate_loop limit (m @ [(txid, s\<lparr>ths_value := v\<rparr>)]) (rows @ rest)
    = collate_loop limit (m @ [(txid, s\<lparr>ths_value := v + net_value rows\<rparr>)]) rest"
  using assms(1,2)
proof (induction rows arbitrary: v)
  case Nil
  then show ?case by (simp add: net_value_def)
next
  case (Cons row rows)
  obtain info height time pos where row: "row = (txid, info, height, time, pos)" using Cons.prems(1) by (cases row) auto
  have bound: "\<bar>v\<bar> + \<bar>row_effect info\<bar> + moved_value rows < 2 ^ 63"
    using Cons.prems(2) by (simp add: moved_value_def row)
  then have small: "\<bar>row_effect info\<bar> < 2 ^ 63" "\<bar>v + row_effect info\<bar> < 2 ^ 63" using moved_nonneg [of rows] by linarith+
  have val: "(case info of Funding i \<Rightarrow> sat_i64 (v + to_i64 (fu_value i)) | Spending i \<Rightarrow> sat_i64 (v - to_i64 (sp_value i)))
      = v + row_effect info"
    using row_value_bound [OF small(1), of v] sat_i64_id [OF small(2)] by (cases info) auto
  have other: "map (\<lambda>(t, tx). (t, if t = txid then f tx else tx)) m = m" for f :: "tx_history_summary \<Rightarrow> tx_history_summary"
    using assms(3) by (induction m) auto
  have "collate_entry (m @ [(txid, s\<lparr>ths_value := v\<rparr>)]) row = m @ [(txid, s\<lparr>ths_value := v + row_effect info\<rparr>)]"
    unfolding row using val other by (simp add: Let_def)
  moreover have "\<bar>v + row_effect info\<bar> + moved_value rows < 2 ^ 63" using bound by linarith
  ultimately show ?case
    using Cons.IH [of "v + row_effect info"] Cons.prems(1) by (simp add: row net_value_def add.assoc)
qed

lemma collate_group:
  assumes "tx_group rows" "fst (hd rows) \<notin> fst ` set m" "length m < limit"
  shows "collate_loop limit m (rows @ rest) = collate_loop limit (m @ [(fst (hd rows), group_summary rows)]) rest"
proof -
  obtain txid info height time pos rows' where r: "rows = (txid, info, height, time, pos) # rows'"
    using assms(1) by (cases rows) (auto simp: tx_group_def)
  have same: "\<forall>row\<in>set rows'. fst row = txid" using assms(1) r by (auto simp: tx_group_def)
  have bound: "\<bar>row_effect info\<bar> + moved_value rows' < 2 ^ 63"
    using assms(1) r by (simp add: tx_group_def moved_value_def)
  then have small: "\<bar>row_effect info\<bar> < 2 ^ 63" using moved_nonneg [of rows'] by linarith
  let ?s = "\<lparr>ths_txid = txid, ths_height = height, ths_value = 0, ths_time = time, ths_tx_position = pos\<rparr>"
  have fresh: "(case info of Funding i \<Rightarrow> to_i64 (fu_value i) | Spending i \<Rightarrow> sat_i64 (0 - to_i64 (sp_value i))) = row_effect info"
    using row_value_bound [OF small, of 0] sat_i64_id [OF small] by (cases info) auto
  have entry: "collate_entry m (txid, info, height, time, pos) = m @ [(txid, ?s\<lparr>ths_value := row_effect info\<rparr>)]"
    using assms(2) fresh by (simp add: r Let_def)
  have "collate_loop limit m (rows @ rest) = collate_loop limit (m @ [(txid, ?s\<lparr>ths_value := row_effect info\<rparr>)]) (rows' @ rest)"
    unfolding r append_Cons collate_loop.simps entry using assms(3) by simp
  also have "\<dots> = collate_loop limit (m @ [(txid, ?s\<lparr>ths_value := row_effect info + net_value rows'\<rparr>)]) rest"
    by (rule collate_rest [OF same bound]) (use assms(2) r in simp)
  also have "?s\<lparr>ths_value := row_effect info + net_value rows'\<rparr> = group_summary rows"
    by (simp add: group_summary_def r net_value_def)
  finally show ?thesis by (simp add: r)
qed

lemma collate_loop_full:
  assumes "limit \<le> length m" "tx_group rows" "fst (hd rows) \<notin> fst ` set m"
  shows "collate_loop limit m (rows @ rest) = m"
  using assms by (cases rows) (auto simp: tx_group_def)

lemma collate_loop_groups:
  assumes "\<forall>g\<in>set groups. tx_group g" "distinct (map (\<lambda>g. fst (hd g)) groups)"
    and "\<forall>g\<in>set groups. fst (hd g) \<notin> fst ` set m" "length m \<le> limit"
  shows "collate_loop limit m (concat groups)
    = m @ map (\<lambda>g. (fst (hd g), group_summary g)) (take (limit - length m) groups)"
  using assms
proof (induction groups arbitrary: m)
  case (Cons g groups)
  show ?case
  proof (cases "length m < limit")
    case True
    let ?m = "m @ [(fst (hd g), group_summary g)]"
    have "collate_loop limit m (concat (g # groups)) = collate_loop limit ?m (concat groups)"
      using collate_group [OF _ _ True] Cons.prems by simp
    also have "\<dots> = ?m @ map (\<lambda>g. (fst (hd g), group_summary g)) (take (limit - length ?m) groups)"
    proof (rule Cons.IH)
      have "fst (hd h) \<noteq> fst (hd g)" if "h \<in> set groups" for h using Cons.prems(2) that by (force simp: image_iff)
      then show "\<forall>h\<in>set groups. fst (hd h) \<notin> fst ` set ?m" using Cons.prems(3) by auto
    qed (use Cons.prems True in auto)
    finally have loop: "collate_loop limit m (concat (g # groups))
        = ?m @ map (\<lambda>g. (fst (hd g), group_summary g)) (take (limit - length ?m) groups)" .
    have "limit - length m = Suc (limit - length ?m)" using True by simp
    then show ?thesis unfolding loop by simp
  next
    case False
    then show ?thesis using collate_loop_full [of limit m g "concat groups"] Cons.prems by simp
  qed
qed simp

section \<open>Merkle queries\<close>

lemma branch_correct:
  assumes "index < length hashes"
  shows "\<exists>branch root. create_merkle_branch_and_root lib hashes index = Ok (branch, root)
     \<and> merkle_root lib hashes = Some root \<and> fold_branch lib (hashes ! index) index branch = root"
  using merkle_loop_correct [OF assms, of lib "[]"] by (auto simp: create_merkle_branch_and_root_def)

lemma header_hashes:
  assumes "wf_headers lib (cq_headers cq)" "cp < length (hl_headers (cq_headers cq))"
  shows "collect_out (\<lambda>h. bind_out (hash_by_height cq h) (ok_or (Msg ''missing block headers''))) [0..<Suc cp]
    = Ok (map he_hash (take (Suc cp) (hl_headers (cq_headers cq))))"
proof -
  have "collect_out (\<lambda>h. bind_out (hash_by_height cq h) (ok_or (Msg ''missing block headers''))) [0..<Suc cp]
      = Ok (map (\<lambda>h. he_hash (hl_headers (cq_headers cq) ! h)) [0..<Suc cp])"
    using assms by (intro collect_out_total)
      (auto simp: hash_by_height_def header_by_height_total [OF assms(1)] nth_opt_def)
  also have "map (\<lambda>h. he_hash (hl_headers (cq_headers cq) ! h)) [0..<Suc cp]
      = map he_hash (take (Suc cp) (hl_headers (cq_headers cq)))"
    using assms(2) by (intro nth_equalityI) (auto simp del: upt_Suc)
  finally show ?thesis .
qed

section \<open>Properties\<close>

text \<open>C14: which block confirms a transaction, and which input spends an output. \<open>tx_confirming_block\<close> never
  panics and returns a block of the best chain for which a confirmation row exists, and \<open>None\<close> exactly
  when there is none (so never an orphaned block); \<open>lookup_spend\<close> returns a recorded spend whose
  transaction is confirmed in this sense, and \<open>None\<close> exactly when there is none.\<close>

theorem confirmation_lookups_exact:
  assumes "rocksdb rk kv" and "wf_headers lib (cq_headers cq)"
    and "\<forall>e\<in>set (hl_headers (cq_headers cq)). hash_ok (he_hash e)"
    and "\<forall>txid. hash_ok txid \<longrightarrow> conf_rows_ok (kv (so_txstore_db (cq_store cq))) txid"
    and "hash_ok txid" and "hash_ok (op_txid pt)" and "edge_rows_ok (kv (so_history_db (cq_store cq))) pt"
  shows "(\<exists>r. tx_confirming_block rk cq txid = Ok r
      \<and> (r = None \<longleftrightarrow> (\<forall>e. \<not> confirmed_in (kv (so_txstore_db (cq_store cq))) (cq_headers cq) txid e))
      \<and> (\<forall>b. r = Some b \<longrightarrow> (\<exists>e. confirmed_in (kv (so_txstore_db (cq_store cq))) (cq_headers cq) txid e \<and> b = blockid_of e)))
    \<and> (\<exists>r. lookup_spend rk cq pt = Ok r
      \<and> (r = None \<longleftrightarrow> (\<forall>stx vin e. hash_ok stx \<longrightarrow>
            kv (so_history_db (cq_store cq)) (ser_tx_edge_key (edge_new (op_txid pt) (op_vout pt) stx vin)) \<noteq> None
              \<longrightarrow> \<not> confirmed_in (kv (so_txstore_db (cq_store cq))) (cq_headers cq) stx e))
      \<and> (\<forall>s. r = Some s \<longrightarrow>
            kv (so_history_db (cq_store cq)) (ser_tx_edge_key (edge_new (op_txid pt) (op_vout pt) (si_txid s) (si_vin s))) \<noteq> None
            \<and> tx_confirming_block rk cq (si_txid s) = Ok (si_confirmed s) \<and> si_confirmed s \<noteq> None))"
proof -
  let ?c = "confirmed_in (kv (so_txstore_db (cq_store cq))) (cq_headers cq)"
  have spec: "\<exists>r. tx_confirming_block rk cq t = Ok r \<and> (r = None \<longleftrightarrow> (\<forall>e. \<not> ?c t e))
      \<and> (\<forall>b. r = Some b \<longrightarrow> (\<exists>e. ?c t e \<and> b = blockid_of e))" if "hash_ok t" for t
    using tx_confirming_block_spec [OF assms(1,2) that _ assms(3)] assms(4) that by blast
  have ok: "tx_confirming_block rk cq t = Ok (confirming rk cq t)"
    and none: "confirming rk cq t = None \<longleftrightarrow> (\<forall>e. \<not> ?c t e)" if "hash_ok t" for t
    using spec [OF that] by (auto simp: confirming_def)
  obtain r where r: "lookup_spend rk cq pt = Ok r"
    and rn: "r = None \<longleftrightarrow> (\<forall>txid vin. hash_ok txid \<longrightarrow>
          kv (so_history_db (cq_store cq)) (ser_tx_edge_key (edge_new (op_txid pt) (op_vout pt) txid vin)) \<noteq> None
            \<longrightarrow> confirming rk cq txid = None)"
    and rs: "\<forall>s. r = Some s \<longrightarrow> hash_ok (si_txid s) \<and>
          kv (so_history_db (cq_store cq)) (ser_tx_edge_key (edge_new (op_txid pt) (op_vout pt) (si_txid s) (si_vin s))) \<noteq> None
          \<and> (\<exists>b. confirming rk cq (si_txid s) = Some b \<and> si_confirmed s = Some b)"
    using lookup_spend_spec [OF assms(1,6,7)] ok by blast
  have "r = None \<longleftrightarrow> (\<forall>stx vin e. hash_ok stx \<longrightarrow>
            kv (so_history_db (cq_store cq)) (ser_tx_edge_key (edge_new (op_txid pt) (op_vout pt) stx vin)) \<noteq> None
              \<longrightarrow> \<not> ?c stx e)"
    unfolding rn using none by blast
  moreover have "\<forall>s. r = Some s \<longrightarrow>
            kv (so_history_db (cq_store cq)) (ser_tx_edge_key (edge_new (op_txid pt) (op_vout pt) (si_txid s) (si_vin s))) \<noteq> None
            \<and> tx_confirming_block rk cq (si_txid s) = Ok (si_confirmed s) \<and> si_confirmed s \<noteq> None"
    using rs ok by fastforce
  ultimately show ?thesis using spec [OF assms(5)] r by blast
qed

definition demo_cq :: "(bytes \<times> bytes) list \<Rightarrow> (bytes \<times> bytes) list \<Rightarrow> (bytes \<times> bytes) list chain_query" where
  "demo_cq txstore hist =
     \<lparr>cq_store = demo_store\<lparr>so_txstore_db := txstore, so_history_db := hist, so_indexed_headers := demo_hl\<rparr>,
      cq_light_mode = False,
      cq_rpc = \<lparr>lr_block_txids = (\<lambda>_. Err (Msg [])), lr_block_meta = (\<lambda>_. Err (Msg [])),
                lr_block_bytes = (\<lambda>_. Err (Msg [])), lr_raw_tx = (\<lambda>_ _. Err (Msg []))\<rparr>\<rparr>"

abbreviation demo_conf :: "byte \<Rightarrow> tx_conf_key" where
  "demo_conf n \<equiv> \<lparr>tck_code = 0x43, tck_txid = demo_txid 9, tck_blockhash = demo_hash n\<rparr>"

abbreviation demo_edge :: tx_edge_key where
  "demo_edge \<equiv> edge_new (demo_txid 5) 0 (demo_txid 9) 1"

lemma demo_cq_sel [simp]:
  "cq_headers (demo_cq a b) = demo_hl" "so_txstore_db (cq_store (demo_cq a b)) = a"
  "so_history_db (cq_store (demo_cq a b)) = b" "\<not> cq_light_mode (demo_cq a b)"
  by (simp_all add: demo_cq_def)

lemma demo_hl_wf: "wf_headers demo_lib demo_hl"
  using demo_reach demo_collision_free sync.reach_inv by (auto simp: sync_inv_def)

text \<open>A transaction with a row for the orphaned block 2 and one for block 3 of the best chain.\<close>

definition demo_confirm_cq :: "(bytes \<times> bytes) list chain_query" where
  "demo_confirm_cq =
     demo_cq [(ser_tx_conf_key (demo_conf 2), []), (ser_tx_conf_key (demo_conf 3), [])] [(ser_tx_edge_key demo_edge, [])]"

lemma demo_rows_ok:
  "conf_rows_ok (map_of (so_txstore_db (cq_store demo_confirm_cq))) t"
  "edge_rows_ok (map_of (so_history_db (cq_store demo_confirm_cq))) pt"
  "\<forall>e\<in>set (hl_headers (cq_headers demo_confirm_cq)). hash_ok (he_hash e)"
proof -
  show "conf_rows_ok (map_of (so_txstore_db (cq_store demo_confirm_cq))) t"
    unfolding conf_rows_ok_def
  proof (intro ballI impI)
    fix k assume "k \<in> dom (map_of (so_txstore_db (cq_store demo_confirm_cq)))"
    then have "k = ser_tx_conf_key (demo_conf 2) \<or> k = ser_tx_conf_key (demo_conf 3)"
      by (simp add: demo_confirm_cq_def)
    moreover have "conf_ok (demo_conf n)" for n by simp
    ultimately show "\<exists>c. conf_ok c \<and> ser_tx_conf_key c = k" by blast
  qed
  have "dom (map_of (so_history_db (cq_store demo_confirm_cq))) = {ser_tx_edge_key demo_edge}"
    by (auto simp: demo_confirm_cq_def)
  moreover have "edge_ok demo_edge" by (simp add: edge_new_def)
  ultimately show "edge_rows_ok (map_of (so_history_db (cq_store demo_confirm_cq))) pt"
    unfolding edge_rows_ok_def by (metis singletonD)
  show "\<forall>e\<in>set (hl_headers (cq_headers demo_confirm_cq)). hash_ok (he_hash e)"
    by (simp add: demo_confirm_cq_def demo_hl_eq entries_of_def)
qed

lemma demo_confirmed_in:
  "confirmed_in (map_of (so_txstore_db (cq_store demo_confirm_cq))) (cq_headers demo_confirm_cq) (demo_txid 9) e
     \<longleftrightarrow> e = \<lparr>he_height = 1, he_hash = demo_hash 3, he_header = demo_child 3\<rparr>"
  by (auto simp: demo_confirm_cq_def confirmed_in_def demo_hl_eq entries_of_def ser_tx_conf_key_def)

lemma demo_confirm_wf: "wf_headers demo_lib (cq_headers demo_confirm_cq)"
  using demo_hl_wf by (simp add: demo_confirm_cq_def)

lemma demo_confirming:
  "tx_confirming_block ref_rocks demo_confirm_cq (demo_txid 9)
   = Ok (Some (blockid_of \<lparr>he_height = 1, he_hash = demo_hash 3, he_header = demo_child 3\<rparr>))"
  using tx_confirming_block_spec [OF ref_db.rocksdb_axioms demo_confirm_wf, of "demo_txid 9"] demo_rows_ok(1,3)
  unfolding demo_confirmed_in by fastforce

theorem confirmation_lookups_exact_witness:
  "(\<exists>b. tx_confirming_block ref_rocks demo_confirm_cq (demo_txid 9) = Ok (Some b) \<and> bid_hash b = demo_hash 3)
    \<and> (\<exists>s. lookup_spend ref_rocks demo_confirm_cq \<lparr>op_txid = demo_txid 5, op_vout = 0\<rparr> = Ok (Some s))"
proof -
  have edge: "map_of (so_history_db (cq_store demo_confirm_cq)) (ser_tx_edge_key (edge_new (demo_txid 5) 0 (demo_txid 9) 1)) \<noteq> None"
    by (simp add: demo_confirm_cq_def)
  have p: "hash_ok (demo_txid 9)" "hash_ok (op_txid \<lparr>op_txid = demo_txid 5, op_vout = 0\<rparr>)" by simp_all
  have c: "\<forall>txid. hash_ok txid \<longrightarrow> conf_rows_ok (map_of (so_txstore_db (cq_store demo_confirm_cq))) txid"
    using demo_rows_ok(1) by blast
  note t = confirmation_lookups_exact [OF ref_db.rocksdb_axioms demo_confirm_wf demo_rows_ok(3) c p demo_rows_ok(2)]
  from conjunct1 [OF t] have "\<exists>b. tx_confirming_block ref_rocks demo_confirm_cq (demo_txid 9) = Ok (Some b) \<and> bid_hash b = demo_hash 3"
    unfolding demo_confirmed_in by (auto simp: blockid_of_def)
  moreover from conjunct2 [OF t] obtain r where r: "lookup_spend ref_rocks demo_confirm_cq \<lparr>op_txid = demo_txid 5, op_vout = 0\<rparr> = Ok r"
      "r = None \<longrightarrow> \<not> confirmed_in (map_of (so_txstore_db (cq_store demo_confirm_cq))) (cq_headers demo_confirm_cq) (demo_txid 9)
         \<lparr>he_height = 1, he_hash = demo_hash 3, he_header = demo_child 3\<rparr>"
    using edge p(1) by (metis out_point.select_convs(1,2))
  ultimately show ?thesis using demo_confirmed_in by (cases r) auto
qed

text \<open>A block that was added is read back as it was: its transaction ids, its transactions, its
  metadata, and, once its header is in the best chain, the raw block rebuilt from the stored header and
  transactions.\<close>

theorem added_block_read_back:
  assumes "rocksdb rk kv" and "hash_serde lib" and "ids_unique lib blocks" and "b \<in> set blocks"
    and "\<not> ic_light_mode ic" and "\<not> cq_light_mode cq"
    and "so_txstore_db (cq_store cq) = so_txstore_db (indexer_add rk lib ic fl AddBlocks blocks s)"
    and "length (blk_txdata (be_block b)) < 2 ^ 64"
    and "\<forall>tx\<in>set (blk_txdata (be_block b)). lib_deserialize_tx lib (lib_serialize_tx lib tx) = Some tx"
    and "header_by_hash cq (he_hash (be_entry b)) = Some (be_entry b)"
  shows "get_block_txids rk lib cq (he_hash (be_entry b)) = Ok (Some (map (get_txid lib) (blk_txdata (be_block b))))
    \<and> get_block_txs rk lib cq (he_hash (be_entry b)) = Ok (Some (blk_txdata (be_block b)))
    \<and> get_block_meta rk cq (he_hash (be_entry b)) = Ok (Some (block_meta_of lib b))
    \<and> get_block_raw rk lib varint cq (he_hash (be_entry b)) = Ok (Some
        (lib_serialize_header lib (he_header (be_entry b)) @ varint (word_of_nat (length (blk_txdata (be_block b))))
         @ concat (map (lib_serialize_tx lib) (blk_txdata (be_block b)))))"
proof -
  note rb = read_back [OF assms(1-8)]
  have txn: "lookup_txn rk lib cq (get_txid lib tx) h = Ok (Some tx)" if "tx \<in> set (blk_txdata (be_block b))" for tx h
    using rb(3) [OF that] assms(9) that by (simp add: lookup_txn_def)
  have "get_block_txs rk lib cq (he_hash (be_entry b)) = Ok (Some (blk_txdata (be_block b)))"
    using rb(1) lookup_all_txns_found [of "blk_txdata (be_block b)" rk lib cq "he_hash (be_entry b)"] txn
    by (simp add: get_block_txs_def)
  moreover have "get_block_raw rk lib varint cq (he_hash (be_entry b)) = Ok (Some
        (lib_serialize_header lib (he_header (be_entry b)) @ varint (word_of_nat (length (blk_txdata (be_block b))))
         @ concat (map (lib_serialize_tx lib) (blk_txdata (be_block b)))))"
    using rb assms(6,10) append_raw_txns_found [of "blk_txdata (be_block b)" rk cq lib "lib_serialize_tx lib"]
    by (simp add: get_block_raw_def)
  ultimately show ?thesis using rb(1,2) by blast
qed

definition demo_tx_lib :: bitcoin_lib where
  "demo_tx_lib = demo_lib\<lparr>lib_deserialize_tx := (\<lambda>_. Some demo_coinbase)\<rparr>"

theorem added_block_read_back_witness:
  "get_block_raw ref_rocks demo_tx_lib (\<lambda>n. [ucast n])
     (demo_cq (so_txstore_db (indexer_add ref_rocks demo_tx_lib demo_config Disable AddBlocks [demo_block_entry] demo_store)) [])
     (demo_hash 1) = Ok (Some [1, 1, 7])"
proof -
  let ?s = "indexer_add ref_rocks demo_tx_lib demo_config Disable AddBlocks [demo_block_entry] demo_store"
  let ?cq = "demo_cq (so_txstore_db ?s) []"
  have serde: "hash_serde demo_tx_lib" using demo_hash_serde by (simp add: hash_serde_def demo_tx_lib_def)
  have ids: "ids_unique demo_tx_lib [demo_block_entry]"
    by (simp add: ids_unique_def demo_tx_lib_def demo_block_entry_def demo_block_def demo_entry_def demo_coinbase_def get_txid_def)
  have h: "header_by_hash ?cq (he_hash (be_entry demo_block_entry)) = Some (be_entry demo_block_entry)"
    by (simp add: header_by_hash_def header_by_blockhash_def demo_hl_eq entries_of_def nth_opt_def demo_block_entry_def demo_entry_def)
  have "get_block_raw ref_rocks demo_tx_lib (\<lambda>n. [ucast n]) ?cq (he_hash (be_entry demo_block_entry)) = Ok (Some
        (lib_serialize_header demo_tx_lib (he_header (be_entry demo_block_entry))
         @ [ucast (word_of_nat (length (blk_txdata (be_block demo_block_entry))) :: u64)]
         @ concat (map (lib_serialize_tx demo_tx_lib) (blk_txdata (be_block demo_block_entry)))))"
    using added_block_read_back [OF ref_db.rocksdb_axioms serde ids _ _ _ _ _ _ h, of demo_config Disable demo_store "\<lambda>n. [ucast n]"]
    by (simp add: demo_config_def demo_block_entry_def demo_block_def demo_tx_lib_def)
  then show ?thesis
    by (simp add: demo_block_entry_def demo_block_def demo_entry_def demo_tx_lib_def demo_lib_def demo_coinbase_def demo_header_def)
qed

text \<open>C15: paging. Asking for the history behind the transaction at any place of the full list returns
  exactly the rest of the list: no confirmed transaction is repeated or left out between pages.\<close>

theorem history_pages_complete:
  assumes "\<forall>row\<in>set rows. \<exists>r. tx_confirming_block rk cq (history_txid row) = Ok r"
    and "history_page rk cq None rows = Ok page" and "i < length page"
  shows "history_page rk cq (Some (fst (page ! i))) rows = Ok (drop (Suc i) page) \<and> distinct (map fst page)"
proof -
  have conf: "\<forall>row\<in>set rows. tx_confirming_block rk cq (history_txid row) = Ok (confirming rk cq (history_txid row))"
    using assms(1) by (force simp: confirming_def)
  show ?thesis using history_page_rest [OF conf assms(2,3)] history_page_distinct [OF conf assms(2)] by blast
qed

abbreviation demo_history_row :: "u32 \<Rightarrow> tx_history_key" where
  "demo_history_row vout \<equiv> history_new demo_lib [0x51] 1 0 (Funding \<lparr>fu_txid = demo_txid 9, fu_vout = vout, fu_value = 5\<rparr>)"

theorem history_pages_complete_witness:
  "history_page ref_rocks demo_confirm_cq (Some (demo_txid 9)) [demo_history_row 1, demo_history_row 0] = Ok []"
proof -
  let ?rows = "[demo_history_row 1, demo_history_row 0]"
  have t: "history_txid (demo_history_row v) = demo_txid 9" for v by (simp add: history_txid_def history_new_def)
  let ?page = "[(demo_txid 9, blockid_of \<lparr>he_height = 1, he_hash = demo_hash 3, he_header = demo_child 3\<rparr>, 0 :: u16)]"
  have "history_page ref_rocks demo_confirm_cq None ?rows = Ok ?page"
    by (simp add: history_page_def skip_seen_def unique_by_def t demo_confirming) (simp add: history_new_def)
  moreover have "\<forall>row\<in>set ?rows. \<exists>r. tx_confirming_block ref_rocks demo_confirm_cq (history_txid row) = Ok r"
    by (simp add: t demo_confirming)
  ultimately show ?thesis using history_pages_complete [of ?rows ref_rocks demo_confirm_cq ?page 0] by simp
qed

text \<open>Merkle queries. For a block whose transaction ids are stored, \<open>get_tx_merkle_proof\<close> returns the
  position of the transaction and a branch that folds it to the Merkle root of the ids, and an error if
  the block does not contain it. \<open>get_header_merkle_proof\<close> does the same for the hash of a header below
  a checkpoint, with an error exactly when the heights are not in order. Neither panics.\<close>

theorem merkle_queries_correct:
  assumes "get_block_txids rk lib cq bh = Ok (Some txids)" and "wf_headers lib (cq_headers cq)"
    and "hl_headers (cq_headers cq) \<noteq> []"
  shows "(case get_tx_merkle_proof rk lib cq txid bh of
            Ok (branch, pos) \<Rightarrow> txid \<in> set txids \<and> pos < length txids \<and> txids ! pos = txid
              \<and> merkle_root lib txids = Some (fold_branch lib txid pos branch)
          | Err _ \<Rightarrow> txid \<notin> set txids
          | Panic _ \<Rightarrow> False)
    \<and> (case get_header_merkle_proof lib cq height cp of
            Ok (branch, root) \<Rightarrow> height \<le> cp \<and> cp < length (hl_headers (cq_headers cq))
              \<and> merkle_root lib (map he_hash (take (Suc cp) (hl_headers (cq_headers cq)))) = Some root
              \<and> fold_branch lib (he_hash (hl_headers (cq_headers cq) ! height)) height branch = root
          | Err _ \<Rightarrow> cp < height \<or> length (hl_headers (cq_headers cq)) \<le> cp
          | Panic _ \<Rightarrow> False)"
proof -
  have "(case get_tx_merkle_proof rk lib cq txid bh of
            Ok (branch, pos) \<Rightarrow> txid \<in> set txids \<and> pos < length txids \<and> txids ! pos = txid
              \<and> merkle_root lib txids = Some (fold_branch lib txid pos branch)
          | Err _ \<Rightarrow> txid \<notin> set txids
          | Panic _ \<Rightarrow> False)"
  proof (cases "position (\<lambda>t. t = txid) txids")
    case None
    then have "txid \<notin> set txids" by (auto simp: position_None_iff)
    then show ?thesis using assms(1) None by (simp add: get_tx_merkle_proof_def)
  next
    case (Some pos)
    then have pos: "pos < length txids" "txids ! pos = txid" by (auto simp: position_Some_iff)
    then obtain branch root where "create_merkle_branch_and_root lib txids pos = Ok (branch, root)"
        "merkle_root lib txids = Some root" "fold_branch lib txid pos branch = root"
      using branch_correct [OF pos(1), of lib] by auto
    then show ?thesis using assms(1) Some pos nth_mem [OF pos(1)] by (simp add: get_tx_merkle_proof_def)
  qed
  moreover have "(case get_header_merkle_proof lib cq height cp of
            Ok (branch, root) \<Rightarrow> height \<le> cp \<and> cp < length (hl_headers (cq_headers cq))
              \<and> merkle_root lib (map he_hash (take (Suc cp) (hl_headers (cq_headers cq)))) = Some root
              \<and> fold_branch lib (he_hash (hl_headers (cq_headers cq) ! height)) height branch = root
          | Err _ \<Rightarrow> cp < height \<or> length (hl_headers (cq_headers cq)) \<le> cp
          | Panic _ \<Rightarrow> False)"
  proof (cases "cp < height \<or> best_height cq < cp")
    case True
    then show ?thesis using assms(3) by (auto simp: get_header_merkle_proof_def best_height_def hl_len_def)
  next
    case False
    let ?hs = "map he_hash (take (Suc cp) (hl_headers (cq_headers cq)))"
    have cp: "height \<le> cp" "cp < length (hl_headers (cq_headers cq))"
      using False assms(3) by (cases "hl_headers (cq_headers cq)"; auto simp: best_height_def hl_len_def)+
    obtain branch root where "create_merkle_branch_and_root lib ?hs height = Ok (branch, root)"
        "merkle_root lib ?hs = Some root" "fold_branch lib (?hs ! height) height branch = root"
      using branch_correct [of height ?hs lib] cp by auto
    then show ?thesis using False cp header_hashes [OF assms(2) cp(2)]
      by (simp add: get_header_merkle_proof_def del: upt_Suc)
  qed
  ultimately show ?thesis ..
qed

theorem merkle_queries_correct_witness:
  "\<exists>branch. get_tx_merkle_proof ref_rocks demo_lib
      ((demo_cq [] [])\<lparr>cq_light_mode := True, cq_rpc := (cq_rpc (demo_cq [] []))\<lparr>lr_block_txids := (\<lambda>_. Ok [demo_txid 1, demo_txid 2])\<rparr>\<rparr>)
      (demo_txid 2) (demo_hash 1) = Ok (branch, 1)"
proof -
  let ?cq = "(demo_cq [] [])\<lparr>cq_light_mode := True, cq_rpc := (cq_rpc (demo_cq [] []))\<lparr>lr_block_txids := (\<lambda>_. Ok [demo_txid 1, demo_txid 2])\<rparr>\<rparr>"
  have txids: "get_block_txids ref_rocks demo_lib ?cq (demo_hash 1) = Ok (Some [demo_txid 1, demo_txid 2])"
    by (simp add: get_block_txids_def)
  have hl: "cq_headers ?cq = demo_hl" by (simp add: demo_cq_def)
  have "hl_headers demo_hl \<noteq> []" by (simp add: demo_hl_eq entries_of_def)
  then have "case get_tx_merkle_proof ref_rocks demo_lib ?cq (demo_txid 2) (demo_hash 1) of
            Ok (branch, pos) \<Rightarrow> demo_txid 2 \<in> set [demo_txid 1, demo_txid 2] \<and> pos < length [demo_txid 1, demo_txid 2]
              \<and> [demo_txid 1, demo_txid 2] ! pos = demo_txid 2
              \<and> merkle_root demo_lib [demo_txid 1, demo_txid 2] = Some (fold_branch demo_lib (demo_txid 2) pos branch)
          | Err _ \<Rightarrow> demo_txid 2 \<notin> set [demo_txid 1, demo_txid 2]
          | Panic _ \<Rightarrow> False"
    using merkle_queries_correct [OF txids, of "demo_txid 2"] demo_hl_wf unfolding hl by blast
  then show ?thesis by (auto split: outcome.splits simp: less_Suc_eq numeral_2_eq_2)
qed

text \<open>Summaries. When the rows of each transaction stand together and its amounts fit into \<open>i64\<close>, the
  collated summaries are those of the first \<open>limit\<close> transactions, each with the exact sum of what it
  funds minus what it spends, ordered from the newest block and position downwards.\<close>

theorem summaries_exact:
  assumes "collate_rows rk cq iter last_seen = Ok (concat groups)"
    and "\<forall>g\<in>set groups. tx_group g" and "distinct (map (\<lambda>g. fst (hd g)) groups)"
  shows "\<exists>out. collate_summaries rk cq iter last_seen limit = Ok out
    \<and> mset out = mset (map group_summary (take limit groups))
    \<and> sorted_wrt (\<lambda>a b. ths_height b < ths_height a
        \<or> ths_height a = ths_height b \<and> (ths_tx_position b < ths_tx_position a
          \<or> ths_tx_position a = ths_tx_position b \<and> ths_value a \<le> ths_value b)) out"
proof -
  have "collate_loop limit [] (concat groups) = map (\<lambda>g. (fst (hd g), group_summary g)) (take limit groups)"
    using collate_loop_groups [OF assms(2,3), of "[]" limit] by simp
  then have out: "collate_summaries rk cq iter last_seen limit = Ok (sort_summaries (map group_summary (take limit groups)))"
    using assms(1) by (simp add: collate_summaries_def comp_def)
  have "sorted (map (\<lambda>t. (- int (ths_height t), - uint (ths_tx_position t), ths_value t)) (sort_summaries xs))" for xs
    unfolding sort_summaries_def by (rule sorted_sort_key)
  then have "sorted_wrt (\<lambda>a b. ths_height b < ths_height a
        \<or> ths_height a = ths_height b \<and> (ths_tx_position b < ths_tx_position a
          \<or> ths_tx_position a = ths_tx_position b \<and> ths_value a \<le> ths_value b)) (sort_summaries xs)" for xs
    unfolding sorted_map by (rule sorted_wrt_mono_rel [rotated]) (auto simp: less_eq_prod_def word_less_def word_uint_eq_iff)
  then show ?thesis using out by (simp add: sort_summaries_def)
qed

theorem summaries_exact_witness:
  "\<exists>out. collate_summaries ref_rocks demo_confirm_cq [demo_history_row 1, demo_history_row 0] None 10 = Ok out
     \<and> map ths_value out = [10]"
proof -
  let ?row = "\<lambda>v. (demo_txid 9, Funding \<lparr>fu_txid = demo_txid 9, fu_vout = v, fu_value = 5\<rparr>, 1 :: nat, hdr_time (demo_child 3), 0 :: u16)"
  let ?groups = "[[?row 1, ?row 0]]"
  have t: "history_txid (demo_history_row v) = demo_txid 9" for v by (simp add: history_txid_def history_new_def)
  have rows: "collate_rows ref_rocks demo_confirm_cq [demo_history_row 1, demo_history_row 0] None = Ok (concat ?groups)"
    by (simp add: collate_rows_def skip_seen_all_def unique_by_def t demo_confirming) (simp add: history_new_def blockid_of_def)
  have "\<exists>out. collate_summaries ref_rocks demo_confirm_cq [demo_history_row 1, demo_history_row 0] None 10 = Ok out
    \<and> mset out = mset (map group_summary (take 10 ?groups))
    \<and> sorted_wrt (\<lambda>a b. ths_height b < ths_height a
        \<or> ths_height a = ths_height b \<and> (ths_tx_position b < ths_tx_position a
          \<or> ths_tx_position a = ths_tx_position b \<and> ths_value a \<le> ths_value b)) out"
    by (rule summaries_exact [OF rows]) (auto simp: tx_group_def moved_value_def)
  then show ?thesis by (auto simp: group_summary_def net_value_def)
qed

end
