(* ===== verification/Balance.thy ===== *)
theory Balance
  imports Chain_Query
begin

text \<open>
  Balances of a script, the rest of \<open>ChainQuery\<close> in \<^verbatim>\<open>src/new_index/schema.rs\<close>: the unspent outputs and
  the statistics, both computed from the confirmed history above the block a cache row is valid at and
  then written back to the cache. The main results are that the caches are transparent: the answer is
  the one computed from the whole hist, and the row written is again valid.
\<close>

section \<open>The code\<close>

definition MIN_HISTORY_ITEMS_TO_CACHE :: nat where
  "MIN_HISTORY_ITEMS_TO_CACHE = 100"

record utxo_entry =
  ux_txid :: hash
  ux_vout :: u32
  ux_confirmed :: "block_id option"
  ux_value :: u64

definition outpoint_of_utxo :: "utxo_entry \<Rightarrow> out_point" where
  "outpoint_of_utxo u = \<lparr>op_txid = ux_txid u, op_vout = ux_vout u\<rparr>"

definition stats_default :: script_stats where
  "stats_default = \<lparr>st_tx_count = 0, st_funded_txo_count = 0, st_spent_txo_count = 0,
     st_funded_txo_sum = 0, st_spent_txo_sum = 0\<rparr>"

definition is_sane :: "script_stats \<Rightarrow> bool" where
  "is_sane s \<longleftrightarrow>
     st_spent_txo_count s \<le> st_funded_txo_count s
     \<and> st_tx_count s \<le> st_spent_txo_count s + st_funded_txo_count s
     \<and> st_spent_txo_sum s \<le> st_funded_txo_sum s
     \<and> (st_funded_txo_count s = st_spent_txo_count s) = (st_funded_txo_sum s = st_spent_txo_sum s)"

text \<open>The history rows from a height on whose transaction is confirmed at the height of the row.\<close>

definition confirmed_history ::
  "'d rocks \<Rightarrow> 'd chain_query \<Rightarrow> bytes \<Rightarrow> nat \<Rightarrow> (error_kind, (tx_history_key \<times> block_id) list) outcome"
where
  "confirmed_history rk cq scripthash start_height =
     bind_out (rows_forward rk cq 0x48 scripthash start_height)
       (filter_map_out (\<lambda>hist.
          map_out
            (\<lambda>r. case r of
                   Some b \<Rightarrow> if bid_height b = unat (thk_confirmed_height hist) then Some (hist, b) else None
                 | None \<Rightarrow> None)
            (tx_confirming_block rk cq (history_txid hist))))"

text \<open>\<open>HashMap::insert\<close> and \<open>remove\<close> on the list of entries, and one step of the loop.\<close>

fun utxo_step :: "utxo_map \<Rightarrow> tx_history_key \<times> block_id \<Rightarrow> utxo_map" where
  "utxo_step utxos (hist, blockid) =
     (case thk_txinfo hist of
        Funding info \<Rightarrow> (history_funded_outpoint hist, blockid, fu_value info)
                         # map_remove (history_funded_outpoint hist) utxos
      | Spending _ \<Rightarrow> map_remove (history_funded_outpoint hist) utxos)"

fun utxo_loop ::
  "nat \<Rightarrow> nat \<Rightarrow> utxo_map \<Rightarrow> hash option \<Rightarrow> nat \<Rightarrow> (tx_history_key \<times> block_id) list
    \<Rightarrow> (error_kind, utxo_map \<times> hash option \<times> nat) outcome"
where
  "utxo_loop limit tx_history_limit utxos lastblock processed_items [] = Ok (utxos, lastblock, processed_items)"
| "utxo_loop limit tx_history_limit utxos lastblock processed_items (row # rows) =
     (let processed = processed_items + 1;
          utxos' = utxo_step utxos row
      in if limit < length utxos' then Err (TooManyUtxos limit)
         else if tx_history_limit < processed then Err (TooManyTxs tx_history_limit)
         else utxo_loop limit tx_history_limit utxos' (Some (bid_hash (snd row))) processed rows)"

definition apply_utxo_delta ::
  "utxo_map \<Rightarrow> (tx_history_key \<times> block_id) list \<Rightarrow> nat \<Rightarrow> (error_kind, utxo_map \<times> hash option \<times> nat) outcome"
where
  "apply_utxo_delta init_utxos history_iter limit =
     utxo_loop limit (limit * 500 mod 2 ^ 64) init_utxos None 0 history_iter"

definition utxo_delta ::
  "'d rocks \<Rightarrow> 'd chain_query \<Rightarrow> bytes \<Rightarrow> utxo_map \<Rightarrow> nat \<Rightarrow> nat \<Rightarrow> (error_kind, utxo_map \<times> hash option \<times> nat) outcome"
where
  "utxo_delta rk cq scripthash init_utxos start_height limit =
     bind_out (confirmed_history rk cq scripthash start_height) (\<lambda>history_iter.
       apply_utxo_delta init_utxos history_iter limit)"

definition known_blockid :: "'d chain_query \<Rightarrow> nat \<Rightarrow> block_id option" where
  "known_blockid cq height = (case blockid_by_height cq height of Ok b \<Rightarrow> b | _ \<Rightarrow> None)"

definition utxo_cache ::
  "'d rocks \<Rightarrow> bitcoin_lib \<Rightarrow> 'd chain_query \<Rightarrow> bytes \<Rightarrow> (error_kind, (utxo_map \<times> nat) option) outcome"
where
  "utxo_cache rk lib cq scripthash =
     (case db_get rk (so_cache_db (cq_store cq)) (utxo_cache_key scripthash) of
        None \<Rightarrow> Ok None
      | Some c \<Rightarrow>
          bind_out (expect ''unwrap'' (de_utxo_cache lib c)) (\<lambda>(utxos_cache, blockhash).
            case height_by_hash cq blockhash of
              None \<Rightarrow> Ok None
            | Some height \<Rightarrow>
                map_out (\<lambda>utxos. Some (utxos, height)) (from_utxo_cache utxos_cache (known_blockid cq))))"

definition cache_put :: "'d rocks \<Rightarrow> db_row \<Rightarrow> db_flush \<Rightarrow> 'd chain_query \<Rightarrow> 'd chain_query" where
  "cache_put rk row fl cq =
     cq\<lparr>cq_store := (cq_store cq)\<lparr>so_cache_db := db_write rk [row] fl (so_cache_db (cq_store cq))\<rparr>\<rparr>"

definition utxo ::
  "'d rocks \<Rightarrow> bitcoin_lib \<Rightarrow> 'd chain_query \<Rightarrow> bytes \<Rightarrow> nat \<Rightarrow> db_flush
    \<Rightarrow> (error_kind, utxo_entry list \<times> 'd chain_query) outcome"
where
  "utxo rk lib cq scripthash limit fl =
     bind_out (utxo_cache rk lib cq scripthash) (\<lambda>cache.
     bind_out
       (case cache of
          None \<Rightarrow> utxo_delta rk cq scripthash [] 0 limit
        | Some (oldutxos, blockheight) \<Rightarrow> utxo_delta rk cq scripthash oldutxos (blockheight + 1) limit)
       (\<lambda>(newutxos, lastblock, processed_items).
     bind_out
       (case lastblock of
          Some b \<Rightarrow>
            if cache \<noteq> None \<or> MIN_HISTORY_ITEMS_TO_CACHE < processed_items
            then map_out (\<lambda>r. cache_put rk (script_cache_into_row r) fl cq) (utxo_cache_new lib scripthash newutxos b)
            else Ok cq
        | None \<Rightarrow> Ok cq)
       (\<lambda>cq'.
     Ok (map (\<lambda>(outpoint, blockid, v).
                \<lparr>ux_txid = op_txid outpoint, ux_vout = op_vout outpoint, ux_confirmed = Some blockid, ux_value = v\<rparr>)
           newutxos, cq'))))"

text \<open>One step of the statistics loop: the counters are \<open>usize\<close> and \<open>u64\<close> and wrap.\<close>

fun stats_step ::
  "script_stats \<times> hash set \<times> hash option \<Rightarrow> tx_history_key \<times> block_id \<Rightarrow> script_stats \<times> hash set \<times> hash option"
where
  "stats_step (stats, seen_txids, lastblock) (hist, blockid) =
     (let seen = (if lastblock \<noteq> Some (bid_hash blockid) then {} else seen_txids);
          stats1 = (if history_txid hist \<in> seen then stats else stats\<lparr>st_tx_count := st_tx_count stats + 1\<rparr>);
          stats2 = (case thk_txinfo hist of
                      Funding info \<Rightarrow> stats1\<lparr>st_funded_txo_count := st_funded_txo_count stats1 + 1,
                                             st_funded_txo_sum := st_funded_txo_sum stats1 + fu_value info\<rparr>
                    | Spending info \<Rightarrow> stats1\<lparr>st_spent_txo_count := st_spent_txo_count stats1 + 1,
                                              st_spent_txo_sum := st_spent_txo_sum stats1 + sp_value info\<rparr>)
      in (stats2, insert (history_txid hist) seen, Some (bid_hash blockid)))"

definition stats_loop :: "script_stats \<Rightarrow> (tx_history_key \<times> block_id) list \<Rightarrow> script_stats \<times> hash option" where
  "stats_loop init_stats rows = (case foldl stats_step (init_stats, {}, None) rows of (stats, _, lastblock) \<Rightarrow> (stats, lastblock))"

definition stats_delta ::
  "'d rocks \<Rightarrow> 'd chain_query \<Rightarrow> bytes \<Rightarrow> script_stats \<Rightarrow> nat \<Rightarrow> (error_kind, script_stats \<times> hash option) outcome"
where
  "stats_delta rk cq scripthash init_stats start_height =
     map_out (stats_loop init_stats) (confirmed_history rk cq scripthash start_height)"

definition stats_cache ::
  "'d rocks \<Rightarrow> bitcoin_lib \<Rightarrow> 'd chain_query \<Rightarrow> bytes \<Rightarrow> (error_kind, (script_stats \<times> nat) option) outcome"
where
  "stats_cache rk lib cq scripthash =
     (case db_get rk (so_cache_db (cq_store cq)) (stats_cache_key scripthash) of
        None \<Rightarrow> Ok None
      | Some c \<Rightarrow>
          map_out
            (\<lambda>(stats, blockhash).
               if is_sane stats then map_option (\<lambda>height. (stats, height)) (height_by_hash cq blockhash) else None)
            (expect ''unwrap'' (de_stats_cache lib c)))"

definition stats ::
  "'d rocks \<Rightarrow> bitcoin_lib \<Rightarrow> 'd chain_query \<Rightarrow> bytes \<Rightarrow> db_flush \<Rightarrow> (error_kind, script_stats \<times> 'd chain_query) outcome"
where
  "stats rk lib cq scripthash fl =
     bind_out (stats_cache rk lib cq scripthash) (\<lambda>cache.
     bind_out
       (case cache of
          None \<Rightarrow> stats_delta rk cq scripthash stats_default 0
        | Some (oldstats, blockheight) \<Rightarrow> stats_delta rk cq scripthash oldstats (blockheight + 1))
       (\<lambda>(newstats, lastblock).
     bind_out
       (case lastblock of
          Some b \<Rightarrow>
            if MIN_HISTORY_ITEMS_TO_CACHE < unat (st_funded_txo_count newstats + st_spent_txo_count newstats)
            then map_out (\<lambda>r. cache_put rk (script_cache_into_row r) fl cq) (stats_cache_new lib scripthash newstats b)
            else Ok cq
        | None \<Rightarrow> Ok cq)
       (\<lambda>cq'. Ok (newstats, cq'))))"

section \<open>The loop of the unspent outputs\<close>

abbreviation utxo_fold :: "utxo_map \<Rightarrow> (tx_history_key \<times> block_id) list \<Rightarrow> utxo_map" where
  "utxo_fold \<equiv> foldl utxo_step"

definition last_block :: "(tx_history_key \<times> block_id) list \<Rightarrow> hash option" where
  "last_block rows = map_option (\<lambda>row. bid_hash (snd row)) (last_opt rows)"

text \<open>The loop succeeds exactly when no prefix of the rows exceeds a limit.\<close>

lemma utxo_loop_Ok_iff:
  "utxo_loop limit hl utxos lb n rows = Ok r \<longleftrightarrow>
     (\<forall>k<length rows. length (utxo_fold utxos (take (Suc k) rows)) \<le> limit \<and> n + Suc k \<le> hl)
     \<and> r = (utxo_fold utxos rows, if rows = [] then lb else last_block rows, n + length rows)"
proof (induction rows arbitrary: utxos lb n)
  case (Cons row rows)
  have split: "(\<forall>k<length (row # rows). P k) \<longleftrightarrow> P 0 \<and> (\<forall>k<length rows. P (Suc k))" for P
    by (simp add: All_less_Suc2)
  show ?case
    unfolding utxo_loop.simps Let_def split
    by (auto simp: Cons.IH last_block_def last_opt_def)
qed auto

lemma map_of_utxo_step:
  "map_of (utxo_step m (hist, b)) pt =
     (if history_funded_outpoint hist = pt
      then (case thk_txinfo hist of Funding info \<Rightarrow> Some (b, fu_value info) | Spending _ \<Rightarrow> None)
      else map_of m pt)"
  by (auto simp: map_of_map_remove split: tx_history_info.splits)

text \<open>An output is unspent exactly when the last event about it funds it.\<close>

lemma utxo_fold_last:
  "map_of (utxo_fold m rows) pt =
     (case last_opt (filter (\<lambda>row. history_funded_outpoint (fst row) = pt) rows) of
        None \<Rightarrow> map_of m pt
      | Some (hist, b) \<Rightarrow>
          (case thk_txinfo hist of Funding info \<Rightarrow> Some (b, fu_value info) | Spending _ \<Rightarrow> None))"
proof (induction rows rule: rev_induct)
  case (snoc row rows)
  obtain hist b where row: "row = (hist, b)" by (cases row)
  show ?case using snoc unfolding row
    by (simp add: map_of_utxo_step del: utxo_step.simps)
qed (simp add: last_opt_def)

lemma distinct_utxo_fold: "distinct (map fst m) \<Longrightarrow> distinct (map fst (utxo_fold m rows))"
proof (induction rows arbitrary: m)
  case (Cons row rows)
  have rem: "distinct (map fst (map_remove k m)) \<and> k \<notin> fst ` set (map_remove k m)" if "distinct (map fst m)"
    for k and m :: utxo_map
    using that by (auto simp: map_remove_def distinct_map_filter)
  have "distinct (map fst (utxo_step m row))"
    using rem [OF Cons.prems] by (cases row) (auto split: tx_history_info.splits)
  then show ?case using Cons.IH by simp
qed simp

section \<open>The confirmed history\<close>

text \<open>What the indexer keeps for a script, as \<open>ChainQuery\<close> relies on it.\<close>

definition index_ok :: "'d rocks \<Rightarrow> ('d \<Rightarrow> bytes \<rightharpoonup> bytes) \<Rightarrow> bitcoin_lib \<Rightarrow> 'd chain_query \<Rightarrow> hash \<Rightarrow> bool" where
  "index_ok rk kv lib cq sh \<longleftrightarrow>
     rocksdb rk kv \<and> wf_headers lib (cq_headers cq)
     \<and> (\<forall>e\<in>set (hl_headers (cq_headers cq)). hash_ok (he_hash e))
     \<and> length (hl_headers (cq_headers cq)) < 2 ^ 32
     \<and> (\<forall>txid. hash_ok txid \<longrightarrow> conf_rows_ok (kv (so_txstore_db (cq_store cq))) txid)
     \<and> hash_ok sh \<and> history_rows_ok (kv (so_history_db (cq_store cq))) sh"

abbreviation row_height :: "tx_history_key \<Rightarrow> nat" where
  "row_height r \<equiv> unat (thk_confirmed_height r)"

lemma history_scan:
  assumes ok: "index_ok rk kv lib cq sh"
  shows "\<exists>rs. rows_forward rk cq 0x48 sh n = Ok rs
    \<and> map ser_history_key rs = map fst (items (kv (so_history_db (cq_store cq)))
        {k. starts_with k (history_filter 0x48 sh) \<and> (ser_u8 0x48 @ sh @ ser_u32 Big (word_of_nat n)) \<le> k})
    \<and> (\<forall>r\<in>set rs. history_ok r \<and> thk_code r = 0x48 \<and> thk_hash r = sh)"
proof -
  let ?m = "kv (so_history_db (cq_store cq))" and ?b = "ser_u8 0x48 @ sh @ ser_u32 Big (word_of_nat n)"
  let ?S = "{k. starts_with k (history_filter 0x48 sh) \<and> ?b \<le> k}"
  have rk: "rocksdb rk kv" and sh: "hash_ok sh" and rows: "history_rows_ok ?m sh" using ok by (auto simp: index_ok_def)
  have st: "starts_with ?b (history_filter 0x48 sh)" by (simp add: starts_with_def history_filter_def ser_u8_def)
  obtain rs where rs: "collect_out history_from_row (map row_of (items ?m ?S)) = Ok rs"
      "map ser_history_key rs = map fst (items ?m ?S)"
      "\<forall>r. r \<in> set rs \<longleftrightarrow> history_ok r \<and> ser_history_key r \<in> dom ?m \<inter> ?S"
  proof -
    have "\<forall>k\<in>dom ?m \<inter> ?S. \<exists>c. history_ok c \<and> ser_history_key c = k" using rows by (auto simp: history_rows_ok_def)
    moreover have "\<forall>c v. history_ok c \<longrightarrow> history_from_row \<lparr>row_key = ser_history_key c, row_value = v\<rparr> = Ok c"
      using history_parse by blast
    ultimately show ?thesis using history_codec.parse_scan [OF rocksdb.finite_kv [OF rk]] that by blast
  qed
  have "rows_forward rk cq 0x48 sh n = Ok rs"
    using rs(1) rocksdb.db_rows(2) [OF rk st] sh
    by (simp add: rows_forward_def history_iter_scan_def prefix_height_def)
  moreover have "history_ok r \<and> thk_code r = 0x48 \<and> thk_hash r = sh" if "r \<in> set rs" for r
  proof -
    have "history_ok r" "starts_with (ser_history_key r) (history_filter 0x48 sh)" using rs(3) that by auto
    then show ?thesis using history_starts_with [of r sh "0x48"] sh by simp
  qed
  ultimately show ?thesis using rs(2) by blast
qed

lemma history_ge_bound:
  assumes "history_ok r" "thk_code r = 0x48" "thk_hash r = sh" "n < 2 ^ 32"
  shows "(ser_u8 0x48 @ sh @ ser_u32 Big (word_of_nat n)) \<le> ser_history_key r \<longleftrightarrow> n \<le> row_height r"
proof -
  have "prefix_height 0x48 sh (word_of_nat n) = Ok (ser_u8 0x48 @ sh @ ser_u32 Big (word_of_nat n))"
    using assms by (simp add: prefix_height_def)
  from history_ge_prefix_height [OF _ assms(2,3) this] assms show ?thesis
    by (simp add: word_le_nat_alt unat_of_nat)
qed

text \<open>A scan from a height is the part of the whole history from that height on.\<close>

lemma rows_forward_filter:
  assumes ok: "index_ok rk kv lib cq sh" and all: "rows_forward rk cq 0x48 sh 0 = Ok rs" and n: "n < 2 ^ 32"
  shows "rows_forward rk cq 0x48 sh n = Ok (filter (\<lambda>r. n \<le> row_height r) rs)"
proof -
  let ?m = "kv (so_history_db (cq_store cq))" and ?b = "\<lambda>n. ser_u8 0x48 @ sh @ ser_u32 Big (word_of_nat n)"
  let ?S = "\<lambda>n. {k. starts_with k (history_filter 0x48 sh) \<and> ?b n \<le> k}"
  have fin: "finite (dom ?m)" using ok by (auto simp: index_ok_def intro: rocksdb.finite_kv)
  obtain rs' where rs': "rows_forward rk cq 0x48 sh n = Ok rs'" "map ser_history_key rs' = map fst (items ?m (?S n))"
      "\<forall>r\<in>set rs'. history_ok r \<and> thk_code r = 0x48 \<and> thk_hash r = sh"
    using history_scan [OF ok] by blast
  have rs: "map ser_history_key rs = map fst (items ?m (?S 0))"
      "\<forall>r\<in>set rs. history_ok r \<and> thk_code r = 0x48 \<and> thk_hash r = sh"
    using history_scan [OF ok, of 0] all by auto
  have sub: "{k \<in> ?S 0. ?b n \<le> k} = ?S n"
  proof -
    have "(word_of_nat 0 :: u32) \<le> word_of_nat n" by simp
    then have "ser_u32 Big (word_of_nat 0) \<le> ser_u32 Big (word_of_nat n)"
      by (metis ser_u32_big_less not_less)
    then have "?b 0 \<le> ?b n" by (simp add: append_le_append)
    then show ?thesis by auto
  qed
  have "map ser_history_key (filter (\<lambda>r. n \<le> row_height r) rs)
      = map ser_history_key (filter (\<lambda>r. ?b n \<le> ser_history_key r) rs)"
    using rs(2) history_ge_bound n by (intro arg_cong [where f = "map ser_history_key"] filter_cong) auto
  also have "\<dots> = filter (\<lambda>k. ?b n \<le> k) (map ser_history_key rs)" by (simp add: filter_map comp_def)
  also have "\<dots> = map fst (filter (\<lambda>x. ?b n \<le> fst x) (items ?m (?S 0)))" unfolding rs(1) by (simp add: filter_map comp_def)
  also have "\<dots> = map fst (items ?m (?S n))" unfolding filter_items [OF fin, of "\<lambda>k. ?b n \<le> k"] sub ..
  finally have "map ser_history_key rs' = map ser_history_key (filter (\<lambda>r. n \<le> row_height r) rs)" using rs'(2) by simp
  moreover have "inj_on ser_history_key (set rs' \<union> set (filter (\<lambda>r. n \<le> row_height r) rs))"
  proof (rule inj_onI)
    fix a b assume "a \<in> set rs' \<union> set (filter (\<lambda>r. n \<le> row_height r) rs)" "b \<in> set rs' \<union> set (filter (\<lambda>r. n \<le> row_height r) rs)"
    then have "history_ok a" "history_ok b" using rs'(3) rs(2) by auto
    then show "ser_history_key a = ser_history_key b \<Longrightarrow> a = b" using history_codec.enc_inject by blast
  qed
  ultimately have "rs' = filter (\<lambda>r. n \<le> row_height r) rs" using map_inj_on by blast
  then show ?thesis using rs'(1) by simp
qed

lemma rows_forward_sorted:
  assumes ok: "index_ok rk kv lib cq sh" and all: "rows_forward rk cq 0x48 sh 0 = Ok rs"
  shows "sorted_wrt (\<lambda>a b. row_height a \<le> row_height b) rs"
proof -
  have rs: "map ser_history_key rs = map fst (items (kv (so_history_db (cq_store cq)))
        {k. starts_with k (history_filter 0x48 sh) \<and> (ser_u8 0x48 @ sh @ ser_u32 Big (word_of_nat 0)) \<le> k})"
      "\<forall>r\<in>set rs. history_ok r \<and> thk_code r = 0x48 \<and> thk_hash r = sh"
    using history_scan [OF ok, of 0] all by auto
  have "sorted_wrt (<) (map ser_history_key rs)" unfolding rs(1) sorted_wrt_map by (rule sorted_items)
  then have "sorted_wrt (\<lambda>a b. ser_history_key a < ser_history_key b) rs" by (simp add: sorted_wrt_map)
  then show ?thesis
  proof (rule sorted_wrt_mono_rel [rotated])
    fix a b assume "a \<in> set rs" "b \<in> set rs" "ser_history_key a < ser_history_key b"
    then show "row_height a \<le> row_height b"
      using rs(2) history_key_less [of a b] by (auto simp: word_less_nat_alt)
  qed
qed

lemma in_map_filter: "y \<in> set (List.map_filter f xs) \<longleftrightarrow> (\<exists>x\<in>set xs. f x = Some y)"
  by (force simp: List.map_filter_def)

text \<open>The confirmed history above a height, for a chain that is in order.\<close>

lemma confirmed_history_spec:
  assumes ok: "index_ok rk kv lib cq sh"
  shows "\<exists>hs. confirmed_history rk cq sh 0 = Ok hs
    \<and> (\<forall>n<2 ^ 32. confirmed_history rk cq sh n = Ok (filter (\<lambda>x. n \<le> bid_height (snd x)) hs))
    \<and> sorted (map (\<lambda>x. bid_height (snd x)) hs)
    \<and> (\<forall>x\<in>set hs. history_ok (fst x) \<and> (\<exists>e\<in>set (hl_headers (cq_headers cq)). snd x = blockid_of e))"
proof -
  let ?f = "\<lambda>hist. map_out (\<lambda>r. case r of Some b \<Rightarrow> if bid_height b = row_height hist then Some (hist, b) else None | None \<Rightarrow> None)
      (tx_confirming_block rk cq (history_txid hist))"
  let ?g = "\<lambda>hist. (case confirming rk cq (history_txid hist) of
      Some b \<Rightarrow> if bid_height b = row_height hist then Some (hist, b) else None | None \<Rightarrow> None)"
  obtain rs where rs: "rows_forward rk cq 0x48 sh 0 = Ok rs"
      "\<forall>r\<in>set rs. history_ok r \<and> thk_code r = 0x48 \<and> thk_hash r = sh" using history_scan [OF ok] by blast
  have txid: "hash_ok (history_txid r)" if "history_ok r" for r
    using that by (cases "thk_txinfo r") (auto simp: history_txid_def)
  have conf: "tx_confirming_block rk cq t = Ok (confirming rk cq t)
      \<and> (\<forall>b. confirming rk cq t = Some b \<longrightarrow> (\<exists>e\<in>set (hl_headers (cq_headers cq)). b = blockid_of e))" if "hash_ok t" for t
    using tx_confirming_block_spec [of rk kv lib cq t] ok that by (auto simp: index_ok_def confirming_def confirmed_in_def)
  have run: "filter_map_out ?f xs = Ok (List.map_filter ?g xs)" if "set xs \<subseteq> set rs" for xs
  proof (rule filter_map_out_total)
    fix x assume "x \<in> set xs"
    then have "tx_confirming_block rk cq (history_txid x) = Ok (confirming rk cq (history_txid x))"
      using that rs(2) txid conf by blast
    then show "?f x = Ok (?g x)" by simp
  qed
  let ?hs = "List.map_filter ?g rs"
  have g: "fst y = r \<and> bid_height (snd y) = row_height r" if "?g r = Some y" for r y
    using that by (auto split: option.splits if_splits)
  have flt: "List.map_filter ?g (filter (\<lambda>r. n \<le> row_height r) xs) = filter (\<lambda>x. n \<le> bid_height (snd x)) (List.map_filter ?g xs)" for n xs
    by (induction xs) (auto simp: map_filter_simps split: option.splits)
  have "confirmed_history rk cq sh n = Ok (filter (\<lambda>x. n \<le> bid_height (snd x)) ?hs)" if "n < 2 ^ 32" for n
    using rows_forward_filter [OF ok rs(1) that] run [of "filter (\<lambda>r. n \<le> row_height r) rs"] flt
    by (simp add: confirmed_history_def)
  moreover have "confirmed_history rk cq sh 0 = Ok ?hs" using rs(1) run [of rs] by (simp add: confirmed_history_def)
  moreover have "sorted (map (\<lambda>x. bid_height (snd x)) ?hs)"
  proof -
    have mem: "\<exists>r\<in>set xs. ?g r = Some y" if "y \<in> set (List.map_filter ?g xs)" for y xs
      using that unfolding in_map_filter .
    have "sorted_wrt (\<lambda>a b. row_height a \<le> row_height b) rs" by (rule rows_forward_sorted [OF ok rs(1)])
    then show ?thesis
    proof (induction rs)
      case (Cons r xs)
      show ?case
      proof (cases "?g r")
        case None
        then show ?thesis using Cons by (simp add: map_filter_simps)
      next
        case (Some y)
        have "bid_height (snd y) \<le> bid_height (snd z)" if z: "z \<in> set (List.map_filter ?g xs)" for z
        proof -
          obtain w where w: "w \<in> set xs" "?g w = Some z" using mem [OF z] by blast
          then show ?thesis using g [OF Some] g [OF w(2)] Cons.prems by simp
        qed
        then show ?thesis using Some Cons by (auto simp: map_filter_simps)
      qed
    qed (simp add: map_filter_simps)
  qed
  moreover have "history_ok (fst x) \<and> (\<exists>e\<in>set (hl_headers (cq_headers cq)). snd x = blockid_of e)" if "x \<in> set ?hs" for x
  proof -
    have "\<exists>r\<in>set rs. ?g r = Some x" using that unfolding in_map_filter .
    then obtain r where r: "r \<in> set rs" "?g r = Some x" by blast
    then have "x = (r, snd x)" "confirming rk cq (history_txid r) = Some (snd x)" by (auto split: option.splits if_splits)
    moreover have "history_ok r" using rs(2) r(1) by blast
    ultimately show ?thesis using conf [OF txid] by (metis fst_conv)
  qed
  ultimately show ?thesis by blast
qed

text \<open>The history splits at every height.\<close>

lemma sorted_wrt_last_le: "sorted (xs :: nat list) \<Longrightarrow> x \<in> set xs \<Longrightarrow> x \<le> last xs"
  by (induction xs) (auto split: if_splits)

lemma sorted_split:
  fixes f :: "'a \<Rightarrow> nat"
  assumes "sorted (map f xs)"
  shows "xs = filter (\<lambda>x. f x \<le> h) xs @ filter (\<lambda>x. Suc h \<le> f x) xs"
  using assms
proof (induction xs)
  case (Cons x xs)
  show ?case
  proof (cases "f x \<le> h")
    case False
    then have "\<forall>y\<in>set xs. h < f y" using Cons.prems by auto
    then have "filter (\<lambda>x. f x \<le> h) xs = []" "filter (\<lambda>x. Suc h \<le> f x) xs = xs"
      by (auto simp: filter_empty_conv filter_id_conv)
    then show ?thesis using False by simp
  qed (use Cons in simp)
qed simp

lemma confirmed_history_above:
  assumes "index_ok rk kv lib cq sh" "confirmed_history rk cq sh 0 = Ok hs" "height_by_hash cq bh = Some h"
  shows "confirmed_history rk cq sh (h + 1) = Ok (filter (\<lambda>x. Suc h \<le> bid_height (snd x)) hs)"
proof -
  have "wf_headers lib (cq_headers cq)" and len: "length (hl_headers (cq_headers cq)) < 2 ^ 32"
    using assms(1) by (auto simp: index_ok_def)
  then obtain e where "e \<in> set (hl_headers (cq_headers cq))" "he_height e = h"
    using assms(3) header_by_blockhash_Some by (fastforce simp: height_by_hash_def)
  then have "h < length (hl_headers (cq_headers cq))"
    using \<open>wf_headers lib (cq_headers cq)\<close> by (auto simp: wf_headers_def wf_entries_def in_set_conv_nth)
  then have "h + 1 < 2 ^ 32" using len by simp
  then show ?thesis using confirmed_history_spec [OF assms(1)] assms(2) by (metis Suc_eq_plus1 outcome.inject(1))
qed

lemma last_block_height:
  assumes "index_ok rk kv lib cq sh" "confirmed_history rk cq sh 0 = Ok hs"
    and "last_block rows = Some bh" "hs = rows' @ rows"
  shows "hash_ok bh \<and> (\<exists>h. height_by_hash cq bh = Some h \<and> filter (\<lambda>x. bid_height (snd x) \<le> h) hs = hs)"
proof -
  obtain hs' where "confirmed_history rk cq sh 0 = Ok hs'" "sorted (map (\<lambda>x. bid_height (snd x)) hs')"
      "\<forall>x\<in>set hs'. history_ok (fst x) \<and> (\<exists>e\<in>set (hl_headers (cq_headers cq)). snd x = blockid_of e)"
    using confirmed_history_spec [OF assms(1)] by blast
  then have hs: "sorted (map (\<lambda>x. bid_height (snd x)) hs)"
      "\<forall>x\<in>set hs. \<exists>e\<in>set (hl_headers (cq_headers cq)). snd x = blockid_of e" using assms(2) by auto
  have rows: "rows \<noteq> []" "bh = bid_hash (snd (last rows))"
    using assms(3) by (auto simp: last_block_def last_opt_def split: if_splits)
  have last: "last hs = last rows" "last rows \<in> set hs" using rows(1) assms(4) by simp_all
  then obtain e where e: "e \<in> set (hl_headers (cq_headers cq))" "snd (last rows) = blockid_of e" using hs(2) by blast
  have wf: "wf_headers lib (cq_headers cq)" "\<forall>e\<in>set (hl_headers (cq_headers cq)). hash_ok (he_hash e)"
    using assms(1) by (auto simp: index_ok_def)
  have "height_by_hash cq bh = Some (he_height e)"
    using header_by_blockhash_Some [OF wf(1), of bh e] e rows(2) by (simp add: height_by_hash_def blockid_of_def)
  moreover have "bid_height (snd x) \<le> he_height e" if "x \<in> set hs" for x
  proof -
    have "hs \<noteq> []" using that by auto
    then have "bid_height (snd x) \<le> bid_height (snd (last hs))"
      using hs(1) that by (metis (no_types, lifting) last_map last_in_set list.map_disc_iff sorted_wrt_last_le image_eqI list.set_map)
    then show ?thesis using last e by (simp add: blockid_of_def)
  qed
  moreover have "hash_ok bh" using wf(2) e rows(2) by (simp add: blockid_of_def)
  ultimately show ?thesis by (auto simp: filter_id_conv)
qed

section \<open>The statistics cache\<close>

lemma stats_fold_last: "snd (snd (foldl stats_step (st, seen, None) rows)) = last_block rows"
proof (induction rows rule: rev_induct)
  case (snoc row rows)
  then show ?case
    by (cases "foldl stats_step (st, seen, None) rows"; cases row) (simp add: last_block_def Let_def)
qed (simp add: last_block_def last_opt_def)

lemma stats_step_new_block:
  assumes "lb \<noteq> Some (bid_hash (snd row))"
  shows "stats_step (st, seen, lb) row = stats_step (st, {}, None) row"
  using assms by (cases row) simp

lemma stats_loop_append:
  assumes "last_block xs \<noteq> Some (bid_hash (snd y))"
  shows "stats_loop st (xs @ y # ys) = stats_loop (fst (stats_loop st xs)) (y # ys)"
proof -
  obtain st' seen where f: "foldl stats_step (st, {}, None) xs = (st', seen, last_block xs)"
    using stats_fold_last [of st "{}" xs] by (metis prod.collapse)
  have "foldl stats_step (st, {}, None) (xs @ y # ys) = foldl stats_step (stats_step (st', seen, last_block xs) y) ys"
    by (simp add: f)
  also have "stats_step (st', seen, last_block xs) y = stats_step (st', {}, None) y"
    by (rule stats_step_new_block [OF assms])
  finally have "foldl stats_step (st, {}, None) (xs @ y # ys) = foldl stats_step (st', {}, None) (y # ys)" by simp
  then show ?thesis by (simp add: stats_loop_def f)
qed

lemma stats_loop_last: "snd (stats_loop st rows) = last_block rows"
  using stats_fold_last [of st "{}" rows] by (simp add: stats_loop_def case_prod_beta)

text \<open>A cache row is valid if it holds the statistics of the history up to its block.\<close>

definition stats_cache_valid ::
  "'d rocks \<Rightarrow> ('d \<Rightarrow> bytes \<rightharpoonup> bytes) \<Rightarrow> bitcoin_lib \<Rightarrow> 'd chain_query \<Rightarrow> hash \<Rightarrow> bool"
where
  "stats_cache_valid rk kv lib cq sh \<longleftrightarrow>
     (\<forall>v. kv (so_cache_db (cq_store cq)) (stats_cache_key sh) = Some v \<longrightarrow>
        (\<exists>st bh. de_stats_cache lib v = Some (st, bh)
           \<and> (\<forall>h hs. height_by_hash cq bh = Some h \<longrightarrow> confirmed_history rk cq sh 0 = Ok hs
                \<longrightarrow> st = fst (stats_loop stats_default (filter (\<lambda>x. bid_height (snd x) \<le> h) hs)))))"

lemma confirmed_history_cache [simp]:
  "confirmed_history rk (cache_put rk' row fl cq) = confirmed_history rk cq"
  "height_by_hash (cache_put rk' row fl cq) = height_by_hash cq"
  "cq_headers (cache_put rk' row fl cq) = cq_headers cq"
  by ((intro ext)?, simp add: confirmed_history_def rows_forward_def history_iter_scan_def tx_confirming_block_def
      cache_put_def height_by_hash_def)+

lemma cache_put_kv:
  assumes "rocksdb rk kv"
  shows "kv (so_cache_db (cq_store (cache_put rk row fl cq))) = (kv (so_cache_db (cq_store cq)))(row_key row \<mapsto> row_value row)"
proof -
  have "consistent_rows [row]" by (simp add: consistent_rows_def)
  then show ?thesis using rocksdb.db_write_kv [OF assms] by (simp add: cache_put_def rows_map_def)
qed

lemma above_block_differs:
  assumes ok: "index_ok rk kv lib cq sh" and hs: "confirmed_history rk cq sh 0 = Ok hs"
    and "filter (\<lambda>x. Suc h \<le> bid_height (snd x)) hs = y # ys"
  shows "last_block (filter (\<lambda>x. bid_height (snd x) \<le> h) hs) \<noteq> Some (bid_hash (snd y))"
proof
  let ?a = "filter (\<lambda>x. bid_height (snd x) \<le> h) hs"
  assume "last_block ?a = Some (bid_hash (snd y))"
  then have "?a \<noteq> []" and a2: "bid_hash (snd (last ?a)) = bid_hash (snd y)"
    by (auto simp: last_block_def last_opt_def split: if_splits)
  then have a: "last ?a \<in> set ?a" by (intro last_in_set)
  have y: "y \<in> set hs" "Suc h \<le> bid_height (snd y)"
    using assms(3) by (metis filter_eq_ConsD in_set_conv_decomp, metis (no_types, lifting) filter_eq_ConsD)
  have blocks: "\<forall>x\<in>set hs. \<exists>e\<in>set (hl_headers (cq_headers cq)). snd x = blockid_of e"
    using confirmed_history_spec [OF ok] hs by auto
  have wf: "wf_headers lib (cq_headers cq)" using ok by (simp add: index_ok_def)
  obtain e1 where e1: "e1 \<in> set (hl_headers (cq_headers cq))" "snd (last ?a) = blockid_of e1" using blocks a by auto
  obtain e2 where e2: "e2 \<in> set (hl_headers (cq_headers cq))" "snd y = blockid_of e2" using blocks y(1) by blast
  have "he_hash e1 = he_hash e2" using a2 e1 e2 by (simp add: blockid_of_def)
  then have "e1 = e2" using header_by_blockhash_Some [OF wf] e1(1) e2(1) by (metis option.inject)
  then show False using a y(2) e1 e2 by auto
qed

lemma stats_correct:
  assumes ok: "index_ok rk kv lib cq sh" and serde: "hash_serde lib" and valid: "stats_cache_valid rk kv lib cq sh"
    and hs: "confirmed_history rk cq sh 0 = Ok hs"
  shows "\<exists>cq'. stats rk lib cq sh fl = Ok (fst (stats_loop stats_default hs), cq')
    \<and> stats_cache_valid rk kv lib cq' sh \<and> (cq' = cq \<or> (\<exists>row. cq' = cache_put rk row fl cq))"
proof -
  have rk: "rocksdb rk kv" and sh: "hash_ok sh" using ok by (auto simp: index_ok_def)
  have srt: "sorted (map (\<lambda>x. bid_height (snd x)) hs)" using confirmed_history_spec [OF ok] hs by auto
  obtain cache where cache: "stats_cache rk lib cq sh = Ok cache"
    and cv: "\<And>st h. cache = Some (st, h) \<Longrightarrow> (\<exists>bh. height_by_hash cq bh = Some h)
        \<and> st = fst (stats_loop stats_default (filter (\<lambda>x. bid_height (snd x) \<le> h) hs))"
  proof (cases "kv (so_cache_db (cq_store cq)) (stats_cache_key sh)")
    case None
    then show ?thesis using that [of None] rocksdb.db_rows(4) [OF rk] by (simp add: stats_cache_def)
  next
    case (Some v)
    then obtain st bh where v: "de_stats_cache lib v = Some (st, bh)"
        "\<forall>h. height_by_hash cq bh = Some h \<longrightarrow> st = fst (stats_loop stats_default (filter (\<lambda>x. bid_height (snd x) \<le> h) hs))"
    proof -
      obtain st bh where "de_stats_cache lib v = Some (st, bh)"
          "\<forall>h hs. height_by_hash cq bh = Some h \<longrightarrow> confirmed_history rk cq sh 0 = Ok hs
             \<longrightarrow> st = fst (stats_loop stats_default (filter (\<lambda>x. bid_height (snd x) \<le> h) hs))"
        using valid Some unfolding stats_cache_valid_def by (elim allE impE) auto
      then show ?thesis using that hs by simp
    qed
    show ?thesis
    proof (rule that)
      show "stats_cache rk lib cq sh = Ok (if is_sane st then map_option (\<lambda>h. (st, h)) (height_by_hash cq bh) else None)"
        using Some v(1) rocksdb.db_rows(4) [OF rk] by (simp add: stats_cache_def)
    qed (use v(2) in \<open>auto split: if_splits\<close>)
  qed
  obtain rows where rows: "(case cache of None \<Rightarrow> stats_delta rk cq sh stats_default 0
        | Some (oldstats, blockheight) \<Rightarrow> stats_delta rk cq sh oldstats (blockheight + 1))
      = Ok (fst (stats_loop stats_default hs), last_block rows)" "\<exists>rows'. hs = rows' @ rows"
  proof (cases cache)
    case None
    then show ?thesis using that [of hs] hs stats_loop_last [of stats_default hs]
      by (simp add: stats_delta_def) (metis prod.collapse)
  next
    case (Some c)
    obtain st h where c: "c = (st, h)" by (cases c)
    let ?a = "filter (\<lambda>x. bid_height (snd x) \<le> h) hs" and ?b = "filter (\<lambda>x. Suc h \<le> bid_height (snd x)) hs"
    obtain bh where bh: "height_by_hash cq bh = Some h" and st: "st = fst (stats_loop stats_default ?a)" using cv Some c by blast
    have split: "hs = ?a @ ?b" by (rule sorted_split [OF srt])
    have "fst (stats_loop stats_default hs) = fst (stats_loop st ?b)"
    proof (cases ?b)
      case Nil
      then have "hs = ?a" using split by simp
      then show ?thesis using st Nil by (simp add: stats_loop_def)
    next
      case (Cons y ys)
      have "stats_loop stats_default (?a @ y # ys) = stats_loop st (y # ys)"
        unfolding st by (rule stats_loop_append [OF above_block_differs [OF ok hs Cons]])
      then show ?thesis using split Cons by metis
    qed
    then have "stats_delta rk cq sh st (h + 1) = Ok (fst (stats_loop stats_default hs), last_block ?b)"
      using confirmed_history_above [OF ok hs bh] stats_loop_last [of st ?b] by (simp add: stats_delta_def prod_eq_iff)
    then show ?thesis using that [of ?b] Some c split by auto
  qed
  let ?st = "fst (stats_loop stats_default hs)"
  have saved: "stats_cache_valid rk kv lib (cache_put rk (script_cache_into_row r) fl cq) sh"
    if b: "last_block rows = Some bh" and r: "stats_cache_new lib sh ?st bh = Ok r" for bh r
  proof -
    have l: "hash_ok bh" "\<exists>h. height_by_hash cq bh = Some h \<and> filter (\<lambda>x. bid_height (snd x) \<le> h) hs = hs"
      using last_block_height [OF ok hs b] rows(2) by blast+
    have key: "row_key (script_cache_into_row r) = stats_cache_key sh"
      and val: "row_value (script_cache_into_row r) = ser_stats ?st @ lib_ser_hash lib bh"
      using r sh by (auto simp: stats_cache_new_def script_cache_into_row_def ser_script_cache_key_def stats_cache_key_def ser_u8_def)
    have "de_stats_cache lib (ser_stats ?st @ lib_ser_hash lib bh) = Some (?st, bh)"
      using stats_cache_restored [OF serde l(1) sh, of ?st "[]"] r sh by (simp add: stats_cache_new_def)
    then show ?thesis using l(2) hs unfolding stats_cache_valid_def
      by (auto simp: cache_put_kv [OF rk] key val)
  qed
  show ?thesis
  proof (cases "last_block rows")
    case None
    then show ?thesis using cache rows(1) valid by (simp add: stats_def)
  next
    case (Some bh)
    obtain r where r: "stats_cache_new lib sh ?st bh = Ok r" using sh by (simp add: stats_cache_new_def)
    show ?thesis using cache rows(1) valid Some r saved [OF Some r] by (auto simp: stats_def)
  qed
qed

section \<open>The cache of unspent outputs\<close>

definition utxo_cache_valid ::
  "'d rocks \<Rightarrow> ('d \<Rightarrow> bytes \<rightharpoonup> bytes) \<Rightarrow> bitcoin_lib \<Rightarrow> 'd chain_query \<Rightarrow> hash \<Rightarrow> bool"
where
  "utxo_cache_valid rk kv lib cq sh \<longleftrightarrow>
     (\<forall>v. kv (so_cache_db (cq_store cq)) (utxo_cache_key sh) = Some v \<longrightarrow>
        (\<exists>us bh. de_utxo_cache lib v = Some (us, bh)
           \<and> (\<forall>h hs. height_by_hash cq bh = Some h \<longrightarrow> confirmed_history rk cq sh 0 = Ok hs
                \<longrightarrow> from_utxo_cache us (known_blockid cq)
                      = Ok (utxo_fold [] (filter (\<lambda>x. bid_height (snd x) \<le> h) hs)))))"

lemma utxo_fold_entries:
  assumes "(pt, b, v) \<in> set (utxo_fold m rows)"
  shows "(pt, b, v) \<in> set m \<or> (\<exists>row\<in>set rows. snd row = b \<and> (\<exists>i. thk_txinfo (fst row) = Funding i \<and> op_txid pt = fu_txid i))"
  using assms
proof (induction rows arbitrary: m)
  case (Cons row rows)
  from Cons.IH [of "utxo_step m row"] Cons.prems
  have "(pt, b, v) \<in> set (utxo_step m row) \<or> (\<exists>row\<in>set rows. snd row = b \<and> (\<exists>i. thk_txinfo (fst row) = Funding i \<and> op_txid pt = fu_txid i))"
    by simp
  moreover have "(pt, b, v) \<in> set m \<or> (snd row = b \<and> (\<exists>i. thk_txinfo (fst row) = Funding i \<and> op_txid pt = fu_txid i))"
    if "(pt, b, v) \<in> set (utxo_step m row)"
    using that by (cases row) (auto simp: map_remove_def history_funded_outpoint_def split: tx_history_info.splits)
  ultimately show ?case by auto
qed simp

lemma known_blockid_entry:
  assumes "wf_headers lib (cq_headers cq)" "e \<in> set (hl_headers (cq_headers cq))"
  shows "known_blockid cq (he_height e) = Some (blockid_of e) \<and> he_height e < length (hl_headers (cq_headers cq))"
proof -
  obtain i where i: "i < length (hl_headers (cq_headers cq))" "hl_headers (cq_headers cq) ! i = e"
    using assms(2) by (metis in_set_conv_nth)
  then have "he_height e = i" using assms(1) by (auto simp: wf_headers_def wf_entries_def)
  then show ?thesis using i header_by_height_total [OF assms(1)]
    by (simp add: known_blockid_def blockid_by_height_def nth_opt_def)
qed

lemma known_blockid_cache [simp]: "known_blockid (cache_put rk' row fl cq) = known_blockid cq"
  by (intro ext) (simp add: known_blockid_def blockid_by_height_def)

lemma apply_utxo_delta_Ok_iff:
  "apply_utxo_delta m rows limit = Ok r \<longleftrightarrow>
     (\<forall>k<length rows. length (utxo_fold m (take (Suc k) rows)) \<le> limit \<and> Suc k \<le> limit * 500 mod 2 ^ 64)
     \<and> r = (utxo_fold m rows, last_block rows, length rows)"
  unfolding apply_utxo_delta_def utxo_loop_Ok_iff by (auto simp: last_block_def last_opt_def)

lemma apply_utxo_delta_suffix:
  assumes "apply_utxo_delta [] (xs @ ys) limit = Ok r"
  shows "apply_utxo_delta (utxo_fold [] xs) ys limit = Ok (utxo_fold [] (xs @ ys), last_block ys, length ys)"
  unfolding apply_utxo_delta_Ok_iff
proof (intro conjI allI impI)
  note a = assms [unfolded apply_utxo_delta_Ok_iff, THEN conjunct1, THEN spec]
  fix k assume "k < length ys"
  then have "length (utxo_fold [] (take (Suc (length xs + k)) (xs @ ys))) \<le> limit" "Suc (length xs + k) \<le> limit * 500 mod 2 ^ 64"
    using a [of "length xs + k"] by (simp_all del: take_append foldl_append)
  moreover have "take (Suc (length xs + k)) (xs @ ys) = xs @ take (Suc k) ys" by simp
  ultimately show "length (utxo_fold (utxo_fold [] xs) (take (Suc k) ys)) \<le> limit" "Suc k \<le> limit * 500 mod 2 ^ 64"
    by (metis foldl_append, linarith)
qed simp_all

lemma utxo_cache_read:
  assumes ok: "index_ok rk kv lib cq sh" and valid: "utxo_cache_valid rk kv lib cq sh"
    and hs: "confirmed_history rk cq sh 0 = Ok hs"
  shows "\<exists>cache. utxo_cache rk lib cq sh = Ok cache
    \<and> (\<forall>m h. cache = Some (m, h) \<longrightarrow> (\<exists>bh. height_by_hash cq bh = Some h)
          \<and> m = utxo_fold [] (filter (\<lambda>x. bid_height (snd x) \<le> h) hs))"
proof (cases "kv (so_cache_db (cq_store cq)) (utxo_cache_key sh)")
  case None
  then show ?thesis using ok rocksdb.db_rows(4) [of rk kv] by (simp add: utxo_cache_def index_ok_def)
next
  case (Some v)
  then obtain us bh where v: "de_utxo_cache lib v = Some (us, bh)"
      "\<forall>h hs. height_by_hash cq bh = Some h \<longrightarrow> confirmed_history rk cq sh 0 = Ok hs
         \<longrightarrow> from_utxo_cache us (known_blockid cq) = Ok (utxo_fold [] (filter (\<lambda>x. bid_height (snd x) \<le> h) hs))"
    using valid unfolding utxo_cache_valid_def by (elim allE impE) auto
  have "utxo_cache rk lib cq sh = (case height_by_hash cq bh of None \<Rightarrow> Ok None
      | Some height \<Rightarrow> map_out (\<lambda>utxos. Some (utxos, height)) (from_utxo_cache us (known_blockid cq)))"
    using Some v(1) ok rocksdb.db_rows(4) [of rk kv] by (simp add: utxo_cache_def index_ok_def)
  then show ?thesis using v(2) hs by (cases "height_by_hash cq bh") auto
qed

lemma utxo_cache_saved:
  assumes ok: "index_ok rk kv lib cq sh" and serde: "hash_serde lib"
    and hs: "confirmed_history rk cq sh 0 = Ok hs" and len: "length (utxo_fold [] hs) < 2 ^ 64"
    and b: "last_block rows = Some bh" "hs = rows' @ rows" and r: "utxo_cache_new lib sh (utxo_fold [] hs) bh = Ok r"
  shows "utxo_cache_valid rk kv lib (cache_put rk (script_cache_into_row r) fl cq) sh"
proof -
  have rk: "rocksdb rk kv" and sh: "hash_ok sh" and wf: "wf_headers lib (cq_headers cq)"
    and short: "length (hl_headers (cq_headers cq)) < 2 ^ 32" using ok by (auto simp: index_ok_def)
  have l: "hash_ok bh" "\<exists>h. height_by_hash cq bh = Some h \<and> filter (\<lambda>x. bid_height (snd x) \<le> h) hs = hs"
    using last_block_height [OF ok hs b] by blast+
  have spec: "\<forall>x\<in>set hs. history_ok (fst x) \<and> (\<exists>e\<in>set (hl_headers (cq_headers cq)). snd x = blockid_of e)"
    using confirmed_history_spec [OF ok] hs by auto
  have "hash_ok (op_txid pt) \<and> bid_height bb < 2 ^ 32 \<and> known_blockid cq (bid_height bb) = Some bb"
    if z: "(pt, bb, v) \<in> set (utxo_fold [] hs)" for pt bb v
  proof -
    obtain row i where row: "row \<in> set hs" "snd row = bb" "thk_txinfo (fst row) = Funding i" "op_txid pt = fu_txid i"
      using utxo_fold_entries [OF z] by auto
    then obtain e where e: "e \<in> set (hl_headers (cq_headers cq))" "bb = blockid_of e" using spec by blast
    have "history_ok (fst row)" using spec row(1) by blast
    then have "hash_ok (op_txid pt)" using row(3,4) by simp
    then show ?thesis using known_blockid_entry [OF wf e(1)] e(2) short by (simp add: blockid_of_def)
  qed
  then obtain cached where c: "bind_out (utxo_cache_new lib sh (utxo_fold [] hs) bh) (\<lambda>r. expect [] (de_utxo_cache lib (snd r))) = Ok (cached, bh)"
      "from_utxo_cache cached (known_blockid cq) = Ok (utxo_fold [] hs)"
    using utxo_cache_restored [OF serde l(1) sh len, of "known_blockid cq" "[]"] by blast
  have key: "row_key (script_cache_into_row r) = utxo_cache_key sh" and val: "row_value (script_cache_into_row r) = snd r"
    using r sh by (auto simp: utxo_cache_new_def script_cache_into_row_def ser_script_cache_key_def utxo_cache_key_def ser_u8_def)
  have "de_utxo_cache lib (snd r) = Some (cached, bh)"
    using c(1) r by (cases "de_utxo_cache lib (snd r)") auto
  then show ?thesis using l(2) hs c(2) unfolding utxo_cache_valid_def
    by (auto simp: cache_put_kv [OF rk] key val)
qed

text \<open>The entries the answer lists.\<close>

definition utxo_entries :: "utxo_map \<Rightarrow> utxo_entry list" where
  "utxo_entries = map (\<lambda>(outpoint, blockid, v).
     \<lparr>ux_txid = op_txid outpoint, ux_vout = op_vout outpoint, ux_confirmed = Some blockid, ux_value = v\<rparr>)"

lemma utxo_correct:
  assumes ok: "index_ok rk kv lib cq sh" and serde: "hash_serde lib" and valid: "utxo_cache_valid rk kv lib cq sh"
    and hs: "confirmed_history rk cq sh 0 = Ok hs" and run: "apply_utxo_delta [] hs limit = Ok r" and lim: "limit < 2 ^ 64"
  shows "\<exists>cq'. utxo rk lib cq sh limit fl = Ok (utxo_entries (fst r), cq')
    \<and> utxo_cache_valid rk kv lib cq' sh \<and> (cq' = cq \<or> (\<exists>row. cq' = cache_put rk row fl cq))"
proof -
  have srt: "sorted (map (\<lambda>x. bid_height (snd x)) hs)" using confirmed_history_spec [OF ok] hs by auto
  have r: "fst r = utxo_fold [] hs" using run unfolding apply_utxo_delta_Ok_iff by simp
  have len: "length (utxo_fold [] hs) < 2 ^ 64"
  proof (cases "hs = []")
    case False
    then have "length (utxo_fold [] (take (Suc (length hs - 1)) hs)) \<le> limit"
      using run [unfolded apply_utxo_delta_Ok_iff, THEN conjunct1, THEN spec, of "length hs - 1"] by simp
    moreover have "take (Suc (length hs - 1)) hs = hs" using False by simp
    ultimately show ?thesis using lim by (metis le_less_trans)
  qed simp
  obtain cache where cache: "utxo_cache rk lib cq sh = Ok cache"
    and cv: "\<And>m h. cache = Some (m, h) \<Longrightarrow> (\<exists>bh. height_by_hash cq bh = Some h)
        \<and> m = utxo_fold [] (filter (\<lambda>x. bid_height (snd x) \<le> h) hs)"
    using utxo_cache_read [OF ok valid hs] by auto
  obtain rows rows' where rows: "(case cache of None \<Rightarrow> utxo_delta rk cq sh [] 0 limit
        | Some (oldutxos, blockheight) \<Rightarrow> utxo_delta rk cq sh oldutxos (blockheight + 1) limit)
      = Ok (utxo_fold [] hs, last_block rows, length rows)" "hs = rows' @ rows"
  proof (cases cache)
    case None
    have "apply_utxo_delta [] hs limit = Ok (utxo_fold [] hs, last_block hs, length hs)"
      using run unfolding apply_utxo_delta_Ok_iff by blast
    then show ?thesis using that [of hs "[]"] None hs by (simp add: utxo_delta_def)
  next
    case (Some c)
    obtain m h where c: "c = (m, h)" by (cases c)
    let ?a = "filter (\<lambda>x. bid_height (snd x) \<le> h) hs" and ?b = "filter (\<lambda>x. Suc h \<le> bid_height (snd x)) hs"
    obtain bh where bh: "height_by_hash cq bh = Some h" and m: "m = utxo_fold [] ?a" using cv Some c by blast
    have split: "hs = ?a @ ?b" by (rule sorted_split [OF srt])
    have "apply_utxo_delta (utxo_fold [] ?a) ?b limit = Ok (utxo_fold [] (?a @ ?b), last_block ?b, length ?b)"
      by (rule apply_utxo_delta_suffix [of _ _ _ r]) (unfold split [symmetric], rule run)
    then have "utxo_delta rk cq sh m (h + 1) limit = Ok (utxo_fold [] hs, last_block ?b, length ?b)"
      using confirmed_history_above [OF ok hs bh] m unfolding split [symmetric] by (simp add: utxo_delta_def)
    then show ?thesis using that [OF _ split] Some c by simp
  qed
  have sh: "hash_ok sh" using ok by (simp add: index_ok_def)
  show ?thesis
  proof (cases "last_block rows")
    case None
    then show ?thesis using cache rows(1) valid r by (simp add: utxo_def utxo_entries_def)
  next
    case (Some bh)
    obtain row where row: "utxo_cache_new lib sh (utxo_fold [] hs) bh = Ok row" using sh by (simp add: utxo_cache_new_def)
    show ?thesis
      using cache rows(1) valid Some r row utxo_cache_saved [OF ok serde hs len Some rows(2) row]
      by (auto simp: utxo_def utxo_entries_def)
  qed
qed

section \<open>What the statistics count\<close>

lemma filter_map_out_member:
  "filter_map_out f xs = Ok ys \<Longrightarrow> y \<in> set ys \<Longrightarrow> \<exists>x\<in>set xs. f x = Ok (Some y)"
proof (induction xs arbitrary: ys)
  case (Cons x xs)
  then obtain r where r: "f x = Ok r" by (cases "f x") auto
  from Cons.prems(1) r obtain zs where zs: "filter_map_out f xs = Ok zs" by (cases "filter_map_out f xs") auto
  from Cons.prems r zs have "r = Some y \<or> y \<in> set zs" by (cases r) auto
  then show ?case using Cons.IH [OF zs] r by auto
qed simp

lemma confirmed_history_confirming:
  assumes "confirmed_history rk cq sh 0 = Ok hs" "x \<in> set hs"
  shows "confirming rk cq (history_txid (fst x)) = Some (snd x)"
proof -
  let ?f = "\<lambda>hist. map_out (\<lambda>r. case r of Some b \<Rightarrow> if bid_height b = row_height hist then Some (hist, b) else None | None \<Rightarrow> None)
      (tx_confirming_block rk cq (history_txid hist))"
  obtain rs where "filter_map_out ?f rs = Ok hs"
    using assms(1) unfolding confirmed_history_def by (cases "rows_forward rk cq 0x48 sh 0") auto
  from filter_map_out_member [OF this assms(2)] obtain r where "?f r = Ok (Some x)" by blast
  then show ?thesis by (cases "tx_confirming_block rk cq (history_txid r)") (auto simp: confirming_def split: option.splits if_splits)
qed

abbreviation row_txid :: "tx_history_key \<times> block_id \<Rightarrow> hash" where
  "row_txid x \<equiv> history_txid (fst x)"

text \<open>Rows of whole blocks, in the order of the chain.\<close>

definition in_blocks :: "(tx_history_key \<times> block_id) list \<Rightarrow> bool" where
  "in_blocks rows \<longleftrightarrow>
     sorted (map (\<lambda>x. bid_height (snd x)) rows)
     \<and> (\<forall>x\<in>set rows. \<forall>y\<in>set rows.
          row_txid x = row_txid y \<or> bid_hash (snd x) = bid_hash (snd y) \<or> bid_height (snd x) = bid_height (snd y)
            \<longrightarrow> snd x = snd y)"

lemma confirmed_in_blocks:
  assumes ok: "index_ok rk kv lib cq sh" and hs: "confirmed_history rk cq sh 0 = Ok hs"
  shows "in_blocks hs"
proof -
  have wf: "wf_headers lib (cq_headers cq)" using ok by (simp add: index_ok_def)
  have spec: "sorted (map (\<lambda>x. bid_height (snd x)) hs)"
      "\<forall>x\<in>set hs. \<exists>e\<in>set (hl_headers (cq_headers cq)). snd x = blockid_of e"
    using confirmed_history_spec [OF ok] hs by auto
  have "snd x = snd y" if z: "x \<in> set hs" "y \<in> set hs"
    "row_txid x = row_txid y \<or> bid_hash (snd x) = bid_hash (snd y) \<or> bid_height (snd x) = bid_height (snd y)" for x y
  proof -
    obtain e1 e2 where e: "e1 \<in> set (hl_headers (cq_headers cq))" "snd x = blockid_of e1"
        "e2 \<in> set (hl_headers (cq_headers cq))" "snd y = blockid_of e2" using spec(2) z(1,2) by meson
    from z(3) show ?thesis
    proof (elim disjE)
      assume "row_txid x = row_txid y"
      then show ?thesis using confirmed_history_confirming [OF hs] z(1,2) by (metis option.inject)
    next
      assume "bid_hash (snd x) = bid_hash (snd y)"
      then have "he_hash e1 = he_hash e2" using e by (simp add: blockid_of_def)
      then have "e1 = e2" using header_by_blockhash_Some [OF wf] e(1,3) by (metis option.inject)
      then show ?thesis using e by simp
    next
      assume "bid_height (snd x) = bid_height (snd y)"
      then show ?thesis using known_blockid_entry [OF wf e(1)] known_blockid_entry [OF wf e(3)] e by (simp add: blockid_of_def)
    qed
  qed
  then show ?thesis using spec(1) by (auto simp: in_blocks_def)
qed

lemma in_blocksD:
  assumes "in_blocks rows" "x \<in> set rows" "y \<in> set rows"
  shows "row_txid x = row_txid y \<Longrightarrow> snd x = snd y" "bid_hash (snd x) = bid_hash (snd y) \<Longrightarrow> snd x = snd y"
    "bid_height (snd x) = bid_height (snd y) \<Longrightarrow> snd x = snd y"
  using assms unfolding in_blocks_def by blast+

lemma in_blocks_new_block:
  assumes b: "in_blocks (rows @ [y])" and new: "last_block rows \<noteq> Some (bid_hash (snd y))" and x: "x \<in> set rows"
  shows "bid_hash (snd x) \<noteq> bid_hash (snd y) \<and> row_txid x \<noteq> row_txid y"
proof (rule ccontr)
  assume "\<not> ?thesis"
  then have xy: "snd x = snd y" using in_blocksD(1,2) [OF b, of x y] x by auto
  have ne: "rows \<noteq> []" using x by auto
  have "sorted (map (\<lambda>x. bid_height (snd x)) (rows @ [y]))" using b unfolding in_blocks_def by (rule conjunct1)
  then have srt: "sorted (map (\<lambda>x. bid_height (snd x)) rows)" and top: "\<forall>z\<in>set rows. bid_height (snd z) \<le> bid_height (snd y)"
    by (simp_all add: sorted_append)
  have "bid_height (snd x) \<le> bid_height (snd (last rows))"
    using sorted_wrt_last_le [OF srt, of "bid_height (snd x)"] x ne by (simp add: last_map)
  then have "bid_height (snd (last rows)) = bid_height (snd y)" using top xy ne by (simp add: le_antisym)
  then have "snd (last rows) = snd y" using in_blocksD(3) [OF b, of "last rows" y] ne by simp
  then show False using new ne by (simp add: last_block_def last_opt_def)
qed

lemma in_blocks_butlast:
  assumes "in_blocks (rows @ [y])"
  shows "in_blocks rows"
proof -
  have "sorted (map (\<lambda>x. bid_height (snd x)) (rows @ [y]))" using assms unfolding in_blocks_def by (rule conjunct1)
  then have "sorted (map (\<lambda>x. bid_height (snd x)) rows)" by (simp add: sorted_append)
  moreover have "x \<in> set (rows @ [y])" if "x \<in> set rows" for x using that by simp
  ultimately show ?thesis using assms unfolding in_blocks_def by blast
qed

text \<open>The transactions are counted once each although only those of the current block are remembered.\<close>

lemma stats_tx_count:
  assumes "in_blocks rows"
  shows "st_tx_count (fst (stats_loop stats_default rows)) = of_nat (card (row_txid ` set rows))"
proof -
  have "st_tx_count (fst (foldl stats_step (stats_default, {}, None) rows)) = of_nat (card (row_txid ` set rows))
      \<and> fst (snd (foldl stats_step (stats_default, {}, None) rows))
        = row_txid ` {x \<in> set rows. Some (bid_hash (snd x)) = last_block rows}"
    using assms
  proof (induction rows rule: rev_induct)
    case (snoc y rows)
    obtain st seen where f: "foldl stats_step (stats_default, {}, None) rows = (st, seen, last_block rows)"
      using stats_fold_last [of stats_default "{}" rows] by (metis prod.collapse)
    have IH: "st_tx_count st = of_nat (card (row_txid ` set rows))" "seen = row_txid ` {x \<in> set rows. Some (bid_hash (snd x)) = last_block rows}"
      using snoc.IH [OF in_blocks_butlast [OF snoc.prems]] f by simp_all
    let ?seen = "if last_block rows \<noteq> Some (bid_hash (snd y)) then {} else seen"
    have step: "st_tx_count (fst (stats_step (st, seen, last_block rows) y)) = (if row_txid y \<in> ?seen then st_tx_count st else st_tx_count st + 1)"
      "fst (snd (stats_step (st, seen, last_block rows) y)) = insert (row_txid y) ?seen"
      by (cases y; simp add: Let_def split: tx_history_info.splits)+
    have same: "row_txid x = row_txid y \<Longrightarrow> bid_hash (snd x) = bid_hash (snd y)" if "x \<in> set rows" for x
      using in_blocksD(1) [OF snoc.prems, of x y] that by simp
    have cur: "?seen = row_txid ` {x \<in> set rows. bid_hash (snd x) = bid_hash (snd y)}"
    proof (cases "last_block rows = Some (bid_hash (snd y))")
      case False
      then have "{x \<in> set rows. bid_hash (snd x) = bid_hash (snd y)} = {}" using in_blocks_new_block [OF snoc.prems] by blast
      then show ?thesis using False by simp
    qed (use IH(2) in simp)
    have mem: "row_txid y \<in> ?seen \<longleftrightarrow> row_txid y \<in> row_txid ` set rows"
      unfolding cur using same by (fastforce simp: image_iff)
    have last: "last_block (rows @ [y]) = Some (bid_hash (snd y))" by (simp add: last_block_def last_opt_def)
    have "{x \<in> set (rows @ [y]). Some (bid_hash (snd x)) = last_block (rows @ [y])} = insert y {x \<in> set rows. bid_hash (snd x) = bid_hash (snd y)}"
      unfolding last by auto
    with cur have "fst (snd (foldl stats_step (stats_default, {}, None) (rows @ [y])))
        = row_txid ` {x \<in> set (rows @ [y]). Some (bid_hash (snd x)) = last_block (rows @ [y])}"
      using step(2) f by simp
    moreover have "st_tx_count (fst (foldl stats_step (stats_default, {}, None) (rows @ [y]))) = of_nat (card (row_txid ` set (rows @ [y])))"
      using step(1) f IH(1) unfolding mem by (simp add: insert_absorb)
    ultimately show ?case by blast
  qed (simp add: stats_default_def)
  then show ?thesis by (simp add: stats_loop_def case_prod_beta)
qed

abbreviation funded_values :: "(tx_history_key \<times> block_id) list \<Rightarrow> u64 list" where
  "funded_values rows \<equiv> List.map_filter (\<lambda>x. case thk_txinfo (fst x) of Funding i \<Rightarrow> Some (fu_value i) | _ \<Rightarrow> None) rows"

abbreviation spent_values :: "(tx_history_key \<times> block_id) list \<Rightarrow> u64 list" where
  "spent_values rows \<equiv> List.map_filter (\<lambda>x. case thk_txinfo (fst x) of Spending i \<Rightarrow> Some (sp_value i) | _ \<Rightarrow> None) rows"

lemma map_filter_snoc: "List.map_filter f (xs @ [x]) = List.map_filter f xs @ (case f x of None \<Rightarrow> [] | Some y \<Rightarrow> [y])"
  by (simp add: List.map_filter_def split: option.splits)

lemma stats_sums:
  fixes rows :: "(tx_history_key \<times> block_id) list"
  defines "st \<equiv> fst (stats_loop stats_default rows)"
  shows "st_funded_txo_count st = of_nat (length (funded_values rows)) \<and> st_funded_txo_sum st = sum_list (funded_values rows)
    \<and> st_spent_txo_count st = of_nat (length (spent_values rows)) \<and> st_spent_txo_sum st = sum_list (spent_values rows)"
proof -
  have "case foldl stats_step (stats_default, {}, None) rows of (st, _) \<Rightarrow>
      st_funded_txo_count st = of_nat (length (funded_values rows)) \<and> st_funded_txo_sum st = sum_list (funded_values rows)
    \<and> st_spent_txo_count st = of_nat (length (spent_values rows)) \<and> st_spent_txo_sum st = sum_list (spent_values rows)"
  proof (induction rows rule: rev_induct)
    case (snoc y rows)
    then show ?case
      by (cases "foldl stats_step (stats_default, {}, None) rows"; cases y)
        (auto simp: map_filter_snoc Let_def split: tx_history_info.splits)
  qed (simp add: stats_default_def map_filter_simps)
  then show ?thesis by (simp add: st_def stats_loop_def case_prod_beta)
qed

section \<open>Properties\<close>

lemma index_ok_cache: "index_ok rk kv lib cq sh \<Longrightarrow> index_ok rk kv lib (cache_put rk' row fl cq) sh"
  by (simp add: index_ok_def cache_put_def)

text \<open>The last event about an output in the history of a script.\<close>

definition last_event :: "(tx_history_key \<times> block_id) list \<Rightarrow> out_point \<Rightarrow> (tx_history_key \<times> block_id) option" where
  "last_event hs pt = last_opt (filter (\<lambda>row. history_funded_outpoint (fst row) = pt) hs)"

lemma utxo_entries_exact:
  "u \<in> set (utxo_entries (utxo_fold [] hs)) \<longleftrightarrow>
     (\<exists>hist b info. last_event hs (outpoint_of_utxo u) = Some (hist, b) \<and> thk_txinfo hist = Funding info
        \<and> ux_confirmed u = Some b \<and> ux_value u = fu_value info)"
proof -
  let ?m = "utxo_fold [] hs"
  have dist: "distinct (map fst ?m)" by (rule distinct_utxo_fold) simp
  have "u \<in> set (utxo_entries ?m) \<longleftrightarrow> (\<exists>b. (outpoint_of_utxo u, b, ux_value u) \<in> set ?m \<and> ux_confirmed u = Some b)"
  proof
    assume "u \<in> set (utxo_entries ?m)"
    then obtain pt b v where "(pt, b, v) \<in> set ?m"
      "u = \<lparr>ux_txid = op_txid pt, ux_vout = op_vout pt, ux_confirmed = Some b, ux_value = v\<rparr>" by (auto simp: utxo_entries_def)
    then show "\<exists>b. (outpoint_of_utxo u, b, ux_value u) \<in> set ?m \<and> ux_confirmed u = Some b"
      by (cases pt) (auto simp: outpoint_of_utxo_def)
  next
    assume "\<exists>b. (outpoint_of_utxo u, b, ux_value u) \<in> set ?m \<and> ux_confirmed u = Some b"
    then obtain b where "(outpoint_of_utxo u, b, ux_value u) \<in> set ?m" "ux_confirmed u = Some b" by blast
    then show "u \<in> set (utxo_entries ?m)"
      unfolding utxo_entries_def by (auto simp: outpoint_of_utxo_def intro!: image_eqI [of _ _ "(outpoint_of_utxo u, b, ux_value u)"])
  qed
  also have "\<dots> \<longleftrightarrow> (\<exists>b. map_of ?m (outpoint_of_utxo u) = Some (b, ux_value u) \<and> ux_confirmed u = Some b)"
    by (simp add: dist)
  also have "\<dots> \<longleftrightarrow> (\<exists>hist b info. last_event hs (outpoint_of_utxo u) = Some (hist, b) \<and> thk_txinfo hist = Funding info
        \<and> ux_confirmed u = Some b \<and> ux_value u = fu_value info)"
    unfolding utxo_fold_last last_event_def by (auto split: option.splits tx_history_info.splits)
  finally show ?thesis .
qed

text \<open>C16: unspent outputs. With a cache that is valid at its block, and a history within the limits, the
  answer lists exactly the outputs of the script whose last confirmed event funds them, with the block
  and the value of that event and each output once, and the cache written is valid again.\<close>

theorem unspent_outputs_exact:
  assumes "index_ok rk kv lib cq sh" "hash_serde lib" "utxo_cache_valid rk kv lib cq sh"
    and "confirmed_history rk cq sh 0 = Ok hs" and "limit < 2 ^ 64"
    and "\<forall>k<length hs. length (utxo_fold [] (take (Suc k) hs)) \<le> limit \<and> Suc k \<le> limit * 500 mod 2 ^ 64"
  shows "\<exists>us cq'. utxo rk lib cq sh limit fl = Ok (us, cq')
    \<and> (\<forall>u. u \<in> set us \<longleftrightarrow>
         (\<exists>hist b info. last_event hs (outpoint_of_utxo u) = Some (hist, b) \<and> thk_txinfo hist = Funding info
            \<and> ux_confirmed u = Some b \<and> ux_value u = fu_value info))
    \<and> distinct (map outpoint_of_utxo us)
    \<and> index_ok rk kv lib cq' sh \<and> utxo_cache_valid rk kv lib cq' sh \<and> confirmed_history rk cq' sh 0 = Ok hs"
proof -
  have run: "apply_utxo_delta [] hs limit = Ok (utxo_fold [] hs, last_block hs, length hs)"
    unfolding apply_utxo_delta_Ok_iff using assms(6) by blast
  obtain cq' where cq': "utxo rk lib cq sh limit fl = Ok (utxo_entries (utxo_fold [] hs), cq')"
      "utxo_cache_valid rk kv lib cq' sh" "cq' = cq \<or> (\<exists>row. cq' = cache_put rk row fl cq)"
    using utxo_correct [OF assms(1-4) run assms(5), of fl] by auto
  have "index_ok rk kv lib cq' sh" "confirmed_history rk cq' sh 0 = Ok hs"
    using cq'(3) assms(1,4) index_ok_cache by fastforce+
  moreover have "map outpoint_of_utxo (utxo_entries m) = map fst m" for m
    by (auto simp: utxo_entries_def outpoint_of_utxo_def)
  then have "distinct (map outpoint_of_utxo (utxo_entries (utxo_fold [] hs)))" by (simp add: distinct_utxo_fold)
  ultimately show ?thesis using cq' utxo_entries_exact by blast
qed

text \<open>A script with one confirmed output.\<close>

definition demo_balance_cq :: "(bytes \<times> bytes) list chain_query" where
  "demo_balance_cq =
     demo_cq [(ser_tx_conf_key (demo_conf 2), []), (ser_tx_conf_key (demo_conf 3), [])]
       [(ser_history_key (demo_history_row 0), [])]"

abbreviation demo_sh :: hash where
  "demo_sh \<equiv> thk_hash (demo_history_row 0)"

abbreviation demo_blockid :: block_id where
  "demo_blockid \<equiv> blockid_of \<lparr>he_height = 1, he_hash = demo_hash 3, he_header = demo_child 3\<rparr>"

lemma demo_row_ok: "history_ok (demo_history_row 0)" "hash_ok demo_sh"
  by (simp_all add: history_new_def compute_script_hash_def demo_lib_def)

lemma demo_balance_sel [simp]:
  "cq_headers demo_balance_cq = cq_headers demo_confirm_cq"
  "so_txstore_db (cq_store demo_balance_cq) = so_txstore_db (cq_store demo_confirm_cq)"
  "so_history_db (cq_store demo_balance_cq) = [(ser_history_key (demo_history_row 0), [])]"
  "so_cache_db (cq_store demo_balance_cq) = []"
  by (simp_all add: demo_balance_cq_def demo_confirm_cq_def) (simp add: demo_cq_def demo_store_def)

lemma demo_index_ok: "index_ok ref_rocks map_of demo_lib demo_balance_cq demo_sh"
proof -
  have "length (hl_headers (cq_headers demo_confirm_cq)) < 2 ^ 32"
    by (simp add: demo_confirm_cq_def demo_hl_eq entries_of_def)
  moreover have "history_rows_ok (map_of [(ser_history_key (demo_history_row 0), [])]) demo_sh"
    unfolding history_rows_ok_def using demo_row_ok(1) by auto
  ultimately show ?thesis
    using ref_db.rocksdb_axioms demo_confirm_wf demo_rows_ok(1,3) demo_row_ok(2) by (simp add: index_ok_def)
qed

lemma demo_rows_forward: "rows_forward ref_rocks demo_balance_cq 0x48 demo_sh 0 = Ok [demo_history_row 0]"
proof -
  let ?K = "ser_history_key (demo_history_row 0)"
  let ?S = "{k. starts_with k (history_filter 0x48 demo_sh) \<and> (ser_u8 0x48 @ demo_sh @ ser_u32 Big (word_of_nat 0)) \<le> k}"
  obtain rs where rs: "rows_forward ref_rocks demo_balance_cq 0x48 demo_sh 0 = Ok rs"
      "map ser_history_key rs = map fst (items (map_of [(?K, [])]) ?S)" "\<forall>r\<in>set rs. history_ok r"
    using history_scan [OF demo_index_ok, of 0] by auto
  have code: "thk_code (demo_history_row 0) = 0x48" by (simp add: history_new_def)
  have "?K \<in> ?S"
    using history_starts_with [of "demo_history_row 0" demo_sh "0x48"] history_ge_bound [OF demo_row_ok(1) code refl, of 0] code demo_row_ok by simp
  then have "{?K} \<inter> ?S = {?K}" by blast
  then have "map fst (items (map_of [(?K, [])]) ?S) = [?K]" by (simp add: items_def)
  then obtain r where r: "rs = [r]" "ser_history_key r = ?K" using rs(2) by auto
  then have "r = demo_history_row 0" using history_codec.enc_inject rs(3) demo_row_ok(1) by (metis list.set_intros(1))
  then show ?thesis using rs(1) r(1) by simp
qed

lemma demo_balance_confirming: "tx_confirming_block ref_rocks demo_balance_cq (demo_txid 9) = Ok (Some demo_blockid)"
  using demo_confirming by (simp add: tx_confirming_block_def)

lemma demo_history_row_sel: "history_txid (demo_history_row 0) = demo_txid 9" "row_height (demo_history_row 0) = 1"
  by (simp_all add: history_txid_def history_new_def)

lemma demo_balance_history: "confirmed_history ref_rocks demo_balance_cq demo_sh 0 = Ok [(demo_history_row 0, demo_blockid)]"
  using demo_rows_forward demo_balance_confirming demo_history_row_sel by (simp add: confirmed_history_def blockid_of_def)

theorem unspent_outputs_exact_witness:
  "\<exists>us cq'. utxo ref_rocks demo_lib demo_balance_cq demo_sh 10 Disable = Ok (us, cq')
     \<and> \<lparr>ux_txid = demo_txid 9, ux_vout = 0, ux_confirmed = Some demo_blockid, ux_value = 5\<rparr> \<in> set us"
proof -
  let ?hs = "[(demo_history_row 0, demo_blockid)]"
  have "utxo_cache_valid ref_rocks map_of demo_lib demo_balance_cq demo_sh" by (simp add: utxo_cache_valid_def)
  moreover have "\<forall>k<length ?hs. length (utxo_fold [] (take (Suc k) ?hs)) \<le> 10 \<and> Suc k \<le> 10 * 500 mod 2 ^ 64"
    by (simp add: map_remove_def history_new_def)
  ultimately obtain us cq' where us: "utxo ref_rocks demo_lib demo_balance_cq demo_sh 10 Disable = Ok (us, cq')"
      "\<forall>u. u \<in> set us \<longleftrightarrow>
         (\<exists>hist b info. last_event ?hs (outpoint_of_utxo u) = Some (hist, b) \<and> thk_txinfo hist = Funding info
            \<and> ux_confirmed u = Some b \<and> ux_value u = fu_value info)"
    using unspent_outputs_exact [OF demo_index_ok demo_hash_serde _ demo_balance_history, of 10 Disable] by auto
  have "last_event ?hs \<lparr>op_txid = demo_txid 9, op_vout = 0\<rparr> = Some (demo_history_row 0, demo_blockid)"
    by (simp add: last_event_def history_funded_outpoint_def history_new_def last_opt_def)
  then show ?thesis using us by (force simp: outpoint_of_utxo_def history_new_def)
qed

text \<open>Statistics. With a cache that is valid at its block, the statistics of a script are those of its
  whole confirmed history: the number of its transactions, each counted once, and the numbers and sums
  of the outputs funded and spent (in 64 bits), and the cache written is valid again.\<close>

theorem script_stats_exact:
  assumes "index_ok rk kv lib cq sh" "hash_serde lib" "stats_cache_valid rk kv lib cq sh"
    and "confirmed_history rk cq sh 0 = Ok hs"
  shows "\<exists>st cq'. stats rk lib cq sh fl = Ok (st, cq')
    \<and> st_tx_count st = of_nat (card (row_txid ` set hs))
    \<and> st_funded_txo_count st = of_nat (length (funded_values hs)) \<and> st_funded_txo_sum st = sum_list (funded_values hs)
    \<and> st_spent_txo_count st = of_nat (length (spent_values hs)) \<and> st_spent_txo_sum st = sum_list (spent_values hs)
    \<and> index_ok rk kv lib cq' sh \<and> stats_cache_valid rk kv lib cq' sh \<and> confirmed_history rk cq' sh 0 = Ok hs"
proof -
  obtain cq' where cq': "stats rk lib cq sh fl = Ok (fst (stats_loop stats_default hs), cq')"
      "stats_cache_valid rk kv lib cq' sh" "cq' = cq \<or> (\<exists>row. cq' = cache_put rk row fl cq)"
    using stats_correct [OF assms] by blast
  moreover have "index_ok rk kv lib cq' sh" "confirmed_history rk cq' sh 0 = Ok hs"
    using cq'(3) assms(1,4) index_ok_cache by fastforce+
  ultimately show ?thesis
    using stats_sums [of hs] stats_tx_count [OF confirmed_in_blocks [OF assms(1,4)]] by blast
qed

theorem script_stats_exact_witness:
  "\<exists>st cq'. stats ref_rocks demo_lib demo_balance_cq demo_sh Disable = Ok (st, cq')
     \<and> st_tx_count st = 1 \<and> st_funded_txo_sum st = 5 \<and> st_spent_txo_count st = 0"
proof -
  let ?hs = "[(demo_history_row 0, demo_blockid)]"
  have v: "stats_cache_valid ref_rocks map_of demo_lib demo_balance_cq demo_sh" by (simp add: stats_cache_valid_def)
  obtain st cq' where "stats ref_rocks demo_lib demo_balance_cq demo_sh Disable = Ok (st, cq')"
      "st_tx_count st = of_nat (card (row_txid ` set ?hs))" "st_funded_txo_sum st = sum_list (funded_values ?hs)"
      "st_spent_txo_count st = of_nat (length (spent_values ?hs))"
    using script_stats_exact [OF demo_index_ok demo_hash_serde v demo_balance_history, of Disable] by blast
  then show ?thesis by (simp add: history_new_def map_filter_simps)
qed

end
