(* ===== verification/Fees.thy ===== *)
theory Fees
  imports Chain_Types "HOL-Library.Option_ord"
begin

text \<open>
  Fees and the fee histogram (\<^verbatim>\<open>src/util/fees.rs\<close>). Sums and differences of amounts wrap at their
  width, as in the release profile of the build. A single-precision number is \<open>None\<close> for a NaN and
  otherwise a value of a linear order \<open>'f\<close> (the two zeros compare equal and are one value); the
  rounded division is an argument.
\<close>

section \<open>The code\<close>

type_synonym 'f f32 = "'f option"

definition VSIZE_BIN_WIDTH :: u32 where
  "VSIZE_BIN_WIDTH = 50000"

record 'f tx_fee_info =
  fi_fee :: u64
  fi_vsize :: u32
  fi_fee_per_vbyte :: "'f f32"

text \<open>\<open>iter.sum::<u64>()\<close>.\<close>

definition sum_u64 :: "u64 list \<Rightarrow> u64" where
  "sum_u64 xs = foldl (+) 0 xs"

definition get_tx_fee :: "bitcoin_lib \<Rightarrow> transaction \<Rightarrow> (u32 \<times> tx_out) list \<Rightarrow> u64" where
  "get_tx_fee lib tx prevouts =
     (if lib_tx_is_coinbase lib tx then 0
      else (let total_in = sum_u64 (map (\<lambda>(_, prevout). txo_value prevout) prevouts);
                total_out = sum_u64 (map txo_value (tx_output tx))
            in total_in - total_out))"

definition tx_fee_info_new ::
  "bitcoin_lib \<Rightarrow> (u64 \<Rightarrow> u64 \<Rightarrow> 'f f32) \<Rightarrow> transaction \<Rightarrow> (u32 \<times> tx_out) list \<Rightarrow> 'f tx_fee_info"
where
  "tx_fee_info_new lib fdiv tx prevouts =
     (let fee = get_tx_fee lib tx prevouts;
          vsize = lib_tx_weight lib tx div 4
      in \<lparr>fi_fee = fee, fi_vsize = ucast vsize, fi_fee_per_vbyte = fdiv fee vsize\<rparr>)"

text \<open>\<open>a != b\<close> on floating-point numbers.\<close>

definition f32_ne :: "'f f32 \<Rightarrow> 'f f32 \<Rightarrow> bool" where
  "f32_ne a b \<longleftrightarrow> a = None \<or> b = None \<or> a \<noteq> b"

text \<open>The loop body, on \<open>(histogram, bin_size, last_fee_rate)\<close>.\<close>

fun hist_step ::
  "('f f32 \<times> u32) list \<times> u32 \<times> 'f f32 \<Rightarrow> 'f tx_fee_info \<Rightarrow> ('f f32 \<times> u32) list \<times> u32 \<times> 'f f32"
where
  "hist_step (histogram, bin_size, last_fee_rate) e =
     (if VSIZE_BIN_WIDTH < bin_size \<and> f32_ne last_fee_rate (fi_fee_per_vbyte e)
      then (histogram @ [(last_fee_rate, bin_size)], fi_vsize e, fi_fee_per_vbyte e)
      else (histogram, bin_size + fi_vsize e, fi_fee_per_vbyte e))"

text \<open>
  The sort compares with \<open>partial_cmp(..).unwrap()\<close>: with two or more entries every entry takes part
  in a comparison, so a NaN panics; with fewer nothing is compared.
\<close>

definition make_fee_histogram ::
  "'f::linorder \<Rightarrow> 'f tx_fee_info list \<Rightarrow> (error_kind, ('f f32 \<times> u32) list) outcome"
where
  "make_fee_histogram zero entries =
     (if 2 \<le> length entries \<and> (\<exists>e\<in>set entries. fi_fee_per_vbyte e = None)
      then Panic ''unwrap''
      else
        (case foldl hist_step ([], 0, Some zero) (rev (sort_key fi_fee_per_vbyte entries)) of
           (histogram, bin_size, last_fee_rate) \<Rightarrow>
             Ok (if 0 < bin_size then histogram @ [(last_fee_rate, bin_size)] else histogram)))"

section \<open>The histogram\<close>

text \<open>The loop as a recursion over the entries that are left.\<close>

fun hist_from :: "u32 \<Rightarrow> 'f f32 \<Rightarrow> 'f tx_fee_info list \<Rightarrow> ('f f32 \<times> u32) list" where
  "hist_from bin_size last_fee_rate [] = (if 0 < bin_size then [(last_fee_rate, bin_size)] else [])"
| "hist_from bin_size last_fee_rate (e # es) =
     (if VSIZE_BIN_WIDTH < bin_size \<and> f32_ne last_fee_rate (fi_fee_per_vbyte e)
      then (last_fee_rate, bin_size) # hist_from (fi_vsize e) (fi_fee_per_vbyte e) es
      else hist_from (bin_size + fi_vsize e) (fi_fee_per_vbyte e) es)"

lemma hist_loop_from:
  "(case foldl hist_step (histogram, bin_size, r) es of
      (h, b, l) \<Rightarrow> if 0 < b then h @ [(l, b)] else h) = histogram @ hist_from bin_size r es"
  by (induction es arbitrary: histogram bin_size r) auto

lemma make_fee_histogram_from:
  assumes "\<And>e. e \<in> set entries \<Longrightarrow> fi_fee_per_vbyte e \<noteq> None"
  shows "make_fee_histogram zero entries = Ok (hist_from 0 (Some zero) (rev (sort_key fi_fee_per_vbyte entries)))"
  using assms hist_loop_from [of "[]" 0 "Some zero" "rev (sort_key fi_fee_per_vbyte entries)"]
  by (auto simp: make_fee_histogram_def split: prod.splits)

text \<open>Entries from the highest rate down, none of them a NaN, none above \<open>r\<close>.\<close>

definition rates_below :: "'f::linorder f32 \<Rightarrow> 'f tx_fee_info list \<Rightarrow> bool" where
  "rates_below r es \<longleftrightarrow>
     sorted_wrt (\<ge>) (map fi_fee_per_vbyte es)
     \<and> (\<forall>e\<in>set es. fi_fee_per_vbyte e \<noteq> None \<and> fi_fee_per_vbyte e \<le> r) \<and> r \<noteq> None"

lemma rates_below_Cons:
  "rates_below r (e # es) \<Longrightarrow> fi_fee_per_vbyte e \<le> r \<and> rates_below (fi_fee_per_vbyte e) es"
  by (auto simp: rates_below_def)

lemma hist_from_rates:
  "rates_below r es \<Longrightarrow> p \<in> set (hist_from bin_size r es) \<Longrightarrow> fst p \<le> r"
proof (induction bin_size r es rule: hist_from.induct)
  case (2 bin_size r e es)
  then show ?case using rates_below_Cons [OF 2(3)] by (auto split: if_splits)
qed (auto split: if_splits)

lemma hist_from_decreasing:
  "rates_below r es \<Longrightarrow> sorted_wrt (\<lambda>a b. fst b < fst a) (hist_from bin_size r es)"
proof (induction bin_size r es rule: hist_from.induct)
  case (2 bin_size r e es)
  note below = rates_below_Cons [OF 2(3)]
  show ?case
  proof (cases "VSIZE_BIN_WIDTH < bin_size \<and> f32_ne r (fi_fee_per_vbyte e)")
    case True
    then have "fi_fee_per_vbyte e < r" using below 2(3) by (auto simp: f32_ne_def rates_below_def)
    then show ?thesis using 2 True below hist_from_rates [of "fi_fee_per_vbyte e" es] by fastforce
  next
    case False
    then show ?thesis using 2 below by auto
  qed
qed auto

definition vsize_paying :: "'f::linorder f32 \<Rightarrow> 'f tx_fee_info list \<Rightarrow> u32" where
  "vsize_paying r es = sum_list (map fi_vsize (filter (\<lambda>e. r \<le> fi_fee_per_vbyte e) es))"

lemma hist_from_prefix_sum:
  assumes "rates_below r es" "k < length (hist_from bin_size r es)"
  shows "sum_list (map snd (take (Suc k) (hist_from bin_size r es)))
    = bin_size + vsize_paying (fst (hist_from bin_size r es ! k)) es"
  using assms
proof (induction bin_size r es arbitrary: k rule: hist_from.induct)
  case (1 bin_size r)
  then show ?case by (auto simp: vsize_paying_def split: if_splits)
next
  case (2 bin_size r e es)
  note below = rates_below_Cons [OF 2(3)]
  have head: "fst (hist_from b (fi_fee_per_vbyte e) es ! j) \<le> fi_fee_per_vbyte e"
    if "j < length (hist_from b (fi_fee_per_vbyte e) es)" for b j
    using hist_from_rates [OF conjunct2 [OF below]] that by (meson nth_mem)
  show ?case
  proof (cases "VSIZE_BIN_WIDTH < bin_size \<and> f32_ne r (fi_fee_per_vbyte e)")
    case True
    then have lt: "fi_fee_per_vbyte e < r" using below 2(3) by (auto simp: f32_ne_def rates_below_def)
    show ?thesis
    proof (cases k)
      case 0
      have "filter (\<lambda>x. r \<le> fi_fee_per_vbyte x) (e # es) = []"
        using lt below by (auto simp: rates_below_def filter_empty_conv dest!: leD [where y = r])
          (meson leD le_less_trans)+
      then show ?thesis using 0 True by (simp add: vsize_paying_def del: filter.simps)
    next
      case (Suc j)
      then show ?thesis using 2 True below head [of j] by (simp add: vsize_paying_def)
    qed
  next
    case False
    then show ?thesis using 2 below head [of k] by (auto simp: vsize_paying_def)
  qed
qed

lemma hist_from_bins:
  "k + 1 < length (hist_from bin_size r es) \<Longrightarrow> VSIZE_BIN_WIDTH < snd (hist_from bin_size r es ! k)"
proof (induction bin_size r es arbitrary: k rule: hist_from.induct)
  case (2 bin_size r e es)
  then show ?case by (cases k) (auto split: if_splits)
qed (auto split: if_splits)

lemma hist_from_total:
  "sum_list (map snd (hist_from bin_size r es)) = bin_size + sum_list (map fi_vsize es)"
  by (induction bin_size r es rule: hist_from.induct) (auto simp: word_gt_0)

text \<open>The first entry starts the first bin, so the initial rate does not matter.\<close>

lemma hist_from_start:
  "hist_from 0 r (e # es) = hist_from (fi_vsize e) (fi_fee_per_vbyte e) es"
  by (simp add: VSIZE_BIN_WIDTH_def)

lemma rev_sort_rates_below:
  assumes "\<And>e. e \<in> set entries \<Longrightarrow> fi_fee_per_vbyte e \<noteq> None"
    and "rev (sort_key fi_fee_per_vbyte entries) = e # es"
  shows "rates_below (fi_fee_per_vbyte e) es" and "e \<in> set entries"
proof -
  have set: "set (e # es) = set entries" by (metis assms(2) set_rev set_sort)
  then show "e \<in> set entries" by auto
  have "sorted_wrt (\<ge>) (map fi_fee_per_vbyte (e # es))"
    unfolding assms(2) [symmetric] rev_map [symmetric] sorted_wrt_rev
    using sorted_sort_key [of fi_fee_per_vbyte entries] by simp
  moreover have "\<forall>x\<in>set (e # es). fi_fee_per_vbyte x \<noteq> None" using assms(1) set by blast
  ultimately show "rates_below (fi_fee_per_vbyte e) es" by (simp add: rates_below_def)
qed

lemma vsize_paying_perm: "mset xs = mset ys \<Longrightarrow> vsize_paying r xs = vsize_paying r ys"
proof -
  assume "mset xs = mset ys"
  then have "sum_mset (image_mset fi_vsize (filter_mset (\<lambda>e. r \<le> fi_fee_per_vbyte e) (mset xs)))
    = sum_mset (image_mset fi_vsize (filter_mset (\<lambda>e. r \<le> fi_fee_per_vbyte e) (mset ys)))" by simp
  then show ?thesis
    unfolding vsize_paying_def mset_filter [symmetric] mset_map [symmetric] sum_mset_sum_list .
qed

lemma sum_u64_unat:
  "sum_list (map unat xs) < 2 ^ 64 \<Longrightarrow> unat (sum_u64 xs) = sum_list (map unat xs)"
proof (induction xs rule: rev_induct)
  case (snoc x xs)
  then have "unat (sum_u64 xs) + unat x < 2 ^ 64" by simp
  then have "unat (sum_u64 xs + x) = unat (sum_u64 xs) + unat x"
    using unat_add_lem [of "sum_u64 xs" x] by simp
  then show ?case using snoc by (simp add: sum_u64_def)
qed (simp add: sum_u64_def)

section \<open>Properties\<close>

text \<open>The fee histogram of any set of mempool entries without a NaN rate. The rates fall strictly;
  the sizes of the bins up to one with rate \<open>r\<close> add up to the virtual size of all transactions paying
  at least \<open>r\<close>, and all bins together to the size of the whole set (in 32-bit arithmetic); every bin
  but the last holds more than 50,000 vbytes.\<close>

theorem fee_histogram_cumulative:
  assumes "\<And>e. e \<in> set entries \<Longrightarrow> fi_fee_per_vbyte e \<noteq> None"
  shows "\<exists>h. make_fee_histogram zero entries = Ok h
    \<and> sorted_wrt (\<lambda>a b. fst b < fst a) h
    \<and> (\<forall>k<length h. sum_list (map snd (take (Suc k) h)) = vsize_paying (fst (h ! k)) entries)
    \<and> (\<forall>k. k + 1 < length h \<longrightarrow> VSIZE_BIN_WIDTH < snd (h ! k))
    \<and> sum_list (map snd h) = sum_list (map fi_vsize entries)"
proof -
  let ?es = "rev (sort_key fi_fee_per_vbyte entries)"
  let ?h = "hist_from 0 (Some zero) ?es"
  have perm: "mset ?es = mset entries" by simp
  have order: "sorted_wrt (\<lambda>a b. fst b < fst a) ?h
      \<and> (\<forall>k<length ?h. sum_list (map snd (take (Suc k) ?h)) = vsize_paying (fst (?h ! k)) entries)"
  proof (cases ?es)
    case Nil
    then show ?thesis by simp
  next
    case (Cons e es)
    note below = rev_sort_rates_below [OF assms Cons]
    have "sum_list (map snd (take (Suc k) ?h)) = vsize_paying (fst (?h ! k)) entries"
      if "k < length ?h" for k
    proof -
      have kk: "k < length (hist_from (fi_vsize e) (fi_fee_per_vbyte e) es)"
        using that unfolding Cons hist_from_start .
      have "fst (?h ! k) \<le> fi_fee_per_vbyte e"
        unfolding Cons hist_from_start using hist_from_rates [OF below(1)] kk by (meson nth_mem)
      then have "sum_list (map snd (take (Suc k) ?h)) = vsize_paying (fst (?h ! k)) (e # es)"
        using hist_from_prefix_sum [OF below(1) kk] unfolding Cons hist_from_start
        by (simp add: vsize_paying_def)
      then show ?thesis using vsize_paying_perm [OF perm] Cons by metis
    qed
    then show ?thesis using hist_from_decreasing [OF below(1)] unfolding Cons hist_from_start by blast
  qed
  moreover have "sum_list (map snd ?h) = sum_list (map fi_vsize entries)"
    using hist_from_total [of 0 "Some zero" ?es] perm by (metis add_0 mset_map sum_mset_sum_list)
  ultimately show ?thesis using make_fee_histogram_from [OF assms] hist_from_bins by blast
qed

theorem fee_histogram_cumulative_witness:
  "\<exists>h. make_fee_histogram (0::nat)
       [\<lparr>fi_fee = 1, fi_vsize = 60000, fi_fee_per_vbyte = Some 3\<rparr>,
        \<lparr>fi_fee = 1, fi_vsize = 70000, fi_fee_per_vbyte = Some 5\<rparr>] = Ok h
     \<and> sum_list (map snd h) = 130000"
proof -
  have "\<exists>h. make_fee_histogram (0::nat)
       [\<lparr>fi_fee = 1, fi_vsize = 60000, fi_fee_per_vbyte = Some 3\<rparr>,
        \<lparr>fi_fee = 1, fi_vsize = 70000, fi_fee_per_vbyte = Some 5\<rparr>] = Ok h
     \<and> sum_list (map snd h) = sum_list (map fi_vsize
         [\<lparr>fi_fee = 1, fi_vsize = 60000, fi_fee_per_vbyte = Some (3::nat)\<rparr>,
          \<lparr>fi_fee = 1, fi_vsize = 70000, fi_fee_per_vbyte = Some 5\<rparr>])"
    using fee_histogram_cumulative [of "[\<lparr>fi_fee = 1, fi_vsize = 60000, fi_fee_per_vbyte = Some (3::nat)\<rparr>,
        \<lparr>fi_fee = 1, fi_vsize = 70000, fi_fee_per_vbyte = Some 5\<rparr>]" 0] by fastforce
  then show ?thesis by simp
qed

text \<open>The fee is the difference of the input and output amounts: it is exact whenever the inputs
  fit in 64 bits and cover the outputs (otherwise the subtraction wraps), and zero for a coinbase.\<close>

theorem tx_fee_exact:
  assumes "\<not> lib_tx_is_coinbase lib tx"
    and "sum_list (map (\<lambda>p. unat (txo_value (snd p))) prevouts) < 2 ^ 64"
    and "sum_list (map (\<lambda>t. unat (txo_value t)) (tx_output tx)) \<le> sum_list (map (\<lambda>p. unat (txo_value (snd p))) prevouts)"
  shows "unat (get_tx_fee lib tx prevouts)
    = sum_list (map (\<lambda>p. unat (txo_value (snd p))) prevouts) - sum_list (map (\<lambda>t. unat (txo_value t)) (tx_output tx))"
proof -
  let ?in = "sum_u64 (map (\<lambda>(_, prevout). txo_value prevout) prevouts)"
  let ?out = "sum_u64 (map txo_value (tx_output tx))"
  have i: "unat ?in = sum_list (map (\<lambda>p. unat (txo_value (snd p))) prevouts)"
    using sum_u64_unat [of "map (\<lambda>(_, prevout). txo_value prevout) prevouts"] assms(2)
    by (simp add: comp_def case_prod_unfold)
  have o: "unat ?out = sum_list (map (\<lambda>t. unat (txo_value t)) (tx_output tx))"
    using sum_u64_unat [of "map txo_value (tx_output tx)"] assms(2,3) by (simp add: comp_def)
  have "?out \<le> ?in" using i o assms(3) by (simp add: word_le_nat_alt)
  then show ?thesis using i o assms(1) by (simp add: get_tx_fee_def unat_sub)
qed

theorem tx_fee_exact_witness:
  "unat (get_tx_fee demo_lib
     \<lparr>tx_version = 1, tx_lock_time = 7, tx_input = [], tx_output = [\<lparr>txo_value = 5, txo_script_pubkey = []\<rparr>]\<rparr>
     [(0, \<lparr>txo_value = 9, txo_script_pubkey = []\<rparr>)]) = 4"
  using tx_fee_exact [of demo_lib
      "\<lparr>tx_version = 1, tx_lock_time = 7, tx_input = [], tx_output = [\<lparr>txo_value = 5, txo_script_pubkey = []\<rparr>]\<rparr>"
      "[(0, \<lparr>txo_value = 9, txo_script_pubkey = []\<rparr>)]"]
  by (simp add: demo_lib_def)

end
