(* ===== verification/Mempool.thy ===== *)
theory Mempool
  imports Balance Fees
begin

text \<open>
  The unconfirmed transactions (\<^verbatim>\<open>src/new_index/mempool.rs\<close>): the store of transactions, their fees, the
  history and spend index over them, and the update that follows the node's mempool. A \<open>BTreeMap\<close> is the
  list of its entries in key order, a \<open>HashMap\<close> whose values are iterated the list of its entries, and a
  \<open>HashMap\<close> that is only looked up a partial map. \<open>Mempool::update\<close> releases its locks between its
  phases, so besides the whole function the phases are steps of a machine in which other threads add
  transactions in between. Metrics and logging are left out.
\<close>

section \<open>The code\<close>

record tx_overview =
  ov_txid :: hash
  ov_fee :: u64
  ov_vsize :: u32
  ov_value :: u64

record 'f backlog_stats =
  bl_count :: u32
  bl_vsize :: u32
  bl_total_fee :: u64
  bl_fee_histogram :: "('f f32 \<times> u32) list"

record mempool_config =
  mc_recent_txs_size :: nat
  mc_backlog_stats_ttl :: int
  mc_index_unspendables :: bool

record 'f mempool =
  mp_config :: mempool_config
  mp_txstore :: "(hash \<times> transaction) list"
  mp_feeinfo :: "(hash \<times> 'f tx_fee_info) list"
  mp_history :: "hash \<rightharpoonup> tx_history_info list"
  mp_edges :: "out_point \<rightharpoonup> hash \<times> u32"
  mp_recent :: "tx_overview list"
  mp_backlog_stats :: "'f backlog_stats \<times> int"

text \<open>What the mempool asks of the node.\<close>

record mempool_node =
  mn_mempooltxids :: "(error_kind, hash list) outcome"
  mn_transactions :: "hash list \<Rightarrow> (error_kind, transaction list) outcome"
  mn_mempooltx :: "hash \<Rightarrow> (error_kind, transaction) outcome"

definition backlog_default :: "'f \<Rightarrow> 'f backlog_stats" where
  "backlog_default zero = \<lparr>bl_count = 0, bl_vsize = 0, bl_total_fee = 0, bl_fee_histogram = [(Some zero, 0)]\<rparr>"

definition backlog_new :: "'f::linorder \<Rightarrow> 'f tx_fee_info list \<Rightarrow> (error_kind, 'f backlog_stats) outcome" where
  "backlog_new zero feeinfo =
     (case foldl (\<lambda>(cnt, vsize, fee) fi. (cnt + 1, vsize + fi_vsize fi, fee + fi_fee fi)) (0, 0, 0) feeinfo of
        (cnt, vsize, total_fee) \<Rightarrow>
          map_out (\<lambda>h. \<lparr>bl_count = cnt, bl_vsize = vsize, bl_total_fee = total_fee, bl_fee_histogram = h\<rparr>)
            (make_fee_histogram zero feeinfo))"

definition mempool_new :: "'f \<Rightarrow> mempool_config \<Rightarrow> int \<Rightarrow> 'f mempool" where
  "mempool_new zero config now =
     \<lparr>mp_config = config, mp_txstore = [], mp_feeinfo = [], mp_history = Map.empty, mp_edges = Map.empty,
      mp_recent = [], mp_backlog_stats = (backlog_default zero, now - mc_backlog_stats_ttl config)\<rparr>"

text \<open>\<open>BTreeMap::insert\<close>.\<close>

fun btree_insert :: "'k::linorder \<Rightarrow> 'v \<Rightarrow> ('k \<times> 'v) list \<Rightarrow> ('k \<times> 'v) list" where
  "btree_insert k v [] = [(k, v)]"
| "btree_insert k v (e # es) =
     (if k < fst e then (k, v) # e # es else if k = fst e then (k, v) # es else e # btree_insert k v es)"

definition mempool_lookup_txn :: "'f mempool \<Rightarrow> hash \<Rightarrow> transaction option" where
  "mempool_lookup_txn m txid = map_of (mp_txstore m) txid"

definition mempool_lookup_raw_txn :: "bitcoin_lib \<Rightarrow> 'f mempool \<Rightarrow> hash \<Rightarrow> bytes option" where
  "mempool_lookup_raw_txn lib m txid = map_option (lib_serialize_tx lib) (map_of (mp_txstore m) txid)"

definition mempool_lookup_spend :: "'f mempool \<Rightarrow> out_point \<Rightarrow> spending_input option" where
  "mempool_lookup_spend m outpoint =
     map_option (\<lambda>(txid, vin). \<lparr>si_txid = txid, si_vin = vin, si_confirmed = None\<rparr>) (mp_edges m outpoint)"

definition has_spend :: "'f mempool \<Rightarrow> out_point \<Rightarrow> bool" where
  "has_spend m outpoint \<longleftrightarrow> mp_edges m outpoint \<noteq> None"

definition mempool_get_tx_fee :: "'f mempool \<Rightarrow> hash \<Rightarrow> u64 option" where
  "mempool_get_tx_fee m txid = map_option fi_fee (map_of (mp_feeinfo m) txid)"

definition has_unconfirmed_parents :: "'f mempool \<Rightarrow> hash \<Rightarrow> bool" where
  "has_unconfirmed_parents m txid =
     (case map_of (mp_txstore m) txid of
        None \<Rightarrow> False
      | Some tx \<Rightarrow> \<exists>txin\<in>set (tx_input tx). map_of (mp_txstore m) (op_txid (txi_previous_output txin)) \<noteq> None)"

definition history_entries :: "'f mempool \<Rightarrow> bytes \<Rightarrow> tx_history_info list" where
  "history_entries m scripthash = (case mp_history m scripthash of None \<Rightarrow> [] | Some entries \<Rightarrow> entries)"

definition history_transactions ::
  "'f mempool \<Rightarrow> hash list \<Rightarrow> hash option \<Rightarrow> nat \<Rightarrow> (error_kind, transaction list) outcome"
where
  "history_transactions m txids last_seen_txid limit =
     collect_out (\<lambda>txid. expect ''missing mempool tx'' (map_of (mp_txstore m) txid))
       (take limit (skip_seen (\<lambda>t. t) last_seen_txid (unique_by (\<lambda>t. t) txids)))"

definition mempool_history ::
  "'f mempool \<Rightarrow> bytes \<Rightarrow> hash option \<Rightarrow> nat \<Rightarrow> (error_kind, transaction list) outcome"
where
  "mempool_history m scripthash last_seen_txid limit =
     (case mp_history m scripthash of
        None \<Rightarrow> Ok []
      | Some entries \<Rightarrow> history_transactions m (map hi_txid entries) last_seen_txid limit)"

definition mempool_history_txids_iter :: "'f mempool \<Rightarrow> bytes \<Rightarrow> hash list" where
  "mempool_history_txids_iter m scripthash = unique_by (\<lambda>t. t) (map hi_txid (history_entries m scripthash))"

definition mempool_history_group ::
  "'f mempool \<Rightarrow> bytes list \<Rightarrow> hash option \<Rightarrow> nat \<Rightarrow> (error_kind, transaction list) outcome"
where
  "mempool_history_group m scripthashes last_seen_txid limit =
     history_transactions m (map hi_txid (concat (map (history_entries m) scripthashes))) last_seen_txid limit"

definition mempool_history_txids_iter_group :: "'f mempool \<Rightarrow> bytes list \<Rightarrow> hash list" where
  "mempool_history_txids_iter_group m scripthashes =
     unique_by (\<lambda>t. t) (map hi_txid (concat (map (history_entries m) scripthashes)))"

definition mempool_history_txids :: "'f mempool \<Rightarrow> bytes \<Rightarrow> nat \<Rightarrow> hash list" where
  "mempool_history_txids m scripthash limit =
     (case mp_history m scripthash of
        None \<Rightarrow> []
      | Some entries \<Rightarrow> take limit (unique_by (\<lambda>t. t) (map hi_txid entries)))"

definition mempool_utxo :: "'f mempool \<Rightarrow> bytes \<Rightarrow> utxo_entry list" where
  "mempool_utxo m scripthash =
     (case mp_history m scripthash of
        None \<Rightarrow> []
      | Some entries \<Rightarrow>
          filter (\<lambda>u. \<not> has_spend m (outpoint_of_utxo u))
            (List.map_filter
               (\<lambda>entry. case entry of
                  Funding info \<Rightarrow> Some \<lparr>ux_txid = fu_txid info, ux_vout = fu_vout info, ux_confirmed = None,
                                        ux_value = fu_value info\<rparr>
                | Spending _ \<Rightarrow> None)
               entries))"

fun mempool_stats_step :: "script_stats \<times> hash set \<Rightarrow> tx_history_info \<Rightarrow> script_stats \<times> hash set" where
  "mempool_stats_step (st, seen_txids) entry =
     (let stats1 = (if hi_txid entry \<in> seen_txids then st else st\<lparr>st_tx_count := st_tx_count st + 1\<rparr>);
          stats2 = (case entry of
                      Funding info \<Rightarrow> stats1\<lparr>st_funded_txo_count := st_funded_txo_count stats1 + 1,
                                             st_funded_txo_sum := st_funded_txo_sum stats1 + fu_value info\<rparr>
                    | Spending info \<Rightarrow> stats1\<lparr>st_spent_txo_count := st_spent_txo_count stats1 + 1,
                                              st_spent_txo_sum := st_spent_txo_sum stats1 + sp_value info\<rparr>)
      in (stats2, insert (hi_txid entry) seen_txids))"

definition mempool_stats :: "'f mempool \<Rightarrow> bytes \<Rightarrow> script_stats" where
  "mempool_stats m scripthash =
     (case mp_history m scripthash of
        None \<Rightarrow> stats_default
      | Some entries \<Rightarrow> fst (foldl mempool_stats_step (stats_default, {}) entries))"

definition mempool_txids :: "'f mempool \<Rightarrow> hash list" where
  "mempool_txids m = map fst (mp_txstore m)"

definition store_range :: "hash option \<Rightarrow> (hash \<times> transaction) list \<Rightarrow> (hash \<times> transaction) list" where
  "store_range start store = (case start of None \<Rightarrow> store | Some txid \<Rightarrow> filter (\<lambda>e. txid < fst e) store)"

definition txids_page :: "'f mempool \<Rightarrow> nat \<Rightarrow> hash option \<Rightarrow> hash list" where
  "txids_page m n start = map fst (take n (store_range start (mp_txstore m)))"

definition mempool_txs :: "'f mempool \<Rightarrow> transaction list" where
  "mempool_txs m = map snd (mp_txstore m)"

definition txs_page :: "'f mempool \<Rightarrow> nat \<Rightarrow> hash option \<Rightarrow> transaction list" where
  "txs_page m n start = map snd (take n (store_range start (mp_txstore m)))"

definition recent_txs_overview :: "'f mempool \<Rightarrow> tx_overview list" where
  "recent_txs_overview m = mp_recent m"

definition backlog_stats :: "'f mempool \<Rightarrow> 'f backlog_stats" where
  "backlog_stats m = fst (mp_backlog_stats m)"

definition unique_txids :: "'f mempool \<Rightarrow> hash set" where
  "unique_txids m = set (map fst (mp_txstore m))"

text \<open>Newest at the front; when the cap is exceeded the oldest is dropped, cap 0 stores nothing.\<close>

definition push_front_capped :: "'a list \<Rightarrow> nat \<Rightarrow> 'a \<Rightarrow> 'a list" where
  "push_front_capped q cap item = (if cap = 0 then q else take cap (item # q))"

definition mempool_txo :: "'f mempool \<Rightarrow> out_point \<Rightarrow> tx_out option" where
  "mempool_txo m outpoint =
     Option.bind (map_of (mp_txstore m) (op_txid outpoint)) (\<lambda>tx. nth_opt (tx_output tx) (unat (op_vout outpoint)))"

definition mempool_lookup_txos ::
  "'d rocks \<Rightarrow> bitcoin_lib \<Rightarrow> 'd chain_query \<Rightarrow> 'f mempool \<Rightarrow> out_point list \<Rightarrow> (error_kind, out_point \<rightharpoonup> tx_out) outcome"
where
  "mempool_lookup_txos rk lib cq m outpoints =
     map_out
       (\<lambda>confirmed_txos.
          confirmed_txos ++ map_of (List.map_filter (\<lambda>pt. map_option (Pair pt) (mempool_txo m pt))
            (filter (\<lambda>pt. confirmed_txos pt = None) outpoints)))
       (lookup_avail_txos rk lib cq outpoints)"

definition mempool_lookup_txo ::
  "'d rocks \<Rightarrow> bitcoin_lib \<Rightarrow> 'd chain_query \<Rightarrow> 'f mempool \<Rightarrow> out_point \<Rightarrow> (error_kind, tx_out option) outcome"
where
  "mempool_lookup_txo rk lib cq m outpoint = map_out (\<lambda>txos. txos outpoint) (mempool_lookup_txos rk lib cq m [outpoint])"

definition get_prevouts :: "bitcoin_lib \<Rightarrow> 'f mempool \<Rightarrow> hash list \<Rightarrow> (error_kind, out_point list) outcome" where
  "get_prevouts lib m txids =
     map_out (\<lambda>txs. concat (map (\<lambda>tx. map txi_previous_output (filter (has_prevout lib) (tx_input tx))) txs))
       (collect_out (\<lambda>txid. expect ''missing mempool tx'' (map_of (mp_txstore m) txid)) txids)"

text \<open>\<open>add\<close>, phase 1: the transactions go into the store; the ids that were not there before are kept.\<close>

fun add_to_store ::
  "bitcoin_lib \<Rightarrow> transaction list \<Rightarrow> (hash \<times> transaction) list \<Rightarrow> hash list \<Rightarrow> (hash \<times> transaction) list \<times> hash list"
where
  "add_to_store lib [] store txids = (store, txids)"
| "add_to_store lib (tx # txs) store txids =
     (let txid = get_txid lib tx
      in add_to_store lib txs (btree_insert txid tx store)
           (if map_of store txid = None then txids @ [txid] else txids))"

text \<open>Phase 3, the history entries of one transaction: outputs first, then inputs.\<close>

definition mempool_funding :: "bitcoin_lib \<Rightarrow> bool \<Rightarrow> hash \<Rightarrow> transaction \<Rightarrow> (hash \<times> tx_history_info) list" where
  "mempool_funding lib index_unspendables txid tx =
     map (\<lambda>(index, txo). (compute_script_hash lib (txo_script_pubkey txo),
            Funding \<lparr>fu_txid = txid, fu_vout = word_of_nat index, fu_value = txo_value txo\<rparr>))
       (filter (\<lambda>(_, txo). is_spendable lib txo \<or> index_unspendables) (enumerate 0 (tx_output tx)))"

definition mempool_spending ::
  "bitcoin_lib \<Rightarrow> hash \<Rightarrow> transaction \<Rightarrow> (u32 \<times> tx_out) list \<Rightarrow> (error_kind, (hash \<times> tx_history_info) list) outcome"
where
  "mempool_spending lib txid tx prevouts =
     collect_out
       (\<lambda>(input_index, prevout).
          map_out
            (\<lambda>txi. (compute_script_hash lib (txo_script_pubkey prevout),
               Spending \<lparr>sp_txid = txid, sp_vin = input_index, sp_prev_txid = op_txid (txi_previous_output txi),
                         sp_prev_vout = op_vout (txi_previous_output txi), sp_value = txo_value prevout\<rparr>))
            (expect ''unwrap'' (nth_opt (tx_input tx) (unat input_index))))
       prevouts"

definition push_entry :: "(hash \<rightharpoonup> tx_history_info list) \<Rightarrow> hash \<times> tx_history_info \<Rightarrow> (hash \<rightharpoonup> tx_history_info list)" where
  "push_entry hist e =
     hist(fst e \<mapsto> (case hist (fst e) of None \<Rightarrow> [] | Some entries \<Rightarrow> entries) @ [snd e])"

definition mempool_index_tx ::
  "bitcoin_lib \<Rightarrow> (u64 \<Rightarrow> u64 \<Rightarrow> 'f f32) \<Rightarrow> 'f mempool \<Rightarrow> hash \<Rightarrow> transaction \<Rightarrow> (u32 \<times> tx_out) list
    \<Rightarrow> (error_kind, 'f mempool) outcome"
where
  "mempool_index_tx lib fdiv m txid tx prevouts =
     (let feeinfo = tx_fee_info_new lib fdiv tx prevouts;
          overview = \<lparr>ov_txid = txid, ov_fee = fi_fee feeinfo, ov_vsize = fi_vsize feeinfo,
                      ov_value = sum_u64 (map (\<lambda>(_, prevout). txo_value prevout) prevouts)\<rparr>
      in map_out
           (\<lambda>spending.
              m\<lparr>mp_recent := push_front_capped (mp_recent m) (mc_recent_txs_size (mp_config m)) overview,
                mp_feeinfo := (txid, feeinfo) # map_remove txid (mp_feeinfo m),
                mp_history := foldl push_entry (mp_history m)
                  (mempool_funding lib (mc_index_unspendables (mp_config m)) txid tx @ spending),
                mp_edges := foldl (\<lambda>edges (i, txi). edges(txi_previous_output txi \<mapsto> (txid, word_of_nat i)))
                  (mp_edges m) (enumerate 0 (tx_input tx))\<rparr>)
           (mempool_spending lib txid tx prevouts))"

fun mempool_index_txs ::
  "bitcoin_lib \<Rightarrow> (u64 \<Rightarrow> u64 \<Rightarrow> 'f f32) \<Rightarrow> (out_point \<rightharpoonup> tx_out) \<Rightarrow> hash list \<Rightarrow> 'f mempool \<Rightarrow> nat
    \<Rightarrow> (error_kind, 'f mempool \<times> nat) outcome"
where
  "mempool_index_txs lib fdiv txos [] m processed_count = Ok (m, processed_count)"
| "mempool_index_txs lib fdiv txos (txid # txids) m processed_count =
     bind_out (expect ''missing tx from txstore'' (map_of (mp_txstore m) txid)) (\<lambda>tx.
       case extract_tx_prevouts lib tx txos of
         Ok prevouts \<Rightarrow>
           bind_out (mempool_index_tx lib fdiv m txid tx prevouts) (\<lambda>m'.
             mempool_index_txs lib fdiv txos txids m' (processed_count + 1))
       | Err _ \<Rightarrow> mempool_index_txs lib fdiv txos txids m processed_count
       | Panic s \<Rightarrow> Panic s)"

definition mempool_add ::
  "'d rocks \<Rightarrow> bitcoin_lib \<Rightarrow> (u64 \<Rightarrow> u64 \<Rightarrow> 'f f32) \<Rightarrow> 'd chain_query \<Rightarrow> 'f mempool \<Rightarrow> transaction list
    \<Rightarrow> (error_kind, 'f mempool \<times> nat) outcome"
where
  "mempool_add rk lib fdiv cq m txs =
     (if txs = [] then Ok (m, 0)
      else (case add_to_store lib txs (mp_txstore m) [] of
              (store, txids) \<Rightarrow>
                (let m1 = m\<lparr>mp_txstore := store\<rparr> in
                 bind_out (get_prevouts lib m1 txids) (\<lambda>prevouts.
                 bind_out (mempool_lookup_txos rk lib cq m1 prevouts) (\<lambda>txos.
                 mempool_index_txs lib fdiv txos txids m1 0)))))"

definition add_by_txid ::
  "'d rocks \<Rightarrow> bitcoin_lib \<Rightarrow> (u64 \<Rightarrow> u64 \<Rightarrow> 'f f32) \<Rightarrow> 'd chain_query \<Rightarrow> mempool_node \<Rightarrow> 'f mempool \<Rightarrow> hash
    \<Rightarrow> 'f mempool \<times> (error_kind, unit) outcome"
where
  "add_by_txid rk lib fdiv cq node m txid =
     (if map_of (mp_txstore m) txid \<noteq> None then (m, Ok ())
      else (case mn_mempooltx node txid of
              Ok tx \<Rightarrow>
                (case mempool_add rk lib fdiv cq m [tx] of
                   Ok (m', n) \<Rightarrow> (m', if n = 0 then Err (Msg ''Unable to add to mempool'') else Ok ())
                 | Err e \<Rightarrow> (m, Err e)
                 | Panic s \<Rightarrow> (m, Panic s))
            | Err _ \<Rightarrow> (m, Ok ())
            | Panic s \<Rightarrow> (m, Panic s)))"

text \<open>\<open>remove\<close>: the transactions leave the store, which panics on one that is not there; then the
  history and the edges are retained without them.\<close>

fun remove_from_store :: "hash list \<Rightarrow> 'f mempool \<Rightarrow> (error_kind, 'f mempool) outcome" where
  "remove_from_store [] m = Ok m"
| "remove_from_store (txid # txids) m =
     (if map_of (mp_txstore m) txid = None then Panic ''missing mempool tx''
      else remove_from_store txids
             (m\<lparr>mp_txstore := map_remove txid (mp_txstore m), mp_feeinfo := map_remove txid (mp_feeinfo m)\<rparr>))"

definition retain_history :: "hash list \<Rightarrow> (hash \<rightharpoonup> tx_history_info list) \<Rightarrow> (hash \<rightharpoonup> tx_history_info list)" where
  "retain_history to_remove hist scripthash =
     (case hist scripthash of
        None \<Rightarrow> None
      | Some entries \<Rightarrow>
          (let kept = filter (\<lambda>entry. hi_txid entry \<notin> set to_remove) entries
           in if kept = [] then None else Some kept))"

definition retain_edges :: "hash list \<Rightarrow> (out_point \<rightharpoonup> hash \<times> u32) \<Rightarrow> (out_point \<rightharpoonup> hash \<times> u32)" where
  "retain_edges to_remove edges outpoint =
     (case edges outpoint of
        None \<Rightarrow> None
      | Some (txid, vin) \<Rightarrow> if txid \<in> set to_remove then None else Some (txid, vin))"

definition mempool_remove :: "hash list \<Rightarrow> 'f mempool \<Rightarrow> (error_kind, 'f mempool) outcome" where
  "mempool_remove to_remove m =
     map_out
       (\<lambda>m'. m'\<lparr>mp_history := retain_history to_remove (mp_history m'),
               mp_edges := retain_edges to_remove (mp_edges m')\<rparr>)
       (remove_from_store to_remove m)"

text \<open>The phases of \<open>update\<close>.\<close>

definition txids_to_remove :: "hash list \<Rightarrow> hash list \<Rightarrow> hash list" where
  "txids_to_remove old_txids all_txids = filter (\<lambda>t. t \<notin> set all_txids) old_txids"

definition txids_to_add :: "hash list \<Rightarrow> hash list \<Rightarrow> hash list" where
  "txids_to_add old_txids all_txids = remdups (filter (\<lambda>t. t \<notin> set old_txids) all_txids)"

definition refresh_backlog :: "'f::linorder \<Rightarrow> int \<Rightarrow> 'f mempool \<Rightarrow> (error_kind, 'f mempool) outcome" where
  "refresh_backlog zero now m =
     (if mc_backlog_stats_ttl (mp_config m) < now - snd (mp_backlog_stats m)
      then map_out (\<lambda>b. m\<lparr>mp_backlog_stats := (b, now)\<rparr>) (backlog_new zero (map snd (mp_feeinfo m)))
      else Ok m)"

definition finish_update ::
  "'d rocks \<Rightarrow> bitcoin_lib \<Rightarrow> (u64 \<Rightarrow> u64 \<Rightarrow> 'f::linorder f32) \<Rightarrow> 'f \<Rightarrow> int \<Rightarrow> 'd chain_query \<Rightarrow> transaction list \<Rightarrow> 'f mempool
    \<Rightarrow> (error_kind, 'f mempool) outcome"
where
  "finish_update rk lib fdiv zero now cq txs_to_add m =
     bind_out (mempool_add rk lib fdiv cq m txs_to_add) (\<lambda>(m', _). refresh_backlog zero now m')"

text \<open>The whole of \<open>update\<close> when no other thread touches the mempool: the state it leaves, and its result.\<close>

definition mempool_update ::
  "'d rocks \<Rightarrow> bitcoin_lib \<Rightarrow> (u64 \<Rightarrow> u64 \<Rightarrow> 'f::linorder f32) \<Rightarrow> 'f \<Rightarrow> int \<Rightarrow> 'd chain_query \<Rightarrow> mempool_node \<Rightarrow> 'f mempool
    \<Rightarrow> 'f mempool \<times> (error_kind, unit) outcome"
where
  "mempool_update rk lib fdiv zero now cq node m =
     (let old_txids = map fst (mp_txstore m) in
      case mn_mempooltxids node of
        Panic s \<Rightarrow> (m, Panic s)
      | Err _ \<Rightarrow> (m, Err (Msg ''failed to update mempool from daemon''))
      | Ok all_txids \<Rightarrow>
          (case mempool_remove (txids_to_remove old_txids all_txids) m of
             Panic s \<Rightarrow> (m, Panic s)
           | Err e \<Rightarrow> (m, Err e)
           | Ok m1 \<Rightarrow>
               (case mn_transactions node (txids_to_add old_txids all_txids) of
                  Panic s \<Rightarrow> (m1, Panic s)
                | Err _ \<Rightarrow> (m1, Err (Msg ''failed to get transactions''))
                | Ok txs \<Rightarrow>
                    (case finish_update rk lib fdiv zero now cq txs m1 of
                       Ok m2 \<Rightarrow> (m2, Ok ())
                     | Err e \<Rightarrow> (m1, Err e)
                     | Panic s \<Rightarrow> (m1, Panic s)))))"

section \<open>The store\<close>

lemma btree_insert_keys [simp]: "fst ` set (btree_insert k v es) = insert k (fst ` set es)"
  by (induction es) auto

lemma btree_insert_sorted:
  "sorted_wrt (<) (map fst es) \<Longrightarrow> sorted_wrt (<) (map fst (btree_insert k v es))"
proof (induction es)
  case (Cons e es)
  have "x < fst e \<or> fst e < x" if "x \<noteq> fst e" for x using that by auto
  moreover have "\<forall>x\<in>fst ` set (btree_insert k v es). fst e < x" if "fst e < k"
    using Cons.prems that by auto
  ultimately show ?case using Cons by (auto dest: less_trans)
qed simp

lemma map_of_btree_insert:
  "sorted_wrt (<) (map fst es) \<Longrightarrow> map_of (btree_insert k v es) = (map_of es)(k \<mapsto> v)"
proof (induction es)
  case (Cons e es)
  then show ?case by (cases e) (auto simp: fun_eq_iff)
qed simp

lemma sorted_distinct_keys: "sorted_wrt (<) (map fst (es :: ('k::linorder \<times> 'v) list)) \<Longrightarrow> distinct (map fst es)"
  by (induction es) auto

definition store_ok :: "bitcoin_lib \<Rightarrow> (hash \<times> transaction) list \<Rightarrow> bool" where
  "store_ok lib store \<longleftrightarrow> sorted_wrt (<) (map fst store) \<and> (\<forall>e\<in>set store. get_txid lib (snd e) = fst e)"

lemma btree_insert_set: "e \<in> set (btree_insert k v es) \<Longrightarrow> e = (k, v) \<or> e \<in> set es"
  by (induction es) (auto split: if_splits)

lemma store_ok_insert: "store_ok lib store \<Longrightarrow> store_ok lib (btree_insert (get_txid lib tx) tx store)"
  by (auto simp: store_ok_def btree_insert_sorted dest: btree_insert_set)

lemma store_ok_lookup: "store_ok lib store \<Longrightarrow> map_of store t = Some tx \<Longrightarrow> get_txid lib tx = t"
  using map_of_SomeD by (fastforce simp: store_ok_def)

lemma map_of_key: "k \<in> fst ` set es \<longleftrightarrow> map_of es k \<noteq> None"
  by (simp add: map_of_eq_None_iff)

text \<open>Phase 1 of \<open>add\<close>: the new ids are those that were not in the store, each once.\<close>

lemma add_to_store_spec:
  assumes "store_ok lib store" "add_to_store lib txs store txids = (store', txids')"
  shows "store_ok lib store' \<and> fst ` set store' = fst ` set store \<union> get_txid lib ` set txs
    \<and> (\<exists>new. txids' = txids @ new \<and> distinct new \<and> set new = get_txid lib ` set txs - fst ` set store)"
  using assms
proof (induction txs arbitrary: store txids)
  case (Cons tx txs)
  let ?t = "get_txid lib tx" and ?s = "btree_insert (get_txid lib tx) tx store"
  have ok: "store_ok lib ?s" by (rule store_ok_insert [OF Cons.prems(1)])
  have "add_to_store lib txs ?s (if map_of store ?t = None then txids @ [?t] else txids) = (store', txids')"
    using Cons.prems(2) by (simp add: Let_def)
  from Cons.IH [OF ok this] obtain new where IH: "store_ok lib store'"
      "fst ` set store' = fst ` set ?s \<union> get_txid lib ` set txs"
      "txids' = (if map_of store ?t = None then txids @ [?t] else txids) @ new"
      "distinct new" "set new = get_txid lib ` set txs - fst ` set ?s" by blast
  show ?case
  proof (cases "?t \<in> fst ` set store")
    case True
    then have "txids' = txids @ new" using IH(3) by (simp add: map_of_eq_None_iff)
    then show ?thesis using IH True by (simp add: insert_absorb)
  next
    case False
    then have "txids' = txids @ ?t # new" using IH(3) by (simp add: map_of_eq_None_iff)
    moreover have "distinct (?t # new)" "set (?t # new) = get_txid lib ` set (tx # txs) - fst ` set store"
      using IH(4,5) False by auto
    ultimately show ?thesis using IH(1,2) by auto
  qed
qed simp

section \<open>The index of one transaction\<close>

lemma push_entries:
  "(case foldl push_entry hist es sh of None \<Rightarrow> [] | Some xs \<Rightarrow> xs)
     = (case hist sh of None \<Rightarrow> [] | Some xs \<Rightarrow> xs) @ map snd (filter (\<lambda>x. fst x = sh) es)"
  by (induction es arbitrary: hist) (auto simp: push_entry_def)

lemma push_entries_nonempty:
  "\<forall>sh. hist sh \<noteq> Some [] \<Longrightarrow> foldl push_entry hist es sh \<noteq> Some []"
  by (induction es arbitrary: hist) (auto simp: push_entry_def)

lemma collect_out_member: "collect_out f xs = Ok ys \<Longrightarrow> y \<in> set ys \<Longrightarrow> \<exists>x\<in>set xs. f x = Ok y"
  unfolding collect_out_Ok_iff by (force simp: list_all2_conv_all_nth in_set_conv_nth)

lemma mempool_spending_total:
  assumes "extract_tx_prevouts lib tx txos = Ok ps"
  shows "\<exists>sp. mempool_spending lib t tx ps = Ok sp \<and> (\<forall>x\<in>set sp. hi_txid (snd x) = t)"
proof -
  have idx: "unat i < length (tx_input tx)" if "(i, p) \<in> set ps" for i p
  proof -
    have "(i, p) \<in> (\<lambda>(i, txi). (word_of_nat i, the (txos (txi_previous_output txi)))) `
        set (filter (\<lambda>(_, txi). has_prevout lib txi) (enumerate 0 (tx_input tx)))"
      using that assms [unfolded extract_tx_prevouts_Ok_iff, THEN conjunct2] by simp
    then obtain j txi where j: "(j, txi) \<in> set (enumerate 0 (tx_input tx))" "i = word_of_nat j" by auto
    have "unat i \<le> j" unfolding j(2) by (simp add: unat_of_nat)
    then show ?thesis using j(1) by (auto simp: in_set_enumerate_eq)
  qed
  have "\<forall>x\<in>set ps. unat (fst x) < length (tx_input tx)" using idx by fastforce
  then obtain sp where sp: "mempool_spending lib t tx ps = Ok sp"
    unfolding mempool_spending_def by (atomize_elim, intro collect_out_ex) (simp add: split_beta)
  have "hi_txid (snd x) = t" if "x \<in> set sp" for x
  proof -
    from collect_out_member [OF sp [unfolded mempool_spending_def] that] show ?thesis by auto
  qed
  then show ?thesis using sp by blast
qed

lemma extract_no_panic: "extract_tx_prevouts lib tx txos \<noteq> Panic s"
proof -
  have "collect_out f xs \<noteq> Panic s" if "\<forall>x. f x \<noteq> Panic s" for f :: "nat \<times> tx_in \<Rightarrow> (error_kind, u32 \<times> tx_out) outcome" and xs
    using that
  proof (induction xs)
    case (Cons x xs)
    have "f x \<noteq> Panic s" using Cons.prems by blast
    then show ?case using Cons by (cases "f x"; cases "collect_out f xs") auto
  qed simp
  then show ?thesis unfolding extract_tx_prevouts_def by (simp split: option.splits prod.splits)
qed

lemma mempool_funding_txid: "x \<in> set (mempool_funding lib u t tx) \<Longrightarrow> hi_txid (snd x) = t"
  by (auto simp: mempool_funding_def)

definition edge_of :: "bitcoin_lib \<Rightarrow> out_point \<Rightarrow> hash \<Rightarrow> u32 \<Rightarrow> bool" where
  "edge_of lib pt t v \<longleftrightarrow>
     (\<exists>tx i. get_txid lib tx = t \<and> i < length (tx_input tx) \<and> v = word_of_nat i \<and> txi_previous_output (tx_input tx ! i) = pt)"

lemma fold_edges:
  assumes "foldl (\<lambda>edges (i, txi). edges(txi_previous_output txi \<mapsto> (t, word_of_nat i))) edges (enumerate n xs) pt = Some (t', v)"
  shows "edges pt = Some (t', v) \<or> (t' = t \<and> (\<exists>i<length xs. v = word_of_nat (n + i) \<and> txi_previous_output (xs ! i) = pt))"
  using assms
proof (induction xs arbitrary: edges n)
  case (Cons x xs)
  have "foldl (\<lambda>edges (i, txi). edges(txi_previous_output txi \<mapsto> (t, word_of_nat i)))
      (edges(txi_previous_output x \<mapsto> (t, word_of_nat n))) (enumerate (Suc n) xs) pt = Some (t', v)"
    using Cons.prems by (simp del: fun_upd_apply)
  from Cons.IH [OF this] have "(edges(txi_previous_output x \<mapsto> (t, word_of_nat n))) pt = Some (t', v)
      \<or> (t' = t \<and> (\<exists>i<length xs. v = word_of_nat (Suc n + i) \<and> txi_previous_output (xs ! i) = pt))" .
  then show ?case
  proof
    assume "(edges(txi_previous_output x \<mapsto> (t, word_of_nat n))) pt = Some (t', v)"
    then show ?thesis by (auto split: if_splits intro!: exI [of _ 0])
  next
    assume "t' = t \<and> (\<exists>i<length xs. v = word_of_nat (Suc n + i) \<and> txi_previous_output (xs ! i) = pt)"
    then obtain i where "t' = t" "i < length xs" "v = word_of_nat (Suc n + i)" "txi_previous_output (xs ! i) = pt" by blast
    then show ?thesis by (intro disjI2 conjI exI [of _ "Suc i"]) auto
  qed
qed simp

section \<open>The invariant\<close>

abbreviation indexed_txids :: "'f mempool \<Rightarrow> hash set" where
  "indexed_txids m \<equiv> fst ` set (mp_feeinfo m)"

text \<open>A transaction is indexed if its fee and all its history entries, and only those, are there.\<close>

definition tx_indexed :: "bitcoin_lib \<Rightarrow> (u64 \<Rightarrow> u64 \<Rightarrow> 'f f32) \<Rightarrow> 'f mempool \<Rightarrow> hash \<Rightarrow> bool" where
  "tx_indexed lib fdiv m t \<longleftrightarrow>
     (\<exists>tx txos ps sp. get_txid lib tx = t \<and> extract_tx_prevouts lib tx txos = Ok ps
        \<and> mempool_spending lib t tx ps = Ok sp
        \<and> map_of (mp_feeinfo m) t = Some (tx_fee_info_new lib fdiv tx ps)
        \<and> (\<forall>sh. filter (\<lambda>e. hi_txid e = t) (history_entries m sh)
             = map snd (filter (\<lambda>x. fst x = sh) (mempool_funding lib (mc_index_unspendables (mp_config m)) t tx @ sp))))"

definition mempool_ok :: "bitcoin_lib \<Rightarrow> (u64 \<Rightarrow> u64 \<Rightarrow> 'f f32) \<Rightarrow> 'f mempool \<Rightarrow> bool" where
  "mempool_ok lib fdiv m \<longleftrightarrow>
     store_ok lib (mp_txstore m)
     \<and> distinct (map fst (mp_feeinfo m)) \<and> indexed_txids m \<subseteq> unique_txids m
     \<and> (\<forall>sh. mp_history m sh \<noteq> Some [])
     \<and> (\<forall>sh. \<forall>e\<in>set (history_entries m sh). hi_txid e \<in> indexed_txids m)
     \<and> (\<forall>t\<in>indexed_txids m. tx_indexed lib fdiv m t)
     \<and> (\<forall>pt t v. mp_edges m pt = Some (t, v) \<longrightarrow> t \<in> indexed_txids m \<and> edge_of lib pt t v)
     \<and> length (mp_recent m) \<le> mc_recent_txs_size (mp_config m)"

lemma mempool_new_ok: "mempool_ok lib fdiv (mempool_new zero config now)"
  by (simp add: mempool_ok_def mempool_new_def store_ok_def history_entries_def unique_txids_def)

lemma tx_indexed_cong:
  assumes "mp_config m' = mp_config m" "map_of (mp_feeinfo m') t = map_of (mp_feeinfo m) t"
    and "\<And>sh. filter (\<lambda>e. hi_txid e = t) (history_entries m' sh) = filter (\<lambda>e. hi_txid e = t) (history_entries m sh)"
  shows "tx_indexed lib fdiv m' t = tx_indexed lib fdiv m t"
  unfolding tx_indexed_def assms ..

lemma ok_bigger_store:
  assumes "mempool_ok lib fdiv m" "store_ok lib store" "unique_txids m \<subseteq> fst ` set store"
  shows "mempool_ok lib fdiv (m\<lparr>mp_txstore := store\<rparr>)"
proof -
  let ?m = "m\<lparr>mp_txstore := store\<rparr>"
  have h: "history_entries ?m = history_entries m" by (intro ext) (simp add: history_entries_def)
  then have "tx_indexed lib fdiv ?m t = tx_indexed lib fdiv m t" for t by (intro tx_indexed_cong) simp_all
  moreover have "indexed_txids m \<subseteq> unique_txids m" using assms(1) unfolding mempool_ok_def by blast
  then have "indexed_txids m \<subseteq> unique_txids ?m" using assms(3) by (simp add: unique_txids_def)
  ultimately show ?thesis using assms(1,2) h unfolding mempool_ok_def by simp
qed

lemma filter_txid_entries:
  assumes "\<And>x. x \<in> set es \<Longrightarrow> hi_txid (snd x) = t"
  shows "filter (\<lambda>e. hi_txid e = u) (map snd (filter P es)) = (if u = t then map snd (filter P es) else [])"
  using assms by (induction es) auto

lemma ok_index_tx:
  assumes ok: "mempool_ok lib fdiv m" and tx: "map_of (mp_txstore m) t = Some tx" and new: "t \<notin> indexed_txids m"
    and ps: "extract_tx_prevouts lib tx txos = Ok ps"
  shows "\<exists>m'. mempool_index_tx lib fdiv m t tx ps = Ok m' \<and> mempool_ok lib fdiv m'
    \<and> mp_txstore m' = mp_txstore m \<and> mp_config m' = mp_config m \<and> indexed_txids m' = insert t (indexed_txids m)"
proof -
  obtain sp where sp: "mempool_spending lib t tx ps = Ok sp" "\<forall>x\<in>set sp. hi_txid (snd x) = t"
    using mempool_spending_total [OF ps] by blast
  obtain m' where m': "mempool_index_tx lib fdiv m t tx ps = Ok m'"
    using sp(1) by (simp add: mempool_index_tx_def Let_def)
  let ?new = "mempool_funding lib (mc_index_unspendables (mp_config m)) t tx @ sp"
  have frame: "mp_txstore m' = mp_txstore m" "mp_config m' = mp_config m"
    "mp_feeinfo m' = (t, tx_fee_info_new lib fdiv tx ps) # map_remove t (mp_feeinfo m)"
    "mp_history m' = foldl push_entry (mp_history m) ?new"
    "mp_edges m' = foldl (\<lambda>edges (i, txi). edges(txi_previous_output txi \<mapsto> (t, word_of_nat i))) (mp_edges m) (enumerate 0 (tx_input tx))"
    "length (mp_recent m') \<le> max (length (mp_recent m)) (mc_recent_txs_size (mp_config m))"
    using m' sp(1) by (auto simp: mempool_index_tx_def Let_def push_front_capped_def)
  note okm = ok [unfolded mempool_ok_def]
  have gt: "get_txid lib tx = t" by (rule store_ok_lookup [OF okm [THEN conjunct1] tx])
  have rem: "map_remove t (mp_feeinfo m) = mp_feeinfo m" using new unfolding map_remove_def by (auto simp: filter_id_conv)
  have ids: "indexed_txids m' = insert t (indexed_txids m)" by (simp add: frame(3) rem)
  have hist: "history_entries m' sh = history_entries m sh @ map snd (filter (\<lambda>x. fst x = sh) ?new)" for sh
    unfolding history_entries_def frame(4) by (rule push_entries)
  have newt: "hi_txid (snd x) = t" if "x \<in> set ?new" for x using that sp(2) mempool_funding_txid [of x] by auto
  have oldt: "hi_txid e \<noteq> t" if "e \<in> set (history_entries m sh)" for e sh using okm new that by blast
  have "mempool_ok lib fdiv m'"
    unfolding mempool_ok_def
  proof (intro conjI allI ballI impI)
    show "store_ok lib (mp_txstore m')" using okm frame(1) by simp
    show "distinct (map fst (mp_feeinfo m'))" using okm new by (simp add: frame(3) rem)
    show "indexed_txids m' \<subseteq> unique_txids m'"
      using okm tx map_of_key [of t "mp_txstore m"] unfolding ids by (simp add: unique_txids_def frame(1))
    show "mp_history m' sh \<noteq> Some []" for sh using okm unfolding frame(4) by (intro push_entries_nonempty) blast
    show "hi_txid e \<in> indexed_txids m'" if "e \<in> set (history_entries m' sh)" for sh e
      using that okm newt unfolding hist ids by auto
    show "length (mp_recent m') \<le> mc_recent_txs_size (mp_config m')" using okm frame(2,6) by simp
    show "tx_indexed lib fdiv m' u" if u: "u \<in> indexed_txids m'" for u
    proof (cases "u = t")
      case True
      have "filter (\<lambda>e. hi_txid e = t) (history_entries m' sh) = map snd (filter (\<lambda>x. fst x = sh) ?new)" for sh
      proof -
        have "filter (\<lambda>e. hi_txid e = t) (history_entries m sh) = []" using oldt unfolding filter_empty_conv by blast
        then show ?thesis unfolding hist filter_append using filter_txid_entries [of ?new t t "\<lambda>x. fst x = sh", OF newt] by simp
      qed
      then show ?thesis
        unfolding tx_indexed_def True frame(2) using ps sp(1) gt by (intro exI [of _ tx] exI [of _ txos] exI [of _ ps] exI [of _ sp]) (simp add: frame(3))
    next
      case False
      have "tx_indexed lib fdiv m' u = tx_indexed lib fdiv m u"
      proof (rule tx_indexed_cong)
        show "filter (\<lambda>e. hi_txid e = u) (history_entries m' sh) = filter (\<lambda>e. hi_txid e = u) (history_entries m sh)" for sh
          unfolding hist filter_append using filter_txid_entries [of ?new t u "\<lambda>x. fst x = sh", OF newt] False by simp
      qed (use False frame(2) rem in \<open>simp_all add: frame(3)\<close>)
      then show ?thesis using okm u False unfolding ids by blast
    qed
    fix pt u v assume "mp_edges m' pt = Some (u, v)"
    then have e: "mp_edges m pt = Some (u, v) \<or> (u = t \<and> (\<exists>i<length (tx_input tx). v = word_of_nat (0 + i) \<and> txi_previous_output (tx_input tx ! i) = pt))"
      unfolding frame(5) by (rule fold_edges)
    have "u = t \<and> edge_of lib pt u v \<or> u \<in> indexed_txids m \<and> edge_of lib pt u v"
      using e okm gt unfolding edge_of_def by auto
    then show "u \<in> indexed_txids m'" "edge_of lib pt u v" unfolding ids by auto
  qed
  then show ?thesis using m' frame(1,2) ids by blast
qed

lemma ok_index_txs:
  assumes "mempool_ok lib fdiv m" "distinct txids" "set txids \<subseteq> unique_txids m" "set txids \<inter> indexed_txids m = {}"
  shows "\<exists>m'. mempool_index_txs lib fdiv txos txids m n
      = Ok (m', n + length (filter (\<lambda>t. is_ok (extract_tx_prevouts lib (the (map_of (mp_txstore m) t)) txos)) txids))
    \<and> mempool_ok lib fdiv m' \<and> mp_txstore m' = mp_txstore m \<and> mp_config m' = mp_config m
    \<and> indexed_txids m' = indexed_txids m
        \<union> {t \<in> set txids. is_ok (extract_tx_prevouts lib (the (map_of (mp_txstore m) t)) txos)}"
  using assms
proof (induction txids arbitrary: m n)
  case (Cons t ts)
  obtain tx where tx: "map_of (mp_txstore m) t = Some tx"
    using Cons.prems(3) map_of_key [of t "mp_txstore m"] by (auto simp: unique_txids_def)
  show ?case
  proof (cases "extract_tx_prevouts lib tx txos")
    case (Ok ps)
    obtain m1 where m1: "mempool_index_tx lib fdiv m t tx ps = Ok m1" "mempool_ok lib fdiv m1" "mp_txstore m1 = mp_txstore m"
        "mp_config m1 = mp_config m" "indexed_txids m1 = insert t (indexed_txids m)"
      using ok_index_tx [OF Cons.prems(1) tx _ Ok] Cons.prems(4) by auto
    have pre: "distinct ts" "set ts \<subseteq> unique_txids m1" "set ts \<inter> indexed_txids m1 = {}"
      using Cons.prems(2-4) m1(3,5) by (auto simp: unique_txids_def)
    from Cons.IH [OF m1(2) pre, of "Suc n"] show ?thesis using m1 tx Ok by (auto simp: is_ok_def)
  next
    case (Err e)
    have "distinct ts" "set ts \<subseteq> unique_txids m" "set ts \<inter> indexed_txids m = {}" using Cons.prems(2-4) by auto
    from Cons.IH [OF Cons.prems(1) this, of n] show ?thesis using tx Err by (auto simp: is_ok_def)
  next
    case (Panic s)
    then show ?thesis using extract_no_panic by blast
  qed
qed simp

section \<open>Adding\<close>

text \<open>The transaction outputs of the chain can be read.\<close>

definition chain_txos_ok :: "'d rocks \<Rightarrow> bitcoin_lib \<Rightarrow> 'd chain_query \<Rightarrow> bool" where
  "chain_txos_ok rk lib cq \<longleftrightarrow> (\<forall>pt. is_ok (lookup_txo rk lib (so_txstore_db (cq_store cq)) pt))"

definition chain_txo :: "'d rocks \<Rightarrow> bitcoin_lib \<Rightarrow> 'd chain_query \<Rightarrow> out_point \<Rightarrow> tx_out option" where
  "chain_txo rk lib cq pt = (case lookup_txo rk lib (so_txstore_db (cq_store cq)) pt of Ok r \<Rightarrow> r | _ \<Rightarrow> None)"

text \<open>An output of the best chain, or else of a transaction of the mempool.\<close>

definition known_txo :: "'d rocks \<Rightarrow> bitcoin_lib \<Rightarrow> 'd chain_query \<Rightarrow> 'f mempool \<Rightarrow> out_point \<Rightarrow> tx_out option" where
  "known_txo rk lib cq m pt = (case chain_txo rk lib cq pt of Some t \<Rightarrow> Some t | None \<Rightarrow> mempool_txo m pt)"

lemma lookup_avail_txos_total:
  assumes "chain_txos_ok rk lib cq"
  shows "lookup_avail_txos rk lib cq pts = Ok (\<lambda>pt. if pt \<in> set pts then chain_txo rk lib cq pt else None)"
proof -
  let ?c = "chain_txo rk lib cq"
  have c: "lookup_txo rk lib (so_txstore_db (cq_store cq)) pt = Ok (?c pt)" for pt
    using assms unfolding chain_txos_ok_def chain_txo_def is_ok_iff by (metis outcome.simps(10))
  have "map_of (concat (map (\<lambda>pt. case ?c pt of Some t \<Rightarrow> [(pt, t)] | None \<Rightarrow> []) pts))
      = (\<lambda>pt. if pt \<in> set pts then ?c pt else None)"
    by (induction pts) (auto simp: fun_eq_iff split: option.splits)
  moreover have "collect_out (\<lambda>outpoint. bind_out (lookup_txo rk lib (so_txstore_db (cq_store cq)) outpoint) (\<lambda>txo.
             case txo of Some t \<Rightarrow> Ok [(outpoint, t)] | None \<Rightarrow> if True then Ok [] else Panic ''missing txo'')) pts
      = (Ok (map (\<lambda>pt. case ?c pt of Some t \<Rightarrow> [(pt, t)] | None \<Rightarrow> []) pts) :: (error_kind, _) outcome)"
    by (intro collect_out_total) (simp add: c split: option.splits)
  ultimately show ?thesis by (simp add: lookup_avail_txos_def lookup_txos_def)
qed

lemma mempool_lookup_txos_total:
  assumes "chain_txos_ok rk lib cq"
  shows "mempool_lookup_txos rk lib cq m pts = Ok (\<lambda>pt. if pt \<in> set pts then known_txo rk lib cq m pt else None)"
proof -
  have "map_of (List.map_filter (\<lambda>pt. map_option (Pair pt) (mempool_txo m pt)) xs)
      = (\<lambda>pt. if pt \<in> set xs then mempool_txo m pt else None)" for xs
    by (induction xs) (auto simp: map_filter_simps fun_eq_iff split: option.splits)
  then show ?thesis
    unfolding mempool_lookup_txos_def lookup_avail_txos_total [OF assms]
    by (auto simp: fun_eq_iff known_txo_def map_add_def split: option.splits)
qed

text \<open>The outputs a transaction spends are all known.\<close>

definition parents_known :: "'d rocks \<Rightarrow> bitcoin_lib \<Rightarrow> 'd chain_query \<Rightarrow> 'f mempool \<Rightarrow> transaction \<Rightarrow> bool" where
  "parents_known rk lib cq m tx \<longleftrightarrow>
     (\<forall>txi\<in>set (tx_input tx). has_prevout lib txi \<longrightarrow> known_txo rk lib cq m (txi_previous_output txi) \<noteq> None)"

lemma mempool_add_spec:
  assumes ok: "mempool_ok lib fdiv m" and chain: "chain_txos_ok rk lib cq"
  shows "\<exists>m' n. mempool_add rk lib fdiv cq m txs = Ok (m', n) \<and> mempool_ok lib fdiv m' \<and> mp_config m' = mp_config m
    \<and> unique_txids m' = unique_txids m \<union> get_txid lib ` set txs
    \<and> indexed_txids m' = indexed_txids m \<union> {t \<in> get_txid lib ` set txs - unique_txids m.
         parents_known rk lib cq m' (the (map_of (mp_txstore m') t))}"
proof (cases "txs = []")
  case True
  then show ?thesis using ok by (simp add: mempool_add_def)
next
  case False
  obtain store txids where st: "add_to_store lib txs (mp_txstore m) [] = (store, txids)" by (cases "add_to_store lib txs (mp_txstore m) []")
  have sok: "store_ok lib (mp_txstore m)" and ids: "indexed_txids m \<subseteq> unique_txids m" using ok unfolding mempool_ok_def by blast+
  have s: "store_ok lib store" "fst ` set store = unique_txids m \<union> get_txid lib ` set txs" "distinct txids"
      "set txids = get_txid lib ` set txs - unique_txids m"
    using add_to_store_spec [OF sok st] by (auto simp: unique_txids_def)
  let ?m1 = "m\<lparr>mp_txstore := store\<rparr>"
  have ok1: "mempool_ok lib fdiv ?m1" using s(2) by (intro ok_bigger_store [OF ok s(1)]) simp
  let ?tx = "\<lambda>t. the (map_of store t)"
  let ?prev = "concat (map (\<lambda>t. map txi_previous_output (filter (has_prevout lib) (tx_input (?tx t)))) txids)"
  have "map_of store t = Some (?tx t)" if "t \<in> set txids" for t
    using that s(2,4) map_of_key [of t store] by auto
  then have "collect_out (\<lambda>txid. expect ''missing mempool tx'' (map_of (mp_txstore ?m1) txid)) txids = (Ok (map ?tx txids) :: (error_kind, _) outcome)"
    by (intro collect_out_total) simp
  then have prev: "get_prevouts lib ?m1 txids = Ok ?prev" by (simp add: get_prevouts_def comp_def)
  define txos where "txos = (\<lambda>pt. if pt \<in> set ?prev then known_txo rk lib cq ?m1 pt else None)"
  have look: "mempool_lookup_txos rk lib cq ?m1 ?prev = Ok txos" unfolding txos_def by (rule mempool_lookup_txos_total [OF chain])
  have known: "is_ok (extract_tx_prevouts lib (?tx t) txos) \<longleftrightarrow> parents_known rk lib cq ?m1 (?tx t)" if "t \<in> set txids" for t
    using that unfolding is_ok_iff extract_tx_prevouts_Ok_iff parents_known_def txos_def by (auto split: if_splits)
  have "set txids \<subseteq> unique_txids ?m1" "set txids \<inter> indexed_txids ?m1 = {}"
    using s(2,4) ids by (auto simp: unique_txids_def)
  from ok_index_txs [OF ok1 s(3) this, of txos 0] obtain m' n where m':
    "mempool_index_txs lib fdiv txos txids ?m1 0 = Ok (m', n)" "mempool_ok lib fdiv m'" "mp_txstore m' = store"
    "mp_config m' = mp_config m" "indexed_txids m' = indexed_txids m \<union> {t \<in> set txids. is_ok (extract_tx_prevouts lib (?tx t) txos)}"
    by auto
  have txo: "mempool_txo m' = mempool_txo ?m1" by (intro ext) (simp add: mempool_txo_def m'(3))
  have "parents_known rk lib cq m' = parents_known rk lib cq ?m1"
    unfolding parents_known_def known_txo_def txo by (rule refl)
  then have "indexed_txids m' = indexed_txids m \<union> {t \<in> get_txid lib ` set txs - unique_txids m. parents_known rk lib cq m' (the (map_of (mp_txstore m') t))}"
    using m'(3,5) known s(4) by auto
  moreover have "mempool_add rk lib fdiv cq m txs = Ok (m', n)"
    using False m'(1) by (simp add: mempool_add_def st Let_def prev look)
  moreover have "unique_txids m' = unique_txids m \<union> get_txid lib ` set txs" using s(2) m'(3) by (simp add: unique_txids_def)
  ultimately show ?thesis using m'(2,4) by blast
qed

section \<open>Removing\<close>

lemma remove_from_store_spec:
  "distinct ts \<Longrightarrow> set ts \<subseteq> unique_txids m \<Longrightarrow>
   remove_from_store ts m = Ok (m\<lparr>mp_txstore := filter (\<lambda>e. fst e \<notin> set ts) (mp_txstore m),
                                  mp_feeinfo := filter (\<lambda>e. fst e \<notin> set ts) (mp_feeinfo m)\<rparr>)"
proof (induction ts arbitrary: m)
  case (Cons t ts)
  let ?m = "m\<lparr>mp_txstore := map_remove t (mp_txstore m), mp_feeinfo := map_remove t (mp_feeinfo m)\<rparr>"
  have "map_of (mp_txstore m) t \<noteq> None" using Cons.prems(2) map_of_key [of t "mp_txstore m"] by (auto simp: unique_txids_def)
  moreover have "unique_txids ?m = unique_txids m - {t}" by (auto simp: unique_txids_def map_remove_def image_iff)
  then have "set ts \<subseteq> unique_txids ?m" using Cons.prems by auto
  then have "remove_from_store ts ?m = Ok (?m\<lparr>mp_txstore := filter (\<lambda>e. fst e \<notin> set ts) (mp_txstore ?m),
                                  mp_feeinfo := filter (\<lambda>e. fst e \<notin> set ts) (mp_feeinfo ?m)\<rparr>)"
    using Cons.IH Cons.prems(1) by simp
  ultimately show ?case by (simp add: map_remove_def conj_commute)
qed simp

lemma retain_entries:
  "(case retain_history ts hist sh of None \<Rightarrow> [] | Some xs \<Rightarrow> xs)
     = filter (\<lambda>e. hi_txid e \<notin> set ts) (case hist sh of None \<Rightarrow> [] | Some xs \<Rightarrow> xs)"
  by (simp add: retain_history_def Let_def split: option.splits)

lemma mempool_remove_spec:
  assumes ok: "mempool_ok lib fdiv m" and ts: "distinct ts" "set ts \<subseteq> unique_txids m"
  shows "\<exists>m'. mempool_remove ts m = Ok m' \<and> mempool_ok lib fdiv m' \<and> mp_config m' = mp_config m
    \<and> unique_txids m' = unique_txids m - set ts \<and> indexed_txids m' = indexed_txids m - set ts"
proof -
  obtain m' where m': "mempool_remove ts m = Ok m'" "mp_config m' = mp_config m" "mp_recent m' = mp_recent m"
      "mp_txstore m' = filter (\<lambda>e. fst e \<notin> set ts) (mp_txstore m)"
      "mp_feeinfo m' = filter (\<lambda>e. fst e \<notin> set ts) (mp_feeinfo m)"
      "mp_history m' = retain_history ts (mp_history m)" "mp_edges m' = retain_edges ts (mp_edges m)"
    by (simp add: mempool_remove_def remove_from_store_spec [OF ts])
  have u: "unique_txids m' = unique_txids m - set ts" and i: "indexed_txids m' = indexed_txids m - set ts"
    by (auto simp: unique_txids_def m'(4,5) image_iff)
  have hist: "history_entries m' sh = filter (\<lambda>e. hi_txid e \<notin> set ts) (history_entries m sh)" for sh
    unfolding history_entries_def m'(6) by (rule retain_entries)
  note okm = ok [unfolded mempool_ok_def]
  have "mempool_ok lib fdiv m'"
    unfolding mempool_ok_def
  proof (intro conjI allI ballI impI)
    show "store_ok lib (mp_txstore m')" using okm by (auto simp: store_ok_def m'(4) sorted_wrt_map sorted_wrt_filter)
    show "distinct (map fst (mp_feeinfo m'))" using okm by (simp add: m'(5) distinct_map_filter)
    show "indexed_txids m' \<subseteq> unique_txids m'" unfolding u i using okm by blast
    show "mp_history m' sh \<noteq> Some []" for sh by (simp add: m'(6) retain_history_def Let_def split: option.splits)
    show "hi_txid e \<in> indexed_txids m'" if "e \<in> set (history_entries m' sh)" for sh e
    proof -
      have "e \<in> set (history_entries m sh)" "hi_txid e \<notin> set ts" using that unfolding hist by simp_all
      then show ?thesis unfolding i using okm by blast
    qed
    show "length (mp_recent m') \<le> mc_recent_txs_size (mp_config m')" using okm m'(2,3) by simp
    show "tx_indexed lib fdiv m' t" if t: "t \<in> indexed_txids m'" for t
    proof -
      have nt: "t \<notin> set ts" "t \<in> indexed_txids m" using t unfolding i by blast+
      have "tx_indexed lib fdiv m' t = tx_indexed lib fdiv m t"
      proof (rule tx_indexed_cong [OF m'(2)])
        have "map_of (filter (\<lambda>e. fst e \<notin> set ts) xs) t = map_of xs t" for xs :: "(hash \<times> 'a tx_fee_info) list"
          using nt(1) by (induction xs) auto
        then show "map_of (mp_feeinfo m') t = map_of (mp_feeinfo m) t" unfolding m'(5) .
        have "(\<lambda>e. hi_txid e \<notin> set ts \<and> hi_txid e = t) = (\<lambda>e. hi_txid e = t)" using nt(1) by auto
        then show "filter (\<lambda>e. hi_txid e = t) (history_entries m' sh) = filter (\<lambda>e. hi_txid e = t) (history_entries m sh)" for sh
          unfolding hist by simp
      qed
      then show ?thesis using okm nt(2) by blast
    qed
    fix pt t v assume "mp_edges m' pt = Some (t, v)"
    then have "mp_edges m pt = Some (t, v)" "t \<notin> set ts"
      by (auto simp: m'(7) retain_edges_def split: option.splits prod.splits if_splits)
    then show "t \<in> indexed_txids m'" "edge_of lib pt t v" unfolding i using okm by blast+
  qed
  then show ?thesis using m'(1,2) u i by blast
qed

section \<open>The update and the other threads\<close>

text \<open>
  The float division is defined for non-zero divisors and every transaction has a virtual size, so
  that a fee rate is a number.
\<close>

definition rates_ok :: "bitcoin_lib \<Rightarrow> (u64 \<Rightarrow> u64 \<Rightarrow> 'f f32) \<Rightarrow> bool" where
  "rates_ok lib fdiv \<longleftrightarrow> (\<forall>a b. b \<noteq> 0 \<longrightarrow> fdiv a b \<noteq> None) \<and> (\<forall>tx. lib_tx_weight lib tx div 4 \<noteq> 0)"

lemma refresh_backlog_total:
  assumes ok: "mempool_ok lib fdiv m" and rates: "rates_ok lib fdiv"
  shows "\<exists>m'. refresh_backlog zero now m = Ok m' \<and> mempool_ok lib fdiv m' \<and> mp_txstore m' = mp_txstore m \<and> mp_feeinfo m' = mp_feeinfo m"
proof -
  note okm = ok [unfolded mempool_ok_def]
  have "fi_fee_per_vbyte fi \<noteq> None" if "(t, fi) \<in> set (mp_feeinfo m)" for t fi
  proof -
    have d: "distinct (map fst (mp_feeinfo m))" using okm by blast
    have "t \<in> indexed_txids m" using that by (rule image_eqI [rotated]) simp
    then have "tx_indexed lib fdiv m t" using okm by blast
    then obtain tx ps where "map_of (mp_feeinfo m) t = Some (tx_fee_info_new lib fdiv tx ps)" unfolding tx_indexed_def by blast
    then have "fi = tx_fee_info_new lib fdiv tx ps" using that d by simp
    then show ?thesis using rates by (simp add: tx_fee_info_new_def Let_def rates_ok_def)
  qed
  then have "\<forall>fi\<in>set (map snd (mp_feeinfo m)). fi_fee_per_vbyte fi \<noteq> None" by auto
  then have "\<exists>h. make_fee_histogram zero (map snd (mp_feeinfo m)) = Ok h"
    unfolding make_fee_histogram_def by (auto split: prod.splits)
  then obtain b where b: "backlog_new zero (map snd (mp_feeinfo m)) = Ok b"
    by (auto simp: backlog_new_def case_prod_beta)
  have keep: "mempool_ok lib fdiv (m\<lparr>mp_backlog_stats := x\<rparr>)" for x
  proof -
    have h: "history_entries (m\<lparr>mp_backlog_stats := x\<rparr>) = history_entries m" by (intro ext) (simp add: history_entries_def)
    then have "tx_indexed lib fdiv (m\<lparr>mp_backlog_stats := x\<rparr>) t = tx_indexed lib fdiv m t" for t
      by (intro tx_indexed_cong) simp_all
    then show ?thesis using ok h unfolding mempool_ok_def by (simp add: unique_txids_def)
  qed
  show ?thesis using ok keep b by (simp add: refresh_backlog_def)
qed

lemma finish_update_spec:
  assumes ok: "mempool_ok lib fdiv m" and "rates_ok lib fdiv" and chain: "chain_txos_ok rk lib cq"
  shows "\<exists>m'. finish_update rk lib fdiv zero now cq txs m = Ok m' \<and> mempool_ok lib fdiv m'
    \<and> unique_txids m' = unique_txids m \<union> get_txid lib ` set txs
    \<and> indexed_txids m' = indexed_txids m \<union> {t \<in> get_txid lib ` set txs - unique_txids m.
         parents_known rk lib cq m' (the (map_of (mp_txstore m') t))}"
proof -
  obtain m1 n where m1: "mempool_add rk lib fdiv cq m txs = Ok (m1, n)" "mempool_ok lib fdiv m1"
      "unique_txids m1 = unique_txids m \<union> get_txid lib ` set txs"
      "indexed_txids m1 = indexed_txids m \<union> {t \<in> get_txid lib ` set txs - unique_txids m.
         parents_known rk lib cq m1 (the (map_of (mp_txstore m1) t))}"
    using mempool_add_spec [OF ok chain, of txs] by (elim exE conjE) (rule that)
  obtain m' where m': "refresh_backlog zero now m1 = Ok m'" "mempool_ok lib fdiv m'" "mp_txstore m' = mp_txstore m1" "mp_feeinfo m' = mp_feeinfo m1"
    using refresh_backlog_total [OF m1(2) assms(2)] by blast
  have txo: "mempool_txo m' = mempool_txo m1" by (intro ext) (simp add: mempool_txo_def m'(3))
  have "parents_known rk lib cq m' = parents_known rk lib cq m1"
    unfolding parents_known_def known_txo_def txo by (rule refl)
  then show ?thesis using m1 m' by (simp add: finish_update_def unique_txids_def)
qed

text \<open>
  Where the updating thread stands between the phases of \<open>update\<close>. The node's answers are arbitrary, the
  chain the transactions are resolved against is any whose outputs can be read, and another thread may
  add a transaction in every state.
\<close>

datatype update_pc =
    Idle
  | Listed "hash list"
  | Removing "hash list" "hash list"
  | Fetching "hash list"
  | Crashed

inductive mempool_step ::
  "'d rocks \<Rightarrow> bitcoin_lib \<Rightarrow> (u64 \<Rightarrow> u64 \<Rightarrow> 'f::linorder f32) \<Rightarrow> 'f
    \<Rightarrow> 'f mempool \<times> update_pc \<Rightarrow> 'f mempool \<times> update_pc \<Rightarrow> bool"
  for rk lib fdiv zero where
  list_txids: "mempool_step rk lib fdiv zero (m, Idle) (m, Listed (map fst (mp_txstore m)))"
| ask_node: "mempool_step rk lib fdiv zero (m, Listed old)
    (m, Removing (txids_to_remove old all_txids) (txids_to_add old all_txids))"
| ask_failed: "mempool_step rk lib fdiv zero (m, Listed old) (m, Idle)"
| removed: "mempool_remove r m = Ok m' \<Longrightarrow> mempool_step rk lib fdiv zero (m, Removing r a) (m', Fetching a)"
| remove_panics: "panics (mempool_remove r m) \<Longrightarrow> mempool_step rk lib fdiv zero (m, Removing r a) (m, Crashed)"
| fetch_failed: "mempool_step rk lib fdiv zero (m, Fetching a) (m, Idle)"
| fetched: "chain_txos_ok rk lib cq \<Longrightarrow> finish_update rk lib fdiv zero now cq txs m = Ok m'
    \<Longrightarrow> mempool_step rk lib fdiv zero (m, Fetching a) (m', Idle)"
| add_panics: "chain_txos_ok rk lib cq \<Longrightarrow> panics (finish_update rk lib fdiv zero now cq txs m)
    \<Longrightarrow> mempool_step rk lib fdiv zero (m, Fetching a) (m, Crashed)"
| other_adds: "chain_txos_ok rk lib cq \<Longrightarrow> \<not> panics (mn_mempooltx node txid) \<Longrightarrow> pc \<noteq> Crashed
    \<Longrightarrow> add_by_txid rk lib fdiv cq node m txid = (m', res)
    \<Longrightarrow> mempool_step rk lib fdiv zero (m, pc) (m', if panics res then Crashed else pc)"

inductive_cases mempool_stepE: "mempool_step rk lib fdiv zero s t"

definition update_inv :: "bitcoin_lib \<Rightarrow> (u64 \<Rightarrow> u64 \<Rightarrow> 'f f32) \<Rightarrow> 'f mempool \<times> update_pc \<Rightarrow> bool" where
  "update_inv lib fdiv s \<longleftrightarrow> mempool_ok lib fdiv (fst s)
     \<and> (case snd s of
          Listed old \<Rightarrow> distinct old \<and> set old \<subseteq> unique_txids (fst s)
        | Removing r _ \<Rightarrow> distinct r \<and> set r \<subseteq> unique_txids (fst s)
        | Crashed \<Rightarrow> False
        | _ \<Rightarrow> True)"

lemma add_by_txid_spec:
  assumes ok: "mempool_ok lib fdiv m" and chain: "chain_txos_ok rk lib cq" and node: "\<not> panics (mn_mempooltx node txid)"
    and run: "add_by_txid rk lib fdiv cq node m txid = (m', res)"
  shows "mempool_ok lib fdiv m' \<and> unique_txids m \<subseteq> unique_txids m' \<and> \<not> panics res"
proof (cases "map_of (mp_txstore m) txid = None")
  case True
  show ?thesis
  proof (cases "mn_mempooltx node txid")
    case (Ok tx)
    obtain m1 n where "mempool_add rk lib fdiv cq m [tx] = Ok (m1, n)" "mempool_ok lib fdiv m1"
        "unique_txids m1 = unique_txids m \<union> get_txid lib ` set [tx]"
      using mempool_add_spec [OF ok chain, of "[tx]"] by (elim exE conjE) (rule that)
    then show ?thesis using run True Ok by (auto simp: add_by_txid_def split: if_splits)
  qed (use run True ok node in \<open>auto simp: add_by_txid_def\<close>)
qed (use run ok in \<open>auto simp: add_by_txid_def\<close>)

lemma update_inv_mono:
  assumes "update_inv lib fdiv (m, pc)" "mempool_ok lib fdiv m'" "unique_txids m \<subseteq> unique_txids m'"
  shows "update_inv lib fdiv (m', pc)"
  using assms by (cases pc) (auto simp: update_inv_def)

lemma update_inv_step:
  assumes inv: "update_inv lib fdiv s" and rates: "rates_ok lib fdiv" and step: "mempool_step rk lib fdiv zero s t"
  shows "update_inv lib fdiv t"
  using step
proof cases
  case (list_txids m)
  then have "store_ok lib (mp_txstore m)" using inv by (simp add: update_inv_def mempool_ok_def)
  then show ?thesis using inv list_txids sorted_distinct_keys
    by (auto simp: update_inv_def unique_txids_def store_ok_def)
next
  case (ask_node m old all_txids)
  then show ?thesis using inv by (auto simp: update_inv_def txids_to_remove_def)
next
  case (removed r m m' a)
  then show ?thesis using inv mempool_remove_spec [of lib fdiv m r] by (auto simp: update_inv_def)
next
  case (remove_panics r m a)
  then show ?thesis using inv mempool_remove_spec [of lib fdiv m r] by (auto simp: update_inv_def)
next
  case (fetched cq now txs m m' a)
  then show ?thesis using inv finish_update_spec [OF _ rates fetched(3), of m zero now txs] by (auto simp: update_inv_def)
next
  case (add_panics cq now txs m a)
  then show ?thesis using inv finish_update_spec [OF _ rates add_panics(3), of m zero now txs] by (auto simp: update_inv_def)
next
  case (other_adds cq node txid pc m m' res)
  have "mempool_ok lib fdiv m" using inv other_adds(1) by (simp add: update_inv_def)
  note this [THEN add_by_txid_spec, OF other_adds(3,4,6)]
  then show ?thesis using update_inv_mono inv other_adds(1,2) by auto
qed (use inv in \<open>auto simp: update_inv_def\<close>)

interpretation mempool_threads: invariant_machine
  "(mempool_new zero config now, Idle)" "mempool_step rk lib fdiv zero" "\<lambda>s. rates_ok lib fdiv \<longrightarrow> update_inv lib fdiv s"
  for zero config now rk lib fdiv
proof
  show "rates_ok lib fdiv \<longrightarrow> update_inv lib fdiv (mempool_new zero config now, Idle)"
    by (simp add: update_inv_def mempool_new_ok)
qed (use update_inv_step in blast)

lemma history_transactions_total:
  assumes "set txids \<subseteq> unique_txids m"
  shows "is_ok (history_transactions m txids last_seen limit)"
proof -
  let ?page = "take limit (skip_seen (\<lambda>t. t) last_seen (unique_by (\<lambda>t. t) txids))"
  have "set ?page \<subseteq> set txids" by (meson set_take_subset skip_seen_subset unique_by_subset subset_trans)
  then have "map_of (mp_txstore m) t \<noteq> None" if "t \<in> set ?page" for t
    using that assms map_of_key [of t "mp_txstore m"] unfolding unique_txids_def set_map by blast
  then show ?thesis unfolding history_transactions_def is_ok_iff by (intro collect_out_ex) auto
qed

lemma mempool_history_total:
  assumes "mempool_ok lib fdiv m"
  shows "is_ok (mempool_history m sh last_seen limit)" "is_ok (mempool_history_group m shs last_seen limit)"
proof -
  have "hi_txid e \<in> unique_txids m" if "e \<in> set (history_entries m sh)" for e sh
    using assms that unfolding mempool_ok_def by blast
  then have sub: "hi_txid ` set (history_entries m sh) \<subseteq> unique_txids m" for sh by blast
  show "is_ok (mempool_history_group m shs last_seen limit)"
    unfolding mempool_history_group_def by (rule history_transactions_total) (use sub in auto)
  show "is_ok (mempool_history m sh last_seen limit)"
  proof (cases "mp_history m sh")
    case (Some es)
    then have "set (map hi_txid es) \<subseteq> unique_txids m" using sub [of sh] by (simp add: history_entries_def)
    then show ?thesis using Some history_transactions_total [of "map hi_txid es"] by (simp add: mempool_history_def)
  qed (simp add: mempool_history_def)
qed

lemma mempool_update_spec:
  assumes ok: "mempool_ok lib fdiv m" and rates: "rates_ok lib fdiv" and chain: "chain_txos_ok rk lib cq"
    and all: "mn_mempooltxids node = Ok all_txids"
    and txs: "mn_transactions node (txids_to_add (map fst (mp_txstore m)) all_txids) = Ok txs"
  shows "\<exists>m'. mempool_update rk lib fdiv zero now cq node m = (m', Ok ()) \<and> mempool_ok lib fdiv m'
    \<and> unique_txids m' = (unique_txids m \<inter> set all_txids) \<union> get_txid lib ` set txs
    \<and> indexed_txids m' = (indexed_txids m \<inter> set all_txids)
        \<union> {t \<in> get_txid lib ` set txs - (unique_txids m \<inter> set all_txids). parents_known rk lib cq m' (the (map_of (mp_txstore m') t))}"
proof -
  let ?r = "txids_to_remove (map fst (mp_txstore m)) all_txids"
  have so: "store_ok lib (mp_txstore m)" and iu: "indexed_txids m \<subseteq> unique_txids m" using ok unfolding mempool_ok_def by blast+
  have "distinct (map fst (mp_txstore m))" using so sorted_distinct_keys unfolding store_ok_def by blast
  then have d: "distinct ?r" by (simp add: txids_to_remove_def)
  have r: "set ?r = unique_txids m - set all_txids" by (auto simp: txids_to_remove_def unique_txids_def)
  obtain m1 where m1: "mempool_remove ?r m = Ok m1" "mempool_ok lib fdiv m1"
      "unique_txids m1 = unique_txids m - set ?r" "indexed_txids m1 = indexed_txids m - set ?r"
    using mempool_remove_spec [OF ok d] r by blast
  have u: "unique_txids m1 = unique_txids m \<inter> set all_txids" and i: "indexed_txids m1 = indexed_txids m \<inter> set all_txids"
    using m1(3,4) r iu by auto
  obtain m' where "finish_update rk lib fdiv zero now cq txs m1 = Ok m'" "mempool_ok lib fdiv m'"
      "unique_txids m' = unique_txids m1 \<union> get_txid lib ` set txs"
      "indexed_txids m' = indexed_txids m1 \<union> {t \<in> get_txid lib ` set txs - unique_txids m1.
         parents_known rk lib cq m' (the (map_of (mp_txstore m') t))}"
    using finish_update_spec [OF m1(2) rates chain, of zero now txs] by (elim exE conjE) (rule that)
  then show ?thesis unfolding u i using all txs m1(1) by (simp add: mempool_update_def Let_def)
qed

section \<open>A mempool with a transaction that came before its parent\<close>

definition demo_fdiv :: "u64 \<Rightarrow> u64 \<Rightarrow> nat f32" where
  "demo_fdiv a b = (if b = 0 then None else Some (unat a div unat b))"

definition demo_parent :: transaction where
  "demo_parent =
     \<lparr>tx_version = 1, tx_lock_time = 8, tx_input = [], tx_output = [\<lparr>txo_value = 50, txo_script_pubkey = [0x51]\<rparr>]\<rparr>"

definition demo_spender :: transaction where
  "demo_spender =
     \<lparr>tx_version = 1, tx_lock_time = 9,
      tx_input = [\<lparr>txi_previous_output = \<lparr>op_txid = demo_txid 8, op_vout = 0\<rparr>, txi_script_sig = [],
                   txi_sequence = 0, txi_witness = []\<rparr>],
      tx_output = [\<lparr>txo_value = 40, txo_script_pubkey = [0x52]\<rparr>]\<rparr>"

definition demo_mempool_config :: mempool_config where
  "demo_mempool_config = \<lparr>mc_recent_txs_size = 10, mc_backlog_stats_ttl = 10, mc_index_unspendables = False\<rparr>"

abbreviation demo_mempool :: "nat mempool" where
  "demo_mempool \<equiv> mempool_new 0 demo_mempool_config 0"

lemma demo_rates: "rates_ok demo_lib demo_fdiv"
  by (simp add: rates_ok_def demo_fdiv_def demo_lib_def)

lemma demo_chain_txo [simp]: "lookup_txo ref_rocks demo_lib [] pt = Ok None"
  by (simp add: lookup_txo_def db_get_def ref_rocks_def)

lemma demo_chain_txos: "chain_txos_ok ref_rocks demo_lib (demo_cq [] [])"
  by (simp add: chain_txos_ok_def)

lemma demo_ids_mempool [simp]: "get_txid demo_lib demo_parent = demo_txid 8" "get_txid demo_lib demo_spender = demo_txid 9"
  by (simp_all add: get_txid_def demo_parent_def demo_spender_def)

definition demo_mempool_node :: mempool_node where
  "demo_mempool_node =
     \<lparr>mn_mempooltxids = Ok [demo_txid 8, demo_txid 9], mn_transactions = (\<lambda>_. Ok [demo_parent]),
      mn_mempooltx = (\<lambda>_. Ok demo_spender)\<rparr>"

text \<open>The child alone is stored but not indexed.\<close>

lemma demo_skipped:
  "\<exists>m. add_by_txid ref_rocks demo_lib demo_fdiv (demo_cq [] []) demo_mempool_node demo_mempool (demo_txid 9)
       = (m, Err (Msg ''Unable to add to mempool''))
     \<and> mempool_ok demo_lib demo_fdiv m \<and> unique_txids m = {demo_txid 9} \<and> indexed_txids m = {}
     \<and> map_of (mp_txstore m) (demo_txid 9) = Some demo_spender"
proof -
  let ?m = "demo_mempool\<lparr>mp_txstore := [(demo_txid 9, demo_spender)]\<rparr>"
  have k: "known_txo ref_rocks demo_lib (demo_cq [] []) ?m \<lparr>op_txid = demo_txid 8, op_vout = 0\<rparr> = None"
    by (simp add: known_txo_def chain_txo_def mempool_txo_def)
  have i: "tx_input demo_spender = [\<lparr>txi_previous_output = \<lparr>op_txid = demo_txid 8, op_vout = 0\<rparr>, txi_script_sig = [],
      txi_sequence = 0, txi_witness = []\<rparr>]" by (simp add: demo_spender_def)
  have e: "extract_tx_prevouts demo_lib demo_spender txos = Err (Msg ''missing outpoint'')"
    if "txos \<lparr>op_txid = demo_txid 8, op_vout = 0\<rparr> = None" for txos
    using that by (simp add: extract_tx_prevouts_def i has_prevout_def)
  have "mempool_add ref_rocks demo_lib demo_fdiv (demo_cq [] []) demo_mempool [demo_spender] = Ok (?m, 0)"
    using k by (simp add: mempool_add_def get_prevouts_def Let_def mempool_new_def mempool_lookup_txos_total [OF demo_chain_txos] e)
  then have "add_by_txid ref_rocks demo_lib demo_fdiv (demo_cq [] []) demo_mempool_node demo_mempool (demo_txid 9)
       = (?m, Err (Msg ''Unable to add to mempool''))"
    by (simp add: add_by_txid_def demo_mempool_node_def mempool_new_def)
  moreover have "mempool_ok demo_lib demo_fdiv ?m"
    by (rule ok_bigger_store [OF mempool_new_ok]) (simp_all add: store_ok_def unique_txids_def mempool_new_def)
  ultimately show ?thesis by (simp add: unique_txids_def mempool_new_def)
qed

section \<open>Properties\<close>

text \<open>C17: in every state the mempool reaches, whatever the node answers and however the transactions added
  by other threads fall between the phases of an update, no thread has panicked, and the index is exact:
  the store is keyed by transaction id, every indexed transaction has its fee and precisely its own
  history entries, no entry or spend edge belongs to a transaction that left, and the recent list is
  capped. The history queries therefore never miss a transaction of the store.\<close>

theorem mempool_threads_safe:
  assumes "rates_ok lib fdiv"
    and "reach (mempool_new zero config now, Idle) (mempool_step rk lib fdiv zero) (m, pc)"
  shows "pc \<noteq> Crashed \<and> mempool_ok lib fdiv m
    \<and> is_ok (mempool_history m sh last_seen limit) \<and> is_ok (mempool_history_group m shs last_seen limit)"
proof -
  have "update_inv lib fdiv (m, pc)" using mempool_threads.reach_inv [OF assms(2)] assms(1) by blast
  then have "pc \<noteq> Crashed" "mempool_ok lib fdiv m" by (auto simp: update_inv_def)
  then show ?thesis using mempool_history_total by blast
qed

lemma demo_reach_mempool:
  "\<exists>m. reach (demo_mempool, Idle) (mempool_step ref_rocks demo_lib demo_fdiv 0) (m, Removing [] [])
     \<and> unique_txids m = {demo_txid 9}"
proof -
  let ?step = "mempool_step ref_rocks demo_lib demo_fdiv (0 :: nat)"
  obtain m where m: "add_by_txid ref_rocks demo_lib demo_fdiv (demo_cq [] []) demo_mempool_node demo_mempool (demo_txid 9)
       = (m, Err (Msg ''Unable to add to mempool''))" "unique_txids m = {demo_txid 9}"
    using demo_skipped by blast
  have "?step (demo_mempool, Idle) (demo_mempool, Listed (map fst (mp_txstore demo_mempool)))" by (rule mempool_step.list_txids)
  then have s1: "reach (demo_mempool, Idle) ?step (demo_mempool, Listed [])"
    by (auto simp: mempool_new_def intro: reach.reach_step reach.reach_init)
  have "?step (demo_mempool, Listed []) (m, if panics (Err (Msg ''Unable to add to mempool'') :: (error_kind, unit) outcome) then Crashed else Listed [])"
    by (rule mempool_step.other_adds [OF demo_chain_txos _ _ m(1)]) (simp_all add: demo_mempool_node_def)
  then have s2: "reach (demo_mempool, Idle) ?step (m, Listed [])" using s1 by (auto intro: reach.reach_step)
  have "?step (m, Listed []) (m, Removing (txids_to_remove [] []) (txids_to_add [] []))" by (rule mempool_step.ask_node)
  then have "reach (demo_mempool, Idle) ?step (m, Removing [] [])"
    using s2 by (auto simp: txids_to_remove_def txids_to_add_def intro: reach.reach_step)
  then show ?thesis using m(2) by blast
qed

theorem mempool_threads_safe_witness:
  "\<exists>m :: nat mempool. mempool_ok demo_lib demo_fdiv m \<and> is_ok (mempool_history m (demo_hash 1) None 10)
     \<and> unique_txids m = {demo_txid 9}"
proof -
  obtain m where m: "reach (demo_mempool, Idle) (mempool_step ref_rocks demo_lib demo_fdiv 0) (m, Removing [] [])"
      "unique_txids m = {demo_txid 9}" using demo_reach_mempool by blast
  from mempool_threads_safe [OF demo_rates m(1), of "demo_hash 1" None 10] m(2) show ?thesis by blast
qed

text \<open>C18: an update that no other thread interrupts makes the mempool follow the node. If the node
  delivers the transactions it was asked for, the store holds exactly the ids the node listed, what was
  indexed before stays indexed as long as it is listed, and a new transaction is indexed exactly when
  every output it spends is in the chain or in the mempool.\<close>

theorem update_follows_node:
  assumes "mempool_ok lib fdiv m" "rates_ok lib fdiv" "chain_txos_ok rk lib cq"
    and "mn_mempooltxids node = Ok all_txids"
    and "mn_transactions node (txids_to_add (map fst (mp_txstore m)) all_txids) = Ok txs"
    and "get_txid lib ` set txs = set all_txids - unique_txids m"
  shows "\<exists>m'. mempool_update rk lib fdiv zero now cq node m = (m', Ok ()) \<and> mempool_ok lib fdiv m'
    \<and> unique_txids m' = set all_txids
    \<and> indexed_txids m' = (indexed_txids m \<inter> set all_txids)
        \<union> {t \<in> set all_txids - unique_txids m. parents_known rk lib cq m' (the (map_of (mp_txstore m') t))}"
proof -
  obtain m' where m': "mempool_update rk lib fdiv zero now cq node m = (m', Ok ())" "mempool_ok lib fdiv m'"
      "unique_txids m' = (unique_txids m \<inter> set all_txids) \<union> get_txid lib ` set txs"
      "indexed_txids m' = (indexed_txids m \<inter> set all_txids)
        \<union> {t \<in> get_txid lib ` set txs - (unique_txids m \<inter> set all_txids). parents_known rk lib cq m' (the (map_of (mp_txstore m') t))}"
    using mempool_update_spec [OF assms(1-5), of zero now] by (elim exE conjE) (rule that)
  have "set all_txids - unique_txids m - unique_txids m \<inter> set all_txids = set all_txids - unique_txids m" by blast
  moreover have "(unique_txids m \<inter> set all_txids) \<union> (set all_txids - unique_txids m) = set all_txids" by blast
  ultimately show ?thesis using m' unfolding assms(6) by auto
qed

theorem update_follows_node_witness:
  "\<exists>m' :: nat mempool. mempool_update ref_rocks demo_lib demo_fdiv 0 5 (demo_cq [] [])
       (demo_mempool_node\<lparr>mn_transactions := \<lambda>_. Ok [demo_parent, demo_spender]\<rparr>) demo_mempool = (m', Ok ())
     \<and> unique_txids m' = {demo_txid 8, demo_txid 9}"
proof -
  have ids: "get_txid demo_lib ` set [demo_parent, demo_spender] = {demo_txid 8, demo_txid 9}" by simp
  have "\<exists>m'. mempool_update ref_rocks demo_lib demo_fdiv 0 5 (demo_cq [] [])
       (demo_mempool_node\<lparr>mn_transactions := \<lambda>_. Ok [demo_parent, demo_spender]\<rparr>) demo_mempool = (m', Ok ())
    \<and> mempool_ok demo_lib demo_fdiv m' \<and> unique_txids m' = set [demo_txid 8, demo_txid 9]
    \<and> indexed_txids m' = (indexed_txids demo_mempool \<inter> set [demo_txid 8, demo_txid 9])
        \<union> {t \<in> set [demo_txid 8, demo_txid 9] - unique_txids demo_mempool.
             parents_known ref_rocks demo_lib (demo_cq [] []) m' (the (map_of (mp_txstore m') t))}"
    by (rule update_follows_node [where txs = "[demo_parent, demo_spender]", OF mempool_new_ok demo_rates demo_chain_txos])
      (simp add: demo_mempool_node_def, simp, unfold ids, simp add: unique_txids_def mempool_new_def)
  then show ?thesis by (elim exE conjE) (simp add: exI)
qed

text \<open>C19: a transaction that was stored without being indexed, because an output it spends was unknown when
  it arrived, is not indexed by any later update as long as the node lists it, also when its parents
  have arrived: it stays without fee, without history entries and without spend edges.\<close>

theorem skipped_tx_never_indexed:
  assumes "mempool_ok lib fdiv m" "rates_ok lib fdiv" "chain_txos_ok rk lib cq"
    and "mn_mempooltxids node = Ok all_txids"
    and "mn_transactions node (txids_to_add (map fst (mp_txstore m)) all_txids) = Ok txs"
    and "t \<in> unique_txids m" "t \<notin> indexed_txids m" "t \<in> set all_txids"
  shows "\<exists>m'. mempool_update rk lib fdiv zero now cq node m = (m', Ok ())
    \<and> t \<in> unique_txids m' \<and> mempool_get_tx_fee m' t = None
    \<and> (\<forall>sh. t \<notin> hi_txid ` set (history_entries m' sh)) \<and> (\<forall>pt v. mp_edges m' pt \<noteq> Some (t, v))"
proof -
  obtain m' where m': "mempool_update rk lib fdiv zero now cq node m = (m', Ok ())" "mempool_ok lib fdiv m'"
      "unique_txids m' = (unique_txids m \<inter> set all_txids) \<union> get_txid lib ` set txs"
      "indexed_txids m' = (indexed_txids m \<inter> set all_txids)
        \<union> {t \<in> get_txid lib ` set txs - (unique_txids m \<inter> set all_txids). parents_known rk lib cq m' (the (map_of (mp_txstore m') t))}"
    using mempool_update_spec [OF assms(1-5), of zero now] by (elim exE conjE) (rule that)
  have t: "t \<notin> indexed_txids m'" "t \<in> unique_txids m'" using m'(3,4) assms(6-8) by auto
  have "mempool_get_tx_fee m' t = None" using t(1) map_of_key [of t "mp_feeinfo m'"] by (simp add: mempool_get_tx_fee_def)
  moreover have "\<forall>sh. t \<notin> hi_txid ` set (history_entries m' sh)" "\<forall>pt v. mp_edges m' pt \<noteq> Some (t, v)"
    using m'(2) t(1) unfolding mempool_ok_def by blast+
  ultimately show ?thesis using m'(1) t(2) by blast
qed

theorem skipped_tx_never_indexed_witness:
  "\<exists>m m' :: nat mempool.
     add_by_txid ref_rocks demo_lib demo_fdiv (demo_cq [] []) demo_mempool_node demo_mempool (demo_txid 9)
       = (m, Err (Msg ''Unable to add to mempool''))
     \<and> mempool_update ref_rocks demo_lib demo_fdiv 0 5 (demo_cq [] []) demo_mempool_node m = (m', Ok ())
     \<and> demo_txid 9 \<in> unique_txids m' \<and> mempool_get_tx_fee m' (demo_txid 9) = None"
proof -
  obtain m where m: "add_by_txid ref_rocks demo_lib demo_fdiv (demo_cq [] []) demo_mempool_node demo_mempool (demo_txid 9)
       = (m, Err (Msg ''Unable to add to mempool''))" "mempool_ok demo_lib demo_fdiv m" "unique_txids m = {demo_txid 9}"
      "indexed_txids m = {}" using demo_skipped by blast
  have n: "mn_mempooltxids demo_mempool_node = Ok [demo_txid 8, demo_txid 9]"
      "mn_transactions demo_mempool_node ts = Ok [demo_parent]" for ts by (simp_all add: demo_mempool_node_def)
  have "demo_txid 9 \<in> unique_txids m" "demo_txid 9 \<notin> indexed_txids m" using m(3,4) by simp_all
  from skipped_tx_never_indexed [OF m(2) demo_rates demo_chain_txos n this, of 0 5] m(1) show ?thesis by auto
qed

end
