(* ===== verification/Text_Json.thy ===== *)
theory Text_Json
  imports Chain_Types
begin

text \<open>
  What the interfaces use of the standard library's strings and of JSON values. A string is the list of
  its code points. A JSON number is an unsigned integer, a negative one or a float, as in
  \<open>serde_json::Value\<close>; floats are values of an arbitrary type. Parsing a JSON text is third-party code and
  an argument wherever it is used.
\<close>

section \<open>Text\<close>

type_synonym utext = "nat list"

definition lit :: "string \<Rightarrow> utext" where
  "lit s = map of_char s"

text \<open>\<open>char::is_whitespace\<close>, the Unicode property \<open>White_Space\<close>.\<close>

definition is_white :: "nat \<Rightarrow> bool" where
  "is_white c \<longleftrightarrow> (9 \<le> c \<and> c \<le> 13) \<or> c = 32 \<or> c = 133 \<or> c = 160 \<or> c = 5760 \<or> (8192 \<le> c \<and> c \<le> 8202)
     \<or> c = 8232 \<or> c = 8233 \<or> c = 8239 \<or> c = 8287 \<or> c = 12288"

definition trim :: "utext \<Rightarrow> utext" where
  "trim s = rev (dropWhile is_white (rev (dropWhile is_white s)))"

text \<open>\<open>str::len\<close>, the length in UTF-8.\<close>

definition utf8_len :: "utext \<Rightarrow> nat" where
  "utf8_len s = sum_list (map (\<lambda>c. if c < 128 then 1 else if c < 2048 then 2 else if c < 65536 then 3 else 4) s)"

text \<open>\<open>str::split\<close> at one character, and \<open>str::lines\<close>.\<close>

fun split_at :: "nat \<Rightarrow> utext \<Rightarrow> utext list" where
  "split_at c [] = [[]]"
| "split_at c (x # xs) =
     (if x = c then [] # split_at c xs
      else (case split_at c xs of [] \<Rightarrow> [[x]] | p # ps \<Rightarrow> (x # p) # ps))"

definition strip_cr :: "utext \<Rightarrow> utext" where
  "strip_cr l = (if l \<noteq> [] \<and> last l = 13 then butlast l else l)"

definition text_lines :: "utext \<Rightarrow> utext list" where
  "text_lines s =
     (let ls = split_at 10 s
      in map strip_cr (butlast ls) @ (if last ls = [] then [] else [last ls]))"

definition strip_prefix :: "utext \<Rightarrow> utext \<Rightarrow> utext option" where
  "strip_prefix p s = (if starts_with s p then Some (drop (length p) s) else None)"

definition ascii_lower :: "utext \<Rightarrow> utext" where
  "ascii_lower = map (\<lambda>c. if 65 \<le> c \<and> c \<le> 90 then c + 32 else c)"

definition eq_ignore_ascii_case :: "utext \<Rightarrow> utext \<Rightarrow> bool" where
  "eq_ignore_ascii_case a b \<longleftrightarrow> ascii_lower a = ascii_lower b"

definition hex_digit :: "nat \<Rightarrow> nat" where
  "hex_digit n = (if n < 10 then 48 + n else 87 + n)"

definition hex_encode :: "bytes \<Rightarrow> utext" where
  "hex_encode bs = concat (map (\<lambda>b. [hex_digit (unat b div 16), hex_digit (unat b mod 16)]) bs)"

definition ends_with :: "utext \<Rightarrow> utext \<Rightarrow> bool" where
  "ends_with s suffix \<longleftrightarrow> starts_with (rev s) (rev suffix)"

text \<open>The decimal digits of a number, and \<open>str::parse\<close> for \<open>usize\<close>.\<close>

fun show_nat :: "nat \<Rightarrow> utext" where
  "show_nat n = (if n < 10 then [48 + n] else show_nat (n div 10) @ [48 + n mod 10])"

declare show_nat.simps [simp del]

fun parse_digits :: "nat \<Rightarrow> utext \<Rightarrow> nat option" where
  "parse_digits n [] = Some n"
| "parse_digits n (c # cs) =
     (if 48 \<le> c \<and> c \<le> 57 \<and> n * 10 + (c - 48) < 2 ^ 64 then parse_digits (n * 10 + (c - 48)) cs else None)"

definition parse_usize :: "utext \<Rightarrow> nat option" where
  "parse_usize s =
     (let digits = (if starts_with s (lit ''+'') then drop 1 s else s)
      in if digits = [] then None else parse_digits 0 digits)"

section \<open>JSON\<close>

datatype 'f json_number = PosInt nat | NegInt int | Float 'f

datatype 'f json =
    JNull
  | JBool bool
  | JNumber "'f json_number"
  | JString utext
  | JArray "'f json list"
  | JObject "(utext \<times> 'f json) list"

fun json_get :: "'f json \<Rightarrow> utext \<Rightarrow> 'f json option" where
  "json_get (JObject members) key = map_of members key"
| "json_get _ key = None"

fun as_u64 :: "'f json \<Rightarrow> nat option" where
  "as_u64 (JNumber (PosInt n)) = Some n"
| "as_u64 _ = None"

fun as_bool :: "'f json \<Rightarrow> bool option" where
  "as_bool (JBool b) = Some b"
| "as_bool _ = None"

fun as_str :: "'f json \<Rightarrow> utext option" where
  "as_str (JString s) = Some s"
| "as_str _ = None"

fun as_array :: "'f json \<Rightarrow> 'f json list option" where
  "as_array (JArray a) = Some a"
| "as_array _ = None"

section \<open>Text lemmas\<close>

lemma trim_idem: "trim (trim s) = trim s"
proof -
  have drop: "dropWhile P (dropWhile P xs) = dropWhile P xs" for P and xs :: "nat list"
    by (simp add: dropWhile_idem)
  let ?a = "dropWhile is_white s"
  have "dropWhile is_white (trim s) = trim s"
  proof (cases "trim s")
    case (Cons c cs)
    have "\<exists>zs. ?a = trim s @ zs"
      unfolding trim_def by (metis rev_rev_ident rev_append takeWhile_dropWhile_id)
    then obtain zs where a: "?a = c # cs @ zs" using Cons by auto
    have "\<not> is_white (hd ?a)" by (rule hd_dropWhile) (simp add: a)
    then have "\<not> is_white c" by (simp add: a)
    then show ?thesis using Cons by simp
  qed simp
  then have "trim (trim s) = rev (dropWhile is_white (rev (trim s)))" by (simp add: trim_def)
  also have "rev (trim s) = dropWhile is_white (rev ?a)" by (simp add: trim_def)
  finally show ?thesis using drop by (simp add: trim_def)
qed

lemma trimmed_no_white:
  assumes "\<forall>c\<in>set s. \<not> is_white c"
  shows "trim s = s"
proof -
  have "dropWhile is_white xs = xs" if "\<forall>c\<in>set xs. \<not> is_white c" for xs using that by (cases xs) auto
  from this [of s] this [of "rev s"] show ?thesis using assms by (simp add: trim_def)
qed

lemma split_at_nonempty [simp]: "split_at c s \<noteq> []"
  by (induction s) (auto split: list.splits)

lemma split_at_none: "c \<notin> set s \<Longrightarrow> split_at c s = [s]"
  by (induction s) auto

lemma split_at_sep: "c \<notin> set a \<Longrightarrow> split_at c (a @ c # b) = a # split_at c b"
  by (induction a) auto

text \<open>The lines of a text written line by line.\<close>

definition unlines :: "utext list \<Rightarrow> utext" where
  "unlines ls = concat (map (\<lambda>l. l @ [10]) ls)"

definition line_ok :: "utext \<Rightarrow> bool" where
  "line_ok l \<longleftrightarrow> 10 \<notin> set l \<and> (l = [] \<or> last l \<noteq> 13)"

lemma split_unlines: "\<forall>l\<in>set ls. 10 \<notin> set l \<Longrightarrow> split_at 10 (unlines ls) = ls @ [[]]"
  by (induction ls) (auto simp: unlines_def split_at_sep)

lemma text_lines_unlines:
  assumes "\<forall>l\<in>set ls. line_ok l"
  shows "text_lines (unlines ls) = ls"
proof -
  have "\<forall>l\<in>set ls. 10 \<notin> set l" using assms by (simp add: line_ok_def)
  moreover have "map strip_cr ls = ls" using assms by (intro map_idI) (auto simp: strip_cr_def line_ok_def)
  ultimately show ?thesis by (simp add: text_lines_def Let_def split_unlines)
qed

lemma text_lines_ok: "\<forall>l\<in>set (map strip_cr ls). 10 \<notin> set l" if "\<forall>l\<in>set ls. 10 \<notin> set l"
  using that by (auto simp: strip_cr_def dest: in_set_butlastD)

section \<open>White space\<close>

definition rtrim :: "utext \<Rightarrow> utext" where
  "rtrim s = rev (dropWhile is_white (rev s))"

lemma dropWhile_white: "\<forall>c\<in>set w. is_white c \<Longrightarrow> dropWhile is_white (w @ s) = dropWhile is_white s"
  by (induction w) auto

lemma rtrim_white: "\<forall>c\<in>set w. is_white c \<Longrightarrow> rtrim (s @ w) = rtrim s"
  unfolding rtrim_def using dropWhile_white [of "rev w" "rev s"] by simp

lemma rtrim_keep: "\<not> is_white c \<Longrightarrow> rtrim (s @ c # t) = s @ c # rtrim t"
proof (induction t rule: rev_induct)
  case (snoc x t)
  then show ?case
  proof (cases "is_white x")
    case True
    have "rtrim ((s @ c # t) @ [x]) = rtrim (s @ c # t)" "rtrim (t @ [x]) = rtrim t"
      using True by (intro rtrim_white; simp)+
    then show ?thesis using snoc by simp
  qed (simp add: rtrim_def)
qed (simp add: rtrim_def)

lemma trim_rtrim: "trim s = rtrim (dropWhile is_white s)"
  by (simp add: trim_def rtrim_def)

text \<open>White space around a text that starts and ends with other characters.\<close>

lemma white_split:
  obtains "\<forall>c\<in>set s. is_white c" | w c t where "s = w @ c # t" "\<forall>c\<in>set w. is_white c" "\<not> is_white c"
proof (cases "dropWhile is_white s")
  case Nil
  then show ?thesis using that(1) by (simp add: dropWhile_eq_Nil_conv)
next
  case (Cons c t)
  then have "s = takeWhile is_white s @ c # t" by (metis takeWhile_dropWhile_id)
  moreover have "\<forall>c\<in>set (takeWhile is_white s). is_white c" by (meson set_takeWhileD)
  moreover have "\<not> is_white c" using Cons by (metis dropWhile_eq_Cons_conv)
  ultimately show ?thesis using that(2) by blast
qed

lemma trim_shape: "\<forall>c\<in>set w. is_white c \<Longrightarrow> \<not> is_white c \<Longrightarrow> trim (w @ c # t) = c # rtrim t"
  using rtrim_keep [of c "[]" t] by (simp add: trim_rtrim dropWhile_white)

lemma trim_all_white: "\<forall>c\<in>set s. is_white c \<Longrightarrow> trim s = []"
  unfolding trim_def by (metis dropWhile_eq_Nil_conv dropWhile.simps(1) rev.simps(1))

lemma trim_of_rtrim: "trim (rtrim s) = trim s"
proof (rule white_split [of s])
  assume "\<forall>c\<in>set s. is_white c"
  then have "rtrim s = []" "trim s = []" using rtrim_white [of s "[]"] by (simp_all add: trim_all_white rtrim_def)
  then show ?thesis by (simp add: trim_def)
next
  fix w c t assume s: "s = w @ c # t" "\<forall>c\<in>set w. is_white c" "\<not> is_white c"
  have "rtrim (rtrim t) = rtrim t" by (simp add: rtrim_def dropWhile_idem)
  then show ?thesis unfolding s(1) rtrim_keep [OF s(3)] trim_shape [OF s(2,3)] by simp
qed

lemma trim_strip_cr: "trim (strip_cr s) = trim s"
proof (cases "s \<noteq> [] \<and> last s = 13")
  case True
  then have s: "s = butlast s @ [13]" by (metis append_butlast_last_id)
  have "rtrim (butlast s @ [13]) = rtrim (butlast s)" by (rule rtrim_white) (simp add: is_white_def)
  then have "trim s = trim (butlast s)" using trim_of_rtrim [of s] trim_of_rtrim [of "butlast s"] s by metis
  then show ?thesis using True by (simp add: strip_cr_def)
next
  case False
  then have "strip_cr s = s" by (auto simp: strip_cr_def)
  then show ?thesis by simp
qed

lemma trim_subset: "set (trim s) \<subseteq> set s"
  unfolding trim_def by (metis set_dropWhileD set_rev subsetI)

lemma split_at_parts: "p \<in> set (split_at c s) \<Longrightarrow> c \<notin> set p \<and> set p \<subseteq> set s"
  by (induction s arbitrary: p) (fastforce split: if_splits list.splits)+

lemma split_at_append: "split_at c (a @ c # b) = split_at c a @ split_at c b"
proof (induction a)
  case (Cons x a)
  then show ?case by (cases "split_at c a") (auto split: list.splits)
qed simp

lemma split_at_prefix: "c \<notin> set a \<Longrightarrow> split_at c (a @ b) = (a @ hd (split_at c b)) # tl (split_at c b)"
proof (induction a)
  case Nil
  then show ?case by (simp add: hd_Cons_tl [symmetric] del: hd_Cons_tl)
qed simp

lemma text_lines_append: "text_lines (a @ 10 # b) = map strip_cr (split_at 10 a) @ text_lines b"
  by (simp add: text_lines_def Let_def split_at_append butlast_append)

lemma text_lines_clean: "l \<in> set (text_lines t) \<Longrightarrow> 10 \<notin> set l"
  using split_at_parts [of _ 10 t]
  by (auto simp: text_lines_def Let_def strip_cr_def dest: in_set_butlastD split: if_splits)

section \<open>Numbers\<close>

lemma parse_digits_append: "parse_digits n (a @ b) = Option.bind (parse_digits n a) (\<lambda>m. parse_digits m b)"
  by (induction n a rule: parse_digits.induct) auto

lemma show_nat_digits: "c \<in> set (show_nat n) \<Longrightarrow> 48 \<le> c \<and> c \<le> 57"
proof (induction n rule: show_nat.induct)
  case (1 n)
  have m: "n mod 10 < 10" by simp
  show ?case using 1 m by (subst (asm) (2) show_nat.simps) (auto split: if_splits)
qed

lemma show_nat_nonempty [simp]: "show_nat n \<noteq> []"
  by (subst show_nat.simps) simp

lemma parse_digits_show: "n < 2 ^ 64 \<Longrightarrow> parse_digits 0 (show_nat n) = Some n"
proof (induction n rule: show_nat.induct)
  case (1 n)
  show ?case
  proof (cases "n < 10")
    case True
    then show ?thesis by (subst show_nat.simps) simp
  next
    case False
    have "n div 10 < 2 ^ 64" using 1(2) by (meson div_le_dividend le_less_trans)
    then have "parse_digits 0 (show_nat (n div 10)) = Some (n div 10)" using 1 False by blast
    moreover have "n div 10 * 10 + n mod 10 = n" "n mod 10 < 10" by simp_all
    ultimately show ?thesis using 1(2) False by (subst show_nat.simps) (simp add: parse_digits_append)
  qed
qed

lemma parse_usize_show: "n < 2 ^ 64 \<Longrightarrow> parse_usize (show_nat n) = Some n"
proof -
  assume n: "n < 2 ^ 64"
  have "\<not> starts_with (show_nat n) (lit ''+'')"
    using show_nat_digits [of "hd (show_nat n)" n] by (cases "show_nat n") (auto simp: starts_with_iff lit_def)
  then show ?thesis using n by (simp add: parse_usize_def parse_digits_show)
qed

end
