(* ===== verification/Query.thy ===== *)
theory Query
  imports Mempool Text_Json
begin

text \<open>
  The queries the interfaces call (\<^verbatim>\<open>src/new_index/query.rs\<close>): the chain and the mempool seen as one, and the
  two caches of fee rates. The lock around a cache only orders its readers and writers, so a query is a
  function of the state that returns the state it leaves. Times are seconds; fee rates are values of an
  arbitrary type.
\<close>

section \<open>The code\<close>

definition FEE_ESTIMATES_TTL :: int where
  "FEE_ESTIMATES_TTL = 60"

definition CONF_TARGETS :: "nat list" where
  "CONF_TARGETS = [1, 2, 3, 4, 5, 6, 7, 8, 9, 10, 11, 12, 13, 14, 15, 16, 17, 18, 19, 20, 21, 22, 23, 24, 25,
                   144, 504, 1008]"

record transaction_status =
  ts_confirmed :: bool
  ts_block_height :: "nat option"
  ts_block_hash :: "hash option"
  ts_block_time :: "u32 option"

record ('d, 'f, 'g) query =
  q_chain :: "'d chain_query"
  q_mempool :: "'f mempool"
  q_network :: network
  q_utxos_limit :: nat
  q_cached_estimates :: "(nat \<rightharpoonup> 'g) \<times> int option"
  q_cached_relayfee :: "'g option"

text \<open>What a query asks of the node.\<close>

record 'g query_node =
  qn_mempool :: mempool_node
  qn_broadcast :: "utext \<Rightarrow> (error_kind, hash) outcome"
  qn_estimates :: "nat list \<Rightarrow> (error_kind, nat \<rightharpoonup> 'g) outcome"
  qn_relayfee :: "(error_kind, 'g) outcome"

definition query_new :: "'d chain_query \<Rightarrow> 'f mempool \<Rightarrow> network \<Rightarrow> nat \<Rightarrow> ('d, 'f, 'g) query" where
  "query_new chain mempool net utxos_limit =
     \<lparr>q_chain = chain, q_mempool = mempool, q_network = net, q_utxos_limit = utxos_limit,
      q_cached_estimates = (Map.empty, None), q_cached_relayfee = None\<rparr>"

definition transaction_status_from :: "block_id option \<Rightarrow> transaction_status" where
  "transaction_status_from blockid =
     (case blockid of
        Some b \<Rightarrow> \<lparr>ts_confirmed = True, ts_block_height = Some (bid_height b), ts_block_hash = Some (bid_hash b),
                   ts_block_time = Some (bid_time b)\<rparr>
      | None \<Rightarrow> \<lparr>ts_confirmed = False, ts_block_height = None, ts_block_hash = None, ts_block_time = None\<rparr>)"

text \<open>A broadcast that succeeds is reported even if the transaction cannot be added to the mempool.\<close>

definition broadcast_raw ::
  "'d rocks \<Rightarrow> bitcoin_lib \<Rightarrow> (u64 \<Rightarrow> u64 \<Rightarrow> 'f f32) \<Rightarrow> 'g query_node \<Rightarrow> ('d, 'f, 'g) query \<Rightarrow> utext
    \<Rightarrow> (error_kind, hash \<times> ('d, 'f, 'g) query) outcome"
where
  "broadcast_raw rk lib fdiv node q txhex =
     bind_out (qn_broadcast node txhex) (\<lambda>txid.
       case add_by_txid rk lib fdiv (q_chain q) (qn_mempool node) (q_mempool q) txid of
         (m, Panic s) \<Rightarrow> Panic s
       | (m, _) \<Rightarrow> Ok (txid, q\<lparr>q_mempool := m\<rparr>))"

definition query_utxo ::
  "'d rocks \<Rightarrow> bitcoin_lib \<Rightarrow> ('d, 'f, 'g) query \<Rightarrow> bytes \<Rightarrow> (error_kind, utxo_entry list \<times> ('d, 'f, 'g) query) outcome"
where
  "query_utxo rk lib q scripthash =
     map_out
       (\<lambda>(utxos, cq).
          (filter (\<lambda>u. \<not> has_spend (q_mempool q) (outpoint_of_utxo u)) utxos @ mempool_utxo (q_mempool q) scripthash,
           q\<lparr>q_chain := cq\<rparr>))
       (utxo rk lib (q_chain q) scripthash (q_utxos_limit q) Enable)"

text \<open>\<open>limit - confirmed_len\<close> on \<open>usize\<close>.\<close>

definition usize_sub :: "nat \<Rightarrow> nat \<Rightarrow> nat" where
  "usize_sub a b = (if b \<le> a then a - b else 2 ^ 64 + a - b)"

definition query_history_txids ::
  "'d rocks \<Rightarrow> ('d, 'f, 'g) query \<Rightarrow> bytes \<Rightarrow> nat \<Rightarrow> (error_kind, (hash \<times> block_id option) list) outcome"
where
  "query_history_txids rk q scripthash limit =
     map_out
       (\<lambda>confirmed_txids.
          map (\<lambda>(tx, b). (tx, Some b)) confirmed_txids
          @ map (\<lambda>tx. (tx, None))
              (mempool_history_txids (q_mempool q) scripthash (usize_sub limit (length confirmed_txids))))
       (history_txids rk (q_chain q) scripthash limit)"

definition query_stats ::
  "'d rocks \<Rightarrow> bitcoin_lib \<Rightarrow> ('d, 'f, 'g) query \<Rightarrow> bytes
    \<Rightarrow> (error_kind, (script_stats \<times> script_stats) \<times> ('d, 'f, 'g) query) outcome"
where
  "query_stats rk lib q scripthash =
     map_out (\<lambda>(st, cq). ((st, mempool_stats (q_mempool q) scripthash), q\<lparr>q_chain := cq\<rparr>))
       (stats rk lib (q_chain q) scripthash Enable)"

definition or_else :: "('e, 'a option) outcome \<Rightarrow> 'a option \<Rightarrow> ('e, 'a option) outcome" where
  "or_else a b = map_out (\<lambda>r. case r of Some x \<Rightarrow> Some x | None \<Rightarrow> b) a"

definition query_lookup_txn ::
  "'d rocks \<Rightarrow> bitcoin_lib \<Rightarrow> ('d, 'f, 'g) query \<Rightarrow> hash \<Rightarrow> (error_kind, transaction option) outcome"
where
  "query_lookup_txn rk lib q txid =
     or_else (lookup_txn rk lib (q_chain q) txid None) (mempool_lookup_txn (q_mempool q) txid)"

definition query_lookup_raw_txn ::
  "'d rocks \<Rightarrow> bitcoin_lib \<Rightarrow> ('d, 'f, 'g) query \<Rightarrow> hash \<Rightarrow> (error_kind, bytes option) outcome"
where
  "query_lookup_raw_txn rk lib q txid =
     or_else (lookup_raw_txn rk (q_chain q) txid None) (mempool_lookup_raw_txn lib (q_mempool q) txid)"

definition query_lookup_txos ::
  "'d rocks \<Rightarrow> bitcoin_lib \<Rightarrow> ('d, 'f, 'g) query \<Rightarrow> out_point list \<Rightarrow> (error_kind, out_point \<rightharpoonup> tx_out) outcome"
where
  "query_lookup_txos rk lib q outpoints = mempool_lookup_txos rk lib (q_chain q) (q_mempool q) outpoints"

definition query_lookup_spend ::
  "'d rocks \<Rightarrow> ('d, 'f, 'g) query \<Rightarrow> out_point \<Rightarrow> (error_kind, spending_input option) outcome"
where
  "query_lookup_spend rk q outpoint =
     or_else (lookup_spend rk (q_chain q) outpoint) (mempool_lookup_spend (q_mempool q) outpoint)"

definition lookup_tx_spends ::
  "'d rocks \<Rightarrow> bitcoin_lib \<Rightarrow> ('d, 'f, 'g) query \<Rightarrow> transaction \<Rightarrow> (error_kind, spending_input option list) outcome"
where
  "lookup_tx_spends rk lib q tx =
     collect_out
       (\<lambda>(vout, txout).
          if is_spendable lib txout
          then query_lookup_spend rk q \<lparr>op_txid = get_txid lib tx, op_vout = word_of_nat vout\<rparr>
          else Ok None)
       (enumerate 0 (tx_output tx))"

definition get_tx_status ::
  "'d rocks \<Rightarrow> ('d, 'f, 'g) query \<Rightarrow> hash \<Rightarrow> (error_kind, transaction_status) outcome"
where
  "get_tx_status rk q txid = map_out transaction_status_from (tx_confirming_block rk (q_chain q) txid)"

definition get_mempool_tx_fee :: "('d, 'f, 'g) query \<Rightarrow> hash \<Rightarrow> u64 option" where
  "get_mempool_tx_fee q txid = mempool_get_tx_fee (q_mempool q) txid"

definition query_has_unconfirmed_parents :: "('d, 'f, 'g) query \<Rightarrow> hash \<Rightarrow> bool" where
  "query_has_unconfirmed_parents q txid = has_unconfirmed_parents (q_mempool q) txid"

definition get_relayfee ::
  "'g query_node \<Rightarrow> ('d, 'f, 'g) query \<Rightarrow> (error_kind, 'g) outcome \<times> ('d, 'f, 'g) query"
where
  "get_relayfee node q =
     (case q_cached_relayfee q of
        Some cached \<Rightarrow> (Ok cached, q)
      | None \<Rightarrow>
          (case qn_relayfee node of
             Ok relayfee \<Rightarrow> (Ok relayfee, q\<lparr>q_cached_relayfee := Some relayfee\<rparr>)
           | r \<Rightarrow> (r, q)))"

definition update_fee_estimates ::
  "'g query_node \<Rightarrow> int \<Rightarrow> ('d, 'f, 'g) query \<Rightarrow> (error_kind, ('d, 'f, 'g) query) outcome"
where
  "update_fee_estimates node now q =
     (case qn_estimates node CONF_TARGETS of
        Ok estimates \<Rightarrow> Ok (q\<lparr>q_cached_estimates := (estimates, Some now)\<rparr>)
      | Err _ \<Rightarrow> Ok q
      | Panic s \<Rightarrow> Panic s)"

definition estimates_fresh :: "int \<Rightarrow> ('d, 'f, 'g) query \<Rightarrow> bool" where
  "estimates_fresh now q =
     (case snd (q_cached_estimates q) of
        Some cache_time \<Rightarrow> now - cache_time < FEE_ESTIMATES_TTL
      | None \<Rightarrow> False)"

definition estimate_fee_map ::
  "'g query_node \<Rightarrow> int \<Rightarrow> ('d, 'f, 'g) query \<Rightarrow> (error_kind, (nat \<rightharpoonup> 'g) \<times> ('d, 'f, 'g) query) outcome"
where
  "estimate_fee_map node now q =
     (if estimates_fresh now q then Ok (fst (q_cached_estimates q), q)
      else map_out (\<lambda>q'. (fst (q_cached_estimates q'), q')) (update_fee_estimates node now q))"

definition estimate_fee ::
  "'g query_node \<Rightarrow> int \<Rightarrow> ('d, 'f, 'g) query \<Rightarrow> nat \<Rightarrow> (error_kind, 'g option \<times> ('d, 'f, 'g) query) outcome"
where
  "estimate_fee node now q conf_target =
     (if is_regtest (q_network q) then
        (case get_relayfee node q of
           (Ok r, q') \<Rightarrow> Ok (Some r, q')
         | (Err _, q') \<Rightarrow> Ok (None, q')
         | (Panic s, _) \<Rightarrow> Panic s)
      else if estimates_fresh now q then Ok (fst (q_cached_estimates q) conf_target, q)
      else map_out (\<lambda>q'. (fst (q_cached_estimates q') conf_target, q')) (update_fee_estimates node now q))"

section \<open>Limits\<close>

text \<open>The mempool part of the history never exceeds what the confirmed part leaves of the limit.\<close>

lemma query_history_limit:
  assumes "query_history_txids rk q scripthash limit = Ok txids"
  shows "length txids \<le> limit"
proof -
  obtain cs where cs: "history_txids rk (q_chain q) scripthash limit = Ok cs"
      "txids = map (\<lambda>(tx, b). (tx, Some b)) cs
         @ map (\<lambda>tx. (tx, None)) (mempool_history_txids (q_mempool q) scripthash (usize_sub limit (length cs)))"
    using assms by (auto simp: query_history_txids_def)
  have "length cs \<le> limit" using cs(1) by (auto simp: history_txids_def)
  moreover have "length (mempool_history_txids m sh n) \<le> n" for m :: "'b mempool" and sh n
    by (simp add: mempool_history_txids_def split: option.splits)
  then have "length (mempool_history_txids (q_mempool q) scripthash (usize_sub limit (length cs))) \<le> usize_sub limit (length cs)" .
  ultimately show ?thesis unfolding cs(2) by (simp add: usize_sub_def)
qed

section \<open>Fee estimates\<close>

text \<open>Estimates are asked for at most once a minute: what a fresh cache answers does not depend on the node.\<close>

lemma fresh_estimates:
  assumes "update_fee_estimates node now q = Ok q'" "is_ok (qn_estimates node CONF_TARGETS)"
    and "now \<le> later" "later < now + FEE_ESTIMATES_TTL"
  shows "estimate_fee_map node' later q' = Ok (fst (q_cached_estimates q'), q')"
proof -
  have "estimates_fresh later q'"
    using assms by (auto simp: update_fee_estimates_def estimates_fresh_def is_ok_iff)
  then show ?thesis by (simp add: estimate_fee_map_def)
qed

section \<open>Properties\<close>

lemma mempool_utxo_exact:
  "u \<in> set (mempool_utxo m sh) \<longleftrightarrow>
     ux_confirmed u = None \<and> \<not> has_spend m (outpoint_of_utxo u)
     \<and> Funding \<lparr>fu_txid = ux_txid u, fu_vout = ux_vout u, fu_value = ux_value u\<rparr> \<in> set (history_entries m sh)"
proof (cases "mp_history m sh")
  case None
  then show ?thesis by (simp add: mempool_utxo_def history_entries_def)
next
  case (Some es)
  let ?f = "\<lambda>entry. case entry of
      Funding info \<Rightarrow> Some \<lparr>ux_txid = fu_txid info, ux_vout = fu_vout info, ux_confirmed = None, ux_value = fu_value info\<rparr>
    | Spending _ \<Rightarrow> None"
  have "(\<exists>e\<in>set es. ?f e = Some u) \<longleftrightarrow>
      ux_confirmed u = None \<and> Funding \<lparr>fu_txid = ux_txid u, fu_vout = ux_vout u, fu_value = ux_value u\<rparr> \<in> set es"
  proof
    assume "\<exists>e\<in>set es. ?f e = Some u"
    then obtain e where e: "e \<in> set es" "?f e = Some u" by blast
    from e(2) obtain i where i: "e = Funding i" by (cases e) auto
    then have "ux_confirmed u = None" "i = \<lparr>fu_txid = ux_txid u, fu_vout = ux_vout u, fu_value = ux_value u\<rparr>" using e(2) by auto
    then show "ux_confirmed u = None \<and> Funding \<lparr>fu_txid = ux_txid u, fu_vout = ux_vout u, fu_value = ux_value u\<rparr> \<in> set es"
      using e(1) i by simp
  next
    assume "ux_confirmed u = None \<and> Funding \<lparr>fu_txid = ux_txid u, fu_vout = ux_vout u, fu_value = ux_value u\<rparr> \<in> set es"
    then show "\<exists>e\<in>set es. ?f e = Some u" by (intro bexI [where x = "Funding \<lparr>fu_txid = ux_txid u, fu_vout = ux_vout u, fu_value = ux_value u\<rparr>"]) auto
  qed
  then show ?thesis using Some by (simp add: mempool_utxo_def history_entries_def in_map_filter) blast
qed

text \<open>C20: the unspent outputs of a script as the interfaces show them. They are the confirmed ones that no
  mempool transaction spends, and those funded by an indexed mempool transaction that none spends; the
  mempool is left as it was and the chain's cache stays valid.\<close>

theorem unspent_view_exact:
  assumes "index_ok rk kv lib (q_chain q) sh" "hash_serde lib" "utxo_cache_valid rk kv lib (q_chain q) sh"
    and "confirmed_history rk (q_chain q) sh 0 = Ok hs" and "q_utxos_limit q < 2 ^ 64"
    and "\<forall>k<length hs. length (utxo_fold [] (take (Suc k) hs)) \<le> q_utxos_limit q
           \<and> Suc k \<le> q_utxos_limit q * 500 mod 2 ^ 64"
  shows "\<exists>us q'. query_utxo rk lib q sh = Ok (us, q')
    \<and> (\<forall>u. u \<in> set us \<longleftrightarrow> \<not> has_spend (q_mempool q) (outpoint_of_utxo u)
         \<and> ((\<exists>hist b info. last_event hs (outpoint_of_utxo u) = Some (hist, b) \<and> thk_txinfo hist = Funding info
               \<and> ux_confirmed u = Some b \<and> ux_value u = fu_value info)
            \<or> (ux_confirmed u = None
               \<and> Funding \<lparr>fu_txid = ux_txid u, fu_vout = ux_vout u, fu_value = ux_value u\<rparr>
                   \<in> set (history_entries (q_mempool q) sh))))
    \<and> q_mempool q' = q_mempool q \<and> utxo_cache_valid rk kv lib (q_chain q') sh"
proof -
  have run: "apply_utxo_delta [] hs (q_utxos_limit q) = Ok (utxo_fold [] hs, last_block hs, length hs)"
    unfolding apply_utxo_delta_Ok_iff using assms(6) by blast
  obtain cq' where cq': "utxo rk lib (q_chain q) sh (q_utxos_limit q) Enable = Ok (utxo_entries (utxo_fold [] hs), cq')"
      "utxo_cache_valid rk kv lib cq' sh"
    using utxo_correct [OF assms(1-4) run assms(5), of Enable] by auto
  let ?us = "filter (\<lambda>u. \<not> has_spend (q_mempool q) (outpoint_of_utxo u)) (utxo_entries (utxo_fold [] hs)) @ mempool_utxo (q_mempool q) sh"
  have q: "query_utxo rk lib q sh = Ok (?us, q\<lparr>q_chain := cq'\<rparr>)" using cq'(1) by (simp add: query_utxo_def)
  show ?thesis
  proof (intro exI conjI allI, rule q)
    show "u \<in> set ?us \<longleftrightarrow> \<not> has_spend (q_mempool q) (outpoint_of_utxo u)
         \<and> ((\<exists>hist b info. last_event hs (outpoint_of_utxo u) = Some (hist, b) \<and> thk_txinfo hist = Funding info
               \<and> ux_confirmed u = Some b \<and> ux_value u = fu_value info)
            \<or> (ux_confirmed u = None
               \<and> Funding \<lparr>fu_txid = ux_txid u, fu_vout = ux_vout u, fu_value = ux_value u\<rparr>
                   \<in> set (history_entries (q_mempool q) sh)))" for u
      unfolding set_append Un_iff set_filter mem_Collect_eq utxo_entries_exact mempool_utxo_exact by blast
  qed (use cq'(2) in simp_all)
qed

definition demo_query :: "((bytes \<times> bytes) list, nat, nat) query" where
  "demo_query = query_new demo_balance_cq demo_mempool Bitcoin 10"

lemma demo_query_sel: "q_chain demo_query = demo_balance_cq" "q_mempool demo_query = demo_mempool" "q_utxos_limit demo_query = 10"
  by (simp_all add: demo_query_def query_new_def)

theorem unspent_view_exact_witness:
  "\<exists>us q'. query_utxo ref_rocks demo_lib demo_query demo_sh = Ok (us, q')
     \<and> \<lparr>ux_txid = demo_txid 9, ux_vout = 0, ux_confirmed = Some demo_blockid, ux_value = 5\<rparr> \<in> set us"
proof -
  let ?hs = "[(demo_history_row 0, demo_blockid)]"
  let ?u = "\<lparr>ux_txid = demo_txid 9, ux_vout = 0, ux_confirmed = Some demo_blockid, ux_value = 5\<rparr>"
  have v: "utxo_cache_valid ref_rocks map_of demo_lib (q_chain demo_query) demo_sh" by (simp add: utxo_cache_valid_def demo_query_sel)
  have lim: "\<forall>k<length ?hs. length (utxo_fold [] (take (Suc k) ?hs)) \<le> q_utxos_limit demo_query
      \<and> Suc k \<le> q_utxos_limit demo_query * 500 mod 2 ^ 64"
    by (simp add: map_remove_def history_new_def demo_query_sel)
  have ix: "index_ok ref_rocks map_of demo_lib (q_chain demo_query) demo_sh"
    and hs: "confirmed_history ref_rocks (q_chain demo_query) demo_sh 0 = Ok ?hs"
    and l64: "q_utxos_limit demo_query < 2 ^ 64"
    using demo_index_ok demo_balance_history by (simp_all only: demo_query_sel) simp
  obtain us q' where us: "query_utxo ref_rocks demo_lib demo_query demo_sh = Ok (us, q')"
      "\<forall>u. u \<in> set us \<longleftrightarrow> \<not> has_spend (q_mempool demo_query) (outpoint_of_utxo u)
         \<and> ((\<exists>hist b info. last_event ?hs (outpoint_of_utxo u) = Some (hist, b) \<and> thk_txinfo hist = Funding info
               \<and> ux_confirmed u = Some b \<and> ux_value u = fu_value info)
            \<or> (ux_confirmed u = None
               \<and> Funding \<lparr>fu_txid = ux_txid u, fu_vout = ux_vout u, fu_value = ux_value u\<rparr>
                   \<in> set (history_entries (q_mempool demo_query) demo_sh)))"
    using unspent_view_exact [OF ix demo_hash_serde v hs l64 lim] by (elim exE conjE) (rule that)
  have "last_event ?hs \<lparr>op_txid = demo_txid 9, op_vout = 0\<rparr> = Some (demo_history_row 0, demo_blockid)"
    by (simp add: last_event_def history_funded_outpoint_def history_new_def last_opt_def)
  then have "?u \<in> set us" unfolding us(2) [THEN spec, of ?u]
    by (simp add: demo_query_sel outpoint_of_utxo_def has_spend_def mempool_new_def) (simp add: history_new_def)
  then show ?thesis using us(1) by blast
qed

end
