(* ===== verification/Auth.thy ===== *)
theory Auth
  imports Text_Json
begin

text \<open>
  The read-only allowlist and the NIP-98 check of a request (\<^verbatim>\<open>src/auth.rs\<close>). A file is its
  text or nothing when it cannot be read. The base64 and JSON decoders, the
  signature check and the parser of public keys are third-party code: they are the record \<open>nostr_lib\<close>,
  an argument of the definitions. Watching the file only calls \<open>reload\<close> at arbitrary times.
\<close>

section \<open>The code\<close>

datatype auth_error =
    MissingHeader
  | BadEncoding
  | BadJson
  | BadSignature
  | WrongKind
  | UrlMismatch
  | MethodMismatch
  | Expired
  | PayloadMismatch
  | NotAllowlisted
  | AuthIo

record 'ev nostr_lib =
  nl_base64 :: "utext \<Rightarrow> bytes option"
  nl_json :: "bytes \<Rightarrow> unit json option"
  nl_event :: "bytes \<Rightarrow> 'ev option"
  nl_verify :: "'ev \<Rightarrow> bool"
  nl_pubkey :: "'ev \<Rightarrow> bytes"
  nl_parse_pubkey :: "utext \<Rightarrow> bytes option"
  nl_sha256 :: "bytes \<Rightarrow> bytes"

record allowlist =
  al_keys :: "bytes set"

definition parse_pubkey_line :: "'ev nostr_lib \<Rightarrow> utext \<Rightarrow> (auth_error, bytes) outcome" where
  "parse_pubkey_line nl line = ok_or AuthIo (nl_parse_pubkey nl line)"

text \<open>Blank lines and lines that start with a hash sign are skipped.\<close>

definition skipped_line :: "utext \<Rightarrow> bool" where
  "skipped_line raw = (let line = trim raw in line = [] \<or> starts_with line (lit ''#''))"

fun parse_allowlist_lines :: "'ev nostr_lib \<Rightarrow> utext list \<Rightarrow> bytes set \<Rightarrow> (auth_error, bytes set) outcome" where
  "parse_allowlist_lines nl [] keys = Ok keys"
| "parse_allowlist_lines nl (raw # rest) keys =
     (if skipped_line raw then parse_allowlist_lines nl rest keys
      else (case parse_pubkey_line nl (trim raw) of
              Ok pk \<Rightarrow> parse_allowlist_lines nl rest (insert pk keys)
            | Err _ \<Rightarrow> Err AuthIo
            | Panic s \<Rightarrow> Panic s))"

definition parse_allowlist_file :: "'ev nostr_lib \<Rightarrow> utext option \<Rightarrow> (auth_error, bytes set) outcome" where
  "parse_allowlist_file nl file =
     bind_out (ok_or AuthIo file) (\<lambda>contents. parse_allowlist_lines nl (text_lines contents) {})"

definition deny_all :: allowlist where
  "deny_all = \<lparr>al_keys = {}\<rparr>"

definition allowlist_load :: "'ev nostr_lib \<Rightarrow> utext option \<Rightarrow> (auth_error, allowlist) outcome" where
  "allowlist_load nl file =
     (if file = None then Err AuthIo
      else map_out (\<lambda>keys. \<lparr>al_keys = keys\<rparr>) (parse_allowlist_file nl file))"

definition allowlist_contains :: "allowlist \<Rightarrow> bytes \<Rightarrow> bool" where
  "allowlist_contains allow pubkey32 \<longleftrightarrow> pubkey32 \<in> al_keys allow"

text \<open>A reload that fails keeps the keys.\<close>

definition allowlist_reload :: "'ev nostr_lib \<Rightarrow> utext option \<Rightarrow> allowlist \<Rightarrow> allowlist \<times> (auth_error, unit) outcome" where
  "allowlist_reload nl file allow =
     (case parse_allowlist_file nl file of
        Ok keys \<Rightarrow> (allow\<lparr>al_keys := keys\<rparr>, Ok ())
      | Err e \<Rightarrow> (allow, Err e)
      | Panic s \<Rightarrow> (allow, Panic s))"

definition MAX_NIP98_AUTH_EVENT_BYTES :: nat where
  "MAX_NIP98_AUTH_EVENT_BYTES = 64 * 1024"

definition MAX_NIP98_AUTH_ENCODED_BYTES :: nat where
  "MAX_NIP98_AUTH_ENCODED_BYTES =
     (MAX_NIP98_AUTH_EVENT_BYTES div 3 + (if MAX_NIP98_AUTH_EVENT_BYTES mod 3 = 0 then 0 else 1)) * 4"

text \<open>One step of the loop over the tags: the first value of each of the three tags is kept.\<close>

fun tag_step ::
  "utext option \<times> utext option \<times> utext option \<Rightarrow> 'f json \<Rightarrow> utext option \<times> utext option \<times> utext option"
where
  "tag_step (u_tag, method_tag, payload_tag) tag =
     (case as_array tag of
        Some (first # rest) \<Rightarrow>
          (let name = (case as_str first of Some n \<Rightarrow> n | None \<Rightarrow> []);
               val = Option.bind (first_opt rest) as_str
           in if name = lit ''u'' \<and> u_tag = None then (val, method_tag, payload_tag)
              else if name = lit ''method'' \<and> method_tag = None then (u_tag, val, payload_tag)
              else if name = lit ''payload'' \<and> payload_tag = None then (u_tag, method_tag, val)
              else (u_tag, method_tag, payload_tag))
      | _ \<Rightarrow> (u_tag, method_tag, payload_tag))"

definition scan_tags :: "'f json list \<Rightarrow> utext option \<times> utext option \<times> utext option" where
  "scan_tags tags = foldl tag_step (None, None, None) tags"

definition nat_abs_diff :: "nat \<Rightarrow> nat \<Rightarrow> nat" where
  "nat_abs_diff a b = (if a < b then b - a else a - b)"

definition auth_token :: "utext option \<Rightarrow> (auth_error, utext) outcome" where
  "auth_token header =
     bind_out (ok_or MissingHeader header) (\<lambda>h.
     bind_out
       (ok_or MissingHeader
          (case strip_prefix (lit ''Nostr '') h of
             Some s \<Rightarrow> Some s
           | None \<Rightarrow> strip_prefix (lit ''nostr '') h)) (\<lambda>s.
     let encoded = trim s in
     if encoded = [] then Err MissingHeader else Ok encoded))"

definition verify_nip98 ::
  "'ev nostr_lib \<Rightarrow> utext option \<Rightarrow> utext \<Rightarrow> utext \<Rightarrow> bytes \<Rightarrow> nat \<Rightarrow> nat \<Rightarrow> allowlist \<Rightarrow> (auth_error, bytes) outcome"
where
  "verify_nip98 nl header meth absolute_url body now_unix window_secs allow =
     bind_out (auth_token header) (\<lambda>encoded.
     if MAX_NIP98_AUTH_ENCODED_BYTES < utf8_len encoded then Err BadEncoding else
     bind_out (ok_or BadEncoding (nl_base64 nl encoded)) (\<lambda>raw.
     if MAX_NIP98_AUTH_EVENT_BYTES < length raw then Err BadEncoding else
     bind_out (ok_or BadJson (nl_json nl raw)) (\<lambda>v.
     bind_out (ok_or BadJson (nl_event nl raw)) (\<lambda>event.
     if \<not> nl_verify nl event then Err BadSignature else
     bind_out (ok_or WrongKind (Option.bind (json_get v (lit ''kind'')) as_u64)) (\<lambda>kind.
     if kind \<noteq> 27235 then Err WrongKind else
     bind_out (ok_or Expired (Option.bind (json_get v (lit ''created_at'')) as_u64)) (\<lambda>created_at.
     if window_secs < nat_abs_diff now_unix created_at then Err Expired else
     bind_out (ok_or UrlMismatch (Option.bind (json_get v (lit ''tags'')) as_array)) (\<lambda>tags.
     case scan_tags tags of
       (u_tag, method_tag, payload_tag) \<Rightarrow>
         if u_tag \<noteq> Some absolute_url then Err UrlMismatch
         else if (case method_tag of Some m \<Rightarrow> \<not> eq_ignore_ascii_case m meth | None \<Rightarrow> True) then Err MethodMismatch
         else if (case payload_tag of
                    Some payload \<Rightarrow> ascii_lower payload \<noteq> hex_encode (nl_sha256 nl body)
                  | None \<Rightarrow> False) then Err PayloadMismatch
         else (let pubkey32 = nl_pubkey nl event
               in if allowlist_contains allow pubkey32 then Ok pubkey32 else Err NotAllowlisted))))))))"

section \<open>The tags of an event\<close>

definition tag_value :: "utext \<Rightarrow> 'f json \<Rightarrow> utext option" where
  "tag_value name tag =
     (case as_array tag of
        Some (first # rest) \<Rightarrow> if as_str first = Some name then Option.bind (first_opt rest) as_str else None
      | _ \<Rightarrow> None)"

text \<open>The value of the first tag of a name that has one.\<close>

definition first_value :: "utext \<Rightarrow> 'f json list \<Rightarrow> utext option" where
  "first_value name tags = first_opt (List.map_filter (tag_value name) tags)"

definition prefer_first :: "'a option \<Rightarrow> 'a option \<Rightarrow> 'a option" where
  "prefer_first a b = (case a of Some x \<Rightarrow> Some x | None \<Rightarrow> b)"

lemma lit_names [simp]:
  "lit ''u'' \<noteq> lit ''method''" "lit ''u'' \<noteq> lit ''payload''" "lit ''method'' \<noteq> lit ''payload''"
  "lit ''u'' \<noteq> []" "lit ''method'' \<noteq> []" "lit ''payload'' \<noteq> []"
  by (simp_all add: lit_def)

lemma tag_step_prefer:
  "tag_step (a, b, c) tag = (prefer_first a (tag_value (lit ''u'') tag), prefer_first b (tag_value (lit ''method'') tag),
     prefer_first c (tag_value (lit ''payload'') tag))"
proof (cases "as_array tag")
  case None
  then show ?thesis by (simp add: tag_value_def prefer_first_def split: option.splits)
next
  case (Some arr)
  show ?thesis
  proof (cases arr)
    case Nil
    then show ?thesis using Some by (simp add: tag_value_def prefer_first_def split: option.splits)
  next
    case (Cons x xs)
    show ?thesis
    proof (cases "as_str x")
      case None
      then show ?thesis using Some Cons by (simp add: tag_value_def prefer_first_def Let_def lit_names [symmetric] split: option.splits)
    next
      case (Some n)
      then show ?thesis using \<open>as_array tag = Some arr\<close> Cons
        by (auto simp: tag_value_def prefer_first_def Let_def lit_def split: option.splits)
    qed
  qed
qed

lemma scan_tags_first: "scan_tags tags = (first_value (lit ''u'') tags, first_value (lit ''method'') tags, first_value (lit ''payload'') tags)"
proof -
  have "foldl tag_step (a, b, c) tags = (prefer_first a (first_value (lit ''u'') tags),
      prefer_first b (first_value (lit ''method'') tags), prefer_first c (first_value (lit ''payload'') tags))" for a b c
  proof (induction tags arbitrary: a b c)
    case Nil
    then show ?case by (simp add: first_value_def prefer_first_def map_filter_simps first_opt_def split: option.splits)
  next
    case (Cons t ts)
    have "prefer_first (prefer_first x (tag_value n t)) (first_value n ts) = prefer_first x (first_value n (t # ts))" for x n
      by (simp add: first_value_def prefer_first_def map_filter_simps first_opt_def split: option.splits)
    then show ?case unfolding foldl_Cons tag_step_prefer Cons.IH by simp
  qed
  then show ?thesis by (simp add: scan_tags_def prefer_first_def)
qed

section \<open>The allowlist file\<close>

definition listed_keys :: "'ev nostr_lib \<Rightarrow> utext list \<Rightarrow> bytes set" where
  "listed_keys nl ls = {pk. \<exists>raw\<in>set ls. \<not> skipped_line raw \<and> nl_parse_pubkey nl (trim raw) = Some pk}"

definition lines_valid :: "'ev nostr_lib \<Rightarrow> utext list \<Rightarrow> bool" where
  "lines_valid nl ls \<longleftrightarrow> (\<forall>raw\<in>set ls. \<not> skipped_line raw \<longrightarrow> nl_parse_pubkey nl (trim raw) \<noteq> None)"

text \<open>A file is accepted as a whole or not at all.\<close>

lemma parse_allowlist_lines_spec:
  "parse_allowlist_lines nl ls keys = (if lines_valid nl ls then Ok (keys \<union> listed_keys nl ls) else Err AuthIo)"
proof (induction ls arbitrary: keys)
  case (Cons raw ls)
  show ?case
  proof (cases "skipped_line raw")
    case True
    then have "lines_valid nl (raw # ls) = lines_valid nl ls" "listed_keys nl (raw # ls) = listed_keys nl ls"
      by (auto simp: lines_valid_def listed_keys_def)
    then show ?thesis using Cons True by simp
  next
    case False
    show ?thesis
    proof (cases "nl_parse_pubkey nl (trim raw)")
      case (Some pk)
      have "insert pk keys \<union> listed_keys nl ls = keys \<union> listed_keys nl (raw # ls)"
        using False Some by (auto simp: listed_keys_def)
      moreover have "lines_valid nl (raw # ls) \<longleftrightarrow> lines_valid nl ls" using Some by (simp add: lines_valid_def)
      ultimately show ?thesis using Cons False Some by (simp add: parse_pubkey_line_def)
    qed (use False in \<open>simp add: parse_pubkey_line_def lines_valid_def\<close>)
  qed
qed (simp add: lines_valid_def listed_keys_def)

section \<open>Properties\<close>

text \<open>C21: a request is accepted for a key exactly when its header carries a bounded, decodable and verified
  event of that key, of kind 27235, created within the window, whose first \<open>u\<close> tag is the URL and first
  \<open>method\<close> tag the method, whose payload tag, if it has one, is the digest of the body, and the key is
  on the allowlist; and the check never panics.\<close>

theorem nip98_accepts_exactly:
  "(verify_nip98 nl header meth url body now window allow = Ok pk \<longleftrightarrow>
     (\<exists>h s raw v event created tags m.
        header = Some h
        \<and> (strip_prefix (lit ''Nostr '') h = Some s \<or> strip_prefix (lit ''nostr '') h = Some s)
        \<and> trim s \<noteq> [] \<and> utf8_len (trim s) \<le> MAX_NIP98_AUTH_ENCODED_BYTES
        \<and> nl_base64 nl (trim s) = Some raw \<and> length raw \<le> MAX_NIP98_AUTH_EVENT_BYTES
        \<and> nl_json nl raw = Some v \<and> nl_event nl raw = Some event \<and> nl_verify nl event
        \<and> Option.bind (json_get v (lit ''kind'')) as_u64 = Some 27235
        \<and> Option.bind (json_get v (lit ''created_at'')) as_u64 = Some created
        \<and> created \<le> now + window \<and> now \<le> created + window
        \<and> Option.bind (json_get v (lit ''tags'')) as_array = Some tags
        \<and> first_value (lit ''u'') tags = Some url
        \<and> first_value (lit ''method'') tags = Some m \<and> eq_ignore_ascii_case m meth
        \<and> (\<forall>p. first_value (lit ''payload'') tags = Some p \<longrightarrow> ascii_lower p = hex_encode (nl_sha256 nl body))
        \<and> pk = nl_pubkey nl event \<and> pk \<in> al_keys allow))
   \<and> \<not> panics (verify_nip98 nl header meth url body now window allow)"
proof
  have tok: "auth_token header = Ok e \<longleftrightarrow> (\<exists>h s. header = Some h
      \<and> (strip_prefix (lit ''Nostr '') h = Some s \<or> strip_prefix (lit ''nostr '') h = Some s) \<and> e = trim s \<and> trim s \<noteq> [])" for e
  proof -
    have "\<not> (strip_prefix (lit ''Nostr '') h = Some s \<and> strip_prefix (lit ''nostr '') h = Some s')" for h s s'
      by (auto simp: strip_prefix_def starts_with_iff lit_def split: if_splits)
    then show ?thesis
      by (cases header) (auto simp: auth_token_def Let_def split: option.splits if_splits)
  qed
  have diff: "\<not> window < nat_abs_diff now c \<longleftrightarrow> c \<le> now + window \<and> now \<le> c + window" for c
    by (auto simp: nat_abs_diff_def)
  let ?P = "\<lambda>h s raw v event created tags m. header = Some h
        \<and> (strip_prefix (lit ''Nostr '') h = Some s \<or> strip_prefix (lit ''nostr '') h = Some s)
        \<and> trim s \<noteq> [] \<and> utf8_len (trim s) \<le> MAX_NIP98_AUTH_ENCODED_BYTES
        \<and> nl_base64 nl (trim s) = Some raw \<and> length raw \<le> MAX_NIP98_AUTH_EVENT_BYTES
        \<and> nl_json nl raw = Some v \<and> nl_event nl raw = Some event \<and> nl_verify nl event
        \<and> Option.bind (json_get v (lit ''kind'')) as_u64 = Some 27235
        \<and> Option.bind (json_get v (lit ''created_at'')) as_u64 = Some created
        \<and> created \<le> now + window \<and> now \<le> created + window
        \<and> Option.bind (json_get v (lit ''tags'')) as_array = Some tags
        \<and> first_value (lit ''u'') tags = Some url
        \<and> first_value (lit ''method'') tags = Some m \<and> eq_ignore_ascii_case m meth
        \<and> (\<forall>p. first_value (lit ''payload'') tags = Some p \<longrightarrow> ascii_lower p = hex_encode (nl_sha256 nl body))
        \<and> pk = nl_pubkey nl event \<and> pk \<in> al_keys allow"
  show "verify_nip98 nl header meth url body now window allow = Ok pk \<longleftrightarrow> (\<exists>h s raw v event created tags m. ?P h s raw v event created tags m)"
  proof
    assume "verify_nip98 nl header meth url body now window allow = Ok pk"
    then show "\<exists>h s raw v event created tags m. ?P h s raw v event created tags m"
      unfolding verify_nip98_def scan_tags_first tok
      by (fastforce simp: Let_def tok diff allowlist_contains_def split: if_splits option.splits)
  next
    assume "\<exists>h s raw v event created tags m. ?P h s raw v event created tags m"
    then obtain h s raw v event created tags m where P: "?P h s raw v event created tags m" by (elim exE)
    then have "auth_token header = Ok (trim s)" unfolding tok by blast
    then show "verify_nip98 nl header meth url body now window allow = Ok pk"
      using P diff [of created] unfolding verify_nip98_def scan_tags_first
      by (simp add: Let_def allowlist_contains_def split: option.splits) blast
  qed
  show "\<not> panics (verify_nip98 nl header meth url body now window allow)"
    by (cases "verify_nip98 nl header meth url body now window allow")
      (auto simp: verify_nip98_def scan_tags_first auth_token_def ok_or_def Let_def split: option.splits if_splits)
qed

definition demo_nostr :: "unit nostr_lib" where
  "demo_nostr =
     \<lparr>nl_base64 = (\<lambda>_. Some [1]),
      nl_json = (\<lambda>_. Some (JObject [(lit ''kind'', JNumber (PosInt 27235)), (lit ''created_at'', JNumber (PosInt 100)),
        (lit ''tags'', JArray [JArray [JString (lit ''u''), JString (lit ''/x'')],
                              JArray [JString (lit ''method''), JString (lit ''get'')]])])),
      nl_event = (\<lambda>_. Some ()), nl_verify = (\<lambda>_. True), nl_pubkey = (\<lambda>_. demo_hash 1),
      nl_parse_pubkey = (\<lambda>s. if starts_with s (lit ''npub1'') \<and> length s = 6 then Some (demo_hash (word_of_nat (s ! 5))) else None),
      nl_sha256 = (\<lambda>b. b)\<rparr>"

theorem nip98_accepts_exactly_witness:
  "verify_nip98 demo_nostr (Some (lit ''Nostr abc'')) (lit ''GET'') (lit ''/x'') [] 120 60 \<lparr>al_keys = {demo_hash 1}\<rparr> = Ok (demo_hash 1)"
proof -
  let ?tags = "[JArray [JString (lit ''u''), JString (lit ''/x'')], JArray [JString (lit ''method''), JString (lit ''get'')]]"
  have tags: "first_value (lit ''u'') ?tags = Some (lit ''/x'')" "first_value (lit ''method'') ?tags = Some (lit ''get'')"
      "first_value (lit ''payload'') ?tags = None"
    by (simp_all add: first_value_def tag_value_def map_filter_simps lit_def first_opt_def)
  have pre: "strip_prefix (lit ''Nostr '') (lit ''Nostr abc'') = Some (lit ''abc'')" by (simp add: strip_prefix_def lit_def starts_with_def)
  have tr: "trim (lit ''abc'') = lit ''abc''" "lit ''abc'' \<noteq> []" by (simp_all add: trim_def lit_def is_white_def)
  have len: "utf8_len (lit ''abc'') \<le> MAX_NIP98_AUTH_ENCODED_BYTES"
    by (simp add: utf8_len_def lit_def MAX_NIP98_AUTH_ENCODED_BYTES_def MAX_NIP98_AUTH_EVENT_BYTES_def)
  have kind: "lit ''kind'' \<noteq> lit ''created_at''" "lit ''kind'' \<noteq> lit ''tags''" "lit ''created_at'' \<noteq> lit ''tags''" by (simp_all add: lit_def)
  have eq: "eq_ignore_ascii_case (lit ''get'') (lit ''GET'')" by (simp add: eq_ignore_ascii_case_def ascii_lower_def lit_def)
  show ?thesis
    unfolding nip98_accepts_exactly [THEN conjunct1]
    by (intro exI [of _ "lit ''Nostr abc''"] exI [of _ "lit ''abc''"] exI [of _ "[1]"]
        exI [of _ "the (nl_json demo_nostr [1])"] exI [of _ "()"] exI [of _ 100] exI [of _ ?tags] exI [of _ "lit ''get''"])
      (use kind in \<open>simp add: pre tr len tags eq demo_nostr_def MAX_NIP98_AUTH_EVENT_BYTES_def\<close>)
qed

end
