(* ===== verification/Queue.thy ===== *)
theory Queue
  imports Auth
begin

text \<open>
  The approval queue (\<^verbatim>\<open>src/queue.rs\<close>): rate-limited submissions of a public key and an email, the file
  of pending rows, and the operator's commands that move a key to the allowlist or drop it. A file is
  its text, or nothing when it does not exist; it is replaced as a whole by a rename, so a write that
  fails (the argument \<open>wr\<close> is \<open>False\<close>) leaves the old text. The locks serialise the submissions. The HTTP
  servers around \<open>submit\<close> are the function from the outcome to the status they answer with.
\<close>

section \<open>The code\<close>

record queue_caps =
  qc_max_rows :: nat
  qc_max_bytes :: nat
  qc_per_ip :: nat
  qc_per_npub :: nat
  qc_window_secs :: nat

definition caps_default :: queue_caps where
  "caps_default = \<lparr>qc_max_rows = 10000, qc_max_bytes = 2 * 1024 * 1024, qc_per_ip = 10, qc_per_npub = 5, qc_window_secs = 60\<rparr>"

record queue_row =
  qr_npub :: utext
  qr_email :: utext

datatype queue_error = InvalidNpub | InvalidEmail | QueueBadJson | RateLimited | CapExceeded | QueueNotFound | QueueIo

record 'ip queue_store =
  qs_file :: "utext option"
  qs_caps :: queue_caps
  qs_ip_hits :: "'ip \<rightharpoonup> nat list"
  qs_npub_hits :: "bytes \<rightharpoonup> nat list"

definition queue_open :: "bool \<Rightarrow> utext option \<Rightarrow> queue_caps \<Rightarrow> (queue_error, 'ip queue_store) outcome" where
  "queue_open wr file caps =
     (if file = None \<and> \<not> wr then Err QueueIo
      else Ok \<lparr>qs_file = Some (case file of Some t \<Rightarrow> t | None \<Rightarrow> []), qs_caps = caps,
               qs_ip_hits = Map.empty, qs_npub_hits = Map.empty\<rparr>)"

definition parse_queue_line :: "utext \<Rightarrow> queue_row option" where
  "parse_queue_line line =
     (case split_at 44 line of
        [a, b] \<Rightarrow> if trim a = [] then None else Some \<lparr>qr_npub = trim a, qr_email = trim b\<rparr>
      | _ \<Rightarrow> None)"

text \<open>One line of the file; blank lines and lines that do not parse are passed over.\<close>

definition line_row :: "utext \<Rightarrow> queue_row option" where
  "line_row raw = (let line = trim raw in if line = [] then None else parse_queue_line line)"

definition load_queue :: "utext option \<Rightarrow> (queue_error, queue_row list) outcome" where
  "load_queue file =
     map_out (\<lambda>contents. List.map_filter line_row (text_lines contents)) (ok_or QueueIo file)"

definition queue_text :: "queue_row list \<Rightarrow> utext" where
  "queue_text rows = concat (map (\<lambda>row. qr_npub row @ [44] @ qr_email row @ [10]) rows)"

definition write_queue :: "bool \<Rightarrow> queue_row list \<Rightarrow> (queue_error, utext) outcome" where
  "write_queue wr rows = (if wr then Ok (queue_text rows) else Err QueueIo)"

definition valid_npub :: "'ev nostr_lib \<Rightarrow> utext \<Rightarrow> (queue_error, bytes) outcome" where
  "valid_npub nl npub =
     (if \<not> starts_with npub (lit ''npub1'') then Err InvalidNpub
      else (case parse_pubkey_line nl npub of Ok pk \<Rightarrow> Ok pk | Err _ \<Rightarrow> Err InvalidNpub | Panic s \<Rightarrow> Panic s))"

text \<open>The hits that are kept, and whether one more was allowed.\<close>

definition rate_ok :: "nat list \<Rightarrow> nat \<Rightarrow> nat \<Rightarrow> nat \<Rightarrow> nat list \<times> bool" where
  "rate_ok hits now window max_hits =
     (let kept = filter (\<lambda>t. now - t < window) hits
      in if max_hits \<le> length kept mod 2 ^ 32 then (kept, False) else (kept @ [now], True))"

definition hits_of :: "('k \<rightharpoonup> nat list) \<Rightarrow> 'k \<Rightarrow> nat list" where
  "hits_of m k = (case m k of Some hs \<Rightarrow> hs | None \<Rightarrow> [])"

text \<open>Replacing the email of the first row of a key, if there is one.\<close>

fun update_email :: "utext \<Rightarrow> utext \<Rightarrow> queue_row list \<Rightarrow> (queue_row list \<times> queue_row) option" where
  "update_email npub email [] = None"
| "update_email npub email (row # rows) =
     (if qr_npub row = npub then (let row' = row\<lparr>qr_email := email\<rparr> in Some (row' # rows, row'))
      else map_option (\<lambda>(rows', out). (row # rows', out)) (update_email npub email rows))"

definition submit_rows ::
  "bool \<Rightarrow> 'ip queue_store \<Rightarrow> utext \<Rightarrow> utext \<Rightarrow> 'ip queue_store \<times> (queue_error, queue_row) outcome"
where
  "submit_rows wr st npub email =
     (case load_queue (qs_file st) of
        Panic s \<Rightarrow> (st, Panic s)
      | Err e \<Rightarrow> (st, Err e)
      | Ok rows \<Rightarrow>
          (case update_email npub email rows of
             Some (rows', out) \<Rightarrow>
               (case write_queue wr rows' of
                  Ok contents \<Rightarrow> (st\<lparr>qs_file := Some contents\<rparr>, Ok out)
                | Err e \<Rightarrow> (st, Err e)
                | Panic s \<Rightarrow> (st, Panic s))
           | None \<Rightarrow>
               (let line_bytes = utf8_len npub + 1 + utf8_len email + 1;
                    current_bytes = (case qs_file st of Some t \<Rightarrow> utf8_len t | None \<Rightarrow> 0)
                in if qc_max_rows (qs_caps st) \<le> length rows
                      \<or> qc_max_bytes (qs_caps st) < min (2 ^ 64 - 1) (current_bytes + line_bytes)
                   then (st, Err CapExceeded)
                   else (let row = \<lparr>qr_npub = npub, qr_email = email\<rparr>
                         in case write_queue wr (rows @ [row]) of
                              Ok contents \<Rightarrow> (st\<lparr>qs_file := Some contents\<rparr>, Ok row)
                            | Err e \<Rightarrow> (st, Err e)
                            | Panic s \<Rightarrow> (st, Panic s)))))"

text \<open>The two limits; without an address only the one of the key applies.\<close>

definition check_ip :: "'ip queue_store \<Rightarrow> 'ip option \<Rightarrow> nat \<Rightarrow> 'ip queue_store \<times> bool" where
  "check_ip st ip now =
     (case ip of
        None \<Rightarrow> (st, True)
      | Some a \<Rightarrow>
          (case rate_ok (hits_of (qs_ip_hits st) a) now (qc_window_secs (qs_caps st)) (qc_per_ip (qs_caps st)) of
             (hits, allowed) \<Rightarrow> (st\<lparr>qs_ip_hits := (qs_ip_hits st)(a \<mapsto> hits)\<rparr>, allowed)))"

definition check_npub :: "'ip queue_store \<Rightarrow> bytes \<Rightarrow> nat \<Rightarrow> 'ip queue_store \<times> bool" where
  "check_npub st pk now =
     (case rate_ok (hits_of (qs_npub_hits st) pk) now (qc_window_secs (qs_caps st)) (qc_per_npub (qs_caps st)) of
        (hits, allowed) \<Rightarrow> (st\<lparr>qs_npub_hits := (qs_npub_hits st)(pk \<mapsto> hits)\<rparr>, allowed))"

definition submit ::
  "'ev nostr_lib \<Rightarrow> bool \<Rightarrow> 'ip queue_store \<Rightarrow> 'ip option \<Rightarrow> utext \<Rightarrow> utext \<Rightarrow> nat
    \<Rightarrow> 'ip queue_store \<times> (queue_error, queue_row) outcome"
where
  "submit nl wr st ip npub email now =
     (case valid_npub nl npub of
        Err e \<Rightarrow> (st, Err e)
      | Panic s \<Rightarrow> (st, Panic s)
      | Ok pk \<Rightarrow>
          if 44 \<in> set email then (st, Err InvalidEmail)
          else
            (case check_ip st ip now of
               (st1, allowed_ip) \<Rightarrow>
                 if \<not> allowed_ip then (st1, Err RateLimited)
                 else
                   (case check_npub st1 pk now of
                      (st2, allowed) \<Rightarrow> if \<not> allowed then (st2, Err RateLimited) else submit_rows wr st2 npub email)))"

text \<open>The operator's commands, on the two files.\<close>

definition fsync_lines :: "bool \<Rightarrow> utext list \<Rightarrow> (queue_error, utext) outcome" where
  "fsync_lines wr ls = (if wr then Ok (concat (map (\<lambda>l. l @ [10]) ls)) else Err QueueIo)"

fun upsert_lines :: "'ev nostr_lib \<Rightarrow> bytes \<Rightarrow> utext \<Rightarrow> utext list \<Rightarrow> utext list \<times> bool" where
  "upsert_lines nl pk npub [] = ([], False)"
| "upsert_lines nl pk npub (raw # rest) =
     (case upsert_lines nl pk npub rest of
        (kept, found) \<Rightarrow>
          if skipped_line raw then (raw # kept, found)
          else if parse_pubkey_line nl (trim raw) = Ok pk then (npub # kept, True)
          else (raw # kept, found))"

definition upsert_allowlist :: "'ev nostr_lib \<Rightarrow> bool \<Rightarrow> utext option \<Rightarrow> utext \<Rightarrow> (queue_error, utext) outcome" where
  "upsert_allowlist nl wr file npub =
     bind_out (valid_npub nl npub) (\<lambda>pk.
       case upsert_lines nl pk npub (text_lines (case file of Some t \<Rightarrow> t | None \<Rightarrow> [])) of
         (kept, found) \<Rightarrow> fsync_lines wr (if found then kept else kept @ [npub]))"

definition approve ::
  "'ev nostr_lib \<Rightarrow> bool \<Rightarrow> bool \<Rightarrow> utext option \<Rightarrow> utext option \<Rightarrow> utext
    \<Rightarrow> utext option \<times> utext option \<times> (queue_error, unit) outcome"
where
  "approve nl wr_queue wr_allow queue allow npub =
     (case bind_out (valid_npub nl npub) (\<lambda>_.
             if queue \<noteq> None
             then bind_out (load_queue queue) (\<lambda>rows.
                    map_out Some (write_queue wr_queue (filter (\<lambda>r. qr_npub r \<noteq> npub) rows)))
             else Ok None) of
        Err e \<Rightarrow> (queue, allow, Err e)
      | Panic s \<Rightarrow> (queue, allow, Panic s)
      | Ok queue' \<Rightarrow>
          (case upsert_allowlist nl wr_allow allow npub of
             Ok contents \<Rightarrow> (queue', Some contents, Ok ())
           | Err e \<Rightarrow> (queue', allow, Err e)
           | Panic s \<Rightarrow> (queue', allow, Panic s)))"

definition reject ::
  "'ev nostr_lib \<Rightarrow> bool \<Rightarrow> utext option \<Rightarrow> utext \<Rightarrow> utext option \<times> (queue_error, unit) outcome"
where
  "reject nl wr queue npub =
     (case bind_out (valid_npub nl npub) (\<lambda>_. bind_out (load_queue queue) (\<lambda>rows.
             let kept = filter (\<lambda>r. qr_npub r \<noteq> npub) rows
             in if length kept = length rows then Err QueueNotFound else write_queue wr kept)) of
        Ok contents \<Rightarrow> (Some contents, Ok ())
      | Err e \<Rightarrow> (queue, Err e)
      | Panic s \<Rightarrow> (queue, Panic s))"

fun remove_lines :: "'ev nostr_lib \<Rightarrow> bytes \<Rightarrow> utext list \<Rightarrow> utext list" where
  "remove_lines nl pk [] = []"
| "remove_lines nl pk (raw # rest) =
     (if skipped_line raw then raw # remove_lines nl pk rest
      else if parse_pubkey_line nl (trim raw) = Ok pk then remove_lines nl pk rest
      else raw # remove_lines nl pk rest)"

definition remove_npub ::
  "'ev nostr_lib \<Rightarrow> bool \<Rightarrow> utext option \<Rightarrow> utext \<Rightarrow> utext option \<times> (queue_error, unit) outcome"
where
  "remove_npub nl wr allow npub =
     (case bind_out (valid_npub nl npub) (\<lambda>pk.
             fsync_lines wr (remove_lines nl pk (text_lines (case allow of Some t \<Rightarrow> t | None \<Rightarrow> [])))) of
        Ok contents \<Rightarrow> (Some contents, Ok ())
      | Err e \<Rightarrow> (allow, Err e)
      | Panic s \<Rightarrow> (allow, Panic s))"

text \<open>The status of a response: the request is a POST, its body is text, and it parses to the two fields.\<close>

definition queue_status :: "(queue_error, queue_row) outcome \<Rightarrow> nat" where
  "queue_status r =
     (case r of
        Ok _ \<Rightarrow> 200
      | Err InvalidNpub \<Rightarrow> 400
      | Err InvalidEmail \<Rightarrow> 400
      | Err RateLimited \<Rightarrow> 429
      | Err CapExceeded \<Rightarrow> 507
      | _ \<Rightarrow> 500)"

definition handle_post ::
  "'ev nostr_lib \<Rightarrow> bool \<Rightarrow> 'ip queue_store \<Rightarrow> 'ip option \<Rightarrow> bool \<Rightarrow> utext option \<Rightarrow> (utext \<Rightarrow> (utext \<times> utext) option) \<Rightarrow> nat
    \<Rightarrow> 'ip queue_store \<times> nat"
where
  "handle_post nl wr st ip is_post body parse_body now =
     (if \<not> is_post then (st, 405)
      else (case body of
              None \<Rightarrow> (st, 400)
            | Some b \<Rightarrow>
                (case parse_body b of
                   None \<Rightarrow> (st, 400)
                 | Some (npub, email) \<Rightarrow>
                     (case submit nl wr st ip npub email now of (st', r) \<Rightarrow> (st', queue_status r)))))"

definition unix_client_ip :: "(utext \<Rightarrow> 'ip option) \<Rightarrow> utext option \<Rightarrow> 'ip option" where
  "unix_client_ip parse_ip forwarded_for =
     Option.bind forwarded_for (\<lambda>s.
       let h = trim (hd (split_at 44 s)) in if h = [] then None else parse_ip h)"

section \<open>The file of pending rows\<close>

text \<open>A field survives the file if it has no comma, no line break and no surrounding white space.\<close>

definition field_ok :: "utext \<Rightarrow> bool" where
  "field_ok s \<longleftrightarrow> 10 \<notin> set s \<and> 44 \<notin> set s \<and> trim s = s"

definition row_ok :: "queue_row \<Rightarrow> bool" where
  "row_ok r \<longleftrightarrow> field_ok (qr_npub r) \<and> field_ok (qr_email r) \<and> qr_npub r \<noteq> []"

text \<open>What the file keeps of an email: its first line, trimmed.\<close>

definition kept_email :: "utext \<Rightarrow> utext" where
  "kept_email e = trim (hd (split_at 10 e))"

lemma kept_email_id: "field_ok e \<Longrightarrow> kept_email e = e"
  by (simp add: field_ok_def kept_email_def split_at_none)

lemma no_comma_line: "44 \<notin> set l \<Longrightarrow> line_row l = None"
proof -
  assume "44 \<notin> set l"
  then have "44 \<notin> set (trim l)" using trim_subset by blast
  then show ?thesis by (simp add: line_row_def parse_queue_line_def split_at_none Let_def)
qed

lemma field_head:
  assumes "field_ok n" "n \<noteq> []"
  obtains c t where "n = c # t" "\<not> is_white c"
proof (rule white_split [of n])
  assume "\<forall>c\<in>set n. is_white c"
  then show ?thesis using assms trim_all_white by (simp add: field_ok_def)
next
  fix w c t assume n: "n = w @ c # t" "\<forall>c\<in>set w. is_white c" "\<not> is_white c"
  have "c # rtrim t = w @ c # t" using trim_shape [OF n(2,3), of t] n(1) assms(1) by (simp add: field_ok_def)
  moreover have "length (rtrim t) \<le> length t" using length_dropWhile_le [of is_white "rev t"] by (simp add: rtrim_def)
  ultimately have "w = []" by (metis add_le_same_cancel2 append_Cons length_0_conv length_Cons length_append le_zero_eq not_less_eq_eq add_Suc_right)
  then show ?thesis using that n by simp
qed

lemma first_line_row:
  assumes "field_ok n" "n \<noteq> []" "44 \<notin> set l"
  shows "line_row (n @ 44 # l) = Some \<lparr>qr_npub = n, qr_email = trim l\<rparr>"
proof -
  obtain c t where n: "n = c # t" "\<not> is_white c" using field_head [OF assms(1,2)] .
  have comma: "\<not> is_white 44" by (simp add: is_white_def)
  have "trim (n @ 44 # l) = c # rtrim (t @ 44 # l)" using trim_shape [of "[]" c "t @ 44 # l"] n by simp
  also have "\<dots> = n @ 44 # rtrim l" using rtrim_keep [OF comma] n by simp
  finally have t: "trim (n @ 44 # l) = n @ 44 # rtrim l" .
  have "set (rtrim l) \<subseteq> set l" unfolding rtrim_def by (metis set_dropWhileD set_rev subsetI)
  then have "split_at 44 (n @ 44 # rtrim l) = [n, rtrim l]"
    using assms split_at_none [of 44 "rtrim l"] by (subst split_at_sep) (auto simp: field_ok_def)
  then show ?thesis using t assms(1,2) by (simp add: line_row_def Let_def parse_queue_line_def field_ok_def trim_of_rtrim)
qed

lemma load_text_row:
  assumes "field_ok n" "n \<noteq> []" "44 \<notin> set e"
  shows "List.map_filter line_row (map strip_cr (split_at 10 (n @ 44 # e))) = [\<lparr>qr_npub = n, qr_email = kept_email e\<rparr>]"
proof -
  have n: "10 \<notin> set (n @ [44])" using assms(1) by (simp add: field_ok_def)
  have sp: "split_at 10 (n @ 44 # e) = (n @ 44 # hd (split_at 10 e)) # tl (split_at 10 e)"
    using split_at_prefix [OF n, of e] by simp
  have cr: "line_row (strip_cr l) = line_row l" for l by (simp add: line_row_def trim_strip_cr)
  have parts: "44 \<notin> set l" if "l \<in> set (split_at 10 e)" for l using split_at_parts [OF that] assms(3) by blast
  have h: "44 \<notin> set (hd (split_at 10 e))" by (rule parts) simp
  have "List.map_filter line_row (map strip_cr ls) = []" if "\<forall>l\<in>set ls. 44 \<notin> set l" for ls
    using that by (induction ls) (simp_all add: map_filter_simps cr no_comma_line)
  then have "List.map_filter line_row (map strip_cr (tl (split_at 10 e))) = []"
    using parts by (metis list.set_sel(2) split_at_nonempty)
  then show ?thesis unfolding sp using first_line_row [OF assms(1,2) h]
    by (simp add: map_filter_simps cr kept_email_def)
qed

lemma load_queue_text:
  assumes "\<forall>r\<in>set rows. field_ok (qr_npub r) \<and> qr_npub r \<noteq> [] \<and> 44 \<notin> set (qr_email r)"
  shows "load_queue (Some (queue_text rows)) = Ok (map (\<lambda>r. \<lparr>qr_npub = qr_npub r, qr_email = kept_email (qr_email r)\<rparr>) rows)"
proof -
  have "List.map_filter line_row (text_lines (queue_text rows)) = map (\<lambda>r. \<lparr>qr_npub = qr_npub r, qr_email = kept_email (qr_email r)\<rparr>) rows"
    using assms
  proof (induction rows)
    case Nil
    then show ?case by (simp add: queue_text_def text_lines_def map_filter_simps)
  next
    case (Cons r rows)
    have split: "queue_text (r # rows) = (qr_npub r @ 44 # qr_email r) @ 10 # queue_text rows" by (simp add: queue_text_def)
    have "List.map_filter line_row (map strip_cr (split_at 10 (qr_npub r @ 44 # qr_email r)))
        = [\<lparr>qr_npub = qr_npub r, qr_email = kept_email (qr_email r)\<rparr>]"
      using Cons.prems by (intro load_text_row) simp_all
    moreover have "List.map_filter f (xs @ ys) = List.map_filter f xs @ List.map_filter f ys" for f :: "utext \<Rightarrow> queue_row option" and xs ys
      by (simp add: List.map_filter_def)
    ultimately show ?case using Cons unfolding split text_lines_append by simp
  qed
  then show ?thesis by (simp add: load_queue_def)
qed

text \<open>Every row that is read back has clean fields.\<close>

lemma load_rows_ok:
  assumes "load_queue file = Ok rows" "r \<in> set rows"
  shows "row_ok r"
proof -
  obtain t where t: "file = Some t" "rows = List.map_filter line_row (text_lines t)"
    using assms(1) by (cases "file") (auto simp: load_queue_def)
  then obtain raw where raw: "raw \<in> set (text_lines t)" "line_row raw = Some r"
    using assms(2) by (force simp: List.map_filter_def)
  have "10 \<notin> set raw"
    using raw(1) split_at_parts [of _ 10 t]
    by (auto simp: text_lines_def Let_def strip_cr_def dest: in_set_butlastD split: if_splits)
  then have nl: "10 \<notin> set (trim raw)" using trim_subset by blast
  from raw(2) obtain a b where ab: "split_at 44 (trim raw) = [a, b]" "r = \<lparr>qr_npub = trim a, qr_email = trim b\<rparr>" "trim a \<noteq> []"
    by (auto simp: line_row_def Let_def parse_queue_line_def split: if_splits list.splits)
  have "44 \<notin> set x \<and> 10 \<notin> set x" if "x \<in> {a, b}" for x
    using split_at_parts [of x 44 "trim raw"] that ab(1) nl by auto
  then have "field_ok (trim x)" if "x \<in> {a, b}" for x
    using that trim_subset [of x] by (auto simp: field_ok_def trim_idem)
  then show ?thesis using ab(2,3) by (simp add: row_ok_def)
qed

section \<open>Submissions\<close>

text \<open>What the queue holds after a key was submitted.\<close>

definition put_row :: "utext \<Rightarrow> utext \<Rightarrow> queue_row list \<Rightarrow> queue_row list" where
  "put_row npub email rows =
     (if npub \<in> qr_npub ` set rows then map (\<lambda>r. if qr_npub r = npub then r\<lparr>qr_email := email\<rparr> else r) rows
      else rows @ [\<lparr>qr_npub = npub, qr_email = email\<rparr>])"

lemma update_email_None: "update_email npub email rows = None \<longleftrightarrow> npub \<notin> qr_npub ` set rows"
  by (induction rows) (auto simp: Let_def)

lemma update_email_Some:
  assumes "distinct (map qr_npub rows)" "update_email npub email rows = Some (rows', out)"
  shows "rows' = map (\<lambda>r. if qr_npub r = npub then r\<lparr>qr_email := email\<rparr> else r) rows \<and> out = \<lparr>qr_npub = npub, qr_email = email\<rparr>
    \<and> npub \<in> qr_npub ` set rows"
  using assms
proof (induction rows arbitrary: rows')
  case (Cons r rows)
  show ?case
  proof (cases "qr_npub r = npub")
    case True
    then have "map (\<lambda>r. if qr_npub r = npub then r\<lparr>qr_email := email\<rparr> else r) rows = rows"
      using Cons.prems(1) by (intro map_idI) (auto simp: image_iff)
    then show ?thesis using Cons.prems(2) True by (cases r) (auto simp: Let_def)
  next
    case False
    then obtain rows1 where "update_email npub email rows = Some (rows1, out)" "rows' = r # rows1" using Cons.prems(2) by auto
    then show ?thesis using Cons.IH [of rows1] Cons.prems(1) False by auto
  qed
qed simp

lemma kept_row: "row_ok r \<Longrightarrow> \<lparr>qr_npub = qr_npub r, qr_email = kept_email (qr_email r)\<rparr> = r"
  by (cases r) (simp add: row_ok_def kept_email_id)

lemma load_put_row:
  assumes "\<forall>r\<in>set rows. row_ok r" "field_ok npub" "npub \<noteq> []" "44 \<notin> set email"
  shows "load_queue (Some (queue_text (put_row npub email rows))) = Ok (put_row npub (kept_email email) rows)"
proof -
  let ?keep = "\<lambda>r. \<lparr>qr_npub = qr_npub r, qr_email = kept_email (qr_email r)\<rparr>"
  have ok: "field_ok (qr_npub r) \<and> qr_npub r \<noteq> [] \<and> 44 \<notin> set (qr_email r)" if "r \<in> set (put_row npub email rows)" for r
    using that assms by (auto simp: put_row_def row_ok_def field_ok_def split: if_splits)
  have old: "?keep r = r" if "r \<in> set rows" for r using kept_row assms(1) that by blast
  have "map ?keep (put_row npub email rows) = put_row npub (kept_email email) rows"
    using old by (auto simp: put_row_def comp_def intro!: map_idI)
  then show ?thesis using load_queue_text [of "put_row npub email rows"] ok by simp
qed

lemma put_row_npubs: "distinct (map qr_npub rows) \<Longrightarrow> distinct (map qr_npub (put_row npub email rows))"
  by (auto simp: put_row_def comp_def if_distrib cong: if_cong)

lemma submit_rows_spec:
  assumes rows: "load_queue (qs_file st) = Ok rows" "distinct (map qr_npub rows)"
    and run: "submit_rows wr st npub email = (st', r)"
  shows "case r of
      Ok out \<Rightarrow> out = \<lparr>qr_npub = npub, qr_email = email\<rparr> \<and> qs_file st' = Some (queue_text (put_row npub email rows))
        \<and> (npub \<in> qr_npub ` set rows \<or> length rows < qc_max_rows (qs_caps st))
    | Err e \<Rightarrow> st' = st \<and> (e = CapExceeded \<or> e = QueueIo)
    | Panic _ \<Rightarrow> False"
proof (cases "update_email npub email rows")
  case None
  then have "npub \<notin> qr_npub ` set rows" by (simp add: update_email_None)
  then show ?thesis using run rows(1) None
    by (auto simp: submit_rows_def write_queue_def put_row_def Let_def split: if_splits)
next
  case (Some x)
  obtain rows' out where x: "x = (rows', out)" by (cases x)
  have "rows' = put_row npub email rows" "out = \<lparr>qr_npub = npub, qr_email = email\<rparr>" "npub \<in> qr_npub ` set rows"
    using update_email_Some [OF rows(2) Some [unfolded x]] by (auto simp: put_row_def)
  then show ?thesis using run rows(1) Some x
    by (auto simp: submit_rows_def write_queue_def split: if_splits)
qed

text \<open>The rate limits only touch the counters.\<close>

lemma hits_of_upd [simp]: "hits_of (m(k \<mapsto> hs)) k' = (if k' = k then hs else hits_of m k')"
  by (simp add: hits_of_def)

lemma check_ip_spec:
  assumes "check_ip st ip now = (st1, allowed)"
  shows "qs_caps st1 = qs_caps st \<and> qs_file st1 = qs_file st \<and> qs_npub_hits st1 = qs_npub_hits st
    \<and> (if ip = Some a
       then rate_ok (hits_of (qs_ip_hits st) a) now (qc_window_secs (qs_caps st)) (qc_per_ip (qs_caps st)) = (hits_of (qs_ip_hits st1) a, allowed)
       else hits_of (qs_ip_hits st1) a = hits_of (qs_ip_hits st) a)"
  using assms by (auto simp: check_ip_def split: option.splits prod.splits)

lemma check_npub_spec:
  assumes "check_npub st pk now = (st1, allowed)"
  shows "qs_caps st1 = qs_caps st \<and> qs_file st1 = qs_file st \<and> qs_ip_hits st1 = qs_ip_hits st
    \<and> (if k = pk
       then rate_ok (hits_of (qs_npub_hits st) k) now (qc_window_secs (qs_caps st)) (qc_per_npub (qs_caps st)) = (hits_of (qs_npub_hits st1) k, allowed)
       else hits_of (qs_npub_hits st1) k = hits_of (qs_npub_hits st) k)"
  using assms by (auto simp: check_npub_def split: prod.splits)

lemma submit_rows_counters:
  "submit_rows wr st npub email = (st', r) \<Longrightarrow>
   qs_caps st' = qs_caps st \<and> qs_ip_hits st' = qs_ip_hits st \<and> qs_npub_hits st' = qs_npub_hits st"
  by (auto simp: submit_rows_def Let_def split: outcome.splits option.splits prod.splits if_splits)

text \<open>The ways a submission ends.\<close>

lemma submit_cases:
  assumes "submit nl wr st ip npub email now = (st', r)"
  obtains (invalid) e where "st' = st" "r = Err e" "e = InvalidNpub \<or> e = InvalidEmail"
  | (ip_limited) "check_ip st ip now = (st', False)" "r = Err RateLimited"
  | (npub_limited) pk st1 where "valid_npub nl npub = Ok pk" "check_ip st ip now = (st1, True)"
      "check_npub st1 pk now = (st', False)" "r = Err RateLimited"
  | (rows) pk st1 st2 where "valid_npub nl npub = Ok pk" "44 \<notin> set email" "check_ip st ip now = (st1, True)"
      "check_npub st1 pk now = (st2, True)" "submit_rows wr st2 npub email = (st', r)"
proof (cases "valid_npub nl npub")
  case (Ok pk)
  obtain st1 a where c1: "check_ip st ip now = (st1, a)" by (cases "check_ip st ip now")
  obtain st2 b where c2: "check_npub st1 pk now = (st2, b)" by (cases "check_npub st1 pk now")
  show ?thesis
  proof (cases "44 \<in> set email")
    case True
    then show ?thesis using assms Ok that(1) [of InvalidEmail] by (simp add: submit_def)
  next
    case False
    then show ?thesis using assms Ok c1 c2 that(2) that(3) [OF Ok] that(4) [OF Ok] by (auto simp: submit_def split: if_splits)
  qed
next
  case (Err e)
  then have "e = InvalidNpub"
    by (auto simp: valid_npub_def parse_pubkey_line_def ok_or_def split: if_splits option.splits)
  then show ?thesis using assms Err that(1) [of e] by (simp add: submit_def)
next
  case (Panic s)
  then show ?thesis by (auto simp: valid_npub_def parse_pubkey_line_def ok_or_def split: if_splits option.splits)
qed

section \<open>The rate limit\<close>

text \<open>A sequence of submissions and their outcomes.\<close>

fun submit_run ::
  "'ev nostr_lib \<Rightarrow> 'ip queue_store \<Rightarrow> (bool \<times> 'ip option \<times> utext \<times> utext \<times> nat) list
    \<Rightarrow> (queue_error, queue_row) outcome list"
where
  "submit_run nl st [] = []"
| "submit_run nl st ((wr, ip, npub, email, now) # reqs) =
     (case submit nl wr st ip npub email now of (st', r) \<Rightarrow> r # submit_run nl st' reqs)"

text \<open>The times of the accepted submissions of a key, and of an address.\<close>

fun accepted_times ::
  "((bool \<times> 'ip option \<times> utext \<times> utext \<times> nat) \<Rightarrow> bool) \<Rightarrow> (bool \<times> 'ip option \<times> utext \<times> utext \<times> nat) list
    \<Rightarrow> (queue_error, queue_row) outcome list \<Rightarrow> nat list"
where
  "accepted_times who (req # reqs) (r # rs) =
     (if who req \<and> is_ok r then snd (snd (snd (snd req))) # accepted_times who reqs rs else accepted_times who reqs rs)"
| "accepted_times who _ _ = []"

lemma rate_ok_cases:
  assumes "rate_ok hits now window limit = (hits', allowed)" "limit < 2 ^ 32"
  shows "hits' = (if allowed then filter (\<lambda>t. now - t < window) hits @ [now] else filter (\<lambda>t. now - t < window) hits)
    \<and> (allowed \<longrightarrow> length hits \<le> limit \<longrightarrow> length (filter (\<lambda>t. now - t < window) hits) < limit) \<and> (length hits \<le> limit \<longrightarrow> length hits' \<le> limit)"
proof -
  let ?k = "filter (\<lambda>t. now - t < window) hits"
  have le: "length ?k \<le> length hits" by simp
  show ?thesis
  proof (cases "length hits \<le> limit")
    case True
    then have "length ?k < 2 ^ 32" using le assms(2) by linarith
    then have "length ?k mod 2 ^ 32 = length ?k" by (rule mod_less)
    moreover have "length ?k \<le> limit" using le True by linarith
    ultimately show ?thesis using assms(1) True by (auto simp: rate_ok_def Let_def not_le split: if_splits)
  qed (use assms in \<open>auto simp: rate_ok_def Let_def split: if_splits\<close>)
qed

text \<open>
  What the hits of a key remember of the accepted times: from the last time on, at least as many recent
  ones, and in no window more accepted ones than the limit.
\<close>

definition rate_inv :: "nat \<Rightarrow> nat \<Rightarrow> nat \<Rightarrow> nat list \<Rightarrow> nat list \<Rightarrow> bool" where
  "rate_inv window limit last_time hits accs \<longleftrightarrow>
     length hits \<le> limit
     \<and> (\<forall>t\<ge>last_time. length (filter (\<lambda>a. t - a < window) accs) \<le> length (filter (\<lambda>a. t - a < window) hits))
     \<and> (\<forall>t. length (filter (\<lambda>a. a \<le> t \<and> t - a < window) accs) \<le> limit)"

lemma rate_inv_later: "rate_inv w l t hits accs \<Longrightarrow> t \<le> t' \<Longrightarrow> rate_inv w l t' hits accs"
  by (simp add: rate_inv_def)

lemma filter_recent:
  assumes "now \<le> (t :: nat)"
  shows "filter (\<lambda>a. t - a < w) (filter (\<lambda>a. now - a < w) xs) = filter (\<lambda>a. t - a < w) xs"
  using assms by (induction xs) auto

lemma rate_inv_step:
  assumes inv: "rate_inv window limit last_time hits accs" and lim: "limit < 2 ^ 32" and now: "last_time \<le> now"
    and run: "rate_ok hits now window limit = (hits', allowed)" and counted: "counted \<Longrightarrow> allowed"
  shows "rate_inv window limit now hits' (if counted then accs @ [now] else accs)"
proof -
  let ?kept = "filter (\<lambda>t. now - t < window) hits"
  let ?in = "\<lambda>t xs. filter (\<lambda>a. a \<le> t \<and> t - a < window) xs" and ?rec = "\<lambda>t xs. filter (\<lambda>a. t - a < window) xs"
  have i: "length hits \<le> limit" "\<And>t. last_time \<le> t \<Longrightarrow> length (?rec t accs) \<le> length (?rec t hits)"
      "\<And>t. length (?in t accs) \<le> limit"
    using inv by (auto simp: rate_inv_def)
  have r: "hits' = (if allowed then ?kept @ [now] else ?kept)" "allowed \<longrightarrow> length ?kept < limit" "length hits' \<le> limit"
    using rate_ok_cases [OF run lim] i(1) by auto
  have rec: "length (?rec t (if counted then accs @ [now] else accs)) \<le> length (?rec t hits')" if t: "now \<le> t" for t
  proof -
    have "?rec t ?kept = ?rec t hits" by (rule filter_recent [OF t])
    moreover have "length (?rec t accs) \<le> length (?rec t hits)" using i(2) now t by (meson le_trans)
    ultimately show ?thesis using r(1) counted by auto
  qed
  have "length (?in t (if counted then accs @ [now] else accs)) \<le> limit" for t
  proof (cases "counted \<and> now \<le> t \<and> t - now < window")
    case True
    have "length (?in t accs) \<le> length (?rec now accs)"
      unfolding length_filter_conv_card using True by (intro card_mono) auto
    also have "\<dots> \<le> length ?kept" by (rule i(2) [OF now])
    finally show ?thesis using True r(2) counted by auto
  next
    case False
    then show ?thesis using i(3) [of t] by auto
  qed
  then show ?thesis using rec r(3) by (simp add: rate_inv_def)
qed

text \<open>
  The contract of a counter: a submission either leaves it alone and is not one of those it counts, or
  goes through the limit, and is only accepted if the limit allows it.
\<close>

type_synonym 'ip request = "bool \<times> 'ip option \<times> utext \<times> utext \<times> nat"

abbreviation req_time :: "'ip request \<Rightarrow> nat" where
  "req_time req \<equiv> snd (snd (snd (snd req)))"

locale rate_limited =
  fixes nl :: "'ev nostr_lib"
    and who :: "'ip request \<Rightarrow> bool"
    and hits :: "'ip queue_store \<Rightarrow> nat list"
    and cap :: "queue_caps \<Rightarrow> nat"
  assumes submit_law: "submit nl wr st ip npub email now = (st', r) \<Longrightarrow>
      qs_caps st' = qs_caps st
      \<and> (hits st' = hits st \<and> \<not> (who (wr, ip, npub, email, now) \<and> is_ok r)
         \<or> (\<exists>allowed. rate_ok (hits st) now (qc_window_secs (qs_caps st)) (cap (qs_caps st)) = (hits st', allowed)
              \<and> (who (wr, ip, npub, email, now) \<and> is_ok r \<longrightarrow> allowed)))"
begin

lemma run_bounded:
  assumes "rate_inv (qc_window_secs (qs_caps st)) (cap (qs_caps st)) last_time (hits st) accs"
    and "cap (qs_caps st) < 2 ^ 32" and "sorted (last_time # map req_time reqs)"
  shows "length (filter (\<lambda>a. a \<le> t \<and> t - a < qc_window_secs (qs_caps st)) (accs @ accepted_times who reqs (submit_run nl st reqs)))
    \<le> cap (qs_caps st)"
  using assms
proof (induction reqs arbitrary: st accs last_time)
  case Nil
  then show ?case by (simp add: rate_inv_def)
next
  case (Cons req reqs)
  obtain wr ip npub email now where req: "req = (wr, ip, npub, email, now)" by (cases req)
  obtain st' r where run: "submit nl wr st ip npub email now = (st', r)" by (cases "submit nl wr st ip npub email now")
  let ?counted = "who req \<and> is_ok r"
  have caps: "qs_caps st' = qs_caps st" using submit_law [OF run] by blast
  have le: "last_time \<le> now" and srt: "sorted (now # map req_time reqs)" using Cons.prems(3) req by auto
  have "rate_inv (qc_window_secs (qs_caps st)) (cap (qs_caps st)) now (hits st') (if ?counted then accs @ [now] else accs)"
    using submit_law [OF run, THEN conjunct2]
  proof (elim disjE conjE exE)
    assume "hits st' = hits st" "\<not> (who (wr, ip, npub, email, now) \<and> is_ok r)"
    then show ?thesis using rate_inv_later [OF Cons.prems(1) le] unfolding req by (simp only: if_False)
  next
    fix allowed assume "rate_ok (hits st) now (qc_window_secs (qs_caps st)) (cap (qs_caps st)) = (hits st', allowed)"
      "who (wr, ip, npub, email, now) \<and> is_ok r \<longrightarrow> allowed"
    then show ?thesis using rate_inv_step [OF Cons.prems(1,2) le, of "hits st'" allowed ?counted] req by blast
  qed
  from Cons.IH [OF this [folded caps] _ srt] Cons.prems(2) caps
  have "length (filter (\<lambda>a. a \<le> t \<and> t - a < qc_window_secs (qs_caps st))
      ((if ?counted then accs @ [now] else accs) @ accepted_times who reqs (submit_run nl st' reqs))) \<le> cap (qs_caps st)" by simp
  then show ?case using run req by (auto split: if_splits)
qed

lemma window_bounded:
  assumes "hits st = []" "cap (qs_caps st) < 2 ^ 32" "sorted (map req_time reqs)"
  shows "length (filter (\<lambda>a. a \<le> t \<and> t - a < qc_window_secs (qs_caps st)) (accepted_times who reqs (submit_run nl st reqs)))
    \<le> cap (qs_caps st)"
proof -
  have "rate_inv (qc_window_secs (qs_caps st)) (cap (qs_caps st)) 0 (hits st) []" using assms(1) by (simp add: rate_inv_def)
  from run_bounded [OF this assms(2), of reqs t] assms(3) show ?thesis by simp
qed

end

lemma submit_caps: "submit nl wr st ip npub email now = (st', r) \<Longrightarrow> qs_caps st' = qs_caps st"
  by (elim submit_cases) (auto dest!: submit_rows_counters check_ip_spec check_npub_spec)

interpretation npub_limit: rate_limited nl "\<lambda>(wr, ip, npub, email, now). valid_npub nl npub = Ok pk"
  "\<lambda>st. hits_of (qs_npub_hits st) pk" qc_per_npub
  for nl pk
proof
  fix wr ip npub email now and st st' :: "'b queue_store" and r
  assume run: "submit nl wr st ip npub email now = (st', r)"
  let ?counted = "(case (wr, ip, npub, email, now) of (wr, ip, npub, email, now) \<Rightarrow> valid_npub nl npub = Ok pk) \<and> is_ok r"
  have "hits_of (qs_npub_hits st') pk = hits_of (qs_npub_hits st) pk \<and> \<not> ?counted
     \<or> (\<exists>allowed. rate_ok (hits_of (qs_npub_hits st) pk) now (qc_window_secs (qs_caps st)) (qc_per_npub (qs_caps st))
            = (hits_of (qs_npub_hits st') pk, allowed) \<and> (?counted \<longrightarrow> allowed))"
    using run
  proof (cases rule: submit_cases)
    case ip_limited
    then show ?thesis using check_ip_spec [OF ip_limited(1)] by simp
  next
    case (npub_limited k st1)
    then show ?thesis using check_ip_spec [OF npub_limited(2)] check_npub_spec [OF npub_limited(3), of pk] by (auto split: if_splits)
  next
    case (rows k st1 st2)
    then show ?thesis using check_ip_spec [OF rows(3)] check_npub_spec [OF rows(4), of pk] submit_rows_counters [OF rows(5)]
      by (auto split: if_splits)
  qed simp
  then show "qs_caps st' = qs_caps st \<and>
    (hits_of (qs_npub_hits st') pk = hits_of (qs_npub_hits st) pk \<and> \<not> ?counted
     \<or> (\<exists>allowed. rate_ok (hits_of (qs_npub_hits st) pk) now (qc_window_secs (qs_caps st)) (qc_per_npub (qs_caps st))
            = (hits_of (qs_npub_hits st') pk, allowed) \<and> (?counted \<longrightarrow> allowed)))"
    using submit_caps [OF run] by blast
qed

interpretation ip_limit: rate_limited nl "\<lambda>(wr, ip, npub, email, now). ip = Some a" "\<lambda>st. hits_of (qs_ip_hits st) a" qc_per_ip
  for nl a
proof
  fix wr ip npub email now and st st' :: "'b queue_store" and r
  assume run: "submit nl wr st ip npub email now = (st', r)"
  let ?counted = "(case (wr, ip, npub, email, now) of (wr, ip, npub, email, now) \<Rightarrow> ip = Some a) \<and> is_ok r"
  have "hits_of (qs_ip_hits st') a = hits_of (qs_ip_hits st) a \<and> \<not> ?counted
     \<or> (\<exists>allowed. rate_ok (hits_of (qs_ip_hits st) a) now (qc_window_secs (qs_caps st)) (qc_per_ip (qs_caps st))
            = (hits_of (qs_ip_hits st') a, allowed) \<and> (?counted \<longrightarrow> allowed))"
    using run
  proof (cases rule: submit_cases)
    case ip_limited
    then show ?thesis using check_ip_spec [OF ip_limited(1), of a] by (auto split: if_splits)
  next
    case (npub_limited k st1)
    then show ?thesis using check_ip_spec [OF npub_limited(2), of a] check_npub_spec [OF npub_limited(3)] by (auto split: if_splits)
  next
    case (rows k st1 st2)
    then show ?thesis using check_ip_spec [OF rows(3), of a] check_npub_spec [OF rows(4)] submit_rows_counters [OF rows(5)]
      by (auto split: if_splits)
  qed simp
  then show "qs_caps st' = qs_caps st \<and>
    (hits_of (qs_ip_hits st') a = hits_of (qs_ip_hits st) a \<and> \<not> ?counted
     \<or> (\<exists>allowed. rate_ok (hits_of (qs_ip_hits st) a) now (qc_window_secs (qs_caps st)) (qc_per_ip (qs_caps st))
            = (hits_of (qs_ip_hits st') a, allowed) \<and> (?counted \<longrightarrow> allowed)))"
    using submit_caps [OF run] by blast
qed

section \<open>The operator's commands\<close>

lemma parse_allowlist_strip_cr: "parse_allowlist_lines nl (map strip_cr ls) keys = parse_allowlist_lines nl ls keys"
  by (induction nl ls keys rule: parse_allowlist_lines.induct)
    (auto simp: skipped_line_def trim_strip_cr split: outcome.splits)

lemma parse_allowlist_unlines:
  assumes "\<forall>l\<in>set ls. 10 \<notin> set l"
  shows "parse_allowlist_file nl (Some (unlines ls)) = parse_allowlist_lines nl ls {}"
proof -
  have "text_lines (unlines ls) = map strip_cr ls" using assms by (simp add: text_lines_def Let_def split_unlines)
  then show ?thesis by (simp add: parse_allowlist_file_def parse_allowlist_strip_cr)
qed

lemma fsync_lines_unlines: "fsync_lines wr ls = (if wr then Ok (unlines ls) else Err QueueIo)"
  by (simp add: fsync_lines_def unlines_def)

text \<open>A text that parses as a key is clean, and is not skipped.\<close>

definition keys_clean :: "'ev nostr_lib \<Rightarrow> bool" where
  "keys_clean nl \<longleftrightarrow> (\<forall>s pk. nl_parse_pubkey nl s = Some pk \<longrightarrow> (\<forall>c\<in>set s. \<not> is_white c \<and> c \<noteq> 44))"

lemma valid_npub_parse: "valid_npub nl npub = Ok pk \<longleftrightarrow> starts_with npub (lit ''npub1'') \<and> nl_parse_pubkey nl npub = Some pk"
  by (auto simp: valid_npub_def parse_pubkey_line_def ok_or_def split: option.splits)

lemma valid_npub_field:
  assumes "keys_clean nl" "valid_npub nl npub = Ok pk"
  shows "field_ok npub \<and> npub \<noteq> [] \<and> \<not> skipped_line npub \<and> nl_parse_pubkey nl (trim npub) = Some pk"
proof -
  have p: "starts_with npub (lit ''npub1'')" "nl_parse_pubkey nl npub = Some pk" using assms(2) by (auto simp: valid_npub_parse)
  have c: "\<forall>c\<in>set npub. \<not> is_white c \<and> c \<noteq> 44" by (rule assms(1) [unfolded keys_clean_def, THEN spec, THEN spec, THEN mp, OF p(2)])
  then have t: "trim npub = npub" by (simp add: trimmed_no_white)
  moreover have "10 \<notin> set npub"
  proof
    assume "10 \<in> set npub"
    then have "\<not> is_white 10" using c by blast
    then show False by (simp add: is_white_def)
  qed
  moreover have "npub \<noteq> []" "\<not> starts_with npub (lit ''#'')" using p(1) by (auto simp: starts_with_iff lit_def)
  ultimately show ?thesis using c p(2) by (auto simp: field_ok_def skipped_line_def)
qed

lemma listed_keys_Cons:
  "listed_keys nl (raw # ls) = (if skipped_line raw then {} else set_option (nl_parse_pubkey nl (trim raw))) \<union> listed_keys nl ls"
  by (auto simp: listed_keys_def)

lemma lines_valid_Cons:
  "lines_valid nl (raw # ls) \<longleftrightarrow> (skipped_line raw \<or> nl_parse_pubkey nl (trim raw) \<noteq> None) \<and> lines_valid nl ls"
  by (auto simp: lines_valid_def)

lemma upsert_lines_spec:
  assumes "\<not> skipped_line npub" "nl_parse_pubkey nl (trim npub) = Some pk" "upsert_lines nl pk npub ls = (kept, found)"
  shows "listed_keys nl kept = listed_keys nl ls \<and> (found \<longleftrightarrow> pk \<in> listed_keys nl ls) \<and> (lines_valid nl kept \<longleftrightarrow> lines_valid nl ls)
    \<and> set kept \<subseteq> insert npub (set ls)"
  using assms(3)
proof (induction ls arbitrary: kept found)
  case Nil
  then show ?case by (simp add: listed_keys_def)
next
  case (Cons raw ls)
  obtain kept' found' where rest: "upsert_lines nl pk npub ls = (kept', found')" by (cases "upsert_lines nl pk npub ls")
  show ?case using Cons.IH [OF rest] Cons.prems rest assms(1,2)
    by (auto simp: listed_keys_Cons lines_valid_Cons parse_pubkey_line_def ok_or_def split: if_splits option.splits)
qed

lemma remove_lines_spec:
  "listed_keys nl (remove_lines nl pk ls) = listed_keys nl ls - {pk}
    \<and> (lines_valid nl ls \<longrightarrow> lines_valid nl (remove_lines nl pk ls)) \<and> set (remove_lines nl pk ls) \<subseteq> set ls"
proof (induction ls)
  case Nil
  then show ?case by (simp add: listed_keys_def)
next
  case (Cons raw ls)
  then show ?case
    by (auto simp: listed_keys_Cons lines_valid_Cons parse_pubkey_line_def ok_or_def split: if_splits option.splits)
qed

text \<open>The keys of an allowlist file that may not exist yet.\<close>

definition file_keys :: "'ev nostr_lib \<Rightarrow> utext option \<Rightarrow> (auth_error, bytes set) outcome" where
  "file_keys nl allow = (case allow of None \<Rightarrow> Ok {} | Some _ \<Rightarrow> parse_allowlist_file nl allow)"

lemma file_keys_lines:
  "file_keys nl allow = Ok keys \<Longrightarrow>
     lines_valid nl (text_lines (case allow of Some t \<Rightarrow> t | None \<Rightarrow> [])) \<and>
     keys = listed_keys nl (text_lines (case allow of Some t \<Rightarrow> t | None \<Rightarrow> []))"
  by (auto simp: file_keys_def parse_allowlist_file_def parse_allowlist_lines_spec text_lines_def lines_valid_def listed_keys_def
      split: option.splits if_splits)

lemma upsert_allowlist_keys:
  assumes clean: "keys_clean nl" and npub: "valid_npub nl npub = Ok pk" and keys: "file_keys nl allow = Ok keys"
    and run: "upsert_allowlist nl wr allow npub = Ok contents"
  shows "parse_allowlist_file nl (Some contents) = Ok (insert pk keys)"
proof -
  let ?ls = "text_lines (case allow of Some t \<Rightarrow> t | None \<Rightarrow> [])"
  obtain kept found where k: "upsert_lines nl pk npub ?ls = (kept, found)" by (cases "upsert_lines nl pk npub ?ls")
  note ok = valid_npub_field [OF clean npub] and fk = file_keys_lines [OF keys]
  have spec: "listed_keys nl kept = keys" "found \<longleftrightarrow> pk \<in> keys" "lines_valid nl kept" "set kept \<subseteq> insert npub (set ?ls)"
    using upsert_lines_spec [OF _ _ k] ok fk by auto
  let ?out = "if found then kept else kept @ [npub]"
  have c: "contents = unlines ?out" using run npub k by (simp add: upsert_allowlist_def fsync_lines_unlines split: if_splits)
  have "\<forall>l\<in>set ?out. 10 \<notin> set l" using spec(4) ok text_lines_clean by (auto simp: field_ok_def split: if_splits)
  moreover have "lines_valid nl ?out \<and> listed_keys nl ?out = insert pk keys"
    using spec ok by (auto simp: lines_valid_def listed_keys_def)
  ultimately show ?thesis unfolding c by (simp add: parse_allowlist_unlines parse_allowlist_lines_spec)
qed

section \<open>Properties\<close>

text \<open>C22: a submission that is accepted reports the row it was given, and the file then holds, for that
  key and no other, the first line of the email, at the place the key had or at the end below the row
  cap; keys stay unique. A submission that is refused leaves the file as it was, and none panics.\<close>

theorem submit_effect:
  assumes "keys_clean nl" and rows: "load_queue (qs_file st) = Ok rows" "distinct (map qr_npub rows)"
    and run: "submit nl wr st ip npub email now = (st', r)"
  shows "case r of
      Ok out \<Rightarrow> out = \<lparr>qr_npub = npub, qr_email = email\<rparr>
        \<and> load_queue (qs_file st') = Ok (put_row npub (kept_email email) rows)
        \<and> distinct (map qr_npub (put_row npub (kept_email email) rows))
        \<and> (npub \<in> qr_npub ` set rows \<or> length rows < qc_max_rows (qs_caps st))
    | Err e \<Rightarrow> qs_file st' = qs_file st \<and> e \<in> {InvalidNpub, InvalidEmail, RateLimited, CapExceeded, QueueIo}
    | Panic _ \<Rightarrow> False"
  using run
proof (cases rule: submit_cases)
  case ip_limited
  then show ?thesis using check_ip_spec [OF ip_limited(1)] by simp
next
  case (npub_limited pk st1)
  then show ?thesis using check_ip_spec [OF npub_limited(2)] check_npub_spec [OF npub_limited(3)] by simp
next
  case (rows pk st1 st2)
  have st2: "qs_file st2 = qs_file st" "qs_caps st2 = qs_caps st"
    using check_ip_spec [OF rows(3)] check_npub_spec [OF rows(4)] by simp_all
  have spec: "case r of
      Ok out \<Rightarrow> out = \<lparr>qr_npub = npub, qr_email = email\<rparr> \<and> qs_file st' = Some (queue_text (put_row npub email rows))
        \<and> (npub \<in> qr_npub ` set rows \<or> length rows < qc_max_rows (qs_caps st2))
    | Err e \<Rightarrow> st' = st2 \<and> (e = CapExceeded \<or> e = QueueIo)
    | Panic _ \<Rightarrow> False"
    by (rule submit_rows_spec [OF _ assms(3) rows(5)]) (simp add: st2 assms(2))
  have "load_queue (Some (queue_text (put_row npub email rows))) = Ok (put_row npub (kept_email email) rows)"
    using valid_npub_field [OF assms(1) rows(1)] load_rows_ok [OF assms(2)] rows(2) by (intro load_put_row) auto
  then show ?thesis using spec st2 put_row_npubs [OF assms(3)] by (cases r) auto
qed auto

definition demo_keys :: "unit nostr_lib" where
  "demo_keys = demo_nostr\<lparr>nl_parse_pubkey := (\<lambda>s. if s = lit ''npub1a'' then Some (demo_hash 1)
     else if s = lit ''npub1b'' then Some (demo_hash 2) else None)\<rparr>"

definition demo_store :: "nat queue_store" where
  "demo_store = \<lparr>qs_file = Some (lit ''npub1a,x'' @ [10]), qs_caps = caps_default, qs_ip_hits = Map.empty, qs_npub_hits = Map.empty\<rparr>"

lemma demo_keys_clean: "keys_clean demo_keys"
  by (simp add: keys_clean_def demo_keys_def lit_def is_white_def)

lemma demo_keys_valid: "valid_npub demo_keys (lit ''npub1a'') = Ok (demo_hash 1)" "valid_npub demo_keys (lit ''npub1b'') = Ok (demo_hash 2)"
  by (simp_all add: valid_npub_parse demo_keys_def lit_def starts_with_def)

lemma demo_load: "load_queue (Some (lit ''npub1a,x'' @ [10])) = Ok [\<lparr>qr_npub = lit ''npub1a'', qr_email = lit ''x''\<rparr>]"
  by (simp add: load_queue_def text_lines_def lit_def strip_cr_def map_filter_simps line_row_def trim_def is_white_def
      parse_queue_line_def)

theorem submit_effect_witness:
  "\<exists>st'. submit demo_keys True demo_store (Some 7) (lit ''npub1b'') (lit ''y'') 100 = (st', Ok \<lparr>qr_npub = lit ''npub1b'', qr_email = lit ''y''\<rparr>)
     \<and> load_queue (qs_file st') = Ok [\<lparr>qr_npub = lit ''npub1a'', qr_email = lit ''x''\<rparr>, \<lparr>qr_npub = lit ''npub1b'', qr_email = lit ''y''\<rparr>]"
proof -
  let ?rows = "[\<lparr>qr_npub = lit ''npub1a'', qr_email = lit ''x''\<rparr>]" and ?y = "lit ''y''" and ?b = "lit ''npub1b''"
  have ne: "lit ''npub1a'' \<noteq> ?b" "44 \<notin> set ?y" by (simp_all add: lit_def)
  obtain st' r where run: "submit demo_keys True demo_store (Some 7) ?b ?y 100 = (st', r)"
    by (cases "submit demo_keys True demo_store (Some 7) ?b ?y 100")
  have "r = Ok \<lparr>qr_npub = ?b, qr_email = ?y\<rparr>"
    using run ne by (simp add: submit_def demo_keys_valid check_ip_def check_npub_def rate_ok_def hits_of_def submit_rows_def
        demo_store_def caps_default_def demo_load write_queue_def utf8_len_def) (simp add: lit_def write_queue_def Let_def)
  moreover have "kept_email ?y = ?y" by (rule kept_email_id) (simp add: field_ok_def lit_def trim_def is_white_def)
  moreover have "put_row ?b ?y ?rows = ?rows @ [\<lparr>qr_npub = ?b, qr_email = ?y\<rparr>]" using ne by (simp add: put_row_def)
  ultimately show ?thesis
    using submit_effect [OF demo_keys_clean _ _ run, of ?rows] run by (simp add: demo_store_def demo_load)
qed

text \<open>C23: with counters that start empty and a clock that does not go back, no window holds more accepted
  submissions of one key, or of one address, than its limit, whatever the requests are.\<close>

theorem rate_bound:
  assumes "qs_npub_hits st = Map.empty" "qs_ip_hits st = Map.empty"
    and "qc_per_npub (qs_caps st) < 2 ^ 32" "qc_per_ip (qs_caps st) < 2 ^ 32"
    and "sorted (map req_time reqs)"
  shows "length (filter (\<lambda>a. a \<le> t \<and> t - a < qc_window_secs (qs_caps st))
           (accepted_times (\<lambda>(wr, ip, npub, email, now). valid_npub nl npub = Ok pk) reqs (submit_run nl st reqs))) \<le> qc_per_npub (qs_caps st)
     \<and> length (filter (\<lambda>a. a \<le> t \<and> t - a < qc_window_secs (qs_caps st))
           (accepted_times (\<lambda>(wr, ip, npub, email, now). ip = Some a) reqs (submit_run nl st reqs))) \<le> qc_per_ip (qs_caps st)"
  using assms by (intro conjI npub_limit.window_bounded ip_limit.window_bounded) (simp_all add: hits_of_def)

theorem rate_bound_witness:
  "length (filter (\<lambda>a. a \<le> 110 \<and> 110 - a < 60)
     (accepted_times (\<lambda>(wr, ip, npub, email, now). ip = Some (7 :: nat))
        [(True, Some 7, lit ''npub1b'', [], 100), (True, Some 7, lit ''npub1a'', [], 105)]
        (submit_run demo_keys demo_store
           [(True, Some 7, lit ''npub1b'', [], 100), (True, Some 7, lit ''npub1a'', [], 105)]))) \<le> 10"
proof -
  let ?reqs = "[(True, Some 7, lit ''npub1b'', [], 100), (True, Some 7, lit ''npub1a'', [], 105)]"
  have "length (filter (\<lambda>a. a \<le> 110 \<and> 110 - a < qc_window_secs (qs_caps demo_store))
      (accepted_times (\<lambda>(wr, ip, npub, email, now). ip = Some (7 :: nat)) ?reqs (submit_run demo_keys demo_store ?reqs))) \<le> qc_per_ip (qs_caps demo_store)"
    by (rule rate_bound [THEN conjunct2]) (simp_all add: demo_store_def caps_default_def)
  then show ?thesis by (simp add: demo_store_def caps_default_def)
qed

text \<open>Approving a key adds exactly that key to the keys the allowlist file holds and drops its rows
  from the queue; removing it takes exactly that key away. A command that fails leaves the allowlist
  file as it was.\<close>

theorem import_updates_allowlist:
  assumes "keys_clean nl" "valid_npub nl npub = Ok pk" "file_keys nl allow = Ok keys" "load_queue queue = Ok rows"
  shows "(case approve nl wr wr' queue allow npub of
            (queue', allow', Ok _) \<Rightarrow> parse_allowlist_file nl allow' = Ok (insert pk keys)
              \<and> load_queue queue' = Ok (filter (\<lambda>r. qr_npub r \<noteq> npub) rows)
          | (_, allow', _) \<Rightarrow> allow' = allow \<and> \<not> (wr \<and> wr'))
       \<and> (case remove_npub nl wr allow npub of
            (allow', Ok _) \<Rightarrow> parse_allowlist_file nl allow' = Ok (keys - {pk})
          | (allow', _) \<Rightarrow> allow' = allow \<and> \<not> wr)"
proof
  let ?ls = "text_lines (case allow of Some t \<Rightarrow> t | None \<Rightarrow> [])" and ?rows = "filter (\<lambda>r. qr_npub r \<noteq> npub) rows"
  have q: "queue \<noteq> None" using assms(4) by (auto simp: load_queue_def)
  have ok: "row_ok r" if "r \<in> set ?rows" for r using load_rows_ok [OF assms(4)] that by simp
  then have "load_queue (Some (queue_text ?rows)) = Ok (map (\<lambda>r. \<lparr>qr_npub = qr_npub r, qr_email = kept_email (qr_email r)\<rparr>) ?rows)"
    by (intro load_queue_text) (auto simp: row_ok_def field_ok_def)
  also have "\<dots> = Ok ?rows" using ok kept_row by (simp only: outcome.inject map_idI)
  finally have l: "load_queue (Some (queue_text ?rows)) = Ok ?rows" .
  show "case approve nl wr wr' queue allow npub of
            (queue', allow', Ok _) \<Rightarrow> parse_allowlist_file nl allow' = Ok (insert pk keys) \<and> load_queue queue' = Ok ?rows
          | (_, allow', _) \<Rightarrow> allow' = allow \<and> \<not> (wr \<and> wr')"
  proof (cases "wr \<and> wr'")
    case True
    obtain kept found where k: "upsert_lines nl pk npub ?ls = (kept, found)" by (cases "upsert_lines nl pk npub ?ls")
    then obtain contents where c: "upsert_allowlist nl wr' allow npub = Ok contents"
      using assms(2) True by (simp add: upsert_allowlist_def fsync_lines_unlines)
    have "approve nl wr wr' queue allow npub = (Some (queue_text ?rows), Some contents, Ok ())"
      using True assms(2,4) q c by (simp add: approve_def write_queue_def)
    then show ?thesis using upsert_allowlist_keys [OF assms(1,2,3) c] l by simp
  next
    case False
    then have "\<not> wr \<or> wr \<and> upsert_allowlist nl wr' allow npub = Err QueueIo"
      using assms(2) by (auto simp: upsert_allowlist_def fsync_lines_unlines split: prod.splits)
    then show ?thesis using False assms(2,4) q by (auto simp: approve_def write_queue_def)
  qed
  have rm: "\<forall>l\<in>set (remove_lines nl pk ?ls). 10 \<notin> set l" using remove_lines_spec [of nl pk ?ls] text_lines_clean by blast
  have "parse_allowlist_file nl (Some (unlines (remove_lines nl pk ?ls))) = Ok (keys - {pk})"
    using remove_lines_spec [of nl pk ?ls] file_keys_lines [OF assms(3)]
    unfolding parse_allowlist_unlines [OF rm] by (simp add: parse_allowlist_lines_spec)
  then show "case remove_npub nl wr allow npub of
            (allow', Ok _) \<Rightarrow> parse_allowlist_file nl allow' = Ok (keys - {pk})
          | (allow', _) \<Rightarrow> allow' = allow \<and> \<not> wr"
    using assms(2) by (cases wr) (simp_all add: remove_npub_def fsync_lines_unlines)
qed

theorem import_updates_allowlist_witness:
  "parse_allowlist_file demo_keys (fst (snd (approve demo_keys True True (Some (lit ''npub1a,x'' @ [10])) None (lit ''npub1a''))))
     = Ok {demo_hash 1}"
proof -
  have keys: "file_keys demo_keys None = Ok {}" by (simp add: file_keys_def)
  note p = import_updates_allowlist [OF demo_keys_clean demo_keys_valid(1) keys demo_load, where wr = True and wr' = True, THEN conjunct1]
  show ?thesis using p by (auto split: prod.splits outcome.splits)
qed

end
