(* ===== verification/Discovery.thy ===== *)
theory Discovery
  imports Text_Json
begin

text \<open>
  The discovery of other Electrum servers (\<^verbatim>\<open>src/electrum/discovery.rs\<close>, \<^verbatim>\<open>src/electrum/client.rs\<close> and the
  protocol version of \<^verbatim>\<open>src/electrum/mod.rs\<close>; the build with \<open>electrum-discovery\<close>). The queue of health
  checks is the list of its jobs; which of several greatest jobs the binary heap delivers is the
  argument \<open>i\<close> or \<open>pick\<close>. Name resolution, address parsing, case folding and the Electrum client are the record
  \<open>net_env\<close> and the argument \<open>connect\<close>. Times are readings of the monotonic clock in seconds, and a hash
  map of hosts is the list of its entries in iteration order.
\<close>

section \<open>The code\<close>

datatype ip_addr = V4 byte byte byte byte | V6 "u16 list"

definition is_loopback :: "ip_addr \<Rightarrow> bool" where
  "is_loopback ip = (case ip of V4 a _ _ _ \<Rightarrow> a = 127 | V6 segs \<Rightarrow> segs = replicate 7 0 @ [1])"

definition is_unspecified :: "ip_addr \<Rightarrow> bool" where
  "is_unspecified ip = (case ip of V4 a b c d \<Rightarrow> a = 0 \<and> b = 0 \<and> c = 0 \<and> d = 0 | V6 segs \<Rightarrow> segs = replicate 8 0)"

definition is_multicast :: "ip_addr \<Rightarrow> bool" where
  "is_multicast ip = (case ip of V4 a _ _ _ \<Rightarrow> 224 \<le> a \<and> a \<le> 239 | V6 segs \<Rightarrow> (case segs of s # _ \<Rightarrow> unat s div 256 = 255 | [] \<Rightarrow> False))"

definition is_private_v4 :: "byte \<Rightarrow> byte \<Rightarrow> byte \<Rightarrow> byte \<Rightarrow> bool" where
  "is_private_v4 a b c d \<longleftrightarrow> a = 10 \<or> a = 172 \<and> 16 \<le> b \<and> b \<le> 31 \<or> a = 192 \<and> b = 168"

datatype server_addr = Clearnet ip_addr | Onion utext

datatype service = Tcp u16 | Ssl u16

record protocol_version =
  pv_major :: nat
  pv_minor :: nat

definition PROTOCOL_VERSION :: protocol_version where
  "PROTOCOL_VERSION = \<lparr>pv_major = 1, pv_minor = 4\<rparr>"

definition version_le :: "protocol_version \<Rightarrow> protocol_version \<Rightarrow> bool" where
  "version_le a b \<longleftrightarrow> pv_major a < pv_major b \<or> pv_major a = pv_major b \<and> pv_minor a \<le> pv_minor b"

definition version_from_str :: "utext \<Rightarrow> (error_kind, protocol_version) outcome" where
  "version_from_str s =
     (let parts = split_at 46 s in
      bind_out (ok_or (Msg ''missing major'') (first_opt parts)) (\<lambda>p.
      bind_out (ok_or (Msg ''invalid major'') (parse_usize p)) (\<lambda>major.
      bind_out (ok_or (Msg ''missing minor'') (first_opt (tl parts))) (\<lambda>p.
      bind_out (ok_or (Msg ''invalid minor'') (parse_usize p)) (\<lambda>minor.
      Ok \<lparr>pv_major = major, pv_minor = minor\<rparr>)))))"

definition version_display :: "protocol_version \<Rightarrow> utext" where
  "version_display v = show_nat (pv_major v) @ [46] @ show_nat (pv_minor v)"

record server_ports =
  sp_tcp_port :: "u16 option"
  sp_ssl_port :: "u16 option"

record server_features =
  sf_hosts :: "(utext \<times> server_ports) list"
  sf_genesis_hash :: hash
  sf_server_version :: utext
  sf_protocol_min :: protocol_version
  sf_protocol_max :: protocol_version
  sf_pruning :: "nat option"
  sf_hash_function :: utext

text \<open>What the Electrum client reports of a server, and its conversion.\<close>

record server_features_res =
  sr_genesis_hash :: bytes
  sr_server_version :: utext
  sr_protocol_min :: utext
  sr_protocol_max :: utext
  sr_pruning :: "int option"
  sr_hash_function :: "utext option"

definition features_try_from :: "server_features_res \<Rightarrow> (error_kind, server_features) outcome" where
  "features_try_from res =
     (case version_from_str (sr_protocol_min res) of
        Panic s \<Rightarrow> Panic s
      | Err _ \<Rightarrow> Err (Msg ''invalid protocol_min'')
      | Ok protocol_min \<Rightarrow>
          (case version_from_str (sr_protocol_max res) of
             Panic s \<Rightarrow> Panic s
           | Err _ \<Rightarrow> Err (Msg ''invalid protocol_max'')
           | Ok protocol_max \<Rightarrow>
               map_out
                 (\<lambda>hash_function.
                    \<lparr>sf_hosts = [], sf_genesis_hash = rev (sr_genesis_hash res), sf_server_version = sr_server_version res,
                     sf_protocol_min = protocol_min, sf_protocol_max = protocol_max,
                     sf_pruning = map_option (\<lambda>p. nat (p mod 2 ^ 64)) (sr_pruning res), sf_hash_function = hash_function\<rparr>)
                 (ok_or (Msg ''missing hash_function'') (sr_hash_function res))))"

record server =
  sv_services :: "service set"
  sv_hostname :: utext
  sv_features :: server_features

definition server_new :: "utext \<Rightarrow> server_features \<Rightarrow> server" where
  "server_new hostname features = \<lparr>sv_services = {}, sv_hostname = hostname, sv_features = features\<rparr>"

definition service_display :: "service \<Rightarrow> utext" where
  "service_display s = (case s of Tcp port \<Rightarrow> lit ''t'' @ show_nat (unat port) | Ssl port \<Rightarrow> lit ''s'' @ show_nat (unat port))"

text \<open>The features of a server, up to the order of its services.\<close>

definition feature_strs :: "server \<Rightarrow> utext list \<times> utext set" where
  "feature_strs server =
     (let features = sv_features server in
      ((lit ''v'' @ version_display (sf_protocol_max features))
        # (case sf_pruning features of Some pruning \<Rightarrow> [lit ''p'' @ show_nat pruning] | None \<Rightarrow> []),
       service_display ` sv_services server))"

record health_check =
  hc_addr :: server_addr
  hc_hostname :: utext
  hc_service :: service
  hc_is_default :: bool
  hc_added_by :: "ip_addr option"
  hc_last_check :: "nat option"
  hc_last_healthy :: "nat option"
  hc_consecutive_failures :: nat

definition health_check_new :: "server_addr \<Rightarrow> utext \<Rightarrow> service \<Rightarrow> ip_addr option \<Rightarrow> health_check" where
  "health_check_new addr hostname service added_by =
     \<lparr>hc_addr = addr, hc_hostname = hostname, hc_service = service, hc_is_default = (added_by = None),
      hc_added_by = added_by, hc_last_check = None, hc_last_healthy = None, hc_consecutive_failures = 0\<rparr>"

definition is_healthy :: "health_check \<Rightarrow> bool" where
  "is_healthy job =
     (case (hc_last_check job, hc_last_healthy job) of
        (Some last_check, Some last_healthy) \<Rightarrow> last_check = last_healthy
      | _ \<Rightarrow> False)"

definition HEALTH_CHECK_FREQ :: nat where
  "HEALTH_CHECK_FREQ = 3600"

definition MAX_CONSECUTIVE_FAILURES :: nat where
  "MAX_CONSECUTIVE_FAILURES = 24"

definition MAX_QUEUE_SIZE :: nat where
  "MAX_QUEUE_SIZE = 500"

definition MAX_SERVERS_PER_REQUEST :: nat where
  "MAX_SERVERS_PER_REQUEST = 3"

definition MAX_SERVICES_PER_REQUEST :: nat where
  "MAX_SERVICES_PER_REQUEST = 6"

definition should_retry :: "health_check \<Rightarrow> bool" where
  "should_retry job \<longleftrightarrow>
     (hc_last_healthy job \<noteq> None \<or> hc_is_default job) \<and> hc_consecutive_failures job < MAX_CONSECUTIVE_FAILURES"

text \<open>The order of the heap: the job that was checked least recently is the greatest.\<close>

definition job_le :: "health_check \<Rightarrow> health_check \<Rightarrow> bool" where
  "job_le a b =
     (case (hc_last_check b, hc_last_check a) of
        (None, _) \<Rightarrow> True
      | (Some _, None) \<Rightarrow> False
      | (Some tb, Some ta) \<Rightarrow> tb \<le> ta)"

record discovery_manager =
  dm_queue :: "health_check list"
  dm_healthy :: "server_addr \<rightharpoonup> server"
  dm_our_version :: protocol_version
  dm_our_addrs :: "server_addr set"
  dm_our_features :: server_features
  dm_announce :: bool
  dm_tor_proxy :: "utext option"

record net_env =
  ne_lower :: "utext \<Rightarrow> utext"
  ne_parse_ip :: "utext \<Rightarrow> ip_addr option"
  ne_lookup :: "utext \<Rightarrow> ip_addr option"
  ne_show_ip :: "ip_addr \<Rightarrow> utext"

definition resolve :: "net_env \<Rightarrow> utext \<Rightarrow> (error_kind, server_addr) outcome" where
  "resolve env host =
     (if ends_with host (lit ''.onion'') then Ok (Onion host)
      else (case ne_parse_ip env host of
              Some ip \<Rightarrow> Ok (Clearnet ip)
            | None \<Rightarrow> map_out Clearnet (ok_or (Msg ''hostname resolution failed'') (ne_lookup env (host @ lit '':1'')))))"

definition is_remote_addr :: "server_addr \<Rightarrow> bool" where
  "is_remote_addr addr =
     (case addr of
        Onion _ \<Rightarrow> True
      | Clearnet ip \<Rightarrow>
          \<not> is_loopback ip \<and> \<not> is_unspecified ip \<and> \<not> is_multicast ip
          \<and> \<not> (case ip of V4 a b c d \<Rightarrow> is_private_v4 a b c d | V6 _ \<Rightarrow> False))"

definition dm_verify_compatibility :: "discovery_manager \<Rightarrow> server_features \<Rightarrow> (error_kind, unit) outcome" where
  "dm_verify_compatibility d features =
     (if sf_genesis_hash features \<noteq> sf_genesis_hash (dm_our_features d) then Err (Msg ''incompatible networks'')
      else if \<not> (version_le (sf_protocol_min features) (dm_our_version d) \<and> version_le (dm_our_version d) (sf_protocol_max features))
      then Err (Msg ''incompatible protocol versions'')
      else if sf_hash_function features \<noteq> lit ''sha256'' then Err (Msg ''incompatible hash function'')
      else Ok ())"

text \<open>The candidate hosts of a request.\<close>

definition candidate_host ::
  "net_env \<Rightarrow> discovery_manager \<Rightarrow> ip_addr \<Rightarrow> utext \<times> server_ports \<Rightarrow> (server_addr \<times> utext \<times> server_ports) option"
where
  "candidate_host env d added_by entry =
     (let hostname = ne_lower env (fst entry) in
      if 100 < utf8_len hostname then None
      else (case resolve env hostname of
              Ok addr \<Rightarrow>
                if \<not> is_remote_addr addr \<or> addr \<in> dm_our_addrs d then None
                else (case addr of
                        Clearnet ip \<Rightarrow> if ip \<noteq> added_by then None else Some (addr, hostname, snd entry)
                      | Onion _ \<Rightarrow> Some (addr, hostname, snd entry))
            | _ \<Rightarrow> None))"

definition existing_service :: "health_check list \<Rightarrow> server_addr \<Rightarrow> service \<Rightarrow> bool" where
  "existing_service queue addr service = (\<exists>job\<in>set queue. hc_addr job = addr \<and> hc_service job = service)"

definition host_jobs ::
  "health_check list \<Rightarrow> ip_addr \<Rightarrow> server_addr \<times> utext \<times> server_ports \<Rightarrow> health_check list"
where
  "host_jobs queue added_by host =
     (case host of
        (addr, hostname, ports) \<Rightarrow>
          (let services = (case sp_tcp_port ports of Some p \<Rightarrow> [Tcp p] | None \<Rightarrow> []) @ (case sp_ssl_port ports of Some p \<Rightarrow> [Ssl p] | None \<Rightarrow> [])
           in map (\<lambda>service. health_check_new addr hostname service (Some added_by))
                (filter (\<lambda>service. \<not> existing_service queue addr service) services)))"

definition add_server_request ::
  "net_env \<Rightarrow> discovery_manager \<Rightarrow> ip_addr \<Rightarrow> server_features \<Rightarrow> (error_kind, discovery_manager) outcome"
where
  "add_server_request env d added_by features =
     bind_out (dm_verify_compatibility d features) (\<lambda>_.
       if \<not> length (dm_queue d) < MAX_QUEUE_SIZE then Err (Msg ''queue size exceeded'')
       else (let jobs = take MAX_SERVICES_PER_REQUEST
                   (concat (map (host_jobs (dm_queue d) added_by)
                     (List.map_filter (candidate_host env d added_by) (take MAX_SERVERS_PER_REQUEST (sf_hosts features)))))
             in if \<not> length (dm_queue d) + length jobs \<le> MAX_QUEUE_SIZE then Err (Msg ''queue size exceeded'')
                else Ok (d\<lparr>dm_queue := dm_queue d @ jobs\<rparr>)))"

definition add_default_server ::
  "net_env \<Rightarrow> discovery_manager \<Rightarrow> utext \<Rightarrow> service list \<Rightarrow> (error_kind, discovery_manager) outcome"
where
  "add_default_server env d hostname services =
     map_out
       (\<lambda>addr. d\<lparr>dm_queue := dm_queue d @ map (\<lambda>service. health_check_new addr hostname service None) services\<rparr>)
       (resolve env hostname)"

text \<open>The built-in servers.\<close>

definition bitcoin_servers_1 :: "(utext \<times> service list) list" where
  "bitcoin_servers_1 =
     [(lit ''3smoooajg7qqac2y.onion'', [Tcp 50001, Ssl 50002]),
      (lit ''81-7-10-251.blue.kundencontroller.de'', [Ssl 50002]),
      (lit ''E-X.not.fyi'', [Tcp 50001, Ssl 50002]),
      (lit ''VPS.hsmiths.com'', [Tcp 50001, Ssl 50002]),
      (lit ''b.ooze.cc'', [Tcp 50001, Ssl 50002]),
      (lit ''bauerjda5hnedjam.onion'', [Tcp 50001, Ssl 50002]),
      (lit ''bauerjhejlv6di7s.onion'', [Tcp 50001, Ssl 50002]),
      (lit ''bitcoin.corgi.party'', [Tcp 50001, Ssl 50002]),
      (lit ''bitcoin3nqy3db7c.onion'', [Tcp 50001, Ssl 50002]),
      (lit ''bitcoins.sk'', [Tcp 50001, Ssl 50002]),
      (lit ''btc.cihar.com'', [Tcp 50001, Ssl 50002]),
      (lit ''btc.xskyx.net'', [Tcp 50001, Ssl 50002]),
      (lit ''currentlane.lovebitco.in'', [Tcp 50001, Ssl 50002]),
      (lit ''daedalus.bauerj.eu'', [Tcp 50001, Ssl 50002]),
      (lit ''electrum.jochen-hoenicke.de'', [Tcp 50003, Ssl 50005]),
      (lit ''dragon085.startdedicated.de'', [Ssl 50002]),
      (lit ''e-1.claudioboxx.com'', [Tcp 50001, Ssl 50002]),
      (lit ''e.keff.org'', [Tcp 50001, Ssl 50002]),
      (lit ''electrum-server.ninja'', [Tcp 50001, Ssl 50002]),
      (lit ''electrum-unlimited.criptolayer.net'', [Ssl 50002]),
      (lit ''electrum.eff.ro'', [Tcp 50001, Ssl 50002]),
      (lit ''electrum.festivaldelhumor.org'', [Tcp 50001, Ssl 50002]),
      (lit ''electrum.hsmiths.com'', [Tcp 50001, Ssl 50002])]"

definition bitcoin_servers_2 :: "(utext \<times> service list) list" where
  "bitcoin_servers_2 =
     [(lit ''electrum.leblancnet.us'', [Tcp 50001, Ssl 50002]),
      (lit ''electrum.mindspot.org'', [Ssl 50002]),
      (lit ''electrum.qtornado.com'', [Tcp 50001, Ssl 50002]),
      (lit ''electrum.taborsky.cz'', [Ssl 50002]),
      (lit ''electrum.villocq.com'', [Tcp 50001, Ssl 50002]),
      (lit ''electrum2.eff.ro'', [Tcp 50001, Ssl 50002]),
      (lit ''electrum2.villocq.com'', [Tcp 50001, Ssl 50002]),
      (lit ''electrumx.bot.nu'', [Tcp 50001, Ssl 50002]),
      (lit ''electrumx.ddns.net'', [Tcp 50001, Ssl 50002]),
      (lit ''electrumx.ftp.sh'', [Ssl 50002]),
      (lit ''electrumx.ml'', [Tcp 50001, Ssl 50002]),
      (lit ''electrumx.soon.it'', [Tcp 50001, Ssl 50002]),
      (lit ''electrumxhqdsmlu.onion'', [Tcp 50001]),
      (lit ''elx01.knas.systems'', [Tcp 50001, Ssl 50002]),
      (lit ''enode.duckdns.org'', [Tcp 50001, Ssl 50002]),
      (lit ''fedaykin.goip.de'', [Tcp 50001, Ssl 50002]),
      (lit ''fn.48.org'', [Tcp 50003, Ssl 50002]),
      (lit ''helicarrier.bauerj.eu'', [Tcp 50001, Ssl 50002]),
      (lit ''hsmiths4fyqlw5xw.onion'', [Tcp 50001, Ssl 50002]),
      (lit ''hsmiths5mjk6uijs.onion'', [Tcp 50001, Ssl 50002]),
      (lit ''icarus.tetradrachm.net'', [Tcp 50001, Ssl 50002]),
      (lit ''electrum.emzy.de'', [Tcp 50001, Ssl 50002]),
      (lit ''ndnd.selfhost.eu'', [Tcp 50001, Ssl 50002]),
      (lit ''ndndword5lpb7eex.onion'', [Tcp 50001]),
      (lit ''orannis.com'', [Tcp 50001, Ssl 50002])]"

definition bitcoin_servers_3 :: "(utext \<times> service list) list" where
  "bitcoin_servers_3 =
     [(lit ''ozahtqwp25chjdjd.onion'', [Tcp 50001, Ssl 50002]),
      (lit ''qtornadoklbgdyww.onion'', [Tcp 50001, Ssl 50002]),
      (lit ''rbx.curalle.ovh'', [Ssl 50002]),
      (lit ''s7clinmo4cazmhul.onion'', [Tcp 50001]),
      (lit ''tardis.bauerj.eu'', [Tcp 50001, Ssl 50002]),
      (lit ''technetium.network'', [Ssl 50002]),
      (lit ''tomscryptos.com'', [Tcp 50001, Ssl 50002]),
      (lit ''ulrichard.ch'', [Tcp 50001, Ssl 50002]),
      (lit ''vmd27610.contaboserver.net'', [Tcp 50001, Ssl 50002]),
      (lit ''vmd30612.contaboserver.net'', [Tcp 50001, Ssl 50002]),
      (lit ''wsw6tua3xl24gsmi264zaep6seppjyrkyucpsmuxnjzyt3f3j6swshad.onion'', [Tcp 50001, Ssl 50002]),
      (lit ''xray587.startdedicated.de'', [Ssl 50002]),
      (lit ''yuio.top'', [Tcp 50001, Ssl 50002]),
      (lit ''bitcoin.dragon.zone'', [Tcp 50003, Ssl 50004]),
      (lit ''ecdsa.net'', [Tcp 50001, Ssl 110]),
      (lit ''btc.usebsv.com'', [Ssl 50006]),
      (lit ''e2.keff.org'', [Tcp 50001, Ssl 50002]),
      (lit ''electrum.hodlister.co'', [Ssl 50002]),
      (lit ''electrum3.hodlister.co'', [Ssl 50002]),
      (lit ''electrum5.hodlister.co'', [Ssl 50002]),
      (lit ''electrumx.electricnewyear.net'', [Ssl 50002]),
      (lit ''fortress.qtornado.com'', [Tcp 50001, Ssl 443]),
      (lit ''green-gold.westeurope.cloudapp.azure.com'', [Tcp 56001, Ssl 56002]),
      (lit ''electrumx.erbium.eu'', [Tcp 50001, Ssl 50002])]"

definition testnet_servers :: "(utext \<times> service list) list" where
  "testnet_servers =
     [(lit ''hsmithsxurybd7uh.onion'', [Tcp 53011, Ssl 53012]),
      (lit ''testnet.hsmiths.com'', [Tcp 53011, Ssl 53012]),
      (lit ''testnet.qtornado.com'', [Tcp 51001, Ssl 51002]),
      (lit ''testnet1.bauerj.eu'', [Tcp 50001, Ssl 50002]),
      (lit ''tn.not.fyi'', [Tcp 55001, Ssl 55002]),
      (lit ''bitcoin.cluelessperson.com'', [Tcp 51001, Ssl 51002])]"

definition default_servers :: "network \<Rightarrow> (utext \<times> service list) list" where
  "default_servers net =
     (case net of
        Bitcoin \<Rightarrow> bitcoin_servers_1 @ bitcoin_servers_2 @ bitcoin_servers_3
      | Testnet \<Rightarrow> testnet_servers
      | _ \<Rightarrow> [])"

text \<open>A default server that cannot be resolved is passed over.\<close>

definition add_default_servers :: "net_env \<Rightarrow> discovery_manager \<Rightarrow> network \<Rightarrow> discovery_manager" where
  "add_default_servers env d net =
     foldl (\<lambda>d (hostname, services). case add_default_server env d hostname services of Ok d' \<Rightarrow> d' | _ \<Rightarrow> d)
       d (default_servers net)"

definition discovery_new ::
  "net_env \<Rightarrow> network \<Rightarrow> server_features \<Rightarrow> protocol_version \<Rightarrow> bool \<Rightarrow> utext option \<Rightarrow> discovery_manager"
where
  "discovery_new env net our_features our_version announce tor_proxy =
     (let our_addrs = {addr. \<exists>(host, _)\<in>set (sf_hosts our_features). resolve env host = Ok addr}
      in add_default_servers env
           \<lparr>dm_queue = [], dm_healthy = Map.empty, dm_our_version = our_version, dm_our_addrs = our_addrs,
            dm_our_features = our_features, dm_announce = announce, dm_tor_proxy = tor_proxy\<rparr> net)"

definition get_servers :: "discovery_manager \<Rightarrow> server_addr \<rightharpoonup> utext \<times> utext list \<times> utext set" where
  "get_servers d addr = map_option (\<lambda>server. (sv_hostname server, feature_strs server)) (dm_healthy d addr)"

definition server_url :: "net_env \<Rightarrow> server_addr \<Rightarrow> utext \<Rightarrow> service \<Rightarrow> utext" where
  "server_url env addr hostname service =
     (case (addr, service) of
        (Clearnet ip, Tcp port) \<Rightarrow> lit ''tcp://'' @ ne_show_ip env ip @ lit '':'' @ show_nat (unat port)
      | (Clearnet _, Ssl port) \<Rightarrow> lit ''ssl://'' @ hostname @ lit '':'' @ show_nat (unat port)
      | (Onion onion_host, Tcp port) \<Rightarrow> lit ''tcp://'' @ onion_host @ lit '':'' @ show_nat (unat port)
      | (Onion onion_host, Ssl port) \<Rightarrow> lit ''ssl://'' @ onion_host @ lit '':'' @ show_nat (unat port))"

definition check_server ::
  "net_env \<Rightarrow> (utext \<Rightarrow> utext option \<Rightarrow> (error_kind, server_features_res) outcome) \<Rightarrow> discovery_manager
    \<Rightarrow> server_addr \<Rightarrow> utext \<Rightarrow> service \<Rightarrow> (error_kind, server_features) outcome"
where
  "check_server env connect d addr hostname service =
     bind_out
       (case addr of
          Onion _ \<Rightarrow> map_out Some (ok_or (Msg ''no tor proxy configured, onion hosts are unsupported'') (dm_tor_proxy d))
        | Clearnet _ \<Rightarrow> Ok None) (\<lambda>socks.
     bind_out (connect (server_url env addr hostname service) socks) (\<lambda>res.
     bind_out (features_try_from res) (\<lambda>features.
     bind_out (dm_verify_compatibility d features) (\<lambda>_.
       if dm_announce d then Err (Msg ''server.add_peer is not on this electrum-client'') else Ok features))))"

definition save_healthy_service :: "discovery_manager \<Rightarrow> health_check \<Rightarrow> server_features \<Rightarrow> discovery_manager" where
  "save_healthy_service d job features =
     (let server = (case dm_healthy d (hc_addr job) of Some s \<Rightarrow> s | None \<Rightarrow> server_new (hc_hostname job) features)
      in d\<lparr>dm_healthy := (dm_healthy d)(hc_addr job \<mapsto> server\<lparr>sv_services := insert (hc_service job) (sv_services server)\<rparr>)\<rparr>)"

definition remove_unhealthy_service :: "discovery_manager \<Rightarrow> health_check \<Rightarrow> (error_kind, discovery_manager) outcome" where
  "remove_unhealthy_service d job =
     (case dm_healthy d (hc_addr job) of
        Some server \<Rightarrow>
          if hc_service job \<notin> sv_services server then Panic ''assertion failed: server.services.remove''
          else (let services = sv_services server - {hc_service job}
                in Ok (d\<lparr>dm_healthy :=
                         (if services = {} then (dm_healthy d)(hc_addr job := None)
                          else (dm_healthy d)(hc_addr job \<mapsto> server\<lparr>sv_services := services\<rparr>))\<rparr>))
      | None \<Rightarrow> Panic ''missing expected server, corrupted state'')"

text \<open>
  One health check is a look at the head of the queue (under the read lock, at the time \<open>now\<close>), the removal
  of the head (under the write lock), the question to the server with the update of the healthy servers
  (with the queue unlocked; \<open>later\<close> is the time after the answer), and the return of the job to the queue.
  \<open>i\<close> is the position of the job at the head of the heap.
\<close>

definition too_early :: "nat \<Rightarrow> health_check \<Rightarrow> bool" where
  "too_early now job = (case hc_last_check job of Some t \<Rightarrow> now - t < HEALTH_CHECK_FREQ | None \<Rightarrow> False)"

definition queue_due :: "nat \<Rightarrow> nat \<Rightarrow> health_check list \<Rightarrow> bool" where
  "queue_due now i queue = (case nth_opt queue i of None \<Rightarrow> False | Some next \<Rightarrow> \<not> too_early now next)"

definition pop_job :: "nat \<Rightarrow> discovery_manager \<Rightarrow> (error_kind, health_check \<times> discovery_manager) outcome" where
  "pop_job i d =
     (case nth_opt (dm_queue d) i of
        None \<Rightarrow> Panic ''called unwrap on a None value''
      | Some job \<Rightarrow> Ok (job, d\<lparr>dm_queue := take i (dm_queue d) @ drop (Suc i) (dm_queue d)\<rparr>))"

definition check_passed ::
  "discovery_manager \<Rightarrow> health_check \<Rightarrow> server_features \<Rightarrow> nat \<Rightarrow> discovery_manager \<times> health_check"
where
  "check_passed d job features later =
     (if is_healthy job then d else save_healthy_service d job features,
      job\<lparr>hc_last_check := Some later, hc_last_healthy := Some later, hc_consecutive_failures := 0\<rparr>)"

text \<open>After a failure the job may be given up.\<close>

definition check_failed ::
  "discovery_manager \<Rightarrow> health_check \<Rightarrow> nat \<Rightarrow> (error_kind, discovery_manager \<times> health_check option) outcome"
where
  "check_failed d job later =
     map_out
       (\<lambda>d1. let job' = job\<lparr>hc_last_check := Some later, hc_consecutive_failures := hc_consecutive_failures job + 1\<rparr>
             in (d1, if should_retry job' then Some job' else None))
       (if is_healthy job then remove_unhealthy_service d job else Ok d)"

definition finish_check ::
  "net_env \<Rightarrow> (utext \<Rightarrow> utext option \<Rightarrow> (error_kind, server_features_res) outcome) \<Rightarrow> nat \<Rightarrow> discovery_manager \<Rightarrow> health_check
    \<Rightarrow> (error_kind, discovery_manager \<times> health_check option \<times> error_kind option) outcome"
where
  "finish_check env connect later d job =
     (case check_server env connect d (hc_addr job) (hc_hostname job) (hc_service job) of
        Ok features \<Rightarrow> (case check_passed d job features later of (d1, job') \<Rightarrow> Ok (d1, Some job', None))
      | Err e \<Rightarrow> map_out (\<lambda>(d1, again). (d1, again, Some e)) (check_failed d job later)
      | Panic s \<Rightarrow> Panic s)"

definition push_job :: "health_check \<Rightarrow> discovery_manager \<Rightarrow> discovery_manager" where
  "push_job job d = d\<lparr>dm_queue := dm_queue d @ [job]\<rparr>"

text \<open>The whole check when nobody else touches the queue; the second component is the error it returns.\<close>

definition run_health_check ::
  "net_env \<Rightarrow> (utext \<Rightarrow> utext option \<Rightarrow> (error_kind, server_features_res) outcome) \<Rightarrow> (health_check list \<Rightarrow> nat) \<Rightarrow> nat \<Rightarrow> nat
    \<Rightarrow> discovery_manager \<Rightarrow> (error_kind, discovery_manager \<times> error_kind option) outcome"
where
  "run_health_check env connect pick now later d =
     (if \<not> queue_due now (pick (dm_queue d)) (dm_queue d) then Ok (d, None)
      else bind_out (pop_job (pick (dm_queue d)) d) (\<lambda>(job, d1).
           bind_out (finish_check env connect later d1 job) (\<lambda>(d2, again, e).
           Ok (case again of Some job' \<Rightarrow> push_job job' d2 | None \<Rightarrow> d2, e))))"

text \<open>
  The same check as the steps of the jobs thread, between which the connections of clients use the queue.
  The job that is being checked is with the thread and not in the queue.
\<close>

datatype check_phase = Idle | Due | Checking health_check | Pushing health_check

record discovery_state =
  ds_manager :: discovery_manager
  ds_phase :: check_phase
  ds_clock :: nat

definition advance ::
  "net_env \<Rightarrow> (utext \<Rightarrow> utext option \<Rightarrow> (error_kind, server_features_res) outcome) \<Rightarrow> nat \<Rightarrow> nat \<Rightarrow> discovery_state
    \<Rightarrow> (error_kind, discovery_state) outcome"
where
  "advance env connect i now st =
     (case ds_phase st of
        Idle \<Rightarrow> Ok (st\<lparr>ds_phase := if queue_due now i (dm_queue (ds_manager st)) then Due else Idle, ds_clock := now\<rparr>)
      | Due \<Rightarrow>
          map_out (\<lambda>(job, d). \<lparr>ds_manager = d, ds_phase = Checking job, ds_clock = now\<rparr>) (pop_job i (ds_manager st))
      | Checking job \<Rightarrow>
          map_out (\<lambda>(d, again, e). \<lparr>ds_manager = d, ds_phase = (case again of Some job' \<Rightarrow> Pushing job' | None \<Rightarrow> Idle), ds_clock = now\<rparr>)
            (finish_check env connect now (ds_manager st) job)
      | Pushing job \<Rightarrow> Ok \<lparr>ds_manager = push_job job (ds_manager st), ds_phase = Idle, ds_clock = now\<rparr>)"

text \<open>The binary heap delivers a greatest job.\<close>

definition heap_head :: "health_check list \<Rightarrow> nat \<Rightarrow> bool" where
  "heap_head q i \<longleftrightarrow> (q \<noteq> [] \<longrightarrow> i < length q \<and> (\<forall>job\<in>set q. job_le job (q ! i)))"

section \<open>Versions\<close>

lemma version_roundtrip:
  assumes "pv_major v < 2 ^ 64" "pv_minor v < 2 ^ 64"
  shows "version_from_str (version_display v) = Ok v"
proof -
  have dot: "46 \<notin> set (show_nat n)" for n using show_nat_digits by force
  have "split_at 46 (version_display v) = [show_nat (pv_major v), show_nat (pv_minor v)]"
    by (simp add: version_display_def split_at_sep [OF dot] split_at_none [OF dot])
  then show ?thesis using assms by (simp add: version_from_str_def first_opt_def parse_usize_show Let_def)
qed

section \<open>The healthy servers\<close>

definition job_key :: "health_check \<Rightarrow> server_addr \<times> service" where
  "job_key job = (hc_addr job, hc_service job)"

definition services_of :: "discovery_manager \<Rightarrow> server_addr \<Rightarrow> service set" where
  "services_of d addr = (case dm_healthy d addr of None \<Rightarrow> {} | Some server \<Rightarrow> sv_services server)"

text \<open>A job was found healthy, if ever, at or before its last check.\<close>

definition job_times_ok :: "health_check \<Rightarrow> bool" where
  "job_times_ok job =
     (case hc_last_check job of
        None \<Rightarrow> hc_last_healthy job = None
      | Some t \<Rightarrow> \<forall>h. hc_last_healthy job = Some h \<longrightarrow> h \<le> t)"

definition healthy_exact :: "health_check list \<Rightarrow> discovery_manager \<Rightarrow> bool" where
  "healthy_exact jobs d \<longleftrightarrow>
     (\<forall>addr server. dm_healthy d addr = Some server \<longrightarrow> sv_services server \<noteq> {})
     \<and> (\<forall>addr s. s \<in> services_of d addr \<longleftrightarrow> (\<exists>job\<in>set jobs. job_key job = (addr, s) \<and> is_healthy job))"

definition jobs_inv :: "health_check list \<Rightarrow> discovery_manager \<Rightarrow> bool" where
  "jobs_inv jobs d \<longleftrightarrow> distinct (map job_key jobs) \<and> (\<forall>job\<in>set jobs. job_times_ok job) \<and> healthy_exact jobs d"

text \<open>All jobs: the one with the thread and those in the queue. A job is only taken when it is due.\<close>

definition jobs_of :: "discovery_state \<Rightarrow> health_check list" where
  "jobs_of st = (case ds_phase st of Checking job \<Rightarrow> [job] | Pushing job \<Rightarrow> [job] | _ \<Rightarrow> []) @ dm_queue (ds_manager st)"

definition phase_ok :: "discovery_state \<Rightarrow> bool" where
  "phase_ok st =
     (case ds_phase st of
        Due \<Rightarrow> \<exists>job\<in>set (dm_queue (ds_manager st)). \<not> too_early (ds_clock st) job
      | Checking job \<Rightarrow> \<not> too_early (ds_clock st) job
      | _ \<Rightarrow> True)"

definition discovery_inv :: "discovery_state \<Rightarrow> bool" where
  "discovery_inv st \<longleftrightarrow> jobs_inv (jobs_of st) (ds_manager st) \<and> phase_ok st"

lemma services_of_upd [simp]:
  "services_of (d\<lparr>dm_queue := q\<rparr>) = services_of d" "healthy_exact jobs (d\<lparr>dm_queue := q\<rparr>) = healthy_exact jobs d"
    "jobs_inv jobs (d\<lparr>dm_queue := q\<rparr>) = jobs_inv jobs d"
  by (auto simp: services_of_def healthy_exact_def jobs_inv_def)

lemma jobs_inv_set:
  assumes "jobs_inv jobs d" "set jobs' = set jobs" "distinct (map job_key jobs')"
  shows "jobs_inv jobs' d"
  using assms by (simp add: jobs_inv_def healthy_exact_def)

lemma is_healthy_new [simp]: "\<not> is_healthy (health_check_new addr hostname service added_by)"
  by (simp add: is_healthy_def health_check_new_def)

text \<open>Queueing new jobs.\<close>

lemma jobs_inv_queue:
  assumes "jobs_inv jobs d" "distinct (map job_key (jobs @ new))"
    and "\<forall>job\<in>set new. \<exists>addr hostname service added_by. job = health_check_new addr hostname service added_by"
  shows "jobs_inv (jobs @ new) d"
proof -
  have "\<forall>job\<in>set new. \<not> is_healthy job \<and> job_times_ok job"
    using assms(3) by (force simp: is_healthy_def health_check_new_def job_times_ok_def)
  then show ?thesis using assms(1,2) by (auto simp: jobs_inv_def healthy_exact_def)
qed

lemma too_early_mono: "\<not> too_early t job \<Longrightarrow> t \<le> t' \<Longrightarrow> \<not> too_early t' job"
  by (auto simp: too_early_def split: option.splits)

lemma job_le_due: "\<not> too_early t job \<Longrightarrow> job_le job job' \<Longrightarrow> \<not> too_early t job'"
  by (auto simp: too_early_def job_le_def split: option.splits)

text \<open>Recording that a service is healthy, and that it is no longer.\<close>

lemma save_healthy_exact:
  assumes "healthy_exact jobs d" "job_key job = job_key job'" "is_healthy job'"
  shows "healthy_exact (jobs @ [job']) (save_healthy_service d job features)"
proof -
  have "services_of (save_healthy_service d job features) addr
      = (if addr = hc_addr job then insert (hc_service job) (services_of d addr) else services_of d addr)" for addr
    by (simp add: save_healthy_service_def services_of_def server_new_def Let_def split: option.splits)
  moreover have "\<forall>addr server. dm_healthy (save_healthy_service d job features) addr = Some server \<longrightarrow> sv_services server \<noteq> {}"
    using assms(1) by (auto simp: save_healthy_service_def healthy_exact_def Let_def split: if_splits)
  ultimately show ?thesis using assms by (auto simp: healthy_exact_def job_key_def)
qed

lemma remove_unhealthy_exact:
  assumes "healthy_exact (job # jobs) d" "is_healthy job" "job_key job \<notin> job_key ` set jobs"
  obtains d' where "remove_unhealthy_service d job = Ok d'" "healthy_exact jobs d'" "dm_queue d' = dm_queue d"
proof -
  have e: "s \<in> services_of d addr \<longleftrightarrow> (\<exists>j\<in>set (job # jobs). job_key j = (addr, s) \<and> is_healthy j)" for addr s
    using assms(1) by (simp add: healthy_exact_def)
  have "hc_service job \<in> services_of d (hc_addr job)" unfolding e using assms(2) by (auto simp: job_key_def)
  then obtain server where sv: "dm_healthy d (hc_addr job) = Some server" "hc_service job \<in> sv_services server"
    by (auto simp: services_of_def split: option.splits)
  define d' where "d' = (case remove_unhealthy_service d job of Ok x \<Rightarrow> x | _ \<Rightarrow> d)"
  have ok: "remove_unhealthy_service d job = Ok d'" using sv by (simp add: d'_def remove_unhealthy_service_def Let_def)
  have so: "services_of d' addr = (if addr = hc_addr job then services_of d addr - {hc_service job} else services_of d addr)" for addr
    using sv by (simp add: d'_def remove_unhealthy_service_def services_of_def Let_def)
  have "\<forall>addr server. dm_healthy d' addr = Some server \<longrightarrow> sv_services server \<noteq> {}"
    using assms(1) sv by (auto simp: d'_def remove_unhealthy_service_def healthy_exact_def Let_def split: if_splits)
  moreover have "s \<in> services_of d' addr \<longleftrightarrow> (\<exists>j\<in>set jobs. job_key j = (addr, s) \<and> is_healthy j)" for addr s
  proof (cases "(addr, s) = job_key job")
    case True
    then have "s \<notin> services_of d' addr" unfolding so by (simp add: job_key_def)
    moreover have "job_key j \<noteq> (addr, s)" if "j \<in> set jobs" for j using True assms(3) that by (metis image_eqI)
    ultimately show ?thesis by blast
  next
    case False
    then have "s \<in> services_of d' addr \<longleftrightarrow> s \<in> services_of d addr" unfolding so by (auto simp: job_key_def)
    then show ?thesis unfolding e using False by auto
  qed
  ultimately have "healthy_exact jobs d'" by (simp add: healthy_exact_def)
  then show ?thesis using that ok sv by (simp add: d'_def remove_unhealthy_service_def Let_def)
qed

text \<open>What is left of a queue when one job is taken out.\<close>

lemma taken_job:
  assumes "i < length q" "distinct (map f q)"
  defines "rest \<equiv> take i q @ drop (Suc i) q"
  shows "set q = insert (q ! i) (set rest)" "distinct (map f rest)" "f (q ! i) \<notin> f ` set rest"
proof -
  have q: "q = take i q @ q ! i # drop (Suc i) q" by (rule id_take_nth_drop [OF assms(1)])
  then have "set q = set (take i q @ q ! i # drop (Suc i) q)" by simp
  then show "set q = insert (q ! i) (set rest)" by (simp add: rest_def)
  have "distinct (map f (take i q @ q ! i # drop (Suc i) q))" using assms(2) q by simp
  then show "distinct (map f rest)" "f (q ! i) \<notin> f ` set rest" unfolding rest_def by auto
qed

lemma checked_later:
  assumes "job_times_ok job" "\<not> too_early now job" "now \<le> later"
  shows "\<not> is_healthy (job\<lparr>hc_last_check := Some later, hc_consecutive_failures := n\<rparr>)"
    and "job_times_ok (job\<lparr>hc_last_check := Some later, hc_consecutive_failures := n\<rparr>)"
  using assms by (auto simp: job_times_ok_def too_early_def is_healthy_def HEALTH_CHECK_FREQ_def split: option.splits)

lemma check_failed_inv:
  assumes inv: "jobs_inv (job # jobs) d" and "\<not> too_early now job" "now \<le> later"
  obtains d' again where "check_failed d job later = Ok (d', again)" "dm_queue d' = dm_queue d"
    "jobs_inv (case again of Some job' \<Rightarrow> job' # jobs | None \<Rightarrow> jobs) d'"
proof -
  let ?job = "job\<lparr>hc_last_check := Some later, hc_consecutive_failures := hc_consecutive_failures job + 1\<rparr>"
  have i: "healthy_exact (job # jobs) d" "distinct (map job_key (job # jobs))" "\<forall>j\<in>set (job # jobs). job_times_ok j"
    using inv by (simp_all add: jobs_inv_def)
  note later = checked_later [OF _ assms(2,3), of "hc_consecutive_failures job + 1"]
  have new: "\<not> is_healthy ?job" "job_times_ok ?job" "job_key ?job = job_key job" using later i(3) by (simp_all add: job_key_def)
  obtain d1 where d1: "(if is_healthy job then remove_unhealthy_service d job else Ok d) = Ok d1"
      "healthy_exact jobs d1" "dm_queue d1 = dm_queue d"
  proof (cases "is_healthy job")
    case True
    have k: "job_key job \<notin> job_key ` set jobs" using i(2) by simp
    from remove_unhealthy_exact [OF i(1) True k] that True show ?thesis by auto
  next
    case False
    then have "healthy_exact jobs d" using i(1) by (auto simp: healthy_exact_def)
    then show ?thesis using False by (intro that [of d]) simp_all
  qed
  have "healthy_exact (?job # jobs) d1" using d1(2) new(1) by (auto simp: healthy_exact_def)
  then have "jobs_inv (?job # jobs) d1" "jobs_inv jobs d1" using d1 i new by (auto simp: jobs_inv_def)
  moreover have "check_failed d job later = Ok (d1, if should_retry ?job then Some ?job else None)"
    unfolding check_failed_def d1(1) by (simp only: map_out.simps Let_def)
  ultimately show ?thesis using that d1(3) by (cases "should_retry ?job") simp_all
qed

lemma check_passed_inv:
  assumes inv: "jobs_inv (job # jobs) d" and p: "check_passed d job features later = (d', job')"
  shows "jobs_inv (job' # jobs) d'" "dm_queue d' = dm_queue d"
proof -
  have i: "healthy_exact (job # jobs) d" "distinct (map job_key (job # jobs))" "\<forall>j\<in>set (job # jobs). job_times_ok j"
    using inv by (simp_all add: jobs_inv_def)
  have new: "is_healthy job'" "job_times_ok job'" "job_key job' = job_key job"
    using p by (auto simp: check_passed_def is_healthy_def job_times_ok_def job_key_def)
  have d': "d' = (if is_healthy job then d else save_healthy_service d job features)" using p by (simp add: check_passed_def)
  have "healthy_exact (job' # jobs) d'"
  proof (cases "is_healthy job")
    case True
    then show ?thesis using i(1) new d' by (auto simp: healthy_exact_def)
  next
    case False
    then have "healthy_exact jobs d" using i(1) by (auto simp: healthy_exact_def)
    then show ?thesis using save_healthy_exact [of jobs d job job'] new False d' by (simp add: healthy_exact_def disj_commute)
  qed
  then show "jobs_inv (job' # jobs) d'" using i new by (auto simp: jobs_inv_def)
  show "dm_queue d' = dm_queue d" using d' by (simp add: save_healthy_service_def Let_def)
qed

lemma bind_no_panic: "\<not> panics r \<Longrightarrow> (\<And>x. r = Ok x \<Longrightarrow> \<not> panics (f x)) \<Longrightarrow> \<not> panics (bind_out r f)"
  by (cases r) auto

lemma check_server_no_panic:
  assumes connect: "\<forall>url socks. \<not> panics (connect url socks)"
  shows "\<not> panics (check_server env connect d a h s)"
proof -
  have v: "version_from_str s \<noteq> Panic m" for s m by (simp add: version_from_str_def ok_or_def Let_def split: option.splits)
  have "\<not> panics (features_try_from res)" for res
    using v by (simp add: features_try_from_def ok_or_def split: outcome.splits option.splits)
  then show ?thesis
    using connect unfolding check_server_def
    by (intro bind_no_panic) (auto simp: dm_verify_compatibility_def ok_or_def split: server_addr.splits option.splits)
qed

lemma finish_check_inv:
  assumes inv: "jobs_inv (job # jobs) d" and early: "\<not> too_early now job" "now \<le> later"
    and connect: "\<forall>url socks. \<not> panics (connect url socks)"
  obtains d' again e where "finish_check env connect later d job = Ok (d', again, e)" "dm_queue d' = dm_queue d"
    "jobs_inv (case again of Some job' \<Rightarrow> job' # jobs | None \<Rightarrow> jobs) d'"
proof (cases "check_server env connect d (hc_addr job) (hc_hostname job) (hc_service job)")
  case (Ok features)
  obtain d' job' where p: "check_passed d job features later = (d', job')" by fastforce
  show ?thesis
    by (rule that [of d' "Some job'" None]) (use Ok p check_passed_inv [OF inv p] in \<open>simp_all add: finish_check_def\<close>)
next
  case (Err e)
  obtain d' again where f: "check_failed d job later = Ok (d', again)" "dm_queue d' = dm_queue d"
      "jobs_inv (case again of Some job' \<Rightarrow> job' # jobs | None \<Rightarrow> jobs) d'"
    using check_failed_inv [OF inv early] .
  show ?thesis by (rule that [of d' again "Some e"]) (use Err f in \<open>simp_all add: finish_check_def\<close>)
next
  case (Panic msg)
  then show ?thesis using check_server_no_panic [OF connect] by (metis panics_simps(3))
qed

lemma pop_job_inv:
  assumes inv: "jobs_inv (dm_queue d) d" and due: "\<exists>job\<in>set (dm_queue d). \<not> too_early now job" and head: "heap_head (dm_queue d) i"
  obtains job d' where "pop_job i d = Ok (job, d')" "jobs_inv (job # dm_queue d') d'" "\<not> too_early now job"
proof -
  let ?q = "dm_queue d"
  have i: "i < length ?q" and top: "\<forall>job\<in>set ?q. job_le job (?q ! i)" using due head by (auto simp: heap_head_def)
  have dist: "distinct (map job_key ?q)" using inv by (simp add: jobs_inv_def)
  note t = taken_job [OF i dist]
  have "jobs_inv (?q ! i # take i ?q @ drop (Suc i) ?q) d"
    by (rule jobs_inv_set [OF inv]) (use t in \<open>simp_all only: list.map list.set distinct.simps list.set_map not_False_eq_True simp_thms\<close>)
  then have "jobs_inv (?q ! i # dm_queue (d\<lparr>dm_queue := take i ?q @ drop (Suc i) ?q\<rparr>)) (d\<lparr>dm_queue := take i ?q @ drop (Suc i) ?q\<rparr>)"
    unfolding services_of_upd by simp
  moreover have "pop_job i d = Ok (?q ! i, d\<lparr>dm_queue := take i ?q @ drop (Suc i) ?q\<rparr>)"
    using i by (simp add: pop_job_def nth_opt_def)
  moreover have "\<not> too_early now (?q ! i)" using due top job_le_due by blast
  ultimately show ?thesis using that by blast
qed

text \<open>The next step of the thread.\<close>

lemma advance_safe:
  assumes inv: "discovery_inv st" and le: "ds_clock st \<le> now" and head: "heap_head (dm_queue (ds_manager st)) i"
    and connect: "\<forall>url socks. \<not> panics (connect url socks)"
  obtains st' where "advance env connect i now st = Ok st'" "discovery_inv st'"
proof (cases "ds_phase st")
  case Idle
  let ?st = "st\<lparr>ds_phase := if queue_due now i (dm_queue (ds_manager st)) then Due else Idle, ds_clock := now\<rparr>"
  have "phase_ok ?st" by (auto simp: phase_ok_def queue_due_def nth_opt_def split: option.splits if_splits)
  then have "discovery_inv ?st" using inv Idle by (simp add: discovery_inv_def jobs_of_def)
  then show ?thesis using that Idle by (simp add: advance_def)
next
  case Due
  have q: "jobs_inv (dm_queue (ds_manager st)) (ds_manager st)" "\<exists>job\<in>set (dm_queue (ds_manager st)). \<not> too_early (ds_clock st) job"
    using inv Due by (simp_all add: discovery_inv_def jobs_of_def phase_ok_def)
  obtain job d' where "pop_job i (ds_manager st) = Ok (job, d')" "jobs_inv (job # dm_queue d') d'" "\<not> too_early (ds_clock st) job"
    using pop_job_inv [OF q head] .
  then show ?thesis using that Due too_early_mono [OF _ le]
    by (simp add: advance_def discovery_inv_def jobs_of_def phase_ok_def)
next
  case (Checking job)
  have q: "jobs_inv (job # dm_queue (ds_manager st)) (ds_manager st)" "\<not> too_early (ds_clock st) job"
    using inv Checking by (simp_all add: discovery_inv_def jobs_of_def phase_ok_def)
  obtain d' again e where "finish_check env connect now (ds_manager st) job = Ok (d', again, e)" "dm_queue d' = dm_queue (ds_manager st)"
      "jobs_inv (case again of Some job' \<Rightarrow> job' # dm_queue (ds_manager st) | None \<Rightarrow> dm_queue (ds_manager st)) d'"
    using finish_check_inv [OF q le connect] .
  then show ?thesis using that Checking
    by (cases again) (simp_all add: advance_def discovery_inv_def jobs_of_def phase_ok_def)
next
  case (Pushing job)
  have q: "jobs_inv (job # dm_queue (ds_manager st)) (ds_manager st)"
    using inv Pushing by (simp add: discovery_inv_def jobs_of_def)
  have "jobs_inv (dm_queue (ds_manager st) @ [job]) (ds_manager st)"
    by (rule jobs_inv_set [OF q]) (use q in \<open>auto simp: jobs_inv_def\<close>)
  then show ?thesis using that Pushing by (simp add: advance_def push_job_def discovery_inv_def jobs_of_def phase_ok_def)
qed

text \<open>Four steps in a row are one whole check.\<close>

fun advance_all ::
  "net_env \<Rightarrow> (utext \<Rightarrow> utext option \<Rightarrow> (error_kind, server_features_res) outcome) \<Rightarrow> (nat \<times> nat) list \<Rightarrow> discovery_state
    \<Rightarrow> (error_kind, discovery_state) outcome"
where
  "advance_all env connect [] st = Ok st"
| "advance_all env connect ((i, now) # steps) st =
     bind_out (advance env connect i now st) (advance_all env connect steps)"

lemma run_health_check_steps:
  assumes "ds_phase st = Idle" "queue_due now (pick (dm_queue (ds_manager st))) (dm_queue (ds_manager st))"
    and run: "run_health_check env connect pick now later (ds_manager st) = Ok (d', e)"
  shows "\<exists>steps st'. length steps \<le> 4 \<and> advance_all env connect steps st = Ok st' \<and> ds_manager st' = d' \<and> ds_phase st' = Idle"
proof -
  let ?i = "pick (dm_queue (ds_manager st))"
  obtain job d1 d2 again where p: "pop_job ?i (ds_manager st) = Ok (job, d1)" "finish_check env connect later d1 job = Ok (d2, again, e)"
      "d' = (case again of Some job' \<Rightarrow> push_job job' d2 | None \<Rightarrow> d2)"
    using assms(2) run by (auto simp: run_health_check_def)
  let ?s = "[(?i, now), (?i, now), (?i, later)] @ (case again of Some _ \<Rightarrow> [(?i, later)] | None \<Rightarrow> [])"
  have "advance_all env connect ?s st = Ok \<lparr>ds_manager = d', ds_phase = Idle, ds_clock = later\<rparr>"
    using assms(1,2) p by (cases again) (simp_all add: advance_def)
  moreover have "length ?s \<le> 4" by (simp split: option.splits)
  ultimately show ?thesis by (metis discovery_state.select_convs(1,2))
qed

section \<open>The machine\<close>

text \<open>
  Requests of peers and further default servers between any two steps of the jobs thread, as long as no
  two jobs, queued or with the thread, are for the same address and service. The behaviour of the network may
  differ in every step.
\<close>

inductive discovery_step :: "net_env \<Rightarrow> discovery_state \<Rightarrow> discovery_state \<Rightarrow> bool" for env where
  peer_request: "add_server_request env (ds_manager st) added_by features = Ok d'
    \<Longrightarrow> distinct (map job_key (jobs_of (st\<lparr>ds_manager := d'\<rparr>))) \<Longrightarrow> discovery_step env st (st\<lparr>ds_manager := d'\<rparr>)"
| default_server: "add_default_server env (ds_manager st) hostname services = Ok d'
    \<Longrightarrow> distinct (map job_key (jobs_of (st\<lparr>ds_manager := d'\<rparr>))) \<Longrightarrow> discovery_step env st (st\<lparr>ds_manager := d'\<rparr>)"
| jobs_thread: "advance env connect i now st = Ok st' \<Longrightarrow> ds_clock st \<le> now \<Longrightarrow> heap_head (dm_queue (ds_manager st)) i
    \<Longrightarrow> \<forall>url socks. \<not> panics (connect url socks) \<Longrightarrow> discovery_step env st st'"

lemma new_jobs:
  assumes "job \<in> set (concat (map (host_jobs queue added_by) hosts))"
  shows "\<exists>addr hostname service added_by. job = health_check_new addr hostname service added_by"
  using assms by (auto simp: host_jobs_def Let_def)

lemma queued_inv:
  assumes "discovery_inv st" "distinct (map job_key (jobs_of (st\<lparr>ds_manager := d'\<rparr>)))"
    and d': "d' = (ds_manager st)\<lparr>dm_queue := dm_queue (ds_manager st) @ new\<rparr>"
    and "\<forall>job\<in>set new. \<exists>addr hostname service added_by. job = health_check_new addr hostname service added_by"
  shows "discovery_inv (st\<lparr>ds_manager := d'\<rparr>)"
proof -
  have jobs: "jobs_of (st\<lparr>ds_manager := d'\<rparr>) = jobs_of st @ new" by (simp add: jobs_of_def d')
  have "jobs_inv (jobs_of st @ new) (ds_manager st)"
    using jobs_inv_queue [OF _ _ assms(4)] assms(1,2) unfolding jobs discovery_inv_def by blast
  moreover have "phase_ok (st\<lparr>ds_manager := d'\<rparr>)" using assms(1) unfolding discovery_inv_def
    by (auto simp: phase_ok_def d' split: check_phase.splits)
  ultimately show ?thesis unfolding discovery_inv_def jobs by (simp add: d')
qed

lemma discovery_step_inv:
  assumes "discovery_inv st" "discovery_step env st st'"
  shows "discovery_inv st'"
  using assms(2)
proof (cases rule: discovery_step.cases)
  case (peer_request added_by features d')
  let ?jobs = "take MAX_SERVICES_PER_REQUEST (concat (map (host_jobs (dm_queue (ds_manager st)) added_by)
      (List.map_filter (candidate_host env (ds_manager st) added_by) (take MAX_SERVERS_PER_REQUEST (sf_hosts features)))))"
  have d': "d' = (ds_manager st)\<lparr>dm_queue := dm_queue (ds_manager st) @ ?jobs\<rparr>"
    using peer_request(2) by (auto simp: add_server_request_def Let_def split: if_splits)
  show ?thesis unfolding peer_request(1)
    by (rule queued_inv [OF assms(1) peer_request(3) d']) (blast dest: in_set_takeD new_jobs)
next
  case (default_server hostname services d')
  then obtain addr where d': "d' = (ds_manager st)\<lparr>dm_queue := dm_queue (ds_manager st) @
      map (\<lambda>service. health_check_new addr hostname service None) services\<rparr>"
    by (auto simp: add_default_server_def)
  show ?thesis unfolding default_server(1) by (rule queued_inv [OF assms(1) default_server(3) d']) auto
next
  case (jobs_thread connect i now)
  obtain st1 where "advance env connect i now st = Ok st1" "discovery_inv st1"
    using advance_safe [OF assms(1) jobs_thread(2-4)] .
  then show ?thesis using jobs_thread(1) by simp
qed

text \<open>The manager after start-up, with the jobs thread about to look at the queue.\<close>

definition discovery_start :: "discovery_manager \<Rightarrow> nat \<Rightarrow> discovery_state" where
  "discovery_start d now = \<lparr>ds_manager = d, ds_phase = Idle, ds_clock = now\<rparr>"

lemma default_servers_inv:
  assumes "distinct (map job_key (dm_queue (discovery_new env net features version announce proxy)))"
  shows "discovery_inv (discovery_start (discovery_new env net features version announce proxy) now)"
proof -
  let ?d0 = "\<lambda>q. \<lparr>dm_queue = q, dm_healthy = Map.empty, dm_our_version = version,
      dm_our_addrs = {addr. \<exists>(host, _)\<in>set (sf_hosts features). resolve env host = Ok addr},
      dm_our_features = features, dm_announce = announce, dm_tor_proxy = proxy\<rparr>"
  let ?fresh = "\<lambda>q. \<forall>job\<in>set q. \<not> is_healthy job \<and> job_times_ok job"
  have "\<exists>q'. foldl (\<lambda>d (hostname, services). case add_default_server env d hostname services of Ok d' \<Rightarrow> d' | _ \<Rightarrow> d) (?d0 q) ss = ?d0 q' \<and> ?fresh q'"
    if "?fresh q" for ss q
    using that
  proof (induction ss arbitrary: q)
    case (Cons h ss)
    obtain hostname services where h: "h = (hostname, services)" by (cases h)
    show ?case
    proof (cases "resolve env hostname")
      case (Ok addr)
      let ?q = "q @ map (\<lambda>service. health_check_new addr hostname service None) services"
      have "?fresh ?q" using Cons.prems by (auto simp: job_times_ok_def health_check_new_def is_healthy_def)
      from Cons.IH [OF this] show ?thesis using Ok h by (simp add: add_default_server_def)
    qed (use Cons h in \<open>simp_all add: add_default_server_def\<close>)
  qed auto
  from this [of "[]" "default_servers net"] obtain q' where "discovery_new env net features version announce proxy = ?d0 q'" "?fresh q'"
    unfolding discovery_new_def add_default_servers_def Let_def by auto
  then show ?thesis using assms
    by (auto simp: discovery_inv_def discovery_start_def jobs_of_def phase_ok_def jobs_inv_def healthy_exact_def services_of_def)
qed

interpretation discovery_machine: invariant_machine
  "discovery_start (discovery_new env net features version announce proxy) t0" "discovery_step env"
  "\<lambda>st. distinct (map job_key (dm_queue (discovery_new env net features version announce proxy))) \<longrightarrow> discovery_inv st"
  for env net features version announce proxy t0
  by unfold_locales (auto intro: default_servers_inv discovery_step_inv)

section \<open>Properties\<close>

definition demo_env :: net_env where
  "demo_env = \<lparr>ne_lower = ascii_lower, ne_parse_ip = (\<lambda>_. None), ne_lookup = (\<lambda>_. None), ne_show_ip = (\<lambda>_. [])\<rparr>"

definition demo_features :: "(utext \<times> server_ports) list \<Rightarrow> server_features" where
  "demo_features hosts =
     \<lparr>sf_hosts = hosts, sf_genesis_hash = null_hash, sf_server_version = [], sf_protocol_min = PROTOCOL_VERSION,
      sf_protocol_max = PROTOCOL_VERSION, sf_pruning = None, sf_hash_function = lit ''sha256''\<rparr>"

definition demo_up :: "utext \<Rightarrow> utext option \<Rightarrow> (error_kind, server_features_res) outcome" where
  "demo_up url socks =
     Ok \<lparr>sr_genesis_hash = rev null_hash, sr_server_version = [], sr_protocol_min = lit ''1.4'', sr_protocol_max = lit ''1.4'',
         sr_pruning = None, sr_hash_function = Some (lit ''sha256'')\<rparr>"

definition demo_down :: "utext \<Rightarrow> utext option \<Rightarrow> (error_kind, server_features_res) outcome" where
  "demo_down url socks = Err (Msg ''connection refused'')"

definition demo_ports :: server_ports where
  "demo_ports = \<lparr>sp_tcp_port = Some 50001, sp_ssl_port = None\<rparr>"

definition demo_job :: "nat option \<Rightarrow> nat option \<Rightarrow> nat \<Rightarrow> health_check" where
  "demo_job last_check last_healthy failures =
     \<lparr>hc_addr = Onion (lit ''a.onion''), hc_hostname = lit ''a.onion'', hc_service = Tcp 50001, hc_is_default = False,
      hc_added_by = Some (V4 1 2 3 4), hc_last_check = last_check, hc_last_healthy = last_healthy, hc_consecutive_failures = failures\<rparr>"

definition demo_manager :: "health_check list \<Rightarrow> (server_addr \<rightharpoonup> server) \<Rightarrow> discovery_manager" where
  "demo_manager queue healthy =
     \<lparr>dm_queue = queue, dm_healthy = healthy, dm_our_version = PROTOCOL_VERSION, dm_our_addrs = {},
      dm_our_features = demo_features [], dm_announce = False, dm_tor_proxy = Some []\<rparr>"

lemma demo_check:
  "check_server demo_env demo_up (demo_manager queue healthy) (Onion h) hostname service = Ok (demo_features [])"
  "check_server demo_env demo_down (demo_manager queue healthy) (Onion h) hostname service = Err (Msg ''connection refused'')"
proof -
  have "version_display PROTOCOL_VERSION = lit ''1.4''"
    by (simp add: version_display_def PROTOCOL_VERSION_def show_nat.simps lit_def)
  then have "version_from_str (lit ''1.4'') = Ok PROTOCOL_VERSION"
    using version_roundtrip [of PROTOCOL_VERSION] by (simp add: PROTOCOL_VERSION_def)
  then show "check_server demo_env demo_up (demo_manager queue healthy) (Onion h) hostname service = Ok (demo_features [])"
    by (simp add: check_server_def demo_manager_def demo_up_def features_try_from_def dm_verify_compatibility_def demo_features_def version_le_def)
  show "check_server demo_env demo_down (demo_manager queue healthy) (Onion h) hostname service = Err (Msg ''connection refused'')"
    by (simp add: check_server_def demo_manager_def demo_down_def)
qed

lemma demo_start: "discovery_new demo_env Regtest (demo_features []) PROTOCOL_VERSION False (Some []) = demo_manager [] Map.empty"
  by (simp add: discovery_new_def add_default_servers_def default_servers_def demo_manager_def demo_features_def)

lemma demo_candidate:
  assumes "h = lit ''a.onion'' \<or> h = lit ''A.onion''"
  shows "candidate_host demo_env (demo_manager [] healthy) (V4 1 2 3 4) (h, demo_ports)
     = Some (Onion (lit ''a.onion''), lit ''a.onion'', demo_ports)"
  using assms by (auto simp: candidate_host_def demo_env_def resolve_def demo_manager_def is_remote_addr_def ends_with_def
      starts_with_def ascii_lower_def lit_def utf8_len_def Let_def)

lemma demo_host_jobs: "host_jobs [] (V4 1 2 3 4) (Onion (lit ''a.onion''), lit ''a.onion'', demo_ports) = [demo_job None None 0]"
  by (simp add: host_jobs_def demo_ports_def existing_service_def health_check_new_def demo_job_def)

lemma demo_request:
  "add_server_request demo_env (demo_manager [] healthy) (V4 1 2 3 4) (demo_features [(lit ''a.onion'', demo_ports)])
     = Ok (demo_manager [demo_job None None 0] healthy)"
  using demo_candidate [of "lit ''a.onion''" healthy] demo_host_jobs
  by (simp add: add_server_request_def dm_verify_compatibility_def demo_manager_def demo_features_def version_le_def
      MAX_QUEUE_SIZE_def MAX_SERVERS_PER_REQUEST_def MAX_SERVICES_PER_REQUEST_def map_filter_simps Let_def)

definition demo_healthy :: "server_addr \<rightharpoonup> server" where
  "demo_healthy = [Onion (lit ''a.onion'') \<mapsto> \<lparr>sv_services = {Tcp 50001}, sv_hostname = lit ''a.onion'', sv_features = demo_features []\<rparr>]"

lemma demo_manager_upd [simp]:
  "(demo_manager q healthy)\<lparr>dm_queue := r\<rparr> = demo_manager r healthy" "dm_queue (demo_manager q healthy) = q"
  "(demo_manager q healthy)\<lparr>dm_healthy := healthy'\<rparr> = demo_manager q healthy'" "dm_healthy (demo_manager q healthy) = healthy"
  by (simp_all add: demo_manager_def)

lemma demo_job_addr [simp]: "hc_addr (demo_job c h n) = Onion (lit ''a.onion'')"
  by (simp add: demo_job_def)

text \<open>The checks of the example server, when it is up and when it is down.\<close>

lemma demo_finish:
  "hc_addr job = Onion h \<Longrightarrow> finish_check demo_env demo_up later (demo_manager queue healthy) job =
     (case check_passed (demo_manager queue healthy) job (demo_features []) later of (d1, job') \<Rightarrow> Ok (d1, Some job', None))"
  "hc_addr job = Onion h \<Longrightarrow> finish_check demo_env demo_down later (demo_manager queue healthy) job =
     map_out (\<lambda>(d1, again). (d1, again, Some (Msg ''connection refused''))) (check_failed (demo_manager queue healthy) job later)"
  by (simp_all add: finish_check_def demo_check)

lemma demo_passed:
  "check_passed (demo_manager queue Map.empty) (demo_job None None 0) (demo_features []) t
     = (demo_manager queue demo_healthy, demo_job (Some t) (Some t) 0)"
  "check_passed (demo_manager queue demo_healthy) (demo_job None None 0) (demo_features []) t
     = (demo_manager queue demo_healthy, demo_job (Some t) (Some t) 0)"
  "check_passed (demo_manager queue demo_healthy) (demo_job (Some t') (Some t') 0) (demo_features []) t
     = (demo_manager queue demo_healthy, demo_job (Some t) (Some t) 0)"
  by (simp_all add: check_passed_def save_healthy_service_def server_new_def demo_healthy_def demo_job_def is_healthy_def Let_def)

text \<open>C24: the health checks and the listed servers. Requests of peers and further default servers may come between
  any two steps of the jobs thread, also while the job it took from the queue is being checked with the queue
  unlocked. As long as no two jobs (queued or with the thread) are for one address and service, the next step of the
  thread never panics, and in every reachable state the servers listed to clients are exactly those that have a job,
  queued or with the thread, whose last completed check succeeded, each with exactly the services of those jobs.\<close>

theorem healthy_servers_exact:
  assumes start: "distinct (map job_key (dm_queue (discovery_new env net features version announce proxy)))"
    and run: "reach (discovery_start (discovery_new env net features version announce proxy) t0) (discovery_step env) st"
    and times: "ds_clock st \<le> now" and head: "heap_head (dm_queue (ds_manager st)) i"
    and connect: "\<forall>url socks. \<not> panics (connect url socks)"
  shows "(\<exists>st'. advance env connect i now st = Ok st')
    \<and> (\<forall>addr. get_servers (ds_manager st) addr \<noteq> None \<longleftrightarrow> (\<exists>job\<in>set (jobs_of st). hc_addr job = addr \<and> is_healthy job))
    \<and> (\<forall>addr server. dm_healthy (ds_manager st) addr = Some server \<longrightarrow>
         sv_services server = {s. \<exists>job\<in>set (jobs_of st). hc_addr job = addr \<and> hc_service job = s \<and> is_healthy job})"
proof (intro conjI allI impI)
  let ?d = "ds_manager st"
  have inv: "discovery_inv st" using discovery_machine.reach_inv [OF run] start by blast
  then have ne: "\<And>addr server. dm_healthy ?d addr = Some server \<Longrightarrow> sv_services server \<noteq> {}"
    and ex: "\<And>addr s. s \<in> services_of ?d addr \<longleftrightarrow> (\<exists>job\<in>set (jobs_of st). job_key job = (addr, s) \<and> is_healthy job)"
    by (auto simp: discovery_inv_def jobs_inv_def healthy_exact_def)
  show "\<exists>st'. advance env connect i now st = Ok st'"
    by (rule advance_safe [OF inv times head connect]) blast
  show "sv_services server = {s. \<exists>job\<in>set (jobs_of st). hc_addr job = addr \<and> hc_service job = s \<and> is_healthy job}"
    if "dm_healthy ?d addr = Some server" for addr server
    using ex [of _ addr] that by (auto simp: services_of_def job_key_def)
  show "get_servers ?d addr \<noteq> None \<longleftrightarrow> (\<exists>job\<in>set (jobs_of st). hc_addr job = addr \<and> is_healthy job)" for addr
  proof -
    have "get_servers ?d addr \<noteq> None \<longleftrightarrow> (\<exists>s. s \<in> services_of ?d addr)"
      using ne [of addr] by (cases "dm_healthy ?d addr") (auto simp: get_servers_def services_of_def)
    also have "\<dots> \<longleftrightarrow> (\<exists>job\<in>set (jobs_of st). hc_addr job = addr \<and> is_healthy job)"
      unfolding ex by (auto simp: job_key_def)
    finally show ?thesis .
  qed
qed

text \<open>A server is announced, found healthy, and taken up again an hour later.\<close>

definition demo_state :: "health_check list \<Rightarrow> (server_addr \<rightharpoonup> server) \<Rightarrow> check_phase \<Rightarrow> nat \<Rightarrow> discovery_state" where
  "demo_state queue healthy phase now = \<lparr>ds_manager = demo_manager queue healthy, ds_phase = phase, ds_clock = now\<rparr>"

lemma demo_thread:
  assumes "reach s0 (discovery_step demo_env) (demo_state queue healthy phase t)" "t \<le> now" "length queue \<le> 1"
    and "advance demo_env demo_up 0 now (demo_state queue healthy phase t) = Ok st'"
  shows "reach s0 (discovery_step demo_env) st'"
proof (rule reach_step [OF assms(1) jobs_thread [OF assms(4)]])
  show "heap_head (dm_queue (ds_manager (demo_state queue healthy phase t))) 0"
    using assms(3) by (cases queue) (auto simp: demo_state_def heap_head_def job_le_def split: option.splits)
qed (use assms(2) in \<open>simp_all add: demo_state_def demo_up_def\<close>)

lemma demo_reached:
  "reach (discovery_start (demo_manager [] Map.empty) 0) (discovery_step demo_env)
     (demo_state [] demo_healthy (Checking (demo_job (Some 11) (Some 11) 0)) 3700)"
proof -
  let ?R = "reach (discovery_start (demo_manager [] Map.empty) 0) (discovery_step demo_env)"
  let ?new = "demo_job None None 0" and ?t = "demo_job (Some 11) (Some 11) 0"
  note adv = advance_def demo_state_def queue_due_def nth_opt_def too_early_def demo_job_def HEALTH_CHECK_FREQ_def
  have "?R (demo_state [] Map.empty Idle 0)" using reach_init by (simp add: discovery_start_def demo_state_def)
  then have "?R ((demo_state [] Map.empty Idle 0)\<lparr>ds_manager := demo_manager [?new] Map.empty\<rparr>)"
    by (rule reach_step) (rule peer_request [where added_by = "V4 1 2 3 4" and features = "demo_features [(lit ''a.onion'', demo_ports)]"],
        simp_all add: demo_state_def demo_request jobs_of_def)
  then have "?R (demo_state [?new] Map.empty Idle 0)" by (simp add: demo_state_def)
  from demo_thread [OF this, of 10] have "?R (demo_state [?new] Map.empty Due 10)" by (simp add: adv)
  from demo_thread [OF this, of 10] have "?R (demo_state [] Map.empty (Checking ?new) 10)" by (simp add: adv pop_job_def)
  from demo_thread [OF this, of 11] have "?R (demo_state [] demo_healthy (Pushing ?t) 11)"
    by (simp add: advance_def demo_state_def demo_finish demo_passed)
  from demo_thread [OF this, of 11] have "?R (demo_state [?t] demo_healthy Idle 11)"
    by (simp add: advance_def demo_state_def push_job_def)
  from demo_thread [OF this, of 3700] have "?R (demo_state [?t] demo_healthy Due 3700)" by (simp add: adv)
  from demo_thread [OF this, of 3700] show ?thesis by (simp add: adv pop_job_def)
qed

theorem healthy_servers_exact_witness:
  "\<exists>st. reach (discovery_start (discovery_new demo_env Regtest (demo_features []) PROTOCOL_VERSION False (Some [])) 0)
          (discovery_step demo_env) st
     \<and> dm_queue (ds_manager st) = [] \<and> get_servers (ds_manager st) (Onion (lit ''a.onion'')) \<noteq> None
     \<and> (\<exists>st'. advance demo_env demo_down 0 3701 st = Ok st')"
proof -
  let ?st = "demo_state [] demo_healthy (Checking (demo_job (Some 11) (Some 11) 0)) 3700"
  have q: "dm_queue (ds_manager ?st) = []" "ds_clock ?st \<le> 3701" by (simp_all add: demo_state_def)
  have d: "distinct (map job_key (dm_queue (discovery_new demo_env Regtest (demo_features []) PROTOCOL_VERSION False (Some []))))"
    unfolding demo_start by simp
  have h: "heap_head (dm_queue (ds_manager ?st)) 0" by (simp add: q heap_head_def)
  note t = healthy_servers_exact [OF d demo_reached [folded demo_start] q(2) h, of demo_down]
  have j: "\<exists>job\<in>set (jobs_of ?st). hc_addr job = Onion (lit ''a.onion'') \<and> is_healthy job"
    by (simp add: jobs_of_def demo_state_def is_healthy_def demo_job_def)
  have c: "\<forall>url socks. \<not> panics (demo_down url socks)" by (simp add: demo_down_def)
  have "\<exists>st'. advance demo_env demo_down 0 3701 ?st = Ok st'" "get_servers (ds_manager ?st) (Onion (lit ''a.onion'')) \<noteq> None"
    using t [OF c] j by blast+
  then show ?thesis using demo_reached [folded demo_start] q(1) by blast
qed

section \<open>Two jobs for one service\<close>

definition heap_ok :: "(health_check list \<Rightarrow> nat) \<Rightarrow> bool" where
  "heap_ok pick \<longleftrightarrow> (\<forall>q. heap_head q (pick q))"

lemma heap_pick_pair:
  assumes "heap_ok pick" "\<not> job_le a b"
  shows "pick [a, b] = 0"
proof -
  have "pick [a, b] < 2" "job_le a ([a, b] ! pick [a, b])" using assms(1) [unfolded heap_ok_def heap_head_def, rule_format, of "[a, b]"] by simp_all
  then show ?thesis using assms(2) by (cases "pick [a, b]") (auto simp: less_Suc_eq numeral_2_eq_2)
qed

lemma demo_run:
  assumes "pick queue < length queue" "queue ! pick queue = job" "take (pick queue) queue @ drop (Suc (pick queue)) queue = rest"
    and "hc_addr job = Onion h" "\<not> too_early now job"
  shows "run_health_check demo_env demo_up pick now later (demo_manager queue healthy)
       = (case check_passed (demo_manager rest healthy) job (demo_features []) later of (d, job') \<Rightarrow> Ok (push_job job' d, None))"
    and "run_health_check demo_env demo_down pick now later (demo_manager queue healthy)
       = map_out (\<lambda>(d, again). (case again of Some job' \<Rightarrow> push_job job' d | None \<Rightarrow> d, Some (Msg ''connection refused'')))
           (check_failed (demo_manager rest healthy) job later)"
proof -
  have p: "pop_job (pick queue) (demo_manager queue healthy) = Ok (job, demo_manager rest healthy)" "queue_due now (pick queue) queue"
    using assms by (simp_all add: pop_job_def queue_due_def nth_opt_def)
  show "run_health_check demo_env demo_up pick now later (demo_manager queue healthy)
       = (case check_passed (demo_manager rest healthy) job (demo_features []) later of (d, job') \<Rightarrow> Ok (push_job job' d, None))"
    by (simp add: run_health_check_def p demo_finish [OF assms(4)] split: prod.splits)
  show "run_health_check demo_env demo_down pick now later (demo_manager queue healthy)
       = map_out (\<lambda>(d, again). (case again of Some job' \<Rightarrow> push_job job' d | None \<Rightarrow> d, Some (Msg ''connection refused'')))
           (check_failed (demo_manager rest healthy) job later)"
    by (cases "check_failed (demo_manager rest healthy) job later")
      (auto simp: run_health_check_def p demo_finish [OF assms(4)] split: prod.splits)
qed

lemmas demo_run_first = demo_run [where queue = "[job, other]" and rest = "[other]" and job = job for job other]

text \<open>With one job that is healthy and a new one for the same address and service, both are found healthy; when the server
  then goes down, the first check that fails removes it and the second panics.\<close>

lemma duplicate_jobs_panic:
  assumes heap: "heap_ok pick" and d: "d = demo_manager [demo_job None None 0, demo_job (Some t) (Some t) 0] demo_healthy"
  shows "\<exists>d3 d4 e. run_health_check demo_env demo_up pick (t + 1) (t + 2) d = Ok (d3, None)
    \<and> run_health_check demo_env demo_down pick (t + 3700) (t + 3701) d3 = Ok (d4, Some e)
    \<and> panics (run_health_check demo_env demo_down pick (t + 3702) (t + 3703) d4)"
proof -
  let ?new = "demo_job None None 0" and ?t1 = "demo_job (Some t) (Some t) 0" and ?t2 = "demo_job (Some (t + 2)) (Some (t + 2)) 0"
  let ?f = "demo_job (Some (t + 3701)) (Some t) 1"
  have p: "pick [?new, ?t1] = 0" "pick [?t1, ?t2] = 0" "pick [?t2, ?f] = 0"
    by (intro heap_pick_pair [OF heap]; simp add: job_le_def demo_job_def)+
  have early: "\<not> too_early now ?new" "\<not> too_early (t + 3700) ?t1" "\<not> too_early (t + 3702) ?t2" for now
    by (simp_all add: too_early_def demo_job_def HEALTH_CHECK_FREQ_def)
  have r2: "run_health_check demo_env demo_up pick (t + 1) (t + 2) d = Ok (demo_manager [?t1, ?t2] demo_healthy, None)"
    unfolding d using demo_run_first(1) [of pick "?new" "?t1", OF _ _ _ demo_job_addr early(1)] p(1)
    by (simp add: demo_passed push_job_def)
  have r3: "run_health_check demo_env demo_down pick (t + 3700) (t + 3701) (demo_manager [?t1, ?t2] demo_healthy)
      = Ok (demo_manager [?t2, ?f] Map.empty, Some (Msg ''connection refused''))"
    using demo_run_first(2) [of pick "?t1" "?t2", OF _ _ _ demo_job_addr early(2)] p(2)
    by (simp add: check_failed_def remove_unhealthy_service_def push_job_def demo_healthy_def demo_job_def is_healthy_def should_retry_def
        MAX_CONSECUTIVE_FAILURES_def Let_def)
  have r4: "panics (run_health_check demo_env demo_down pick (t + 3702) (t + 3703) (demo_manager [?t2, ?f] Map.empty))"
    using demo_run_first(2) [of pick "?t2" "?f", OF _ _ _ demo_job_addr early(3)] p(3)
    by (simp add: check_failed_def remove_unhealthy_service_def demo_job_def is_healthy_def)
  show ?thesis using r2 r3 r4 by blast
qed

text \<open>One request that spells a host in two ways queues two jobs for the same address and service.\<close>

theorem twice_spelled_host_panics:
  assumes heap: "heap_ok pick"
  shows "\<exists>d1 d2 d3 d4 e.
    add_server_request demo_env (discovery_new demo_env Regtest (demo_features []) PROTOCOL_VERSION False (Some []))
      (V4 1 2 3 4) (demo_features [(lit ''a.onion'', demo_ports), (lit ''A.onion'', demo_ports)]) = Ok d1
    \<and> run_health_check demo_env demo_up pick 10 11 d1 = Ok (d2, None)
    \<and> run_health_check demo_env demo_up pick 12 13 d2 = Ok (d3, None)
    \<and> run_health_check demo_env demo_down pick 3711 3712 d3 = Ok (d4, Some e)
    \<and> panics (run_health_check demo_env demo_down pick 3713 3714 d4)"
proof -
  let ?new = "demo_job None None 0" and ?t1 = "demo_job (Some 11) (Some 11) 0"
  have request: "add_server_request demo_env (demo_manager [] Map.empty) (V4 1 2 3 4)
      (demo_features [(lit ''a.onion'', demo_ports), (lit ''A.onion'', demo_ports)]) = Ok (demo_manager [?new, ?new] Map.empty)"
    using demo_candidate demo_host_jobs
    by (simp add: add_server_request_def dm_verify_compatibility_def demo_manager_def demo_features_def version_le_def
        MAX_QUEUE_SIZE_def MAX_SERVERS_PER_REQUEST_def MAX_SERVICES_PER_REQUEST_def map_filter_simps Let_def)
  have r1: "run_health_check demo_env demo_up pick 10 11 (demo_manager [?new, ?new] Map.empty) = Ok (demo_manager [?new, ?t1] demo_healthy, None)"
  proof -
    have lt: "pick [?new, ?new] < length [?new, ?new]" using heap [unfolded heap_ok_def heap_head_def, rule_format, of "[?new, ?new]"] by simp
    then have "pick [?new, ?new] = 0 \<or> pick [?new, ?new] = 1" by auto
    then have *: "[?new, ?new] ! pick [?new, ?new] = ?new"
        "take (pick [?new, ?new]) [?new, ?new] @ drop (Suc (pick [?new, ?new])) [?new, ?new] = [?new]" by (elim disjE; simp)+
    have "\<not> too_early 10 ?new" by (simp add: too_early_def demo_job_def)
    from demo_run(1) [where pick = pick and queue = "[?new, ?new]", OF lt * demo_job_addr this] show ?thesis
      by (simp add: demo_passed push_job_def)
  qed
  show ?thesis using request r1 duplicate_jobs_panic [OF heap refl, of 11] unfolding demo_start by simp
qed

text \<open>
  A request that names a server while its job is being checked also queues a second job: only the queue is searched
  for existing jobs, and the job is with the thread.
\<close>

theorem request_during_check_panics:
  assumes heap: "heap_ok pick"
  defines "st \<equiv> demo_state [] demo_healthy (Checking (demo_job (Some 11) (Some 11) 0)) 3700"
  shows "reach (discovery_start (demo_manager [] Map.empty) 0) (discovery_step demo_env) st
    \<and> (\<exists>d1 st2 st3 d4 d5 e.
      add_server_request demo_env (ds_manager st) (V4 1 2 3 4) (demo_features [(lit ''a.onion'', demo_ports)]) = Ok d1
      \<and> advance demo_env demo_up 0 3701 (st\<lparr>ds_manager := d1\<rparr>) = Ok st2 \<and> advance demo_env demo_up 0 3701 st2 = Ok st3
      \<and> run_health_check demo_env demo_up pick 3702 3703 (ds_manager st3) = Ok (d4, None)
      \<and> run_health_check demo_env demo_down pick 7401 7402 d4 = Ok (d5, Some e)
      \<and> panics (run_health_check demo_env demo_down pick 7403 7404 d5))"
proof -
  let ?new = "demo_job None None 0" and ?t = "demo_job (Some 3701) (Some 3701) 0"
  have a: "advance demo_env demo_up 0 3701 (st\<lparr>ds_manager := demo_manager [?new] demo_healthy\<rparr>)
      = Ok (demo_state [?new] demo_healthy (Pushing ?t) 3701)"
    by (simp add: st_def advance_def demo_state_def demo_finish demo_passed)
  have b: "advance demo_env demo_up 0 3701 (demo_state [?new] demo_healthy (Pushing ?t) 3701) = Ok (demo_state [?new, ?t] demo_healthy Idle 3701)"
    by (simp add: advance_def demo_state_def push_job_def)
  have r: "add_server_request demo_env (ds_manager st) (V4 1 2 3 4) (demo_features [(lit ''a.onion'', demo_ports)])
      = Ok (demo_manager [?new] demo_healthy)"
    by (simp add: st_def demo_state_def demo_request)
  have m: "ds_manager (demo_state [?new, ?t] demo_healthy Idle 3701) = demo_manager [?new, ?t] demo_healthy" by (simp add: demo_state_def)
  obtain d4 d5 e where t: "run_health_check demo_env demo_up pick 3702 3703 (ds_manager (demo_state [?new, ?t] demo_healthy Idle 3701)) = Ok (d4, None)"
      "run_health_check demo_env demo_down pick 7401 7402 d4 = Ok (d5, Some e)"
      "panics (run_health_check demo_env demo_down pick 7403 7404 d5)"
    using duplicate_jobs_panic [OF heap m] by auto
  show ?thesis using a b r t demo_reached [folded st_def] by blast
qed

definition demo_pick :: "health_check list \<Rightarrow> nat" where
  "demo_pick q = length (takeWhile (\<lambda>job. \<not> (\<forall>other\<in>set q. job_le other job)) q)"

lemma takeWhile_shorter: "\<exists>x\<in>set xs. \<not> P x \<Longrightarrow> length (takeWhile P xs) < length xs"
  by (induction xs) auto

lemma demo_pick_ok: "heap_ok demo_pick"
  unfolding heap_ok_def heap_head_def
proof (intro allI impI)
  fix q :: "health_check list" assume "q \<noteq> []"
  let ?key = "\<lambda>job. case hc_last_check job of None \<Rightarrow> 0 | Some t \<Rightarrow> Suc t"
  have le: "job_le a b \<longleftrightarrow> ?key b \<le> ?key a" for a b by (simp add: job_le_def split: option.splits)
  have "\<exists>job\<in>set q. \<forall>other\<in>set q. ?key job \<le> ?key other"
    using \<open>q \<noteq> []\<close> by (meson arg_min_if_finite(1) arg_min_least finite_set set_empty)
  then have ex: "\<exists>job\<in>set q. \<forall>other\<in>set q. job_le other job" unfolding le .
  then have "demo_pick q < length q" 
    unfolding demo_pick_def by (intro takeWhile_shorter) blast
  moreover from this have "\<forall>other\<in>set q. job_le other (q ! demo_pick q)"
    unfolding demo_pick_def using nth_length_takeWhile by blast
  ultimately show "demo_pick q < length q \<and> (\<forall>job\<in>set q. job_le job (q ! demo_pick q))" by blast
qed

theorem twice_spelled_host_panics_witness:
  "\<exists>d1 d2 d3 d4 e.
    add_server_request demo_env (discovery_new demo_env Regtest (demo_features []) PROTOCOL_VERSION False (Some []))
      (V4 1 2 3 4) (demo_features [(lit ''a.onion'', demo_ports), (lit ''A.onion'', demo_ports)]) = Ok d1
    \<and> run_health_check demo_env demo_up demo_pick 10 11 d1 = Ok (d2, None)
    \<and> run_health_check demo_env demo_up demo_pick 12 13 d2 = Ok (d3, None)
    \<and> run_health_check demo_env demo_down demo_pick 3711 3712 d3 = Ok (d4, Some e)
    \<and> panics (run_health_check demo_env demo_down demo_pick 3713 3714 d4)"
  by (rule twice_spelled_host_panics [OF demo_pick_ok])

end
