(* ===== verification/Electrum.thy ===== *)
theory Electrum
  imports Query Discovery
begin

text \<open>
  The Electrum server (\<^verbatim>\<open>src/electrum/server.rs\<close>): the JSON-RPC methods of a connection, its subscriptions
  and their updates, the limits per client, and the methods offered over HTTP. The state all
  connections share (the query, the two gauges, the connections counted per client) is the record
  \<open>rpc_state\<close>, the state of one connection the record \<open>connection\<close>; a method returns its result and both.
  Printing and parsing of JSON and of hashes, floating-point division and the node's package
  submission are the record \<open>electrum_lib\<close>. A hash map is the list of its entries.
\<close>

section \<open>The code\<close>

definition MAX_HEADERS :: nat where
  "MAX_HEADERS = 2016"

text \<open>The reply of the node to a package; \<open>pk_json\<close> is what it serialises to.\<close>

record 'g package_result =
  pk_json :: "'g json"
  pk_package_msg :: utext
  pk_tx_results :: "(utext \<times> utext option) list"

record ('f, 'g) electrum_lib =
  el_parse_hash :: "utext \<Rightarrow> hash option"
  el_show_hash :: "hash \<Rightarrow> utext"
  el_parse_json :: "utext \<Rightarrow> 'g json option"
  el_show_json :: "'g json \<Rightarrow> utext"
  el_btc_per_kb :: "'g \<Rightarrow> 'g"
  el_minus_one :: 'g
  el_rate_json :: "'f f32 \<Rightarrow> 'g json"
  el_features_json :: "server_features \<Rightarrow> 'g json"
  el_version_string :: utext
  el_banner :: utext
  el_submit_package :: "utext list \<Rightarrow> (error_kind, 'g package_result) outcome"

type_synonym sock_addr = "ip_addr \<times> u16"

datatype message = Request utext | PeriodicUpdate | Done | Proxy "sock_addr list option"

record 'g connection =
  cn_chan :: "message list"
  cn_last_header_entry :: "header_entry option"
  cn_status_hashes :: "(hash \<times> 'g json) list"
  cn_txs_limit :: nat
  cn_max_subscriptions :: nat
  cn_idle_timeout :: nat
  cn_last_request_at :: nat
  cn_server_features :: server_features
  cn_haproxy_depth :: nat
  cn_proxy_client :: "sock_addr option"
  cn_direct_ip :: "ip_addr option"
  cn_connections_per_client :: nat
  cn_registered_ip :: "ip_addr option"

record ('d, 'f, 'g) rpc_state =
  rp_query :: "('d, 'f, 'g) query"
  rp_subscriptions :: int
  rp_clients :: int
  rp_client_counts :: "ip_addr \<rightharpoonup> nat"

text \<open>The errors as text, and a number or a text inside an error.\<close>

definition show_int :: "int \<Rightarrow> utext" where
  "show_int i = (if i < 0 then lit ''-'' @ show_nat (nat (- i)) else show_nat (nat i))"

definition text_msg :: "utext \<Rightarrow> error_kind" where
  "text_msg t = Msg (map char_of t)"

definition error_text :: "error_kind \<Rightarrow> utext" where
  "error_text e =
     (case e of
        Msg s \<Rightarrow> lit s
      | Connection s \<Rightarrow> lit ''Connection error: '' @ lit s
      | Interrupt sig \<Rightarrow> lit ''Interrupted by signal '' @ show_int sig
      | TooManyUtxos limit \<Rightarrow>
          lit ''Too many unspent transaction outputs (>'' @ show_nat limit @ lit ''). Contact support to raise limits.''
      | TooManyTxs limit \<Rightarrow>
          lit ''Too many history transactions (>'' @ show_nat limit @ lit ''). Contact support to raise limits.''
      | DaemonBusy s \<Rightarrow> lit ''Daemon is busy: '' @ lit s
      | DaemonUnavailable s \<Rightarrow> lit ''Daemon is unavailable: '' @ lit s)"

definition chain_err :: "string \<Rightarrow> ('e, 'a) outcome \<Rightarrow> (error_kind, 'a) outcome" where
  "chain_err msg r = (case r of Ok x \<Rightarrow> Ok x | Err _ \<Rightarrow> Err (Msg msg) | Panic s \<Rightarrow> Panic s)"

definition jtext :: "string \<Rightarrow> 'g json" where
  "jtext s = JString (lit s)"

definition jnat :: "nat \<Rightarrow> 'g json" where
  "jnat n = JNumber (PosInt n)"

definition jint :: "int \<Rightarrow> 'g json" where
  "jint i = JNumber (if i < 0 then NegInt i else PosInt (nat i))"

section \<open>Parameters\<close>

definition hash_from_value :: "('f, 'g) electrum_lib \<Rightarrow> 'g json option \<Rightarrow> (error_kind, hash) outcome" where
  "hash_from_value el val =
     bind_out (ok_or (Msg ''missing hash'') val) (\<lambda>v.
     bind_out (ok_or (Msg ''non-string hash'') (as_str v)) (\<lambda>s.
     ok_or (Msg ''non-hex hash'') (el_parse_hash el s)))"

definition usize_from_value :: "'g json option \<Rightarrow> string \<Rightarrow> (error_kind, nat) outcome" where
  "usize_from_value val name =
     bind_out (ok_or (Msg (''missing '' @ name)) val) (\<lambda>v. ok_or (Msg (''non-integer '' @ name)) (as_u64 v))"

definition usize_from_value_or :: "'g json option \<Rightarrow> string \<Rightarrow> nat \<Rightarrow> (error_kind, nat) outcome" where
  "usize_from_value_or val name dflt = (if val = None then Ok dflt else usize_from_value val name)"

definition bool_from_value :: "'g json option \<Rightarrow> string \<Rightarrow> (error_kind, bool) outcome" where
  "bool_from_value val name =
     bind_out (ok_or (Msg (''missing '' @ name)) val) (\<lambda>v. ok_or (Msg (''not a bool '' @ name)) (as_bool v))"

definition bool_from_value_or :: "'g json option \<Rightarrow> string \<Rightarrow> bool \<Rightarrow> (error_kind, bool) outcome" where
  "bool_from_value_or val name dflt = (if val = None then Ok dflt else bool_from_value val name)"

text \<open>\<open>serde_json::from_value\<close> for a list of strings.\<close>

definition strings_from_value :: "'g json \<Rightarrow> (error_kind, utext list) outcome" where
  "strings_from_value v =
     ok_or (Msg ''non-array transactions'')
       (case v of JArray xs \<Rightarrow> if \<forall>x\<in>set xs. as_str x \<noteq> None then Some (List.map_filter as_str xs) else None | _ \<Rightarrow> None)"

section \<open>The status of a script\<close>

definition get_electrum_height :: "block_id option \<Rightarrow> bool \<Rightarrow> int" where
  "get_electrum_height blockid unconfirmed_parents =
     (case (blockid, unconfirmed_parents) of
        (Some b, _) \<Rightarrow> sint (word_of_nat (bid_height b) :: 64 word)
      | (None, False) \<Rightarrow> 0
      | (None, True) \<Rightarrow> -1)"

definition tx_height :: "('d, 'f, 'g) query \<Rightarrow> hash \<times> block_id option \<Rightarrow> int" where
  "tx_height q entry =
     (case entry of
        (txid, blockid) \<Rightarrow>
          get_electrum_height blockid (if blockid = None then query_has_unconfirmed_parents q txid else False))"

definition utf8_encode :: "utext \<Rightarrow> bytes" where
  "utf8_encode s = concat (map (\<lambda>c.
     if c < 128 then [word_of_nat c]
     else if c < 2048 then [word_of_nat (192 + c div 64), word_of_nat (128 + c mod 64)]
     else if c < 65536 then [word_of_nat (224 + c div 4096), word_of_nat (128 + c div 64 mod 64), word_of_nat (128 + c mod 64)]
     else [word_of_nat (240 + c div 262144), word_of_nat (128 + c div 4096 mod 64), word_of_nat (128 + c div 64 mod 64),
           word_of_nat (128 + c mod 64)]) s)"

definition get_status_hash ::
  "bitcoin_lib \<Rightarrow> ('f, 'g) electrum_lib \<Rightarrow> ('d, 'f, 'g) query \<Rightarrow> (hash \<times> block_id option) list \<Rightarrow> hash option"
where
  "get_status_hash lib el q txs =
     (if txs = [] then None
      else Some (lib_sha256 lib
        (concat (map (\<lambda>entry. utf8_encode (el_show_hash el (fst entry) @ lit '':'' @ show_int (tx_height q entry) @ lit '':'')) txs))))"

definition get_history ::
  "'d rocks \<Rightarrow> ('d, 'f, 'g) query \<Rightarrow> bytes \<Rightarrow> nat \<Rightarrow> (error_kind, (hash \<times> block_id option) list) outcome"
where
  "get_history rk q scripthash txs_limit =
     bind_out (query_history_txids rk q scripthash ((txs_limit + 1) mod 2 ^ 64)) (\<lambda>txids.
       if length txids \<le> txs_limit then Ok txids else Err (TooManyTxs txs_limit))"

definition script_status ::
  "'d rocks \<Rightarrow> bitcoin_lib \<Rightarrow> ('f, 'g) electrum_lib \<Rightarrow> ('d, 'f, 'g) query \<Rightarrow> nat \<Rightarrow> hash \<Rightarrow> (error_kind, 'g json) outcome"
where
  "script_status rk lib el q txs_limit script_hash =
     bind_out (get_history rk q script_hash txs_limit) (\<lambda>txids.
       case get_status_hash lib el q txids of
         None \<Rightarrow> Ok JNull
       | Some h \<Rightarrow> map_out (\<lambda>h. JString (hex_encode h)) (full_hash h))"

section \<open>The methods\<close>

type_synonym ('d, 'f, 'g) reply = "(error_kind, 'g json) outcome \<times> ('d, 'f, 'g) rpc_state \<times> 'g connection"

text \<open>A query that leaves a new state of the caches behind it.\<close>

definition with_query ::
  "('d, 'f, 'g) rpc_state \<Rightarrow> 'g connection \<Rightarrow> ('a \<Rightarrow> (error_kind, 'g json) outcome) \<Rightarrow> (error_kind, 'a \<times> ('d, 'f, 'g) query) outcome
    \<Rightarrow> ('d, 'f, 'g) reply"
where
  "with_query rp cn f r =
     (case r of
        Ok (x, q) \<Rightarrow> (f x, rp\<lparr>rp_query := q\<rparr>, cn)
      | Err e \<Rightarrow> (Err e, rp, cn)
      | Panic s \<Rightarrow> (Panic s, rp, cn))"

definition header_hex :: "bitcoin_lib \<Rightarrow> header_entry \<Rightarrow> utext" where
  "header_hex lib entry = hex_encode (lib_serialize_header lib (he_header entry))"

definition header_json :: "bitcoin_lib \<Rightarrow> header_entry \<Rightarrow> 'g json" where
  "header_json lib entry = JObject [(lit ''hex'', JString (header_hex lib entry)), (lit ''height'', jnat (he_height entry))]"

definition blockchain_headers_subscribe ::
  "bitcoin_lib \<Rightarrow> ('d, 'f, 'g) rpc_state \<Rightarrow> 'g connection \<Rightarrow> ('d, 'f, 'g) reply"
where
  "blockchain_headers_subscribe lib rp cn =
     (case best_header (q_chain (rp_query rp)) of
        Ok entry \<Rightarrow> (Ok (header_json lib entry), rp, cn\<lparr>cn_last_header_entry := Some entry\<rparr>)
      | Err e \<Rightarrow> (Err e, rp, cn)
      | Panic s \<Rightarrow> (Panic s, rp, cn))"

definition server_version :: "('f, 'g) electrum_lib \<Rightarrow> (error_kind, 'g json) outcome" where
  "server_version el = Ok (JArray [JString (el_version_string el), JString (version_display PROTOCOL_VERSION)])"

definition mempool_get_fee_histogram ::
  "('f, 'g) electrum_lib \<Rightarrow> ('d, 'f, 'g) query \<Rightarrow> (error_kind, 'g json) outcome"
where
  "mempool_get_fee_histogram el q =
     Ok (JArray (map (\<lambda>(rate, vsize). JArray [el_rate_json el rate, jnat (unat vsize)])
           (bl_fee_histogram (fst (mp_backlog_stats (q_mempool q))))))"

definition blockchain_block_header ::
  "bitcoin_lib \<Rightarrow> ('f, 'g) electrum_lib \<Rightarrow> ('d, 'f, 'g) query \<Rightarrow> 'g json list \<Rightarrow> (error_kind, 'g json) outcome"
where
  "blockchain_block_header lib el q params =
     bind_out (usize_from_value (first_opt params) ''height'') (\<lambda>height.
     bind_out (usize_from_value_or (nth_opt params 1) ''cp_height'' 0) (\<lambda>cp_height.
     bind_out (bind_out (cq_header_by_height (q_chain q) height) (ok_or (Msg ''missing header''))) (\<lambda>entry.
     if cp_height = 0 then Ok (JString (header_hex lib entry))
     else map_out
       (\<lambda>(branch, root). JObject [(lit ''header'', JString (header_hex lib entry)), (lit ''root'', JString (el_show_hash el root)),
                                   (lit ''branch'', JArray (map (\<lambda>h. JString (el_show_hash el h)) branch))])
       (get_header_merkle_proof lib (q_chain q) height cp_height))))"

text \<open>The sums of heights wrap around.\<close>

definition blockchain_block_headers ::
  "bitcoin_lib \<Rightarrow> ('f, 'g) electrum_lib \<Rightarrow> ('d, 'f, 'g) query \<Rightarrow> 'g json list \<Rightarrow> (error_kind, 'g json) outcome"
where
  "blockchain_block_headers lib el q params =
     bind_out (usize_from_value (first_opt params) ''start_height'') (\<lambda>start_height.
     bind_out (map_out (min MAX_HEADERS) (usize_from_value (nth_opt params 1) ''count'')) (\<lambda>n.
     bind_out (usize_from_value_or (nth_opt params 2) ''cp_height'' 0) (\<lambda>cp_height.
     bind_out (filter_map_out (\<lambda>height. map_out (map_option (header_hex lib)) (cq_header_by_height (q_chain q) height))
                 [start_height..<(start_height + n) mod 2 ^ 64]) (\<lambda>headers.
     let fields = [(lit ''count'', jnat (length headers)), (lit ''hex'', JString (concat headers)), (lit ''max'', jnat MAX_HEADERS)] in
     if n = 0 \<or> cp_height = 0 then Ok (JObject fields)
     else map_out
       (\<lambda>(branch, root). JObject (fields @ [(lit ''root'', JString (el_show_hash el root)),
                                             (lit ''branch'', JArray (map (\<lambda>h. JString (el_show_hash el h)) branch))]))
       (get_header_merkle_proof lib (q_chain q) ((start_height + (n - 1)) mod 2 ^ 64) cp_height)))))"

definition blockchain_estimatefee ::
  "('f, 'g) electrum_lib \<Rightarrow> 'g query_node \<Rightarrow> int \<Rightarrow> ('d, 'f, 'g) rpc_state \<Rightarrow> 'g connection \<Rightarrow> 'g json list \<Rightarrow> ('d, 'f, 'g) reply"
where
  "blockchain_estimatefee el node now rp cn params =
     (case usize_from_value (first_opt params) ''blocks_count'' of
        Ok conf_target \<Rightarrow>
          with_query rp cn
            (\<lambda>fee_rate. map_out (\<lambda>r. JNumber (Float (el_btc_per_kb el r)))
               (ok_or (text_msg (lit ''cannot estimate fee for '' @ show_nat conf_target @ lit '' blocks'')) fee_rate))
            (estimate_fee node now (rp_query rp) (conf_target mod 2 ^ 16))
      | Err e \<Rightarrow> (Err e, rp, cn)
      | Panic s \<Rightarrow> (Panic s, rp, cn))"

definition blockchain_relayfee ::
  "('f, 'g) electrum_lib \<Rightarrow> 'g query_node \<Rightarrow> ('d, 'f, 'g) rpc_state \<Rightarrow> 'g connection \<Rightarrow> ('d, 'f, 'g) reply"
where
  "blockchain_relayfee el node rp cn =
     (case get_relayfee node (rp_query rp) of
        (r, q) \<Rightarrow> (map_out (\<lambda>relayfee. JNumber (Float (el_btc_per_kb el relayfee))) r, rp\<lparr>rp_query := q\<rparr>, cn))"

text \<open>Inserting into and removing from a hash map.\<close>

definition put_status :: "hash \<Rightarrow> 'v \<Rightarrow> (hash \<times> 'v) list \<Rightarrow> (hash \<times> 'v) list" where
  "put_status k v m =
     (if k \<in> fst ` set m then map (\<lambda>e. if fst e = k then (k, v) else e) m else m @ [(k, v)])"

definition blockchain_scripthash_subscribe ::
  "'d rocks \<Rightarrow> bitcoin_lib \<Rightarrow> ('f, 'g) electrum_lib \<Rightarrow> ('d, 'f, 'g) rpc_state \<Rightarrow> 'g connection \<Rightarrow> 'g json list \<Rightarrow> ('d, 'f, 'g) reply"
where
  "blockchain_scripthash_subscribe rk lib el rp cn params =
     (case bind_out (chain_err ''bad script_hash'' (hash_from_value el (first_opt params))) (\<lambda>script_hash.
             if script_hash \<notin> fst ` set (cn_status_hashes cn) \<and> cn_max_subscriptions cn \<le> length (cn_status_hashes cn)
             then Err (text_msg (lit ''subscription limit reached ('' @ show_nat (cn_max_subscriptions cn) @ lit '' max per client)''))
             else map_out (Pair script_hash) (script_status rk lib el (rp_query rp) (cn_txs_limit cn) script_hash)) of
        Ok (script_hash, status_hash) \<Rightarrow>
          (Ok status_hash,
           (if script_hash \<in> fst ` set (cn_status_hashes cn) then rp else rp\<lparr>rp_subscriptions := rp_subscriptions rp + 1\<rparr>),
           cn\<lparr>cn_status_hashes := put_status script_hash status_hash (cn_status_hashes cn)\<rparr>)
      | Err e \<Rightarrow> (Err e, rp, cn)
      | Panic s \<Rightarrow> (Panic s, rp, cn))"

definition blockchain_scripthash_unsubscribe ::
  "('f, 'g) electrum_lib \<Rightarrow> ('d, 'f, 'g) rpc_state \<Rightarrow> 'g connection \<Rightarrow> 'g json list \<Rightarrow> ('d, 'f, 'g) reply"
where
  "blockchain_scripthash_unsubscribe el rp cn params =
     (case chain_err ''bad script_hash'' (hash_from_value el (first_opt params)) of
        Ok script_hash \<Rightarrow>
          (let removed = script_hash \<in> fst ` set (cn_status_hashes cn)
           in (Ok (JBool removed),
               (if removed then rp\<lparr>rp_subscriptions := rp_subscriptions rp - 1\<rparr> else rp),
               cn\<lparr>cn_status_hashes := filter (\<lambda>e. fst e \<noteq> script_hash) (cn_status_hashes cn)\<rparr>))
      | Err e \<Rightarrow> (Err e, rp, cn)
      | Panic s \<Rightarrow> (Panic s, rp, cn))"

text \<open>The differences are taken on \<open>u64\<close> and on \<open>i64\<close>.\<close>

definition balance_json :: "script_stats \<times> script_stats \<Rightarrow> 'g json" where
  "balance_json st =
     (case st of
        (c, m) \<Rightarrow>
          JObject [(lit ''confirmed'', jnat (unat (st_funded_txo_sum c - st_spent_txo_sum c))),
                   (lit ''unconfirmed'', jint (sint (st_funded_txo_sum m - st_spent_txo_sum m)))])"

definition blockchain_scripthash_get_balance ::
  "'d rocks \<Rightarrow> bitcoin_lib \<Rightarrow> ('f, 'g) electrum_lib \<Rightarrow> ('d, 'f, 'g) rpc_state \<Rightarrow> 'g connection \<Rightarrow> 'g json list \<Rightarrow> ('d, 'f, 'g) reply"
where
  "blockchain_scripthash_get_balance rk lib el rp cn params =
     (case chain_err ''bad script_hash'' (hash_from_value el (first_opt params)) of
        Ok script_hash \<Rightarrow> with_query rp cn (\<lambda>st. Ok (balance_json st)) (query_stats rk lib (rp_query rp) script_hash)
      | Err e \<Rightarrow> (Err e, rp, cn)
      | Panic s \<Rightarrow> (Panic s, rp, cn))"

definition history_json :: "('f, 'g) electrum_lib \<Rightarrow> ('d, 'f, 'g) query \<Rightarrow> hash \<times> block_id option \<Rightarrow> 'g json" where
  "history_json el q entry =
     (case entry of
        (txid, blockid) \<Rightarrow>
          JObject ([(lit ''tx_hash'', JString (el_show_hash el txid)), (lit ''height'', jint (tx_height q entry))]
            @ (case if blockid = None then get_mempool_tx_fee q txid else None of
                 Some fee \<Rightarrow> [(lit ''fee'', jnat (unat fee))]
               | None \<Rightarrow> [])))"

definition blockchain_scripthash_get_history ::
  "'d rocks \<Rightarrow> ('f, 'g) electrum_lib \<Rightarrow> ('d, 'f, 'g) query \<Rightarrow> nat \<Rightarrow> 'g json list \<Rightarrow> (error_kind, 'g json) outcome"
where
  "blockchain_scripthash_get_history rk el q txs_limit params =
     bind_out (chain_err ''bad script_hash'' (hash_from_value el (first_opt params))) (\<lambda>script_hash.
       map_out (\<lambda>txids. JArray (map (history_json el q) txids)) (get_history rk q script_hash txs_limit))"

definition utxo_json :: "('f, 'g) electrum_lib \<Rightarrow> utxo_entry \<Rightarrow> 'g json" where
  "utxo_json el u =
     JObject [(lit ''height'', jnat (case ux_confirmed u of Some b \<Rightarrow> bid_height b | None \<Rightarrow> 0)),
              (lit ''tx_pos'', jnat (unat (ux_vout u))), (lit ''tx_hash'', JString (el_show_hash el (ux_txid u))),
              (lit ''value'', jnat (unat (ux_value u)))]"

definition blockchain_scripthash_listunspent ::
  "'d rocks \<Rightarrow> bitcoin_lib \<Rightarrow> ('f, 'g) electrum_lib \<Rightarrow> ('d, 'f, 'g) rpc_state \<Rightarrow> 'g connection \<Rightarrow> 'g json list \<Rightarrow> ('d, 'f, 'g) reply"
where
  "blockchain_scripthash_listunspent rk lib el rp cn params =
     (case chain_err ''bad script_hash'' (hash_from_value el (first_opt params)) of
        Ok script_hash \<Rightarrow>
          with_query rp cn (\<lambda>utxos. Ok (JArray (map (utxo_json el) utxos))) (query_utxo rk lib (rp_query rp) script_hash)
      | Err e \<Rightarrow> (Err e, rp, cn)
      | Panic s \<Rightarrow> (Panic s, rp, cn))"

text \<open>The channel of a connection holds ten messages; a message that does not fit is dropped.\<close>

definition try_send :: "message \<Rightarrow> 'g connection \<Rightarrow> 'g connection" where
  "try_send msg cn = (if length (cn_chan cn) < 10 then cn\<lparr>cn_chan := cn_chan cn @ [msg]\<rparr> else cn)"

definition blockchain_transaction_broadcast ::
  "'d rocks \<Rightarrow> bitcoin_lib \<Rightarrow> (u64 \<Rightarrow> u64 \<Rightarrow> 'f f32) \<Rightarrow> ('f, 'g) electrum_lib \<Rightarrow> 'g query_node
    \<Rightarrow> ('d, 'f, 'g) rpc_state \<Rightarrow> 'g connection \<Rightarrow> 'g json list \<Rightarrow> ('d, 'f, 'g) reply"
where
  "blockchain_transaction_broadcast rk lib fdiv el node rp cn params =
     (case bind_out (ok_or (Msg ''missing tx'') (first_opt params)) (\<lambda>tx.
           bind_out (ok_or (Msg ''non-string tx'') (as_str tx)) (\<lambda>tx.
             broadcast_raw rk lib fdiv node (rp_query rp) tx)) of
        Ok (txid, q) \<Rightarrow> (Ok (JString (el_show_hash el txid)), rp\<lparr>rp_query := q\<rparr>, try_send PeriodicUpdate cn)
      | Err e \<Rightarrow> (Err e, rp, cn)
      | Panic s \<Rightarrow> (Panic s, rp, cn))"

definition into_electrum_response :: "'g package_result \<Rightarrow> bool \<Rightarrow> 'g json" where
  "into_electrum_response r verbose =
     (if verbose then pk_json r
      else (let success = (pk_package_msg r = lit ''success'');
                errors = List.map_filter
                  (\<lambda>(txid, error). map_option (\<lambda>e. JObject [(lit ''error'', JString e), (lit ''txid'', JString txid)]) error) (pk_tx_results r)
            in if errors = [] then JObject [(lit ''success'', JBool success)]
               else JObject [(lit ''success'', JBool success), (lit ''errors'', JArray errors)]))"

definition blockchain_transaction_broadcast_package ::
  "('f, 'g) electrum_lib \<Rightarrow> ('d, 'f, 'g) rpc_state \<Rightarrow> 'g connection \<Rightarrow> 'g json list \<Rightarrow> ('d, 'f, 'g) reply"
where
  "blockchain_transaction_broadcast_package el rp cn params =
     (case bind_out (bind_out (ok_or (Msg ''missing transactions'') (first_opt params)) strings_from_value) (\<lambda>txhexes.
           bind_out (bool_from_value_or (nth_opt params 1) ''verbose'' False) (\<lambda>verbose.
             map_out (\<lambda>r. into_electrum_response r verbose) (el_submit_package el txhexes))) of
        Ok v \<Rightarrow> (Ok v, rp, try_send PeriodicUpdate cn)
      | Err e \<Rightarrow> (Err e, rp, cn)
      | Panic s \<Rightarrow> (Panic s, rp, cn))"

definition blockchain_transaction_get ::
  "'d rocks \<Rightarrow> bitcoin_lib \<Rightarrow> ('f, 'g) electrum_lib \<Rightarrow> ('d, 'f, 'g) query \<Rightarrow> 'g json list \<Rightarrow> (error_kind, 'g json) outcome"
where
  "blockchain_transaction_get rk lib el q params =
     bind_out (chain_err ''bad tx_hash'' (hash_from_value el (first_opt params))) (\<lambda>tx_hash.
     bind_out (case nth_opt params 1 of
                 Some v \<Rightarrow> ok_or (Msg ''non-bool verbose value'') (as_bool v)
               | None \<Rightarrow> Ok False) (\<lambda>verbose.
     if verbose then Err (Msg ''verbose transactions are currently unsupported'')
     else bind_out (query_lookup_raw_txn rk lib q tx_hash) (\<lambda>tx.
            map_out (\<lambda>raw. JString (hex_encode raw)) (ok_or (Msg ''missing transaction'') tx))))"

definition blockchain_transaction_get_merkle ::
  "'d rocks \<Rightarrow> bitcoin_lib \<Rightarrow> ('f, 'g) electrum_lib \<Rightarrow> ('d, 'f, 'g) query \<Rightarrow> 'g json list \<Rightarrow> (error_kind, 'g json) outcome"
where
  "blockchain_transaction_get_merkle rk lib el q params =
     bind_out (chain_err ''bad tx_hash'' (hash_from_value el (first_opt params))) (\<lambda>txid.
     bind_out (usize_from_value (nth_opt params 1) ''height'') (\<lambda>height.
     bind_out (bind_out (tx_confirming_block rk (q_chain q) txid) (ok_or (Msg ''tx not found or is unconfirmed''))) (\<lambda>blockid.
     if bid_height blockid \<noteq> height then Err (Msg ''invalid confirmation height provided'')
     else map_out
       (\<lambda>(merkle, pos). JObject [(lit ''block_height'', jnat (bid_height blockid)),
                                  (lit ''merkle'', JArray (map (\<lambda>h. JString (el_show_hash el h)) merkle)), (lit ''pos'', jnat pos)])
       (chain_err ''cannot create merkle proof'' (get_tx_merkle_proof rk lib (q_chain q) txid (bid_hash blockid))))))"

definition blockchain_transaction_id_from_pos ::
  "'d rocks \<Rightarrow> bitcoin_lib \<Rightarrow> ('f, 'g) electrum_lib \<Rightarrow> ('d, 'f, 'g) query \<Rightarrow> 'g json list \<Rightarrow> (error_kind, 'g json) outcome"
where
  "blockchain_transaction_id_from_pos rk lib el q params =
     bind_out (usize_from_value (first_opt params) ''height'') (\<lambda>height.
     bind_out (usize_from_value (nth_opt params 1) ''tx_pos'') (\<lambda>tx_pos.
     bind_out (bool_from_value_or (nth_opt params 2) ''merkle'' False) (\<lambda>want_merkle.
     map_out
       (\<lambda>(txid, merkle).
          if \<not> want_merkle then JString (el_show_hash el txid)
          else JObject [(lit ''tx_hash'', JString (el_show_hash el txid)),
                        (lit ''merkle'', JArray (map (\<lambda>h. JString (el_show_hash el h)) merkle))])
       (get_id_from_pos rk lib (q_chain q) height tx_pos want_merkle))))"

section \<open>Requests\<close>

datatype json_rpc_v2_error = ParseError | InvalidRequest | MethodNotFound | InternalError

definition into_i16 :: "json_rpc_v2_error \<Rightarrow> int" where
  "into_i16 e = (case e of ParseError \<Rightarrow> -32700 | InvalidRequest \<Rightarrow> -32600 | MethodNotFound \<Rightarrow> -32601 | InternalError \<Rightarrow> -32603)"

definition json_rpc_error :: "utext \<Rightarrow> 'g json option \<Rightarrow> json_rpc_v2_error \<Rightarrow> 'g json" where
  "json_rpc_error input rid code =
     JObject ([(lit ''error'', JObject [(lit ''code'', jint (into_i16 code)), (lit ''message'', JString input)]),
               (lit ''jsonrpc'', jtext ''2.0'')]
       @ (case rid of Some v \<Rightarrow> [(lit ''id'', v)] | None \<Rightarrow> []))"

text \<open>The methods by name, with their results; no method of that name is \<open>None\<close>.\<close>

definition call_method ::
  "'d rocks \<Rightarrow> bitcoin_lib \<Rightarrow> (u64 \<Rightarrow> u64 \<Rightarrow> 'f f32) \<Rightarrow> ('f, 'g) electrum_lib \<Rightarrow> 'g query_node \<Rightarrow> int
    \<Rightarrow> ('d, 'f, 'g) rpc_state \<Rightarrow> 'g connection \<Rightarrow> utext \<Rightarrow> 'g json list \<Rightarrow> ('d, 'f, 'g) reply option"
where
  "call_method rk lib fdiv el node now rp cn meth params =
     (let q = rp_query rp; pure = (\<lambda>r. Some (r, rp, cn)) in
      if meth = lit ''blockchain.block.header'' then pure (blockchain_block_header lib el q params)
      else if meth = lit ''blockchain.block.headers'' then pure (blockchain_block_headers lib el q params)
      else if meth = lit ''blockchain.estimatefee'' then Some (blockchain_estimatefee el node now rp cn params)
      else if meth = lit ''blockchain.headers.subscribe'' then Some (blockchain_headers_subscribe lib rp cn)
      else if meth = lit ''blockchain.relayfee'' then Some (blockchain_relayfee el node rp cn)
      else if meth = lit ''blockchain.scripthash.get_balance'' then Some (blockchain_scripthash_get_balance rk lib el rp cn params)
      else if meth = lit ''blockchain.scripthash.get_history'' then pure (blockchain_scripthash_get_history rk el q (cn_txs_limit cn) params)
      else if meth = lit ''blockchain.scripthash.listunspent'' then Some (blockchain_scripthash_listunspent rk lib el rp cn params)
      else if meth = lit ''blockchain.scripthash.subscribe'' then Some (blockchain_scripthash_subscribe rk lib el rp cn params)
      else if meth = lit ''blockchain.scripthash.unsubscribe'' then Some (blockchain_scripthash_unsubscribe el rp cn params)
      else if meth = lit ''blockchain.transaction.broadcast'' then Some (blockchain_transaction_broadcast rk lib fdiv el node rp cn params)
      else if meth = lit ''blockchain.transaction.broadcast_package'' then Some (blockchain_transaction_broadcast_package el rp cn params)
      else if meth = lit ''blockchain.transaction.get'' then pure (blockchain_transaction_get rk lib el q params)
      else if meth = lit ''blockchain.transaction.get_merkle'' then pure (blockchain_transaction_get_merkle rk lib el q params)
      else if meth = lit ''blockchain.transaction.id_from_pos'' then pure (blockchain_transaction_id_from_pos rk lib el q params)
      else if meth = lit ''mempool.get_fee_histogram'' then pure (mempool_get_fee_histogram el q)
      else if meth = lit ''server.banner'' then pure (Ok (JString (el_banner el)))
      else if meth = lit ''server.donation_address'' then pure (Ok JNull)
      else if meth = lit ''server.peers.subscribe'' then pure (Ok (JArray []))
      else if meth = lit ''server.ping'' then pure (Ok JNull)
      else if meth = lit ''server.version'' then pure (server_version el)
      else if meth = lit ''server.features'' then pure (Ok (el_features_json el (cn_server_features cn)))
      else None)"

definition handle_command ::
  "'d rocks \<Rightarrow> bitcoin_lib \<Rightarrow> (u64 \<Rightarrow> u64 \<Rightarrow> 'f f32) \<Rightarrow> ('f, 'g) electrum_lib \<Rightarrow> 'g query_node \<Rightarrow> int
    \<Rightarrow> ('d, 'f, 'g) rpc_state \<Rightarrow> 'g connection \<Rightarrow> utext \<Rightarrow> 'g json list \<Rightarrow> 'g json \<Rightarrow> ('d, 'f, 'g) reply"
where
  "handle_command rk lib fdiv el node now rp cn meth params rid =
     (case call_method rk lib fdiv el node now rp cn meth params of
        None \<Rightarrow> (Ok (json_rpc_error (lit ''Method '' @ meth @ lit '' not found'') (Some rid) MethodNotFound), rp, cn)
      | Some (r, rp', cn') \<Rightarrow>
          ((case r of
              Ok v \<Rightarrow> Ok (JObject [(lit ''jsonrpc'', jtext ''2.0''), (lit ''id'', rid), (lit ''result'', v)])
            | Err e \<Rightarrow> Ok (json_rpc_error (error_text e) (Some rid) InternalError)
            | Panic s \<Rightarrow> Panic s), rp', cn'))"

definition handle_value ::
  "'d rocks \<Rightarrow> bitcoin_lib \<Rightarrow> (u64 \<Rightarrow> u64 \<Rightarrow> 'f f32) \<Rightarrow> ('f, 'g) electrum_lib \<Rightarrow> 'g query_node \<Rightarrow> int
    \<Rightarrow> ('d, 'f, 'g) rpc_state \<Rightarrow> 'g connection \<Rightarrow> 'g json \<Rightarrow> ('d, 'f, 'g) reply"
where
  "handle_value rk lib fdiv el node now rp cn v =
     (case (json_get v (lit ''method''), (case json_get v (lit ''params'') of Some p \<Rightarrow> p | None \<Rightarrow> JArray []), json_get v (lit ''id'')) of
        (Some (JString meth), JArray params, Some rid) \<Rightarrow> handle_command rk lib fdiv el node now rp cn meth params rid
      | (_, _, Some rid) \<Rightarrow> (Ok (json_rpc_error (el_show_json el v) (Some rid) InvalidRequest), rp, cn)
      | _ \<Rightarrow> (Ok (json_rpc_error (el_show_json el v) None InvalidRequest), rp, cn))"

text \<open>The commands of a batch, one after the other.\<close>

fun handle_batch ::
  "'d rocks \<Rightarrow> bitcoin_lib \<Rightarrow> (u64 \<Rightarrow> u64 \<Rightarrow> 'f f32) \<Rightarrow> ('f, 'g) electrum_lib \<Rightarrow> 'g query_node \<Rightarrow> int
    \<Rightarrow> ('d, 'f, 'g) rpc_state \<Rightarrow> 'g connection \<Rightarrow> 'g json list
    \<Rightarrow> (error_kind, 'g json list) outcome \<times> ('d, 'f, 'g) rpc_state \<times> 'g connection"
where
  "handle_batch rk lib fdiv el node now rp cn [] = (Ok [], rp, cn)"
| "handle_batch rk lib fdiv el node now rp cn (cmd # cmds) =
     (case handle_value rk lib fdiv el node now rp cn cmd of
        (Ok v, rp1, cn1) \<Rightarrow>
          (case handle_batch rk lib fdiv el node now rp1 cn1 cmds of (r, rp2, cn2) \<Rightarrow> (map_out (Cons v) r, rp2, cn2))
      | (Err e, rp1, cn1) \<Rightarrow> (Err e, rp1, cn1)
      | (Panic s, rp1, cn1) \<Rightarrow> (Panic s, rp1, cn1))"

definition handle_line ::
  "'d rocks \<Rightarrow> bitcoin_lib \<Rightarrow> (u64 \<Rightarrow> u64 \<Rightarrow> 'f f32) \<Rightarrow> ('f, 'g) electrum_lib \<Rightarrow> 'g query_node \<Rightarrow> int
    \<Rightarrow> ('d, 'f, 'g) rpc_state \<Rightarrow> 'g connection \<Rightarrow> utext \<Rightarrow> ('d, 'f, 'g) reply"
where
  "handle_line rk lib fdiv el node now rp cn line =
     (case el_parse_json el line of
        Some (JArray arr) \<Rightarrow>
          (case handle_batch rk lib fdiv el node now rp cn arr of (r, rp', cn') \<Rightarrow> (map_out JArray r, rp', cn'))
      | Some cmd \<Rightarrow> handle_value rk lib fdiv el node now rp cn cmd
      | None \<Rightarrow> (Ok (json_rpc_error (lit ''Invalid JSON: '' @ line) None ParseError), rp, cn))"

section \<open>Subscriptions\<close>

definition header_notification :: "bitcoin_lib \<Rightarrow> header_entry \<Rightarrow> 'g json" where
  "header_notification lib entry =
     JObject [(lit ''jsonrpc'', jtext ''2.0''), (lit ''method'', jtext ''blockchain.headers.subscribe''),
              (lit ''params'', JArray [header_json lib entry])]"

definition status_notification :: "('f, 'g) electrum_lib \<Rightarrow> hash \<Rightarrow> 'g json \<Rightarrow> 'g json" where
  "status_notification el script_hash status =
     JObject [(lit ''jsonrpc'', jtext ''2.0''), (lit ''method'', jtext ''blockchain.scripthash.subscribe''),
              (lit ''params'', JArray [JString (el_show_hash el script_hash), status])]"

text \<open>An error stops the loop; the statuses before it were already replaced.\<close>

fun update_statuses ::
  "'d rocks \<Rightarrow> bitcoin_lib \<Rightarrow> ('f, 'g) electrum_lib \<Rightarrow> ('d, 'f, 'g) query \<Rightarrow> nat \<Rightarrow> (hash \<times> 'g json) list
    \<Rightarrow> (error_kind, 'g json list) outcome \<times> (hash \<times> 'g json) list"
where
  "update_statuses rk lib el q txs_limit [] = (Ok [], [])"
| "update_statuses rk lib el q txs_limit ((script_hash, status_hash) # rest) =
     (case script_status rk lib el q txs_limit script_hash of
        Ok new_status_hash \<Rightarrow>
          (case update_statuses rk lib el q txs_limit rest of
             (r, rest') \<Rightarrow>
               (map_out (\<lambda>ns. if new_status_hash = status_hash then ns else status_notification el script_hash new_status_hash # ns) r,
                (script_hash, new_status_hash) # rest'))
      | Err e \<Rightarrow> (Err e, (script_hash, status_hash) # rest)
      | Panic s \<Rightarrow> (Panic s, (script_hash, status_hash) # rest))"

definition update_header ::
  "bitcoin_lib \<Rightarrow> ('d, 'f, 'g) query \<Rightarrow> header_entry option \<Rightarrow> (error_kind, 'g json list \<times> header_entry option) outcome"
where
  "update_header lib q last_entry =
     (case last_entry of
        None \<Rightarrow> Ok ([], None)
      | Some shown \<Rightarrow>
          map_out (\<lambda>entry. if shown \<noteq> entry then ([header_notification lib entry], Some entry) else ([], Some shown))
            (best_header (q_chain q)))"

definition update_subscriptions ::
  "'d rocks \<Rightarrow> bitcoin_lib \<Rightarrow> ('f, 'g) electrum_lib \<Rightarrow> ('d, 'f, 'g) query \<Rightarrow> 'g connection
    \<Rightarrow> (error_kind, 'g json list) outcome \<times> 'g connection"
where
  "update_subscriptions rk lib el q cn =
     (case update_header lib q (cn_last_header_entry cn) of
        Ok (hs, last_entry) \<Rightarrow>
          (case update_statuses rk lib el q (cn_txs_limit cn) (cn_status_hashes cn) of
             (r, statuses) \<Rightarrow> (map_out ((@) hs) r, cn\<lparr>cn_last_header_entry := last_entry, cn_status_hashes := statuses\<rparr>))
      | Err e \<Rightarrow> (Err e, cn)
      | Panic s \<Rightarrow> (Panic s, cn))"

section \<open>Clients\<close>

definition set_proxy_client :: "sock_addr list option \<Rightarrow> 'g connection \<Rightarrow> 'g connection" where
  "set_proxy_client addresses cn =
     cn\<lparr>cn_proxy_client :=
          (case addresses of
             None \<Rightarrow> None
           | Some addrs \<Rightarrow> if cn_haproxy_depth cn = 0 then None else nth_opt addrs (cn_haproxy_depth cn - 1))\<rparr>"

definition client_key :: "'g connection \<Rightarrow> ip_addr option" where
  "client_key cn = (case cn_proxy_client cn of Some addr \<Rightarrow> Some (fst addr) | None \<Rightarrow> cn_direct_ip cn)"

definition register_client ::
  "(ip_addr \<rightharpoonup> nat) \<Rightarrow> 'g connection \<Rightarrow> (error_kind, unit) outcome \<times> (ip_addr \<rightharpoonup> nat) \<times> 'g connection"
where
  "register_client counts cn =
     (if cn_connections_per_client cn = 0 then (Ok (), counts, cn)
      else (case client_key cn of
              None \<Rightarrow> (Ok (), counts, cn)
            | Some key \<Rightarrow>
                (let n = (case counts key of Some n \<Rightarrow> n | None \<Rightarrow> 0)
                 in if cn_connections_per_client cn \<le> n
                    then (Err (Msg ''too many connections from client''), counts(key \<mapsto> n), cn)
                    else (Ok (), counts(key \<mapsto> n + 1), cn\<lparr>cn_registered_ip := Some key\<rparr>))))"

text \<open>The count is a \<open>usize\<close>, so that taking one from zero wraps.\<close>

definition unregister_client :: "(ip_addr \<rightharpoonup> nat) \<Rightarrow> 'g connection \<Rightarrow> (ip_addr \<rightharpoonup> nat) \<times> 'g connection" where
  "unregister_client counts cn =
     (case cn_registered_ip cn of
        None \<Rightarrow> (counts, cn)
      | Some key \<Rightarrow>
          ((case counts key of
              None \<Rightarrow> counts
            | Some n \<Rightarrow> (let n' = (if n = 0 then 2 ^ 64 - 1 else n - 1) in if n' = 0 then counts(key := None) else counts(key \<mapsto> n'))),
           cn\<lparr>cn_registered_ip := None\<rparr>))"

section \<open>The loop of a connection\<close>

text \<open>The stream takes the first \<open>room\<close> lines; the values that were sent.\<close>

definition send_values :: "('f, 'g) electrum_lib \<Rightarrow> nat \<Rightarrow> 'g json list \<Rightarrow> (error_kind, unit) outcome \<times> 'g json list" where
  "send_values el room vs =
     (case nth_opt vs room of
        None \<Rightarrow> (Ok (), vs)
      | Some v \<Rightarrow> (Err (text_msg (lit ''failed to send '' @ el_show_json el v)), take room vs))"

datatype event = Received message | ChannelClosed | Shutdown | IdleDeadline

text \<open>
  One turn of \<open>handle_replies\<close> at time \<open>now\<close>: whether the loop goes on, the values sent, and the states.
\<close>

definition handle_turn ::
  "'d rocks \<Rightarrow> bitcoin_lib \<Rightarrow> (u64 \<Rightarrow> u64 \<Rightarrow> 'f f32) \<Rightarrow> ('f, 'g) electrum_lib \<Rightarrow> 'g query_node \<Rightarrow> nat \<Rightarrow> nat
    \<Rightarrow> ('d, 'f, 'g) rpc_state \<Rightarrow> 'g connection \<Rightarrow> event
    \<Rightarrow> (error_kind, bool) outcome \<times> 'g json list \<times> ('d, 'f, 'g) rpc_state \<times> 'g connection"
where
  "handle_turn rk lib fdiv el node now room rp cn ev =
     (if cn_idle_timeout cn < now - cn_last_request_at cn then (Ok False, [], rp, cn)
      else (case ev of
              ChannelClosed \<Rightarrow> (Err (Msg ''channel closed''), [], rp, cn)
            | Shutdown \<Rightarrow> (Ok False, [], rp, cn)
            | IdleDeadline \<Rightarrow> (Ok False, [], rp, cn)
            | Received msg \<Rightarrow>
                (case msg of
                   Request line \<Rightarrow>
                     (case handle_line rk lib fdiv el node (int now) rp (cn\<lparr>cn_last_request_at := now\<rparr>) line of
                        (r, rp', cn') \<Rightarrow>
                          (case r of
                             Ok v \<Rightarrow> (case send_values el room [v] of (sent, out) \<Rightarrow> (map_out (\<lambda>_. True) sent, out, rp', cn'))
                           | Err e \<Rightarrow> (Err e, [], rp', cn')
                           | Panic s \<Rightarrow> (Panic s, [], rp', cn')))
                 | PeriodicUpdate \<Rightarrow>
                     (case update_subscriptions rk lib el (rp_query rp) cn of
                        (r, cn') \<Rightarrow>
                          (case chain_err ''failed to update subscriptions'' r of
                             Ok vs \<Rightarrow> (case send_values el room vs of (sent, out) \<Rightarrow> (map_out (\<lambda>_. True) sent, out, rp, cn'))
                           | Err e \<Rightarrow> (Err e, [], rp, cn')
                           | Panic s \<Rightarrow> (Panic s, [], rp, cn')))
                 | Done \<Rightarrow> (Ok False, [], rp, cn)
                 | Proxy addresses \<Rightarrow>
                     (case register_client (rp_client_counts rp) (set_proxy_client addresses cn) of
                        (r, counts, cn') \<Rightarrow> (Ok (is_ok r), [], rp\<lparr>rp_client_counts := counts\<rparr>, cn')))))"

definition connection_new :: "nat \<Rightarrow> nat \<Rightarrow> nat \<Rightarrow> nat \<Rightarrow> server_features \<Rightarrow> nat \<Rightarrow> nat \<Rightarrow> ip_addr option \<Rightarrow> 'g connection" where
  "connection_new txs_limit max_subscriptions idle_timeout now features haproxy_depth per_client direct_ip =
     \<lparr>cn_chan = [], cn_last_header_entry = None, cn_status_hashes = [], cn_txs_limit = txs_limit,
      cn_max_subscriptions = max_subscriptions, cn_idle_timeout = idle_timeout, cn_last_request_at = now,
      cn_server_features = features, cn_haproxy_depth = haproxy_depth, cn_proxy_client = None, cn_direct_ip = direct_ip,
      cn_connections_per_client = per_client, cn_registered_ip = None\<rparr>"

text \<open>The gauges when a connection starts and when its loop has ended.\<close>

definition connection_started :: "('d, 'f, 'g) rpc_state \<Rightarrow> ('d, 'f, 'g) rpc_state" where
  "connection_started rp = rp\<lparr>rp_clients := rp_clients rp + 1\<rparr>"

definition connection_ended :: "('d, 'f, 'g) rpc_state \<Rightarrow> 'g connection \<Rightarrow> ('d, 'f, 'g) rpc_state" where
  "connection_ended rp cn =
     rp\<lparr>rp_clients := rp_clients rp - 1, rp_subscriptions := rp_subscriptions rp - int (length (cn_status_hashes cn)),
        rp_client_counts := fst (unregister_client (rp_client_counts rp) cn)\<rparr>"

section \<open>JSON-RPC over HTTP\<close>

definition http_method ::
  "'d rocks \<Rightarrow> bitcoin_lib \<Rightarrow> (u64 \<Rightarrow> u64 \<Rightarrow> 'f f32) \<Rightarrow> ('f, 'g) electrum_lib \<Rightarrow> 'g query_node \<Rightarrow> int
    \<Rightarrow> ('d, 'f, 'g) query \<Rightarrow> utext \<Rightarrow> 'g json list \<Rightarrow> (json_rpc_v2_error \<times> error_kind, 'g json) outcome \<times> ('d, 'f, 'g) query"
where
  "http_method rk lib fdiv el node now q meth params =
     (let run = (\<lambda>r. case r of Ok (v, q') \<Rightarrow> (Ok v, q') | Err e \<Rightarrow> (Err (InternalError, e), q) | Panic s \<Rightarrow> (Panic s, q));
          pure = (\<lambda>r. run (map_out (\<lambda>v. (v, q)) r)) in
      if meth = lit ''server.version'' then pure (server_version el)
      else if meth = lit ''server.banner'' then pure (Ok (JString (el_banner el)))
      else if meth = lit ''server.ping'' then pure (Ok JNull)
      else if meth = lit ''server.donation_address'' then pure (Ok JNull)
      else if meth = lit ''blockchain.relayfee'' then
        (case get_relayfee node q of
           (Ok f, q') \<Rightarrow> (Ok (JNumber (Float f)), q')
         | (Err e, q') \<Rightarrow> (Err (InternalError, e), q')
         | (Panic s, q') \<Rightarrow> (Panic s, q'))
      else if meth = lit ''blockchain.estimatefee'' then
        run (bind_out (usize_from_value (first_opt params) ''blocks'') (\<lambda>blocks.
               map_out (\<lambda>(f, q'). (JNumber (Float (case f of Some r \<Rightarrow> r | None \<Rightarrow> el_minus_one el)), q'))
                 (estimate_fee node now q (blocks mod 2 ^ 16))))
      else if meth = lit ''blockchain.transaction.broadcast'' then
        run (bind_out (ok_or (Msg ''missing tx'') (first_opt params)) (\<lambda>tx.
             bind_out (ok_or (Msg ''non-string tx'') (as_str tx)) (\<lambda>tx.
               map_out (\<lambda>(txid, q'). (JString (el_show_hash el txid), q')) (broadcast_raw rk lib fdiv node q tx))))
      else if meth = lit ''blockchain.transaction.broadcast_package'' then
        pure (bind_out (bind_out (ok_or (Msg ''missing transactions'') (first_opt params)) strings_from_value) (\<lambda>txhexes.
              bind_out (bool_from_value_or (nth_opt params 1) ''verbose'' False) (\<lambda>verbose.
                map_out (\<lambda>r. into_electrum_response r verbose) (el_submit_package el txhexes))))
      else if meth = lit ''blockchain.transaction.get'' then
        pure (bind_out (hash_from_value el (first_opt params)) (\<lambda>tx_hash.
              bind_out (query_lookup_raw_txn rk lib q tx_hash) (\<lambda>tx.
                map_out (\<lambda>raw. JString (hex_encode raw)) (ok_or (Msg ''missing transaction'') tx))))
      else if meth = lit ''mempool.get_fee_histogram'' then pure (mempool_get_fee_histogram el q)
      else if meth = lit ''blockchain.headers.subscribe'' \<or> meth = lit ''blockchain.scripthash.subscribe'' then
        (Err (InvalidRequest, Msg ''subscriptions are not available over HTTP JSON-RPC; use the unix socket''), q)
      else (Err (MethodNotFound, text_msg (lit ''Method '' @ meth @ lit '' not found'')), q))"

definition handle_http_jsonrpc_value ::
  "'d rocks \<Rightarrow> bitcoin_lib \<Rightarrow> (u64 \<Rightarrow> u64 \<Rightarrow> 'f f32) \<Rightarrow> ('f, 'g) electrum_lib \<Rightarrow> 'g query_node \<Rightarrow> int
    \<Rightarrow> ('d, 'f, 'g) query \<Rightarrow> 'g json \<Rightarrow> (error_kind, 'g json) outcome \<times> ('d, 'f, 'g) query"
where
  "handle_http_jsonrpc_value rk lib fdiv el node now q v =
     (case (json_get v (lit ''method''), (case json_get v (lit ''params'') of Some p \<Rightarrow> p | None \<Rightarrow> JArray []), json_get v (lit ''id'')) of
        (Some (JString meth), JArray params, Some rid) \<Rightarrow>
          (case http_method rk lib fdiv el node now q meth params of
             (Ok r, q') \<Rightarrow> (Ok (JObject [(lit ''jsonrpc'', jtext ''2.0''), (lit ''id'', rid), (lit ''result'', r)]), q')
           | (Err (code, e), q') \<Rightarrow> (Ok (json_rpc_error (error_text e) (Some rid) code), q')
           | (Panic s, q') \<Rightarrow> (Panic s, q'))
      | (_, _, Some rid) \<Rightarrow> (Ok (json_rpc_error (el_show_json el v) (Some rid) InvalidRequest), q)
      | _ \<Rightarrow> (Ok (json_rpc_error (el_show_json el v) None InvalidRequest), q))"

fun handle_http_batch ::
  "'d rocks \<Rightarrow> bitcoin_lib \<Rightarrow> (u64 \<Rightarrow> u64 \<Rightarrow> 'f f32) \<Rightarrow> ('f, 'g) electrum_lib \<Rightarrow> 'g query_node \<Rightarrow> int
    \<Rightarrow> ('d, 'f, 'g) query \<Rightarrow> 'g json list \<Rightarrow> (error_kind, 'g json list) outcome \<times> ('d, 'f, 'g) query"
where
  "handle_http_batch rk lib fdiv el node now q [] = (Ok [], q)"
| "handle_http_batch rk lib fdiv el node now q (cmd # cmds) =
     (case handle_http_jsonrpc_value rk lib fdiv el node now q cmd of
        (Ok v, q1) \<Rightarrow> (case handle_http_batch rk lib fdiv el node now q1 cmds of (r, q2) \<Rightarrow> (map_out (Cons v) r, q2))
      | (Err e, q1) \<Rightarrow> (Err e, q1)
      | (Panic s, q1) \<Rightarrow> (Panic s, q1))"

text \<open>The error of the JSON parser is the argument \<open>json_error\<close>.\<close>

definition handle_http_jsonrpc_body ::
  "'d rocks \<Rightarrow> bitcoin_lib \<Rightarrow> (u64 \<Rightarrow> u64 \<Rightarrow> 'f f32) \<Rightarrow> ('f, 'g) electrum_lib \<Rightarrow> 'g query_node \<Rightarrow> int \<Rightarrow> (utext \<Rightarrow> utext)
    \<Rightarrow> ('d, 'f, 'g) query \<Rightarrow> utext \<Rightarrow> (error_kind, 'g json) outcome \<times> ('d, 'f, 'g) query"
where
  "handle_http_jsonrpc_body rk lib fdiv el node now json_error q body =
     (case el_parse_json el body of
        Some (JArray arr) \<Rightarrow> (case handle_http_batch rk lib fdiv el node now q arr of (r, q') \<Rightarrow> (map_out JArray r, q'))
      | Some cmd \<Rightarrow> handle_http_jsonrpc_value rk lib fdiv el node now q cmd
      | None \<Rightarrow> (Ok (json_rpc_error (lit ''Invalid JSON: '' @ json_error body) None ParseError), q))"

section \<open>Concrete parameters\<close>

definition demo_el :: "(nat, nat) electrum_lib" where
  "demo_el =
     \<lparr>el_parse_hash = (\<lambda>s. if s = [] then None else Some (demo_hash 1)), el_show_hash = (\<lambda>_. []),
      el_parse_json = (\<lambda>s. Some (JArray [JObject [(lit ''id'', jnat 7)]])), el_show_json = (\<lambda>_. []),
      el_btc_per_kb = (\<lambda>r. r div 100000), el_minus_one = 0, el_rate_json = (\<lambda>_. JNull), el_features_json = (\<lambda>_. JNull),
      el_version_string = [], el_banner = [], el_submit_package = (\<lambda>_. Err (Msg []))\<rparr>"

definition demo_query_node :: "nat query_node" where
  "demo_query_node =
     \<lparr>qn_mempool = \<lparr>mn_mempooltxids = Ok [], mn_transactions = (\<lambda>_. Ok []), mn_mempooltx = (\<lambda>_. Err (Msg []))\<rparr>,
      qn_broadcast = (\<lambda>_. Err (Msg [])), qn_estimates = (\<lambda>_. Ok Map.empty), qn_relayfee = Ok 1\<rparr>"

end
