(* ===== verification/Electrum_Reader.thy ===== *)
theory Electrum_Reader
  imports Electrum "HOL-Library.Sublist"
begin

text \<open>
  The reader of a connection (\<^verbatim>\<open>handle_requests\<close> and \<^verbatim>\<open>read_proxy_headers\<close> in \<^verbatim>\<open>src/electrum/server.rs\<close>). The stream
  is the list of the chunks the reads deliver, each of at most 256 bytes, and whether it ends with an
  error. The parser of PROXY headers (crate \<open>ppp\<close>) and the decoder of UTF-8 are arguments. The result is
  the list of messages sent to the loop of the connection, and how the reader ends.
\<close>

section \<open>The code\<close>

datatype v1_addresses = V1Tcp4 sock_addr | V1Tcp6 sock_addr | V1Unknown

datatype v2_addresses = V2IPv4 sock_addr | V2IPv6 sock_addr | V2Unspecified | V2Unix

text \<open>A parsed header with its length, or an error that more bytes may turn into one, or another error.\<close>

datatype header_result = V1Ok nat v1_addresses | V2Ok nat v2_addresses | Incomplete | Invalid

definition proxy_v1_source :: "v1_addresses \<Rightarrow> sock_addr option" where
  "proxy_v1_source addresses = (case addresses of V1Tcp4 a \<Rightarrow> Some a | V1Tcp6 a \<Rightarrow> Some a | V1Unknown \<Rightarrow> None)"

definition proxy_v2_source :: "v2_addresses \<Rightarrow> sock_addr option" where
  "proxy_v2_source addresses = (case addresses of V2IPv4 a \<Rightarrow> Some a | V2IPv6 a \<Rightarrow> Some a | V2Unspecified \<Rightarrow> None | V2Unix \<Rightarrow> None)"

datatype proxy_step = Parsed nat "sock_addr option" | NeedMore | StepDone

definition parse_step :: "(bytes \<Rightarrow> header_result) \<Rightarrow> bytes \<Rightarrow> proxy_step" where
  "parse_step pp buf =
     (case pp buf of
        V2Ok len addresses \<Rightarrow> Parsed len (proxy_v2_source addresses)
      | V1Ok len addresses \<Rightarrow> Parsed len (proxy_v1_source addresses)
      | Incomplete \<Rightarrow> NeedMore
      | Invalid \<Rightarrow> StepDone)"

record proxy_state =
  ps_buf :: bytes
  ps_addrs :: "sock_addr list"
  ps_saw_proxy :: bool

text \<open>The inner loop: as many complete headers as the buffer holds, and whether more bytes are needed.\<close>

function parse_headers :: "(bytes \<Rightarrow> header_result) \<Rightarrow> proxy_state \<Rightarrow> bool \<times> proxy_state" where
  "parse_headers pp st =
     (if ps_buf st = [] then (True, st)
      else (case parse_step pp (ps_buf st) of
              Parsed consumed src \<Rightarrow>
                (let st1 = st\<lparr>ps_saw_proxy := True, ps_addrs := ps_addrs st @ (case src of Some a \<Rightarrow> [a] | None \<Rightarrow> [])\<rparr>
                 in if consumed = 0 \<or> length (ps_buf st) < consumed then (False, st1)
                    else parse_headers pp (st1\<lparr>ps_buf := drop consumed (ps_buf st1)\<rparr>))
            | NeedMore \<Rightarrow> (True, st)
            | StepDone \<Rightarrow> (False, st)))"
  by pat_completeness auto
termination
  by (relation "measure (\<lambda>(_, st). length (ps_buf st))") auto

declare parse_headers.simps [simp del]

definition MAX_PROXY_HEADER_SIZE :: nat where
  "MAX_PROXY_HEADER_SIZE = 4096"

definition proxy_addrs :: "proxy_state \<Rightarrow> sock_addr list option" where
  "proxy_addrs st = (if ps_saw_proxy st then Some (ps_addrs st) else None)"

text \<open>The outer loop over the chunks; the addresses, the bytes left over and the rest of the stream.\<close>

fun proxy_loop ::
  "(bytes \<Rightarrow> header_result) \<Rightarrow> bool \<Rightarrow> bytes list \<Rightarrow> proxy_state \<Rightarrow> (error_kind, sock_addr list option \<times> bytes \<times> bytes list) outcome"
where
  "proxy_loop pp broken reads st =
     (case parse_headers pp st of
        (need_more, st1) \<Rightarrow>
          if \<not> need_more then Ok (proxy_addrs st1, ps_buf st1, reads)
          else if MAX_PROXY_HEADER_SIZE < length (ps_buf st1) then Err (Msg ''PROXY protocol header too large (exceeds 4096 bytes)'')
          else (case reads of
                  [] \<Rightarrow> if broken then Err (Msg ''failed to read PROXY protocol header'') else Ok (proxy_addrs st1, ps_buf st1, [])
                | chunk # rest \<Rightarrow> proxy_loop pp broken rest (st1\<lparr>ps_buf := ps_buf st1 @ chunk\<rparr>)))"

declare proxy_loop.simps [simp del]

definition read_proxy_headers ::
  "(bytes \<Rightarrow> header_result) \<Rightarrow> bool \<Rightarrow> bytes list \<Rightarrow> (error_kind, sock_addr list option \<times> bytes \<times> bytes list) outcome"
where
  "read_proxy_headers pp broken reads = proxy_loop pp broken reads \<lparr>ps_buf = [], ps_addrs = [], ps_saw_proxy = False\<rparr>"

text \<open>\<open>take(limit)\<close> and \<open>read_until\<close>: the bytes up to and with the line break, at most \<open>limit\<close> of them.\<close>

definition read_until :: "nat \<Rightarrow> bytes \<Rightarrow> bytes" where
  "read_until limit bs =
     (let part = take limit bs in takeWhile (\<lambda>b. b \<noteq> 10) part @ take 1 (dropWhile (\<lambda>b. b \<noteq> 10) part))"

text \<open>A read fails if the stream breaks before the line break or the limit.\<close>

definition read_broken :: "nat \<Rightarrow> bool \<Rightarrow> bytes \<Rightarrow> bool" where
  "read_broken limit broken bs \<longleftrightarrow> broken \<and> 10 \<notin> set (take limit bs) \<and> length bs < limit"

lemma length_read_until: "length (read_until limit bs) \<le> length bs"
proof -
  have "length (takeWhile P xs @ take 1 (dropWhile P xs)) \<le> length xs" for P and xs :: bytes
    by (induction xs) auto
  from this [of "\<lambda>b. b \<noteq> 10" "take limit bs"] show ?thesis by (simp add: read_until_def Let_def)
qed

function request_loop ::
  "(bytes \<Rightarrow> utext option) \<Rightarrow> nat \<Rightarrow> bool \<Rightarrow> bytes \<Rightarrow> message list \<times> (error_kind, unit) outcome"
where
  "request_loop utf8 max_line_size broken bs =
     (let limit = min (max_line_size + 1) (2 ^ 64 - 1); line = read_until limit bs in
      if read_broken limit broken bs then ([], Err (Msg ''failed to read a request''))
      else if line = [] then ([Done], Ok ())
      else if max_line_size < length line
      then ([Done], Err (text_msg (lit ''request line too large ('' @ show_nat (length line) @ lit '' bytes, max is ''
                               @ show_nat max_line_size @ lit '')'')))
      else if starts_with line [22, 3, 1] then ([Done], Err (Msg ''invalid request - maybe SSL-encrypted data?''))
      else (case utf8 line of
              Some req \<Rightarrow>
                (case request_loop utf8 max_line_size broken (drop (length line) bs) of (msgs, r) \<Rightarrow> (Request req # msgs, r))
            | None \<Rightarrow> ([Done], Err (Msg ''invalid UTF8''))))"
  by pat_completeness auto
termination
proof (relation "measure (\<lambda>(_, _, _, bs). length bs)", goal_cases)
  case (2 utf8 n broken bs limit line req)
  then have "0 < length line" "length line \<le> length bs" using length_read_until [of limit bs] by auto
  then have "length bs - length line < length bs" by linarith
  then show ?case by simp
qed simp

declare request_loop.simps [simp del]

definition handle_requests ::
  "(bytes \<Rightarrow> header_result) \<Rightarrow> (bytes \<Rightarrow> utext option) \<Rightarrow> nat \<Rightarrow> bool \<Rightarrow> bytes list \<Rightarrow> message list \<times> (error_kind, unit) outcome"
where
  "handle_requests pp utf8 max_line_size broken reads =
     (case read_proxy_headers pp broken reads of
        Ok (addrs, leftover, rest) \<Rightarrow>
          (case request_loop utf8 max_line_size broken (leftover @ concat rest) of (msgs, r) \<Rightarrow> (Proxy addrs # msgs, r))
      | Err e \<Rightarrow> ([], Err e)
      | Panic s \<Rightarrow> ([], Panic s))"

section \<open>Messages\<close>

text \<open>The reader sends one proxy message, before all others, or nothing.\<close>

lemma request_loop_no_proxy: "Proxy a \<notin> set (fst (request_loop utf8 n broken bs))"
proof (induction "length bs" arbitrary: bs rule: less_induct)
  case less
  let ?line = "read_until (min (n + 1) (2 ^ 64 - 1)) bs"
  show ?case
  proof (cases "?line = []")
    case True
    then show ?thesis by (subst request_loop.simps) (simp add: Let_def)
  next
    case False
    then have "0 < length ?line" "length ?line \<le> length bs" using length_read_until by auto
    then have "length (drop (length ?line) bs) < length bs" by (simp only: length_drop diff_less)
    from less [OF this] show ?thesis
      by (subst request_loop.simps) (auto simp: Let_def split: option.splits prod.splits)
  qed
qed

lemma handle_requests_proxy:
  "handle_requests pp utf8 n broken reads = (msgs, r) \<Longrightarrow> \<forall>a. Proxy a \<notin> set (tl msgs)"
  using request_loop_no_proxy unfolding handle_requests_def
  by (auto split: outcome.splits prod.splits) (metis fst_conv)

text \<open>The buffer stays bounded.\<close>

lemma parse_headers_shrinks: "length (ps_buf (snd (parse_headers pp st))) \<le> length (ps_buf st)"
proof (induction pp st rule: parse_headers.induct)
  case (1 pp st)
  show ?case
  proof (cases "ps_buf st = []")
    case False
    show ?thesis
    proof (cases "parse_step pp (ps_buf st)")
      case (Parsed consumed src)
      show ?thesis
        using False Parsed 1 [OF False Parsed refl] by (subst parse_headers.simps) (auto simp: Let_def)
    qed (use False in \<open>subst parse_headers.simps, simp\<close>)+
  qed (subst parse_headers.simps, simp)
qed

section \<open>Stacked headers\<close>

text \<open>
  The parser recognises the headers of a stream one after the other, asks for more on a part of one, and
  rejects what follows them.
\<close>

fun recognises :: "(bytes \<Rightarrow> header_result) \<Rightarrow> (bytes \<times> sock_addr option) list \<Rightarrow> bytes \<Rightarrow> bool" where
  "recognises pp [] body = (\<forall>buf. buf \<noteq> [] \<longrightarrow> prefix buf body \<longrightarrow> parse_step pp buf = StepDone)"
| "recognises pp ((h, src) # hs) body =
     (h \<noteq> [] \<and> length h \<le> MAX_PROXY_HEADER_SIZE
      \<and> (\<forall>buf. buf \<noteq> [] \<longrightarrow> strict_prefix buf h \<longrightarrow> parse_step pp buf = NeedMore)
      \<and> (\<forall>rest. prefix rest (concat (map fst hs) @ body) \<longrightarrow> parse_step pp (h @ rest) = Parsed (length h) src)
      \<and> recognises pp hs body)"

definition sources :: "(bytes \<times> sock_addr option) list \<Rightarrow> sock_addr list" where
  "sources hs = List.map_filter snd hs"

lemma parse_headers_spec:
  assumes "recognises pp hs body" "prefix (ps_buf st) (concat (map fst hs) @ body)"
  shows "\<exists>ds hs' buf' need. hs = ds @ hs' \<and> ps_buf st = concat (map fst ds) @ buf' \<and> recognises pp hs' body
    \<and> parse_headers pp st = (need, \<lparr>ps_buf = buf', ps_addrs = ps_addrs st @ sources ds, ps_saw_proxy = (ps_saw_proxy st \<or> ds \<noteq> [])\<rparr>)
    \<and> (if need then buf' = [] \<or> (\<exists>h src hs''. hs' = (h, src) # hs'' \<and> strict_prefix buf' h) else hs' = [] \<and> buf' \<noteq> [])"
  using assms
proof (induction hs arbitrary: st)
  case Nil
  show ?case
  proof (cases "ps_buf st = []")
    case True
    then have "parse_headers pp st = (True, st)" by (subst parse_headers.simps) simp
    then show ?thesis using True Nil by (intro exI [of _ "[]"] exI [of _ True]) (simp add: sources_def map_filter_simps)
  next
    case False
    then have "parse_headers pp st = (False, st)" using Nil by (subst parse_headers.simps) simp
    then show ?thesis using False Nil by (intro exI [of _ "[]"] exI [of _ "ps_buf st"] exI [of _ False]) (simp add: sources_def map_filter_simps)
  qed
next
  case (Cons e hs)
  obtain h src where e: "e = (h, src)" by (cases e)
  have h: "h \<noteq> []" "\<And>buf. buf \<noteq> [] \<Longrightarrow> strict_prefix buf h \<Longrightarrow> parse_step pp buf = NeedMore"
      "\<And>rest. prefix rest (concat (map fst hs) @ body) \<Longrightarrow> parse_step pp (h @ rest) = Parsed (length h) src" "recognises pp hs body"
    using Cons.prems(1) e by simp_all
  have pre: "prefix (ps_buf st) (h @ concat (map fst hs) @ body)" using Cons.prems(2) e by simp
  show ?case
  proof (cases "prefix h (ps_buf st)")
    case False
    then have st: "strict_prefix (ps_buf st) h" using pre by (metis prefix_append prefix_order.le_less prefixI)
    then have "parse_headers pp st = (True, st)"
      using h(2) by (subst parse_headers.simps) simp
    then show ?thesis using Cons.prems(1) e st
      by (intro exI [of _ "[]"] exI [of _ "e # hs"] exI [of _ "ps_buf st"] exI [of _ True]) (simp add: sources_def map_filter_simps)
  next
    case True
    then obtain rest where buf: "ps_buf st = h @ rest" by (auto simp: prefix_def)
    then have rest: "prefix rest (concat (map fst hs) @ body)" using pre by simp
    let ?st = "\<lparr>ps_buf = rest, ps_addrs = ps_addrs st @ (case src of Some a \<Rightarrow> [a] | None \<Rightarrow> []), ps_saw_proxy = True\<rparr>"
    have upd: "st\<lparr>ps_saw_proxy := True, ps_addrs := as, ps_buf := b\<rparr> = \<lparr>ps_buf = b, ps_addrs = as, ps_saw_proxy = True\<rparr>" for as b by (cases st) simp
    have "parse_headers pp st = parse_headers pp ?st"
      using h(1) h(3) [OF rest] buf by (subst parse_headers.simps) (simp add: Let_def upd)
    moreover obtain ds hs' buf' need where r: "hs = ds @ hs'" "rest = concat (map fst ds) @ buf'" "recognises pp hs' body"
        "parse_headers pp ?st = (need, \<lparr>ps_buf = buf', ps_addrs = ps_addrs ?st @ sources ds, ps_saw_proxy = True\<rparr>)"
        "if need then buf' = [] \<or> (\<exists>h src hs''. hs' = (h, src) # hs'' \<and> strict_prefix buf' h) else hs' = [] \<and> buf' \<noteq> []"
      using Cons.IH [OF h(4), of ?st] rest by auto
    ultimately have run: "parse_headers pp st
        = (need, \<lparr>ps_buf = buf', ps_addrs = ps_addrs st @ sources (e # ds), ps_saw_proxy = (ps_saw_proxy st \<or> e # ds \<noteq> [])\<rparr>)"
      using e by (simp add: sources_def map_filter_simps split: option.splits)
    have c: "e # hs = (e # ds) @ hs'" "ps_buf st = concat (map fst (e # ds)) @ buf'" using r(1,2) buf e by simp_all
    show ?thesis
      by (rule exI [of _ "e # ds"], rule exI [of _ hs'], rule exI [of _ buf'], rule exI [of _ need]) (intro conjI c r(3,5) run)
  qed
qed

lemma proxy_loop_spec:
  assumes "recognises pp hs body" "ps_buf st @ concat reads = concat (map fst hs) @ body" "\<forall>chunk\<in>set reads. chunk \<noteq> []"
    and "ps_saw_proxy st \<or> ps_addrs st = []"
  shows "\<exists>leftover rest. proxy_loop pp False reads st
      = Ok (if ps_saw_proxy st \<or> hs \<noteq> [] then Some (ps_addrs st @ sources hs) else None, leftover, rest) \<and> leftover @ concat rest = body"
  using assms
proof (induction reads arbitrary: st hs)
  case Nil
  have "prefix (ps_buf st) (concat (map fst hs) @ body)" using Nil.prems(2) by simp
  from parse_headers_spec [OF Nil.prems(1) this] obtain ds hs' buf' need where p: "hs = ds @ hs'" "ps_buf st = concat (map fst ds) @ buf'"
      "recognises pp hs' body"
      "parse_headers pp st = (need, \<lparr>ps_buf = buf', ps_addrs = ps_addrs st @ sources ds, ps_saw_proxy = (ps_saw_proxy st \<or> ds \<noteq> [])\<rparr>)"
      "if need then buf' = [] \<or> (\<exists>h src hs''. hs' = (h, src) # hs'' \<and> strict_prefix buf' h) else hs' = [] \<and> buf' \<noteq> []" by blast
  have "buf' = concat (map fst hs') @ body" using Nil.prems(2) p(1,2) by simp
  then have hs': "hs' = []" using p(3,5)
    by (cases hs') (auto split: if_splits dest: prefix_length_less)
  then have buf': "buf' = body" and ds: "ds = hs" using p(1) \<open>buf' = concat (map fst hs') @ body\<close> by simp_all
  have "need \<Longrightarrow> buf' = []" using p(5) hs' by simp
  then have "proxy_loop pp False [] st
      = Ok (if ps_saw_proxy st \<or> hs \<noteq> [] then Some (ps_addrs st @ sources hs) else None, body, [])"
    using p(4) buf' ds by (auto simp: proxy_loop.simps [of pp False "[]" st] proxy_addrs_def)
  then show ?case by simp
next
  case (Cons chunk reads)
  have "prefix (ps_buf st) (concat (map fst hs) @ body)" using Cons.prems(2) by (metis prefixI)
  from parse_headers_spec [OF Cons.prems(1) this] obtain ds hs' buf' need where p: "hs = ds @ hs'" "ps_buf st = concat (map fst ds) @ buf'"
      "recognises pp hs' body"
      "parse_headers pp st = (need, \<lparr>ps_buf = buf', ps_addrs = ps_addrs st @ sources ds, ps_saw_proxy = (ps_saw_proxy st \<or> ds \<noteq> [])\<rparr>)"
      "if need then buf' = [] \<or> (\<exists>h src hs''. hs' = (h, src) # hs'' \<and> strict_prefix buf' h) else hs' = [] \<and> buf' \<noteq> []" by blast
  let ?st = "\<lparr>ps_buf = buf', ps_addrs = ps_addrs st @ sources ds, ps_saw_proxy = (ps_saw_proxy st \<or> ds \<noteq> [])\<rparr>"
  have bytes: "buf' @ chunk @ concat reads = concat (map fst hs') @ body" using Cons.prems(2) p(1,2) by simp
  show ?case
  proof (cases need)
    case True
    have "length buf' \<le> MAX_PROXY_HEADER_SIZE" using p(3,5) True by (auto dest: prefix_length_less)
    then have "proxy_loop pp False (chunk # reads) st = proxy_loop pp False reads (?st\<lparr>ps_buf := buf' @ chunk\<rparr>)"
      using p(4) True by (subst proxy_loop.simps) simp
    moreover have "sources hs = sources ds @ sources hs'" using p(1) by (simp add: sources_def List.map_filter_def)
    moreover have "\<exists>leftover rest. proxy_loop pp False reads (?st\<lparr>ps_buf := buf' @ chunk\<rparr>)
        = Ok (if (ps_saw_proxy st \<or> ds \<noteq> []) \<or> hs' \<noteq> [] then Some ((ps_addrs st @ sources ds) @ sources hs') else None, leftover, rest)
          \<and> leftover @ concat rest = body"
      using Cons.IH [OF p(3), of "?st\<lparr>ps_buf := buf' @ chunk\<rparr>"] bytes Cons.prems(3,4) p(1) by (auto simp: sources_def map_filter_simps)
    ultimately show ?thesis using p(1) by auto
  next
    case False
    then have hs': "hs' = []" using p(5) by simp
    then have "proxy_loop pp False (chunk # reads) st
        = Ok (if ps_saw_proxy st \<or> hs \<noteq> [] then Some (ps_addrs st @ sources hs) else None, buf', chunk # reads)"
      using p False by (auto simp: proxy_loop.simps [of pp False "chunk # reads" st] proxy_addrs_def)
    moreover have "buf' @ concat (chunk # reads) = body" using bytes hs' by simp
    ultimately show ?thesis by blast
  qed
qed

section \<open>Lines\<close>

definition request_ok :: "(bytes \<Rightarrow> utext option) \<Rightarrow> nat \<Rightarrow> bytes \<Rightarrow> bool" where
  "request_ok utf8 max_line_size line \<longleftrightarrow>
     (\<exists>b. line = b @ [10] \<and> 10 \<notin> set b) \<and> length line \<le> max_line_size \<and> \<not> starts_with line [22, 3, 1] \<and> utf8 line \<noteq> None"

lemma read_until_line:
  assumes "10 \<notin> set b" "length b < limit"
  shows "read_until limit (b @ [10] @ rest) = b @ [10]"
proof -
  have t: "take limit (b @ [10] @ rest) = b @ 10 # take (limit - length b - 1) rest"
    using assms(2) by (simp add: take_Cons')
  have "takeWhile (\<lambda>c. c \<noteq> 10) (b @ 10 # xs) = b" "dropWhile (\<lambda>c. c \<noteq> 10) (b @ 10 # xs) = 10 # xs" for xs
    using assms(1) by (auto simp: takeWhile_append dropWhile_append)
  then show ?thesis unfolding read_until_def t Let_def by simp
qed

lemma request_loop_lines:
  assumes "\<forall>l\<in>set ls. request_ok utf8 max_line_size l" "max_line_size < 2 ^ 64"
  shows "request_loop utf8 max_line_size False (concat ls) = (map (\<lambda>l. Request (the (utf8 l))) ls @ [Done], Ok ())"
  using assms(1)
proof (induction ls)
  case Nil
  then show ?case by (subst request_loop.simps) (simp add: Let_def read_until_def read_broken_def)
next
  case (Cons l ls)
  let ?limit = "min (max_line_size + 1) (2 ^ 64 - 1)"
  obtain b where b: "l = b @ [10]" "10 \<notin> set b" "length l \<le> max_line_size" "\<not> starts_with l [22, 3, 1]" "utf8 l \<noteq> None"
    using Cons.prems by (auto simp: request_ok_def)
  have len: "length b < ?limit" using b(1,3) assms(2) by simp
  have line: "read_until ?limit (concat (l # ls)) = l" using read_until_line [OF b(2) len, of "concat ls"] b(1) by simp
  have "request_loop utf8 max_line_size False (concat ls) = (map (\<lambda>l. Request (the (utf8 l))) ls @ [Done], Ok ())" using Cons by simp
  moreover have "drop (length l) (concat (l # ls)) = concat ls" "l \<noteq> []" using b(1) by simp_all
  ultimately show ?case using b(3-5) line
    by (subst request_loop.simps) (auto simp: Let_def read_broken_def simp del: concat.simps)
qed

text \<open>A client that sends nothing.\<close>

lemma handle_requests_none: "handle_requests pp utf8 n False [] = ([Proxy None, Done], Ok ())"
  by (simp add: handle_requests_def read_proxy_headers_def proxy_loop.simps [of pp False "[]"] parse_headers.simps [of pp]
      MAX_PROXY_HEADER_SIZE_def proxy_addrs_def request_loop.simps [of utf8 n False "[]"] read_until_def read_broken_def Let_def)

text \<open>C25: however the bytes of a client are cut into reads, the loop of its connection receives the
  sources of the PROXY headers, outermost first, and then each line as one request, whole and in order; no
  byte that follows the headers is lost to them.\<close>

theorem requests_are_lines:
  assumes "recognises pp hs (concat ls)" "\<forall>l\<in>set ls. request_ok utf8 max_line_size l" "max_line_size < 2 ^ 64"
    and "concat reads = concat (map fst hs) @ concat ls" "\<forall>chunk\<in>set reads. chunk \<noteq> []"
  shows "handle_requests pp utf8 max_line_size False reads
    = (Proxy (if hs \<noteq> [] then Some (sources hs) else None) # map (\<lambda>l. Request (the (utf8 l))) ls @ [Done], Ok ())"
proof -
  obtain leftover rest where r: "read_proxy_headers pp False reads = Ok (if hs \<noteq> [] then Some (sources hs) else None, leftover, rest)"
      "leftover @ concat rest = concat ls"
    using proxy_loop_spec [OF assms(1), of "\<lparr>ps_buf = [], ps_addrs = [], ps_saw_proxy = False\<rparr>" reads] assms(4,5)
    by (auto simp: read_proxy_headers_def)
  show ?thesis using request_loop_lines [OF assms(2,3)] by (simp add: handle_requests_def r)
qed

text \<open>A parser of headers that are one byte 1 and one byte for the last part of the address.\<close>

definition tiny_proxy :: "bytes \<Rightarrow> header_result" where
  "tiny_proxy buf = (case buf of [] \<Rightarrow> Incomplete | b # bs \<Rightarrow> if b \<noteq> 1 then Invalid
     else (case bs of [] \<Rightarrow> Incomplete | c # _ \<Rightarrow> V1Ok 2 (if c = 0 then V1Unknown else V1Tcp4 (V4 10 0 0 c, 80))))"

theorem requests_are_lines_witness:
  "handle_requests tiny_proxy (\<lambda>l. Some (map unat l)) 100 False [[1], [7, 1, 0, 123], [125, 10, 91], [93, 10]]
    = ([Proxy (Some [(V4 10 0 0 7, 80)]), Request [123, 125, 10], Request [91, 93, 10], Done], Ok ())"
proof -
  have "recognises tiny_proxy [([1, 7], Some (V4 10 0 0 7, 80)), ([1, 0], None)] (concat [[123, 125, 10], [91, 93, 10]])"
    by (auto simp: tiny_proxy_def parse_step_def proxy_v1_source_def MAX_PROXY_HEADER_SIZE_def strict_prefix_def prefix_Cons
        split: list.splits if_splits)
  moreover have "request_ok (\<lambda>l. Some (map unat l)) 100 l" if "l \<in> set [[123, 125, 10], [91, 93, 10]]" for l
    using that unfolding request_ok_def by (auto intro: exI [of _ "butlast l"] simp: starts_with_def)
  ultimately show ?thesis
    using requests_are_lines [of tiny_proxy "[([1, 7], Some (V4 10 0 0 7, 80)), ([1, 0], None)]" "[[123, 125, 10], [91, 93, 10]]"
        "\<lambda>l. Some (map unat l)" 100 "[[1], [7, 1, 0, 123], [125, 10, 91], [93, 10]]"]
    by (simp add: sources_def map_filter_simps)
qed

end
