(* ===== verification/Electrum_Server.thy ===== *)
theory Electrum_Server
  imports Electrum_Reader
begin

text \<open>
  The connections of the Electrum server together (\<^verbatim>\<open>RPC::start\<close> and \<^verbatim>\<open>Connection::run\<close> in
  \<^verbatim>\<open>src/electrum/server.rs\<close>) as a machine, and the properties of its methods and subscriptions: what a request
  may change, that the gauges and the limits per client are exact, that a history is never cut short,
  and that a client is told every change of what it subscribed to.
\<close>

section \<open>What a request changes\<close>

text \<open>
  The counts of clients and the registration of a connection stay; the gauge of subscriptions moves with
  the subscriptions of the connection, which stay distinct and below the limit.
\<close>

definition effect_ok ::
  "('d, 'f, 'g) rpc_state \<Rightarrow> 'g connection \<Rightarrow> ('d, 'f, 'g) rpc_state \<Rightarrow> 'g connection \<Rightarrow> bool"
where
  "effect_ok rp cn rp' cn' \<longleftrightarrow>
     rp_clients rp' = rp_clients rp \<and> rp_client_counts rp' = rp_client_counts rp
     \<and> cn_registered_ip cn' = cn_registered_ip cn \<and> cn_connections_per_client cn' = cn_connections_per_client cn
     \<and> cn_max_subscriptions cn' = cn_max_subscriptions cn
     \<and> rp_subscriptions rp' - int (length (cn_status_hashes cn')) = rp_subscriptions rp - int (length (cn_status_hashes cn))
     \<and> (length (cn_status_hashes cn) \<le> cn_max_subscriptions cn \<longrightarrow> length (cn_status_hashes cn') \<le> cn_max_subscriptions cn)
     \<and> (distinct (map fst (cn_status_hashes cn)) \<longrightarrow> distinct (map fst (cn_status_hashes cn')))"

lemma effect_refl [simp]: "effect_ok rp cn rp cn"
  by (simp add: effect_ok_def)

lemma effect_trans: "effect_ok rp cn rp1 cn1 \<Longrightarrow> effect_ok rp1 cn1 rp2 cn2 \<Longrightarrow> effect_ok rp cn rp2 cn2"
  unfolding effect_ok_def by auto

lemma effect_same_statuses:
  assumes "rp_clients rp' = rp_clients rp" "rp_client_counts rp' = rp_client_counts rp" "rp_subscriptions rp' = rp_subscriptions rp"
    and "cn_registered_ip cn' = cn_registered_ip cn" "cn_connections_per_client cn' = cn_connections_per_client cn"
    and "cn_max_subscriptions cn' = cn_max_subscriptions cn" "map fst (cn_status_hashes cn') = map fst (cn_status_hashes cn)"
  shows "effect_ok rp cn rp' cn'"
proof -
  have "length (cn_status_hashes cn') = length (cn_status_hashes cn)" using assms(7) by (metis length_map)
  then show ?thesis using assms by (simp add: effect_ok_def)
qed

lemma with_query_effect: "with_query rp cn f r = (out, rp', cn') \<Longrightarrow> effect_ok rp cn rp' cn'"
  by (auto simp: with_query_def intro!: effect_same_statuses split: outcome.splits prod.splits)

lemma put_status_keys:
  "map fst (put_status k v m) = (if k \<in> fst ` set m then map fst m else map fst m @ [k])"
  by (auto simp: put_status_def comp_def if_distrib cong: if_cong)

lemma subscribe_effect:
  "blockchain_scripthash_subscribe rk lib el rp cn params = (out, rp', cn') \<Longrightarrow> effect_ok rp cn rp' cn'"
proof -
  assume run: "blockchain_scripthash_subscribe rk lib el rp cn params = (out, rp', cn')"
  let ?r = "bind_out (chain_err ''bad script_hash'' (hash_from_value el (first_opt params))) (\<lambda>script_hash.
             if script_hash \<notin> fst ` set (cn_status_hashes cn) \<and> cn_max_subscriptions cn \<le> length (cn_status_hashes cn)
             then Err (text_msg (lit ''subscription limit reached ('' @ show_nat (cn_max_subscriptions cn) @ lit '' max per client)''))
             else map_out (Pair script_hash) (script_status rk lib el (rp_query rp) (cn_txs_limit cn) script_hash))"
  show ?thesis
  proof (cases ?r)
    case (Ok x)
    obtain h st where x: "x = (h, st)" by (cases x)
    have lim: "h \<in> fst ` set (cn_status_hashes cn) \<or> length (cn_status_hashes cn) < cn_max_subscriptions cn"
      using Ok x by (auto split: if_splits)
    have out: "rp' = (if h \<in> fst ` set (cn_status_hashes cn) then rp else rp\<lparr>rp_subscriptions := rp_subscriptions rp + 1\<rparr>)"
        "cn' = cn\<lparr>cn_status_hashes := put_status h st (cn_status_hashes cn)\<rparr>"
      using run unfolding blockchain_scripthash_subscribe_def Ok x by auto
    have keys: "map fst (cn_status_hashes cn') = (if h \<in> fst ` set (cn_status_hashes cn) then map fst (cn_status_hashes cn)
        else map fst (cn_status_hashes cn) @ [h])" using out(2) by (simp add: put_status_keys)
    then have "length (cn_status_hashes cn') = (if h \<in> fst ` set (cn_status_hashes cn) then length (cn_status_hashes cn)
        else Suc (length (cn_status_hashes cn)))" by (metis length_append_singleton length_map)
    moreover have "distinct (map fst (cn_status_hashes cn)) \<Longrightarrow> distinct (map fst (cn_status_hashes cn'))"
      unfolding keys by auto
    ultimately show ?thesis using lim out by (auto simp: effect_ok_def split: if_splits)
  qed (use run in \<open>auto simp: blockchain_scripthash_subscribe_def\<close>)
qed

lemma filter_one_key:
  "distinct (map fst m) \<Longrightarrow> k \<in> fst ` set m \<Longrightarrow> Suc (length (filter (\<lambda>e. fst e \<noteq> k) m)) = length m"
proof (induction m)
  case (Cons e m)
  then show ?case
  proof (cases "fst e = k")
    case True
    then have "filter (\<lambda>e. fst e \<noteq> k) m = m" using Cons.prems(1) by (auto simp: filter_id_conv image_iff)
    then show ?thesis using True by simp
  qed auto
qed simp

lemma filter_no_key: "k \<notin> fst ` set m \<Longrightarrow> filter (\<lambda>e. fst e \<noteq> k) m = m"
  by (auto simp: filter_id_conv image_iff)

lemma unsubscribe_effect:
  assumes "blockchain_scripthash_unsubscribe el rp cn params = (out, rp', cn')" "distinct (map fst (cn_status_hashes cn))"
  shows "effect_ok rp cn rp' cn'"
proof (cases "chain_err ''bad script_hash'' (hash_from_value el (first_opt params))")
  case (Ok h)
  let ?m = "cn_status_hashes cn"
  have out: "rp' = (if h \<in> fst ` set ?m then rp\<lparr>rp_subscriptions := rp_subscriptions rp - 1\<rparr> else rp)"
      "cn' = cn\<lparr>cn_status_hashes := filter (\<lambda>e. fst e \<noteq> h) ?m\<rparr>"
    using assms(1) Ok by (auto simp: blockchain_scripthash_unsubscribe_def Let_def)
  have "distinct (map fst (filter (\<lambda>e. fst e \<noteq> h) ?m))" using assms(2) by (simp add: distinct_map_filter)
  moreover have "length (filter (\<lambda>e. fst e \<noteq> h) ?m) \<le> length ?m" by simp
  ultimately show ?thesis
  proof (cases "h \<in> fst ` set ?m")
    case True
    have "int (length ?m) = int (length (filter (\<lambda>e. fst e \<noteq> h) ?m)) + 1" using filter_one_key [OF assms(2) True] by linarith
    then show ?thesis
      using out True \<open>length _ \<le> length ?m\<close> \<open>distinct (map fst (filter _ _))\<close> by (simp add: effect_ok_def)
  next
    case False
    then show ?thesis using out filter_no_key [OF False] by (simp add: effect_ok_def)
  qed
qed (use assms in \<open>auto simp: blockchain_scripthash_unsubscribe_def\<close>)

lemma try_send_effect [simp]: "effect_ok rp cn rp (try_send msg cn)"
  by (auto simp: try_send_def intro!: effect_same_statuses)

lemma call_method_effect:
  assumes "call_method rk lib fdiv el node now rp cn meth params = Some (out, rp', cn')" "distinct (map fst (cn_status_hashes cn))"
  shows "effect_ok rp cn rp' cn'"
proof -
  have e: "blockchain_estimatefee el node now rp cn params = (out, rp', cn') \<Longrightarrow> effect_ok rp cn rp' cn'"
      "blockchain_scripthash_get_balance rk lib el rp cn params = (out, rp', cn') \<Longrightarrow> effect_ok rp cn rp' cn'"
      "blockchain_scripthash_listunspent rk lib el rp cn params = (out, rp', cn') \<Longrightarrow> effect_ok rp cn rp' cn'"
    by (auto simp: blockchain_estimatefee_def blockchain_scripthash_get_balance_def blockchain_scripthash_listunspent_def
        intro: with_query_effect split: outcome.splits)
  have h: "blockchain_headers_subscribe lib rp cn = (out, rp', cn') \<Longrightarrow> effect_ok rp cn rp' cn'"
    by (auto simp: blockchain_headers_subscribe_def intro!: effect_same_statuses split: outcome.splits)
  have r: "blockchain_relayfee el node rp cn = (out, rp', cn') \<Longrightarrow> effect_ok rp cn rp' cn'"
    by (auto simp: blockchain_relayfee_def intro!: effect_same_statuses split: prod.splits)
  have b: "blockchain_transaction_broadcast rk lib fdiv el node rp cn params = (out, rp', cn') \<Longrightarrow> effect_ok rp cn rp' cn'"
  proof -
    assume run: "blockchain_transaction_broadcast rk lib fdiv el node rp cn params = (out, rp', cn')"
    have "effect_ok rp cn (rp\<lparr>rp_query := q\<rparr>) (try_send PeriodicUpdate cn)" for q
      by (rule effect_trans [OF try_send_effect]) (auto intro!: effect_same_statuses)
    then show ?thesis using run by (auto simp: blockchain_transaction_broadcast_def split: outcome.splits prod.splits)
  qed
  have p: "blockchain_transaction_broadcast_package el rp cn params = (out, rp', cn') \<Longrightarrow> effect_ok rp cn rp' cn'"
    by (auto simp: blockchain_transaction_broadcast_package_def split: outcome.splits)
  show ?thesis
    using assms(1) e h r b p subscribe_effect [of rk lib el rp cn params out rp' cn']
      unsubscribe_effect [of el rp cn params out rp' cn'] assms(2)
    unfolding call_method_def Let_def by (auto split: if_splits)
qed

lemma handle_value_effect:
  assumes "handle_value rk lib fdiv el node now rp cn v = (out, rp', cn')" "distinct (map fst (cn_status_hashes cn))"
  shows "effect_ok rp cn rp' cn'"
proof -
  have "effect_ok rp cn rp' cn'" if run: "handle_command rk lib fdiv el node now rp cn meth params rid = (out, rp', cn')" for meth params rid
  proof (cases "call_method rk lib fdiv el node now rp cn meth params")
    case None
    then show ?thesis using run by (auto simp: handle_command_def)
  next
    case (Some x)
    then show ?thesis using run call_method_effect [OF _ assms(2)] by (cases x) (auto simp: handle_command_def)
  qed
  then show ?thesis using assms(1)
    by (auto simp: handle_value_def split: option.splits json.splits)
qed

lemma effect_distinct: "effect_ok rp cn rp' cn' \<Longrightarrow> distinct (map fst (cn_status_hashes cn)) \<Longrightarrow> distinct (map fst (cn_status_hashes cn'))"
  by (simp add: effect_ok_def)

lemma handle_batch_effect:
  assumes "handle_batch rk lib fdiv el node now rp cn vs = (out, rp', cn')" "distinct (map fst (cn_status_hashes cn))"
  shows "effect_ok rp cn rp' cn'"
  using assms
proof (induction vs arbitrary: rp cn out rp' cn')
  case (Cons v vs)
  obtain r rp1 cn1 where v: "handle_value rk lib fdiv el node now rp cn v = (r, rp1, cn1)" by (metis prod_cases3)
  obtain r2 rp2 cn2 where vs: "handle_batch rk lib fdiv el node now rp1 cn1 vs = (r2, rp2, cn2)" by (metis prod_cases3)
  have e: "effect_ok rp cn rp1 cn1" by (rule handle_value_effect [OF v Cons.prems(2)])
  then have "effect_ok rp1 cn1 rp2 cn2" using Cons.IH [OF vs] effect_distinct Cons.prems(2) by blast
  then show ?case using Cons.prems(1) v vs e effect_trans [OF e] by (auto split: outcome.splits)
qed simp

lemma handle_line_effect:
  assumes "handle_line rk lib fdiv el node now rp cn line = (out, rp', cn')" "distinct (map fst (cn_status_hashes cn))"
  shows "effect_ok rp cn rp' cn'"
  using assms handle_value_effect [OF _ assms(2)] handle_batch_effect [OF _ assms(2)]
  unfolding handle_line_def by (auto split: option.splits json.splits prod.splits)

lemma update_statuses_keys: "update_statuses rk lib el q limit m = (r, m') \<Longrightarrow> map fst m' = map fst m"
proof (induction m arbitrary: r m')
  case (Cons e m)
  obtain h st where e: "e = (h, st)" by (cases e)
  then show ?case using Cons by (auto split: outcome.splits prod.splits)
qed simp

lemma update_subscriptions_effect:
  "update_subscriptions rk lib el q cn = (r, cn') \<Longrightarrow> effect_ok rp cn rp cn'"
  by (auto simp: update_subscriptions_def intro!: effect_same_statuses dest: update_statuses_keys split: outcome.splits prod.splits)

text \<open>A turn that does not handle a proxy message.\<close>

lemma handle_turn_effect:
  assumes run: "handle_turn rk lib fdiv el node now room rp cn ev = (r, out, rp', cn')"
    and ev: "\<forall>a. ev \<noteq> Received (Proxy a)" and dist: "distinct (map fst (cn_status_hashes cn))"
  shows "effect_ok rp cn rp' cn'"
proof -
  let ?cn = "cn\<lparr>cn_last_request_at := now\<rparr>"
  have touch: "effect_ok rp cn rp ?cn" by (auto intro!: effect_same_statuses)
  have line: "effect_ok rp cn rp1 cn1" if "handle_line rk lib fdiv el node (int now) rp ?cn line = (x, rp1, cn1)" for line x rp1 cn1
    using effect_trans [OF touch handle_line_effect [OF that]] dist by simp
  show ?thesis
    using run ev line update_subscriptions_effect [where rp = rp]
    unfolding handle_turn_def by (auto split: if_splits event.splits message.splits prod.splits outcome.splits)
qed

section \<open>The server\<close>

record electrum_config =
  ec_txs_limit :: nat
  ec_max_subscriptions :: nat
  ec_max_clients :: nat
  ec_idle_timeout :: nat
  ec_max_line_size :: nat
  ec_haproxy_depth :: nat
  ec_connections_per_client :: nat

text \<open>The shared state, and each live connection with the messages its reader is going to send.\<close>

type_synonym ('d, 'f, 'g) rpc_server = "('d, 'f, 'g) rpc_state \<times> ('g connection \<times> message list) list"

definition rpc_start :: "('d, 'f, 'g) query \<Rightarrow> ('d, 'f, 'g) rpc_server" where
  "rpc_start q = (\<lparr>rp_query = q, rp_subscriptions = 0, rp_clients = 0, rp_client_counts = Map.empty\<rparr>, [])"

text \<open>
  A connection is accepted below the limit of clients; its reader turns the bytes of the client into messages. A turn
  of its loop handles the next message of the reader, or a periodic update, or an end; a loop that ends
  gives back what the connection held. The index changes at any time.
\<close>

inductive server_step ::
  "'d rocks \<Rightarrow> bitcoin_lib \<Rightarrow> (u64 \<Rightarrow> u64 \<Rightarrow> 'f f32) \<Rightarrow> ('f, 'g) electrum_lib
    \<Rightarrow> (bytes \<Rightarrow> header_result) \<Rightarrow> (bytes \<Rightarrow> utext option) \<Rightarrow> electrum_config
    \<Rightarrow> ('d, 'f, 'g) rpc_server \<Rightarrow> ('d, 'f, 'g) rpc_server \<Rightarrow> bool"
  for rk lib fdiv el pp utf8 cfg where
  accept: "length conns < ec_max_clients cfg \<Longrightarrow>
    handle_requests pp utf8 (ec_max_line_size cfg) broken reads = (inbox, ended) \<Longrightarrow>
    cn = connection_new (ec_txs_limit cfg) (ec_max_subscriptions cfg) (ec_idle_timeout cfg) now features
      (ec_haproxy_depth cfg) (ec_connections_per_client cfg) direct_ip \<Longrightarrow>
    server_step rk lib fdiv el pp utf8 cfg (rp, conns) (connection_started rp, conns @ [(cn, inbox)])"
| message: "handle_turn rk lib fdiv el node now room rp cn (Received m) = (r, out, rp', cn') \<Longrightarrow>
    server_step rk lib fdiv el pp utf8 cfg (rp, xs @ (cn, m # inbox) # ys)
      (if r = Ok True then (rp', xs @ (cn', inbox) # ys) else (connection_ended rp' cn', xs @ ys))"
| notified: "ev \<in> {Received PeriodicUpdate, ChannelClosed, Shutdown, IdleDeadline} \<Longrightarrow>
    handle_turn rk lib fdiv el node now room rp cn ev = (r, out, rp', cn') \<Longrightarrow>
    server_step rk lib fdiv el pp utf8 cfg (rp, xs @ (cn, inbox) # ys)
      (if r = Ok True then (rp', xs @ (cn', inbox) # ys) else (connection_ended rp' cn', xs @ ys))"
| indexed: "server_step rk lib fdiv el pp utf8 cfg (rp, conns) (rp\<lparr>rp_query := q\<rparr>, conns)"

definition conn_ok :: "electrum_config \<Rightarrow> 'g connection \<times> message list \<Rightarrow> bool" where
  "conn_ok cfg c =
     (case c of
        (cn, inbox) \<Rightarrow>
          cn_max_subscriptions cn = ec_max_subscriptions cfg \<and> cn_connections_per_client cn = ec_connections_per_client cfg
          \<and> length (cn_status_hashes cn) \<le> ec_max_subscriptions cfg \<and> distinct (map fst (cn_status_hashes cn))
          \<and> (\<forall>a. Proxy a \<notin> set (tl inbox)) \<and> (\<forall>a. Proxy a \<in> set inbox \<longrightarrow> cn_registered_ip cn = None))"

definition registered :: "ip_addr \<Rightarrow> ('g connection \<times> message list) list \<Rightarrow> nat" where
  "registered key conns = length (filter (\<lambda>c. cn_registered_ip (fst c) = Some key) conns)"

definition counts_ok :: "nat \<Rightarrow> (ip_addr \<rightharpoonup> nat) \<Rightarrow> ('g connection \<times> message list) list \<Rightarrow> bool" where
  "counts_ok limit counts conns \<longleftrightarrow>
     (\<forall>key. (counts key = None \<longrightarrow> registered key conns = 0)
        \<and> (\<forall>n. counts key = Some n \<longrightarrow> n = registered key conns \<and> 0 < n \<and> n \<le> limit))"

definition held :: "('g connection \<times> message list) list \<Rightarrow> nat" where
  "held conns = sum_list (map (\<lambda>c. length (cn_status_hashes (fst c))) conns)"

definition server_inv :: "electrum_config \<Rightarrow> ('d, 'f, 'g) rpc_server \<Rightarrow> bool" where
  "server_inv cfg s =
     (case s of
        (rp, conns) \<Rightarrow>
          (\<forall>c\<in>set conns. conn_ok cfg c) \<and> length conns \<le> ec_max_clients cfg
          \<and> rp_clients rp = int (length conns) \<and> rp_subscriptions rp = int (held conns)
          \<and> counts_ok (ec_connections_per_client cfg) (rp_client_counts rp) conns)"

lemma registered_simps [simp]:
  "registered key (xs @ ys) = registered key xs + registered key ys"
  "registered key (c # ys) = (if cn_registered_ip (fst c) = Some key then Suc (registered key ys) else registered key ys)"
  "registered key [] = 0"
  by (simp_all add: registered_def)

lemma held_simps [simp]:
  "held (xs @ ys) = held xs + held ys" "held (c # ys) = length (cn_status_hashes (fst c)) + held ys" "held [] = 0"
  by (simp_all add: held_def)

lemma counts_same: "(\<And>key. registered key conns' = registered key conns) \<Longrightarrow> counts_ok limit counts conns \<Longrightarrow> counts_ok limit counts conns'"
  by (simp add: counts_ok_def)

text \<open>The end of a connection.\<close>

lemma ended_inv:
  assumes inv: "server_inv cfg (rp, xs @ (cn, inbox) # ys)"
  shows "server_inv cfg (connection_ended rp cn, xs @ ys)"
proof -
  let ?counts = "rp_client_counts rp" and ?limit = "ec_connections_per_client cfg"
  have c: "counts_ok ?limit ?counts (xs @ (cn, inbox) # ys)" using inv by (simp add: server_inv_def)
  have "counts_ok ?limit (fst (unregister_client ?counts cn)) (xs @ ys)"
  proof (cases "cn_registered_ip cn")
    case None
    then show ?thesis using c by (simp add: unregister_client_def counts_ok_def)
  next
    case (Some key)
    then obtain n where n: "?counts key = Some n" "n = Suc (registered key (xs @ ys))" "n \<le> ?limit"
      using c [unfolded counts_ok_def, THEN spec, of key] by (cases "?counts key") auto
    have other: "(?counts k = None \<longrightarrow> registered k (xs @ ys) = 0) \<and> (\<forall>n. ?counts k = Some n \<longrightarrow> n = registered k (xs @ ys) \<and> 0 < n \<and> n \<le> ?limit)"
      if "k \<noteq> key" for k using c [unfolded counts_ok_def, THEN spec, of k] Some that by simp
    show ?thesis unfolding counts_ok_def
    proof
      fix k show "(fst (unregister_client ?counts cn) k = None \<longrightarrow> registered k (xs @ ys) = 0)
          \<and> (\<forall>n. fst (unregister_client ?counts cn) k = Some n \<longrightarrow> n = registered k (xs @ ys) \<and> 0 < n \<and> n \<le> ?limit)"
        using Some n other [of k] by (cases "k = key") (auto simp: unregister_client_def Let_def)
    qed
  qed
  then show ?thesis using inv by (auto simp: server_inv_def connection_ended_def)
qed

text \<open>A turn within the rules for effects.\<close>

lemma effect_inv:
  assumes inv: "server_inv cfg (rp, xs @ (cn, inbox) # ys)" and eff: "effect_ok rp cn rp' cn'"
    and sub: "inbox' = inbox \<or> (\<exists>m. inbox = m # inbox')"
  shows "server_inv cfg (rp', xs @ (cn', inbox') # ys)"
proof -
  have e: "rp_clients rp' = rp_clients rp" "rp_client_counts rp' = rp_client_counts rp" "cn_registered_ip cn' = cn_registered_ip cn"
      "rp_subscriptions rp' - int (length (cn_status_hashes cn')) = rp_subscriptions rp - int (length (cn_status_hashes cn))"
    using eff by (simp_all add: effect_ok_def)
  have tl: "set (tl l) \<subseteq> set l" for l :: "message list" by (cases l) auto
  have "conn_ok cfg (cn', inbox')"
    using inv eff sub tl [of inbox'] by (auto simp: server_inv_def conn_ok_def effect_ok_def)
  moreover have "counts_ok (ec_connections_per_client cfg) (rp_client_counts rp') (xs @ (cn', inbox') # ys)"
    using inv e(2,3) by (auto simp: server_inv_def intro: counts_same [rotated])
  ultimately show ?thesis using inv e by (auto simp: server_inv_def)
qed

text \<open>The proxy message, which registers the connection.\<close>

lemma register_counts:
  assumes c: "counts_ok limit counts (xs @ (cn, inbox) # ys)" and none: "cn_registered_ip cn = None"
    and lim: "cn_connections_per_client cn = limit" and run: "register_client counts cn = (r, counts', cn')"
  shows "counts_ok limit counts' (xs @ (cn', inbox') # ys)"
    and "cn' = cn\<lparr>cn_registered_ip := cn_registered_ip cn'\<rparr>"
proof -
  let ?old = "xs @ (cn, inbox) # ys" and ?new = "xs @ (cn', inbox') # ys"
  have free: "registered key ?old = registered key xs + registered key ys" for key using none by simp
  have stay: "counts_ok limit counts (xs @ (cn, inbox') # ys)" using c none by (auto simp: counts_ok_def)
  show "counts_ok limit counts' ?new" "cn' = cn\<lparr>cn_registered_ip := cn_registered_ip cn'\<rparr>"
  proof (atomize(full), cases "client_key cn")
    case None
    then show "counts_ok limit counts' ?new \<and> cn' = cn\<lparr>cn_registered_ip := cn_registered_ip cn'\<rparr>"
      using run stay none by (auto simp: register_client_def split: if_splits)
  next
    case (Some key)
    define n where "n = (case counts key of Some n \<Rightarrow> n | None \<Rightarrow> 0)"
    have n: "n = registered key xs + registered key ys" "counts key = None \<longleftrightarrow> n = 0"
      using c [unfolded counts_ok_def, THEN spec, of key] free by (auto simp: n_def split: option.splits)
    show "counts_ok limit counts' ?new \<and> cn' = cn\<lparr>cn_registered_ip := cn_registered_ip cn'\<rparr>"
    proof (cases "limit = 0 \<or> limit \<le> n")
      case True
      have "counts(key \<mapsto> n) = counts" if "limit \<noteq> 0"
        using True that n by (intro ext) (auto simp: n_def split: option.splits)
      then have "counts' = counts" "cn' = cn"
        using run Some True lim by (auto simp: register_client_def n_def [symmetric] Let_def split: if_splits)
      then show ?thesis using stay none by simp
    next
      case False
      then have out: "counts' = counts(key \<mapsto> n + 1)" "cn' = cn\<lparr>cn_registered_ip := Some key\<rparr>"
        using run Some lim by (auto simp: register_client_def n_def [symmetric] Let_def split: if_splits)
      have "counts_ok limit counts' ?new" unfolding counts_ok_def
      proof
        fix k
        show "(counts' k = None \<longrightarrow> registered k ?new = 0)
          \<and> (\<forall>n. counts' k = Some n \<longrightarrow> n = registered k ?new \<and> 0 < n \<and> n \<le> limit)"
        proof (cases "k = key")
          case True
          then show ?thesis using out n(1) False by simp
        next
          case False
          then show ?thesis using c [unfolded counts_ok_def, THEN spec, of k] out none by simp
        qed
      qed
      then show ?thesis using out by simp
    qed
  qed
qed

lemma proxy_inv:
  assumes inv: "server_inv cfg (rp, xs @ (cn, Proxy a # inbox) # ys)"
    and run: "register_client (rp_client_counts rp) (set_proxy_client a cn) = (r, counts, cn')"
  shows "server_inv cfg (rp\<lparr>rp_client_counts := counts\<rparr>, xs @ (cn', inbox) # ys)"
proof -
  let ?cn = "set_proxy_client a cn"
  have ok: "conn_ok cfg (cn, Proxy a # inbox)" using inv by (simp add: server_inv_def)
  have none: "cn_registered_ip ?cn = None" "cn_connections_per_client ?cn = ec_connections_per_client cfg"
    using ok by (auto simp: conn_ok_def set_proxy_client_def)
  have "counts_ok (ec_connections_per_client cfg) (rp_client_counts rp) (xs @ (?cn, inbox) # ys)"
    using inv none(1) ok by (auto simp: server_inv_def counts_ok_def conn_ok_def)
  note reg = register_counts(1) [OF this none run, where inbox' = inbox] register_counts(2) [OF this none run]
  have same: "cn_status_hashes cn' = cn_status_hashes cn" "cn_max_subscriptions cn' = cn_max_subscriptions cn"
      "cn_connections_per_client cn' = cn_connections_per_client cn"
    by (subst reg(2), simp add: set_proxy_client_def)+
  have tl: "set (tl inbox) \<subseteq> set inbox" by (cases inbox) auto
  have "conn_ok cfg (cn', inbox)" using ok same tl by (auto simp: conn_ok_def)
  then show ?thesis using inv reg(1) same by (auto simp: server_inv_def)
qed

lemma turn_inv:
  assumes inv: "server_inv cfg (rp, xs @ (cn, m # inbox) # ys)"
    and run: "handle_turn rk lib fdiv el node now room rp cn (Received m) = (r, out, rp', cn')"
  shows "server_inv cfg (rp', xs @ (cn', inbox) # ys)"
proof (cases "\<exists>a. m = Proxy a \<and> \<not> cn_idle_timeout cn < now - cn_last_request_at cn")
  case True
  then obtain a where a: "m = Proxy a" "\<not> cn_idle_timeout cn < now - cn_last_request_at cn" by blast
  obtain x counts cn1 where reg: "register_client (rp_client_counts rp) (set_proxy_client a cn) = (x, counts, cn1)" by (metis prod_cases3)
  then have "rp' = rp\<lparr>rp_client_counts := counts\<rparr>" "cn' = cn1" using run a by (auto simp: handle_turn_def)
  then show ?thesis using proxy_inv [OF inv [unfolded a(1)] reg] by simp
next
  case False
  have dist: "distinct (map fst (cn_status_hashes cn))" using inv by (simp add: server_inv_def conn_ok_def)
  have "effect_ok rp cn rp' cn'"
  proof (cases "cn_idle_timeout cn < now - cn_last_request_at cn")
    case True
    then show ?thesis using run by (auto simp: handle_turn_def)
  next
    case F: False
    then show ?thesis using handle_turn_effect [OF run _ dist] False by blast
  qed
  then show ?thesis using effect_inv [OF inv] by blast
qed

lemma server_step_inv:
  assumes "server_inv cfg s" "server_step rk lib fdiv el pp utf8 cfg s t"
  shows "server_inv cfg t"
  using assms(2,1)
proof cases
  case (accept conns broken reads inbox ended cn now features direct_ip rp)
  have "conn_ok cfg (cn, inbox)" using accept handle_requests_proxy [OF accept(4)] by (simp add: conn_ok_def connection_new_def)
  then show ?thesis using assms(1) accept
    by (auto simp: server_inv_def connection_started_def counts_ok_def connection_new_def)
next
  case (message node now room rp cn m r out rp' cn' xs inbox ys)
  have "server_inv cfg (rp', xs @ (cn', inbox) # ys)" by (rule turn_inv [OF _ message(3)]) (use assms(1) message(1) in simp)
  then show ?thesis using message(2) ended_inv by auto
next
  case (notified ev node now room rp cn r out rp' cn' xs inbox ys)
  have inv: "server_inv cfg (rp, xs @ (cn, inbox) # ys)" using assms(1) notified(1) by simp
  then have dist: "distinct (map fst (cn_status_hashes cn))" by (simp add: server_inv_def conn_ok_def)
  have "effect_ok rp cn rp' cn'" by (rule handle_turn_effect [OF notified(4) _ dist]) (use notified(3) in auto)
  then have "server_inv cfg (rp', xs @ (cn', inbox) # ys)" using effect_inv [OF inv] by blast
  then show ?thesis using notified(2) ended_inv by auto
next
  case (indexed rp conns q)
  then show ?thesis using assms(1) by (simp add: server_inv_def)
qed

lemma server_inv_start: "server_inv cfg (rpc_start q)"
  by (simp add: rpc_start_def server_inv_def counts_ok_def)

interpretation electrum_machine: invariant_machine "rpc_start q" "server_step rk lib fdiv el pp utf8 cfg" "server_inv cfg"
  for q rk lib fdiv el pp utf8 cfg
  by unfold_locales (rule server_inv_start, rule server_step_inv)

section \<open>Histories and subscriptions\<close>

text \<open>A history with a limit is the beginning of one list.\<close>

lemma query_history_take:
  assumes "history_txids rk (q_chain q) sh n = Ok cs"
  obtains full where "\<And>m. query_history_txids rk q sh m = Ok (take m full)"
proof -
  obtain confirmed where c: "\<And>m. history_txids rk (q_chain q) sh m = Ok (take m confirmed)"
    using assms by (auto simp: history_txids_def)
  obtain pending where p: "\<And>m. mempool_history_txids (q_mempool q) sh m = take m pending"
    by (cases "mp_history (q_mempool q) sh") (auto simp: mempool_history_txids_def)
  have "query_history_txids rk q sh m = Ok (take m (map (\<lambda>(tx, b). (tx, Some b)) confirmed @ map (\<lambda>tx. (tx, None)) pending))" for m
  proof -
    have "m - min (length confirmed) m = m - length confirmed" by simp
    then show ?thesis by (simp add: query_history_txids_def c p take_map usize_sub_def)
  qed
  then show ?thesis using that by blast
qed

lemma update_statuses_Ok:
  assumes "update_statuses rk lib el q limit m = (Ok vs, m')"
  obtains cur where "\<forall>h\<in>fst ` set m. script_status rk lib el q limit h = Ok (cur h)"
    "m' = map (\<lambda>e. (fst e, cur (fst e))) m"
    "vs = map (\<lambda>e. status_notification el (fst e) (cur (fst e))) (filter (\<lambda>e. cur (fst e) \<noteq> snd e) m)"
proof -
  define cur where "cur h = (case script_status rk lib el q limit h of Ok st \<Rightarrow> st | _ \<Rightarrow> JNull)" for h
  have "(\<forall>h\<in>fst ` set m. script_status rk lib el q limit h = Ok (cur h)) \<and> m' = map (\<lambda>e. (fst e, cur (fst e))) m
      \<and> vs = map (\<lambda>e. status_notification el (fst e) (cur (fst e))) (filter (\<lambda>e. cur (fst e) \<noteq> snd e) m)"
    using assms
  proof (induction m arbitrary: vs m')
    case (Cons e m)
    obtain h st where e: "e = (h, st)" by (cases e)
    obtain new where new: "script_status rk lib el q limit h = Ok new" using Cons.prems e by (auto split: outcome.splits)
    obtain r m1 where rest: "update_statuses rk lib el q limit m = (r, m1)" by (cases "update_statuses rk lib el q limit m")
    obtain vs1 where r: "r = Ok vs1" using Cons.prems e new rest by auto
    show ?case using Cons.IH [OF rest [unfolded r]] Cons.prems e new rest r by (auto simp: cur_def)
  qed simp
  then show ?thesis using that by blast
qed

lemma update_statuses_current:
  assumes "\<forall>h\<in>fst ` set m. script_status rk lib el q limit h = Ok (cur h)"
  shows "update_statuses rk lib el q limit (map (\<lambda>e. (fst e, cur (fst e))) m) = (Ok [], map (\<lambda>e. (fst e, cur (fst e))) m)"
  using assms by (induction m) auto

lemma handle_value_cases:
  "(\<exists>meth params rid. json_get v (lit ''id'') = Some rid
      \<and> handle_value rk lib fdiv el node now rp cn v = handle_command rk lib fdiv el node now rp cn meth params rid)
   \<or> handle_value rk lib fdiv el node now rp cn v
        = (Ok (json_rpc_error (el_show_json el v) (json_get v (lit ''id'')) InvalidRequest), rp, cn)"
proof (cases "json_get v (lit ''id'')")
  case None
  then show ?thesis by (auto simp: handle_value_def split: option.splits json.splits)
next
  case (Some rid)
  define ps where "ps = (case json_get v (lit ''params'') of Some p \<Rightarrow> p | None \<Rightarrow> JArray [])"
  show ?thesis
  proof (cases "\<exists>meth params. json_get v (lit ''method'') = Some (JString meth) \<and> ps = JArray params")
    case True
    then obtain meth params where "json_get v (lit ''method'') = Some (JString meth)" "ps = JArray params" by blast
    then show ?thesis
      using Some by (intro disjI1 exI [of _ meth] exI [of _ params] exI [of _ rid]) (simp add: handle_value_def ps_def [symmetric])
  next
    case False
    then show ?thesis using Some by (auto simp: handle_value_def ps_def [symmetric] split: option.splits json.splits)
  qed
qed

section \<open>Properties\<close>

text \<open>A query over an index with no history.\<close>

definition demo_empty_query :: "((bytes \<times> bytes) list, nat, nat) query" where
  "demo_empty_query = demo_query\<lparr>q_chain := (demo_balance_cq\<lparr>cq_store := (cq_store demo_balance_cq)\<lparr>so_history_db := []\<rparr>\<rparr>)\<rparr>"

lemma demo_empty_history: "history_txids ref_rocks (q_chain demo_empty_query) (demo_hash 1) n = Ok []"
proof -
  have "scan_collect (iter_scan_from ref_rocks [] p start) = []" for p start
    by (subst scan_collect.simps) (simp add: iter_scan_from_def ref_rocks_def ref_keys_def scan_next_def)
  moreover have "\<exists>p. prefix_height 72 (demo_hash 1) 0 = Ok p" by (simp add: prefix_height_def full_hash_def)
  ultimately show ?thesis by (auto simp: demo_empty_query_def history_txids_def rows_forward_def history_iter_scan_def unique_by_def)
qed

definition demo_cfg :: electrum_config where
  "demo_cfg = \<lparr>ec_txs_limit = 500, ec_max_subscriptions = 2, ec_max_clients = 1, ec_idle_timeout = 600, ec_max_line_size = 1000, ec_haproxy_depth = 0,
     ec_connections_per_client = 1\<rparr>"

definition demo_conn :: "nat connection" where
  "demo_conn = connection_new 500 2 600 0 (demo_features []) 0 1 (Some (V4 1 2 3 4))"

text \<open>C26: whatever clients send and however their connections interleave, the gauges are exactly the live
  connections and their subscriptions, no connection has more subscriptions than the limit, and the
  count kept for a client is the number of its live registered connections, which the limit bounds.\<close>

theorem server_accounts_exact:
  assumes "reach (rpc_start q) (server_step rk lib fdiv el pp utf8 cfg) (rp, conns)"
  shows "rp_clients rp = int (length conns) \<and> length conns \<le> ec_max_clients cfg
    \<and> rp_subscriptions rp = int (sum_list (map (\<lambda>c. length (cn_status_hashes (fst c))) conns))
    \<and> (\<forall>c\<in>set conns. length (cn_status_hashes (fst c)) \<le> ec_max_subscriptions cfg \<and> distinct (map fst (cn_status_hashes (fst c))))
    \<and> (\<forall>key. registered key conns = (case rp_client_counts rp key of Some n \<Rightarrow> n | None \<Rightarrow> 0)
         \<and> registered key conns \<le> ec_connections_per_client cfg)"
proof -
  have inv: "server_inv cfg (rp, conns)" by (rule electrum_machine.reach_inv [OF assms])
  have "registered key conns = (case rp_client_counts rp key of Some n \<Rightarrow> n | None \<Rightarrow> 0)
      \<and> registered key conns \<le> ec_connections_per_client cfg" for key
    using inv by (cases "rp_client_counts rp key") (auto simp: server_inv_def counts_ok_def)
  moreover have "\<forall>c\<in>set conns. length (cn_status_hashes (fst c)) \<le> ec_max_subscriptions cfg \<and> distinct (map fst (cn_status_hashes (fst c)))"
    using inv by (auto simp: server_inv_def conn_ok_def)
  moreover have "rp_clients rp = int (length conns)" "length conns \<le> ec_max_clients cfg"
      "rp_subscriptions rp = int (sum_list (map (\<lambda>c. length (cn_status_hashes (fst c))) conns))"
    using inv by (simp_all add: server_inv_def held_def)
  ultimately show ?thesis by blast
qed

theorem server_accounts_exact_witness:
  "\<exists>rp cn. reach (rpc_start demo_query) (server_step ref_rocks demo_lib (\<lambda>_ _. None) demo_el (\<lambda>_. Invalid) (\<lambda>_. None) demo_cfg) (rp, [(cn, [Proxy None, Done])])
     \<and> rp_clients rp = 1 \<and> registered (V4 1 2 3 4) [(cn, [Proxy None, Done])] \<le> 1"
proof -
  let ?step = "server_step ref_rocks demo_lib (\<lambda>_ _. None) demo_el (\<lambda>_. Invalid) (\<lambda>_. None) demo_cfg"
  let ?rp = "fst (rpc_start demo_query)"
  have "?step (?rp, []) (connection_started ?rp, [] @ [(demo_conn, [Proxy None, Done])])"
    by (rule server_step.accept [where features = "demo_features []" and now = 0 and direct_ip = "Some (V4 1 2 3 4)" and broken = False and reads = "[]"])
      (simp_all add: demo_cfg_def demo_conn_def handle_requests_none)
  moreover have start: "rpc_start demo_query = (?rp, [])" by (simp add: rpc_start_def)
  ultimately have r: "reach (rpc_start demo_query) ?step (connection_started ?rp, [(demo_conn, [Proxy None, Done])])"
    by (intro reach_step [OF reach_init]) simp
  note acc = server_accounts_exact [OF r]
  have "rp_clients (connection_started ?rp) = 1" using acc by simp
  moreover have "registered (V4 1 2 3 4) [(demo_conn, [Proxy None, Done])] \<le> ec_connections_per_client demo_cfg" using acc by blast
  then have "registered (V4 1 2 3 4) [(demo_conn, [Proxy None, Done])] \<le> 1" by (simp only: demo_cfg_def electrum_config.simps)
  ultimately have "rp_clients (connection_started ?rp) = 1 \<and> registered (V4 1 2 3 4) [(demo_conn, [Proxy None, Done])] \<le> 1" by blast
  then show ?thesis using r by blast
qed

text \<open>A history is delivered whole or not at all: below the largest number, the limit only decides
  between the complete history and an error.\<close>

theorem history_never_truncated:
  assumes "history_txids rk (q_chain q) sh n = Ok cs" "limit < 2 ^ 64 - 1"
  shows "\<exists>full. (\<forall>m. query_history_txids rk q sh m = Ok (take m full))
    \<and> get_history rk q sh limit = (if length full \<le> limit then Ok full else Err (TooManyTxs limit))"
proof -
  obtain full where full: "\<And>m. query_history_txids rk q sh m = Ok (take m full)" using query_history_take [OF assms(1)] by blast
  have "(limit + 1) mod 2 ^ 64 = limit + 1" using assms(2) by (intro mod_less) simp
  then have "get_history rk q sh limit = (if length full \<le> limit then Ok full else Err (TooManyTxs limit))"
    by (simp add: get_history_def full)
  then show ?thesis using full by blast
qed

theorem history_never_truncated_witness:
  "\<exists>full. get_history ref_rocks demo_empty_query (demo_hash 1) 500 = (if length full \<le> 500 then Ok full else Err (TooManyTxs 500))"
  using history_never_truncated [OF demo_empty_history, of 500] by auto

text \<open>C27: an update that succeeds leaves the connection with the current best header and the current
  status of every script it subscribed to, notifies exactly of those that had changed, in the order of
  the subscriptions, and has nothing more to say until the index changes.\<close>

theorem updates_reach_client:
  assumes run: "update_subscriptions rk lib el q cn = (Ok vs, cn')"
  shows "\<exists>cur hs. (\<forall>h\<in>fst ` set (cn_status_hashes cn). script_status rk lib el q (cn_txs_limit cn) h = Ok (cur h))
    \<and> cn_status_hashes cn' = map (\<lambda>e. (fst e, cur (fst e))) (cn_status_hashes cn)
    \<and> vs = hs @ map (\<lambda>e. status_notification el (fst e) (cur (fst e))) (filter (\<lambda>e. cur (fst e) \<noteq> snd e) (cn_status_hashes cn))
    \<and> (case cn_last_header_entry cn of
         None \<Rightarrow> hs = [] \<and> cn_last_header_entry cn' = None
       | Some shown \<Rightarrow> (\<exists>best. best_header (q_chain q) = Ok best \<and> cn_last_header_entry cn' = Some best
           \<and> hs = (if best = shown then [] else [header_notification lib best])))
    \<and> update_subscriptions rk lib el q cn' = (Ok [], cn')"
proof -
  obtain hs last_entry where h: "update_header lib q (cn_last_header_entry cn) = Ok (hs, last_entry)"
    using run by (auto simp: update_subscriptions_def split: outcome.splits prod.splits)
  obtain ns m where s: "update_statuses rk lib el q (cn_txs_limit cn) (cn_status_hashes cn) = (Ok ns, m)"
      "vs = hs @ ns" "cn' = cn\<lparr>cn_last_header_entry := last_entry, cn_status_hashes := m\<rparr>"
    using run h by (auto simp: update_subscriptions_def split: prod.splits)
  obtain cur where cur: "\<forall>h\<in>fst ` set (cn_status_hashes cn). script_status rk lib el q (cn_txs_limit cn) h = Ok (cur h)"
      "m = map (\<lambda>e. (fst e, cur (fst e))) (cn_status_hashes cn)"
      "ns = map (\<lambda>e. status_notification el (fst e) (cur (fst e))) (filter (\<lambda>e. cur (fst e) \<noteq> snd e) (cn_status_hashes cn))"
    using update_statuses_Ok [OF s(1)] by blast
  have head: "case cn_last_header_entry cn of
         None \<Rightarrow> hs = [] \<and> last_entry = None
       | Some shown \<Rightarrow> (\<exists>best. best_header (q_chain q) = Ok best \<and> last_entry = Some best
           \<and> hs = (if best = shown then [] else [header_notification lib best]))"
  proof (cases "cn_last_header_entry cn")
    case (Some shown)
    then obtain best where "best_header (q_chain q) = Ok best"
        "(hs, last_entry) = (if shown \<noteq> best then ([header_notification lib best], Some best) else ([], Some shown))"
      using h by (auto simp: update_header_def)
    then show ?thesis using Some by (cases "shown = best") auto
  qed (use h in \<open>auto simp: update_header_def\<close>)
  have "update_header lib q last_entry = Ok ([], last_entry)"
    using head by (auto simp: update_header_def split: option.splits)
  then have again: "update_subscriptions rk lib el q cn' = (Ok [], cn')"
    using update_statuses_current [OF cur(1)] s(3) cur(2) by (simp add: update_subscriptions_def)
  have sel: "cn_last_header_entry cn' = last_entry" "cn_status_hashes cn' = m" using s(3) by simp_all
  show ?thesis unfolding sel s(2) cur(2,3)
    by (intro exI [of _ cur] exI [of _ hs] conjI cur(1) refl head again)
qed

theorem updates_reach_client_witness:
  "\<exists>vs cn'. update_subscriptions ref_rocks demo_lib demo_el demo_empty_query
       (demo_conn\<lparr>cn_status_hashes := [(demo_hash 1, jnat 1)]\<rparr>) = (Ok vs, cn')
     \<and> update_subscriptions ref_rocks demo_lib demo_el demo_empty_query cn' = (Ok [], cn')"
proof -
  let ?cn = "demo_conn\<lparr>cn_status_hashes := [(demo_hash 1, jnat 1)]\<rparr>"
  have "mp_history (q_mempool demo_empty_query) (demo_hash 1) = None"
    by (simp add: demo_empty_query_def demo_query_sel mempool_new_def)
  then have "query_history_txids ref_rocks demo_empty_query (demo_hash 1) n = Ok []" for n
    by (simp add: query_history_txids_def demo_empty_history mempool_history_txids_def)
  then have st: "script_status ref_rocks demo_lib demo_el demo_empty_query n (demo_hash 1) = Ok JNull" for n
    by (simp add: script_status_def get_history_def get_status_hash_def)
  have none: "cn_last_header_entry ?cn = None" by (simp add: demo_conn_def connection_new_def)
  have "\<exists>vs cn'. update_subscriptions ref_rocks demo_lib demo_el demo_empty_query ?cn = (Ok vs, cn')"
    using st none by (simp add: update_subscriptions_def update_header_def)
  then obtain vs cn' where run: "update_subscriptions ref_rocks demo_lib demo_el demo_empty_query ?cn = (Ok vs, cn')" by blast
  show ?thesis using updates_reach_client [OF run] run by blast
qed

text \<open>A batch is answered by as many responses, in order, each with the identifier of its request.\<close>

theorem responses_match_requests:
  assumes "el_parse_json el line = Some (JArray cmds)"
    and "handle_line rk lib fdiv el node now rp cn line = (r, rp', cn')" "\<not> panics r"
  shows "\<exists>resps. r = Ok (JArray resps) \<and> length resps = length cmds
    \<and> (\<forall>i<length cmds. json_get (resps ! i) (lit ''id'') = json_get (cmds ! i) (lit ''id''))"
proof -
  have names: "lit ''error'' \<noteq> lit ''id''" "lit ''jsonrpc'' \<noteq> lit ''id''" by (simp_all add: lit_def)
  have err: "json_get (json_rpc_error t rid code) (lit ''id'') = rid" for t rid code
    using names by (cases rid) (simp_all add: json_rpc_error_def)
  have v: "panics x \<or> (\<exists>resp. x = Ok resp \<and> json_get resp (lit ''id'') = json_get c (lit ''id''))"
    if "handle_value rk lib fdiv el node now rp cn c = (x, rp1, cn1)" for rp cn c x rp1 cn1
  proof -
    have cmd: "panics x \<or> (\<exists>resp. x = Ok resp \<and> json_get resp (lit ''id'') = Some rid)"
      if "handle_command rk lib fdiv el node now rp cn meth params rid = (x, rp1, cn1)" for meth params rid
      using that names err by (auto simp: handle_command_def split: option.splits prod.splits outcome.splits)
    from handle_value_cases [of c rk lib fdiv el node now rp cn] show ?thesis
    proof (elim disjE exE conjE)
      fix meth params rid
      assume "json_get c (lit ''id'') = Some rid"
        "handle_value rk lib fdiv el node now rp cn c = handle_command rk lib fdiv el node now rp cn meth params rid"
      then show ?thesis using that cmd [of meth params rid] by simp
    qed (use that err in auto)
  qed
  have b: "panics x \<or> (\<exists>resps. x = Ok resps \<and> list_all2 (\<lambda>c resp. json_get resp (lit ''id'') = json_get c (lit ''id'')) cs resps)"
    if "handle_batch rk lib fdiv el node now rp cn cs = (x, rp2, cn2)" for rp cn cs x rp2 cn2
    using that
  proof (induction cs arbitrary: rp cn x rp2 cn2)
    case (Cons c cs)
    obtain y rp1 cn1 where y: "handle_value rk lib fdiv el node now rp cn c = (y, rp1, cn1)" by (metis prod_cases3)
    obtain z rp3 cn3 where z: "handle_batch rk lib fdiv el node now rp1 cn1 cs = (z, rp3, cn3)" by (metis prod_cases3)
    show ?case using v [OF y] Cons.IH [OF z] Cons.prems y z by (cases y; cases z) auto
  qed simp
  obtain x where x: "handle_batch rk lib fdiv el node now rp cn cmds = (x, rp', cn')" "r = map_out JArray x"
    using assms(1,2) by (auto simp: handle_line_def split: prod.splits)
  then have "\<not> panics x" using assms(3) by (cases x) auto
  then show ?thesis using b [OF x(1)] x(2) by (auto simp: list_all2_conv_all_nth)
qed

theorem responses_match_requests_witness:
  "\<exists>resp rp' cn'. handle_line ref_rocks demo_lib (\<lambda>_ _. None) demo_el demo_query_node 0 (fst (rpc_start demo_query)) demo_conn []
       = (Ok (JArray [resp]), rp', cn') \<and> json_get resp (lit ''id'') = Some (jnat 7)"
proof -
  let ?rp = "fst (rpc_start demo_query)" and ?cmds = "[JObject [(lit ''id'', jnat 7)]]"
  have parse: "el_parse_json demo_el [] = Some (JArray ?cmds)" by (simp add: demo_el_def)
  obtain r rp' cn' where run: "handle_line ref_rocks demo_lib (\<lambda>_ _. None) demo_el demo_query_node 0 ?rp demo_conn [] = (r, rp', cn')"
    by (metis prod_cases3)
  have "handle_value ref_rocks demo_lib (\<lambda>_ _. None) demo_el demo_query_node 0 ?rp demo_conn (JObject [(lit ''id'', jnat 7)])
      = (Ok (json_rpc_error [] (Some (jnat 7)) InvalidRequest), ?rp, demo_conn)"
    by (simp add: handle_value_def lit_def demo_el_def)
  then have "\<not> panics r" using run parse by (auto simp: handle_line_def)
  from responses_match_requests [OF parse run this] show ?thesis using run by (auto simp: length_Suc_conv)
qed

text \<open>
  The fees of the socket are converted from satoshis per byte to bitcoins per kilobyte, as Electrum
  clients expect; the same methods over HTTP are not.
\<close>

theorem http_fees_not_converted:
  "get_relayfee node (rp_query rp) = (Ok f, q') \<Longrightarrow>
     fst (blockchain_relayfee el node rp cn) = Ok (JNumber (Float (el_btc_per_kb el f)))
     \<and> fst (http_method rk lib fdiv el node now (rp_query rp) (lit ''blockchain.relayfee'') params) = Ok (JNumber (Float f))"
  "usize_from_value (first_opt params) name = Ok n \<Longrightarrow> estimate_fee node now (rp_query rp) (n mod 2 ^ 16) = Ok (Some g, q'') \<Longrightarrow>
     fst (blockchain_estimatefee el node now rp cn params) = Ok (JNumber (Float (el_btc_per_kb el g)))
     \<and> fst (http_method rk lib fdiv el node now (rp_query rp) (lit ''blockchain.estimatefee'') params) = Ok (JNumber (Float g))"
proof -
  show "get_relayfee node (rp_query rp) = (Ok f, q') \<Longrightarrow>
     fst (blockchain_relayfee el node rp cn) = Ok (JNumber (Float (el_btc_per_kb el f)))
     \<and> fst (http_method rk lib fdiv el node now (rp_query rp) (lit ''blockchain.relayfee'') params) = Ok (JNumber (Float f))"
    by (simp add: blockchain_relayfee_def http_method_def lit_def Let_def)
  have n: "usize_from_value v name = Ok n \<longleftrightarrow> (\<exists>x. v = Some x \<and> as_u64 x = Some n)" for v :: "'b json option" and name
    by (auto simp: usize_from_value_def ok_or_def split: option.splits)
  show "usize_from_value (first_opt params) name = Ok n \<Longrightarrow> estimate_fee node now (rp_query rp) (n mod 2 ^ 16) = Ok (Some g, q'') \<Longrightarrow>
     fst (blockchain_estimatefee el node now rp cn params) = Ok (JNumber (Float (el_btc_per_kb el g)))
     \<and> fst (http_method rk lib fdiv el node now (rp_query rp) (lit ''blockchain.estimatefee'') params) = Ok (JNumber (Float g))"
    unfolding n by (auto simp: blockchain_estimatefee_def http_method_def with_query_def usize_from_value_def lit_def Let_def)
qed

end
