(* ===== verification/Rest_Values.thy ===== *)
theory Rest_Values
  imports Electrum_Reader Auth Sigops
begin

text \<open>
  The values the HTTP interface answers with and the helpers of its handlers (\<^verbatim>\<open>src/rest.rs\<close>): blocks,
  transactions, inputs, outputs and spends as JSON, the kinds of scripts, the lifetime of an answer, the
  errors with their status codes, and the parsing of script hashes. Text formats and arithmetic of
  third-party code are the record \<open>rest_lib\<close>; the settings are the record \<open>rest_config\<close>.
\<close>

section \<open>What the interface relies on\<close>

record 'g rest_lib =
  rl_parse_hash :: "utext \<Rightarrow> (utext, hash) outcome"
  rl_decode_hex :: "utext \<Rightarrow> bytes option"
  rl_parse_address :: "utext \<Rightarrow> (network \<Rightarrow> bytes option) option"
  rl_script_asm :: "bytes \<Rightarrow> utext"
  rl_is_p2pk :: "bytes \<Rightarrow> bool"
  rl_is_p2pkh :: "bytes \<Rightarrow> bool"
  rl_total_size :: "transaction \<Rightarrow> nat"
  rl_merkleblock :: "block_header \<Rightarrow> hash list \<Rightarrow> (hash \<Rightarrow> bool) \<Rightarrow> bytes"
  rl_varint :: "u64 \<Rightarrow> bytes"
  rl_form_parse :: "utext \<Rightarrow> (utext \<times> utext) list"
  rl_json_strings :: "bytes \<Rightarrow> (utext, utext list) outcome"
  rl_utf8 :: "bytes \<Rightarrow> utext option"
  rl_utf8_error :: "bytes \<Rightarrow> utext"
  rl_debug_text :: "utext \<Rightarrow> utext"
  rl_f64 :: "nat \<Rightarrow> 'g"
  rl_f64_times :: "'g \<Rightarrow> 'g \<Rightarrow> 'g"
  rl_f64_div :: "'g \<Rightarrow> 'g \<Rightarrow> 'g"
  rl_parse_f64 :: "utext \<Rightarrow> 'g option"
  rl_f64_json :: "'g \<Rightarrow> 'g json"
  rl_test_mempool_accept :: "utext list \<Rightarrow> 'g option \<Rightarrow> (error_kind, 'g json) outcome"
  rl_submit_package :: "utext list \<Rightarrow> 'g option \<Rightarrow> 'g option \<Rightarrow> (error_kind, 'g json) outcome"
  rl_getblocktemplate :: "(error_kind, 'g json) outcome"

record rest_config =
  rc_network_type :: network
  rc_address_search :: bool
  rc_enable_mining_rest :: bool
  rc_public_health :: bool
  rc_default_block_limit :: nat
  rc_default_chain_txs_per_page :: nat
  rc_default_max_mempool_txs :: nat
  rc_default_max_address_summary_txs :: nat
  rc_max_mempool_page_size :: nat
  rc_max_mempool_txid_page_size :: nat

definition ADDRESS_SEARCH_LIMIT :: nat where
  "ADDRESS_SEARCH_LIMIT = 10"

definition MULTI_ADDRESS_LIMIT :: nat where
  "MULTI_ADDRESS_LIMIT = 300"

definition TTL_LONG :: nat where
  "TTL_LONG = 157784630"

definition TTL_SHORT :: nat where
  "TTL_SHORT = 10"

definition TTL_MEMPOOL_RECENT :: nat where
  "TTL_MEMPOOL_RECENT = 5"

definition CONF_FINAL :: nat where
  "CONF_FINAL = 10"

definition MAX_BODY_SIZE :: nat where
  "MAX_BODY_SIZE = 1000000"

definition NIP98_WINDOW_SECS :: nat where
  "NIP98_WINDOW_SECS = 60"

section \<open>Errors\<close>

type_synonym http_error = "nat \<times> utext"

definition he_not_found :: "utext \<Rightarrow> http_error" where
  "he_not_found msg = (404, msg)"

definition he_forbidden :: "utext \<Rightarrow> http_error" where
  "he_forbidden msg = (403, msg)"

definition he_from_string :: "utext \<Rightarrow> http_error" where
  "he_from_string msg = (400, msg)"

definition he_from_int :: http_error where
  "he_from_int = he_from_string (lit ''Invalid number'')"

definition he_from_hex :: http_error where
  "he_from_hex = he_from_string (lit ''Invalid hex string'')"

definition he_from_address :: http_error where
  "he_from_address = he_from_string (lit ''Invalid Bitcoin address'')"

definition block_not_found_reply :: string where
  \<open>block_not_found_reply = ''getblock RPC error: {"code":-5,"message":"Block not found"}''\<close>

definition he_from_error :: "error_kind \<Rightarrow> http_error" where
  "he_from_error e =
     (case e of
        DaemonBusy _ \<Rightarrow> (503, error_text e)
      | DaemonUnavailable _ \<Rightarrow> (504, error_text e)
      | Connection msg \<Rightarrow> (504, lit msg)
      | Msg s \<Rightarrow> if s = block_not_found_reply then he_not_found (lit ''Block not found'') else he_from_string (error_text e)
      | _ \<Rightarrow> he_from_string (error_text e))"

definition lift_err :: "(error_kind, 'a) outcome \<Rightarrow> (http_error, 'a) outcome" where
  "lift_err r = (case r of Ok x \<Rightarrow> Ok x | Err e \<Rightarrow> Err (he_from_error e) | Panic s \<Rightarrow> Panic s)"

definition text_err :: "(utext, 'a) outcome \<Rightarrow> (http_error, 'a) outcome" where
  "text_err r = (case r of Ok x \<Rightarrow> Ok x | Err t \<Rightarrow> Err (he_from_string t) | Panic s \<Rightarrow> Panic s)"

definition found :: "string \<Rightarrow> (error_kind, 'a option) outcome \<Rightarrow> (http_error, 'a) outcome" where
  "found msg r = bind_out (lift_err r) (ok_or (he_not_found (lit msg)))"

section \<open>Values\<close>

definition jhash :: "('f, 'g) electrum_lib \<Rightarrow> hash \<Rightarrow> 'g json" where
  "jhash el h = JString (el_show_hash el h)"

definition ju32 :: "u32 \<Rightarrow> 'g json" where
  "ju32 w = jnat (unat w)"

definition ju64 :: "u64 \<Rightarrow> 'g json" where
  "ju64 w = jnat (unat w)"

text \<open>A member that is left out if the value is missing, and one that is null then.\<close>

definition skip_none :: "string \<Rightarrow> ('a \<Rightarrow> 'g json) \<Rightarrow> 'a option \<Rightarrow> (utext \<times> 'g json) list" where
  "skip_none name f v = (case v of Some x \<Rightarrow> [(lit name, f x)] | None \<Rightarrow> [])"

definition or_null :: "('a \<Rightarrow> 'g json) \<Rightarrow> 'a option \<Rightarrow> 'g json" where
  "or_null f v = (case v of Some x \<Rightarrow> f x | None \<Rightarrow> JNull)"

text \<open>The two loops of \<open>difficulty_new\<close>.\<close>

function difficulty_up :: "'g rest_lib \<Rightarrow> nat \<Rightarrow> 'g \<Rightarrow> nat \<times> 'g" where
  "difficulty_up rl n_shift d_diff =
     (if n_shift < 29 then difficulty_up rl (n_shift + 1) (rl_f64_times rl d_diff (rl_f64 rl 256)) else (n_shift, d_diff))"
  by pat_completeness auto
termination
  by (relation "measure (\<lambda>(_, n, _). 29 - n)") auto

function difficulty_down :: "'g rest_lib \<Rightarrow> nat \<Rightarrow> 'g \<Rightarrow> 'g" where
  "difficulty_down rl n_shift d_diff =
     (if 29 < n_shift then difficulty_down rl (n_shift - 1) (rl_f64_div rl d_diff (rl_f64 rl 256)) else d_diff)"
  by pat_completeness auto
termination
  by (relation "measure (\<lambda>(_, n, _). n)") auto

declare difficulty_up.simps [simp del] difficulty_down.simps [simp del]

definition difficulty_new :: "'g rest_lib \<Rightarrow> u32 \<Rightarrow> 'g" where
  "difficulty_new rl bits =
     (let n_shift = unat (and (drop_bit 24 bits) 0xff);
          d_diff = rl_f64_div rl (rl_f64 rl 0xffff) (rl_f64 rl (unat (and bits 0xffffff)))
      in case difficulty_up rl n_shift d_diff of (n, d) \<Rightarrow> difficulty_down rl n d)"

record 'g block_value =
  bv_id :: hash
  bv_height :: u32
  bv_version :: u32
  bv_timestamp :: u32
  bv_tx_count :: u32
  bv_size :: u32
  bv_weight :: u32
  bv_merkle_root :: hash
  bv_previousblockhash :: "hash option"
  bv_mediantime :: u32
  bv_nonce :: u32
  bv_bits :: u32
  bv_difficulty :: 'g

definition block_value_new :: "bitcoin_lib \<Rightarrow> 'g rest_lib \<Rightarrow> block_header_meta \<Rightarrow> 'g block_value" where
  "block_value_new lib rl blockhm =
     (let header = he_header (bhm_header_entry blockhm)
      in \<lparr>bv_id = lib_block_hash lib header,
          bv_height = word_of_nat (he_height (bhm_header_entry blockhm)),
          bv_version = hdr_version header,
          bv_timestamp = hdr_time header,
          bv_tx_count = bm_tx_count (bhm_meta blockhm),
          bv_size = bm_size (bhm_meta blockhm),
          bv_weight = bm_weight (bhm_meta blockhm),
          bv_merkle_root = hdr_merkle_root header,
          bv_previousblockhash = (if hdr_prev_blockhash header \<noteq> null_hash then Some (hdr_prev_blockhash header) else None),
          bv_mediantime = bhm_mtp blockhm,
          bv_nonce = hdr_nonce header,
          bv_bits = hdr_bits header,
          bv_difficulty = difficulty_new rl (hdr_bits header)\<rparr>)"

definition block_value_json :: "('f, 'g) electrum_lib \<Rightarrow> 'g rest_lib \<Rightarrow> 'g block_value \<Rightarrow> 'g json" where
  "block_value_json el rl v =
     JObject
       [(lit ''id'', jhash el (bv_id v)), (lit ''height'', ju32 (bv_height v)), (lit ''version'', ju32 (bv_version v)),
        (lit ''timestamp'', ju32 (bv_timestamp v)), (lit ''tx_count'', ju32 (bv_tx_count v)), (lit ''size'', ju32 (bv_size v)),
        (lit ''weight'', ju32 (bv_weight v)), (lit ''merkle_root'', jhash el (bv_merkle_root v)),
        (lit ''previousblockhash'', or_null (jhash el) (bv_previousblockhash v)), (lit ''mediantime'', ju32 (bv_mediantime v)),
        (lit ''nonce'', ju32 (bv_nonce v)), (lit ''bits'', ju32 (bv_bits v)), (lit ''difficulty'', rl_f64_json rl (bv_difficulty v))]"

section \<open>Scripts\<close>

text \<open>\<open>to_asm\<close> cuts the text \<open>Script(\<dots>)\<close> of the debug format.\<close>

definition to_asm :: "'g rest_lib \<Rightarrow> bytes \<Rightarrow> utext" where
  "to_asm rl script =
     (let asm = lit ''Script('' @ rl_script_asm rl script @ lit '')'' in drop 7 (take (length asm - 1) asm))"

definition to_address_str :: "bitcoin_lib \<Rightarrow> bytes \<Rightarrow> network \<Rightarrow> utext option" where
  "to_address_str lib script net = map_option (map unat) (lib_address lib net script)"

definition is_bare_multisig :: "bytes \<Rightarrow> bool" where
  "is_bare_multisig bs =
     (let len = length bs
      in 37 \<le> len \<and> bs ! (len - 1) = OP_CHECKMULTISIG \<and> 0x51 \<le> bs ! (len - 2) \<and> bs ! (len - 2) \<le> 0x5f
         \<and> 0x51 \<le> bs ! 0 \<and> bs ! 0 \<le> bs ! (len - 2))"

definition is_anchor :: "bytes \<Rightarrow> bool" where
  "is_anchor bs = (length bs = 4 \<and> bs ! 0 = 0x51 \<and> bs ! 1 = 0x02 \<and> bs ! 2 = 0x4e \<and> bs ! 3 = 0x73)"

definition script_type_of :: "bitcoin_lib \<Rightarrow> 'g rest_lib \<Rightarrow> bytes \<Rightarrow> string" where
  "script_type_of lib rl script =
     (if script = [] then ''empty''
      else if is_provably_unspendable lib script then ''op_return''
      else if rl_is_p2pk rl script then ''p2pk''
      else if rl_is_p2pkh rl script then ''p2pkh''
      else if lib_is_p2sh lib script then ''p2sh''
      else if lib_is_p2wpkh lib script then ''v0_p2wpkh''
      else if lib_is_p2wsh lib script then ''v0_p2wsh''
      else if lib_is_p2tr lib script then ''v1_p2tr''
      else if is_anchor script then ''anchor''
      else if is_bare_multisig script then ''multisig''
      else ''unknown'')"

record tx_out_value =
  tov_scriptpubkey :: bytes
  tov_scriptpubkey_asm :: utext
  tov_scriptpubkey_type :: string
  tov_scriptpubkey_address :: "utext option"
  tov_value :: u64

definition tx_out_value_new :: "bitcoin_lib \<Rightarrow> 'g rest_lib \<Rightarrow> rest_config \<Rightarrow> tx_out \<Rightarrow> tx_out_value" where
  "tx_out_value_new lib rl cfg txout =
     (let script = txo_script_pubkey txout
      in \<lparr>tov_scriptpubkey = script, tov_scriptpubkey_asm = to_asm rl script, tov_scriptpubkey_type = script_type_of lib rl script,
          tov_scriptpubkey_address = to_address_str lib script (rc_network_type cfg), tov_value = txo_value txout\<rparr>)"

definition tx_out_value_json :: "tx_out_value \<Rightarrow> 'g json" where
  "tx_out_value_json v =
     JObject
       ([(lit ''scriptpubkey'', JString (hex_encode (tov_scriptpubkey v))), (lit ''scriptpubkey_asm'', JString (tov_scriptpubkey_asm v)),
         (lit ''scriptpubkey_type'', jtext (tov_scriptpubkey_type v))]
        @ skip_none ''scriptpubkey_address'' JString (tov_scriptpubkey_address v)
        @ [(lit ''value'', ju64 (tov_value v))])"

section \<open>Transactions\<close>

record tx_in_value =
  iv_txid :: hash
  iv_vout :: u32
  iv_prevout :: "tx_out_value option"
  iv_scriptsig :: bytes
  iv_scriptsig_asm :: utext
  iv_witness :: "utext list option"
  iv_is_coinbase :: bool
  iv_sequence :: u32
  iv_inner_redeemscript_asm :: "utext option"
  iv_inner_witnessscript_asm :: "utext option"

definition tx_in_value_new :: "bitcoin_lib \<Rightarrow> 'g rest_lib \<Rightarrow> rest_config \<Rightarrow> tx_in \<Rightarrow> tx_out option \<Rightarrow> tx_in_value" where
  "tx_in_value_new lib rl cfg txin prevout =
     (let witness = (if txi_witness txin \<noteq> [] then Some (map hex_encode (txi_witness txin)) else None);
          innerscripts = map_option (get_innerscripts lib txin) prevout
      in \<lparr>iv_txid = op_txid (txi_previous_output txin), iv_vout = op_vout (txi_previous_output txin),
          iv_prevout = map_option (tx_out_value_new lib rl cfg) prevout,
          iv_scriptsig = txi_script_sig txin, iv_scriptsig_asm = to_asm rl (txi_script_sig txin), iv_witness = witness,
          iv_is_coinbase = is_coinbase lib txin, iv_sequence = txi_sequence txin,
          iv_inner_redeemscript_asm = map_option (to_asm rl) (Option.bind innerscripts is_redeem_script),
          iv_inner_witnessscript_asm = map_option (to_asm rl) (Option.bind innerscripts is_witness_script)\<rparr>)"

definition tx_in_value_json :: "('f, 'g) electrum_lib \<Rightarrow> tx_in_value \<Rightarrow> 'g json" where
  "tx_in_value_json el v =
     JObject
       ([(lit ''txid'', jhash el (iv_txid v)), (lit ''vout'', ju32 (iv_vout v)), (lit ''prevout'', or_null tx_out_value_json (iv_prevout v)),
         (lit ''scriptsig'', JString (hex_encode (iv_scriptsig v))), (lit ''scriptsig_asm'', JString (iv_scriptsig_asm v))]
        @ skip_none ''witness'' (\<lambda>ws. JArray (map JString ws)) (iv_witness v)
        @ [(lit ''is_coinbase'', JBool (iv_is_coinbase v)), (lit ''sequence'', ju32 (iv_sequence v))]
        @ skip_none ''inner_redeemscript_asm'' JString (iv_inner_redeemscript_asm v)
        @ skip_none ''inner_witnessscript_asm'' JString (iv_inner_witnessscript_asm v))"

definition status_json :: "('f, 'g) electrum_lib \<Rightarrow> transaction_status \<Rightarrow> 'g json" where
  "status_json el st =
     JObject
       ([(lit ''confirmed'', JBool (ts_confirmed st))] @ skip_none ''block_height'' jnat (ts_block_height st)
        @ skip_none ''block_hash'' (jhash el) (ts_block_hash st) @ skip_none ''block_time'' ju32 (ts_block_time st))"

record transaction_value =
  tv_txid :: hash
  tv_version :: u32
  tv_locktime :: u32
  tv_vin :: "tx_in_value list"
  tv_vout :: "tx_out_value list"
  tv_size :: u32
  tv_weight :: u32
  tv_sigops :: u32
  tv_fee :: u64
  tv_status :: "transaction_status option"

definition transaction_value_new ::
  "bitcoin_lib \<Rightarrow> 'g rest_lib \<Rightarrow> rest_config \<Rightarrow> transaction \<Rightarrow> block_id option \<Rightarrow> (out_point \<rightharpoonup> tx_out)
    \<Rightarrow> (error_kind, transaction_value) outcome"
where
  "transaction_value_new lib rl cfg tx blockid txos =
     bind_out (extract_tx_prevouts lib tx txos) (\<lambda>prevouts.
     bind_out (chain_err ''Couldn't count sigops'' (transaction_sigop_count lib tx (map_of prevouts))) (\<lambda>sigops.
     Ok \<lparr>tv_txid = get_txid lib tx, tv_version = tx_version tx, tv_locktime = tx_lock_time tx,
         tv_vin = map (\<lambda>(index, txin). tx_in_value_new lib rl cfg txin (map_of prevouts (word_of_nat index))) (enumerate 0 (tx_input tx)),
         tv_vout = map (tx_out_value_new lib rl cfg) (tx_output tx),
         tv_size = word_of_nat (rl_total_size rl tx), tv_weight = ucast (lib_tx_weight lib tx), tv_sigops = word_of_nat sigops,
         tv_fee = get_tx_fee lib tx prevouts, tv_status = Some (transaction_status_from blockid)\<rparr>))"

definition transaction_value_json :: "('f, 'g) electrum_lib \<Rightarrow> transaction_value \<Rightarrow> 'g json" where
  "transaction_value_json el v =
     JObject
       ([(lit ''txid'', jhash el (tv_txid v)), (lit ''version'', ju32 (tv_version v)), (lit ''locktime'', ju32 (tv_locktime v)),
         (lit ''vin'', JArray (map (tx_in_value_json el) (tv_vin v))), (lit ''vout'', JArray (map tx_out_value_json (tv_vout v))),
         (lit ''size'', ju32 (tv_size v)), (lit ''weight'', ju32 (tv_weight v)), (lit ''sigops'', ju32 (tv_sigops v)),
         (lit ''fee'', ju64 (tv_fee v))]
        @ skip_none ''status'' (status_json el) (tv_status v))"

text \<open>Transactions whose previous outputs are missing are left out.\<close>

definition prepare_txs ::
  "'d rocks \<Rightarrow> bitcoin_lib \<Rightarrow> 'g rest_lib \<Rightarrow> rest_config \<Rightarrow> ('d, 'f, 'g) query \<Rightarrow> (transaction \<times> block_id option) list
    \<Rightarrow> (error_kind, transaction_value list) outcome"
where
  "prepare_txs rk lib rl cfg q txs =
     (let outpoints = remdups (concat (map (\<lambda>(tx, _). map txi_previous_output (filter (has_prevout lib) (tx_input tx))) txs))
      in bind_out (query_lookup_txos rk lib q outpoints) (\<lambda>prevouts.
         filter_map_out (\<lambda>(tx, blockid). ok_opt (transaction_value_new lib rl cfg tx blockid prevouts)) txs))"

definition transactions_as_json ::
  "'d rocks \<Rightarrow> bitcoin_lib \<Rightarrow> ('f, 'g) electrum_lib \<Rightarrow> 'g rest_lib \<Rightarrow> rest_config \<Rightarrow> ('d, 'f, 'g) query
    \<Rightarrow> (transaction \<times> block_id option) list \<Rightarrow> (error_kind, 'g json list) outcome"
where
  "transactions_as_json rk lib el rl cfg q txs = map_out (map (transaction_value_json el)) (prepare_txs rk lib rl cfg q txs)"

section \<open>Outputs, spends, statistics\<close>

record utxo_value =
  uv_txid :: hash
  uv_vout :: u32
  uv_status :: transaction_status
  uv_value :: u64

definition utxo_value_from :: "utxo_entry \<Rightarrow> utxo_value" where
  "utxo_value_from u =
     \<lparr>uv_txid = ux_txid u, uv_vout = ux_vout u, uv_status = transaction_status_from (ux_confirmed u), uv_value = ux_value u\<rparr>"

definition utxo_value_json :: "('f, 'g) electrum_lib \<Rightarrow> utxo_value \<Rightarrow> 'g json" where
  "utxo_value_json el v =
     JObject [(lit ''txid'', jhash el (uv_txid v)), (lit ''vout'', ju32 (uv_vout v)), (lit ''status'', status_json el (uv_status v)),
       (lit ''value'', ju64 (uv_value v))]"

record spending_value =
  sv_spent :: bool
  sv_txid :: "hash option"
  sv_vin :: "u32 option"
  sv_status :: "transaction_status option"

definition spending_default :: spending_value where
  "spending_default = \<lparr>sv_spent = False, sv_txid = None, sv_vin = None, sv_status = None\<rparr>"

definition spending_value_from :: "spending_input \<Rightarrow> spending_value" where
  "spending_value_from spend =
     \<lparr>sv_spent = True, sv_txid = Some (si_txid spend), sv_vin = Some (si_vin spend),
      sv_status = Some (transaction_status_from (si_confirmed spend))\<rparr>"

definition spending_of :: "spending_input option \<Rightarrow> spending_value" where
  "spending_of spend = (case spend of None \<Rightarrow> spending_default | Some s \<Rightarrow> spending_value_from s)"

definition spending_value_json :: "('f, 'g) electrum_lib \<Rightarrow> spending_value \<Rightarrow> 'g json" where
  "spending_value_json el v =
     JObject
       ([(lit ''spent'', JBool (sv_spent v))] @ skip_none ''txid'' (jhash el) (sv_txid v) @ skip_none ''vin'' ju32 (sv_vin v)
        @ skip_none ''status'' (status_json el) (sv_status v))"

definition script_stats_json :: "script_stats \<Rightarrow> 'g json" where
  "script_stats_json s =
     JObject [(lit ''tx_count'', ju64 (st_tx_count s)), (lit ''funded_txo_count'', ju64 (st_funded_txo_count s)),
       (lit ''spent_txo_count'', ju64 (st_spent_txo_count s)), (lit ''funded_txo_sum'', ju64 (st_funded_txo_sum s)),
       (lit ''spent_txo_sum'', ju64 (st_spent_txo_sum s))]"

definition block_status_json :: "('f, 'g) electrum_lib \<Rightarrow> block_status \<Rightarrow> 'g json" where
  "block_status_json el s =
     JObject [(lit ''in_best_chain'', JBool (bs_in_best_chain s)), (lit ''height'', or_null jnat (bs_height s)),
       (lit ''next_best'', or_null (jhash el) (bs_next_best s))]"

definition summary_json :: "('f, 'g) electrum_lib \<Rightarrow> tx_history_summary \<Rightarrow> 'g json" where
  "summary_json el s =
     JObject [(lit ''txid'', jhash el (ths_txid s)), (lit ''height'', jnat (ths_height s)), (lit ''value'', jint (ths_value s)),
       (lit ''time'', ju32 (ths_time s)), (lit ''tx_position'', jnat (unat (ths_tx_position s)))]"

definition tx_overview_json :: "('f, 'g) electrum_lib \<Rightarrow> tx_overview \<Rightarrow> 'g json" where
  "tx_overview_json el t =
     JObject [(lit ''txid'', jhash el (ov_txid t)), (lit ''fee'', ju64 (ov_fee t)), (lit ''vsize'', ju32 (ov_vsize t)),
       (lit ''value'', ju64 (ov_value t))]"

definition backlog_json :: "('f, 'g) electrum_lib \<Rightarrow> 'f backlog_stats \<Rightarrow> 'g json" where
  "backlog_json el b =
     JObject [(lit ''count'', ju32 (bl_count b)), (lit ''vsize'', ju32 (bl_vsize b)), (lit ''total_fee'', ju64 (bl_total_fee b)),
       (lit ''fee_histogram'', JArray (map (\<lambda>(rate, vsize). JArray [el_rate_json el rate, ju32 vsize]) (bl_fee_histogram b)))]"

section \<open>Helpers of the handlers\<close>

definition ttl_by_depth :: "nat option \<Rightarrow> ('d, 'f, 'g) query \<Rightarrow> nat" where
  "ttl_by_depth h q =
     (case h of
        None \<Rightarrow> TTL_SHORT
      | Some height \<Rightarrow> if CONF_FINAL \<le> usize_sub (best_height (q_chain q)) height then TTL_LONG else TTL_SHORT)"

datatype txid_location = InMempool | InChain u32 | Nowhere

definition find_txid :: "'d rocks \<Rightarrow> hash \<Rightarrow> ('d, 'f, 'g) query \<Rightarrow> (error_kind, txid_location) outcome" where
  "find_txid rk txid q =
     (if mempool_lookup_txn (q_mempool q) txid \<noteq> None then Ok InMempool
      else map_out (\<lambda>block. case block of Some b \<Rightarrow> InChain (word_of_nat (bid_height b)) | None \<Rightarrow> Nowhere)
             (tx_confirming_block rk (q_chain q) txid))"

definition confirmed_after_txid :: "txid_location \<Rightarrow> hash option \<Rightarrow> hash option" where
  "confirmed_after_txid location after_txid =
     (case location of InMempool \<Rightarrow> None | Nowhere \<Rightarrow> None | InChain _ \<Rightarrow> after_txid)"

definition clamp_query_max_txs :: "(utext \<rightharpoonup> utext) \<Rightarrow> nat \<Rightarrow> nat" where
  "clamp_query_max_txs query_params cap =
     min cap (case Option.bind (query_params (lit ''max_txs'')) parse_usize of Some n \<Rightarrow> n | None \<Rightarrow> cap)"

definition testnet_family :: "network list" where
  "testnet_family = [Testnet, Regtest, Signet, Testnet4]"

definition address_to_scripthash :: "bitcoin_lib \<Rightarrow> 'g rest_lib \<Rightarrow> utext \<Rightarrow> network \<Rightarrow> (http_error, hash) outcome" where
  "address_to_scripthash lib rl addr net =
     bind_out (ok_or he_from_address (rl_parse_address rl addr)) (\<lambda>require_network.
     bind_out
       (ok_or (he_from_string (lit ''Address on invalid network''))
         (if net \<in> set testnet_family then first_opt (List.map_filter require_network testnet_family) else require_network net))
       (\<lambda>script_pubkey. Ok (compute_script_hash lib script_pubkey)))"

definition parse_scripthash :: "'g rest_lib \<Rightarrow> utext \<Rightarrow> (http_error, hash) outcome" where
  "parse_scripthash rl scripthash =
     bind_out (ok_or he_from_hex (rl_decode_hex rl scripthash)) (\<lambda>bs.
     if length bs \<noteq> 32 then Err (he_from_string (lit ''Invalid scripthash'')) else lift_err (full_hash bs))"

definition to_scripthash :: "bitcoin_lib \<Rightarrow> 'g rest_lib \<Rightarrow> utext \<Rightarrow> utext \<Rightarrow> network \<Rightarrow> (http_error, hash) outcome" where
  "to_scripthash lib rl script_type script_str net =
     (if script_type = lit ''address'' then address_to_scripthash lib rl script_str net
      else if script_type = lit ''scripthash'' then parse_scripthash rl script_str
      else Err (he_from_string (lit ''Invalid script type'')))"

definition multi_address_too_long :: "bytes \<Rightarrow> bool" where
  "multi_address_too_long body \<longleftrightarrow> (8 + 64) * MULTI_ADDRESS_LIMIT < length body"

definition mining_rest_disabled_error :: "bool \<Rightarrow> http_error option" where
  "mining_rest_disabled_error enable_mining_rest =
     (if enable_mining_rest then None else Some (he_forbidden (lit ''mining REST endpoints are disabled'')))"

text \<open>\<open>str::parse\<close> for \<open>u32\<close>.\<close>

definition parse_u32 :: "utext \<Rightarrow> u32 option" where
  "parse_u32 s = (case parse_usize s of Some n \<Rightarrow> if n < 2 ^ 32 then Some (word_of_nat n) else None | None \<Rightarrow> None)"

end
