(* ===== verification/Rest.thy ===== *)
theory Rest
  imports Rest_Values
begin

text \<open>
  The handlers of the HTTP interface and their dispatch (\<^verbatim>\<open>handle_request\<close> in \<^verbatim>\<open>src/rest.rs\<close>). A handler returns
  a response or an error; those that change the query (a cache, the mempool) return the query too. A
  response is its status, its headers and its body before serialisation. The path is the list of its
  segments and the parameters a map.
\<close>

section \<open>Responses\<close>

datatype verb = Get | Post | OtherVerb utext

datatype 'g body = JsonBody "'g json" | TextBody utext | RawBody bytes | NoBody

record 'g response =
  rs_status :: nat
  rs_headers :: "(string \<times> utext) list"
  rs_body :: "'g body"

record ('d, 'f, 'g) rest_ctx =
  cx_rk :: "'d rocks"
  cx_lib :: bitcoin_lib
  cx_fdiv :: "u64 \<Rightarrow> u64 \<Rightarrow> 'f f32"
  cx_el :: "('f, 'g) electrum_lib"
  cx_rl :: "'g rest_lib"
  cx_cfg :: rest_config
  cx_node :: "'g query_node"
  cx_now :: int
  cx_json_error :: "utext \<Rightarrow> utext"

type_synonym 'g handled = "(http_error, 'g response) outcome"

definition max_age :: "nat \<Rightarrow> string \<times> utext" where
  "max_age ttl = (''Cache-Control'', lit ''public, max-age='' @ show_nat ttl)"

definition http_message :: "nat \<Rightarrow> utext \<Rightarrow> nat \<Rightarrow> 'g handled" where
  "http_message status message ttl =
     Ok \<lparr>rs_status = status, rs_headers = [(''Content-Type'', lit ''text/plain''), max_age ttl], rs_body = TextBody message\<rparr>"

definition json_response :: "'g json \<Rightarrow> nat \<Rightarrow> 'g handled" where
  "json_response v ttl =
     Ok \<lparr>rs_status = 200, rs_headers = [(''Content-Type'', lit ''application/json''), max_age ttl], rs_body = JsonBody v\<rparr>"

definition json_response_no_store :: "'g json \<Rightarrow> 'g handled" where
  "json_response_no_store v =
     Ok \<lparr>rs_status = 200, rs_headers = [(''Content-Type'', lit ''application/json''), (''Cache-Control'', lit ''no-store'')],
         rs_body = JsonBody v\<rparr>"

definition raw_response :: "string \<Rightarrow> 'g body \<Rightarrow> nat \<Rightarrow> 'g handled" where
  "raw_response content_type b ttl =
     Ok \<lparr>rs_status = 200, rs_headers = [(''Content-Type'', lit content_type), max_age ttl], rs_body = b\<rparr>"

definition show_hash :: "('d, 'f, 'g) rest_ctx \<Rightarrow> hash \<Rightarrow> utext" where
  "show_hash cx h = el_show_hash (cx_el cx) h"

definition parse_hash :: "('d, 'f, 'g) rest_ctx \<Rightarrow> utext \<Rightarrow> (http_error, hash) outcome" where
  "parse_hash cx s = text_err (rl_parse_hash (cx_rl cx) s)"

definition parse_hash_opt :: "('d, 'f, 'g) rest_ctx \<Rightarrow> utext option \<Rightarrow> (http_error, hash option) outcome" where
  "parse_hash_opt cx s = (case s of None \<Rightarrow> Ok None | Some t \<Rightarrow> ok_opt (parse_hash cx t))"

definition json_txs ::
  "('d, 'f, 'g) rest_ctx \<Rightarrow> ('d, 'f, 'g) query \<Rightarrow> (transaction \<times> block_id option) list \<Rightarrow> nat \<Rightarrow> 'g handled"
where
  "json_txs cx q txs ttl =
     bind_out (lift_err (prepare_txs (cx_rk cx) (cx_lib cx) (cx_rl cx) (cx_cfg cx) q txs)) (\<lambda>vs.
     json_response (JArray (map (transaction_value_json (cx_el cx)) vs)) ttl)"

section \<open>Blocks\<close>

definition ep_tip_hash :: "('d, 'f, 'g) rest_ctx \<Rightarrow> ('d, 'f, 'g) query \<Rightarrow> 'g handled" where
  "ep_tip_hash cx q = bind_out (lift_err (best_hash (q_chain q))) (\<lambda>h. http_message 200 (show_hash cx h) TTL_SHORT)"

definition ep_tip_height :: "('d, 'f, 'g) query \<Rightarrow> 'g handled" where
  "ep_tip_height q = http_message 200 (show_nat (best_height (q_chain q))) TTL_SHORT"

definition handle_block_template :: "('d, 'f, 'g) rest_ctx \<Rightarrow> 'g handled" where
  "handle_block_template cx =
     (case mining_rest_disabled_error (rc_enable_mining_rest (cx_cfg cx)) of
        Some err \<Rightarrow> Err err
      | None \<Rightarrow> bind_out (lift_err (rl_getblocktemplate (cx_rl cx))) json_response_no_store)"

fun blocks_loop :: "('d, 'f, 'g) rest_ctx \<Rightarrow> ('d, 'f, 'g) query \<Rightarrow> nat \<Rightarrow> hash \<Rightarrow> (http_error, 'g block_value list) outcome" where
  "blocks_loop cx q 0 current_hash = Ok []"
| "blocks_loop cx q (Suc n) current_hash =
     bind_out (found ''Block not found'' (get_block_with_meta (cx_rk cx) (q_chain q) current_hash)) (\<lambda>blockhm.
     let prev = hdr_prev_blockhash (he_header (bhm_header_entry blockhm));
         v = block_value_new (cx_lib cx) (cx_rl cx) blockhm
     in if prev = null_hash then Ok [v] else map_out (Cons v) (blocks_loop cx q n prev))"

definition blocks :: "('d, 'f, 'g) rest_ctx \<Rightarrow> ('d, 'f, 'g) query \<Rightarrow> nat option \<Rightarrow> 'g handled" where
  "blocks cx q start_height =
     bind_out
       (case start_height of
          Some h \<Rightarrow> map_out he_hash (found ''Block not found'' (cq_header_by_height (q_chain q) h))
        | None \<Rightarrow> lift_err (best_hash (q_chain q)))
       (\<lambda>current_hash.
     bind_out (blocks_loop cx q (rc_default_block_limit (cx_cfg cx)) current_hash) (\<lambda>values.
     json_response (JArray (map (block_value_json (cx_el cx) (cx_rl cx)) values)) TTL_SHORT))"

definition ep_block_height :: "('d, 'f, 'g) rest_ctx \<Rightarrow> ('d, 'f, 'g) query \<Rightarrow> utext \<Rightarrow> 'g handled" where
  "ep_block_height cx q h =
     bind_out (ok_or he_from_int (parse_usize h)) (\<lambda>height.
     bind_out (found ''Block not found'' (cq_header_by_height (q_chain q) height)) (\<lambda>header.
     http_message 200 (show_hash cx (he_hash header)) (ttl_by_depth (Some height) q)))"

definition ep_block :: "('d, 'f, 'g) rest_ctx \<Rightarrow> ('d, 'f, 'g) query \<Rightarrow> utext \<Rightarrow> 'g handled" where
  "ep_block cx q s =
     bind_out (parse_hash cx s) (\<lambda>h.
     bind_out (found ''Block not found'' (get_block_with_meta (cx_rk cx) (q_chain q) h)) (\<lambda>blockhm.
     json_response (block_value_json (cx_el cx) (cx_rl cx) (block_value_new (cx_lib cx) (cx_rl cx) blockhm)) TTL_LONG))"

definition ep_block_status :: "('d, 'f, 'g) rest_ctx \<Rightarrow> ('d, 'f, 'g) query \<Rightarrow> utext \<Rightarrow> 'g handled" where
  "ep_block_status cx q s =
     bind_out (parse_hash cx s) (\<lambda>h.
     bind_out (lift_err (get_block_status (q_chain q) h)) (\<lambda>status.
     json_response (block_status_json (cx_el cx) status) (ttl_by_depth (bs_height status) q)))"

definition block_txids :: "('d, 'f, 'g) rest_ctx \<Rightarrow> ('d, 'f, 'g) query \<Rightarrow> hash \<Rightarrow> (http_error, hash list) outcome" where
  "block_txids cx q h = found ''Block not found'' (get_block_txids (cx_rk cx) (cx_lib cx) (q_chain q) h)"

definition ep_block_txids :: "('d, 'f, 'g) rest_ctx \<Rightarrow> ('d, 'f, 'g) query \<Rightarrow> utext \<Rightarrow> 'g handled" where
  "ep_block_txids cx q s =
     bind_out (parse_hash cx s) (\<lambda>h.
     bind_out (block_txids cx q h) (\<lambda>txids. json_response (JArray (map (jhash (cx_el cx)) txids)) TTL_LONG))"

definition ep_internal_block_txs :: "('d, 'f, 'g) rest_ctx \<Rightarrow> ('d, 'f, 'g) query \<Rightarrow> utext \<Rightarrow> 'g handled" where
  "ep_internal_block_txs cx q s =
     bind_out (parse_hash cx s) (\<lambda>h.
     let block_id = blockid_by_hash (q_chain q) h in
     bind_out (found ''Block not found'' (get_block_txs (cx_rk cx) (cx_lib cx) (q_chain q) h)) (\<lambda>txs.
     json_txs cx q (map (\<lambda>tx. (tx, block_id)) txs) (ttl_by_depth (map_option bid_height block_id) q)))"

definition ep_block_header :: "('d, 'f, 'g) rest_ctx \<Rightarrow> ('d, 'f, 'g) query \<Rightarrow> utext \<Rightarrow> 'g handled" where
  "ep_block_header cx q s =
     bind_out (parse_hash cx s) (\<lambda>h.
     bind_out (ok_or (he_not_found (lit ''Block not found'')) (get_block_header (q_chain q) h)) (\<lambda>header.
     http_message 200 (hex_encode (lib_serialize_header (cx_lib cx) header)) TTL_LONG))"

definition ep_block_raw :: "('d, 'f, 'g) rest_ctx \<Rightarrow> ('d, 'f, 'g) query \<Rightarrow> utext \<Rightarrow> 'g handled" where
  "ep_block_raw cx q s =
     bind_out (parse_hash cx s) (\<lambda>h.
     bind_out (found ''Block not found'' (get_block_raw (cx_rk cx) (cx_lib cx) (rl_varint (cx_rl cx)) (q_chain q) h)) (\<lambda>raw.
     raw_response ''application/octet-stream'' (RawBody raw) TTL_LONG))"

definition ep_block_txid :: "('d, 'f, 'g) rest_ctx \<Rightarrow> ('d, 'f, 'g) query \<Rightarrow> utext \<Rightarrow> utext \<Rightarrow> 'g handled" where
  "ep_block_txid cx q s i =
     bind_out (parse_hash cx s) (\<lambda>h.
     bind_out (ok_or he_from_int (parse_usize i)) (\<lambda>index.
     bind_out (block_txids cx q h) (\<lambda>txids.
     if length txids \<le> index then Err (he_not_found (lit ''tx index out of range''))
     else http_message 200 (show_hash cx (txids ! index)) TTL_LONG)))"

text \<open>The page of a block: its transactions with the block if it is in the best chain.\<close>

definition block_page ::
  "('d, 'f, 'g) rest_ctx \<Rightarrow> ('d, 'f, 'g) query \<Rightarrow> hash \<Rightarrow> nat \<Rightarrow> (http_error, (transaction \<times> block_id option) list) outcome"
where
  "block_page cx q h start_index =
     bind_out (block_txids cx q h) (\<lambda>txids.
     let per_page = rc_default_chain_txs_per_page (cx_cfg cx) in
     if length txids \<le> start_index then Err (he_not_found (lit ''start index out of range''))
     else if \<not> per_page dvd start_index
     then Err (he_from_string (lit ''start index must be a multipication of '' @ show_nat per_page))
     else collect_out
            (\<lambda>txid. bind_out (lift_err (query_lookup_txn (cx_rk cx) (cx_lib cx) q txid)) (\<lambda>tx.
                     case tx of Some t \<Rightarrow> Ok (t, blockid_by_hash (q_chain q) h) | None \<Rightarrow> Err (he_from_string (lit ''missing tx''))))
            (take per_page (drop start_index txids)))"

definition ep_block_txs :: "('d, 'f, 'g) rest_ctx \<Rightarrow> ('d, 'f, 'g) query \<Rightarrow> utext \<Rightarrow> utext option \<Rightarrow> 'g handled" where
  "ep_block_txs cx q s start =
     bind_out (parse_hash cx s) (\<lambda>h.
     let start_index = (case Option.bind start parse_u32 of Some n \<Rightarrow> unat n | None \<Rightarrow> 0) in
     bind_out (block_page cx q h start_index) (\<lambda>txs.
     json_txs cx q txs (ttl_by_depth (map_option bid_height (blockid_by_hash (q_chain q) h)) q)))"

section \<open>Scripts\<close>

text \<open>The handlers that change the query.\<close>

definition run_query ::
  "('d, 'f, 'g) query \<Rightarrow> (error_kind, 'a \<times> ('d, 'f, 'g) query) outcome \<Rightarrow> ('a \<Rightarrow> 'g handled) \<Rightarrow> 'g handled \<times> ('d, 'f, 'g) query"
where
  "run_query q r f = (case r of Ok (x, q') \<Rightarrow> (f x, q') | Err e \<Rightarrow> (Err (he_from_error e), q) | Panic s \<Rightarrow> (Panic s, q))"

definition with_script ::
  "('d, 'f, 'g) rest_ctx \<Rightarrow> ('d, 'f, 'g) query \<Rightarrow> utext \<Rightarrow> utext \<Rightarrow> (hash \<Rightarrow> 'g handled \<times> ('d, 'f, 'g) query)
    \<Rightarrow> 'g handled \<times> ('d, 'f, 'g) query"
where
  "with_script cx q script_type script_str f =
     (case to_scripthash (cx_lib cx) (cx_rl cx) script_type script_str (rc_network_type (cx_cfg cx)) of
        Ok sh \<Rightarrow> f sh | Err e \<Rightarrow> (Err e, q) | Panic s \<Rightarrow> (Panic s, q))"

definition ep_script_stats ::
  "('d, 'f, 'g) rest_ctx \<Rightarrow> ('d, 'f, 'g) query \<Rightarrow> utext \<Rightarrow> utext \<Rightarrow> 'g handled \<times> ('d, 'f, 'g) query"
where
  "ep_script_stats cx q script_type script_str =
     with_script cx q script_type script_str (\<lambda>sh.
       run_query q (query_stats (cx_rk cx) (cx_lib cx) q sh) (\<lambda>(chain_stats, mempool_stats).
         json_response (JObject [(script_type, JString script_str), (lit ''chain_stats'', script_stats_json chain_stats),
           (lit ''mempool_stats'', script_stats_json mempool_stats)]) TTL_SHORT))"

text \<open>Pages of confirmed transactions are put in the order of the chain, latest first.\<close>

type_synonym confirmed_tx = "transaction \<times> block_id \<times> u16"

definition sort_confirmed :: "confirmed_tx list \<Rightarrow> confirmed_tx list" where
  "sort_confirmed = sort_key (\<lambda>(_, blockid, tx_position). (- int (bid_height blockid), - uint tx_position))"

definition collect_confirmed ::
  "(error_kind, (error_kind, confirmed_tx) outcome list) outcome \<Rightarrow> (http_error, (transaction \<times> block_id option) list) outcome"
where
  "collect_confirmed r =
     map_out (\<lambda>confirmed. map (\<lambda>(tx, blockid, _). (tx, Some blockid)) (sort_confirmed confirmed))
       (lift_err (bind_out r (collect_out (\<lambda>x. x))))"

definition locate ::
  "('d, 'f, 'g) rest_ctx \<Rightarrow> ('d, 'f, 'g) query \<Rightarrow> hash option \<Rightarrow> (http_error, txid_location) outcome"
where
  "locate cx q after_txid =
     bind_out (case after_txid of Some txid \<Rightarrow> lift_err (find_txid (cx_rk cx) txid q) | None \<Rightarrow> Ok InMempool) (\<lambda>location.
     if location = Nowhere then Err (422, lit ''after_txid not found'') else Ok location)"

definition location_height :: "txid_location \<Rightarrow> u32 option" where
  "location_height location = (case location of InChain h \<Rightarrow> Some h | _ \<Rightarrow> None)"

definition txs_after ::
  "('d, 'f, 'g) rest_ctx \<Rightarrow> ('d, 'f, 'g) query \<Rightarrow> nat \<Rightarrow> hash option
    \<Rightarrow> (hash option \<Rightarrow> nat \<Rightarrow> (error_kind, transaction list) outcome)
    \<Rightarrow> (hash option \<Rightarrow> u32 option \<Rightarrow> nat \<Rightarrow> (error_kind, (error_kind, confirmed_tx) outcome list) outcome)
    \<Rightarrow> (http_error, (transaction \<times> block_id option) list) outcome"
where
  "txs_after cx q max_txs after_txid mempool_part chain_part =
     bind_out (locate cx q after_txid) (\<lambda>location.
     bind_out
       (if location = InMempool then map_out (map (\<lambda>tx. (tx, None))) (lift_err (mempool_part after_txid max_txs)) else Ok [])
       (\<lambda>txs.
     if length txs < max_txs
     then map_out (\<lambda>confirmed. txs @ confirmed)
            (collect_confirmed (chain_part (confirmed_after_txid location after_txid) (location_height location) (max_txs - length txs)))
     else Ok txs))"

definition script_txs ::
  "('d, 'f, 'g) rest_ctx \<Rightarrow> ('d, 'f, 'g) query \<Rightarrow> hash \<Rightarrow> nat \<Rightarrow> hash option
    \<Rightarrow> (http_error, (transaction \<times> block_id option) list) outcome"
where
  "script_txs cx q sh max_txs after_txid =
     txs_after cx q max_txs after_txid (mempool_history (q_mempool q) sh) (history (cx_rk cx) (cx_lib cx) (q_chain q) sh)"

definition after_param :: "('d, 'f, 'g) rest_ctx \<Rightarrow> (utext \<rightharpoonup> utext) \<Rightarrow> (http_error, hash option) outcome" where
  "after_param cx params = parse_hash_opt cx (params (lit ''after_txid''))"

definition ep_script_txs ::
  "('d, 'f, 'g) rest_ctx \<Rightarrow> ('d, 'f, 'g) query \<Rightarrow> (utext \<rightharpoonup> utext) \<Rightarrow> hash \<Rightarrow> 'g handled"
where
  "ep_script_txs cx q params sh =
     bind_out (after_param cx params) (\<lambda>after_txid.
     bind_out (script_txs cx q sh (clamp_query_max_txs params (rc_default_max_mempool_txs (cx_cfg cx))) after_txid) (\<lambda>txs.
     json_txs cx q txs TTL_SHORT))"

text \<open>The script hashes in the body of a request; those that do not parse are left out.\<close>

definition script_types :: "utext \<Rightarrow> utext" where
  "script_types ts =
     (if ts = lit ''addresses'' then lit ''address'' else if ts = lit ''scripthashes'' then lit ''scripthash'' else [])"

definition body_scripts :: "('d, 'f, 'g) rest_ctx \<Rightarrow> utext \<Rightarrow> bytes \<Rightarrow> (http_error, hash list) outcome" where
  "body_scripts cx ts body =
     (if multi_address_too_long body then Err (422, lit ''body too long'')
      else bind_out (text_err (rl_json_strings (cx_rl cx) body)) (\<lambda>strs.
           if MULTI_ADDRESS_LIMIT < length strs then Err (422, lit ''body too long'')
           else filter_map_out
                  (\<lambda>s. ok_opt (to_scripthash (cx_lib cx) (cx_rl cx) (script_types ts) s (rc_network_type (cx_cfg cx)))) strs))"

definition ep_scripts_txs ::
  "('d, 'f, 'g) rest_ctx \<Rightarrow> ('d, 'f, 'g) query \<Rightarrow> (utext \<rightharpoonup> utext) \<Rightarrow> utext \<Rightarrow> bytes \<Rightarrow> 'g handled"
where
  "ep_scripts_txs cx q params ts body =
     bind_out (body_scripts cx ts body) (\<lambda>shs.
     bind_out (after_param cx params) (\<lambda>after_txid.
     bind_out
       (txs_after cx q (clamp_query_max_txs params (rc_default_max_mempool_txs (cx_cfg cx))) after_txid
          (mempool_history_group (q_mempool q) shs) (history_group (cx_rk cx) (cx_lib cx) (q_chain q) shs))
       (\<lambda>txs. json_txs cx q txs TTL_SHORT)))"

definition ep_script_txs_chain ::
  "('d, 'f, 'g) rest_ctx \<Rightarrow> ('d, 'f, 'g) query \<Rightarrow> (utext \<rightharpoonup> utext) \<Rightarrow> hash \<Rightarrow> utext option \<Rightarrow> 'g handled"
where
  "ep_script_txs_chain cx q params sh last_seen =
     bind_out (parse_hash_opt cx last_seen) (\<lambda>last_seen_txid.
     bind_out
       (collect_confirmed (history (cx_rk cx) (cx_lib cx) (q_chain q) sh last_seen_txid None
          (clamp_query_max_txs params (rc_default_chain_txs_per_page (cx_cfg cx)))))
       (\<lambda>txs. json_txs cx q txs TTL_SHORT))"

definition ep_script_summary ::
  "('d, 'f, 'g) rest_ctx \<Rightarrow> ('d, 'f, 'g) query \<Rightarrow> (utext \<rightharpoonup> utext) \<Rightarrow> hash \<Rightarrow> utext option \<Rightarrow> 'g handled"
where
  "ep_script_summary cx q params sh last_seen =
     bind_out (parse_hash_opt cx last_seen) (\<lambda>last_seen_txid.
     bind_out (locate cx q last_seen_txid) (\<lambda>location.
     bind_out
       (lift_err (summary (cx_rk cx) (q_chain q) sh last_seen_txid (location_height location)
          (clamp_query_max_txs params (rc_default_max_address_summary_txs (cx_cfg cx)))))
       (\<lambda>rows. json_response (JArray (map (summary_json (cx_el cx)) rows)) TTL_SHORT)))"

definition ep_scripts_summary ::
  "('d, 'f, 'g) rest_ctx \<Rightarrow> ('d, 'f, 'g) query \<Rightarrow> (utext \<rightharpoonup> utext) \<Rightarrow> utext \<Rightarrow> bytes \<Rightarrow> utext option \<Rightarrow> 'g handled"
where
  "ep_scripts_summary cx q params ts body last_seen =
     bind_out (body_scripts cx ts body) (\<lambda>shs.
     bind_out (parse_hash_opt cx last_seen) (\<lambda>last_seen_txid.
     bind_out (locate cx q last_seen_txid) (\<lambda>location.
     bind_out
       (lift_err (summary_group (cx_rk cx) (q_chain q) shs last_seen_txid (location_height location)
          (clamp_query_max_txs params (rc_default_max_address_summary_txs (cx_cfg cx)))))
       (\<lambda>rows. json_response (JArray (map (summary_json (cx_el cx)) rows)) TTL_SHORT))))"

definition ep_script_mempool ::
  "('d, 'f, 'g) rest_ctx \<Rightarrow> ('d, 'f, 'g) query \<Rightarrow> (utext \<rightharpoonup> utext) \<Rightarrow> hash \<Rightarrow> 'g handled"
where
  "ep_script_mempool cx q params sh =
     bind_out (lift_err (mempool_history (q_mempool q) sh None (clamp_query_max_txs params (rc_default_max_mempool_txs (cx_cfg cx)))))
       (\<lambda>txs. json_txs cx q (map (\<lambda>tx. (tx, None)) txs) TTL_SHORT)"

definition ep_script_utxo ::
  "('d, 'f, 'g) rest_ctx \<Rightarrow> ('d, 'f, 'g) query \<Rightarrow> utext \<Rightarrow> utext \<Rightarrow> 'g handled \<times> ('d, 'f, 'g) query"
where
  "ep_script_utxo cx q script_type script_str =
     with_script cx q script_type script_str (\<lambda>sh.
       run_query q (query_utxo (cx_rk cx) (cx_lib cx) q sh) (\<lambda>utxos.
         json_response (JArray (map (\<lambda>u. utxo_value_json (cx_el cx) (utxo_value_from u)) utxos)) TTL_SHORT))"

definition ep_address_prefix :: "('d, 'f, 'g) rest_ctx \<Rightarrow> ('d, 'f, 'g) query \<Rightarrow> utext \<Rightarrow> 'g handled" where
  "ep_address_prefix cx q addr_prefix =
     (if \<not> rc_address_search (cx_cfg cx) then Err (he_from_string (lit ''address search disabled''))
      else bind_out
             (lift_err (address_search (cx_rk cx) (\<lambda>b. map_option (map char_of) (rl_utf8 (cx_rl cx) b)) (q_chain q)
                (utf8_encode addr_prefix) ADDRESS_SEARCH_LIMIT))
             (\<lambda>results. json_response (JArray (map jtext results)) TTL_SHORT))"

section \<open>Transactions\<close>

definition lookup_tx :: "('d, 'f, 'g) rest_ctx \<Rightarrow> ('d, 'f, 'g) query \<Rightarrow> hash \<Rightarrow> (http_error, transaction) outcome" where
  "lookup_tx cx q txid = found ''Transaction not found'' (query_lookup_txn (cx_rk cx) (cx_lib cx) q txid)"

definition ep_tx :: "('d, 'f, 'g) rest_ctx \<Rightarrow> ('d, 'f, 'g) query \<Rightarrow> utext \<Rightarrow> 'g handled" where
  "ep_tx cx q s =
     bind_out (parse_hash cx s) (\<lambda>h.
     bind_out (lookup_tx cx q h) (\<lambda>tx.
     bind_out (lift_err (tx_confirming_block (cx_rk cx) (q_chain q) h)) (\<lambda>blockid.
     bind_out (lift_err (prepare_txs (cx_rk cx) (cx_lib cx) (cx_rl cx) (cx_cfg cx) q [(tx, blockid)])) (\<lambda>vs.
     case vs of
       [] \<Rightarrow> http_message 500 (lit ''Transaction missing prevouts'') 0
     | v # _ \<Rightarrow> json_response (transaction_value_json (cx_el cx) v) (ttl_by_depth (map_option bid_height blockid) q)))))"

text \<open>The transaction ids of a body; an id that does not parse is answered with its error.\<close>

definition with_txids ::
  "('d, 'f, 'g) rest_ctx \<Rightarrow> bytes \<Rightarrow> (hash list \<Rightarrow> 'g handled) \<Rightarrow> 'g handled"
where
  "with_txids cx body f =
     bind_out (text_err (rl_json_strings (cx_rl cx) body)) (\<lambda>strs.
     case collect_out (rl_parse_hash (cx_rl cx)) strs of
       Ok txids \<Rightarrow> f txids
     | Err t \<Rightarrow> http_message 400 t 0
     | Panic s \<Rightarrow> Panic s)"

definition ep_internal_txs :: "('d, 'f, 'g) rest_ctx \<Rightarrow> ('d, 'f, 'g) query \<Rightarrow> bytes \<Rightarrow> 'g handled" where
  "ep_internal_txs cx q body =
     with_txids cx body (\<lambda>txids.
       bind_out
         (lift_err (filter_map_out
            (\<lambda>txid. bind_opt (query_lookup_txn (cx_rk cx) (cx_lib cx) q txid) (\<lambda>tx.
               map_out (\<lambda>b. Some (tx, b)) (tx_confirming_block (cx_rk cx) (q_chain q) txid))) txids))
         (\<lambda>txs. json_txs cx q txs 0))"

definition ep_tx_raw :: "('d, 'f, 'g) rest_ctx \<Rightarrow> ('d, 'f, 'g) query \<Rightarrow> utext \<Rightarrow> utext \<Rightarrow> 'g handled" where
  "ep_tx_raw cx q s out_type =
     bind_out (parse_hash cx s) (\<lambda>h.
     bind_out (found ''Transaction not found'' (query_lookup_raw_txn (cx_rk cx) (cx_lib cx) q h)) (\<lambda>rawtx.
     bind_out (lift_err (get_tx_status (cx_rk cx) q h)) (\<lambda>status.
     let ttl = ttl_by_depth (ts_block_height status) q in
     if out_type = lit ''raw'' then raw_response ''application/octet-stream'' (RawBody rawtx) ttl
     else if out_type = lit ''hex'' then raw_response ''text/plain'' (TextBody (hex_encode rawtx)) ttl
     else Panic ''unreachable'')))"

definition ep_tx_status :: "('d, 'f, 'g) rest_ctx \<Rightarrow> ('d, 'f, 'g) query \<Rightarrow> utext \<Rightarrow> 'g handled" where
  "ep_tx_status cx q s =
     bind_out (parse_hash cx s) (\<lambda>h.
     bind_out (lift_err (get_tx_status (cx_rk cx) q h)) (\<lambda>status.
     json_response (status_json (cx_el cx) status) (ttl_by_depth (ts_block_height status) q)))"

definition ep_merkle_proof :: "('d, 'f, 'g) rest_ctx \<Rightarrow> ('d, 'f, 'g) query \<Rightarrow> utext \<Rightarrow> 'g handled" where
  "ep_merkle_proof cx q s =
     bind_out (parse_hash cx s) (\<lambda>h.
     bind_out (found ''Transaction not found or is unconfirmed'' (tx_confirming_block (cx_rk cx) (q_chain q) h)) (\<lambda>blockid.
     bind_out (lift_err (get_tx_merkle_proof (cx_rk cx) (cx_lib cx) (q_chain q) h (bid_hash blockid))) (\<lambda>(merkle, pos).
     json_response
       (JObject [(lit ''block_height'', jnat (bid_height blockid)), (lit ''merkle'', JArray (map (jhash (cx_el cx)) merkle)),
          (lit ''pos'', jnat pos)])
       (ttl_by_depth (Some (bid_height blockid)) q))))"

definition ep_merkleblock_proof :: "('d, 'f, 'g) rest_ctx \<Rightarrow> ('d, 'f, 'g) query \<Rightarrow> utext \<Rightarrow> 'g handled" where
  "ep_merkleblock_proof cx q s =
     bind_out (parse_hash cx s) (\<lambda>h.
     bind_out
       (found ''Transaction not found or is unconfirmed''
          (get_merkleblock_proof (cx_rk cx) (cx_lib cx) (\<lambda>header ids p. (header, rl_merkleblock (cx_rl cx) header ids p)) (q_chain q) h))
       (\<lambda>(header, serialized).
     http_message 200 (hex_encode serialized) (ttl_by_depth (height_by_hash (q_chain q) (lib_block_hash (cx_lib cx) header)) q)))"

definition ep_outspend :: "('d, 'f, 'g) rest_ctx \<Rightarrow> ('d, 'f, 'g) query \<Rightarrow> utext \<Rightarrow> utext \<Rightarrow> 'g handled" where
  "ep_outspend cx q s index =
     bind_out (parse_hash cx s) (\<lambda>h.
     bind_out (ok_or he_from_int (parse_u32 index)) (\<lambda>vout.
     bind_out (lift_err (query_lookup_spend (cx_rk cx) q \<lparr>op_txid = h, op_vout = vout\<rparr>)) (\<lambda>spend.
     let v = spending_of spend in
     json_response (spending_value_json (cx_el cx) v) (ttl_by_depth (Option.bind (sv_status v) ts_block_height) q))))"

definition tx_spends :: "('d, 'f, 'g) rest_ctx \<Rightarrow> ('d, 'f, 'g) query \<Rightarrow> transaction \<Rightarrow> (http_error, 'g json) outcome" where
  "tx_spends cx q tx =
     map_out (\<lambda>spends. JArray (map (\<lambda>spend. spending_value_json (cx_el cx) (spending_of spend)) spends))
       (lift_err (lookup_tx_spends (cx_rk cx) (cx_lib cx) q tx))"

definition ep_outspends :: "('d, 'f, 'g) rest_ctx \<Rightarrow> ('d, 'f, 'g) query \<Rightarrow> utext \<Rightarrow> 'g handled" where
  "ep_outspends cx q s =
     bind_out (parse_hash cx s) (\<lambda>h.
     bind_out (lookup_tx cx q h) (\<lambda>tx.
     bind_out (tx_spends cx q tx) (\<lambda>v. json_response v TTL_SHORT)))"

definition ep_broadcast ::
  "('d, 'f, 'g) rest_ctx \<Rightarrow> ('d, 'f, 'g) query \<Rightarrow> verb \<Rightarrow> (utext \<rightharpoonup> utext) \<Rightarrow> bytes \<Rightarrow> 'g handled \<times> ('d, 'f, 'g) query"
where
  "ep_broadcast cx q method params body =
     (let txhex = (case method of
                     Post \<Rightarrow> ok_or (he_from_string (rl_utf8_error (cx_rl cx) body)) (rl_utf8 (cx_rl cx) body)
                   | Get \<Rightarrow> ok_or (he_from_string (lit ''Missing tx'')) (params (lit ''tx''))
                   | OtherVerb _ \<Rightarrow> Err (he_from_string []))
      in case method of
           OtherVerb _ \<Rightarrow> (http_message 405 (lit ''Invalid method'') 0, q)
         | _ \<Rightarrow>
             (case txhex of
                Ok hex \<Rightarrow>
                  run_query q (broadcast_raw (cx_rk cx) (cx_lib cx) (cx_fdiv cx) (cx_node cx) q hex)
                    (\<lambda>txid. http_message 200 (show_hash cx txid) 0)
              | Err e \<Rightarrow> (Err e, q)
              | Panic s \<Rightarrow> (Panic s, q)))"

text \<open>The transactions of a body to be tested or submitted, and the checks before the node is asked.\<close>

definition body_txhexes :: "('d, 'f, 'g) rest_ctx \<Rightarrow> bytes \<Rightarrow> (http_error, utext list) outcome" where
  "body_txhexes cx body =
     bind_out (ok_or (he_from_string (rl_utf8_error (cx_rl cx) body)) (rl_utf8 (cx_rl cx) body)) (\<lambda>_.
     bind_out (text_err (rl_json_strings (cx_rl cx) body)) (\<lambda>txhexes.
     if 25 < length txhexes then Err (he_from_string (lit ''Exceeded maximum of 25 transactions'')) else Ok txhexes))"

definition float_param :: "('d, 'f, 'g) rest_ctx \<Rightarrow> (utext \<rightharpoonup> utext) \<Rightarrow> string \<Rightarrow> (http_error, 'g option) outcome" where
  "float_param cx params name =
     (case params (lit name) of
        None \<Rightarrow> Ok None
      | Some s \<Rightarrow> map_out Some (ok_or (he_from_string (lit ''Invalid '' @ lit name)) (rl_parse_f64 (cx_rl cx) s)))"

fun check_txhexes :: "('d, 'f, 'g) rest_ctx \<Rightarrow> nat \<Rightarrow> utext list \<Rightarrow> (http_error, unit) outcome" where
  "check_txhexes cx index [] = Ok ()"
| "check_txhexes cx index (txhex # rest) =
     (if \<not> (120 \<le> utf8_len txhex \<and> utf8_len txhex < 800000)
      then Err (he_from_string (lit ''Invalid transaction size for item '' @ show_nat index))
      else if rl_decode_hex (cx_rl cx) txhex = None
      then Err (he_from_string (lit ''Invalid transaction hex for item '' @ show_nat index))
      else check_txhexes cx (index + 1) rest)"

definition ep_txs_test :: "('d, 'f, 'g) rest_ctx \<Rightarrow> (utext \<rightharpoonup> utext) \<Rightarrow> bytes \<Rightarrow> 'g handled" where
  "ep_txs_test cx params body =
     bind_out (body_txhexes cx body) (\<lambda>txhexes.
     bind_out (float_param cx params ''maxfeerate'') (\<lambda>maxfeerate.
     bind_out (check_txhexes cx 0 txhexes) (\<lambda>_.
     bind_out (lift_err (rl_test_mempool_accept (cx_rl cx) txhexes maxfeerate)) (\<lambda>result. json_response result TTL_SHORT))))"

definition ep_txs_package :: "('d, 'f, 'g) rest_ctx \<Rightarrow> (utext \<rightharpoonup> utext) \<Rightarrow> bytes \<Rightarrow> 'g handled" where
  "ep_txs_package cx params body =
     bind_out (body_txhexes cx body) (\<lambda>txhexes.
     bind_out (float_param cx params ''maxfeerate'') (\<lambda>maxfeerate.
     bind_out (float_param cx params ''maxburnamount'') (\<lambda>maxburnamount.
     bind_out (check_txhexes cx 0 txhexes) (\<lambda>_.
     bind_out (lift_err (rl_submit_package (cx_rl cx) txhexes maxfeerate maxburnamount)) (\<lambda>result. json_response result TTL_SHORT)))))"

text \<open>The spends of each transaction of a list of ids; an id that is not known has none.\<close>

definition spends_by_txid :: "('d, 'f, 'g) rest_ctx \<Rightarrow> ('d, 'f, 'g) query \<Rightarrow> utext list \<Rightarrow> 'g handled" where
  "spends_by_txid cx q txid_strings =
     bind_out
       (collect_out
          (\<lambda>s. bind_out (parse_hash_opt cx (Some s)) (\<lambda>txid.
               case txid of
                 None \<Rightarrow> Ok (JArray [])
               | Some h \<Rightarrow> bind_out (lift_err (query_lookup_txn (cx_rk cx) (cx_lib cx) q h)) (\<lambda>tx.
                             case tx of None \<Rightarrow> Ok (JArray []) | Some t \<Rightarrow> tx_spends cx q t))) txid_strings)
       (\<lambda>spends. json_response (JArray spends) TTL_SHORT)"

definition ep_txs_outspends :: "('d, 'f, 'g) rest_ctx \<Rightarrow> ('d, 'f, 'g) query \<Rightarrow> (utext \<rightharpoonup> utext) \<Rightarrow> 'g handled" where
  "ep_txs_outspends cx q params =
     bind_out (ok_or (he_from_string (lit ''No txids specified'')) (params (lit ''txids''))) (\<lambda>s.
     let txid_strings = split_at 44 s in
     if 50 < length txid_strings then http_message 400 (lit ''Too many txids requested'') 0
     else spends_by_txid cx q txid_strings)"

definition ep_internal_outspends_by_txid :: "('d, 'f, 'g) rest_ctx \<Rightarrow> ('d, 'f, 'g) query \<Rightarrow> bytes \<Rightarrow> 'g handled" where
  "ep_internal_outspends_by_txid cx q body =
     bind_out (text_err (rl_json_strings (cx_rl cx) body)) (spends_by_txid cx q)"

definition outpoint_spend :: "('d, 'f, 'g) rest_ctx \<Rightarrow> ('d, 'f, 'g) query \<Rightarrow> utext \<Rightarrow> (http_error, spending_value) outcome" where
  "outpoint_spend cx q s =
     (case split_at 58 s of
        txid_part # index_part # _ \<Rightarrow>
          bind_out (parse_hash_opt cx (Some txid_part)) (\<lambda>txid.
          case (txid, parse_u32 index_part) of
            (Some h, Some vout) \<Rightarrow> map_out spending_of (lift_err (query_lookup_spend (cx_rk cx) q \<lparr>op_txid = h, op_vout = vout\<rparr>))
          | _ \<Rightarrow> Ok spending_default)
      | _ \<Rightarrow> Ok spending_default)"

definition ep_internal_outspends_by_outpoint :: "('d, 'f, 'g) rest_ctx \<Rightarrow> ('d, 'f, 'g) query \<Rightarrow> bytes \<Rightarrow> 'g handled" where
  "ep_internal_outspends_by_outpoint cx q body =
     bind_out (text_err (rl_json_strings (cx_rl cx) body)) (\<lambda>strs.
     bind_out (collect_out (outpoint_spend cx q) strs) (\<lambda>spends.
     json_response (JArray (map (spending_value_json (cx_el cx)) spends)) TTL_SHORT))"

section \<open>The mempool and the fees\<close>

definition ep_mempool :: "('d, 'f, 'g) rest_ctx \<Rightarrow> ('d, 'f, 'g) query \<Rightarrow> 'g handled" where
  "ep_mempool cx q = json_response (backlog_json (cx_el cx) (backlog_stats (q_mempool q))) TTL_SHORT"

definition ep_mempool_txids :: "('d, 'f, 'g) rest_ctx \<Rightarrow> ('d, 'f, 'g) query \<Rightarrow> 'g handled" where
  "ep_mempool_txids cx q = json_response (JArray (map (jhash (cx_el cx)) (mempool_txids (q_mempool q)))) TTL_SHORT"

definition ep_mempool_txids_page ::
  "('d, 'f, 'g) rest_ctx \<Rightarrow> ('d, 'f, 'g) query \<Rightarrow> (utext \<rightharpoonup> utext) \<Rightarrow> utext option \<Rightarrow> 'g handled"
where
  "ep_mempool_txids_page cx q params last_seen =
     bind_out (parse_hash_opt cx last_seen) (\<lambda>last_seen_txid.
     json_response
       (JArray (map (jhash (cx_el cx))
          (txids_page (q_mempool q) (clamp_query_max_txs params (rc_max_mempool_txid_page_size (cx_cfg cx))) last_seen_txid)))
       TTL_SHORT)"

definition ep_internal_mempool_all :: "('d, 'f, 'g) rest_ctx \<Rightarrow> ('d, 'f, 'g) query \<Rightarrow> 'g handled" where
  "ep_internal_mempool_all cx q = json_txs cx q (map (\<lambda>tx. (tx, None)) (mempool_txs (q_mempool q))) TTL_SHORT"

definition ep_internal_mempool_txs :: "('d, 'f, 'g) rest_ctx \<Rightarrow> ('d, 'f, 'g) query \<Rightarrow> bytes \<Rightarrow> 'g handled" where
  "ep_internal_mempool_txs cx q body =
     with_txids cx body (\<lambda>txids.
       json_txs cx q (map (\<lambda>tx. (tx, None)) (List.map_filter (mempool_lookup_txn (q_mempool q)) txids)) 0)"

definition ep_internal_mempool_page ::
  "('d, 'f, 'g) rest_ctx \<Rightarrow> ('d, 'f, 'g) query \<Rightarrow> (utext \<rightharpoonup> utext) \<Rightarrow> utext option \<Rightarrow> 'g handled"
where
  "ep_internal_mempool_page cx q params last_seen =
     bind_out (parse_hash_opt cx last_seen) (\<lambda>last_seen_txid.
     json_txs cx q
       (map (\<lambda>tx. (tx, None))
          (txs_page (q_mempool q) (clamp_query_max_txs params (rc_max_mempool_page_size (cx_cfg cx))) last_seen_txid))
       TTL_SHORT)"

definition ep_mempool_recent :: "('d, 'f, 'g) rest_ctx \<Rightarrow> ('d, 'f, 'g) query \<Rightarrow> 'g handled" where
  "ep_mempool_recent cx q =
     json_response (JArray (map (tx_overview_json (cx_el cx)) (recent_txs_overview (q_mempool q)))) TTL_MEMPOOL_RECENT"

text \<open>The members of the object have no order; here they are in the order of the targets.\<close>

definition ep_fee_estimates :: "('d, 'f, 'g) rest_ctx \<Rightarrow> ('d, 'f, 'g) query \<Rightarrow> 'g handled \<times> ('d, 'f, 'g) query" where
  "ep_fee_estimates cx q =
     run_query q (estimate_fee_map (cx_node cx) (cx_now cx) q) (\<lambda>estimates.
       json_response
         (JObject (List.map_filter (\<lambda>t. map_option (\<lambda>rate. (show_nat t, rl_f64_json (cx_rl cx) rate)) (estimates t)) CONF_TARGETS))
         TTL_SHORT)"

text \<open>Electrum's methods over HTTP.\<close>

definition ep_electrum ::
  "('d, 'f, 'g) rest_ctx \<Rightarrow> ('d, 'f, 'g) query \<Rightarrow> bytes \<Rightarrow> 'g handled \<times> ('d, 'f, 'g) query"
where
  "ep_electrum cx q body =
     (case rl_utf8 (cx_rl cx) body of
        None \<Rightarrow> (Err (he_from_string (lit ''Electrum JSON-RPC body must be UTF-8'')), q)
      | Some body_str \<Rightarrow>
          (case handle_http_jsonrpc_body (cx_rk cx) (cx_lib cx) (cx_fdiv cx) (cx_el cx) (cx_node cx) (cx_now cx) (cx_json_error cx) q body_str of
             (r, q') \<Rightarrow> (bind_out (lift_err r) json_response_no_store, q')))"

section \<open>Dispatch\<close>

text \<open>The arms of the match by the number of segments; segments behind the fifth are ignored.\<close>

definition is_script_kind :: "utext \<Rightarrow> bool" where
  "is_script_kind a \<longleftrightarrow> a = lit ''address'' \<or> a = lit ''scripthash''"

definition is_scripts_kind :: "utext \<Rightarrow> bool" where
  "is_scripts_kind a \<longleftrightarrow> a = lit ''addresses'' \<or> a = lit ''scripthashes''"

definition get_one ::
  "('d, 'f, 'g) rest_ctx \<Rightarrow> ('d, 'f, 'g) query \<Rightarrow> (utext \<rightharpoonup> utext) \<Rightarrow> utext \<Rightarrow> ('g handled \<times> ('d, 'f, 'g) query) option"
where
  "get_one cx q params a =
     (if a = lit ''block-template'' then Some (handle_block_template cx, q)
      else if a = lit ''blocks'' then Some (blocks cx q None, q)
      else if a = lit ''broadcast'' then Some (ep_broadcast cx q Get params [])
      else if a = lit ''mempool'' then Some (ep_mempool cx q, q)
      else if a = lit ''fee-estimates'' then Some (ep_fee_estimates cx q)
      else None)"

definition get_two ::
  "('d, 'f, 'g) rest_ctx \<Rightarrow> ('d, 'f, 'g) query \<Rightarrow> (utext \<rightharpoonup> utext) \<Rightarrow> utext \<Rightarrow> utext \<Rightarrow> ('g handled \<times> ('d, 'f, 'g) query) option"
where
  "get_two cx q params a b =
     (if a = lit ''blocks'' then Some (blocks cx q (parse_usize b), q)
      else if a = lit ''block-height'' then Some (ep_block_height cx q b, q)
      else if a = lit ''block'' then Some (ep_block cx q b, q)
      else if is_script_kind a then Some (ep_script_stats cx q a b)
      else if a = lit ''address-prefix'' then Some (ep_address_prefix cx q b, q)
      else if a = lit ''tx'' then Some (ep_tx cx q b, q)
      else if a = lit ''txs'' \<and> b = lit ''outspends'' then Some (ep_txs_outspends cx q params, q)
      else if a = lit ''mempool'' \<and> b = lit ''txids'' then Some (ep_mempool_txids cx q, q)
      else if a = lit ''mempool'' \<and> b = lit ''recent'' then Some (ep_mempool_recent cx q, q)
      else None)"

definition get_three ::
  "('d, 'f, 'g) rest_ctx \<Rightarrow> ('d, 'f, 'g) query \<Rightarrow> (utext \<rightharpoonup> utext) \<Rightarrow> utext \<Rightarrow> utext \<Rightarrow> utext \<Rightarrow> ('g handled \<times> ('d, 'f, 'g) query) option"
where
  "get_three cx q params a b c =
     (if a = lit ''blocks'' \<and> b = lit ''tip'' \<and> c = lit ''hash'' then Some (ep_tip_hash cx q, q)
      else if a = lit ''blocks'' \<and> b = lit ''tip'' \<and> c = lit ''height'' then Some (ep_tip_height q, q)
      else if a = lit ''block'' \<and> c = lit ''status'' then Some (ep_block_status cx q b, q)
      else if a = lit ''block'' \<and> c = lit ''txids'' then Some (ep_block_txids cx q b, q)
      else if a = lit ''block'' \<and> c = lit ''header'' then Some (ep_block_header cx q b, q)
      else if a = lit ''block'' \<and> c = lit ''raw'' then Some (ep_block_raw cx q b, q)
      else if a = lit ''block'' \<and> c = lit ''txs'' then Some (ep_block_txs cx q b None, q)
      else if is_script_kind a \<and> c = lit ''txs'' then Some (with_script cx q a b (\<lambda>sh. (ep_script_txs cx q params sh, q)))
      else if is_script_kind a \<and> c = lit ''utxo'' then Some (ep_script_utxo cx q a b)
      else if a = lit ''tx'' \<and> (c = lit ''hex'' \<or> c = lit ''raw'') then Some (ep_tx_raw cx q b c, q)
      else if a = lit ''tx'' \<and> c = lit ''status'' then Some (ep_tx_status cx q b, q)
      else if a = lit ''tx'' \<and> c = lit ''merkle-proof'' then Some (ep_merkle_proof cx q b, q)
      else if a = lit ''tx'' \<and> c = lit ''merkleblock-proof'' then Some (ep_merkleblock_proof cx q b, q)
      else if a = lit ''tx'' \<and> c = lit ''outspends'' then Some (ep_outspends cx q b, q)
      else if a = lit ''mempool'' \<and> b = lit ''txids'' \<and> c = lit ''page'' then Some (ep_mempool_txids_page cx q params None, q)
      else if a = lit ''internal'' \<and> b = lit ''mempool'' \<and> c = lit ''txs'' then Some (ep_internal_mempool_page cx q params None, q)
      else None)"

definition get_four ::
  "('d, 'f, 'g) rest_ctx \<Rightarrow> ('d, 'f, 'g) query \<Rightarrow> (utext \<rightharpoonup> utext) \<Rightarrow> utext \<Rightarrow> utext \<Rightarrow> utext \<Rightarrow> utext
    \<Rightarrow> ('g handled \<times> ('d, 'f, 'g) query) option"
where
  "get_four cx q params a b c d =
     (if a = lit ''internal'' \<and> b = lit ''block'' \<and> d = lit ''txs'' then Some (ep_internal_block_txs cx q c, q)
      else if a = lit ''block'' \<and> c = lit ''txid'' then Some (ep_block_txid cx q b d, q)
      else if a = lit ''block'' \<and> c = lit ''txs'' then Some (ep_block_txs cx q b (Some d), q)
      else if is_script_kind a \<and> c = lit ''txs'' \<and> d = lit ''chain''
      then Some (with_script cx q a b (\<lambda>sh. (ep_script_txs_chain cx q params sh None, q)))
      else if is_script_kind a \<and> c = lit ''txs'' \<and> d = lit ''summary''
      then Some (with_script cx q a b (\<lambda>sh. (ep_script_summary cx q params sh None, q)))
      else if is_script_kind a \<and> c = lit ''txs'' \<and> d = lit ''mempool''
      then Some (with_script cx q a b (\<lambda>sh. (ep_script_mempool cx q params sh, q)))
      else if a = lit ''tx'' \<and> c = lit ''outspend'' then Some (ep_outspend cx q b d, q)
      else if a = lit ''mempool'' \<and> b = lit ''txids'' \<and> c = lit ''page'' then Some (ep_mempool_txids_page cx q params (Some d), q)
      else if a = lit ''internal'' \<and> b = lit ''mempool'' \<and> c = lit ''txs'' \<and> d = lit ''all'' then Some (ep_internal_mempool_all cx q, q)
      else if a = lit ''internal'' \<and> b = lit ''mempool'' \<and> c = lit ''txs'' then Some (ep_internal_mempool_page cx q params (Some d), q)
      else None)"

definition get_five ::
  "('d, 'f, 'g) rest_ctx \<Rightarrow> ('d, 'f, 'g) query \<Rightarrow> (utext \<rightharpoonup> utext) \<Rightarrow> utext \<Rightarrow> utext \<Rightarrow> utext \<Rightarrow> utext \<Rightarrow> utext
    \<Rightarrow> ('g handled \<times> ('d, 'f, 'g) query) option"
where
  "get_five cx q params a b c d e =
     (if is_script_kind a \<and> c = lit ''txs'' \<and> d = lit ''chain''
      then Some (with_script cx q a b (\<lambda>sh. (ep_script_txs_chain cx q params sh (Some e), q)))
      else if is_script_kind a \<and> c = lit ''txs'' \<and> d = lit ''summary''
      then Some (with_script cx q a b (\<lambda>sh. (ep_script_summary cx q params sh (Some e), q)))
      else None)"

definition get_request ::
  "('d, 'f, 'g) rest_ctx \<Rightarrow> ('d, 'f, 'g) query \<Rightarrow> (utext \<rightharpoonup> utext) \<Rightarrow> utext list \<Rightarrow> ('g handled \<times> ('d, 'f, 'g) query) option"
where
  "get_request cx q params path =
     (case path of
        [] \<Rightarrow> None
      | [a] \<Rightarrow> get_one cx q params a
      | [a, b] \<Rightarrow> get_two cx q params a b
      | [a, b, c] \<Rightarrow> get_three cx q params a b c
      | [a, b, c, d] \<Rightarrow> get_four cx q params a b c d
      | a # b # c # d # e # _ \<Rightarrow> get_five cx q params a b c d e)"

definition post_request ::
  "('d, 'f, 'g) rest_ctx \<Rightarrow> ('d, 'f, 'g) query \<Rightarrow> (utext \<rightharpoonup> utext) \<Rightarrow> bytes \<Rightarrow> utext list \<Rightarrow> ('g handled \<times> ('d, 'f, 'g) query) option"
where
  "post_request cx q params body path =
     (case path of
        [a] \<Rightarrow>
          if a = lit ''electrum'' then Some (ep_electrum cx q body)
          else if a = lit ''tx'' then Some (ep_broadcast cx q Post params body)
          else None
      | [a, b] \<Rightarrow>
          if is_scripts_kind a \<and> b = lit ''txs'' then Some (ep_scripts_txs cx q params a body, q)
          else if a = lit ''internal'' \<and> b = lit ''txs'' then Some (ep_internal_txs cx q body, q)
          else if a = lit ''txs'' \<and> b = lit ''test'' then Some (ep_txs_test cx params body, q)
          else if a = lit ''txs'' \<and> b = lit ''package'' then Some (ep_txs_package cx params body, q)
          else None
      | [a, b, c] \<Rightarrow>
          if is_scripts_kind a \<and> b = lit ''txs'' \<and> c = lit ''summary'' then Some (ep_scripts_summary cx q params a body None, q)
          else if a = lit ''internal'' \<and> b = lit ''mempool'' \<and> c = lit ''txs'' then Some (ep_internal_mempool_txs cx q body, q)
          else None
      | [a, b, c, d] \<Rightarrow>
          if is_scripts_kind a \<and> b = lit ''txs'' \<and> c = lit ''summary'' then Some (ep_scripts_summary cx q params a body (Some d), q)
          else if a = lit ''internal'' \<and> b = lit ''txs'' \<and> c = lit ''outspends'' \<and> d = lit ''by-txid''
          then Some (ep_internal_outspends_by_txid cx q body, q)
          else if a = lit ''internal'' \<and> b = lit ''txs'' \<and> c = lit ''outspends'' \<and> d = lit ''by-outpoint''
          then Some (ep_internal_outspends_by_outpoint cx q body, q)
          else None
      | _ \<Rightarrow> None)"

definition query_params_of :: "'g rest_lib \<Rightarrow> utext option \<Rightarrow> (utext \<rightharpoonup> utext)" where
  "query_params_of rl s = (case s of Some t \<Rightarrow> map_of (rev (rl_form_parse rl t)) | None \<Rightarrow> Map.empty)"

definition handle_request ::
  "('d, 'f, 'g) rest_ctx \<Rightarrow> ('d, 'f, 'g) query \<Rightarrow> verb \<Rightarrow> utext \<Rightarrow> utext option \<Rightarrow> bytes \<Rightarrow> 'g handled \<times> ('d, 'f, 'g) query"
where
  "handle_request cx q method uri_path uri_query body =
     (let path = drop 1 (split_at 47 uri_path);
          params = query_params_of (cx_rl cx) uri_query;
          handled = (case method of Get \<Rightarrow> get_request cx q params path | Post \<Rightarrow> post_request cx q params body path | OtherVerb _ \<Rightarrow> None)
      in case handled of
           Some r \<Rightarrow> r
         | None \<Rightarrow> (Err (he_not_found (lit ''endpoint does not exist '' @ rl_debug_text (cx_rl cx) uri_path)), q))"

end
