(* ===== verification/Rest_Pages.thy ===== *)
theory Rest_Pages
  imports Rest
begin

text \<open>
  Paging over HTTP: the pages of a block and the pages of the transactions of a script. A client that
  asks with the last transaction it has seen receives exactly what follows, across the border between
  the mempool and the chain.
\<close>

section \<open>Reverse scans\<close>

lemma collect_out_rev: "collect_out f xs = Ok ys \<Longrightarrow> collect_out f (rev xs) = Ok (rev ys)"
  by (simp add: collect_out_Ok_iff)

lemma reverse_scan:
  assumes ok: "index_ok rk kv lib cq sh" and st: "starts_with b (history_filter 0x48 sh)"
  shows "\<exists>rs. collect_out history_from_row (reverse_collect (iter_scan_reverse rk (so_history_db (cq_store cq)) (history_filter 0x48 sh) b)) = Ok (rev rs)
    \<and> map ser_history_key rs = map fst (items (kv (so_history_db (cq_store cq))) {k. starts_with k (history_filter 0x48 sh) \<and> k \<le> b})
    \<and> (\<forall>r\<in>set rs. history_ok r \<and> thk_code r = 0x48 \<and> thk_hash r = sh)"
proof -
  let ?m = "kv (so_history_db (cq_store cq))" and ?S = "{k. starts_with k (history_filter 0x48 sh) \<and> k \<le> b}"
  have rk: "rocksdb rk kv" and sh: "hash_ok sh" and rows: "history_rows_ok ?m sh" using ok by (auto simp: index_ok_def)
  have keys: "\<forall>k\<in>dom ?m \<inter> ?S. \<exists>c. history_ok c \<and> ser_history_key c = k" using rows by (auto simp: history_rows_ok_def)
  have parse: "\<forall>c v. history_ok c \<longrightarrow> history_from_row \<lparr>row_key = ser_history_key c, row_value = v\<rparr> = Ok c"
    using history_parse by blast
  obtain rs where rs: "collect_out history_from_row (map row_of (items ?m ?S)) = Ok rs"
      "map ser_history_key rs = map fst (items ?m ?S)"
      "\<forall>r. r \<in> set rs \<longleftrightarrow> history_ok r \<and> ser_history_key r \<in> dom ?m \<inter> ?S"
    using history_codec.parse_scan [OF rocksdb.finite_kv [OF rk] keys parse] by (elim exE conjE) (rule that)
  have "reverse_collect (iter_scan_reverse rk (so_history_db (cq_store cq)) (history_filter 0x48 sh) b) = rev (map row_of (items ?m ?S))"
    using rocksdb.db_rows(3) [OF rk st] by (simp add: rev_map)
  moreover have "history_ok r \<and> thk_code r = 0x48 \<and> thk_hash r = sh" if "r \<in> set rs" for r
    using rs(3) that history_starts_with [of r sh "0x48"] sh by auto
  ultimately show ?thesis using collect_out_rev [OF rs(1)] rs(2) by auto
qed

text \<open>
  The rows a reverse scan may miss: those at the largest height and, when it starts at a height, those
  at the largest position.
\<close>

definition reachable_row :: "tx_history_key \<Rightarrow> bool" where
  "reachable_row r \<longleftrightarrow> thk_confirmed_height r \<noteq> - 1 \<and> thk_tx_position r \<noteq> - 1"

lemma less_minus_one: "(w :: 'a::len word) < - 1 \<longleftrightarrow> w \<noteq> - 1"
  by (metis word_order.not_eq_extremum)

lemma history_le_scan_bound:
  assumes b: "scan_bound 0x48 sh start = Ok b" and r: "history_ok r" "thk_code r = 0x48" "thk_hash r = sh" "reachable_row r"
  shows "ser_history_key r \<le> b \<longleftrightarrow> (case start of None \<Rightarrow> True | Some h \<Rightarrow> thk_confirmed_height r \<le> h)"
proof (cases start)
  case None
  then have "b = ser_u8 0x48 @ sh @ ser_u32 Big (- 1)" using b r(1,3) by (auto simp: scan_bound_def prefix_end_def)
  moreover have "thk_confirmed_height r < - 1" using r(4) by (simp add: reachable_row_def less_minus_one)
  ultimately have "ser_history_key r < b" unfolding ser_history_key_def
    using r append_less_append [of "ser_u32 Big (thk_confirmed_height r)" "ser_u32 Big (- 1)" _ "[]"]
    by (simp add: append_less_append)
  then show ?thesis using None by simp
next
  case (Some h)
  then have "prefix_height_end 0x48 sh h = Ok b" using b by (auto simp: scan_bound_def)
  from history_le_prefix_height_end [OF _ r(2,3) this] r(1,4) Some show ?thesis
    by (auto simp: reachable_row_def less_minus_one)
qed

text \<open>A reverse scan is the forward scan turned around, cut at its height.\<close>

lemma rows_reverse_filter:
  assumes ok: "index_ok rk kv lib cq sh" and all: "rows_forward rk cq 0x48 sh 0 = Ok rs"
    and reach: "\<forall>r\<in>set rs. reachable_row r"
  shows "rows_reverse rk cq 0x48 sh start = Ok (rev (filter (\<lambda>r. case start of None \<Rightarrow> True | Some h \<Rightarrow> thk_confirmed_height r \<le> h) rs))"
proof -
  let ?m = "kv (so_history_db (cq_store cq))" and ?P = "\<lambda>k. starts_with k (history_filter 0x48 sh)"
  let ?ok = "\<lambda>r. case start of None \<Rightarrow> True | Some h \<Rightarrow> thk_confirmed_height r \<le> h"
  have fin: "finite (dom ?m)" and sh: "hash_ok sh" using ok by (auto simp: index_ok_def intro: rocksdb.finite_kv)
  obtain b where b: "scan_bound 0x48 sh start = Ok b" "?P b"
    using sh by (cases start) (auto simp: scan_bound_def prefix_end_def prefix_height_end_def history_filter_def starts_with_def ser_u8_def)
  obtain rs' where rs': "rows_reverse rk cq 0x48 sh start = Ok (rev rs')" "map ser_history_key rs' = map fst (items ?m {k. ?P k \<and> k \<le> b})"
      "\<forall>r\<in>set rs'. history_ok r \<and> thk_code r = 0x48 \<and> thk_hash r = sh"
    using reverse_scan [OF ok b(2)] b(1) by (auto simp: rows_reverse_def history_iter_scan_reverse_def)
  have rs: "map ser_history_key rs = map fst (items ?m {k. ?P k \<and> (ser_u8 0x48 @ sh @ ser_u32 Big 0) \<le> k})"
      "\<forall>r\<in>set rs. history_ok r \<and> thk_code r = 0x48 \<and> thk_hash r = sh"
    using history_scan [OF ok, of 0] all by auto
  have all_keys: "dom ?m \<inter> {k. ?P k \<and> (ser_u8 0x48 @ sh @ ser_u32 Big 0) \<le> k} = dom ?m \<inter> {k. ?P k}"
  proof -
    have "(ser_u8 0x48 @ sh @ ser_u32 Big 0) \<le> k" if k: "k \<in> dom ?m" "?P k" for k
    proof -
      obtain r where r: "history_ok r" "ser_history_key r = k" using ok k by (auto simp: index_ok_def history_rows_ok_def)
      then have "thk_code r = 0x48" "thk_hash r = sh" using k history_starts_with [of r sh "0x48"] sh by auto
      from history_ge_bound [OF r(1) this, of 0] show ?thesis using r(2) by simp
    qed
    then show ?thesis by auto
  qed
  then have rs1: "map ser_history_key rs = map fst (items ?m {k. ?P k})" unfolding rs(1) items_def by simp
  have "map ser_history_key (filter ?ok rs) = map ser_history_key (filter (\<lambda>r. ser_history_key r \<le> b) rs)"
    using rs(2) reach history_le_scan_bound [OF b(1)] by (intro arg_cong [where f = "map ser_history_key"] filter_cong) auto
  also have "\<dots> = filter (\<lambda>k. k \<le> b) (map ser_history_key rs)" by (simp add: filter_map comp_def)
  also have "\<dots> = map fst (filter (\<lambda>x. fst x \<le> b) (items ?m {k. ?P k}))" unfolding rs1 by (simp add: filter_map comp_def)
  also have "\<dots> = map fst (items ?m {k. ?P k \<and> k \<le> b})" unfolding filter_items [OF fin, of "\<lambda>k. k \<le> b"] by simp
  finally have "map ser_history_key rs' = map ser_history_key (filter ?ok rs)" using rs'(2) by simp
  moreover have "inj_on ser_history_key (set rs' \<union> set (filter ?ok rs))"
  proof (rule inj_onI)
    fix a c assume "a \<in> set rs' \<union> set (filter ?ok rs)" "c \<in> set rs' \<union> set (filter ?ok rs)"
    then have "history_ok a" "history_ok c" using rs'(3) rs(2) by auto
    then show "ser_history_key a = ser_history_key c \<Longrightarrow> a = c" using history_codec.enc_inject by blast
  qed
  ultimately have "rs' = filter ?ok rs" by (rule map_inj_on)
  then show ?thesis using rs'(1) by simp
qed

section \<open>Lists\<close>

lemma unique_aux_cong: "(\<And>x. x \<in> set xs \<Longrightarrow> f x \<in> set s \<longleftrightarrow> f x \<in> set t) \<Longrightarrow> unique_aux f s xs = unique_aux f t xs"
proof (induction xs arbitrary: s t)
  case (Cons x xs)
  have "unique_aux f s xs = unique_aux f t xs" "unique_aux f (f x # s) xs = unique_aux f (f x # t) xs"
    by (rule Cons.IH, use Cons.prems in auto)+
  then show ?case using Cons.prems [of x] by simp
qed simp

lemma unique_aux_append: "unique_aux f seen (xs @ ys) = unique_aux f seen xs @ unique_aux f (map f xs @ seen) ys"
proof (induction xs arbitrary: seen)
  case (Cons x xs)
  have "unique_aux f (map f xs @ seen) ys = unique_aux f (f x # map f xs @ seen) ys" if "f x \<in> set seen"
    using that by (intro unique_aux_cong) auto
  moreover have "unique_aux f (map f xs @ f x # seen) ys = unique_aux f (f x # map f xs @ seen) ys"
    by (intro unique_aux_cong) auto
  ultimately show ?case using Cons by simp
qed simp

lemma unique_by_append:
  assumes "f ` set xs \<inter> f ` set ys = {}"
  shows "unique_by f (xs @ ys) = unique_by f xs @ unique_by f ys"
proof -
  have "unique_aux f (map f xs @ []) ys = unique_aux f [] ys" using assms by (intro unique_aux_cong) auto
  then show ?thesis by (simp add: unique_by_def unique_aux_append)
qed

lemma sorted_unique_aux: "sorted_wrt P xs \<Longrightarrow> sorted_wrt P (unique_aux f seen xs)"
  by (induction xs arbitrary: seen) (auto dest: subsetD [OF subset_unique_aux])

lemma sorted_skip_seen: "sorted_wrt P xs \<Longrightarrow> sorted_wrt P (skip_seen f k xs)"
  by (cases k) (auto simp: skip_seen_def dropWhile_eq_drop intro!: sorted_wrt_drop)

lemma skip_seen_nth:
  assumes "distinct (map f xs)" "i < length xs"
  shows "skip_seen f (Some (f (xs ! i))) xs = drop (Suc i) xs"
proof -
  have xs: "xs = take i xs @ xs ! i # drop (Suc i) xs" using assms(2) by (rule id_take_nth_drop)
  have "distinct (map f (take i xs @ xs ! i # drop (Suc i) xs))" using assms xs by metis
  then have "f (xs ! i) \<notin> f ` set (take i xs)" by auto
  from skip_seen_after [OF this, of "drop (Suc i) xs"] show ?thesis using xs by metis
qed

lemma skip_seen_append: "k \<notin> f ` set xs \<Longrightarrow> skip_seen f (Some k) (xs @ ys) = skip_seen f (Some k) ys"
  by (simp add: skip_seen_def dropWhile_append image_iff)

lemma falling_split:
  fixes g :: "'a \<Rightarrow> 'b::linorder"
  shows "sorted_wrt (\<lambda>a b. g b \<le> g a) xs \<Longrightarrow> xs = filter (\<lambda>x. \<not> g x \<le> h) xs @ filter (\<lambda>x. g x \<le> h) xs"
proof (induction xs)
  case (Cons x xs)
  show ?case
  proof (cases "g x \<le> h")
    case True
    then have "\<forall>y\<in>set xs. g y \<le> h" using Cons.prems by auto
    then show ?thesis using True by (auto simp: filter_id_conv filter_empty_conv)
  qed (use Cons in auto)
qed simp

lemma take_both:
  "(if length (take n xs) < n then take n xs @ take (n - length (take n xs)) ys else take n xs) = take n (xs @ ys)"
  by (cases "length xs < n") auto

section \<open>The pages of a script\<close>

text \<open>
  The state of the index and of the mempool a page is read from: every row of the script belongs to a
  confirmed transaction at its height, stored and no longer in the mempool, and the transactions of the
  script in the mempool are stored there.
\<close>

definition view_ok ::
  "'d rocks \<Rightarrow> ('d \<Rightarrow> bytes \<rightharpoonup> bytes) \<Rightarrow> bitcoin_lib \<Rightarrow> ('d, 'f, 'g) query \<Rightarrow> hash \<Rightarrow> tx_history_key list \<Rightarrow> bool"
where
  "view_ok rk kv lib q sh rs \<longleftrightarrow>
     index_ok rk kv lib (q_chain q) sh \<and> rows_forward rk (q_chain q) 0x48 sh 0 = Ok rs
     \<and> (\<forall>r\<in>set rs. reachable_row r \<and> mempool_lookup_txn (q_mempool q) (history_txid r) = None
          \<and> (\<exists>b tx. tx_confirming_block rk (q_chain q) (history_txid r) = Ok (Some b) \<and> bid_height b = row_height r
               \<and> lookup_txn rk lib (q_chain q) (history_txid r) (Some (bid_hash b)) = Ok (Some tx)))
     \<and> (\<forall>e\<in>set (history_entries (q_mempool q) sh). mempool_lookup_txn (q_mempool q) (hi_txid e) \<noteq> None)"

text \<open>The whole history of a script, latest first: mempool, then chain.\<close>

definition row_block :: "'d rocks \<Rightarrow> ('d, 'f, 'g) query \<Rightarrow> tx_history_key \<Rightarrow> block_id" where
  "row_block rk q r = the (confirming rk (q_chain q) (history_txid r))"

definition row_tx :: "'d rocks \<Rightarrow> bitcoin_lib \<Rightarrow> ('d, 'f, 'g) query \<Rightarrow> tx_history_key \<Rightarrow> transaction" where
  "row_tx rk lib q r =
     (case lookup_txn rk lib (q_chain q) (history_txid r) (Some (bid_hash (row_block rk q r))) of Ok (Some tx) \<Rightarrow> tx)"

definition whole_history ::
  "'d rocks \<Rightarrow> bitcoin_lib \<Rightarrow> ('d, 'f, 'g) query \<Rightarrow> hash \<Rightarrow> tx_history_key list \<Rightarrow> (hash \<times> transaction \<times> block_id option) list"
where
  "whole_history rk lib q sh rs =
     map (\<lambda>t. (t, the (mempool_lookup_txn (q_mempool q) t), None)) (mempool_history_txids_iter (q_mempool q) sh)
     @ map (\<lambda>r. (history_txid r, row_tx rk lib q r, Some (row_block rk q r))) (unique_by history_txid (rev rs))"

lemma view_row:
  assumes "view_ok rk kv lib q sh rs" "r \<in> set rs"
  shows "tx_confirming_block rk (q_chain q) (history_txid r) = Ok (Some (row_block rk q r))"
    and "bid_height (row_block rk q r) = row_height r"
    and "lookup_txn rk lib (q_chain q) (history_txid r) (Some (bid_hash (row_block rk q r))) = Ok (Some (row_tx rk lib q r))"
    and "mempool_lookup_txn (q_mempool q) (history_txid r) = None"
  using assms by (auto simp: view_ok_def row_block_def row_tx_def confirming_def)

lemma rows_falling:
  assumes v: "view_ok rk kv lib q sh rs"
  shows "sorted_wrt (\<lambda>a b. (- int (row_height a), - uint (thk_tx_position a)) \<le> (- int (row_height b), - uint (thk_tx_position b))) (rev rs)"
proof -
  have ok: "index_ok rk kv lib (q_chain q) sh" "rows_forward rk (q_chain q) 0x48 sh 0 = Ok rs" using v by (auto simp: view_ok_def)
  have rs: "map ser_history_key rs = map fst (items (kv (so_history_db (cq_store (q_chain q))))
        {k. starts_with k (history_filter 0x48 sh) \<and> (ser_u8 0x48 @ sh @ ser_u32 Big (word_of_nat 0)) \<le> k})"
      "\<forall>r\<in>set rs. history_ok r \<and> thk_code r = 0x48 \<and> thk_hash r = sh"
    using history_scan [OF ok(1), of 0] ok(2) by auto
  have "sorted_wrt (<) (map ser_history_key rs)" unfolding rs(1) sorted_wrt_map by (rule sorted_items)
  then have "sorted_wrt (\<lambda>a b. ser_history_key a < ser_history_key b) rs" by (simp add: sorted_wrt_map)
  then show ?thesis unfolding sorted_wrt_rev
  proof (rule sorted_wrt_mono_rel [rotated])
    fix a b assume ab: "a \<in> set rs" "b \<in> set rs" "ser_history_key a < ser_history_key b"
    then have "thk_confirmed_height a < thk_confirmed_height b
        \<or> thk_confirmed_height a = thk_confirmed_height b \<and> thk_tx_position a \<le> thk_tx_position b"
      using rs(2) history_key_less [of a b] by auto
    then show "(- int (row_height b), - uint (thk_tx_position b)) \<le> (- int (row_height a), - uint (thk_tx_position a))"
      by (auto simp: less_eq_prod_def word_less_def word_le_def)
  qed
qed

text \<open>The confirmed part of a page; the sort leaves it as it is scanned.\<close>

lemma chain_part:
  assumes v: "view_ok rk kv lib q sh rs"
  shows "collect_confirmed (history rk lib (q_chain q) sh last_seen start n)
    = Ok (map (\<lambda>r. (row_tx rk lib q r, Some (row_block rk q r)))
        (take n (skip_seen history_txid last_seen (unique_by history_txid
          (filter (\<lambda>r. case start of None \<Rightarrow> True | Some h \<Rightarrow> thk_confirmed_height r \<le> h) (rev rs))))))"
proof -
  let ?rows = "filter (\<lambda>r. case start of None \<Rightarrow> True | Some h \<Rightarrow> thk_confirmed_height r \<le> h) (rev rs)"
  let ?us = "skip_seen history_txid last_seen (unique_by history_txid ?rows)"
  let ?key = "\<lambda>r. (- int (row_height r), - uint (thk_tx_position r))"
  have ok: "index_ok rk kv lib (q_chain q) sh" "rows_forward rk (q_chain q) 0x48 sh 0 = Ok rs" "\<forall>r\<in>set rs. reachable_row r"
    using v by (auto simp: view_ok_def)
  have rows: "rows_reverse rk (q_chain q) 0x48 sh start = Ok ?rows"
    using rows_reverse_filter [OF ok] by (simp add: rev_filter)
  have sub: "set ?us \<subseteq> set rs" using skip_seen_subset unique_by_subset by fastforce
  have "history_page rk (q_chain q) last_seen ?rows = Ok (List.map_filter (\<lambda>r. Some (history_txid r, row_block rk q r, thk_tx_position r)) ?us)"
    unfolding history_page_def using sub view_row(1) [OF v] by (intro filter_map_out_total) auto
  then have page: "history_page rk (q_chain q) last_seen ?rows = Ok (map (\<lambda>r. (history_txid r, row_block rk q r, thk_tx_position r)) ?us)"
    by (simp add: List.map_filter_def comp_def)
  let ?txs = "map (\<lambda>r. (row_tx rk lib q r, row_block rk q r, thk_tx_position r)) (take n ?us)"
  have tk: "set (take n ?us) \<subseteq> set rs" using sub set_take_subset by (metis order_trans)
  have run: "bind_out (history rk lib (q_chain q) sh last_seen start n) (collect_out (\<lambda>x. x)) = Ok ?txs"
  proof -
    have "lookup_txns rk lib (q_chain q) (map (\<lambda>r. (history_txid r, row_block rk q r, thk_tx_position r)) ?us) n
        = map (\<lambda>r. Ok (row_tx rk lib q r, row_block rk q r, thk_tx_position r)) (take n ?us)"
      unfolding lookup_txns_def using tk view_row(3) [OF v] by (auto simp: take_map ok_or_def)
    then show ?thesis using rows page by (simp add: history_def collect_out_Ok_iff list_all2_map1 list_all2_map2 list_all2_same)
  qed
  have srt: "sort_confirmed ?txs = ?txs"
  proof -
    have "sorted_wrt (\<lambda>a b. ?key a \<le> ?key b) ?rows" by (rule sorted_wrt_filter [OF rows_falling [OF v]])
    then have "sorted_wrt (\<lambda>a b. ?key a \<le> ?key b) (take n ?us)"
      unfolding unique_by_def by (intro sorted_wrt_take sorted_skip_seen sorted_unique_aux)
    then have "sorted (map ?key (take n ?us))" by (simp add: sorted_wrt_map)
    moreover have "map (\<lambda>(_, b, p). (- int (bid_height b), - uint p)) ?txs = map ?key (take n ?us)"
      using tk view_row(2) [OF v] by auto
    ultimately show ?thesis unfolding sort_confirmed_def by (intro sort_key_id_if_sorted) metis
  qed
  show ?thesis unfolding collect_confirmed_def run by (simp add: lift_err_def srt comp_def)
qed

lemma mempool_part:
  assumes v: "view_ok rk kv lib q sh rs"
  shows "mempool_history (q_mempool q) sh last_seen n
    = Ok (map (\<lambda>t. the (mempool_lookup_txn (q_mempool q) t)) (take n (skip_seen (\<lambda>t. t) last_seen (mempool_history_txids_iter (q_mempool q) sh))))"
proof -
  let ?ids = "mempool_history_txids_iter (q_mempool q) sh"
  have "mempool_lookup_txn (q_mempool q) t \<noteq> None" if "t \<in> set ?ids" for t
    using v that by (auto simp: view_ok_def mempool_history_txids_iter_def)
  then have "map_of (mp_txstore (q_mempool q)) t = Some (the (mempool_lookup_txn (q_mempool q) t))" if "t \<in> set ?ids" for t
    using that by (auto simp: mempool_lookup_txn_def)
  moreover have "set (take n (skip_seen (\<lambda>t. t) last_seen ?ids)) \<subseteq> set ?ids"
    using skip_seen_subset set_take_subset by (metis order_trans)
  ultimately have "collect_out (\<lambda>txid. expect ''missing mempool tx'' (map_of (mp_txstore (q_mempool q)) txid)) (take n (skip_seen (\<lambda>t. t) last_seen ?ids))
      = Ok (map (\<lambda>t. the (mempool_lookup_txn (q_mempool q) t)) (take n (skip_seen (\<lambda>t. t) last_seen ?ids)))"
    by (intro collect_out_total) (auto simp: expect_def)
  then show ?thesis
    by (auto simp: mempool_history_def history_transactions_def mempool_history_txids_iter_def history_entries_def skip_seen_def
        unique_by_def split: option.splits)
qed

text \<open>A page: what is left of the mempool part, then the chain from its top or from the transaction seen last.\<close>

lemma page_mempool:
  assumes v: "view_ok rk kv lib q sh rs" and cx: "cx_rk cx = rk" "cx_lib cx = lib" and loc: "locate cx q after_txid = Ok InMempool"
  shows "script_txs cx q sh n after_txid
    = Ok (map snd (take n (map (\<lambda>t. (t, the (mempool_lookup_txn (q_mempool q) t), None))
            (skip_seen (\<lambda>t. t) after_txid (mempool_history_txids_iter (q_mempool q) sh))
          @ map (\<lambda>r. (history_txid r, row_tx rk lib q r, Some (row_block rk q r))) (unique_by history_txid (rev rs)))))"
proof -
  let ?ms = "map (\<lambda>t. (the (mempool_lookup_txn (q_mempool q) t), None :: block_id option)) (skip_seen (\<lambda>t. t) after_txid (mempool_history_txids_iter (q_mempool q) sh))"
  let ?cs = "map (\<lambda>r. (row_tx rk lib q r, Some (row_block rk q r))) (unique_by history_txid (rev rs))"
  have run: "script_txs cx q sh n after_txid
      = Ok (if length (take n ?ms) < n then take n ?ms @ take (n - length (take n ?ms)) ?cs else take n ?ms)"
    using cx loc mempool_part [OF v, of after_txid n] chain_part [OF v, of None None]
    by (simp add: script_txs_def txs_after_def confirmed_after_txid_def location_height_def lift_err_def take_map comp_def skip_seen_def)
  also have "\<dots> = Ok (take n (?ms @ ?cs))" by (simp only: take_both)
  also have "?ms @ ?cs = map snd (map (\<lambda>t. (t, the (mempool_lookup_txn (q_mempool q) t), None))
            (skip_seen (\<lambda>t. t) after_txid (mempool_history_txids_iter (q_mempool q) sh))
          @ map (\<lambda>r. (history_txid r, row_tx rk lib q r, Some (row_block rk q r))) (unique_by history_txid (rev rs)))"
    by (simp add: comp_def)
  finally show ?thesis by (simp only: take_map)
qed

lemma page_chain:
  assumes v: "view_ok rk kv lib q sh rs" and cx: "cx_rk cx = rk" "cx_lib cx = lib"
    and j: "j < length (unique_by history_txid (rev rs))" and t: "t = history_txid (unique_by history_txid (rev rs) ! j)"
  shows "script_txs cx q sh n (Some t)
    = Ok (map snd (take n (map (\<lambda>r. (history_txid r, row_tx rk lib q r, Some (row_block rk q r)))
        (drop (Suc j) (unique_by history_txid (rev rs))))))"
proof -
  let ?u = "unique_by history_txid (rev rs)"
  define r where "r = ?u ! j"
  have r: "r \<in> set rs" using j unique_by_subset [of history_txid "rev rs"] nth_mem [of j ?u] by (auto simp: r_def)
  define h where "h = thk_confirmed_height r"
  have "locate cx q (Some t) = Ok (InChain h)"
    using cx t view_row(1,2,4) [OF v r] by (simp add: locate_def find_txid_def lift_err_def r_def [symmetric] h_def)
  moreover have "skip_seen history_txid (Some t) (unique_by history_txid (filter (\<lambda>r. thk_confirmed_height r \<le> h) (rev rs))) = drop (Suc j) ?u"
  proof -
    let ?hi = "filter (\<lambda>r. \<not> thk_confirmed_height r \<le> h) (rev rs)" and ?lo = "filter (\<lambda>r. thk_confirmed_height r \<le> h) (rev rs)"
    have "sorted_wrt (\<lambda>a b. thk_confirmed_height b \<le> thk_confirmed_height a) (rev rs)"
      by (rule sorted_wrt_mono_rel [OF _ rows_falling [OF v]]) (auto simp: less_eq_prod_def word_le_def)
    then have split: "rev rs = ?hi @ ?lo" by (rule falling_split)
    have same: "thk_confirmed_height a = thk_confirmed_height b" if "a \<in> set rs" "b \<in> set rs" "history_txid a = history_txid b" for a b
    proof -
      have "row_height a = row_height b" using view_row(2) [OF v] that by (metis row_block_def)
      then show ?thesis by (simp only: word_unat_eq_iff)
    qed
    have "history_txid a \<noteq> history_txid b" if "a \<in> set ?hi" "b \<in> set ?lo" for a b
      using that same [of a b] by auto
    then have "history_txid ` set ?hi \<inter> history_txid ` set ?lo = {}" by blast
    from unique_by_append [OF this] have u: "?u = unique_by history_txid ?hi @ unique_by history_txid ?lo" using split by metis
    have "t \<notin> history_txid ` set (unique_by history_txid ?hi)"
      using same [OF r] t r_def h_def by (auto simp: unique_by_keys)
    then have "skip_seen history_txid (Some t) ?u = skip_seen history_txid (Some t) (unique_by history_txid ?lo)"
      by (subst u) (rule skip_seen_append)
    moreover have "skip_seen history_txid (Some t) ?u = drop (Suc j) ?u"
      unfolding t by (rule skip_seen_nth [OF unique_by_distinct j])
    ultimately show ?thesis by simp
  qed
  ultimately show ?thesis
    using cx chain_part [OF v, of "Some t" "Some h" n]
    by (cases n) (simp_all add: script_txs_def txs_after_def confirmed_after_txid_def location_height_def take_map comp_def)
qed

section \<open>Properties\<close>

text \<open>C28: paging through the transactions of a script. The first page is the beginning of its whole
  history, mempool before chain, latest first; and a page behind any transaction of that history is
  exactly what follows it, also across the border between mempool and chain: nothing is repeated and
  nothing is left out, whatever the size of the pages.\<close>

theorem script_pages_complete:
  assumes v: "view_ok (cx_rk cx) kv (cx_lib cx) q sh rs"
  shows "script_txs cx q sh n None = Ok (map snd (take n (whole_history (cx_rk cx) (cx_lib cx) q sh rs)))
    \<and> (\<forall>i<length (whole_history (cx_rk cx) (cx_lib cx) q sh rs).
         script_txs cx q sh n (Some (fst (whole_history (cx_rk cx) (cx_lib cx) q sh rs ! i)))
           = Ok (map snd (take n (drop (Suc i) (whole_history (cx_rk cx) (cx_lib cx) q sh rs)))))
    \<and> distinct (map fst (whole_history (cx_rk cx) (cx_lib cx) q sh rs))"
proof (intro conjI allI impI)
  let ?ids = "mempool_history_txids_iter (q_mempool q) sh" and ?u = "unique_by history_txid (rev rs)"
  let ?m = "\<lambda>t. (t, the (mempool_lookup_txn (q_mempool q) t), None :: block_id option)"
  let ?c = "\<lambda>r. (history_txid r, row_tx (cx_rk cx) (cx_lib cx) q r, Some (row_block (cx_rk cx) q r))"
  let ?all = "whole_history (cx_rk cx) (cx_lib cx) q sh rs"
  have all: "?all = map ?m ?ids @ map ?c ?u" by (simp add: whole_history_def)
  show "script_txs cx q sh n None = Ok (map snd (take n ?all))"
    unfolding all using page_mempool [OF v refl refl, of None n] by (simp add: locate_def skip_seen_def)
  have stored: "mempool_lookup_txn (q_mempool q) t \<noteq> None" if "t \<in> set ?ids" for t
    using v that by (auto simp: view_ok_def mempool_history_txids_iter_def)
  have ids: "distinct ?ids" by (simp add: mempool_history_txids_iter_def)
  have "t \<notin> history_txid ` set ?u" if "t \<in> set ?ids" for t
    using stored [OF that] view_row(4) [OF v] unique_by_subset [of history_txid "rev rs"] by fastforce
  then show "distinct (map fst ?all)"
    using ids unique_by_distinct [of history_txid "rev rs"] by (auto simp: all comp_def)
  fix i assume i: "i < length ?all"
  show "script_txs cx q sh n (Some (fst (?all ! i))) = Ok (map snd (take n (drop (Suc i) ?all)))"
  proof (cases "i < length ?ids")
    case True
    have "locate cx q (Some (?ids ! i)) = Ok InMempool" using stored True by (simp add: locate_def find_txid_def lift_err_def)
    then have "script_txs cx q sh n (Some (?ids ! i)) = Ok (map snd (take n (map ?m (drop (Suc i) ?ids) @ map ?c ?u)))"
      using page_mempool [OF v refl refl, of "Some (?ids ! i)" n] skip_seen_nth [of "\<lambda>t. t" ?ids i] ids True by simp
    moreover have "drop (Suc i) ?all = map ?m (drop (Suc i) ?ids) @ map ?c ?u" using True by (simp add: all drop_map)
    moreover have "fst (?all ! i) = ?ids ! i" using True by (simp add: all nth_append)
    ultimately show ?thesis by simp
  next
    case False
    define j where "j = i - length ?ids"
    have j: "i = length ?ids + j" "j < length ?u" using False i by (simp_all add: j_def all)
    have "fst (?all ! i) = history_txid (?u ! j)" using j by (simp add: all nth_append)
    moreover have "drop (Suc i) ?all = map ?c (drop (Suc j) ?u)" using j by (simp add: all drop_map)
    ultimately show ?thesis using page_chain [OF v refl refl j(2) refl, of n] by simp
  qed
qed

text \<open>A script with one transaction in the mempool and one in the chain; the node serves the transactions.\<close>

definition demo_page_lib :: bitcoin_lib where
  "demo_page_lib = demo_lib\<lparr>lib_deserialize_tx := (\<lambda>_. Some demo_coinbase), lib_compute_txid := (\<lambda>_. demo_txid 9)\<rparr>"

definition demo_page_query :: "((bytes \<times> bytes) list, nat, nat) query" where
  "demo_page_query =
     demo_query\<lparr>q_chain := demo_balance_cq\<lparr>cq_light_mode := True,
         cq_rpc := (cq_rpc demo_balance_cq)\<lparr>lr_raw_tx := (\<lambda>_ _. Ok []), lr_block_txids := (\<lambda>_. Ok [demo_txid 9, demo_txid 9, demo_txid 9])\<rparr>\<rparr>,
       q_mempool := demo_mempool\<lparr>mp_txstore := [(demo_txid 4, demo_spender)],
         mp_history := [demo_sh \<mapsto> [Funding \<lparr>fu_txid = demo_txid 4, fu_vout = 0, fu_value = 7\<rparr>]]\<rparr>\<rparr>"

definition demo_rl :: "nat rest_lib" where
  "demo_rl =
     \<lparr>rl_parse_hash = (\<lambda>s. if s = [] then Err [] else Ok (demo_hash 1)), rl_decode_hex = (\<lambda>_. None), rl_parse_address = (\<lambda>_. None),
      rl_script_asm = (\<lambda>_. []), rl_is_p2pk = (\<lambda>_. False), rl_is_p2pkh = (\<lambda>_. False), rl_total_size = (\<lambda>_. 0),
      rl_merkleblock = (\<lambda>_ _ _. []), rl_varint = (\<lambda>_. []), rl_form_parse = (\<lambda>_. []), rl_json_strings = (\<lambda>_. Err []),
      rl_utf8 = (\<lambda>_. None), rl_utf8_error = (\<lambda>_. []), rl_debug_text = (\<lambda>s. s), rl_f64 = (\<lambda>n. n), rl_f64_times = (*),
      rl_f64_div = (div), rl_parse_f64 = (\<lambda>_. None), rl_f64_json = jnat, rl_test_mempool_accept = (\<lambda>_ _. Ok JNull),
      rl_submit_package = (\<lambda>_ _ _. Ok JNull), rl_getblocktemplate = Ok JNull\<rparr>"

definition demo_rest_config :: rest_config where
  "demo_rest_config =
     \<lparr>rc_network_type = Bitcoin, rc_address_search = True, rc_enable_mining_rest = False, rc_public_health = True,
      rc_default_block_limit = 10, rc_default_chain_txs_per_page = 2, rc_default_max_mempool_txs = 50,
      rc_default_max_address_summary_txs = 5000, rc_max_mempool_page_size = 1000, rc_max_mempool_txid_page_size = 10000\<rparr>"

definition demo_cx :: "((bytes \<times> bytes) list, nat, nat) rest_ctx" where
  "demo_cx =
     \<lparr>cx_rk = ref_rocks, cx_lib = demo_page_lib, cx_fdiv = (\<lambda>_ _. None), cx_el = demo_el, cx_rl = demo_rl, cx_cfg = demo_rest_config,
      cx_node = demo_query_node, cx_now = 0, cx_json_error = (\<lambda>t. t)\<rparr>"

lemma demo_page_confirming: "tx_confirming_block ref_rocks (q_chain demo_page_query) (demo_txid 9) = Ok (Some demo_blockid)"
  using demo_balance_confirming by (simp add: tx_confirming_block_def demo_page_query_def)

lemma demo_view: "view_ok ref_rocks map_of demo_page_lib demo_page_query demo_sh [demo_history_row 0]"
proof -
  have chain: "cq_store (q_chain demo_page_query) = cq_store demo_balance_cq" by (simp add: demo_page_query_def)
  have ix: "index_ok ref_rocks map_of demo_page_lib (q_chain demo_page_query) demo_sh"
  proof -
    have "wf_headers demo_page_lib hl = wf_headers demo_lib hl" for hl
      by (simp add: wf_headers_def wf_entries_def demo_page_lib_def)
    then show ?thesis using demo_index_ok chain by (simp add: index_ok_def)
  qed
  have rows: "rows_forward ref_rocks (q_chain demo_page_query) 0x48 demo_sh 0 = Ok [demo_history_row 0]"
    using demo_rows_forward chain by (simp add: rows_forward_def history_iter_scan_def)
  have tx: "lookup_txn ref_rocks demo_page_lib (q_chain demo_page_query) (demo_txid 9) b = Ok (Some demo_coinbase)" if "b \<noteq> None" for b
    using that by (auto simp: lookup_txn_def lookup_raw_txn_def demo_page_query_def bind_opt_def ok_opt_def expect_def demo_page_lib_def get_txid_def)
  have "reachable_row (demo_history_row 0)" by (simp add: reachable_row_def history_new_def)
  moreover have "mempool_lookup_txn (q_mempool demo_page_query) (demo_txid 9) = None"
    by (simp add: demo_page_query_def mempool_lookup_txn_def)
  moreover have "\<forall>e\<in>set (history_entries (q_mempool demo_page_query) demo_sh). mempool_lookup_txn (q_mempool demo_page_query) (hi_txid e) \<noteq> None"
    by (simp add: demo_page_query_def history_entries_def mempool_lookup_txn_def)
  ultimately show ?thesis
    using ix rows demo_page_confirming tx demo_history_row_sel by (simp add: view_ok_def blockid_of_def)
qed

theorem script_pages_complete_witness:
  "script_txs demo_cx demo_page_query demo_sh 1 (Some (demo_txid 4)) = Ok [(demo_coinbase, Some demo_blockid)]"
proof -
  have cx: "cx_rk demo_cx = ref_rocks" "cx_lib demo_cx = demo_page_lib" by (simp_all add: demo_cx_def)
  let ?all = "whole_history ref_rocks demo_page_lib demo_page_query demo_sh [demo_history_row 0]"
  have b: "row_block ref_rocks demo_page_query (demo_history_row 0) = demo_blockid"
    using view_row(1) [OF demo_view, of "demo_history_row 0"] by (simp add: demo_history_row_sel demo_page_confirming)
  have t: "row_tx ref_rocks demo_page_lib demo_page_query (demo_history_row 0) = demo_coinbase"
    by (simp add: row_tx_def lookup_txn_def lookup_raw_txn_def demo_page_query_def bind_opt_def ok_opt_def expect_def demo_page_lib_def
        get_txid_def demo_history_row_sel)
  have "?all = [(demo_txid 4, demo_spender, None), (demo_txid 9, demo_coinbase, Some demo_blockid)]"
    unfolding whole_history_def
    by (simp add: unique_by_def b t demo_history_row_sel mempool_history_txids_iter_def history_entries_def)
      (simp add: demo_page_query_def mempool_lookup_txn_def)
  moreover have "view_ok (cx_rk demo_cx) map_of (cx_lib demo_cx) demo_page_query demo_sh [demo_history_row 0]" using demo_view cx by simp
  note script_pages_complete [OF this, of 1, THEN conjunct2, THEN conjunct1, THEN spec, of 0]
  ultimately show ?thesis by (simp add: cx)
qed

text \<open>The pages of a block. A page begins at a multiple of the page size below the number of
  transactions, every other start is an error; the pages put together are all transactions of the block,
  in order.\<close>

theorem block_pages_tile:
  assumes "block_txids cx q h = Ok txids"
    and "\<forall>t\<in>set txids. query_lookup_txn (cx_rk cx) (cx_lib cx) q t = Ok (Some (tx t))"
    and "0 < rc_default_chain_txs_per_page (cx_cfg cx)"
  shows "(\<forall>s. is_ok (block_page cx q h s) \<longleftrightarrow> s < length txids \<and> rc_default_chain_txs_per_page (cx_cfg cx) dvd s)
    \<and> (\<exists>pages. collect_out (\<lambda>k. block_page cx q h (k * rc_default_chain_txs_per_page (cx_cfg cx)))
           [0..<(length txids + rc_default_chain_txs_per_page (cx_cfg cx) - 1) div rc_default_chain_txs_per_page (cx_cfg cx)] = Ok pages
         \<and> concat pages = map (\<lambda>t. (tx t, blockid_by_hash (q_chain q) h)) txids)"
proof -
  let ?p = "rc_default_chain_txs_per_page (cx_cfg cx)" and ?f = "\<lambda>t. (tx t, blockid_by_hash (q_chain q) h)"
  let ?n = "(length txids + ?p - 1) div ?p"
  have page: "block_page cx q h s = (if length txids \<le> s then Err (he_not_found (lit ''start index out of range''))
      else if \<not> ?p dvd s then Err (he_from_string (lit ''start index must be a multipication of '' @ show_nat ?p))
      else Ok (map ?f (take ?p (drop s txids))))" for s
  proof -
    have sub: "set (take ?p (drop s txids)) \<subseteq> set txids" by (meson set_drop_subset set_take_subset subset_trans)
    have "collect_out (\<lambda>txid. bind_out (lift_err (query_lookup_txn (cx_rk cx) (cx_lib cx) q txid)) (\<lambda>tx.
            case tx of Some t \<Rightarrow> Ok (t, blockid_by_hash (q_chain q) h) | None \<Rightarrow> Err (he_from_string (lit ''missing tx''))))
          (take ?p (drop s txids)) = Ok (map ?f (take ?p (drop s txids)))"
      by (rule collect_out_total) (use assms(2) sub in \<open>auto simp: lift_err_def\<close>)
    then show ?thesis using assms(1) by (simp add: block_page_def)
  qed
  have last: "k * ?p < length txids" if "k < ?n" for k
  proof -
    have "Suc k * ?p \<le> length txids + ?p - 1" using that assms(3) by (metis Suc_leI div_le_mono less_eq_div_iff_mult_less_eq)
    then show ?thesis using assms(3) by simp
  qed
  have "collect_out (\<lambda>k. block_page cx q h (k * ?p)) [0..<?n] = Ok (map (\<lambda>k. map ?f (take ?p (drop (k * ?p) txids))) [0..<?n])"
  proof (rule collect_out_total)
    fix k assume "k \<in> set [0..<?n]"
    then have "\<not> length txids \<le> k * ?p" using last [of k] by simp
    then show "block_page cx q h (k * ?p) = Ok (map ?f (take ?p (drop (k * ?p) txids)))" unfolding page by simp
  qed
  moreover have "concat (map (\<lambda>k. map ?f (take ?p (drop (k * ?p) txids))) [0..<n]) = map ?f (take (n * ?p) txids)" for n
  proof (induction n)
    case (Suc n)
    have "take (Suc n * ?p) txids = take (n * ?p) txids @ take ?p (drop (n * ?p) txids)"
      using take_add [of "n * ?p" ?p txids] by (simp add: add.commute)
    then show ?case using Suc by simp
  qed simp
  moreover have "length txids \<le> ?n * ?p"
    using dividend_less_div_times [OF assms(3), of "length txids + ?p - 1"] assms(3) by linarith
  ultimately show ?thesis unfolding page by (auto simp: is_ok_def)
qed

theorem block_pages_tile_witness:
  "\<exists>pages. collect_out (\<lambda>k. block_page demo_cx demo_page_query (demo_hash 3) (k * 2)) [0..<2] = Ok pages
     \<and> concat pages = replicate 3 (demo_coinbase, Some demo_blockid)"
proof -
  have ids: "block_txids demo_cx demo_page_query (demo_hash 3) = Ok [demo_txid 9, demo_txid 9, demo_txid 9]"
    by (simp add: block_txids_def found_def get_block_txids_def demo_page_query_def ok_opt_def lift_err_def ok_or_def)
  have "lookup_txn ref_rocks demo_page_lib (q_chain demo_page_query) (demo_txid 9) None = Ok (Some demo_coinbase)"
    using demo_page_confirming by (simp add: lookup_txn_def lookup_raw_txn_def bind_opt_def ok_opt_def expect_def)
      (simp add: demo_page_query_def demo_page_lib_def get_txid_def)
  then have look: "\<forall>t\<in>set [demo_txid 9, demo_txid 9, demo_txid 9]. query_lookup_txn (cx_rk demo_cx) (cx_lib demo_cx) demo_page_query t = Ok (Some demo_coinbase)"
    by (simp add: query_lookup_txn_def or_else_def demo_cx_def)
  have b: "blockid_by_hash (q_chain demo_page_query) (demo_hash 3) = Some demo_blockid"
    by (simp add: blockid_by_hash_def demo_page_query_def demo_confirm_cq_def header_by_blockhash_def demo_hl_eq entries_of_def nth_opt_def)
  have p: "rc_default_chain_txs_per_page (cx_cfg demo_cx) = 2" by (simp add: demo_cx_def demo_rest_config_def)
  show ?thesis using block_pages_tile [OF ids look, unfolded p, THEN conjunct2] b by (simp add: numeral_3_eq_3 upt_rec)
qed

end
