(* ===== verification/Mwck.thy ===== *)
theory Mwck
  imports Rest
begin

text \<open>
  The hub of the websocket clients (\<^verbatim>\<open>src/mwck.rs\<close>): the subscriptions of a client, the events it is sent
  when the mempool changes or a block arrives, the snapshot a new subscription is answered with, and the
  replay of orphaned blocks on a reorganisation. A \<open>BTreeMap\<close> is the sorted list of its entries; what is
  sent to a client is appended to its list; the locks only order the operations.
\<close>

section \<open>State\<close>

definition MAX_MEMPOOL_TX_BODIES :: nat where
  "MAX_MEMPOOL_TX_BODIES = 65536"

record 'g mempool_tx_bodies =
  mb_by_txid :: "(utext \<times> 'g json) list"
  mb_order :: "utext list"

record client_state =
  cs_track_address :: "utext option"
  cs_track_address_original :: "utext option"
  cs_track_addresses :: "(utext \<times> utext) list"
  cs_track_scriptpubkeys :: "utext list"

definition client_default :: client_state where
  "client_default =
     \<lparr>cs_track_address = None, cs_track_address_original = None, cs_track_addresses = [], cs_track_scriptpubkeys = []\<rparr>"

record 'g hub_client =
  hc_state :: client_state
  hc_out :: "'g json list option"

record 'g tip_block =
  tb_hash :: hash
  tb_txs :: "'g json list"

record 'g tx_buckets =
  bk_mempool :: "'g json list"
  bk_confirmed :: "'g json list"
  bk_removed :: "'g json list"

definition buckets_default :: "'g tx_buckets" where
  "buckets_default = \<lparr>bk_mempool = [], bk_confirmed = [], bk_removed = []\<rparr>"

record 'g mwck_hub =
  mh_clients :: "(nat \<times> 'g hub_client) list"
  mh_next_id :: nat
  mh_recent_confirmed :: "(nat \<times> 'g tip_block) list"
  mh_mempool_tx_bodies :: "'g mempool_tx_bodies"

definition hub_new :: "'g mwck_hub" where
  "hub_new = \<lparr>mh_clients = [], mh_next_id = 1, mh_recent_confirmed = [], mh_mempool_tx_bodies = \<lparr>mb_by_txid = [], mb_order = []\<rparr>\<rparr>"

definition attach :: "client_state \<Rightarrow> 'g json list option \<Rightarrow> 'g mwck_hub \<Rightarrow> nat \<times> 'g mwck_hub" where
  "attach st out hub =
     (mh_next_id hub,
      hub\<lparr>mh_next_id := (mh_next_id hub + 1) mod 2 ^ 64,
          mh_clients := btree_insert (mh_next_id hub) \<lparr>hc_state = st, hc_out = out\<rparr> (mh_clients hub)\<rparr>)"

definition register_socket :: "'g mwck_hub \<Rightarrow> nat \<times> 'g mwck_hub" where
  "register_socket hub = attach client_default (Some []) hub"

definition set_client_state :: "nat \<Rightarrow> client_state \<Rightarrow> 'g mwck_hub \<Rightarrow> 'g mwck_hub" where
  "set_client_state i st hub =
     hub\<lparr>mh_clients := map (\<lambda>(k, c). (k, if k = i then c\<lparr>hc_state := st\<rparr> else c)) (mh_clients hub)\<rparr>"

definition detach_client :: "nat \<Rightarrow> 'g mwck_hub \<Rightarrow> 'g mwck_hub" where
  "detach_client i hub = hub\<lparr>mh_clients := filter (\<lambda>e. fst e \<noteq> i) (mh_clients hub)\<rparr>"

section \<open>Keys\<close>

definition is_hex_char :: "nat \<Rightarrow> bool" where
  "is_hex_char c \<longleftrightarrow> 48 \<le> c \<and> c \<le> 57 \<or> 65 \<le> c \<and> c \<le> 70 \<or> 97 \<le> c \<and> c \<le> 102"

definition is_hex :: "utext \<Rightarrow> bool" where
  "is_hex s \<longleftrightarrow> s \<noteq> [] \<and> (\<forall>c\<in>set s. is_hex_char c)"

definition is_hex_len :: "utext \<Rightarrow> nat \<Rightarrow> bool" where
  "is_hex_len s n \<longleftrightarrow> utf8_len s = n \<and> (\<forall>c\<in>set s. is_hex_char c)"

definition is_base58_char :: "nat \<Rightarrow> bool" where
  "is_base58_char b \<longleftrightarrow> 49 \<le> b \<and> b \<le> 57 \<or> 65 \<le> b \<and> b \<le> 72 \<or> 74 \<le> b \<and> b \<le> 78 \<or> 80 \<le> b \<and> b \<le> 90 \<or> 97 \<le> b \<and> b \<le> 107 \<or> 109 \<le> b \<and> b \<le> 122"

definition is_base58_addr :: "utext \<Rightarrow> bool" where
  "is_base58_addr s \<longleftrightarrow> (utf8_len s = 80 \<or> 26 \<le> utf8_len s \<and> utf8_len s \<le> 35) \<and> (\<forall>c\<in>set s. is_base58_char c)"

definition is_bech32_hrp_lower :: "nat \<Rightarrow> bool" where
  "is_bech32_hrp_lower b \<longleftrightarrow> 97 \<le> b \<and> b \<le> 122"

definition is_bech32_hrp_upper :: "nat \<Rightarrow> bool" where
  "is_bech32_hrp_upper b \<longleftrightarrow> 65 \<le> b \<and> b \<le> 90"

definition is_bech32_data_lower :: "nat \<Rightarrow> bool" where
  "is_bech32_data_lower b \<longleftrightarrow>
     97 \<le> b \<and> b \<le> 104 \<or> b = 106 \<or> b = 107 \<or> b = 109 \<or> b = 110 \<or> 112 \<le> b \<and> b \<le> 122 \<or> b = 48 \<or> 50 \<le> b \<and> b \<le> 57"

definition is_bech32_data_upper :: "nat \<Rightarrow> bool" where
  "is_bech32_data_upper b \<longleftrightarrow>
     65 \<le> b \<and> b \<le> 72 \<or> b = 74 \<or> b = 75 \<or> b = 77 \<or> b = 78 \<or> 80 \<le> b \<and> b \<le> 90 \<or> b = 48 \<or> 50 \<le> b \<and> b \<le> 57"

text \<open>The bytes of the text; those of a character that is not ASCII satisfy none of the tests.\<close>

definition bech32_shape :: "utext \<Rightarrow> (nat \<Rightarrow> bool) \<Rightarrow> (nat \<Rightarrow> bool) \<Rightarrow> bool" where
  "bech32_shape s hrp data =
     (let bs = map unat (utf8_encode s); sep = length (takeWhile (\<lambda>b. b \<noteq> 49) bs)
      in sep < length bs \<and> 2 \<le> sep \<and> sep \<le> 5
         \<and> 8 \<le> length bs - sep - 1 \<and> length bs - sep - 1 \<le> 100
         \<and> (\<forall>b\<in>set (take sep bs). hrp b) \<and> (\<forall>b\<in>set (drop (sep + 1) bs). data b))"

definition is_bech32_lower :: "utext \<Rightarrow> bool" where
  "is_bech32_lower s = bech32_shape s is_bech32_hrp_lower is_bech32_data_lower"

definition is_bech32_upper :: "utext \<Rightarrow> bool" where
  "is_bech32_upper s = bech32_shape s is_bech32_hrp_upper is_bech32_data_upper"

definition canonical_track_key :: "utext \<Rightarrow> utext option" where
  "canonical_track_key raw =
     (let s = trim raw in
      if s = [] then None
      else if is_hex_len s 66 \<and> (eq_ignore_ascii_case (take 2 s) (lit ''02'') \<or> eq_ignore_ascii_case (take 2 s) (lit ''03''))
      then Some (lit ''21'' @ ascii_lower s @ lit ''ac'')
      else if is_hex_len s 130 \<and> eq_ignore_ascii_case (take 2 s) (lit ''04'')
      then Some (lit ''41'' @ ascii_lower s @ lit ''ac'')
      else if is_bech32_upper s then Some (ascii_lower s)
      else if is_bech32_lower s \<or> is_base58_addr s then Some s
      else None)"

section \<open>Subscriptions\<close>

definition buckets_json :: "'g tx_buckets \<Rightarrow> 'g json" where
  "buckets_json b =
     JObject [(lit ''confirmed'', JArray (bk_confirmed b)), (lit ''mempool'', JArray (bk_mempool b)), (lit ''removed'', JArray (bk_removed b))]"

definition emit_multi :: "string \<Rightarrow> (utext \<times> 'g tx_buckets) list \<Rightarrow> (utext \<times> 'g json) list" where
  "emit_multi event_key per_key = [(lit event_key, JObject (map (\<lambda>(k, b). (k, buckets_json b)) per_key))]"

definition json_extend :: "(utext \<times> 'g json) list \<Rightarrow> (utext \<times> 'g json) list \<Rightarrow> (utext \<times> 'g json) list" where
  "json_extend out members = fold (\<lambda>(k, v). btree_insert k v) members out"

definition apply_track_address :: "client_state \<Rightarrow> 'g json \<Rightarrow> client_state" where
  "apply_track_address st v =
     (case Option.bind (as_str v) (\<lambda>s. map_option (Pair s) (canonical_track_key s)) of
        Some (s, canon) \<Rightarrow> st\<lparr>cs_track_address_original := Some s, cs_track_address := Some canon\<rparr>
      | None \<Rightarrow> st\<lparr>cs_track_address := None, cs_track_address_original := None\<rparr>)"

definition track_map :: "'g json list \<Rightarrow> (utext \<times> utext) list" where
  "track_map arr =
     fold (\<lambda>item m. case Option.bind (as_str item) (\<lambda>s. map_option (Pair s) (canonical_track_key s)) of
                      Some (s, canon) \<Rightarrow> btree_insert s canon m | None \<Rightarrow> m) arr []"

definition apply_track_addresses :: "client_state \<Rightarrow> 'g json \<Rightarrow> client_state \<times> (utext \<times> utext) list option" where
  "apply_track_addresses st v =
     (let m = (case as_array v of Some arr \<Rightarrow> track_map arr | None \<Rightarrow> [])
      in (st\<lparr>cs_track_addresses := m\<rparr>, if m = [] then None else Some m))"

definition track_spks :: "'g json list \<Rightarrow> utext list" where
  "track_spks arr = unique_by (\<lambda>s. s) (map ascii_lower (filter is_hex (List.map_filter as_str arr)))"

definition apply_track_scriptpubkeys :: "client_state \<Rightarrow> 'g json \<Rightarrow> client_state \<times> utext list option" where
  "apply_track_scriptpubkeys st v =
     (let spks = (case as_array v of Some arr \<Rightarrow> track_spks arr | None \<Rightarrow> [])
      in (st\<lparr>cs_track_scriptpubkeys := spks\<rparr>, if spks = [] then None else Some spks))"

definition handle_client_json :: "client_state \<Rightarrow> 'g json \<Rightarrow> client_state \<times> 'g json option" where
  "handle_client_json st msg =
     (case msg of
        JObject _ \<Rightarrow>
          (let st1 = (case json_get msg (lit ''track-address'') of Some v \<Rightarrow> apply_track_address st v | None \<Rightarrow> st);
               (st2, addresses) = (case json_get msg (lit ''track-addresses'') of Some v \<Rightarrow> apply_track_addresses st1 v | None \<Rightarrow> (st1, None));
               (st3, spks) = (case json_get msg (lit ''track-scriptpubkeys'') of Some v \<Rightarrow> apply_track_scriptpubkeys st2 v | None \<Rightarrow> (st2, None));
               out1 = (case addresses of Some m \<Rightarrow> emit_multi ''multi-address-transactions'' (map (\<lambda>e. (fst e, buckets_default)) m) | None \<Rightarrow> []);
               out2 = (case spks of
                         Some ks \<Rightarrow> json_extend out1 (emit_multi ''multi-scriptpubkey-transactions'' (fold (\<lambda>k. btree_insert k buckets_default) ks []))
                       | None \<Rightarrow> out1)
           in (st3, if out2 = [] then None else Some (JObject out2)))
      | _ \<Rightarrow> (st, None))"

definition handle_authorized_json :: "allowlist \<Rightarrow> bytes \<Rightarrow> client_state \<Rightarrow> 'g json \<Rightarrow> client_state \<times> 'g json option" where
  "handle_authorized_json allow pubkey st msg =
     (if \<not> allowlist_contains allow pubkey then (st, None) else handle_client_json st msg)"

section \<open>Events\<close>

definition touch_element :: "bool \<Rightarrow> 'g json \<Rightarrow> utext list \<times> utext list" where
  "touch_element vin el =
     (let prev = (if vin then (case json_get el (lit ''prevout'') of Some p \<Rightarrow> p | None \<Rightarrow> el) else el);
          addr = Option.bind (json_get prev (lit ''scriptpubkey_address'')) as_str;
          spk = Option.bind (json_get prev (lit ''scriptpubkey'')) as_str
      in (case addr of Some a \<Rightarrow> a # (case canonical_track_key a of Some c \<Rightarrow> [c] | None \<Rightarrow> []) | None \<Rightarrow> [],
          case spk of Some s \<Rightarrow> [ascii_lower s] | None \<Rightarrow> []))"

definition json_side :: "'g json \<Rightarrow> string \<Rightarrow> 'g json list" where
  "json_side tx side = (case Option.bind (json_get tx (lit side)) as_array of Some arr \<Rightarrow> arr | None \<Rightarrow> [])"

definition tx_touch_set :: "'g json \<Rightarrow> utext set \<times> utext set" where
  "tx_touch_set tx =
     (let touched = map (touch_element True) (json_side tx ''vin'') @ map (touch_element False) (json_side tx ''vout'')
      in (set (concat (map fst touched)), set (concat (map snd touched))))"

definition tx_matches :: "utext \<Rightarrow> 'g json \<Rightarrow> bool" where
  "tx_matches key tx = (case tx_touch_set tx of (addresses, spks) \<Rightarrow> key \<in> addresses \<or> key \<in> spks)"

definition hits :: "utext \<Rightarrow> 'g json list \<Rightarrow> 'g json list" where
  "hits key txs = filter (tx_matches key) txs"

text \<open>The buckets per key, without those that are empty.\<close>

definition key_buckets :: "(utext \<Rightarrow> 'g tx_buckets) \<Rightarrow> (utext \<times> utext) list \<Rightarrow> (utext \<times> 'g tx_buckets) list" where
  "key_buckets buckets keys =
     fold (\<lambda>(orig, canon) m. if buckets canon \<noteq> buckets_default then btree_insert orig (buckets canon) m else m) keys []"

definition emit_event :: "client_state \<Rightarrow> (utext \<times> 'g json) list \<Rightarrow> (utext \<Rightarrow> 'g tx_buckets) \<Rightarrow> 'g json option" where
  "emit_event st single buckets =
     (let per_address = key_buckets buckets (cs_track_addresses st);
          per_spk = key_buckets buckets (map (\<lambda>k. (k, k)) (cs_track_scriptpubkeys st));
          out1 = (if per_address = [] then single else json_extend single (emit_multi ''multi-address-transactions'' per_address));
          out2 = (if per_spk = [] then out1 else json_extend out1 (emit_multi ''multi-scriptpubkey-transactions'' per_spk))
      in if out2 = [] then None else Some (JObject out2))"

definition on_mempool :: "client_state \<Rightarrow> 'g json list \<Rightarrow> 'g json list \<Rightarrow> 'g json option" where
  "on_mempool st added removed =
     emit_event st
       (case cs_track_address st of
          Some canon \<Rightarrow>
            (let add = (if hits canon added = [] then [] else [(lit ''address-transactions'', JArray (hits canon added))])
             in if hits canon removed = [] then add
                else btree_insert (lit ''address-removed-transactions'') (JArray (hits canon removed)) add)
        | None \<Rightarrow> [])
       (\<lambda>key. \<lparr>bk_mempool = hits key added, bk_confirmed = [], bk_removed = hits key removed\<rparr>)"

definition on_block :: "client_state \<Rightarrow> 'g json list \<Rightarrow> 'g json option" where
  "on_block st confirmed =
     emit_event st
       (case cs_track_address st of
          Some canon \<Rightarrow> if hits canon confirmed = [] then [] else [(lit ''block-transactions'', JArray (hits canon confirmed))]
        | None \<Rightarrow> [])
       (\<lambda>key. \<lparr>bk_mempool = [], bk_confirmed = hits key confirmed, bk_removed = []\<rparr>)"

definition send_event :: "(client_state \<Rightarrow> 'g json option) \<Rightarrow> 'g mwck_hub \<Rightarrow> 'g mwck_hub" where
  "send_event event hub =
     hub\<lparr>mh_clients := map (\<lambda>(k, c). (k, case event (hc_state c) of
                                          Some ev \<Rightarrow> c\<lparr>hc_out := map_option (\<lambda>sent. sent @ [ev]) (hc_out c)\<rparr>
                                        | None \<Rightarrow> c)) (mh_clients hub)\<rparr>"

section \<open>Bodies of mempool transactions\<close>

definition is_full_tx_object :: "'g json \<Rightarrow> bool" where
  "is_full_tx_object v \<longleftrightarrow> json_get v (lit ''vin'') \<noteq> None \<or> json_get v (lit ''vout'') \<noteq> None"

definition json_txid :: "'g json \<Rightarrow> utext option" where
  "json_txid v = Option.bind (json_get v (lit ''txid'')) as_str"

text \<open>The loop that makes room, as far as there are entries in the order.\<close>

fun evict :: "utext list \<Rightarrow> (utext \<times> 'g json) list \<Rightarrow> 'g mempool_tx_bodies" where
  "evict order bodies =
     (if MAX_MEMPOOL_TX_BODIES \<le> length bodies
      then (case order of
              [] \<Rightarrow> \<lparr>mb_by_txid = bodies, mb_order = []\<rparr>
            | old # rest \<Rightarrow> evict rest (filter (\<lambda>e. fst e \<noteq> old) bodies))
      else \<lparr>mb_by_txid = bodies, mb_order = order\<rparr>)"

declare evict.simps [simp del]

definition put_body :: "utext \<Rightarrow> 'g json \<Rightarrow> (utext \<times> 'g json) list \<Rightarrow> (utext \<times> 'g json) list" where
  "put_body k v m = (if k \<in> fst ` set m then map (\<lambda>e. if fst e = k then (k, v) else e) m else m @ [(k, v)])"

definition remember_mempool_body :: "'g json \<Rightarrow> 'g mempool_tx_bodies \<Rightarrow> 'g mempool_tx_bodies" where
  "remember_mempool_body tx cache =
     (case (is_full_tx_object tx, json_txid tx) of
        (True, Some txid) \<Rightarrow>
          if map_of (mb_by_txid cache) txid \<noteq> None then cache\<lparr>mb_by_txid := put_body txid tx (mb_by_txid cache)\<rparr>
          else (let room = evict (mb_order cache) (mb_by_txid cache)
                in \<lparr>mb_by_txid = put_body txid tx (mb_by_txid room), mb_order = mb_order room @ [txid]\<rparr>)
      | _ \<Rightarrow> cache)"

definition remember_mempool_bodies :: "'g json list \<Rightarrow> 'g mwck_hub \<Rightarrow> 'g mwck_hub" where
  "remember_mempool_bodies txs hub = hub\<lparr>mh_mempool_tx_bodies := fold remember_mempool_body txs (mh_mempool_tx_bodies hub)\<rparr>"

definition prefer_full_removed :: "'g json list \<Rightarrow> (utext \<rightharpoonup> 'g json) \<Rightarrow> 'g json list" where
  "prefer_full_removed removed available =
     map (\<lambda>v. if is_full_tx_object v then v
              else (case json_txid v of
                      None \<Rightarrow> v
                    | Some txid \<Rightarrow>
                        (case available txid of
                           Some full \<Rightarrow> if is_full_tx_object full then full else JObject [(lit ''txid'', JString txid)]
                         | None \<Rightarrow> JObject [(lit ''txid'', JString txid)]))) removed"

definition tx_json ::
  "('d, 'f, 'g) rest_ctx \<Rightarrow> ('d, 'f, 'g) query \<Rightarrow> (transaction \<times> block_id option) list \<Rightarrow> (error_kind, 'g json list) outcome"
where
  "tx_json cx q txs = transactions_as_json (cx_rk cx) (cx_lib cx) (cx_el cx) (cx_rl cx) (cx_cfg cx) q txs"

text \<open>The body of a removed transaction: from the cache, or else from the query.\<close>

definition removed_body ::
  "('d, 'f, 'g) rest_ctx \<Rightarrow> ('d, 'f, 'g) query \<Rightarrow> 'g mempool_tx_bodies \<Rightarrow> utext \<Rightarrow> (error_kind, 'g json option) outcome"
where
  "removed_body cx q cache txid =
     (case map_of (mb_by_txid cache) txid of
        Some full \<Rightarrow> Ok (Some full)
      | None \<Rightarrow>
          (case rl_parse_hash (cx_rl cx) txid of
             Ok h \<Rightarrow> bind_opt (query_lookup_txn (cx_rk cx) (cx_lib cx) q h) (\<lambda>tx. map_out first_opt (tx_json cx q [(tx, None)]))
           | Err _ \<Rightarrow> Ok None
           | Panic s \<Rightarrow> Panic s))"

definition removed_stubs :: "'g json list \<Rightarrow> utext list" where
  "removed_stubs removed = List.map_filter (\<lambda>v. if is_full_tx_object v then None else json_txid v) removed"

definition enrich_removed ::
  "('d, 'f, 'g) rest_ctx \<Rightarrow> ('d, 'f, 'g) query \<Rightarrow> 'g json list \<Rightarrow> 'g mwck_hub \<Rightarrow> (error_kind, 'g json list \<times> 'g mwck_hub) outcome"
where
  "enrich_removed cx q removed hub =
     (let cache = mh_mempool_tx_bodies hub in
      map_out
        (\<lambda>bodies.
           (prefer_full_removed removed (map_of (List.map_filter (\<lambda>(t, b). map_option (Pair t) b) bodies)),
            hub\<lparr>mh_mempool_tx_bodies := cache\<lparr>mb_by_txid := filter (\<lambda>e. fst e \<notin> set (List.map_filter json_txid removed)) (mb_by_txid cache)\<rparr>\<rparr>))
        (collect_out (\<lambda>t. map_out (Pair t) (removed_body cx q cache t)) (removed_stubs removed)))"

definition notify_mempool ::
  "('d, 'f, 'g) rest_ctx \<Rightarrow> ('d, 'f, 'g) query \<Rightarrow> 'g json list \<Rightarrow> 'g json list \<Rightarrow> 'g mwck_hub \<Rightarrow> (error_kind, 'g mwck_hub) outcome"
where
  "notify_mempool cx q added removed hub =
     map_out (\<lambda>(removed, hub). send_event (\<lambda>st. on_mempool st added removed) hub)
       (enrich_removed cx q removed (remember_mempool_bodies added hub))"

definition notify_block :: "'g json list \<Rightarrow> 'g mwck_hub \<Rightarrow> 'g mwck_hub" where
  "notify_block confirmed hub = send_event (\<lambda>st. on_block st confirmed) hub"

definition notify_blocks :: "'g json list list \<Rightarrow> 'g mwck_hub \<Rightarrow> 'g mwck_hub" where
  "notify_blocks blks hub = (if concat blks \<noteq> [] then notify_block (concat blks) hub else hub)"

section \<open>A new tip\<close>

definition block_at ::
  "('d, 'f, 'g) rest_ctx \<Rightarrow> ('d, 'f, 'g) query \<Rightarrow> nat \<Rightarrow> (error_kind, 'g tip_block option) outcome"
where
  "block_at cx q height =
     bind_opt (hash_by_height (q_chain q) height) (\<lambda>h.
     bind_out (get_block_txs (cx_rk cx) (cx_lib cx) (q_chain q) h) (\<lambda>txs.
     map_out (\<lambda>js. Some \<lparr>tb_hash = h, tb_txs = js\<rparr>)
       (case txs of
          Some ts \<Rightarrow> tx_json cx q (map (\<lambda>tx. (tx, blockid_by_hash (q_chain q) h)) ts)
        | None \<Rightarrow> Ok [])))"

text \<open>The part of \<open>notify_new_tip\<close> that is a function of the blocks of the chain.\<close>

definition stale_heights :: "(nat \<Rightarrow> 'g tip_block option) \<Rightarrow> (nat \<times> 'g tip_block) list \<Rightarrow> nat list" where
  "stale_heights blk recent =
     map fst (filter (\<lambda>(h, old). case blk h of Some cur \<Rightarrow> tb_hash cur \<noteq> tb_hash old | None \<Rightarrow> True) recent)"

definition orphaned_txs :: "(nat \<Rightarrow> 'g tip_block option) \<Rightarrow> (nat \<times> 'g tip_block) list \<Rightarrow> 'g json list" where
  "orphaned_txs blk recent =
     concat (map (\<lambda>h. case map_of recent h of Some old \<Rightarrow> tb_txs old | None \<Rightarrow> []) (stale_heights blk recent))"

definition replacement_blocks :: "(nat \<Rightarrow> 'g tip_block option) \<Rightarrow> (nat \<times> 'g tip_block) list \<Rightarrow> (nat \<times> 'g tip_block) list" where
  "replacement_blocks blk recent = List.map_filter (\<lambda>h. map_option (Pair h) (blk h)) (stale_heights blk recent)"

definition kept_blocks :: "(nat \<Rightarrow> 'g tip_block option) \<Rightarrow> (nat \<times> 'g tip_block) list \<Rightarrow> (nat \<times> 'g tip_block) list" where
  "kept_blocks blk recent = filter (\<lambda>e. fst e \<notin> set (stale_heights blk recent)) recent"

definition forward_blocks ::
  "(nat \<Rightarrow> 'g tip_block option) \<Rightarrow> nat \<Rightarrow> nat \<Rightarrow> (nat \<times> 'g tip_block) list \<Rightarrow> (nat \<times> 'g tip_block) list"
where
  "forward_blocks blk prev_height new_height recent =
     (if prev_height < new_height
      then List.map_filter (\<lambda>h. map_option (Pair h) (blk h))
             (filter (\<lambda>h. h \<notin> fst ` set (kept_blocks blk recent) \<and> h \<notin> fst ` set (replacement_blocks blk recent))
                [min (prev_height + 1) (2 ^ 64 - 1)..<new_height + 1])
      else [])"

definition new_blocks ::
  "(nat \<Rightarrow> 'g tip_block option) \<Rightarrow> nat \<Rightarrow> nat \<Rightarrow> (nat \<times> 'g tip_block) list \<Rightarrow> (nat \<times> 'g tip_block) list"
where
  "new_blocks blk prev_height new_height recent = replacement_blocks blk recent @ forward_blocks blk prev_height new_height recent"

definition recent_after ::
  "(nat \<Rightarrow> 'g tip_block option) \<Rightarrow> nat \<Rightarrow> nat \<Rightarrow> (nat \<times> 'g tip_block) list \<Rightarrow> (nat \<times> 'g tip_block) list"
where
  "recent_after blk prev_height new_height recent =
     filter (\<lambda>e. new_height - 16 \<le> fst e)
       (fold (\<lambda>(h, b). btree_insert h b) (new_blocks blk prev_height new_height recent) (kept_blocks blk recent))"

text \<open>The heights \<open>notify_new_tip\<close> asks for.\<close>

definition asked_heights :: "nat \<Rightarrow> nat \<Rightarrow> (nat \<times> 'g tip_block) list \<Rightarrow> nat list" where
  "asked_heights prev_height new_height recent =
     map fst recent @ (if prev_height < new_height then [min (prev_height + 1) (2 ^ 64 - 1)..<new_height + 1] else [])"

definition notify_new_tip ::
  "('d, 'f, 'g) rest_ctx \<Rightarrow> ('d, 'f, 'g) query \<Rightarrow> nat \<Rightarrow> nat \<Rightarrow> 'g mwck_hub \<Rightarrow> (error_kind, 'g mwck_hub) outcome"
where
  "notify_new_tip cx q prev_height new_height hub =
     bind_out (collect_out (\<lambda>h. map_out (Pair h) (block_at cx q h)) (asked_heights prev_height new_height (mh_recent_confirmed hub))) (\<lambda>found.
     let blk = (\<lambda>h. case map_of found h of Some b \<Rightarrow> b | None \<Rightarrow> None);
         recent = mh_recent_confirmed hub;
         orphaned = orphaned_txs blk recent;
         news = new_blocks blk prev_height new_height recent
     in map_out
          (\<lambda>hub. (notify_blocks (filter (\<lambda>txs. txs \<noteq> []) (map (\<lambda>e. tb_txs (snd e)) news)) hub)
                    \<lparr>mh_recent_confirmed := recent_after blk prev_height new_height recent\<rparr>)
          (if orphaned \<noteq> [] then notify_mempool cx q [] orphaned hub else Ok hub))"

section \<open>Snapshots\<close>

definition script_of_hex :: "('d, 'f, 'g) rest_ctx \<Rightarrow> utext \<Rightarrow> bytes option" where
  "script_of_hex cx s = Option.bind (rl_decode_hex (cx_rl cx) s) (\<lambda>b. if b = [] then None else Some b)"

definition parse_address_script :: "('d, 'f, 'g) rest_ctx \<Rightarrow> utext \<Rightarrow> network \<Rightarrow> bytes option" where
  "parse_address_script cx addr net =
     Option.bind (rl_parse_address (cx_rl cx) addr) (\<lambda>require_network.
       if net \<in> set testnet_family then first_opt (List.map_filter require_network testnet_family) else require_network net)"

definition script_from_address_key :: "('d, 'f, 'g) rest_ctx \<Rightarrow> utext \<Rightarrow> utext \<Rightarrow> network \<Rightarrow> bytes option" where
  "script_from_address_key cx orig canon net =
     (if is_hex_len orig 66 \<or> is_hex_len orig 130 then script_of_hex cx canon else parse_address_script cx orig net)"

definition snapshot_from_script ::
  "('d, 'f, 'g) rest_ctx \<Rightarrow> ('d, 'f, 'g) query \<Rightarrow> bytes \<Rightarrow> (error_kind, 'g tx_buckets) outcome"
where
  "snapshot_from_script cx q script =
     (let sh = compute_script_hash (cx_lib cx) script; limit = rc_default_max_mempool_txs (cx_cfg cx) in
      bind_out (mempool_history (q_mempool q) sh None limit) (\<lambda>mtxs.
      bind_out (tx_json cx q (map (\<lambda>tx. (tx, None)) mtxs)) (\<lambda>mempool.
      bind_out (history_txids (cx_rk cx) (q_chain q) sh (limit - length mempool)) (\<lambda>ids.
      bind_out
        (filter_map_out (\<lambda>(txid, blockid). map_out (map_option (\<lambda>tx. (tx, Some blockid))) (query_lookup_txn (cx_rk cx) (cx_lib cx) q txid)) ids)
        (\<lambda>pairs.
      map_out (\<lambda>confirmed. \<lparr>bk_mempool = mempool, bk_confirmed = confirmed, bk_removed = []\<rparr>) (tx_json cx q pairs))))))"

definition snapshot_for ::
  "('d, 'f, 'g) rest_ctx \<Rightarrow> ('d, 'f, 'g) query \<Rightarrow> utext \<Rightarrow> utext option \<Rightarrow> (error_kind, 'g tx_buckets) outcome"
where
  "snapshot_for cx q orig canon =
     (case (case canon of Some c \<Rightarrow> script_from_address_key cx orig c (q_network q) | None \<Rightarrow> script_of_hex cx orig) of
        Some script \<Rightarrow> snapshot_from_script cx q script
      | None \<Rightarrow> Ok buckets_default)"

text \<open>The object of one kind of subscription in the reply, filled key by key.\<close>

fun fill_keys ::
  "('d, 'f, 'g) rest_ctx \<Rightarrow> ('d, 'f, 'g) query \<Rightarrow> (utext \<times> utext option) list \<Rightarrow> (utext \<times> 'g json) list \<Rightarrow> 'g mwck_hub
    \<Rightarrow> (error_kind, (utext \<times> 'g json) list \<times> 'g mwck_hub) outcome"
where
  "fill_keys cx q [] obj hub = Ok (obj, hub)"
| "fill_keys cx q ((orig, canon) # keys) obj hub =
     bind_out (snapshot_for cx q orig canon) (\<lambda>b.
     fill_keys cx q keys (btree_insert orig (buckets_json b) obj) (remember_mempool_bodies (bk_mempool b) hub))"

definition fill_member ::
  "('d, 'f, 'g) rest_ctx \<Rightarrow> ('d, 'f, 'g) query \<Rightarrow> string \<Rightarrow> (utext \<times> utext option) list \<Rightarrow> 'g json \<times> 'g mwck_hub
    \<Rightarrow> (error_kind, 'g json \<times> 'g mwck_hub) outcome"
where
  "fill_member cx q name keys s =
     (case s of
        (JObject members, hub) \<Rightarrow>
          (case map_of members (lit name) of
             Some (JObject obj) \<Rightarrow>
               map_out (\<lambda>(obj', hub'). (JObject (btree_insert (lit name) (JObject obj') members), hub')) (fill_keys cx q keys obj hub)
           | _ \<Rightarrow> Ok s)
      | _ \<Rightarrow> Ok s)"

definition fill_subscribe_snapshot ::
  "('d, 'f, 'g) rest_ctx \<Rightarrow> ('d, 'f, 'g) query \<Rightarrow> client_state \<Rightarrow> 'g json \<Rightarrow> 'g mwck_hub \<Rightarrow> (error_kind, 'g json \<times> 'g mwck_hub) outcome"
where
  "fill_subscribe_snapshot cx q st reply hub =
     bind_out (fill_member cx q ''multi-address-transactions'' (map (\<lambda>(o1, c). (o1, Some c)) (cs_track_addresses st)) (reply, hub))
       (fill_member cx q ''multi-scriptpubkey-transactions'' (map (\<lambda>k. (k, None)) (cs_track_scriptpubkeys st)))"

definition handle_socket ::
  "('d, 'f, 'g) rest_ctx \<Rightarrow> ('d, 'f, 'g) query \<Rightarrow> allowlist \<Rightarrow> bytes \<Rightarrow> client_state \<Rightarrow> 'g json \<Rightarrow> 'g mwck_hub
    \<Rightarrow> (error_kind, client_state \<times> 'g json option \<times> 'g mwck_hub) outcome"
where
  "handle_socket cx q allow pubkey st msg hub =
     (case handle_authorized_json allow pubkey st msg of
        (st', None) \<Rightarrow> Ok (st', None, hub)
      | (st', Some reply) \<Rightarrow> map_out (\<lambda>(reply, hub). (st', Some reply, hub)) (fill_subscribe_snapshot cx q st' reply hub))"

end
