(* ===== verification/Mwck_Tip.thy ===== *)
theory Mwck_Tip
  imports Mwck_Events Rest_Pages
begin

text \<open>
  A new tip in the hub of the websocket clients: orphaned blocks are replayed as removed, the blocks of
  the new chain are announced as confirmed, and the blocks the hub remembers are those of the chain. The
  list that orders the cached bodies is not bounded.
\<close>

section \<open>What is told\<close>

definition tell :: "'g json option \<Rightarrow> 'g hub_client \<Rightarrow> 'g hub_client" where
  "tell ev c = c\<lparr>hc_out := map_option (\<lambda>sent. sent @ (case ev of Some e \<Rightarrow> [e] | None \<Rightarrow> [])) (hc_out c)\<rparr>"

lemma tell_None [simp]: "tell None c = c"
  by (cases "hc_out c") (simp_all add: tell_def)

lemma tell_state [simp]: "hc_state (tell ev c) = hc_state c"
  by (simp add: tell_def)

lemma send_event_clients:
  "mh_clients (send_event event hub) = map (\<lambda>(k, c). (k, tell (event (hc_state c)) c)) (mh_clients hub)"
  by (auto simp: send_event_def tell_def option.map_ident split: option.splits)

lemma send_event_rest [simp]:
  "mh_recent_confirmed (send_event event hub) = mh_recent_confirmed hub"
  "mh_mempool_tx_bodies (send_event event hub) = mh_mempool_tx_bodies hub"
  by (simp_all add: send_event_def)

lemma key_buckets_default: "(\<And>k. b k = buckets_default) \<Longrightarrow> key_buckets b keys = []"
proof -
  assume b: "\<And>k. b k = buckets_default"
  have "fold (\<lambda>(orig, canon) m. if b canon \<noteq> buckets_default then btree_insert orig (b canon) m else m) keys m = m" for m
    by (induction keys) (auto simp: b)
  then show ?thesis by (simp add: key_buckets_def)
qed

lemma on_mempool_Nil [simp]: "on_mempool st [] [] = None"
  by (simp add: on_mempool_def emit_event_def hits_def key_buckets_default buckets_default_def split: option.split)

lemma on_block_Nil [simp]: "on_block st [] = None"
  by (simp add: on_block_def emit_event_def hits_def key_buckets_default buckets_default_def split: option.split)

lemma map_tell_None: "map (\<lambda>(k, c). (k, tell None c)) cs = cs"
  by (induction cs) auto

lemma concat_nonempty: "concat (filter (\<lambda>x. x \<noteq> []) xs) = concat xs"
  by (induction xs) auto

lemma notify_blocks_clients:
  "mh_clients (notify_blocks blks hub) = map (\<lambda>(k, c). (k, tell (on_block (hc_state c) (concat blks)) c)) (mh_clients hub)"
  by (cases "concat blks") (simp_all add: notify_blocks_def notify_block_def send_event_clients map_tell_None del: concat_eq_Nil_conv)

lemma notify_blocks_recent [simp]: "mh_recent_confirmed (notify_blocks blks hub) = mh_recent_confirmed hub"
  by (simp add: notify_blocks_def notify_block_def)

lemma full_no_stubs: "\<forall>v\<in>set removed. is_full_tx_object v \<Longrightarrow> removed_stubs removed = []"
  by (induction removed) (simp_all add: removed_stubs_def List.map_filter_def)

lemma prefer_full_id: "\<forall>v\<in>set removed. is_full_tx_object v \<Longrightarrow> prefer_full_removed removed available = removed"
  by (simp add: prefer_full_removed_def map_idI)

lemma notify_mempool_full:
  assumes "\<forall>v\<in>set removed. is_full_tx_object v"
  shows "\<exists>hub'. notify_mempool cx q added removed hub = Ok hub'
    \<and> mh_clients hub' = map (\<lambda>(k, c). (k, tell (on_mempool (hc_state c) added removed) c)) (mh_clients hub)
    \<and> mh_recent_confirmed hub' = mh_recent_confirmed hub
    \<and> mb_by_txid (mh_mempool_tx_bodies hub')
        = filter (\<lambda>e. fst e \<notin> set (List.map_filter json_txid removed))
            (mb_by_txid (fold remember_mempool_body added (mh_mempool_tx_bodies hub)))
    \<and> mb_order (mh_mempool_tx_bodies hub') = mb_order (fold remember_mempool_body added (mh_mempool_tx_bodies hub))"
  using full_no_stubs [OF assms] prefer_full_id [OF assms]
  by (simp add: notify_mempool_def enrich_removed_def remember_mempool_bodies_def Let_def send_event_clients)

section \<open>The list that orders the bodies\<close>

text \<open>Transactions that enter the mempool and leave it again, one after the other.\<close>

fun churn ::
  "('d, 'f, 'g) rest_ctx \<Rightarrow> ('d, 'f, 'g) query \<Rightarrow> 'g json list \<Rightarrow> 'g mwck_hub \<Rightarrow> (error_kind, 'g mwck_hub) outcome"
where
  "churn cx q [] hub = Ok hub"
| "churn cx q (tx # txs) hub =
     bind_out (notify_mempool cx q [tx] [] hub) (\<lambda>hub1.
     bind_out (notify_mempool cx q [] [tx] hub1) (churn cx q txs))"

lemma remember_empty:
  assumes "is_full_tx_object tx" "json_txid tx = Some t"
  shows "remember_mempool_body tx \<lparr>mb_by_txid = [], mb_order = order\<rparr> = \<lparr>mb_by_txid = [(t, tx)], mb_order = order @ [t]\<rparr>"
  using assms by (simp add: remember_mempool_body_def put_body_def evict.simps [of order "[]"] MAX_MEMPOOL_TX_BODIES_def)

text \<open>The hub never forgets the txid of a transaction it has seen in the mempool. However many transactions enter
  the mempool and leave it, one at a time, no body is cached any more and still the order list holds the
  txid of every one of them: the bound of 65536 bodies does not bound the list.\<close>

theorem body_order_unbounded:
  assumes "\<forall>tx\<in>set txs. is_full_tx_object tx \<and> json_txid tx \<noteq> None" "mb_by_txid (mh_mempool_tx_bodies hub) = []"
  shows "\<exists>hub'. churn cx q txs hub = Ok hub' \<and> mb_by_txid (mh_mempool_tx_bodies hub') = []
    \<and> mb_order (mh_mempool_tx_bodies hub') = mb_order (mh_mempool_tx_bodies hub) @ map (\<lambda>tx. the (json_txid tx)) txs"
  using assms
proof (induction txs arbitrary: hub)
  case (Cons tx txs)
  obtain t where tx: "is_full_tx_object tx" "json_txid tx = Some t" using Cons.prems(1) by auto
  let ?c = "mh_mempool_tx_bodies hub"
  have c: "remember_mempool_body tx ?c = \<lparr>mb_by_txid = [(t, tx)], mb_order = mb_order ?c @ [t]\<rparr>"
    using remember_empty [OF tx, of "mb_order ?c"] Cons.prems(2) by (cases ?c) simp
  obtain hub1 where h1: "notify_mempool cx q [tx] [] hub = Ok hub1"
    "mb_by_txid (mh_mempool_tx_bodies hub1) = [(t, tx)]" "mb_order (mh_mempool_tx_bodies hub1) = mb_order ?c @ [t]"
    using notify_mempool_full [of "[]" cx q "[tx]" hub] by (auto simp: c List.map_filter_def)
  obtain hub2 where h2: "notify_mempool cx q [] [tx] hub1 = Ok hub2"
    "mb_by_txid (mh_mempool_tx_bodies hub2) = []" "mb_order (mh_mempool_tx_bodies hub2) = mb_order ?c @ [t]"
    using notify_mempool_full [of "[tx]" cx q "[]" hub1] tx h1(2,3) by (auto simp: List.map_filter_def)
  show ?case using Cons.IH [of hub2] Cons.prems(1) h1(1) h2 tx(2) by auto
qed simp

theorem body_order_unbounded_witness:
  "\<exists>hub'. churn (undefined :: (unit, unit, unit) rest_ctx) undefined [demo_spk_tx :: unit json, demo_spk_tx] hub_new = Ok hub'
    \<and> mb_by_txid (mh_mempool_tx_bodies hub') = [] \<and> mb_order (mh_mempool_tx_bodies hub') = [lit ''aa'', lit ''aa'']"
proof -
  have "is_full_tx_object (demo_spk_tx :: unit json)" "json_txid (demo_spk_tx :: unit json) = Some (lit ''aa'')" by code_simp+
  then show ?thesis
    using body_order_unbounded [of "[demo_spk_tx, demo_spk_tx]" hub_new "undefined :: (unit, unit, unit) rest_ctx" undefined]
    by (simp add: hub_new_def)
qed

section \<open>A new tip\<close>

definition on_chain :: "(nat \<Rightarrow> 'g tip_block option) \<Rightarrow> nat \<times> 'g tip_block \<Rightarrow> bool" where
  "on_chain blk e \<longleftrightarrow> map_option tb_hash (blk (fst e)) = Some (tb_hash (snd e))"

definition hub_ok :: "'g mwck_hub \<Rightarrow> bool" where
  "hub_ok hub \<longleftrightarrow> sorted_wrt (<) (map fst (mh_recent_confirmed hub))
     \<and> (\<forall>(h, b)\<in>set (mh_recent_confirmed hub). \<forall>tx\<in>set (tb_txs b). is_full_tx_object tx)"

text \<open>What the new tip should take back and announce, read off the blocks of the chain.\<close>

definition orphans_ref :: "(nat \<Rightarrow> 'g tip_block option) \<Rightarrow> (nat \<times> 'g tip_block) list \<Rightarrow> 'g json list" where
  "orphans_ref blk recent = concat (map (\<lambda>e. tb_txs (snd e)) (filter (\<lambda>e. \<not> on_chain blk e) recent))"

definition news_ref :: "(nat \<Rightarrow> 'g tip_block option) \<Rightarrow> nat \<Rightarrow> nat \<Rightarrow> (nat \<times> 'g tip_block) list \<Rightarrow> (nat \<times> 'g tip_block) list" where
  "news_ref blk prev_height new_height recent =
     List.map_filter (\<lambda>h. map_option (Pair h) (blk h))
       (map fst (filter (\<lambda>e. \<not> on_chain blk e) recent)
        @ filter (\<lambda>h. h \<notin> fst ` set recent) [prev_height + 1..<new_height + 1])"

lemma stale_eq: "stale_heights blk recent = map fst (filter (\<lambda>e. \<not> on_chain blk e) recent)"
  by (auto simp: stale_heights_def on_chain_def split: option.splits intro!: arg_cong [where f = "map fst"] filter_cong)

lemma sorted_keys_unique:
  assumes "sorted_wrt (<) (map fst recent)" "(h, b) \<in> set recent"
  shows "map_of recent (h :: nat) = Some b"
  using assms by (simp add: sorted_distinct_keys)

lemma orphaned_eq:
  assumes "sorted_wrt (<) (map fst recent)"
  shows "orphaned_txs blk recent = orphans_ref blk recent"
  using sorted_keys_unique [OF assms]
  by (auto simp: orphaned_txs_def orphans_ref_def stale_eq comp_def intro!: arg_cong [where f = concat] map_cong)

lemma kept_eq:
  assumes "sorted_wrt (<) (map fst recent)"
  shows "kept_blocks blk recent = filter (on_chain blk) recent"
  unfolding kept_blocks_def stale_eq
proof (rule filter_cong [OF refl])
  fix e assume e: "e \<in> set recent"
  have "e' = e" if "e' \<in> set recent" "fst e' = fst e" for e'
    using sorted_keys_unique [OF assms, of "fst e" "snd e"] sorted_keys_unique [OF assms, of "fst e'" "snd e'"] e that
    by (metis option.inject prod.collapse)
  then show "fst e \<notin> set (map fst (filter (\<lambda>e. \<not> on_chain blk e) recent)) \<longleftrightarrow> on_chain blk e"
    using e by auto
qed

lemma map_filter_drop:
  "(\<And>h. h \<in> set hs \<Longrightarrow> f h \<noteq> None \<Longrightarrow> P h \<longleftrightarrow> Q h) \<Longrightarrow> List.map_filter f (filter P hs) = List.map_filter f (filter Q hs)"
  by (induction hs) (auto simp: List.map_filter_def split: option.splits)

lemma map_filter_keys: "fst ` set (List.map_filter (\<lambda>h. map_option (Pair h) (blk h)) hs) = {h \<in> set hs. blk h \<noteq> None}"
  by (force simp: List.map_filter_def image_iff)

lemma new_blocks_eq:
  assumes recent: "sorted_wrt (<) (map fst recent)" and "new_height < 2 ^ 64"
  shows "new_blocks blk prev_height new_height recent = news_ref blk prev_height new_height recent"
proof -
  have keys: "h \<notin> fst ` set (kept_blocks blk recent) \<and> h \<notin> fst ` set (replacement_blocks blk recent) \<longleftrightarrow> h \<notin> fst ` set recent"
    if "blk h \<noteq> None" for h
    using that unfolding kept_eq [OF recent] replacement_blocks_def map_filter_keys stale_eq by force
  have "forward_blocks blk prev_height new_height recent
      = List.map_filter (\<lambda>h. map_option (Pair h) (blk h)) (filter (\<lambda>h. h \<notin> fst ` set recent) [prev_height + 1..<new_height + 1])"
  proof (cases "prev_height < new_height")
    case True
    have "min (prev_height + 1) (2 ^ 64 - 1) = prev_height + 1" using True assms(2) by simp
    then show ?thesis using True keys unfolding forward_blocks_def by (simp only: if_True) (rule map_filter_drop, simp)
  next
    case False
    then show ?thesis by (simp add: forward_blocks_def List.map_filter_def)
  qed
  then show ?thesis
    by (simp add: new_blocks_def news_ref_def replacement_blocks_def stale_eq List.map_filter_def)
qed

text \<open>Only the blocks at the heights that are asked for matter.\<close>

lemma news_ref_cong:
  assumes "\<And>h. h \<in> set (asked_heights prev_height new_height recent) \<Longrightarrow> blk h = blk' h" "new_height < 2 ^ 64"
  shows "news_ref blk prev_height new_height recent = news_ref blk' prev_height new_height recent"
    and "orphans_ref blk recent = orphans_ref blk' recent"
    and "filter (on_chain blk) recent = filter (on_chain blk') recent"
proof -
  have r: "blk (fst e) = blk' (fst e)" if "e \<in> set recent" for e using that assms(1) by (simp add: asked_heights_def)
  then have oc: "on_chain blk e = on_chain blk' e" if "e \<in> set recent" for e using that by (simp add: on_chain_def)
  have f: "blk h = blk' h" if "prev_height < h" "h \<le> new_height" for h
    using that assms(2) by (intro assms(1)) (auto simp: asked_heights_def)
  show "filter (on_chain blk) recent = filter (on_chain blk') recent" using oc by (simp cong: filter_cong)
  have n: "filter (\<lambda>e. \<not> on_chain blk e) recent = filter (\<lambda>e. \<not> on_chain blk' e) recent" using oc by (simp cong: filter_cong)
  then show "orphans_ref blk recent = orphans_ref blk' recent" by (simp add: orphans_ref_def)
  have "List.map_filter (\<lambda>h. map_option (Pair h) (blk h)) hs = List.map_filter (\<lambda>h. map_option (Pair h) (blk' h)) hs"
    if "\<And>h. h \<in> set hs \<Longrightarrow> blk h = blk' h" for hs
    using that by (induction hs) (simp_all add: List.map_filter_def)
  then show "news_ref blk prev_height new_height recent = news_ref blk' prev_height new_height recent"
    unfolding news_ref_def n by (rule) (use r f in auto)
qed

lemma fold_insert_blocks:
  assumes "sorted_wrt (<) (map fst m)"
  shows "sorted_wrt (<) (map fst (fold (\<lambda>(h, b). btree_insert h b) (List.map_filter (\<lambda>h. map_option (Pair h) (blk h)) hs) m))
    \<and> map_of (fold (\<lambda>(h, b). btree_insert h b) (List.map_filter (\<lambda>h. map_option (Pair h) (blk h)) hs) m) (h :: nat)
      = (if h \<in> set hs \<and> blk h \<noteq> None then blk h else map_of m h)"
  using assms
proof (induction hs arbitrary: m)
  case (Cons h' hs)
  show ?case
  proof (cases "blk h'")
    case (Some b)
    then show ?thesis using Cons.IH [of "btree_insert h' b m"] Cons.prems
      by (auto simp: List.map_filter_def btree_insert_sorted map_of_btree_insert)
  qed (use Cons in \<open>auto simp: List.map_filter_def\<close>)
qed (simp add: List.map_filter_def)

lemma map_of_filter_key: "map_of (filter (\<lambda>e. P (fst e)) m) h = (if P h then map_of m h else None)"
  by (induction m) auto

lemma map_of_filter_entry:
  "distinct (map fst m) \<Longrightarrow> map_of (filter P m) h = (case map_of m h of Some b \<Rightarrow> if P (h, b) then Some b else None | None \<Rightarrow> None)"
proof (induction m)
  case (Cons e m)
  then have "map_of m (fst e) = None" by (simp add: map_of_eq_None_iff)
  then show ?case using Cons by (cases e) (auto split: option.splits)
qed simp

lemma sorted_filter_keys: "sorted_wrt (<) (map fst m) \<Longrightarrow> sorted_wrt (<) (map fst (filter P (m :: (nat \<times> 'b) list)))"
  by (induction m) auto

definition recent_ref :: "(nat \<Rightarrow> 'g tip_block option) \<Rightarrow> nat \<Rightarrow> nat \<Rightarrow> (nat \<times> 'g tip_block) list \<Rightarrow> nat \<Rightarrow> 'g tip_block option" where
  "recent_ref blk prev_height new_height recent h =
     (if h < new_height - 16 then None
      else case map_of recent h of
             Some b \<Rightarrow> if on_chain blk (h, b) then Some b else blk h
           | None \<Rightarrow> if prev_height < h \<and> h \<le> new_height then blk h else None)"

lemma recent_ref_cong:
  assumes "\<And>h. h \<in> set (asked_heights prev_height new_height recent) \<Longrightarrow> blk h = blk' h" "new_height < 2 ^ 64"
  shows "recent_ref blk prev_height new_height recent h = recent_ref blk' prev_height new_height recent h"
proof (cases "map_of recent h")
  case None
  have "blk h = blk' h" if "prev_height < h" "h \<le> new_height"
    using that assms(2) by (intro assms(1)) (auto simp: asked_heights_def)
  then show ?thesis using None by (simp add: recent_ref_def)
next
  case (Some b)
  then have "h \<in> set (map fst recent)" by (force dest: map_of_SomeD)
  then have "blk h = blk' h" by (intro assms(1)) (simp add: asked_heights_def)
  then have "on_chain blk (h, b) = on_chain blk' (h, b)" "blk h = blk' h" by (simp_all add: on_chain_def)
  then show ?thesis using Some by (simp add: recent_ref_def)
qed

lemma recent_after_spec:
  assumes recent: "sorted_wrt (<) (map fst recent)" and "new_height < 2 ^ 64"
  shows "sorted_wrt (<) (map fst (recent_after blk prev_height new_height recent))"
    and "map_of (recent_after blk prev_height new_height recent) h = recent_ref blk prev_height new_height recent h"
proof -
  let ?hs = "map fst (filter (\<lambda>e. \<not> on_chain blk e) recent) @ filter (\<lambda>h. h \<notin> fst ` set recent) [prev_height + 1..<new_height + 1]"
  have kept: "sorted_wrt (<) (map fst (filter (on_chain blk) recent))" using recent by (rule sorted_filter_keys)
  note F = fold_insert_blocks [OF kept, of blk ?hs]
  note R = recent_after_def new_blocks_eq [OF assms] kept_eq [OF recent] news_ref_def
  show "sorted_wrt (<) (map fst (recent_after blk prev_height new_height recent))"
    unfolding R using F by (intro sorted_filter_keys) blast
  have d: "distinct (map fst recent)" using recent by (rule sorted_distinct_keys)
  have mem: "h \<in> set ?hs \<longleftrightarrow> (case map_of recent h of Some b \<Rightarrow> \<not> on_chain blk (h, b) | None \<Rightarrow> prev_height < h \<and> h \<le> new_height)"
  proof (cases "map_of recent h")
    case None
    then have n: "h \<notin> fst ` set recent" by (simp add: map_of_eq_None_iff)
    then have "h \<notin> set (map fst (filter (\<lambda>e. \<not> on_chain blk e) recent))" by auto
    then show ?thesis using None n by (simp add: less_Suc_eq_le Suc_le_eq) linarith
  next
    case (Some b)
    then have b: "(h, b) \<in> set recent" by (rule map_of_SomeD)
    have "b' = b" if "(h, b') \<in> set recent" for b' using that Some d by simp
    then have "(\<exists>b'. (h, b') \<in> set recent \<and> \<not> on_chain blk (h, b')) \<longleftrightarrow> \<not> on_chain blk (h, b)" using b by blast
    moreover have "h \<in> set (map fst (filter (\<lambda>e. \<not> on_chain blk e) recent)) \<longleftrightarrow> (\<exists>b'. (h, b') \<in> set recent \<and> \<not> on_chain blk (h, b'))"
      by force
    moreover have "h \<in> fst ` set recent" using b by force
    ultimately show ?thesis using Some by simp
  qed
  have "map_of (recent_after blk prev_height new_height recent) h
      = (if new_height - 16 \<le> h then (if h \<in> set ?hs \<and> blk h \<noteq> None then blk h else map_of (filter (on_chain blk) recent) h) else None)"
    unfolding R map_of_filter_key F [THEN conjunct2] by (rule refl)
  also have "\<dots> = recent_ref blk prev_height new_height recent h"
    unfolding mem map_of_filter_entry [OF d]
    by (cases "map_of recent h"; cases "blk h") (auto simp: recent_ref_def on_chain_def)
  finally show "map_of (recent_after blk prev_height new_height recent) h = recent_ref blk prev_height new_height recent h" .
qed

lemma transaction_value_full: "is_full_tx_object (transaction_value_json el v)"
  by (simp add: is_full_tx_object_def transaction_value_json_def lit_def)

lemma block_at_full:
  assumes "block_at cx q h = Ok (Some b)"
  shows "\<forall>tx\<in>set (tb_txs b). is_full_tx_object tx"
  using assms
  by (auto simp: block_at_def bind_opt_def tx_json_def transactions_as_json_def transaction_value_full split: option.splits)

lemma recent_ref_entry:
  assumes "recent_ref blk prev_height new_height recent h = Some b" "new_height < 2 ^ 64"
  shows "(h, b) \<in> set recent \<or> h \<in> set (asked_heights prev_height new_height recent) \<and> blk h = Some b"
proof (cases "map_of recent h")
  case None
  then show ?thesis using assms by (auto simp: recent_ref_def asked_heights_def split: if_splits)
next
  case (Some b')
  then have "(h, b') \<in> set recent" by (rule map_of_SomeD)
  then show ?thesis using Some assms(1) by (force simp: recent_ref_def asked_heights_def image_iff split: if_splits)
qed

text \<open>C29: a new tip is told to every client as the chain has it. When the blocks at the heights the hub asks for can be
  read, the call succeeds: each client is first sent the transactions of the remembered blocks that left
  the chain, as removed, and then those of the blocks that replace them and of the blocks above the old tip, as
  confirmed; and afterwards the hub remembers, of the last sixteen heights and the tip, the block of the chain at each
  height that was remembered before or lies above the old tip, so that the next reorganisation is answered from them.\<close>

theorem new_tip_replayed:
  assumes "hub_ok hub" "new_height < 2 ^ 64"
    and "\<forall>h\<in>set (asked_heights prev_height new_height (mh_recent_confirmed hub)). block_at cx q h = Ok (blk h)"
  shows "\<exists>hub'. notify_new_tip cx q prev_height new_height hub = Ok hub' \<and> hub_ok hub'
    \<and> mh_clients hub' = map (\<lambda>(k, c). (k,
        tell (on_block (hc_state c) (concat (map (\<lambda>e. tb_txs (snd e)) (news_ref blk prev_height new_height (mh_recent_confirmed hub)))))
          (tell (on_mempool (hc_state c) [] (orphans_ref blk (mh_recent_confirmed hub))) c))) (mh_clients hub)
    \<and> (\<forall>h. map_of (mh_recent_confirmed hub') h = recent_ref blk prev_height new_height (mh_recent_confirmed hub) h)"
proof -
  let ?recent = "mh_recent_confirmed hub" and ?asked = "asked_heights prev_height new_height (mh_recent_confirmed hub)"
  have sorted: "sorted_wrt (<) (map fst ?recent)" using assms(1) by (simp add: hub_ok_def)
  define blk' where "blk' h = (case map_of (map (\<lambda>h. (h, blk h)) ?asked) h of Some b \<Rightarrow> b | None \<Rightarrow> None)" for h
  have eta: "(\<lambda>h. case map_of (map (\<lambda>h. (h, blk h)) ?asked) h of Some b \<Rightarrow> b | None \<Rightarrow> None) = blk'"
    by (simp add: fun_eq_iff blk'_def)
  have read: "collect_out (\<lambda>h. map_out (Pair h) (block_at cx q h)) ?asked = Ok (map (\<lambda>h. (h, blk h)) ?asked)"
    using assms(3) by (intro collect_out_total) simp
  have agree: "blk h = blk' h" if "h \<in> set ?asked" for h
    using that by (simp add: blk'_def map_of_map_restrict)
  have cong: "news_ref blk' prev_height new_height ?recent = news_ref blk prev_height new_height ?recent"
    "orphans_ref blk' ?recent = orphans_ref blk ?recent"
    using news_ref_cong [of prev_height new_height ?recent blk blk'] agree assms(2) by simp_all
  have full: "\<forall>v\<in>set (orphans_ref blk ?recent). is_full_tx_object v"
    using assms(1) by (fastforce simp: orphans_ref_def hub_ok_def)
  obtain hub1 where h1: "(if orphans_ref blk ?recent \<noteq> [] then notify_mempool cx q [] (orphans_ref blk ?recent) hub else Ok hub) = Ok hub1"
    "mh_clients hub1 = map (\<lambda>(k, c). (k, tell (on_mempool (hc_state c) [] (orphans_ref blk ?recent)) c)) (mh_clients hub)"
    using notify_mempool_full [OF full, of cx q "[]" hub]
    by (cases "orphans_ref blk ?recent") (auto simp: map_tell_None)
  let ?news = "map (\<lambda>e. tb_txs (snd e)) (news_ref blk prev_height new_height ?recent)"
  define hub' where "hub' = (notify_blocks (filter (\<lambda>txs. txs \<noteq> []) ?news) hub1)
      \<lparr>mh_recent_confirmed := recent_after blk' prev_height new_height ?recent\<rparr>"
  have step: "notify_new_tip cx q prev_height new_height hub = Ok hub'"
    unfolding notify_new_tip_def read bind_out.simps Let_def eta orphaned_eq [OF sorted] new_blocks_eq [OF sorted assms(2)]
      cong h1(1) hub'_def by simp
  have "recent_ref blk prev_height new_height ?recent h = recent_ref blk' prev_height new_height ?recent h" for h
    using agree assms(2) by (intro recent_ref_cong) auto
  then have look: "map_of (mh_recent_confirmed hub') h = recent_ref blk prev_height new_height ?recent h" for h
    using recent_after_spec(2) [OF sorted assms(2)] by (simp add: hub'_def)
  have sorted': "sorted_wrt (<) (map fst (mh_recent_confirmed hub'))"
    using recent_after_spec(1) [OF sorted assms(2)] by (simp add: hub'_def)
  have "\<forall>tx\<in>set (tb_txs b). is_full_tx_object tx" if "(h, b) \<in> set (mh_recent_confirmed hub')" for h b
    using recent_ref_entry [OF look [of h, unfolded sorted_keys_unique [OF sorted' that], symmetric] assms(2)]
      assms(1,3) block_at_full [of cx q h b] by (auto simp: hub_ok_def)
  then have "hub_ok hub'" using sorted' by (auto simp: hub_ok_def)
  moreover have "mh_clients hub' = map (\<lambda>(k, c). (k, tell (on_block (hc_state c) (concat ?news))
      (tell (on_mempool (hc_state c) [] (orphans_ref blk ?recent)) c))) (mh_clients hub)"
    unfolding hub'_def by (simp add: notify_blocks_clients h1(2) case_prod_beta' comp_def concat_nonempty)
  ultimately show ?thesis using step look by blast
qed

definition demo_hub :: "nat mwck_hub" where
  "demo_hub = hub_new\<lparr>mh_clients := [(1, \<lparr>hc_state = client_after [demo_spk_msg :: nat json], hc_out = Some []\<rparr>)],
     mh_recent_confirmed := [(5, \<lparr>tb_hash = demo_hash 9, tb_txs = [demo_spk_tx]\<rparr>)]\<rparr>"

text \<open>The chain is shorter than the block the hub remembers, which is taken back.\<close>

theorem new_tip_replayed_witness:
  "\<exists>hub'. notify_new_tip demo_cx demo_page_query 5 5 demo_hub = Ok hub' \<and> mh_recent_confirmed hub' = []
    \<and> mh_clients hub' = [(1, tell (on_mempool (client_after [demo_spk_msg :: nat json]) [] [demo_spk_tx])
        \<lparr>hc_state = client_after [demo_spk_msg :: nat json], hc_out = Some []\<rparr>)]"
proof -
  have full: "is_full_tx_object (demo_spk_tx :: nat json)" by code_simp
  have ok: "hub_ok demo_hub" using full by (simp add: hub_ok_def demo_hub_def)
  have asked: "asked_heights 5 5 (mh_recent_confirmed demo_hub) = [5]" by (simp add: asked_heights_def demo_hub_def)
  have "header_by_height (cq_headers (q_chain demo_page_query)) 5 = Ok None"
    by (simp add: header_by_height_def demo_page_query_def demo_confirm_cq_def demo_hl_eq nth_opt_def)
  then have blk: "block_at demo_cx demo_page_query 5 = Ok None" by (simp add: block_at_def hash_by_height_def)
  obtain hub' where hub': "notify_new_tip demo_cx demo_page_query 5 5 demo_hub = Ok hub'"
    "mh_clients hub' = map (\<lambda>(k, c). (k,
        tell (on_block (hc_state c) (concat (map (\<lambda>e. tb_txs (snd e)) (news_ref (\<lambda>_. None) 5 5 (mh_recent_confirmed demo_hub)))))
          (tell (on_mempool (hc_state c) [] (orphans_ref (\<lambda>_. None) (mh_recent_confirmed demo_hub))) c))) (mh_clients demo_hub)"
    "\<forall>h. map_of (mh_recent_confirmed hub') h = recent_ref (\<lambda>_. None) 5 5 (mh_recent_confirmed demo_hub) h"
    using new_tip_replayed [OF ok, of 5 5 demo_cx demo_page_query "\<lambda>_. None"] by (auto simp: asked blk)
  have "map_of (mh_recent_confirmed hub') h = None" for h
    using hub'(3) by (simp add: recent_ref_def demo_hub_def on_chain_def)
  then have "mh_recent_confirmed hub' = []" by (metis map_of_eq_empty_iff ext)
  then show ?thesis using hub'(1,2)
    by (simp add: news_ref_def orphans_ref_def on_chain_def demo_hub_def List.map_filter_def)
qed

end
