(* ===== verification/Rest_Server.thy ===== *)
theory Rest_Server
  imports Mwck_Tip
begin

text \<open>
  The front of the HTTP interface (\<^verbatim>\<open>src/rest.rs\<close>, \<open>handle_one_rest_request\<close> and what it calls): the NIP-98 gate
  every request passes, the upgrade to a websocket, the loop of a websocket, and all sockets, the hub and the
  allowlist as one machine. A request carries the text of its headers, where they are text; reading the body has
  one of three results. What the HTTP and websocket libraries and the clock decide is an argument.
\<close>

section \<open>Requests\<close>

record http_req =
  hr_method :: verb
  hr_path :: utext
  hr_query :: "utext option"
  hr_path_and_query :: "utext option"
  hr_header :: "string \<Rightarrow> utext option"
  hr_ws_key :: "bytes option"

record server_cfg =
  sv_version :: utext
  sv_cors :: "utext option"
  sv_subver :: "utext option"
  sv_valid_header :: "utext \<Rightarrow> bool"
  sv_accept_key :: "bytes \<Rightarrow> utext"

datatype body_result = BodyRead bytes | BodyFailed | BodyTimeout

datatype http_auth_outcome = PublicHealth | Pubkey bytes

definition method_str :: "verb \<Rightarrow> utext" where
  "method_str m = (case m of Get \<Rightarrow> lit ''GET'' | Post \<Rightarrow> lit ''POST'' | OtherVerb t \<Rightarrow> t)"

definition is_public_health_path :: "utext \<Rightarrow> bool" where
  "is_public_health_path path \<longleftrightarrow> path = lit ''/blocks/tip/hash'' \<or> path = lit ''/blocks/tip/height''"

definition reconstruct_absolute_url :: "utext option \<Rightarrow> utext option \<Rightarrow> utext \<Rightarrow> utext" where
  "reconstruct_absolute_url forwarded_proto host path_and_query =
     (let proto = trim (hd (split_at 44 (case forwarded_proto of Some p \<Rightarrow> p | None \<Rightarrow> lit ''http'')));
          proto = (if proto = [] then lit ''http'' else proto);
          host = trim (case host of Some h \<Rightarrow> h | None \<Rightarrow> lit ''localhost'');
          host = (if host = [] then lit ''localhost'' else host);
          path = (if path_and_query = [] then lit ''/'' else path_and_query)
      in proto @ lit ''://'' @ host @ path)"

definition reconstruct_from_req :: "http_req \<Rightarrow> utext" where
  "reconstruct_from_req req =
     reconstruct_absolute_url (hr_header req ''x-forwarded-proto'') (hr_header req ''host'')
       (case hr_path_and_query req of Some p \<Rightarrow> p | None \<Rightarrow> hr_path req)"

definition auth_header_from :: "http_req \<Rightarrow> utext option" where
  "auth_header_from req = hr_header req ''authorization''"

record http_ws_auth_request =
  wa_method :: utext
  wa_path :: utext
  wa_authorization :: "utext option"
  wa_absolute_url :: utext
  wa_body :: bytes
  wa_now_unix :: nat

definition http_ws_auth_gate ::
  "'ev nostr_lib \<Rightarrow> http_ws_auth_request \<Rightarrow> bool \<Rightarrow> allowlist \<Rightarrow> (auth_error, http_auth_outcome) outcome"
where
  "http_ws_auth_gate nl req public_health allow =
     (if public_health \<and> eq_ignore_ascii_case (wa_method req) (lit ''GET'') \<and> is_public_health_path (wa_path req)
      then Ok PublicHealth
      else map_out Pubkey
             (verify_nip98 nl (wa_authorization req) (wa_method req) (wa_absolute_url req) (wa_body req) (wa_now_unix req)
                NIP98_WINDOW_SECS allow))"

definition auth_request :: "http_req \<Rightarrow> bytes \<Rightarrow> nat \<Rightarrow> http_ws_auth_request" where
  "auth_request req body now =
     \<lparr>wa_method = method_str (hr_method req), wa_path = hr_path req, wa_authorization = auth_header_from req,
      wa_absolute_url = reconstruct_from_req req, wa_body = body, wa_now_unix = now\<rparr>"

definition auth_error_text :: "auth_error \<Rightarrow> utext" where
  "auth_error_text e =
     lit (case e of
            MissingHeader \<Rightarrow> ''missing Authorization header''
          | BadEncoding \<Rightarrow> ''bad Authorization encoding''
          | BadJson \<Rightarrow> ''bad Authorization JSON''
          | BadSignature \<Rightarrow> ''bad NIP-98 signature''
          | WrongKind \<Rightarrow> ''NIP-98 kind is not 27235''
          | UrlMismatch \<Rightarrow> ''NIP-98 u tag does not match URL''
          | MethodMismatch \<Rightarrow> ''NIP-98 method tag does not match''
          | Expired \<Rightarrow> ''NIP-98 created_at outside window''
          | PayloadMismatch \<Rightarrow> ''NIP-98 payload does not match body''
          | NotAllowlisted \<Rightarrow> ''pubkey is not on the allowlist''
          | AuthIo \<Rightarrow> ''allowlist io: '')"

definition text_response :: "nat \<Rightarrow> utext \<Rightarrow> 'g response" where
  "text_response status t = \<lparr>rs_status = status, rs_headers = [(''Content-Type'', lit ''text/plain'')], rs_body = TextBody t\<rparr>"

definition unauthorized_response :: "auth_error \<Rightarrow> 'g response" where
  "unauthorized_response e =
     \<lparr>rs_status = 401, rs_headers = [(''Content-Type'', lit ''text/plain''), (''WWW-Authenticate'', lit ''Nostr'')],
      rs_body = TextBody (auth_error_text e)\<rparr>"

definition put_header :: "string \<Rightarrow> utext \<Rightarrow> 'g response \<Rightarrow> 'g response" where
  "put_header name v resp = resp\<lparr>rs_headers := filter (\<lambda>h. fst h \<noteq> name) (rs_headers resp) @ [(name, v)]\<rparr>"

definition apply_common_headers :: "server_cfg \<Rightarrow> 'g response \<Rightarrow> ('e, 'g response) outcome" where
  "apply_common_headers sv resp =
     (let resp = put_header ''X-Powered-By'' (sv_version sv) resp in
      bind_out
        (case sv_cors sv of
           Some origins \<Rightarrow>
             if sv_valid_header sv origins then Ok (put_header ''Access-Control-Allow-Origin'' origins resp) else Panic ''unwrap''
         | None \<Rightarrow> Ok resp)
        (\<lambda>resp. Ok (case sv_subver sv of Some subver \<Rightarrow> put_header ''X-Bitcoin-Version'' subver resp | None \<Rightarrow> resp)))"

section \<open>The upgrade\<close>

definition text_contains :: "utext \<Rightarrow> utext \<Rightarrow> bool" where
  "text_contains s part \<longleftrightarrow> (\<exists>n\<in>{0..length s}. starts_with (drop n s) part)"

definition is_websocket_upgrade :: "http_req \<Rightarrow> bool" where
  "is_websocket_upgrade req \<longleftrightarrow>
     (case hr_header req ''upgrade'' of Some s \<Rightarrow> eq_ignore_ascii_case s (lit ''websocket'') | None \<Rightarrow> False)
     \<and> (case hr_header req ''connection'' of Some s \<Rightarrow> text_contains (ascii_lower s) (lit ''upgrade'') | None \<Rightarrow> False)"

definition mwck_upgrade_http_status :: "(auth_error, http_auth_outcome) outcome \<Rightarrow> bool \<Rightarrow> bool \<Rightarrow> nat" where
  "mwck_upgrade_http_status gate upgrade has_key =
     (case gate of
        Ok (Pubkey _) \<Rightarrow> if \<not> upgrade \<or> \<not> has_key then 400 else 101
      | _ \<Rightarrow> 401)"

text \<open>The response, and the key whose websocket is started.\<close>

definition handle_mwck_upgrade ::
  "server_cfg \<Rightarrow> 'ev nostr_lib \<Rightarrow> bool \<Rightarrow> nat \<Rightarrow> allowlist \<Rightarrow> http_req \<Rightarrow> 'g response \<times> bytes option"
where
  "handle_mwck_upgrade sv nl public_health now allow req =
     (let gate = http_ws_auth_gate nl (auth_request req [] now) public_health allow;
          ws = is_websocket_upgrade req;
          status = mwck_upgrade_http_status gate ws (hr_ws_key req \<noteq> None)
      in if status = 401 then (unauthorized_response (case gate of Err e \<Rightarrow> e | _ \<Rightarrow> NotAllowlisted), None)
         else if status = 400
         then (text_response 400 (if \<not> ws then lit ''expected WebSocket upgrade on GET /api/v1/ws'' else lit ''missing Sec-WebSocket-Key''), None)
         else (case (gate, hr_ws_key req) of
                 (Ok (Pubkey pk), Some key) \<Rightarrow>
                   (\<lparr>rs_status = 101,
                     rs_headers = [(''Upgrade'', lit ''websocket''), (''Connection'', lit ''Upgrade''), (''Sec-WebSocket-Accept'', sv_accept_key sv key)],
                     rs_body = NoBody\<rparr>, Some pk)
               | (Ok (Pubkey pk), None) \<Rightarrow> (text_response 400 (lit ''missing Sec-WebSocket-Key''), None)
               | _ \<Rightarrow> (unauthorized_response NotAllowlisted, None)))"

section \<open>One request\<close>

text \<open>The error is the one of the connection, when the body cannot be read.\<close>

definition handle_one_rest_request ::
  "('d, 'f, 'g) rest_ctx \<Rightarrow> server_cfg \<Rightarrow> 'ev nostr_lib \<Rightarrow> nat \<Rightarrow> allowlist \<Rightarrow> http_req \<Rightarrow> body_result \<Rightarrow> ('d, 'f, 'g) query
    \<Rightarrow> (unit, 'g response) outcome \<times> ('d, 'f, 'g) query \<times> bytes option"
where
  "handle_one_rest_request cx sv nl now allow req body_result q =
     (let public_health = rc_public_health (cx_cfg cx) in
      if hr_path req = lit ''/api/v1/ws''
      then (case handle_mwck_upgrade sv nl public_health now allow req of (resp, up) \<Rightarrow> (apply_common_headers sv resp, q, up))
      else
        (case body_result of
           BodyFailed \<Rightarrow> (Err (), q, None)
         | BodyTimeout \<Rightarrow> (Ok (text_response 408 (lit ''Request timeout'')), q, None)
         | BodyRead body \<Rightarrow>
             if MAX_BODY_SIZE < length body then (Ok (text_response 413 (lit ''Request body too large'')), q, None)
             else
               (case http_ws_auth_gate nl (auth_request req body now) public_health allow of
                  Panic s \<Rightarrow> (Panic s, q, None)
                | Err e \<Rightarrow> (apply_common_headers sv (unauthorized_response e), q, None)
                | Ok _ \<Rightarrow>
                    (case handle_request cx q (hr_method req) (hr_path req) (hr_query req) body of
                       (handled, q') \<Rightarrow>
                         (bind_out
                            (case handled of Ok resp \<Rightarrow> Ok resp | Err (status, msg) \<Rightarrow> Ok (text_response status msg) | Panic s \<Rightarrow> Panic s)
                            (apply_common_headers sv), q', None)))))"

section \<open>A websocket\<close>

datatype ws_phase = AtTop | Selecting | Ended

text \<open>Events of the hub and replies are both text frames.\<close>

datatype 'g ws_frame = FEvent "'g json" | FReply "'g json" | FPong bytes | FClose

record 'g ws_socket =
  so_pubkey :: bytes
  so_id :: nat
  so_state :: client_state
  so_phase :: ws_phase
  so_taken :: nat
  so_frames :: "'g ws_frame list"

text \<open>What wakes the loop: the timer, a value of the hub, a frame of the client, the end of the stream.\<close>

datatype ws_event = WsTick | WsQueued | WsText utext | WsPing bytes | WsEnd | WsOther

definition socket_end :: "'g ws_socket \<times> 'g mwck_hub \<Rightarrow> 'g ws_socket \<times> 'g mwck_hub" where
  "socket_end s = (case s of (so, hub) \<Rightarrow>
     (so\<lparr>so_phase := Ended, so_frames := so_frames so @ [FClose]\<rparr>, detach_client (so_id so) hub))"

definition socket_write :: "bool \<Rightarrow> 'g ws_frame \<Rightarrow> 'g ws_socket \<times> 'g mwck_hub \<Rightarrow> 'g ws_socket \<times> 'g mwck_hub" where
  "socket_write sent frame s = (case s of (so, hub) \<Rightarrow>
     (let s = (so\<lparr>so_phase := AtTop, so_frames := so_frames so @ [frame]\<rparr>, hub) in if sent then s else socket_end s))"

definition socket_text ::
  "('d, 'f, 'g) rest_ctx \<Rightarrow> ('d, 'f, 'g) query \<Rightarrow> allowlist \<Rightarrow> bool \<Rightarrow> utext \<Rightarrow> 'g ws_socket \<times> 'g mwck_hub
    \<Rightarrow> (error_kind, 'g ws_socket \<times> 'g mwck_hub) outcome"
where
  "socket_text cx q allow sent t s = (case s of (so, hub) \<Rightarrow>
     if \<not> allowlist_contains allow (so_pubkey so) then Ok (socket_end s)
     else (case el_parse_json (cx_el cx) t of
             None \<Rightarrow> Ok (so\<lparr>so_phase := AtTop\<rparr>, hub)
           | Some msg \<Rightarrow>
               map_out
                 (\<lambda>(st', reply, hub').
                    let s' = (so\<lparr>so_state := st', so_phase := AtTop\<rparr>, set_client_state (so_id so) st' hub')
                    in case reply of None \<Rightarrow> s' | Some out \<Rightarrow> socket_write sent (FReply out) s')
                 (handle_socket cx q allow (so_pubkey so) (so_state so) msg hub)))"

definition queued :: "'g ws_socket \<Rightarrow> 'g mwck_hub \<Rightarrow> 'g json option" where
  "queued so hub = Option.bind (Option.bind (map_of (mh_clients hub) (so_id so)) hc_out) (\<lambda>out. nth_opt out (so_taken so))"

text \<open>One step of the loop: the test at its top, or what the select found. The allowlist can change in between.\<close>

definition socket_step ::
  "('d, 'f, 'g) rest_ctx \<Rightarrow> ('d, 'f, 'g) query \<Rightarrow> allowlist \<Rightarrow> ws_event \<Rightarrow> bool \<Rightarrow> 'g ws_socket \<times> 'g mwck_hub
    \<Rightarrow> (error_kind, 'g ws_socket \<times> 'g mwck_hub) outcome"
where
  "socket_step cx q allow ev sent s = (case s of (so, hub) \<Rightarrow>
     (case so_phase so of
        Ended \<Rightarrow> Ok s
      | AtTop \<Rightarrow> Ok (if allowlist_contains allow (so_pubkey so) then (so\<lparr>so_phase := Selecting\<rparr>, hub) else socket_end s)
      | Selecting \<Rightarrow>
          (case ev of
             WsTick \<Rightarrow> Ok (if allowlist_contains allow (so_pubkey so) then (so\<lparr>so_phase := AtTop\<rparr>, hub) else socket_end s)
           | WsQueued \<Rightarrow>
               Ok (case queued so hub of
                     Some v \<Rightarrow> socket_write sent (FEvent v) (so\<lparr>so_taken := so_taken so + 1\<rparr>, hub)
                   | None \<Rightarrow> s)
           | WsText t \<Rightarrow> socket_text cx q allow sent t s
           | WsPing p \<Rightarrow> Ok (socket_write sent (FPong p) s)
           | WsEnd \<Rightarrow> Ok (socket_end s)
           | WsOther \<Rightarrow> Ok (so\<lparr>so_phase := AtTop\<rparr>, hub))))"

definition socket_start :: "bytes \<Rightarrow> 'g mwck_hub \<Rightarrow> 'g ws_socket \<times> 'g mwck_hub" where
  "socket_start pubkey hub =
     (case register_socket hub of (i, hub') \<Rightarrow>
        (\<lparr>so_pubkey = pubkey, so_id = i, so_state = client_default, so_phase = AtTop, so_taken = 0, so_frames = []\<rparr>, hub'))"

section \<open>The gate\<close>

definition authenticated :: "'ev nostr_lib \<Rightarrow> http_req \<Rightarrow> bytes \<Rightarrow> nat \<Rightarrow> allowlist \<Rightarrow> bytes \<Rightarrow> bool" where
  "authenticated nl req body now allow pk \<longleftrightarrow>
     verify_nip98 nl (auth_header_from req) (method_str (hr_method req)) (reconstruct_from_req req) body now NIP98_WINDOW_SECS allow = Ok pk"

definition public_health_request :: "rest_config \<Rightarrow> http_req \<Rightarrow> bool" where
  "public_health_request cfg req \<longleftrightarrow>
     rc_public_health cfg \<and> eq_ignore_ascii_case (method_str (hr_method req)) (lit ''GET'') \<and> is_public_health_path (hr_path req)"

lemma verify_listed: "verify_nip98 nl header meth url body now window allow = Ok pk \<Longrightarrow> pk \<in> al_keys allow"
  unfolding verify_nip98_def scan_tags_first
  by (fastforce simp: Let_def allowlist_contains_def split: if_splits option.splits)

lemma verify_no_panic: "\<not> panics (verify_nip98 nl header meth url body now window allow)"
  by (cases "verify_nip98 nl header meth url body now window allow")
    (auto simp: verify_nip98_def scan_tags_first auth_token_def ok_or_def Let_def split: option.splits if_splits)

lemma gate_refused:
  assumes "\<forall>pk\<in>al_keys allow. \<not> authenticated nl req body now allow pk" "\<not> public_health_request (cx_cfg cx) req"
  obtains e where "http_ws_auth_gate nl (auth_request req body now) (rc_public_health (cx_cfg cx)) allow = Err e"
proof -
  let ?v = "verify_nip98 nl (auth_header_from req) (method_str (hr_method req)) (reconstruct_from_req req) body now NIP98_WINDOW_SECS allow"
  obtain e where "?v = Err e"
    using assms(1) verify_listed [of nl _ _ _ body now NIP98_WINDOW_SECS allow]
      verify_no_panic [of nl "auth_header_from req" "method_str (hr_method req)" "reconstruct_from_req req" body now NIP98_WINDOW_SECS allow]
    unfolding authenticated_def by (cases ?v) auto
  then have "http_ws_auth_gate nl (auth_request req body now) (rc_public_health (cx_cfg cx)) allow = Err e"
    using assms(2) by (auto simp: http_ws_auth_gate_def auth_request_def public_health_request_def)
  then show thesis by (rule that)
qed

lemma health_paths:
  "drop (Suc 0) (split_at 47 (lit ''/blocks/tip/hash'')) = [lit ''blocks'', lit ''tip'', lit ''hash'']"
  "drop (Suc 0) (split_at 47 (lit ''/blocks/tip/height'')) = [lit ''blocks'', lit ''tip'', lit ''height'']"
  "is_public_health_path p \<Longrightarrow> p \<noteq> lit ''/api/v1/ws''"
  by (simp_all add: lit_def is_public_health_path_def) (auto simp: lit_def)

lemma handle_health:
  assumes "is_public_health_path path"
  shows "handle_request cx q Get path params body
      = (if path = lit ''/blocks/tip/hash'' then ep_tip_hash cx q else ep_tip_height q, q)"
    and "eq_ignore_ascii_case t (lit ''GET'') \<Longrightarrow> handle_request cx q (OtherVerb t) path params body
      = (Err (he_not_found (lit ''endpoint does not exist '' @ rl_debug_text (cx_rl cx) path)), q)"
proof -
  have ne: "lit ''/blocks/tip/height'' \<noteq> lit ''/blocks/tip/hash''" "lit ''height'' \<noteq> lit ''hash''" by (simp_all add: lit_def)
  show "handle_request cx q Get path params body
      = (if path = lit ''/blocks/tip/hash'' then ep_tip_hash cx q else ep_tip_height q, q)"
    using assms ne by (auto simp: is_public_health_path_def handle_request_def Let_def health_paths get_request_def get_three_def)
  show "handle_request cx q (OtherVerb t) path params body
      = (Err (he_not_found (lit ''endpoint does not exist '' @ rl_debug_text (cx_rl cx) path)), q)"
    by (simp add: handle_request_def Let_def)
qed

definition render :: "'g handled \<Rightarrow> (unit, 'g response) outcome" where
  "render handled = (case handled of Ok resp \<Rightarrow> Ok resp | Err (status, msg) \<Rightarrow> Ok (text_response status msg) | Panic s \<Rightarrow> Panic s)"

lemma common_status: "apply_common_headers sv resp = Ok resp' \<Longrightarrow> rs_status resp' = rs_status resp"
  by (auto simp: apply_common_headers_def Let_def put_header_def split: option.splits if_splits)

text \<open>C31: nothing is answered to a request that no listed key has signed. With \<open>public_health\<close> a GET of
  the hash or the height of the tip is answered, and only from the tip; everything else is refused with a result that does
  not depend on the chain, the mempool or the caches at all, which stay as they are, and no websocket is started.
  An empty allowlist is no exception.\<close>

theorem rest_requires_auth:
  assumes "\<forall>body pk. (br = BodyRead body \<or> body = []) \<and> pk \<in> al_keys allow \<longrightarrow> \<not> authenticated nl req body now allow pk"
  shows "if public_health_request (cx_cfg cx) req \<and> hr_method req = Get \<and> (\<exists>body. br = BodyRead body \<and> length body \<le> MAX_BODY_SIZE)
    then \<forall>q. handle_one_rest_request cx sv nl now allow req br q
        = (bind_out (render (if hr_path req = lit ''/blocks/tip/hash'' then ep_tip_hash cx q else ep_tip_height q)) (apply_common_headers sv), q, None)
    else \<exists>r. (\<forall>q. handle_one_rest_request cx sv nl now allow req br q = (r, q, None))
        \<and> (\<forall>resp. r = Ok resp \<longrightarrow> rs_status resp \<in> {401, 404, 408, 413})"
proof (cases "public_health_request (cx_cfg cx) req")
  case True
  then have path: "is_public_health_path (hr_path req)" "hr_path req \<noteq> lit ''/api/v1/ws''"
    using health_paths(3) by (auto simp: public_health_request_def)
  have gate: "http_ws_auth_gate nl (auth_request req body now) (rc_public_health (cx_cfg cx)) allow = Ok PublicHealth" for body
    using True by (simp add: http_ws_auth_gate_def auth_request_def public_health_request_def)
  consider (get) body where "hr_method req = Get" "br = BodyRead body" "length body \<le> MAX_BODY_SIZE"
    | (other) t body where "hr_method req = OtherVerb t" "br = BodyRead body" "length body \<le> MAX_BODY_SIZE"
    | (unread) "\<forall>body. br = BodyRead body \<longrightarrow> \<not> length body \<le> MAX_BODY_SIZE"
    using True by (cases "hr_method req") (auto simp: public_health_request_def method_str_def eq_ignore_ascii_case_def ascii_lower_def lit_def)
  then show ?thesis
  proof cases
    case get
    then show ?thesis using True path gate
      by (simp add: handle_one_rest_request_def Let_def handle_health(1) [OF path(1)] render_def)
  next
    case other
    then have "eq_ignore_ascii_case t (lit ''GET'')" using True by (simp add: public_health_request_def method_str_def)
    then show ?thesis using other path gate
      by (auto simp: handle_one_rest_request_def Let_def handle_health(2) [OF path(1)] he_not_found_def text_response_def dest: common_status)
  next
    case unread
    then show ?thesis using path
      by (cases br) (auto simp: handle_one_rest_request_def Let_def text_response_def not_le)
  qed
next
  case False
  show ?thesis
  proof (cases "hr_path req = lit ''/api/v1/ws''")
    case True
    obtain e where e: "http_ws_auth_gate nl (auth_request req [] now) (rc_public_health (cx_cfg cx)) allow = Err e"
      using gate_refused [of allow nl req "[]" now cx] assms False by blast
    then show ?thesis using True False
      by (auto simp: handle_one_rest_request_def handle_mwck_upgrade_def mwck_upgrade_http_status_def Let_def unauthorized_response_def dest: common_status)
  next
    case path: False
    show ?thesis
    proof (cases br)
      case (BodyRead body)
      obtain e where e: "http_ws_auth_gate nl (auth_request req body now) (rc_public_health (cx_cfg cx)) allow = Err e"
        using gate_refused [of allow nl req body now cx] assms False BodyRead by blast
      show ?thesis
      proof (cases "MAX_BODY_SIZE < length body")
        case True
        then show ?thesis using path False BodyRead by (simp add: handle_one_rest_request_def Let_def text_response_def)
      next
        case len: False
        then show ?thesis using e path False BodyRead
          by (auto simp: handle_one_rest_request_def Let_def unauthorized_response_def dest: common_status)
      qed
    qed (use path False in \<open>auto simp: handle_one_rest_request_def Let_def text_response_def\<close>)
  qed
qed

definition demo_req :: http_req where
  "demo_req = \<lparr>hr_method = Get, hr_path = lit ''/mempool'', hr_query = None, hr_path_and_query = None, hr_header = (\<lambda>_. None), hr_ws_key = None\<rparr>"

definition demo_sv :: server_cfg where
  "demo_sv = \<lparr>sv_version = [], sv_cors = None, sv_subver = None, sv_valid_header = (\<lambda>_. True), sv_accept_key = (\<lambda>_. [])\<rparr>"

theorem rest_requires_auth_witness:
  "\<exists>r. (\<forall>q. handle_one_rest_request demo_cx demo_sv demo_nostr 0 \<lparr>al_keys = {demo_hash 1}\<rparr> demo_req (BodyRead []) q = (r, q, None))
    \<and> (\<forall>resp. r = Ok resp \<longrightarrow> rs_status resp \<in> {401, 404, 408, 413})"
proof -
  have "\<not> public_health_request (cx_cfg demo_cx) demo_req"
    by (simp add: public_health_request_def is_public_health_path_def demo_req_def lit_def)
  moreover have "\<not> authenticated demo_nostr demo_req body 0 \<lparr>al_keys = {demo_hash 1}\<rparr> pk" for body pk
    by (simp add: authenticated_def verify_nip98_def auth_token_def auth_header_from_def demo_req_def)
  ultimately show ?thesis
    using rest_requires_auth [of "BodyRead []" "\<lparr>al_keys = {demo_hash 1}\<rparr>" demo_nostr demo_req 0 demo_cx demo_sv] by simp
qed

end
