(* ===== verification/Rest_Sockets.thy ===== *)
theory Rest_Sockets
  imports Rest_Server
begin

text \<open>
  The websockets, the hub, the allowlist and the requests as one machine: the clients of the hub are exactly the open
  sockets, each has been given the events of the hub in order, and a socket whose key is taken off the
  allowlist is closed.
\<close>

section \<open>The machine\<close>

record ('d, 'f, 'g) http_state =
  hs_query :: "('d, 'f, 'g) query"
  hs_hub :: "'g mwck_hub"
  hs_allow :: allowlist
  hs_upgrades :: "bytes list"
  hs_sockets :: "nat \<rightharpoonup> 'g ws_socket"

text \<open>
  Requests, upgrades, the steps of the sockets, the notifications of the main loop, reloads of the allowlist and
  changes of what the queries read, in any order. The hub numbers its clients with 64 bits; fewer than that
  many sockets are opened.
\<close>

inductive http_step ::
  "('d, 'f, 'g) rest_ctx \<Rightarrow> server_cfg \<Rightarrow> 'ev nostr_lib \<Rightarrow> ('d, 'f, 'g) http_state \<Rightarrow> ('d, 'f, 'g) http_state \<Rightarrow> bool"
  for cx :: "('d, 'f, 'g) rest_ctx" and sv :: server_cfg and nl :: "'ev nostr_lib"
where
  request: "handle_one_rest_request cx sv nl now (hs_allow s) req br (hs_query s) = (r, q', up) \<Longrightarrow>
    http_step cx sv nl s (s\<lparr>hs_query := q', hs_upgrades := hs_upgrades s @ (case up of Some pk \<Rightarrow> [pk] | None \<Rightarrow> [])\<rparr>)"
| upgraded: "pk \<in> set (hs_upgrades s) \<Longrightarrow> mh_next_id (hs_hub s) + 1 < 2 ^ 64 \<Longrightarrow> socket_start pk (hs_hub s) = (so, hub') \<Longrightarrow>
    http_step cx sv nl s
      (s\<lparr>hs_hub := hub', hs_upgrades := remove1 pk (hs_upgrades s), hs_sockets := (hs_sockets s)(so_id so \<mapsto> so)\<rparr>)"
| not_upgraded: "http_step cx sv nl s (s\<lparr>hs_upgrades := remove1 pk (hs_upgrades s)\<rparr>)"
| turn: "hs_sockets s i = Some so \<Longrightarrow> socket_step cx (hs_query s) (hs_allow s) ev sent (so, hs_hub s) = Ok (so', hub') \<Longrightarrow>
    http_step cx sv nl s
      (s\<lparr>hs_hub := hub', hs_sockets := (hs_sockets s)(i := (if so_phase so' = Ended then None else Some so'))\<rparr>)"
| mempool_changed: "notify_mempool cx (hs_query s) added removed (hs_hub s) = Ok hub' \<Longrightarrow> http_step cx sv nl s (s\<lparr>hs_hub := hub'\<rparr>)"
| tip_changed: "notify_new_tip cx (hs_query s) prev_height new_height (hs_hub s) = Ok hub' \<Longrightarrow> http_step cx sv nl s (s\<lparr>hs_hub := hub'\<rparr>)"
| reloaded: "http_step cx sv nl s (s\<lparr>hs_allow := fst (allowlist_reload nl file (hs_allow s))\<rparr>)"
| query_changed: "http_step cx sv nl s (s\<lparr>hs_query := q'\<rparr>)"

definition http_start :: "('d, 'f, 'g) query \<Rightarrow> allowlist \<Rightarrow> ('d, 'f, 'g) http_state" where
  "http_start q allow = \<lparr>hs_query = q, hs_hub = hub_new, hs_allow = allow, hs_upgrades = [], hs_sockets = Map.empty\<rparr>"

definition events_of :: "'g ws_frame list \<Rightarrow> 'g json list" where
  "events_of frames = List.map_filter (\<lambda>f. case f of FEvent v \<Rightarrow> Some v | _ \<Rightarrow> None) frames"

definition sock_ok :: "'g ws_socket \<Rightarrow> 'g hub_client \<Rightarrow> bool" where
  "sock_ok so c \<longleftrightarrow> so_phase so \<noteq> Ended \<and> hc_state c = so_state so \<and> client_ok (so_state so) \<and> FClose \<notin> set (so_frames so)
     \<and> (\<exists>out. hc_out c = Some out \<and> so_taken so \<le> length out \<and> events_of (so_frames so) = take (so_taken so) out)"

definition clients_ok :: "'g mwck_hub \<Rightarrow> bool" where
  "clients_ok hub \<longleftrightarrow> sorted_wrt (<) (map fst (mh_clients hub)) \<and> (\<forall>i. map_of (mh_clients hub) i \<noteq> None \<longrightarrow> i < mh_next_id hub)"

definition http_inv :: "('d, 'f, 'g) http_state \<Rightarrow> bool" where
  "http_inv s \<longleftrightarrow> clients_ok (hs_hub s)
     \<and> (\<forall>i. rel_option (\<lambda>so c. so_id so = i \<and> sock_ok so c) (hs_sockets s i) (map_of (mh_clients (hs_hub s)) i))"

section \<open>What the operations do to the clients\<close>

lemma map_of_set_state:
  "map_of (map (\<lambda>(k, c). (k, if k = i then c\<lparr>hc_state := st\<rparr> else c)) m) j
     = map_option (\<lambda>c. if j = i then c\<lparr>hc_state := st\<rparr> else c) (map_of m j)"
  by (induction m) auto

lemma map_of_tell: "map_of (map (\<lambda>(k, c). (k, tell (f c) c)) m) j = map_option (\<lambda>c. tell (f c) c) (map_of m j)"
  by (induction m) auto

lemma keys_map_snd: "map fst (map (\<lambda>(k, c). (k, f k c)) m) = map fst m"
  by (induction m) auto

lemma remember_bodies_clients [simp]:
  "mh_clients (remember_mempool_bodies txs hub) = mh_clients hub" "mh_next_id (remember_mempool_bodies txs hub) = mh_next_id hub"
  by (simp_all add: remember_mempool_bodies_def)

lemma fill_keys_clients:
  "fill_keys cx q keys obj hub = Ok (obj', hub') \<Longrightarrow> mh_clients hub' = mh_clients hub \<and> mh_next_id hub' = mh_next_id hub"
proof (induction cx q keys obj hub rule: fill_keys.induct)
  case (2 cx q orig canon keys obj hub)
  then show ?case by auto
qed simp

lemma fill_member_clients:
  "fill_member cx q name keys (reply, hub) = Ok (reply', hub') \<Longrightarrow> mh_clients hub' = mh_clients hub \<and> mh_next_id hub' = mh_next_id hub"
  by (auto simp: fill_member_def dest: fill_keys_clients split: json.splits option.splits)

lemma handle_socket_effect:
  assumes "handle_socket cx q allow pk st msg hub = Ok (st', reply, hub')" "client_ok st"
  shows "mh_clients hub' = mh_clients hub" "mh_next_id hub' = mh_next_id hub" "client_ok st'"
proof -
  obtain rep where h: "handle_authorized_json allow pk st msg = (st', rep)" and
    f: "case rep of None \<Rightarrow> hub' = hub | Some r0 \<Rightarrow> \<exists>r1. fill_subscribe_snapshot cx q st' r0 hub = Ok (r1, hub')"
    using assms(1) by (auto simp: handle_socket_def split: prod.splits option.splits)
  show "client_ok st'"
    using handle_client_json_ok [OF assms(2), of msg] h assms(2) by (auto simp: handle_authorized_json_def split: if_splits)
  have "mh_clients hub' = mh_clients hub \<and> mh_next_id hub' = mh_next_id hub"
    using f by (auto simp: fill_subscribe_snapshot_def dest!: fill_member_clients split: option.splits)
  then show "mh_clients hub' = mh_clients hub" "mh_next_id hub' = mh_next_id hub" by simp_all
qed

text \<open>Notifications only add events to the clients.\<close>

definition client_told :: "'g hub_client \<Rightarrow> 'g hub_client \<Rightarrow> bool" where
  "client_told c c' \<longleftrightarrow> hc_state c' = hc_state c \<and> (\<exists>more. hc_out c' = map_option (\<lambda>out. out @ more) (hc_out c))"

definition hub_tells :: "'g mwck_hub \<Rightarrow> 'g mwck_hub \<Rightarrow> bool" where
  "hub_tells hub hub' \<longleftrightarrow> mh_next_id hub' = mh_next_id hub \<and> map fst (mh_clients hub') = map fst (mh_clients hub)
     \<and> (\<forall>i. rel_option client_told (map_of (mh_clients hub) i) (map_of (mh_clients hub') i))"

lemma client_told_refl: "client_told c c"
  unfolding client_told_def by (intro conjI exI [of _ "[]"]) (simp_all add: option.map_ident)

lemma client_told_trans: "client_told a b \<Longrightarrow> client_told b c \<Longrightarrow> client_told a c"
  by (auto simp: client_told_def option.map_comp comp_def)

lemma client_told_tell: "client_told c (tell ev c)"
  by (auto simp: client_told_def tell_def)

lemma hub_tells_refl: "mh_clients hub' = mh_clients hub \<Longrightarrow> mh_next_id hub' = mh_next_id hub \<Longrightarrow> hub_tells hub hub'"
  by (simp add: hub_tells_def option.rel_refl client_told_refl)

lemma hub_tells_trans:
  assumes "hub_tells a b" "hub_tells b c"
  shows "hub_tells a c"
proof -
  have "rel_option client_told x z" if "rel_option client_told x y" "rel_option client_told y z" for x y z :: "'g hub_client option"
    using that by (cases x; cases y; cases z) (auto intro: client_told_trans)
  then show ?thesis using assms unfolding hub_tells_def by metis
qed

lemma hub_tells_send: "hub_tells hub (send_event event hub)"
proof -
  have "map_of (mh_clients (send_event event hub)) i = map_option (\<lambda>c. tell (event (hc_state c)) c) (map_of (mh_clients hub) i)" for i
    unfolding send_event_clients by (rule map_of_tell)
  then have "rel_option client_told (map_of (mh_clients hub) i) (map_of (mh_clients (send_event event hub)) i)" for i
    by (cases "map_of (mh_clients hub) i") (simp_all add: client_told_tell)
  moreover have "map fst (mh_clients (send_event event hub)) = map fst (mh_clients hub)"
    unfolding send_event_clients by (rule keys_map_snd)
  ultimately show ?thesis by (simp add: hub_tells_def send_event_def)
qed

lemma hub_tells_mempool: "notify_mempool cx q added removed hub = Ok hub' \<Longrightarrow> hub_tells hub hub'"
proof -
  assume "notify_mempool cx q added removed hub = Ok hub'"
  then obtain removed' hub1 where h1: "enrich_removed cx q removed (remember_mempool_bodies added hub) = Ok (removed', hub1)"
    and hub': "hub' = send_event (\<lambda>st. on_mempool st added removed') hub1"
    by (auto simp: notify_mempool_def)
  have "mh_clients hub1 = mh_clients hub" "mh_next_id hub1 = mh_next_id hub"
    using h1 by (auto simp: enrich_removed_def Let_def)
  then show ?thesis unfolding hub' by (intro hub_tells_trans [OF hub_tells_refl hub_tells_send]) auto
qed

lemma hub_tells_new_tip: "notify_new_tip cx q prev_height new_height hub = Ok hub' \<Longrightarrow> hub_tells hub hub'"
proof -
  assume "notify_new_tip cx q prev_height new_height hub = Ok hub'"
  then obtain hub1 blks recent orphaned where h1: "(if orphaned \<noteq> [] then notify_mempool cx q [] orphaned hub else Ok hub) = Ok hub1"
    and hub': "hub' = (notify_blocks blks hub1)\<lparr>mh_recent_confirmed := recent\<rparr>"
    by (auto simp: notify_new_tip_def Let_def)
  have "hub_tells hub hub1" using h1 by (auto simp: hub_tells_refl hub_tells_mempool split: if_splits)
  moreover have "hub_tells hub1 (notify_blocks blks hub1)"
    by (simp add: notify_blocks_def notify_block_def hub_tells_send hub_tells_refl)
  moreover have "hub_tells (notify_blocks blks hub1) hub'" unfolding hub' by (rule hub_tells_refl) simp_all
  ultimately show ?thesis by (blast intro: hub_tells_trans)
qed

section \<open>The invariant\<close>

lemma inv_tells:
  assumes "http_inv s" "hub_tells (hs_hub s) hub'"
  shows "http_inv (s\<lparr>hs_hub := hub'\<rparr>)"
proof -
  have told: "sock_ok so c'" if "sock_ok so c" "client_told c c'" for so and c c' :: "'c hub_client"
    using that by (auto simp: sock_ok_def client_told_def)
  have R: "rel_option client_told (map_of (mh_clients (hs_hub s)) i) (map_of (mh_clients hub') i)" for i
    using assms(2) by (simp add: hub_tells_def)
  have "rel_option (\<lambda>so c. so_id so = i \<and> sock_ok so c) (hs_sockets s i) (map_of (mh_clients hub') i)" for i
    using assms(1) R [of i] told unfolding http_inv_def
    by (cases "hs_sockets s i"; cases "map_of (mh_clients (hs_hub s)) i"; cases "map_of (mh_clients hub') i")
      (auto dest!: spec [of _ i])
  moreover have "clients_ok hub'"
  proof -
    have "map_of (mh_clients hub') i \<noteq> None \<longleftrightarrow> map_of (mh_clients (hs_hub s)) i \<noteq> None" for i
      using R [of i] by (cases "map_of (mh_clients (hs_hub s)) i"; cases "map_of (mh_clients hub') i") auto
    then show ?thesis using assms by (simp add: http_inv_def clients_ok_def hub_tells_def)
  qed
  ultimately show ?thesis by (simp add: http_inv_def)
qed

text \<open>A step of a socket leaves the other clients alone, and its own client in order or gone.\<close>

definition sock_result :: "'g mwck_hub \<Rightarrow> 'g ws_socket \<Rightarrow> 'g ws_socket \<times> 'g mwck_hub \<Rightarrow> bool" where
  "sock_result hub so r = (case r of (so', hub') \<Rightarrow>
     so_id so' = so_id so \<and> clients_ok hub' \<and> (\<forall>j. j \<noteq> so_id so \<longrightarrow> map_of (mh_clients hub') j = map_of (mh_clients hub) j)
     \<and> (if so_phase so' = Ended then map_of (mh_clients hub') (so_id so) = None
        else \<exists>c. map_of (mh_clients hub') (so_id so) = Some c \<and> sock_ok so' c))"

lemma end_result:
  assumes "clients_ok hub'" "\<forall>j. j \<noteq> so_id so \<longrightarrow> map_of (mh_clients hub') j = map_of (mh_clients hub) j" "so_id so' = so_id so"
  shows "sock_result hub so (socket_end (so', hub'))"
proof -
  have "map_of (mh_clients (detach_client (so_id so) hub')) j = (if j = so_id so then None else map_of (mh_clients hub') j)" for j
    by (simp add: detach_client_def map_of_filter_key [where P = "\<lambda>k. k \<noteq> so_id so"])
  moreover have "sorted_wrt (<) (map fst (mh_clients (detach_client (so_id so) hub')))" "mh_next_id (detach_client (so_id so) hub') = mh_next_id hub'"
    using assms(1) by (simp_all add: detach_client_def clients_ok_def sorted_filter_keys)
  ultimately show ?thesis using assms by (auto simp: sock_result_def socket_end_def clients_ok_def)
qed

lemma write_result:
  assumes "sock_result hub so (so'\<lparr>so_phase := AtTop, so_frames := so_frames so' @ [frame]\<rparr>, hub')"
  shows "sock_result hub so (socket_write sent frame (so', hub'))"
  using assms end_result [of hub' so hub "so'\<lparr>so_phase := AtTop, so_frames := so_frames so' @ [frame]\<rparr>"]
  by (auto simp: socket_write_def Let_def sock_result_def)

lemma events_of_snoc: "events_of (fs @ [f]) = events_of fs @ (case f of FEvent v \<Rightarrow> [v] | _ \<Rightarrow> [])"
  by (cases f) (simp_all add: events_of_def map_filter_append List.map_filter_def)

lemma socket_text_result:
  assumes ok: "clients_ok hub" "map_of (mh_clients hub) (so_id so) = Some c" "sock_ok so c"
    and step: "socket_text cx q allow sent t (so, hub) = Ok r"
  shows "sock_result hub so r"
proof (cases "\<not> allowlist_contains allow (so_pubkey so) \<or> el_parse_json (cx_el cx) t = None")
  case True
  then show ?thesis using step ok end_result [of hub so hub so]
    by (auto simp: socket_text_def sock_result_def sock_ok_def split: if_splits option.splits)
next
  case False
  then obtain msg where listed: "allowlist_contains allow (so_pubkey so)" and msg: "el_parse_json (cx_el cx) t = Some msg" by auto
  obtain st' reply hub1 where h: "handle_socket cx q allow (so_pubkey so) (so_state so) msg hub = Ok (st', reply, hub1)"
    and r: "r = (let s' = (so\<lparr>so_state := st', so_phase := AtTop\<rparr>, set_client_state (so_id so) st' hub1)
                 in case reply of None \<Rightarrow> s' | Some out \<Rightarrow> socket_write sent (FReply out) s')"
    using step listed msg by (auto simp: socket_text_def)
  have e: "mh_clients hub1 = mh_clients hub" "mh_next_id hub1 = mh_next_id hub" "client_ok st'"
    using handle_socket_effect [OF h] ok(3) by (simp_all add: sock_ok_def)
  let ?hub' = "set_client_state (so_id so) st' hub1"
  have look: "map_of (mh_clients ?hub') j = map_option (\<lambda>c. if j = so_id so then c\<lparr>hc_state := st'\<rparr> else c) (map_of (mh_clients hub) j)" for j
    by (simp add: set_client_state_def map_of_set_state e(1))
  have ok': "clients_ok ?hub'"
  proof -
    have "map fst (mh_clients ?hub') = map fst (mh_clients hub)" "mh_next_id ?hub' = mh_next_id hub"
      unfolding set_client_state_def e by (simp_all add: e(2) comp_def case_prod_beta')
    then show ?thesis using ok(1) by (simp only: clients_ok_def look option.map_disc_iff) blast
  qed
  have "sock_result hub so (so\<lparr>so_state := st', so_phase := AtTop\<rparr>, ?hub')"
    using ok(2,3) ok' e(3) by (simp add: sock_result_def look sock_ok_def option.map_ident)
  moreover have "sock_result hub so (so\<lparr>so_state := st', so_phase := AtTop, so_frames := so_frames so @ [FReply out]\<rparr>, ?hub')" for out
    using ok(2,3) ok' e(3) by (simp add: sock_result_def look sock_ok_def option.map_ident events_of_snoc)
  ultimately show ?thesis unfolding r by (auto simp: Let_def intro!: write_result split: option.split)
qed

lemma socket_step_result:
  assumes ok: "clients_ok hub" "map_of (mh_clients hub) (so_id so) = Some c" "sock_ok so c"
    and step: "socket_step cx q allow ev sent (so, hub) = Ok r"
  shows "sock_result hub so r"
proof -
  have ended: "sock_result hub so (socket_end (so, hub))" using ok(1) by (intro end_result) auto
  have phase: "sock_result hub so (so\<lparr>so_phase := p\<rparr>, hub)" if "p \<noteq> Ended" for p
    using ok that by (simp add: sock_result_def sock_ok_def)
  have same: "sock_result hub so (so, hub)" using ok by (simp add: sock_result_def sock_ok_def)
  have event: "sock_result hub so (socket_write sent (FEvent v) (so\<lparr>so_taken := so_taken so + 1\<rparr>, hub))" if q: "queued so hub = Some v" for v
  proof (rule write_result)
    obtain out where out: "hc_out c = Some out" "so_taken so < length out" "out ! so_taken so = v" "events_of (so_frames so) = take (so_taken so) out"
    proof -
      obtain out where o1: "hc_out c = Some out" "events_of (so_frames so) = take (so_taken so) out" using ok(3) by (auto simp: sock_ok_def)
      then have "nth_opt out (so_taken so) = Some v" using q ok(2) by (simp add: queued_def)
      then show thesis using o1 by (intro that) simp_all
    qed
    then show "sock_result hub so ((so\<lparr>so_taken := so_taken so + 1\<rparr>)\<lparr>so_phase := AtTop,
        so_frames := so_frames (so\<lparr>so_taken := so_taken so + 1\<rparr>) @ [FEvent v]\<rparr>, hub)"
      using ok by (auto simp: sock_result_def sock_ok_def events_of_snoc take_Suc_conv_app_nth)
  qed
  have pong: "sock_result hub so (socket_write sent (FPong p) (so, hub))" for p
    using ok by (intro write_result) (simp add: sock_result_def sock_ok_def events_of_snoc)
  show ?thesis
    using step ended phase same event pong socket_text_result [OF ok, of cx q allow sent _ r]
    by (auto simp: socket_step_def split: ws_phase.splits ws_event.splits option.splits if_splits)
qed

lemma http_step_inv:
  assumes inv: "http_inv s" and step: "http_step cx sv nl s t"
  shows "http_inv t"
  using step
proof cases
  case (upgraded pk so hub')
  let ?n = "mh_next_id (hs_hub s)"
  have so: "so = \<lparr>so_pubkey = pk, so_id = ?n, so_state = client_default, so_phase = AtTop, so_taken = 0, so_frames = []\<rparr>"
    and hub': "hub' = (hs_hub s)\<lparr>mh_next_id := ?n + 1, mh_clients := btree_insert ?n \<lparr>hc_state = client_default, hc_out = Some []\<rparr> (mh_clients (hs_hub s))\<rparr>"
    using upgraded(3,4) by (auto simp: socket_start_def register_socket_def attach_def)
  have sorted: "sorted_wrt (<) (map fst (mh_clients (hs_hub s)))" using inv by (simp add: http_inv_def clients_ok_def)
  have ok: "sock_ok so \<lparr>hc_state = client_default, hc_out = Some []\<rparr>"
    by (simp add: so sock_ok_def client_default_ok events_of_def List.map_filter_def)
  show ?thesis using inv ok unfolding upgraded(1) http_inv_def
    by (auto simp: hub' clients_ok_def btree_insert_sorted map_of_btree_insert sorted less_Suc_eq) (simp_all add: so)
next
  case (turn i so ev sent so' hub')
  obtain c where c: "map_of (mh_clients (hs_hub s)) i = Some c" "so_id so = i" "sock_ok so c"
    using inv turn(2) unfolding http_inv_def by (cases "map_of (mh_clients (hs_hub s)) i") (force dest!: spec [of _ i])+
  have "sock_result (hs_hub s) so (so', hub')"
    using socket_step_result [OF _ _ c(3) turn(3)] inv c(1,2) by (simp add: http_inv_def)
  then show ?thesis using inv c(2) unfolding turn(1) http_inv_def sock_result_def
    by (auto split: if_splits)
next
  case mempool_changed
  then show ?thesis using inv_tells [OF inv hub_tells_mempool] by simp
next
  case tip_changed
  then show ?thesis using inv_tells [OF inv hub_tells_new_tip] by simp
qed (use inv in \<open>simp_all add: http_inv_def\<close>)

lemma http_start_inv: "http_inv (http_start q allow)"
  by (simp add: http_inv_def clients_ok_def http_start_def hub_new_def)

interpretation http_machine: invariant_machine "http_start q allow" "http_step cx sv nl" http_inv
  by unfold_locales (rule http_start_inv, rule http_step_inv)

section \<open>The properties\<close>

text \<open>C32: in every interleaving of requests, upgrades, sockets, notifications, reloads of the allowlist and updates of
  the index, the clients of the hub are exactly the open websockets; the hub filters events with the
  subscriptions the socket has just set; and a socket has been given the events of its client in the order the hub
  sent them, without gap or repetition, as far as it has taken them.\<close>

theorem sockets_follow_hub:
  assumes "reach (http_start q allow) (http_step cx sv nl) s"
  shows "(\<forall>i. hs_sockets s i = None \<longleftrightarrow> map_of (mh_clients (hs_hub s)) i = None)
    \<and> (\<forall>i so. hs_sockets s i = Some so \<longrightarrow>
        (\<exists>out. map_of (mh_clients (hs_hub s)) i = Some \<lparr>hc_state = so_state so, hc_out = Some out\<rparr>
           \<and> client_ok (so_state so) \<and> so_taken so \<le> length out
           \<and> events_of (so_frames so) = take (so_taken so) out \<and> FClose \<notin> set (so_frames so)))"
proof -
  have inv: "rel_option (\<lambda>so c. so_id so = i \<and> sock_ok so c) (hs_sockets s i) (map_of (mh_clients (hs_hub s)) i)" for i
    using http_machine.reach_inv [OF assms] by (simp add: http_inv_def)
  have "hs_sockets s i = None \<longleftrightarrow> map_of (mh_clients (hs_hub s)) i = None" for i
    using inv [of i] by (cases "hs_sockets s i"; cases "map_of (mh_clients (hs_hub s)) i") auto
  moreover have "\<exists>out. map_of (mh_clients (hs_hub s)) i = Some \<lparr>hc_state = so_state so, hc_out = Some out\<rparr>
      \<and> client_ok (so_state so) \<and> so_taken so \<le> length out
      \<and> events_of (so_frames so) = take (so_taken so) out \<and> FClose \<notin> set (so_frames so)" if live: "hs_sockets s i = Some so" for i so
  proof -
    obtain c where "map_of (mh_clients (hs_hub s)) i = Some c" "sock_ok so c"
      using inv [of i] live by (cases "map_of (mh_clients (hs_hub s)) i") auto
    then show ?thesis by (cases c) (auto simp: sock_ok_def)
  qed
  ultimately show ?thesis by blast
qed

definition demo_ws_nostr :: "unit nostr_lib" where
  "demo_ws_nostr = demo_nostr\<lparr>nl_json := (\<lambda>_. Some (JObject [(lit ''kind'', JNumber (PosInt 27235)), (lit ''created_at'', JNumber (PosInt 100)),
     (lit ''tags'', JArray [JArray [JString (lit ''u''), JString (lit ''http://localhost/api/v1/ws'')],
                           JArray [JString (lit ''method''), JString (lit ''GET'')]])]))\<rparr>"

definition demo_ws_req :: http_req where
  "demo_ws_req =
     \<lparr>hr_method = Get, hr_path = lit ''/api/v1/ws'', hr_query = None, hr_path_and_query = None,
      hr_header = (\<lambda>h. if h = ''authorization'' then Some (lit ''Nostr abc'') else if h = ''upgrade'' then Some (lit ''websocket'')
                       else if h = ''connection'' then Some (lit ''Upgrade'') else None),
      hr_ws_key = Some []\<rparr>"

lemma demo_gate:
  "http_ws_auth_gate demo_ws_nostr (auth_request demo_ws_req [] 120) b \<lparr>al_keys = {demo_hash 1}\<rparr> = Ok (Pubkey (demo_hash 1))"
proof -
  let ?url = "lit ''http://localhost/api/v1/ws''"
  let ?tags = "[JArray [JString (lit ''u''), JString ?url], JArray [JString (lit ''method''), JString (lit ''GET'')]] :: unit json list"
  have tr: "trim (lit ''abc'') = lit ''abc''" "trim (lit ''http'') = lit ''http''" "trim (lit ''localhost'') = lit ''localhost''"
    by (simp_all add: trim_def lit_def is_white_def)
  have url: "reconstruct_from_req demo_ws_req = ?url"
    by (simp add: reconstruct_from_req_def reconstruct_absolute_url_def demo_ws_req_def Let_def trim_def is_white_def lit_def)
  have header: "auth_header_from demo_ws_req = Some (lit ''Nostr abc'')" by (simp add: auth_header_from_def demo_ws_req_def)
  have tags: "scan_tags ?tags = (Some ?url, Some (lit ''GET''), None)" by code_simp
  have tok: "auth_token (Some (lit ''Nostr abc'')) = Ok (lit ''abc'')"
  proof -
    have "strip_prefix (lit ''Nostr '') (lit ''Nostr abc'') = Some (lit ''abc'')" by (simp add: strip_prefix_def lit_def starts_with_def)
    then show ?thesis by (simp add: auth_token_def tr) (simp add: lit_def)
  qed
  have len: "\<not> MAX_NIP98_AUTH_ENCODED_BYTES < utf8_len (lit ''abc'')"
    by (simp add: utf8_len_def lit_def MAX_NIP98_AUTH_ENCODED_BYTES_def MAX_NIP98_AUTH_EVENT_BYTES_def)
  have kind: "lit ''kind'' \<noteq> lit ''created_at''" "lit ''kind'' \<noteq> lit ''tags''" "lit ''created_at'' \<noteq> lit ''tags''" by (simp_all add: lit_def)
  have "verify_nip98 demo_ws_nostr (Some (lit ''Nostr abc'')) (lit ''GET'') ?url [] 120 NIP98_WINDOW_SECS \<lparr>al_keys = {demo_hash 1}\<rparr> = Ok (demo_hash 1)"
    unfolding verify_nip98_def tok demo_ws_nostr_def demo_nostr_def using kind len tags
    by (simp add: MAX_NIP98_AUTH_EVENT_BYTES_def NIP98_WINDOW_SECS_def nat_abs_diff_def allowlist_contains_def eq_ignore_ascii_case_def)
  moreover have "\<not> is_public_health_path (hr_path demo_ws_req)" by code_simp
  ultimately show ?thesis using url header
    by (simp add: http_ws_auth_gate_def auth_request_def method_str_def) (simp add: demo_ws_req_def)
qed

lemma demo_upgrade_headers: "is_websocket_upgrade demo_ws_req"
  by code_simp

text \<open>A signed upgrade request, and the socket it starts.\<close>

theorem sockets_follow_hub_witness:
  "\<exists>s so out. reach (http_start demo_page_query \<lparr>al_keys = {demo_hash 1}\<rparr>) (http_step demo_cx demo_sv demo_ws_nostr) s
    \<and> hs_sockets s 1 = Some so \<and> map_of (mh_clients (hs_hub s)) 1 = Some \<lparr>hc_state = so_state so, hc_out = Some out\<rparr>"
proof -
  let ?s0 = "http_start demo_page_query \<lparr>al_keys = {demo_hash 1}\<rparr>" and ?step = "http_step demo_cx demo_sv demo_ws_nostr"
  obtain r where r: "handle_one_rest_request demo_cx demo_sv demo_ws_nostr 120 (hs_allow ?s0) demo_ws_req (BodyRead []) (hs_query ?s0)
      = (r, hs_query ?s0, Some (demo_hash 1))"
  proof -
    have "hr_path demo_ws_req = lit ''/api/v1/ws''" "hr_ws_key demo_ws_req = Some []" by (simp_all add: demo_ws_req_def)
    then show thesis
      by (intro that) (simp add: handle_one_rest_request_def Let_def handle_mwck_upgrade_def demo_gate demo_upgrade_headers
          mwck_upgrade_http_status_def http_start_def)
  qed
  let ?s1 = "?s0\<lparr>hs_query := hs_query ?s0, hs_upgrades := hs_upgrades ?s0 @ [demo_hash 1]\<rparr>"
  have s1: "reach ?s0 ?step ?s1" using request [OF r, of] by (intro reach_step [OF reach_init]) simp
  obtain so hub' where so: "socket_start (demo_hash 1) (hs_hub ?s1) = (so, hub')" by fastforce
  have i: "so_id so = 1" using so by (simp add: socket_start_def register_socket_def attach_def http_start_def hub_new_def) auto
  let ?s2 = "?s1\<lparr>hs_hub := hub', hs_upgrades := remove1 (demo_hash 1) (hs_upgrades ?s1), hs_sockets := (hs_sockets ?s1)(so_id so \<mapsto> so)\<rparr>"
  have "?step ?s1 ?s2" by (rule upgraded [OF _ _ so]) (simp_all add: http_start_def hub_new_def)
  then have s2: "reach ?s0 ?step ?s2" by (rule reach_step [OF s1])
  have "hs_sockets ?s2 1 = Some so" by (simp add: i)
  with sockets_follow_hub [OF s2] s2 show ?thesis by blast
qed

fun socket_run ::
  "('d, 'f, 'g) rest_ctx \<Rightarrow> ('d, 'f, 'g) query \<Rightarrow> (allowlist \<times> ws_event \<times> bool) list \<Rightarrow> 'g ws_socket \<times> 'g mwck_hub
    \<Rightarrow> (error_kind, 'g ws_socket \<times> 'g mwck_hub) outcome"
where
  "socket_run cx q [] s = Ok s"
| "socket_run cx q ((allow, ev, sent) # evs) s = bind_out (socket_step cx q allow ev sent s) (socket_run cx q evs)"

lemma socket_run_ended: "so_phase so = Ended \<Longrightarrow> socket_run cx q evs (so, hub) = Ok (so, hub)"
  by (induction evs) (auto simp: socket_step_def)

lemma end_facts:
  "so_phase (fst (socket_end (so, hub))) = Ended" "map_of (mh_clients (snd (socket_end (so, hub)))) (so_id so) = None"
  "so_frames (fst (socket_end (so, hub))) = so_frames so @ [FClose]" "so_state (fst (socket_end (so, hub))) = so_state so"
  by (simp_all add: socket_end_def detach_client_def map_of_filter_key [where P = "\<lambda>k. k \<noteq> so_id so"])

lemma write_facts:
  fixes so :: "'g ws_socket"
  obtains (top) so' where "socket_write sent frame (so, hub) = (so', hub)" "so_phase so' = AtTop" "so_frames so' = so_frames so @ [frame]"
      "so_state so' = so_state so" "so_pubkey so' = so_pubkey so" "so_id so' = so_id so"
    | (ended) so' where "socket_write sent frame (so, hub) = socket_end (so', hub)" "so_frames so' = so_frames so @ [frame]"
      "so_state so' = so_state so" "so_id so' = so_id so"
  by (cases sent) (auto simp: socket_write_def Let_def)

text \<open>A socket whose key is taken off the allowlist goes silent. Whatever it was waiting for, within two steps of
  its loop it is closed and its client has left the hub, without a panic; in between it may have been given
  one more event or pong, which the loop was already waiting for, but no message of the client is handled any more.\<close>

theorem revoked_socket_closes:
  assumes "so_phase so \<noteq> Ended" "so_pubkey so \<notin> al_keys allow1" "so_pubkey so \<notin> al_keys allow2"
    and "ev1 = WsQueued \<longrightarrow> queued so hub \<noteq> None"
  shows "\<exists>so' hub' extra. socket_run cx q ((allow1, ev1, sent1) # (allow2, ev2, sent2) # evs) (so, hub) = Ok (so', hub')
    \<and> so_phase so' = Ended \<and> map_of (mh_clients hub') (so_id so) = None \<and> so_state so' = so_state so
    \<and> so_frames so' = so_frames so @ extra @ [FClose] \<and> length extra \<le> 1 \<and> (\<forall>v. FReply v \<notin> set extra)"
proof -
  have out: "\<not> allowlist_contains allow1 (so_pubkey so)" "\<not> allowlist_contains allow2 (so_pubkey so)"
    using assms(2,3) by (simp_all add: allowlist_contains_def)
  have fin: ?thesis if "socket_step cx q allow1 ev1 sent1 (so, hub) = Ok (socket_end (so1, hub))"
    "so_frames so1 = so_frames so @ extra" "length extra \<le> 1" "\<forall>v. FReply v \<notin> set extra" "so_state so1 = so_state so" "so_id so1 = so_id so"
    for so1 extra
  proof -
    obtain so' hub' where e: "socket_end (so1, hub) = (so', hub')" by fastforce
    then show ?thesis
      using that end_facts [of so1 hub] socket_run_ended [of so' cx q "(allow2, ev2, sent2) # evs" hub'] by auto
  qed
  have top: ?thesis if "socket_step cx q allow1 ev1 sent1 (so, hub) = Ok (so1, hub)" "so_phase so1 = AtTop" "so_pubkey so1 = so_pubkey so"
    "so_frames so1 = so_frames so @ extra" "length extra \<le> 1" "\<forall>v. FReply v \<notin> set extra" "so_state so1 = so_state so" "so_id so1 = so_id so"
    for so1 extra
  proof -
    obtain so' hub' where e: "socket_end (so1, hub) = (so', hub')" by fastforce
    have "socket_step cx q allow2 ev2 sent2 (so1, hub) = Ok (so', hub')" using that out(2) e by (simp add: socket_step_def)
    then show ?thesis
      using that e end_facts [of so1 hub] socket_run_ended [of so' cx q evs hub'] by auto
  qed
  have written: ?thesis if "socket_step cx q allow1 ev1 sent1 (so, hub) = Ok (socket_write sent1 frame (so0, hub))" "\<forall>v. frame \<noteq> FReply v"
    "so_frames so0 = so_frames so" "so_state so0 = so_state so" "so_pubkey so0 = so_pubkey so" "so_id so0 = so_id so" for frame so0
  proof (rule write_facts [of sent1 frame so0 hub])
    fix so' assume "socket_write sent1 frame (so0, hub) = (so', hub)" "so_phase so' = AtTop" "so_frames so' = so_frames so0 @ [frame]"
      "so_state so' = so_state so0" "so_pubkey so' = so_pubkey so0" "so_id so' = so_id so0"
    then show ?thesis using that by (intro top [of so' "[frame]"]) auto
  next
    fix so' assume "socket_write sent1 frame (so0, hub) = socket_end (so', hub)" "so_frames so' = so_frames so0 @ [frame]"
      "so_state so' = so_state so0" "so_id so' = so_id so0"
    then show ?thesis using that by (intro fin [of so' "[frame]"]) auto
  qed
  show ?thesis
  proof (cases "so_phase so")
    case AtTop
    then show ?thesis using out fin [of so "[]"] by (simp add: socket_step_def)
  next
    case Selecting
    show ?thesis
    proof (cases ev1)
      case WsQueued
      then obtain v where "queued so hub = Some v" using assms(4) by auto
      then show ?thesis using WsQueued Selecting written [of "FEvent v" "so\<lparr>so_taken := so_taken so + 1\<rparr>"] by (simp add: socket_step_def)
    next
      case (WsPing p)
      then show ?thesis using Selecting written [of "FPong p" so] by (simp add: socket_step_def)
    next
      case WsOther
      then show ?thesis using Selecting top [of "so\<lparr>so_phase := AtTop\<rparr>" "[]"] by (simp add: socket_step_def)
    qed (use Selecting out fin [of so "[]"] in \<open>simp_all add: socket_step_def socket_text_def\<close>)
  qed (use assms(1) in simp)
qed

definition demo_socket :: "nat ws_socket" where
  "demo_socket = \<lparr>so_pubkey = demo_hash 1, so_id = 1, so_state = client_default, so_phase = Selecting, so_taken = 0, so_frames = []\<rparr>"

theorem revoked_socket_closes_witness:
  "\<exists>so' hub' extra. socket_run demo_cx demo_page_query [(deny_all, WsText [], True), (deny_all, WsTick, True)] (demo_socket, hub_new) = Ok (so', hub')
    \<and> so_phase so' = Ended \<and> map_of (mh_clients hub') 1 = None \<and> so_state so' = client_default
    \<and> so_frames so' = extra @ [FClose] \<and> length extra \<le> 1 \<and> (\<forall>v. FReply v \<notin> set extra)"
  using revoked_socket_closes [of demo_socket deny_all deny_all "WsText []" hub_new demo_cx demo_page_query True WsTick True "[]"]
  by (simp add: demo_socket_def deny_all_def)

end
