(* ===== verification/Client_Routes.thy ===== *)
theory Client_Routes
  imports Rest
begin

text \<open>
  What the clients ask of an indexer: the table of routes and the paths built from it (\<^verbatim>\<open>frontend/shared/src/paths.rs\<close>),
  and the search of the web client (\<^verbatim>\<open>frontend/web/src/search.rs\<close>), which turns one query into page links and
  requests. The theorems hold the table, the builders and the plans against the dispatch of the indexer.
\<close>

section \<open>Routes\<close>

definition ROUTES :: "(verb \<times> utext) list" where
  "ROUTES = [
    (Get, lit ''/blocks''),
    (Get, lit ''/mempool/recent''),
    (Get, lit ''/block/:hash''),
    (Get, lit ''/block/:hash/txs''),
    (Get, lit ''/block-height/:height''),
    (Get, lit ''/tx/:txid''),
    (Get, lit ''/address/:script''),
    (Get, lit ''/address/:script/txs''),
    (Get, lit ''/address/:script/utxo''),
    (Post, lit ''/tx''),
    (Post, lit ''/txs/test''),
    (Get, lit ''/blocks/tip/hash''),
    (Get, lit ''/blocks/tip/height''),
    (Get, lit ''/blocks/:start_height''),
    (Get, lit ''/block/:hash/txids''),
    (Get, lit ''/block/:hash/txs/:start_index''),
    (Get, lit ''/mempool''),
    (Get, lit ''/fee-estimates''),
    (Get, lit ''/block/:hash/status''),
    (Get, lit ''/tx/:txid/outspends''),
    (Get, lit ''/tx/:txid/outspend/:index''),
    (Get, lit ''/tx/:txid/merkle-proof''),
    (Get, lit ''/tx/:txid/hex''),
    (Get, lit ''/address/:script/txs/chain''),
    (Get, lit ''/address/:script/txs/chain/:last_seen_txid''),
    (Get, lit ''/address/:script/txs/mempool''),
    (Get, lit ''/address/:script/txs/summary''),
    (Get, lit ''/address/:script/txs/summary/:last_seen_txid''),
    (Get, lit ''/mempool/txids''),
    (Get, lit ''/mempool/txids/page/:last_seen_txid''),
    (Get, lit ''/address-prefix/:prefix''),
    (Get, lit ''/scripthash/:hash''),
    (Get, lit ''/scripthash/:hash/txs''),
    (Get, lit ''/scripthash/:hash/txs/chain''),
    (Get, lit ''/scripthash/:hash/txs/chain/:last_seen_txid''),
    (Get, lit ''/scripthash/:hash/txs/mempool''),
    (Get, lit ''/scripthash/:hash/utxo''),
    (Post, lit ''/txs/package''),
    (Get, lit ''/scripthash/:hash/txs/summary''),
    (Get, lit ''/scripthash/:hash/txs/summary/:last_seen_txid''),
    (Post, lit ''/addresses/txs''),
    (Post, lit ''/scripthashes/txs''),
    (Post, lit ''/addresses/txs/summary''),
    (Post, lit ''/addresses/txs/summary/:last_seen_txid''),
    (Post, lit ''/scripthashes/txs/summary''),
    (Post, lit ''/scripthashes/txs/summary/:last_seen_txid''),
    (Get, lit ''/txs/outspends''),
    (Get, lit ''/tx/:txid/status''),
    (Get, lit ''/block/:hash/txid/:index''),
    (Get, lit ''/block/:hash/header''),
    (Get, lit ''/block/:hash/raw''),
    (Get, lit ''/tx/:txid/raw''),
    (Get, lit ''/tx/:txid/merkleblock-proof'')]"

section \<open>Paths\<close>

definition blocks_path :: "utext" where
  "blocks_path = lit ''/blocks''"

definition blocks_start_height_path :: "nat \<Rightarrow> utext" where
  "blocks_start_height_path start_height = lit ''/blocks/'' @ show_nat start_height"

definition blocks_tip_hash_path :: "utext" where
  "blocks_tip_hash_path = lit ''/blocks/tip/hash''"

definition blocks_tip_height_path :: "utext" where
  "blocks_tip_height_path = lit ''/blocks/tip/height''"

definition mempool_recent_path :: "utext" where
  "mempool_recent_path = lit ''/mempool/recent''"

definition mempool_path :: "utext" where
  "mempool_path = lit ''/mempool''"

definition fee_estimates_path :: "utext" where
  "fee_estimates_path = lit ''/fee-estimates''"

definition block_path :: "utext \<Rightarrow> utext" where
  "block_path hash = lit ''/block/'' @ hash"

definition block_txs_path :: "utext \<Rightarrow> utext" where
  "block_txs_path hash = lit ''/block/'' @ hash @ lit ''/txs''"

definition block_txs_start_index_path :: "utext \<Rightarrow> nat \<Rightarrow> utext" where
  "block_txs_start_index_path hash start_index = lit ''/block/'' @ hash @ lit ''/txs/'' @ show_nat start_index"

definition block_txids_path :: "utext \<Rightarrow> utext" where
  "block_txids_path hash = lit ''/block/'' @ hash @ lit ''/txids''"

definition block_height_path :: "nat \<Rightarrow> utext" where
  "block_height_path height = lit ''/block-height/'' @ show_nat height"

definition tx_path :: "utext \<Rightarrow> utext" where
  "tx_path txid = lit ''/tx/'' @ txid"

definition address_path :: "utext \<Rightarrow> utext" where
  "address_path script = lit ''/address/'' @ script"

definition address_txs_path :: "utext \<Rightarrow> utext" where
  "address_txs_path script = lit ''/address/'' @ script @ lit ''/txs''"

definition address_utxo_path :: "utext \<Rightarrow> utext" where
  "address_utxo_path script = lit ''/address/'' @ script @ lit ''/utxo''"

definition broadcast_path :: "utext" where
  "broadcast_path = lit ''/tx''"

definition test_txs_path :: "utext" where
  "test_txs_path = lit ''/txs/test''"

definition block_status_path :: "utext \<Rightarrow> utext" where
  "block_status_path hash = lit ''/block/'' @ hash @ lit ''/status''"

definition tx_outspends_path :: "utext \<Rightarrow> utext" where
  "tx_outspends_path txid = lit ''/tx/'' @ txid @ lit ''/outspends''"

definition tx_outspend_path :: "utext \<Rightarrow> nat \<Rightarrow> utext" where
  "tx_outspend_path txid index = lit ''/tx/'' @ txid @ lit ''/outspend/'' @ show_nat index"

definition tx_merkle_proof_path :: "utext \<Rightarrow> utext" where
  "tx_merkle_proof_path txid = lit ''/tx/'' @ txid @ lit ''/merkle-proof''"

definition tx_hex_path :: "utext \<Rightarrow> utext" where
  "tx_hex_path txid = lit ''/tx/'' @ txid @ lit ''/hex''"

definition address_txs_chain_path :: "utext \<Rightarrow> utext" where
  "address_txs_chain_path script = lit ''/address/'' @ script @ lit ''/txs/chain''"

definition address_txs_chain_page_path :: "utext \<Rightarrow> utext \<Rightarrow> utext" where
  "address_txs_chain_page_path script last_seen_txid = lit ''/address/'' @ script @ lit ''/txs/chain/'' @ last_seen_txid"

definition address_txs_mempool_path :: "utext \<Rightarrow> utext" where
  "address_txs_mempool_path script = lit ''/address/'' @ script @ lit ''/txs/mempool''"

definition address_txs_summary_path :: "utext \<Rightarrow> utext" where
  "address_txs_summary_path script = lit ''/address/'' @ script @ lit ''/txs/summary''"

definition address_txs_summary_page_path :: "utext \<Rightarrow> utext \<Rightarrow> utext" where
  "address_txs_summary_page_path script last_seen_txid = lit ''/address/'' @ script @ lit ''/txs/summary/'' @ last_seen_txid"

definition mempool_txids_path :: "utext" where
  "mempool_txids_path = lit ''/mempool/txids''"

definition mempool_txids_page_path :: "utext \<Rightarrow> utext" where
  "mempool_txids_page_path last_seen_txid = lit ''/mempool/txids/page/'' @ last_seen_txid"

definition address_prefix_path :: "utext \<Rightarrow> utext" where
  "address_prefix_path pre = lit ''/address-prefix/'' @ pre"

definition scripthash_path :: "utext \<Rightarrow> utext" where
  "scripthash_path hash = lit ''/scripthash/'' @ hash"

definition scripthash_txs_path :: "utext \<Rightarrow> utext" where
  "scripthash_txs_path hash = lit ''/scripthash/'' @ hash @ lit ''/txs''"

definition scripthash_txs_chain_path :: "utext \<Rightarrow> utext" where
  "scripthash_txs_chain_path hash = lit ''/scripthash/'' @ hash @ lit ''/txs/chain''"

definition scripthash_txs_chain_page_path :: "utext \<Rightarrow> utext \<Rightarrow> utext" where
  "scripthash_txs_chain_page_path hash last_seen_txid = lit ''/scripthash/'' @ hash @ lit ''/txs/chain/'' @ last_seen_txid"

definition scripthash_txs_mempool_path :: "utext \<Rightarrow> utext" where
  "scripthash_txs_mempool_path hash = lit ''/scripthash/'' @ hash @ lit ''/txs/mempool''"

definition scripthash_utxo_path :: "utext \<Rightarrow> utext" where
  "scripthash_utxo_path hash = lit ''/scripthash/'' @ hash @ lit ''/utxo''"

definition package_path :: "utext" where
  "package_path = lit ''/txs/package''"

definition asset_page_path :: "utext \<Rightarrow> utext" where
  "asset_page_path asset_id = lit ''/assets/asset/'' @ asset_id"

definition asset_path :: "utext \<Rightarrow> utext" where
  "asset_path asset = lit ''/asset/'' @ asset"

definition asset_txs_path :: "utext \<Rightarrow> utext" where
  "asset_txs_path asset = lit ''/asset/'' @ asset @ lit ''/txs''"

definition asset_registry_path :: "utext \<Rightarrow> utext" where
  "asset_registry_path asset = lit ''/assets/registry/'' @ asset"

definition scripthash_txs_summary_path :: "utext \<Rightarrow> utext" where
  "scripthash_txs_summary_path hash = lit ''/scripthash/'' @ hash @ lit ''/txs/summary''"

definition scripthash_txs_summary_page_path :: "utext \<Rightarrow> utext \<Rightarrow> utext" where
  "scripthash_txs_summary_page_path hash last_seen_txid = lit ''/scripthash/'' @ hash @ lit ''/txs/summary/'' @ last_seen_txid"

definition addresses_txs_path :: "utext" where
  "addresses_txs_path = lit ''/addresses/txs''"

definition scripthashes_txs_path :: "utext" where
  "scripthashes_txs_path = lit ''/scripthashes/txs''"

definition addresses_txs_summary_path :: "utext" where
  "addresses_txs_summary_path = lit ''/addresses/txs/summary''"

definition addresses_txs_summary_page_path :: "utext \<Rightarrow> utext" where
  "addresses_txs_summary_page_path last_seen_txid = lit ''/addresses/txs/summary/'' @ last_seen_txid"

definition scripthashes_txs_summary_path :: "utext" where
  "scripthashes_txs_summary_path = lit ''/scripthashes/txs/summary''"

definition scripthashes_txs_summary_page_path :: "utext \<Rightarrow> utext" where
  "scripthashes_txs_summary_page_path last_seen_txid = lit ''/scripthashes/txs/summary/'' @ last_seen_txid"

definition tx_status_path :: "utext \<Rightarrow> utext" where
  "tx_status_path txid = lit ''/tx/'' @ txid @ lit ''/status''"

definition block_txid_path :: "utext \<Rightarrow> nat \<Rightarrow> utext" where
  "block_txid_path hash index = lit ''/block/'' @ hash @ lit ''/txid/'' @ show_nat index"

definition block_header_path :: "utext \<Rightarrow> utext" where
  "block_header_path hash = lit ''/block/'' @ hash @ lit ''/header''"

definition block_raw_path :: "utext \<Rightarrow> utext" where
  "block_raw_path hash = lit ''/block/'' @ hash @ lit ''/raw''"

definition tx_raw_path :: "utext \<Rightarrow> utext" where
  "tx_raw_path txid = lit ''/tx/'' @ txid @ lit ''/raw''"

definition tx_merkleblock_proof_path :: "utext \<Rightarrow> utext" where
  "tx_merkleblock_proof_path txid = lit ''/tx/'' @ txid @ lit ''/merkleblock-proof''"

definition assets_registry_path :: "utext" where
  "assets_registry_path = lit ''/assets/registry''"

definition asset_txs_chain_path :: "utext \<Rightarrow> utext" where
  "asset_txs_chain_path asset = lit ''/asset/'' @ asset @ lit ''/txs/chain''"

definition asset_txs_chain_page_path :: "utext \<Rightarrow> utext \<Rightarrow> utext" where
  "asset_txs_chain_page_path asset last_seen_txid = lit ''/asset/'' @ asset @ lit ''/txs/chain/'' @ last_seen_txid"

definition asset_txs_mempool_path :: "utext \<Rightarrow> utext" where
  "asset_txs_mempool_path asset = lit ''/asset/'' @ asset @ lit ''/txs/mempool''"

definition asset_supply_path :: "utext \<Rightarrow> utext" where
  "asset_supply_path asset = lit ''/asset/'' @ asset @ lit ''/supply''"

definition asset_supply_decimal_path :: "utext \<Rightarrow> utext" where
  "asset_supply_decimal_path asset = lit ''/asset/'' @ asset @ lit ''/supply/decimal''"

text \<open>The paths with a query.\<close>

definition TXS_OUTSPENDS_MAX :: nat where
  "TXS_OUTSPENDS_MAX = 50"

fun join :: "utext \<Rightarrow> utext list \<Rightarrow> utext" where
  "join sep [] = []"
| "join sep [x] = x"
| "join sep (x # y # xs) = x @ sep @ join sep (y # xs)"

definition txs_outspends_path :: "utext list \<Rightarrow> (string, utext) outcome" where
  "txs_outspends_path txids =
     (if txids = [] then Err ''txids query was empty''
      else if TXS_OUTSPENDS_MAX < length txids then Err ''txids query is limited to 50''
      else if \<exists>txid\<in>set txids. txid = [] \<or> 44 \<in> set txid \<or> 38 \<in> set txid then Err ''txid was empty or contained a separator''
      else Ok (lit ''/txs/outspends?txids='' @ join (lit '','') txids))"

definition broadcast_body :: "utext \<Rightarrow> utext" where
  "broadcast_body hex = trim hex"

definition upper_hex_digit :: "nat \<Rightarrow> nat" where
  "upper_hex_digit n = (if n < 10 then 48 + n else 55 + n)"

definition encode_query :: "utext \<Rightarrow> utext" where
  "encode_query value_text = concat (map (\<lambda>byte. let b = unat byte in
     if 65 \<le> b \<and> b \<le> 90 \<or> 97 \<le> b \<and> b \<le> 122 \<or> 48 \<le> b \<and> b \<le> 57 \<or> b \<in> {45, 95, 46, 126} then [b]
     else [37, upper_hex_digit (b div 16), upper_hex_digit (b mod 16)]) (utf8_encode value_text))"

definition append_query :: "utext \<Rightarrow> utext \<Rightarrow> utext option \<Rightarrow> utext" where
  "append_query query key v =
     (case v of
        None \<Rightarrow> query
      | Some t \<Rightarrow> (if query \<noteq> [] then query @ lit ''&'' else query) @ key @ lit ''='' @ encode_query t)"

definition assets_registry_page_path :: "utext option \<Rightarrow> utext option \<Rightarrow> utext option \<Rightarrow> utext option \<Rightarrow> utext" where
  "assets_registry_page_path start_index limit sort_field sort_dir =
     (let query = append_query (append_query (append_query (append_query []
            (lit ''start_index'') start_index) (lit ''limit'') limit) (lit ''sort_field'') sort_field) (lit ''sort_dir'') sort_dir
      in if query = [] then assets_registry_path else assets_registry_path @ lit ''?'' @ query)"

definition assets_registry_search_path :: "utext \<Rightarrow> utext" where
  "assets_registry_search_path query = lit ''/assets/registry/search?q='' @ encode_query query"

section \<open>The table and the indexer\<close>

definition segments :: "utext \<Rightarrow> utext list" where
  "segments path = drop 1 (split_at 47 path)"

text \<open>A path fills a pattern when it has the pattern's segments, with any text in place of a parameter; the texts in these
  places are its arguments.\<close>

definition is_param :: "utext \<Rightarrow> bool" where
  "is_param p = starts_with p (lit '':'')"

definition fill_segments :: "utext list \<Rightarrow> utext list \<Rightarrow> bool" where
  "fill_segments ps ss = list_all2 (\<lambda>p s. is_param p \<or> s = p) ps ss"

definition segment_arguments :: "utext list \<Rightarrow> utext list \<Rightarrow> utext list" where
  "segment_arguments ps ss = map snd (filter (\<lambda>(p, s). is_param p) (zip ps ss))"

definition fills :: "utext \<Rightarrow> utext \<Rightarrow> bool" where
  "fills pattern path = fill_segments (segments pattern) (segments path)"

definition arguments :: "utext \<Rightarrow> utext \<Rightarrow> utext list" where
  "arguments pattern path = segment_arguments (segments pattern) (segments path)"

text \<open>What each route of the table stands for: the handler that answers it, given the arguments of the path, the
  query parameters and the body.\<close>

definition route_table ::
  "('d, 'f, 'g) rest_ctx \<Rightarrow> ('d, 'f, 'g) query \<Rightarrow> (utext \<rightharpoonup> utext) \<Rightarrow> bytes
    \<Rightarrow> (verb \<times> utext \<times> (utext list \<Rightarrow> 'g handled \<times> ('d, 'f, 'g) query)) list"
where
  "route_table cx q params body =
     [(Get, lit ''/blocks'', \<lambda>xs. (blocks cx q None, q)),
      (Get, lit ''/mempool/recent'', \<lambda>xs. (ep_mempool_recent cx q, q)),
      (Get, lit ''/block/:hash'', \<lambda>xs. (ep_block cx q (xs ! 0), q)),
      (Get, lit ''/block/:hash/txs'', \<lambda>xs. (ep_block_txs cx q (xs ! 0) None, q)),
      (Get, lit ''/block-height/:height'', \<lambda>xs. (ep_block_height cx q (xs ! 0), q)),
      (Get, lit ''/tx/:txid'', \<lambda>xs. (ep_tx cx q (xs ! 0), q)),
      (Get, lit ''/address/:script'', \<lambda>xs. ep_script_stats cx q (lit ''address'') (xs ! 0)),
      (Get, lit ''/address/:script/txs'', \<lambda>xs. with_script cx q (lit ''address'') (xs ! 0) (\<lambda>sh. (ep_script_txs cx q params sh, q))),
      (Get, lit ''/address/:script/utxo'', \<lambda>xs. ep_script_utxo cx q (lit ''address'') (xs ! 0)),
      (Post, lit ''/tx'', \<lambda>xs. ep_broadcast cx q Post params body),
      (Post, lit ''/txs/test'', \<lambda>xs. (ep_txs_test cx params body, q)),
      (Get, lit ''/blocks/tip/hash'', \<lambda>xs. (ep_tip_hash cx q, q)),
      (Get, lit ''/blocks/tip/height'', \<lambda>xs. (ep_tip_height q, q)),
      (Get, lit ''/blocks/:start_height'', \<lambda>xs. (blocks cx q (parse_usize (xs ! 0)), q)),
      (Get, lit ''/block/:hash/txids'', \<lambda>xs. (ep_block_txids cx q (xs ! 0), q)),
      (Get, lit ''/block/:hash/txs/:start_index'', \<lambda>xs. (ep_block_txs cx q (xs ! 0) (Some (xs ! 1)), q)),
      (Get, lit ''/mempool'', \<lambda>xs. (ep_mempool cx q, q)),
      (Get, lit ''/fee-estimates'', \<lambda>xs. ep_fee_estimates cx q),
      (Get, lit ''/block/:hash/status'', \<lambda>xs. (ep_block_status cx q (xs ! 0), q)),
      (Get, lit ''/tx/:txid/outspends'', \<lambda>xs. (ep_outspends cx q (xs ! 0), q)),
      (Get, lit ''/tx/:txid/outspend/:index'', \<lambda>xs. (ep_outspend cx q (xs ! 0) (xs ! 1), q)),
      (Get, lit ''/tx/:txid/merkle-proof'', \<lambda>xs. (ep_merkle_proof cx q (xs ! 0), q)),
      (Get, lit ''/tx/:txid/hex'', \<lambda>xs. (ep_tx_raw cx q (xs ! 0) (lit ''hex''), q)),
      (Get, lit ''/address/:script/txs/chain'', \<lambda>xs. with_script cx q (lit ''address'') (xs ! 0) (\<lambda>sh. (ep_script_txs_chain cx q params sh None, q))),
      (Get, lit ''/address/:script/txs/chain/:last_seen_txid'', \<lambda>xs. with_script cx q (lit ''address'') (xs ! 0) (\<lambda>sh. (ep_script_txs_chain cx q params sh (Some (xs ! 1)), q))),
      (Get, lit ''/address/:script/txs/mempool'', \<lambda>xs. with_script cx q (lit ''address'') (xs ! 0) (\<lambda>sh. (ep_script_mempool cx q params sh, q))),
      (Get, lit ''/address/:script/txs/summary'', \<lambda>xs. with_script cx q (lit ''address'') (xs ! 0) (\<lambda>sh. (ep_script_summary cx q params sh None, q))),
      (Get, lit ''/address/:script/txs/summary/:last_seen_txid'', \<lambda>xs. with_script cx q (lit ''address'') (xs ! 0) (\<lambda>sh. (ep_script_summary cx q params sh (Some (xs ! 1)), q))),
      (Get, lit ''/mempool/txids'', \<lambda>xs. (ep_mempool_txids cx q, q)),
      (Get, lit ''/mempool/txids/page/:last_seen_txid'', \<lambda>xs. (ep_mempool_txids_page cx q params (Some (xs ! 0)), q)),
      (Get, lit ''/address-prefix/:prefix'', \<lambda>xs. (ep_address_prefix cx q (xs ! 0), q)),
      (Get, lit ''/scripthash/:hash'', \<lambda>xs. ep_script_stats cx q (lit ''scripthash'') (xs ! 0)),
      (Get, lit ''/scripthash/:hash/txs'', \<lambda>xs. with_script cx q (lit ''scripthash'') (xs ! 0) (\<lambda>sh. (ep_script_txs cx q params sh, q))),
      (Get, lit ''/scripthash/:hash/txs/chain'', \<lambda>xs. with_script cx q (lit ''scripthash'') (xs ! 0) (\<lambda>sh. (ep_script_txs_chain cx q params sh None, q))),
      (Get, lit ''/scripthash/:hash/txs/chain/:last_seen_txid'', \<lambda>xs. with_script cx q (lit ''scripthash'') (xs ! 0) (\<lambda>sh. (ep_script_txs_chain cx q params sh (Some (xs ! 1)), q))),
      (Get, lit ''/scripthash/:hash/txs/mempool'', \<lambda>xs. with_script cx q (lit ''scripthash'') (xs ! 0) (\<lambda>sh. (ep_script_mempool cx q params sh, q))),
      (Get, lit ''/scripthash/:hash/utxo'', \<lambda>xs. ep_script_utxo cx q (lit ''scripthash'') (xs ! 0)),
      (Post, lit ''/txs/package'', \<lambda>xs. (ep_txs_package cx params body, q)),
      (Get, lit ''/scripthash/:hash/txs/summary'', \<lambda>xs. with_script cx q (lit ''scripthash'') (xs ! 0) (\<lambda>sh. (ep_script_summary cx q params sh None, q))),
      (Get, lit ''/scripthash/:hash/txs/summary/:last_seen_txid'', \<lambda>xs. with_script cx q (lit ''scripthash'') (xs ! 0) (\<lambda>sh. (ep_script_summary cx q params sh (Some (xs ! 1)), q))),
      (Post, lit ''/addresses/txs'', \<lambda>xs. (ep_scripts_txs cx q params (lit ''addresses'') body, q)),
      (Post, lit ''/scripthashes/txs'', \<lambda>xs. (ep_scripts_txs cx q params (lit ''scripthashes'') body, q)),
      (Post, lit ''/addresses/txs/summary'', \<lambda>xs. (ep_scripts_summary cx q params (lit ''addresses'') body None, q)),
      (Post, lit ''/addresses/txs/summary/:last_seen_txid'', \<lambda>xs. (ep_scripts_summary cx q params (lit ''addresses'') body (Some (xs ! 0)), q)),
      (Post, lit ''/scripthashes/txs/summary'', \<lambda>xs. (ep_scripts_summary cx q params (lit ''scripthashes'') body None, q)),
      (Post, lit ''/scripthashes/txs/summary/:last_seen_txid'', \<lambda>xs. (ep_scripts_summary cx q params (lit ''scripthashes'') body (Some (xs ! 0)), q)),
      (Get, lit ''/txs/outspends'', \<lambda>xs. (ep_txs_outspends cx q params, q)),
      (Get, lit ''/tx/:txid/status'', \<lambda>xs. (ep_tx_status cx q (xs ! 0), q)),
      (Get, lit ''/block/:hash/txid/:index'', \<lambda>xs. (ep_block_txid cx q (xs ! 0) (xs ! 1), q)),
      (Get, lit ''/block/:hash/header'', \<lambda>xs. (ep_block_header cx q (xs ! 0), q)),
      (Get, lit ''/block/:hash/raw'', \<lambda>xs. (ep_block_raw cx q (xs ! 0), q)),
      (Get, lit ''/tx/:txid/raw'', \<lambda>xs. (ep_tx_raw cx q (xs ! 0) (lit ''raw''), q)),
      (Get, lit ''/tx/:txid/merkleblock-proof'', \<lambda>xs. (ep_merkleblock_proof cx q (xs ! 0), q))]"

lemma route_table_routes: "map (\<lambda>(m, pattern, h). (m, pattern)) (route_table cx q params body) = ROUTES"
  by (simp add: route_table_def ROUTES_def)

definition dispatched ::
  "('d, 'f, 'g) rest_ctx \<Rightarrow> ('d, 'f, 'g) query \<Rightarrow> (utext \<rightharpoonup> utext) \<Rightarrow> bytes \<Rightarrow> verb \<Rightarrow> utext list \<Rightarrow> ('g handled \<times> ('d, 'f, 'g) query) option"
where
  "dispatched cx q params body m segs =
     (case m of Get \<Rightarrow> get_request cx q params segs | Post \<Rightarrow> post_request cx q params body segs | OtherVerb _ \<Rightarrow> None)"

lemma dispatched_handle:
  "handle_request cx q m path query body =
     (case dispatched cx q (query_params_of (cx_rl cx) query) body m (segments path) of
        Some r \<Rightarrow> r
      | None \<Rightarrow> (Err (he_not_found (lit ''endpoint does not exist '' @ rl_debug_text (cx_rl cx) path)), q))"
  by (simp add: handle_request_def dispatched_def segments_def Let_def)

lemmas dispatch_defs = get_request_def post_request_def get_one_def get_two_def get_three_def get_four_def get_five_def is_script_kind_def is_scripts_kind_def

definition served ::
  "('d, 'f, 'g) rest_ctx \<Rightarrow> ('d, 'f, 'g) query \<Rightarrow> (utext \<rightharpoonup> utext) \<Rightarrow> bytes
    \<Rightarrow> verb \<times> utext \<times> (utext list \<Rightarrow> 'g handled \<times> ('d, 'f, 'g) query) \<Rightarrow> bool"
where
  "served cx q params body r = (case r of (m, pattern, h) \<Rightarrow>
     \<forall>segs. fill_segments (segments pattern) segs \<longrightarrow> dispatched cx q params body m segs = Some (h (segment_arguments (segments pattern) segs)))"

lemma routes_all_served: "list_all (served cx q params body) (route_table cx q params body)"
  unfolding route_table_def
  by (simp add: served_def segments_def fill_segments_def segment_arguments_def is_param_def lit_def starts_with_def list_all2_Cons1
      dispatched_def dispatch_defs)
    (intro conjI allI impI; elim exE conjE; simp add: dispatch_defs lit_def)

lemma route_answered:
  assumes "(m, pattern, h) \<in> set (route_table cx q (query_params_of (cx_rl cx) query) body)" "fills pattern path"
  shows "handle_request cx q m path query body = h (arguments pattern path)"
proof -
  have "served cx q (query_params_of (cx_rl cx) query) body (m, pattern, h)"
    using routes_all_served assms(1) unfolding list_all_iff by blast
  then show ?thesis using assms(2) unfolding dispatched_handle by (simp add: served_def fills_def arguments_def)
qed

text \<open>Each builder of a path without a query, with the route it is for and the arguments it puts in.\<close>

definition built_paths :: "utext \<Rightarrow> utext \<Rightarrow> nat \<Rightarrow> (verb \<times> utext \<times> utext list \<times> utext) list" where
  "built_paths x y n =
     [(Get, lit ''/blocks'', [], blocks_path),
      (Get, lit ''/mempool/recent'', [], mempool_recent_path),
      (Get, lit ''/block/:hash'', [x], block_path x),
      (Get, lit ''/block/:hash/txs'', [x], block_txs_path x),
      (Get, lit ''/block-height/:height'', [show_nat n], block_height_path n),
      (Get, lit ''/tx/:txid'', [x], tx_path x),
      (Get, lit ''/address/:script'', [x], address_path x),
      (Get, lit ''/address/:script/txs'', [x], address_txs_path x),
      (Get, lit ''/address/:script/utxo'', [x], address_utxo_path x),
      (Post, lit ''/tx'', [], broadcast_path),
      (Post, lit ''/txs/test'', [], test_txs_path),
      (Get, lit ''/blocks/tip/hash'', [], blocks_tip_hash_path),
      (Get, lit ''/blocks/tip/height'', [], blocks_tip_height_path),
      (Get, lit ''/blocks/:start_height'', [show_nat n], blocks_start_height_path n),
      (Get, lit ''/block/:hash/txids'', [x], block_txids_path x),
      (Get, lit ''/block/:hash/txs/:start_index'', [x, show_nat n], block_txs_start_index_path x n),
      (Get, lit ''/mempool'', [], mempool_path),
      (Get, lit ''/fee-estimates'', [], fee_estimates_path),
      (Get, lit ''/block/:hash/status'', [x], block_status_path x),
      (Get, lit ''/tx/:txid/outspends'', [x], tx_outspends_path x),
      (Get, lit ''/tx/:txid/outspend/:index'', [x, show_nat n], tx_outspend_path x n),
      (Get, lit ''/tx/:txid/merkle-proof'', [x], tx_merkle_proof_path x),
      (Get, lit ''/tx/:txid/hex'', [x], tx_hex_path x),
      (Get, lit ''/address/:script/txs/chain'', [x], address_txs_chain_path x),
      (Get, lit ''/address/:script/txs/chain/:last_seen_txid'', [x, y], address_txs_chain_page_path x y),
      (Get, lit ''/address/:script/txs/mempool'', [x], address_txs_mempool_path x),
      (Get, lit ''/address/:script/txs/summary'', [x], address_txs_summary_path x),
      (Get, lit ''/address/:script/txs/summary/:last_seen_txid'', [x, y], address_txs_summary_page_path x y),
      (Get, lit ''/mempool/txids'', [], mempool_txids_path),
      (Get, lit ''/mempool/txids/page/:last_seen_txid'', [x], mempool_txids_page_path x),
      (Get, lit ''/address-prefix/:prefix'', [x], address_prefix_path x),
      (Get, lit ''/scripthash/:hash'', [x], scripthash_path x),
      (Get, lit ''/scripthash/:hash/txs'', [x], scripthash_txs_path x),
      (Get, lit ''/scripthash/:hash/txs/chain'', [x], scripthash_txs_chain_path x),
      (Get, lit ''/scripthash/:hash/txs/chain/:last_seen_txid'', [x, y], scripthash_txs_chain_page_path x y),
      (Get, lit ''/scripthash/:hash/txs/mempool'', [x], scripthash_txs_mempool_path x),
      (Get, lit ''/scripthash/:hash/utxo'', [x], scripthash_utxo_path x),
      (Post, lit ''/txs/package'', [], package_path),
      (Get, lit ''/scripthash/:hash/txs/summary'', [x], scripthash_txs_summary_path x),
      (Get, lit ''/scripthash/:hash/txs/summary/:last_seen_txid'', [x, y], scripthash_txs_summary_page_path x y),
      (Post, lit ''/addresses/txs'', [], addresses_txs_path),
      (Post, lit ''/scripthashes/txs'', [], scripthashes_txs_path),
      (Post, lit ''/addresses/txs/summary'', [], addresses_txs_summary_path),
      (Post, lit ''/addresses/txs/summary/:last_seen_txid'', [x], addresses_txs_summary_page_path x),
      (Post, lit ''/scripthashes/txs/summary'', [], scripthashes_txs_summary_path),
      (Post, lit ''/scripthashes/txs/summary/:last_seen_txid'', [x], scripthashes_txs_summary_page_path x),
      (Get, lit ''/tx/:txid/status'', [x], tx_status_path x),
      (Get, lit ''/block/:hash/txid/:index'', [x, show_nat n], block_txid_path x n),
      (Get, lit ''/block/:hash/header'', [x], block_header_path x),
      (Get, lit ''/block/:hash/raw'', [x], block_raw_path x),
      (Get, lit ''/tx/:txid/raw'', [x], tx_raw_path x),
      (Get, lit ''/tx/:txid/merkleblock-proof'', [x], tx_merkleblock_proof_path x)]"

lemma built_routes:
  "map (\<lambda>(m, pattern, _). (m, pattern)) (built_paths x y n) = filter (\<lambda>r. r \<noteq> (Get, lit ''/txs/outspends'')) ROUTES"
  by (simp add: built_paths_def ROUTES_def lit_def)

lemma show_nat_plain: "47 \<notin> set (show_nat n)" "63 \<notin> set (show_nat n)"
  using show_nat_digits [of 47 n] show_nat_digits [of 63 n] by auto

lemma split_at_lit: "47 \<notin> set a \<Longrightarrow> split_at 47 (a @ 47 # b) = a # split_at 47 b" "47 \<notin> set a \<Longrightarrow> split_at 47 a = [a]"
  by (rule split_at_sep split_at_none, assumption)+

definition plain :: "utext \<Rightarrow> bool" where
  "plain x \<longleftrightarrow> 47 \<notin> set x \<and> 63 \<notin> set x"

lemmas builder_defs = blocks_path_def mempool_recent_path_def block_path_def block_txs_path_def block_height_path_def tx_path_def address_path_def address_txs_path_def address_utxo_path_def broadcast_path_def test_txs_path_def blocks_tip_hash_path_def blocks_tip_height_path_def blocks_start_height_path_def block_txids_path_def block_txs_start_index_path_def mempool_path_def fee_estimates_path_def block_status_path_def tx_outspends_path_def tx_outspend_path_def tx_merkle_proof_path_def tx_hex_path_def address_txs_chain_path_def address_txs_chain_page_path_def address_txs_mempool_path_def address_txs_summary_path_def address_txs_summary_page_path_def mempool_txids_path_def mempool_txids_page_path_def address_prefix_path_def scripthash_path_def scripthash_txs_path_def scripthash_txs_chain_path_def scripthash_txs_chain_page_path_def scripthash_txs_mempool_path_def scripthash_utxo_path_def package_path_def scripthash_txs_summary_path_def scripthash_txs_summary_page_path_def addresses_txs_path_def scripthashes_txs_path_def addresses_txs_summary_path_def addresses_txs_summary_page_path_def scripthashes_txs_summary_path_def scripthashes_txs_summary_page_path_def tx_status_path_def block_txid_path_def block_header_path_def block_raw_path_def tx_raw_path_def tx_merkleblock_proof_path_def

lemma built_fill:
  assumes "47 \<notin> set x" "47 \<notin> set y"
  shows "list_all (\<lambda>(m, pattern, args, text). fills pattern text \<and> arguments pattern text = args) (built_paths x y n)"
  using assms show_nat_plain(1) [of n] unfolding built_paths_def
  by (simp add: builder_defs fills_def arguments_def fill_segments_def segment_arguments_def is_param_def starts_with_def
      segments_def lit_def split_at_lit)

lemma built_no_query:
  assumes "63 \<notin> set x" "63 \<notin> set y"
  shows "list_all (\<lambda>(m, pattern, args, text). 63 \<notin> set text) (built_paths x y n)"
  using assms show_nat_plain(2) [of n] unfolding built_paths_def by (simp add: builder_defs lit_def)

lemma built_dispatched:
  assumes "(m, pattern, args, text) \<in> set (built_paths x y n)" "47 \<notin> set x" "47 \<notin> set y"
  obtains h where "(m, pattern, h) \<in> set (route_table cx q params body)" "dispatched cx q params body m (segments text) = Some (h args)"
proof -
  have "(m, pattern) \<in> set (map (\<lambda>(m, pattern, _). (m, pattern)) (built_paths x y n))" using assms(1) by force
  then have "(m, pattern) \<in> set (map (\<lambda>(m, pattern, h). (m, pattern)) (route_table cx q params body))"
    unfolding built_routes route_table_routes by simp
  then obtain h where h: "(m, pattern, h) \<in> set (route_table cx q params body)" by auto
  have "fills pattern text" "arguments pattern text = args"
    using built_fill [OF assms(2,3), of n] assms(1) unfolding list_all_iff by auto
  moreover have "served cx q params body (m, pattern, h)" using routes_all_served h unfolding list_all_iff by blast
  ultimately show ?thesis using that h by (simp add: served_def fills_def arguments_def)
qed

text \<open>How a text goes over the wire: the path up to the first question mark, and the query behind it.\<close>

definition sent_as :: "utext \<Rightarrow> utext \<Rightarrow> utext option \<Rightarrow> bool" where
  "sent_as text path query \<longleftrightarrow> text = path @ (case query of Some s \<Rightarrow> 63 # s | None \<Rightarrow> []) \<and> 63 \<notin> set path"

lemma sent_plain: "63 \<notin> set text \<Longrightarrow> sent_as text path query \<Longrightarrow> path = text \<and> query = None"
  by (auto simp: sent_as_def split: option.splits)

lemma sent_query: "63 \<notin> set p \<Longrightarrow> sent_as (p @ 63 # s) path query \<Longrightarrow> path = p \<and> query = Some s"
  by (auto simp: sent_as_def append_eq_append_conv2 Cons_eq_append_conv append_eq_Cons_conv split: option.splits)

text \<open>The pages and paths of assets.\<close>

definition asset_paths :: "utext \<Rightarrow> utext \<Rightarrow> utext option \<Rightarrow> utext option \<Rightarrow> utext option \<Rightarrow> utext option \<Rightarrow> utext list" where
  "asset_paths x y start_index limit sort_field sort_dir =
     [asset_page_path x, asset_path x, asset_txs_path x, asset_registry_path x, assets_registry_path,
      assets_registry_page_path start_index limit sort_field sort_dir, assets_registry_search_path x, asset_txs_chain_path x,
      asset_txs_chain_page_path x y, asset_txs_mempool_path x, asset_supply_path x, asset_supply_decimal_path x]"

lemma asset_not_dispatched:
  assumes "a = lit ''asset'' \<or> a = lit ''assets''"
  shows "get_request cx q params (a # segs) = None"
proof -
  have k: "a \<noteq> lit ''block-template''" "a \<noteq> lit ''blocks''" "a \<noteq> lit ''broadcast''" "a \<noteq> lit ''mempool''" "a \<noteq> lit ''fee-estimates''"
      "a \<noteq> lit ''block-height''" "a \<noteq> lit ''block''" "\<not> is_script_kind a" "a \<noteq> lit ''address-prefix''" "a \<noteq> lit ''tx''" "a \<noteq> lit ''txs''"
      "a \<noteq> lit ''internal''"
    using assms by (auto simp: is_script_kind_def lit_def)
  have "get_one cx q params a = None" "get_two cx q params a b = None" "get_three cx q params a b c = None"
      "get_four cx q params a b c d = None" "get_five cx q params a b c d e = None" for b c d e
    by (simp_all only: get_one_def get_two_def get_three_def get_four_def get_five_def k if_False simp_thms)
  then show ?thesis by (simp add: get_request_def split: list.splits)
qed

lemmas asset_defs = asset_page_path_def asset_path_def asset_txs_path_def asset_registry_path_def assets_registry_path_def
  asset_txs_chain_path_def asset_txs_chain_page_path_def asset_txs_mempool_path_def asset_supply_path_def asset_supply_decimal_path_def

lemma sent_prefix:
  assumes "63 \<notin> set pre" "sent_as (pre @ r) path query"
  shows "\<exists>t. path = pre @ t"
  using assms by (auto simp: sent_as_def append_eq_append_conv2 Cons_eq_append_conv append_eq_Cons_conv split: option.splits)

lemma asset_sent:
  assumes "text \<in> set (asset_paths x y a b c d)" "sent_as text path query"
  obtains seg segs where "segments path = seg # segs" "seg = lit ''asset'' \<or> seg = lit ''assets''"
proof -
  have mark: "63 \<notin> set (lit ''/asset/'')" "63 \<notin> set (lit ''/assets/'')" by (simp_all add: lit_def)
  have one: "segments (lit ''/asset/'' @ t) = lit ''asset'' # split_at 47 t"
      "segments (lit ''/assets/'' @ t) = lit ''assets'' # split_at 47 t" for t
    by (simp_all add: segments_def lit_def)
  have "(\<exists>r. text = lit ''/asset/'' @ r) \<or> (\<exists>r. text = lit ''/assets/'' @ r)"
    using assms(1)
    by (auto simp: asset_paths_def asset_defs assets_registry_page_path_def assets_registry_search_path_def lit_def Let_def split: if_splits)
  then show ?thesis
  proof (elim disjE exE)
    fix r assume "text = lit ''/asset/'' @ r"
    then obtain t where "path = lit ''/asset/'' @ t" using sent_prefix [OF mark(1)] assms(2) by blast
    then show ?thesis using that one by blast
  next
    fix r assume "text = lit ''/assets/'' @ r"
    then obtain t where "path = lit ''/assets/'' @ t" using sent_prefix [OF mark(2)] assms(2) by blast
    then show ?thesis using that one by blast
  qed
qed

text \<open>The spends of many transactions. The library that reads a query is a parameter: of one pair without escapes it gives
  the key and the value.\<close>

definition reads_form :: "'g rest_lib \<Rightarrow> bool" where
  "reads_form rl \<longleftrightarrow> (\<forall>k v. set k \<inter> {37, 38, 43, 61} = {} \<and> set v \<inter> {37, 38, 43} = {} \<longrightarrow> rl_form_parse rl (k @ 61 # v) = [(k, v)])"

lemma split_join: "xs \<noteq> [] \<Longrightarrow> \<forall>x\<in>set xs. c \<notin> set x \<Longrightarrow> split_at c (join [c] xs) = xs"
  by (induction "[c]" xs rule: join.induct) (simp_all add: split_at_none split_at_sep)

lemma set_join: "set (join sep xs) \<subseteq> set sep \<union> \<Union> (set ` set xs)"
  by (induction sep xs rule: join.induct) auto

lemma outspends_answered:
  assumes "reads_form (cx_rl cx)" "txs_outspends_path txids = Ok text" "\<forall>txid\<in>set txids. set txid \<inter> {37, 43} = {}" "sent_as text path query"
  shows "handle_request cx q Get path query body = (spends_by_txid cx q txids, q)"
proof -
  have t: "txids \<noteq> []" "length txids \<le> 50" "\<forall>txid\<in>set txids. txid \<noteq> [] \<and> 44 \<notin> set txid \<and> 38 \<notin> set txid"
      "text = lit ''/txs/outspends'' @ 63 # lit ''txids'' @ 61 # join [44] txids"
    using assms(2) by (auto simp: txs_outspends_path_def TXS_OUTSPENDS_MAX_def lit_def split: if_splits)
  have p: "path = lit ''/txs/outspends''" "query = Some (lit ''txids'' @ 61 # join [44] txids)"
    using sent_query [OF _ assms(4) [unfolded t(4)]] by (simp_all add: lit_def)
  have "set (join [44] txids) \<inter> {37, 38, 43} = {}" using set_join [of "[44]" txids] t(3) assms(3) by fastforce
  then have "rl_form_parse (cx_rl cx) (lit ''txids'' @ 61 # join [44] txids) = [(lit ''txids'', join [44] txids)]"
    using assms(1) [unfolded reads_form_def, rule_format, of "lit ''txids''" "join [44] txids"] by (simp add: lit_def)
  then have "query_params_of (cx_rl cx) query (lit ''txids'') = Some (join [44] txids)" unfolding p(2) by (simp add: query_params_of_def)
  moreover have "handle_request cx q Get path query body = (ep_txs_outspends cx q (query_params_of (cx_rl cx) query), q)"
    using route_answered [of Get "lit ''/txs/outspends''" "\<lambda>_. (ep_txs_outspends cx q (query_params_of (cx_rl cx) query), q)" cx q query body path]
    by (simp add: route_table_def p(1) fills_def fill_segments_def segments_def lit_def list_all2_refl)
  ultimately show ?thesis using t split_join [of txids 44] by (simp add: ep_txs_outspends_def ok_or_def)
qed

lemma built_answered:
  assumes "plain x" "plain y" and b: "(m, pattern, args, text) \<in> set (built_paths x y n)" "sent_as text path query"
  shows "\<exists>h. (m, pattern, h) \<in> set (route_table cx q Map.empty body) \<and> handle_request cx q m path query body = h args"
proof -
  have "63 \<notin> set text" using built_no_query [of x y n] b(1) assms(1,2) unfolding list_all_iff plain_def by auto
  then have p: "path = text" "query = None" using sent_plain b(2) by blast+
  obtain h where "(m, pattern, h) \<in> set (route_table cx q Map.empty body)"
      "dispatched cx q Map.empty body m (segments text) = Some (h args)"
    using built_dispatched [OF b(1)] assms(1,2) unfolding plain_def by blast
  then show ?thesis unfolding p dispatched_handle by (auto simp: query_params_of_def)
qed

lemma asset_refused:
  assumes "text \<in> set (asset_paths x y a b c d)" "sent_as text path query"
  shows "handle_request cx q Get path query body
    = (Err (he_not_found (lit ''endpoint does not exist '' @ rl_debug_text (cx_rl cx) path)), q)"
proof -
  obtain seg segs where g: "segments path = seg # segs" "seg = lit ''asset'' \<or> seg = lit ''assets''" using asset_sent [OF assms] .
  show ?thesis by (simp only: dispatched_handle dispatched_def verb.case g(1) asset_not_dispatched [OF g(2)] option.case)
qed

text \<open>C39: the clients and the dispatch agree on every path. The table of the clients lists 53 routes; each is answered by
  the handler \<open>route_table\<close> names for it, with the texts in the places of its parameters as arguments. Each builder of a
  path gives, from texts without slash and question mark, a path of one of these routes with exactly its inputs as
  arguments, and every route but one has its builder; that one, \<^verbatim>\<open>/txs/outspends\<close>, is built with a query of ids, and the
  indexer answers with the spends of exactly these ids. The paths of assets, which the table leaves out, are answered that
  the endpoint does not exist.\<close>

theorem routes_dispatched:
  assumes "plain x" "plain y"
  shows "map (\<lambda>(m, pattern, h). (m, pattern)) (route_table cx q params body) = ROUTES
    \<and> (\<forall>(m, pattern, h)\<in>set (route_table cx q (query_params_of (cx_rl cx) query) body). fills pattern path
         \<longrightarrow> handle_request cx q m path query body = h (arguments pattern path))
    \<and> map (\<lambda>(m, pattern, _). (m, pattern)) (built_paths x y n) = filter (\<lambda>r. r \<noteq> (Get, lit ''/txs/outspends'')) ROUTES
    \<and> (\<forall>(m, pattern, args, text)\<in>set (built_paths x y n). sent_as text path query
         \<longrightarrow> (\<exists>h. (m, pattern, h) \<in> set (route_table cx q Map.empty body) \<and> handle_request cx q m path query body = h args))
    \<and> (reads_form (cx_rl cx) \<and> (\<exists>text. txs_outspends_path txids = Ok text \<and> sent_as text path query)
         \<and> (\<forall>txid\<in>set txids. set txid \<inter> {37, 43} = {})
         \<longrightarrow> handle_request cx q Get path query body = (spends_by_txid cx q txids, q))
    \<and> (\<forall>text\<in>set (asset_paths x y a b c d). sent_as text path query
         \<longrightarrow> handle_request cx q Get path query body
             = (Err (he_not_found (lit ''endpoint does not exist '' @ rl_debug_text (cx_rl cx) path)), q))"
  by (intro conjI; (clarify)?)
    (rule route_table_routes route_answered built_routes built_answered [OF assms] outspends_answered asset_refused;
     assumption)+

text \<open>Three requests: the ids of a block, the spends of two transactions, and an asset.\<close>

definition demo_form :: "utext \<Rightarrow> (utext \<times> utext) list" where
  "demo_form t = map (\<lambda>pair. (takeWhile (\<lambda>c. c \<noteq> 61) pair, drop 1 (dropWhile (\<lambda>c. c \<noteq> 61) pair))) (split_at 38 t)"

lemma demo_reads_form: "reads_form (rl\<lparr>rl_form_parse := demo_form\<rparr>)"
proof -
  have "demo_form (k @ 61 # v) = [(k, v)]" if "set k \<inter> {37, 38, 43, 61} = {}" "set v \<inter> {37, 38, 43} = {}" for k v
  proof -
    have "split_at 38 (k @ 61 # v) = [k @ 61 # v]" using that by (intro split_at_none) auto
    moreover have "\<forall>c\<in>set k. c \<noteq> 61" using that by auto
    ultimately show ?thesis by (simp add: demo_form_def)
  qed
  then show ?thesis by (simp add: reads_form_def)
qed

theorem routes_dispatched_witness:
  "\<forall>cx q. handle_request cx q Get (lit ''/block/ab/txids'') None [] = (ep_block_txids cx q (lit ''ab''), q)
     \<and> handle_request (cx\<lparr>cx_rl := (cx_rl cx)\<lparr>rl_form_parse := demo_form\<rparr>\<rparr>) q Get (lit ''/txs/outspends'') (Some (lit ''txids=ab,cd'')) []
         = (spends_by_txid (cx\<lparr>cx_rl := (cx_rl cx)\<lparr>rl_form_parse := demo_form\<rparr>\<rparr>) q [lit ''ab'', lit ''cd''], q)
     \<and> handle_request cx q Get (lit ''/asset/ab'') None []
         = (Err (he_not_found (lit ''endpoint does not exist '' @ rl_debug_text (cx_rl cx) (lit ''/asset/ab''))), q)"
proof (intro allI conjI)
  fix cx :: "('d, 'f, 'g) rest_ctx" and q
  let ?cx = "cx\<lparr>cx_rl := (cx_rl cx)\<lparr>rl_form_parse := demo_form\<rparr>\<rparr>"
  have p: "plain (lit ''ab'')" "plain []" by (simp_all add: plain_def lit_def)
  have "fills (lit ''/block/:hash/txids'') (lit ''/block/ab/txids'')" "arguments (lit ''/block/:hash/txids'') (lit ''/block/ab/txids'') = [lit ''ab'']"
    by (simp_all add: fills_def arguments_def fill_segments_def segment_arguments_def segments_def is_param_def starts_with_def lit_def)
  moreover have "(Get, lit ''/block/:hash/txids'', \<lambda>xs. (ep_block_txids cx q (xs ! 0), q))
      \<in> set (route_table cx q (query_params_of (cx_rl cx) None) [])"
    by (simp add: route_table_def)
  ultimately show "handle_request cx q Get (lit ''/block/ab/txids'') None [] = (ep_block_txids cx q (lit ''ab''), q)"
    using routes_dispatched [OF p, where cx = cx and q = q and query = None and body = "[]" and path = "lit ''/block/ab/txids''",
      THEN conjunct2, THEN conjunct1] by fastforce
  have u: "txs_outspends_path [lit ''ab'', lit ''cd''] = Ok (lit ''/txs/outspends?txids=ab,cd'')"
      "sent_as (lit ''/txs/outspends?txids=ab,cd'') (lit ''/txs/outspends'') (Some (lit ''txids=ab,cd''))"
    by (simp_all add: txs_outspends_path_def TXS_OUTSPENDS_MAX_def sent_as_def lit_def)
  have "reads_form (cx_rl ?cx)" "\<forall>txid\<in>set [lit ''ab'', lit ''cd'']. set txid \<inter> {37, 43} = {}"
    using demo_reads_form by (simp_all add: lit_def)
  then show "handle_request ?cx q Get (lit ''/txs/outspends'') (Some (lit ''txids=ab,cd'')) [] = (spends_by_txid ?cx q [lit ''ab'', lit ''cd''], q)"
    using routes_dispatched [OF p, where cx = ?cx and q = q and query = "Some (lit ''txids=ab,cd'')" and body = "[]"
      and path = "lit ''/txs/outspends''" and txids = "[lit ''ab'', lit ''cd'']", THEN conjunct2, THEN conjunct2, THEN conjunct2, THEN conjunct2, THEN conjunct1] u by blast
  have "lit ''/asset/ab'' \<in> set (asset_paths (lit ''ab'') [] None None None None)" "sent_as (lit ''/asset/ab'') (lit ''/asset/ab'') None"
    by (simp_all add: asset_paths_def asset_path_def sent_as_def lit_def)
  then show "handle_request cx q Get (lit ''/asset/ab'') None []
      = (Err (he_not_found (lit ''endpoint does not exist '' @ rl_debug_text (cx_rl cx) (lit ''/asset/ab''))), q)"
    using routes_dispatched [OF p, where cx = cx and q = q and query = None and body = "[]" and path = "lit ''/asset/ab''" and a = None and b = None
      and c = None and d = None, THEN conjunct2, THEN conjunct2, THEN conjunct2, THEN conjunct2, THEN conjunct2] by blast
qed

section \<open>Search\<close>

definition ADDRESS_STARTS :: "utext list" where
  "ADDRESS_STARTS = map lit [''bc1'', ''tb1'', ''bcrt1'', ''lq1'', ''ex1'', ''ert1'']"

definition BECH32M_ADDRESS_LEN :: nat where
  "BECH32M_ADDRESS_LEN = 62"

definition BECH32_ADDRESS_LEN :: nat where
  "BECH32_ADDRESS_LEN = 42"

definition BASE58 :: utext where
  "BASE58 = lit ''123456789ABCDEFGHJKLMNPQRSTUVWXYZabcdefghijkmnopqrstuvwxyz''"

record search_plan =
  sp_hrefs :: "utext list"
  sp_requests :: "(verb \<times> utext) list"

definition search_get :: "utext \<Rightarrow> verb \<times> utext" where
  "search_get path = (Get, path)"

definition is_ascii_digits :: "utext \<Rightarrow> bool" where
  "is_ascii_digits query \<longleftrightarrow> query \<noteq> [] \<and> (\<forall>ch\<in>set query. 48 \<le> ch \<and> ch \<le> 57)"

definition is_hex_64 :: "utext \<Rightarrow> bool" where
  "is_hex_64 query \<longleftrightarrow> utf8_len query = 64 \<and> (\<forall>ch\<in>set query. 48 \<le> ch \<and> ch \<le> 57 \<or> 65 \<le> ch \<and> ch \<le> 70 \<or> 97 \<le> ch \<and> ch \<le> 102)"

definition is_forbidden_in_prefix :: "nat \<Rightarrow> bool" where
  "is_forbidden_in_prefix ch \<longleftrightarrow> ch \<in> {47, 63, 35, 32} \<or> ch < 32 \<or> 127 \<le> ch \<and> ch < 160"

definition is_search_prefix :: "utext \<Rightarrow> bool" where
  "is_search_prefix query \<longleftrightarrow> 1 \<le> length query \<and> length query \<le> 64 \<and> \<not> (\<exists>ch\<in>set query. is_forbidden_in_prefix ch)"

definition is_base58_address :: "utext \<Rightarrow> bool" where
  "is_base58_address query \<longleftrightarrow>
     26 \<le> length query \<and> length query \<le> 90 \<and> hd query \<in> set (lit ''13mn2'') \<and> set query \<subseteq> set BASE58"

definition is_address :: "utext \<Rightarrow> bool" where
  "is_address query =
     (let lower = ascii_lower query in
      if \<exists>start\<in>set ADDRESS_STARTS. starts_with lower start
      then \<not> (starts_with lower (lit ''bc1p'') \<and> length query < BECH32M_ADDRESS_LEN \<and> is_search_prefix query)
           \<and> \<not> (starts_with lower (lit ''bc1q'') \<and> length query < BECH32_ADDRESS_LEN \<and> is_search_prefix query)
      else is_base58_address query)"

definition height_plan :: "utext \<Rightarrow> search_plan" where
  "height_plan height =
     (let href = (case parse_usize height of Some v \<Rightarrow> block_height_path v | None \<Rightarrow> lit ''/block-height/'' @ height)
      in \<lparr>sp_hrefs = [href], sp_requests = [search_get href]\<rparr>)"

definition hex_plan :: "utext \<Rightarrow> bool \<Rightarrow> search_plan" where
  "hex_plan hex liquid =
     (let hex = ascii_lower hex
      in \<lparr>sp_hrefs = [tx_path hex, block_path hex],
          sp_requests = map search_get
            ([scripthash_path hex, scripthash_txs_path hex, scripthash_utxo_path hex, scripthash_txs_mempool_path hex]
             @ (if liquid then [asset_path hex, asset_txs_path hex] else []))\<rparr>)"

definition address_plan :: "utext \<Rightarrow> search_plan" where
  "address_plan address = (let href = address_path address in \<lparr>sp_hrefs = [href], sp_requests = [search_get href]\<rparr>)"

definition prefix_plan :: "utext \<Rightarrow> search_plan" where
  "prefix_plan pre =
     (let folded = ascii_lower pre; requested = (if starts_with folded (lit ''bc1'') then folded else pre)
      in \<lparr>sp_hrefs = [], sp_requests = [search_get (address_prefix_path requested)]\<rparr>)"

definition plan_search_on :: "utext \<Rightarrow> bool \<Rightarrow> search_plan option" where
  "plan_search_on raw liquid =
     (let query = trim raw in
      if query = [] then None
      else if is_ascii_digits query then Some (height_plan query)
      else if is_hex_64 query then Some (hex_plan query liquid)
      else if is_address query then Some (address_plan query)
      else if is_search_prefix query then Some (prefix_plan query)
      else None)"

definition plan_search :: "utext \<Rightarrow> search_plan option" where
  "plan_search raw = plan_search_on raw False"

definition html_escape :: "utext \<Rightarrow> utext" where
  "html_escape t = concat (map (\<lambda>ch.
     if ch = 38 then lit ''&amp;'' else if ch = 60 then lit ''&lt;'' else if ch = 62 then lit ''&gt;''
     else if ch = 34 then lit ''&quot;'' else if ch = 39 then lit ''&#39;'' else [ch]) t)"

definition search_links_markup :: "utext \<Rightarrow> utext" where
  "search_links_markup raw =
     (case plan_search raw of
        None \<Rightarrow> []
      | Some plan \<Rightarrow> concat (map (\<lambda>href. let escaped = html_escape href
          in lit ''<a href='' @ [34] @ escaped @ [34] @ lit ''>'' @ escaped @ lit ''</a>'') (sp_hrefs plan)))"

lemma ascii_lower_no_slash: "47 \<notin> set s \<Longrightarrow> 47 \<notin> set (ascii_lower s)"
  by (auto simp: ascii_lower_def)

lemma built_search:
  "(Get, lit ''/block-height/:height'', [show_nat n], block_height_path n) \<in> set (built_paths x y n)"
  "(Get, lit ''/scripthash/:hash'', [x], scripthash_path x) \<in> set (built_paths x y n)"
  "(Get, lit ''/scripthash/:hash/txs'', [x], scripthash_txs_path x) \<in> set (built_paths x y n)"
  "(Get, lit ''/scripthash/:hash/utxo'', [x], scripthash_utxo_path x) \<in> set (built_paths x y n)"
  "(Get, lit ''/scripthash/:hash/txs/mempool'', [x], scripthash_txs_mempool_path x) \<in> set (built_paths x y n)"
  "(Get, lit ''/address/:script'', [x], address_path x) \<in> set (built_paths x y n)"
  "(Get, lit ''/address-prefix/:prefix'', [x], address_prefix_path x) \<in> set (built_paths x y n)"
  by (simp_all add: built_paths_def)

lemma long_height_served: "47 \<notin> set x \<Longrightarrow> dispatched cx q params body Get (segments (lit ''/block-height/'' @ x)) \<noteq> None"
  by (simp add: segments_def lit_def split_at_lit dispatched_def dispatch_defs del: not_None_eq)

text \<open>Every request a search plans on a bitcoin network, for any query without a slash, is a \<open>GET\<close> of a path the
  indexer dispatches to a handler.\<close>

theorem search_requests_served:
  assumes "plan_search raw = Some plan" "47 \<notin> set raw" "r \<in> set (sp_requests plan)"
  shows "dispatched cx q params body (fst r) (segments (snd r)) \<noteq> None \<and> fst r = Get"
proof -
  let ?q = "trim raw"
  have ns: "47 \<notin> set ?q" "47 \<notin> set (ascii_lower ?q)" using assms(2) trim_subset [of raw] ascii_lower_no_slash by auto
  have b: "dispatched cx q params body m (segments p) \<noteq> None" if "(m, pat, as, p) \<in> set (built_paths x [] n)" "47 \<notin> set x" for m pat as p x n
    by (rule built_dispatched [OF that, of cx q params body]) simp_all
  note here = b [OF built_search(1) ns(1)] b [OF built_search(2) ns(2)] b [OF built_search(3) ns(2)] b [OF built_search(4) ns(2)]
    b [OF built_search(5) ns(2)] b [OF built_search(6) ns(1)] b [OF built_search(7) ns(1)] b [OF built_search(7) ns(2)] long_height_served [OF ns(1)]
  have "(\<exists>n. r = (Get, block_height_path n)) \<or> r = (Get, lit ''/block-height/'' @ ?q)
      \<or> r = (Get, scripthash_path (ascii_lower ?q)) \<or> r = (Get, scripthash_txs_path (ascii_lower ?q))
      \<or> r = (Get, scripthash_utxo_path (ascii_lower ?q)) \<or> r = (Get, scripthash_txs_mempool_path (ascii_lower ?q))
      \<or> r = (Get, address_path ?q) \<or> r = (Get, address_prefix_path ?q) \<or> r = (Get, address_prefix_path (ascii_lower ?q))"
    using assms(1,3)
    by (auto simp: plan_search_def plan_search_on_def height_plan_def hex_plan_def address_plan_def prefix_plan_def search_get_def Let_def
        split: if_splits option.splits)
  then show ?thesis using here by (elim disjE exE) (simp_all del: not_None_eq)
qed

theorem search_requests_served_witness:
  "\<forall>cx q. dispatched cx q Map.empty [] Get (segments (lit ''/block-height/840000'')) \<noteq> None"
proof (intro allI)
  fix cx :: "('d, 'f, 'g) rest_ctx" and q
  have t: "trim (lit ''840000'') = lit ''840000''" by (simp add: trim_def lit_def is_white_def)
  have p: "parse_usize (lit ''840000'') = Some 840000" by (simp add: parse_usize_def lit_def starts_with_def)
  have "show_nat 840000 = lit ''840000''" by (simp add: show_nat.simps lit_def)
  then have path: "block_height_path 840000 = lit ''/block-height/840000''" by (simp add: block_height_path_def lit_def)
  have "is_ascii_digits (lit ''840000'')" "lit ''840000'' \<noteq> []" by (simp_all add: is_ascii_digits_def lit_def)
  then have "plan_search (lit ''840000'') = Some \<lparr>sp_hrefs = [lit ''/block-height/840000''], sp_requests = [(Get, lit ''/block-height/840000'')]\<rparr>"
    using t p path by (simp add: plan_search_def plan_search_on_def height_plan_def search_get_def Let_def)
  from search_requests_served [OF this, of "(Get, lit ''/block-height/840000'')" cx q Map.empty "[]"]
  show "dispatched cx q Map.empty [] Get (segments (lit ''/block-height/840000'')) \<noteq> None" by (simp add: lit_def del: not_None_eq)
qed

section \<open>Escaping\<close>

text \<open>How a browser reads the five references back.\<close>

definition entities :: "(utext \<times> nat) list" where
  "entities = [(lit ''&amp;'', 38), (lit ''&lt;'', 60), (lit ''&gt;'', 62), (lit ''&quot;'', 34), (lit ''&#39;'', 39)]"

definition read_entity :: "utext \<Rightarrow> (nat \<times> utext) option" where
  "read_entity t = first_opt (List.map_filter (\<lambda>(e, c). map_option (Pair c) (strip_prefix e t)) entities)"

lemma read_entity_shorter: "read_entity t = Some (c, rest) \<Longrightarrow> length rest < length t"
  by (auto simp: read_entity_def entities_def map_filter_simps first_opt_def strip_prefix_def lit_def starts_with_def
      dest!: arg_cong [of _ _ length] split: if_splits)

function html_unescape :: "utext \<Rightarrow> utext" where
  "html_unescape t =
     (case t of
        [] \<Rightarrow> []
      | ch # u \<Rightarrow> (case read_entity t of Some (c, rest) \<Rightarrow> c # html_unescape rest | None \<Rightarrow> ch # html_unescape u))"
  by pat_completeness auto

termination by (relation "measure length") (auto dest: read_entity_shorter)

declare html_unescape.simps [simp del]

lemma read_entity_of: "(e, c) \<in> set entities \<Longrightarrow> read_entity (e @ t) = Some (c, t)"
  by (auto simp: read_entity_def entities_def map_filter_simps first_opt_def strip_prefix_def lit_def starts_with_def)

lemma read_entity_plain: "ch \<noteq> 38 \<Longrightarrow> read_entity (ch # t) = None"
  by (auto simp: read_entity_def entities_def map_filter_simps first_opt_def strip_prefix_def lit_def starts_with_def)

lemma unescape_entity: "(e, c) \<in> set entities \<Longrightarrow> html_unescape (e @ t) = c # html_unescape t"
  using read_entity_of [of e c t]
  by (subst html_unescape.simps) (auto simp: entities_def lit_def)

lemma unescape_plain: "ch \<noteq> 38 \<Longrightarrow> html_unescape (ch # t) = ch # html_unescape t"
  by (subst html_unescape.simps) (simp add: read_entity_plain)

text \<open>Escaped text holds none of the characters that end a text or an attribute, and a browser reads it as the
  text it was made from.\<close>

theorem html_escape_roundtrip:
  "html_unescape (html_escape t) = t \<and> set (html_escape t) \<inter> {60, 62, 34, 39} = {}"
proof
  show "html_unescape (html_escape t) = t"
  proof (induction t)
    case (Cons c t)
    have e: "html_escape (c # t) = (if c = 38 then lit ''&amp;'' else if c = 60 then lit ''&lt;'' else if c = 62 then lit ''&gt;''
        else if c = 34 then lit ''&quot;'' else if c = 39 then lit ''&#39;'' else [c]) @ html_escape t"
      by (simp add: html_escape_def)
    have "html_unescape (lit ''&amp;'' @ u) = 38 # html_unescape u" "html_unescape (lit ''&lt;'' @ u) = 60 # html_unescape u"
        "html_unescape (lit ''&gt;'' @ u) = 62 # html_unescape u" "html_unescape (lit ''&quot;'' @ u) = 34 # html_unescape u"
        "html_unescape (lit ''&#39;'' @ u) = 39 # html_unescape u" for u
      by (rule unescape_entity, simp add: entities_def)+
    then show ?case unfolding e using Cons unescape_plain [of c "html_escape t"] by simp
  qed (simp add: html_escape_def html_unescape.simps)
  show "set (html_escape t) \<inter> {60, 62, 34, 39} = {}" by (auto simp: html_escape_def lit_def split: if_splits)
qed

end
