(* ===== verification/Client_Values.thy ===== *)
theory Client_Values
  imports Rest_Values "HOL-Library.Monad_Syntax"
begin

text \<open>
  How the clients read the answers of the indexer (\<^verbatim>\<open>frontend/shared/src/wire.rs\<close>, \<^verbatim>\<open>frontend/shared/src/parse.rs\<close>): the
  shapes they expect, as what \<open>serde\<close> derives from their declarations, and the parsers of bodies. Reading a text as JSON
  and reading a number as a float are third-party code and arguments. The theorems compose these readers with the JSON
  forms of \<open>Rest_Values\<close>.
\<close>

section \<open>What \<open>serde\<close> derives\<close>

text \<open>The fields of a structure, with the flag of \<open>serde(default)\<close>, are read from an object, whose other members are
  ignored, or from an array in the order of the declaration.\<close>

definition struct_fields :: "(string \<times> bool) list \<Rightarrow> 'g json \<Rightarrow> (utext \<rightharpoonup> 'g json) option" where
  "struct_fields fs v =
     (let names = map (\<lambda>(n, _). lit n) fs in
      case v of
        JObject members \<Rightarrow> if distinct (filter (\<lambda>k. k \<in> set names) (map fst members)) then Some (map_of members) else None
      | JArray vs \<Rightarrow>
          if length vs \<le> length fs \<and> (\<forall>(_, dflt)\<in>set (drop (length vs) fs). dflt) then Some (map_of (zip names vs)) else None
      | _ \<Rightarrow> None)"

text \<open>A required field, a field of an option type, and one with a default.\<close>

definition fld :: "(utext \<rightharpoonup> 'g json) \<Rightarrow> string \<Rightarrow> ('g json \<Rightarrow> 'a option) \<Rightarrow> 'a option" where
  "fld m name dec = Option.bind (m (lit name)) dec"

definition de_opt :: "('g json \<Rightarrow> 'a option) \<Rightarrow> 'g json \<Rightarrow> 'a option option" where
  "de_opt dec v = (case v of JNull \<Rightarrow> Some None | _ \<Rightarrow> map_option Some (dec v))"

definition fld_opt :: "(utext \<rightharpoonup> 'g json) \<Rightarrow> string \<Rightarrow> ('g json \<Rightarrow> 'a option) \<Rightarrow> 'a option option" where
  "fld_opt m name dec = (case m (lit name) of None \<Rightarrow> Some None | Some v \<Rightarrow> de_opt dec v)"

definition fld_default :: "(utext \<rightharpoonup> 'g json) \<Rightarrow> string \<Rightarrow> 'a \<Rightarrow> ('g json \<Rightarrow> 'a option) \<Rightarrow> 'a option" where
  "fld_default m name d dec = (case m (lit name) of None \<Rightarrow> Some d | Some v \<Rightarrow> dec v)"

definition json_u32 :: "'g json \<Rightarrow> u32 option" where
  "json_u32 v = Option.bind (as_u64 v) (\<lambda>n. if n < 2 ^ 32 then Some (word_of_nat n) else None)"

definition json_u64 :: "'g json \<Rightarrow> u64 option" where
  "json_u64 v = Option.bind (as_u64 v) (\<lambda>n. if n < 2 ^ 64 then Some (word_of_nat n) else None)"

definition json_i64 :: "'g json \<Rightarrow> int option" where
  "json_i64 v =
     (case v of
        JNumber (PosInt n) \<Rightarrow> if n < 2 ^ 63 then Some (int n) else None
      | JNumber (NegInt i) \<Rightarrow> if - (2 ^ 63) \<le> i then Some i else None
      | _ \<Rightarrow> None)"

definition de_float :: "('g json_number \<Rightarrow> 'g) \<Rightarrow> 'g json \<Rightarrow> 'g option" where
  "de_float to_float v = (case v of JNumber n \<Rightarrow> Some (to_float n) | _ \<Rightarrow> None)"

fun all_some :: "'a option list \<Rightarrow> 'a list option" where
  "all_some [] = Some []"
| "all_some (x # xs) = Option.bind x (\<lambda>y. map_option (Cons y) (all_some xs))"

definition de_list :: "('g json \<Rightarrow> 'a option) \<Rightarrow> 'g json \<Rightarrow> 'a list option" where
  "de_list dec v = Option.bind (as_array v) (\<lambda>vs. all_some (map dec vs))"

definition de_pair :: "('g json \<Rightarrow> 'a option) \<Rightarrow> ('g json \<Rightarrow> 'b option) \<Rightarrow> 'g json \<Rightarrow> ('a \<times> 'b) option" where
  "de_pair da db v = (case v of JArray [a, b] \<Rightarrow> do { x \<leftarrow> da a; y \<leftarrow> db b; Some (x, y) } | _ \<Rightarrow> None)"

text \<open>A map with text keys; of two equal keys the last counts.\<close>

definition de_text_map :: "('g json \<Rightarrow> 'a option) \<Rightarrow> 'g json \<Rightarrow> (utext \<rightharpoonup> 'a) option" where
  "de_text_map dec v =
     (case v of
        JObject members \<Rightarrow> map_option (\<lambda>vs. map_of (rev (zip (map fst members) vs))) (all_some (map (\<lambda>(_, w). dec w) members))
      | _ \<Rightarrow> None)"

section \<open>The shapes\<close>

record 'g wire_block =
  wb_id :: utext
  wb_height :: u32
  wb_version :: u32
  wb_timestamp :: u32
  wb_tx_count :: u32
  wb_size :: u32
  wb_weight :: u32
  wb_merkle_root :: utext
  wb_previous_block_hash :: "utext option"
  wb_median_time :: u32
  wb_nonce :: "u32 option"
  wb_bits :: "u32 option"
  wb_difficulty :: "'g option"
  wb_ext :: "'g json option"
  wb_stale :: "bool option"

definition de_block :: "('g json_number \<Rightarrow> 'g) \<Rightarrow> 'g json \<Rightarrow> 'g wire_block option" where
  "de_block f64 v = do {
     m \<leftarrow> struct_fields
       [(''id'', False), (''height'', False), (''version'', False), (''timestamp'', False), (''tx_count'', False), (''size'', False),
        (''weight'', False), (''merkle_root'', False), (''previousblockhash'', True), (''mediantime'', False), (''nonce'', True),
        (''bits'', True), (''difficulty'', True), (''ext'', True), (''stale'', True)] v;
     id' \<leftarrow> fld m ''id'' as_str;
     height \<leftarrow> fld m ''height'' json_u32;
     version \<leftarrow> fld m ''version'' json_u32;
     timestamp \<leftarrow> fld m ''timestamp'' json_u32;
     tx_count \<leftarrow> fld m ''tx_count'' json_u32;
     size' \<leftarrow> fld m ''size'' json_u32;
     weight \<leftarrow> fld m ''weight'' json_u32;
     merkle_root \<leftarrow> fld m ''merkle_root'' as_str;
     previous \<leftarrow> fld_opt m ''previousblockhash'' as_str;
     median_time \<leftarrow> fld m ''mediantime'' json_u32;
     nonce \<leftarrow> fld_opt m ''nonce'' json_u32;
     bits \<leftarrow> fld_opt m ''bits'' json_u32;
     difficulty \<leftarrow> fld_opt m ''difficulty'' (de_float f64);
     ext \<leftarrow> fld_opt m ''ext'' Some;
     stale \<leftarrow> fld_opt m ''stale'' as_bool;
     Some \<lparr>wb_id = id', wb_height = height, wb_version = version, wb_timestamp = timestamp, wb_tx_count = tx_count, wb_size = size',
           wb_weight = weight, wb_merkle_root = merkle_root, wb_previous_block_hash = previous, wb_median_time = median_time,
           wb_nonce = nonce, wb_bits = bits, wb_difficulty = difficulty, wb_ext = ext, wb_stale = stale\<rparr>
   }"

record wire_status =
  ws_confirmed :: bool
  ws_block_height :: "u64 option"
  ws_block_hash :: "utext option"
  ws_block_time :: "u64 option"

definition de_status :: "'g json \<Rightarrow> wire_status option" where
  "de_status v = do {
     m \<leftarrow> struct_fields [(''confirmed'', False), (''block_height'', True), (''block_hash'', True), (''block_time'', True)] v;
     confirmed \<leftarrow> fld m ''confirmed'' as_bool;
     block_height \<leftarrow> fld_opt m ''block_height'' json_u64;
     block_hash \<leftarrow> fld_opt m ''block_hash'' as_str;
     block_time \<leftarrow> fld_opt m ''block_time'' json_u64;
     Some \<lparr>ws_confirmed = confirmed, ws_block_height = block_height, ws_block_hash = block_hash, ws_block_time = block_time\<rparr>
   }"

record wire_issuance =
  wi_asset_id :: utext
  wi_is_reissuance :: bool
  wi_asset_blinding_nonce :: "utext option"
  wi_contract_hash :: "utext option"
  wi_asset_entropy :: utext
  wi_assetamount :: "u64 option"
  wi_assetamountcommitment :: "utext option"
  wi_tokenamount :: "u64 option"
  wi_tokenamountcommitment :: "utext option"

definition de_issuance :: "'g json \<Rightarrow> wire_issuance option" where
  "de_issuance v = do {
     m \<leftarrow> struct_fields
       [(''asset_id'', False), (''is_reissuance'', False), (''asset_blinding_nonce'', True), (''contract_hash'', True),
        (''asset_entropy'', False), (''assetamount'', True), (''assetamountcommitment'', True), (''tokenamount'', True),
        (''tokenamountcommitment'', True)] v;
     asset_id \<leftarrow> fld m ''asset_id'' as_str;
     is_reissuance \<leftarrow> fld m ''is_reissuance'' as_bool;
     blinding_nonce \<leftarrow> fld_opt m ''asset_blinding_nonce'' as_str;
     contract_hash \<leftarrow> fld_opt m ''contract_hash'' as_str;
     asset_entropy \<leftarrow> fld m ''asset_entropy'' as_str;
     assetamount \<leftarrow> fld_opt m ''assetamount'' json_u64;
     assetamountcommitment \<leftarrow> fld_opt m ''assetamountcommitment'' as_str;
     tokenamount \<leftarrow> fld_opt m ''tokenamount'' json_u64;
     tokenamountcommitment \<leftarrow> fld_opt m ''tokenamountcommitment'' as_str;
     Some \<lparr>wi_asset_id = asset_id, wi_is_reissuance = is_reissuance, wi_asset_blinding_nonce = blinding_nonce,
           wi_contract_hash = contract_hash, wi_asset_entropy = asset_entropy, wi_assetamount = assetamount,
           wi_assetamountcommitment = assetamountcommitment, wi_tokenamount = tokenamount,
           wi_tokenamountcommitment = tokenamountcommitment\<rparr>
   }"

record wire_pegout =
  wp_genesis_hash :: utext
  wp_script_pubkey :: utext
  wp_script_pubkey_asm :: utext
  wp_script_pubkey_address :: "utext option"

definition de_pegout :: "'g json \<Rightarrow> wire_pegout option" where
  "de_pegout v = do {
     m \<leftarrow> struct_fields [(''genesis_hash'', False), (''scriptpubkey'', False), (''scriptpubkey_asm'', False), (''scriptpubkey_address'', True)] v;
     genesis_hash \<leftarrow> fld m ''genesis_hash'' as_str;
     script_pubkey \<leftarrow> fld m ''scriptpubkey'' as_str;
     script_pubkey_asm \<leftarrow> fld m ''scriptpubkey_asm'' as_str;
     script_pubkey_address \<leftarrow> fld_opt m ''scriptpubkey_address'' as_str;
     Some \<lparr>wp_genesis_hash = genesis_hash, wp_script_pubkey = script_pubkey, wp_script_pubkey_asm = script_pubkey_asm,
           wp_script_pubkey_address = script_pubkey_address\<rparr>
   }"

record wire_output =
  wo_script_pubkey :: utext
  wo_script_pubkey_asm :: utext
  wo_script_pubkey_type :: utext
  wo_script_pubkey_address :: "utext option"
  wo_value :: "u64 option"
  wo_valuecommitment :: "utext option"
  wo_asset :: "utext option"
  wo_assetcommitment :: "utext option"
  wo_pegout :: "wire_pegout option"

definition de_output :: "'g json \<Rightarrow> wire_output option" where
  "de_output v = do {
     m \<leftarrow> struct_fields
       [(''scriptpubkey'', False), (''scriptpubkey_asm'', False), (''scriptpubkey_type'', False), (''scriptpubkey_address'', True),
        (''value'', True), (''valuecommitment'', True), (''asset'', True), (''assetcommitment'', True), (''pegout'', True)] v;
     script_pubkey \<leftarrow> fld m ''scriptpubkey'' as_str;
     script_pubkey_asm \<leftarrow> fld m ''scriptpubkey_asm'' as_str;
     script_pubkey_type \<leftarrow> fld m ''scriptpubkey_type'' as_str;
     script_pubkey_address \<leftarrow> fld_opt m ''scriptpubkey_address'' as_str;
     value \<leftarrow> fld_opt m ''value'' json_u64;
     valuecommitment \<leftarrow> fld_opt m ''valuecommitment'' as_str;
     asset \<leftarrow> fld_opt m ''asset'' as_str;
     assetcommitment \<leftarrow> fld_opt m ''assetcommitment'' as_str;
     pegout \<leftarrow> fld_opt m ''pegout'' de_pegout;
     Some \<lparr>wo_script_pubkey = script_pubkey, wo_script_pubkey_asm = script_pubkey_asm, wo_script_pubkey_type = script_pubkey_type,
           wo_script_pubkey_address = script_pubkey_address, wo_value = value, wo_valuecommitment = valuecommitment,
           wo_asset = asset, wo_assetcommitment = assetcommitment, wo_pegout = pegout\<rparr>
   }"

record wire_input =
  wn_txid :: utext
  wn_vout :: u32
  wn_prevout :: "wire_output option"
  wn_script_sig :: utext
  wn_script_sig_asm :: utext
  wn_witness :: "utext list option"
  wn_is_coinbase :: bool
  wn_is_pegin :: "bool option"
  wn_issuance :: "wire_issuance option"
  wn_sequence :: u32
  wn_inner_redeem_script_asm :: "utext option"
  wn_inner_witness_script_asm :: "utext option"

definition de_input :: "'g json \<Rightarrow> wire_input option" where
  "de_input v = do {
     m \<leftarrow> struct_fields
       [(''txid'', False), (''vout'', False), (''prevout'', False), (''scriptsig'', False), (''scriptsig_asm'', False), (''witness'', True),
        (''is_coinbase'', False), (''is_pegin'', True), (''issuance'', True), (''sequence'', False), (''inner_redeemscript_asm'', True),
        (''inner_witnessscript_asm'', True)] v;
     txid \<leftarrow> fld m ''txid'' as_str;
     vout \<leftarrow> fld m ''vout'' json_u32;
     prevout \<leftarrow> fld_opt m ''prevout'' de_output;
     script_sig \<leftarrow> fld m ''scriptsig'' as_str;
     script_sig_asm \<leftarrow> fld m ''scriptsig_asm'' as_str;
     witness \<leftarrow> fld_opt m ''witness'' (de_list as_str);
     is_coinbase' \<leftarrow> fld m ''is_coinbase'' as_bool;
     is_pegin \<leftarrow> fld_opt m ''is_pegin'' as_bool;
     issuance \<leftarrow> fld_opt m ''issuance'' de_issuance;
     seqno \<leftarrow> fld m ''sequence'' json_u32;
     redeem \<leftarrow> fld_opt m ''inner_redeemscript_asm'' as_str;
     inner \<leftarrow> fld_opt m ''inner_witnessscript_asm'' as_str;
     Some \<lparr>wn_txid = txid, wn_vout = vout, wn_prevout = prevout, wn_script_sig = script_sig, wn_script_sig_asm = script_sig_asm,
           wn_witness = witness, wn_is_coinbase = is_coinbase', wn_is_pegin = is_pegin, wn_issuance = issuance, wn_sequence = seqno,
           wn_inner_redeem_script_asm = redeem, wn_inner_witness_script_asm = inner\<rparr>
   }"

record wire_transaction =
  wt_txid :: utext
  wt_version :: u32
  wt_lock_time :: u32
  wt_vin :: "wire_input list"
  wt_vout :: "wire_output list"
  wt_size :: u32
  wt_weight :: u32
  wt_sigops :: u32
  wt_fee :: u64
  wt_status :: "wire_status option"

definition de_transaction :: "'g json \<Rightarrow> wire_transaction option" where
  "de_transaction v = do {
     m \<leftarrow> struct_fields
       [(''txid'', False), (''version'', False), (''locktime'', False), (''vin'', False), (''vout'', False), (''size'', False),
        (''weight'', False), (''sigops'', False), (''fee'', False), (''status'', True)] v;
     txid \<leftarrow> fld m ''txid'' as_str;
     version \<leftarrow> fld m ''version'' json_u32;
     lock_time \<leftarrow> fld m ''locktime'' json_u32;
     vin \<leftarrow> fld m ''vin'' (de_list de_input);
     vout \<leftarrow> fld m ''vout'' (de_list de_output);
     size' \<leftarrow> fld m ''size'' json_u32;
     weight \<leftarrow> fld m ''weight'' json_u32;
     sigops \<leftarrow> fld m ''sigops'' json_u32;
     fee \<leftarrow> fld m ''fee'' json_u64;
     status \<leftarrow> fld_opt m ''status'' de_status;
     Some \<lparr>wt_txid = txid, wt_version = version, wt_lock_time = lock_time, wt_vin = vin, wt_vout = vout, wt_size = size',
           wt_weight = weight, wt_sigops = sigops, wt_fee = fee, wt_status = status\<rparr>
   }"

record wire_stats =
  wc_tx_count :: u64
  wc_funded_txo_count :: u64
  wc_spent_txo_count :: u64
  wc_funded_txo_sum :: "u64 option"
  wc_spent_txo_sum :: "u64 option"

definition de_script_stats :: "'g json \<Rightarrow> wire_stats option" where
  "de_script_stats v = do {
     m \<leftarrow> struct_fields
       [(''tx_count'', False), (''funded_txo_count'', False), (''spent_txo_count'', False), (''funded_txo_sum'', True),
        (''spent_txo_sum'', True)] v;
     tx_count \<leftarrow> fld m ''tx_count'' json_u64;
     funded_txo_count \<leftarrow> fld m ''funded_txo_count'' json_u64;
     spent_txo_count \<leftarrow> fld m ''spent_txo_count'' json_u64;
     funded_txo_sum \<leftarrow> fld_opt m ''funded_txo_sum'' json_u64;
     spent_txo_sum \<leftarrow> fld_opt m ''spent_txo_sum'' json_u64;
     Some \<lparr>wc_tx_count = tx_count, wc_funded_txo_count = funded_txo_count, wc_spent_txo_count = spent_txo_count,
           wc_funded_txo_sum = funded_txo_sum, wc_spent_txo_sum = spent_txo_sum\<rparr>
   }"

record wire_address =
  wa_address :: "utext option"
  wa_scripthash :: "utext option"
  wa_chain_stats :: wire_stats
  wa_mempool_stats :: wire_stats

definition de_address_stats :: "'g json \<Rightarrow> wire_address option" where
  "de_address_stats v = do {
     m \<leftarrow> struct_fields [(''address'', True), (''scripthash'', True), (''chain_stats'', False), (''mempool_stats'', False)] v;
     address \<leftarrow> fld_opt m ''address'' as_str;
     scripthash \<leftarrow> fld_opt m ''scripthash'' as_str;
     chain_stats \<leftarrow> fld m ''chain_stats'' de_script_stats;
     mempool_stats \<leftarrow> fld m ''mempool_stats'' de_script_stats;
     Some \<lparr>wa_address = address, wa_scripthash = scripthash, wa_chain_stats = chain_stats, wa_mempool_stats = mempool_stats\<rparr>
   }"

record wire_utxo =
  wu_txid :: utext
  wu_vout :: u32
  wu_status :: wire_status
  wu_value :: "u64 option"
  wu_valuecommitment :: "utext option"
  wu_asset :: "utext option"
  wu_assetcommitment :: "utext option"
  wu_nonce :: "utext option"
  wu_noncecommitment :: "utext option"
  wu_surjection_proof :: "utext option"
  wu_range_proof :: "utext option"

definition de_unspent :: "'g json \<Rightarrow> wire_utxo option" where
  "de_unspent v = do {
     m \<leftarrow> struct_fields
       [(''txid'', False), (''vout'', False), (''status'', False), (''value'', True), (''valuecommitment'', True), (''asset'', True),
        (''assetcommitment'', True), (''nonce'', True), (''noncecommitment'', True), (''surjection_proof'', True), (''range_proof'', True)] v;
     txid \<leftarrow> fld m ''txid'' as_str;
     vout \<leftarrow> fld m ''vout'' json_u32;
     status \<leftarrow> fld m ''status'' de_status;
     value \<leftarrow> fld_opt m ''value'' json_u64;
     valuecommitment \<leftarrow> fld_opt m ''valuecommitment'' as_str;
     asset \<leftarrow> fld_opt m ''asset'' as_str;
     assetcommitment \<leftarrow> fld_opt m ''assetcommitment'' as_str;
     nonce \<leftarrow> fld_opt m ''nonce'' as_str;
     noncecommitment \<leftarrow> fld_opt m ''noncecommitment'' as_str;
     surjection_proof \<leftarrow> fld_opt m ''surjection_proof'' as_str;
     range_proof \<leftarrow> fld_opt m ''range_proof'' as_str;
     Some \<lparr>wu_txid = txid, wu_vout = vout, wu_status = status, wu_value = value, wu_valuecommitment = valuecommitment,
           wu_asset = asset, wu_assetcommitment = assetcommitment, wu_nonce = nonce, wu_noncecommitment = noncecommitment,
           wu_surjection_proof = surjection_proof, wu_range_proof = range_proof\<rparr>
   }"

record wire_recent =
  wr_txid :: utext
  wr_fee :: u64
  wr_vsize :: u32
  wr_value :: "u64 option"

definition de_recent :: "'g json \<Rightarrow> wire_recent option" where
  "de_recent v = do {
     m \<leftarrow> struct_fields [(''txid'', False), (''fee'', False), (''vsize'', False), (''value'', True)] v;
     txid \<leftarrow> fld m ''txid'' as_str;
     fee \<leftarrow> fld m ''fee'' json_u64;
     vsize \<leftarrow> fld m ''vsize'' json_u32;
     value \<leftarrow> fld_opt m ''value'' json_u64;
     Some \<lparr>wr_txid = txid, wr_fee = fee, wr_vsize = vsize, wr_value = value\<rparr>
   }"

definition recent_value_text :: "u64 option \<Rightarrow> utext \<Rightarrow> utext" where
  "recent_value_text value commitment =
     (case value of Some amount \<Rightarrow> show_nat (unat amount) | None \<Rightarrow> if commitment = [] then [] else lit ''Confidential'')"

record 'g wire_mempool =
  wm_count :: u32
  wm_vsize :: u32
  wm_total_fee :: u64
  wm_fee_histogram :: "('g \<times> u32) list"

definition de_mempool :: "('g json_number \<Rightarrow> 'g) \<Rightarrow> 'g json \<Rightarrow> 'g wire_mempool option" where
  "de_mempool f32 v = do {
     m \<leftarrow> struct_fields [(''count'', False), (''vsize'', False), (''total_fee'', False), (''fee_histogram'', False)] v;
     cnt \<leftarrow> fld m ''count'' json_u32;
     vsize \<leftarrow> fld m ''vsize'' json_u32;
     total_fee \<leftarrow> fld m ''total_fee'' json_u64;
     fee_histogram \<leftarrow> fld m ''fee_histogram'' (de_list (de_pair (de_float f32) json_u32));
     Some \<lparr>wm_count = cnt, wm_vsize = vsize, wm_total_fee = total_fee, wm_fee_histogram = fee_histogram\<rparr>
   }"

record wire_block_status =
  wk_in_best_chain :: bool
  wk_height :: "u64 option"
  wk_next_best :: "utext option"

definition de_block_status :: "'g json \<Rightarrow> wire_block_status option" where
  "de_block_status v = do {
     m \<leftarrow> struct_fields [(''in_best_chain'', False), (''height'', False), (''next_best'', False)] v;
     in_best_chain \<leftarrow> fld m ''in_best_chain'' as_bool;
     height \<leftarrow> fld_opt m ''height'' json_u64;
     next_best \<leftarrow> fld_opt m ''next_best'' as_str;
     Some \<lparr>wk_in_best_chain = in_best_chain, wk_height = height, wk_next_best = next_best\<rparr>
   }"

record wire_merkle_proof =
  wf_block_height :: u64
  wf_merkle :: "utext list"
  wf_pos :: u64

definition de_merkle_proof :: "'g json \<Rightarrow> wire_merkle_proof option" where
  "de_merkle_proof v = do {
     m \<leftarrow> struct_fields [(''block_height'', False), (''merkle'', False), (''pos'', False)] v;
     block_height \<leftarrow> fld m ''block_height'' json_u64;
     merkle \<leftarrow> fld m ''merkle'' (de_list as_str);
     pos \<leftarrow> fld m ''pos'' json_u64;
     Some \<lparr>wf_block_height = block_height, wf_merkle = merkle, wf_pos = pos\<rparr>
   }"

record wire_outspend =
  wx_spent :: bool
  wx_txid :: "utext option"
  wx_vin :: "u32 option"
  wx_status :: "wire_status option"

definition de_outspend :: "'g json \<Rightarrow> wire_outspend option" where
  "de_outspend v = do {
     m \<leftarrow> struct_fields [(''spent'', False), (''txid'', True), (''vin'', True), (''status'', True)] v;
     spent \<leftarrow> fld m ''spent'' as_bool;
     txid \<leftarrow> fld_opt m ''txid'' as_str;
     vin \<leftarrow> fld_opt m ''vin'' json_u32;
     status \<leftarrow> fld_opt m ''status'' de_status;
     Some \<lparr>wx_spent = spent, wx_txid = txid, wx_vin = vin, wx_status = status\<rparr>
   }"

record wire_summary =
  wy_txid :: utext
  wy_height :: u64
  wy_value :: int
  wy_time :: u64
  wy_tx_position :: u64

definition de_summary :: "'g json \<Rightarrow> wire_summary option" where
  "de_summary v = do {
     m \<leftarrow> struct_fields [(''txid'', False), (''height'', False), (''value'', False), (''time'', False), (''tx_position'', False)] v;
     txid \<leftarrow> fld m ''txid'' as_str;
     height \<leftarrow> fld m ''height'' json_u64;
     value \<leftarrow> fld m ''value'' json_i64;
     time \<leftarrow> fld m ''time'' json_u64;
     tx_position \<leftarrow> fld m ''tx_position'' json_u64;
     Some \<lparr>wy_txid = txid, wy_height = height, wy_value = value, wy_time = time, wy_tx_position = tx_position\<rparr>
   }"

record 'g wire_test_fees =
  wtf_base :: 'g
  wtf_effective_feerate :: 'g
  wtf_effective_includes :: "utext list"

definition de_test_fees :: "('g json_number \<Rightarrow> 'g) \<Rightarrow> 'g json \<Rightarrow> 'g wire_test_fees option" where
  "de_test_fees f64 v = do {
     m \<leftarrow> struct_fields [(''base'', False), (''effective-feerate'', False), (''effective-includes'', False)] v;
     base \<leftarrow> fld m ''base'' (de_float f64);
     effective_feerate \<leftarrow> fld m ''effective-feerate'' (de_float f64);
     effective_includes \<leftarrow> fld m ''effective-includes'' (de_list as_str);
     Some \<lparr>wtf_base = base, wtf_effective_feerate = effective_feerate, wtf_effective_includes = effective_includes\<rparr>
   }"

record 'g wire_test_result =
  wtr_txid :: utext
  wtr_wtxid :: "utext option"
  wtr_allowed :: "bool option"
  wtr_vsize :: "u32 option"
  wtr_fees :: "'g wire_test_fees option"
  wtr_reject_reason :: "utext option"

definition de_test_result :: "('g json_number \<Rightarrow> 'g) \<Rightarrow> 'g json \<Rightarrow> 'g wire_test_result option" where
  "de_test_result f64 v = do {
     m \<leftarrow> struct_fields
       [(''txid'', False), (''wtxid'', True), (''allowed'', True), (''vsize'', True), (''fees'', True), (''reject-reason'', True)] v;
     txid \<leftarrow> fld m ''txid'' as_str;
     wtxid \<leftarrow> fld_opt m ''wtxid'' as_str;
     allowed \<leftarrow> fld_opt m ''allowed'' as_bool;
     vsize \<leftarrow> fld_opt m ''vsize'' json_u32;
     fees \<leftarrow> fld_opt m ''fees'' (de_test_fees f64);
     reject_reason \<leftarrow> fld_opt m ''reject-reason'' as_str;
     Some \<lparr>wtr_txid = txid, wtr_wtxid = wtxid, wtr_allowed = allowed, wtr_vsize = vsize, wtr_fees = fees, wtr_reject_reason = reject_reason\<rparr>
   }"

record 'g wire_package_fees =
  wpf_base :: 'g
  wpf_effective_feerate :: "'g option"
  wpf_effective_includes :: "utext list option"

definition de_package_fees :: "('g json_number \<Rightarrow> 'g) \<Rightarrow> 'g json \<Rightarrow> 'g wire_package_fees option" where
  "de_package_fees f64 v = do {
     m \<leftarrow> struct_fields [(''base'', False), (''effective-feerate'', True), (''effective-includes'', True)] v;
     base \<leftarrow> fld m ''base'' (de_float f64);
     effective_feerate \<leftarrow> fld_opt m ''effective-feerate'' (de_float f64);
     effective_includes \<leftarrow> fld_opt m ''effective-includes'' (de_list as_str);
     Some \<lparr>wpf_base = base, wpf_effective_feerate = effective_feerate, wpf_effective_includes = effective_includes\<rparr>
   }"

record 'g wire_package_tx =
  wpt_txid :: utext
  wpt_other_wtxid :: "utext option"
  wpt_vsize :: "u32 option"
  wpt_fees :: "'g wire_package_fees option"
  wpt_error :: "utext option"

definition de_package_tx :: "('g json_number \<Rightarrow> 'g) \<Rightarrow> 'g json \<Rightarrow> 'g wire_package_tx option" where
  "de_package_tx f64 v = do {
     m \<leftarrow> struct_fields [(''txid'', False), (''other-wtxid'', True), (''vsize'', True), (''fees'', True), (''error'', True)] v;
     txid \<leftarrow> fld m ''txid'' as_str;
     other_wtxid \<leftarrow> fld_opt m ''other-wtxid'' as_str;
     vsize \<leftarrow> fld_opt m ''vsize'' json_u32;
     fees \<leftarrow> fld_opt m ''fees'' (de_package_fees f64);
     err \<leftarrow> fld_opt m ''error'' as_str;
     Some \<lparr>wpt_txid = txid, wpt_other_wtxid = other_wtxid, wpt_vsize = vsize, wpt_fees = fees, wpt_error = err\<rparr>
   }"

record 'g wire_package =
  wpk_package_msg :: utext
  wpk_tx_results :: "utext \<rightharpoonup> 'g wire_package_tx"
  wpk_replaced_transactions :: "utext list"

definition de_package :: "('g json_number \<Rightarrow> 'g) \<Rightarrow> 'g json \<Rightarrow> 'g wire_package option" where
  "de_package f64 v = do {
     m \<leftarrow> struct_fields [(''package_msg'', False), (''tx-results'', False), (''replaced-transactions'', True)] v;
     package_msg \<leftarrow> fld m ''package_msg'' as_str;
     tx_results \<leftarrow> fld m ''tx-results'' (de_text_map (de_package_tx f64));
     replaced \<leftarrow> fld_default m ''replaced-transactions'' [] (de_list as_str);
     Some \<lparr>wpk_package_msg = package_msg, wpk_tx_results = tx_results, wpk_replaced_transactions = replaced\<rparr>
   }"

text \<open>Reading a text as JSON is \<open>from_str\<close>, with no value for a text that is not JSON.\<close>

definition blocks_keeping_valid_elements ::
  "(utext \<Rightarrow> 'g json option) \<Rightarrow> ('g json_number \<Rightarrow> 'g) \<Rightarrow> utext \<Rightarrow> 'g wire_block list option"
where
  "blocks_keeping_valid_elements from_str f64 body =
     Option.bind (from_str body) (\<lambda>v.
       case v of JArray elements \<Rightarrow> Some (List.map_filter (de_block f64) elements) | _ \<Rightarrow> de_list (de_block f64) v)"

section \<open>Parsers of bodies\<close>

text \<open>The detail of a \<open>serde_json\<close> error is text of that library.\<close>

datatype parse_error = SerdeError | ParseError utext

definition serde :: "'a option \<Rightarrow> (parse_error, 'a) outcome" where
  "serde r = (case r of Some x \<Rightarrow> Ok x | None \<Rightarrow> Err SerdeError)"

definition yes_no :: "bool \<Rightarrow> utext" where
  "yes_no value = (if value then lit ''true'' else lit ''false'')"

record block_text =
  bt_id :: utext
  bt_height :: utext
  bt_tx_count :: utext
  bt_timestamp :: utext
  bt_size :: utext
  bt_weight :: utext
  bt_previous_hash :: utext

record block_raw =
  br_id :: utext
  br_height :: u64
  br_tx_count :: u64
  br_timestamp :: u64
  br_size :: u64
  br_weight :: u64
  br_previousblockhash :: "utext option"

definition de_block_raw :: "'g json \<Rightarrow> block_raw option" where
  "de_block_raw v = do {
     m \<leftarrow> struct_fields
       [(''id'', False), (''height'', False), (''tx_count'', False), (''timestamp'', False), (''size'', False), (''weight'', False),
        (''previousblockhash'', False)] v;
     id' \<leftarrow> fld m ''id'' as_str;
     height \<leftarrow> fld m ''height'' json_u64;
     tx_count \<leftarrow> fld m ''tx_count'' json_u64;
     timestamp \<leftarrow> fld m ''timestamp'' json_u64;
     size' \<leftarrow> fld m ''size'' json_u64;
     weight \<leftarrow> fld m ''weight'' json_u64;
     previous \<leftarrow> fld_opt m ''previousblockhash'' as_str;
     Some \<lparr>br_id = id', br_height = height, br_tx_count = tx_count, br_timestamp = timestamp, br_size = size', br_weight = weight,
           br_previousblockhash = previous\<rparr>
   }"

abbreviation show_u64 :: "u64 \<Rightarrow> utext" where
  "show_u64 w \<equiv> show_nat (unat w)"

definition block_from_json :: "block_raw \<Rightarrow> (parse_error, block_text) outcome" where
  "block_from_json raw =
     (case br_previousblockhash raw of
        None \<Rightarrow> Err (ParseError (lit ''missing previousblockhash''))
      | Some previous_hash \<Rightarrow>
          Ok \<lparr>bt_id = br_id raw, bt_height = show_u64 (br_height raw), bt_tx_count = show_u64 (br_tx_count raw),
              bt_timestamp = show_u64 (br_timestamp raw), bt_size = show_u64 (br_size raw), bt_weight = show_u64 (br_weight raw),
              bt_previous_hash = previous_hash\<rparr>)"

record tx_text =
  tt_txid :: utext
  tt_confirmed :: utext
  tt_block_height :: utext
  tt_fee :: utext
  tt_size :: utext
  tt_weight :: utext

record status_raw =
  sr_confirmed :: bool
  sr_block_height :: "u64 option"

record tx_raw =
  tr_txid :: utext
  tr_fee :: u64
  tr_size :: u64
  tr_weight :: u64
  tr_status :: status_raw

definition de_status_raw :: "'g json \<Rightarrow> status_raw option" where
  "de_status_raw v = do {
     m \<leftarrow> struct_fields [(''confirmed'', False), (''block_height'', True)] v;
     confirmed \<leftarrow> fld m ''confirmed'' as_bool;
     block_height \<leftarrow> fld_opt m ''block_height'' json_u64;
     Some \<lparr>sr_confirmed = confirmed, sr_block_height = block_height\<rparr>
   }"

definition de_tx_raw :: "'g json \<Rightarrow> tx_raw option" where
  "de_tx_raw v = do {
     m \<leftarrow> struct_fields [(''txid'', False), (''fee'', False), (''size'', False), (''weight'', False), (''status'', False)] v;
     txid \<leftarrow> fld m ''txid'' as_str;
     fee \<leftarrow> fld m ''fee'' json_u64;
     size' \<leftarrow> fld m ''size'' json_u64;
     weight \<leftarrow> fld m ''weight'' json_u64;
     status \<leftarrow> fld m ''status'' de_status_raw;
     Some \<lparr>tr_txid = txid, tr_fee = fee, tr_size = size', tr_weight = weight, tr_status = status\<rparr>
   }"

definition block_height_text :: "u64 option \<Rightarrow> utext" where
  "block_height_text height = (case height of Some h \<Rightarrow> show_u64 h | None \<Rightarrow> [])"

definition tx_from :: "tx_raw \<Rightarrow> tx_text" where
  "tx_from raw =
     \<lparr>tt_txid = tr_txid raw, tt_confirmed = yes_no (sr_confirmed (tr_status raw)),
      tt_block_height = block_height_text (sr_block_height (tr_status raw)), tt_fee = show_u64 (tr_fee raw),
      tt_size = show_u64 (tr_size raw), tt_weight = show_u64 (tr_weight raw)\<rparr>"

record stats_raw =
  sw_tx_count :: u64
  sw_funded_txo_sum :: "u64 option"

definition de_stats_raw :: "'g json \<Rightarrow> stats_raw option" where
  "de_stats_raw v = do {
     m \<leftarrow> struct_fields [(''tx_count'', False), (''funded_txo_sum'', True)] v;
     tx_count \<leftarrow> fld m ''tx_count'' json_u64;
     funded_txo_sum \<leftarrow> fld_opt m ''funded_txo_sum'' json_u64;
     Some \<lparr>sw_tx_count = tx_count, sw_funded_txo_sum = funded_txo_sum\<rparr>
   }"

record script_text =
  sx_name :: utext
  sx_chain_tx_count :: utext
  sx_funded_sum :: "utext option"
  sx_mempool_tx_count :: utext

definition de_script_text :: "string \<Rightarrow> 'g json \<Rightarrow> script_text option" where
  "de_script_text key v = do {
     m \<leftarrow> struct_fields [(key, False), (''chain_stats'', False), (''mempool_stats'', False)] v;
     name \<leftarrow> fld m key as_str;
     chain_stats \<leftarrow> fld m ''chain_stats'' de_stats_raw;
     mempool_stats \<leftarrow> fld m ''mempool_stats'' de_stats_raw;
     Some \<lparr>sx_name = name, sx_chain_tx_count = show_u64 (sw_tx_count chain_stats),
           sx_funded_sum = map_option show_u64 (sw_funded_txo_sum chain_stats), sx_mempool_tx_count = show_u64 (sw_tx_count mempool_stats)\<rparr>
   }"

record utxo_text =
  ut_txid :: utext
  ut_vout :: utext
  ut_value :: utext
  ut_confirmed :: utext

definition de_utxo_text :: "'g json \<Rightarrow> utxo_text option" where
  "de_utxo_text v = do {
     m \<leftarrow> struct_fields [(''txid'', False), (''vout'', False), (''value'', True), (''status'', False)] v;
     txid \<leftarrow> fld m ''txid'' as_str;
     vout \<leftarrow> fld m ''vout'' json_u64;
     value \<leftarrow> fld_opt m ''value'' json_u64;
     status \<leftarrow> fld m ''status'' de_status_raw;
     Some \<lparr>ut_txid = txid, ut_vout = show_u64 vout, ut_value = (case value of Some amount \<Rightarrow> show_u64 amount | None \<Rightarrow> []),
           ut_confirmed = yes_no (sr_confirmed status)\<rparr>
   }"

record recent_text =
  rt_txid :: utext
  rt_fee :: utext
  rt_vsize :: utext
  rt_value :: utext

definition de_recent_text :: "'g json \<Rightarrow> recent_text option" where
  "de_recent_text v = do {
     m \<leftarrow> struct_fields [(''txid'', False), (''fee'', False), (''vsize'', False), (''value'', True)] v;
     txid \<leftarrow> fld m ''txid'' as_str;
     fee \<leftarrow> fld m ''fee'' json_u64;
     vsize \<leftarrow> fld m ''vsize'' json_u64;
     value \<leftarrow> fld_opt m ''value'' json_u64;
     Some \<lparr>rt_txid = txid, rt_fee = show_u64 fee, rt_vsize = show_u64 vsize,
           rt_value = (case value of Some amount \<Rightarrow> show_u64 amount | None \<Rightarrow> [])\<rparr>
   }"

record test_text =
  te_txid :: utext
  te_allowed :: utext
  te_reject_reason :: utext

definition de_test_raw :: "'g json \<Rightarrow> (utext \<times> bool \<times> utext option) option" where
  "de_test_raw v = do {
     m \<leftarrow> struct_fields [(''txid'', False), (''allowed'', False), (''reject-reason'', False)] v;
     txid \<leftarrow> fld m ''txid'' as_str;
     allowed \<leftarrow> fld m ''allowed'' as_bool;
     reject_reason \<leftarrow> fld_opt m ''reject-reason'' as_str;
     Some (txid, allowed, reject_reason)
   }"

definition test_from :: "utext \<times> bool \<times> utext option \<Rightarrow> (parse_error, test_text) outcome" where
  "test_from row =
     (case row of
        (txid, allowed, Some reason) \<Rightarrow> Ok \<lparr>te_txid = txid, te_allowed = yes_no allowed, te_reject_reason = reason\<rparr>
      | (txid, True, None) \<Rightarrow> Ok \<lparr>te_txid = txid, te_allowed = yes_no True, te_reject_reason = []\<rparr>
      | (txid, False, None) \<Rightarrow> Err (ParseError (lit ''missing reject-reason'')))"

definition parse_blocks_body :: "(utext \<Rightarrow> 'g json option) \<Rightarrow> utext \<Rightarrow> (parse_error, block_text list) outcome" where
  "parse_blocks_body from_str body = bind_out (serde (Option.bind (from_str body) (de_list de_block_raw))) (collect_out block_from_json)"

definition parse_block :: "(utext \<Rightarrow> 'g json option) \<Rightarrow> utext \<Rightarrow> (parse_error, block_text) outcome" where
  "parse_block from_str body = bind_out (serde (Option.bind (from_str body) de_block_raw)) block_from_json"

definition parse_block_txs :: "(utext \<Rightarrow> 'g json option) \<Rightarrow> utext \<Rightarrow> (parse_error, tx_text list) outcome" where
  "parse_block_txs from_str body = map_out (map tx_from) (serde (Option.bind (from_str body) (de_list de_tx_raw)))"

definition parse_tx :: "(utext \<Rightarrow> 'g json option) \<Rightarrow> utext \<Rightarrow> (parse_error, tx_text) outcome" where
  "parse_tx from_str body = map_out tx_from (serde (Option.bind (from_str body) de_tx_raw))"

definition parse_address :: "(utext \<Rightarrow> 'g json option) \<Rightarrow> utext \<Rightarrow> (parse_error, script_text) outcome" where
  "parse_address from_str body = serde (Option.bind (from_str body) (de_script_text ''address''))"

definition parse_scripthash_body :: "(utext \<Rightarrow> 'g json option) \<Rightarrow> utext \<Rightarrow> (parse_error, script_text) outcome" where
  "parse_scripthash_body from_str body = serde (Option.bind (from_str body) (de_script_text ''scripthash''))"

definition parse_address_utxos :: "(utext \<Rightarrow> 'g json option) \<Rightarrow> utext \<Rightarrow> (parse_error, utxo_text list) outcome" where
  "parse_address_utxos from_str body = serde (Option.bind (from_str body) (de_list de_utxo_text))"

definition parse_mempool_recent :: "(utext \<Rightarrow> 'g json option) \<Rightarrow> utext \<Rightarrow> (parse_error, recent_text list) outcome" where
  "parse_mempool_recent from_str body = serde (Option.bind (from_str body) (de_list de_recent_text))"

definition parse_test_txs :: "(utext \<Rightarrow> 'g json option) \<Rightarrow> utext \<Rightarrow> (parse_error, test_text list) outcome" where
  "parse_test_txs from_str body = bind_out (serde (Option.bind (from_str body) (de_list de_test_raw))) (collect_out test_from)"

text \<open>Bodies of plain text.\<close>

definition nonempty_text :: "string \<Rightarrow> utext \<Rightarrow> (parse_error, utext) outcome" where
  "nonempty_text detail body = (let t = trim body in if t = [] then Err (ParseError (lit detail)) else Ok t)"

definition parse_broadcast :: "utext \<Rightarrow> (parse_error, utext) outcome" where
  "parse_broadcast = nonempty_text ''broadcast result was empty''"

definition parse_blocks_tip_hash :: "utext \<Rightarrow> (parse_error, utext) outcome" where
  "parse_blocks_tip_hash = nonempty_text ''tip hash was empty''"

definition parse_blocks_tip_height :: "utext \<Rightarrow> (parse_error, utext) outcome" where
  "parse_blocks_tip_height body =
     bind_out (nonempty_text ''tip height was empty'' body) (\<lambda>t.
       case parse_usize t of Some height \<Rightarrow> Ok (show_nat height) | None \<Rightarrow> Err (ParseError (lit ''tip height was not an integer'')))"

definition parse_block_height :: "utext \<Rightarrow> (parse_error, utext) outcome" where
  "parse_block_height = nonempty_text ''block height result was empty''"

definition parse_tx_hex :: "utext \<Rightarrow> (parse_error, utext) outcome" where
  "parse_tx_hex = nonempty_text ''tx hex was empty''"

definition parse_block_txid :: "utext \<Rightarrow> (parse_error, utext) outcome" where
  "parse_block_txid = nonempty_text ''block txid was empty''"

text \<open>Hexadecimal bodies. \<open>decode_hex\<close> reads the bytes of the text.\<close>

definition hex_nibble :: "byte \<Rightarrow> (parse_error, byte) outcome" where
  "hex_nibble b =
     (if 48 \<le> b \<and> b \<le> 57 then Ok (b - 48)
      else if 97 \<le> b \<and> b \<le> 102 then Ok (b - 97 + 10)
      else if 65 \<le> b \<and> b \<le> 70 then Ok (b - 65 + 10)
      else Err (ParseError (lit ''hex was not hexadecimal'')))"

fun hex_pairs :: "bytes \<Rightarrow> (parse_error, bytes) outcome" where
  "hex_pairs (a # b # rest) =
     bind_out (hex_nibble a) (\<lambda>high. bind_out (hex_nibble b) (\<lambda>low.
     map_out (Cons (or (push_bit 4 high) low)) (hex_pairs rest)))"
| "hex_pairs _ = Ok []"

definition decode_hex :: "utext \<Rightarrow> (parse_error, bytes) outcome" where
  "decode_hex t =
     (if odd (utf8_len t) then Err (ParseError (lit ''hex length was odd'')) else hex_pairs (utf8_encode t))"

definition hex_text :: "string \<Rightarrow> utext \<Rightarrow> (parse_error, utext) outcome" where
  "hex_text empty_detail body = bind_out (nonempty_text empty_detail body) (\<lambda>t. map_out (\<lambda>_. t) (decode_hex t))"

definition parse_block_header :: "utext \<Rightarrow> (parse_error, utext) outcome" where
  "parse_block_header = hex_text ''block header was empty''"

definition parse_block_header_bytes :: "utext \<Rightarrow> (parse_error, bytes) outcome" where
  "parse_block_header_bytes body = bind_out (parse_block_header body) decode_hex"

definition parse_merkleblock_proof :: "utext \<Rightarrow> (parse_error, utext) outcome" where
  "parse_merkleblock_proof = hex_text ''merkleblock proof was empty''"

definition parse_merkleblock_proof_bytes :: "utext \<Rightarrow> (parse_error, bytes) outcome" where
  "parse_merkleblock_proof_bytes body = bind_out (parse_merkleblock_proof body) decode_hex"

text \<open>The estimates of fees and the statistics of the mempool; \<open>num\<close> is the text of a JSON number.\<close>

definition json_number_text :: "('g json_number \<Rightarrow> utext) \<Rightarrow> 'g json \<Rightarrow> string \<Rightarrow> (parse_error, utext) outcome" where
  "json_number_text num v what =
     (case v of JNumber n \<Rightarrow> Ok (num n) | _ \<Rightarrow> Err (ParseError (lit what @ lit '' was not a number'')))"

definition fee_row :: "('g json_number \<Rightarrow> utext) \<Rightarrow> utext \<times> 'g json \<Rightarrow> (parse_error, nat \<times> utext) outcome" where
  "fee_row num kv =
     (case parse_usize (fst kv) of
        None \<Rightarrow> Err (ParseError (lit ''bad fee target '' @ fst kv))
      | Some target \<Rightarrow> map_out (Pair target) (json_number_text num (snd kv) ''fee rate''))"

text \<open>A \<open>serde_json::Map\<close> is ordered by key and holds the last of two equal keys; \<open>order\<close> is that order.\<close>

definition parse_fee_estimates ::
  "(utext \<Rightarrow> 'g json option) \<Rightarrow> ((utext \<rightharpoonup> 'g json) \<Rightarrow> (utext \<times> 'g json) list) \<Rightarrow> ('g json_number \<Rightarrow> utext) \<Rightarrow> utext
    \<Rightarrow> (parse_error, (utext \<times> utext) list) outcome"
where
  "parse_fee_estimates from_str order num body =
     (case from_str body of
        Some (JObject members) \<Rightarrow>
          map_out (\<lambda>rows. map (\<lambda>(target, rate). (show_nat target, rate)) (sort_key fst rows))
            (collect_out (fee_row num) (order (map_of (rev members))))
      | _ \<Rightarrow> Err SerdeError)"

record backlog_text =
  lt_count :: utext
  lt_vsize :: utext
  lt_total_fee :: utext
  lt_fee_histogram :: "(utext \<times> utext) list"

definition histogram_bin :: "('g json_number \<Rightarrow> utext) \<Rightarrow> 'g json list \<Rightarrow> (parse_error, utext \<times> utext) outcome" where
  "histogram_bin num bin =
     (case bin of
        [rate, vsize] \<Rightarrow>
          bind_out (json_number_text num rate ''fee rate'') (\<lambda>r. map_out (Pair r) (json_number_text num vsize ''vsize''))
      | _ \<Rightarrow> Err (ParseError (lit ''fee histogram entry was not a pair'')))"

definition de_backlog :: "'g json \<Rightarrow> (u64 \<times> u64 \<times> u64 \<times> 'g json list list) option" where
  "de_backlog v = do {
     m \<leftarrow> struct_fields [(''count'', False), (''vsize'', False), (''total_fee'', False), (''fee_histogram'', False)] v;
     cnt \<leftarrow> fld m ''count'' json_u64;
     vsize \<leftarrow> fld m ''vsize'' json_u64;
     total_fee \<leftarrow> fld m ''total_fee'' json_u64;
     fee_histogram \<leftarrow> fld m ''fee_histogram'' (de_list (de_list Some));
     Some (cnt, vsize, total_fee, fee_histogram)
   }"

definition parse_mempool :: "(utext \<Rightarrow> 'g json option) \<Rightarrow> ('g json_number \<Rightarrow> utext) \<Rightarrow> utext \<Rightarrow> (parse_error, backlog_text) outcome" where
  "parse_mempool from_str num body =
     bind_out (serde (Option.bind (from_str body) de_backlog)) (\<lambda>(cnt, vsize, total_fee, bins).
     map_out (\<lambda>h. \<lparr>lt_count = show_u64 cnt, lt_vsize = show_u64 vsize, lt_total_fee = show_u64 total_fee, lt_fee_histogram = h\<rparr>)
       (collect_out (histogram_bin num) bins))"

text \<open>Bodies that are one of the shapes above, and those that are read like another.\<close>

definition read_as :: "('g json \<Rightarrow> 'a option) \<Rightarrow> (utext \<Rightarrow> 'g json option) \<Rightarrow> utext \<Rightarrow> (parse_error, 'a) outcome" where
  "read_as dec from_str body = serde (Option.bind (from_str body) dec)"

definition parse_block_txids :: "(utext \<Rightarrow> 'g json option) \<Rightarrow> utext \<Rightarrow> (parse_error, utext list) outcome" where
  "parse_block_txids = read_as (de_list as_str)"

definition parse_mempool_txids :: "(utext \<Rightarrow> 'g json option) \<Rightarrow> utext \<Rightarrow> (parse_error, utext list) outcome" where
  "parse_mempool_txids = read_as (de_list as_str)"

definition parse_address_prefix :: "(utext \<Rightarrow> 'g json option) \<Rightarrow> utext \<Rightarrow> (parse_error, utext list) outcome" where
  "parse_address_prefix = read_as (de_list as_str)"

definition parse_block_status :: "(utext \<Rightarrow> 'g json option) \<Rightarrow> utext \<Rightarrow> (parse_error, wire_block_status) outcome" where
  "parse_block_status = read_as de_block_status"

definition parse_outspends :: "(utext \<Rightarrow> 'g json option) \<Rightarrow> utext \<Rightarrow> (parse_error, wire_outspend list) outcome" where
  "parse_outspends = read_as (de_list de_outspend)"

definition parse_outspend :: "(utext \<Rightarrow> 'g json option) \<Rightarrow> utext \<Rightarrow> (parse_error, wire_outspend) outcome" where
  "parse_outspend = read_as de_outspend"

definition parse_txs_outspends :: "(utext \<Rightarrow> 'g json option) \<Rightarrow> utext \<Rightarrow> (parse_error, wire_outspend list list) outcome" where
  "parse_txs_outspends = read_as (de_list (de_list de_outspend))"

definition parse_merkle_proof :: "(utext \<Rightarrow> 'g json option) \<Rightarrow> utext \<Rightarrow> (parse_error, wire_merkle_proof) outcome" where
  "parse_merkle_proof = read_as de_merkle_proof"

definition parse_tx_status :: "(utext \<Rightarrow> 'g json option) \<Rightarrow> utext \<Rightarrow> (parse_error, wire_status) outcome" where
  "parse_tx_status = read_as de_status"

definition parse_address_txs_summary :: "(utext \<Rightarrow> 'g json option) \<Rightarrow> utext \<Rightarrow> (parse_error, wire_summary list) outcome" where
  "parse_address_txs_summary = read_as (de_list de_summary)"

definition parse_package :: "('g json_number \<Rightarrow> 'g) \<Rightarrow> (utext \<Rightarrow> 'g json option) \<Rightarrow> utext \<Rightarrow> (parse_error, 'g wire_package) outcome" where
  "parse_package f64 = read_as (de_package f64)"

definition parse_address_txs :: "(utext \<Rightarrow> 'g json option) \<Rightarrow> utext \<Rightarrow> (parse_error, tx_text list) outcome" where
  "parse_address_txs = parse_block_txs"

definition parse_block_raw :: "bytes \<Rightarrow> (parse_error, bytes) outcome" where
  "parse_block_raw body = (if body = [] then Err (ParseError (lit ''block raw was empty'')) else Ok body)"

definition parse_tx_raw :: "bytes \<Rightarrow> (parse_error, bytes) outcome" where
  "parse_tx_raw body = (if body = [] then Err (ParseError (lit ''tx raw was empty'')) else Ok body)"

definition parse_block_raw_hex :: "utext \<Rightarrow> (parse_error, utext) outcome" where
  "parse_block_raw_hex = hex_text ''block raw hex was empty''"

definition parse_tx_raw_hex :: "utext \<Rightarrow> (parse_error, utext) outcome" where
  "parse_tx_raw_hex = hex_text ''tx raw hex was empty''"

section \<open>Reading what the indexer writes\<close>

lemma lit_eq_iff [simp]: "lit a = lit b \<longleftrightarrow> a = b"
  unfolding lit_def by (rule inj_map_eq_map) (simp add: inj_def)

lemma struct_fields_object [simp]: "distinct (map fst ms) \<Longrightarrow> struct_fields fs (JObject ms) = Some (map_of ms)"
  by (simp add: struct_fields_def Let_def distinct_filter)

lemma all_some_map [simp]: "(\<And>x. x \<in> set xs \<Longrightarrow> f x = Some (g x)) \<Longrightarrow> all_some (map f xs) = Some (map g xs)"
  by (induction xs) auto

lemma de_list_map [simp]: "(\<And>x. x \<in> set xs \<Longrightarrow> dec (f x) = Some (g x)) \<Longrightarrow> de_list dec (JArray (map f xs)) = Some (map g xs)"
  by (simp add: de_list_def comp_def)

lemma de_words [simp]:
  "json_u32 (ju32 w) = Some w" "json_u64 (ju64 x) = Some x" "json_u64 (ju32 w) = Some (ucast w)"
  "n < 2 ^ 64 \<Longrightarrow> json_u64 (jnat n) = Some (word_of_nat n)"
  "- (2 ^ 63) \<le> i \<Longrightarrow> i < 2 ^ 63 \<Longrightarrow> json_i64 (jint i) = Some i"
proof -
  show "json_u32 (ju32 w) = Some w" using unsigned_less [of w] by (simp add: json_u32_def ju32_def jnat_def)
  show "json_u64 (ju64 x) = Some x" using unsigned_less [of x] by (simp add: json_u64_def ju64_def jnat_def)
  have "unat w < 2 ^ 64" using unsigned_less [of w, where 'a = nat] by simp
  then show "json_u64 (ju32 w) = Some (ucast w)" by (simp add: json_u64_def ju32_def jnat_def unsigned_ucast_eq)
  show "n < 2 ^ 64 \<Longrightarrow> json_u64 (jnat n) = Some (word_of_nat n)" by (simp add: json_u64_def jnat_def)
  show "- (2 ^ 63) \<le> i \<Longrightarrow> i < 2 ^ 63 \<Longrightarrow> json_i64 (jint i) = Some i" by (auto simp: json_i64_def jint_def)
qed

lemma json_u16: "json_u64 (jnat (unat (p :: u16))) = Some (ucast p)"
proof -
  have "unat p < 2 ^ 64" using unsigned_less [of p, where 'a = nat] by simp
  then show ?thesis by (simp add: json_u64_def jnat_def unsigned_ucast_eq)
qed

lemma unat_widened [simp]: "unat (ucast (w :: u32) :: u64) = unat w"
proof -
  have "unat w < 2 ^ 64" using unsigned_less [of w, where 'a = nat] by simp
  then show ?thesis by (simp add: unsigned_ucast_eq take_bit_nat_eq_self)
qed

text \<open>No number, text, object or array is read as null.\<close>

lemma de_opt_some [simp]:
  "de_opt dec (jnat n) = map_option Some (dec (jnat n))" "de_opt dec (ju32 w) = map_option Some (dec (ju32 w))"
  "de_opt dec (ju64 x) = map_option Some (dec (ju64 x))" "de_opt dec (JString t) = map_option Some (dec (JString t))"
  "de_opt dec (JArray a) = map_option Some (dec (JArray a))" "de_opt dec (JObject ms) = map_option Some (dec (JObject ms))"
  "de_opt dec (JBool b) = map_option Some (dec (JBool b))" "de_opt dec JNull = Some None" "de_opt dec (JNumber k) = map_option Some (dec (JNumber k))"
  by (simp_all add: de_opt_def ju32_def ju64_def jnat_def)

lemmas reads = fld_def fld_opt_def skip_none_def or_null_def jhash_def jtext_def

definition seen_status :: "('f, 'g) electrum_lib \<Rightarrow> transaction_status \<Rightarrow> wire_status" where
  "seen_status el st =
     \<lparr>ws_confirmed = ts_confirmed st, ws_block_height = map_option word_of_nat (ts_block_height st),
      ws_block_hash = map_option (el_show_hash el) (ts_block_hash st), ws_block_time = map_option ucast (ts_block_time st)\<rparr>"

definition height_fits :: "transaction_status \<Rightarrow> bool" where
  "height_fits st \<longleftrightarrow> (case ts_block_height st of Some h \<Rightarrow> h < 2 ^ 64 | None \<Rightarrow> True)"

lemma status_read: "height_fits st \<Longrightarrow> de_status (status_json el st) = Some (seen_status el st)"
  by (cases "ts_block_height st"; cases "ts_block_hash st"; cases "ts_block_time st")
     (simp_all add: de_status_def status_json_def seen_status_def height_fits_def reads)

lemma de_opt_status [simp]: "de_opt dec (status_json el st) = map_option Some (dec (status_json el st))"
  by (simp add: status_json_def)

definition seen_output :: "tx_out_value \<Rightarrow> wire_output" where
  "seen_output v =
     \<lparr>wo_script_pubkey = hex_encode (tov_scriptpubkey v), wo_script_pubkey_asm = tov_scriptpubkey_asm v,
      wo_script_pubkey_type = lit (tov_scriptpubkey_type v), wo_script_pubkey_address = tov_scriptpubkey_address v,
      wo_value = Some (tov_value v), wo_valuecommitment = None, wo_asset = None, wo_assetcommitment = None, wo_pegout = None\<rparr>"

lemma output_read: "de_output (tx_out_value_json v) = Some (seen_output v)"
  by (cases "tov_scriptpubkey_address v") (simp_all add: de_output_def tx_out_value_json_def seen_output_def reads)

lemma de_opt_output [simp]: "de_opt dec (tx_out_value_json v) = map_option Some (dec (tx_out_value_json v))"
  by (simp add: tx_out_value_json_def)

definition seen_input :: "('f, 'g) electrum_lib \<Rightarrow> tx_in_value \<Rightarrow> wire_input" where
  "seen_input el v =
     \<lparr>wn_txid = el_show_hash el (iv_txid v), wn_vout = iv_vout v, wn_prevout = map_option seen_output (iv_prevout v),
      wn_script_sig = hex_encode (iv_scriptsig v), wn_script_sig_asm = iv_scriptsig_asm v, wn_witness = iv_witness v,
      wn_is_coinbase = iv_is_coinbase v, wn_is_pegin = None, wn_issuance = None, wn_sequence = iv_sequence v,
      wn_inner_redeem_script_asm = iv_inner_redeemscript_asm v, wn_inner_witness_script_asm = iv_inner_witnessscript_asm v\<rparr>"

lemma texts_read [simp]: "de_list as_str (JArray (map JString ts)) = Some ts"
  using de_list_map [of ts as_str JString id] by simp

lemma input_read: "de_input (tx_in_value_json el v) = Some (seen_input el v)"
  by (cases "iv_prevout v"; cases "iv_witness v"; cases "iv_inner_redeemscript_asm v"; cases "iv_inner_witnessscript_asm v")
     (simp_all add: de_input_def tx_in_value_json_def seen_input_def output_read reads)

definition seen_transaction :: "('f, 'g) electrum_lib \<Rightarrow> transaction_value \<Rightarrow> wire_transaction" where
  "seen_transaction el v =
     \<lparr>wt_txid = el_show_hash el (tv_txid v), wt_version = tv_version v, wt_lock_time = tv_locktime v,
      wt_vin = map (seen_input el) (tv_vin v), wt_vout = map seen_output (tv_vout v), wt_size = tv_size v,
      wt_weight = tv_weight v, wt_sigops = tv_sigops v, wt_fee = tv_fee v, wt_status = map_option (seen_status el) (tv_status v)\<rparr>"

lemma transaction_read:
  assumes "\<And>st. tv_status v = Some st \<Longrightarrow> height_fits st"
  shows "de_transaction (transaction_value_json el v) = Some (seen_transaction el v)"
  using assms
  by (cases "tv_status v")
     (simp_all add: de_transaction_def transaction_value_json_def seen_transaction_def input_read output_read status_read reads)

definition seen_block :: "('g json_number \<Rightarrow> 'g) \<Rightarrow> ('f, 'g) electrum_lib \<Rightarrow> 'g rest_lib \<Rightarrow> 'g block_value \<Rightarrow> 'g wire_block" where
  "seen_block f64 el rl v =
     \<lparr>wb_id = el_show_hash el (bv_id v), wb_height = bv_height v, wb_version = bv_version v, wb_timestamp = bv_timestamp v,
      wb_tx_count = bv_tx_count v, wb_size = bv_size v, wb_weight = bv_weight v, wb_merkle_root = el_show_hash el (bv_merkle_root v),
      wb_previous_block_hash = map_option (el_show_hash el) (bv_previousblockhash v), wb_median_time = bv_mediantime v,
      wb_nonce = Some (bv_nonce v), wb_bits = Some (bv_bits v), wb_difficulty = de_float f64 (rl_f64_json rl (bv_difficulty v)),
      wb_ext = None, wb_stale = None\<rparr>"

text \<open>A float is written as a number, or as null when it is not finite.\<close>

definition floats_numeric :: "('a \<Rightarrow> 'g json) \<Rightarrow> bool" where
  "floats_numeric to_json \<longleftrightarrow> (\<forall>x. to_json x = JNull \<or> (\<exists>n. to_json x = JNumber n))"

lemma block_read:
  assumes "floats_numeric (rl_f64_json rl)"
  shows "de_block f64 (block_value_json el rl v) = Some (seen_block f64 el rl v)"
proof -
  have d: "de_opt (de_float f64) (rl_f64_json rl (bv_difficulty v)) = Some (de_float f64 (rl_f64_json rl (bv_difficulty v)))"
    using assms unfolding floats_numeric_def de_opt_def de_float_def
    by (metis (no_types, lifting) json.case(1,3) option.simps(9))
  show ?thesis
    using d by (cases "bv_previousblockhash v") (simp_all add: de_block_def block_value_json_def seen_block_def reads)
qed

lemma stats_read:
  "de_script_stats (script_stats_json s) = Some \<lparr>wc_tx_count = st_tx_count s, wc_funded_txo_count = st_funded_txo_count s,
     wc_spent_txo_count = st_spent_txo_count s, wc_funded_txo_sum = Some (st_funded_txo_sum s), wc_spent_txo_sum = Some (st_spent_txo_sum s)\<rparr>"
  by (simp add: de_script_stats_def script_stats_json_def reads)

definition seen_utxo :: "('f, 'g) electrum_lib \<Rightarrow> utxo_value \<Rightarrow> wire_utxo" where
  "seen_utxo el v =
     \<lparr>wu_txid = el_show_hash el (uv_txid v), wu_vout = uv_vout v, wu_status = seen_status el (uv_status v), wu_value = Some (uv_value v),
      wu_valuecommitment = None, wu_asset = None, wu_assetcommitment = None, wu_nonce = None, wu_noncecommitment = None,
      wu_surjection_proof = None, wu_range_proof = None\<rparr>"

lemma utxo_read: "height_fits (uv_status v) \<Longrightarrow> de_unspent (utxo_value_json el v) = Some (seen_utxo el v)"
  by (simp add: de_unspent_def utxo_value_json_def seen_utxo_def status_read reads)

definition seen_outspend :: "('f, 'g) electrum_lib \<Rightarrow> spending_value \<Rightarrow> wire_outspend" where
  "seen_outspend el v =
     \<lparr>wx_spent = sv_spent v, wx_txid = map_option (el_show_hash el) (sv_txid v), wx_vin = sv_vin v,
      wx_status = map_option (seen_status el) (sv_status v)\<rparr>"

lemma outspend_read:
  assumes "\<And>st. sv_status v = Some st \<Longrightarrow> height_fits st"
  shows "de_outspend (spending_value_json el v) = Some (seen_outspend el v)"
  using assms
  by (cases "sv_txid v"; cases "sv_vin v"; cases "sv_status v")
     (simp_all add: de_outspend_def spending_value_json_def seen_outspend_def status_read reads)

definition seen_summary :: "('f, 'g) electrum_lib \<Rightarrow> tx_history_summary \<Rightarrow> wire_summary" where
  "seen_summary el s =
     \<lparr>wy_txid = el_show_hash el (ths_txid s), wy_height = word_of_nat (ths_height s), wy_value = ths_value s, wy_time = ucast (ths_time s),
      wy_tx_position = ucast (ths_tx_position s)\<rparr>"

lemma summary_read:
  assumes "ths_height s < 2 ^ 64" "- (2 ^ 63) \<le> ths_value s" "ths_value s < 2 ^ 63"
  shows "de_summary (summary_json el s) = Some (seen_summary el s)"
  using assms by (simp add: de_summary_def summary_json_def seen_summary_def reads json_u16)

lemma recent_read:
  "de_recent (tx_overview_json el t) = Some \<lparr>wr_txid = el_show_hash el (ov_txid t), wr_fee = ov_fee t, wr_vsize = ov_vsize t, wr_value = Some (ov_value t)\<rparr>"
  by (simp add: de_recent_def tx_overview_json_def reads)

lemma block_status_read:
  assumes "\<And>h. bs_height s = Some h \<Longrightarrow> h < 2 ^ 64"
  shows "de_block_status (block_status_json el s) = Some
    \<lparr>wk_in_best_chain = bs_in_best_chain s, wk_height = map_option word_of_nat (bs_height s), wk_next_best = map_option (el_show_hash el) (bs_next_best s)\<rparr>"
  using assms by (cases "bs_height s"; cases "bs_next_best s") (simp_all add: de_block_status_def block_status_json_def reads)

lemma mempool_read:
  assumes "\<And>r. el_rate_json el r = JNumber (num r)"
  shows "de_mempool f32 (backlog_json el b) = Some
    \<lparr>wm_count = bl_count b, wm_vsize = bl_vsize b, wm_total_fee = bl_total_fee b,
     wm_fee_histogram = map (\<lambda>(rate, vsize). (f32 (num rate), vsize)) (bl_fee_histogram b)\<rparr>"
proof -
  have "de_list (de_pair (de_float f32) json_u32) (JArray (map (\<lambda>(rate, vsize). JArray [el_rate_json el rate, ju32 vsize]) (bl_fee_histogram b)))
      = Some (map (\<lambda>(rate, vsize). (f32 (num rate), vsize)) (bl_fee_histogram b))"
    by (rule de_list_map) (auto simp: de_pair_def de_float_def assms)
  then show ?thesis by (simp add: de_mempool_def backlog_json_def reads)
qed

section \<open>The clients and the indexer\<close>

text \<open>C40: everything the indexer writes has the type the clients read: a block, a transaction with its inputs, outputs and
  status, an unspent output, a spend and a row of a summary are read without an error, and every field has the value the indexer gave it, unsigned 32- and 64-bit numbers in full range, the fields of a liquid build
  absent. A list is read element by element, so nothing of a page is lost.\<close>

theorem client_reads_indexer:
  assumes "floats_numeric (rl_f64_json rl)"
    and "\<forall>tv\<in>set txs. \<forall>st. tv_status tv = Some st \<longrightarrow> height_fits st"
    and "\<forall>u\<in>set utxos. height_fits (uv_status u)"
    and "\<forall>sp\<in>set spends. \<forall>st. sv_status sp = Some st \<longrightarrow> height_fits st"
    and "\<forall>s\<in>set summaries. ths_height s < 2 ^ 64 \<and> - (2 ^ 63) \<le> ths_value s \<and> ths_value s < 2 ^ 63"
  shows "de_list (de_block f64) (JArray (map (block_value_json el rl) blocks)) = Some (map (seen_block f64 el rl) blocks)
    \<and> de_list de_transaction (JArray (map (transaction_value_json el) txs)) = Some (map (seen_transaction el) txs)
    \<and> de_list de_unspent (JArray (map (utxo_value_json el) utxos)) = Some (map (seen_utxo el) utxos)
    \<and> de_list de_outspend (JArray (map (spending_value_json el) spends)) = Some (map (seen_outspend el) spends)
    \<and> de_list de_summary (JArray (map (summary_json el) summaries)) = Some (map (seen_summary el) summaries)"
proof (intro conjI de_list_map)
  show "de_block f64 (block_value_json el rl v) = Some (seen_block f64 el rl v)" for v by (rule block_read [OF assms(1)])
  show "de_transaction (transaction_value_json el v) = Some (seen_transaction el v)" if "v \<in> set txs" for v
    using assms(2) that by (intro transaction_read) blast
  show "de_unspent (utxo_value_json el v) = Some (seen_utxo el v)" if "v \<in> set utxos" for v using assms(3) that by (intro utxo_read) blast
  show "de_outspend (spending_value_json el v) = Some (seen_outspend el v)" if "v \<in> set spends" for v
    using assms(4) that by (intro outspend_read) blast
  show "de_summary (summary_json el s) = Some (seen_summary el s)" if "s \<in> set summaries" for s
    using assms(5) that by (intro summary_read) blast+
qed

theorem client_reads_indexer_witness:
  "de_list de_outspend (JArray (map (spending_value_json demo_el)
       [\<lparr>sv_spent = True, sv_txid = Some (demo_hash 1), sv_vin = Some 7,
         sv_status = Some \<lparr>ts_confirmed = True, ts_block_height = Some 840000, ts_block_hash = None, ts_block_time = Some 5\<rparr>\<rparr>,
        spending_default])) =
     Some [\<lparr>wx_spent = True, wx_txid = Some (el_show_hash demo_el (demo_hash 1)), wx_vin = Some 7,
            wx_status = Some \<lparr>ws_confirmed = True, ws_block_height = Some 840000, ws_block_hash = None, ws_block_time = Some 5\<rparr>\<rparr>,
           \<lparr>wx_spent = False, wx_txid = None, wx_vin = None, wx_status = None\<rparr>]"
proof -
  let ?s = "[\<lparr>sv_spent = True, sv_txid = Some (demo_hash 1), sv_vin = Some 7,
         sv_status = Some \<lparr>ts_confirmed = True, ts_block_height = Some 840000, ts_block_hash = None, ts_block_time = Some 5\<rparr>\<rparr>,
        spending_default]"
  let ?rl = "\<lparr>rl_parse_hash = \<lambda>_. Err [], rl_decode_hex = \<lambda>_. None, rl_parse_address = \<lambda>_. None, rl_script_asm = \<lambda>_. [], rl_is_p2pk = \<lambda>_. False,
      rl_is_p2pkh = \<lambda>_. False, rl_total_size = \<lambda>_. 0, rl_merkleblock = \<lambda>_ _ _. [], rl_varint = \<lambda>_. [], rl_form_parse = \<lambda>_. [],
      rl_json_strings = \<lambda>_. Err [], rl_utf8 = \<lambda>_. None, rl_utf8_error = \<lambda>_. [], rl_debug_text = \<lambda>t. t, rl_f64 = \<lambda>n. n, rl_f64_times = (*),
      rl_f64_div = (div), rl_parse_f64 = \<lambda>_. None, rl_f64_json = jnat, rl_test_mempool_accept = \<lambda>_ _. Ok JNull,
      rl_submit_package = \<lambda>_ _ _. Ok JNull, rl_getblocktemplate = Ok JNull\<rparr> :: nat rest_lib"
  have f: "floats_numeric (rl_f64_json ?rl)" by (simp add: floats_numeric_def jnat_def)
  have h: "\<forall>sp\<in>set ?s. \<forall>st. sv_status sp = Some st \<longrightarrow> height_fits st" by (simp add: height_fits_def spending_default_def)
  show ?thesis
    using client_reads_indexer [OF f, of "[]" "[]" ?s "[]" "\<lambda>_. 0" demo_el "[]"] h
    by (simp add: seen_outspend_def seen_status_def spending_default_def)
qed

text \<open>The older parsers of pages of blocks refuse every page that holds the genesis block, whose previous hash is null;
  the newer ones read it.\<close>

definition block_text_of :: "('f, 'g) electrum_lib \<Rightarrow> 'g block_value \<Rightarrow> block_text" where
  "block_text_of el v =
     \<lparr>bt_id = el_show_hash el (bv_id v), bt_height = show_nat (unat (bv_height v)), bt_tx_count = show_nat (unat (bv_tx_count v)),
      bt_timestamp = show_nat (unat (bv_timestamp v)), bt_size = show_nat (unat (bv_size v)), bt_weight = show_nat (unat (bv_weight v)),
      bt_previous_hash = (case bv_previousblockhash v of Some h \<Rightarrow> el_show_hash el h | None \<Rightarrow> [])\<rparr>"

lemma block_text_read:
  "\<exists>raw. de_block_raw (block_value_json el rl v) = Some raw
    \<and> block_from_json raw = (if bv_previousblockhash v = None then Err (ParseError (lit ''missing previousblockhash'')) else Ok (block_text_of el v))"
  by (cases "bv_previousblockhash v")
     (auto simp: de_block_raw_def block_value_json_def block_from_json_def block_text_of_def reads)

lemma blocks_page_read:
  assumes "from_str body = Some (JArray (map (block_value_json el rl) page))" "floats_numeric (rl_f64_json rl)"
  shows "parse_blocks_body from_str body =
      (if \<exists>v\<in>set page. bv_previousblockhash v = None then Err (ParseError (lit ''missing previousblockhash''))
       else Ok (map (block_text_of el) page))"
    and "blocks_keeping_valid_elements from_str f64 body = Some (map (seen_block f64 el rl) page)"
proof -
  obtain raw where raw: "\<And>v. de_block_raw (block_value_json el rl v) = Some (raw v)"
      "\<And>v. block_from_json (raw v) = (if bv_previousblockhash v = None then Err (ParseError (lit ''missing previousblockhash'')) else Ok (block_text_of el v))"
    using block_text_read [of el rl] by metis
  have "collect_out block_from_json (map raw page) =
      (if \<exists>v\<in>set page. bv_previousblockhash v = None then Err (ParseError (lit ''missing previousblockhash'')) else Ok (map (block_text_of el) page))"
    by (induction page) (auto simp: raw(2))
  then show "parse_blocks_body from_str body =
      (if \<exists>v\<in>set page. bv_previousblockhash v = None then Err (ParseError (lit ''missing previousblockhash''))
       else Ok (map (block_text_of el) page))"
    using assms(1) de_list_map [of page de_block_raw "block_value_json el rl" raw] raw(1) by (simp add: parse_blocks_body_def serde_def)
  have "List.map_filter (de_block f64) (map (block_value_json el rl) page) = map (seen_block f64 el rl) page"
    using block_read [OF assms(2), of f64 el] by (induction page) (simp_all add: List.map_filter_simps)
  then show "blocks_keeping_valid_elements from_str f64 body = Some (map (seen_block f64 el rl) page)"
    using assms(1) by (simp add: blocks_keeping_valid_elements_def)
qed

section \<open>Hexadecimal bodies\<close>

lemma nibble_read: "n < 16 \<Longrightarrow> hex_nibble (word_of_nat (hex_digit n)) = Ok (word_of_nat n)"
proof -
  have "list_all (\<lambda>n. hex_nibble (word_of_nat (hex_digit n)) = Ok (word_of_nat n)) [0..<16]" by code_simp
  then show "n < 16 \<Longrightarrow> ?thesis" by (simp add: list_all_iff)
qed

lemma hex_digit_ascii: "n < 16 \<Longrightarrow> hex_digit n < 128 \<and> \<not> is_white (hex_digit n)"
  by (auto simp: hex_digit_def is_white_def)

lemma nibbles_join: "or (push_bit 4 (word_of_nat (unat b div 16))) (word_of_nat (unat b mod 16)) = (b :: byte)"
proof -
  have "word_of_nat (unat b div 16) = drop_bit 4 b" "word_of_nat (unat b mod 16) = take_bit 4 b"
  proof -
    have "unat (drop_bit 4 b) = unat b div 16" by (simp only: unat_drop_bit_eq) (simp add: drop_bit_eq_div)
    then show "word_of_nat (unat b div 16) = drop_bit 4 b" by (metis of_nat_unat ucast_id)
    have "unat (take_bit 4 b) = unat b mod 16" by (simp only: unsigned_take_bit_eq) (simp add: take_bit_eq_mod)
    then show "word_of_nat (unat b mod 16) = take_bit 4 b" by (metis of_nat_unat ucast_id)
  qed
  then show ?thesis by (auto intro!: bit_eqI simp: bit_simps)
qed

lemma hex_bytes: "utf8_encode (hex_encode bs) = concat (map (\<lambda>b. [word_of_nat (hex_digit (unat b div 16)), word_of_nat (hex_digit (unat b mod 16))]) bs)"
proof (induction bs)
  case (Cons b bs)
  have "unat b div 16 < 16" using unsigned_less [of b, where 'a = nat] by simp
  then show ?case using Cons hex_digit_ascii [of "unat b div 16"] hex_digit_ascii [of "unat b mod 16"] by (simp add: hex_encode_def utf8_encode_def)
qed (simp add: hex_encode_def utf8_encode_def)

lemma hex_length: "utf8_len (hex_encode bs) = 2 * length bs"
proof (induction bs)
  case (Cons b bs)
  have "unat b div 16 < 16" using unsigned_less [of b, where 'a = nat] by simp
  then show ?case using Cons hex_digit_ascii [of "unat b div 16"] hex_digit_ascii [of "unat b mod 16"] by (simp add: hex_encode_def utf8_len_def)
qed (simp add: hex_encode_def utf8_len_def)

text \<open>The bytes the indexer writes as hexadecimal are read back.\<close>

lemma hex_body_read: "decode_hex (hex_encode bs) = Ok bs"
proof -
  have "hex_pairs (concat (map (\<lambda>b. [word_of_nat (hex_digit (unat b div 16)), word_of_nat (hex_digit (unat b mod 16))]) bs)) = Ok bs"
  proof (induction bs)
    case (Cons b bs)
    have "unat b div 16 < 16" using unsigned_less [of b, where 'a = nat] by simp
    then show ?case using Cons by (simp add: nibble_read nibbles_join)
  qed simp
  then show ?thesis by (simp add: decode_hex_def hex_length hex_bytes)
qed

lemma header_body_read:
  assumes "bs \<noteq> []"
  shows "parse_block_header_bytes (hex_encode bs) = Ok bs" "parse_merkleblock_proof_bytes (hex_encode bs) = Ok bs"
proof -
  have "\<not> is_white c" if c: "c \<in> set (hex_encode bs)" for c
  proof -
    have "\<exists>b\<in>set bs. c = hex_digit (unat b div 16) \<or> c = hex_digit (unat b mod 16)" using c by (auto simp: hex_encode_def)
    then obtain b :: byte where "c = hex_digit (unat b div 16) \<or> c = hex_digit (unat b mod 16)" by blast
    moreover have "unat b div 16 < 16" using unsigned_less [of b, where 'a = nat] by simp
    ultimately show ?thesis using hex_digit_ascii [of "unat b div 16"] hex_digit_ascii [of "unat b mod 16"] by auto
  qed
  then have "trim (hex_encode bs) = hex_encode bs" by (intro trimmed_no_white) blast
  moreover have "hex_encode bs \<noteq> []" using assms by (cases bs) (simp_all add: hex_encode_def)
  ultimately show "parse_block_header_bytes (hex_encode bs) = Ok bs" "parse_merkleblock_proof_bytes (hex_encode bs) = Ok bs"
    by (simp_all add: parse_block_header_bytes_def parse_block_header_def parse_merkleblock_proof_bytes_def parse_merkleblock_proof_def
        hex_text_def nonempty_text_def hex_body_read)
qed

end
