(* ===== verification/Calculator.thy ===== *)
theory Calculator
  imports Text_Json
begin

text \<open>
  The amounts the clients show (\<^verbatim>\<open>frontend/shared/src/calculator.rs\<close>, \<^verbatim>\<open>frontend/shared/src/fiat.rs\<close>): conversion between the
  text of an amount and integer satoshis, rounding on the text, the supply cap, and fixed-rate conversion with the
  checked and saturating arithmetic of the code.
\<close>

section \<open>Satoshis\<close>

definition SATS_PER_BTC :: nat where
  "SATS_PER_BTC = 100000000"

definition BTC_SUPPLY_CAP :: nat where
  "BTC_SUPPLY_CAP = 21000000"

definition is_ascii_digit :: "nat \<Rightarrow> bool" where
  "is_ascii_digit c \<longleftrightarrow> 48 \<le> c \<and> c \<le> 57"

text \<open>\<open>checked_add\<close> and \<open>checked_mul\<close> of an unsigned integer of \<open>w\<close> bits.\<close>

definition checked :: "nat \<Rightarrow> nat \<Rightarrow> nat option" where
  "checked w n = (if n < 2 ^ w then Some n else None)"

fun digits_loop :: "nat \<Rightarrow> nat \<Rightarrow> utext \<Rightarrow> nat option" where
  "digits_loop w n [] = Some n"
| "digits_loop w n (c # cs) =
     (if \<not> is_ascii_digit c then None
      else Option.bind (checked w (n * 10)) (\<lambda>m. Option.bind (checked w (m + (c - 48))) (\<lambda>m. digits_loop w m cs)))"

definition calc_parse_digits :: "utext \<Rightarrow> nat option" where
  "calc_parse_digits digits = (if digits = [] then None else digits_loop 64 0 digits)"

definition split_once :: "nat \<Rightarrow> utext \<Rightarrow> (utext \<times> utext) option" where
  "split_once c s = (if c \<in> set s then Some (takeWhile (\<lambda>x. x \<noteq> c) s, tl (dropWhile (\<lambda>x. x \<noteq> c) s)) else None)"

definition split_decimal :: "utext \<Rightarrow> utext \<times> utext" where
  "split_decimal s = (case split_once 46 s of Some p \<Rightarrow> p | None \<Rightarrow> (s, []))"

definition frac_as_sats :: "utext \<Rightarrow> nat option" where
  "frac_as_sats frac =
     (if \<exists>c\<in>set frac. \<not> is_ascii_digit c then None
      else (let digits = take 8 frac in calc_parse_digits (digits @ replicate (8 - length digits) 48)))"

definition btc_to_sats :: "utext \<Rightarrow> nat option" where
  "btc_to_sats btc =
     (let btc = trim btc in
      if btc = [] \<or> starts_with btc (lit ''+'') \<or> starts_with btc (lit ''-'') then None
      else
        (case split_decimal btc of
           (whole, frac) \<Rightarrow>
             if whole = [] \<and> frac = [] then None
             else
               Option.bind (calc_parse_digits (if whole = [] then lit ''0'' else whole)) (\<lambda>whole_n.
               Option.bind (frac_as_sats frac) (\<lambda>frac_n.
               Option.bind (checked 64 (whole_n * SATS_PER_BTC)) (\<lambda>whole_sats.
               checked 64 (whole_sats + frac_n))))))"

text \<open>\<open>{:0k}\<close>.\<close>

definition show_padded :: "nat \<Rightarrow> nat \<Rightarrow> utext" where
  "show_padded k n = replicate (k - length (show_nat n)) 48 @ show_nat n"

definition sats_to_btc :: "nat \<Rightarrow> utext" where
  "sats_to_btc sats = show_nat (sats div SATS_PER_BTC) @ lit ''.'' @ show_padded 8 (sats mod SATS_PER_BTC)"

definition truncate_btc_decimals :: "utext \<Rightarrow> utext" where
  "truncate_btc_decimals input =
     (case split_once 46 input of None \<Rightarrow> input | Some (whole, frac) \<Rightarrow> whole @ lit ''.'' @ take 8 frac)"

definition strip_sats_decimal :: "utext \<Rightarrow> utext" where
  "strip_sats_decimal input = filter (\<lambda>c. c \<noteq> 46) input"

text \<open>The carry, from the last digit to the first; \<open>None\<close> when it meets a character that is no digit.\<close>

fun carry :: "utext \<Rightarrow> utext option" where
  "carry [] = Some [49]"
| "carry (d # ds) =
     (if d = 57 then map_option (Cons 48) (carry ds)
      else if is_ascii_digit d then Some ((d + 1) # ds)
      else None)"

definition strips_decimals_from_satoshis_input :: "utext \<Rightarrow> utext" where
  "strips_decimals_from_satoshis_input input =
     (case split_once 46 input of
        None \<Rightarrow> input
      | Some (whole, frac) \<Rightarrow>
          let whole_digits = (if whole = [] then lit ''0'' else whole);
              round_up = (case frac of c # _ \<Rightarrow> 53 \<le> c \<and> c \<le> 57 | [] \<Rightarrow> False)
          in if \<not> round_up then whole_digits
             else (case carry (rev whole_digits) of Some ds \<Rightarrow> rev ds | None \<Rightarrow> whole_digits))"

section \<open>The supply cap\<close>

record capped_btc =
  cb_btc :: utext
  cb_capped :: bool

fun bytes_ge :: "utext \<Rightarrow> utext \<Rightarrow> bool" where
  "bytes_ge [] (_ # _) = False"
| "bytes_ge _ [] = True"
| "bytes_ge (a # as) (b # bs) = (b < a \<or> a = b \<and> bytes_ge as bs)"

definition reaches_cap :: "utext \<Rightarrow> bool" where
  "reaches_cap btc =
     (case split_decimal btc of
        (whole, frac) \<Rightarrow>
          if (\<exists>c\<in>set whole. \<not> is_ascii_digit c) \<or> (\<exists>c\<in>set frac. \<not> is_ascii_digit c) then False
          else
            (let whole = dropWhile (\<lambda>c. c = 48) whole in
             if whole = [] then False
             else if 8 < length whole then True
             else if length whole < 8 then False
             else bytes_ge whole (lit ''21000000'')))"

definition cap_btc_supply :: "utext \<Rightarrow> capped_btc" where
  "cap_btc_supply btc =
     (if reaches_cap btc then \<lparr>cb_btc = show_nat BTC_SUPPLY_CAP, cb_capped = True\<rparr> else \<lparr>cb_btc = btc, cb_capped = False\<rparr>)"

definition MAX_SUPPLY_WARNING :: utext where
  "MAX_SUPPLY_WARNING = lit ''Values were capped at the max supply of 21M BTC''"

record max_supply_entry =
  ms_warning :: utext
  ms_bitcoin :: utext
  ms_satoshis :: utext

definition shows_warning_when_entering_21m_btc :: "utext \<Rightarrow> max_supply_entry" where
  "shows_warning_when_entering_21m_btc typed =
     (let capped = cap_btc_supply typed;
          sat_cap = min (BTC_SUPPLY_CAP * SATS_PER_BTC) (2 ^ 64 - 1);
          sats = min (case btc_to_sats (cb_btc capped) of Some n \<Rightarrow> n | None \<Rightarrow> 0) sat_cap
      in \<lparr>ms_warning = (if cb_capped capped then MAX_SUPPLY_WARNING else []), ms_bitcoin = cb_btc capped, ms_satoshis = show_nat sats\<rparr>)"

section \<open>Fixed rates\<close>

definition FIXTURE_USD_PER_BTC :: nat where
  "FIXTURE_USD_PER_BTC = 123456"

definition FIXTURE_JPY_PER_BTC :: nat where
  "FIXTURE_JPY_PER_BTC = 11057757"

definition saturate128 :: "nat \<Rightarrow> nat" where
  "saturate128 n = min n (2 ^ 128 - 1)"

definition div_round_half_up :: "nat \<Rightarrow> nat \<Rightarrow> nat" where
  "div_round_half_up numer denom =
     (if denom \<le> saturate128 (numer mod denom * 2) then saturate128 (numer div denom + 1) else numer div denom)"

definition parse_decimal_units :: "utext \<Rightarrow> (nat \<times> nat) option" where
  "parse_decimal_units amount =
     (let amount = trim amount in
      if amount = [] \<or> starts_with amount (lit ''+'') \<or> starts_with amount (lit ''-'') then None
      else
        (case split_decimal amount of
           (whole, frac) \<Rightarrow>
             if whole = [] \<and> frac = [] then None
             else if (\<exists>c\<in>set whole. \<not> is_ascii_digit c) \<or> (\<exists>c\<in>set frac. \<not> is_ascii_digit c) then None
             else if 18 < length frac then None
             else Option.bind (if whole = [] then Some 0 else digits_loop 128 0 whole) (\<lambda>numer.
                  Option.bind (digits_loop 128 numer frac) (\<lambda>numer. Some (numer, length frac)))))"

record btc_quote =
  bq_numerator :: nat
  bq_denominator :: nat
  bq_sats :: nat

definition fiat_to_btc_and_sats :: "nat \<Rightarrow> utext \<Rightarrow> btc_quote option" where
  "fiat_to_btc_and_sats rate amount =
     Option.bind (parse_decimal_units amount) (\<lambda>(numerator, frac_len).
     Option.bind (checked 128 (10 ^ frac_len)) (\<lambda>scale.
     Option.bind (checked 128 (rate * scale)) (\<lambda>denominator.
     Option.bind (checked 128 (numerator * SATS_PER_BTC)) (\<lambda>sats_numer.
     Option.bind (checked 64 (div_round_half_up sats_numer denominator)) (\<lambda>sats.
     Some \<lparr>bq_numerator = numerator, bq_denominator = denominator, bq_sats = sats\<rparr>)))))"

definition usd_to_btc_and_sats :: "utext \<Rightarrow> btc_quote option" where
  "usd_to_btc_and_sats amount = fiat_to_btc_and_sats FIXTURE_USD_PER_BTC amount"

definition jpy_to_btc_and_sats :: "utext \<Rightarrow> btc_quote option" where
  "jpy_to_btc_and_sats amount = fiat_to_btc_and_sats FIXTURE_JPY_PER_BTC amount"

definition sats_to_usd_cents :: "nat \<Rightarrow> nat" where
  "sats_to_usd_cents sats = div_round_half_up (sats * FIXTURE_USD_PER_BTC) 1000000"

definition sats_to_yen :: "nat \<Rightarrow> nat" where
  "sats_to_yen sats = div_round_half_up (sats * FIXTURE_JPY_PER_BTC) SATS_PER_BTC"

definition group_thousands :: "utext \<Rightarrow> utext" where
  "group_thousands digits =
     concat (map (\<lambda>(i, c). if 0 < i \<and> (length digits - i) mod 3 = 0 then [44, c] else [c]) (enumerate 0 digits))"

definition format_usd_cents :: "nat \<Rightarrow> utext" where
  "format_usd_cents cents = lit ''$'' @ group_thousands (show_nat (cents div 100)) @ lit ''.'' @ show_padded 2 (cents mod 100)"

definition format_jpy_yen :: "nat \<Rightarrow> utext" where
  "format_jpy_yen yen = [165] @ group_thousands (show_nat yen)"

definition sats_fiat_usd :: "nat \<Rightarrow> utext" where
  "sats_fiat_usd sats = format_usd_cents (sats_to_usd_cents sats)"

definition sats_fiat_jpy :: "nat \<Rightarrow> utext" where
  "sats_fiat_jpy sats = format_jpy_yen (sats_to_yen sats)"

definition btc_fiat_usd :: "utext \<Rightarrow> utext" where
  "btc_fiat_usd btc = sats_fiat_usd (case btc_to_sats btc of Some n \<Rightarrow> n | None \<Rightarrow> 0)"

definition btc_fiat_jpy :: "utext \<Rightarrow> utext" where
  "btc_fiat_jpy btc = format_jpy_yen (sats_to_yen (case btc_to_sats btc of Some n \<Rightarrow> n | None \<Rightarrow> 0))"

definition jpy_calculator_fiat_digits :: "utext \<Rightarrow> utext \<Rightarrow> utext option" where
  "jpy_calculator_fiat_digits bitcoin fiat_per_btc =
     Option.bind (parse_decimal_units bitcoin) (\<lambda>(btc_numer, btc_scale).
     Option.bind (parse_decimal_units fiat_per_btc) (\<lambda>(rate_numer, rate_scale).
     Option.bind (checked 128 (btc_numer * rate_numer)) (\<lambda>numer.
     Option.bind (checked 32 (btc_scale + rate_scale)) (\<lambda>scale.
     Option.bind
       (if 8 < scale then map_option (\<lambda>d. (div_round_half_up numer d, 8)) (checked 128 (10 ^ (scale - 8))) else Some (numer, scale))
       (\<lambda>(numer, scale).
     Option.bind (checked 128 (10 ^ scale)) (\<lambda>unit. Some (show_nat (div_round_half_up numer unit))))))))"

text \<open>Amounts with a currency sign.\<close>

datatype fiat_code = Usd | Jpy

definition normalize_whole :: "utext \<Rightarrow> utext" where
  "normalize_whole digits = (let trimmed = dropWhile (\<lambda>c. c = 48) digits in if trimmed = [] then lit ''0'' else trimmed)"

definition split_amount :: "utext \<Rightarrow> utext \<times> utext" where
  "split_amount amount =
     (case split_decimal (trim amount) of
        (whole, frac) \<Rightarrow> (normalize_whole (filter is_ascii_digit whole), filter is_ascii_digit frac))"

definition usd_cents :: "utext \<Rightarrow> nat" where
  "usd_cents frac =
     (let digits = take 2 frac in
      if digits = [] then 0
      else foldl (\<lambda>n c. n * 10 + (if is_ascii_digit c then c - 48 else 0)) 0 (if length digits = 1 then digits @ [48] else digits))"

definition format_fiat :: "fiat_code \<Rightarrow> utext \<Rightarrow> utext" where
  "format_fiat code amount =
     (case split_amount amount of
        (whole, frac) \<Rightarrow>
          (case code of
             Usd \<Rightarrow>
               (let cents = usd_cents frac in
                if cents = 0 then lit ''$'' @ whole else lit ''$'' @ whole @ lit ''.'' @ show_padded 2 cents)
           | Jpy \<Rightarrow> [165] @ whole))"

definition switch_usd_jpy_usd :: "utext \<Rightarrow> utext list" where
  "switch_usd_jpy_usd amount = [format_fiat Usd amount, format_fiat Jpy amount, format_fiat Usd amount]"

definition displays_jpy_price_without_decimals :: "utext \<Rightarrow> utext \<Rightarrow> utext \<times> utext" where
  "displays_jpy_price_without_decimals bitcoin fiat_per_btc =
     ([165], case jpy_calculator_fiat_digits bitcoin fiat_per_btc of Some fiat \<Rightarrow> fiat | None \<Rightarrow> lit ''0'')"

section \<open>The number a text of digits stands for\<close>

definition digits_value :: "nat \<Rightarrow> utext \<Rightarrow> nat" where
  "digits_value n cs = foldl (\<lambda>n c. n * 10 + (c - 48)) n cs"

abbreviation all_digits :: "utext \<Rightarrow> bool" where
  "all_digits cs \<equiv> \<forall>c\<in>set cs. is_ascii_digit c"

lemma digits_value_simps [simp]:
  "digits_value n [] = n"
  "digits_value n (c # cs) = digits_value (n * 10 + (c - 48)) cs"
  "digits_value n (cs @ ds) = digits_value (digits_value n cs) ds"
  by (simp_all add: digits_value_def)

lemma digits_value_linear: "digits_value n cs = n * 10 ^ length cs + digits_value 0 cs"
proof (induction cs arbitrary: n)
  case (Cons c cs)
  show ?case using Cons [of "n * 10 + (c - 48)"] Cons [of "c - 48"] by (simp add: algebra_simps)
qed simp

lemma digits_value_ge: "n \<le> digits_value n cs"
  using digits_value_linear [of n cs] by (metis le_add1 mult.commute mult_le_mono1 nat_mult_1 one_le_numeral one_le_power order_trans)

lemma digits_value_bound: "all_digits cs \<Longrightarrow> digits_value 0 cs < 10 ^ length cs"
proof (induction cs rule: rev_induct)
  case (snoc c cs)
  then have "digits_value 0 cs + 1 \<le> 10 ^ length cs" "c - 48 \<le> 9" by (auto simp: is_ascii_digit_def)
  then have "digits_value 0 cs * 10 + (c - 48) < 10 * 10 ^ length cs" by linarith
  then show ?case by simp
qed simp

lemma digits_value_zeros [simp]: "digits_value 0 (replicate k 48) = 0"
  by (induction k) simp_all

lemma digits_loop_value:
  "n < 2 ^ w \<Longrightarrow> digits_loop w n cs = (if all_digits cs \<and> digits_value n cs < 2 ^ w then Some (digits_value n cs) else None)"
proof (induction cs arbitrary: n)
  case (Cons c cs)
  let ?m = "n * 10 + (c - 48)"
  have "?m \<le> digits_value ?m cs" by (rule digits_value_ge)
  then show ?case using Cons.IH [of ?m] by (auto simp: checked_def)
qed simp

lemma show_nat_value [simp]: "digits_value 0 (show_nat n) = n"
proof (induction n rule: show_nat.induct)
  case (1 n)
  then show ?case by (subst show_nat.simps) (simp add: mult.commute)
qed

lemma show_nat_all_digits: "all_digits (show_nat n)"
  using show_nat_digits by (auto simp: is_ascii_digit_def)

lemma show_nat_length: "n < 10 ^ k \<Longrightarrow> 0 < k \<Longrightarrow> length (show_nat n) \<le> k"
proof (induction n arbitrary: k rule: show_nat.induct)
  case (1 n)
  show ?case
  proof (cases "n < 10")
    case True
    then show ?thesis using 1(3) by (subst show_nat.simps) simp
  next
    case False
    obtain j where k: "k = Suc j" using 1(3) by (cases k) auto
    have "n div 10 < 10 ^ j" using 1(2) k by (simp add: less_mult_imp_div_less mult.commute)
    moreover have "0 < j" using 1(2) False k by (cases j) auto
    ultimately have "length (show_nat (n div 10)) \<le> j" using 1(1) False by blast
    then show ?thesis using False k by (subst show_nat.simps) simp
  qed
qed

section \<open>Conversion\<close>

text \<open>A decimal with a digit on one side at least and none but digits: what \<open>btc_to_sats\<close> reads from it.\<close>

definition sats_of :: "utext \<Rightarrow> utext \<Rightarrow> nat" where
  "sats_of whole frac = digits_value 0 whole * SATS_PER_BTC + digits_value 0 (take 8 frac @ replicate (8 - length frac) 48)"

lemma digit_not_dot: "all_digits cs \<Longrightarrow> 46 \<notin> set cs"
  by (auto simp: is_ascii_digit_def)

lemma split_decimal_dot: "all_digits whole \<Longrightarrow> split_decimal (whole @ 46 # frac) = (whole, frac)"
proof -
  assume "all_digits whole"
  then have d: "\<forall>c\<in>set whole. c \<noteq> 46" using digit_not_dot by blast
  then have "takeWhile (\<lambda>x. x \<noteq> 46) (whole @ 46 # frac) = whole" "dropWhile (\<lambda>x. x \<noteq> 46) (whole @ 46 # frac) = 46 # frac"
    by (simp_all add: takeWhile_append2 dropWhile_append2)
  then show ?thesis by (simp add: split_decimal_def split_once_def)
qed

lemma frac_as_sats_value:
  assumes "all_digits frac"
  shows "frac_as_sats frac = Some (digits_value 0 (take 8 frac @ replicate (8 - length frac) 48))"
proof -
  let ?d = "take 8 frac @ replicate (8 - length frac) 48"
  have d: "all_digits ?d" using assms in_set_takeD [of _ 8 frac] by (auto simp: is_ascii_digit_def)
  have l: "length ?d = 8" by simp
  have "digits_value 0 ?d < 10 ^ 8" using digits_value_bound [OF d] l by metis
  then have v: "digits_value 0 ?d < 2 ^ 64" by simp
  have ne: "?d \<noteq> []" using l by force
  have r: "8 - min (length frac) 8 = 8 - length frac" by simp
  have "calc_parse_digits ?d = Some (digits_value 0 ?d)"
    unfolding calc_parse_digits_def using ne d v digits_loop_value [of 0 64 ?d] by simp
  then show ?thesis using assms by (auto simp: frac_as_sats_def Let_def r)
qed

lemma btc_to_sats_split:
  assumes "all_digits whole" "all_digits frac" "whole \<noteq> [] \<or> frac \<noteq> []"
    and "split_decimal (trim t) = (whole, frac)" "trim t = whole \<or> trim t = whole @ 46 # frac"
  shows "btc_to_sats t = (if sats_of whole frac < 2 ^ 64 then Some (sats_of whole frac) else None)"
proof -
  let ?w = "if whole = [] then lit ''0'' else whole"
  have dot: "split_decimal [] = ([], [])" by (simp add: split_decimal_def split_once_def)
  then have n: "trim t \<noteq> []" using assms(3,4) by auto
  have s: "\<not> starts_with (trim t) (lit ''+'')" "\<not> starts_with (trim t) (lit ''-'')"
    using assms(1,5) n by (cases whole; auto simp: starts_with_iff lit_def is_ascii_digit_def)+
  have w: "all_digits ?w" "?w \<noteq> []" "digits_value 0 ?w = digits_value 0 whole"
    using assms(1) by (auto simp: lit_def is_ascii_digit_def)
  have p: "calc_parse_digits ?w = (if digits_value 0 whole < 2 ^ 64 then Some (digits_value 0 whole) else None)"
    unfolding calc_parse_digits_def using w digits_loop_value [of 0 64 ?w] by simp
  show ?thesis
    using assms(3) n p frac_as_sats_value [OF assms(2)]
    by (simp only: btc_to_sats_def Let_def s assms(4)) (auto simp: checked_def sats_of_def SATS_PER_BTC_def)
qed

lemma btc_to_sats_decimal:
  assumes "all_digits whole" "all_digits frac" "whole \<noteq> [] \<or> frac \<noteq> []"
  shows "btc_to_sats (whole @ 46 # frac) = (if sats_of whole frac < 2 ^ 64 then Some (sats_of whole frac) else None)"
proof -
  have "\<forall>c\<in>set (whole @ 46 # frac). \<not> is_white c" using assms(1,2) by (auto simp: is_white_def is_ascii_digit_def)
  then have t: "trim (whole @ 46 # frac) = whole @ 46 # frac" by (rule trimmed_no_white)
  show ?thesis by (rule btc_to_sats_split [OF assms]) (simp_all add: t split_decimal_dot [OF assms(1)])
qed

lemma btc_to_sats_whole:
  assumes "all_digits whole" "whole \<noteq> []" "trim t = whole"
  shows "btc_to_sats t = (if sats_of whole [] < 2 ^ 64 then Some (sats_of whole []) else None)"
  using btc_to_sats_split [of whole "[]" t] assms digit_not_dot [OF assms(1)] by (simp add: split_decimal_def split_once_def)

lemma sats_to_btc_decimal:
  "sats_of (show_nat (s div SATS_PER_BTC)) (show_padded 8 (s mod SATS_PER_BTC)) = s"
  "all_digits (show_padded 8 (s mod SATS_PER_BTC))"
proof -
  have "s mod SATS_PER_BTC < 10 ^ 8" by (simp add: SATS_PER_BTC_def)
  then have l: "length (show_padded 8 (s mod SATS_PER_BTC)) = 8"
    using show_nat_length [of "s mod SATS_PER_BTC" 8] by (simp add: show_padded_def)
  have "digits_value 0 (show_padded 8 (s mod SATS_PER_BTC)) = s mod SATS_PER_BTC" by (simp add: show_padded_def)
  then show "sats_of (show_nat (s div SATS_PER_BTC)) (show_padded 8 (s mod SATS_PER_BTC)) = s"
    using l by (simp add: sats_of_def)
  show "all_digits (show_padded 8 (s mod SATS_PER_BTC))"
    using show_nat_all_digits [of "s mod SATS_PER_BTC"] by (auto simp: show_padded_def is_ascii_digit_def)
qed

lemma btc_to_sats_of_btc: "s < 2 ^ 64 \<Longrightarrow> btc_to_sats (sats_to_btc s) = Some s"
  using btc_to_sats_decimal [OF show_nat_all_digits sats_to_btc_decimal(2), of "s div SATS_PER_BTC" s] sats_to_btc_decimal(1) [of s]
  by (simp add: sats_to_btc_def lit_def)

section \<open>The cap\<close>

lemma digits_value_strip: "digits_value 0 (dropWhile (\<lambda>c. c = 48) cs) = digits_value 0 cs"
  by (induction cs) auto

lemma bytes_ge_value:
  "length a = length b \<Longrightarrow> all_digits a \<Longrightarrow> all_digits b \<Longrightarrow> bytes_ge a b \<longleftrightarrow> digits_value 0 b \<le> digits_value 0 a"
proof (induction a b rule: list_induct2)
  case (Cons x xs y ys)
  let ?k = "10 ^ length xs :: nat"
  have v: "digits_value 0 (x # xs) = (x - 48) * ?k + digits_value 0 xs" "digits_value 0 (y # ys) = (y - 48) * ?k + digits_value 0 ys"
    using digits_value_linear [of "x - 48" xs] digits_value_linear [of "y - 48" ys] Cons(1) by simp_all
  have b: "digits_value 0 xs < ?k" "digits_value 0 ys < ?k"
    using digits_value_bound [of xs] digits_value_bound [of ys] Cons by simp_all
  have xy: "48 \<le> x" "48 \<le> y" using Cons.prems by (simp_all add: is_ascii_digit_def)
  consider "x = y" | "y < x" | "x < y" by linarith
  then show ?case
  proof cases
    case 1
    then show ?thesis using Cons v by simp
  next
    case 2
    then have "Suc (y - 48) * ?k \<le> (x - 48) * ?k" using xy by (intro mult_le_mono1) simp
    then have "(y - 48) * ?k + ?k \<le> (x - 48) * ?k" by simp
    then show ?thesis using 2 v b by simp
  next
    case 3
    then have "Suc (x - 48) * ?k \<le> (y - 48) * ?k" using xy by (intro mult_le_mono1) simp
    then have "(x - 48) * ?k + ?k \<le> (y - 48) * ?k" by simp
    then show ?thesis using 3 v b by simp
  qed
qed simp

lemma reaches_cap_value:
  assumes "all_digits whole" "all_digits frac"
  shows "reaches_cap (whole @ 46 # frac) \<longleftrightarrow> BTC_SUPPLY_CAP \<le> digits_value 0 whole"
proof -
  let ?w = "dropWhile (\<lambda>c. c = 48) whole"
  have d: "all_digits ?w" using assms(1) by (blast dest: set_dropWhileD)
  have v: "digits_value 0 ?w = digits_value 0 whole" by (rule digits_value_strip)
  have u: "digits_value 0 whole < 10 ^ length ?w" using digits_value_bound [OF d] v by simp
  have l: "10 ^ (length ?w - 1) \<le> digits_value 0 whole" if "?w \<noteq> []"
  proof -
    obtain x xs where w: "?w = x # xs" using \<open>?w \<noteq> []\<close> by (cases ?w) auto
    then have "x \<noteq> 48" using hd_dropWhile [of "\<lambda>c. c = 48" whole] by auto
    moreover have "48 \<le> x" using d w by (simp add: is_ascii_digit_def)
    ultimately have "1 \<le> x - 48" by simp
    then have a: "10 ^ length xs \<le> (x - 48) * 10 ^ length xs" by simp
    have "digits_value 0 whole = (x - 48) * 10 ^ length xs + digits_value 0 xs"
      using digits_value_linear [of "x - 48" xs] w v by simp
    then have "10 ^ length xs \<le> digits_value 0 whole" using a by linarith
    then show ?thesis by (simp add: w)
  qed
  have cap: "digits_value 0 (lit ''21000000'') = BTC_SUPPLY_CAP" "all_digits (lit ''21000000'')" "length (lit ''21000000'') = 8"
    by (simp_all add: lit_def BTC_SUPPLY_CAP_def is_ascii_digit_def)
  have e: "reaches_cap (whole @ 46 # frac) \<longleftrightarrow>
      ?w \<noteq> [] \<and> (8 < length ?w \<or> length ?w = 8 \<and> bytes_ge ?w (lit ''21000000''))"
    using assms by (auto simp: reaches_cap_def split_decimal_dot Let_def)
  consider "length ?w < 8" | "length ?w = 8" | "8 < length ?w" by linarith
  then show ?thesis
  proof cases
    case 1
    then have "(10::nat) ^ length ?w \<le> 10 ^ 7" by (intro power_increasing) auto
    then show ?thesis using 1 e u by (simp add: BTC_SUPPLY_CAP_def)
  next
    case 2
    then have "?w \<noteq> []" by (metis list.size(3) zero_neq_numeral)
    then have "reaches_cap (whole @ 46 # frac) \<longleftrightarrow> bytes_ge ?w (lit ''21000000'')" using 2 e by simp
    then show ?thesis using 2 bytes_ge_value [of ?w "lit ''21000000''"] d cap v by simp
  next
    case 3
    then have "(10::nat) ^ 8 \<le> 10 ^ (length ?w - 1)" by (intro power_increasing) auto
    moreover have n: "?w \<noteq> []" using 3 by (metis list.size(3) not_less_zero)
    ultimately have "10 ^ 8 \<le> digits_value 0 whole" using l by linarith
    then have "BTC_SUPPLY_CAP \<le> digits_value 0 whole" by (simp add: BTC_SUPPLY_CAP_def)
    moreover have "reaches_cap (whole @ 46 # frac)" using 3 e n by simp
    ultimately show ?thesis by simp
  qed
qed

lemma sats_of_cap: "all_digits frac \<Longrightarrow> digits_value 0 whole < BTC_SUPPLY_CAP \<Longrightarrow> sats_of whole frac < BTC_SUPPLY_CAP * SATS_PER_BTC"
proof -
  assume a: "all_digits frac" "digits_value 0 whole < BTC_SUPPLY_CAP"
  let ?d = "take 8 frac @ replicate (8 - length frac) 48"
  have "all_digits ?d" using a(1) in_set_takeD [of _ 8 frac] by (auto simp: is_ascii_digit_def)
  moreover have "length ?d = 8" by simp
  ultimately have "digits_value 0 ?d < 10 ^ 8" using digits_value_bound [of ?d] by metis
  then have "digits_value 0 ?d < SATS_PER_BTC" by (simp add: SATS_PER_BTC_def)
  moreover have "(digits_value 0 whole + 1) * SATS_PER_BTC \<le> BTC_SUPPLY_CAP * SATS_PER_BTC"
    using a(2) by (intro mult_le_mono1) simp
  ultimately show ?thesis by (simp add: sats_of_def)
qed

lemma show_cap: "show_nat BTC_SUPPLY_CAP = lit ''21000000''"
  by (simp add: BTC_SUPPLY_CAP_def show_nat.simps lit_def)

lemma btc_to_sats_cap: "btc_to_sats (lit ''21000000'') = Some (BTC_SUPPLY_CAP * SATS_PER_BTC)"
proof -
  have d: "all_digits (lit ''21000000'')" "lit ''21000000'' \<noteq> []" by (simp_all add: lit_def is_ascii_digit_def)
  have "trim (lit ''21000000'') = lit ''21000000''" by (rule trimmed_no_white) (simp add: lit_def is_white_def)
  moreover have "sats_of (lit ''21000000'') [] = 2100000000000000" by (simp add: sats_of_def lit_def SATS_PER_BTC_def)
  ultimately show ?thesis using btc_to_sats_whole [OF d] by (simp add: BTC_SUPPLY_CAP_def SATS_PER_BTC_def)
qed

text \<open>A typed decimal is shown with the exact number of its satoshis, digits past the eighth dropped, and the warning
  and the cap replace it exactly when its whole part reaches 21 million bitcoin; and the text of any 64-bit number of
  satoshis is read back as that number.\<close>

theorem typed_amount_shown:
  assumes "all_digits whole" "all_digits frac" "whole \<noteq> [] \<or> frac \<noteq> []" "s < 2 ^ 64"
  shows "shows_warning_when_entering_21m_btc (whole @ lit ''.'' @ frac) =
      (if BTC_SUPPLY_CAP \<le> digits_value 0 whole
       then \<lparr>ms_warning = MAX_SUPPLY_WARNING, ms_bitcoin = lit ''21000000'', ms_satoshis = lit ''2100000000000000''\<rparr>
       else \<lparr>ms_warning = [], ms_bitcoin = whole @ lit ''.'' @ frac, ms_satoshis = show_nat (sats_of whole frac)\<rparr>)
    \<and> btc_to_sats (sats_to_btc s) = Some s"
proof -
  have dot: "whole @ lit ''.'' @ frac = whole @ 46 # frac" by (simp add: lit_def)
  have shown: "show_nat (BTC_SUPPLY_CAP * SATS_PER_BTC) = lit ''2100000000000000''"
    by (simp add: BTC_SUPPLY_CAP_def SATS_PER_BTC_def show_nat.simps lit_def)
  have small: "min (BTC_SUPPLY_CAP * SATS_PER_BTC) 18446744073709551615 = BTC_SUPPLY_CAP * SATS_PER_BTC" "BTC_SUPPLY_CAP * SATS_PER_BTC < 2 ^ 64"
    by (simp_all add: BTC_SUPPLY_CAP_def SATS_PER_BTC_def)
  have "shows_warning_when_entering_21m_btc (whole @ 46 # frac) =
      (if BTC_SUPPLY_CAP \<le> digits_value 0 whole
       then \<lparr>ms_warning = MAX_SUPPLY_WARNING, ms_bitcoin = lit ''21000000'', ms_satoshis = lit ''2100000000000000''\<rparr>
       else \<lparr>ms_warning = [], ms_bitcoin = whole @ 46 # frac, ms_satoshis = show_nat (sats_of whole frac)\<rparr>)"
  proof (cases "BTC_SUPPLY_CAP \<le> digits_value 0 whole")
    case True
    then show ?thesis
      using reaches_cap_value [OF assms(1,2)] shown
      by (simp add: shows_warning_when_entering_21m_btc_def cap_btc_supply_def show_cap btc_to_sats_cap small Let_def)
  next
    case False
    then have l: "sats_of whole frac < BTC_SUPPLY_CAP * SATS_PER_BTC" using sats_of_cap [OF assms(2)] by simp
    then have "btc_to_sats (whole @ 46 # frac) = Some (sats_of whole frac)"
      using btc_to_sats_decimal [OF assms(1-3)] small(2) by simp
    then show ?thesis
      using reaches_cap_value [OF assms(1,2)] False l
      by (simp add: shows_warning_when_entering_21m_btc_def cap_btc_supply_def small(1) Let_def)
  qed
  then show ?thesis using btc_to_sats_of_btc [OF assms(4)] dot by simp
qed

theorem typed_amount_shown_witness:
  "shows_warning_when_entering_21m_btc (lit ''20999999'' @ lit ''.'' @ lit ''999999995'') =
     \<lparr>ms_warning = [], ms_bitcoin = lit ''20999999.999999995'', ms_satoshis = lit ''2099999999999999''\<rparr>
   \<and> btc_to_sats (sats_to_btc 1) = Some 1"
proof -
  have d: "all_digits (lit ''20999999'')" "all_digits (lit ''999999995'')" "lit ''20999999'' \<noteq> [] \<or> lit ''999999995'' \<noteq> []" "(1::nat) < 2 ^ 64"
    by (simp_all add: lit_def is_ascii_digit_def)
  have v: "digits_value 0 (lit ''20999999'') = 20999999" "sats_of (lit ''20999999'') (lit ''999999995'') = 2099999999999999"
    by (simp_all add: lit_def sats_of_def SATS_PER_BTC_def)
  have "show_nat 2099999999999999 = lit ''2099999999999999''" by (simp add: show_nat.simps lit_def)
  moreover have "lit ''20999999'' @ lit ''.'' @ lit ''999999995'' = lit ''20999999.999999995''" by (simp add: lit_def)
  ultimately show ?thesis using typed_amount_shown [OF d] v by (simp add: BTC_SUPPLY_CAP_def)
qed

section \<open>Rounding\<close>

lemma carry_value:
  "all_digits ds \<Longrightarrow> \<exists>es. carry ds = Some es \<and> all_digits es \<and> digits_value 0 (rev es) = digits_value 0 (rev ds) + 1"
proof (induction ds)
  case Nil
  then show ?case by (simp add: is_ascii_digit_def)
next
  case (Cons d ds)
  then show ?case by (auto simp: is_ascii_digit_def)
qed

text \<open>Rounding a text of satoshis: the carry adds exactly one, at any length.\<close>

lemma rounded_input_value:
  assumes "all_digits whole" "all_digits frac"
  shows "all_digits (strips_decimals_from_satoshis_input (whole @ 46 # frac))
    \<and> digits_value 0 (strips_decimals_from_satoshis_input (whole @ 46 # frac)) =
        digits_value 0 whole + (if frac \<noteq> [] \<and> 53 \<le> hd frac then 1 else 0)"
proof -
  let ?w = "if whole = [] then lit ''0'' else whole"
  have w: "all_digits ?w" "digits_value 0 ?w = digits_value 0 whole" using assms(1) by (auto simp: lit_def is_ascii_digit_def)
  obtain es where es: "carry (rev ?w) = Some es" "all_digits es" "digits_value 0 (rev es) = digits_value 0 whole + 1"
    using carry_value [of "rev ?w"] w by auto
  have "split_once 46 (whole @ 46 # frac) = Some (whole, frac)"
    using split_decimal_dot [OF assms(1), of frac] by (simp add: split_decimal_def split_once_def)
  then have e: "strips_decimals_from_satoshis_input (whole @ 46 # frac) =
      (if \<not> (case frac of c # _ \<Rightarrow> 53 \<le> c \<and> c \<le> 57 | [] \<Rightarrow> False) then ?w else rev es)"
    by (simp only: strips_decimals_from_satoshis_input_def Let_def es(1) option.case prod.case)
  show ?thesis
  proof (cases frac)
    case Nil
    then show ?thesis using e w by simp
  next
    case (Cons c cs)
    then have "c \<le> 57" using assms(2) by (simp add: is_ascii_digit_def)
    then show ?thesis using e w es(2,3) Cons by auto
  qed
qed

text \<open>\<open>div_round_half_up\<close> is the nearest integer, a half rounded up, wherever the remainder and the quotient do not saturate.\<close>

lemma div_round_half_up_nearest:
  assumes "0 < denom" "2 * denom < 2 ^ 128" "numer < 2 ^ 128 - 1"
  shows "div_round_half_up numer denom = (2 * numer + denom) div (2 * denom)"
proof -
  define q r where "q = numer div denom" and "r = numer mod denom"
  have n: "numer = q * denom + r" by (simp add: q_def r_def)
  have r: "r < denom" using assms(1) by (simp add: r_def)
  have "q \<le> numer" by (simp add: q_def)
  then have s: "saturate128 (r * 2) = r * 2" "saturate128 (q + 1) = q + 1" using r assms by (simp_all add: saturate128_def)
  have e: "2 * numer + denom = (2 * r + denom) + q * (2 * denom)" using n by (simp add: algebra_simps)
  have "(2 * numer + denom) div (2 * denom) = q + (2 * r + denom) div (2 * denom)" using assms(1) unfolding e by simp
  moreover have "(2 * r + denom) div (2 * denom) = (if denom \<le> 2 * r then 1 else 0)"
    using r assms(1) by (auto intro: div_nat_eqI)
  ultimately show ?thesis using s by (simp add: div_round_half_up_def q_def [symmetric] r_def [symmetric] mult.commute)
qed

text \<open>The text of a 64-bit number of satoshis in dollars and yen is the nearest cent and the nearest yen.\<close>

lemma fiat_nearest:
  assumes "s < 2 ^ 64"
  shows "sats_to_usd_cents s = (2 * (s * FIXTURE_USD_PER_BTC) + 1000000) div 2000000"
    and "sats_to_yen s = (2 * (s * FIXTURE_JPY_PER_BTC) + SATS_PER_BTC) div (2 * SATS_PER_BTC)"
proof -
  have "s * FIXTURE_USD_PER_BTC \<le> 2 ^ 64 * 123456" "s * FIXTURE_JPY_PER_BTC \<le> 2 ^ 64 * 11057757"
    using assms by (simp_all add: FIXTURE_USD_PER_BTC_def FIXTURE_JPY_PER_BTC_def)
  then have b: "s * FIXTURE_USD_PER_BTC < 2 ^ 128 - 1" "s * FIXTURE_JPY_PER_BTC < 2 ^ 128 - 1" by simp_all
  show "sats_to_usd_cents s = (2 * (s * FIXTURE_USD_PER_BTC) + 1000000) div 2000000"
    using div_round_half_up_nearest [OF _ _ b(1), of 1000000] by (simp add: sats_to_usd_cents_def)
  show "sats_to_yen s = (2 * (s * FIXTURE_JPY_PER_BTC) + SATS_PER_BTC) div (2 * SATS_PER_BTC)"
    using div_round_half_up_nearest [OF _ _ b(2), of SATS_PER_BTC] by (simp add: sats_to_yen_def SATS_PER_BTC_def)
qed

text \<open>Only \<open>btc_to_sats\<close> trims: after a space, 22 million bitcoin are capped in the satoshis field without the warning and
  without a change of the bitcoin field.\<close>

lemma spaced_amount_not_warned:
  "shows_warning_when_entering_21m_btc (lit '' 22000000'') =
     \<lparr>ms_warning = [], ms_bitcoin = lit '' 22000000'', ms_satoshis = lit ''2100000000000000''\<rparr>"
proof -
  have "show_nat 2100000000000000 = lit ''2100000000000000''" by (simp add: show_nat.simps lit_def)
  moreover have "reaches_cap (lit '' 22000000'') = False"
    by (simp add: reaches_cap_def split_decimal_def split_once_def lit_def is_ascii_digit_def)
  moreover have "btc_to_sats (lit '' 22000000'') = Some 2200000000000000"
  proof -
    have d: "all_digits (lit ''22000000'')" "lit ''22000000'' \<noteq> []" by (simp_all add: lit_def is_ascii_digit_def)
    have "trim (lit '' 22000000'') = lit ''22000000''" by (simp add: trim_def lit_def is_white_def)
    moreover have "sats_of (lit ''22000000'') [] = 2200000000000000" by (simp add: sats_of_def lit_def SATS_PER_BTC_def)
    ultimately show ?thesis using btc_to_sats_whole [OF d] by simp
  qed
  ultimately show ?thesis
    by (simp add: shows_warning_when_entering_21m_btc_def cap_btc_supply_def BTC_SUPPLY_CAP_def SATS_PER_BTC_def Let_def)
qed

end
