(* ===== verification/Client_Auth.thy ===== *)
theory Client_Auth
  imports Electrum Auth
begin

unbundle bit_operations_syntax

text \<open>
  How the clients reach an indexer (\<^verbatim>\<open>frontend/splora-api\<close>, \<^verbatim>\<open>frontend/web/src/auth.rs\<close>, \<^verbatim>\<open>frontend/native/src/signer.rs\<close>): the table of
  prefixes, the tags and the header of a signed request, and the requests the two clients make. The signer and the
  transport are arguments; no secret key is part of the model.
\<close>

section \<open>Prefixes\<close>

datatype api_network = Mainnet | Testnet3 | Testnet4Net | Mutinynet | Liquid

definition BASE_URL :: utext where
  "BASE_URL = lit ''https://splora.surmount.systems''"

definition api_networks :: "api_network list" where
  "api_networks = [Mainnet, Testnet3, Testnet4Net, Mutinynet, Liquid]"

definition api_prefix :: "api_network \<Rightarrow> utext" where
  "api_prefix n =
     lit (case n of
            Mainnet \<Rightarrow> ''/api''
          | Testnet3 \<Rightarrow> ''/testnet/api''
          | Testnet4Net \<Rightarrow> ''/testnet4/api''
          | Mutinynet \<Rightarrow> ''/mutinynet/api''
          | Liquid \<Rightarrow> ''/liquid/api'')"

definition api_root :: "api_network \<Rightarrow> utext" where
  "api_root n = BASE_URL @ api_prefix n"

definition signet_redirect :: "nat \<times> utext" where
  "signet_redirect = (307, lit ''/mutinynet'')"

definition is_backend_network :: "utext \<Rightarrow> bool" where
  "is_backend_network name \<longleftrightarrow>
     name \<in> set (map lit [''mainnet'', ''Mainnet'', ''/api'', ''testnet'', ''testnet3'', ''Testnet3'', ''/testnet/api'', ''testnet4'', ''Testnet4'',
       ''/testnet4/api'', ''mutinynet'', ''Mutinynet'', ''/mutinynet/api'', ''liquid'', ''Liquid'', ''/liquid/api''])"

section \<open>The header\<close>

definition KIND_NIP98 :: nat where
  "KIND_NIP98 = 27235"

definition BASE64_ALPHABET :: utext where
  "BASE64_ALPHABET = lit ''ABCDEFGHIJKLMNOPQRSTUVWXYZabcdefghijklmnopqrstuvwxyz0123456789+/''"

definition nip98_tags :: "utext \<Rightarrow> utext \<Rightarrow> utext option \<Rightarrow> utext list list" where
  "nip98_tags url meth payload_sha256_hex =
     [[lit ''u'', url], [lit ''method'', meth]]
     @ (case payload_sha256_hex of Some h \<Rightarrow> [[lit ''payload'', h]] | None \<Rightarrow> [])"

definition quantum :: "byte \<Rightarrow> byte \<Rightarrow> byte \<Rightarrow> u32" where
  "quantum b0 b1 b2 = (push_bit 16 (ucast b0) OR push_bit 8 (ucast b1)) OR ucast b2"

definition quantum_index :: "u32 \<Rightarrow> nat \<Rightarrow> nat" where
  "quantum_index n k = unat (drop_bit k n AND 0x3f)"

definition push_quantum :: "byte \<Rightarrow> byte \<Rightarrow> byte \<Rightarrow> nat \<Rightarrow> utext" where
  "push_quantum b0 b1 b2 significant =
     (let n = quantum b0 b1 b2; indexes = [quantum_index n 18, quantum_index n 12, quantum_index n 6, quantum_index n 0]
      in map (\<lambda>i. BASE64_ALPHABET ! i) (take significant indexes) @ replicate (4 - significant) 61)"

fun standard_base64 :: "bytes \<Rightarrow> utext" where
  "standard_base64 [] = []"
| "standard_base64 [b0] = push_quantum b0 0 0 2"
| "standard_base64 [b0, b1] = push_quantum b0 b1 0 3"
| "standard_base64 (b0 # b1 # b2 # rest) = push_quantum b0 b1 b2 4 @ standard_base64 rest"

definition mentions_secret :: "utext \<Rightarrow> bool" where
  "mentions_secret t \<longleftrightarrow> (\<exists>n\<in>{0..length t}. starts_with (drop n t) (lit ''nsec1''))"

definition authorization_header :: "utext \<Rightarrow> utext option" where
  "authorization_header event_json =
     (if mentions_secret event_json then None else Some (lit ''Nostr '' @ standard_base64 (utf8_encode event_json)))"

section \<open>The web client\<close>

datatype client_error = MissingSigner | RejectedEvent | IndexerSaid utext

record unsigned_nip98 =
  un_pubkey :: utext
  un_created_at :: nat
  un_kind :: nat
  un_tags :: "utext list list"
  un_content :: utext

record nip98_signer =
  sg_public_key_hex :: "(client_error, utext) outcome"
  sg_sign_event_json :: "unsigned_nip98 \<Rightarrow> (client_error, utext) outcome"

definition nip98_u_url :: "utext \<Rightarrow> utext \<Rightarrow> utext" where
  "nip98_u_url origin indexer_path = origin @ indexer_path"

definition browser_fetch_url :: "utext \<Rightarrow> api_network \<Rightarrow> utext \<Rightarrow> utext" where
  "browser_fetch_url origin network indexer_path = origin @ api_prefix network @ indexer_path"

definition unsigned_method :: "utext \<Rightarrow> nat \<Rightarrow> utext \<Rightarrow> utext \<Rightarrow> utext \<Rightarrow> unsigned_nip98" where
  "unsigned_method pubkey created_at origin indexer_path meth =
     \<lparr>un_pubkey = pubkey, un_created_at = created_at, un_kind = KIND_NIP98,
      un_tags = nip98_tags (nip98_u_url origin indexer_path) meth None, un_content = []\<rparr>"

definition unsigned_get :: "utext \<Rightarrow> nat \<Rightarrow> utext \<Rightarrow> utext \<Rightarrow> unsigned_nip98" where
  "unsigned_get pubkey created_at origin indexer_path = unsigned_method pubkey created_at origin indexer_path (lit ''GET'')"

definition fetch_indexer ::
  "nip98_signer option \<Rightarrow> utext \<Rightarrow> api_network \<Rightarrow> utext \<Rightarrow> nat \<Rightarrow> (utext \<Rightarrow> utext \<Rightarrow> (client_error, 'a) outcome) \<Rightarrow> (client_error, 'a) outcome"
where
  "fetch_indexer signer origin network indexer_path now_unix transport =
     bind_out (ok_or MissingSigner signer) (\<lambda>signer.
     bind_out (sg_public_key_hex signer) (\<lambda>pubkey.
     bind_out (sg_sign_event_json signer (unsigned_get pubkey now_unix origin indexer_path)) (\<lambda>signed.
     bind_out (ok_or RejectedEvent (authorization_header signed)) (\<lambda>header.
     transport (browser_fetch_url origin network indexer_path) header))))"

definition allowed_post_path :: "utext \<Rightarrow> bool" where
  "allowed_post_path path \<longleftrightarrow> path = lit ''/tx'' \<or> path = lit ''/txs/test''"

definition allowed_post :: "(utext \<Rightarrow> utext list option) \<Rightarrow> utext \<Rightarrow> utext \<Rightarrow> bool" where
  "allowed_post json_strings path body \<longleftrightarrow>
     allowed_post_path path
     \<or> path = lit ''/txs/package''
       \<and> (case json_strings body of
            None \<Rightarrow> False
          | Some rows \<Rightarrow> 1 < length rows
              \<and> (\<forall>row\<in>set rows. trim row \<noteq> []
                   \<and> (\<forall>c\<in>set (trim row). 48 \<le> c \<and> c \<le> 57 \<or> 65 \<le> c \<and> c \<le> 70 \<or> 97 \<le> c \<and> c \<le> 102)))"

definition post_indexer ::
  "(utext \<Rightarrow> utext list option) \<Rightarrow> nip98_signer option \<Rightarrow> utext \<Rightarrow> api_network \<Rightarrow> utext \<Rightarrow> nat \<Rightarrow> utext
    \<Rightarrow> (utext \<Rightarrow> utext \<Rightarrow> utext \<Rightarrow> utext \<Rightarrow> (client_error, 'a) outcome) \<Rightarrow> (client_error, 'a) outcome"
where
  "post_indexer json_strings signer origin network indexer_path now_unix payload transport =
     (if mentions_secret payload \<or> \<not> allowed_post json_strings indexer_path payload then Err RejectedEvent
      else
        bind_out (ok_or MissingSigner signer) (\<lambda>signer.
        bind_out (sg_public_key_hex signer) (\<lambda>pubkey.
        bind_out (sg_sign_event_json signer (unsigned_method pubkey now_unix origin indexer_path (lit ''POST''))) (\<lambda>signed.
        if mentions_secret signed then Err RejectedEvent
        else bind_out (ok_or RejectedEvent (authorization_header signed)) (\<lambda>header.
             transport (lit ''POST'') (browser_fetch_url origin network indexer_path) header payload)))))"

section \<open>The native client\<close>

datatype signer_error = SUrl | SMethod | SPayload | SSign | SVerify | SHeader | SMissingSigner | SIndexer

record indexer_auth_call =
  ia_method :: utext
  ia_url :: utext
  ia_authorization :: utext

definition this_project_indexer_url :: "utext \<Rightarrow> bool" where
  "this_project_indexer_url url \<longleftrightarrow>
     starts_with url (lit ''https://'')
     \<and> (\<exists>network\<in>set api_networks.
          case strip_prefix (api_root network) url of
            None \<Rightarrow> False
          | Some rest \<Rightarrow> starts_with rest (lit ''/'') \<and> \<not> (\<exists>n\<in>{0..length rest}. starts_with (drop n rest) (lit ''//''))
              \<and> 63 \<notin> set rest \<and> 35 \<notin> set rest)"

text \<open>\<open>sign url method payload\<close> is the event the key signs, as JSON, or the error of one of the library calls.\<close>

definition sign_http ::
  "(bytes \<Rightarrow> utext) \<Rightarrow> (utext \<Rightarrow> utext \<Rightarrow> utext option \<Rightarrow> (signer_error, utext) outcome) \<Rightarrow> utext \<Rightarrow> utext \<Rightarrow> bytes option
    \<Rightarrow> (signer_error, utext \<times> utext) outcome"
where
  "sign_http sha256_hex sign url meth body =
     bind_out (sign url meth (case body of Some (b # bs) \<Rightarrow> Some (sha256_hex (b # bs)) | _ \<Rightarrow> None)) (\<lambda>event_json.
     if mentions_secret event_json then Err SHeader
     else bind_out (ok_or SHeader (authorization_header event_json)) (\<lambda>authorization.
          if \<not> starts_with authorization (lit ''Nostr '') \<or> mentions_secret authorization then Err SHeader
          else Ok (event_json, authorization)))"

definition call_indexer_with_signer ::
  "(bytes \<Rightarrow> utext) \<Rightarrow> (utext \<Rightarrow> utext \<Rightarrow> utext option \<Rightarrow> (signer_error, utext) outcome) option \<Rightarrow> utext \<Rightarrow> utext \<Rightarrow> bytes option
    \<Rightarrow> (indexer_auth_call \<Rightarrow> (client_error, utext) outcome) \<Rightarrow> (signer_error, (utext \<times> utext) \<times> utext) outcome"
where
  "call_indexer_with_signer sha256_hex keys url meth body transport =
     (case keys of
        None \<Rightarrow> Err SMissingSigner
      | Some sign \<Rightarrow>
          if \<not> this_project_indexer_url url then Err SUrl
          else bind_out (sign_http sha256_hex sign url meth body) (\<lambda>signed.
               case transport \<lparr>ia_method = meth, ia_url = url, ia_authorization = snd signed\<rparr> of
                 Ok response \<Rightarrow> Ok (signed, response)
               | Err _ \<Rightarrow> Err SIndexer
               | Panic s \<Rightarrow> Panic s))"

section \<open>Base64\<close>

lemma length_alphabet: "length BASE64_ALPHABET = 64"
  by (simp add: BASE64_ALPHABET_def lit_def)

lemma distinct_alphabet: "distinct BASE64_ALPHABET"
  by (simp add: BASE64_ALPHABET_def lit_def)

lemma byte_less: "unat (b :: byte) < 256"
  using unsigned_less [of b] by simp

lemma unat_quantum: "unat (quantum b0 b1 b2) = unat b0 * 65536 + unat b1 * 256 + unat b2"
proof -
  have bits: "\<not> bit b n" if "8 \<le> n" for b :: byte and n using that bit_imp_le_length [of b n] by auto
  let ?a = "push_bit 16 (ucast b0) :: u32" and ?b = "push_bit 8 (ucast b1) :: u32" and ?c = "ucast b2 :: u32"
  have z1: "?a AND ?b = 0" using bits by (auto simp: bit_eq_iff bit_simps)
  have z2: "(?a OR ?b) AND ?c = 0" using bits by (auto simp: bit_eq_iff bit_simps)
  have "quantum b0 b1 b2 = ?a + ?b + ?c"
    unfolding quantum_def using z1 z2 by (simp add: disjunctive_add_eq_or)
  moreover have b: "unat b0 < 256" "unat b1 < 256" "unat b2 < 256" using byte_less by auto
  moreover have "unat ?a = unat b0 * 65536" "unat ?b = unat b1 * 256" "unat ?c = unat b2"
    using b by (simp_all add: unsigned_ucast_eq push_bit_eq_mult take_bit_eq_mod unat_word_ariths)
  ultimately show ?thesis by (simp add: unat_word_ariths)
qed

lemma quantum_index_eq: "quantum_index n k = (unat n div 2 ^ k) mod 64"
proof -
  have "drop_bit k n AND 0x3f = take_bit 6 (drop_bit k n)" by (simp add: take_bit_eq_mask mask_eq_exp_minus_1)
  then have "quantum_index n k = take_bit 6 (drop_bit k (unat n))"
    by (simp only: quantum_index_def unsigned_take_bit_eq unat_drop_bit_eq)
  then show ?thesis by (simp add: take_bit_eq_mod drop_bit_eq_div)
qed

lemma quantum_index_less: "quantum_index n k < 64"
  by (simp add: quantum_index_eq)

text \<open>The decoding of RFC 4648, as a reference.\<close>

definition b64_value :: "nat \<Rightarrow> nat option" where
  "b64_value c = position (\<lambda>x. x = c) BASE64_ALPHABET"

fun b64_decode :: "utext \<Rightarrow> bytes option" where
  "b64_decode [] = Some []"
| "b64_decode (c0 # c1 # c2 # c3 # rest) =
     Option.bind (b64_value c0) (\<lambda>i0. Option.bind (b64_value c1) (\<lambda>i1.
       if c2 = 61 \<and> c3 = 61 \<and> rest = [] then Some [word_of_nat (i0 * 4 + i1 div 16)]
       else Option.bind (b64_value c2) (\<lambda>i2.
         if c3 = 61 \<and> rest = [] then Some [word_of_nat (i0 * 4 + i1 div 16), word_of_nat (i1 mod 16 * 16 + i2 div 4)]
         else Option.bind (b64_value c3) (\<lambda>i3.
           map_option (\<lambda>bs. word_of_nat (i0 * 4 + i1 div 16) # word_of_nat (i1 mod 16 * 16 + i2 div 4) # word_of_nat (i2 mod 4 * 64 + i3) # bs)
             (b64_decode rest)))))"
| "b64_decode _ = None"

lemma b64_value_nth: "i < 64 \<Longrightarrow> b64_value (BASE64_ALPHABET ! i) = Some i"
  unfolding b64_value_def position_Some_iff
  using length_alphabet distinct_alphabet by (auto simp: nth_eq_iff_index_eq)

lemma alphabet_chars: "i < 64 \<Longrightarrow> BASE64_ALPHABET ! i \<noteq> 61 \<and> \<not> is_white (BASE64_ALPHABET ! i)"
proof -
  have "\<forall>c\<in>set BASE64_ALPHABET. c \<noteq> 61 \<and> \<not> is_white c" by (simp add: BASE64_ALPHABET_def lit_def is_white_def)
  then show "i < 64 \<Longrightarrow> ?thesis" using length_alphabet by (metis nth_mem)
qed

text \<open>Six-bit digits of a number of three bytes.\<close>

lemma three_bytes:
  fixes x y z :: nat
  assumes "x < 256" "y < 256" "z < 256"
  defines "N \<equiv> x * 65536 + y * 256 + z"
  shows "N div 65536 = x" and "N div 256 mod 256 = y" and "N mod 256 = z"
proof -
  have N: "N = z + (x * 256 + y) * 256" by (simp add: N_def)
  have d: "N div 256 = x * 256 + y"
    unfolding N using assms(3) by (subst div_mult_self1) simp_all
  have "N div 65536 = N div 256 div 256" by (simp add: div_mult2_eq [symmetric])
  also have "\<dots> = x" unfolding d using assms(2) by (subst add.commute, subst div_mult_self1) simp_all
  finally show "N div 65536 = x" .
  show "N div 256 mod 256 = y" unfolding d using assms(2) by (subst add.commute, subst mod_mult_self1) simp_all
  show "N mod 256 = z" unfolding N using assms(3) by (subst mod_mult_self1) simp_all
qed

lemma join_digits: "m div (a * c) * c + m div a mod c = m div a" for m a c :: nat
  by (simp add: div_mult2_eq)

lemma split_digit: "m mod (a * c) div a = m div a mod c" for m a c :: nat
  by (cases "a = 0") (simp_all add: mod_mult2_eq)

lemma digits_of_quantum:
  fixes b0 b1 b2 :: byte
  defines "n \<equiv> quantum b0 b1 b2"
  shows "word_of_nat (quantum_index n 18 * 4 + quantum_index n 12 div 16) = b0"
    and "word_of_nat (quantum_index n 12 mod 16 * 16 + quantum_index n 6 div 4) = b1"
    and "word_of_nat (quantum_index n 6 mod 4 * 64 + quantum_index n 0) = b2"
proof -
  define N where "N = unat b0 * 65536 + unat b1 * 256 + unat b2"
  note M = three_bytes [OF byte_less byte_less byte_less, of b0 b1 b2, folded N_def]
  have i: "quantum_index n 18 = N div 262144 mod 64" "quantum_index n 12 = N div 4096 mod 64"
    "quantum_index n 6 = N div 64 mod 64" "quantum_index n 0 = N mod 64"
    by (simp_all add: n_def quantum_index_eq unat_quantum N_def)
  have "N div 262144 = unat b0 div 4" unfolding M(1) [symmetric] by (simp add: div_mult2_eq [symmetric])
  then have "N div 262144 mod 64 = N div 262144" using byte_less [of b0] by simp
  moreover have "N div 4096 mod 64 div 16 = N div 65536 mod 4"
    using split_digit [of "N div 4096" 16 4] by (simp add: div_mult2_eq [symmetric])
  ultimately have "quantum_index n 18 * 4 + quantum_index n 12 div 16 = unat b0"
    unfolding i using join_digits [of N 65536 4] by (simp only: M(1)) simp
  then show "word_of_nat (quantum_index n 18 * 4 + quantum_index n 12 div 16) = b0" by simp
  have "N div 64 mod 64 div 4 = N div 256 mod 16"
    using split_digit [of "N div 64" 4 16] by (simp add: div_mult2_eq [symmetric])
  moreover have "N div 4096 mod 64 mod 16 = N div 4096 mod 16" by (rule mod_mod_cancel) simp
  moreover have "N div 4096 mod 16 * 16 + N div 256 mod 16 = N div 256 mod 256"
    using mod_mult2_eq [of "N div 256" 16 16] by (simp add: div_mult2_eq [symmetric])
  ultimately have "quantum_index n 12 mod 16 * 16 + quantum_index n 6 div 4 = unat b1"
    unfolding i by (simp only: M(2))
  then show "word_of_nat (quantum_index n 12 mod 16 * 16 + quantum_index n 6 div 4) = b1" by simp
  have "N div 64 mod 64 mod 4 = N div 64 mod 4" by (rule mod_mod_cancel) simp
  moreover have "N div 64 mod 4 * 64 + N mod 64 = N mod 256" using mod_mult2_eq [of N 64 4] by simp
  ultimately have "quantum_index n 6 mod 4 * 64 + quantum_index n 0 = unat b2"
    unfolding i by (simp only: M(3))
  then show "word_of_nat (quantum_index n 6 mod 4 * 64 + quantum_index n 0) = b2" by simp
qed

lemma length_standard_base64: "length (standard_base64 bs) = (length bs + 2) div 3 * 4"
proof (induction bs rule: standard_base64.induct)
  case (4 b0 b1 b2 rest)
  have "(length (b0 # b1 # b2 # rest) + 2) div 3 = (length rest + 2) div 3 + 1" by simp
  then show ?case using 4 by (simp add: push_quantum_def Let_def)
qed (simp_all add: push_quantum_def Let_def)

lemma push_quantum_chars: "set (push_quantum b0 b1 b2 k) \<subseteq> insert 61 ((!) BASE64_ALPHABET ` {..<64})"
  by (auto simp: push_quantum_def Let_def dest!: in_set_takeD intro!: imageI quantum_index_less)

lemma base64_no_white: "c \<in> set (standard_base64 bs) \<Longrightarrow> \<not> is_white c"
proof (induction bs rule: standard_base64.induct)
  have "\<not> is_white 61" by (simp add: is_white_def)
  then have q: "c \<in> set (push_quantum b0 b1 b2 k) \<Longrightarrow> \<not> is_white c" for b0 b1 b2 k
    using push_quantum_chars [of b0 b1 b2 k] alphabet_chars by auto
  {
    case (2 b0)
    then show ?case using q by auto
  next
    case (3 b0 b1)
    then show ?case using q by auto
  next
    case (4 b0 b1 b2 rest)
    then show ?case using q by auto
  }
qed simp

lemma b64_decode_encode: "b64_decode (standard_base64 bs) = Some bs"
proof (induction bs rule: standard_base64.induct)
  case (2 b0)
  show ?case using digits_of_quantum(1) [of b0 0 0]
    by (simp add: push_quantum_def Let_def numeral_2_eq_2 b64_value_nth quantum_index_less)
next
  case (3 b0 b1)
  show ?case using digits_of_quantum(1,2) [of b0 b1 0] alphabet_chars [OF quantum_index_less]
    by (simp add: push_quantum_def Let_def numeral_3_eq_3 b64_value_nth quantum_index_less)
next
  case (4 b0 b1 b2 rest)
  then show ?case using digits_of_quantum [of b0 b1 b2] alphabet_chars [OF quantum_index_less]
    by (simp add: push_quantum_def Let_def b64_value_nth quantum_index_less)
qed simp

text \<open>Decoding by RFC 4648 what the clients put into the header returns the event they signed, byte for byte,
  for every length; the text has four characters for every three bytes begun, none of them white space.\<close>

theorem base64_roundtrip:
  "b64_decode (standard_base64 bs) = Some bs
   \<and> length (standard_base64 bs) = (length bs + 2) div 3 * 4 \<and> trim (standard_base64 bs) = standard_base64 bs"
proof (intro conjI b64_decode_encode length_standard_base64)
  show "trim (standard_base64 bs) = standard_base64 bs"
    by (rule trimmed_no_white) (use base64_no_white in blast)
qed

end
