(* ===== verification/Http_Front.thy ===== *)
theory Http_Front
  imports Rest_Server Client_Auth
begin

text \<open>
  The public front of the indexers (\<^verbatim>\<open>src/http_front/mod.rs\<close>): the choice of a backend by the path, the
  rewriting of a request, and the answer the front gives. The unix sockets, the HTTP client and the listeners are
  arguments. The theorems compose the clients, the front and the gate of the indexer.
\<close>

section \<open>Routes\<close>

datatype network_id = NetMainnet | NetTestnet3 | NetTestnet4 | NetMutinynet | NetLiquid

datatype front_route = Redirect307 utext | Proxy network_id utext | NotFound

definition http_socket_file_name :: "network_id \<Rightarrow> utext" where
  "http_socket_file_name n =
     lit (case n of
            NetMainnet \<Rightarrow> ''mainnet.http.sock''
          | NetTestnet3 \<Rightarrow> ''testnet3.http.sock''
          | NetTestnet4 \<Rightarrow> ''testnet4.http.sock''
          | NetMutinynet \<Rightarrow> ''mutinynet.http.sock''
          | NetLiquid \<Rightarrow> ''liquid.http.sock'')"

definition strip_named_prefix :: "utext \<Rightarrow> utext \<Rightarrow> utext option" where
  "strip_named_prefix path pre =
     (if path = pre then Some []
      else Option.bind (strip_prefix pre path) (\<lambda>rest. if starts_with rest (lit ''/'') then Some rest else None))"

definition backend_path :: "utext \<Rightarrow> utext" where
  "backend_path path_with_api =
     (if path_with_api = lit ''/api/v1/ws'' \<or> starts_with path_with_api (lit ''/api/v1/ws/'') then path_with_api
      else (case strip_prefix (lit ''/api'') path_with_api of
              Some [] \<Rightarrow> lit ''/''
            | Some rest \<Rightarrow> rest
            | None \<Rightarrow> path_with_api))"

definition proxy_after_network :: "network_id \<Rightarrow> utext \<Rightarrow> front_route" where
  "proxy_after_network network after_network =
     (if after_network \<noteq> lit ''/api'' \<and> \<not> starts_with after_network (lit ''/api/'') then NotFound
      else Proxy network (backend_path after_network))"

definition route :: "utext \<Rightarrow> front_route" where
  "route path =
     (case strip_named_prefix path (lit ''/signet'') of Some rest \<Rightarrow> Redirect307 (lit ''/mutinynet'' @ rest)
      | None \<Rightarrow>
     (case strip_named_prefix path (lit ''/testnet4'') of Some rest \<Rightarrow> proxy_after_network NetTestnet4 rest
      | None \<Rightarrow>
     (case strip_named_prefix path (lit ''/testnet'') of Some rest \<Rightarrow> proxy_after_network NetTestnet3 rest
      | None \<Rightarrow>
     (case strip_named_prefix path (lit ''/mutinynet'') of Some rest \<Rightarrow> proxy_after_network NetMutinynet rest
      | None \<Rightarrow>
     (case strip_named_prefix path (lit ''/liquid'') of Some rest \<Rightarrow> proxy_after_network NetLiquid rest
      | None \<Rightarrow>
        if path = lit ''/api'' \<or> starts_with path (lit ''/api/'') then proxy_after_network NetMainnet path
        else NotFound)))))"

text \<open>A path of the file system is its text; joining puts one slash between.\<close>

definition http_socket_path :: "utext \<Rightarrow> network_id \<Rightarrow> utext" where
  "http_socket_path socket_dir network = socket_dir @ lit ''/'' @ http_socket_file_name network"

definition is_electrum_socket :: "utext \<Rightarrow> bool" where
  "is_electrum_socket path \<longleftrightarrow> ends_with (last (split_at 47 path)) (lit ''electrum.sock'')"

section \<open>A request\<close>

text \<open>A header whose value is not text is kept, with no text; an absent body is one that could not be read.\<close>

record front_req =
  fq_method :: verb
  fq_path :: utext
  fq_query :: "utext option"
  fq_headers :: "(string \<times> utext option) list"
  fq_ws_key :: "bytes option"
  fq_body :: "bytes option"

datatype 'g backend_answer = Unreachable | BodyLost | Answered "'g response"

text \<open>What the HTTP client decides: whether the request can be built, the \<open>Host\<close> it adds for a socket when the
  request has none, and the answer of the backend.\<close>

record 'g front_env =
  fe_builds :: "front_req \<Rightarrow> bool"
  fe_default_host :: "utext \<Rightarrow> utext"
  fe_backend :: "utext \<Rightarrow> http_req \<Rightarrow> bytes \<Rightarrow> 'g backend_answer"

definition header_text :: "(string \<times> utext option) list \<Rightarrow> string \<Rightarrow> utext option" where
  "header_text hs name = Option.bind (map_of hs name) (\<lambda>v. v)"

definition contains_key :: "(string \<times> utext option) list \<Rightarrow> string \<Rightarrow> bool" where
  "contains_key hs name \<longleftrightarrow> name \<in> fst ` set hs"

definition path_and_query :: "utext \<Rightarrow> utext option \<Rightarrow> utext" where
  "path_and_query path query = (case query of Some q \<Rightarrow> path @ lit ''?'' @ q | None \<Rightarrow> path)"

definition forwarded_headers :: "(string \<times> utext option) list \<Rightarrow> (string \<times> utext option) list" where
  "forwarded_headers hs =
     (if contains_key hs ''x-forwarded-proto'' then hs else hs @ [(''x-forwarded-proto'', Some (lit ''https''))])"

definition backend_req :: "'g front_env \<Rightarrow> utext \<Rightarrow> utext \<Rightarrow> front_req \<Rightarrow> http_req" where
  "backend_req env socket bpath req =
     (let hs = forwarded_headers (fq_headers req);
          hs = (if contains_key hs ''host'' then hs else hs @ [(''host'', Some (fe_default_host env socket))])
      in \<lparr>hr_method = fq_method req, hr_path = bpath, hr_query = fq_query req,
          hr_path_and_query = Some (path_and_query bpath (fq_query req)), hr_header = header_text hs, hr_ws_key = fq_ws_key req\<rparr>)"

definition plain_response :: "nat \<Rightarrow> utext \<Rightarrow> 'g response" where
  "plain_response status t = \<lparr>rs_status = status, rs_headers = [], rs_body = TextBody t\<rparr>"

text \<open>The response, the socket the front connected to, and whether it joined the two upgraded connections.\<close>

definition proxy_unix :: "'g front_env \<Rightarrow> utext \<Rightarrow> utext \<Rightarrow> front_req \<Rightarrow> bytes \<Rightarrow> bool \<Rightarrow> 'g response \<times> utext option \<times> bool" where
  "proxy_unix env socket bpath req body incoming_upgrade =
     (if \<not> fe_builds env req then (plain_response 400 (lit ''bad request''), None, False)
      else
        (case fe_backend env socket (backend_req env socket bpath req) body of
           Unreachable \<Rightarrow> (plain_response 502 (lit ''backend unavailable''), Some socket, False)
         | BodyLost \<Rightarrow> (plain_response 502 (lit ''backend unavailable''), Some socket, False)
         | Answered resp \<Rightarrow>
             if rs_status resp = 101 \<and> incoming_upgrade then (resp\<lparr>rs_body := NoBody\<rparr>, Some socket, True)
             else (resp, Some socket, False)))"

definition dispatch :: "'g front_env \<Rightarrow> utext \<Rightarrow> front_req \<Rightarrow> bytes \<Rightarrow> bool \<Rightarrow> 'g response \<times> utext option \<times> bool" where
  "dispatch env socket_dir req body upgrade =
     (case route (fq_path req) of
        Redirect307 location \<Rightarrow>
          (\<lparr>rs_status = 307, rs_headers = [(''Location'', path_and_query location (fq_query req))], rs_body = NoBody\<rparr>, None, False)
      | NotFound \<Rightarrow> (plain_response 404 (lit ''not found''), None, False)
      | Proxy network bpath \<Rightarrow>
          let socket = http_socket_path socket_dir network in
          if is_electrum_socket socket then (plain_response 500 (lit ''electrum socket refused''), None, False)
          else proxy_unix env socket bpath req body upgrade)"

definition handle_front :: "'g front_env \<Rightarrow> utext \<Rightarrow> front_req \<Rightarrow> 'g response \<times> utext option \<times> bool" where
  "handle_front env socket_dir req =
     (case fq_body req of
        None \<Rightarrow> (plain_response 400 (lit ''bad body''), None, False)
      | Some body \<Rightarrow> dispatch env socket_dir req body (contains_key (fq_headers req) ''upgrade''))"

definition handle_h3_resolved :: "'g front_env \<Rightarrow> utext \<Rightarrow> front_req \<Rightarrow> ('g response \<times> utext option \<times> bool) option" where
  "handle_h3_resolved env socket_dir req =
     map_option (\<lambda>body. dispatch env socket_dir req body False) (fq_body req)"

section \<open>Which path goes where\<close>

definition network_of :: "api_network \<Rightarrow> network_id" where
  "network_of n =
     (case n of Mainnet \<Rightarrow> NetMainnet | Testnet3 \<Rightarrow> NetTestnet3 | Testnet4Net \<Rightarrow> NetTestnet4 | Mutinynet \<Rightarrow> NetMutinynet | Liquid \<Rightarrow> NetLiquid)"

definition ws_path :: "utext \<Rightarrow> bool" where
  "ws_path p \<longleftrightarrow> p = lit ''/v1/ws'' \<or> starts_with p (lit ''/v1/ws/'')"

lemma starts_with_Cons [simp]: "starts_with (x # xs) (y # ys) \<longleftrightarrow> x = y \<and> starts_with xs ys"
  by (auto simp: starts_with_def)

lemma starts_with_Nil [simp]: "starts_with xs []" "starts_with [] (y # ys) = False"
  by (simp_all add: starts_with_def)

lemma slash_path: "starts_with p (lit ''/'') \<Longrightarrow> (\<And>t. p = 47 # t \<Longrightarrow> P) \<Longrightarrow> P"
  by (cases p) (auto simp: lit_def)

lemma backend_path_api:
  assumes "p = [] \<or> starts_with p (lit ''/'')"
  shows "backend_path (lit ''/api'' @ p) = (if ws_path p then lit ''/api'' @ p else if p = [] then lit ''/'' else p)"
  using assms by (cases p) (auto simp: backend_path_def ws_path_def strip_prefix_def lit_def)

lemma after_network_api:
  "p = [] \<or> starts_with p (lit ''/'') \<Longrightarrow> proxy_after_network n (lit ''/api'' @ p) = Proxy n (backend_path (lit ''/api'' @ p))"
  by (cases p) (auto simp: proxy_after_network_def lit_def)

lemma route_prefix:
  assumes "p = [] \<or> starts_with p (lit ''/'')"
  shows "route (api_prefix n @ p) = Proxy (network_of n) (backend_path (lit ''/api'' @ p))"
proof -
  have "route (api_prefix n @ p) = proxy_after_network (network_of n) (lit ''/api'' @ p)"
    using assms by (cases n; cases p) (simp_all add: route_def api_prefix_def network_of_def strip_named_prefix_def strip_prefix_def lit_def)
  then show ?thesis using after_network_api [OF assms] by simp
qed

lemma electrum_never: "\<not> is_electrum_socket (http_socket_path dir n)"
proof -
  have sep: "last (split_at 47 (dir @ 47 # b)) = b" if "47 \<notin> set b" for b
    using that by (simp add: split_at_append split_at_none)
  have "47 \<notin> set (http_socket_file_name n)" by (cases n) (simp_all add: http_socket_file_name_def lit_def)
  then have "last (split_at 47 (http_socket_path dir n)) = http_socket_file_name n"
    using sep by (simp add: http_socket_path_def lit_def)
  moreover have "\<not> ends_with (http_socket_file_name n) (lit ''electrum.sock'')"
    by (cases n) (simp_all add: http_socket_file_name_def ends_with_def lit_def)
  ultimately show ?thesis by (simp add: is_electrum_socket_def)
qed

lemma strip_named_prefix_Some:
  "strip_named_prefix path pre = Some rest \<longleftrightarrow> path = pre @ rest \<and> (rest = [] \<or> starts_with rest (lit ''/''))"
  by (auto simp: strip_named_prefix_def strip_prefix_def starts_with_iff split: bind_splits if_splits)

lemma proxy_after_network_Proxy:
  "proxy_after_network n path = Proxy m bp \<Longrightarrow>
     m = n \<and> (\<exists>p. path = lit ''/api'' @ p \<and> (p = [] \<or> starts_with p (lit ''/'')) \<and> bp = backend_path path)"
  by (auto simp: proxy_after_network_def starts_with_iff lit_def split: if_splits)

lemma route_Proxy:
  assumes "route path = Proxy m bp"
  shows "\<exists>n p. path = api_prefix n @ p \<and> (p = [] \<or> starts_with p (lit ''/'')) \<and> m = network_of n \<and> bp = backend_path (lit ''/api'' @ p)"
proof -
  have step: ?thesis
    if s: "strip_named_prefix path pre = Some rest" and pr: "proxy_after_network k rest = Proxy m bp"
      and a: "pre @ lit ''/api'' = api_prefix n" and k: "network_of n = k" for pre rest k n
  proof -
    obtain p where "rest = lit ''/api'' @ p" "p = [] \<or> starts_with p (lit ''/'')" "bp = backend_path rest" "m = k"
      using proxy_after_network_Proxy [OF pr] by blast
    then show ?thesis using s a k unfolding strip_named_prefix_Some by (metis append.assoc)
  qed
  have pre: "lit ''/testnet4'' @ lit ''/api'' = api_prefix Testnet4Net" "lit ''/testnet'' @ lit ''/api'' = api_prefix Testnet3"
    "lit ''/mutinynet'' @ lit ''/api'' = api_prefix Mutinynet" "lit ''/liquid'' @ lit ''/api'' = api_prefix Liquid"
    by (simp_all add: api_prefix_def lit_def)
  have main: ?thesis if "proxy_after_network NetMainnet path = Proxy m bp"
    using proxy_after_network_Proxy [OF that] by (intro exI [of _ Mainnet]) (auto simp: api_prefix_def network_of_def)
  show ?thesis
    using assms step [OF _ _ pre(1)] step [OF _ _ pre(2)] step [OF _ _ pre(3)] step [OF _ _ pre(4)] main
    unfolding route_def by (simp add: network_of_def split: option.splits if_splits)
qed

text \<open>C37: the front sends a request to a backend exactly when its path is the prefix of a network followed by nothing
  or by a path, and then to the socket of that network, which is never an Electrum socket; the backend is asked for
  the path without the prefix, the websocket's alone keeping its \<open>/api\<close>. No other request opens a connection.\<close>

theorem front_routes_exactly:
  "(route path = Proxy m bp \<longleftrightarrow>
      (\<exists>n p. path = api_prefix n @ p \<and> (p = [] \<or> starts_with p (lit ''/'')) \<and> m = network_of n
        \<and> bp = (if ws_path p then lit ''/api'' @ p else if p = [] then lit ''/'' else p)))
   \<and> (fst (snd (handle_front env dir req)) = Some s \<longrightarrow>
        (\<exists>m bp. route (fq_path req) = Proxy m bp \<and> s = http_socket_path dir m \<and> \<not> is_electrum_socket s))"
proof
  show "route path = Proxy m bp \<longleftrightarrow>
      (\<exists>n p. path = api_prefix n @ p \<and> (p = [] \<or> starts_with p (lit ''/'')) \<and> m = network_of n
        \<and> bp = (if ws_path p then lit ''/api'' @ p else if p = [] then lit ''/'' else p))"
    (is "_ \<longleftrightarrow> ?R")
  proof
    assume "route path = Proxy m bp"
    then obtain n p where "path = api_prefix n @ p" "p = [] \<or> starts_with p (lit ''/'')" "m = network_of n" "bp = backend_path (lit ''/api'' @ p)"
      using route_Proxy by blast
    then show ?R using backend_path_api [of p] by auto
  next
    assume ?R
    then obtain n p where p: "path = api_prefix n @ p" "p = [] \<or> starts_with p (lit ''/'')" "m = network_of n"
        and bp: "bp = (if ws_path p then lit ''/api'' @ p else if p = [] then lit ''/'' else p)"
      by blast
    have "bp = backend_path (lit ''/api'' @ p)" unfolding bp backend_path_api [OF p(2)] ..
    then show "route path = Proxy m bp" using p route_prefix by simp
  qed
  show "fst (snd (handle_front env dir req)) = Some s \<longrightarrow>
        (\<exists>m bp. route (fq_path req) = Proxy m bp \<and> s = http_socket_path dir m \<and> \<not> is_electrum_socket s)"
    using electrum_never
    by (auto simp: handle_front_def dispatch_def proxy_unix_def Let_def split: option.splits front_route.splits backend_answer.splits if_splits)
qed

definition demo_front :: "unit front_env" where
  "demo_front = \<lparr>fe_builds = (\<lambda>_. True), fe_default_host = (\<lambda>s. s), fe_backend = (\<lambda>_ _ _. Unreachable)\<rparr>"

definition demo_front_req :: front_req where
  "demo_front_req = \<lparr>fq_method = Get, fq_path = lit ''/testnet4/api/mempool'', fq_query = None,
     fq_headers = [(''host'', Some (lit ''a.b''))], fq_ws_key = None, fq_body = Some []\<rparr>"

theorem front_routes_exactly_witness:
  "\<exists>m bp. route (fq_path demo_front_req) = Proxy m bp \<and> http_socket_path (lit ''/r'') NetTestnet4 = http_socket_path (lit ''/r'') m
     \<and> \<not> is_electrum_socket (http_socket_path (lit ''/r'') NetTestnet4)"
proof -
  have r: "route (lit ''/testnet4/api/mempool'') = Proxy NetTestnet4 (lit ''/mempool'')"
    using route_prefix [of "lit ''/mempool''" Testnet4Net] backend_path_api [of "lit ''/mempool''"]
    by (simp add: api_prefix_def network_of_def ws_path_def lit_def)
  then have "fst (snd (handle_front demo_front (lit ''/r'') demo_front_req)) = Some (http_socket_path (lit ''/r'') NetTestnet4)"
    using electrum_never by (simp add: handle_front_def dispatch_def proxy_unix_def demo_front_def demo_front_req_def)
  then show ?thesis using front_routes_exactly [of "[]" NetMainnet "[]" demo_front "lit ''/r''" demo_front_req] by blast
qed

end
