(* ===== verification/Edge.thy ===== *)
theory Edge
  imports Http_Front
begin

text \<open>
  A request on its whole way: signed by a client (\<^verbatim>\<open>frontend\<close>), rewritten by the front (\<^verbatim>\<open>src/http_front\<close>) and
  checked and answered by the indexer (\<^verbatim>\<open>src/rest.rs\<close>, \<^verbatim>\<open>src/auth\<close>). The signed text is an argument; what is
  asked of the signer is that the event it returns carries the fields it was given.
\<close>

section \<open>Signed text\<close>

definition json_tags :: "utext list list \<Rightarrow> unit json" where
  "json_tags tags = JArray (map (\<lambda>tag. JArray (map JString tag)) tags)"

definition event_of :: "'ev nostr_lib \<Rightarrow> utext \<Rightarrow> unsigned_nip98 \<Rightarrow> bytes \<Rightarrow> bool" where
  "event_of nl evj u pk \<longleftrightarrow>
     (\<exists>v ev. nl_json nl (utf8_encode evj) = Some v \<and> nl_event nl (utf8_encode evj) = Some ev
        \<and> nl_verify nl ev \<and> nl_pubkey nl ev = pk
        \<and> json_get v (lit ''kind'') = Some (JNumber (PosInt (un_kind u)))
        \<and> json_get v (lit ''created_at'') = Some (JNumber (PosInt (un_created_at u)))
        \<and> json_get v (lit ''tags'') = Some (json_tags (un_tags u)))"

definition decodes_base64 :: "'ev nostr_lib \<Rightarrow> bool" where
  "decodes_base64 nl \<longleftrightarrow> (\<forall>bs. nl_base64 nl (standard_base64 bs) = Some bs)"

lemma base64_ascii: "c \<in> set (standard_base64 bs) \<Longrightarrow> c < 128"
proof (induction bs rule: standard_base64.induct)
  have al: "\<forall>c\<in>set BASE64_ALPHABET. c < 128" by (simp add: BASE64_ALPHABET_def lit_def)
  have q: "c \<in> set (push_quantum b0 b1 b2 k) \<Longrightarrow> c < 128" for b0 b1 b2 k
    using push_quantum_chars [of b0 b1 b2 k] al length_alphabet by auto
  {
    case (2 b0)
    then show ?case using q by auto
  next
    case (3 b0 b1)
    then show ?case using q by auto
  next
    case (4 b0 b1 b2 rest)
    then show ?case using q by auto
  }
qed simp

lemma utf8_len_ascii: "\<forall>c\<in>set s. c < 128 \<Longrightarrow> utf8_len s = length s"
  by (induction s) (simp_all add: utf8_len_def)

lemma utf8_len_base64: "utf8_len (standard_base64 bs) = (length bs + 2) div 3 * 4"
  using utf8_len_ascii base64_ascii length_standard_base64 by metis

lemma base64_eq_Nil: "standard_base64 bs = [] \<longleftrightarrow> bs = []"
proof -
  have "(length bs + 2) div 3 * 4 = 0 \<longleftrightarrow> bs = []" by (cases bs) auto
  then show ?thesis using length_standard_base64 [of bs] by (metis length_0_conv)
qed

lemma auth_token_of_header:
  assumes "authorization_header evj = Some hdr" "utf8_encode evj \<noteq> []"
  shows "auth_token (Some hdr) = Ok (standard_base64 (utf8_encode evj))"
proof -
  have h: "hdr = lit ''Nostr '' @ standard_base64 (utf8_encode evj)"
    using assms(1) by (simp add: authorization_header_def split: if_splits)
  have "strip_prefix (lit ''Nostr '') hdr = Some (standard_base64 (utf8_encode evj))"
    unfolding h by (simp add: strip_prefix_def)
  moreover have "trim (standard_base64 (utf8_encode evj)) = standard_base64 (utf8_encode evj)"
    by (rule trimmed_no_white) (use base64_no_white in blast)
  ultimately show ?thesis using assms(2) by (simp add: auth_token_def ok_or_def base64_eq_Nil)
qed

lemma first_value_json_tags:
  "first_value (lit ''u'') (map (\<lambda>tag. JArray (map JString tag)) (nip98_tags url m p)) = Some url"
  "first_value (lit ''method'') (map (\<lambda>tag. JArray (map JString tag)) (nip98_tags url m p)) = Some m"
  "first_value (lit ''payload'') (map (\<lambda>tag. JArray (map JString tag)) (nip98_tags url m p)) = p"
  by (cases p; simp add: first_value_def tag_value_def nip98_tags_def map_filter_simps first_opt_def)+

lemma verify_of_event:
  assumes hdr: "authorization_header evj = Some hdr" and ne: "utf8_encode evj \<noteq> []"
    and b64: "decodes_base64 nl" and size: "length (utf8_encode evj) \<le> MAX_NIP98_AUTH_EVENT_BYTES"
    and ev: "event_of nl evj u pk" and u: "un_kind u = KIND_NIP98" "un_tags u = nip98_tags url m payload"
    and clock: "now \<le> un_created_at u + window" "un_created_at u \<le> now + window"
    and m: "eq_ignore_ascii_case m meth" and payload: "\<forall>p. payload = Some p \<longrightarrow> ascii_lower p = hex_encode (nl_sha256 nl body)"
    and pk: "pk \<in> al_keys allow"
  shows "verify_nip98 nl (Some hdr) meth url' body now window allow = (if url' = url then Ok pk else Err UrlMismatch)"
proof -
  have len: "utf8_len (standard_base64 (utf8_encode evj)) \<le> MAX_NIP98_AUTH_ENCODED_BYTES"
  proof -
    have "(length (utf8_encode evj) + 2) div 3 \<le> (65536 + 2) div 3"
      using size by (intro div_le_mono) (simp add: MAX_NIP98_AUTH_EVENT_BYTES_def)
    then show ?thesis by (simp add: utf8_len_base64 MAX_NIP98_AUTH_ENCODED_BYTES_def MAX_NIP98_AUTH_EVENT_BYTES_def)
  qed
  have diff: "\<not> window < nat_abs_diff now (un_created_at u)" using clock by (auto simp: nat_abs_diff_def)
  obtain v e where v: "nl_json nl (utf8_encode evj) = Some v" "nl_event nl (utf8_encode evj) = Some e" "nl_verify nl e" "nl_pubkey nl e = pk"
      "json_get v (lit ''kind'') = Some (JNumber (PosInt 27235))" "json_get v (lit ''created_at'') = Some (JNumber (PosInt (un_created_at u)))"
      "json_get v (lit ''tags'') = Some (json_tags (nip98_tags url m payload))"
    using ev u unfolding event_of_def KIND_NIP98_def by auto
  have pay: "\<not> (case payload of None \<Rightarrow> False | Some p \<Rightarrow> ascii_lower p \<noteq> hex_encode (nl_sha256 nl body))"
    using payload by (simp split: option.splits)
  show ?thesis
    using len size diff b64 m pay pk v
    by (simp add: verify_nip98_def auth_token_of_header [OF hdr ne] scan_tags_first first_value_json_tags decodes_base64_def
        ok_or_def json_tags_def Let_def allowlist_contains_def)
qed

section \<open>What the indexer checks\<close>

lemma header_text_append: "header_text (hs @ hs') k = (if contains_key hs k then header_text hs k else header_text hs' k)"
proof (cases "map_of hs k")
  case None
  then have "\<not> contains_key hs k" by (simp add: contains_key_def map_of_eq_None_iff)
  then show ?thesis using None by (simp add: header_text_def map_add_def)
next
  case (Some v)
  then have "contains_key hs k" unfolding contains_key_def by (metis map_of_eq_None_iff option.distinct(1))
  then show ?thesis using Some by (simp add: header_text_def map_add_def)
qed

lemma header_text_Cons [simp]: "header_text ((k', v) # hs) k = (if k = k' then v else header_text hs k)"
  by (simp add: header_text_def)

lemma header_text_absent: "\<not> contains_key hs k \<Longrightarrow> header_text hs k = None"
  using header_text_append [of hs "[]" k] by (simp add: header_text_def)

lemma contains_key_simps [simp]: "contains_key (hs @ hs') k \<longleftrightarrow> contains_key hs k \<or> contains_key hs' k"
  "contains_key (h # hs) k \<longleftrightarrow> fst h = k \<or> contains_key hs k" "\<not> contains_key [] k"
  by (auto simp: contains_key_def)

text \<open>The host the gate reads, when the front is the one to add \<open>x-forwarded-proto\<close>.\<close>

definition seen_host :: "'g front_env \<Rightarrow> utext \<Rightarrow> front_req \<Rightarrow> utext option" where
  "seen_host env socket req =
     (if contains_key (fq_headers req) ''host'' then header_text (fq_headers req) ''host'' else Some (fe_default_host env socket))"

lemma backend_headers:
  assumes "\<not> contains_key (fq_headers req) ''x-forwarded-proto''"
  shows "hr_header (backend_req env s bp req) ''x-forwarded-proto'' = Some (lit ''https'')"
    and "hr_header (backend_req env s bp req) ''host'' = seen_host env s req"
    and "hr_header (backend_req env s bp req) ''authorization'' = header_text (fq_headers req) ''authorization''"
  using assms
  by (simp_all add: backend_req_def forwarded_headers_def Let_def seen_host_def header_text_append header_text_absent)

lemma backend_url:
  assumes "\<not> contains_key (fq_headers req) ''x-forwarded-proto''" "seen_host env s req = Some h" "trim h \<noteq> []" "bp \<noteq> []"
  shows "reconstruct_from_req (backend_req env s bp req) = lit ''https://'' @ trim h @ path_and_query bp (fq_query req)"
proof -
  have https: "trim (hd (split_at 44 (lit ''https''))) = lit ''https''" "lit ''https'' \<noteq> []"
    by (simp_all add: trim_def lit_def is_white_def)
  have "path_and_query bp (fq_query req) \<noteq> []" using assms(4) by (simp add: path_and_query_def split: option.splits)
  moreover have "hr_path_and_query (backend_req env s bp req) = Some (path_and_query bp (fq_query req))"
    by (simp add: backend_req_def Let_def)
  ultimately show ?thesis
    using backend_headers [OF assms(1), of env s bp] assms(2,3) https
    by (simp add: reconstruct_from_req_def reconstruct_absolute_url_def Let_def lit_def)
qed

section \<open>The indexer behind the front\<close>

definition indexer_backend ::
  "('d, 'f, 'g) rest_ctx \<Rightarrow> server_cfg \<Rightarrow> 'ev nostr_lib \<Rightarrow> nat \<Rightarrow> allowlist \<Rightarrow> ('d, 'f, 'g) query \<Rightarrow> http_req \<Rightarrow> bytes \<Rightarrow> 'g backend_answer"
where
  "indexer_backend cx sv nl now allow q req body =
     (case fst (handle_one_rest_request cx sv nl now allow req (BodyRead body) q) of Ok resp \<Rightarrow> Answered resp | _ \<Rightarrow> Unreachable)"

text \<open>What a client is shown of an answer of the indexer.\<close>

definition shown :: "utext \<Rightarrow> (unit, 'g response) outcome \<Rightarrow> 'g response \<times> utext option \<times> bool" where
  "shown socket r =
     (case r of Ok resp \<Rightarrow> (resp, Some socket, False) | _ \<Rightarrow> (plain_response 502 (lit ''backend unavailable''), Some socket, False))"

lemma front_to_indexer:
  assumes "route (fq_path req) = Proxy m bp" "fq_body req = Some body" "fe_builds env req"
    and "\<not> contains_key (fq_headers req) ''upgrade''"
    and "fe_backend env (http_socket_path dir m) = indexer_backend cx sv nl now allow q"
  shows "handle_front env dir req =
    shown (http_socket_path dir m)
      (fst (handle_one_rest_request cx sv nl now allow (backend_req env (http_socket_path dir m) bp req) (BodyRead body) q))"
  using assms electrum_never [of dir m]
  by (simp add: handle_front_def dispatch_def proxy_unix_def indexer_backend_def shown_def Let_def split: outcome.splits)

text \<open>One request of a client as the front receives it.\<close>

definition sent_as :: "front_req \<Rightarrow> api_network \<Rightarrow> utext \<Rightarrow> utext \<Rightarrow> bool" where
  "sent_as req n path hdr \<longleftrightarrow>
     fq_path req = api_prefix n @ path \<and> header_text (fq_headers req) ''authorization'' = Some hdr
     \<and> \<not> contains_key (fq_headers req) ''x-forwarded-proto'' \<and> \<not> contains_key (fq_headers req) ''upgrade''"

lemma sent_route:
  assumes "sent_as req n path hdr" "starts_with path (lit ''/'')" "\<not> ws_path path"
  shows "route (fq_path req) = Proxy (network_of n) path"
proof -
  have "path \<noteq> []" using assms(2) by (auto simp: lit_def)
  then show ?thesis using assms route_prefix [of path n] backend_path_api [of path] by (simp add: sent_as_def)
qed

lemma gate_decides:
  assumes "verify_nip98 nl (auth_header_from req) (method_str (hr_method req)) (reconstruct_from_req req) body now NIP98_WINDOW_SECS allow
      = (if good then Ok pk else Err e)"
    and "hr_path req \<noteq> lit ''/api/v1/ws''" "length body \<le> MAX_BODY_SIZE" "good \<or> \<not> public_health_request (cx_cfg cx) req"
  shows "fst (handle_one_rest_request cx sv nl now allow req (BodyRead body) q)
    = (if good then bind_out (render (fst (handle_request cx q (hr_method req) (hr_path req) (hr_query req) body))) (apply_common_headers sv)
       else apply_common_headers sv (unauthorized_response e))"
proof (cases good)
  case True
  then have "\<exists>x. http_ws_auth_gate nl (auth_request req body now) (rc_public_health (cx_cfg cx)) allow = Ok x"
    using assms(1) by (auto simp: http_ws_auth_gate_def auth_request_def)
  then show ?thesis using True assms(2,3)
    by (auto simp: handle_one_rest_request_def Let_def render_def split: prod.splits outcome.splits)
next
  case False
  then have "http_ws_auth_gate nl (auth_request req body now) (rc_public_health (cx_cfg cx)) allow = Err e"
    using assms(1,4) by (auto simp: http_ws_auth_gate_def auth_request_def public_health_request_def)
  then show ?thesis using False assms(2,3) by (simp add: handle_one_rest_request_def Let_def)
qed

text \<open>The verdict on a request whose event is in order in every respect but perhaps its URL.\<close>

lemma front_verdict:
  fixes env :: "'g front_env" and dir n
  defines "sock \<equiv> http_socket_path dir (network_of n)"
  assumes sent: "sent_as req n path hdr" and path: "starts_with path (lit ''/'')" "\<not> ws_path path" "path \<noteq> lit ''/api/v1/ws''"
    and hdr: "authorization_header evj = Some hdr" "utf8_encode evj \<noteq> []" "length (utf8_encode evj) \<le> MAX_NIP98_AUTH_EVENT_BYTES"
    and lib: "decodes_base64 nl"
    and ev: "event_of nl evj u pk" "un_kind u = KIND_NIP98" "un_tags u = nip98_tags url (method_str (fq_method req)) payload"
    and clock: "now \<le> un_created_at u + NIP98_WINDOW_SECS" "un_created_at u \<le> now + NIP98_WINDOW_SECS"
    and payload: "\<forall>p. payload = Some p \<longrightarrow> ascii_lower p = hex_encode (nl_sha256 nl body)"
    and pk: "pk \<in> al_keys allow"
    and host: "seen_host env sock req = Some h" "trim h \<noteq> []"
    and front: "fq_body req = Some body" "length body \<le> MAX_BODY_SIZE" "fe_builds env req" "fe_backend env sock = indexer_backend cx sv nl now allow q"
    and health: "lit ''https://'' @ trim h @ path_and_query path (fq_query req) = url
      \<or> \<not> public_health_request (cx_cfg cx) (backend_req env sock path req)"
  shows "handle_front env dir req = shown sock
    (if lit ''https://'' @ trim h @ path_and_query path (fq_query req) = url
     then bind_out (render (fst (handle_request cx q (fq_method req) path (fq_query req) body))) (apply_common_headers sv)
     else apply_common_headers sv (unauthorized_response UrlMismatch))"
proof -
  let ?r = "backend_req env sock path req"
  have no_fwd: "\<not> contains_key (fq_headers req) ''x-forwarded-proto''" "\<not> contains_key (fq_headers req) ''upgrade''"
    using sent by (simp_all add: sent_as_def)
  have fields: "hr_method ?r = fq_method req" "hr_path ?r = path" "hr_query ?r = fq_query req" by (simp_all add: backend_req_def Let_def)
  have "path \<noteq> []" using path(1) by (auto simp: lit_def)
  then have u: "reconstruct_from_req ?r = lit ''https://'' @ trim h @ path_and_query path (fq_query req)"
    by (rule backend_url [OF no_fwd(1) host])
  have a: "auth_header_from ?r = Some hdr"
    using backend_headers(3) [OF no_fwd(1)] sent by (simp add: auth_header_from_def sent_as_def)
  have m: "eq_ignore_ascii_case (method_str (fq_method req)) (method_str (fq_method req))" by (simp add: eq_ignore_ascii_case_def)
  have v: "verify_nip98 nl (auth_header_from ?r) (method_str (hr_method ?r)) (reconstruct_from_req ?r) body now NIP98_WINDOW_SECS allow
      = (if lit ''https://'' @ trim h @ path_and_query path (fq_query req) = url then Ok pk else Err UrlMismatch)"
    unfolding u a fields by (rule verify_of_event [OF hdr(1,2) lib hdr(3) ev clock m payload pk])
  have "handle_front env dir req = shown sock (fst (handle_one_rest_request cx sv nl now allow ?r (BodyRead body) q))"
    using front_to_indexer [OF sent_route [OF sent path(1,2)] front(1,3) no_fwd(2) front(4) [unfolded sock_def]] by (simp add: sock_def)
  also have "\<dots> = shown sock
    (if lit ''https://'' @ trim h @ path_and_query path (fq_query req) = url
     then bind_out (render (fst (handle_request cx q (hr_method ?r) (hr_path ?r) (hr_query ?r) body))) (apply_common_headers sv)
     else apply_common_headers sv (unauthorized_response UrlMismatch))"
    by (rule arg_cong [OF gate_decides [OF v]]) (use path(3) front(2) health in \<open>simp_all add: fields\<close>)
  finally show ?thesis unfolding fields .
qed

section \<open>Properties\<close>

text \<open>C35: a request the web client makes is answered: the client hands its transport the public URL and a header; and
  when that request reaches the front for the host of its origin, with the key listed at the indexer and the clocks
  within the window, the client is shown what the handler of the indexer of that network answers to the path
  without the prefix, because the URL the indexer reconstructs is the one that was signed.\<close>

theorem web_request_answered:
  assumes signer: "sg_public_key_hex sg = Ok hexpk" "sg_sign_event_json sg (unsigned_get hexpk created origin ip) = Ok evj"
    and ev: "event_of nl evj (unsigned_get hexpk created origin ip) pk" "decodes_base64 nl"
    and evj: "utf8_encode evj \<noteq> []" "length (utf8_encode evj) \<le> MAX_NIP98_AUTH_EVENT_BYTES" "\<not> mentions_secret evj"
    and origin: "origin = lit ''https://'' @ h" "h \<noteq> []" "trim h = h"
    and path: "ip = path_and_query path query" "starts_with path (lit ''/'')" "\<not> ws_path path" "path \<noteq> lit ''/api/v1/ws''"
    and key: "pk \<in> al_keys allow" "now \<le> created + NIP98_WINDOW_SECS" "created \<le> now + NIP98_WINDOW_SECS"
  shows "\<exists>hdr. (\<forall>transport. fetch_indexer (Some sg) origin n ip created transport = transport (origin @ api_prefix n @ ip) hdr)
    \<and> (\<forall>req env dir. sent_as req n path hdr \<and> fq_method req = Get \<and> fq_query req = query \<and> fq_body req = Some []
          \<and> header_text (fq_headers req) ''host'' = Some h \<and> fe_builds env req
          \<and> fe_backend env (http_socket_path dir (network_of n)) = indexer_backend cx sv nl now allow q \<longrightarrow>
        handle_front env dir req = shown (http_socket_path dir (network_of n))
          (bind_out (render (fst (handle_request cx q Get path query []))) (apply_common_headers sv)))"
proof -
  obtain hdr where hdr: "authorization_header evj = Some hdr" using evj(3) by (simp add: authorization_header_def)
  let ?u = "unsigned_get hexpk created origin ip"
  have u: "un_kind ?u = KIND_NIP98" "un_created_at ?u = created" "un_tags ?u = nip98_tags (origin @ ip) (lit ''GET'') None"
    by (simp_all add: unsigned_get_def unsigned_method_def nip98_u_url_def)
  have "fetch_indexer (Some sg) origin n ip created transport = transport (origin @ api_prefix n @ ip) hdr" for transport
    using signer hdr by (simp add: fetch_indexer_def ok_or_def browser_fetch_url_def)
  moreover have "handle_front env dir req = shown (http_socket_path dir (network_of n))
        (bind_out (render (fst (handle_request cx q Get path query []))) (apply_common_headers sv))"
    if r: "sent_as req n path hdr \<and> fq_method req = Get \<and> fq_query req = query \<and> fq_body req = Some []
          \<and> header_text (fq_headers req) ''host'' = Some h \<and> fe_builds env req
          \<and> fe_backend env (http_socket_path dir (network_of n)) = indexer_backend cx sv nl now allow q" for req env dir
  proof -
    have get: "un_tags ?u = nip98_tags (origin @ ip) (method_str (fq_method req)) None" using r u(3) by (simp add: method_str_def)
    have host: "seen_host env (http_socket_path dir (network_of n)) req = Some h"
      using r header_text_absent [of "fq_headers req" "''host''"] by (auto simp: seen_host_def)
    have url: "lit ''https://'' @ trim h @ path_and_query path (fq_query req) = origin @ ip" using r origin path(1) by simp
    show ?thesis
      using front_verdict [where req = req and dir = dir and n = n and path = path and hdr = hdr and evj = evj and nl = nl and u = ?u
          and pk = pk and url = "origin @ ip" and payload = None and now = now and body = "[]" and allow = allow and env = env and h = h
          and cx = cx and sv = sv and q = q, OF _ path(2-4) hdr evj(1,2) ev(2,1) u(1) get _ _ _ key(1) host]
        r u(2) url key origin by simp
  qed
  ultimately show ?thesis by blast
qed

text \<open>A library, a signer and an indexer for the examples: the event is always the text \<open>{}\<close>, which decodes to a given
  list of tags.\<close>

definition demo_nostr_lib :: "utext list list \<Rightarrow> unit nostr_lib" where
  "demo_nostr_lib tags = demo_nostr\<lparr>nl_base64 := b64_decode,
     nl_json := (\<lambda>_. Some (JObject [(lit ''kind'', JNumber (PosInt 27235)), (lit ''created_at'', JNumber (PosInt 100)), (lit ''tags'', json_tags tags)]))\<rparr>"

definition demo_sent :: "utext \<Rightarrow> (string \<times> utext option) list \<Rightarrow> front_req" where
  "demo_sent hdr hs = \<lparr>fq_method = Get, fq_path = lit ''/api/mempool'', fq_query = None,
     fq_headers = (''authorization'', Some hdr) # hs, fq_ws_key = None, fq_body = Some []\<rparr>"

definition demo_edge_env :: "unit nostr_lib \<Rightarrow> ((bytes \<times> bytes) list, nat, nat) query \<Rightarrow> nat front_env" where
  "demo_edge_env nl q = \<lparr>fe_builds = (\<lambda>_. True), fe_default_host = (\<lambda>_. lit ''2f72''),
     fe_backend = (\<lambda>_. indexer_backend demo_cx demo_sv nl 120 \<lparr>al_keys = {demo_hash 1}\<rparr> q)\<rparr>"

definition demo_signer :: nip98_signer where
  "demo_signer = \<lparr>sg_public_key_hex = Ok [], sg_sign_event_json = (\<lambda>_. Ok (lit ''{}''))\<rparr>"

definition demo_path :: utext where
  "demo_path = lit ''/mempool''"

lemma demo_path_facts: "starts_with demo_path (lit ''/'')" "\<not> ws_path demo_path" "demo_path \<noteq> lit ''/api/v1/ws''"
  by (simp_all add: demo_path_def ws_path_def lit_def)

lemma demo_text: "utf8_encode (lit ''{}'') \<noteq> []" "length (utf8_encode (lit ''{}'')) \<le> MAX_NIP98_AUTH_EVENT_BYTES"
    "\<not> mentions_secret (lit ''{}'')"
  by (simp_all add: utf8_encode_def lit_def MAX_NIP98_AUTH_EVENT_BYTES_def mentions_secret_def starts_with_def atLeastAtMostSuc_conv)

lemma demo_event:
  "un_kind u = 27235 \<Longrightarrow> un_created_at u = 100 \<Longrightarrow> un_tags u = tags \<Longrightarrow> event_of (demo_nostr_lib tags) t u (demo_hash 1)"
  "decodes_base64 (demo_nostr_lib tags)"
  by (simp_all add: event_of_def demo_nostr_lib_def demo_nostr_def decodes_base64_def b64_decode_encode lit_def)

lemma demo_sent_as: "sent_as (demo_sent hdr []) Mainnet demo_path hdr" "sent_as (demo_sent hdr [(''host'', Some h)]) Mainnet demo_path hdr"
  by (simp_all add: sent_as_def demo_sent_def demo_path_def api_prefix_def lit_def)

lemma demo_sent_fields [simp]: "fq_method (demo_sent hdr hs) = Get" "fq_query (demo_sent hdr hs) = None" "fq_body (demo_sent hdr hs) = Some []"
    "fq_headers (demo_sent hdr hs) = (''authorization'', Some hdr) # hs"
  by (simp_all add: demo_sent_def)

lemma demo_edge_fields [simp]: "fe_builds (demo_edge_env nl q) r" "fe_default_host (demo_edge_env nl q) s = lit ''2f72''"
    "fe_backend (demo_edge_env nl q) s = indexer_backend demo_cx demo_sv nl 120 \<lparr>al_keys = {demo_hash 1}\<rparr> q"
  by (simp_all add: demo_edge_env_def)

lemma demo_header: "authorization_header (lit ''{}'') = Some hdr \<Longrightarrow> starts_with hdr (lit ''Nostr '') \<and> \<not> mentions_secret hdr"
proof -
  assume h: "authorization_header (lit ''{}'') = Some hdr"
  let ?b = "standard_base64 (utf8_encode (lit ''{}''))"
  have "length ?b = 4" by (simp add: utf8_encode_def lit_def push_quantum_def Let_def)
  then obtain c0 c1 c2 c3 where "?b = [c0, c1, c2, c3]" by (auto simp: numeral_eq_Suc length_Suc_conv)
  then have "hdr = lit ''Nostr '' @ [c0, c1, c2, c3]" using h demo_text(3) by (simp add: authorization_header_def)
  then show ?thesis by (simp add: mentions_secret_def lit_def starts_with_def atLeastAtMostSuc_conv)
qed

lemma demo_indexer_url: "this_project_indexer_url (api_root Mainnet @ demo_path)"
proof -
  have "starts_with (api_root Mainnet @ demo_path) (lit ''https://'')" by (simp add: api_root_def BASE_URL_def lit_def)
  moreover have "strip_prefix (api_root Mainnet) (api_root Mainnet @ demo_path) = Some demo_path" by (simp add: strip_prefix_def)
  moreover have "Mainnet \<in> set api_networks" by (simp add: api_networks_def)
  moreover have "\<not> (\<exists>n\<in>{0..length demo_path}. starts_with (drop n demo_path) (lit ''//''))" "63 \<notin> set demo_path" "35 \<notin> set demo_path"
    by (simp_all add: demo_path_def lit_def starts_with_def atLeastAtMostSuc_conv)
  ultimately show ?thesis
    using demo_path_facts(1) unfolding this_project_indexer_url_def by (intro conjI bexI [of _ Mainnet]) simp_all
qed

lemma demo_not_health: "\<not> public_health_request cfg (backend_req env s demo_path req)"
  by (simp add: public_health_request_def backend_req_def Let_def is_public_health_path_def demo_path_def lit_def)

theorem web_request_answered_witness:
  "\<exists>hdr. \<forall>q. handle_front (demo_edge_env (demo_nostr_lib (nip98_tags (lit ''https://a.b/mempool'') (lit ''GET'') None)) q) [] (demo_sent hdr [(''host'', Some (lit ''a.b''))])
      = shown (http_socket_path [] NetMainnet)
          (bind_out (render (fst (handle_request demo_cx q Get demo_path None []))) (apply_common_headers demo_sv))"
proof -
  let ?origin = "lit ''https://a.b''" and ?nl = "demo_nostr_lib (nip98_tags (lit ''https://a.b/mempool'') (lit ''GET'') None)"
  let ?u = "unsigned_get [] 100 ?origin demo_path"
  have u: "un_kind ?u = 27235" "un_created_at ?u = 100" "un_tags ?u = nip98_tags (lit ''https://a.b/mempool'') (lit ''GET'') None"
    by (simp_all add: unsigned_get_def unsigned_method_def nip98_u_url_def KIND_NIP98_def demo_path_def lit_def)
  obtain hdr where hdr: "authorization_header (lit ''{}'') = Some hdr" using demo_text(3) by (simp add: authorization_header_def)
  have "handle_front (demo_edge_env ?nl q) [] (demo_sent hdr [(''host'', Some (lit ''a.b''))])
      = shown (http_socket_path [] NetMainnet)
          (bind_out (render (fst (handle_request demo_cx q Get demo_path None []))) (apply_common_headers demo_sv))" for q
  proof -
    have "\<exists>hdr'. (\<forall>transport. fetch_indexer (Some demo_signer) ?origin Mainnet demo_path 100 transport
          = (transport (?origin @ api_prefix Mainnet @ demo_path) hdr' :: (client_error, utext) outcome))
      \<and> (\<forall>req env dir. sent_as req Mainnet demo_path hdr' \<and> fq_method req = Get \<and> fq_query req = None \<and> fq_body req = Some []
            \<and> header_text (fq_headers req) ''host'' = Some (lit ''a.b'') \<and> fe_builds env req
            \<and> fe_backend env (http_socket_path dir (network_of Mainnet)) = indexer_backend demo_cx demo_sv ?nl 120 \<lparr>al_keys = {demo_hash 1}\<rparr> q \<longrightarrow>
          handle_front env dir req = shown (http_socket_path dir (network_of Mainnet))
            (bind_out (render (fst (handle_request demo_cx q Get demo_path None []))) (apply_common_headers demo_sv)))"
    proof (rule web_request_answered)
      show "event_of ?nl (lit ''{}'') ?u (demo_hash 1)" using u by (rule demo_event)
    qed (use demo_text demo_event(2) demo_path_facts in \<open>simp_all add: demo_signer_def path_and_query_def NIP98_WINDOW_SECS_def,
        simp_all add: lit_def trim_def is_white_def\<close>)
    then obtain hdr' where a: "\<forall>transport. fetch_indexer (Some demo_signer) ?origin Mainnet demo_path 100 transport
          = (transport (?origin @ api_prefix Mainnet @ demo_path) hdr' :: (client_error, utext) outcome)"
      and b: "\<forall>req env dir. sent_as req Mainnet demo_path hdr' \<and> fq_method req = Get \<and> fq_query req = None \<and> fq_body req = Some []
            \<and> header_text (fq_headers req) ''host'' = Some (lit ''a.b'') \<and> fe_builds env req
            \<and> fe_backend env (http_socket_path dir (network_of Mainnet)) = indexer_backend demo_cx demo_sv ?nl 120 \<lparr>al_keys = {demo_hash 1}\<rparr> q \<longrightarrow>
          handle_front env dir req = shown (http_socket_path dir (network_of Mainnet))
            (bind_out (render (fst (handle_request demo_cx q Get demo_path None []))) (apply_common_headers demo_sv))"
      by blast
    have "hdr' = hdr"
      using a [rule_format, of "\<lambda>_ t. Ok t"] hdr by (simp add: fetch_indexer_def demo_signer_def ok_or_def)
    then show ?thesis
      using b [rule_format, of "demo_sent hdr [(''host'', Some (lit ''a.b''))]" "demo_edge_env ?nl q" "[]"] demo_sent_as
      by (simp add: network_of_def)
  qed
  then show ?thesis by blast
qed

lemma called_with:
  assumes "call_indexer_with_signer sha (Some sign) url m body transport = Ok ((evj, hdr), response)"
  shows "authorization_header evj = Some hdr"
proof -
  obtain signed' where s: "sign_http sha sign url m body = Ok signed'"
    and t: "(case transport \<lparr>ia_method = m, ia_url = url, ia_authorization = snd signed'\<rparr> of
        Ok response \<Rightarrow> Ok (signed', response) | Err _ \<Rightarrow> Err SIndexer | Panic s \<Rightarrow> Panic s) = Ok ((evj, hdr), response)"
    using assms by (auto simp: call_indexer_with_signer_def split: if_splits)
  from t have "signed' = (evj, hdr)" by (simp split: outcome.splits)
  then show ?thesis using s unfolding sign_http_def by (auto simp: ok_or_def split: if_splits option.splits)
qed

text \<open>C36: a request the native client makes through the front is refused, even with a listed key and the clocks in
  step: the client signs the public URL with its prefix, the front strips the prefix, and the URL the indexer
  reconstructs is another. Only the public health paths are answered.\<close>

theorem native_request_refused:
  assumes called: "call_indexer_with_signer sha (Some sign) (api_root n @ path) (method_str meth) body transport = Ok ((evj, hdr), response)"
    and ev: "event_of nl evj u pk" "un_kind u = KIND_NIP98" "un_tags u = nip98_tags (api_root n @ path) (method_str meth) payload"
    and lib: "decodes_base64 nl" "utf8_encode evj \<noteq> []" "length (utf8_encode evj) \<le> MAX_NIP98_AUTH_EVENT_BYTES"
      "\<forall>p. payload = Some p \<longrightarrow> ascii_lower p = hex_encode (nl_sha256 nl sent)"
    and path: "starts_with path (lit ''/'')" "\<not> ws_path path" "path \<noteq> lit ''/api/v1/ws''"
    and key: "pk \<in> al_keys allow" "now \<le> un_created_at u + NIP98_WINDOW_SECS" "un_created_at u \<le> now + NIP98_WINDOW_SECS"
    and req: "sent_as req n path hdr" "fq_method req = meth" "fq_query req = None" "fq_body req = Some sent" "length sent \<le> MAX_BODY_SIZE"
      "header_text (fq_headers req) ''host'' = Some (lit ''splora.surmount.systems'')" "fe_builds env req"
    and idx: "fe_backend env (http_socket_path dir (network_of n)) = indexer_backend cx sv nl now allow q"
      "\<not> public_health_request (cx_cfg cx) (backend_req env (http_socket_path dir (network_of n)) path req)"
  shows "handle_front env dir req
    = shown (http_socket_path dir (network_of n)) (apply_common_headers sv (unauthorized_response UrlMismatch))"
proof -
  let ?h = "lit ''splora.surmount.systems''"
  have trim: "trim ?h = ?h" "?h \<noteq> []" by (simp_all add: trim_def lit_def is_white_def)
  have hdr: "authorization_header evj = Some hdr" using called by (rule called_with)
  have host: "seen_host env (http_socket_path dir (network_of n)) req = Some ?h"
    using req(6) header_text_absent [of "fq_headers req" "''host''"] by (auto simp: seen_host_def)
  have "api_prefix n \<noteq> []" by (cases n) (simp_all add: api_prefix_def lit_def)
  then have other: "lit ''https://'' @ trim ?h @ path_and_query path (fq_query req) \<noteq> api_root n @ path"
    using trim req(3) by (simp add: api_root_def BASE_URL_def path_and_query_def lit_def)
  show ?thesis
    using front_verdict [OF req(1) path hdr lib(2,3,1) ev(1,2) _ key(2,3) lib(4) key(1) host _ req(4,5,7) idx(1)] other idx(2)
      ev(3) req(2) trim by simp
qed

theorem native_request_refused_witness:
  "\<exists>hdr. \<forall>q. handle_front (demo_edge_env (demo_nostr_lib (nip98_tags (api_root Mainnet @ demo_path) (lit ''GET'') None)) q) []
        (demo_sent hdr [(''host'', Some (lit ''splora.surmount.systems''))])
      = shown (http_socket_path [] NetMainnet) (apply_common_headers demo_sv (unauthorized_response UrlMismatch))"
proof -
  let ?tags = "nip98_tags (api_root Mainnet @ demo_path) (lit ''GET'') None"
  let ?u = "\<lparr>un_pubkey = [], un_created_at = 100, un_kind = 27235, un_tags = ?tags, un_content = []\<rparr>"
  obtain hdr where hdr: "authorization_header (lit ''{}'') = Some hdr" using demo_text(3) by (simp add: authorization_header_def)
  have called: "call_indexer_with_signer (\<lambda>_. []) (Some (\<lambda>_ _ _. Ok (lit ''{}''))) (api_root Mainnet @ demo_path) (method_str Get) None (\<lambda>_. Ok [])
      = Ok ((lit ''{}'', hdr), [])"
    using demo_indexer_url demo_text(3) hdr demo_header [OF hdr] by (simp add: call_indexer_with_signer_def sign_http_def ok_or_def)
  have ev: "event_of (demo_nostr_lib ?tags) (lit ''{}'') ?u (demo_hash 1)" by (rule demo_event) simp_all
  have "handle_front (demo_edge_env (demo_nostr_lib ?tags) q) [] (demo_sent hdr [(''host'', Some (lit ''splora.surmount.systems''))])
      = shown (http_socket_path [] (network_of Mainnet)) (apply_common_headers demo_sv (unauthorized_response UrlMismatch))" for q
    by (rule native_request_refused [OF called ev, where payload = None and sent = "[]" and now = 120 and allow = "\<lparr>al_keys = {demo_hash 1}\<rparr>"
          and cx = demo_cx and q = q])
      (use demo_text demo_event(2) demo_path_facts demo_sent_as demo_not_health in
        \<open>simp_all add: KIND_NIP98_def method_str_def NIP98_WINDOW_SECS_def\<close>)
  then show ?thesis by (auto simp: network_of_def)
qed

text \<open>A request that carries no \<open>Host\<close> header, as one of HTTP/2 or HTTP/3, whose authority is not a header, is
  refused although its client signed the URL it asked for: the front forwards headers only, and the indexer reads
  the host its own client library made up for the socket.\<close>

theorem hostless_request_refused:
  assumes hdr: "authorization_header evj = Some hdr" "utf8_encode evj \<noteq> []" "length (utf8_encode evj) \<le> MAX_NIP98_AUTH_EVENT_BYTES"
    and ev: "event_of nl evj (unsigned_get hexpk created (lit ''https://'' @ h) ip) pk" "decodes_base64 nl"
    and path: "ip = path_and_query path (fq_query req)" "starts_with path (lit ''/'')" "\<not> ws_path path" "path \<noteq> lit ''/api/v1/ws''"
    and key: "pk \<in> al_keys allow" "now \<le> created + NIP98_WINDOW_SECS" "created \<le> now + NIP98_WINDOW_SECS"
    and req: "sent_as req n path hdr" "fq_method req = Get" "fq_body req = Some []" "\<not> contains_key (fq_headers req) ''host''" "fe_builds env req"
    and host: "trim (fe_default_host env (http_socket_path dir (network_of n))) \<notin> {[], h}"
    and idx: "fe_backend env (http_socket_path dir (network_of n)) = indexer_backend cx sv nl now allow q"
      "\<not> public_health_request (cx_cfg cx) (backend_req env (http_socket_path dir (network_of n)) path req)"
  shows "handle_front env dir req
    = shown (http_socket_path dir (network_of n)) (apply_common_headers sv (unauthorized_response UrlMismatch))"
proof -
  let ?d = "fe_default_host env (http_socket_path dir (network_of n))" and ?u = "unsigned_get hexpk created (lit ''https://'' @ h) ip"
  have u: "un_kind ?u = KIND_NIP98" "un_created_at ?u = created" "un_tags ?u = nip98_tags ((lit ''https://'' @ h) @ ip) (method_str (fq_method req)) None"
    using req(2) by (simp_all add: unsigned_get_def unsigned_method_def nip98_u_url_def method_str_def)
  have seen: "seen_host env (http_socket_path dir (network_of n)) req = Some ?d" using req(4) by (simp add: seen_host_def)
  have len: "length ([] :: bytes) \<le> MAX_BODY_SIZE" by simp
  show ?thesis
    using front_verdict [OF req(1) path(2-4) hdr ev(2,1) u(1,3) _ _ _ key(1) seen _ req(3) len req(5) idx(1)] idx(2) key(2,3) host path(1) u(2)
    by simp
qed

theorem hostless_request_refused_witness:
  "\<exists>hdr. \<forall>q. handle_front (demo_edge_env (demo_nostr_lib (nip98_tags (lit ''https://a.b/mempool'') (lit ''GET'') None)) q) [] (demo_sent hdr [])
      = shown (http_socket_path [] NetMainnet) (apply_common_headers demo_sv (unauthorized_response UrlMismatch))"
proof -
  let ?nl = "demo_nostr_lib (nip98_tags (lit ''https://a.b/mempool'') (lit ''GET'') None)"
  let ?u = "unsigned_get [] 100 (lit ''https://'' @ lit ''a.b'') demo_path"
  have u: "un_kind ?u = 27235" "un_created_at ?u = 100" "un_tags ?u = nip98_tags (lit ''https://a.b/mempool'') (lit ''GET'') None"
    by (simp_all add: unsigned_get_def unsigned_method_def nip98_u_url_def KIND_NIP98_def demo_path_def lit_def)
  obtain hdr where hdr: "authorization_header (lit ''{}'') = Some hdr" using demo_text(3) by (simp add: authorization_header_def)
  have ev: "event_of ?nl (lit ''{}'') ?u (demo_hash 1)" using u by (rule demo_event)
  have d: "trim (lit ''2f72'') = lit ''2f72''" "lit ''2f72'' \<notin> {[], lit ''a.b''}" by (simp_all add: trim_def lit_def is_white_def)
  have "handle_front (demo_edge_env ?nl q) [] (demo_sent hdr [])
      = shown (http_socket_path [] (network_of Mainnet)) (apply_common_headers demo_sv (unauthorized_response UrlMismatch))" for q
    by (rule hostless_request_refused [OF hdr demo_text(1,2) ev demo_event(2), where now = 120 and allow = "\<lparr>al_keys = {demo_hash 1}\<rparr>"
          and cx = demo_cx and q = q])
      (use demo_path_facts demo_sent_as demo_not_health d in
        \<open>simp_all add: NIP98_WINDOW_SECS_def path_and_query_def\<close>)
  then show ?thesis by (auto simp: network_of_def)
qed

end
