(* ===== verification/Daemon_Rpc.thy ===== *)
theory Daemon_Rpc
  imports Text_Json "HOL-Library.Countable"
begin

text \<open>
  The JSON-RPC transport of \<^verbatim>\<open>src/daemon.rs\<close>: one connection to bitcoind, the HTTP exchange on it, batches of
  requests with a tolerated number of failures, and the two ways to ask, one that reconnects for ever and one that
  does not. The peer is an argument: what it answers, and whether it accepts a connection, is decided by its state.
  Waiting for the peer or for a signal is one step; \<open>None\<close> is a call that never returns.
\<close>

section \<open>Errors and libraries\<close>

datatype rpc_error = RpcMsg string | RpcConnection utext | RpcInterrupt int | RpcBusy utext | RpcUnavailable utext

record 'f rpc_lib =
  rp_print :: "'f json \<Rightarrow> utext"
  rp_parse :: "utext \<Rightarrow> 'f json option"
  rp_base64 :: "bytes \<Rightarrow> utext"
  rp_hex_decode :: "utext \<Rightarrow> bytes option"
  rp_hash_text :: "hash \<Rightarrow> utext"
  rp_parse_hash :: "utext \<Rightarrow> hash option"

datatype line_in = Line utext | ReadFailed

datatype connect_result = Connected | Refused | CloneFailed

text \<open>The peer of a connection: the cookie, a write with the lines that will be read for it, an attempt to connect, and
  the wait for a signal.\<close>

record 'p peer =
  pe_cookie :: "'p \<Rightarrow> (rpc_error, bytes) outcome"
  pe_write :: "utext \<Rightarrow> 'p \<Rightarrow> bool \<times> line_in list \<times> 'p"
  pe_connect :: "'p \<Rightarrow> connect_result \<times> 'p"
  pe_wait :: "'p \<Rightarrow> int option \<times> 'p"

record 'p daemon_state =
  ds_lines :: "line_in list"
  ds_peer :: 'p
  ds_message_id :: nat

section \<open>Values\<close>

fun as_i64 :: "'f json \<Rightarrow> int option" where
  "as_i64 (JNumber (PosInt n)) = (if n < 2 ^ 63 then Some (int n) else None)"
| "as_i64 (JNumber (NegInt i)) = Some i"
| "as_i64 _ = None"

definition sendrawtransaction_params :: "utext \<Rightarrow> 'f json" where
  "sendrawtransaction_params txhex = JArray [JString txhex, JNumber (PosInt 0)]"

definition rpc_parse_hash :: "'f rpc_lib \<Rightarrow> 'f json \<Rightarrow> (rpc_error, hash) outcome" where
  "rpc_parse_hash rl v =
     bind_out (ok_or (RpcMsg ''non-string value'') (as_str v)) (\<lambda>s. ok_or (RpcMsg ''failed to parse hash'') (rp_parse_hash rl s))"

definition header_from_value :: "'f rpc_lib \<Rightarrow> bitcoin_lib \<Rightarrow> 'f json \<Rightarrow> (rpc_error, block_header) outcome" where
  "header_from_value rl lib v =
     bind_out (ok_or (RpcMsg ''non-string header'') (as_str v)) (\<lambda>header_hex.
     bind_out (ok_or (RpcMsg ''non-hex header'') (rp_hex_decode rl header_hex)) (\<lambda>header_bytes.
     ok_or (RpcMsg ''failed to parse header'') (lib_deserialize_header lib header_bytes)))"

definition block_from_value :: "'f rpc_lib \<Rightarrow> bitcoin_lib \<Rightarrow> 'f json \<Rightarrow> (rpc_error, block) outcome" where
  "block_from_value rl lib v =
     bind_out (ok_or (RpcMsg ''non-string block'') (as_str v)) (\<lambda>block_hex.
     bind_out (ok_or (RpcMsg ''non-hex block'') (rp_hex_decode rl block_hex)) (\<lambda>block_bytes.
     ok_or (RpcMsg ''failed to parse block'') (lib_deserialize_block lib block_bytes)))"

definition tx_from_value :: "'f rpc_lib \<Rightarrow> bitcoin_lib \<Rightarrow> 'f json \<Rightarrow> (rpc_error, transaction) outcome" where
  "tx_from_value rl lib v =
     bind_out (ok_or (RpcMsg ''non-string tx'') (as_str v)) (\<lambda>tx_hex.
     bind_out (ok_or (RpcMsg ''non-hex tx'') (rp_hex_decode rl tx_hex)) (\<lambda>tx_bytes.
     ok_or (RpcMsg ''failed to parse tx'') (lib_deserialize_tx lib tx_bytes)))"

fun parse_error_code :: "'f json \<Rightarrow> int option" where
  "parse_error_code (JObject members) = Option.bind (map_of members (lit ''code'')) as_i64"
| "parse_error_code _ = None"

definition classify_daemon_http_status :: "utext \<Rightarrow> utext \<Rightarrow> (rpc_error, utext) outcome" where
  "classify_daemon_http_status status contents =
     (if status = lit ''HTTP/1.1 200 OK'' then Ok contents
      else if status = lit ''HTTP/1.1 500 Internal Server Error'' then Ok contents
      else if starts_with status (lit ''HTTP/1.1 503'') then Err (RpcBusy contents)
      else if starts_with status (lit ''HTTP/1.1 504'') then Err (RpcUnavailable contents)
      else Err (RpcMsg ''request failed''))"

fun parse_jsonrpc_reply :: "'f rpc_lib \<Rightarrow> 'f json \<Rightarrow> nat \<Rightarrow> (rpc_error, 'f json) outcome" where
  "parse_jsonrpc_reply rl (JObject reply_obj) expected_id =
     (let rest =
        bind_out (ok_or (RpcMsg ''no id in reply'') (map_of reply_obj (lit ''id''))) (\<lambda>id.
        if as_u64 id \<noteq> Some expected_id then Err (RpcMsg ''wrong response id'')
        else ok_or (RpcMsg ''no result in reply'') (map_of reply_obj (lit ''result'')))
      in case map_of reply_obj (lit ''error'') of
           None \<Rightarrow> rest
         | Some err \<Rightarrow>
             if err = JNull then rest
             else (case parse_error_code err of
                     None \<Rightarrow> rest
                   | Some code \<Rightarrow> if code = -28 then Err (RpcConnection (rp_print rl err)) else Err (RpcMsg ''RPC error''))) "
| "parse_jsonrpc_reply rl reply expected_id = Err (RpcMsg ''non-object reply'')"

section \<open>One exchange\<close>

text \<open>\<open>line.splitn(2, ": ")\<close> with two parts.\<close>

fun split_header :: "utext \<Rightarrow> (utext \<times> utext) option" where
  "split_header (a # b # cs) =
     (if a = 58 \<and> b = 32 then Some ([], cs) else map_option (\<lambda>(k, v). (a # k, v)) (split_header (b # cs)))"
| "split_header _ = None"

fun recv_lines :: "bool \<Rightarrow> (utext \<rightharpoonup> utext) \<Rightarrow> line_in list \<Rightarrow> (rpc_error, utext option \<times> (utext \<rightharpoonup> utext)) outcome \<times> line_in list" where
  "recv_lines in_header headers [] = (Ok (None, headers), [])"
| "recv_lines in_header headers (ReadFailed # rest) = (Err (RpcConnection (lit ''failed to read'')), rest)"
| "recv_lines in_header headers (Line l # rest) =
     (if l = [] then recv_lines False headers rest
      else if in_header
      then recv_lines in_header (case split_header l of Some (k, v) \<Rightarrow> headers(k \<mapsto> v) | None \<Rightarrow> headers) rest
      else (Ok (Some l, headers), rest))"

definition expected_length :: "nat \<Rightarrow> nat" where
  "expected_length contents_length = (if contents_length = 0 then 2 ^ 64 - 1 else contents_length - 1)"

definition rpc_recv :: "line_in list \<Rightarrow> (rpc_error, utext) outcome \<times> line_in list" where
  "rpc_recv ls =
     (case ls of
        [] \<Rightarrow> (Err (RpcConnection (lit ''disconnected from daemon while receiving'')), [])
      | ReadFailed # rest \<Rightarrow> (Err (RpcConnection (lit ''failed to read status'')), rest)
      | Line status # rest \<Rightarrow>
          (case recv_lines True Map.empty rest of
             (r, rest') \<Rightarrow>
               (bind_out r (\<lambda>(contents, headers).
                bind_out (ok_or (RpcConnection (lit ''no reply from daemon'')) contents) (\<lambda>contents.
                bind_out (ok_or (RpcMsg ''Content-Length is missing'') (headers (lit ''Content-Length''))) (\<lambda>contents_length.
                bind_out (ok_or (RpcMsg ''invalid Content-Length'') (parse_usize contents_length)) (\<lambda>contents_length.
                if expected_length contents_length \<noteq> utf8_len contents
                then Err (RpcConnection (lit ''expected '' @ show_nat (expected_length contents_length) @ lit '' bytes, got '' @ show_nat (utf8_len contents)))
                else classify_daemon_http_status status contents)))), rest')))"

definition request_text :: "'f rpc_lib \<Rightarrow> bytes \<Rightarrow> utext \<Rightarrow> utext" where
  "request_text rl cookie request =
     lit ''POST / HTTP/1.1'' @ [10] @ lit ''Authorization: Basic '' @ rp_base64 rl cookie @ [10]
     @ lit ''Content-Length: '' @ show_nat (utf8_len request) @ [10, 10] @ request"

definition rpc_send :: "'f rpc_lib \<Rightarrow> 'p peer \<Rightarrow> utext \<Rightarrow> 'p daemon_state \<Rightarrow> (rpc_error, unit) outcome \<times> 'p daemon_state" where
  "rpc_send rl pe request st =
     (case pe_cookie pe (ds_peer st) of
        Err e \<Rightarrow> (Err e, st)
      | Panic s \<Rightarrow> (Panic s, st)
      | Ok cookie \<Rightarrow>
          (case pe_write pe (request_text rl cookie request) (ds_peer st) of
             (written, lines, p) \<Rightarrow>
               (if written then Ok () else Err (RpcConnection (lit ''disconnected from daemon while sending'')),
                st\<lparr>ds_lines := ds_lines st @ lines, ds_peer := p\<rparr>)))"

definition call_jsonrpc :: "'f rpc_lib \<Rightarrow> 'p peer \<Rightarrow> 'f json \<Rightarrow> 'p daemon_state \<Rightarrow> (rpc_error, 'f json) outcome \<times> 'p daemon_state" where
  "call_jsonrpc rl pe request st =
     (case rpc_send rl pe (rp_print rl request) st of
        (Ok _, st1) \<Rightarrow>
          (case rpc_recv (ds_lines st1) of
             (r, ls) \<Rightarrow> (bind_out r (\<lambda>response. ok_or (RpcMsg ''invalid JSON'') (rp_parse rl response)), st1\<lparr>ds_lines := ls\<rparr>))
      | (Err e, st1) \<Rightarrow> (Err e, st1)
      | (Panic s, st1) \<Rightarrow> (Panic s, st1))"

section \<open>Batches\<close>

definition rpc_request :: "utext \<Rightarrow> nat \<Rightarrow> 'f json \<Rightarrow> 'f json" where
  "rpc_request meth i params = JObject [(lit ''id'', JNumber (PosInt i)), (lit ''method'', JString meth), (lit ''params'', params)]"

text \<open>The replies of one chunk, with the failures counted so far.\<close>

fun take_replies ::
  "'f rpc_lib \<Rightarrow> nat \<Rightarrow> nat \<Rightarrow> nat \<Rightarrow> 'f json list \<Rightarrow> 'f json list \<Rightarrow> (rpc_error, nat \<times> 'f json list) outcome"
where
  "take_replies rl i threshold failed results [] = Ok (failed, results)"
| "take_replies rl i threshold failed results (reply # replies) =
     (case parse_jsonrpc_reply rl reply i of
        Ok parsed \<Rightarrow> take_replies rl i threshold failed (results @ [parsed]) replies
      | Err e \<Rightarrow> if threshold < failed + 1 then Err e else take_replies rl i threshold (failed + 1) results replies
      | Panic s \<Rightarrow> Panic s)"

fun batch_loop ::
  "'f rpc_lib \<Rightarrow> 'p peer \<Rightarrow> utext \<Rightarrow> nat \<Rightarrow> nat \<Rightarrow> nat \<Rightarrow> 'f json list \<Rightarrow> 'f json list list \<Rightarrow> 'p daemon_state
    \<Rightarrow> (rpc_error, 'f json list) outcome \<times> 'p daemon_state"
where
  "batch_loop rl pe meth i threshold failed results [] st = (Ok results, st)"
| "batch_loop rl pe meth i threshold failed results (chunk # rest) st =
     (case call_jsonrpc rl pe (JArray (map (rpc_request meth i) chunk)) st of
        (Err e, st1) \<Rightarrow> (Err e, st1)
      | (Panic s, st1) \<Rightarrow> (Panic s, st1)
      | (Ok replies, st1) \<Rightarrow>
          (case as_array replies of
             None \<Rightarrow> (Err (RpcMsg ''non-array replies''), st1)
           | Some replies_vec \<Rightarrow>
               (case take_replies rl i threshold failed results replies_vec of
                  Ok (failed', results') \<Rightarrow> batch_loop rl pe meth i threshold failed' results' rest st1
                | Err e \<Rightarrow> (Err e, st1)
                | Panic s \<Rightarrow> (Panic s, st1))))"

text \<open>The two values the code passes for the tolerated share of failures, and \<open>(share * n as f64).round()\<close>.\<close>

datatype failure_share = NoFailures | QuarterFailures

definition failure_threshold :: "failure_share \<Rightarrow> nat \<Rightarrow> nat" where
  "failure_threshold s n = (case s of NoFailures \<Rightarrow> 0 | QuarterFailures \<Rightarrow> (n + 2) div 4)"

definition handle_request_batch ::
  "'f rpc_lib \<Rightarrow> 'p peer \<Rightarrow> utext \<Rightarrow> 'f json list \<Rightarrow> failure_share \<Rightarrow> 'p daemon_state \<Rightarrow> (rpc_error, 'f json list) outcome \<times> 'p daemon_state"
where
  "handle_request_batch rl pe meth params_list share st =
     (let i = (ds_message_id st + 1) mod 2 ^ 64
      in batch_loop rl pe meth i (failure_threshold share (length params_list)) 0 [] (chunks 50000 params_list) (st\<lparr>ds_message_id := i\<rparr>))"

section \<open>Connecting and retrying\<close>

definition peer_wait :: "'p peer \<Rightarrow> 'p daemon_state \<Rightarrow> (rpc_error, unit) outcome \<times> 'p daemon_state" where
  "peer_wait pe st =
     (case pe_wait pe (ds_peer st) of
        (sig, p) \<Rightarrow> (case sig of Some s \<Rightarrow> Err (RpcInterrupt s) | None \<Rightarrow> Ok (), st\<lparr>ds_peer := p\<rparr>))"

text \<open>\<open>Connection::new\<close>: attempts until one succeeds. A new connection starts with nothing to read.\<close>

partial_function (option) rpc_connect :: "'p peer \<Rightarrow> 'p daemon_state \<Rightarrow> ((rpc_error, unit) outcome \<times> 'p daemon_state) option" where
  "rpc_connect pe st =
     (case pe_connect pe (ds_peer st) of
        (result, p) \<Rightarrow>
          (case result of
             Connected \<Rightarrow> Some (Ok (), st\<lparr>ds_lines := [], ds_peer := p\<rparr>)
           | CloneFailed \<Rightarrow> Some (Err (RpcMsg ''failed to clone''), st\<lparr>ds_peer := p\<rparr>)
           | Refused \<Rightarrow>
               (case peer_wait pe (st\<lparr>ds_peer := p\<rparr>) of
                  (w, st1) \<Rightarrow> (case w of Ok _ \<Rightarrow> rpc_connect pe st1 | Err e \<Rightarrow> Some (Err e, st1) | Panic s \<Rightarrow> Some (Panic s, st1)))))"

partial_function (option) retry_request_batch ::
  "'f rpc_lib \<Rightarrow> 'p peer \<Rightarrow> utext \<Rightarrow> 'f json list \<Rightarrow> failure_share \<Rightarrow> 'p daemon_state
    \<Rightarrow> ((rpc_error, 'f json list) outcome \<times> 'p daemon_state) option"
where
  "retry_request_batch rl pe meth params_list share st =
     (case handle_request_batch rl pe meth params_list share st of
        (r, st1) \<Rightarrow>
          (case r of
             Err (RpcConnection msg) \<Rightarrow>
               (case peer_wait pe st1 of
                  (w, st2) \<Rightarrow>
                    (case w of
                       Ok _ \<Rightarrow>
                         Option.bind (rpc_connect pe st2) (\<lambda>(c, st3).
                           case c of
                             Ok _ \<Rightarrow> retry_request_batch rl pe meth params_list share st3
                           | Err e \<Rightarrow> Some (Err e, st3)
                           | Panic s \<Rightarrow> Some (Panic s, st3))
                     | Err e \<Rightarrow> Some (Err e, st2)
                     | Panic s \<Rightarrow> Some (Panic s, st2)))
           | _ \<Rightarrow> Some (r, st1)))"

definition one_value :: "'f json list \<Rightarrow> (rpc_error, 'f json) outcome" where
  "one_value values = (if length values \<noteq> 1 then Panic ''assert_eq values.len'' else Ok (hd values))"

definition daemon_request ::
  "'f rpc_lib \<Rightarrow> 'p peer \<Rightarrow> utext \<Rightarrow> 'f json \<Rightarrow> 'p daemon_state \<Rightarrow> ((rpc_error, 'f json) outcome \<times> 'p daemon_state) option"
where
  "daemon_request rl pe meth params st =
     map_option (\<lambda>(r, st'). (bind_out r one_value, st')) (retry_request_batch rl pe meth [params] NoFailures st)"

definition requests ::
  "'f rpc_lib \<Rightarrow> 'p peer \<Rightarrow> utext \<Rightarrow> 'f json list \<Rightarrow> 'p daemon_state \<Rightarrow> ((rpc_error, 'f json list) outcome \<times> 'p daemon_state) option"
where
  "requests rl pe meth params_list st = retry_request_batch rl pe meth params_list NoFailures st"

definition request_proxied ::
  "'f rpc_lib \<Rightarrow> 'p peer \<Rightarrow> utext \<Rightarrow> 'f json \<Rightarrow> 'p daemon_state \<Rightarrow> (rpc_error, 'f json) outcome \<times> 'p daemon_state"
where
  "request_proxied rl pe meth params st =
     (case handle_request_batch rl pe meth [params] NoFailures st of
        (r, st') \<Rightarrow>
          (case r of
             Ok values \<Rightarrow> (one_value values, st')
           | Err (RpcConnection msg) \<Rightarrow> (Err (RpcUnavailable (meth @ lit '' failed: '' @ msg)), st')
           | Err e \<Rightarrow> (Err e, st')
           | Panic s \<Rightarrow> (Panic s, st')))"

section \<open>Calls\<close>

text \<open>A call asks and then reads the answer.\<close>

definition rpc_then :: "((rpc_error, 'a) outcome \<times> 's) option \<Rightarrow> ('a \<Rightarrow> (rpc_error, 'b) outcome) \<Rightarrow> ((rpc_error, 'b) outcome \<times> 's) option" where
  "rpc_then call f = map_option (\<lambda>(r, st). (bind_out r f, st)) call"

definition hash_param :: "'f rpc_lib \<Rightarrow> hash \<Rightarrow> 'f json" where
  "hash_param rl h = JArray [JString (rp_hash_text rl h), JBool False]"

definition getbestblockhash :: "'f rpc_lib \<Rightarrow> 'p peer \<Rightarrow> 'p daemon_state \<Rightarrow> ((rpc_error, hash) outcome \<times> 'p daemon_state) option" where
  "getbestblockhash rl pe st = rpc_then (daemon_request rl pe (lit ''getbestblockhash'') (JArray []) st) (rpc_parse_hash rl)"

definition getblockheader ::
  "'f rpc_lib \<Rightarrow> bitcoin_lib \<Rightarrow> 'p peer \<Rightarrow> hash \<Rightarrow> 'p daemon_state \<Rightarrow> ((rpc_error, block_header) outcome \<times> 'p daemon_state) option"
where
  "getblockheader rl lib pe blockhash st =
     rpc_then (daemon_request rl pe (lit ''getblockheader'') (hash_param rl blockhash) st) (header_from_value rl lib)"

definition getblockheaders ::
  "'f rpc_lib \<Rightarrow> bitcoin_lib \<Rightarrow> 'p peer \<Rightarrow> nat list \<Rightarrow> 'p daemon_state \<Rightarrow> ((rpc_error, block_header list) outcome \<times> 'p daemon_state) option"
where
  "getblockheaders rl lib pe heights st =
     Option.bind (requests rl pe (lit ''getblockhash'') (map (\<lambda>h. JArray [JNumber (PosInt h)]) heights) st) (\<lambda>(r, st1).
       case r of
         Ok hashes \<Rightarrow>
           rpc_then (requests rl pe (lit ''getblockheader'') (map (\<lambda>h. JArray [h, JBool False]) hashes) st1)
             (collect_out (header_from_value rl lib))
       | Err e \<Rightarrow> Some (Err e, st1)
       | Panic s \<Rightarrow> Some (Panic s, st1))"

definition getblock ::
  "'f rpc_lib \<Rightarrow> bitcoin_lib \<Rightarrow> 'p peer \<Rightarrow> hash \<Rightarrow> 'p daemon_state \<Rightarrow> ((rpc_error, block) outcome \<times> 'p daemon_state) option"
where
  "getblock rl lib pe blockhash st =
     rpc_then (daemon_request rl pe (lit ''getblock'') (hash_param rl blockhash) st) (\<lambda>v.
       bind_out (block_from_value rl lib v) (\<lambda>b.
       if lib_block_hash lib (blk_header b) \<noteq> blockhash then Panic ''assert_eq block_hash'' else Ok b))"

definition getblock_raw ::
  "'f rpc_lib \<Rightarrow> 'p peer \<Rightarrow> hash \<Rightarrow> nat \<Rightarrow> 'p daemon_state \<Rightarrow> ((rpc_error, 'f json) outcome \<times> 'p daemon_state) option"
where
  "getblock_raw rl pe blockhash verbose st =
     daemon_request rl pe (lit ''getblock'') (JArray [JString (rp_hash_text rl blockhash), JNumber (PosInt verbose)]) st"

definition getblocks ::
  "'f rpc_lib \<Rightarrow> bitcoin_lib \<Rightarrow> 'p peer \<Rightarrow> hash list \<Rightarrow> 'p daemon_state \<Rightarrow> ((rpc_error, block list) outcome \<times> 'p daemon_state) option"
where
  "getblocks rl lib pe blockhashes st =
     rpc_then (requests rl pe (lit ''getblock'') (map (hash_param rl) blockhashes) st) (collect_out (block_from_value rl lib))"

definition gettransactions ::
  "'f rpc_lib \<Rightarrow> bitcoin_lib \<Rightarrow> 'p peer \<Rightarrow> hash list \<Rightarrow> 'p daemon_state \<Rightarrow> ((rpc_error, transaction list) outcome \<times> 'p daemon_state) option"
where
  "gettransactions rl lib pe txhashes st =
     rpc_then (retry_request_batch rl pe (lit ''getrawtransaction'') (map (hash_param rl) txhashes) QuarterFailures st)
       (collect_out (tx_from_value rl lib))"

definition gettransaction_raw ::
  "'f rpc_lib \<Rightarrow> 'p peer \<Rightarrow> hash \<Rightarrow> hash \<Rightarrow> bool \<Rightarrow> 'p daemon_state \<Rightarrow> ((rpc_error, 'f json) outcome \<times> 'p daemon_state) option"
where
  "gettransaction_raw rl pe txid blockhash verbose st =
     daemon_request rl pe (lit ''getrawtransaction'')
       (JArray [JString (rp_hash_text rl txid), JBool verbose, JString (rp_hash_text rl blockhash)]) st"

definition getmempooltx ::
  "'f rpc_lib \<Rightarrow> bitcoin_lib \<Rightarrow> 'p peer \<Rightarrow> hash \<Rightarrow> 'p daemon_state \<Rightarrow> ((rpc_error, transaction) outcome \<times> 'p daemon_state) option"
where
  "getmempooltx rl lib pe txhash st =
     rpc_then (daemon_request rl pe (lit ''getrawtransaction'') (hash_param rl txhash) st) (tx_from_value rl lib)"

definition getmempooltxids :: "'f rpc_lib \<Rightarrow> 'p peer \<Rightarrow> 'p daemon_state \<Rightarrow> ((rpc_error, hash set) outcome \<times> 'p daemon_state) option" where
  "getmempooltxids rl pe st =
     rpc_then (daemon_request rl pe (lit ''getrawmempool'') (JArray [JBool False]) st) (\<lambda>v.
       case Option.bind (as_array v) (\<lambda>vs. those (map (\<lambda>x. Option.bind (as_str x) (rp_parse_hash rl)) vs)) of
         Some hs \<Rightarrow> Ok (set hs)
       | None \<Rightarrow> Err (RpcMsg ''invalid getrawmempool reply''))"

definition getblocktemplate :: "'f rpc_lib \<Rightarrow> 'p peer \<Rightarrow> utext list \<Rightarrow> 'p daemon_state \<Rightarrow> (rpc_error, 'f json) outcome \<times> 'p daemon_state" where
  "getblocktemplate rl pe rules st =
     request_proxied rl pe (lit ''getblocktemplate'') (JArray [JObject [(lit ''rules'', JArray (map JString rules))]]) st"

definition rpc_broadcast_raw :: "'f rpc_lib \<Rightarrow> 'p peer \<Rightarrow> utext \<Rightarrow> 'p daemon_state \<Rightarrow> (rpc_error, hash) outcome \<times> 'p daemon_state" where
  "rpc_broadcast_raw rl pe txhex st =
     (case request_proxied rl pe (lit ''sendrawtransaction'') (sendrawtransaction_params txhex) st of
        (r, st') \<Rightarrow>
          (bind_out r (\<lambda>v.
           bind_out (ok_or (RpcMsg ''non-string txid'') (as_str v)) (\<lambda>s. ok_or (RpcMsg ''failed to parse txid'') (rp_parse_hash rl s))), st'))"

definition rpc_broadcast :: "'f rpc_lib \<Rightarrow> bitcoin_lib \<Rightarrow> 'p peer \<Rightarrow> transaction \<Rightarrow> 'p daemon_state \<Rightarrow> (rpc_error, hash) outcome \<times> 'p daemon_state" where
  "rpc_broadcast rl lib pe tx st = rpc_broadcast_raw rl pe (hex_encode (lib_serialize_tx lib tx)) st"

section \<open>A node that answers\<close>

text \<open>\<open>node\<close> is what the node answers to a method and its parameters: an error object or a result.\<close>

definition reply_of :: "nat \<Rightarrow> 'f json + 'f json \<Rightarrow> 'f json" where
  "reply_of i a =
     (case a of
        Inl err \<Rightarrow> JObject [(lit ''error'', err), (lit ''id'', JNumber (PosInt i)), (lit ''result'', JNull)]
      | Inr v \<Rightarrow> JObject [(lit ''error'', JNull), (lit ''id'', JNumber (PosInt i)), (lit ''result'', v)])"

definition reply_lines :: "'f rpc_lib \<Rightarrow> utext list \<Rightarrow> 'f json \<Rightarrow> line_in list" where
  "reply_lines rl hs v =
     Line (lit ''HTTP/1.1 200 OK'') # map Line hs
     @ [Line (lit ''Content-Length: '' @ show_nat (utf8_len (rp_print rl v) + 1)), Line [], Line (rp_print rl v)]"

definition real_error :: "'f json \<Rightarrow> bool" where
  "real_error err \<longleftrightarrow> err \<noteq> JNull \<and> (\<exists>c. parse_error_code err = Some c \<and> c \<noteq> -28)"

definition answers :: "'f rpc_lib \<Rightarrow> 'p peer \<Rightarrow> (utext \<Rightarrow> 'f json \<Rightarrow> 'f json + 'f json) \<Rightarrow> ('p \<Rightarrow> bool) \<Rightarrow> bool" where
  "answers rl pe node good \<longleftrightarrow>
     (\<forall>v. rp_parse rl (rp_print rl v) = Some v \<and> rp_print rl v \<noteq> [])
     \<and> (\<forall>m ps err. node m ps = Inl err \<longrightarrow> real_error err)
     \<and> (\<forall>p. good p \<longrightarrow> (\<exists>cookie. pe_cookie pe p = Ok cookie
          \<and> (\<forall>m i pss. let v = JArray (map (\<lambda>ps. reply_of i (node m ps)) pss) in
               \<exists>hs p'. pe_write pe (request_text rl cookie (rp_print rl (JArray (map (rpc_request m i) pss)))) p = (True, reply_lines rl hs v, p')
                 \<and> good p' \<and> [] \<notin> set hs \<and> utf8_len (rp_print rl v) + 1 < 2 ^ 64)))"

definition failures :: "(utext \<Rightarrow> 'f json \<Rightarrow> 'f json + 'f json) \<Rightarrow> utext \<Rightarrow> 'f json list \<Rightarrow> nat" where
  "failures node m pss = length (filter (\<lambda>ps. \<exists>err. node m ps = Inl err) pss)"

definition successes :: "(utext \<Rightarrow> 'f json \<Rightarrow> 'f json + 'f json) \<Rightarrow> utext \<Rightarrow> 'f json list \<Rightarrow> 'f json list" where
  "successes node m pss = List.map_filter (\<lambda>ps. case node m ps of Inl _ \<Rightarrow> None | Inr v \<Rightarrow> Some v) pss"

definition batch_result ::
  "(utext \<Rightarrow> 'f json \<Rightarrow> 'f json + 'f json) \<Rightarrow> utext \<Rightarrow> nat \<Rightarrow> nat \<Rightarrow> 'f json list \<Rightarrow> 'f json list \<Rightarrow> (rpc_error, 'f json list) outcome"
where
  "batch_result node m threshold failed results pss =
     (if failed + failures node m pss \<le> threshold then Ok (results @ successes node m pss) else Err (RpcMsg ''RPC error''))"

lemma failures_append: "failures node m (a @ b) = failures node m a + failures node m b"
  by (simp add: failures_def)

lemma successes_append: "successes node m (a @ b) = successes node m a @ successes node m b"
  by (simp add: successes_def map_filter_def)

lemma batch_result_append:
  "failed + failures node m a \<le> threshold \<Longrightarrow>
     batch_result node m threshold (failed + failures node m a) (results @ successes node m a) b = batch_result node m threshold failed results (a @ b)"
  "\<not> failed + failures node m a \<le> threshold \<Longrightarrow> batch_result node m threshold failed results (a @ b) = Err (RpcMsg ''RPC error'')"
  by (simp_all add: batch_result_def failures_append successes_append add.assoc)

lemma json_names [simp]:
  "lit ''error'' \<noteq> lit ''id''" "lit ''error'' \<noteq> lit ''result''" "lit ''id'' \<noteq> lit ''result''"
  "lit ''id'' \<noteq> lit ''error''" "lit ''result'' \<noteq> lit ''error''" "lit ''result'' \<noteq> lit ''id''"
  by (simp_all add: lit_def)

lemma parse_reply_of:
  "parse_jsonrpc_reply rl (reply_of i (Inr v)) i = Ok v"
  "real_error err \<Longrightarrow> parse_jsonrpc_reply rl (reply_of i (Inl err)) i = Err (RpcMsg ''RPC error'')"
  by (auto simp: reply_of_def real_error_def ok_or_def Let_def)

lemma take_replies_of:
  assumes "\<forall>ps err. node m ps = Inl err \<longrightarrow> real_error err" "failed \<le> threshold"
  shows "take_replies rl i threshold failed results (map (\<lambda>ps. reply_of i (node m ps)) pss)
    = (if failed + failures node m pss \<le> threshold then Ok (failed + failures node m pss, results @ successes node m pss)
       else Err (RpcMsg ''RPC error''))"
  using assms(2)
proof (induction pss arbitrary: failed results)
  case Nil
  then show ?case by (simp add: failures_def successes_def map_filter_simps)
next
  case (Cons ps pss)
  show ?case
  proof (cases "node m ps")
    case (Inl err)
    then have e: "parse_jsonrpc_reply rl (reply_of i (node m ps)) i = Err (RpcMsg ''RPC error'')" using assms(1) parse_reply_of(2) by metis
    have f: "failures node m (ps # pss) = Suc (failures node m pss)" "successes node m (ps # pss) = successes node m pss"
      using Inl by (simp_all add: failures_def successes_def map_filter_simps)
    show ?thesis
    proof (cases "threshold < failed + 1")
      case True
      then show ?thesis using e f by simp
    next
      case False
      then show ?thesis using e f Cons.IH [of "failed + 1" results] by simp
    qed
  next
    case (Inr v)
    then show ?thesis using Cons.IH [OF Cons.prems, of "results @ [v]"] parse_reply_of(1) [of rl i v]
      by (simp add: failures_def successes_def map_filter_simps)
  qed
qed

lemma split_header_length: "split_header (lit ''Content-Length: '' @ v) = Some (lit ''Content-Length'', v)"
  by (simp add: lit_def)

lemma recv_headers:
  assumes "[] \<notin> set hs"
  shows "\<exists>headers'. recv_lines True headers (map Line hs @ ls) = recv_lines True headers' ls"
  using assms
proof (induction hs arbitrary: headers)
  case (Cons h hs)
  then have "h \<noteq> []" "[] \<notin> set hs" by auto
  then show ?case using Cons.IH [of "case split_header h of Some (k, v) \<Rightarrow> headers(k \<mapsto> v) | None \<Rightarrow> headers"] by simp
qed auto

lemma recv_reply:
  assumes "[] \<notin> set hs" "rp_print rl v \<noteq> []" "utf8_len (rp_print rl v) + 1 < 2 ^ 64"
  shows "rpc_recv (reply_lines rl hs v) = (Ok (rp_print rl v), [])"
proof -
  let ?n = "utf8_len (rp_print rl v) + 1"
  let ?tail = "[Line (lit ''Content-Length: '' @ show_nat ?n), Line [], Line (rp_print rl v)]"
  obtain headers' where h: "recv_lines True Map.empty (map Line hs @ ?tail) = recv_lines True headers' ?tail"
    using recv_headers [OF assms(1)] by blast
  have ne: "lit ''Content-Length: '' @ x \<noteq> []" for x by (simp add: lit_def)
  have r: "recv_lines True headers' ?tail = (Ok (Some (rp_print rl v), headers'(lit ''Content-Length'' \<mapsto> show_nat ?n)), [])"
    using assms(2) ne [of "show_nat ?n"] split_header_length [of "show_nat ?n"] by (simp del: append_is_Nil_conv)
  have p: "parse_usize (show_nat ?n) = Some ?n" using assms(3) by (rule parse_usize_show)
  show ?thesis
    unfolding rpc_recv_def reply_lines_def using h r p
    by (simp add: ok_or_def expected_length_def classify_daemon_http_status_def)
qed

lemma call_answered:
  assumes "answers rl pe node good" "good (ds_peer st)" "ds_lines st = []"
  obtains st' where "call_jsonrpc rl pe (JArray (map (rpc_request m i) pss)) st = (Ok (JArray (map (\<lambda>ps. reply_of i (node m ps)) pss)), st')"
    "ds_lines st' = []" "good (ds_peer st')" "ds_message_id st' = ds_message_id st"
proof -
  let ?v = "JArray (map (\<lambda>ps. reply_of i (node m ps)) pss)"
  have lib: "rp_parse rl (rp_print rl v) = Some v" "rp_print rl v \<noteq> []" for v using assms(1) by (auto simp: answers_def)
  obtain cookie where c: "pe_cookie pe (ds_peer st) = Ok cookie"
    and w: "\<exists>hs p'. pe_write pe (request_text rl cookie (rp_print rl (JArray (map (rpc_request m i) pss)))) (ds_peer st) = (True, reply_lines rl hs ?v, p')
        \<and> good p' \<and> [] \<notin> set hs \<and> utf8_len (rp_print rl ?v) + 1 < 2 ^ 64"
    using assms(1,2) unfolding answers_def Let_def by metis
  then obtain hs p' where w: "pe_write pe (request_text rl cookie (rp_print rl (JArray (map (rpc_request m i) pss)))) (ds_peer st) = (True, reply_lines rl hs ?v, p')"
      "good p'" "[] \<notin> set hs" "utf8_len (rp_print rl ?v) + 1 < 2 ^ 64"
    by blast
  have "call_jsonrpc rl pe (JArray (map (rpc_request m i) pss)) st = (Ok ?v, st\<lparr>ds_lines := [], ds_peer := p'\<rparr>)"
    using c w(1) recv_reply [OF w(3) lib(2) w(4)] lib(1) [of ?v] assms(3)
    by (simp add: call_jsonrpc_def rpc_send_def ok_or_def)
  then show thesis using that w(2) by simp
qed

lemma batch_answered:
  assumes "answers rl pe node good" "failed \<le> threshold" "good (ds_peer st)" "ds_lines st = []"
  shows "\<exists>st'. batch_loop rl pe m i threshold failed results css st = (batch_result node m threshold failed results (concat css), st')
    \<and> ds_lines st' = [] \<and> good (ds_peer st') \<and> ds_message_id st' = ds_message_id st"
  using assms(2-)
proof (induction css arbitrary: failed results st)
  case Nil
  then show ?case by (simp add: batch_result_def failures_def successes_def map_filter_simps)
next
  case (Cons c css)
  have err: "\<forall>ps err. node m ps = Inl err \<longrightarrow> real_error err" using assms(1) by (auto simp: answers_def)
  obtain st1 where st1: "call_jsonrpc rl pe (JArray (map (rpc_request m i) c)) st = (Ok (JArray (map (\<lambda>ps. reply_of i (node m ps)) c)), st1)"
    "ds_lines st1 = []" "good (ds_peer st1)" "ds_message_id st1 = ds_message_id st"
    using call_answered [OF assms(1) Cons.prems(2,3)] by blast
  note t = take_replies_of [where node = node and m = m, OF err Cons.prems(1), of rl i results c]
  show ?case
  proof (cases "failed + failures node m c \<le> threshold")
    case True
    then show ?thesis
      using st1 t Cons.IH [OF True st1(3,2), of "results @ successes node m c"] by (simp add: batch_result_append(1))
  next
    case False
    then show ?thesis using st1 t by (simp add: batch_result_append(2))
  qed
qed

lemma handle_answered:
  assumes "answers rl pe node good" "good (ds_peer st)" "ds_lines st = []"
  shows "\<exists>st'. handle_request_batch rl pe m pss share st = (batch_result node m (failure_threshold share (length pss)) 0 [] pss, st')
    \<and> ds_lines st' = [] \<and> good (ds_peer st') \<and> ds_message_id st' = (ds_message_id st + 1) mod 2 ^ 64"
proof -
  let ?i = "(ds_message_id st + 1) mod 2 ^ 64"
  have "\<exists>st'. batch_loop rl pe m ?i (failure_threshold share (length pss)) 0 [] (chunks 50000 pss) (st\<lparr>ds_message_id := ?i\<rparr>)
      = (batch_result node m (failure_threshold share (length pss)) 0 [] (concat (chunks 50000 pss)), st')
    \<and> ds_lines st' = [] \<and> good (ds_peer st') \<and> ds_message_id st' = ds_message_id (st\<lparr>ds_message_id := ?i\<rparr>)"
    by (rule batch_answered [OF assms(1)]) (use assms(2,3) in simp_all)
  then show ?thesis by (simp add: handle_request_batch_def Let_def concat_chunks)
qed

lemma retry_answered:
  assumes "answers rl pe node good" "good (ds_peer st)" "ds_lines st = []"
  shows "\<exists>st'. retry_request_batch rl pe m pss share st = Some (batch_result node m (failure_threshold share (length pss)) 0 [] pss, st')
    \<and> handle_request_batch rl pe m pss share st = (batch_result node m (failure_threshold share (length pss)) 0 [] pss, st')
    \<and> ds_lines st' = [] \<and> good (ds_peer st')"
  using handle_answered [OF assms, of m pss share] by (subst retry_request_batch.simps) (auto simp: batch_result_def)

lemma requests_all:
  assumes "answers rl pe node good" "good (ds_peer st)" "ds_lines st = []" "\<forall>x\<in>set xs. node m (p x) = Inr (f x)"
  shows "\<exists>st'. requests rl pe m (map p xs) st = Some (Ok (map f xs), st') \<and> ds_lines st' = [] \<and> good (ds_peer st')"
proof -
  have "failures node m (map p xs) = 0" "successes node m (map p xs) = map f xs"
    using assms(4) by (induction xs) (auto simp: failures_def successes_def map_filter_simps)
  then show ?thesis
    using retry_answered [OF assms(1-3), of m "map p xs" NoFailures] by (auto simp: requests_def batch_result_def failure_threshold_def)
qed

lemma collect_out_all: "\<forall>x\<in>set xs. g (f x) = Ok (h x) \<Longrightarrow> collect_out g (map f xs) = Ok (map h xs)"
  by (induction xs) auto

text \<open>The headers of a range of heights, as the header synchronisation asks for them.\<close>

lemma getblockheaders_exact:
  assumes "answers rl pe node good" "good (ds_peer st)" "ds_lines st = []"
    and "\<forall>h\<in>set heights. node (lit ''getblockhash'') (JArray [JNumber (PosInt h)]) = Inr (hash h)
      \<and> node (lit ''getblockheader'') (JArray [hash h, JBool False]) = Inr (hex h) \<and> header_from_value rl lib (hex h) = Ok (header h)"
  shows "\<exists>st'. getblockheaders rl lib pe heights st = Some (Ok (map header heights), st') \<and> ds_lines st' = [] \<and> good (ds_peer st')"
proof -
  obtain st1 where 1: "requests rl pe (lit ''getblockhash'') (map (\<lambda>h. JArray [JNumber (PosInt h)]) heights) st = Some (Ok (map hash heights), st1)"
      "ds_lines st1 = []" "good (ds_peer st1)"
    using requests_all [OF assms(1-3), of heights "lit ''getblockhash''" "\<lambda>h. JArray [JNumber (PosInt h)]" hash] assms(4) by auto
  have 2: "\<exists>st'. requests rl pe (lit ''getblockheader'') (map (\<lambda>h. JArray [hash h, JBool False]) heights) st1 = Some (Ok (map hex heights), st')
      \<and> ds_lines st' = [] \<and> good (ds_peer st')"
    by (rule requests_all [OF assms(1) 1(3,2)]) (use assms(4) in blast)
  have "collect_out (header_from_value rl lib) (map hex heights) = Ok (map header heights)" by (rule collect_out_all) (use assms(4) in blast)
  then show ?thesis using 1(1) 2 by (auto simp: getblockheaders_def rpc_then_def comp_def)
qed

section \<open>Properties\<close>

text \<open>C33: against a node that answers, a batch of any size, sent in chunks, returns the results of the requests that
  succeeded, in the order of the requests, as long as no more failed than are tolerated, and an error otherwise; the
  connection is left in step, with nothing unread, so that the next call starts afresh. One request is the node's answer.\<close>

theorem batches_answered:
  assumes "answers rl pe node good" "good (ds_peer st)" "ds_lines st = []"
  shows "(\<exists>st'. retry_request_batch rl pe m pss share st
        = Some (if failures node m pss \<le> failure_threshold share (length pss) then Ok (successes node m pss) else Err (RpcMsg ''RPC error''), st')
      \<and> ds_lines st' = [] \<and> good (ds_peer st'))
    \<and> (\<exists>st'. daemon_request rl pe m ps st = Some (case node m ps of Inl _ \<Rightarrow> Err (RpcMsg ''RPC error'') | Inr v \<Rightarrow> Ok v, st')
      \<and> request_proxied rl pe m ps st = (case node m ps of Inl _ \<Rightarrow> Err (RpcMsg ''RPC error'') | Inr v \<Rightarrow> Ok v, st')
      \<and> ds_lines st' = [] \<and> good (ds_peer st'))"
proof
  note retry = retry_answered [OF assms, of m]
  from retry [of pss share] show "\<exists>st'. retry_request_batch rl pe m pss share st
        = Some (if failures node m pss \<le> failure_threshold share (length pss) then Ok (successes node m pss) else Err (RpcMsg ''RPC error''), st')
      \<and> ds_lines st' = [] \<and> good (ds_peer st')"
    unfolding batch_result_def by auto
  have one: "batch_result node m (failure_threshold NoFailures (length [ps])) 0 [] [ps] = (case node m ps of Inl _ \<Rightarrow> Err (RpcMsg ''RPC error'') | Inr v \<Rightarrow> Ok [v])"
    by (cases "node m ps") (simp_all add: batch_result_def failures_def failure_threshold_def successes_def map_filter_simps)
  have v: "bind_out (Ok [w]) one_value = Ok w" "one_value [w] = Ok w" for w by (simp_all add: one_value_def)
  show "\<exists>st'. daemon_request rl pe m ps st = Some (case node m ps of Inl _ \<Rightarrow> Err (RpcMsg ''RPC error'') | Inr v \<Rightarrow> Ok v, st')
      \<and> request_proxied rl pe m ps st = (case node m ps of Inl _ \<Rightarrow> Err (RpcMsg ''RPC error'') | Inr v \<Rightarrow> Ok v, st')
      \<and> ds_lines st' = [] \<and> good (ds_peer st')"
    using retry [of "[ps]" NoFailures] unfolding daemon_request_def request_proxied_def one
    by (cases "node m ps") (auto simp: v simp del: bind_out_Ok_iff)
qed

text \<open>An example: values are printed as one number, and the node returns its parameters unless they are empty.\<close>

instance json_number :: (countable) countable
  by countable_datatype

instance json :: (countable) countable
  by countable_datatype

definition demo_rpc_lib :: "unit rpc_lib" where
  "demo_rpc_lib = \<lparr>rp_print = (\<lambda>v. [to_nat v]), rp_parse = (\<lambda>t. Some (from_nat (hd t))), rp_base64 = (\<lambda>_. []),
     rp_hex_decode = (\<lambda>_. None), rp_hash_text = (\<lambda>_. []), rp_parse_hash = (\<lambda>_. None)\<rparr>"

definition demo_rpc_node :: "utext \<Rightarrow> unit json \<Rightarrow> unit json + unit json" where
  "demo_rpc_node m ps = (if ps = JNull then Inl (JObject [(lit ''code'', JNumber (NegInt (-5)))]) else Inr ps)"

definition demo_reply :: "unit json \<Rightarrow> unit json" where
  "demo_reply req =
     (case req of JObject [(_, JNumber (PosInt i)), (_, JString m), (_, ps)] \<Rightarrow> reply_of i (demo_rpc_node m ps) | _ \<Rightarrow> JNull)"

definition demo_rpc_peer :: "unit peer" where
  "demo_rpc_peer = \<lparr>pe_cookie = (\<lambda>_. Ok []),
     pe_write = (\<lambda>t p. (True, reply_lines demo_rpc_lib [] (case from_nat (last t) of JArray reqs \<Rightarrow> JArray (map demo_reply reqs) | _ \<Rightarrow> JNull), p)),
     pe_connect = (\<lambda>p. (Connected, p)), pe_wait = (\<lambda>p. (None, p))\<rparr>"

lemma demo_answers: "answers demo_rpc_lib demo_rpc_peer demo_rpc_node (\<lambda>_. True)"
proof -
  have "last (request_text demo_rpc_lib c [k]) = k" for c k by (simp add: request_text_def)
  moreover have "demo_reply \<circ> rpc_request m i = (\<lambda>ps. reply_of i (demo_rpc_node m ps))" for m i
    by (simp add: fun_eq_iff demo_reply_def rpc_request_def)
  moreover have "utf8_len (rp_print demo_rpc_lib v) + 1 < 2 ^ 64" for v by (simp add: utf8_len_def demo_rpc_lib_def)
  moreover have "real_error err" if "demo_rpc_node m ps = Inl err" for m ps err
    using that by (auto simp: demo_rpc_node_def real_error_def split: if_splits)
  moreover have "rp_print demo_rpc_lib v = [to_nat v]" "rp_parse demo_rpc_lib t = Some (from_nat (hd t))" for v t by (simp_all add: demo_rpc_lib_def)
  ultimately show ?thesis by (auto simp: answers_def Let_def demo_rpc_peer_def intro!: exI [of _ "[]"])
qed

theorem batches_answered_witness:
  "\<exists>st'. retry_request_batch demo_rpc_lib demo_rpc_peer (lit ''m'') [JBool True, JNull, JBool False, JBool True] QuarterFailures
      \<lparr>ds_lines = [], ds_peer = (), ds_message_id = 0\<rparr> = Some (Ok [JBool True, JBool False, JBool True], st')"
proof -
  have "failures demo_rpc_node (lit ''m'') [JBool True, JNull, JBool False, JBool True] = 1"
    "successes demo_rpc_node (lit ''m'') [JBool True, JNull, JBool False, JBool True] = [JBool True, JBool False, JBool True]"
    by (simp_all add: failures_def successes_def demo_rpc_node_def map_filter_simps)
  then show ?thesis
    using batches_answered [OF demo_answers, of "\<lparr>ds_lines = [], ds_peer = (), ds_message_id = 0\<rparr>" "lit ''m''"
        "[JBool True, JNull, JBool False, JBool True]" QuarterFailures JNull]
    by (auto simp: failure_threshold_def)
qed

section \<open>A node that is away\<close>

text \<open>\<open>away\<close> is kept by a peer that refuses every connection, accepts no write, and is not interrupted.\<close>

definition stays_away :: "'p peer \<Rightarrow> ('p \<Rightarrow> bool) \<Rightarrow> bool" where
  "stays_away pe away \<longleftrightarrow>
     (\<forall>p. away p \<longrightarrow>
        (\<exists>c. pe_cookie pe p = Ok c) \<and> (\<forall>t. \<exists>p'. pe_write pe t p = (False, [], p') \<and> away p')
        \<and> (\<exists>p'. pe_connect pe p = (Refused, p') \<and> away p') \<and> (\<exists>p'. pe_wait pe p = (None, p') \<and> away p'))"

text \<open>\<open>rank\<close> bounds how often a peer can still fail before it answers.\<close>

definition comes_back :: "'p peer \<Rightarrow> ('p \<Rightarrow> bool) \<Rightarrow> ('p \<Rightarrow> nat) \<Rightarrow> bool" where
  "comes_back pe good rank \<longleftrightarrow>
     (\<forall>p t. rank (snd (snd (pe_write pe t p))) \<le> rank p) \<and> (\<forall>p. rank (snd (pe_wait pe p)) \<le> rank p)
     \<and> (\<forall>p. case pe_connect pe p of
            (Connected, p') \<Rightarrow> good p' \<or> rank p' < rank p
          | (Refused, p') \<Rightarrow> rank p' < rank p
          | (CloneFailed, p') \<Rightarrow> True)"

lemma call_rank:
  assumes "comes_back pe good rank"
  shows "rank (ds_peer (snd (call_jsonrpc rl pe v st))) \<le> rank (ds_peer st)"
  using assms
  by (auto simp: comes_back_def call_jsonrpc_def rpc_send_def split: outcome.splits prod.splits) (metis snd_conv)+

lemma batch_rank:
  assumes "comes_back pe good rank"
  shows "rank (ds_peer (snd (batch_loop rl pe m i threshold failed results css st))) \<le> rank (ds_peer st)"
proof (induction css arbitrary: failed results st)
  case (Cons c css)
  obtain r st1 where c: "call_jsonrpc rl pe (JArray (map (rpc_request m i) c)) st = (r, st1)" by (cases "call_jsonrpc rl pe (JArray (map (rpc_request m i) c)) st")
  then have "rank (ds_peer st1) \<le> rank (ds_peer st)" using call_rank [OF assms, of rl "JArray (map (rpc_request m i) c)" st] by simp
  moreover have "snd (batch_loop rl pe m i threshold failed results (c # css) st) = st1
      \<or> (\<exists>f rs. snd (batch_loop rl pe m i threshold failed results (c # css) st) = snd (batch_loop rl pe m i threshold f rs css st1))"
    using c by (auto split: outcome.splits option.splits)
  ultimately show ?case using Cons.IH [of _ _ st1] order_trans by metis
qed simp

lemma handle_rank:
  "comes_back pe good rank \<Longrightarrow> rank (ds_peer (snd (handle_request_batch rl pe m pss share st))) \<le> rank (ds_peer st)"
  unfolding handle_request_batch_def Let_def by (rule order_trans [OF batch_rank]) simp_all

lemma wait_rank: "comes_back pe good rank \<Longrightarrow> rank (ds_peer (snd (peer_wait pe st))) \<le> rank (ds_peer st)"
  by (auto simp: comes_back_def peer_wait_def split: prod.splits) (metis snd_conv)

lemma wait_error: "peer_wait pe st = (w, st') \<Longrightarrow> w \<noteq> Err (RpcConnection t)"
  by (auto simp: peer_wait_def split: prod.splits option.splits)

lemma connect_returns:
  assumes "comes_back pe good rank"
  shows "\<exists>r st'. rpc_connect pe st = Some (r, st') \<and> (\<forall>t. r \<noteq> Err (RpcConnection t))
    \<and> (\<forall>x. r = Ok x \<longrightarrow> ds_lines st' = [] \<and> (good (ds_peer st') \<or> rank (ds_peer st') < rank (ds_peer st)))"
proof (induction "rank (ds_peer st)" arbitrary: st rule: less_induct)
  case less
  obtain c p where c: "pe_connect pe (ds_peer st) = (c, p)" by (cases "pe_connect pe (ds_peer st)")
  show ?case
  proof (cases c)
    case Connected
    then have "good p \<or> rank p < rank (ds_peer st)" using assms c by (auto simp: comes_back_def dest!: spec [of _ "ds_peer st"])
    then show ?thesis using c Connected by (subst rpc_connect.simps) simp
  next
    case CloneFailed
    then show ?thesis using c by (subst rpc_connect.simps) simp
  next
    case Refused
    then have r: "rank p < rank (ds_peer st)" using assms c by (auto simp: comes_back_def dest!: spec [of _ "ds_peer st"])
    obtain w st1 where w: "peer_wait pe (st\<lparr>ds_peer := p\<rparr>) = (w, st1)" by (cases "peer_wait pe (st\<lparr>ds_peer := p\<rparr>)")
    have "rank (ds_peer st1) \<le> rank p" using wait_rank [OF assms, of "st\<lparr>ds_peer := p\<rparr>"] w by simp
    with r have lt: "rank (ds_peer st1) < rank (ds_peer st)" by simp
    show ?thesis using less(1) [OF lt] lt c Refused w wait_error [OF w] by (subst rpc_connect.simps) (cases w; fastforce)
  qed
qed

text \<open>C34: a request of the indexer returns once the node is back: if every failed attempt brings the node closer to
  answering, the loop of retries ends, whatever was left unread on the old connection.\<close>

theorem retry_returns:
  assumes "answers rl pe node good" "comes_back pe good rank"
  shows "\<exists>r st'. retry_request_batch rl pe m pss share st = Some (r, st') \<and> (\<forall>t. r \<noteq> Err (RpcConnection t))"
proof -
  have good: "\<exists>r st'. retry_request_batch rl pe m pss share st = Some (r, st') \<and> (\<forall>t. r \<noteq> Err (RpcConnection t))"
    if g: "good (ds_peer st)" "ds_lines st = []" for st
    using handle_answered [OF assms(1) g, of m pss share] by (subst retry_request_batch.simps) (auto simp: batch_result_def)
  show ?thesis
  proof (induction "rank (ds_peer st)" arbitrary: st rule: less_induct)
    case less
    obtain r st1 where h: "handle_request_batch rl pe m pss share st = (r, st1)" by (cases "handle_request_batch rl pe m pss share st")
    show ?case
    proof (cases "\<exists>t. r = Err (RpcConnection t)")
      case False
      then show ?thesis using h by (subst retry_request_batch.simps) (auto split: outcome.splits rpc_error.splits)
    next
      case True
      then obtain t where t: "r = Err (RpcConnection t)" ..
      obtain w st2 where w: "peer_wait pe st1 = (w, st2)" by (cases "peer_wait pe st1")
      have rank: "rank (ds_peer st2) \<le> rank (ds_peer st)"
        using handle_rank [OF assms(2), of rl m pss share st] wait_rank [OF assms(2), of st1] h w by simp
      obtain c st3 where c: "rpc_connect pe st2 = Some (c, st3)" and ce: "\<forall>t. c \<noteq> Err (RpcConnection t)" and c2:
        "\<forall>x. c = Ok x \<longrightarrow> ds_lines st3 = [] \<and> (good (ds_peer st3) \<or> rank (ds_peer st3) < rank (ds_peer st2))"
        using connect_returns [OF assms(2), of st2] by blast
      have again: "\<exists>r st'. retry_request_batch rl pe m pss share st3 = Some (r, st') \<and> (\<forall>t. r \<noteq> Err (RpcConnection t))" if "c = Ok x" for x
        using c2 that good less(1) [of st3] rank by fastforce
      show ?thesis
      proof (cases w)
        case (Ok u)
        show ?thesis
        proof (cases c)
          case (Ok x)
          then show ?thesis using h t w \<open>w = Ok u\<close> c again by (subst retry_request_batch.simps) simp
        qed (use h t w Ok c ce in \<open>subst retry_request_batch.simps, simp\<close>)+
      qed (use h t w wait_error [OF w] in \<open>subst retry_request_batch.simps, simp\<close>)+
    qed
  qed
qed

text \<open>A node that refuses three connections and then answers.\<close>

definition demo_slow_peer :: "nat peer" where
  "demo_slow_peer = \<lparr>pe_cookie = (\<lambda>_. Ok []),
     pe_write = (\<lambda>t p. if p = 0 then (True, fst (snd (pe_write demo_rpc_peer t ())), 0) else (False, [], p)),
     pe_connect = (\<lambda>p. if p = 0 then (Connected, 0) else (Refused, p - 1)), pe_wait = (\<lambda>p. (None, p))\<rparr>"

lemma demo_slow: "answers demo_rpc_lib demo_slow_peer demo_rpc_node (\<lambda>p. p = 0)" "comes_back demo_slow_peer (\<lambda>p. p = 0) id"
  using demo_answers by (auto simp: answers_def demo_slow_peer_def demo_rpc_peer_def Let_def comes_back_def)

theorem retry_returns_witness:
  "\<exists>r st'. retry_request_batch demo_rpc_lib demo_slow_peer (lit ''m'') [JBool True] NoFailures \<lparr>ds_lines = [ReadFailed], ds_peer = 3, ds_message_id = 7\<rparr>
      = Some (r, st') \<and> (\<forall>t. r \<noteq> Err (RpcConnection t))"
  by (rule retry_returns [OF demo_slow])

lemma away_batch:
  assumes "stays_away pe away" "away (ds_peer st)" "pss \<noteq> []"
  shows "\<exists>st'. handle_request_batch rl pe m pss share st = (Err (RpcConnection (lit ''disconnected from daemon while sending'')), st') \<and> away (ds_peer st')"
proof -
  obtain c cs where c: "chunks 50000 pss = c # cs" using assms(3) by (simp add: chunks.simps)
  obtain k where k: "pe_cookie pe (ds_peer st) = Ok k" using assms(1,2) by (auto simp: stays_away_def)
  have w: "\<exists>p'. pe_write pe t (ds_peer st) = (False, [], p') \<and> away p'" for t using assms(1,2) by (auto simp: stays_away_def)
  obtain p' where "pe_write pe (request_text rl k (rp_print rl (JArray (map (rpc_request m ((ds_message_id st + 1) mod 2 ^ 64)) c)))) (ds_peer st) = (False, [], p')" "away p'"
    using w by blast
  then show ?thesis using k by (simp add: handle_request_batch_def Let_def c call_jsonrpc_def rpc_send_def)
qed

lemma away_wait: "stays_away pe away \<Longrightarrow> away (ds_peer st) \<Longrightarrow> \<exists>st'. peer_wait pe st = (Ok (), st') \<and> away (ds_peer st')"
  by (force simp: stays_away_def peer_wait_def)

lemma away_connect:
  assumes "stays_away pe away" "away (ds_peer st)"
  shows "rpc_connect pe st = None"
proof -
  have "stays_away pe away \<longrightarrow> \<not> away (ds_peer st)" if "rpc_connect pe st = Some y" for y
  proof (rule rpc_connect.raw_induct [where P = "\<lambda>pe st y. stays_away pe away \<longrightarrow> \<not> away (ds_peer st)", OF _ that], intro impI notI)
    fix f pe st y
    assume ih: "\<And>pe st y. f pe st = Some y \<Longrightarrow> stays_away pe away \<longrightarrow> \<not> away (ds_peer st)"
      and s: "stays_away pe away" "away (ds_peer st)"
      and run: "(case pe_connect pe (ds_peer st) of (result, p) \<Rightarrow>
        (case result of
           Connected \<Rightarrow> Some (Ok (), st\<lparr>ds_lines := [], ds_peer := p\<rparr>)
         | Refused \<Rightarrow> (case peer_wait pe (st\<lparr>ds_peer := p\<rparr>) of
             (w, st1) \<Rightarrow> (case w of Ok _ \<Rightarrow> f pe st1 | Err e \<Rightarrow> Some (Err e, st1) | Panic s \<Rightarrow> Some (Panic s, st1)))
         | CloneFailed \<Rightarrow> Some (Err (RpcMsg ''failed to clone''), st\<lparr>ds_peer := p\<rparr>))) = Some y"
    obtain p where p: "pe_connect pe (ds_peer st) = (Refused, p)" "away p" using s by (auto simp: stays_away_def)
    then obtain st1 where "peer_wait pe (st\<lparr>ds_peer := p\<rparr>) = (Ok (), st1)" "away (ds_peer st1)"
      using away_wait [of pe away "st\<lparr>ds_peer := p\<rparr>"] s by auto
    then show False using run p ih s by auto
  qed
  then show ?thesis using assms by (cases "rpc_connect pe st") auto
qed

text \<open>While the node stays away, a request of the indexer never returns, and a request on behalf of a client
  returns at once, as unavailable.\<close>

theorem away_blocks_indexer_only:
  assumes "stays_away pe away" "away (ds_peer st)"
  shows "daemon_request rl pe m ps st = None
    \<and> (\<exists>st'. request_proxied rl pe m ps st = (Err (RpcUnavailable (m @ lit '' failed: '' @ lit ''disconnected from daemon while sending'')), st')
        \<and> away (ds_peer st'))"
proof -
  obtain st1 where h: "handle_request_batch rl pe m [ps] NoFailures st = (Err (RpcConnection (lit ''disconnected from daemon while sending'')), st1)" "away (ds_peer st1)"
    using away_batch [OF assms, of "[ps]" rl m NoFailures] by auto
  obtain st2 where "peer_wait pe st1 = (Ok (), st2)" "away (ds_peer st2)" using away_wait [OF assms(1) h(2)] by auto
  then have "retry_request_batch rl pe m [ps] NoFailures st = None"
    using h away_connect [OF assms(1), of st2] by (subst retry_request_batch.simps) simp
  then show ?thesis using h by (simp add: daemon_request_def request_proxied_def)
qed

theorem away_blocks_indexer_only_witness:
  "daemon_request demo_rpc_lib \<lparr>pe_cookie = \<lambda>_. Ok [], pe_write = \<lambda>_ p. (False, [], p), pe_connect = \<lambda>p. (Refused, p), pe_wait = \<lambda>p. (None, p)\<rparr>
     (lit ''m'') JNull \<lparr>ds_lines = [], ds_peer = (), ds_message_id = 0\<rparr> = None"
  by (rule away_blocks_indexer_only [where away = "\<lambda>_. True", THEN conjunct1]) (simp_all add: stays_away_def)

end
