(* ===== verification/App.thy ===== *)
theory App
  imports Index_Updates Mwck_Tip
begin

text \<open>
  The process of the indexer (\<^verbatim>\<open>src/bin/electrs.rs\<close>, \<^verbatim>\<open>src/signal.rs\<close>, \<^verbatim>\<open>src/new_index/precache.rs\<close>): waiting for signals,
  one iteration of the main loop, which composes the index, the mempool, the websocket hub and the Electrum server,
  and the phases of the shutdown. The node is asked at several moments of an iteration and may answer differently
  each time, so each question has an argument of its own.
\<close>

section \<open>Signals\<close>

definition SIGUSR1 :: int where
  "SIGUSR1 = 10"

text \<open>What \<open>recv_deadline\<close> returns, one after the other; with nothing left it times out.\<close>

datatype recv_event = Received int | Disconnected

record waiter =
  wt_receiver :: "recv_event list"
  wt_interrupted :: int

function wait_deadline :: "bool \<Rightarrow> waiter \<Rightarrow> (error_kind, unit) outcome \<times> waiter" where
  "wait_deadline accept_sigusr w =
     (if wt_interrupted w \<noteq> 0 then (Err (Interrupt (wt_interrupted w)), w)
      else
        (case wt_receiver w of
           [] \<Rightarrow> (Ok (), w)
         | Disconnected # _ \<Rightarrow> (Err (Msg ''signal hook channel disconnected''), w)
         | Received sig # rest \<Rightarrow>
             if sig = SIGUSR1
             then (if accept_sigusr then (Ok (), w\<lparr>wt_receiver := rest\<rparr>) else wait_deadline accept_sigusr (w\<lparr>wt_receiver := rest\<rparr>))
             else (Err (Interrupt sig), w\<lparr>wt_receiver := rest, wt_interrupted := sig\<rparr>)))"
  by pat_completeness auto

termination by (relation "measure (\<lambda>(_, w). length (wt_receiver w))") auto

declare wait_deadline.simps [simp del]

section \<open>Shutdown\<close>

datatype shutdown_phase = RestStop | Flush | BoundedElectrumJoin | ArmWatchdog

definition shutdown_phases :: "shutdown_phase list" where
  "shutdown_phases = [RestStop, Flush, BoundedElectrumJoin, ArmWatchdog]"

definition INDEX_STORE_FLUSH_DBS :: "string list" where
  "INDEX_STORE_FLUSH_DBS = [''txstore_db'', ''history_db'', ''cache_db'']"

definition SHUTDOWN_WATCHDOG_TIMEOUT :: nat where
  "SHUTDOWN_WATCHDOG_TIMEOUT = 5000"

definition SHUTDOWN_WATCHDOG_POLL :: nat where
  "SHUTDOWN_WATCHDOG_POLL = 500"

text \<open>What the process does on the way, in order.\<close>

datatype shutdown_event = RestStopped | Flushed string | Slept nat | Joined | JoinAbandoned | Exited nat | WatchdogArmed

text \<open>\<open>finished t\<close> says whether the thread has finished \<open>t\<close> milliseconds after the start; a poll of length zero gives up.\<close>

function join_thread_within :: "(nat \<Rightarrow> bool) \<Rightarrow> nat \<Rightarrow> nat \<Rightarrow> nat \<Rightarrow> bool \<times> shutdown_event list" where
  "join_thread_within finished timeout poll elapsed =
     (if finished elapsed then (True, [Joined])
      else if timeout \<le> elapsed \<or> poll = 0 then (False, [JoinAbandoned])
      else (let nap = min poll (timeout - elapsed)
            in map_prod id (Cons (Slept nap)) (join_thread_within finished timeout poll (elapsed + nap))))"
  by pat_completeness auto

termination by (relation "measure (\<lambda>(_, timeout, _, elapsed). timeout - elapsed)") auto

declare join_thread_within.simps [simp del]

text \<open>One phase; \<open>None\<close> for the join is a server without a thread to join. The flag says whether the process goes on.\<close>

definition run_phase :: "(nat \<Rightarrow> bool) option \<Rightarrow> shutdown_phase \<Rightarrow> bool \<times> shutdown_event list" where
  "run_phase electrum phase =
     (case phase of
        RestStop \<Rightarrow> (True, [RestStopped])
      | Flush \<Rightarrow> (True, map Flushed INDEX_STORE_FLUSH_DBS)
      | BoundedElectrumJoin \<Rightarrow>
          (case electrum of
             None \<Rightarrow> (True, [])
           | Some finished \<Rightarrow>
               (case join_thread_within finished SHUTDOWN_WATCHDOG_TIMEOUT SHUTDOWN_WATCHDOG_POLL 0 of
                  (joined, evs) \<Rightarrow> if joined then (True, evs) else (False, evs @ [Exited 0])))
      | ArmWatchdog \<Rightarrow> (True, [WatchdogArmed]))"

fun run_phases :: "(nat \<Rightarrow> bool) option \<Rightarrow> shutdown_phase list \<Rightarrow> shutdown_event list" where
  "run_phases electrum [] = []"
| "run_phases electrum (p # ps) =
     (case run_phase electrum p of (goes_on, evs) \<Rightarrow> evs @ (if goes_on then run_phases electrum ps else []))"

definition shutdown :: "(nat \<Rightarrow> bool) option \<Rightarrow> shutdown_event list" where
  "shutdown electrum = run_phases electrum shutdown_phases"

section \<open>The main loop\<close>

definition fetch_from_config :: "'d rocks \<Rightarrow> bool \<Rightarrow> 'd store \<Rightarrow> fetch_from" where
  "fetch_from_config rk jsonrpc_import s = (if jsonrpc_import \<or> done_initial_sync rk s then Bitcoind else BlkFiles)"

record ('d, 'f, 'g) app =
  ap_indexer :: "'d indexer"
  ap_query :: "('d, 'f, 'g) query"
  ap_hub :: "'g mwck_hub"
  ap_tip :: hash
  ap_notifications :: nat

text \<open>The store is shared: what the indexer writes the queries read.\<close>

definition with_indexer :: "'d indexer \<Rightarrow> ('d, 'f, 'g) app \<Rightarrow> ('d, 'f, 'g) app" where
  "with_indexer ix app =
     app\<lparr>ap_indexer := ix, ap_query := (ap_query app)\<lparr>q_chain := (q_chain (ap_query app))\<lparr>cq_store := ix_store ix\<rparr>\<rparr>\<rparr>"

text \<open>The first part of an iteration: the poll, and the update when the tip has changed.\<close>

definition index_new_blocks ::
  "('d, 'f, 'g) rest_ctx \<Rightarrow> (error_kind, hash) outcome \<Rightarrow> bitcoind \<Rightarrow> u32 \<times> bytes option \<times> bytes list \<Rightarrow> ('d, 'f, 'g) app
    \<Rightarrow> (error_kind, ('d, 'f, 'g) app) outcome option"
where
  "index_new_blocks cx polled bd files app =
     (case polled of
        Err e \<Rightarrow> Some (Err e)
      | Panic s \<Rightarrow> Some (Panic s)
      | Ok current_tip \<Rightarrow>
          if current_tip = ap_tip app then Some (Ok app)
          else
            map_option
              (\<lambda>r. bind_out r (\<lambda>(ix, _).
                 let prev_height = best_height (q_chain (ap_query app));
                     app = (with_indexer ix app)\<lparr>ap_tip := current_tip\<rparr>;
                     new_height = best_height (q_chain (ap_query app))
                 in map_out (\<lambda>hub. app\<lparr>ap_hub := hub\<rparr>) (notify_new_tip cx (ap_query app) prev_height new_height (ap_hub app))))
              (update (cx_rk cx) (cx_lib cx) bd files (ap_indexer app)))"

text \<open>The transactions that came and went, as the hub is told of them; \<open>order\<close> is the order of iteration of a hash set.\<close>

definition full_body :: "('d, 'f, 'g) rest_ctx \<Rightarrow> ('d, 'f, 'g) query \<Rightarrow> hash \<Rightarrow> (error_kind, 'g json option) outcome" where
  "full_body cx q txid = bind_opt (query_lookup_txn (cx_rk cx) (cx_lib cx) q txid) (\<lambda>tx. map_out first_opt (tx_json cx q [(tx, None)]))"

definition notify_changes ::
  "('d, 'f, 'g) rest_ctx \<Rightarrow> (hash set \<Rightarrow> hash list) \<Rightarrow> hash set \<Rightarrow> ('d, 'f, 'g) app \<Rightarrow> (error_kind, ('d, 'f, 'g) app) outcome"
where
  "notify_changes cx order prev_txids app =
     (let q = ap_query app; now_txids = unique_txids (q_mempool q); show_txid = el_show_hash (cx_el cx) in
      bind_out (filter_map_out (full_body cx q) (order (now_txids - prev_txids))) (\<lambda>added.
      bind_out (collect_out (\<lambda>t. map_out (Pair (show_txid t)) (full_body cx q t)) (order (prev_txids - now_txids))) (\<lambda>found.
      let removed_stubs = map (\<lambda>t. JObject [(lit ''txid'', JString (show_txid t))]) (order (prev_txids - now_txids));
          available = map_of (List.map_filter (\<lambda>(t, b). map_option (Pair t) b) found);
          removed = prefer_full_removed removed_stubs available
      in if added \<noteq> [] \<or> removed \<noteq> []
         then map_out (\<lambda>hub. app\<lparr>ap_hub := hub\<rparr>) (notify_mempool cx q added removed (ap_hub app))
         else Ok app)))"

definition update_mempool ::
  "('d, 'f::linorder, 'g) rest_ctx \<Rightarrow> 'f \<Rightarrow> (hash set \<Rightarrow> hash list) \<Rightarrow> mempool_node \<Rightarrow> hash set \<Rightarrow> ('d, 'f, 'g) app
    \<Rightarrow> (error_kind, ('d, 'f, 'g) app) outcome"
where
  "update_mempool cx zero order node prev_txids app =
     (case mempool_update (cx_rk cx) (cx_lib cx) (cx_fdiv cx) zero (cx_now cx) (q_chain (ap_query app)) node (q_mempool (ap_query app)) of
        (m, r) \<Rightarrow>
          let app = app\<lparr>ap_query := (ap_query app)\<lparr>q_mempool := m\<rparr>\<rparr>
          in case r of
               Ok _ \<Rightarrow> notify_changes cx order prev_txids app
             | Err _ \<Rightarrow> Ok app
             | Panic s \<Rightarrow> Panic s)"

text \<open>One iteration after a wait that was not interrupted.\<close>

definition main_iteration ::
  "('d, 'f::linorder, 'g) rest_ctx \<Rightarrow> 'f \<Rightarrow> (hash set \<Rightarrow> hash list) \<Rightarrow> (error_kind, hash) outcome \<Rightarrow> bitcoind \<Rightarrow> mempool_node
    \<Rightarrow> u32 \<times> bytes option \<times> bytes list \<Rightarrow> ('d, 'f, 'g) app \<Rightarrow> (error_kind, ('d, 'f, 'g) app) outcome option"
where
  "main_iteration cx zero order polled bd node files app =
     (let prev_txids = unique_txids (q_mempool (ap_query app)) in
      map_option
        (\<lambda>r. bind_out r (\<lambda>app.
           map_out (\<lambda>app. app\<lparr>ap_notifications := Suc (ap_notifications app)\<rparr>) (update_mempool cx zero order node prev_txids app)))
        (index_new_blocks cx polled bd files app))"

section \<open>Precaching\<close>

text \<open>The lines of the file as they are read, and decoding of hexadecimal text as an argument.\<close>

definition scripthashes_from_lines :: "(utext \<Rightarrow> bytes option) \<Rightarrow> (error_kind, utext) outcome list \<Rightarrow> (error_kind, hash list) outcome" where
  "scripthashes_from_lines decode_hex lines =
     collect_out (\<lambda>line.
       bind_out (case line of Ok l \<Rightarrow> Ok l | Err _ \<Rightarrow> Err (Msg ''cannot read scripthash line'') | Panic s \<Rightarrow> Panic s) (\<lambda>l.
       bind_out (ok_or (Msg ''invalid hex'') (decode_hex l)) full_hash)) lines"

section \<open>Properties\<close>

text \<open>A termination signal is never lost: once one wait has reported it, every later wait of any part of the
  process reports the same signal, whatever else arrives; before that, a wait fails only for such a signal or a
  closed channel, and \<open>SIGUSR1\<close> never ends one with an error.\<close>

theorem interrupt_sticky:
  "wt_interrupted w = 0 \<and> (\<forall>e\<in>set (wt_receiver w). \<exists>s. e = Received s \<and> s \<noteq> 0) \<longrightarrow>
     (let (r, w') = wait_deadline accept w in
        (case r of
           Ok _ \<Rightarrow> wt_interrupted w' = 0
         | Err e \<Rightarrow> (\<exists>s. e = Interrupt s \<and> s \<noteq> SIGUSR1 \<and> Received s \<in> set (wt_receiver w)
                       \<and> (\<forall>accept' rest. wait_deadline accept' (w'\<lparr>wt_receiver := rest\<rparr>) = (Err (Interrupt s), w'\<lparr>wt_receiver := rest\<rparr>)))
         | Panic _ \<Rightarrow> False))"
proof (induction accept w rule: wait_deadline.induct)
  case (1 accept w)
  show ?case
  proof (cases "wt_receiver w")
    case Nil
    then show ?thesis by (subst wait_deadline.simps) simp
  next
    case (Cons e rest)
    show ?thesis
    proof (intro impI)
      assume w: "wt_interrupted w = 0 \<and> (\<forall>e\<in>set (wt_receiver w). \<exists>s. e = Received s \<and> s \<noteq> 0)"
      then obtain s where e: "e = Received s" "s \<noteq> 0" using Cons by auto
      show "let (r, w') = wait_deadline accept w in
        (case r of
           Ok _ \<Rightarrow> wt_interrupted w' = 0
         | Err e \<Rightarrow> (\<exists>s. e = Interrupt s \<and> s \<noteq> SIGUSR1 \<and> Received s \<in> set (wt_receiver w)
                       \<and> (\<forall>accept' rest. wait_deadline accept' (w'\<lparr>wt_receiver := rest\<rparr>) = (Err (Interrupt s), w'\<lparr>wt_receiver := rest\<rparr>)))
         | Panic _ \<Rightarrow> False)"
      proof (cases "s = SIGUSR1 \<and> \<not> accept")
        case True
        then have eq: "wait_deadline accept w = wait_deadline accept (w\<lparr>wt_receiver := rest\<rparr>)"
          using w Cons e by (subst wait_deadline.simps) simp
        show ?thesis unfolding eq using 1 [of e rest s] True w Cons e by (auto split: outcome.splits prod.splits)
      next
        case False
        then show ?thesis using w Cons e by (subst wait_deadline.simps) (auto simp: wait_deadline.simps)
      qed
    qed
  qed
qed

theorem interrupt_sticky_witness:
  "wait_deadline True (\<lparr>wt_receiver = [Received 10], wt_interrupted = 15\<rparr>) = (Err (Interrupt 15), \<lparr>wt_receiver = [Received 10], wt_interrupted = 15\<rparr>)"
proof -
  let ?w = "\<lparr>wt_receiver = [Received 10, Received 15], wt_interrupted = 0\<rparr>"
  have "wait_deadline False ?w = (Err (Interrupt 15), \<lparr>wt_receiver = [], wt_interrupted = 15\<rparr>)"
    by (simp add: wait_deadline.simps SIGUSR1_def)
  then show ?thesis using interrupt_sticky [of ?w False] by auto
qed

fun slept :: "shutdown_event list \<Rightarrow> nat" where
  "slept [] = 0"
| "slept (Slept n # evs) = n + slept evs"
| "slept (_ # evs) = slept evs"

lemma slept_append: "slept (a @ b) = slept a + slept b"
  by (induction a rule: slept.induct) simp_all

lemma join_within:
  assumes "join_thread_within finished timeout poll elapsed = (joined, evs)" "elapsed \<le> timeout"
  shows "slept evs \<le> timeout - elapsed \<and> set evs \<subseteq> range Slept \<union> {Joined, JoinAbandoned}
    \<and> (joined \<longrightarrow> (\<exists>t\<le>timeout. finished t)) \<and> (\<not> joined \<and> 0 < poll \<longrightarrow> \<not> finished timeout)"
  using assms
proof (induction finished timeout poll elapsed arbitrary: joined evs rule: join_thread_within.induct)
  case (1 finished timeout poll elapsed)
  show ?case
  proof (cases "finished elapsed \<or> timeout \<le> elapsed \<or> poll = 0")
    case True
    then show ?thesis using 1(2,3) by (subst (asm) (1) join_thread_within.simps) (auto split: if_splits)
  next
    case False
    let ?nap = "min poll (timeout - elapsed)"
    obtain j evs' where r: "join_thread_within finished timeout poll (elapsed + ?nap) = (j, evs')"
      by (cases "join_thread_within finished timeout poll (elapsed + ?nap)")
    have "joined = j" "evs = Slept ?nap # evs'"
      using 1(2) False r by (subst (asm) (1) join_thread_within.simps, simp add: Let_def)+
    moreover have le: "elapsed + ?nap \<le> timeout" using False by linarith
    ultimately show ?thesis using 1(1) [OF _ _ refl r le] False by auto
  qed
qed

text \<open>A shutdown stops the REST server and flushes the three databases before anything can end the process, then
  waits for the Electrum server at most the five seconds of its budget, and ends in exactly one of two ways: it has
  joined the thread, which had finished, and arms the watchdog, or the thread has not finished in time and it exits.\<close>

theorem shutdown_flushes_first:
  "\<exists>evs. shutdown electrum = [RestStopped, Flushed ''txstore_db'', Flushed ''history_db'', Flushed ''cache_db''] @ evs
      @ [if (case electrum of Some f \<Rightarrow> fst (join_thread_within f 5000 500 0) | None \<Rightarrow> True) then WatchdogArmed else Exited 0]
    \<and> slept evs \<le> 5000 \<and> set evs \<subseteq> range Slept \<union> {Joined, JoinAbandoned}
    \<and> (case electrum of
          Some f \<Rightarrow> if fst (join_thread_within f 5000 500 0) then \<exists>t\<le>5000. f t else \<not> f 5000
        | None \<Rightarrow> True)"
proof (cases electrum)
  case None
  then show ?thesis
    by (simp add: shutdown_def shutdown_phases_def run_phase_def INDEX_STORE_FLUSH_DBS_def)
next
  case (Some f)
  obtain j evs where j: "join_thread_within f 5000 500 0 = (j, evs)" by (cases "join_thread_within f 5000 500 0")
  then show ?thesis using Some join_within [OF j]
    by (auto simp: shutdown_def shutdown_phases_def run_phase_def INDEX_STORE_FLUSH_DBS_def SHUTDOWN_WATCHDOG_TIMEOUT_def SHUTDOWN_WATCHDOG_POLL_def)
qed

abbreviation app_headers :: "('d, 'f, 'g) app \<Rightarrow> header_entry list" where
  "app_headers app \<equiv> hl_headers (so_indexed_headers (ix_store (ap_indexer app)))"

lemma update_tip:
  assumes "headers_added (ix_store ix)" "wf_headers lib (so_indexed_headers (ix_store ix))"
    and "collision_free lib (he_header ` set (hl_headers (so_indexed_headers (ix_store ix))))"
    and "update rk lib bd files ix = Some (Ok (ix', tip))"
  shows "bd_getbestblockhash bd = Ok tip \<and> last_hash (hl_headers (so_indexed_headers (ix_store ix'))) = tip \<and> headers_added (ix_store ix')"
proof -
  obtain new s where new: "bd_getbestblockhash bd = Ok tip" "update_headers rk lib bd ix tip new = Ok s"
      "update_blocks rk lib bd files ix tip new s = Ok ix'"
    using assms(4) by (auto simp: update_def update_with_def split: outcome.splits)
  have dis: "distinct (map he_hash (hl_headers (so_indexed_headers (ix_store ix))))"
    using chain_distinct assms(2,3) by (auto simp: wf_headers_def)
  note h = update_headers_effect [OF assms(1) dis new(2)] and b = update_blocks_effect [OF new(3)]
  then have "headers_added (ix_store ix')" unfolding headers_added_def by auto
  then show ?thesis using h b new(1) by simp
qed

text \<open>C38: an iteration that sees a new tip leaves the index at the tip the node had during the update, while the loop
  remembers the tip it polled before. Where the node did not move in between the two are the same. Where it did, and
  goes back to the polled tip, no later iteration notices: as long as the node reports that tip the index stays at
  the other block.\<close>

theorem polled_tip_remembered:
  assumes step: "index_new_blocks cx (Ok polled) bd files app = Some (Ok app')" "polled \<noteq> ap_tip app"
    and st: "headers_added (ix_store (ap_indexer app))" "wf_headers (cx_lib cx) (so_indexed_headers (ix_store (ap_indexer app)))"
      "collision_free (cx_lib cx) (he_header ` set (app_headers app))"
  shows "\<exists>tip. bd_getbestblockhash bd = Ok tip \<and> last_hash (app_headers app') = tip \<and> ap_tip app' = polled
    \<and> cq_store (q_chain (ap_query app')) = ix_store (ap_indexer app') \<and> headers_added (ix_store (ap_indexer app'))
    \<and> (\<forall>bd' files'. index_new_blocks cx (Ok polled) bd' files' app' = Some (Ok app'))"
proof -
  obtain r where r: "update (cx_rk cx) (cx_lib cx) bd files (ap_indexer app) = Some r"
    using step by (auto simp: index_new_blocks_def Let_def split: if_splits)
  then obtain ix tip where ix: "r = Ok (ix, tip)" "ap_indexer app' = ix" "ap_tip app' = polled"
      "cq_store (q_chain (ap_query app')) = ix_store ix"
    using step by (cases r) (auto simp: index_new_blocks_def Let_def with_indexer_def map_out_bind split: if_splits)
  then show ?thesis using update_tip [OF st r [unfolded ix(1)]] ix by (simp add: index_new_blocks_def)
qed

definition demo_app_cx :: "((bytes \<times> bytes) list, nat, nat) rest_ctx" where
  "demo_app_cx = demo_cx\<lparr>cx_lib := demo_lib\<rparr>"

definition demo_app :: "((bytes \<times> bytes) list, nat, nat) query \<Rightarrow> ((bytes \<times> bytes) list, nat, nat) app" where
  "demo_app q = \<lparr>ap_indexer = demo_indexer, ap_query = q\<lparr>q_chain := (q_chain q)\<lparr>cq_store := demo_store\<rparr>\<rparr>,
     ap_hub = hub_new, ap_tip = null_hash, ap_notifications = 0\<rparr>"

lemma demo_update_height:
  "\<exists>ix'. update ref_rocks demo_lib demo_block_node files demo_indexer = Some (Ok (ix', demo_hash 1)) \<and> hl_len (so_indexed_headers (ix_store ix')) = 1"
proof -
  have serve: "serves_chain demo_lib demo_block_node [demo_genesis]"
    by (simp add: serves_chain_def demo_block_node_def demo_node_def header_chain_def)
  have new: "daemon_get_new_headers demo_lib demo_block_node hl_empty (demo_hash 1) = Some (Ok [demo_genesis])"
    using get_all_headers_chain [OF serve] by (simp add: daemon_get_new_headers_def hl_is_empty_def hl_empty_def)
  have ord: "hl_order demo_lib hl_empty [demo_genesis] = Ok [demo_entry]" by (simp add: demo_defs demo_entry_def Let_def)
  have best: "bd_getbestblockhash demo_block_node = Ok (demo_hash 1)" by (simp add: demo_block_node_def demo_node_def)
  have hl: "so_indexed_headers (ix_store demo_indexer) = hl_empty" by (simp add: demo_indexer_def demo_store_def)
  obtain ix' where ix': "update_blocks ref_rocks demo_lib demo_block_node files demo_indexer (demo_hash 1) [demo_entry]
      (demo_store\<lparr>so_indexed_headers := \<lparr>hl_headers = [demo_entry], hl_heights = [demo_hash 1 \<mapsto> 0], hl_tip = demo_hash 1\<rparr>\<rparr>) = Ok ix'"
    using demo_update_blocks by blast
  then show ?thesis using update_blocks_effect [OF ix']
    by (auto simp: update_def update_with_def best hl new ord demo_update_headers hl_len_def)
qed

theorem polled_tip_remembered_witness:
  "\<forall>q. \<exists>app'. index_new_blocks demo_app_cx (Ok (demo_hash 9)) demo_block_node (0, None, []) (demo_app q) = Some (Ok app')
     \<and> last_hash (app_headers app') = demo_hash 1 \<and> ap_tip app' = demo_hash 9"
proof
  fix q :: "((bytes \<times> bytes) list, nat, nat) query"
  obtain ix' where u: "update ref_rocks demo_lib demo_block_node (0, None, []) demo_indexer = Some (Ok (ix', demo_hash 1))"
      "hl_len (so_indexed_headers (ix_store ix')) = 1"
    using demo_update_height by blast
  have tip: "demo_hash 9 \<noteq> ap_tip (demo_app q)"
    by (simp add: demo_app_def demo_hash_def null_hash_def numeral_eq_Suc del: replicate.simps) (simp add: replicate_Suc)
  let ?app = "(with_indexer ix' (demo_app q))\<lparr>ap_tip := demo_hash 9\<rparr>"
  have h: "best_height (q_chain (ap_query (demo_app q))) = 2 ^ 64 - 1" "best_height (q_chain (ap_query ?app)) = 0"
    using u(2) by (simp_all add: demo_app_def with_indexer_def best_height_def demo_store_def hl_empty_def hl_len_def)
  have "\<exists>hub. notify_new_tip demo_app_cx (ap_query ?app) (2 ^ 64 - 1) 0 hub_new = Ok hub"
    by (simp add: notify_new_tip_def hub_new_def asked_heights_def orphaned_txs_def stale_heights_def Let_def)
  then obtain hub where hub: "notify_new_tip demo_app_cx (ap_query ?app) (2 ^ 64 - 1) 0 (ap_hub ?app) = Ok hub"
    by (auto simp: demo_app_def with_indexer_def)
  have "cx_rk demo_app_cx = ref_rocks" "cx_lib demo_app_cx = demo_lib" "ap_indexer (demo_app q) = demo_indexer"
    by (simp_all add: demo_app_cx_def demo_cx_def demo_app_def)
  then obtain app' where app': "index_new_blocks demo_app_cx (Ok (demo_hash 9)) demo_block_node (0, None, []) (demo_app q) = Some (Ok app')"
    using u(1) tip h hub unfolding index_new_blocks_def Let_def by (simp del: One_nat_def)
  have hl: "so_indexed_headers (ix_store (ap_indexer (demo_app q))) = hl_empty" by (simp add: demo_app_def demo_indexer_def demo_store_def)
  have cx: "cx_lib demo_app_cx = demo_lib" by (simp add: demo_app_cx_def)
  have "headers_added (ix_store (ap_indexer (demo_app q)))" "wf_headers (cx_lib demo_app_cx) (so_indexed_headers (ix_store (ap_indexer (demo_app q))))"
      "collision_free (cx_lib demo_app_cx) (he_header ` set (app_headers (demo_app q)))"
    unfolding headers_added_def hl cx by (simp_all only: wf_headers_empty) (simp_all add: hl_empty_def collision_free_def)
  from polled_tip_remembered [OF app' tip this] app' show "\<exists>app'. index_new_blocks demo_app_cx (Ok (demo_hash 9)) demo_block_node (0, None, []) (demo_app q) = Some (Ok app')
     \<and> last_hash (app_headers app') = demo_hash 1 \<and> ap_tip app' = demo_hash 9"
    by (auto simp: demo_block_node_def demo_node_def)
qed

end
