(* ===== verification/Assets.thy ===== *)
theory Assets
  imports Rows Text_Json
begin

text \<open>
  Issued and pegged assets, in the liquid build (\<^verbatim>\<open>src/elements/asset.rs\<close>, \<^verbatim>\<open>src/elements/peg.rs\<close>, \<^verbatim>\<open>src/elements/mod.rs\<close>): the
  history entries and issuances of a transaction, their rows, their copy in the mempool, the statistics of an asset with
  their cache, and its supply. The elements library is the record \<open>elements_lib\<close>. The confirmed rows of an asset from a
  height on are an argument of the statistics; they are delivered by the scan that also serves the scripts.
\<close>

section \<open>The elements library\<close>

datatype conf_value = ValueNull | ValueExplicit u64 | ValueConfidential bytes
datatype conf_asset = AssetNull | AssetExplicit hash | AssetConfidential bytes

record asset_issuance =
  ai_asset_blinding_nonce :: bytes
  ai_asset_entropy :: hash
  ai_amount :: conf_value
  ai_inflation_keys :: conf_value

record el_tx_in =
  ei_previous_output :: out_point
  ei_asset_issuance :: asset_issuance

record el_tx_out =
  eo_asset :: conf_asset
  eo_value :: conf_value
  eo_script_pubkey :: bytes

record el_tx =
  et_input :: "el_tx_in list"
  et_output :: "el_tx_out list"

record pegin_data =
  pd_asset_id :: hash
  pd_value :: u64

record pegout_data =
  po_asset :: conf_asset
  po_value :: u64
  po_genesis_hash :: hash
  po_script_pubkey :: bytes

datatype liquid_network = NLiquid | NLiquidTestnet | NLiquidRegtest
datatype parent_network = PBitcoin | PTestnet | PTestnet4 | PSignet | PRegtest

record elements_lib =
  lb_parse_asset_id :: "string \<Rightarrow> hash"
  lb_txid :: "el_tx \<Rightarrow> hash"
  lb_pegin_data :: "el_tx_in \<Rightarrow> pegin_data option"
  lb_pegout_data :: "el_tx_out \<Rightarrow> pegout_data option"
  lb_has_issuance :: "el_tx_in \<Rightarrow> bool"
  lb_nonce_is_null :: "bytes \<Rightarrow> bool"
  lb_new_issuance_entropy :: hash
  lb_generate_asset_entropy :: "out_point \<Rightarrow> hash \<Rightarrow> hash"
  lb_asset_from_entropy :: "hash \<Rightarrow> hash"
  lb_token_from_entropy :: "hash \<Rightarrow> bool \<Rightarrow> hash"
  lb_serialize_issuance :: "asset_issuance \<Rightarrow> bytes"
  lb_deserialize_issuance :: "bytes \<Rightarrow> asset_issuance option"
  lb_serialize_value :: "conf_value \<Rightarrow> bytes"
  lb_is_provably_unspendable :: "bytes \<Rightarrow> bool"
  lb_is_fee :: "el_tx_out \<Rightarrow> bool"
  lb_bitcoin_genesis_hash :: "liquid_network \<Rightarrow> hash"

section \<open>Pegs\<close>

definition pegged_asset :: "elements_lib \<Rightarrow> liquid_network \<Rightarrow> hash option" where
  "pegged_asset lb net =
     (case net of
        NLiquid \<Rightarrow> Some (lb_parse_asset_id lb ''6f0279e9ed041c3d710a9f57d0c02928416460c4b722ae3457a11eec381c526d'')
      | NLiquidTestnet \<Rightarrow> None
      | NLiquidRegtest \<Rightarrow> None)"

definition get_pegin_data :: "elements_lib \<Rightarrow> el_tx_in \<Rightarrow> liquid_network \<Rightarrow> pegin_data option" where
  "get_pegin_data lb txin net =
     Option.bind (pegged_asset lb net) (\<lambda>pegged_asset_id.
     Option.bind (lb_pegin_data lb txin) (\<lambda>pegin. if pd_asset_id pegin = pegged_asset_id then Some pegin else None))"

definition get_pegout_data :: "elements_lib \<Rightarrow> el_tx_out \<Rightarrow> liquid_network \<Rightarrow> parent_network \<Rightarrow> pegout_data option" where
  "get_pegout_data lb txout net parent =
     Option.bind (pegged_asset lb net) (\<lambda>pegged_asset_id.
     Option.bind
       (case parent of
          PBitcoin \<Rightarrow> Some NLiquid
        | PTestnet \<Rightarrow> Some NLiquidTestnet
        | PTestnet4 \<Rightarrow> Some NLiquidTestnet
        | PSignet \<Rightarrow> None
        | PRegtest \<Rightarrow> Some NLiquidRegtest)
       (\<lambda>n. Option.bind (lb_pegout_data lb txout) (\<lambda>pegout.
          if po_asset pegout = AssetExplicit pegged_asset_id \<and> po_genesis_hash pegout = lb_bitcoin_genesis_hash lb n
          then Some pegout else None)))"

section \<open>History entries\<close>

record issuing_info =
  is_txid :: hash
  is_vin :: u32
  is_is_reissuance :: bool
  is_issued_amount :: "u64 option"
  is_token_amount :: "u64 option"

record burning_info =
  bu_txid :: hash
  bu_vout :: u32
  bu_value :: u64

record pegin_info =
  pi_txid :: hash
  pi_vin :: u32
  pi_value :: u64

record pegout_info =
  pu_txid :: hash
  pu_vout :: u32
  pu_value :: u64

text \<open>\<open>TxHistoryInfo\<close> of the liquid build: the entries of scripts and those of assets.\<close>

datatype liquid_info = OfScript tx_history_info | Issuing issuing_info | Burning burning_info | Pegin pegin_info | Pegout pegout_info

fun li_txid :: "liquid_info \<Rightarrow> hash" where
  "li_txid (OfScript i) = hi_txid i"
| "li_txid (Issuing i) = is_txid i"
| "li_txid (Burning i) = bu_txid i"
| "li_txid (Pegin i) = pi_txid i"
| "li_txid (Pegout i) = pu_txid i"

record asset_row =
  ar_issuance_txid :: hash
  ar_issuance_vin :: u32
  ar_prev_txid :: hash
  ar_prev_vout :: u32
  ar_issuance :: bytes
  ar_reissuance_token :: hash

definition is_reissuance :: "elements_lib \<Rightarrow> el_tx_in \<Rightarrow> bool" where
  "is_reissuance lb txi \<longleftrightarrow> \<not> lb_nonce_is_null lb (ai_asset_blinding_nonce (ei_asset_issuance txi))"

definition get_issuance_entropy :: "elements_lib \<Rightarrow> el_tx_in \<Rightarrow> (error_kind, hash) outcome" where
  "get_issuance_entropy lb txin =
     (if \<not> lb_has_issuance lb txin then Err (Msg ''input has no issuance'')
      else if \<not> is_reissuance lb txin
      then Ok (lb_generate_asset_entropy lb (ei_previous_output txin) (ai_asset_entropy (ei_asset_issuance txin)))
      else Ok (ai_asset_entropy (ei_asset_issuance txin)))"

definition explicit_amount :: "conf_value \<Rightarrow> u64 option" where
  "explicit_amount v = (case v of ValueExplicit amount \<Rightarrow> Some amount | ValueNull \<Rightarrow> Some 0 | ValueConfidential _ \<Rightarrow> None)"

definition output_entry ::
  "elements_lib \<Rightarrow> liquid_network \<Rightarrow> parent_network \<Rightarrow> hash \<Rightarrow> nat \<times> el_tx_out \<Rightarrow> (error_kind, (hash \<times> liquid_info) list) outcome"
where
  "output_entry lb net parent txid io =
     (case io of
        (txo_index, txo) \<Rightarrow>
          (case get_pegout_data lb txo net parent of
             Some pegout \<Rightarrow>
               (case po_asset pegout of
                  AssetExplicit a \<Rightarrow> Ok [(a, Pegout \<lparr>pu_txid = txid, pu_vout = word_of_nat txo_index, pu_value = po_value pegout\<rparr>)]
                | _ \<Rightarrow> Panic ''unwrap'')
           | None \<Rightarrow>
               Ok (if lb_is_provably_unspendable lb (eo_script_pubkey txo) \<and> \<not> lb_is_fee lb txo
                   then (case (eo_asset txo, eo_value txo) of
                           (AssetExplicit asset_id, ValueExplicit v) \<Rightarrow>
                             if 0 < v then [(asset_id, Burning \<lparr>bu_txid = txid, bu_vout = word_of_nat txo_index, bu_value = v\<rparr>)] else []
                         | _ \<Rightarrow> [])
                   else [])))"

definition input_entry ::
  "elements_lib \<Rightarrow> liquid_network \<Rightarrow> hash \<Rightarrow> nat \<times> el_tx_in \<Rightarrow> (error_kind, (hash \<times> liquid_info) list \<times> (hash \<times> asset_row) list) outcome"
where
  "input_entry lb net txid ii =
     (case ii of
        (txi_index, txi) \<Rightarrow>
          (case get_pegin_data lb txi net of
             Some pegin \<Rightarrow>
               Ok ([(pd_asset_id pegin, Pegin \<lparr>pi_txid = txid, pi_vin = word_of_nat txi_index, pi_value = pd_value pegin\<rparr>)], [])
           | None \<Rightarrow>
               if lb_has_issuance lb txi
               then
                 bind_out (case get_issuance_entropy lb txi of Ok e \<Rightarrow> Ok e | _ \<Rightarrow> Panic ''invalid issuance'') (\<lambda>asset_entropy.
                   let asset_id = lb_asset_from_entropy lb asset_entropy;
                       issuance = ei_asset_issuance txi
                   in Ok ([(asset_id,
                            Issuing \<lparr>is_txid = txid, is_vin = word_of_nat txi_index, is_is_reissuance = is_reissuance lb txi,
                                     is_issued_amount = explicit_amount (ai_amount issuance),
                                     is_token_amount = explicit_amount (ai_inflation_keys issuance)\<rparr>)],
                          if is_reissuance lb txi then []
                          else [(asset_id,
                                 \<lparr>ar_issuance_txid = txid, ar_issuance_vin = word_of_nat txi_index,
                                  ar_prev_txid = op_txid (ei_previous_output txi), ar_prev_vout = op_vout (ei_previous_output txi),
                                  ar_issuance = lb_serialize_issuance lb issuance,
                                  ar_reissuance_token = lb_token_from_entropy lb asset_entropy
                                    (case ai_inflation_keys issuance of ValueConfidential _ \<Rightarrow> True | _ \<Rightarrow> False)\<rparr>)]))
               else Ok ([], [])))"

definition index_tx_assets ::
  "elements_lib \<Rightarrow> liquid_network \<Rightarrow> parent_network \<Rightarrow> el_tx \<Rightarrow> (error_kind, (hash \<times> liquid_info) list \<times> (hash \<times> asset_row) list) outcome"
where
  "index_tx_assets lb net parent tx =
     (let txid = lb_txid lb tx in
      bind_out (collect_out (output_entry lb net parent txid) (enumerate 0 (et_output tx))) (\<lambda>outs.
      bind_out (collect_out (input_entry lb net txid) (enumerate 0 (et_input tx))) (\<lambda>ins.
      Ok (concat outs @ concat (map fst ins), concat (map snd ins)))))"

section \<open>Rows\<close>

fun ser_opt_u64 :: "endian \<Rightarrow> u64 option \<Rightarrow> bytes" where
  "ser_opt_u64 e None = [0]"
| "ser_opt_u64 e (Some v) = 1 # ser_u64 e v"

fun ser_liquid_info :: "liquid_info \<Rightarrow> bytes" where
  "ser_liquid_info (OfScript i) = ser_history_info i"
| "ser_liquid_info (Issuing i) =
     ser_u32 Big 2 @ is_txid i @ ser_u32 Big (is_vin i) @ [if is_is_reissuance i then 1 else 0]
       @ ser_opt_u64 Big (is_issued_amount i) @ ser_opt_u64 Big (is_token_amount i)"
| "ser_liquid_info (Burning i) = ser_u32 Big 3 @ bu_txid i @ ser_u32 Big (bu_vout i) @ ser_u64 Big (bu_value i)"
| "ser_liquid_info (Pegin i) = ser_u32 Big 4 @ pi_txid i @ ser_u32 Big (pi_vin i) @ ser_u64 Big (pi_value i)"
| "ser_liquid_info (Pegout i) = ser_u32 Big 5 @ pu_txid i @ ser_u32 Big (pu_vout i) @ ser_u64 Big (pu_value i)"

text \<open>The key of an asset's history row: \<open>I\<close>, the asset, the height, the position in the block and the entry.\<close>

definition asset_history_row :: "hash \<Rightarrow> u32 \<Rightarrow> u16 \<Rightarrow> liquid_info \<Rightarrow> db_row" where
  "asset_history_row asset_id confirmed_height tx_position txinfo =
     \<lparr>row_key = ser_u8 0x49 @ asset_id @ ser_u32 Big confirmed_height @ ser_u16 Big tx_position @ ser_liquid_info txinfo, row_value = []\<rparr>"

definition ser_asset_row :: "asset_row \<Rightarrow> bytes" where
  "ser_asset_row r =
     ar_issuance_txid r @ ser_u32 Little (ar_issuance_vin r) @ ar_prev_txid r @ ser_u32 Little (ar_prev_vout r)
       @ ser_u64 Little (word_of_nat (length (ar_issuance r))) @ ar_issuance r @ ar_reissuance_token r"

definition index_confirmed_tx_assets ::
  "elements_lib \<Rightarrow> liquid_network \<Rightarrow> parent_network \<Rightarrow> u32 \<Rightarrow> u16 \<Rightarrow> el_tx \<Rightarrow> db_row list \<Rightarrow> (error_kind, db_row list \<times> hash list) outcome"
where
  "index_confirmed_tx_assets lb net parent confirmed_height tx_position tx rows =
     map_out (\<lambda>(hist, issuances).
        (rows @ map (\<lambda>(asset_id, info). asset_history_row asset_id confirmed_height tx_position info) hist
              @ map (\<lambda>(asset_id, r). \<lparr>row_key = 0x69 # asset_id, row_value = ser_asset_row r\<rparr>) issuances,
         map fst hist))
       (index_tx_assets lb net parent tx)"

section \<open>The mempool\<close>

record asset_mempool =
  am_history :: "hash \<rightharpoonup> liquid_info list"
  am_issuance :: "hash \<rightharpoonup> asset_row"

definition push_info :: "(hash \<rightharpoonup> liquid_info list) \<Rightarrow> hash \<times> liquid_info \<Rightarrow> hash \<rightharpoonup> liquid_info list" where
  "push_info m e = (case e of (a, info) \<Rightarrow> m(a \<mapsto> (case m a of None \<Rightarrow> [] | Some es \<Rightarrow> es) @ [info]))"

definition index_mempool_tx_assets ::
  "elements_lib \<Rightarrow> liquid_network \<Rightarrow> parent_network \<Rightarrow> el_tx \<Rightarrow> asset_mempool \<Rightarrow> (error_kind, asset_mempool) outcome"
where
  "index_mempool_tx_assets lb net parent tx am =
     map_out (\<lambda>(hist, issuances).
        am\<lparr>am_history := foldl push_info (am_history am) hist,
           am_issuance := foldl (\<lambda>m (a, r). m(a \<mapsto> r)) (am_issuance am) issuances\<rparr>)
       (index_tx_assets lb net parent tx)"

definition remove_mempool_tx_assets :: "hash set \<Rightarrow> asset_mempool \<Rightarrow> asset_mempool" where
  "remove_mempool_tx_assets to_remove am =
     am\<lparr>am_history := (\<lambda>a. case am_history am a of
           None \<Rightarrow> None
         | Some es \<Rightarrow> let kept = filter (\<lambda>e. li_txid e \<notin> to_remove) es in if kept = [] then None else Some kept),
        am_issuance := (\<lambda>a. case am_issuance am a of
           None \<Rightarrow> None
         | Some r \<Rightarrow> if ar_issuance_txid r \<in> to_remove then None else Some r)\<rparr>"

section \<open>Statistics\<close>

record issued_stats =
  ia_tx_count :: u64
  ia_issuance_count :: u64
  ia_issued_amount :: u64
  ia_burned_amount :: u64
  ia_has_blinded_issuances :: bool
  ia_reissuance_tokens :: "u64 option"
  ia_burned_reissuance_tokens :: u64

definition issued_default :: issued_stats where
  "issued_default = \<lparr>ia_tx_count = 0, ia_issuance_count = 0, ia_issued_amount = 0, ia_burned_amount = 0,
     ia_has_blinded_issuances = False, ia_reissuance_tokens = None, ia_burned_reissuance_tokens = 0\<rparr>"

record pegged_stats =
  pa_tx_count :: u64
  pa_peg_in_count :: u64
  pa_peg_in_amount :: u64
  pa_peg_out_count :: u64
  pa_peg_out_amount :: u64
  pa_burn_count :: u64
  pa_burned_amount :: u64

definition pegged_default :: pegged_stats where
  "pegged_default = \<lparr>pa_tx_count = 0, pa_peg_in_count = 0, pa_peg_in_amount = 0, pa_peg_out_count = 0, pa_peg_out_amount = 0,
     pa_burn_count = 0, pa_burned_amount = 0\<rparr>"

definition apply_issued_asset_stats ::
  "liquid_info \<Rightarrow> issued_stats \<times> hash set \<Rightarrow> (error_kind, issued_stats \<times> hash set) outcome"
where
  "apply_issued_asset_stats info acc =
     (case acc of
        (stats, seen_txids) \<Rightarrow>
          let stats = (if li_txid info \<in> seen_txids then stats else stats\<lparr>ia_tx_count := ia_tx_count stats + 1\<rparr>);
              seen = insert (li_txid info) seen_txids
          in case info of
               Issuing issuance \<Rightarrow>
                 let stats = stats\<lparr>ia_issuance_count := ia_issuance_count stats + 1\<rparr>;
                     stats = (case is_issued_amount issuance of
                                Some amount \<Rightarrow> stats\<lparr>ia_issued_amount := ia_issued_amount stats + amount\<rparr>
                              | None \<Rightarrow> stats\<lparr>ia_has_blinded_issuances := True\<rparr>);
                     stats = (if is_is_reissuance issuance then stats else stats\<lparr>ia_reissuance_tokens := is_token_amount issuance\<rparr>)
                 in Ok (stats, seen)
             | Burning b \<Rightarrow> Ok (stats\<lparr>ia_burned_amount := ia_burned_amount stats + bu_value b\<rparr>, seen)
             | _ \<Rightarrow> Panic ''unreachable'')"

definition apply_pegged_asset_stats ::
  "liquid_info \<Rightarrow> pegged_stats \<times> hash set \<Rightarrow> (error_kind, pegged_stats \<times> hash set) outcome"
where
  "apply_pegged_asset_stats info acc =
     (case acc of
        (stats, seen_txids) \<Rightarrow>
          let stats = (if li_txid info \<in> seen_txids then stats else stats\<lparr>pa_tx_count := pa_tx_count stats + 1\<rparr>);
              seen = insert (li_txid info) seen_txids
          in case info of
               Pegin i \<Rightarrow> Ok (stats\<lparr>pa_peg_in_count := pa_peg_in_count stats + 1, pa_peg_in_amount := pa_peg_in_amount stats + pi_value i\<rparr>, seen)
             | Pegout i \<Rightarrow> Ok (stats\<lparr>pa_peg_out_count := pa_peg_out_count stats + 1, pa_peg_out_amount := pa_peg_out_amount stats + pu_value i\<rparr>, seen)
             | Burning i \<Rightarrow> Ok (stats\<lparr>pa_burn_count := pa_burn_count stats + 1, pa_burned_amount := pa_burned_amount stats + bu_value i\<rparr>, seen)
             | Issuing _ \<Rightarrow> Ok (stats, seen)
             | OfScript _ \<Rightarrow> Panic ''unreachable'')"

type_synonym 's apply_fn = "liquid_info \<Rightarrow> 's \<times> hash set \<Rightarrow> (error_kind, 's \<times> hash set) outcome"

fun delta_loop :: "'s apply_fn \<Rightarrow> 's \<times> hash set \<Rightarrow> hash option \<Rightarrow> (liquid_info \<times> block_id) list \<Rightarrow> (error_kind, 's \<times> hash option) outcome" where
  "delta_loop apply_fn (stats, seen) lastblock [] = Ok (stats, lastblock)"
| "delta_loop apply_fn (stats, seen) lastblock ((info, blockid) # rows) =
     bind_out (apply_fn info (stats, if lastblock \<noteq> Some (bid_hash blockid) then {} else seen)) (\<lambda>acc.
       delta_loop apply_fn acc (Some (bid_hash blockid)) rows)"

definition chain_asset_stats_delta ::
  "(nat \<Rightarrow> (liquid_info \<times> block_id) list) \<Rightarrow> 's \<Rightarrow> nat \<Rightarrow> 's apply_fn \<Rightarrow> (error_kind, 's \<times> hash option) outcome"
where
  "chain_asset_stats_delta scan init_stats start_height apply_fn = delta_loop apply_fn (init_stats, {}) None (scan start_height)"

text \<open>The cached statistics of the asset with the block they are for; a block that is not in the best chain has no height.\<close>

definition chain_asset_stats ::
  "(nat \<Rightarrow> (liquid_info \<times> block_id) list) \<Rightarrow> (hash \<Rightarrow> nat option) \<Rightarrow> 's \<Rightarrow> 's apply_fn \<Rightarrow> ('s \<times> hash) option
    \<Rightarrow> (error_kind, 's \<times> ('s \<times> hash) option) outcome"
where
  "chain_asset_stats scan height_by_hash dflt apply_fn cache =
     bind_out
       (case Option.bind cache (\<lambda>(stats, blockhash). map_option (Pair stats) (height_by_hash blockhash)) of
          None \<Rightarrow> chain_asset_stats_delta scan dflt 0 apply_fn
        | Some (oldstats, blockheight) \<Rightarrow> chain_asset_stats_delta scan oldstats (blockheight + 1) apply_fn)
       (\<lambda>(newstats, lastblock). Ok (newstats, case lastblock of Some b \<Rightarrow> Some (newstats, b) | None \<Rightarrow> cache))"

fun mempool_loop :: "'s apply_fn \<Rightarrow> 's \<times> hash set \<Rightarrow> liquid_info list \<Rightarrow> (error_kind, 's) outcome" where
  "mempool_loop apply_fn (stats, seen) [] = Ok stats"
| "mempool_loop apply_fn acc (info # infos) = bind_out (apply_fn info acc) (\<lambda>acc. mempool_loop apply_fn acc infos)"

definition mempool_asset_stats :: "asset_mempool \<Rightarrow> hash \<Rightarrow> 's \<Rightarrow> 's apply_fn \<Rightarrow> (error_kind, 's) outcome" where
  "mempool_asset_stats am asset_id dflt apply_fn =
     (case am_history am asset_id of None \<Rightarrow> Ok dflt | Some hist \<Rightarrow> mempool_loop apply_fn (dflt, {}) hist)"

section \<open>Supply\<close>

datatype liquid_asset = Issued issued_stats issued_stats "nat option" | Native pegged_stats pegged_stats

definition asset_supply :: "liquid_asset \<Rightarrow> u64 option" where
  "asset_supply a =
     (case a of
        Native chain mem \<Rightarrow>
          Some (pa_peg_in_amount chain - pa_peg_out_amount chain - pa_burned_amount chain + pa_peg_in_amount mem
                - pa_peg_out_amount mem - pa_burned_amount mem)
      | Issued chain mem _ \<Rightarrow>
          if ia_has_blinded_issuances chain \<or> ia_has_blinded_issuances mem then None
          else Some (ia_issued_amount chain - ia_burned_amount chain + ia_issued_amount mem - ia_burned_amount mem))"

definition asset_precision :: "liquid_asset \<Rightarrow> nat" where
  "asset_precision a = (case a of Native _ _ \<Rightarrow> 8 | Issued _ _ meta \<Rightarrow> (case meta of None \<Rightarrow> 0 | Some p \<Rightarrow> p))"

section \<open>The value of an issuance\<close>

record issuance_value =
  ivl_asset_id :: utext
  ivl_is_reissuance :: bool
  ivl_asset_blinding_nonce :: "utext option"
  ivl_contract_hash :: "utext option"
  ivl_asset_entropy :: utext
  ivl_assetamount :: "u64 option"
  ivl_assetamountcommitment :: "utext option"
  ivl_tokenamount :: "u64 option"
  ivl_tokenamountcommitment :: "utext option"

definition issuance_value_from :: "elements_lib \<Rightarrow> el_tx_in \<Rightarrow> (error_kind, issuance_value) outcome" where
  "issuance_value_from lb txin =
     (let issuance = ei_asset_issuance txin;
          commitment = (\<lambda>v. case v of ValueConfidential _ \<Rightarrow> Some (hex_encode (lb_serialize_value lb v)) | _ \<Rightarrow> None)
      in bind_out (case get_issuance_entropy lb txin of Ok e \<Rightarrow> Ok e | _ \<Rightarrow> Panic ''invalid issuance'') (\<lambda>asset_entropy.
         Ok \<lparr>ivl_asset_id = hex_encode (lb_asset_from_entropy lb asset_entropy), ivl_is_reissuance = is_reissuance lb txin,
             ivl_asset_blinding_nonce = (if is_reissuance lb txin then Some (hex_encode (ai_asset_blinding_nonce issuance)) else None),
             ivl_contract_hash = (if is_reissuance lb txin then None else Some (hex_encode (ai_asset_entropy issuance))),
             ivl_asset_entropy = hex_encode asset_entropy,
             ivl_assetamount = explicit_amount (ai_amount issuance), ivl_assetamountcommitment = commitment (ai_amount issuance),
             ivl_tokenamount = explicit_amount (ai_inflation_keys issuance),
             ivl_tokenamountcommitment = commitment (ai_inflation_keys issuance)\<rparr>))"

section \<open>What a transaction contributes\<close>

text \<open>Pegs are entries of the pegged asset only, and no entry of a script is among those of an asset.\<close>

definition entry_fits :: "hash option \<Rightarrow> hash \<Rightarrow> liquid_info \<Rightarrow> bool" where
  "entry_fits pegged a info \<longleftrightarrow>
     (case info of OfScript _ \<Rightarrow> False | Pegin _ \<Rightarrow> pegged = Some a | Pegout _ \<Rightarrow> pegged = Some a | _ \<Rightarrow> True)"

lemma output_entry_ok:
  "\<exists>es. output_entry lb net parent txid io = Ok es \<and> (\<forall>(a, info)\<in>set es. li_txid info = txid \<and> entry_fits (pegged_asset lb net) a info)"
proof (cases io)
  case (Pair i txo)
  show ?thesis
  proof (cases "get_pegout_data lb txo net parent")
    case None
    have "output_entry lb net parent txid io = Ok []
        \<or> (\<exists>a v. output_entry lb net parent txid io = Ok [(a, Burning \<lparr>bu_txid = txid, bu_vout = word_of_nat i, bu_value = v\<rparr>)])"
      unfolding output_entry_def Pair prod.case None option.case by (cases "eo_asset txo"; cases "eo_value txo"; simp)
    then show ?thesis by (elim disjE exE; simp add: entry_fits_def)
  next
    case (Some pegout)
    then obtain a where "pegged_asset lb net = Some a" "po_asset pegout = AssetExplicit a"
      by (auto simp: get_pegout_data_def bind_eq_Some_conv split: if_splits)
    then show ?thesis using Pair Some by (simp add: output_entry_def entry_fits_def)
  qed
qed

lemma input_entry_ok:
  "\<exists>es is. input_entry lb net txid ii = Ok (es, is) \<and> (\<forall>(a, info)\<in>set es. li_txid info = txid \<and> entry_fits (pegged_asset lb net) a info)
    \<and> (\<forall>(a, r)\<in>set is. ar_issuance_txid r = txid)"
proof (cases ii)
  case (Pair i txi)
  show ?thesis
  proof (cases "get_pegin_data lb txi net")
    case None
    then show ?thesis using Pair by (auto simp: input_entry_def entry_fits_def get_issuance_entropy_def Let_def)
  next
    case (Some pegin)
    then have "pegged_asset lb net = Some (pd_asset_id pegin)" by (auto simp: get_pegin_data_def bind_eq_Some_conv split: if_splits)
    then show ?thesis using Pair Some by (simp add: input_entry_def entry_fits_def)
  qed
qed

lemma collect_out_ok: "(\<And>x. \<exists>y. f x = Ok y \<and> P y) \<Longrightarrow> \<exists>ys. collect_out f xs = Ok ys \<and> (\<forall>y\<in>set ys. P y)"
proof (induction xs)
  case (Cons x xs)
  obtain y where "f x = Ok y" "P y" using Cons.prems by blast
  then show ?case using Cons.IH [OF Cons.prems] by auto
qed simp

lemma index_tx_assets_ok:
  "\<exists>es is. index_tx_assets lb net parent tx = Ok (es, is)
    \<and> (\<forall>(a, info)\<in>set es. li_txid info = lb_txid lb tx \<and> entry_fits (pegged_asset lb net) a info) \<and> (\<forall>(a, r)\<in>set is. ar_issuance_txid r = lb_txid lb tx)"
proof -
  let ?P = "\<lambda>es. \<forall>(a, info)\<in>set es. li_txid info = lb_txid lb tx \<and> entry_fits (pegged_asset lb net) a info"
  let ?Q = "\<lambda>p. ?P (fst p) \<and> (\<forall>(a, r)\<in>set (snd p). ar_issuance_txid r = lb_txid lb tx)"
  obtain outs where outs: "collect_out (output_entry lb net parent (lb_txid lb tx)) (enumerate 0 (et_output tx)) = Ok outs" "\<forall>y\<in>set outs. ?P y"
    using collect_out_ok [of "output_entry lb net parent (lb_txid lb tx)" ?P, OF output_entry_ok] by blast
  have "\<exists>y. input_entry lb net (lb_txid lb tx) x = Ok y \<and> ?Q y" for x using input_entry_ok [of lb net "lb_txid lb tx" x] by auto
  from collect_out_ok [of "input_entry lb net (lb_txid lb tx)" ?Q, OF this] obtain ins where ins: "collect_out (input_entry lb net (lb_txid lb tx)) (enumerate 0 (et_input tx)) = Ok ins" "\<forall>y\<in>set ins. ?Q y" by blast
  have "index_tx_assets lb net parent tx = Ok (concat outs @ concat (map fst ins), concat (map snd ins))"
    by (simp add: index_tx_assets_def Let_def outs(1) ins(1))
  moreover have "?P (concat outs @ concat (map fst ins))" using outs(2) ins(2) by fastforce
  moreover have "\<forall>(a, r)\<in>set (concat (map snd ins)). ar_issuance_txid r = lb_txid lb tx" using ins(2) by fastforce
  ultimately show ?thesis by blast
qed

definition tx_entries :: "elements_lib \<Rightarrow> liquid_network \<Rightarrow> parent_network \<Rightarrow> el_tx \<Rightarrow> (hash \<times> liquid_info) list" where
  "tx_entries lb net parent tx = (case index_tx_assets lb net parent tx of Ok (es, _) \<Rightarrow> es | _ \<Rightarrow> [])"

definition tx_issuances :: "elements_lib \<Rightarrow> liquid_network \<Rightarrow> parent_network \<Rightarrow> el_tx \<Rightarrow> (hash \<times> asset_row) list" where
  "tx_issuances lb net parent tx = (case index_tx_assets lb net parent tx of Ok (_, is) \<Rightarrow> is | _ \<Rightarrow> [])"

lemma index_tx_assets_entries:
  "index_tx_assets lb net parent tx = Ok (tx_entries lb net parent tx, tx_issuances lb net parent tx)"
  "(a, info) \<in> set (tx_entries lb net parent tx) \<Longrightarrow> li_txid info = lb_txid lb tx \<and> entry_fits (pegged_asset lb net) a info"
  "(a, r) \<in> set (tx_issuances lb net parent tx) \<Longrightarrow> ar_issuance_txid r = lb_txid lb tx"
  using index_tx_assets_ok [of lb net parent tx] by (auto simp: tx_entries_def tx_issuances_def)

section \<open>The mempool holds exactly the entries of its transactions\<close>

definition asset_entries_of :: "elements_lib \<Rightarrow> liquid_network \<Rightarrow> parent_network \<Rightarrow> el_tx list \<Rightarrow> hash \<Rightarrow> liquid_info list" where
  "asset_entries_of lb net parent txs a = map snd (filter (\<lambda>e. fst e = a) (concat (map (tx_entries lb net parent) txs)))"

definition issuances_of :: "elements_lib \<Rightarrow> liquid_network \<Rightarrow> parent_network \<Rightarrow> el_tx list \<Rightarrow> (hash \<times> asset_row) list" where
  "issuances_of lb net parent txs = concat (map (tx_issuances lb net parent) txs)"

definition assets_exact :: "elements_lib \<Rightarrow> liquid_network \<Rightarrow> parent_network \<Rightarrow> el_tx list \<Rightarrow> asset_mempool \<Rightarrow> bool" where
  "assets_exact lb net parent txs am \<longleftrightarrow>
     (\<forall>a. am_history am a = (if asset_entries_of lb net parent txs a = [] then None else Some (asset_entries_of lb net parent txs a)))
     \<and> am_issuance am = map_of (issuances_of lb net parent txs)"

definition held :: "(hash \<rightharpoonup> liquid_info list) \<Rightarrow> hash \<Rightarrow> liquid_info list" where
  "held m a = (case m a of None \<Rightarrow> [] | Some es \<Rightarrow> es)"

lemma push_one:
  "held (push_info m (b, info)) a = held m a @ (if b = a then [info] else [])"
  "push_info m (b, info) a = Some [] \<Longrightarrow> m a = Some []"
  by (auto simp: held_def push_info_def split: if_splits)

lemma push_infos: "held (foldl push_info m es) a = held m a @ map snd (filter (\<lambda>e. fst e = a) es)"
proof (induction es arbitrary: m)
  case (Cons e es)
  obtain b info where e: "e = (b, info)" by (cases e)
  show ?case using Cons [of "push_info m e"] by (simp add: e push_one)
qed simp

lemma push_nonempty: "foldl push_info m es a = Some [] \<Longrightarrow> m a = Some []"
proof (induction es arbitrary: m)
  case (Cons e es)
  obtain b info where e: "e = (b, info)" by (cases e)
  show ?case using Cons(1) [of "push_info m e"] Cons(2) push_one(2) [of m b info a] by (simp add: e)
qed simp

lemma update_distinct:
  "distinct (map fst (xs @ ys)) \<Longrightarrow> foldl (\<lambda>m (a, r). m(a \<mapsto> r)) (map_of xs) ys = map_of (xs @ ys)"
proof (induction ys arbitrary: xs)
  case (Cons y ys)
  obtain a r where y: "y = (a, r)" by (cases y)
  have n: "map_of xs a = None" using Cons.prems by (auto simp: y map_of_eq_None_iff)
  have "(map_of xs)(a \<mapsto> r) = map_of (xs @ [(a, r)])"
  proof
    fix x
    show "((map_of xs)(a \<mapsto> r)) x = map_of (xs @ [(a, r)]) x" using n by (cases "map_of xs x") (auto simp: map_add_def)
  qed
  then show ?case using Cons.IH [of "xs @ [(a, r)]"] Cons.prems by (simp add: y del: fun_upd_apply)
qed simp

lemma entries_removed:
  "filter (\<lambda>e. li_txid e \<notin> S) (asset_entries_of lb net parent txs a) = asset_entries_of lb net parent (filter (\<lambda>t. lb_txid lb t \<notin> S) txs) a"
proof (induction txs)
  case (Cons t txs)
  let ?E = "map snd (filter (\<lambda>e. fst e = a) (tx_entries lb net parent t))"
  have "filter (\<lambda>e. li_txid e \<notin> S) ?E = (if lb_txid lb t \<in> S then [] else ?E)"
  proof -
    have "li_txid e = lb_txid lb t" if "e \<in> set ?E" for e using that index_tx_assets_entries(2) by fastforce
    then show ?thesis by (auto simp: filter_empty_conv intro: filter_True)
  qed
  then show ?case using Cons by (auto simp: asset_entries_of_def)
qed (simp add: asset_entries_of_def)

lemma issuances_removed:
  assumes "distinct (map fst (issuances_of lb net parent txs))"
  shows "(case map_of (issuances_of lb net parent txs) a of None \<Rightarrow> None | Some r \<Rightarrow> if ar_issuance_txid r \<in> S then None else Some r)
    = map_of (issuances_of lb net parent (filter (\<lambda>t. lb_txid lb t \<notin> S) txs)) a"
proof -
  let ?all = "issuances_of lb net parent txs"
  have f: "issuances_of lb net parent (filter (\<lambda>t. lb_txid lb t \<notin> S) txs) = filter (\<lambda>e. ar_issuance_txid (snd e) \<notin> S) ?all"
  proof (induction txs)
    case (Cons t txs)
    have "filter (\<lambda>e. ar_issuance_txid (snd e) \<notin> S) (tx_issuances lb net parent t) = (if lb_txid lb t \<in> S then [] else tx_issuances lb net parent t)"
    proof -
      have "ar_issuance_txid (snd e) = lb_txid lb t" if "e \<in> set (tx_issuances lb net parent t)" for e
        using that index_tx_assets_entries(3) [of "fst e" "snd e"] by simp
      then show ?thesis by (auto simp: filter_empty_conv intro: filter_True)
    qed
    then show ?case using Cons by (simp add: issuances_of_def)
  qed (simp add: issuances_of_def)
  show ?thesis
  proof (cases "map_of ?all a")
    case None
    then have "a \<notin> fst ` set (filter (\<lambda>e. ar_issuance_txid (snd e) \<notin> S) ?all)" by (auto simp: map_of_eq_None_iff)
    then have "map_of (filter (\<lambda>e. ar_issuance_txid (snd e) \<notin> S) ?all) a = None" by (simp only: map_of_eq_None_iff not_False_eq_True)
    then show ?thesis using None unfolding f by simp
  next
    case (Some r)
    then have r: "(a, r) \<in> set ?all" by (rule map_of_SomeD)
    have u: "r' = r" if "(a, r') \<in> set ?all" for r' using assms r that by (meson eq_key_imp_eq_value)
    show ?thesis
    proof (cases "ar_issuance_txid r \<in> S")
      case True
      then have "a \<notin> fst ` set (filter (\<lambda>e. ar_issuance_txid (snd e) \<notin> S) ?all)" using u by fastforce
      then have "map_of (filter (\<lambda>e. ar_issuance_txid (snd e) \<notin> S) ?all) a = None" by (simp only: map_of_eq_None_iff not_False_eq_True)
      then show ?thesis using True Some unfolding f by simp
    next
      case False
      then have "(a, r) \<in> set (filter (\<lambda>e. ar_issuance_txid (snd e) \<notin> S) ?all)" using r by simp
      moreover have "distinct (map fst (filter (\<lambda>e. ar_issuance_txid (snd e) \<notin> S) ?all))" using assms by (rule distinct_map_filter)
      ultimately show ?thesis using False Some unfolding f by simp
    qed
  qed
qed

text \<open>Asset entries in the mempool: indexing a transaction never panics and appends exactly its entries, and removing
  transactions leaves exactly the entries of those that stay, in order, as if the others had never been there. The assets
  issued are told apart by their outpoints, so no two are issued by different transactions.\<close>

theorem mempool_assets_exact:
  assumes "assets_exact lb net parent txs am" "distinct (map fst (issuances_of lb net parent (txs @ [tx])))"
  shows "(\<exists>am'. index_mempool_tx_assets lb net parent tx am = Ok am' \<and> assets_exact lb net parent (txs @ [tx]) am')
    \<and> assets_exact lb net parent (filter (\<lambda>t. lb_txid lb t \<notin> S) txs) (remove_mempool_tx_assets S am)"
proof
  let ?E = "asset_entries_of lb net parent"
  have h: "am_history am a = (if ?E txs a = [] then None else Some (?E txs a))" for a using assms(1) by (simp add: assets_exact_def)
  have i: "am_issuance am = map_of (issuances_of lb net parent txs)" using assms(1) by (simp add: assets_exact_def)
  let ?am = "am\<lparr>am_history := foldl push_info (am_history am) (tx_entries lb net parent tx),
      am_issuance := foldl (\<lambda>m (a, r). m(a \<mapsto> r)) (am_issuance am) (tx_issuances lb net parent tx)\<rparr>"
  have "foldl push_info (am_history am) (tx_entries lb net parent tx) a = (if ?E (txs @ [tx]) a = [] then None else Some (?E (txs @ [tx]) a))" for a
  proof -
    have "held (am_history am) a = ?E txs a" "am_history am a \<noteq> Some []" using h [of a] by (simp_all add: held_def)
    moreover have "?E (txs @ [tx]) a = ?E txs a @ map snd (filter (\<lambda>e. fst e = a) (tx_entries lb net parent tx))"
      by (simp add: asset_entries_of_def)
    ultimately show ?thesis
      using push_infos [of "am_history am" "tx_entries lb net parent tx" a] push_nonempty [of "am_history am" "tx_entries lb net parent tx" a]
      by (cases "foldl push_info (am_history am) (tx_entries lb net parent tx) a") (auto simp: held_def)
  qed
  moreover have "foldl (\<lambda>m (a, r). m(a \<mapsto> r)) (am_issuance am) (tx_issuances lb net parent tx) = map_of (issuances_of lb net parent (txs @ [tx]))"
    using update_distinct [of "issuances_of lb net parent txs" "tx_issuances lb net parent tx"] assms(2) by (simp add: i issuances_of_def)
  ultimately have "assets_exact lb net parent (txs @ [tx]) ?am" by (simp add: assets_exact_def)
  then show "\<exists>am'. index_mempool_tx_assets lb net parent tx am = Ok am' \<and> assets_exact lb net parent (txs @ [tx]) am'"
    by (simp add: index_mempool_tx_assets_def index_tx_assets_entries(1))
  have d: "distinct (map fst (issuances_of lb net parent txs))" using assms(2) by (simp add: issuances_of_def)
  have "(case am_history am a of None \<Rightarrow> None | Some es \<Rightarrow> let kept = filter (\<lambda>e. li_txid e \<notin> S) es in if kept = [] then None else Some kept)
      = (if ?E (filter (\<lambda>t. lb_txid lb t \<notin> S) txs) a = [] then None else Some (?E (filter (\<lambda>t. lb_txid lb t \<notin> S) txs) a))" for a
    using entries_removed [of S lb net parent txs a] h [of a] by (auto simp: Let_def)
  then show "assets_exact lb net parent (filter (\<lambda>t. lb_txid lb t \<notin> S) txs) (remove_mempool_tx_assets S am)"
    using issuances_removed [OF d, where S = S] by (simp add: assets_exact_def remove_mempool_tx_assets_def i fun_eq_iff)
qed

section \<open>Statistics are exact\<close>

text \<open>Rows in the order of their blocks, whose hashes are known by height; a transaction is in one block.\<close>

definition in_blocks :: "(hash \<Rightarrow> nat option) \<Rightarrow> (liquid_info \<times> block_id) list \<Rightarrow> bool" where
  "in_blocks height_by_hash rows \<longleftrightarrow> sorted (map (\<lambda>r. bid_height (snd r)) rows)
     \<and> (\<forall>x\<in>set rows. \<forall>y\<in>set rows. bid_height (snd x) = bid_height (snd y) \<longleftrightarrow> bid_hash (snd x) = bid_hash (snd y))
     \<and> (\<forall>x\<in>set rows. \<forall>y\<in>set rows. li_txid (fst x) = li_txid (fst y) \<longrightarrow> bid_hash (snd x) = bid_hash (snd y))
     \<and> (\<forall>x\<in>set rows. height_by_hash (bid_hash (snd x)) = Some (bid_height (snd x)))"

text \<open>The cached statistics are those of the rows up to their block, if that is still in the best chain.\<close>

definition cache_sound ::
  "(hash \<Rightarrow> nat option) \<Rightarrow> 's \<Rightarrow> 's apply_fn \<Rightarrow> (liquid_info \<times> block_id) list \<Rightarrow> ('s \<times> hash) option \<Rightarrow> bool"
where
  "cache_sound height_by_hash dflt apply_fn rows cache \<longleftrightarrow>
     (\<forall>st bh h. cache = Some (st, bh) \<and> height_by_hash bh = Some h \<longrightarrow>
        (\<exists>b. delta_loop apply_fn (dflt, {}) None (filter (\<lambda>r. bid_height (snd r) \<le> h) rows) = Ok (st, b)))"

lemma sorted_cut:
  assumes "sorted (map f xs)"
  shows "xs = filter (\<lambda>x. f x \<le> (h :: nat)) xs @ filter (\<lambda>x. Suc h \<le> f x) xs"
  using assms
proof (induction xs)
  case (Cons x xs)
  show ?case
  proof (cases "f x \<le> h")
    case True
    then show ?thesis using Cons by simp
  next
    case False
    then have "\<forall>y\<in>set xs. Suc h \<le> f y" using Cons.prems by force
    then have "filter (\<lambda>x. f x \<le> h) xs = []" "filter (\<lambda>x. Suc h \<le> f x) xs = xs" by (auto simp: filter_empty_conv)
    then show ?thesis using False by simp
  qed
qed simp

text \<open>What the two ways of counting have in common: an entry of the right kind is never refused, counts its transaction
  unless it has been seen in the block, and changes the amounts.\<close>

locale asset_counting =
  fixes apply_fn :: "liquid_info \<Rightarrow> 's \<times> hash set \<Rightarrow> (error_kind, 's \<times> hash set) outcome"
    and fits :: "liquid_info \<Rightarrow> bool"
    and inc :: "'s \<Rightarrow> 's"
    and amounts :: "liquid_info \<Rightarrow> 's \<Rightarrow> 's"
    and tx_count :: "'s \<Rightarrow> u64"
  assumes applied: "fits info \<Longrightarrow>
      apply_fn info (s, seen) = Ok (amounts info (if li_txid info \<in> seen then s else inc s), insert (li_txid info) seen)"
    and count_inc: "tx_count (inc s) = tx_count s + 1"
    and count_amounts: "tx_count (amounts info s) = tx_count s"
begin

definition step :: "'s \<times> hash set \<times> hash option \<Rightarrow> liquid_info \<times> block_id \<Rightarrow> 's \<times> hash set \<times> hash option" where
  "step st row = (case (st, row) of ((s, seen, lastblock), (info, b)) \<Rightarrow>
     let seen = (if lastblock \<noteq> Some (bid_hash b) then {} else seen)
     in (amounts info (if li_txid info \<in> seen then s else inc s), insert (li_txid info) seen, Some (bid_hash b)))"

lemma delta_loop_fold:
  "\<forall>(info, _)\<in>set rows. fits info \<Longrightarrow>
   delta_loop apply_fn (s, seen) lastblock rows = (case foldl step (s, seen, lastblock) rows of (s', _, b) \<Rightarrow> Ok (s', b))"
proof (induction rows arbitrary: s seen lastblock)
  case (Cons row rows)
  obtain info b where row: "row = (info, b)" by (cases row)
  then show ?case using Cons by (simp add: applied step_def Let_def)
qed simp

lemma fold_lastblock: "rows \<noteq> [] \<Longrightarrow> snd (snd (foldl step st rows)) = Some (bid_hash (snd (last rows)))"
  by (induction rows rule: rev_induct) (auto simp: step_def Let_def split: prod.splits)

text \<open>A block boundary is as good as a fresh start.\<close>

lemma fold_boundary:
  assumes "ys \<noteq> []" "lastblock \<noteq> Some (bid_hash (snd (hd ys)))"
  shows "foldl step (s, seen, lastblock) ys = foldl step (s, {}, None) ys"
proof -
  obtain y ys' where "ys = y # ys'" using assms(1) by (cases ys) auto
  then show ?thesis using assms(2) by (cases y) (simp add: step_def)
qed

lemma in_blocks_prefix: "in_blocks hb (xs @ ys) \<Longrightarrow> in_blocks hb xs"
  by (auto simp: in_blocks_def sorted_append)

lemma fold_counts:
  "in_blocks hb rows \<Longrightarrow> rows \<noteq> [] \<Longrightarrow>
   (case foldl step (s, {}, None) rows of (s', seen, b) \<Rightarrow>
      tx_count s' = tx_count s + of_nat (card (li_txid ` fst ` set rows))
      \<and> seen = li_txid ` fst ` {r \<in> set rows. bid_hash (snd r) = bid_hash (snd (last rows))})"
proof (induction rows rule: rev_induct)
  case (snoc row rows)
  obtain info b where row: "row = (info, b)" by (cases row)
  show ?case
  proof (cases "rows = []")
    case True
    then have "{r \<in> set (rows @ [row]). bid_hash (snd r) = bid_hash (snd (last (rows @ [row])))} = {row}" by auto
    then show ?thesis using True by (simp add: row step_def count_inc count_amounts Let_def)
  next
    case False
    obtain s' seen lb where f: "foldl step (s, {}, None) rows = (s', seen, lb)" by (cases "foldl step (s, {}, None) rows")
    have ih: "tx_count s' = tx_count s + of_nat (card (li_txid ` fst ` set rows))"
        "seen = li_txid ` fst ` {r \<in> set rows. bid_hash (snd r) = bid_hash (snd (last rows))}"
      using snoc.IH [OF in_blocks_prefix [OF snoc.prems(1)] False] f by simp_all
    have lb: "lb = Some (bid_hash (snd (last rows)))" using fold_lastblock [OF False, of "(s, {}, None)"] f by simp
    have last: "last rows \<in> set rows" using False by simp
    have srt: "sorted (map (\<lambda>r. bid_height (snd r)) (rows @ [row]))"
      and same: "\<forall>x\<in>set (rows @ [row]). \<forall>y\<in>set (rows @ [row]). bid_height (snd x) = bid_height (snd y) \<longleftrightarrow> bid_hash (snd x) = bid_hash (snd y)"
      and one: "\<forall>x\<in>set (rows @ [row]). \<forall>y\<in>set (rows @ [row]). li_txid (fst x) = li_txid (fst y) \<longrightarrow> bid_hash (snd x) = bid_hash (snd y)"
      using snoc.prems(1) unfolding in_blocks_def by blast+
    have hh: "bid_height (snd x) = bid_height b \<longleftrightarrow> bid_hash (snd x) = bid_hash b" if "x \<in> set rows" for x
      using same [rule_format, of x row] that by (simp add: row)
    have tx: "li_txid (fst x) = li_txid info \<Longrightarrow> bid_hash (snd x) = bid_hash b" if "x \<in> set rows" for x
      using one [rule_format, of x row] that by (simp add: row)
    have le: "bid_height (snd x) \<le> bid_height (snd (last rows))" "bid_height (snd x) \<le> bid_height b" if "x \<in> set rows" for x
    proof -
      have "sorted (map (\<lambda>r. bid_height (snd r)) (butlast rows @ [last rows]))" using srt False by (simp add: sorted_append)
      moreover have "x \<in> set (butlast rows) \<or> x = last rows" using that False by (metis append_butlast_last_id in_set_conv_decomp rotate1.simps(2) set_ConsD set_rotate1)
      ultimately show "bid_height (snd x) \<le> bid_height (snd (last rows))" by (auto simp: sorted_append)
      show "bid_height (snd x) \<le> bid_height b" using srt that by (simp add: sorted_append row)
    qed
    define seen' where "seen' = (if lb \<noteq> Some (bid_hash b) then {} else seen)"
    have seen': "seen' = li_txid ` fst ` {r \<in> set rows. bid_hash (snd r) = bid_hash b}"
    proof (cases "bid_hash (snd (last rows)) = bid_hash b")
      case True
      then show ?thesis using ih(2) lb by (simp add: seen'_def)
    next
      case neq: False
      have "bid_hash (snd r) \<noteq> bid_hash b" if r: "r \<in> set rows" for r
        using hh [OF r] hh [OF last] le(1) [OF r] le(2) [OF last] neq by linarith
      then show ?thesis using neq lb by (auto simp: seen'_def)
    qed
    have new: "li_txid info \<in> seen' \<longleftrightarrow> li_txid info \<in> li_txid ` fst ` set rows"
    proof
      assume "li_txid info \<in> li_txid ` fst ` set rows"
      then obtain r where r: "r \<in> set rows" "li_txid (fst r) = li_txid info" by auto
      then have "bid_hash (snd r) = bid_hash b" using tx by blast
      then have "r \<in> {r \<in> set rows. bid_hash (snd r) = bid_hash b}" using r(1) by simp
      then have "li_txid (fst r) \<in> li_txid ` fst ` {r \<in> set rows. bid_hash (snd r) = bid_hash b}" by (intro imageI)
      then show "li_txid info \<in> seen'" unfolding seen' r(2) .
    qed (auto simp: seen')
    have e: "foldl step (s, {}, None) (rows @ [row]) = (amounts info (if li_txid info \<in> seen' then s' else inc s'), insert (li_txid info) seen', Some (bid_hash b))"
      by (simp add: f row step_def seen'_def Let_def)
    have c: "card (li_txid ` fst ` set (rows @ [row])) = card (li_txid ` fst ` set rows) + (if li_txid info \<in> seen' then 0 else 1)"
      using new by (simp add: row insert_absorb)
    have "{r \<in> set (rows @ [row]). bid_hash (snd r) = bid_hash (snd (last (rows @ [row])))} = insert row {r \<in> set rows. bid_hash (snd r) = bid_hash b}"
      by (auto simp: row)
    then have "insert (li_txid info) seen' = li_txid ` fst ` {r \<in> set (rows @ [row]). bid_hash (snd r) = bid_hash (snd (last (rows @ [row])))}"
      unfolding seen' by (simp add: row)
    then show ?thesis using ih(1) c e by (simp add: count_inc count_amounts)
  qed
qed simp

lemma delta_start: "\<forall>(info, _)\<in>set rows. fits info \<Longrightarrow>
    delta_loop apply_fn (s, {}) None rows = Ok (fst (foldl step (s, {}, None) rows), if rows = [] then None else Some (bid_hash (snd (last rows))))"
  using fold_lastblock [of rows "(s, {}, None)"] by (auto simp: delta_loop_fold split: prod.splits)

lemma cached_exact:
  assumes scan: "\<And>n. scan n = filter (\<lambda>r. n \<le> bid_height (snd r)) (scan 0)"
    and rows: "in_blocks hb (scan 0)" "\<forall>(info, _)\<in>set (scan 0). fits info" and sound: "cache_sound hb dflt apply_fn (scan 0) cache"
  shows "\<exists>cache'. chain_asset_stats scan hb dflt apply_fn cache = Ok (fst (foldl step (dflt, {}, None) (scan 0)), cache')
    \<and> cache_sound hb dflt apply_fn (scan 0) cache'"
proof -
  let ?all = "scan 0" and ?st = "fst (foldl step (dflt, {}, None) (scan 0))"
  have srt: "sorted (map (\<lambda>r. bid_height (snd r)) ?all)" using rows(1) by (simp add: in_blocks_def)
  have fit: "\<forall>(info, _)\<in>set (filter P ?all). fits info" for P using rows(2) by auto
  have fresh: "cache_sound hb dflt apply_fn ?all (Some (?st, bid_hash (snd (last ?all))))" if "?all \<noteq> []"
  proof -
    have "hb (bid_hash (snd (last ?all))) = Some (bid_height (snd (last ?all)))" using rows(1) that by (simp add: in_blocks_def)
    moreover have "\<forall>r\<in>set ?all. bid_height (snd r) \<le> bid_height (snd (last ?all))"
    proof
      fix r assume "r \<in> set ?all"
      then obtain i where i: "i < length ?all" "r = ?all ! i" by (metis in_set_conv_nth)
      then show "bid_height (snd r) \<le> bid_height (snd (last ?all))"
        using sorted_nth_mono [OF srt, of i "length ?all - 1"] that by (simp add: last_conv_nth)
    qed
    ultimately show ?thesis using delta_start [OF rows(2)] by (auto simp: cache_sound_def)
  qed
  show ?thesis
  proof (cases "Option.bind cache (\<lambda>(stats, bh). map_option (Pair stats) (hb bh))")
    case None
    then have "chain_asset_stats scan hb dflt apply_fn cache = Ok (?st, if ?all = [] then cache else Some (?st, bid_hash (snd (last ?all))))"
      by (simp add: chain_asset_stats_def chain_asset_stats_delta_def delta_start [OF rows(2)])
    then show ?thesis using fresh sound by auto
  next
    case (Some p)
    then obtain st bh h where c: "cache = Some (st, bh)" "hb bh = Some h" "p = (st, h)" by (auto simp: bind_eq_Some_conv)
    let ?xs = "filter (\<lambda>r. bid_height (snd r) \<le> h) ?all" and ?ys = "filter (\<lambda>r. Suc h \<le> bid_height (snd r)) ?all"
    have all: "?all = ?xs @ ?ys" by (rule sorted_cut [OF srt])
    have st: "st = fst (foldl step (dflt, {}, None) ?xs)"
      using sound c(1,2) delta_start [OF fit] by (auto simp: cache_sound_def)
    have e: "fst (foldl step (st, {}, None) ?ys) = ?st"
    proof (cases "?ys = []")
      case True
      then show ?thesis using st by (subst (2) all) simp
    next
      case False
      have "hd ?ys \<in> set ?ys" using False by (rule hd_in_set)
      then have hd: "hd ?ys \<in> set ?all" "Suc h \<le> bid_height (snd (hd ?ys))" by auto
      obtain seen lb where f: "foldl step (dflt, {}, None) ?xs = (st, seen, lb)" using st by (cases "foldl step (dflt, {}, None) ?xs") simp
      have "lb \<noteq> Some (bid_hash (snd (hd ?ys)))"
      proof (cases "?xs = []")
        case True
        then show ?thesis using f by simp
      next
        case False
        have "last ?xs \<in> set ?xs" using False by (rule last_in_set)
        then have "last ?xs \<in> set ?all" "bid_height (snd (last ?xs)) \<le> h" by auto
        then have "bid_hash (snd (last ?xs)) \<noteq> bid_hash (snd (hd ?ys))" using hd rows(1) unfolding in_blocks_def by (metis not_less_eq_eq)
        then show ?thesis using fold_lastblock [OF False, of "(dflt, {}, None)"] f by simp
      qed
      then have "foldl step (st, seen, lb) ?ys = foldl step (st, {}, None) ?ys" by (rule fold_boundary [OF \<open>?ys \<noteq> []\<close>])
      moreover have "foldl step (dflt, {}, None) ?all = foldl step (st, seen, lb) ?ys" by (subst all) (simp add: f)
      ultimately show ?thesis by simp
    qed
    have "chain_asset_stats scan hb dflt apply_fn cache = Ok (?st, if ?ys = [] then cache else Some (?st, bid_hash (snd (last ?ys))))"
      using Some c(3) by (simp add: chain_asset_stats_def chain_asset_stats_delta_def scan [of "Suc h"] delta_start [OF fit] e)
    moreover have "?ys \<noteq> [] \<Longrightarrow> last ?all = last ?ys \<and> ?all \<noteq> []" using all by (metis append_is_Nil_conv last_appendR)
    ultimately show ?thesis using fresh sound by (cases "?ys = []") auto
  qed
qed

lemma fold_sum:
  fixes m :: "'s \<Rightarrow> u64"
  assumes "\<And>info s. m (amounts info s) = m s + d info" "\<And>s. m (inc s) = m s"
  shows "m (fst (foldl step (s, seen, lb) rows)) = m s + sum_list (map (d \<circ> fst) rows)"
  by (induction rows arbitrary: s seen lb) (auto simp: step_def Let_def assms add.assoc)

lemma fold_ex:
  assumes "\<And>info s. m (amounts info s) \<longleftrightarrow> m s \<or> d info" "\<And>s. m (inc s) = m s"
  shows "m (fst (foldl step (s, seen, lb) rows)) \<longleftrightarrow> m s \<or> (\<exists>r\<in>set rows. d (fst r))"
  by (induction rows arbitrary: s seen lb) (auto simp: step_def Let_def assms split: if_splits)

lemma mempool_counts: "\<forall>info\<in>set infos. fits info \<Longrightarrow> \<exists>s'. mempool_loop apply_fn (s, seen) infos = Ok s'"
  by (induction infos arbitrary: s seen) (simp_all add: applied)

end

definition issued_fits :: "liquid_info \<Rightarrow> bool" where
  "issued_fits info \<longleftrightarrow> (case info of Issuing _ \<Rightarrow> True | Burning _ \<Rightarrow> True | _ \<Rightarrow> False)"

definition issued_inc :: "issued_stats \<Rightarrow> issued_stats" where
  "issued_inc s = s\<lparr>ia_tx_count := ia_tx_count s + 1\<rparr>"

definition issued_amounts :: "liquid_info \<Rightarrow> issued_stats \<Rightarrow> issued_stats" where
  "issued_amounts info s =
     (case info of
        Issuing i \<Rightarrow>
          s\<lparr>ia_issuance_count := ia_issuance_count s + 1,
            ia_issued_amount := ia_issued_amount s + (case is_issued_amount i of Some a \<Rightarrow> a | None \<Rightarrow> 0),
            ia_has_blinded_issuances := ia_has_blinded_issuances s \<or> is_issued_amount i = None,
            ia_reissuance_tokens := (if is_is_reissuance i then ia_reissuance_tokens s else is_token_amount i)\<rparr>
      | Burning b \<Rightarrow> s\<lparr>ia_burned_amount := ia_burned_amount s + bu_value b\<rparr>
      | _ \<Rightarrow> s)"

interpretation issued: asset_counting apply_issued_asset_stats issued_fits issued_inc issued_amounts ia_tx_count
proof
  fix info s seen
  assume "issued_fits info"
  then show "apply_issued_asset_stats info (s, seen) = Ok (issued_amounts info (if li_txid info \<in> seen then s else issued_inc s), insert (li_txid info) seen)"
    by (cases info) (auto simp: issued_fits_def apply_issued_asset_stats_def issued_amounts_def issued_inc_def Let_def split: option.splits)
qed (simp_all add: issued_inc_def issued_amounts_def split: liquid_info.splits)

definition pegged_fits :: "liquid_info \<Rightarrow> bool" where
  "pegged_fits info \<longleftrightarrow> (case info of OfScript _ \<Rightarrow> False | _ \<Rightarrow> True)"

definition pegged_inc :: "pegged_stats \<Rightarrow> pegged_stats" where
  "pegged_inc s = s\<lparr>pa_tx_count := pa_tx_count s + 1\<rparr>"

definition pegged_amounts :: "liquid_info \<Rightarrow> pegged_stats \<Rightarrow> pegged_stats" where
  "pegged_amounts info s =
     (case info of
        Pegin i \<Rightarrow> s\<lparr>pa_peg_in_count := pa_peg_in_count s + 1, pa_peg_in_amount := pa_peg_in_amount s + pi_value i\<rparr>
      | Pegout i \<Rightarrow> s\<lparr>pa_peg_out_count := pa_peg_out_count s + 1, pa_peg_out_amount := pa_peg_out_amount s + pu_value i\<rparr>
      | Burning i \<Rightarrow> s\<lparr>pa_burn_count := pa_burn_count s + 1, pa_burned_amount := pa_burned_amount s + bu_value i\<rparr>
      | _ \<Rightarrow> s)"

interpretation pegged: asset_counting apply_pegged_asset_stats pegged_fits pegged_inc pegged_amounts pa_tx_count
proof
  fix info s seen
  assume "pegged_fits info"
  then show "apply_pegged_asset_stats info (s, seen) = Ok (pegged_amounts info (if li_txid info \<in> seen then s else pegged_inc s), insert (li_txid info) seen)"
    by (cases info) (simp_all add: pegged_fits_def apply_pegged_asset_stats_def pegged_amounts_def pegged_inc_def Let_def)
qed (simp_all add: pegged_inc_def pegged_amounts_def split: liquid_info.splits)

text \<open>The amounts a history adds up to.\<close>

fun issued_of :: "liquid_info \<Rightarrow> u64" where
  "issued_of (Issuing i) = (case is_issued_amount i of Some a \<Rightarrow> a | None \<Rightarrow> 0)"
| "issued_of _ = 0"

fun burned_of :: "liquid_info \<Rightarrow> u64" where
  "burned_of (Burning b) = bu_value b"
| "burned_of _ = 0"

fun blinded :: "liquid_info \<Rightarrow> bool" where
  "blinded (Issuing i) \<longleftrightarrow> is_issued_amount i = None"
| "blinded _ \<longleftrightarrow> False"

fun pegged_in :: "liquid_info \<Rightarrow> u64" where
  "pegged_in (Pegin i) = pi_value i"
| "pegged_in _ = 0"

fun pegged_out :: "liquid_info \<Rightarrow> u64" where
  "pegged_out (Pegout i) = pu_value i"
| "pegged_out _ = 0"

lemma issued_field_sums:
  "ia_issued_amount (issued_amounts info s) = ia_issued_amount s + issued_of info" "ia_issued_amount (issued_inc s) = ia_issued_amount s"
  "ia_burned_amount (issued_amounts info s) = ia_burned_amount s + burned_of info" "ia_burned_amount (issued_inc s) = ia_burned_amount s"
  "ia_has_blinded_issuances (issued_amounts info s) \<longleftrightarrow> ia_has_blinded_issuances s \<or> blinded info"
  "ia_has_blinded_issuances (issued_inc s) = ia_has_blinded_issuances s"
  by (simp_all add: issued_amounts_def issued_inc_def split: liquid_info.splits)

lemma issued_fold:
  "ia_issued_amount (fst (foldl issued.step (issued_default, {}, None) rows)) = sum_list (map (issued_of \<circ> fst) rows)"
  "ia_burned_amount (fst (foldl issued.step (issued_default, {}, None) rows)) = sum_list (map (burned_of \<circ> fst) rows)"
  "ia_has_blinded_issuances (fst (foldl issued.step (issued_default, {}, None) rows)) \<longleftrightarrow> (\<exists>r\<in>set rows. blinded (fst r))"
  using issued.fold_sum [of ia_issued_amount issued_of, OF issued_field_sums(1,2), of issued_default "{}" None rows]
    issued.fold_sum [of ia_burned_amount burned_of, OF issued_field_sums(3,4), of issued_default "{}" None rows]
    issued.fold_ex [of ia_has_blinded_issuances blinded, OF issued_field_sums(5,6), of issued_default "{}" None rows]
  by (simp_all add: issued_default_def)

lemma pegged_field_sums:
  "pa_peg_in_amount (pegged_amounts info s) = pa_peg_in_amount s + pegged_in info" "pa_peg_in_amount (pegged_inc s) = pa_peg_in_amount s"
  "pa_peg_out_amount (pegged_amounts info s) = pa_peg_out_amount s + pegged_out info" "pa_peg_out_amount (pegged_inc s) = pa_peg_out_amount s"
  "pa_burned_amount (pegged_amounts info s) = pa_burned_amount s + burned_of info" "pa_burned_amount (pegged_inc s) = pa_burned_amount s"
  by (simp_all add: pegged_amounts_def pegged_inc_def split: liquid_info.splits)

lemma pegged_fold:
  "pa_peg_in_amount (fst (foldl pegged.step (pegged_default, {}, None) rows)) = sum_list (map (pegged_in \<circ> fst) rows)"
  "pa_peg_out_amount (fst (foldl pegged.step (pegged_default, {}, None) rows)) = sum_list (map (pegged_out \<circ> fst) rows)"
  "pa_burned_amount (fst (foldl pegged.step (pegged_default, {}, None) rows)) = sum_list (map (burned_of \<circ> fst) rows)"
  using pegged.fold_sum [of pa_peg_in_amount pegged_in, OF pegged_field_sums(1,2), of pegged_default "{}" None rows]
    pegged.fold_sum [of pa_peg_out_amount pegged_out, OF pegged_field_sums(3,4), of pegged_default "{}" None rows]
    pegged.fold_sum [of pa_burned_amount burned_of, OF pegged_field_sums(5,6), of pegged_default "{}" None rows]
  by (simp_all add: pegged_default_def)

text \<open>The entries of an asset are of the kinds its statistics expect, whatever transactions they come from.\<close>

lemma entries_expected:
  assumes "(a, info) \<in> set (tx_entries lb net parent tx)"
  shows "pegged_fits info" and "pegged_asset lb net \<noteq> Some a \<Longrightarrow> issued_fits info"
  using index_tx_assets_entries(2) [OF assms] by (auto simp: entry_fits_def pegged_fits_def issued_fits_def split: liquid_info.splits)

text \<open>The statistics of an asset never panic on what the indexer stores, and are exact: with a cache that is sound for a
  block, of an older state or of a block since orphaned, they are those of the whole confirmed history, each transaction
  counted once and amounts added in 64 bits, and the cache written is sound again. For an issued asset this gives the
  supply, unless an issuance is blinded; for the pegged asset pegs in less pegs out less what was burned.\<close>

theorem asset_stats_exact:
  assumes scan: "\<forall>n. scan n = filter (\<lambda>r. n \<le> bid_height (snd r)) (scan 0)" "in_blocks hb (scan 0)"
    and entries: "\<forall>r\<in>set (scan 0). \<exists>tx. (a, fst r) \<in> set (tx_entries lb net parent tx)"
  shows "pegged_asset lb net \<noteq> Some a \<and> cache_sound hb issued_default apply_issued_asset_stats (scan 0) icache \<longrightarrow>
      (\<exists>st icache'. chain_asset_stats scan hb issued_default apply_issued_asset_stats icache = Ok (st, icache')
        \<and> cache_sound hb issued_default apply_issued_asset_stats (scan 0) icache'
        \<and> ia_tx_count st = of_nat (card (li_txid ` fst ` set (scan 0)))
        \<and> asset_supply (Issued st issued_default meta)
            = (if \<exists>r\<in>set (scan 0). blinded (fst r) then None
               else Some (sum_list (map (issued_of \<circ> fst) (scan 0)) - sum_list (map (burned_of \<circ> fst) (scan 0)))))"
    and "cache_sound hb pegged_default apply_pegged_asset_stats (scan 0) pcache \<longrightarrow>
      (\<exists>st pcache'. chain_asset_stats scan hb pegged_default apply_pegged_asset_stats pcache = Ok (st, pcache')
        \<and> cache_sound hb pegged_default apply_pegged_asset_stats (scan 0) pcache'
        \<and> pa_tx_count st = of_nat (card (li_txid ` fst ` set (scan 0)))
        \<and> asset_supply (Native st pegged_default)
            = Some (sum_list (map (pegged_in \<circ> fst) (scan 0)) - sum_list (map (pegged_out \<circ> fst) (scan 0)) - sum_list (map (burned_of \<circ> fst) (scan 0))))"
proof -
  have s: "scan n = filter (\<lambda>r. n \<le> bid_height (snd r)) (scan 0)" for n using scan(1) by blast
  show "pegged_asset lb net \<noteq> Some a \<and> cache_sound hb issued_default apply_issued_asset_stats (scan 0) icache \<longrightarrow>
      (\<exists>st icache'. chain_asset_stats scan hb issued_default apply_issued_asset_stats icache = Ok (st, icache')
        \<and> cache_sound hb issued_default apply_issued_asset_stats (scan 0) icache'
        \<and> ia_tx_count st = of_nat (card (li_txid ` fst ` set (scan 0)))
        \<and> asset_supply (Issued st issued_default meta)
            = (if \<exists>r\<in>set (scan 0). blinded (fst r) then None
               else Some (sum_list (map (issued_of \<circ> fst) (scan 0)) - sum_list (map (burned_of \<circ> fst) (scan 0)))))"
  proof
    assume i: "pegged_asset lb net \<noteq> Some a \<and> cache_sound hb issued_default apply_issued_asset_stats (scan 0) icache"
    have fit: "\<forall>(info, _)\<in>set (scan 0). issued_fits info" using entries entries_expected(2) i by fastforce
    have "ia_tx_count (fst (foldl issued.step (issued_default, {}, None) (scan 0))) = of_nat (card (li_txid ` fst ` set (scan 0)))"
      using issued.fold_counts [OF scan(2), of issued_default] by (cases "scan 0 = []") (auto simp: issued_default_def split: prod.splits)
    then show "\<exists>st icache'. chain_asset_stats scan hb issued_default apply_issued_asset_stats icache = Ok (st, icache')
        \<and> cache_sound hb issued_default apply_issued_asset_stats (scan 0) icache'
        \<and> ia_tx_count st = of_nat (card (li_txid ` fst ` set (scan 0)))
        \<and> asset_supply (Issued st issued_default meta)
            = (if \<exists>r\<in>set (scan 0). blinded (fst r) then None
               else Some (sum_list (map (issued_of \<circ> fst) (scan 0)) - sum_list (map (burned_of \<circ> fst) (scan 0))))"
      using issued.cached_exact [OF s scan(2) fit] i issued_fold [of "scan 0"]
      by (fastforce simp: asset_supply_def issued_default_def split: prod.splits)
  qed
  show "cache_sound hb pegged_default apply_pegged_asset_stats (scan 0) pcache \<longrightarrow>
      (\<exists>st pcache'. chain_asset_stats scan hb pegged_default apply_pegged_asset_stats pcache = Ok (st, pcache')
        \<and> cache_sound hb pegged_default apply_pegged_asset_stats (scan 0) pcache'
        \<and> pa_tx_count st = of_nat (card (li_txid ` fst ` set (scan 0)))
        \<and> asset_supply (Native st pegged_default)
            = Some (sum_list (map (pegged_in \<circ> fst) (scan 0)) - sum_list (map (pegged_out \<circ> fst) (scan 0)) - sum_list (map (burned_of \<circ> fst) (scan 0))))"
  proof
    assume c: "cache_sound hb pegged_default apply_pegged_asset_stats (scan 0) pcache"
    have fit: "\<forall>(info, _)\<in>set (scan 0). pegged_fits info" using entries entries_expected(1) by fastforce
    have "pa_tx_count (fst (foldl pegged.step (pegged_default, {}, None) (scan 0))) = of_nat (card (li_txid ` fst ` set (scan 0)))"
      using pegged.fold_counts [OF scan(2), of pegged_default] by (cases "scan 0 = []") (auto simp: pegged_default_def split: prod.splits)
    then show "\<exists>st pcache'. chain_asset_stats scan hb pegged_default apply_pegged_asset_stats pcache = Ok (st, pcache')
        \<and> cache_sound hb pegged_default apply_pegged_asset_stats (scan 0) pcache'
        \<and> pa_tx_count st = of_nat (card (li_txid ` fst ` set (scan 0)))
        \<and> asset_supply (Native st pegged_default)
            = Some (sum_list (map (pegged_in \<circ> fst) (scan 0)) - sum_list (map (pegged_out \<circ> fst) (scan 0)) - sum_list (map (burned_of \<circ> fst) (scan 0)))"
      using pegged.cached_exact [OF s scan(2) fit c] pegged_fold [of "scan 0"]
      by (fastforce simp: asset_supply_def pegged_default_def split: prod.splits)
  qed
qed

end
