(* ===== verification/Spec2Isabelle.thy ===== *)
theory Spec2Isabelle
  imports Merkle Sigops Query Queue Electrum_Server Rest_Pages Rest_Sockets Client_Routes Client_Values Calculator Edge Daemon_Rpc App
    Assets
begin

text \<open>
  A verification development for splora, an address and transaction indexer for a Bitcoin node with an Electrum and an
  HTTP interface, a gate that admits signed requests of listed keys, a public front and two clients. Paths below are
  those of the repository, \<^verbatim>\<open>src/\<close> for the indexer and \<^verbatim>\<open>frontend/\<close> for the clients.

  \<^bold>\<open>The program and how its parts interact.\<close> The main loop (\<^verbatim>\<open>src/bin/electrs.rs\<close>) asks the node for its tip. When it
  moved, the indexer (\<^verbatim>\<open>src/new_index/schema.rs\<close>) follows the headers of the node, fetches new blocks (\<^verbatim>\<open>fetch.rs\<close>), takes
  back the rows of abandoned ones and writes rows into three RocksDB databases (\<^verbatim>\<open>db.rs\<close>). Then the mempool (\<^verbatim>\<open>mempool.rs\<close>) is
  brought in step with that of the node, and the Electrum connections and the websocket clients are told. Requests read
  the chain and the mempool through one query object (\<^verbatim>\<open>query.rs\<close>). HTTP requests pass a NIP-98 check against an
  allowlist (\<^verbatim>\<open>src/auth.rs\<close>), to which keys come through an approval queue (\<^verbatim>\<open>src/queue.rs\<close>). The public front
  (\<^verbatim>\<open>src/http_front\<close>) sends a request to the socket of the network its path names.

  \<^bold>\<open>Conventions.\<close> The model is that of the default build, release profile: sums of machine integers wrap, a panic ends
  the process. A fallible call has an \<open>outcome\<close>: \<open>Ok\<close>, \<open>Err\<close> or \<open>Panic\<close>, so that every unwrap, index and assertion of the
  source is a branch, and \<open>never panics\<close> is a statement. Structures are records, enumerations datatypes, hashes their 32
  bytes, strings lists of code points, integers words of their width where they can wrap or are stored. What the code
  calls of other packages is a record of functions and an argument of each definition that uses it: \<open>bitcoin_lib\<close>,
  \<open>rocks\<close>, \<open>bitcoind\<close>, \<open>nostr_lib\<close>, \<open>electrum_lib\<close>, \<open>rest_lib\<close>, \<open>net_env\<close>, \<open>rpc_lib\<close>, \<open>elements_lib\<close>. Theorems state what they
  rely on as premises, and each has an instance on concrete functions. Floating-point numbers are values of an arbitrary
  type, with their operations as arguments.

  \<^bold>\<open>The index.\<close>
  \<^item> \<open>Prelude\<close>: outcomes, iterator adaptors, reachability and the locale \<open>invariant_machine\<close>, whose lemmas give what holds in
    every reachable state. \<open>Codec\<close> (\<^verbatim>\<open>util/bincode_util.rs\<close>): the locales \<open>codec\<close> and \<open>fixed_codec\<close>, interpreted on the
    integers and arrays of the format and, in \<open>Rows\<close>, on every key of the schema.
  \<^item> \<open>Chain_Types\<close> (\<^verbatim>\<open>chain.rs\<close>, \<^verbatim>\<open>util/transaction.rs\<close>, \<^verbatim>\<open>util/script.rs\<close>), \<open>Sigops\<close> (against the rule of Bitcoin Core), \<open>Fees\<close>
    (\<^verbatim>\<open>util/fees.rs\<close>), \<open>Merkle\<close> (\<^verbatim>\<open>util/electrum_merkle.rs\<close>, against the root and the check a light client does).
  \<^item> \<open>Header_List\<close> (\<^verbatim>\<open>util/block.rs\<close>): the best chain in memory; the machine \<open>sync\<close> shows that in every reachable state its
    lookups are those of a chain and never return a block of an abandoned fork.
  \<^item> \<open>Rows\<close>: keys, encoders and decoders, scan bounds; round trips, and that the order of bytes is the order of the chain.
    \<open>DB\<close> (\<^verbatim>\<open>db.rs\<close>): the iterators and the merge of reverse scans; the locale \<open>rocksdb\<close> says what is used of RocksDB, the
    locale \<open>kv_store\<close> what the index uses of \<open>DB\<close>, a sublocale gives the second from the first, and
    association lists interpret it.
  \<^item> \<open>Daemon\<close> (headers, \<^verbatim>\<open>daemon.rs\<close>), \<open>Daemon_Rpc\<close> (the JSON-RPC transport of the same file), \<open>Fetch\<close> (\<^verbatim>\<open>fetch.rs\<close>), \<open>Indexer\<close>
    (the operations of \<open>Store\<close> and \<open>Indexer\<close>), \<open>Store_Complete\<close> (every row of every block of the header list is in the
    database, through additions and reorganisations), \<open>Index_Updates\<close> (what an update leaves: the headers of the node, unless
    the node went back on its own branch, where the update panics; a complete store; exact history rows; and two ways in
    which rows can be missing), \<open>Chain_Query\<close> and \<open>Balance\<close> (\<open>ChainQuery\<close>: confirmations, spends, pages, unspent
    outputs and statistics; its caches are transparent).
  \<^item> \<open>Mempool\<close> (\<^verbatim>\<open>mempool.rs\<close>), also as the machine \<open>mempool_threads\<close>, because an update releases its locks between its phases;
    \<open>Query\<close> (\<^verbatim>\<open>query.rs\<close>): chain and mempool as one view.
  \<^item> \<open>Assets\<close> (\<^verbatim>\<open>elements/asset.rs\<close>, \<^verbatim>\<open>elements/peg.rs\<close>, \<^verbatim>\<open>elements/mod.rs\<close>; the liquid build): entries, mempool copy and statistics.
    The loop that counts is treated once in the locale \<open>asset_counting\<close>, interpreted as \<open>issued\<close> and \<open>pegged\<close>.
  \<^item> \<open>App\<close> (\<^verbatim>\<open>bin/electrs.rs\<close>, \<^verbatim>\<open>signal.rs\<close>): one iteration of the main loop, signals and the shutdown.

  \<^bold>\<open>The interfaces.\<close>
  \<^item> \<open>Text_Json\<close>: strings and JSON values. \<open>Electrum\<close> (the methods of a connection, \<^verbatim>\<open>electrum/server.rs\<close>),
    \<open>Electrum_Reader\<close> (bytes to requests, PROXY headers), \<open>Electrum_Server\<close> (all connections as the machine
    \<open>electrum_machine\<close>: exact counts, limits, and that a subscriber learns of every change).
  \<^item> \<open>Discovery\<close> (\<^verbatim>\<open>electrum/discovery.rs\<close>, the build with server discovery) with the machine \<open>discovery_machine\<close>: a
    health check is four steps of the jobs thread, the server is asked with the queue unlocked, and requests come between the steps.
  \<^item> \<open>Rest_Values\<close>, \<open>Rest\<close>, \<open>Rest_Pages\<close>, \<open>Rest_Server\<close> (\<^verbatim>\<open>src/rest.rs\<close>): JSON values, every handler with its errors, paging
    across mempool and chain, and the gate. \<open>Mwck\<close>, \<open>Mwck_Events\<close>, \<open>Mwck_Tip\<close> (\<^verbatim>\<open>src/mwck.rs\<close>): the websocket hub, its events
    and a new tip. \<open>Rest_Sockets\<close>: requests, sockets, hub and allowlist as \<open>http_machine\<close>.
  \<^item> \<open>Auth\<close> (\<^verbatim>\<open>src/auth.rs\<close>): the exact condition under which a request is admitted. \<open>Queue\<close> (\<^verbatim>\<open>src/queue.rs\<close>): submissions, with the
    locale \<open>rate_limited\<close> interpreted for the limit per key and the limit per address.

  \<^bold>\<open>Front and clients.\<close>
  \<^item> \<open>Client_Auth\<close> (\<^verbatim>\<open>frontend/splora-api\<close>, \<^verbatim>\<open>frontend/web/src/auth.rs\<close>, \<^verbatim>\<open>frontend/native/src/signer.rs\<close>): signed requests;
    \<open>Http_Front\<close> (\<^verbatim>\<open>src/http_front/mod.rs\<close>): routing and rewriting; \<open>Edge\<close> composes client, front and indexer, with one client
    that is answered and one that is refused.
  \<^item> \<open>Client_Routes\<close> (\<^verbatim>\<open>frontend/shared/src/paths.rs\<close>, \<^verbatim>\<open>frontend/web/src/search.rs\<close>): each route and
    each path builder with the handler of the indexer that answers it, the paths of assets as not answered, search, escaping. \<open>Client_Values\<close> (\<^verbatim>\<open>wire.rs\<close>, \<^verbatim>\<open>parse.rs\<close>): the readers of the clients composed with the
    JSON the indexer writes. \<open>Calculator\<close> (\<^verbatim>\<open>calculator.rs\<close>, \<^verbatim>\<open>fiat.rs\<close>): amounts as text.

  \<^bold>\<open>Loops.\<close> There is no fuel. Loops over data are structural or have a measure. Three may run for ever and are partial
  functions into \<open>option\<close>, where \<open>None\<close> is a call that does not return: the walk back along the headers of a node, and
  connecting and retrying on a lost connection. For each it is proved that it returns, against a node that serves a
  chain or comes back. Threads are interleaved steps of a machine; what runs under one lock is one step.

  \<^bold>\<open>Not modelled.\<close> Sockets, TLS, QUIC, the asynchronous runtime and accept loops; command-line and configuration parsing;
  metrics and logging; opening and compacting RocksDB; the thread pool that fills caches at start; the asset registry
  of the liquid build and its routes; the statistics programs; widgets, markup and screens of the clients. JSON texts,
  base64 decoding, signatures, script parsing and hashing are third-party code and arguments. Memory use and time are
  not stated, except where the code has an explicit limit.
\<close>

end
